(* ===== verification/PAE_Prelude.thy ===== *)
theory PAE_Prelude
  imports Main "HOL-Library.Word"
begin

text \<open>
  Prelude of the development: the machine types of the C++ sources, the checked and the
  wrapping arithmetic on \<open>std::size_t\<close>, and the lemmas on words, lists and natural numbers
  that several components share.

  Conventions.  A value that travels on the wire or is computed bitwise is a word of its C++
  width.  \<open>std::int64_t\<close> and \<open>std::int32_t\<close> are words read with \<^term>\<open>sint\<close>.
  A size, an index, a count or an offset (\<open>std::size_t\<close>, and the \<open>std::uint64_t\<close> members
  of a plan that only hold lengths) is a \<^typ>\<open>nat\<close>; the target has 64-bit sizes, so the
  largest is \<open>SIZE_MAX\<close>, and an addition the code leaves unchecked on values it did not
  bound itself is written with \<open>size_add\<close>, which wraps.  An array access out of range is
  undefined in C++; its image here is the unspecified \<open>xs ! i\<close>, about which nothing can be
  proved, so every theorem that depends on such an access carries the bound that excludes it.
\<close>

unbundle bit_operations_syntax

type_synonym u8 = "8 word"
type_synonym u32 = "32 word"
type_synonym u64 = "64 word"
type_synonym i32 = "32 word"
type_synonym i64 = "64 word"

named_theorems wide_simps \<open>values of the 256-bit limb operations\<close>
named_theorems codec_simps \<open>guards and outcomes of the record codec\<close>
named_theorems framer_simps \<open>single steps of the stream framer\<close>

definition SIZE_MAX :: nat where
  "SIZE_MAX = 18446744073709551615"

definition size_add :: "nat \<Rightarrow> nat \<Rightarrow> nat" where
  "size_add a b = (a + b) mod (SIZE_MAX + 1)"

lemma size_add_exact [simp]: "a + b \<le> SIZE_MAX \<Longrightarrow> size_add a b = a + b"
  by (simp add: size_add_def)

lemma SIZE_MAX_pos [simp]: "0 < SIZE_MAX"
  by (simp add: SIZE_MAX_def)

subsection \<open>Words as numbers\<close>

lemma unat_u32_lt [simp]: "unat (w :: u32) < 4294967296"
  using unsigned_less [of w] by (simp del: unsigned_less)

lemma unat_u64_lt [simp]: "unat (w :: u64) < 18446744073709551616"
  using unsigned_less [of w] by (simp del: unsigned_less)

lemma unat_u8_lt [simp]: "unat (w :: u8) < 256"
  using unsigned_less [of w] by (simp del: unsigned_less)

lemma unat_u32_of_u64: "unat (ucast (w :: u64) :: u32) = unat w mod 4294967296"
  by (simp add: unsigned_ucast_eq take_bit_eq_mod)

lemma unat_u64_of_u32 [simp]: "unat (ucast (w :: u32) :: u64) = unat w"
  by (simp add: unsigned_ucast_eq take_bit_eq_mod less_trans [OF unat_u32_lt])

lemma unat_high_u64: "unat (drop_bit 32 (w :: u64)) = unat w div 4294967296"
  by (subst unat_drop_bit_eq) (simp add: drop_bit_eq_div)

lemma split_u64: "unat (w :: u64) = unat w mod 4294967296 + 4294967296 * (unat w div 4294967296)"
  by simp

lemma unat_u64_add: "unat (a + b :: u64) = (unat a + unat b) mod 18446744073709551616"
  by (simp add: unat_word_ariths)

lemma unat_u64_mult: "unat (a * b :: u64) = (unat a * unat b) mod 18446744073709551616"
  by (simp add: unat_word_ariths)

lemma unat_u64_high_lt [simp]: "unat (w :: u64) div 4294967296 < 4294967296"
  by (rule less_mult_imp_div_less) (use unat_u64_lt [of w] in simp)

subsection \<open>Powers of two\<close>

lemma unat_push_1: "n < 64 \<Longrightarrow> unat (push_bit n (1 :: u64)) = 2 ^ n"
  by (subst unsigned_push_bit_eq) (simp_all add: take_bit_nat_eq_self_iff push_bit_eq_mult)

lemma unat_mask_u64: "n \<le> 64 \<Longrightarrow> unat (mask n :: u64) = 2 ^ n - 1"
proof -
  assume n: "n \<le> 64"
  then have "min 64 n = n" by simp
  then have "uint (mask n :: u64) = 2 ^ n - 1"
    by (subst Word.uint_mask_eq) (simp add: mask_eq_exp_minus_1)
  then have "int (unat (mask n :: u64)) = int (2 ^ n - 1)" by (simp add: of_nat_diff)
  then show ?thesis by (simp only: of_nat_eq_iff)
qed

lemma power_width_le: "w \<le> 8 \<Longrightarrow> (2::nat) ^ (8 * w) \<le> 2 ^ 64"
  by (intro power_increasing) auto

lemma power_width_half: "1 \<le> w \<Longrightarrow> (2::'a::{semiring_1}) ^ (8 * w) = 2 * 2 ^ (8 * w - 1)"
  by (cases w) (simp_all flip: power_Suc)

lemma int_pow2:
  "int a < 2 ^ k \<longleftrightarrow> a < 2 ^ k" "int a \<le> 2 ^ k \<longleftrightarrow> a \<le> 2 ^ k"
  "- (2 ^ k) \<le> int a" "- int a < 2 ^ k" for a k :: nat
proof -
  show "int a < 2 ^ k \<longleftrightarrow> a < 2 ^ k"
    by (metis of_nat_less_numeral_power_cancel_iff of_nat_numeral)
  show "int a \<le> 2 ^ k \<longleftrightarrow> a \<le> 2 ^ k"
    by (metis of_nat_le_numeral_power_cancel_iff of_nat_numeral)
  have "(0::int) < 2 ^ k" by simp
  then show "- (2 ^ k) \<le> int a" "- int a < 2 ^ k" by linarith+
qed

lemma uint_pow2:
  "uint b < 2 ^ k \<longleftrightarrow> unat b < 2 ^ k" "- (2 ^ k) \<le> uint b" for b :: u64 and k :: nat
  using int_pow2(1) [of "unat b" k] int_pow2(3) [of k "unat b"] by simp_all

subsection \<open>Two's complement of a value of eight times w bits\<close>

lemma sign_bit_clear_iff:
  assumes "1 \<le> w" "unat (bits :: u64) < 2 ^ (8 * w)"
  shows "bits AND push_bit (8 * w - 1) 1 = 0 \<longleftrightarrow> unat bits < 2 ^ (8 * w - 1)"
proof -
  let ?n = "8 * w"
  have "bits AND push_bit (?n - 1) 1 = 0 \<longleftrightarrow> \<not> bit bits (?n - 1)"
    by (simp add: and_exp_eq_0_iff_not_bit)
  also have "\<dots> \<longleftrightarrow> even (unat bits div 2 ^ (?n - 1))"
  proof -
    have "bit bits (?n - 1) = bit (unat bits) (?n - 1)" by (simp add: bit_unsigned_iff)
    then show ?thesis by (simp only: bit_iff_odd [of "unat bits"] not_not)
  qed
  also have "\<dots> \<longleftrightarrow> unat bits < 2 ^ (?n - 1)"
  proof -
    have "unat bits div 2 ^ (?n - 1) < 2"
      using assms(2) power_width_half [OF assms(1), where 'a = nat]
      by (intro less_mult_imp_div_less) simp
    then have "even (unat bits div 2 ^ (?n - 1)) \<longleftrightarrow> unat bits div 2 ^ (?n - 1) = 0" by auto
    then show ?thesis by (simp add: div_eq_0_iff)
  qed
  finally show ?thesis .
qed

lemma unat_twos_magnitude:
  assumes "w \<le> 8" "unat (bits :: u64) < 2 ^ (8 * w)" "unat bits \<noteq> 0"
  shows "unat ((NOT bits AND (if 8 * w = 64 then - 1 else push_bit (8 * w) 1 - 1)) + 1) = 2 ^ (8 * w) - unat bits"
proof -
  let ?n = "8 * w"
  have m: "(if ?n = 64 then - 1 else push_bit ?n 1 - 1) = (mask ?n :: u64)"
    by (auto simp: mask_eq_exp_minus_1)
  have tb: "take_bit ?n bits = bits"
    using assms(2) by (simp add: word_unat_eq_iff unsigned_take_bit_eq take_bit_nat_eq_self)
  have "NOT bits AND mask ?n = mask ?n - bits"
    using take_bit_not_eq_mask_diff [of ?n bits] tb by (simp add: take_bit_eq_mask)
  moreover have um: "unat (mask ?n :: u64) = 2 ^ ?n - 1"
    using assms(1) by (simp add: unat_mask_u64)
  moreover have "bits \<le> mask ?n" using assms(2) um by (simp add: word_le_nat_alt)
  ultimately have "unat (NOT bits AND mask ?n) = 2 ^ ?n - 1 - unat bits"
    by (simp add: unat_sub_if' word_le_nat_alt)
  then show ?thesis
    unfolding m using assms(2,3) power_width_le [OF assms(1)]
    by (simp add: unat_u64_add)
qed

end
