(* ===== verification/Wide_Arith.thy ===== *)
theory Wide_Arith
  imports PAE_Prelude
begin

text \<open>
  The 256-bit integers of \<^verbatim>\<open>src/src/protocol_core/decimal_conversion_internal.cpp\<close>:
  \<open>Wide\<close>, eight 32-bit limbs with the least significant first, \<open>SignedWide\<close>, a magnitude and
  a sign, and their operations.  A C++ function with a \<open>bool\<close> result and an output reference
  that it writes on success only returns an option.  \<open>wval\<close> and \<open>sval\<close> read the numbers; the
  lemmas of this theory say that each operation computes the number it is named for, or refuses
  exactly when the number does not fit.
\<close>

section \<open>Limbs\<close>

type_synonym Wide = "u32 list"

record SignedWide =
  magnitude :: Wide
  negative :: bool

definition kDecimalCoefficientWordCount :: nat where
  "kDecimalCoefficientWordCount = 8"

definition wide_zero :: Wide where
  "wide_zero = replicate kDecimalCoefficientWordCount 0"

definition From64 :: "u64 \<Rightarrow> Wide" where
  "From64 value = wide_zero[0 := ucast value, 1 := ucast (drop_bit 32 value)]"

fun Compare_loop :: "nat \<Rightarrow> Wide \<Rightarrow> Wide \<Rightarrow> int" where
  "Compare_loop 0 left right = 0"
| "Compare_loop (Suc index) left right =
     (if left ! index \<noteq> right ! index then (if left ! index < right ! index then -1 else 1)
      else Compare_loop index left right)"

definition Compare :: "Wide \<Rightarrow> Wide \<Rightarrow> int" where
  "Compare left right = Compare_loop (length left) left right"

definition IsZero :: "Wide \<Rightarrow> bool" where
  "IsZero value \<longleftrightarrow> Compare value wide_zero = 0"

fun Add_loop :: "u64 \<Rightarrow> Wide \<Rightarrow> Wide \<Rightarrow> Wide \<times> u64" where
  "Add_loop carry (l # ls) (r # rs) =
     (let sum = ucast l + ucast r + carry;
          (rest, final) = Add_loop (drop_bit 32 sum) ls rs
      in (ucast sum # rest, final))"
| "Add_loop carry _ _ = ([], carry)"

definition Add :: "Wide \<Rightarrow> Wide \<Rightarrow> Wide option" where
  "Add left right =
     (let (result, carry) = Add_loop 0 left right
      in if carry \<noteq> 0 then None else Some result)"

fun Subtract_loop :: "u64 \<Rightarrow> Wide \<Rightarrow> Wide \<Rightarrow> Wide" where
  "Subtract_loop borrow (l # ls) (r # rs) =
     (let subtrahend = ucast r + borrow
      in ucast (ucast l - subtrahend)
           # Subtract_loop (if (ucast l :: u64) < subtrahend then 1 else 0) ls rs)"
| "Subtract_loop borrow _ _ = []"

definition Subtract :: "Wide \<Rightarrow> Wide \<Rightarrow> Wide" where
  "Subtract left right = Subtract_loop 0 left right"

fun Multiply_inner :: "u32 \<Rightarrow> nat \<Rightarrow> u64 \<Rightarrow> u32 list \<Rightarrow> Wide \<Rightarrow> u32 list \<times> u64" where
  "Multiply_inner l target carry product [] = (product, carry)"
| "Multiply_inner l target carry product (r # rs) =
     (let value = ucast l * ucast r + ucast (product ! target) + carry
      in Multiply_inner l (Suc target) (drop_bit 32 value) (product[target := ucast value]) rs)"

fun Multiply_outer :: "nat \<Rightarrow> u32 list \<Rightarrow> Wide \<Rightarrow> Wide \<Rightarrow> u32 list" where
  "Multiply_outer left_index product [] right = product"
| "Multiply_outer left_index product (l # ls) right =
     (let (product', carry) = Multiply_inner l left_index 0 product right
      in Multiply_outer (Suc left_index)
           (product'[left_index + kDecimalCoefficientWordCount := ucast carry]) ls right)"

definition Multiply :: "Wide \<Rightarrow> Wide \<Rightarrow> Wide option" where
  "Multiply left right =
     (let product = Multiply_outer 0 (replicate (2 * kDecimalCoefficientWordCount) 0) left right
      in if \<exists>word \<in> set (drop kDecimalCoefficientWordCount product). word \<noteq> 0 then None
         else Some (take kDecimalCoefficientWordCount product))"

fun Shift_in :: "u32 \<Rightarrow> Wide \<Rightarrow> Wide" where
  "Shift_in carry [] = []"
| "Shift_in carry (w # ws) = (push_bit 1 w OR carry) # Shift_in (drop_bit 31 w) ws"

definition Divide_step :: "Wide \<Rightarrow> Wide \<Rightarrow> nat \<Rightarrow> Wide \<times> Wide \<Rightarrow> Wide \<times> Wide" where
  "Divide_step numerator denominator index state =
     (let (quotient, remainder) = state;
          high_bit = (drop_bit 31 (last remainder) \<noteq> 0);
          carry = drop_bit (index mod 32) (numerator ! (index div 32)) AND 1;
          remainder = Shift_in carry remainder
      in if high_bit \<or> Compare remainder denominator \<ge> 0
         then (quotient[index div 32 := (quotient ! (index div 32)) OR push_bit (index mod 32) 1],
               Subtract remainder denominator)
         else (quotient, remainder))"

fun Divide_loop :: "nat \<Rightarrow> Wide \<Rightarrow> Wide \<Rightarrow> Wide \<times> Wide \<Rightarrow> Wide \<times> Wide" where
  "Divide_loop 0 numerator denominator state = state"
| "Divide_loop (Suc index) numerator denominator state =
     Divide_loop index numerator denominator (Divide_step numerator denominator index state)"

definition Divide :: "Wide \<Rightarrow> Wide \<Rightarrow> (Wide \<times> Wide) option" where
  "Divide numerator denominator =
     (if IsZero denominator then None
      else Some (Divide_loop 256 numerator denominator (wide_zero, wide_zero)))"

definition To64 :: "Wide \<Rightarrow> u64 option" where
  "To64 value =
     (if \<exists>word \<in> set (drop 2 value). word \<noteq> 0 then None
      else Some (push_bit 32 (ucast (value ! 1)) OR ucast (value ! 0)))"

section \<open>Signed magnitudes\<close>

definition Canonical :: "SignedWide \<Rightarrow> SignedWide" where
  "Canonical value = (if IsZero (magnitude value) then value\<lparr>negative := False\<rparr> else value)"

definition Magnitude :: "i64 \<Rightarrow> u64" where
  "Magnitude value = (if sint value < 0 then 0 - value else value)"

definition FromSigned :: "i64 \<Rightarrow> SignedWide" where
  "FromSigned value = \<lparr>magnitude = From64 (Magnitude value), negative = sint value < 0\<rparr>"

definition SignedAdd :: "SignedWide \<Rightarrow> SignedWide \<Rightarrow> SignedWide option" where
  "SignedAdd left right =
     (if negative left = negative right then
        map_option (\<lambda>m. Canonical \<lparr>magnitude = m, negative = negative left\<rparr>)
          (Add (magnitude left) (magnitude right))
      else if Compare (magnitude left) (magnitude right) \<ge> 0 then
        Some (Canonical \<lparr>magnitude = Subtract (magnitude left) (magnitude right),
                         negative = negative left\<rparr>)
      else
        Some (Canonical \<lparr>magnitude = Subtract (magnitude right) (magnitude left),
                         negative = negative right\<rparr>))"

definition SignedMultiply :: "SignedWide \<Rightarrow> SignedWide \<Rightarrow> SignedWide option" where
  "SignedMultiply left right =
     map_option (\<lambda>m. Canonical \<lparr>magnitude = m, negative = (negative left \<noteq> negative right)\<rparr>)
       (Multiply (magnitude left) (magnitude right))"

definition ToSigned :: "SignedWide \<Rightarrow> i64 option" where
  "ToSigned value =
     (case To64 (magnitude value) of
        None \<Rightarrow> None
      | Some m \<Rightarrow>
          let sign = push_bit 63 1 in
          if m > (if negative value then sign else sign - 1) then None
          else Some (if negative value then (if m = sign then sign else - m) else m))"

section \<open>The number a limb list stands for\<close>

fun wval :: "u32 list \<Rightarrow> nat" where
  "wval [] = 0"
| "wval (w # ws) = unat w + 4294967296 * wval ws"

definition sval :: "SignedWide \<Rightarrow> int" where
  "sval value = (if negative value then - int (wval (magnitude value))
                 else int (wval (magnitude value)))"

definition wide_ok :: "Wide \<Rightarrow> bool" where
  "wide_ok value \<longleftrightarrow> length value = 8"

definition signed_ok :: "SignedWide \<Rightarrow> bool" where
  "signed_ok value \<longleftrightarrow> wide_ok (magnitude value) \<and>
     (negative value \<longrightarrow> wval (magnitude value) \<noteq> 0)"

lemma wval_append: "wval (xs @ ys) = wval xs + 4294967296 ^ length xs * wval ys"
  by (induction xs) (auto simp: algebra_simps)

lemma wval_lt: "wval ws < 4294967296 ^ length ws"
proof (induction ws)
  case (Cons w ws)
  have "unat w + 4294967296 * wval ws < 4294967296 * Suc (wval ws)"
    by simp
  also have "\<dots> \<le> 4294967296 * 4294967296 ^ length ws"
    using Cons by (intro mult_left_mono) auto
  finally show ?case by simp
qed simp

lemma wval_wide_lt: "wide_ok w \<Longrightarrow> wval w < 2 ^ 256"
  using wval_lt [of w] by (simp add: wide_ok_def)

lemma wval_replicate_0 [simp]: "wval (replicate n 0) = 0"
  by (induction n) auto

lemma wide_zero_props [simp]: "wval wide_zero = 0" "wide_ok wide_zero" "length wide_zero = 8"
  by (simp_all add: wide_zero_def kDecimalCoefficientWordCount_def wide_ok_def)

lemma wval_update:
  "i < length ws \<Longrightarrow>
     wval (ws[i := v]) + unat (ws ! i) * 4294967296 ^ i = wval ws + unat v * 4294967296 ^ i"
proof (induction ws arbitrary: i)
  case (Cons w ws)
  show ?case
  proof (cases i)
    case (Suc j)
    with Cons.prems have "j < length ws" by simp
    from Cons.IH [OF this] show ?thesis
      using Suc by (simp add: algebra_simps)
  qed simp
qed simp

lemma wval_take_Suc:
  "i < length ws \<Longrightarrow> wval (take (Suc i) ws) = wval (take i ws) + unat (ws ! i) * 4294967296 ^ i"
  by (simp add: take_Suc_conv_app_nth wval_append algebra_simps)

lemma wval_take_lt: "wval (take i ws) < 4294967296 ^ i"
proof -
  have "wval (take i ws) < 4294967296 ^ length (take i ws)" by (rule wval_lt)
  also have "\<dots> \<le> 4294967296 ^ i" by (intro power_increasing) auto
  finally show ?thesis .
qed

lemma wval_drop_zero: "(\<forall>word \<in> set ws. word = 0) \<longleftrightarrow> wval ws = 0"
  by (induction ws) (auto simp: unat_eq_zero)

subsection \<open>Comparison\<close>

lemma limb_step_less:
  fixes a b x y p :: nat
  assumes "x < y" "a < p"
  shows "a + x * p < b + y * p"
proof -
  have "a + x * p < p + x * p" using assms by simp
  also have "\<dots> = Suc x * p" by simp
  also have "\<dots> \<le> y * p" using assms by (intro mult_right_mono) auto
  finally show ?thesis by simp
qed

lemma Compare_loop_wval:
  "i \<le> length l \<Longrightarrow> i \<le> length r \<Longrightarrow>
     Compare_loop i l r =
       (if wval (take i l) < wval (take i r) then -1
        else if wval (take i l) = wval (take i r) then 0 else 1)"
proof (induction i)
  case (Suc i)
  then have i: "i < length l" "i < length r" by auto
  show ?case
  proof (cases "l ! i = r ! i")
    case True
    with Suc i show ?thesis by (simp add: wval_take_Suc)
  next
    case False
    then have ne: "unat (l ! i) \<noteq> unat (r ! i)" by (simp add: word_unat_eq_iff)
    show ?thesis
    proof (cases "l ! i < r ! i")
      case True
      then have "unat (l ! i) < unat (r ! i)" by (simp add: word_less_nat_alt)
      from limb_step_less [OF this wval_take_lt]
      show ?thesis using i False True by (simp add: wval_take_Suc)
    next
      case nless: False
      with ne have "unat (r ! i) < unat (l ! i)" by (simp add: word_less_nat_alt)
      from limb_step_less [OF this wval_take_lt, where b = "wval (take i l)" and ws1 = r]
      have "wval (take (Suc i) r) < wval (take (Suc i) l)" using i by (simp add: wval_take_Suc)
      with False nless show ?thesis by simp
    qed
  qed
qed simp

lemma Compare_wval [wide_simps]:
  "wide_ok l \<Longrightarrow> wide_ok r \<Longrightarrow>
     Compare l r = (if wval l < wval r then -1 else if wval l = wval r then 0 else 1)"
  by (simp add: Compare_def wide_ok_def Compare_loop_wval)

lemma IsZero_wval [wide_simps]: "wide_ok v \<Longrightarrow> IsZero v \<longleftrightarrow> wval v = 0"
  by (simp add: IsZero_def Compare_wval)

lemma From64_list: "From64 v = [ucast v, ucast (drop_bit 32 v), 0, 0, 0, 0, 0, 0]"
  by (simp add: From64_def wide_zero_def kDecimalCoefficientWordCount_def numeral_eq_Suc)

lemma From64_wval [wide_simps, simp]: "wval (From64 v) = unat v"
proof -
  have "unat v div 4294967296 < 4294967296"
    using unat_u64_lt [of v] by simp
  then show ?thesis
    by (simp only: From64_list wval.simps unat_u32_of_u64 unat_high_u64) simp
qed

lemma From64_ok [simp]: "wide_ok (From64 v)"
  by (simp add: From64_list wide_ok_def)

subsection \<open>Addition and subtraction\<close>

lemma add_limb:
  assumes "unat c \<le> 1"
  shows "unat (ucast (ucast (l :: u32) + ucast (r :: u32) + (c :: u64)) :: u32)
           + 4294967296 * unat (drop_bit 32 (ucast l + ucast r + c :: u64))
         = unat l + unat r + unat c"
    and "unat (drop_bit 32 (ucast l + ucast r + c :: u64)) \<le> 1"
proof -
  have b: "unat l + unat r + unat c < 8589934592"
    using assms unat_u32_lt [of l] unat_u32_lt [of r] by linarith
  then have sum: "unat (ucast l + ucast r + c :: u64) = unat l + unat r + unat c"
    by (simp add: unat_u64_add)
  show "unat (ucast (ucast l + ucast r + c :: u64) :: u32)
      + 4294967296 * unat (drop_bit 32 (ucast l + ucast r + c :: u64)) = unat l + unat r + unat c"
    by (simp only: unat_u32_of_u64 unat_high_u64 sum mod_mult_div_eq)
  show "unat (drop_bit 32 (ucast l + ucast r + c :: u64)) \<le> 1"
    using b by (simp only: unat_high_u64 sum)
qed

lemma Add_loop_wval:
  "length l = length r \<Longrightarrow> unat c \<le> 1 \<Longrightarrow> Add_loop c l r = (res, c') \<Longrightarrow>
     length res = length l \<and> unat c' \<le> 1 \<and>
     wval res + 4294967296 ^ length l * unat c' = wval l + wval r + unat c"
proof (induction c l r arbitrary: res c' rule: Add_loop.induct)
  case (1 c l ls r rs)
  obtain rest final where rec: "Add_loop (drop_bit 32 (ucast l + ucast r + c)) ls rs = (rest, final)"
    by (cases "Add_loop (drop_bit 32 (ucast l + ucast r + c)) ls rs")
  from "1.prems" rec have out: "res = ucast (ucast l + ucast r + c) # rest" "c' = final"
    by (auto simp: Let_def)
  note limb = add_limb [OF "1.prems"(2), of l r]
  have IH: "length rest = length ls \<and> unat final \<le> 1 \<and>
      wval rest + 4294967296 ^ length ls * unat final
        = wval ls + wval rs + unat (drop_bit 32 (ucast l + ucast r + c))"
    using "1.IH" [OF refl _ limb(2) rec] "1.prems"(1) by simp
  have "wval res + 4294967296 ^ length (l # ls) * unat c'
      = unat (ucast (ucast l + ucast r + c :: u64) :: u32)
        + 4294967296 * (wval rest + 4294967296 ^ length ls * unat final)"
    by (simp add: out algebra_simps)
  also have "\<dots> = wval (l # ls) + wval (r # rs) + unat c"
    using IH limb(1) by (simp add: algebra_simps)
  finally show ?case using IH out by simp
qed auto

lemma Add_wval [wide_simps]:
  assumes "wide_ok l" "wide_ok r"
  shows "Add l r = Some res \<Longrightarrow> wide_ok res \<and> wval res = wval l + wval r"
    and "Add l r = None \<longleftrightarrow> wval l + wval r \<ge> 2 ^ 256"
proof -
  obtain out c where loop: "Add_loop 0 l r = (out, c)" by (cases "Add_loop 0 l r")
  from assms have len: "length l = 8" "length r = 8" by (simp_all add: wide_ok_def)
  from Add_loop_wval [OF _ _ loop] len
  have f: "length out = 8" "unat c \<le> 1" "wval out + 2 ^ 256 * unat c = wval l + wval r"
    by simp_all
  have lt: "wval out < 2 ^ 256" using f(1) by (intro wval_wide_lt) (simp add: wide_ok_def)
  show "Add l r = Some res \<Longrightarrow> wide_ok res \<and> wval res = wval l + wval r"
    using f loop by (auto simp: Add_def wide_ok_def split: if_splits)
  have "c \<noteq> 0 \<longleftrightarrow> unat c = 1"
    using f(2) by (metis le_neq_implies_less less_one unat_0 unat_eq_zero zero_neq_one)
  then have "c \<noteq> 0 \<longleftrightarrow> wval l + wval r \<ge> 2 ^ 256"
    using f(2,3) lt by (cases "unat c") auto
  then show "Add l r = None \<longleftrightarrow> wval l + wval r \<ge> 2 ^ 256"
    using loop by (simp add: Add_def)
qed

lemma sub_limb:
  assumes "unat (b :: u64) \<le> 1"
  shows "unat (ucast (ucast (l :: u32) - (ucast (r :: u32) + b) :: u64) :: u32) + unat r + unat b
         = unat l + (if (ucast l :: u64) < ucast r + b then 4294967296 else 0)"
proof -
  have le: "unat r + unat b \<le> 4294967296"
    using assms unat_u32_lt [of r] by linarith
  then have s: "unat (ucast r + b :: u64) = unat r + unat b"
    by (simp add: unat_u64_add)
  show ?thesis
  proof (cases "unat r + unat b \<le> unat l")
    case True
    then have "\<not> (ucast l :: u64) < ucast r + b" by (simp add: word_less_nat_alt s)
    moreover have "unat (ucast l - (ucast r + b) :: u64) = unat l - (unat r + unat b)"
      using True by (simp add: unat_sub_if' s)
    moreover have "unat l - (unat r + unat b) < 4294967296"
      using unat_u32_lt [of l] by linarith
    ultimately show ?thesis using True by (simp add: unat_u32_of_u64)
  next
    case False
    then have lt: "(ucast l :: u64) < ucast r + b" by (simp add: word_less_nat_alt s)
    have "unat (ucast l - (ucast r + b) :: u64) = 18446744069414584320 + (unat l + 4294967296 - (unat r + unat b))"
      using False le by (simp add: unat_sub_if' s)
    moreover have "unat l + 4294967296 - (unat r + unat b) < 4294967296" using False by linarith
    ultimately have "unat (ucast (ucast l - (ucast r + b) :: u64) :: u32) = unat l + 4294967296 - (unat r + unat b)"
      by (simp add: unat_u32_of_u64 mod_add_eq [symmetric])
    with lt le show ?thesis by simp
  qed
qed

lemma Subtract_loop_wval:
  "length l = length r \<Longrightarrow> unat b \<le> 1 \<Longrightarrow>
     length (Subtract_loop b l r) = length l \<and>
     (\<exists>b'. b' \<le> 1 \<and>
        wval (Subtract_loop b l r) + wval r + unat b = wval l + 4294967296 ^ length l * b')"
proof (induction b l r rule: Subtract_loop.induct)
  case (1 b l ls r rs)
  let ?nb = "if (ucast l :: u64) < ucast r + b then 1 else 0 :: u64"
  have nb: "unat ?nb \<le> 1" by simp
  from "1.IH" [OF refl _ nb] "1.prems"(1) obtain b'
    where IH: "length (Subtract_loop ?nb ls rs) = length ls" "b' \<le> 1"
      "wval (Subtract_loop ?nb ls rs) + wval rs + unat ?nb = wval ls + 4294967296 ^ length ls * b'"
    by auto
  let ?w = "ucast (ucast l - (ucast r + b) :: u64) :: u32"
  have w: "unat ?w + unat r + unat b = unat l + 4294967296 * unat ?nb"
    using sub_limb [OF "1.prems"(2), of l r] by simp
  have "wval (Subtract_loop b (l # ls) (r # rs)) + wval (r # rs) + unat b + 4294967296 * unat ?nb
      = unat ?w + unat r + unat b + 4294967296 * (wval (Subtract_loop ?nb ls rs) + wval rs + unat ?nb)"
    by (simp add: Let_def)
  also have "\<dots> = wval (l # ls) + 4294967296 ^ length (l # ls) * b' + 4294967296 * unat ?nb"
    by (simp only: w IH(3)) (simp add: algebra_simps)
  finally have "wval (Subtract_loop b (l # ls) (r # rs)) + wval (r # rs) + unat b
      = wval (l # ls) + 4294967296 ^ length (l # ls) * b'"
    by linarith
  with IH show ?case by (auto simp: Let_def simp del: wval.simps)
qed (auto intro: exI [of _ 0])

lemma Subtract_ok: "wide_ok l \<Longrightarrow> wide_ok r \<Longrightarrow> wide_ok (Subtract l r)"
  using Subtract_loop_wval [of l r 0] by (simp add: Subtract_def wide_ok_def)

text \<open>Subtraction is modulo \<open>2 ^ 256\<close>: it is exact when the difference is a 256-bit number,
  also when the minuend carries a 257th bit that its limbs do not show.\<close>

lemma Subtract_wval:
  assumes "wide_ok l" "wide_ok r" "wval l + 2 ^ 256 * h = d + wval r" "d < 2 ^ 256"
  shows "wval (Subtract l r) = d"
proof -
  from assms obtain b' where b: "b' \<le> 1"
      "wval (Subtract l r) + wval r = wval l + 2 ^ 256 * b'"
    using Subtract_loop_wval [of l r 0] by (auto simp: Subtract_def wide_ok_def)
  have lt: "wval (Subtract l r) < 2 ^ 256" by (rule wval_wide_lt [OF Subtract_ok [OF assms(1,2)]])
  from b(2) assms(3) have "wval (Subtract l r) + 2 ^ 256 * h = d + 2 ^ 256 * b'" by linarith
  then have "(wval (Subtract l r) + 2 ^ 256 * h) mod 2 ^ 256 = (d + 2 ^ 256 * b') mod 2 ^ 256" by simp
  then show ?thesis using lt assms(4) by (simp del: power_numeral numeral_power_eq_of_nat_cancel_iff)
qed

subsection \<open>Multiplication\<close>

lemma mul_limb:
  fixes l r p :: u32 and c :: u64
  assumes "unat c < 4294967296"
  defines "v \<equiv> ucast l * ucast r + ucast p + c"
  shows "unat (ucast v :: u32) + 4294967296 * unat (drop_bit 32 v)
         = unat l * unat r + unat p + unat c"
proof -
  have "unat l * unat r \<le> 4294967295 * 4294967295"
    using unat_u32_lt [of l] unat_u32_lt [of r] by (intro mult_le_mono) linarith+
  then have b: "unat l * unat r + unat p + unat c < 18446744073709551616"
    using assms(1) unat_u32_lt [of p] by linarith
  then have "unat v = unat l * unat r + unat p + unat c"
    by (simp add: v_def unat_u64_add unat_u64_mult)
  then show ?thesis
    by (simp only: unat_u32_of_u64 unat_high_u64 mod_mult_div_eq)
qed

lemma Multiply_inner_wval:
  "target + length rs \<le> length product \<Longrightarrow> unat carry < 4294967296 \<Longrightarrow>
     Multiply_inner l target carry product rs = (p', c') \<Longrightarrow>
     length p' = length product \<and> unat c' < 4294967296 \<and>
     wval p' + unat c' * 4294967296 ^ (target + length rs)
       = wval product + unat l * wval rs * 4294967296 ^ target + unat carry * 4294967296 ^ target \<and>
     (\<forall>k \<ge> target + length rs. p' ! k = product ! k)"
proof (induction l target carry product rs arbitrary: p' c' rule: Multiply_inner.induct)
  case (2 l target carry product r rs)
  let ?v = "ucast l * ucast r + ucast (product ! target) + carry :: u64"
  let ?P = "product[target := ucast ?v]"
  have hi: "unat (drop_bit 32 ?v) < 4294967296" by (simp add: unat_high_u64)
  have rec: "Multiply_inner l (Suc target) (drop_bit 32 ?v) ?P rs = (p', c')"
    using "2.prems"(3) by (simp add: Let_def)
  have IH: "length p' = length ?P \<and> unat c' < 4294967296 \<and>
      wval p' + unat c' * 4294967296 ^ (Suc target + length rs)
        = wval ?P + unat l * wval rs * 4294967296 ^ Suc target
          + unat (drop_bit 32 ?v) * 4294967296 ^ Suc target \<and>
      (\<forall>k \<ge> Suc target + length rs. p' ! k = ?P ! k)"
    using "2.IH" [OF refl _ hi rec] "2.prems"(1) by simp
  have lt: "target < length product" using "2.prems"(1) by simp
  note upd = wval_update [OF lt, of "ucast ?v"]
  have "wval p' + unat c' * 4294967296 ^ (target + length (r # rs))
          + unat (product ! target) * 4294967296 ^ target
      = wval product + (unat (ucast ?v :: u32) + 4294967296 * unat (drop_bit 32 ?v)) * 4294967296 ^ target
          + unat l * wval rs * 4294967296 ^ Suc target"
    using IH upd by (simp add: algebra_simps)
  also have "\<dots> = wval product + unat l * wval (r # rs) * 4294967296 ^ target
      + unat carry * 4294967296 ^ target + unat (product ! target) * 4294967296 ^ target"
    by (subst mul_limb [OF "2.prems"(2)]) (simp add: algebra_simps)
  finally show ?case using IH by simp
qed simp

lemma Multiply_outer_wval:
  "length product = 16 \<Longrightarrow> length right = 8 \<Longrightarrow> left_index + length ls = 8 \<Longrightarrow>
     (\<forall>k. left_index + 8 \<le> k \<and> k < 16 \<longrightarrow> product ! k = 0) \<Longrightarrow>
     length (Multiply_outer left_index product ls right) = 16 \<and>
     wval (Multiply_outer left_index product ls right)
       = wval product + wval ls * wval right * 4294967296 ^ left_index"
proof (induction left_index product ls right rule: Multiply_outer.induct)
  case (2 left_index product l ls right)
  obtain p' c where inner: "Multiply_inner l left_index 0 product right = (p', c)"
    by (cases "Multiply_inner l left_index 0 product right")
  have "left_index + length right \<le> length product" using "2.prems" by simp
  from Multiply_inner_wval [OF this _ inner]
  have f: "length p' = 16"
    "wval p' + unat c * 4294967296 ^ (left_index + 8)
      = wval product + unat l * wval right * 4294967296 ^ left_index"
    "\<forall>k \<ge> left_index + 8. p' ! k = product ! k"
    using "2.prems" by simp_all
  let ?P = "p'[left_index + kDecimalCoefficientWordCount := ucast c]"
  have c: "unat (ucast c :: u32) = unat c"
    using Multiply_inner_wval [OF _ _ inner] "2.prems" by (simp add: unat_u32_of_u64)
  have P: "wval ?P = wval product + unat l * wval right * 4294967296 ^ left_index"
    using f(2,3) wval_update [of "left_index + 8" p' "ucast c"] f(1) "2.prems"
    by (simp add: c kDecimalCoefficientWordCount_def)
  have zero: "\<forall>k. Suc left_index + 8 \<le> k \<and> k < 16 \<longrightarrow> ?P ! k = 0"
    using f(3) "2.prems"(4) by (auto simp: kDecimalCoefficientWordCount_def)
  from "2.IH" [OF inner [symmetric] refl _ _ _ zero] "2.prems"(2,3) f(1)
  have "length (Multiply_outer (Suc left_index) ?P ls right) = 16 \<and>
    wval (Multiply_outer (Suc left_index) ?P ls right)
      = wval ?P + wval ls * wval right * 4294967296 ^ Suc left_index" by simp
  then show ?case using P by (simp add: inner algebra_simps)
qed simp

lemma Multiply_wval [wide_simps]:
  assumes "wide_ok l" "wide_ok r"
  shows "Multiply l r = Some res \<Longrightarrow> wide_ok res \<and> wval res = wval l * wval r"
    and "Multiply l r = None \<longleftrightarrow> wval l * wval r \<ge> 2 ^ 256"
proof -
  let ?p = "Multiply_outer 0 (replicate (2 * kDecimalCoefficientWordCount) 0) l r"
  have f: "length ?p = 16" "wval ?p = wval l * wval r"
    using Multiply_outer_wval [of "replicate (2 * kDecimalCoefficientWordCount) 0" r 0 l] assms
    by (simp_all add: wide_ok_def kDecimalCoefficientWordCount_def)
  have split: "wval l * wval r = wval (take 8 ?p) + 2 ^ 256 * wval (drop 8 ?p)"
    using wval_append [of "take 8 ?p" "drop 8 ?p"] f by simp
  have tk: "wide_ok (take 8 ?p)" using f by (simp add: wide_ok_def)
  have high: "(\<exists>word \<in> set (drop kDecimalCoefficientWordCount ?p). word \<noteq> 0) \<longleftrightarrow> wval (drop 8 ?p) \<noteq> 0"
    by (auto simp: wval_drop_zero [symmetric] kDecimalCoefficientWordCount_def)
  show "Multiply l r = Some res \<Longrightarrow> wide_ok res \<and> wval res = wval l * wval r"
    using split high tk by (auto simp: Multiply_def Let_def kDecimalCoefficientWordCount_def split: if_splits)
  have "wval (drop 8 ?p) \<noteq> 0 \<longleftrightarrow> wval l * wval r \<ge> 2 ^ 256"
    using split wval_wide_lt [OF tk] by (cases "wval (drop 8 ?p)") auto
  then show "Multiply l r = None \<longleftrightarrow> wval l * wval r \<ge> 2 ^ 256"
    using high by (simp add: Multiply_def Let_def)
qed

subsection \<open>Division\<close>

lemma bit_limb:
  "bit (unat (w :: u32) + 4294967296 * m) i = (if i < 32 then bit w i else bit m (i - 32))"
proof -
  have eq: "int (unat w + 4294967296 * m) = concat_bit 32 (uint w) (int m)"
  proof -
    have "take_bit 32 (uint w) = uint w"
      using unsigned_less [of w, where ?'a = int] by (simp add: take_bit_int_eq_self_iff)
    then show ?thesis by (simp add: concat_bit_eq push_bit_eq_mult)
  qed
  have "bit (unat w + 4294967296 * m) i = bit (int (unat w + 4294967296 * m)) i"
    by (simp only: bit_of_nat_iff_bit)
  also have "\<dots> = bit (concat_bit 32 (uint w) (int m)) i" by (simp only: eq)
  finally show ?thesis by (simp add: bit_concat_bit_iff bit_of_nat_iff_bit bit_uint_iff)
qed

lemma bit_wval: "k < 32 * length ws \<Longrightarrow> bit (wval ws) k = bit (ws ! (k div 32)) (k mod 32)"
proof (induction ws arbitrary: k)
  case (Cons w ws)
  show ?case
  proof (cases "k < 32")
    case False
    then have "k div 32 = Suc ((k - 32) div 32)" "k mod 32 = (k - 32) mod 32"
      by (simp_all add: le_div_geq le_mod_geq)
    with False Cons show ?thesis by (simp add: bit_limb)
  qed (simp add: bit_limb)
qed simp

lemma small_word: "unat (c :: u32) \<le> 1 \<Longrightarrow> c = 0 \<or> c = 1"
  by (metis le_neq_implies_less less_one unat_1 unat_eq_zero word_unat_eq_iff)

lemma unat_shift_in:
  assumes "unat c \<le> 1"
  shows "unat (push_bit 1 (w :: u32) OR c) + 4294967296 * unat (drop_bit 31 w)
     = 2 * unat w + unat c"
    and "unat (drop_bit 31 w) \<le> 1"
proof -
  from small_word [OF assms] have c: "c = 0 \<or> c = 1" .
  have "\<not> bit (push_bit 1 w) n \<or> \<not> bit c n" for n
    using c bit_push_bit_iff [of 1 w n] by (auto simp: bit_1_iff bit_0)
  then have "push_bit 1 w OR c = push_bit 1 w + c" by (rule disjunctive_add [symmetric])
  then have v: "unat (push_bit 1 w OR c) = (2 * unat w + unat c) mod 4294967296"
    by (simp add: push_bit_eq_mult unat_word_ariths mod_simps mult.commute)
  have hi: "unat (drop_bit 31 w) = unat w div 2147483648"
    by (subst unat_drop_bit_eq) (simp add: drop_bit_eq_div)
  have "(2 * unat w + unat c) div 4294967296 = unat w div 2147483648"
    using assms by linarith
  then show "unat (push_bit 1 w OR c) + 4294967296 * unat (drop_bit 31 w) = 2 * unat w + unat c"
    unfolding v hi by (metis mod_mult_div_eq)
  show "unat (drop_bit 31 w) \<le> 1"
    unfolding hi using unat_u32_lt [of w] by linarith
qed

lemma Shift_in_wval:
  "ws \<noteq> [] \<Longrightarrow> unat c \<le> 1 \<Longrightarrow>
     length (Shift_in c ws) = length ws \<and>
     wval (Shift_in c ws) + unat (drop_bit 31 (last ws)) * 4294967296 ^ length ws
       = 2 * wval ws + unat c"
proof (induction c ws rule: Shift_in.induct)
  case (2 c w ws)
  note limb = unat_shift_in [OF "2.prems"(2), of w]
  show ?case
  proof (cases "ws = []")
    case False
    from "2.IH" [OF this limb(2)] False
    have IH: "length (Shift_in (drop_bit 31 w) ws) = length ws"
      "wval (Shift_in (drop_bit 31 w) ws) + unat (drop_bit 31 (last ws)) * 4294967296 ^ length ws
         = 2 * wval ws + unat (drop_bit 31 w)" by auto
    have "wval (Shift_in c (w # ws)) + unat (drop_bit 31 (last (w # ws))) * 4294967296 ^ length (w # ws)
        = unat (push_bit 1 w OR c) + 4294967296 *
            (wval (Shift_in (drop_bit 31 w) ws) + unat (drop_bit 31 (last ws)) * 4294967296 ^ length ws)"
      using False by (simp add: algebra_simps)
    also have "\<dots> = 2 * wval (w # ws) + unat c"
      unfolding IH(2) using limb(1) by (simp add: algebra_simps)
    finally show ?thesis using IH(1) by simp
  qed (use limb in simp)
qed simp

lemma numerator_bit:
  assumes "wide_ok n" "k < 256"
  shows "unat (drop_bit (k mod 32) (n ! (k div 32)) AND 1) = wval n div 2 ^ k mod 2"
proof -
  have "drop_bit (k mod 32) (n ! (k div 32)) AND 1 = of_bool (bit (n ! (k div 32)) (k mod 32))"
    by (simp add: and_one_eq mod_2_eq_odd bit_iff_odd_drop_bit)
  moreover have "bit (n ! (k div 32)) (k mod 32) = bit (wval n) k"
    using assms by (simp add: bit_wval wide_ok_def)
  ultimately show ?thesis by (simp add: bit_iff_odd mod_2_eq_odd)
qed

lemma quotient_bit:
  assumes "wide_ok q" "k < 256" "2 ^ Suc k dvd wval q"
  shows "wval (q[k div 32 := (q ! (k div 32)) OR push_bit (k mod 32) 1]) = wval q + 2 ^ k"
proof -
  let ?w = "q ! (k div 32)"
  have "\<not> bit (wval q) k"
  proof -
    from assms(3) obtain m where "wval q = 2 ^ k * (2 * m)" by (auto simp: dvd_def)
    then show ?thesis by (simp add: bit_iff_odd)
  qed
  then have nb: "\<not> bit ?w (k mod 32)" using assms by (simp add: bit_wval wide_ok_def)
  have "unat (push_bit (k mod 32) (1 :: u32)) = push_bit (k mod 32) 1"
    by (subst unsigned_push_bit_eq) (simp_all add: take_bit_nat_eq_self_iff push_bit_eq_mult)
  then have "unat (?w OR push_bit (k mod 32) 1) = unat ?w OR push_bit (k mod 32) 1"
    by (simp only: unsigned_or_eq)
  also have "\<dots> = unat ?w + push_bit (k mod 32) 1"
    by (rule disjunctive_add [symmetric])
      (use nb in \<open>auto simp: bit_simps bit_unsigned_iff bit_1_iff\<close>)
  finally have v: "unat (?w OR push_bit (k mod 32) 1) = unat ?w + 2 ^ (k mod 32)"
    by (simp add: push_bit_eq_mult)
  have "(2::nat) ^ k = 2 ^ (k mod 32 + 32 * (k div 32))" by simp
  also have "\<dots> = 2 ^ (k mod 32) * (2 ^ 32) ^ (k div 32)" by (simp only: power_add power_mult)
  finally have "2 ^ (k mod 32) * 4294967296 ^ (k div 32) = (2::nat) ^ k" by simp
  moreover have lt: "k div 32 < length q" using assms by (simp add: wide_ok_def)
  ultimately show ?thesis
    using wval_update [OF lt, of "?w OR push_bit (k mod 32) 1", unfolded v]
    by (simp only: algebra_simps)
qed

lemma last_high_bit:
  assumes "wide_ok r"
  shows "unat (drop_bit 31 (last r)) = wval r div 2 ^ 255"
proof -
  from assms obtain xs where r: "r = xs @ [last r]" "length xs = 7"
    by (cases r rule: rev_cases) (auto simp: wide_ok_def)
  have "wval r = wval xs + 2 ^ 224 * unat (last r)"
    by (subst r(1)) (simp add: wval_append r(2))
  moreover have "wval xs < 2 ^ 224" using wval_lt [of xs] r(2) by simp
  ultimately have "wval r div 2 ^ 224 = unat (last r)" by simp
  moreover have "wval r div 2 ^ 255 = wval r div 2 ^ 224 div 2 ^ 31"
    by (simp add: div_mult2_eq [symmetric])
  ultimately show ?thesis by (subst unat_drop_bit_eq) (simp add: drop_bit_eq_div)
qed

lemma Divide_step_wval:
  assumes n: "wide_ok n" and d: "wide_ok d" "0 < wval d" and k: "k < 256"
    and q: "wide_ok q" "2 ^ Suc k dvd wval q" and r: "wide_ok r" "wval r < wval d"
    and step: "Divide_step n d k (q, r) = (q', r')"
  defines "b \<equiv> wval n div 2 ^ k mod 2"
  shows "wide_ok q' \<and> wide_ok r' \<and> wval r' < wval d \<and>
    (\<exists>t. t \<le> 1 \<and> wval q' = wval q + t * 2 ^ k \<and> 2 * wval r + b = t * wval d + wval r')"
proof -
  let ?c = "drop_bit (k mod 32) (n ! (k div 32)) AND 1"
  let ?R = "Shift_in ?c r"
  have c: "unat ?c = b" by (simp add: numerator_bit [OF n k] b_def)
  have b: "b \<le> 1" by (simp add: b_def)
  have "r \<noteq> []" using r(1) by (auto simp: wide_ok_def)
  from Shift_in_wval [OF this, of ?c] r(1) c b
  have R: "wide_ok ?R" "wval ?R + 2 ^ 256 * unat (drop_bit 31 (last r)) = 2 * wval r + b"
    by (auto simp: wide_ok_def)
  let ?h = "unat (drop_bit 31 (last r))"
  have Rlt: "wval ?R < 2 ^ 256" and dlt: "wval d < 2 ^ 256"
    by (rule wval_wide_lt [OF R(1)], rule wval_wide_lt [OF d(1)])
  have cond: "(drop_bit 31 (last r) \<noteq> 0 \<or> Compare ?R d \<ge> 0) \<longleftrightarrow> wval d \<le> 2 * wval r + b"
  proof (cases "?h = 0")
    case True
    then have "drop_bit 31 (last r) = 0" by (simp add: unat_eq_zero)
    with True R show ?thesis by (simp add: Compare_wval [OF R(1) d(1)])
  next
    case False
    then have "drop_bit 31 (last r) \<noteq> 0" by (auto simp: unat_eq_zero)
    moreover have "wval d \<le> 2 * wval r + b" using False R(2) dlt by (cases ?h) auto
    ultimately show ?thesis by simp
  qed
  show ?thesis
  proof (cases "wval d \<le> 2 * wval r + b")
    case True
    then have out: "q' = q[k div 32 := q ! (k div 32) OR push_bit (k mod 32) 1]" "r' = Subtract ?R d"
      using step cond by (auto simp: Divide_step_def Let_def)
    let ?e = "2 * wval r + b - wval d"
    have elt: "?e < wval d" using r(2) b d(2) by linarith
    have "wval r' = ?e"
      unfolding out(2)
      by (rule Subtract_wval [OF R(1) d(1), where h = ?h]) (use R(2) True elt dlt in linarith)+
    moreover have "wval q' = wval q + 2 ^ k"
      unfolding out(1) by (rule quotient_bit [OF q(1) k q(2)])
    moreover have "wide_ok q'" "wide_ok r'"
      using out q(1) Subtract_ok [OF R(1) d(1)] by (auto simp: wide_ok_def)
    ultimately show ?thesis using True elt by (intro conjI exI [of _ 1]) auto
  next
    case False
    then have out: "q' = q" "r' = ?R" using step cond by (auto simp: Divide_step_def Let_def)
    have "?h = 0"
    proof (rule ccontr)
      assume "?h \<noteq> 0"
      then have "2 ^ 256 \<le> 2 * wval r + b" using R(2) by (cases ?h) auto
      with False dlt show False by linarith
    qed
    then have "wval ?R = 2 * wval r + b" using R(2) by simp
    then show ?thesis using False q(1) R(1) unfolding out by (intro conjI exI [of _ 0]) auto
  qed
qed

lemma Divide_loop_wval:
  "k \<le> 256 \<Longrightarrow> wide_ok n \<Longrightarrow> wide_ok d \<Longrightarrow> 0 < wval d \<Longrightarrow> wide_ok q \<Longrightarrow> wide_ok r \<Longrightarrow>
     wval q = (wval n div 2 ^ k) div wval d * 2 ^ k \<Longrightarrow> wval r = (wval n div 2 ^ k) mod wval d \<Longrightarrow>
     Divide_loop k n d (q, r) = (q', r') \<Longrightarrow>
     wide_ok q' \<and> wide_ok r' \<and> wval q' = wval n div wval d \<and> wval r' = wval n mod wval d"
proof (induction k arbitrary: q r)
  case (Suc k)
  obtain q1 r1 where st: "Divide_step n d k (q, r) = (q1, r1)"
    by (cases "Divide_step n d k (q, r)")
  let ?N = "wval n div 2 ^ k" and ?D = "wval d"
  have N: "?N = 2 * (wval n div 2 ^ Suc k) + ?N mod 2"
    by (simp add: div_mult2_eq [symmetric] mult.commute) (metis div_mult2_eq mult_div_mod_eq mult.commute)
  have k: "k < 256" and dv: "2 ^ Suc k dvd wval q" and rlt: "wval r < wval d"
    using Suc.prems by auto
  from Divide_step_wval [OF Suc.prems(2,3,4) k Suc.prems(5) dv Suc.prems(6) rlt st]
  obtain t where f: "wide_ok q1" "wide_ok r1" "wval r1 < ?D" "wval q1 = wval q + t * 2 ^ k"
    "2 * wval r + ?N mod 2 = t * ?D + wval r1" by auto
  have "?N = 2 * ((wval n div 2 ^ Suc k) div ?D * ?D + wval r) + ?N mod 2"
    by (subst N) (simp add: Suc.prems(8))
  also have "\<dots> = (2 * ((wval n div 2 ^ Suc k) div ?D) + t) * ?D + wval r1"
    using f(5) by (simp add: algebra_simps)
  finally have eq: "?N = (2 * ((wval n div 2 ^ Suc k) div ?D) + t) * ?D + wval r1" .
  have dm: "?N div ?D = 2 * ((wval n div 2 ^ Suc k) div ?D) + t" "?N mod ?D = wval r1"
    by (subst eq, use f(3) in simp)+
  have "wval q1 = ?N div ?D * 2 ^ k"
    unfolding dm(1) f(4) Suc.prems(7) by (simp add: algebra_simps)
  from Suc.IH [OF _ Suc.prems(2,3,4) f(1,2) this] dm(2) k Suc.prems(9) st show ?case by simp
qed simp

lemma Divide_wval [wide_simps]:
  assumes "wide_ok n" "wide_ok d"
  shows "Divide n d = Some (q, r) \<Longrightarrow>
      0 < wval d \<and> wide_ok q \<and> wide_ok r \<and> wval q = wval n div wval d \<and> wval r = wval n mod wval d"
    and "Divide n d = None \<longleftrightarrow> wval d = 0"
proof -
  show "Divide n d = None \<longleftrightarrow> wval d = 0"
    using assms by (simp add: Divide_def IsZero_wval)
  assume "Divide n d = Some (q, r)"
  then have pos: "0 < wval d" and loop: "Divide_loop 256 n d (wide_zero, wide_zero) = (q, r)"
    using assms by (auto simp: Divide_def IsZero_wval split: if_splits)
  have "wval n div 2 ^ 256 = 0" by (rule div_less) (rule wval_wide_lt [OF assms(1)])
  with Divide_loop_wval [OF _ assms pos _ _ _ _ loop] pos
  show "0 < wval d \<and> wide_ok q \<and> wide_ok r \<and> wval q = wval n div wval d \<and> wval r = wval n mod wval d"
    by simp
qed

subsection \<open>Conversions and signed values\<close>

lemma unat_join64:
  "unat (push_bit 32 (ucast (h :: u32)) OR ucast (l :: u32) :: u64) = unat l + 4294967296 * unat h"
proof -
  have "push_bit 32 (ucast h) OR ucast l = push_bit 32 (ucast h) + (ucast l :: u64)"
    by (rule disjunctive_add [symmetric]) (auto simp: bit_simps dest: bit_imp_le_length)
  moreover have "unat (push_bit 32 (ucast h) :: u64) = 4294967296 * unat h"
    using unat_u32_lt [of h] by (simp add: push_bit_eq_mult unat_u64_mult)
  moreover have "unat l + 4294967296 * unat h < 18446744073709551616"
    using unat_u32_lt [of h] unat_u32_lt [of l] by linarith
  ultimately show ?thesis by (simp add: unat_u64_add add.commute)
qed

lemma To64_wval [wide_simps]:
  assumes "wide_ok w"
  shows "To64 w = Some v \<Longrightarrow> unat v = wval w"
    and "To64 w = None \<longleftrightarrow> wval w \<ge> 2 ^ 64"
proof -
  obtain a b xs where w: "w = a # b # xs"
    using assms by (cases w; cases "tl w") (auto simp: wide_ok_def)
  have split: "wval w = unat a + 4294967296 * unat b + 18446744073709551616 * wval xs"
    by (simp add: w)
  have "unat a + 4294967296 * unat b < 18446744073709551616"
    using unat_u32_lt [of a] unat_u32_lt [of b] by linarith
  with split have big: "wval w \<ge> 2 ^ 64 \<longleftrightarrow> wval xs \<noteq> 0"
    by (cases "wval xs = 0") auto
  have none: "(\<exists>word \<in> set (drop 2 w). word \<noteq> 0) \<longleftrightarrow> wval xs \<noteq> 0"
    by (simp add: w wval_drop_zero [symmetric])
  show "To64 w = None \<longleftrightarrow> wval w \<ge> 2 ^ 64" using big none by (simp add: To64_def)
  show "To64 w = Some v \<Longrightarrow> unat v = wval w"
    using none split by (auto simp: To64_def w unat_join64 split: if_splits)
qed

lemma Canonical_sval [wide_simps]:
  "wide_ok (magnitude v) \<Longrightarrow> signed_ok (Canonical v) \<and> sval (Canonical v) = sval v"
  by (auto simp: Canonical_def signed_ok_def sval_def IsZero_wval)

lemma sint64_range: "- 9223372036854775808 \<le> sint (v :: i64)" "sint (v :: i64) < 9223372036854775808"
  using sint_greater_eq [of v] sint_less [of v] by simp_all

lemma uint_i64: "uint (v :: i64) = sint v mod 18446744073709551616"
  by (simp add: uint_sint take_bit_eq_mod)

lemma uint_Magnitude: "uint (Magnitude v) = \<bar>sint v\<bar>"
proof (cases "sint v < 0")
  case True
  have "uint (- v) = (- uint v) mod 18446744073709551616" by (simp add: uint_word_ariths)
  also have "\<dots> = (- sint v) mod 18446744073709551616" by (simp add: uint_i64 mod_simps)
  also have "\<dots> = - sint v"
    by (rule mod_pos_pos_trivial) (use True sint64_range [of v] in linarith)+
  finally show ?thesis using True by (simp add: Magnitude_def)
next
  case False
  then show ?thesis using sint64_range [of v] by (simp add: Magnitude_def uint_i64)
qed

lemma unat_Magnitude: "int (unat (Magnitude v)) = \<bar>sint v\<bar>"
  by (simp add: uint_Magnitude)

lemma FromSigned_sval [wide_simps, simp]: "sval (FromSigned v) = sint v"
  using unat_Magnitude [of v] by (simp add: FromSigned_def sval_def)

lemma FromSigned_ok [simp]: "signed_ok (FromSigned v)"
proof -
  have "unat (Magnitude v) \<noteq> 0" if "sint v < 0"
    using uint_Magnitude [of v] that by (auto simp: unat_eq_zero)
  then show ?thesis by (simp add: FromSigned_def signed_ok_def)
qed

lemma sval_Some:
  "sval \<lparr>magnitude = m, negative = n\<rparr> = (if n then - int (wval m) else int (wval m))"
  by (simp add: sval_def)

lemma SignedAdd_sval [wide_simps]:
  assumes ok: "wide_ok (magnitude l)" "wide_ok (magnitude r)"
  shows "SignedAdd l r = Some res \<Longrightarrow> signed_ok res \<and> sval res = sval l + sval r"
    and "SignedAdd l r = None \<longleftrightarrow> \<bar>sval l + sval r\<bar> \<ge> 2 ^ 256"
proof -
  have lt: "wval (magnitude l) < 2 ^ 256" "wval (magnitude r) < 2 ^ 256"
    by (rule wval_wide_lt, rule ok)+
  have diff: "wide_ok a \<Longrightarrow> wide_ok b \<Longrightarrow> wval b \<le> wval a \<Longrightarrow>
      wide_ok (Subtract a b) \<and> int (wval (Subtract a b)) = int (wval a) - int (wval b)" for a b
    using Subtract_wval [of a b 0 "wval a - wval b"] wval_wide_lt [of a] Subtract_ok [of a b] by simp
  show "SignedAdd l r = Some res \<Longrightarrow> signed_ok res \<and> sval res = sval l + sval r"
    using ok Add_wval(1) [OF ok] diff [OF ok] diff [OF ok(2) ok(1)]
    by (auto simp: SignedAdd_def Canonical_sval Compare_wval sval_def [of l] sval_def [of r] sval_Some
        split: if_splits)
  show "SignedAdd l r = None \<longleftrightarrow> \<bar>sval l + sval r\<bar> \<ge> 2 ^ 256"
    using lt Add_wval(2) [OF ok] by (auto simp: SignedAdd_def sval_def)
qed

lemma SignedMultiply_sval [wide_simps]:
  assumes ok: "wide_ok (magnitude l)" "wide_ok (magnitude r)"
  shows "SignedMultiply l r = Some res \<Longrightarrow> signed_ok res \<and> sval res = sval l * sval r"
    and "SignedMultiply l r = None \<longleftrightarrow> \<bar>sval l * sval r\<bar> \<ge> 2 ^ 256"
proof -
  show "SignedMultiply l r = Some res \<Longrightarrow> signed_ok res \<and> sval res = sval l * sval r"
    using Multiply_wval(1) [OF ok]
    by (auto simp: SignedMultiply_def Canonical_sval sval_def [of l] sval_def [of r] sval_Some)
  have "\<bar>sval l * sval r\<bar> = int (wval (magnitude l) * wval (magnitude r))"
    by (simp add: sval_def abs_mult)
  then have "\<bar>sval l * sval r\<bar> \<ge> 2 ^ 256 \<longleftrightarrow> wval (magnitude l) * wval (magnitude r) \<ge> 2 ^ 256"
    by (simp only: zle_int [symmetric]) simp
  then show "SignedMultiply l r = None \<longleftrightarrow> \<bar>sval l * sval r\<bar> \<ge> 2 ^ 256"
    using Multiply_wval(2) [OF ok] by (simp only: SignedMultiply_def option.map_disc_iff)
qed

lemma uint_lt64: "uint (w :: u64) < 18446744073709551616"
  using unsigned_less [of w, where ?'a = int] by simp

lemma sint64_unique:
  assumes "uint (w :: i64) = k mod 18446744073709551616"
    "- 9223372036854775808 \<le> k" "k < 9223372036854775808"
  shows "sint w = k"
proof -
  have "w = word_of_int k"
    by (rule word_uint_eqI) (simp add: assms(1) uint_word_of_int_eq take_bit_eq_mod)
  then show ?thesis using assms by (simp add: sint_sbintrunc' signed_take_bit_int_eq_self)
qed

lemma ToSigned_sval [wide_simps]:
  assumes ok: "wide_ok (magnitude v)"
  shows "ToSigned v = Some w \<Longrightarrow> sint w = sval v"
    and "ToSigned v = None \<longleftrightarrow> \<not> (- 9223372036854775808 \<le> sval v \<and> sval v < 9223372036854775808)"
proof -
  let ?lim = "if negative v then push_bit 63 1 else push_bit 63 1 - 1 :: u64"
  let ?nat = "if negative v then 9223372036854775808 else 9223372036854775807 :: nat"
  have lim: "unat ?lim = ?nat" by simp
  show "ToSigned v = Some w \<Longrightarrow> sint w = sval v"
  proof -
    assume out: "ToSigned v = Some w"
    then obtain m where m: "To64 (magnitude v) = Some m" "\<not> ?lim < m"
      by (auto simp: ToSigned_def Let_def split: option.splits if_splits)
    have val: "unat m = wval (magnitude v)" by (rule To64_wval(1) [OF ok m(1)])
    have le: "wval (magnitude v) \<le> ?nat" using m(2) lim val by (simp add: word_less_nat_alt)
    have w: "w = (if negative v then - m else m)"
      using out m by (auto simp: ToSigned_def Let_def split: if_splits)
    have "uint w = sval v mod 18446744073709551616"
      using uint_lt64 [of m] by (simp add: w sval_def uint_word_ariths flip: val)
    then show ?thesis
      by (rule sint64_unique) (use le in \<open>auto simp: sval_def split: if_splits\<close>)
  qed
  show "ToSigned v = None \<longleftrightarrow> \<not> (- 9223372036854775808 \<le> sval v \<and> sval v < 9223372036854775808)"
  proof (cases "To64 (magnitude v)")
    case None
    then have "wval (magnitude v) \<ge> 2 ^ 64" using To64_wval(2) [OF ok] by simp
    then show ?thesis using None by (auto simp: ToSigned_def sval_def)
  next
    case (Some m)
    then have "unat m = wval (magnitude v)" by (rule To64_wval(1) [OF ok])
    then have "?lim < m \<longleftrightarrow> ?nat < wval (magnitude v)" by (simp add: word_less_nat_alt lim)
    then show ?thesis using Some by (auto simp: ToSigned_def sval_def Let_def split: if_splits)
  qed
qed

end
