(* ===== verification/Plan_Types.thy ===== *)
theory Plan_Types
  imports Wide_Arith
begin

text \<open>
  The plan: what the configuration compiler hands to the engine.  The datatypes and records are
  those of \<^verbatim>\<open>src/src/protocol_plan/plan_types.h\<close> and
  \<^verbatim>\<open>src/src/protocol_plan/plan_bundle.h\<close>, member by member, for a build in which all the
  schema macros up to V11 are defined.  A vector and its frozen copy are both lists; a mutable
  plan record and its frozen counterpart have the same members, so one record stands for both.
  Offsets, widths, lengths, counts and indices are natural numbers; values that are read from or
  written to a record are words.  The functions of \<^verbatim>\<open>plan_bundle.cpp\<close> are the selectors of
  the record \<open>PlanBundle\<close>.
\<close>

definition kInvalidIndex :: nat where
  "kInvalidIndex = SIZE_MAX"

section \<open>Enumerations\<close>

datatype ResourceProfile = DESKTOP | CONSTRAINED
datatype InputKind = IK_COMPLETE_RECORD | IK_STREAM_CHUNK
datatype FramingStrategy =
  FS_COMPLETE_RECORD | FS_FIXED_LENGTH | FS_SYNC_FIXED_LENGTH | FS_SYNC_LENGTH_FIELD | FS_ASCII_CRLF
datatype MatcherKind = MK_FRAME_LENGTH_EQUALS | MK_FIXED_BYTES
datatype ValueType = VT_UINT64 | VT_INT64 | VT_BYTES | VT_ENUM | VT_BOOL
datatype WireCodec = WC_UNSIGNED_INTEGER | WC_BYTES | WC_BITFIELD | WC_ASCII_TEXT
datatype TextSegmentKind = TS_LITERAL | TS_FIELD
datatype BitNumbering = BN_LSB0 | BN_MSB0
datatype ByteOrder = BO_NOT_APPLICABLE | BO_BIG | BO_LITTLE
datatype EncodeSource = ES_INPUT | ES_CONSTANT | ES_COMPUTED
datatype ComputedLengthScope = CL_FRAME | CL_REGION | CL_PAYLOAD
datatype UnknownEnumPolicy = UE_REJECT | UE_PRESERVE
datatype IntegrityAlgorithm = IA_SUM8 | IA_CRC

section \<open>Resource profiles\<close>

record ResourceProfileLimits =
  max_frame_bytes :: nat
  max_framing_profiles :: nat
  max_pipelines :: nat
  max_messages :: nat
  max_fields_per_message :: nat
  max_total_fields :: nat
  max_matchers_per_message :: nat
  max_total_matchers :: nat
  max_enum_entries_per_field :: nat
  max_total_enum_entries :: nat
  max_session_memory_bytes :: nat
  max_plan_memory_bytes :: nat
  max_submit_bytes :: nat
  max_frames_per_submit :: nat
  max_sync_bytes :: nat
  max_framer_work_units :: nat

definition kDesktopResourceProfileLimits :: ResourceProfileLimits where
  "kDesktopResourceProfileLimits =
     \<lparr>max_frame_bytes = 64 * 1024, max_framing_profiles = 32, max_pipelines = 32,
      max_messages = 64, max_fields_per_message = 2048, max_total_fields = 8192,
      max_matchers_per_message = 64, max_total_matchers = 4096,
      max_enum_entries_per_field = 4096, max_total_enum_entries = 65536,
      max_session_memory_bytes = 512 * 1024, max_plan_memory_bytes = 128 * 1024 * 1024,
      max_submit_bytes = 1024 * 1024, max_frames_per_submit = 1024, max_sync_bytes = 16,
      max_framer_work_units = 4 * 1024 * 1024\<rparr>"

definition kConstrainedResourceProfileLimits :: ResourceProfileLimits where
  "kConstrainedResourceProfileLimits =
     \<lparr>max_frame_bytes = 4 * 1024, max_framing_profiles = 8, max_pipelines = 8,
      max_messages = 16, max_fields_per_message = 256, max_total_fields = 1024,
      max_matchers_per_message = 32, max_total_matchers = 512,
      max_enum_entries_per_field = 256, max_total_enum_entries = 4096,
      max_session_memory_bytes = 128 * 1024, max_plan_memory_bytes = 8 * 1024 * 1024,
      max_submit_bytes = 64 * 1024, max_frames_per_submit = 64, max_sync_bytes = 8,
      max_framer_work_units = 256 * 1024\<rparr>"

definition kV01MaxPlanMemoryHardLimit :: nat where
  "kV01MaxPlanMemoryHardLimit = 256 * 1024 * 1024"

fun GetResourceProfileLimits :: "ResourceProfile \<Rightarrow> ResourceProfileLimits" where
  "GetResourceProfileLimits DESKTOP = kDesktopResourceProfileLimits"
| "GetResourceProfileLimits CONSTRAINED = kConstrainedResourceProfileLimits"

definition kMaxStreamFrameBytesHardLimit :: nat where
  "kMaxStreamFrameBytesHardLimit = 1024 * 1024"
definition kMaxStreamSubmitBytesHardLimit :: nat where
  "kMaxStreamSubmitBytesHardLimit = 4 * 1024 * 1024"
definition kMaxStreamFramesPerSubmitHardLimit :: nat where
  "kMaxStreamFramesPerSubmitHardLimit = 4096"
definition kMaxStreamSessionMemoryBytesHardLimit :: nat where
  "kMaxStreamSessionMemoryBytesHardLimit = 2 * 1024 * 1024"
definition kMaxStreamSyncBytesHardLimit :: nat where
  "kMaxStreamSyncBytesHardLimit = 64"
definition kMaxStreamWorkUnitsHardLimit :: nat where
  "kMaxStreamWorkUnitsHardLimit = 16 * 1024 * 1024"

section \<open>Linear conversions\<close>

record SignedCoefficient256 =
  coef_words :: Wide
  coef_negative :: bool

record LinearConversionDescriptor =
  raw_value_type :: ValueType
  scale_numerator :: i64
  scale_denominator :: u64
  bias_numerator :: i64
  bias_denominator :: u64
  decimal_places :: nat
  scale_coefficient :: SignedCoefficient256
  bias_coefficient :: SignedCoefficient256

section \<open>Configuration facts\<close>

record FramingPlan =
  fp_id :: string
  fp_input_kind :: InputKind
  fp_strategy :: FramingStrategy
  fp_frame_length_bytes :: nat
  fp_sync_bytes :: "u8 list"
  fp_sync_prefix_table :: "nat list"
  fp_length_field_offset :: nat
  fp_length_field_width :: nat
  fp_length_field_byte_order :: ByteOrder
  fp_minimum_frame_length :: nat
  fp_maximum_frame_length :: nat

record MatcherPlan =
  mp_kind :: MatcherKind
  mp_length_bytes :: nat
  mp_byte_offset :: nat
  mp_bytes :: "u8 list"

record EnumEntryPlan =
  ee_id :: string
  ee_raw_value :: u64

record FieldPlan =
  fl_id :: string
  fl_value_type :: ValueType
  fl_wire_codec :: WireCodec
  fl_byte_offset :: nat
  fl_byte_width :: nat
  fl_byte_order :: ByteOrder
  fl_encode_source :: EncodeSource
  fl_constant_value :: "u64 option"
  fl_unknown_enum_policy :: UnknownEnumPolicy
  fl_enum_entries :: "EnumEntryPlan list"
  fl_bit_container_index :: nat
  fl_bit_offset :: nat
  fl_bit_width :: nat
  fl_signed_constant_value :: "i64 option"
  fl_conversion_index :: nat
  fl_text_min_length :: nat
  fl_text_max_length :: nat
  fl_allowed_ascii_low :: u64
  fl_allowed_ascii_high :: u64

record TextSegmentPlan =
  tsp_kind :: TextSegmentKind
  tsp_literal :: "u8 list"
  tsp_prefix_table :: "nat list"
  tsp_field_index :: nat

record TextActionPlan =
  tap_segments :: "TextSegmentPlan list"
  tap_min_record_length :: nat
  tap_max_record_length :: nat

record AsciiTextPlan =
  at_decode :: "TextActionPlan option"
  at_encode :: "TextActionPlan option"

record BitContainerPlan =
  bc_id :: string
  bc_byte_offset :: nat
  bc_byte_width :: nat
  bc_byte_order :: ByteOrder
  bc_bit_numbering :: BitNumbering
  bc_base_value :: u64

record IntegrityPlan =
  ip_algorithm :: IntegrityAlgorithm
  ip_range_offset :: nat
  ip_range_length :: nat
  ip_storage_offset :: nat
  ip_range_ends_at_payload :: bool
  ip_storage_at_payload_end :: bool
  ip_crc_width :: nat
  ip_crc_polynomial :: u32
  ip_crc_initial_value :: u32
  ip_crc_xor_output :: u32
  ip_crc_reflect_input :: bool
  ip_crc_reflect_output :: bool
  ip_storage_byte_order :: ByteOrder

record BoundedPayloadPlan =
  bp_payload_field_index :: nat
  bp_header_length :: nat
  bp_min_payload_length :: nat
  bp_max_payload_length :: nat
  bp_trailer_length :: nat
  bp_min_frame_length :: nat
  bp_max_frame_length :: nat

record ComputedLengthPlan =
  cl_field_index :: nat
  cl_storage_offset :: nat
  cl_storage_width :: nat
  cl_byte_order :: ByteOrder
  cl_scope :: ComputedLengthScope
  cl_range_offset :: nat
  cl_range_length :: nat
  cl_expected_value :: u64

record MessagePlan =
  ms_id :: string
  ms_direction_id :: string
  ms_frame_length_bytes :: nat
  ms_matchers :: "MatcherPlan list"
  ms_bit_containers :: "BitContainerPlan list"
  ms_integrity :: "IntegrityPlan option"
  ms_bounded_payload :: "BoundedPayloadPlan option"
  ms_computed_length :: "ComputedLengthPlan option"
  ms_fields :: "FieldPlan list"
  ms_ascii_text :: "AsciiTextPlan option"

record PipelinePlan =
  pl_id :: string
  pl_direction_id :: string
  pl_framing_profile_index :: nat
  pl_message_indices :: "nat list"

section \<open>Execution descriptors\<close>

record BitContainerExecutionPlan =
  bce_offset :: nat
  bce_width :: nat
  bce_byte_order :: ByteOrder
  bce_base_value :: u64

record FixedByteExecutionPlan =
  fb_offset :: nat
  fb_value :: u8

record EnumLookupExecutionPlan =
  el_raw_value :: u64
  el_entry_index :: nat

record FieldExecutionPlan =
  fe_offset :: nat
  fe_width :: nat
  fe_input_ordinal :: nat
  fe_value_type :: ValueType
  fe_byte_order :: ByteOrder
  fe_encode_source :: EncodeSource
  fe_has_constant :: bool
  fe_constant_value :: u64
  fe_unknown_enum_policy :: UnknownEnumPolicy
  fe_enum_values_begin :: nat
  fe_enum_values_count :: nat
  fe_enum_lookup_begin :: nat
  fe_enum_lookup_count :: nat
  fe_bit_container_index :: nat
  fe_bit_mask :: u64
  fe_bit_shift :: nat
  fe_bit_width :: nat
  fe_signed_constant_value :: i64
  fe_conversion_index :: nat
  fe_conversion_slot :: nat
  fe_text_min_length :: nat
  fe_text_max_length :: nat
  fe_allowed_ascii_low :: u64
  fe_allowed_ascii_high :: u64
  fe_text_encode_input :: bool

record MessageExecutionPlan =
  me_frame_size :: nat
  me_required_input_count :: nat
  me_integrity :: "IntegrityPlan option"
  me_bounded_payload :: "BoundedPayloadPlan option"
  me_computed_length :: "ComputedLengthPlan option"
  me_fixed_bytes :: "FixedByteExecutionPlan list"
  me_bit_containers :: "BitContainerExecutionPlan list"
  me_fields :: "FieldExecutionPlan list"
  me_enum_raw_values :: "u64 list"
  me_enum_lookup_entries :: "EnumLookupExecutionPlan list"
  me_text_decode :: "TextActionPlan option"
  me_text_encode :: "TextActionPlan option"
  me_text_decode_field_count :: nat

record CandidateGroupExecutionPlan =
  cg_frame_size :: nat
  cg_message_indices :: "nat list"

record PipelineExecutionPlan =
  pe_framing_profile_index :: nat
  pe_allowed_message_words :: "u64 list"
  pe_candidate_groups :: "CandidateGroupExecutionPlan list"
  pe_variable_message_indices :: "nat list"
  pe_text_message_indices :: "nat list"

record ExecutionResourceLayout =
  rl_max_fields_per_message :: nat
  rl_max_input_fields_per_message :: nat
  rl_encode_value_index_count :: nat
  rl_encode_presence_word_count :: nat
  rl_bit_container_value_count :: nat
  rl_conversion_value_count :: nat
  rl_estimated_workspace_bytes :: nat

record ResourceRequirements =
  rq_max_frame_bytes :: nat
  rq_framing_profile_count :: nat
  rq_pipeline_count :: nat
  rq_message_count :: nat
  rq_total_field_count :: nat
  rq_total_matcher_count :: nat
  rq_total_enum_entry_count :: nat
  rq_total_bit_container_count :: nat
  rq_total_integrity_rule_count :: nat
  rq_total_computed_length_count :: nat
  rq_total_conversion_count :: nat
  rq_max_stream_frame_bytes :: nat
  rq_max_sync_bytes :: nat
  rq_max_framing_buffer_bytes :: nat
  rq_total_text_segment_count :: nat

text \<open>A plan object has an address, which the codec compares (\<open>pb_address\<close>).\<close>

record PlanBundle =
  pb_address :: nat
  pb_schema_version :: string
  pb_protocol_id :: string
  pb_protocol_version :: string
  pb_resource_profile :: ResourceProfile
  pb_resource_requirements :: ResourceRequirements
  pb_framing_profiles :: "FramingPlan list"
  pb_pipelines :: "PipelinePlan list"
  pb_messages :: "MessagePlan list"
  pb_conversions :: "LinearConversionDescriptor list"
  pb_layout :: ExecutionResourceLayout
  pb_message_execution_plans :: "MessageExecutionPlan list"
  pb_pipeline_execution_plans :: "PipelineExecutionPlan list"

section \<open>Finite descriptor types\<close>

lemma limits_within_hard_limits:
  "Plan_Types.max_submit_bytes (GetResourceProfileLimits p) \<le> kMaxStreamSubmitBytesHardLimit \<and>
   Plan_Types.max_frames_per_submit (GetResourceProfileLimits p) \<le> kMaxStreamFramesPerSubmitHardLimit \<and>
   Plan_Types.max_sync_bytes (GetResourceProfileLimits p) \<le> kMaxStreamSyncBytesHardLimit \<and>
   Plan_Types.max_framer_work_units (GetResourceProfileLimits p) \<le> kMaxStreamWorkUnitsHardLimit"
  by (cases p)
    (simp_all add: kDesktopResourceProfileLimits_def kConstrainedResourceProfileLimits_def
      kMaxStreamSubmitBytesHardLimit_def kMaxStreamFramesPerSubmitHardLimit_def
      kMaxStreamSyncBytesHardLimit_def kMaxStreamWorkUnitsHardLimit_def)

end
