(* ===== verification/Decimal_Codec.thy ===== *)
theory Decimal_Codec
  imports Plan_Types Complex_Main
begin

text \<open>
  The exact decimal conversion of integer fields,
  \<^verbatim>\<open>src/src/protocol_core/decimal_conversion_internal.cpp\<close>: a raw wire integer \<open>n\<close> stands
  for the decimal \<open>(n * A + B) / 10 ^ t\<close> of its frozen descriptor.  \<open>DecodeDecimal\<close> computes it
  as a normalised \<open>Decimal64\<close>, \<open>EncodeDecimal\<close> solves the equation for \<open>n\<close> and
  \<open>DecimalEqual\<close> compares two decimals as numbers.  The status \<open>OK\<close> is the right side of a
  sum, any other status its left side.  The lemmas say that the three functions decide exactly
  the equation over the rationals, for every raw width from one to eight bytes.
\<close>

section \<open>The functions\<close>

datatype DecimalArithmeticStatus =
  DECIMAL_SCALE_OUT_OF_RANGE | RAW_NOT_INTEGRAL | RAW_OUT_OF_RANGE | LOGICAL_OUT_OF_RANGE
| INTERNAL_ERROR

record Decimal64 =
  coefficient :: i64
  scale :: i32

definition FromDescriptor :: "SignedCoefficient256 \<Rightarrow> SignedWide" where
  "FromDescriptor value = Canonical \<lparr>magnitude = coef_words value, negative = coef_negative value\<rparr>"

primrec Power10 :: "nat \<Rightarrow> u64" where
  "Power10 0 = 1"
| "Power10 (Suc exponent) = Power10 exponent * 10"

definition FitsRaw :: "SignedWide \<Rightarrow> ValueType \<Rightarrow> nat \<Rightarrow> bool" where
  "FitsRaw raw type byte_width =
     (if byte_width = 0 \<or> byte_width > 8 then False
      else case To64 (magnitude raw) of
        None \<Rightarrow> False
      | Some m \<Rightarrow>
          if type = VT_UINT64 then
            \<not> negative raw \<and> (byte_width = 8 \<or> m < push_bit (byte_width * 8) 1)
          else if type \<noteq> VT_INT64 then False
          else let sign = push_bit (byte_width * 8 - 1) 1
               in m \<le> (if negative raw then sign else sign - 1))"

fun Normalize_loop :: "SignedWide \<Rightarrow> nat \<Rightarrow> (SignedWide \<times> nat) option" where
  "Normalize_loop c 0 = Some (c, 0)"
| "Normalize_loop c (Suc s) =
     (case Divide (magnitude c) (From64 10) of
        None \<Rightarrow> None
      | Some (quot, rem) \<Rightarrow>
          if \<not> IsZero rem then Some (c, Suc s)
          else Normalize_loop (c\<lparr>magnitude := quot\<rparr>) s)"

definition Normalize :: "SignedWide \<Rightarrow> nat \<Rightarrow> DecimalArithmeticStatus + Decimal64" where
  "Normalize c s =
     (if IsZero (magnitude c) then Inr \<lparr>coefficient = 0, scale = 0\<rparr>
      else case Normalize_loop c s of
        None \<Rightarrow> Inl INTERNAL_ERROR
      | Some (c', s') \<Rightarrow>
          (case ToSigned c' of
             None \<Rightarrow> Inl LOGICAL_OUT_OF_RANGE
           | Some v \<Rightarrow> Inr \<lparr>coefficient = v, scale = of_nat s'\<rparr>))"

definition RawSigned :: "u64 \<Rightarrow> ValueType \<Rightarrow> nat \<Rightarrow> SignedWide" where
  "RawSigned raw_bits type byte_width =
     (if type = VT_UINT64 then \<lparr>magnitude = From64 raw_bits, negative = False\<rparr>
      else let bits = byte_width * 8;
               sign = push_bit (bits - 1) 1
           in if raw_bits AND sign = 0 then \<lparr>magnitude = From64 raw_bits, negative = False\<rparr>
              else let mask = (if bits = 64 then - 1 else push_bit bits 1 - 1)
                   in Canonical \<lparr>magnitude = From64 ((NOT raw_bits AND mask) + 1), negative = True\<rparr>)"

definition DecodeDecimal ::
    "LinearConversionDescriptor \<Rightarrow> u64 \<Rightarrow> nat \<Rightarrow> DecimalArithmeticStatus + Decimal64" where
  "DecodeDecimal conversion raw_bits byte_width =
     (let raw = RawSigned raw_bits (raw_value_type conversion) byte_width
      in if \<not> FitsRaw raw (raw_value_type conversion) byte_width then Inl RAW_OUT_OF_RANGE
         else case SignedMultiply raw (FromDescriptor (scale_coefficient conversion)) of
           None \<Rightarrow> Inl INTERNAL_ERROR
         | Some product \<Rightarrow>
             (case SignedAdd product (FromDescriptor (bias_coefficient conversion)) of
                None \<Rightarrow> Inl INTERNAL_ERROR
              | Some v \<Rightarrow> Normalize v (decimal_places conversion)))"

definition EncodeTerms ::
    "LinearConversionDescriptor \<Rightarrow> i64 \<Rightarrow> nat \<Rightarrow> (SignedWide \<times> SignedWide \<times> SignedWide) option" where
  "EncodeTerms conversion logical_coefficient logical_scale =
     (let common_scale = max logical_scale (decimal_places conversion);
          align = \<lparr>magnitude = From64 (Power10 (common_scale - decimal_places conversion)),
                   negative = False\<rparr>
      in case SignedMultiply (FromSigned logical_coefficient)
                \<lparr>magnitude = From64 (Power10 (common_scale - logical_scale)), negative = False\<rparr> of
           None \<Rightarrow> None
         | Some logical_value \<Rightarrow>
             (case SignedMultiply (FromDescriptor (bias_coefficient conversion)) align of
                None \<Rightarrow> None
              | Some bias \<Rightarrow>
                  (case SignedMultiply (FromDescriptor (scale_coefficient conversion)) align of
                     None \<Rightarrow> None
                   | Some denominator \<Rightarrow> Some (logical_value, bias, denominator))))"

definition EncodeRaw ::
    "ValueType \<Rightarrow> nat \<Rightarrow> SignedWide \<Rightarrow> SignedWide \<Rightarrow> DecimalArithmeticStatus + u64" where
  "EncodeRaw type byte_width numerator denominator =
     (case Divide (magnitude numerator) (magnitude denominator) of
        None \<Rightarrow> Inl INTERNAL_ERROR
      | Some (quot, rem) \<Rightarrow>
          if \<not> IsZero rem then Inl RAW_NOT_INTEGRAL
          else let raw = Canonical \<lparr>magnitude = quot,
                                    negative = (negative numerator \<noteq> negative denominator)\<rparr>
               in if \<not> FitsRaw raw type byte_width then Inl RAW_OUT_OF_RANGE
                  else case To64 (magnitude raw) of
                    None \<Rightarrow> Inl INTERNAL_ERROR
                  | Some m \<Rightarrow>
                      let raw_bits = (if negative raw then 0 - m else m)
                      in Inr (if byte_width < 8
                              then raw_bits AND (push_bit (byte_width * 8) 1 - 1) else raw_bits))"

definition EncodeDecimal ::
    "LinearConversionDescriptor \<Rightarrow> Decimal64 \<Rightarrow> nat \<Rightarrow> DecimalArithmeticStatus + u64" where
  "EncodeDecimal conversion logical byte_width =
     (if sint (scale logical) < 0 \<or> sint (scale logical) > 18 then Inl DECIMAL_SCALE_OUT_OF_RANGE
      else case EncodeTerms conversion (coefficient logical) (nat (sint (scale logical))) of
        None \<Rightarrow> Inl INTERNAL_ERROR
      | Some (logical_value, bias, denominator) \<Rightarrow>
          (case SignedAdd logical_value (bias\<lparr>negative := \<not> negative bias\<rparr>) of
             None \<Rightarrow> Inl INTERNAL_ERROR
           | Some numerator \<Rightarrow>
               EncodeRaw (raw_value_type conversion) byte_width numerator denominator))"

definition DecimalEqual :: "Decimal64 \<Rightarrow> Decimal64 \<Rightarrow> bool" where
  "DecimalEqual left right =
     (if sint (scale left) < 0 \<or> sint (scale left) > 18 \<or>
         sint (scale right) < 0 \<or> sint (scale right) > 18 then False
      else case Normalize (FromSigned (coefficient left)) (nat (sint (scale left))) of
        Inl _ \<Rightarrow> False
      | Inr l \<Rightarrow>
          (case Normalize (FromSigned (coefficient right)) (nat (sint (scale right))) of
             Inl _ \<Rightarrow> False
           | Inr r \<Rightarrow> coefficient l = coefficient r \<and> scale l = scale r))"

section \<open>The numbers they stand for\<close>

definition dec_value :: "Decimal64 \<Rightarrow> rat" where
  "dec_value d = of_int (sint (coefficient d)) / 10 ^ nat (sint (scale d))"

definition scale_valid :: "Decimal64 \<Rightarrow> bool" where
  "scale_valid d \<longleftrightarrow> 0 \<le> sint (scale d) \<and> sint (scale d) \<le> 18"

definition dec_canonical :: "Decimal64 \<Rightarrow> bool" where
  "dec_canonical d \<longleftrightarrow> scale_valid d \<and> (scale d = 0 \<or> sint (coefficient d) mod 10 \<noteq> 0)"

definition raw_integer :: "ValueType \<Rightarrow> nat \<Rightarrow> u64 \<Rightarrow> int" where
  "raw_integer type w bits =
     (if type = VT_UINT64 \<or> unat bits < 2 ^ (8 * w - 1) then int (unat bits)
      else int (unat bits) - 2 ^ (8 * w))"

definition raw_fits :: "ValueType \<Rightarrow> nat \<Rightarrow> int \<Rightarrow> bool" where
  "raw_fits type w n \<longleftrightarrow>
     (if type = VT_UINT64 then 0 \<le> n \<and> n < 2 ^ (8 * w)
      else type = VT_INT64 \<and> - (2 ^ (8 * w - 1)) \<le> n \<and> n < 2 ^ (8 * w - 1))"

definition desc_A :: "LinearConversionDescriptor \<Rightarrow> int" where
  "desc_A c = sval (FromDescriptor (scale_coefficient c))"

definition desc_B :: "LinearConversionDescriptor \<Rightarrow> int" where
  "desc_B c = sval (FromDescriptor (bias_coefficient c))"

definition linear_value :: "LinearConversionDescriptor \<Rightarrow> int \<Rightarrow> rat" where
  "linear_value c n = of_int (n * desc_A c + desc_B c) / 10 ^ decimal_places c"

text \<open>What the plan layer establishes of a descriptor: eight limbs, at most 18 places, a scale
  that is not zero, and coefficients of at most \<open>2 ^ 63 * 10 ^ 18\<close>.\<close>

definition coefficient_ok :: "SignedCoefficient256 \<Rightarrow> bool" where
  "coefficient_ok v \<longleftrightarrow> wide_ok (coef_words v) \<and> wval (coef_words v) \<le> 2 ^ 63 * 10 ^ 18"

definition conversion_ok :: "LinearConversionDescriptor \<Rightarrow> bool" where
  "conversion_ok c \<longleftrightarrow>
     (raw_value_type c = VT_UINT64 \<or> raw_value_type c = VT_INT64) \<and> decimal_places c \<le> 18 \<and>
     coefficient_ok (scale_coefficient c) \<and> coefficient_ok (bias_coefficient c) \<and>
     wval (coef_words (scale_coefficient c)) \<noteq> 0"

subsection \<open>Descriptors and powers\<close>

lemma FromDescriptor_sval:
  assumes "coefficient_ok v"
  shows "signed_ok (FromDescriptor v)" "wide_ok (magnitude (FromDescriptor v))"
    and "\<bar>sval (FromDescriptor v)\<bar> \<le> 2 ^ 63 * 10 ^ 18"
    and "sval (FromDescriptor v) = 0 \<longleftrightarrow> wval (coef_words v) = 0"
proof -
  have c: "signed_ok (FromDescriptor v) \<and>
      sval (FromDescriptor v) = sval \<lparr>magnitude = coef_words v, negative = coef_negative v\<rparr>"
    using Canonical_sval [of "\<lparr>magnitude = coef_words v, negative = coef_negative v\<rparr>"] assms
    by (simp add: FromDescriptor_def coefficient_ok_def)
  then show "signed_ok (FromDescriptor v)" "wide_ok (magnitude (FromDescriptor v))"
    by (auto simp: signed_ok_def)
  show "\<bar>sval (FromDescriptor v)\<bar> \<le> 2 ^ 63 * 10 ^ 18"
    "sval (FromDescriptor v) = 0 \<longleftrightarrow> wval (coef_words v) = 0"
    using c assms by (auto simp: sval_Some coefficient_ok_def)
qed

lemma unat_Power10: "n \<le> 19 \<Longrightarrow> unat (Power10 n) = 10 ^ n"
proof (induction n)
  case (Suc n)
  then have "(10::nat) ^ Suc n \<le> 10 ^ 19" by (intro power_increasing) auto
  with Suc show ?case by (simp add: unat_u64_mult)
qed simp

lemma wide_ok_From64_10 [simp]: "wval (From64 10) = 10"
  by simp

lemma sint_small_scale: "n \<le> 18 \<Longrightarrow> sint (of_nat n :: i32) = int n"
  using sint_sbintrunc' [of "int n", where ?'a = 32]
  by (simp add: signed_take_bit_int_eq_self)

subsection \<open>Normalisation\<close>

lemma Normalize_loop_spec:
  "wide_ok (magnitude c) \<Longrightarrow>
     \<exists>c' s'. Normalize_loop c s = Some (c', s') \<and> wide_ok (magnitude c') \<and>
       negative c' = negative c \<and> s' \<le> s \<and>
       wval (magnitude c) = wval (magnitude c') * 10 ^ (s - s') \<and>
       (s' = 0 \<or> wval (magnitude c') mod 10 \<noteq> 0)"
proof (induction s arbitrary: c)
  case (Suc s)
  have "Divide (magnitude c) (From64 10) \<noteq> None"
    using Divide_wval(2) [OF Suc.prems From64_ok] by simp
  then obtain q r where dv: "Divide (magnitude c) (From64 10) = Some (q, r)" by auto
  from Divide_wval(1) [OF Suc.prems From64_ok dv]
  have f: "wide_ok q" "wide_ok r" "wval q = wval (magnitude c) div 10" "wval r = wval (magnitude c) mod 10"
    by auto
  show ?case
  proof (cases "wval r = 0")
    case True
    from Suc.IH [of "c\<lparr>magnitude := q\<rparr>"] f(1) obtain c' s'
      where n: "Normalize_loop (c\<lparr>magnitude := q\<rparr>) s = Some (c', s')" "wide_ok (magnitude c')"
        "negative c' = negative c" "s' \<le> s" "wval q = wval (magnitude c') * 10 ^ (s - s')"
        "s' = 0 \<or> wval (magnitude c') mod 10 \<noteq> 0"
      by auto
    have "wval (magnitude c) = 10 * wval q" using f True by auto
    then have "wval (magnitude c) = wval (magnitude c') * 10 ^ (Suc s - s')"
      using n(4,5) by (simp add: Suc_diff_le)
    then show ?thesis using n dv True f by (simp add: IsZero_wval)
  qed (use dv f Suc.prems in \<open>simp add: IsZero_wval\<close>)
qed simp

lemma rat_pow10_eq:
  "of_int a / 10 ^ s = (of_int b / 10 ^ t :: rat) \<longleftrightarrow> a * 10 ^ t = b * 10 ^ s"
proof -
  have "of_int a / 10 ^ s = (of_int b / 10 ^ t :: rat) \<longleftrightarrow>
      (of_int (a * 10 ^ t) :: rat) = of_int (b * 10 ^ s)"
    by (simp add: field_simps)
  then show ?thesis by (simp only: of_int_eq_iff)
qed

lemma sval_scaled:
  assumes "wval (magnitude c) = wval (magnitude c') * 10 ^ k" "negative c' = negative c"
  shows "sval c = sval c' * 10 ^ k"
  using assms by (simp add: sval_def)

lemma reduced_minimal:
  fixes a b :: int
  assumes "a * 10 ^ s = b * 10 ^ k" "s = 0 \<or> b mod 10 \<noteq> 0"
  shows "s \<le> k \<and> a = b * 10 ^ (k - s)"
proof -
  have "s \<le> k"
  proof (rule ccontr)
    assume "\<not> s \<le> k"
    then obtain j where j: "s = k + Suc j" by (metis add_Suc_right less_imp_Suc_add not_le)
    then have "b = 10 * (a * 10 ^ j)" using assms(1) by (simp add: power_add)
    with assms(2) j show False by simp
  qed
  moreover from this assms(1) have "a * 10 ^ s = b * 10 ^ (k - s) * 10 ^ s"
    by (simp add: power_add [symmetric] mult.assoc)
  ultimately show ?thesis by simp
qed

lemma int64_scaled:
  fixes b :: int
  assumes "- 9223372036854775808 \<le> b * 10 ^ j" "b * 10 ^ j < 9223372036854775808"
  shows "- 9223372036854775808 \<le> b \<and> b < 9223372036854775808"
proof -
  have p: "(1::int) \<le> 10 ^ j" by simp
  show ?thesis
  proof (cases "0 \<le> b")
    case True
    with p have "b * 1 \<le> b * 10 ^ j" by (intro mult_left_mono) auto
    with assms True show ?thesis by linarith
  next
    case False
    with p have "b * 10 ^ j \<le> b * 1" by (intro mult_left_mono_neg) auto
    with assms False show ?thesis by linarith
  qed
qed

lemma Normalize_exact:
  assumes "wide_ok (magnitude c)" "s \<le> 18"
  shows "Normalize c s = Inr d \<Longrightarrow>
      dec_canonical d \<and> dec_value d = of_int (sval c) / 10 ^ s"
    and "Normalize c s = Inl e \<Longrightarrow>
      e = LOGICAL_OUT_OF_RANGE \<and>
      \<not> (\<exists>x. scale_valid x \<and> dec_value x = of_int (sval c) / 10 ^ s)"
proof -
  obtain c' s' where n: "Normalize_loop c s = Some (c', s')" "wide_ok (magnitude c')"
      "negative c' = negative c" "s' \<le> s" "wval (magnitude c) = wval (magnitude c') * 10 ^ (s - s')"
      "s' = 0 \<or> wval (magnitude c') mod 10 \<noteq> 0"
    using Normalize_loop_spec [OF assms(1)] by blast
  have sv: "sval c = sval c' * 10 ^ (s - s')" by (rule sval_scaled) (fact n)+
  have red: "s' = 0 \<or> sval c' mod 10 \<noteq> 0"
  proof -
    have "sval c' mod 10 = 0 \<longleftrightarrow> int (wval (magnitude c') mod 10) = 0"
      by (auto simp: sval_def zmod_int dvd_eq_mod_eq_0 [symmetric])
    with n(6) show ?thesis by simp
  qed
  have val: "of_int (sval c) / 10 ^ s = (of_int (sval c') / 10 ^ s' :: rat)"
    unfolding rat_pow10_eq sv using n(4) by (simp add: mult.assoc flip: power_add)
  have zero: "IsZero (magnitude c) \<longleftrightarrow> sval c = 0"
    by (simp add: IsZero_wval [OF assms(1)] sval_def)
  show "Normalize c s = Inr d \<Longrightarrow> dec_canonical d \<and> dec_value d = of_int (sval c) / 10 ^ s"
  proof -
    assume out: "Normalize c s = Inr d"
    show ?thesis
    proof (cases "sval c = 0")
      case True
      with out zero show ?thesis
        by (auto simp: Normalize_def dec_canonical_def scale_valid_def dec_value_def)
    next
      case False
      with out n(1) zero obtain v where v: "ToSigned c' = Some v" "d = \<lparr>coefficient = v, scale = of_nat s'\<rparr>"
        by (auto simp: Normalize_def split: option.splits)
      have "sint v = sval c'" by (rule ToSigned_sval(1) [OF n(2) v(1)])
      moreover have "sint (scale d) = int s'" using n(4) assms(2) by (simp add: v sint_small_scale)
      ultimately show ?thesis
        using red n(4) assms(2) val by (auto simp: v dec_canonical_def scale_valid_def dec_value_def)
    qed
  qed
  assume out: "Normalize c s = Inl e"
  then have e: "e = LOGICAL_OUT_OF_RANGE" "ToSigned c' = None"
    using n(1) by (auto simp: Normalize_def split: option.splits if_splits)
  have "False" if x: "scale_valid x" "dec_value x = of_int (sval c) / 10 ^ s" for x
  proof -
    let ?k = "nat (sint (scale x))"
    have "sint (coefficient x) * 10 ^ s' = sval c' * 10 ^ ?k"
      using x(2) unfolding val dec_value_def rat_pow10_eq .
    from reduced_minimal [OF this red] have "sint (coefficient x) = sval c' * 10 ^ (?k - s')" by simp
    with sint64_range [of "coefficient x"] int64_scaled [of "sval c'" "?k - s'"]
    have "- 9223372036854775808 \<le> sval c' \<and> sval c' < 9223372036854775808" by simp
    with ToSigned_sval(2) [OF n(2)] e(2) show False by simp
  qed
  with e(1) show "e = LOGICAL_OUT_OF_RANGE \<and>
      \<not> (\<exists>x. scale_valid x \<and> dec_value x = of_int (sval c) / 10 ^ s)" by blast
qed

lemma dec_canonical_unique:
  assumes "dec_canonical x" "dec_canonical y" "dec_value x = dec_value y"
  shows "coefficient x = coefficient y \<and> scale x = scale y"
proof -
  let ?s = "\<lambda>d. nat (sint (scale d))" and ?c = "\<lambda>d. sint (coefficient d)"
  have eq: "?c x * 10 ^ ?s y = ?c y * 10 ^ ?s x"
    using assms(3) unfolding dec_value_def rat_pow10_eq .
  have r: "?s d = 0 \<or> ?c d mod 10 \<noteq> 0" if "dec_canonical d" for d
    using that by (auto simp: dec_canonical_def)
  from reduced_minimal [OF eq r [OF assms(2)]] reduced_minimal [OF eq [symmetric] r [OF assms(1)]]
  have s: "?s x = ?s y" and "?c x = ?c y" by auto
  moreover have "sint (scale x) = sint (scale y)"
    using s assms by (simp add: dec_canonical_def scale_valid_def eq_nat_nat_iff)
  ultimately show ?thesis by (simp add: signed_word_eqI)
qed

lemma DecimalEqual_iff:
  "DecimalEqual x y \<longleftrightarrow> scale_valid x \<and> scale_valid y \<and> dec_value x = dec_value y"
proof (cases "scale_valid x \<and> scale_valid y")
  case True
  have nz: "\<exists>r. Normalize (FromSigned (coefficient d)) (nat (sint (scale d))) = Inr r \<and>
      dec_canonical r \<and> dec_value r = dec_value d" if "scale_valid d" for d
  proof -
    have ok: "wide_ok (magnitude (FromSigned (coefficient d)))" "nat (sint (scale d)) \<le> 18"
      using FromSigned_ok [of "coefficient d"] that by (simp_all add: signed_ok_def scale_valid_def nat_le_iff)
    have v: "of_int (sval (FromSigned (coefficient d))) / 10 ^ nat (sint (scale d)) = dec_value d"
      by (simp add: dec_value_def)
    show ?thesis
      using Normalize_exact [OF ok] that unfolding v
      by (cases "Normalize (FromSigned (coefficient d)) (nat (sint (scale d)))") auto
  qed
  from nz [of x] nz [of y] True obtain l r
    where "Normalize (FromSigned (coefficient x)) (nat (sint (scale x))) = Inr l" "dec_canonical l"
      "dec_value l = dec_value x"
      "Normalize (FromSigned (coefficient y)) (nat (sint (scale y))) = Inr r" "dec_canonical r"
      "dec_value r = dec_value y" by blast
  note n = this
  have "DecimalEqual x y \<longleftrightarrow> coefficient l = coefficient r \<and> scale l = scale r"
    using True n(1,4) by (simp add: DecimalEqual_def scale_valid_def)
  also have "\<dots> \<longleftrightarrow> dec_value l = dec_value r"
    using dec_canonical_unique [OF n(2,5)] by (auto simp: dec_value_def)
  finally show ?thesis using True n(3,6) by simp
qed (auto simp: DecimalEqual_def scale_valid_def)

subsection \<open>Raw integers of one to eight bytes\<close>

lemma width_cases:
  assumes "1 \<le> w" "w \<le> 8"
  obtains "w = 1" | "w = 2" | "w = 3" | "w = 4" | "w = 5" | "w = 6" | "w = 7" | "w = (8::nat)"
  using assms by linarith

lemma FitsRaw_iff:
  assumes "signed_ok raw" "1 \<le> w" "w \<le> 8"
  shows "FitsRaw raw type w \<longleftrightarrow> raw_fits type w (sval raw)"
proof -
  have ok: "wide_ok (magnitude raw)" using assms(1) by (simp add: signed_ok_def)
  have half: "(2::nat) ^ (8 * w - 1) \<le> 2 ^ 63" using assms by (intro power_increasing) auto
  have sign: "unat (push_bit (8 * w - 1) (1 :: u64)) = 2 ^ (8 * w - 1)"
    by (rule unat_push_1) (use assms in linarith)
  have sign1: "unat (push_bit (8 * w - 1) (1 :: u64) - 1) = 2 ^ (8 * w - 1) - 1"
    using sign by (simp add: unat_sub_if' del: push_bit_of_1)
  have le1: "a \<le> 2 ^ k - 1 \<longleftrightarrow> a < 2 ^ k" for a k :: nat
    using zero_less_power [of "2::nat" k] by linarith
  show ?thesis
  proof (cases "To64 (magnitude raw)")
    case None
    then have big: "2 ^ 64 \<le> wval (magnitude raw)" using To64_wval(2) [OF ok] by simp
    have "\<not> raw_fits type w (sval raw)"
      using big half power_width_le [OF assms(3)]
      by (auto simp: raw_fits_def sval_def int_pow2)
    with None show ?thesis using assms by (simp add: FitsRaw_def)
  next
    case (Some m)
    then have m: "unat m = wval (magnitude raw)" by (rule To64_wval(1) [OF ok])
    have u: "w = 8 \<or> m < push_bit (w * 8) 1 \<longleftrightarrow> wval (magnitude raw) < 2 ^ (8 * w)"
    proof (cases "w = 8")
      case True
      then show ?thesis using unat_u64_lt [of m] m by simp
    next
      case False
      then have "8 * w < 64" using assms by simp
      then show ?thesis
        using False m by (simp add: word_less_nat_alt mult.commute unat_push_1 del: push_bit_of_1)
    qed
    have s: "m \<le> (if negative raw then push_bit (8 * w - 1) 1 else push_bit (8 * w - 1) 1 - 1) \<longleftrightarrow>
        (if negative raw then wval (magnitude raw) \<le> 2 ^ (8 * w - 1)
         else wval (magnitude raw) < 2 ^ (8 * w - 1))"
      using m sign sign1 le1 [of "wval (magnitude raw)" "8 * w - 1"]
      by (simp add: word_le_nat_alt del: push_bit_of_1)
    show ?thesis
      using Some u s assms
      by (auto simp: FitsRaw_def raw_fits_def sval_def Let_def mult.commute int_pow2 signed_ok_def
          simp del: push_bit_of_1)
  qed
qed

lemma raw_integer_mod:
  assumes "raw_fits type w n" "1 \<le> w" "int (unat bits) = n mod 2 ^ (8 * w)"
  shows "raw_integer type w bits = n"
proof (cases "type = VT_UINT64 \<or> 0 \<le> n")
  case True
  have "n < 2 ^ (8 * w)" "0 \<le> n"
    using assms(1) True power_width_half [OF assms(2), where 'a = int]
    by (auto simp: raw_fits_def split: if_splits)
  then have "int (unat bits) = n" using assms(3) by simp
  moreover have "type \<noteq> VT_UINT64 \<Longrightarrow> unat bits < 2 ^ (8 * w - 1)"
    using assms(1) \<open>int (unat bits) = n\<close> by (auto simp: raw_fits_def uint_pow2)
  ultimately show ?thesis by (cases "type = VT_UINT64") (simp_all add: raw_integer_def)
next
  case False
  with assms(1) have n: "- (2 ^ (8 * w - 1)) \<le> n" "n < 0" by (auto simp: raw_fits_def)
  have "(n + 2 ^ (8 * w)) mod 2 ^ (8 * w) = n + 2 ^ (8 * w)"
    by (rule mod_pos_pos_trivial) (use n power_width_half [OF assms(2), where 'a = int] in linarith)+
  then have b: "int (unat bits) = n + 2 ^ (8 * w)" using assms(3) by simp
  then have "int (2 ^ (8 * w - 1)) \<le> int (unat bits)"
    using n power_width_half [OF assms(2), where 'a = int] by simp
  then have "\<not> unat bits < 2 ^ (8 * w - 1)" by linarith
  with False b show ?thesis by (simp add: raw_integer_def)
qed

lemma raw_integer_fits:
  assumes "type = VT_UINT64 \<or> type = VT_INT64" "1 \<le> w" "unat bits < 2 ^ (8 * w)"
  shows "raw_fits type w (raw_integer type w bits)"
    and "raw_integer type w bits mod 2 ^ (8 * w) = int (unat bits)"
proof -
  have b: "uint bits < 2 ^ (8 * w)" using assms(3) by (simp add: uint_pow2)
  have h: "(2::int) ^ (8 * w) = 2 * 2 ^ (8 * w - 1)" by (rule power_width_half [OF assms(2)])
  show "raw_fits type w (raw_integer type w bits)"
  proof (cases "type = VT_UINT64 \<or> unat bits < 2 ^ (8 * w - 1)")
    case True
    then show ?thesis using assms(1) b by (auto simp: raw_fits_def raw_integer_def uint_pow2)
  next
    case False
    then have "2 ^ (8 * w - 1) \<le> uint bits" using uint_pow2(1) [of bits "8 * w - 1"] by linarith
    moreover from this have "- (2 ^ (8 * w - 1)) \<le> uint bits - 2 ^ (8 * w)" using h by linarith
    moreover have "uint bits - 2 ^ (8 * w) < 2 ^ (8 * w - 1)"
      using b zero_less_power [of "2::int" "8 * w - 1"] by linarith
    ultimately show ?thesis using assms(1) False by (simp add: raw_fits_def raw_integer_def)
  qed
  show "raw_integer type w bits mod 2 ^ (8 * w) = int (unat bits)"
    using b by (simp add: raw_integer_def)
qed

lemma RawSigned_sval:
  assumes "1 \<le> w" "w \<le> 8" "unat bits < 2 ^ (8 * w)"
  shows "signed_ok (RawSigned bits type w) \<and> sval (RawSigned bits type w) = raw_integer type w bits"
proof -
  let ?n = "8 * w"
  note bit_half = sign_bit_clear_iff [OF assms(1,3)] and neg = unat_twos_magnitude [OF assms(2,3)]
  show ?thesis
  proof (cases "type = VT_UINT64 \<or> unat bits < 2 ^ (?n - 1)")
    case True
    then have "RawSigned bits type w = \<lparr>magnitude = From64 bits, negative = False\<rparr>"
      using bit_half by (auto simp: RawSigned_def Let_def mult.commute)
    then show ?thesis using True by (simp add: signed_ok_def sval_def raw_integer_def)
  next
    case False
    then have nz: "unat bits \<noteq> 0" using zero_less_power [of "2::nat" "?n - 1"] by linarith
    let ?m = "(NOT bits AND (if ?n = 64 then - 1 else push_bit ?n 1 - 1)) + 1"
    have "RawSigned bits type w = Canonical \<lparr>magnitude = From64 ?m, negative = True\<rparr>"
      using False bit_half by (simp add: RawSigned_def Let_def mult.commute)
    moreover have "- int (2 ^ ?n - unat bits) = int (unat bits) - 2 ^ ?n"
      using assms(3) by (simp add: of_nat_diff)
    ultimately show ?thesis
      using False neg [OF nz] Canonical_sval [of "\<lparr>magnitude = From64 ?m, negative = True\<rparr>"]
      by (simp add: sval_Some raw_integer_def)
  qed
qed

section \<open>Decoding and encoding are exact\<close>

lemma abs_product_bound:
  fixes a b :: int
  assumes "\<bar>a\<bar> \<le> x" "\<bar>b\<bar> \<le> y" "x * y < z"
  shows "\<bar>a * b\<bar> < z"
proof -
  have "\<bar>a\<bar> * \<bar>b\<bar> \<le> x * y" by (rule mult_mono) (use assms in auto)
  then show ?thesis using assms(3) by (simp add: abs_mult)
qed

lemma raw_integer_abs: "1 \<le> w \<Longrightarrow> w \<le> 8 \<Longrightarrow> \<bar>raw_integer type w bits\<bar> \<le> 2 ^ 64"
proof -
  assume w: "1 \<le> w" "w \<le> 8"
  define p :: int where "p = 2 ^ (8 * w)"
  have "p \<le> 2 ^ 64" unfolding p_def by (rule power_increasing) (use w in auto)
  then have "p \<le> 18446744073709551616" by simp
  moreover have "0 < p" by (simp add: p_def)
  ultimately have "\<bar>uint bits - p\<bar> \<le> 18446744073709551616"
    using uint_lt64 [of bits] uint_ge_0 [of bits] by linarith
  then show ?thesis
    using uint_lt64 [of bits] by (auto simp: raw_integer_def simp flip: p_def)
qed

lemma DecodeDecimal_exact:
  assumes c: "conversion_ok c" and w: "1 \<le> w" "w \<le> 8" "unat bits < 2 ^ (8 * w)"
  defines "n \<equiv> raw_integer (raw_value_type c) w bits"
  shows "DecodeDecimal c bits w = Inr d \<Longrightarrow> dec_canonical d \<and> dec_value d = linear_value c n"
    and "DecodeDecimal c bits w = Inl e \<Longrightarrow>
      e = LOGICAL_OUT_OF_RANGE \<and> \<not> (\<exists>x. scale_valid x \<and> dec_value x = linear_value c n)"
proof -
  let ?raw = "RawSigned bits (raw_value_type c) w"
  let ?A = "FromDescriptor (scale_coefficient c)" and ?B = "FromDescriptor (bias_coefficient c)"
  have raw: "signed_ok ?raw" "sval ?raw = n" "wide_ok (magnitude ?raw)"
    using RawSigned_sval [OF w] by (auto simp: n_def signed_ok_def)
  have ty: "raw_value_type c = VT_UINT64 \<or> raw_value_type c = VT_INT64"
    and co: "coefficient_ok (scale_coefficient c)" "coefficient_ok (bias_coefficient c)"
    and t: "decimal_places c \<le> 18"
    using c by (auto simp: conversion_ok_def)
  note A = FromDescriptor_sval [OF co(1)] and B = FromDescriptor_sval [OF co(2)]
  have fits: "FitsRaw ?raw (raw_value_type c) w"
    using FitsRaw_iff [OF raw(1) w(1,2)] raw_integer_fits(1) [OF ty w(1,3)] raw(2) by (simp add: n_def)
  have "\<bar>n\<bar> \<le> 2 ^ 64" unfolding n_def by (rule raw_integer_abs [OF w(1,2)])
  then have nA: "\<bar>n * sval ?A\<bar> < 2 ^ 200" by (rule abs_product_bound [OF _ A(3)]) simp
  then have "SignedMultiply ?raw ?A \<noteq> None"
    using SignedMultiply_sval(2) [OF raw(3) A(2)] raw(2) by simp
  then obtain p where p: "SignedMultiply ?raw ?A = Some p" by auto
  from SignedMultiply_sval(1) [OF raw(3) A(2) p] raw(2)
  have ps: "sval p = n * sval ?A" "wide_ok (magnitude p)" by (auto simp: signed_ok_def)
  have "\<bar>sval p + sval ?B\<bar> < 2 ^ 256" using nA B(3) by (simp add: ps)
  then have "SignedAdd p ?B \<noteq> None" using SignedAdd_sval(2) [OF ps(2) B(2)] by simp
  then obtain v where v: "SignedAdd p ?B = Some v" by auto
  from SignedAdd_sval(1) [OF ps(2) B(2) v]
  have vs: "of_int (sval v) / 10 ^ decimal_places c = linear_value c n" "wide_ok (magnitude v)"
    by (auto simp: signed_ok_def linear_value_def desc_A_def desc_B_def ps)
  have dec: "DecodeDecimal c bits w = Normalize v (decimal_places c)"
    using fits p v by (simp add: DecodeDecimal_def Let_def)
  show "DecodeDecimal c bits w = Inr d \<Longrightarrow> dec_canonical d \<and> dec_value d = linear_value c n"
    using Normalize_exact(1) [OF vs(2) t] by (simp add: dec vs)
  show "DecodeDecimal c bits w = Inl e \<Longrightarrow>
      e = LOGICAL_OUT_OF_RANGE \<and> \<not> (\<exists>x. scale_valid x \<and> dec_value x = linear_value c n)"
    using Normalize_exact(2) [OF vs(2) t] by (simp add: dec vs)
qed

lemma EncodeTerms_exact:
  assumes c: "conversion_ok c" and s: "s \<le> 18"
  defines "u \<equiv> max s (decimal_places c)"
  shows "\<exists>l b d. EncodeTerms c C s = Some (l, b, d) \<and>
     wide_ok (magnitude l) \<and> wide_ok (magnitude b) \<and> wide_ok (magnitude d) \<and> signed_ok d \<and>
     sval l = sint C * 10 ^ (u - s) \<and> sval b = desc_B c * 10 ^ (u - decimal_places c) \<and>
     sval d = desc_A c * 10 ^ (u - decimal_places c) \<and>
     \<bar>sval l\<bar> < 2 ^ 200 \<and> \<bar>sval b\<bar> < 2 ^ 200"
proof -
  let ?A = "FromDescriptor (scale_coefficient c)" and ?B = "FromDescriptor (bias_coefficient c)"
  let ?p = "\<lambda>k. \<lparr>magnitude = From64 (Power10 k), negative = False\<rparr>"
  have co: "coefficient_ok (scale_coefficient c)" "coefficient_ok (bias_coefficient c)"
    and t: "decimal_places c \<le> 18"
    using c by (auto simp: conversion_ok_def)
  note A = FromDescriptor_sval [OF co(1)] and B = FromDescriptor_sval [OF co(2)]
  have u: "u - s \<le> 18" "u - decimal_places c \<le> 18" using s t by (auto simp: u_def)
  have p: "sval (?p k) = 10 ^ k" "\<bar>sval (?p k)\<bar> \<le> 10 ^ 18" "wide_ok (magnitude (?p k))"
    if "k \<le> 18" for k
  proof -
    show "sval (?p k) = 10 ^ k" using unat_Power10 [of k] that by (simp add: sval_def)
    then show "\<bar>sval (?p k)\<bar> \<le> 10 ^ 18" using power_increasing [OF that, of "10::int"] by simp
  qed simp
  have mul: "\<exists>r. SignedMultiply x (?p k) = Some r \<and> wide_ok (magnitude r) \<and> signed_ok r \<and>
      sval r = sval x * 10 ^ k \<and> \<bar>sval r\<bar> < 2 ^ 200"
    if x: "wide_ok (magnitude x)" "\<bar>sval x\<bar> \<le> 2 ^ 63 * 10 ^ 18" and k: "k \<le> 18" for x k
  proof -
    have lt: "\<bar>sval x * sval (?p k)\<bar> < 2 ^ 200"
      by (rule abs_product_bound [OF x(2) p(2) [OF k]]) simp
    then have "SignedMultiply x (?p k) \<noteq> None"
      using SignedMultiply_sval(2) [OF x(1) p(3) [OF k]] by simp
    then obtain r where "SignedMultiply x (?p k) = Some r" by auto
    with SignedMultiply_sval(1) [OF x(1) p(3) [OF k] this] lt p(1) [OF k]
    show ?thesis by (auto simp: signed_ok_def)
  qed
  have "wide_ok (magnitude (FromSigned C))" using FromSigned_ok [of C] by (simp add: signed_ok_def)
  moreover have "\<bar>sval (FromSigned C)\<bar> \<le> 2 ^ 63 * 10 ^ 18" using sint64_range [of C] by auto
  ultimately obtain l where l: "SignedMultiply (FromSigned C) (?p (u - s)) = Some l"
      "wide_ok (magnitude l)" "sval l = sint C * 10 ^ (u - s)" "\<bar>sval l\<bar> < 2 ^ 200"
    using mul [of "FromSigned C" "u - s"] u by auto
  obtain b where b: "SignedMultiply ?B (?p (u - decimal_places c)) = Some b" "wide_ok (magnitude b)"
      "sval b = desc_B c * 10 ^ (u - decimal_places c)" "\<bar>sval b\<bar> < 2 ^ 200"
    using mul [OF B(2,3) u(2)] by (auto simp: desc_B_def)
  obtain d where d: "SignedMultiply ?A (?p (u - decimal_places c)) = Some d" "wide_ok (magnitude d)"
      "signed_ok d" "sval d = desc_A c * 10 ^ (u - decimal_places c)"
    using mul [OF A(2,3) u(2)] by (auto simp: desc_A_def)
  show ?thesis
    using l b d by (simp add: EncodeTerms_def Let_def u_def [symmetric])
qed

lemma EncodeRaw_exact:
  assumes num: "signed_ok num" and den: "signed_ok den" "sval den \<noteq> 0"
    and w: "1 \<le> w" "w \<le> 8"
  shows "EncodeRaw type w num den = Inr bits \<Longrightarrow>
      unat bits < 2 ^ (8 * w) \<and> sval num = raw_integer type w bits * sval den"
    and "EncodeRaw type w num den = Inl e \<Longrightarrow>
      e = RAW_NOT_INTEGRAL \<and> \<not> (\<exists>n. sval num = n * sval den) \<or>
      e = RAW_OUT_OF_RANGE \<and> (\<exists>n. sval num = n * sval den \<and> \<not> raw_fits type w n)"
proof -
  have ok: "wide_ok (magnitude num)" "wide_ok (magnitude den)" using num den by (auto simp: signed_ok_def)
  have dnz: "wval (magnitude den) \<noteq> 0" using den(2) by (auto simp: sval_def split: if_splits)
  then obtain q r where dv: "Divide (magnitude num) (magnitude den) = Some (q, r)"
    using Divide_wval(2) [OF ok] by auto
  from Divide_wval(1) [OF ok dv] have f: "wide_ok q" "wide_ok r"
    "wval q = wval (magnitude num) div wval (magnitude den)"
    "wval r = wval (magnitude num) mod wval (magnitude den)" by auto
  define raw where "raw = Canonical \<lparr>magnitude = q, negative = (negative num \<noteq> negative den)\<rparr>"
  have raw: "signed_ok raw" "sval raw = (if negative num \<noteq> negative den then - int (wval q) else int (wval q))"
    using Canonical_sval [of "\<lparr>magnitude = q, negative = (negative num \<noteq> negative den)\<rparr>"] f(1)
    by (auto simp: raw_def sval_Some)
  have rok: "wide_ok (magnitude raw)" using raw(1) by (simp add: signed_ok_def)
  have zero: "IsZero r \<longleftrightarrow> wval r = 0" by (rule IsZero_wval [OF f(2)])
  have dvd: "wval r = 0 \<longleftrightarrow> (\<exists>n. sval num = n * sval den)"
  proof -
    have "(\<exists>n. sval num = n * sval den) \<longleftrightarrow> sval den dvd sval num" by (auto simp: dvd_def mult.commute)
    also have "\<dots> \<longleftrightarrow> wval (magnitude den) dvd wval (magnitude num)" by (simp add: sval_def)
    finally show ?thesis by (simp add: f(4) dvd_eq_mod_eq_0)
  qed
  have n: "sval num = sval raw * sval den" if "wval r = 0"
  proof -
    have "wval (magnitude num) = wval q * wval (magnitude den)" using that f(3,4) by auto
    then show ?thesis unfolding raw(2) by (simp add: sval_def)
  qed
  note fits = FitsRaw_iff [OF raw(1) w]
  have none: "To64 (magnitude raw) \<noteq> None" if "FitsRaw raw type w"
    using that w by (auto simp: FitsRaw_def split: option.splits)
  have body: "EncodeRaw type w num den =
      (if \<not> IsZero r then Inl RAW_NOT_INTEGRAL
       else if \<not> FitsRaw raw type w then Inl RAW_OUT_OF_RANGE
       else case To64 (magnitude raw) of None \<Rightarrow> Inl INTERNAL_ERROR
         | Some m \<Rightarrow> let b = if negative raw then 0 - m else m
                      in Inr (if w < 8 then b AND (push_bit (w * 8) 1 - 1) else b))"
    by (simp only: EncodeRaw_def dv raw_def option.case prod.case Let_def)
  show "EncodeRaw type w num den = Inr bits \<Longrightarrow>
      unat bits < 2 ^ (8 * w) \<and> sval num = raw_integer type w bits * sval den"
  proof -
    assume out: "EncodeRaw type w num den = Inr bits"
    then obtain m where m: "wval r = 0" "FitsRaw raw type w" "To64 (magnitude raw) = Some m"
        "bits = (let b = if negative raw then 0 - m else m
                 in if w < 8 then b AND (push_bit (w * 8) 1 - 1) else b)"
      unfolding body zero by (cases "To64 (magnitude raw)") (auto simp: Let_def split: if_splits)
    have um: "unat m = wval (magnitude raw)" by (rule To64_wval(1) [OF rok m(3)])
    have neg: "uint (if negative raw then 0 - m else m) = sval raw mod 2 ^ 64"
      using um uint_lt64 [of m] by (simp add: sval_def uint_word_ariths flip: um)
    have "uint bits = sval raw mod 2 ^ (8 * w)"
    proof (cases "w < 8")
      case True
      let ?b = "if negative raw then 0 - m else m"
      have "bits = take_bit (8 * w) ?b"
        using m(4) True by (simp add: Let_def take_bit_eq_mask mask_eq_exp_minus_1 mult.commute)
      then have "uint bits = take_bit (8 * w) (uint ?b)" by (simp only: unsigned_take_bit_eq)
      also have "\<dots> = sval raw mod 2 ^ 64 mod 2 ^ (8 * w)" by (simp only: neg take_bit_eq_mod)
      also have "\<dots> = sval raw mod 2 ^ (8 * w)"
        by (rule mod_mod_cancel) (rule le_imp_power_dvd, use True in simp)
      finally show ?thesis .
    next
      case False
      then have "w = 8" using w by simp
      with m(4) neg show ?thesis by (simp add: Let_def)
    qed
    then have b: "int (unat bits) = sval raw mod 2 ^ (8 * w)" by simp
    have "int (unat bits) < 2 ^ (8 * w)" unfolding b by simp
    then have "unat bits < 2 ^ (8 * w)" by (simp only: int_pow2)
    moreover have "raw_integer type w bits = sval raw"
      by (rule raw_integer_mod [OF _ w(1) b]) (use fits m(2) in simp)
    ultimately show ?thesis using n [OF m(1)] by simp
  qed
  show "EncodeRaw type w num den = Inl e \<Longrightarrow>
      e = RAW_NOT_INTEGRAL \<and> \<not> (\<exists>n. sval num = n * sval den) \<or>
      e = RAW_OUT_OF_RANGE \<and> (\<exists>n. sval num = n * sval den \<and> \<not> raw_fits type w n)"
  proof (cases "wval r = 0")
    case True
    assume "EncodeRaw type w num den = Inl e"
    then have "e = RAW_OUT_OF_RANGE \<and> \<not> FitsRaw raw type w"
      unfolding body zero using True none by (auto simp: Let_def split: if_splits option.splits)
    then show ?thesis using n [OF True] fits by blast
  next
    case False
    assume "EncodeRaw type w num den = Inl e"
    then have "e = RAW_NOT_INTEGRAL" using dv zero False by (simp add: EncodeRaw_def)
    moreover have "\<not> (\<exists>n. sval num = n * sval den)" using False by (simp only: dvd not_False_eq_True)
    ultimately show ?thesis by simp
  qed
qed

lemma aligned_equation:
  assumes "s \<le> u" "t \<le> u"
  shows "of_int C / 10 ^ s = (of_int (n * a + b) / 10 ^ t :: rat) \<longleftrightarrow>
     C * 10 ^ (u - s) - b * 10 ^ (u - t) = n * (a * 10 ^ (u - t))"
proof -
  have s: "(10::int) ^ u = 10 ^ s * 10 ^ (u - s)" "(10::int) ^ u = 10 ^ t * 10 ^ (u - t)"
    using assms by (simp_all flip: power_add)
  have "of_int C / 10 ^ s = (of_int (n * a + b) / 10 ^ t :: rat) \<longleftrightarrow> C * 10 ^ t = (n * a + b) * 10 ^ s"
    by (rule rat_pow10_eq)
  also have "\<dots> \<longleftrightarrow> C * 10 ^ t * (10 ^ (u - s) * 10 ^ (u - t))
      = (n * a + b) * 10 ^ s * (10 ^ (u - s) * 10 ^ (u - t))"
    by simp
  also have "\<dots> \<longleftrightarrow> C * 10 ^ (u - s) * (10 ^ t * 10 ^ (u - t))
      = (n * a + b) * 10 ^ (u - t) * (10 ^ s * 10 ^ (u - s))"
    by (simp only: mult_ac)
  also have "\<dots> \<longleftrightarrow> C * 10 ^ (u - s) * 10 ^ u = (n * a + b) * 10 ^ (u - t) * 10 ^ u"
    by (simp only: s [symmetric])
  also have "\<dots> \<longleftrightarrow> C * 10 ^ (u - s) = (n * a + b) * 10 ^ (u - t)" by simp
  finally show ?thesis by (simp add: algebra_simps)
qed

lemma EncodeDecimal_exact:
  assumes c: "conversion_ok c" and w: "1 \<le> w" "w \<le> 8"
  defines "ty \<equiv> raw_value_type c"
  shows "EncodeDecimal c d w = Inr bits \<Longrightarrow>
      scale_valid d \<and> unat bits < 2 ^ (8 * w) \<and> dec_value d = linear_value c (raw_integer ty w bits)"
    and "EncodeDecimal c d w = Inl e \<Longrightarrow>
      e = DECIMAL_SCALE_OUT_OF_RANGE \<and> \<not> scale_valid d \<or>
      e = RAW_NOT_INTEGRAL \<and> scale_valid d \<and> \<not> (\<exists>n. dec_value d = linear_value c n) \<or>
      e = RAW_OUT_OF_RANGE \<and> scale_valid d \<and>
        (\<exists>n. dec_value d = linear_value c n \<and> \<not> raw_fits ty w n)"
proof -
  let ?s = "nat (sint (scale d))"
  define u where "u = max ?s (decimal_places c)"
  have eqn: "dec_value d = linear_value c n \<longleftrightarrow>
      sint (coefficient d) * 10 ^ (u - ?s) - desc_B c * 10 ^ (u - decimal_places c)
        = n * (desc_A c * 10 ^ (u - decimal_places c))" for n
    unfolding dec_value_def linear_value_def by (rule aligned_equation) (simp_all add: u_def)
  have main: "\<exists>num den. EncodeDecimal c d w = EncodeRaw ty w num den \<and> signed_ok num \<and>
      signed_ok den \<and> sval den \<noteq> 0 \<and>
      (\<forall>n. sval num = n * sval den \<longleftrightarrow> dec_value d = linear_value c n)"
    if v: "scale_valid d"
  proof -
    have s: "?s \<le> 18" using v by (simp add: scale_valid_def nat_le_iff)
    obtain l b dn where t: "EncodeTerms c (coefficient d) ?s = Some (l, b, dn)"
      "wide_ok (magnitude l)" "wide_ok (magnitude b)" "signed_ok dn"
      "sval l = sint (coefficient d) * 10 ^ (u - ?s)"
      "sval b = desc_B c * 10 ^ (u - decimal_places c)"
      "sval dn = desc_A c * 10 ^ (u - decimal_places c)"
      "\<bar>sval l\<bar> < 2 ^ 200" "\<bar>sval b\<bar> < 2 ^ 200"
      using EncodeTerms_exact [OF c s, of "coefficient d"] unfolding u_def by blast
    let ?b = "b\<lparr>negative := \<not> negative b\<rparr>"
    have nb: "sval ?b = - sval b" "wide_ok (magnitude ?b)" using t(3) by (simp_all add: sval_def)
    have "\<bar>sval l + sval ?b\<bar> < 2 ^ 200 + 2 ^ 200" using t(8,9) unfolding nb(1) by linarith
    also have "(2::int) ^ 200 + 2 ^ 200 \<le> 2 ^ 256" by simp
    finally have "\<bar>sval l + sval ?b\<bar> < 2 ^ 256" .
    then have "SignedAdd l ?b \<noteq> None" using SignedAdd_sval(2) [OF t(2) nb(2)] by simp
    then obtain num where a: "SignedAdd l ?b = Some num" by auto
    from SignedAdd_sval(1) [OF t(2) nb(2) a] have num: "signed_ok num" "sval num = sval l - sval b"
      using nb(1) by auto
    have "desc_A c \<noteq> 0"
      using c FromDescriptor_sval(4) by (auto simp: conversion_ok_def desc_A_def)
    then have "sval dn \<noteq> 0" by (simp add: t(7))
    moreover have "EncodeDecimal c d w = EncodeRaw ty w num dn"
      using v t(1) a by (simp add: EncodeDecimal_def scale_valid_def ty_def)
    ultimately show ?thesis
      using num t(4) unfolding eqn by (intro exI [of _ num] exI [of _ dn]) (simp add: t(5-7))
  qed
  have bad: "EncodeDecimal c d w = Inl DECIMAL_SCALE_OUT_OF_RANGE" if "\<not> scale_valid d"
    using that by (auto simp: EncodeDecimal_def scale_valid_def)
  show "EncodeDecimal c d w = Inr bits \<Longrightarrow>
      scale_valid d \<and> unat bits < 2 ^ (8 * w) \<and> dec_value d = linear_value c (raw_integer ty w bits)"
  proof (cases "scale_valid d")
    case True
    assume out: "EncodeDecimal c d w = Inr bits"
    from main [OF True] obtain num den where m: "EncodeDecimal c d w = EncodeRaw ty w num den"
      "signed_ok num" "signed_ok den" "sval den \<noteq> 0"
      "\<And>n. sval num = n * sval den \<longleftrightarrow> dec_value d = linear_value c n" by blast
    from EncodeRaw_exact(1) [OF m(2-4) w, of ty bits] out m(1,5) True show ?thesis by simp
  qed (use bad in simp)
  show "EncodeDecimal c d w = Inl e \<Longrightarrow>
      e = DECIMAL_SCALE_OUT_OF_RANGE \<and> \<not> scale_valid d \<or>
      e = RAW_NOT_INTEGRAL \<and> scale_valid d \<and> \<not> (\<exists>n. dec_value d = linear_value c n) \<or>
      e = RAW_OUT_OF_RANGE \<and> scale_valid d \<and>
        (\<exists>n. dec_value d = linear_value c n \<and> \<not> raw_fits ty w n)"
  proof (cases "scale_valid d")
    case True
    assume e: "EncodeDecimal c d w = Inl e"
    from main [OF True] obtain num den where m: "EncodeDecimal c d w = EncodeRaw ty w num den"
      "signed_ok num" "signed_ok den" "sval den \<noteq> 0"
      "\<And>n. sval num = n * sval den \<longleftrightarrow> dec_value d = linear_value c n" by blast
    from EncodeRaw_exact(2) [OF m(2-4) w, of ty e] e m(1,5) True show ?thesis by auto
  qed (use bad in simp)
qed

subsection \<open>Each direction undoes the other\<close>

lemma desc_A_nonzero: "conversion_ok c \<Longrightarrow> desc_A c \<noteq> 0"
  using FromDescriptor_sval(4) by (auto simp: conversion_ok_def desc_A_def)

lemma linear_value_inj: "conversion_ok c \<Longrightarrow> linear_value c m = linear_value c n \<longleftrightarrow> m = n"
  by (simp add: linear_value_def rat_pow10_eq desc_A_nonzero)

lemma raw_integer_inj:
  assumes "type = VT_UINT64 \<or> type = VT_INT64" "1 \<le> w" "unat a < 2 ^ (8 * w)" "unat b < 2 ^ (8 * w)"
    "raw_integer type w a = raw_integer type w b"
  shows "a = b"
proof -
  have "int (unat a) = int (unat b)"
    using raw_integer_fits(2) [OF assms(1-3)] raw_integer_fits(2) [OF assms(1,2,4)] assms(5) by simp
  then show ?thesis by (intro word_uint_eqI) simp
qed

lemma encode_of_value:
  assumes c: "conversion_ok c" and w: "1 \<le> w" "w \<le> 8" "unat bits < 2 ^ (8 * w)"
    and d: "scale_valid d" "dec_value d = linear_value c (raw_integer (raw_value_type c) w bits)"
  shows "EncodeDecimal c d w = Inr bits"
proof (cases "EncodeDecimal c d w")
  case (Inl e)
  have ty: "raw_value_type c = VT_UINT64 \<or> raw_value_type c = VT_INT64"
    using c by (simp add: conversion_ok_def)
  from EncodeDecimal_exact(2) [OF c w(1,2) Inl] d raw_integer_fits(1) [OF ty w(1,3)]
  show ?thesis by (auto simp: linear_value_inj [OF c])
next
  case (Inr b)
  have ty: "raw_value_type c = VT_UINT64 \<or> raw_value_type c = VT_INT64"
    using c by (simp add: conversion_ok_def)
  from EncodeDecimal_exact(1) [OF c w(1,2) Inr] d(2)
  have "unat b < 2 ^ (8 * w)" "raw_integer (raw_value_type c) w bits = raw_integer (raw_value_type c) w b"
    by (auto simp: linear_value_inj [OF c])
  with raw_integer_inj [OF ty w(1,3)] Inr show ?thesis by simp
qed

section \<open>Properties\<close>

text \<open>C29. Decoding is exact and complete: \<open>DecodeDecimal\<close> returns a normalised decimal whose value is
  \<open>(n * A + B) / 10 ^ t\<close> for the raw integer \<open>n\<close>, and it fails, with \<open>LOGICAL_OUT_OF_RANGE\<close>, only
  when no \<open>Decimal64\<close> with a scale from 0 to 18 has that value.\<close>

theorem decode_decimal_exact:
  assumes "conversion_ok c" "1 \<le> w" "w \<le> 8" "unat bits < 2 ^ (8 * w)"
  shows "case DecodeDecimal c bits w of
           Inr d \<Rightarrow> dec_canonical d \<and>
                    dec_value d = linear_value c (raw_integer (raw_value_type c) w bits)
         | Inl e \<Rightarrow> e = LOGICAL_OUT_OF_RANGE \<and>
                    \<not> (\<exists>x. scale_valid x \<and>
                          dec_value x = linear_value c (raw_integer (raw_value_type c) w bits))"
  using DecodeDecimal_exact [OF assms] by (cases "DecodeDecimal c bits w") auto

definition tenths :: LinearConversionDescriptor where
  "tenths = \<lparr>raw_value_type = VT_INT64, scale_numerator = 1, scale_denominator = 10,
     bias_numerator = - 40, bias_denominator = 1, decimal_places = 1,
     scale_coefficient = \<lparr>coef_words = [1, 0, 0, 0, 0, 0, 0, 0], coef_negative = False\<rparr>,
     bias_coefficient = \<lparr>coef_words = [400, 0, 0, 0, 0, 0, 0, 0], coef_negative = True\<rparr>\<rparr>"

lemma tenths_ok: "conversion_ok tenths"
  by (simp add: tenths_def conversion_ok_def coefficient_ok_def wide_ok_def)

lemma tenths_A_B: "desc_A tenths = 1" "desc_B tenths = - 400"
  using Canonical_sval [of "\<lparr>magnitude = [1, 0, 0, 0, 0, 0, 0, 0], negative = False\<rparr>"]
    Canonical_sval [of "\<lparr>magnitude = [400, 0, 0, 0, 0, 0, 0, 0], negative = True\<rparr>"]
  by (simp_all add: desc_A_def desc_B_def FromDescriptor_def tenths_def wide_ok_def sval_Some)

lemma tenths_sel: "decimal_places tenths = 1" "raw_value_type tenths = VT_INT64"
  by (simp_all add: tenths_def)

lemma tenths_value: "linear_value tenths (raw_integer (raw_value_type tenths) 2 523) = 123 / 10"
  by (simp add: linear_value_def tenths_A_B tenths_sel raw_integer_def)

lemma tenths_123:
  "scale_valid \<lparr>coefficient = 123, scale = 1\<rparr>" "dec_value \<lparr>coefficient = 123, scale = 1\<rparr> = 123 / 10"
  by (simp_all add: scale_valid_def dec_value_def)

lemma tenths_decodes: "\<exists>d. DecodeDecimal tenths 523 2 = Inr d"
proof (cases "DecodeDecimal tenths 523 2")
  case (Inl e)
  from DecodeDecimal_exact(2) [OF tenths_ok _ _ _ Inl] tenths_123 show ?thesis
    unfolding tenths_value by auto
qed simp

lemma tenths_encodes: "EncodeDecimal tenths \<lparr>coefficient = 123, scale = 1\<rparr> 2 = Inr 523"
  by (rule encode_of_value) (simp_all add: tenths_ok tenths_123 tenths_value)

theorem decode_decimal_exact_witness:
  "case DecodeDecimal tenths 523 2 of
     Inr d \<Rightarrow> dec_canonical d \<and> dec_value d = 123 / 10
   | Inl e \<Rightarrow> e = LOGICAL_OUT_OF_RANGE \<and> \<not> (\<exists>x. scale_valid x \<and> dec_value x = 123 / 10)"
  using decode_decimal_exact [OF tenths_ok, of 2 523] unfolding tenths_value by simp

text \<open>C30. Encoding is exact and complete: \<open>EncodeDecimal\<close> returns the bits of the one raw integer whose
  decimal value is the given one; it refuses a scale outside 0 to 18, a decimal that no integer
  stands for (\<open>RAW_NOT_INTEGRAL\<close>) and an integer that does not fit the wire width
  (\<open>RAW_OUT_OF_RANGE\<close>), and nothing else.\<close>

theorem encode_decimal_exact:
  assumes "conversion_ok c" "1 \<le> w" "w \<le> 8"
  shows "case EncodeDecimal c d w of
      Inr bits \<Rightarrow> scale_valid d \<and> unat bits < 2 ^ (8 * w) \<and>
        dec_value d = linear_value c (raw_integer (raw_value_type c) w bits)
    | Inl e \<Rightarrow>
        e = DECIMAL_SCALE_OUT_OF_RANGE \<and> \<not> scale_valid d \<or>
        e = RAW_NOT_INTEGRAL \<and> scale_valid d \<and> \<not> (\<exists>n. dec_value d = linear_value c n) \<or>
        e = RAW_OUT_OF_RANGE \<and> scale_valid d \<and>
          (\<exists>n. dec_value d = linear_value c n \<and> \<not> raw_fits (raw_value_type c) w n)"
  using EncodeDecimal_exact [OF assms] by (cases "EncodeDecimal c d w") auto

theorem encode_decimal_exact_witness:
  "EncodeDecimal tenths \<lparr>coefficient = 123, scale = 1\<rparr> 2 = Inr 523 \<and>
   dec_value \<lparr>coefficient = 123, scale = 1\<rparr> = linear_value tenths (raw_integer (raw_value_type tenths) 2 523)"
  using encode_decimal_exact [OF tenths_ok, of 2 "\<lparr>coefficient = 123, scale = 1\<rparr>"] tenths_encodes
  by simp

text \<open>C34. Decoding then encoding gives back the raw bits, for every raw value of every integer width
  that decodes.\<close>

theorem decimal_decode_encode:
  assumes "conversion_ok c" "1 \<le> w" "w \<le> 8" "unat bits < 2 ^ (8 * w)"
    and "DecodeDecimal c bits w = Inr d"
  shows "EncodeDecimal c d w = Inr bits"
  using encode_of_value [OF assms(1-4)] DecodeDecimal_exact(1) [OF assms]
  by (simp add: dec_canonical_def)

theorem decimal_decode_encode_witness:
  "\<exists>d. DecodeDecimal tenths 523 2 = Inr d \<and> EncodeDecimal tenths d 2 = Inr 523"
  using decimal_decode_encode [OF tenths_ok, of 2 523] tenths_decodes by auto

text \<open>C35. Encoding then decoding gives an equal number: the decoded decimal is the normal form of the
  encoded one, so the final review of the encoder, which compares with \<open>DecimalEqual\<close>, succeeds.\<close>

theorem decimal_encode_decode:
  assumes "conversion_ok c" "1 \<le> w" "w \<le> 8" "EncodeDecimal c d w = Inr bits"
  shows "\<exists>d'. DecodeDecimal c bits w = Inr d' \<and> DecimalEqual d d'"
proof -
  note e = EncodeDecimal_exact(1) [OF assms]
  then have b: "unat bits < 2 ^ (8 * w)" by simp
  show ?thesis
  proof (cases "DecodeDecimal c bits w")
    case (Inl err)
    from DecodeDecimal_exact(2) [OF assms(1-3) b Inl] e show ?thesis by auto
  next
    case (Inr d')
    from DecodeDecimal_exact(1) [OF assms(1-3) b Inr] e Inr show ?thesis
      by (auto simp: DecimalEqual_iff dec_canonical_def)
  qed
qed

theorem decimal_encode_decode_witness:
  "\<exists>d'. DecodeDecimal tenths 523 2 = Inr d' \<and> DecimalEqual \<lparr>coefficient = 123, scale = 1\<rparr> d'"
  using decimal_encode_decode [OF tenths_ok _ _ tenths_encodes] by simp

text \<open>\<open>DecimalEqual\<close> is equality of numbers: two decimals compare equal exactly when both scales
  are in range and they have the same rational value, whatever their representations.\<close>

lemma decimal_equal_is_value_equality:
  "DecimalEqual x y \<longleftrightarrow> scale_valid x \<and> scale_valid y \<and> dec_value x = dec_value y"
  by (rule DecimalEqual_iff)

end
