(* ===== verification/Decimal_Plan.thy ===== *)
theory Decimal_Plan
  imports Decimal_Codec
begin

text \<open>
  The plan side of the decimal conversion,
  \<^verbatim>\<open>src/src/protocol_plan/decimal_conversion_internal.cpp\<close>: from the ratio and the offset
  an author writes, \<open>DeriveLinearConversion\<close> computes the descriptor that
  \<open>Decimal_Codec\<close> works on.  Fractions are reduced, the number of decimal places is the
  larger exponent of two or five in the denominators, and the coefficients \<open>A\<close> and \<open>B\<close> are the
  numerators over \<open>10 ^ t\<close>.  The lemmas show that the derivation never overflows its 256 bits,
  that the descriptor stands for exactly the fractions the author wrote, and that it meets
  \<open>conversion_ok\<close>, what the codec relies on.
\<close>

section \<open>The functions\<close>

datatype DecimalDescriptorError =
  ZERO_SCALE | DENOMINATOR_OUT_OF_RANGE | NON_TERMINATING_SCALE | NON_TERMINATING_BIAS
| ARITHMETIC_OVERFLOW

definition kMaximumAuthorDenominator :: u64 where
  "kMaximumAuthorDenominator = 1000000000000000000"

function GreatestCommonDivisor :: "u64 \<Rightarrow> u64 \<Rightarrow> u64" where
  "GreatestCommonDivisor left right =
     (if right \<noteq> 0 then GreatestCommonDivisor right (left mod right) else left)"
  by pat_completeness auto
termination
  by (relation "measure (\<lambda>(left, right). unat right)")
    (auto simp: unat_mod word_neq_0_conv word_less_nat_alt)

text \<open>The two division loops of \<open>DecimalPlaces\<close>.  The C++ loop does not end on zero; the function
  is called on denominators that are not zero, and stops at zero here.\<close>

function StripFactor :: "u64 \<Rightarrow> u64 \<Rightarrow> nat \<Rightarrow> u64 \<times> nat" where
  "StripFactor p d n =
     (if 1 < p \<and> d \<noteq> 0 \<and> d mod p = 0 then StripFactor p (d div p) (Suc n) else (d, n))"
  by pat_completeness auto
termination
  by (relation "measure (\<lambda>(p, d, n). unat d)")
    (auto simp: unat_div word_less_nat_alt unat_gt_0 intro!: div_less_dividend)

definition DecimalPlaces :: "u64 \<Rightarrow> nat option" where
  "DecimalPlaces denominator =
     (let (denominator, twos) = StripFactor 2 denominator 0;
          (denominator, fives) = StripFactor 5 denominator 0;
          places = max twos fives
      in if denominator = 1 \<and> places \<le> 18 then Some places else None)"

text \<open>\<open>Multiply\<close>: a coefficient times a 64-bit factor.  The inner loop over the two multiplier
  words, the carry loop that follows it, and the loop over the limbs.\<close>

fun Coef_inner :: "u32 \<Rightarrow> nat \<Rightarrow> u64 \<Rightarrow> u32 list \<Rightarrow> u32 list \<Rightarrow> (u32 list \<times> u64) option" where
  "Coef_inner l target carry result [] = Some (result, carry)"
| "Coef_inner l target carry result (r # rs) =
     (if target \<ge> length result then
        (if l \<noteq> 0 \<and> r \<noteq> 0 then None else Coef_inner l (Suc target) carry result rs)
      else let product = ucast l * ucast r + ucast (result ! target) + carry
           in Coef_inner l (Suc target) (drop_bit 32 product)
                (result[target := ucast product]) rs)"

function Coef_carry :: "nat \<Rightarrow> u64 \<Rightarrow> u32 list \<Rightarrow> u32 list \<times> u64" where
  "Coef_carry target carry result =
     (if carry \<noteq> 0 \<and> target < length result then
        let sum = ucast (result ! target) + carry
        in Coef_carry (Suc target) (drop_bit 32 sum) (result[target := ucast sum])
      else (result, carry))"
  by pat_completeness auto
termination
  by (relation "measure (\<lambda>(target, carry, result). length result - target)") auto

fun Coef_outer :: "nat \<Rightarrow> u32 list \<Rightarrow> u32 list \<Rightarrow> Wide \<Rightarrow> u32 list option" where
  "Coef_outer left result multiplier_words [] = Some result"
| "Coef_outer left result multiplier_words (l # ls) =
     (case Coef_inner l left 0 result multiplier_words of
        None \<Rightarrow> None
      | Some (result, carry) \<Rightarrow>
          let (result, carry) = Coef_carry (left + 2) carry result
          in if carry \<noteq> 0 then None else Coef_outer (Suc left) result multiplier_words ls)"

definition CoefMultiply :: "SignedCoefficient256 \<Rightarrow> u64 \<Rightarrow> SignedCoefficient256 option" where
  "CoefMultiply v multiplier =
     map_option (\<lambda>result. v\<lparr>coef_words := result\<rparr>)
       (Coef_outer 0 (replicate kDecimalCoefficientWordCount 0)
          [ucast multiplier, ucast (drop_bit 32 multiplier)] (coef_words v))"

definition MakeCoefficient ::
    "i64 \<Rightarrow> u64 \<Rightarrow> nat \<Rightarrow> nat \<Rightarrow> SignedCoefficient256 option" where
  "MakeCoefficient numerator denominator own_places common_places =
     (let m = Magnitude numerator;
          output = \<lparr>coef_words = wide_zero[0 := ucast m, 1 := ucast (drop_bit 32 m)],
                    coef_negative = sint numerator < 0\<rparr>;
          exact_factor = Power10 own_places div denominator
      in case CoefMultiply output exact_factor of
           None \<Rightarrow> None
         | Some output \<Rightarrow>
             (case CoefMultiply output (Power10 (common_places - own_places)) of
                None \<Rightarrow> None
              | Some output \<Rightarrow>
                  Some (if m = 0 then output\<lparr>coef_negative := False\<rparr> else output)))"

definition Reduce :: "i64 \<Rightarrow> u64 \<Rightarrow> i64 \<times> u64" where
  "Reduce numerator denominator =
     (if numerator = 0 then (numerator, 1)
      else let divisor = GreatestCommonDivisor (Magnitude numerator) denominator;
               denominator = denominator div divisor
           in if divisor \<noteq> 1 then
                let negative = sint numerator < 0;
                    reduced_magnitude = Magnitude numerator div divisor
                in if negative \<and> reduced_magnitude = push_bit 63 1 then (push_bit 63 1, denominator)
                   else (if negative then - reduced_magnitude else reduced_magnitude, denominator)
              else (numerator, denominator))"

definition DeriveLinearConversion ::
    "ValueType \<Rightarrow> i64 \<Rightarrow> u64 \<Rightarrow> i64 \<Rightarrow> u64 \<Rightarrow> DecimalDescriptorError + LinearConversionDescriptor" where
  "DeriveLinearConversion type scale_num scale_den bias_num bias_den =
     (if scale_num = 0 then Inl ZERO_SCALE
      else if scale_den = 0 \<or> bias_den = 0 \<or> scale_den > kMaximumAuthorDenominator \<or>
              bias_den > kMaximumAuthorDenominator then Inl DENOMINATOR_OUT_OF_RANGE
      else let (scale_num, scale_den) = Reduce scale_num scale_den;
               (bias_num, bias_den) = Reduce bias_num bias_den
           in case DecimalPlaces scale_den of
                None \<Rightarrow> Inl NON_TERMINATING_SCALE
              | Some scale_places \<Rightarrow>
                  (case DecimalPlaces bias_den of
                     None \<Rightarrow> Inl NON_TERMINATING_BIAS
                   | Some bias_places \<Rightarrow>
                       let places = max scale_places bias_places
                       in case MakeCoefficient scale_num scale_den scale_places places of
                            None \<Rightarrow> Inl ARITHMETIC_OVERFLOW
                          | Some a \<Rightarrow>
                              (case MakeCoefficient bias_num bias_den bias_places places of
                                 None \<Rightarrow> Inl ARITHMETIC_OVERFLOW
                               | Some b \<Rightarrow>
                                   Inr \<lparr>raw_value_type = type,
                                        scale_numerator = scale_num, scale_denominator = scale_den,
                                        bias_numerator = bias_num, bias_denominator = bias_den,
                                        decimal_places = places,
                                        scale_coefficient = a, bias_coefficient = b\<rparr>)))"

definition LinearConversionEqual ::
    "LinearConversionDescriptor \<Rightarrow> LinearConversionDescriptor \<Rightarrow> bool" where
  "LinearConversionEqual left right \<longleftrightarrow>
     raw_value_type left = raw_value_type right \<and>
     scale_numerator left = scale_numerator right \<and>
     scale_denominator left = scale_denominator right \<and>
     bias_numerator left = bias_numerator right \<and>
     bias_denominator left = bias_denominator right \<and>
     decimal_places left = decimal_places right \<and>
     coef_words (scale_coefficient left) = coef_words (scale_coefficient right) \<and>
     coef_negative (scale_coefficient left) = coef_negative (scale_coefficient right) \<and>
     coef_words (bias_coefficient left) = coef_words (bias_coefficient right) \<and>
     coef_negative (bias_coefficient left) = coef_negative (bias_coefficient right)"

declare GreatestCommonDivisor.simps [simp del] StripFactor.simps [simp del] Coef_carry.simps [simp del]

section \<open>Fractions\<close>

lemma GreatestCommonDivisor_gcd: "unat (GreatestCommonDivisor a b) = gcd (unat a) (unat b)"
proof (induction a b rule: GreatestCommonDivisor.induct)
  case (1 a b)
  show ?case
  proof (cases "b = 0")
    case True
    then show ?thesis by (subst GreatestCommonDivisor.simps) simp
  next
    case False
    with 1 have "unat (GreatestCommonDivisor a b) = gcd (unat b) (unat (a mod b))"
      by (subst GreatestCommonDivisor.simps) simp
    then show ?thesis by (simp add: unat_mod gcd_red_nat [symmetric])
  qed
qed

lemma StripFactor_spec:
  "1 < p \<Longrightarrow> d \<noteq> 0 \<Longrightarrow>
     \<exists>d' n'. StripFactor p d n = (d', n') \<and> n \<le> n' \<and> unat d = unat d' * unat p ^ (n' - n) \<and>
       d' \<noteq> 0 \<and> \<not> unat p dvd unat d'"
proof (induction p d n rule: StripFactor.induct)
  case (1 p d n)
  have md: "d mod p = 0 \<longleftrightarrow> unat p dvd unat d"
    by (simp add: dvd_eq_mod_eq_0 unat_eq_zero flip: unat_mod)
  show ?case
  proof (cases "d mod p = 0")
    case True
    then have dv: "unat d = unat (d div p) * unat p" using md by (simp add: unat_div)
    then have nz: "d div p \<noteq> 0" using "1.prems"(2) by (auto simp: unat_eq_zero)
    from "1.IH" [OF _ "1.prems"(1) nz] "1.prems" True obtain d' n'
      where f: "StripFactor p (d div p) (Suc n) = (d', n')" "Suc n \<le> n'"
        "unat (d div p) = unat d' * unat p ^ (n' - Suc n)" "d' \<noteq> 0" "\<not> unat p dvd unat d'" by auto
    have "unat p ^ (n' - Suc n) * unat p = unat p ^ (n' - n)"
      using f(2) by (simp add: Suc_diff_Suc flip: power_Suc2)
    then have "unat d = unat d' * unat p ^ (n' - n)" by (simp add: dv f(3) mult.assoc)
    moreover have "StripFactor p d n = (d', n')"
      using f(1) "1.prems" True by (subst StripFactor.simps) simp
    ultimately show ?thesis using f by auto
  next
    case False
    then have "StripFactor p d n = (d, n)" by (subst StripFactor.simps) simp
    then show ?thesis using False md "1.prems" by simp
  qed
qed

lemma coprime_5: "\<not> 5 dvd d \<Longrightarrow> coprime d 5" for d :: nat
proof -
  assume n: "\<not> 5 dvd d"
  define g where "g = gcd d 5"
  have g: "g dvd 5" "g \<le> 5" "g \<noteq> 5" using n by (auto simp: g_def intro: dvd_imp_le) (metis gcd_dvd1)
  then have "g = 0 \<or> g = 1 \<or> g = 2 \<or> g = 3 \<or> g = 4" by linarith
  with g(1) have "gcd d 5 = 1" unfolding g_def [symmetric] by (elim disjE) simp_all
  then show ?thesis by (simp add: coprime_iff_gcd_eq_1)
qed

lemma dvd_pow10_iff:
  fixes d :: nat
  assumes "\<not> 2 dvd d" "\<not> 5 dvd d"
  shows "d * 2 ^ a * 5 ^ b dvd 10 ^ j \<longleftrightarrow> d = 1 \<and> a \<le> j \<and> b \<le> j"
proof
  have ten: "(10::nat) ^ j = 2 ^ j * 5 ^ j" by (simp flip: power_mult_distrib)
  show "d = 1 \<and> a \<le> j \<and> b \<le> j" if h: "d * 2 ^ a * 5 ^ b dvd 10 ^ j"
  proof -
    have co: "coprime d 2" "coprime d 5" "coprime (2::nat) 5"
      using assms coprime_5 by simp_all
    have "coprime d (10 ^ j)" unfolding ten using co by simp
    moreover have "d dvd 10 ^ j" using h by (meson dvd_mult_left)
    ultimately have "d = 1" by (metis coprime_absorb_left is_unit_left_imp_coprime nat_dvd_1_iff_1)
    have "2 ^ a dvd (2::nat) ^ j * 5 ^ j" using h unfolding ten by (meson dvd_mult_left dvd_mult_right)
    moreover have "coprime ((2::nat) ^ a) (5 ^ j)" using co(3) by simp
    ultimately have "(2::nat) ^ a dvd 2 ^ j" by (simp add: coprime_dvd_mult_left_iff)
    then have "a \<le> j" by (rule power_dvd_imp_le) simp
    have "5 ^ b dvd (2::nat) ^ j * 5 ^ j" using h unfolding ten by (meson dvd_mult_right)
    moreover have "coprime ((5::nat) ^ b) (2 ^ j)" using co(3) by (simp add: coprime_commute)
    ultimately have "(5::nat) ^ b dvd 5 ^ j" by (simp add: coprime_dvd_mult_right_iff)
    then have "b \<le> j" by (rule power_dvd_imp_le) simp
    with \<open>d = 1\<close> \<open>a \<le> j\<close> show ?thesis by simp
  qed
  show "d * 2 ^ a * 5 ^ b dvd 10 ^ j" if "d = 1 \<and> a \<le> j \<and> b \<le> j"
    unfolding ten using that by (auto intro!: mult_dvd_mono le_imp_power_dvd)
qed

lemma DecimalPlaces_spec:
  assumes "d \<noteq> 0"
  shows "DecimalPlaces d = Some k \<Longrightarrow> k \<le> 18 \<and> (\<forall>j. unat d dvd 10 ^ j \<longleftrightarrow> k \<le> j)"
    and "DecimalPlaces d = None \<Longrightarrow> \<forall>j \<le> 18. \<not> unat d dvd 10 ^ j"
proof -
  obtain d1 a where s2: "StripFactor 2 d 0 = (d1, a)" "unat d = unat d1 * 2 ^ a" "d1 \<noteq> 0" "\<not> 2 dvd unat d1"
    using StripFactor_spec [of 2 d 0] assms by auto
  obtain d2 b where s5: "StripFactor 5 d1 0 = (d2, b)" "unat d1 = unat d2 * 5 ^ b" "\<not> 5 dvd unat d2"
    using StripFactor_spec [of 5 d1 0] s2(3) by auto
  have odd: "\<not> 2 dvd unat d2" using s2(4) s5(2) by auto
  have "unat d = unat d2 * 2 ^ a * 5 ^ b" by (simp add: s2(2) s5(2))
  then have iff: "unat d dvd 10 ^ j \<longleftrightarrow> unat d2 = 1 \<and> max a b \<le> j" for j
    using dvd_pow10_iff [OF odd s5(3), of a b j] by simp
  have one: "d2 = 1 \<longleftrightarrow> unat d2 = 1" by (simp add: word_unat_eq_iff)
  show "DecimalPlaces d = Some k \<Longrightarrow> k \<le> 18 \<and> (\<forall>j. unat d dvd 10 ^ j \<longleftrightarrow> k \<le> j)"
    "DecimalPlaces d = None \<Longrightarrow> \<forall>j \<le> 18. \<not> unat d dvd 10 ^ j"
    unfolding iff one using s2(1) s5(1) one by (auto simp: DecimalPlaces_def split: if_splits)
qed

section \<open>Coefficients\<close>

lemma Coef_inner_wval:
  assumes "unat c < 4294967296"
  shows "case Coef_inner l t c result rs of
     Some (res, c') \<Rightarrow> length res = length result \<and> unat c' < 4294967296 \<and>
       wval res + unat c' * 4294967296 ^ min (t + length rs) (length result)
         = wval result + unat l * wval rs * 4294967296 ^ t + unat c * 4294967296 ^ min t (length result)
   | None \<Rightarrow> 4294967296 ^ length result
       \<le> wval result + unat l * wval rs * 4294967296 ^ t + unat c * 4294967296 ^ min t (length result)"
  using assms
proof (induction l t c result rs rule: Coef_inner.induct)
  case (2 l t c result r rs)
  show ?case
  proof (cases "length result \<le> t")
    case True
    show ?thesis
    proof (cases "l = 0 \<or> r = 0")
      case zero: True
      then have "\<not> (l \<noteq> 0 \<and> r \<noteq> 0)" by simp
      note IH = "2.IH"(1) [OF True this "2.prems"]
      have "unat l * wval (r # rs) * 4294967296 ^ t = unat l * wval rs * 4294967296 ^ Suc t"
        using zero by auto
      then show ?thesis
        using IH True zero by (auto simp: min_def simp del: wval.simps split: option.splits)
    next
      case False
      then have "1 \<le> unat l * wval (r # rs)" by (simp add: Suc_le_eq unat_gt_0)
      then have "1 * 4294967296 ^ t \<le> unat l * wval (r # rs) * 4294967296 ^ t"
        by (rule mult_right_mono) simp
      moreover have "(4294967296::nat) ^ length result \<le> 4294967296 ^ t"
        by (rule power_increasing) (use True in auto)
      ultimately have "4294967296 ^ length result \<le> wval result
          + unat l * wval (r # rs) * 4294967296 ^ t + unat c * 4294967296 ^ min t (length result)"
        by linarith
      then show ?thesis using False True by (simp del: wval.simps)
    qed
  next
    case False
    let ?v = "ucast l * ucast r + ucast (result ! t) + c :: u64"
    have hi: "unat (drop_bit 32 ?v) < 4294967296" by (simp add: unat_high_u64)
    note IH = "2.IH"(2) [OF False refl hi]
    have lt: "t < length result" using False by simp
    note upd = wval_update [OF lt, of "ucast ?v"] and limb = mul_limb [OF "2.prems", of l r "result ! t"]
    have step: "wval (result[t := ucast ?v]) + unat (drop_bit 32 ?v) * 4294967296 ^ Suc t
        = wval result + unat l * unat r * 4294967296 ^ t + unat c * 4294967296 ^ t"
    proof -
      have "(unat (ucast ?v :: u32) + 4294967296 * unat (drop_bit 32 ?v)) * 4294967296 ^ t
          = (unat l * unat r + unat (result ! t) + unat c) * 4294967296 ^ t" by (simp only: limb)
      with upd show ?thesis by (simp add: algebra_simps)
    qed
    have m: "min (Suc t) (length result) = Suc t" "min t (length result) = t" using lt by auto
    show ?thesis
    proof (cases "Coef_inner l (Suc t) (drop_bit 32 ?v) (result[t := ucast ?v]) rs")
      case None
      with IH lt m have "4294967296 ^ length result
          \<le> wval (result[t := ucast ?v]) + unat l * wval rs * 4294967296 ^ Suc t
             + unat (drop_bit 32 ?v) * 4294967296 ^ Suc t" by simp
      also have "\<dots> = wval result + unat l * wval (r # rs) * 4294967296 ^ t + unat c * 4294967296 ^ t"
        using step by (simp add: algebra_simps)
      finally show ?thesis using None lt m by (simp add: Let_def)
    next
      case (Some p)
      then show ?thesis using IH step lt m
        by (cases p) (simp add: Let_def algebra_simps)
    qed
  qed
qed (simp add: min_def)

lemma Coef_carry_wval:
  assumes "unat c < 4294967296" "Coef_carry t c result = (res, c')"
  shows "length res = length result \<and>
    (if c' = 0 then wval res = wval result + unat c * 4294967296 ^ min t (length result)
     else 4294967296 ^ length result
            \<le> wval result + unat c * 4294967296 ^ min t (length result))"
  using assms
proof (induction t c result rule: Coef_carry.induct)
  case (1 t c result)
  show ?case
  proof (cases "c \<noteq> 0 \<and> t < length result")
    case False
    then have r: "res = result" "c' = c" using "1.prems"(2) by (subst (asm) Coef_carry.simps; auto)+
    show ?thesis
    proof (cases "c = 0")
      case nz: False
      with False have meq: "min t (length result) = length result" by simp
      have "1 * 4294967296 ^ length result \<le> unat c * 4294967296 ^ length result"
        using nz by (intro mult_right_mono) (simp_all add: Suc_le_eq unat_gt_0)
      then have "4294967296 ^ length result \<le> wval result + unat c * 4294967296 ^ length result"
        by linarith
      then show ?thesis using meq nz r by simp
    qed (simp add: r)
  next
    case True
    let ?v = "ucast (result ! t) + c :: u64"
    have "unat (result ! t) + unat c < 18446744073709551616"
      using unat_u32_lt [of "result ! t"] "1.prems"(1) by linarith
    then have uv: "unat ?v = unat (result ! t) + unat c" by (simp add: unat_u64_add)
    have hi: "unat (drop_bit 32 ?v) < 4294967296" by (simp add: unat_high_u64)
    have rec: "Coef_carry (Suc t) (drop_bit 32 ?v) (result[t := ucast ?v]) = (res, c')"
      using "1.prems"(2) True by (subst (asm) Coef_carry.simps) (simp add: Let_def)
    have lt: "t < length result" using True by simp
    note IH = "1.IH" [OF True refl hi rec]
    have limb: "unat (ucast ?v :: u32) + 4294967296 * unat (drop_bit 32 ?v) = unat (result ! t) + unat c"
      by (simp only: unat_u32_of_u64 unat_high_u64 mod_mult_div_eq uv)
    have "(unat (ucast ?v :: u32) + 4294967296 * unat (drop_bit 32 ?v)) * 4294967296 ^ t
        = (unat (result ! t) + unat c) * 4294967296 ^ t" by (simp only: limb)
    then have step: "wval (result[t := ucast ?v]) + unat (drop_bit 32 ?v) * 4294967296 ^ Suc t
        = wval result + unat c * 4294967296 ^ t"
      using wval_update [OF lt, of "ucast ?v"] by (simp add: algebra_simps)
    have m: "min (Suc t) (length result) = Suc t" "min t (length result) = t" using lt by auto
    from IH step m show ?thesis by (simp split: if_splits)
  qed
qed

lemma Coef_outer_wval:
  "length result = 8 \<Longrightarrow> length m = 2 \<Longrightarrow> left + length ls \<le> 8 \<Longrightarrow>
   (case Coef_outer left result m ls of
      Some res \<Rightarrow> length res = 8 \<and> wval res = wval result + wval ls * wval m * 4294967296 ^ left
    | None \<Rightarrow> 2 ^ 256 \<le> wval result + wval ls * wval m * 4294967296 ^ left)"
proof (induction left result m ls rule: Coef_outer.induct)
  case (2 left result m l ls)
  have split: "wval (l # ls) * wval m * 4294967296 ^ left
      = unat l * wval m * 4294967296 ^ left + wval ls * wval m * 4294967296 ^ Suc left"
    by (simp add: algebra_simps)
  note inner = Coef_inner_wval [where c = 0 and l = l and t = left and result = result and rs = m]
  show ?case
  proof (cases "Coef_inner l left 0 result m")
    case None
    then have "2 ^ 256 \<le> wval result + unat l * wval m * 4294967296 ^ left"
      using inner "2.prems"(1) by simp
    with None split show ?thesis by (simp del: wval.simps)
  next
    case (Some p)
    then obtain res1 c1 where p: "Coef_inner l left 0 result m = Some (res1, c1)" by (cases p) auto
    with inner "2.prems"(1,2) have i: "length res1 = 8" "unat c1 < 4294967296"
      "wval res1 + unat c1 * 4294967296 ^ min (left + 2) 8 = wval result + unat l * wval m * 4294967296 ^ left"
      by auto
    obtain res2 c2 where c: "Coef_carry (left + 2) c1 res1 = (res2, c2)"
      by (cases "Coef_carry (left + 2) c1 res1")
    note cw = Coef_carry_wval [OF i(2) c]
    show ?thesis
    proof (cases "c2 = 0")
      case True
      with cw i have r2: "length res2 = 8" "wval res2 = wval result + unat l * wval m * 4294967296 ^ left"
        by auto
      from "2.IH" [OF p refl c [symmetric] refl _ r2(1) "2.prems"(2)] True "2.prems"(3)
      have "case Coef_outer (Suc left) res2 m ls of
          Some res \<Rightarrow> length res = 8 \<and> wval res = wval res2 + wval ls * wval m * 4294967296 ^ Suc left
        | None \<Rightarrow> 2 ^ 256 \<le> wval res2 + wval ls * wval m * 4294967296 ^ Suc left" by simp
      moreover have "Coef_outer left result m (l # ls) = Coef_outer (Suc left) res2 m ls"
        using p c True by simp
      ultimately show ?thesis unfolding split r2(2) by (simp only: add.assoc)
    next
      case False
      with cw i have "2 ^ 256 \<le> wval result + unat l * wval m * 4294967296 ^ left" by simp
      with p c False split show ?thesis by (simp add: Let_def del: wval.simps)
    qed
  qed
qed simp

lemma CoefMultiply_wval:
  assumes "wide_ok (coef_words v)"
  shows "CoefMultiply v k = Some r \<Longrightarrow> wide_ok (coef_words r) \<and>
      wval (coef_words r) = wval (coef_words v) * unat k \<and> coef_negative r = coef_negative v"
    and "CoefMultiply v k = None \<Longrightarrow> 2 ^ 256 \<le> wval (coef_words v) * unat k"
proof -
  let ?m = "[ucast k, ucast (drop_bit 32 k)]"
  have "wval ?m = unat k"
    by (simp only: wval.simps unat_u32_of_u64 unat_high_u64) simp
  then have "case Coef_outer 0 (replicate kDecimalCoefficientWordCount 0) ?m (coef_words v) of
      Some res \<Rightarrow> length res = 8 \<and> wval res = wval (coef_words v) * unat k
    | None \<Rightarrow> 2 ^ 256 \<le> wval (coef_words v) * unat k"
    using Coef_outer_wval [of "replicate kDecimalCoefficientWordCount 0" ?m 0 "coef_words v"] assms
    by (simp add: wide_ok_def kDecimalCoefficientWordCount_def del: wval.simps split: option.splits)
  then show "CoefMultiply v k = Some r \<Longrightarrow> wide_ok (coef_words r) \<and>
      wval (coef_words r) = wval (coef_words v) * unat k \<and> coef_negative r = coef_negative v"
    "CoefMultiply v k = None \<Longrightarrow> 2 ^ 256 \<le> wval (coef_words v) * unat k"
    by (auto simp: CoefMultiply_def wide_ok_def split: option.splits)
qed

section \<open>The derivation\<close>

lemma MakeCoefficient_exact:
  assumes den: "den \<noteq> 0" "unat den dvd 10 ^ own" and pl: "own \<le> common" "common \<le> 18"
  shows "\<exists>r. MakeCoefficient num den own common = Some r \<and> coefficient_ok r \<and>
    sval (FromDescriptor r) * int (unat den) = sint num * 10 ^ common"
proof -
  define out where "out = \<lparr>coef_words = From64 (Magnitude num), coef_negative = sint num < 0\<rparr>"
  have out: "wide_ok (coef_words out)" "wval (coef_words out) = unat (Magnitude num)" by (simp_all add: out_def)
  let ?e = "Power10 own div den" and ?f = "Power10 (common - own)"
  have e: "unat ?e = 10 ^ own div unat den" using pl by (simp add: unat_div unat_Power10)
  have f: "unat ?f = 10 ^ (common - own)" using pl by (simp add: unat_Power10)
  let ?p = "unat (Magnitude num) * (10 ^ own div unat den)"
  have ed: "10 ^ own div unat den * unat den = (10::nat) ^ own" using den(2) by (rule dvd_div_mult_self)
  have q: "10 ^ own div unat den \<le> (10::nat) ^ own" by simp
  have "unat (Magnitude num) \<le> 9223372036854775808"
    using unat_Magnitude [of num] sint64_range [of num] by linarith
  then have mag: "unat (Magnitude num) \<le> 2 ^ 63" by simp
  have b2: "?p * 10 ^ (common - own) \<le> 2 ^ 63 * 10 ^ 18"
  proof -
    have "?p * 10 ^ (common - own) \<le> 2 ^ 63 * 10 ^ own * 10 ^ (common - own)"
      by (intro mult_le_mono mag q le_refl)
    also have "\<dots> = 2 ^ 63 * 10 ^ common" using pl by (simp flip: power_add)
    also have "\<dots> \<le> 2 ^ 63 * (10::nat) ^ 18" using pl by (intro mult_le_mono power_increasing) auto
    finally show ?thesis .
  qed
  have "?p * 1 \<le> ?p * 10 ^ (common - own)" by (intro mult_le_mono) auto
  then have "?p \<le> 2 ^ 63 * 10 ^ 18" using b2 by linarith
  then have b1: "?p < 2 ^ 256" by simp
  then obtain r1 where r1: "CoefMultiply out ?e = Some r1"
    using CoefMultiply_wval(2) [OF out(1), of ?e] out(2) e by fastforce
  from CoefMultiply_wval(1) [OF out(1) r1] have w1: "wide_ok (coef_words r1)"
    "wval (coef_words r1) = ?p" "coef_negative r1 = (sint num < 0)"
    by (simp_all add: out(2) e) (simp add: out_def)
  obtain r2 where r2: "CoefMultiply r1 ?f = Some r2"
    using CoefMultiply_wval(2) [OF w1(1), of ?f] w1(2) f b2 by fastforce
  from CoefMultiply_wval(1) [OF w1(1) r2] have w2: "wide_ok (coef_words r2)"
    "wval (coef_words r2) = ?p * 10 ^ (common - own)" "coef_negative r2 = (sint num < 0)"
    by (simp_all add: w1 f)
  let ?r = "if Magnitude num = 0 then r2\<lparr>coef_negative := False\<rparr> else r2"
  have "MakeCoefficient num den own common = Some ?r"
    using r1 r2 by (simp add: MakeCoefficient_def Let_def out_def From64_def)
  moreover have ok: "coefficient_ok ?r" using w2 b2 by (simp add: coefficient_ok_def)
  moreover have "sval (FromDescriptor ?r) * int (unat den) = sint num * 10 ^ common"
  proof -
    have "wval (coef_words ?r) * unat den = unat (Magnitude num) * (10 ^ own div unat den * unat den) * 10 ^ (common - own)"
      by (simp add: w2)
    also have "\<dots> = unat (Magnitude num) * 10 ^ common"
      unfolding ed using pl by (simp add: mult.assoc flip: power_add)
    finally have "int (wval (coef_words ?r)) * int (unat den) = \<bar>sint num\<bar> * 10 ^ common"
      by (simp only: unat_Magnitude [symmetric] flip: of_nat_mult) simp
    moreover have "sval (FromDescriptor ?r) = (if sint num < 0 then - int (wval (coef_words ?r)) else int (wval (coef_words ?r)))"
    proof -
      have "Magnitude num = 0 \<longleftrightarrow> sint num = 0"
        using uint_Magnitude [of num] by (auto simp: unsigned_eq_0_iff)
      then have "coef_negative ?r = (sint num < 0)" using w2(3) by auto
      then show ?thesis
        using Canonical_sval [of "\<lparr>magnitude = coef_words ?r, negative = coef_negative ?r\<rparr>"] ok
        by (simp add: FromDescriptor_def sval_Some coefficient_ok_def)
    qed
    ultimately show ?thesis by (auto simp: abs_if split: if_splits)
  qed
  ultimately show ?thesis by blast
qed

lemma Reduce_spec:
  assumes den: "den \<noteq> 0" and r: "Reduce num den = (n, d)"
  shows "d \<noteq> 0 \<and> sint n * int (unat den) = sint num * int (unat d) \<and>
     coprime (sint n) (int (unat d)) \<and> (num \<noteq> 0 \<longrightarrow> n \<noteq> 0)"
proof (cases "num = 0")
  case True
  with r show ?thesis by (auto simp: Reduce_def)
next
  case False
  define g where "g = GreatestCommonDivisor (Magnitude num) den"
  have ug: "unat g = gcd (unat (Magnitude num)) (unat den)" by (simp add: g_def GreatestCommonDivisor_gcd)
  have gpos: "0 < unat g" using den by (simp add: ug unat_gt_0)
  have d: "d = den div g" using r False by (auto simp: Reduce_def Let_def g_def split: if_splits)
  have m: "unat (Magnitude num div g) * unat g = unat (Magnitude num)"
    and dd: "unat d * unat g = unat den"
    by (simp_all add: unat_div d ug)
  have co: "coprime (unat (Magnitude num div g)) (unat d)"
    using den by (simp add: unat_div d ug div_gcd_coprime unat_eq_zero)
  let ?M = "Magnitude num div g"
  have snum: "sint num = (if sint num < 0 then - int (unat (Magnitude num)) else int (unat (Magnitude num)))"
    using unat_Magnitude [of num] by simp
  have n: "sint n = (if sint num < 0 then - int (unat ?M) else int (unat ?M))"
  proof (cases "g = 1")
    case True
    then have "n = num" using r False by (auto simp: Reduce_def Let_def g_def split: if_splits)
    then show ?thesis using True by (simp add: uint_Magnitude)
  next
    case g1: False
    then have "unat g \<noteq> 1" by (simp add: word_unat_eq_iff)
    then have "2 \<le> unat g" using gpos by linarith
    moreover have "unat (Magnitude num) \<le> 9223372036854775808"
      using unat_Magnitude [of num] sint64_range [of num] by linarith
    moreover have "unat ?M * 2 \<le> unat ?M * unat g" using \<open>2 \<le> unat g\<close> by simp
    ultimately have small: "unat ?M \<le> 4611686018427387904" using m by linarith
    then have "?M \<noteq> push_bit 63 1" by (auto simp: word_unat_eq_iff unat_push_1)
    then have nv: "n = (if sint num < 0 then - ?M else ?M)"
      using r False g1 by (auto simp: Reduce_def Let_def g_def split: if_splits)
    have "int (unat ?M) \<le> int 4611686018427387904" using small by (simp only: of_nat_le_iff)
    then have "uint ?M \<le> 4611686018427387904" by simp
    then have u: "uint ?M < 9223372036854775808" "- uint ?M < 9223372036854775808"
        "- 9223372036854775808 \<le> uint ?M" "- 9223372036854775808 \<le> - uint ?M"
      using uint_ge_0 [of ?M] by linarith+
    show ?thesis
      by (rule sint64_unique) (use u uint_lt64 [of ?M] in \<open>auto simp: nv uint_word_ariths\<close>)
  qed
  have "0 < unat d" using dd den by (metis gr0I mult_is_0 unat_eq_zero)
  moreover have num: "sint num = sint n * int (unat g)"
    unfolding n by (subst snum) (simp flip: m)
  moreover have "int (unat den) = int (unat d) * int (unat g)" by (simp only: of_nat_mult flip: dd)
  moreover have "coprime (sint n) (int (unat d))"
  proof -
    have "coprime (int (unat ?M)) (int (unat d))" using co by (simp only: coprime_int_iff)
    then show ?thesis unfolding n by (cases "sint num < 0") simp_all
  qed
  moreover have "sint num \<noteq> 0" using False by (metis signed_0 signed_word_eqI)
  then have "n \<noteq> 0" using num by auto
  ultimately show ?thesis by (simp add: unat_gt_0)
qed

text \<open>The fraction \<open>num / den\<close> is a decimal with at most 18 places exactly when its reduced
  denominator divides a power of ten with such an exponent.\<close>

lemma reduced_decimal:
  fixes n :: int and d :: nat
  assumes "coprime n (int d)" "0 < d"
  shows "(\<exists>z::int. (of_int n / of_nat d :: rat) = of_int z / 10 ^ k) \<longleftrightarrow> d dvd 10 ^ k"
proof -
  have eq: "(of_int n / of_nat d :: rat) = of_int z / 10 ^ k \<longleftrightarrow> n * 10 ^ k = z * int d" for z
  proof -
    have "(of_int n / of_nat d :: rat) = of_int z / 10 ^ k \<longleftrightarrow>
        (of_int (n * 10 ^ k) :: rat) = of_int (z * int d)"
      using assms(2) by (simp add: field_simps)
    then show ?thesis by (simp only: of_int_eq_iff)
  qed
  have "(\<exists>z. n * 10 ^ k = z * int d) \<longleftrightarrow> int d dvd n * 10 ^ k"
    by (auto simp: dvd_def mult.commute)
  also have "\<dots> \<longleftrightarrow> int d dvd 10 ^ k"
    using assms(1) by (simp add: coprime_dvd_mult_right_iff coprime_commute)
  also have "\<dots> \<longleftrightarrow> d dvd 10 ^ k"
    by (metis int_dvd_int_iff of_nat_numeral of_nat_power)
  finally show ?thesis by (simp add: eq)
qed

definition ratio :: "i64 \<Rightarrow> u64 \<Rightarrow> rat" where
  "ratio num den = of_int (sint num) / of_nat (unat den)"

definition short_decimal :: "rat \<Rightarrow> bool" where
  "short_decimal q \<longleftrightarrow> (\<exists>k \<le> 18. \<exists>z::int. q = of_int z / 10 ^ k)"

lemma ratio_reduced:
  assumes "den \<noteq> 0" "Reduce num den = (n, d)"
  shows "ratio n d = ratio num den" "short_decimal (ratio num den) \<longleftrightarrow> DecimalPlaces d \<noteq> None"
proof -
  note r = Reduce_spec [OF assms]
  have pos: "0 < unat den" "0 < unat d" using assms(1) r by (auto simp: unat_gt_0)
  have "(of_int (sint n * int (unat den)) :: rat) = of_int (sint num * int (unat d))" using r by simp
  moreover have "(of_nat (unat den) :: rat) \<noteq> 0" "(of_nat (unat d) :: rat) \<noteq> 0"
    using pos by (simp_all only: of_nat_eq_0_iff)
  ultimately show eq: "ratio n d = ratio num den" by (simp add: ratio_def field_simps)
  have "short_decimal (ratio n d) \<longleftrightarrow> (\<exists>k \<le> 18. unat d dvd 10 ^ k)"
    using reduced_decimal [of "sint n" "unat d"] r pos by (simp add: short_decimal_def ratio_def)
  also have "\<dots> \<longleftrightarrow> DecimalPlaces d \<noteq> None"
    using DecimalPlaces_spec [of d] r by (cases "DecimalPlaces d") auto
  finally show "short_decimal (ratio num den) \<longleftrightarrow> DecimalPlaces d \<noteq> None" by (simp add: eq)
qed

lemma MakeCoefficient_ratio:
  assumes "den \<noteq> 0" "Reduce num den = (n, d)" "DecimalPlaces d = Some own" "own \<le> common" "common \<le> 18"
  obtains r where "MakeCoefficient n d own common = Some r" "coefficient_ok r"
    "of_int (sval (FromDescriptor r)) / 10 ^ common = ratio num den"
proof -
  note red = Reduce_spec [OF assms(1,2)]
  from DecimalPlaces_spec(1) [OF _ assms(3)] red have "unat d dvd 10 ^ own" by simp
  from MakeCoefficient_exact [OF _ this assms(4,5), of n] red obtain r
    where r: "MakeCoefficient n d own common = Some r" "coefficient_ok r"
      "sval (FromDescriptor r) * int (unat d) = sint n * 10 ^ common" by blast
  have "unat d \<noteq> 0" using red by (simp add: unat_eq_zero)
  then have "(of_nat (unat d) :: rat) \<noteq> 0" by (simp only: of_nat_eq_0_iff not_False_eq_True)
  moreover have "(of_int (sval (FromDescriptor r) * int (unat d)) :: rat) = of_int (sint n * 10 ^ common)"
    by (simp only: r(3))
  ultimately have "of_int (sval (FromDescriptor r)) / 10 ^ common = ratio n d"
    by (simp add: ratio_def field_simps)
  with r that show thesis by (simp add: ratio_reduced(1) [OF assms(1,2)])
qed

lemma Derive_exact:
  assumes "sn \<noteq> 0" "sd \<noteq> 0" "bd \<noteq> 0" "sd \<le> kMaximumAuthorDenominator" "bd \<le> kMaximumAuthorDenominator"
    and ty: "type = VT_UINT64 \<or> type = VT_INT64"
  shows "case DeriveLinearConversion type sn sd bn bd of
      Inr c \<Rightarrow> conversion_ok c \<and> raw_value_type c = type \<and>
               (\<forall>n. linear_value c n = of_int n * ratio sn sd + ratio bn bd)
    | Inl e \<Rightarrow> e = NON_TERMINATING_SCALE \<and> \<not> short_decimal (ratio sn sd) \<or>
               e = NON_TERMINATING_BIAS \<and> \<not> short_decimal (ratio bn bd)"
proof -
  obtain n1 d1 where r1: "Reduce sn sd = (n1, d1)" by (cases "Reduce sn sd")
  obtain n2 d2 where r2: "Reduce bn bd = (n2, d2)" by (cases "Reduce bn bd")
  note f1 = ratio_reduced [OF assms(2) r1] and f2 = ratio_reduced [OF assms(3) r2]
  have pre: "DeriveLinearConversion type sn sd bn bd =
      (case DecimalPlaces d1 of None \<Rightarrow> Inl NON_TERMINATING_SCALE
       | Some p1 \<Rightarrow> (case DecimalPlaces d2 of None \<Rightarrow> Inl NON_TERMINATING_BIAS
          | Some p2 \<Rightarrow> (case MakeCoefficient n1 d1 p1 (max p1 p2) of None \<Rightarrow> Inl ARITHMETIC_OVERFLOW
             | Some a \<Rightarrow> (case MakeCoefficient n2 d2 p2 (max p1 p2) of None \<Rightarrow> Inl ARITHMETIC_OVERFLOW
                | Some b \<Rightarrow> Inr \<lparr>raw_value_type = type, scale_numerator = n1, scale_denominator = d1,
                    bias_numerator = n2, bias_denominator = d2, decimal_places = max p1 p2,
                    scale_coefficient = a, bias_coefficient = b\<rparr>))))"
  proof -
    have "\<not> (sd = 0 \<or> bd = 0 \<or> sd > kMaximumAuthorDenominator \<or> bd > kMaximumAuthorDenominator)"
      using assms by (simp add: not_less)
    then show ?thesis
      by (simp only: DeriveLinearConversion_def assms(1) r1 r2 Let_def prod.case if_False)
  qed
  show ?thesis
  proof (cases "DecimalPlaces d1")
    case None
    then show ?thesis using f1 by (simp add: pre)
  next
    case p1: (Some p1)
    show ?thesis
    proof (cases "DecimalPlaces d2")
      case None
      then show ?thesis using f2 p1 by (simp add: pre)
    next
      case p2: (Some p2)
      have "d1 \<noteq> 0" "d2 \<noteq> 0" using Reduce_spec [OF assms(2) r1] Reduce_spec [OF assms(3) r2] by auto
      then have le: "p1 \<le> 18" "p2 \<le> 18"
        using DecimalPlaces_spec(1) [OF _ p1] DecimalPlaces_spec(1) [OF _ p2] by auto
      then have t: "max p1 p2 \<le> 18" by simp
      obtain a where a: "MakeCoefficient n1 d1 p1 (max p1 p2) = Some a" "coefficient_ok a"
        "of_int (sval (FromDescriptor a)) / 10 ^ max p1 p2 = ratio sn sd"
        by (rule MakeCoefficient_ratio [OF assms(2) r1 p1 _ t]) auto
      obtain b where b: "MakeCoefficient n2 d2 p2 (max p1 p2) = Some b" "coefficient_ok b"
        "of_int (sval (FromDescriptor b)) / 10 ^ max p1 p2 = ratio bn bd"
        by (rule MakeCoefficient_ratio [OF assms(3) r2 p2 _ t]) auto
      have "sint sn \<noteq> 0" using assms(1) by (metis signed_0 signed_word_eqI)
      then have "ratio sn sd \<noteq> 0" using assms(2)
        by (simp only: ratio_def divide_eq_0_iff of_int_eq_0_iff of_nat_eq_0_iff unat_eq_zero)
          simp
      then have "wval (coef_words a) \<noteq> 0" using a(2,3) FromDescriptor_sval(4) [of a] by auto
      moreover have "of_int (n * sval (FromDescriptor a) + sval (FromDescriptor b)) / 10 ^ max p1 p2
          = of_int n * ratio sn sd + ratio bn bd" for n
        by (simp add: a(3) [symmetric] b(3) [symmetric] add_divide_distrib)
      ultimately show ?thesis
        using a(1,2) b(1,2) t ty
        by (simp add: pre p1 p2 conversion_ok_def linear_value_def desc_A_def desc_B_def)
    qed
  qed
qed

lemma LinearConversionEqual_iff: "LinearConversionEqual l r \<longleftrightarrow> l = r"
  by (cases l; cases r; cases "scale_coefficient l"; cases "bias_coefficient l";
      cases "scale_coefficient r"; cases "bias_coefficient r")
    (auto simp: LinearConversionEqual_def)

section \<open>Properties\<close>

text \<open>C36. The derivation is exact and complete: for a scale that is not zero and denominators from 1
  to \<open>10 ^ 18\<close>, \<open>DeriveLinearConversion\<close> returns a descriptor that the codec accepts and whose
  decimal of a raw integer \<open>n\<close> is \<open>n * scale + bias\<close> over the fractions the author wrote; it
  refuses only a fraction that is no decimal of at most 18 places, and its 256-bit arithmetic never
  overflows.\<close>

theorem derive_linear_conversion_exact:
  assumes "sn \<noteq> 0" "sd \<noteq> 0" "bd \<noteq> 0" "sd \<le> kMaximumAuthorDenominator" "bd \<le> kMaximumAuthorDenominator"
    and "type = VT_UINT64 \<or> type = VT_INT64"
  shows "case DeriveLinearConversion type sn sd bn bd of
      Inr c \<Rightarrow> conversion_ok c \<and> raw_value_type c = type \<and>
               (\<forall>n. linear_value c n = of_int n * ratio sn sd + ratio bn bd)
    | Inl e \<Rightarrow> e = NON_TERMINATING_SCALE \<and> \<not> short_decimal (ratio sn sd) \<or>
               e = NON_TERMINATING_BIAS \<and> \<not> short_decimal (ratio bn bd)"
  using Derive_exact [OF assms] .

lemma short_tenth: "short_decimal (ratio 1 10)" "short_decimal (ratio (- 40) 1)"
proof -
  show "short_decimal (ratio 1 10)"
    unfolding short_decimal_def ratio_def by (intro exI [of _ 1] conjI) auto
  show "short_decimal (ratio (- 40) 1)"
    unfolding short_decimal_def ratio_def by (intro exI [of _ 0] conjI exI [of _ "- 40"]) auto
qed

theorem derive_linear_conversion_exact_witness:
  "\<exists>c. DeriveLinearConversion VT_INT64 1 10 (- 40) 1 = Inr c \<and> conversion_ok c \<and>
       linear_value c 523 = 123 / 10"
proof -
  have r: "ratio 1 10 = 1 / 10" "ratio (- 40) 1 = - 40" by (simp_all add: ratio_def)
  show ?thesis
    using derive_linear_conversion_exact [of 1 10 1 VT_INT64 "- 40"] short_tenth
    by (auto simp: kMaximumAuthorDenominator_def r split: sum.splits)
qed

end
