(* ===== verification/Prefix_Match.thy ===== *)
theory Prefix_Match
  imports Plan_Types "HOL-Library.Sublist"
begin

text \<open>
  Byte pattern matching with a prefix table.  The configuration compiler builds the table of
  a synchronisation header or a text literal (\<^verbatim>\<open>config_compiler.cpp\<close>), the plan builder checks
  it again (\<^verbatim>\<open>plan_builder.cpp\<close>), the stream framer and the text codec advance a match with it.
  All of them share one inner loop, \<open>Fallback\<close>, which follows the table while the next byte does
  not fit.  The loop ends only if the table points backwards, so it is a partial function whose
  value is \<open>None\<close> when it does not end.

  The contract of a table is the locale \<open>prefix_table\<close>: entry \<open>i\<close> is the length of the longest
  proper border of the first \<open>i + 1\<close> pattern bytes.  The lemmas of the locale say that one
  step moves from the longest match at the end of a text to the longest match at the end of the
  text extended by a byte.  The locale is interpreted on the table the compiler builds, and a table
  the plan builder accepts is that table.
\<close>

section \<open>The functions\<close>

partial_function (option) Fallback :: "u8 list \<Rightarrow> nat list \<Rightarrow> u8 \<Rightarrow> nat \<Rightarrow> nat option" where
  "Fallback pat table byte match =
     (if match \<noteq> 0 \<and> byte \<noteq> pat ! match then Fallback pat table byte (table ! (match - 1))
      else Some match)"

definition Advance :: "u8 list \<Rightarrow> u8 \<Rightarrow> nat \<Rightarrow> nat" where
  "Advance pat byte match = (if byte = pat ! match then match + 1 else match)"

fun BuildPrefix_loop :: "u8 list \<Rightarrow> nat list \<Rightarrow> nat \<Rightarrow> nat list \<Rightarrow> nat list option" where
  "BuildPrefix_loop pat [] matched table = Some table"
| "BuildPrefix_loop pat (index # indices) matched table =
     (case Fallback pat table (pat ! index) matched of
        None \<Rightarrow> None
      | Some matched \<Rightarrow>
          let matched = Advance pat (pat ! index) matched
          in BuildPrefix_loop pat indices matched (table[index := matched]))"

definition BuildPrefixTable :: "u8 list \<Rightarrow> nat list option" where
  "BuildPrefixTable pat =
     BuildPrefix_loop pat [1..<length pat] 0 (replicate (length pat) 0)"

fun CheckPrefix_loop :: "u8 list \<Rightarrow> nat list \<Rightarrow> nat list \<Rightarrow> nat \<Rightarrow> bool option" where
  "CheckPrefix_loop pat table [] expected = Some True"
| "CheckPrefix_loop pat table (index # indices) expected =
     (case (if index \<noteq> 0
            then map_option (Advance pat (pat ! index)) (Fallback pat table (pat ! index) expected)
            else Some expected) of
        None \<Rightarrow> None
      | Some expected \<Rightarrow>
          if table ! index \<noteq> expected \<or> expected > index then Some False
          else CheckPrefix_loop pat table indices expected)"

definition CheckPrefixTable :: "u8 list \<Rightarrow> nat list \<Rightarrow> bool option" where
  "CheckPrefixTable pat table =
     (if length table \<noteq> length pat then Some False
      else CheckPrefix_loop pat table [0..<length pat] 0)"

text \<open>The framer runs the same loop and charges two work units for each turn of it.\<close>

partial_function (option) Fallback_units ::
    "u8 list \<Rightarrow> nat list \<Rightarrow> u8 \<Rightarrow> nat \<Rightarrow> nat \<Rightarrow> (nat \<times> nat) option" where
  "Fallback_units pat table byte match units =
     (if match \<noteq> 0 \<and> byte \<noteq> pat ! match
      then Fallback_units pat table byte (table ! (match - 1)) (units + 2)
      else Some (match, units))"

section \<open>Matches at the end of a text\<close>

text \<open>\<open>matches pat s k\<close>: the first \<open>k\<close> bytes of the pattern are the last \<open>k\<close> bytes of the text.
  \<open>best pat s k\<close>: \<open>k\<close> is the largest such number.\<close>

definition matches :: "u8 list \<Rightarrow> u8 list \<Rightarrow> nat \<Rightarrow> bool" where
  "matches pat s k \<longleftrightarrow> k \<le> length pat \<and> suffix (take k pat) s"

definition best :: "u8 list \<Rightarrow> u8 list \<Rightarrow> nat \<Rightarrow> bool" where
  "best pat s k \<longleftrightarrow> matches pat s k \<and> (\<forall>j. matches pat s j \<longrightarrow> j \<le> k)"

definition border_table :: "u8 list \<Rightarrow> nat list \<Rightarrow> bool" where
  "border_table pat table \<longleftrightarrow> length table = length pat \<and>
     (\<forall>i < length pat. best pat (drop 1 (take (Suc i) pat)) (table ! i))"

lemma matches_0 [simp]: "matches pat s 0"
  by (simp add: matches_def)

lemma matches_le: "matches pat s k \<Longrightarrow> k \<le> length pat \<and> k \<le> length s"
  by (auto simp: matches_def dest: suffix_length_le)

lemma matches_Nil [simp]: "matches pat [] k \<longleftrightarrow> k = 0"
  by (auto simp: matches_def)

lemma best_unique: "best pat s k \<Longrightarrow> best pat s j \<Longrightarrow> k = j"
  by (simp add: best_def order_antisym)

lemma matches_Suc:
  "matches pat (s @ [b]) (Suc k) \<longleftrightarrow> k < length pat \<and> matches pat s k \<and> pat ! k = b"
  by (auto simp: matches_def take_Suc_conv_app_nth Suc_le_eq)

lemma matches_shorter:
  assumes "matches pat s m" "j < m"
  shows "matches pat s j \<longleftrightarrow> matches pat (drop 1 (take m pat)) j"
proof -
  have m: "m \<le> length pat" "suffix (take m pat) s" using assms(1) by (auto simp: matches_def)
  have len: "length (take m pat) = m" "length (drop 1 (take m pat)) = m - 1" "length (take j pat) = j"
    using m(1) assms(2) by simp_all
  have sub: "suffix (drop 1 (take m pat)) (take m pat)" by (rule suffix_drop)
  have "suffix (take j pat) s \<longleftrightarrow> suffix (take j pat) (drop 1 (take m pat))"
  proof
    assume "suffix (take j pat) s"
    moreover have "suffix (drop 1 (take m pat)) s" using sub m(2) by (rule suffix_order.trans)
    ultimately show "suffix (take j pat) (drop 1 (take m pat))"
      by (rule suffix_length_suffix) (use len assms(2) in simp)
  next
    assume "suffix (take j pat) (drop 1 (take m pat))"
    then show "suffix (take j pat) s" using sub m(2) by (meson suffix_order.trans)
  qed
  then show ?thesis using assms m(1) by (simp add: matches_def)
qed

lemma best_border_less: "best pat (drop 1 (take m pat)) k \<Longrightarrow> 0 < m \<Longrightarrow> m \<le> length pat \<Longrightarrow> k < m"
  using matches_le [of pat "drop 1 (take m pat)" k] by (auto simp: best_def)

subsection \<open>One step\<close>

text \<open>The table is used only below the current match, so it need be right only there.\<close>

lemma Fallback_spec:
  assumes "\<forall>i < m. best pat (drop 1 (take (Suc i) pat)) (table ! i)"
    and "m < length pat" "matches pat s m"
    and "\<forall>j. matches pat s j \<and> m < j \<and> j < length pat \<longrightarrow> pat ! j \<noteq> byte"
  shows "\<exists>k. Fallback pat table byte m = Some k \<and> k \<le> m \<and> matches pat s k \<and>
     (k = 0 \<or> pat ! k = byte) \<and> (\<forall>j. matches pat s j \<and> k < j \<and> j < length pat \<longrightarrow> pat ! j \<noteq> byte)"
  using assms
proof (induction m rule: less_induct)
  case (less m)
  show ?case
  proof (cases "m \<noteq> 0 \<and> byte \<noteq> pat ! m")
    case False
    then have "Fallback pat table byte m = Some m" by (subst Fallback.simps) auto
    with less.prems False show ?thesis by auto
  next
    case True
    let ?k = "table ! (m - 1)"
    from True have "m - 1 < m" "Suc (m - 1) = m" by simp_all
    with less.prems(1) have bk: "best pat (drop 1 (take m pat)) ?k" by metis
    have k1: "?k < m" by (rule best_border_less [OF bk]) (use less.prems(2) True in simp_all)
    have k: "?k < m" "matches pat (drop 1 (take m pat)) ?k"
      "\<forall>j. matches pat (drop 1 (take m pat)) j \<longrightarrow> j \<le> ?k"
      using bk k1 by (simp_all add: best_def)
    have mk: "matches pat s ?k" using matches_shorter [OF less.prems(3) k(1)] k(2) by simp
    have above: "pat ! j \<noteq> byte" if "matches pat s j" "?k < j" "j < length pat" for j
    proof (cases "j < m")
      case True
      then show ?thesis
        using matches_shorter [OF less.prems(3) True] that k(3) by (simp add: not_le [symmetric])
    next
      case False
      then consider "j = m" | "m < j" by linarith
      then show ?thesis using that less.prems(4) True by cases auto
    qed
    have ih: "\<exists>l. Fallback pat table byte ?k = Some l \<and> l \<le> ?k \<and> matches pat s l \<and>
        (l = 0 \<or> pat ! l = byte) \<and> (\<forall>j. matches pat s j \<and> l < j \<and> j < length pat \<longrightarrow> pat ! j \<noteq> byte)"
      by (rule less.IH [OF k(1)]) (use less.prems k(1) mk above in auto)
    have "Fallback pat table byte m = Fallback pat table byte ?k"
      using True by (subst Fallback.simps) simp
    with ih k(1) show ?thesis by fastforce
  qed
qed

lemma Advance_best:
  assumes "k < length pat" "matches pat s k" "k = 0 \<or> pat ! k = byte"
    and "\<forall>j. matches pat s j \<and> k < j \<and> j < length pat \<longrightarrow> pat ! j \<noteq> byte"
  shows "best pat (s @ [byte]) (Advance pat byte k)"
proof -
  have up: "j \<le> Advance pat byte k" if "matches pat (s @ [byte]) j" for j
  proof (cases j)
    case (Suc i)
    with that have i: "i < length pat" "matches pat s i" "pat ! i = byte" by (auto simp: matches_Suc)
    with assms(4) have "i \<le> k" by (auto simp: not_less [symmetric])
    moreover have "byte \<noteq> pat ! k \<Longrightarrow> i \<noteq> k" using i(3) by auto
    ultimately show ?thesis using assms(3) Suc by (auto simp: Advance_def)
  qed simp
  moreover have "matches pat (s @ [byte]) (Advance pat byte k)"
    using assms by (auto simp: Advance_def matches_Suc)
  ultimately show ?thesis by (simp add: best_def)
qed

text \<open>A search state: the longest match shorter than the pattern.\<close>

definition search_state :: "u8 list \<Rightarrow> u8 list \<Rightarrow> nat \<Rightarrow> bool" where
  "search_state pat s m \<longleftrightarrow> m < length pat \<and> matches pat s m \<and>
     (\<forall>j < length pat. matches pat s j \<longrightarrow> j \<le> m)"

lemma search_state_best: "best pat s m \<Longrightarrow> m < length pat \<Longrightarrow> search_state pat s m"
  by (simp add: best_def search_state_def)

lemma search_state_start: "pat \<noteq> [] \<Longrightarrow> search_state pat [] 0"
  by (simp add: search_state_def)

lemma step_best:
  assumes "\<forall>i < m. best pat (drop 1 (take (Suc i) pat)) (table ! i)" "search_state pat s m"
  shows "\<exists>k. Fallback pat table byte m = Some k \<and> k \<le> m \<and>
     best pat (s @ [byte]) (Advance pat byte k)"
proof -
  have "\<forall>j. matches pat s j \<and> m < j \<and> j < length pat \<longrightarrow> pat ! j \<noteq> byte"
    using assms(2) by (auto simp: search_state_def not_le [symmetric])
  from Fallback_spec [OF assms(1) _ _ this] assms(2) obtain k
    where k: "Fallback pat table byte m = Some k" "k \<le> m" "matches pat s k"
      "k = 0 \<or> pat ! k = byte" "\<forall>j. matches pat s j \<and> k < j \<and> j < length pat \<longrightarrow> pat ! j \<noteq> byte"
    by (auto simp: search_state_def)
  moreover have "k < length pat" using k(2) assms(2) by (simp add: search_state_def)
  ultimately show ?thesis using Advance_best [of k pat s byte] by auto
qed

lemma Fallback_units_eq:
  assumes "Fallback pat table byte m = Some k" "\<forall>i < m. table ! i \<le> i"
  shows "\<exists>n. k + n \<le> m \<and> Fallback_units pat table byte m u = Some (k, u + 2 * n)"
  using assms
proof (induction m arbitrary: u rule: less_induct)
  case (less m)
  show ?case
  proof (cases "m \<noteq> 0 \<and> byte \<noteq> pat ! m")
    case False
    then have "Fallback pat table byte m = Some m" "Fallback_units pat table byte m u = Some (m, u)"
      by (subst Fallback.simps Fallback_units.simps; auto)+
    with less.prems show ?thesis by (intro exI [of _ 0]) simp
  next
    case True
    let ?k = "table ! (m - 1)"
    from True have lt: "m - 1 < m" by simp
    with less.prems(2) have "?k \<le> m - 1" by blast
    with lt have k: "?k < m" by linarith
    have f: "Fallback pat table byte m = Fallback pat table byte ?k"
      "Fallback_units pat table byte m u = Fallback_units pat table byte ?k (u + 2)"
      using True by (subst Fallback.simps Fallback_units.simps; simp)+
    have "Fallback pat table byte ?k = Some k" "\<forall>i < ?k. table ! i \<le> i"
      using less.prems f(1) k by auto
    from less.IH [OF k this, of "u + 2"] obtain n
      where n: "k + n \<le> ?k" "Fallback_units pat table byte ?k (u + 2) = Some (k, u + 2 + 2 * n)" by blast
    then show ?thesis using f(2) k by (intro exI [of _ "Suc n"]) simp
  qed
qed

section \<open>The table that is built and checked\<close>

lemma text_snoc: "0 < i \<Longrightarrow> i < length pat \<Longrightarrow>
    drop 1 (take (Suc i) pat) = drop 1 (take i pat) @ [pat ! i]"
  by (simp add: take_Suc_conv_app_nth)

lemma border_zero: "best pat (drop 1 (take (Suc 0) pat)) 0"
  by (cases pat) (auto simp: best_def)

lemma best_step_table:
  assumes "0 < i" "i < length pat" "best pat (drop 1 (take i pat)) m"
    and "\<forall>j < i. best pat (drop 1 (take (Suc j) pat)) (table ! j)"
  shows "\<exists>k. Fallback pat table (pat ! i) m = Some k \<and>
     best pat (drop 1 (take (Suc i) pat)) (Advance pat (pat ! i) k)"
proof -
  have m: "m < i" using best_border_less [OF assms(3)] assms by simp
  then have "search_state pat (drop 1 (take i pat)) m"
    by (intro search_state_best [OF assms(3)]) (use assms in simp)
  from step_best [OF _ this, of table "pat ! i"] m assms(4)
  show ?thesis unfolding text_snoc [OF assms(1,2)] by auto
qed

lemma BuildPrefix_loop_border:
  "0 < i \<Longrightarrow> i \<le> length pat \<Longrightarrow> length table = length pat \<Longrightarrow>
   (\<forall>j < i. best pat (drop 1 (take (Suc j) pat)) (table ! j)) \<Longrightarrow>
   best pat (drop 1 (take i pat)) m \<Longrightarrow>
   \<exists>t. BuildPrefix_loop pat [i..<length pat] m table = Some t \<and> border_table pat t"
proof (induction "length pat - i" arbitrary: i m table)
  case 0
  then show ?case by (simp add: border_table_def)
next
  case (Suc d)
  then have i: "i < length pat" by simp
  from best_step_table [OF Suc.prems(1) i Suc.prems(5,4)] obtain k
    where k: "Fallback pat table (pat ! i) m = Some k"
      "best pat (drop 1 (take (Suc i) pat)) (Advance pat (pat ! i) k)" by blast
  let ?m = "Advance pat (pat ! i) k"
  have "\<exists>t. BuildPrefix_loop pat [Suc i..<length pat] ?m (table[i := ?m]) = Some t \<and> border_table pat t"
    by (rule Suc.hyps(1)) (use Suc.hyps(2) Suc.prems i k(2) in \<open>auto simp: less_Suc_eq nth_list_update\<close>)
  then show ?case using k(1) i by (simp add: upt_conv_Cons Let_def)
qed

lemma BuildPrefixTable_border: "\<exists>t. BuildPrefixTable pat = Some t \<and> border_table pat t"
proof (cases pat)
  case Nil
  then show ?thesis by (simp add: BuildPrefixTable_def border_table_def)
next
  case (Cons b bs)
  show ?thesis
    unfolding BuildPrefixTable_def
    by (rule BuildPrefix_loop_border) (use border_zero [of pat] Cons in auto)
qed

lemma border_table_unique: "border_table pat s \<Longrightarrow> border_table pat t \<Longrightarrow> s = t"
  unfolding border_table_def by (rule nth_equalityI) (simp, metis best_unique)

lemma border_table_le: "border_table pat t \<Longrightarrow> i < length pat \<Longrightarrow> t ! i \<le> i"
  using best_border_less [of pat "Suc i" "t ! i"] by (simp add: border_table_def)

lemma CheckPrefix_loop_eq:
  "i \<le> length pat \<Longrightarrow> (\<forall>j < i. best pat (drop 1 (take (Suc j) pat)) (table ! j)) \<Longrightarrow>
   best pat (drop 1 (take i pat)) m \<Longrightarrow>
   CheckPrefix_loop pat table [i..<length pat] m =
     Some (\<forall>j. i \<le> j \<and> j < length pat \<longrightarrow> best pat (drop 1 (take (Suc j) pat)) (table ! j))"
proof (induction "length pat - i" arbitrary: i m)
  case (Suc d)
  then have i: "i < length pat" by simp
  have "\<exists>e. (if i \<noteq> 0 then map_option (Advance pat (pat ! i)) (Fallback pat table (pat ! i) m) else Some m)
      = Some e \<and> best pat (drop 1 (take (Suc i) pat)) e"
  proof (cases "i = 0")
    case True
    then have "m = 0" using Suc.prems(3) by (auto simp: best_def dest: matches_le)
    then show ?thesis using True border_zero [of pat] by simp
  next
    case False
    then have "0 < i" by simp
    from best_step_table [OF this i Suc.prems(3,2)] False show ?thesis by auto
  qed
  then obtain e where e: "(if i \<noteq> 0 then map_option (Advance pat (pat ! i)) (Fallback pat table (pat ! i) m)
      else Some m) = Some e" "best pat (drop 1 (take (Suc i) pat)) e" by blast
  have le: "e \<le> i" using best_border_less [OF e(2)] i by simp
  show ?case
  proof (cases "table ! i = e")
    case True
    have "CheckPrefix_loop pat table [Suc i..<length pat] e =
        Some (\<forall>j. Suc i \<le> j \<and> j < length pat \<longrightarrow> best pat (drop 1 (take (Suc j) pat)) (table ! j))"
      by (rule Suc.hyps(1)) (use Suc.hyps(2) Suc.prems i e True in \<open>auto simp: less_Suc_eq\<close>)
    moreover have "CheckPrefix_loop pat table [i..<length pat] m = CheckPrefix_loop pat table [Suc i..<length pat] e"
      by (simp only: upt_conv_Cons [OF i] CheckPrefix_loop.simps(2) e(1) option.case)
        (use True le in simp)
    moreover have "(\<forall>j. Suc i \<le> j \<and> j < length pat \<longrightarrow> best pat (drop 1 (take (Suc j) pat)) (table ! j))
        \<longleftrightarrow> (\<forall>j. i \<le> j \<and> j < length pat \<longrightarrow> best pat (drop 1 (take (Suc j) pat)) (table ! j))"
      using e(2) True by (metis Suc_leD le_neq_implies_less Suc_leI)
    ultimately show ?thesis by simp
  next
    case False
    then have "\<not> best pat (drop 1 (take (Suc i) pat)) (table ! i)" using e(2) best_unique by blast
    moreover have "CheckPrefix_loop pat table [i..<length pat] m = Some False"
      by (simp only: upt_conv_Cons [OF i] CheckPrefix_loop.simps(2) e(1) option.case)
        (use False in simp)
    ultimately show ?thesis using i by auto
  qed
qed auto

lemma CheckPrefixTable_border: "CheckPrefixTable pat table = Some (border_table pat table)"
  using CheckPrefix_loop_eq [of 0 pat table 0] by (auto simp: CheckPrefixTable_def border_table_def best_def)

section \<open>The interface of a prefix table\<close>

locale prefix_table =
  fixes table :: "u8 list \<Rightarrow> nat list"
  assumes border: "border_table pat (table pat)"
begin

lemma table_length: "length (table pat) = length pat"
  using border by (simp add: border_table_def)

lemma accepted_iff: "CheckPrefixTable pat t = Some True \<longleftrightarrow> t = table pat"
  using border border_table_unique by (auto simp: CheckPrefixTable_border)

lemma step:
  assumes "search_state pat s m"
  shows "\<exists>k n. Fallback_units pat (table pat) byte m u = Some (k, u + 2 * n) \<and> k + n \<le> m \<and>
     k < length pat \<and> best pat (s @ [byte]) (Advance pat byte k)"
proof -
  have m: "m < length pat" using assms by (simp add: search_state_def)
  have "\<forall>i < m. best pat (drop 1 (take (Suc i) pat)) (table pat ! i)"
    using border m by (simp add: border_table_def)
  from step_best [OF this assms, of byte] obtain k
    where k: "Fallback pat (table pat) byte m = Some k" "k \<le> m" "best pat (s @ [byte]) (Advance pat byte k)"
    by blast
  have "\<forall>i < m. table pat ! i \<le> i" using border_table_le [OF border] m by simp
  from Fallback_units_eq [OF k(1) this, of u] k m show ?thesis by fastforce
qed

lemma step_plain:
  assumes "search_state pat s m"
  shows "\<exists>k. Fallback pat (table pat) byte m = Some k \<and> best pat (s @ [byte]) (Advance pat byte k)"
proof -
  have m: "m < length pat" using assms by (simp add: search_state_def)
  have "\<forall>i < m. best pat (drop 1 (take (Suc i) pat)) (table pat ! i)"
    using border m by (simp add: border_table_def)
  from step_best [OF this assms, of byte] show ?thesis by blast
qed

end

definition PrefixTable :: "u8 list \<Rightarrow> nat list" where
  "PrefixTable pat = (case BuildPrefixTable pat of Some t \<Rightarrow> t | None \<Rightarrow> [])"

interpretation kmp: prefix_table PrefixTable
proof
  show "border_table pat (PrefixTable pat)" for pat
    using BuildPrefixTable_border [of pat] by (auto simp: PrefixTable_def)
qed

section \<open>Properties\<close>

text \<open>C39. The compiler's construction of a prefix table ends, and the plan builder accepts a table
  exactly when it is that one; the acceptance test ends on every input, also on a table with
  entries that point forwards.\<close>

theorem prefix_table_check_exact:
  "\<exists>t. BuildPrefixTable pat = Some t \<and> CheckPrefixTable pat table = Some (table = t)"
  using BuildPrefixTable_border [of pat] border_table_unique by (auto simp: CheckPrefixTable_border)

end
