(* ===== verification/Stream_Framer.thy ===== *)
theory Stream_Framer
  imports Prefix_Match
begin

text \<open>
  The bounded stream framer, \<^verbatim>\<open>src/src/protocol_framing/stream_framer.cpp\<close>: a workspace keeps
  the state of one byte stream, \<open>PushStreamChunk\<close> runs the state machine over a chunk and hands
  complete frames to the sink, charging work units against a budget.  The loop \<open>for (;;)\<close> is
  \<open>Push_loop\<close>; one turn of it is \<open>Push_step\<close>, which dispatches on the state as the code does, one
  definition for each state.  A turn ends the function (\<open>Return\<close>), leaves the loop (\<open>Break\<close>), goes on
  (\<open>Next\<close>), or does not end because the prefix table does not point backwards (\<open>Hang\<close>).

  The sink is a parameter: a function of the user data and the frame.  \<open>ps_frames\<close> records the
  frames the sink was called with in this submission.  The thread-local pointer to the workspace whose
  callback is running is the argument \<open>callback\<close>, and \<open>in_use\<close> is the atomic flag.
\<close>

section \<open>Types\<close>

record ByteView =
  bv_address :: nat
  bv_bytes :: "u8 list"

datatype FrameSinkAction = SINK_CONTINUE | SINK_STOP

datatype SubmitApiStatus =
  SA_OK | SA_INVALID_ARGUMENT | SA_INVALID_PLAN | SA_WORKSPACE_PLAN_MISMATCH | SA_WORKSPACE_BUSY
| SA_REENTRANT_CALL | SA_LIMIT_EXCEEDED | SA_INTERNAL_ERROR

datatype SubmitStopReason = SR_INPUT_EXHAUSTED | SR_NEED_MORE | SR_WORK_BUDGET_REACHED | SR_SINK_STOP

datatype FramingIssue = FI_NONE | FI_MALFORMED_LENGTH | FI_RECORD_TOO_LONG

record SubmitResult =
  rs_api_status :: SubmitApiStatus
  rs_stop_reason :: SubmitStopReason
  rs_bytes_consumed :: nat
  rs_frames_delivered :: nat
  rs_bytes_discarded :: nat
  rs_malformed_candidates :: nat
  rs_last_framing_issue :: FramingIssue
  rs_work_units_used :: nat

definition initial_result :: SubmitResult where
  "initial_result =
     \<lparr>rs_api_status = SA_OK, rs_stop_reason = SR_INPUT_EXHAUSTED, rs_bytes_consumed = 0,
      rs_frames_delivered = 0, rs_bytes_discarded = 0, rs_malformed_candidates = 0,
      rs_last_framing_issue = FI_NONE, rs_work_units_used = 0\<rparr>"

record FramingLimitOverrides =
  ov_max_submit_bytes :: nat
  ov_max_frames_per_submit :: nat
  ov_max_work_units :: nat
  ov_max_sync_bytes :: nat
  ov_max_session_memory_bytes :: nat

datatype StreamFramingPhase = PH_COLLECTING | PH_DELIVERY_PENDING | PH_DISCARDING_UNTIL_CRLF

record StreamFramingObservation =
  ob_phase :: StreamFramingPhase
  ob_buffered_bytes :: nat
  ob_has_internal_work :: bool
  ob_effective_max_submit_bytes :: nat
  ob_effective_max_work_units :: nat

datatype State =
  COLLECT_FIXED | SEARCH_SYNC | COPY_SYNC | READ_LENGTH | COLLECT_DECLARED | DELIVER_PENDING
| RESCAN_INVALID | COMPACT_INVALID | COLLECT_ASCII | DISCARD_UNTIL_CRLF

record StreamFramingWorkspace =
  sw_address :: nat
  sw_plan :: nat
  framing :: FramingPlan
  sw_pipeline_index :: nat
  buffer :: "u8 list"
  buffered_size :: nat
  target_size :: nat
  sync_match :: nat
  copy_sync_index :: nat
  rescan_index :: nat
  rescan_match :: nat
  compact_start :: nat
  compact_size :: nat
  compact_moved :: nat
  max_submit :: nat
  max_frames :: nat
  max_work :: nat
  max_session :: nat
  total_discarded_bytes :: nat
  total_malformed_candidates :: nat
  previous_was_cr :: bool
  state :: State
  in_use :: bool

section \<open>Workspace operations\<close>

definition SelectLimit :: "nat \<Rightarrow> nat \<Rightarrow> nat \<Rightarrow> bool \<Rightarrow> nat \<times> bool" where
  "SelectLimit requested profile_default hard_limit valid =
     (let selected = (if requested = 0 then profile_default else requested)
      in (selected, if selected = 0 \<or> selected > hard_limit then False else valid))"

definition HasInternalWork :: "StreamFramingWorkspace \<Rightarrow> bool" where
  "HasInternalWork w \<longleftrightarrow>
     state w = COPY_SYNC \<or> state w = RESCAN_INVALID \<or> state w = COMPACT_INVALID \<or>
     state w = DELIVER_PENDING \<or>
     (state w = READ_LENGTH \<and>
      buffered_size w \<ge> size_add (fp_length_field_offset (framing w)) (fp_length_field_width (framing w)))"

definition HasHalfFrame :: "StreamFramingWorkspace \<Rightarrow> bool" where
  "HasHalfFrame w =
     (if state w = COLLECT_ASCII then buffered_size w \<noteq> 0
      else if state w = DISCARD_UNTIL_CRLF then True
      else if state w = COLLECT_FIXED \<or> state w = COLLECT_DECLARED \<or> state w = READ_LENGTH then
        buffered_size w \<noteq> 0
      else state w = SEARCH_SYNC \<and> sync_match w \<noteq> 0)"

definition ResetCandidate :: "StreamFramingWorkspace \<Rightarrow> StreamFramingWorkspace" where
  "ResetCandidate w =
     (let w = w\<lparr>buffered_size := 0, target_size := 0, sync_match := 0, copy_sync_index := 0,
                rescan_index := 0, rescan_match := 0, compact_start := 0, compact_size := 0,
                compact_moved := 0, previous_was_cr := False\<rparr>
      in if fp_strategy (framing w) = FS_ASCII_CRLF then w\<lparr>state := COLLECT_ASCII\<rparr>
         else if fp_strategy (framing w) = FS_FIXED_LENGTH then
           w\<lparr>state := COLLECT_FIXED, target_size := fp_frame_length_bytes (framing w)\<rparr>
         else w\<lparr>state := SEARCH_SYNC\<rparr>)"

text \<open>The capacity of the buffer, which the code asks for here, is taken to be its size: the buffer is allocated once,
  with its final size.\<close>

definition AccountedWorkspaceBytes :: "nat \<Rightarrow> StreamFramingWorkspace \<Rightarrow> nat" where
  "AccountedWorkspaceBytes sizeof_workspace w = sizeof_workspace + length (buffer w)"

definition Observe :: "StreamFramingWorkspace \<Rightarrow> StreamFramingObservation" where
  "Observe w =
     \<lparr>ob_phase = (if state w = DELIVER_PENDING then PH_DELIVERY_PENDING
                  else if state w = DISCARD_UNTIL_CRLF then PH_DISCARDING_UNTIL_CRLF
                  else PH_COLLECTING),
      ob_buffered_bytes = buffered_size w, ob_has_internal_work = HasInternalWork w,
      ob_effective_max_submit_bytes = max_submit w, ob_effective_max_work_units = max_work w\<rparr>"

section \<open>One turn of the loop\<close>

record 'u push =
  ps_workspace :: StreamFramingWorkspace
  ps_result :: SubmitResult
  ps_input_index :: nat
  ps_user :: 'u
  ps_frames :: "u8 list list"

datatype 'c Iter = Next 'c | Break 'c | Return 'c | Hang

type_synonym 'u sink = "'u \<Rightarrow> u8 list \<Rightarrow> FrameSinkAction \<times> 'u"

definition charge :: "nat \<Rightarrow> 'u push \<Rightarrow> 'u push option" where
  "charge amount c =
     (if amount > max_work (ps_workspace c) - rs_work_units_used (ps_result c) then None
      else Some (c\<lparr>ps_result := (ps_result c)\<lparr>rs_work_units_used := rs_work_units_used (ps_result c) + amount\<rparr>\<rparr>))"

definition budget_stop :: "'u push \<Rightarrow> 'u push Iter" where
  "budget_stop c = Return (c\<lparr>ps_result := (ps_result c)\<lparr>rs_stop_reason := SR_WORK_BUDGET_REACHED\<rparr>\<rparr>)"

definition internal_error :: "'u push \<Rightarrow> 'u push Iter" where
  "internal_error c = Return (c\<lparr>ps_result := (ps_result c)\<lparr>rs_api_status := SA_INTERNAL_ERROR\<rparr>\<rparr>)"

definition record_discard :: "nat \<Rightarrow> 'u push \<Rightarrow> 'u push" where
  "record_discard amount c =
     c\<lparr>ps_result := (ps_result c)\<lparr>rs_bytes_discarded := rs_bytes_discarded (ps_result c) + amount\<rparr>,
       ps_workspace := (ps_workspace c)\<lparr>total_discarded_bytes :=
         total_discarded_bytes (ps_workspace c) + amount\<rparr>\<rparr>"

definition record_malformed :: "FramingIssue \<Rightarrow> 'u push \<Rightarrow> 'u push" where
  "record_malformed issue c =
     c\<lparr>ps_result := (ps_result c)\<lparr>rs_malformed_candidates := rs_malformed_candidates (ps_result c) + 1,
                                 rs_last_framing_issue := issue\<rparr>,
       ps_workspace := (ps_workspace c)\<lparr>total_malformed_candidates :=
         total_malformed_candidates (ps_workspace c) + 1\<rparr>\<rparr>"

definition consume :: "'u push \<Rightarrow> 'u push" where
  "consume c = c\<lparr>ps_input_index := ps_input_index c + 1,
     ps_result := (ps_result c)\<lparr>rs_bytes_consumed := rs_bytes_consumed (ps_result c) + 1\<rparr>\<rparr>"

definition store_byte :: "u8 \<Rightarrow> StreamFramingWorkspace \<Rightarrow> StreamFramingWorkspace" where
  "store_byte byte w = w\<lparr>buffer := (buffer w)[buffered_size w := byte],
                         buffered_size := buffered_size w + 1\<rparr>"

definition upd_workspace ::
    "(StreamFramingWorkspace \<Rightarrow> StreamFramingWorkspace) \<Rightarrow> 'u push \<Rightarrow> 'u push" where
  "upd_workspace f c = c\<lparr>ps_workspace := f (ps_workspace c)\<rparr>"

definition step_deliver :: "'u sink \<Rightarrow> 'u push \<Rightarrow> 'u push Iter" where
  "step_deliver sink c =
     (let w = ps_workspace c; r = ps_result c
      in if rs_frames_delivered r \<ge> max_frames w then budget_stop c
         else let frame = take (buffered_size w) (buffer w);
                  (action, user) = sink (ps_user c) frame;
                  c = c\<lparr>ps_user := user, ps_frames := ps_frames c @ [frame],
                        ps_result := r\<lparr>rs_frames_delivered := rs_frames_delivered r + 1\<rparr>,
                        ps_workspace := ResetCandidate w\<rparr>
              in if action = SINK_STOP then
                   Return (c\<lparr>ps_result := (ps_result c)\<lparr>rs_stop_reason := SR_SINK_STOP\<rparr>\<rparr>)
                 else Next c)"

definition step_ascii :: "u8 list \<Rightarrow> 'u push \<Rightarrow> 'u push Iter" where
  "step_ascii input c =
     (if ps_input_index c = length input then Break c
      else case charge 2 c of
        None \<Rightarrow> budget_stop c
      | Some c \<Rightarrow>
          if buffered_size (ps_workspace c) \<ge> length (buffer (ps_workspace c)) then internal_error c
          else let byte = input ! ps_input_index c;
                   c = consume (upd_workspace (store_byte byte) c);
                   w = ps_workspace c;
                   terminated = (buffered_size w \<ge> 2 \<and> buffer w ! (buffered_size w - 2) = 0x0D \<and>
                                 byte = 0x0A)
               in if terminated then Next (upd_workspace (\<lambda>w. w\<lparr>state := DELIVER_PENDING\<rparr>) c)
                  else if buffered_size w = length (buffer w) then
                    let c = record_malformed FI_RECORD_TOO_LONG c;
                        c = upd_workspace (\<lambda>w. w\<lparr>previous_was_cr := (byte = 0x0D)\<rparr>) c;
                        c = record_discard (buffered_size w) c
                    in Next (upd_workspace (\<lambda>w. w\<lparr>buffered_size := 0, state := DISCARD_UNTIL_CRLF\<rparr>) c)
                  else Next c)"

definition step_discard :: "u8 list \<Rightarrow> 'u push \<Rightarrow> 'u push Iter" where
  "step_discard input c =
     (if ps_input_index c = length input then Break c
      else case charge 2 c of
        None \<Rightarrow> budget_stop c
      | Some c \<Rightarrow>
          let byte = input ! ps_input_index c;
              c = record_discard 1 (consume c);
              terminated = (previous_was_cr (ps_workspace c) \<and> byte = 0x0A);
              c = upd_workspace (\<lambda>w. w\<lparr>previous_was_cr := (byte = 0x0D)\<rparr>) c
          in Next (if terminated then
                     upd_workspace (\<lambda>w. w\<lparr>previous_was_cr := False, state := COLLECT_ASCII\<rparr>) c
                   else c))"

function Copy_loop :: "'u push \<Rightarrow> 'u push Iter" where
  "Copy_loop c =
     (let w = ps_workspace c
      in if copy_sync_index w < length (fp_sync_bytes (framing w)) then
           case charge 1 c of
             None \<Rightarrow> budget_stop c
           | Some c \<Rightarrow>
               if buffered_size w \<ge> length (buffer w) then internal_error c
               else Copy_loop (c\<lparr>ps_workspace :=
                      (store_byte (fp_sync_bytes (framing w) ! copy_sync_index w) w)
                        \<lparr>copy_sync_index := copy_sync_index w + 1\<rparr>\<rparr>)
         else Next c)"
  by pat_completeness auto
termination
  by (relation "measure (\<lambda>c. length (fp_sync_bytes (framing (ps_workspace c)))
                              - copy_sync_index (ps_workspace c))")
    (auto simp: store_byte_def)

definition step_copy :: "'u push \<Rightarrow> 'u push Iter" where
  "step_copy c =
     (case Copy_loop c of
        Next c \<Rightarrow>
          let c = upd_workspace (\<lambda>w. w\<lparr>copy_sync_index := 0\<rparr>) c; w = ps_workspace c
          in if fp_strategy (framing w) = FS_SYNC_FIXED_LENGTH then
               let w = w\<lparr>target_size := fp_frame_length_bytes (framing w)\<rparr>
               in Next (c\<lparr>ps_workspace := w\<lparr>state := (if buffered_size w = target_size w
                                                      then DELIVER_PENDING else COLLECT_DECLARED)\<rparr>\<rparr>)
             else Next (upd_workspace (\<lambda>w. w\<lparr>state := READ_LENGTH\<rparr>) c)
      | other \<Rightarrow> other)"

function Rescan_loop :: "'u push \<Rightarrow> 'u push Iter" where
  "Rescan_loop c =
     (let w = ps_workspace c; sync = fp_sync_bytes (framing w)
      in if rescan_index w < buffered_size w then
           let byte = buffer w ! rescan_index w
           in case Fallback_units sync (fp_sync_prefix_table (framing w)) byte (rescan_match w) 1 of
                None \<Rightarrow> Hang
              | Some (next_match, units) \<Rightarrow>
                  (case charge (units + 1) c of
                     None \<Rightarrow> budget_stop c
                   | Some c \<Rightarrow>
                       let w = w\<lparr>rescan_match := Advance sync byte next_match,
                                 rescan_index := rescan_index w + 1\<rparr>
                       in if rescan_match w = length sync then
                            let start = rescan_index w - length sync
                            in Next (c\<lparr>ps_workspace :=
                                 w\<lparr>compact_start := start, compact_size := buffered_size w - start,
                                   compact_moved := 0, state := COMPACT_INVALID\<rparr>\<rparr>)
                          else Rescan_loop (c\<lparr>ps_workspace := w\<rparr>))
         else Next c)"
  by pat_completeness auto
termination
  by (relation "measure (\<lambda>c. buffered_size (ps_workspace c) - rescan_index (ps_workspace c))")
    auto

definition step_rescan :: "'u push \<Rightarrow> 'u push Iter" where
  "step_rescan c =
     (case Rescan_loop c of
        Next c \<Rightarrow>
          if state (ps_workspace c) = COMPACT_INVALID then Next c
          else let w = ps_workspace c; retained = rescan_match w
               in Next (upd_workspace (\<lambda>w. w\<lparr>buffered_size := 0, sync_match := retained,
                           rescan_index := 0, rescan_match := 0, state := SEARCH_SYNC\<rparr>)
                         (record_discard (buffered_size w - retained) c))
      | other \<Rightarrow> other)"

definition memmove :: "u8 list \<Rightarrow> nat \<Rightarrow> nat \<Rightarrow> nat \<Rightarrow> u8 list" where
  "memmove bytes target source count =
     take target bytes @ take count (drop source bytes) @ drop (target + count) bytes"

definition finish_compact :: "'u push \<Rightarrow> 'u push Iter" where
  "finish_compact c =
     (let c = record_discard (compact_start (ps_workspace c)) c
      in Next (upd_workspace (\<lambda>w. w\<lparr>buffered_size := compact_size w, compact_start := 0,
                 compact_size := 0, compact_moved := 0, rescan_index := 0, rescan_match := 0,
                 state := READ_LENGTH\<rparr>) c))"

definition step_compact :: "'u push \<Rightarrow> 'u push Iter" where
  "step_compact c =
     (let w = ps_workspace c;
          remaining = compact_size w - compact_moved w;
          available = max_work w - rs_work_units_used (ps_result c)
      in if remaining \<noteq> 0 then
           let chunk = min remaining available
           in if chunk = 0 then budget_stop c
              else case charge chunk c of
                None \<Rightarrow> budget_stop c
              | Some c \<Rightarrow>
                  let w = w\<lparr>buffer := memmove (buffer w) (compact_moved w)
                                      (compact_start w + compact_moved w) chunk,
                            compact_moved := compact_moved w + chunk\<rparr>;
                      c = c\<lparr>ps_workspace := w\<rparr>
                  in if compact_moved w \<noteq> compact_size w then budget_stop c else finish_compact c
         else finish_compact c)"

fun Read_declared :: "FramingPlan \<Rightarrow> u8 list \<Rightarrow> nat list \<Rightarrow> u64 \<Rightarrow> u64" where
  "Read_declared f bytes [] declared = declared"
| "Read_declared f bytes (index # indices) declared =
     (let encoded_index = (if fp_length_field_byte_order f = BO_LITTLE
                           then fp_length_field_width f - 1 - index else index)
      in Read_declared f bytes indices
           (push_bit 8 declared OR ucast (bytes ! (fp_length_field_offset f + encoded_index))))"

definition accept_length :: "u64 \<Rightarrow> 'u push \<Rightarrow> 'u push" where
  "accept_length declared c =
     (let w = ps_workspace c; f = framing w
      in if unat declared < fp_minimum_frame_length f \<or> unat declared > fp_maximum_frame_length f \<or>
            unat declared > length (buffer w) then
           upd_workspace (\<lambda>w. w\<lparr>rescan_index := 1, rescan_match := 0, state := RESCAN_INVALID\<rparr>)
             (record_malformed FI_MALFORMED_LENGTH c)
         else upd_workspace (\<lambda>w. w\<lparr>target_size := unat declared,
                state := (if buffered_size w = unat declared then DELIVER_PENDING
                          else COLLECT_DECLARED)\<rparr>) c)"

definition step_read_length :: "u8 list \<Rightarrow> 'u push \<Rightarrow> 'u push Iter" where
  "step_read_length input c =
     (let w = ps_workspace c; f = framing w;
          header_end = size_add (fp_length_field_offset f) (fp_length_field_width f)
      in if buffered_size w < header_end then
           if ps_input_index c = length input then Break c
           else case charge 2 c of
             None \<Rightarrow> budget_stop c
           | Some c \<Rightarrow>
               if buffered_size w \<ge> length (buffer w) then internal_error c
               else Next (consume (upd_workspace (store_byte (input ! ps_input_index c)) c))
         else case charge (fp_length_field_width f) c of
             None \<Rightarrow> budget_stop c
           | Some c \<Rightarrow>
               Next (accept_length (Read_declared f (buffer w) [0..<fp_length_field_width f] 0) c))"

definition step_collect :: "u8 list \<Rightarrow> 'u push \<Rightarrow> 'u push Iter" where
  "step_collect input c =
     (let w = ps_workspace c
      in if buffered_size w = target_size w then
           Next (upd_workspace (\<lambda>w. w\<lparr>state := DELIVER_PENDING\<rparr>) c)
         else if ps_input_index c = length input then Break c
         else case charge 2 c of
             None \<Rightarrow> budget_stop c
           | Some c \<Rightarrow>
               if buffered_size w \<ge> length (buffer w) then internal_error c
               else Next (consume (upd_workspace (store_byte (input ! ps_input_index c)) c)))"

definition step_search :: "u8 list \<Rightarrow> 'u push \<Rightarrow> 'u push Iter" where
  "step_search input c =
     (if ps_input_index c = length input then Break c
      else let w = ps_workspace c; sync = fp_sync_bytes (framing w);
               byte = input ! ps_input_index c; old_match = sync_match w
           in case Fallback_units sync (fp_sync_prefix_table (framing w)) byte old_match 1 of
                None \<Rightarrow> Hang
              | Some (next_match, units) \<Rightarrow>
                  let next_match = Advance sync byte next_match
                  in case charge (units + 1) c of
                       None \<Rightarrow> budget_stop c
                     | Some c \<Rightarrow>
                         let c = consume (upd_workspace (\<lambda>w. w\<lparr>sync_match := next_match\<rparr>) c)
                         in if next_match = length sync then
                              Next (upd_workspace (\<lambda>w. w\<lparr>sync_match := 0, buffered_size := 0,
                                      copy_sync_index := 0, state := COPY_SYNC\<rparr>) c)
                            else Next (record_discard (old_match + 1 - next_match) c))"

definition Push_step :: "'u sink \<Rightarrow> u8 list \<Rightarrow> 'u push \<Rightarrow> 'u push Iter" where
  "Push_step sink input c =
     (case state (ps_workspace c) of
        DELIVER_PENDING \<Rightarrow> step_deliver sink c
      | COLLECT_ASCII \<Rightarrow> step_ascii input c
      | DISCARD_UNTIL_CRLF \<Rightarrow> step_discard input c
      | COPY_SYNC \<Rightarrow> step_copy c
      | RESCAN_INVALID \<Rightarrow> step_rescan c
      | COMPACT_INVALID \<Rightarrow> step_compact c
      | READ_LENGTH \<Rightarrow> step_read_length input c
      | COLLECT_FIXED \<Rightarrow> step_collect input c
      | COLLECT_DECLARED \<Rightarrow> step_collect input c
      | SEARCH_SYNC \<Rightarrow> step_search input c)"

subsection \<open>Every turn makes progress\<close>

text \<open>A turn that goes on delivers a frame, or uses work units, or moves to a state of lower rank; so
  the loop ends for every workspace, whatever its contents.\<close>

declare Copy_loop.simps [simp del] Rescan_loop.simps [simp del]

lemma charge_Some: "charge a c = Some c' \<longleftrightarrow>
    a \<le> max_work (ps_workspace c) - rs_work_units_used (ps_result c) \<and>
    c' = c\<lparr>ps_result := (ps_result c)\<lparr>rs_work_units_used := rs_work_units_used (ps_result c) + a\<rparr>\<rparr>"
  by (auto simp: charge_def)

lemma charge_None: "charge a c = None \<longleftrightarrow>
    max_work (ps_workspace c) - rs_work_units_used (ps_result c) < a"
  by (auto simp: charge_def)

lemmas framer_ops [framer_simps] =
  budget_stop_def internal_error_def record_discard_def record_malformed_def consume_def
  store_byte_def upd_workspace_def Let_def

fun rank :: "State \<Rightarrow> nat" where
  "rank COPY_SYNC = 5"
| "rank COMPACT_INVALID = 4"
| "rank READ_LENGTH = 3"
| "rank RESCAN_INVALID = 2"
| "rank COLLECT_FIXED = 2"
| "rank COLLECT_DECLARED = 2"
| "rank DELIVER_PENDING = 1"
| "rank SEARCH_SYNC = 0"
| "rank COLLECT_ASCII = 0"
| "rank DISCARD_UNTIL_CRLF = 0"

definition push_order :: "('u push \<times> 'u push) set" where
  "push_order = measures
     [\<lambda>c. max_frames (ps_workspace c) - rs_frames_delivered (ps_result c),
      \<lambda>c. max_work (ps_workspace c) - rs_work_units_used (ps_result c),
      \<lambda>c. rank (state (ps_workspace c))]"

text \<open>What a turn keeps of the bindings and the limits, and how it moves the counters.\<close>

definition limits :: "StreamFramingWorkspace \<Rightarrow> nat \<times> nat \<times> nat \<times> FramingPlan \<times> nat \<times> nat \<times> nat \<times> bool" where
  "limits w = (max_frames w, max_work w, max_submit w, framing w, sw_plan w, sw_pipeline_index w,
               sw_address w, in_use w)"

lemma limits_upd [simp]:
  "limits (w\<lparr>buffer := b\<rparr>) = limits w" "limits (w\<lparr>buffered_size := n\<rparr>) = limits w"
  "limits (w\<lparr>target_size := n\<rparr>) = limits w" "limits (w\<lparr>sync_match := n\<rparr>) = limits w"
  "limits (w\<lparr>copy_sync_index := n\<rparr>) = limits w" "limits (w\<lparr>rescan_index := n\<rparr>) = limits w"
  "limits (w\<lparr>rescan_match := n\<rparr>) = limits w" "limits (w\<lparr>compact_start := n\<rparr>) = limits w"
  "limits (w\<lparr>compact_size := n\<rparr>) = limits w" "limits (w\<lparr>compact_moved := n\<rparr>) = limits w"
  "limits (w\<lparr>total_discarded_bytes := n\<rparr>) = limits w"
  "limits (w\<lparr>total_malformed_candidates := n\<rparr>) = limits w"
  "limits (w\<lparr>previous_was_cr := q\<rparr>) = limits w" "limits (w\<lparr>state := st\<rparr>) = limits w"
  by (simp_all add: limits_def)

lemma limits_eqD:
  assumes "limits v = limits w"
  shows "max_frames v = max_frames w" "max_work v = max_work w" "max_submit v = max_submit w"
    "framing v = framing w" "sw_plan v = sw_plan w" "sw_pipeline_index v = sw_pipeline_index w"
    "sw_address v = sw_address w" "in_use v = in_use w"
  using assms by (simp_all add: limits_def)

definition same_limits :: "'u push \<Rightarrow> 'u push \<Rightarrow> bool" where
  "same_limits c c' \<longleftrightarrow> limits (ps_workspace c') = limits (ps_workspace c)"

definition spends :: "'u push \<Rightarrow> 'u push \<Rightarrow> nat \<Rightarrow> bool" where
  "spends c c' n \<longleftrightarrow>
     same_limits c c' \<and> rs_frames_delivered (ps_result c') = rs_frames_delivered (ps_result c) \<and>
     rs_work_units_used (ps_result c') = rs_work_units_used (ps_result c) + n \<and>
     n \<le> max_work (ps_workspace c) - rs_work_units_used (ps_result c)"

lemma spends_refl [simp]: "spends c c 0"
  by (simp add: spends_def same_limits_def)

lemma spends_trans: "spends c d m \<Longrightarrow> spends d e n \<Longrightarrow> spends c e (m + n)"
  by (auto simp: spends_def same_limits_def dest: limits_eqD)

lemma spends_order:
  "spends c c' n \<Longrightarrow> 0 < n \<or> rank (state (ps_workspace c')) < rank (state (ps_workspace c)) \<Longrightarrow>
     (c', c) \<in> push_order"
proof -
  assume "spends c c' n"
  then have "limits (ps_workspace c') = limits (ps_workspace c)"
    and f: "rs_frames_delivered (ps_result c') = rs_frames_delivered (ps_result c)"
      "rs_work_units_used (ps_result c') = rs_work_units_used (ps_result c) + n"
      "n \<le> max_work (ps_workspace c) - rs_work_units_used (ps_result c)"
    by (simp_all add: spends_def same_limits_def)
  note l = limits_eqD(1,2) [OF this(1)]
  assume "0 < n \<or> rank (state (ps_workspace c')) < rank (state (ps_workspace c))"
  then show ?thesis using f(3) by (auto simp: push_order_def l f(1,2))
qed

fun result_of :: "'c Iter \<Rightarrow> 'c option" where
  "result_of (Next c) = Some c"
| "result_of (Break c) = Some c"
| "result_of (Return c) = Some c"
| "result_of Hang = None"

lemma Copy_loop_spends:
  "result_of (Copy_loop c) = Some c' \<Longrightarrow> \<exists>n. spends c c' n \<and> state (ps_workspace c') = state (ps_workspace c)"
proof (induction c rule: Copy_loop.induct)
  case (1 c)
  let ?w = "ps_workspace c"
  show ?case
  proof (cases "copy_sync_index ?w < length (fp_sync_bytes (framing ?w))")
    case False
    then have "c' = c" using 1(2) by (subst (asm) Copy_loop.simps) (simp add: Let_def)
    then show ?thesis by (intro exI [of _ 0]) simp
  next
    case True
    show ?thesis
    proof (cases "charge 1 c")
      case None
      then show ?thesis using 1(2) True
        by (subst (asm) Copy_loop.simps)
          (auto simp: Let_def budget_stop_def spends_def same_limits_def intro!: exI [of _ 0])
    next
      case (Some d)
      note d = Some [unfolded charge_Some]
      show ?thesis
      proof (cases "length (buffer ?w) \<le> buffered_size ?w")
        case full: True
        then show ?thesis using 1(2) True Some d
          by (subst (asm) Copy_loop.simps)
            (auto simp: Let_def internal_error_def spends_def same_limits_def intro!: exI [of _ 1])
      next
        case False
        let ?e = "d\<lparr>ps_workspace := (store_byte (fp_sync_bytes (framing ?w) ! copy_sync_index ?w) ?w)
            \<lparr>copy_sync_index := copy_sync_index ?w + 1\<rparr>\<rparr>"
        have "result_of (Copy_loop ?e) = Some c'"
          using 1(2) True Some False by (subst (asm) Copy_loop.simps) (simp add: Let_def)
        from "1.IH" [OF refl True Some False this] obtain n
          where "spends ?e c' n" "state (ps_workspace c') = state (ps_workspace ?e)" by blast
        moreover have "spends c ?e 1" using d
          by (auto simp: spends_def same_limits_def store_byte_def)
        ultimately show ?thesis using spends_trans by (fastforce simp: store_byte_def)
      qed
    qed
  qed
qed

lemma Rescan_loop_spends:
  "result_of (Rescan_loop c) = Some c' \<Longrightarrow>
     \<exists>n. spends c c' n \<and> (state (ps_workspace c') = state (ps_workspace c) \<or>
         state (ps_workspace c') = COMPACT_INVALID \<and> 0 < n)"
proof (induction c rule: Rescan_loop.induct)
  case (1 c)
  let ?w = "ps_workspace c" and ?sync = "fp_sync_bytes (framing (ps_workspace c))"
  let ?byte = "buffer ?w ! rescan_index ?w"
  show ?case
  proof (cases "rescan_index ?w < buffered_size ?w")
    case False
    then have "c' = c" using 1(2) by (subst (asm) Rescan_loop.simps) (simp add: Let_def)
    then show ?thesis by (intro exI [of _ 0]) simp
  next
    case True
    show ?thesis
    proof (cases "Fallback_units ?sync (fp_sync_prefix_table (framing ?w)) ?byte (rescan_match ?w) 1")
      case None
      then show ?thesis using 1(2) True by (subst (asm) Rescan_loop.simps) (simp add: Let_def)
    next
      case (Some p)
      then obtain k u where f: "Fallback_units ?sync (fp_sync_prefix_table (framing ?w)) ?byte
          (rescan_match ?w) 1 = Some (k, u)" by (cases p) auto
      show ?thesis
      proof (cases "charge (u + 1) c")
        case None
        then show ?thesis using 1(2) True f
          by (subst (asm) Rescan_loop.simps)
            (auto simp: Let_def budget_stop_def spends_def same_limits_def intro!: exI [of _ 0])
      next
        case (Some d)
        note d = Some [unfolded charge_Some]
        let ?x = "?w\<lparr>rescan_match := Advance ?sync ?byte k, rescan_index := rescan_index ?w + 1\<rparr>"
        show ?thesis
        proof (cases "Advance ?sync ?byte k = length ?sync")
          case m: True
          then show ?thesis using 1(2) True f Some d
            by (subst (asm) Rescan_loop.simps)
              (auto simp: Let_def spends_def same_limits_def intro!: exI [of _ "u + 1"])
        next
          case False
          let ?e = "d\<lparr>ps_workspace := ?x\<rparr>"
          have r: "result_of (Rescan_loop ?e) = Some c'"
            using 1(2) True f Some False by (subst (asm) Rescan_loop.simps) (simp add: Let_def)
          have "\<exists>n. spends ?e c' n \<and> (state (ps_workspace c') = state (ps_workspace ?e) \<or>
              state (ps_workspace c') = COMPACT_INVALID \<and> 0 < n)"
            by (rule "1.IH" [OF refl refl True refl f refl Some refl _ r]) (use False in simp)
          moreover have "spends c ?e (u + 1)" using d by (auto simp: spends_def same_limits_def)
          ultimately show ?thesis using spends_trans by fastforce
        qed
      qed
    qed
  qed
qed

lemma spendsI:
  assumes "same_limits c c'" "rs_frames_delivered (ps_result c') = rs_frames_delivered (ps_result c)"
    "rs_work_units_used (ps_result c') = rs_work_units_used (ps_result c) + n"
    "n \<le> max_work (ps_workspace c) - rs_work_units_used (ps_result c)"
  shows "spends c c' n"
  using assms by (simp add: spends_def)

lemma step_ascii_spends:
  assumes "state (ps_workspace c) = COLLECT_ASCII" "result_of (step_ascii input c) = Some c'"
  shows "\<exists>n. spends c c' n \<and> (step_ascii input c = Next c' \<longrightarrow> 0 < n)"
proof (cases "ps_input_index c = length input")
  case False
  show ?thesis
  proof (cases "charge 2 c")
    case (Some d)
    note d = Some [unfolded charge_Some]
    from False assms(2) Some d show ?thesis
      by (intro exI [of _ 2])
        (auto simp: step_ascii_def framer_ops spends_def same_limits_def split: if_splits)
  qed (use False assms(2) in \<open>auto simp: step_ascii_def framer_ops spends_def same_limits_def intro!: exI [of _ 0]\<close>)
qed (use assms(2) in \<open>auto simp: step_ascii_def intro!: exI [of _ 0]\<close>)

lemma step_discard_spends:
  assumes "result_of (step_discard input c) = Some c'"
  shows "\<exists>n. spends c c' n \<and> (step_discard input c = Next c' \<longrightarrow> 0 < n)"
proof (cases "ps_input_index c = length input")
  case False
  show ?thesis
  proof (cases "charge 2 c")
    case (Some d)
    note d = Some [unfolded charge_Some]
    from False assms Some d show ?thesis
      by (intro exI [of _ 2])
        (auto simp: step_discard_def framer_ops spends_def same_limits_def split: if_splits)
  qed (use False assms in \<open>auto simp: step_discard_def framer_ops spends_def same_limits_def intro!: exI [of _ 0]\<close>)
qed (use assms in \<open>auto simp: step_discard_def intro!: exI [of _ 0]\<close>)

lemma step_copy_spends:
  assumes "state (ps_workspace c) = COPY_SYNC" "result_of (step_copy c) = Some c'"
  shows "\<exists>n. spends c c' n \<and> (step_copy c = Next c' \<longrightarrow> rank (state (ps_workspace c')) < 5)"
proof (cases "Copy_loop c")
  case (Next d)
  then obtain n where "spends c d n" using Copy_loop_spends [of c d] by auto
  then show ?thesis using assms Next
    by (intro exI [of _ n]) (auto simp: step_copy_def framer_ops spends_def same_limits_def)
qed (use assms Copy_loop_spends [of c] in \<open>auto simp: step_copy_def\<close>)

lemma step_rescan_spends:
  assumes "state (ps_workspace c) = RESCAN_INVALID" "result_of (step_rescan c) = Some c'"
  shows "\<exists>n. spends c c' n \<and> (step_rescan c = Next c' \<longrightarrow> 0 < n \<or> rank (state (ps_workspace c')) < 2)"
proof (cases "Rescan_loop c")
  case (Next d)
  then obtain n where n: "spends c d n" "state (ps_workspace d) = RESCAN_INVALID \<or>
      state (ps_workspace d) = COMPACT_INVALID \<and> 0 < n"
    using Rescan_loop_spends [of c d] assms(1) by auto
  show ?thesis
  proof (cases "state (ps_workspace d) = COMPACT_INVALID")
    case True
    then show ?thesis using assms Next n by (auto simp: step_rescan_def intro!: exI [of _ n])
  next
    case False
    then show ?thesis using assms Next n
      by (intro exI [of _ n]) (auto simp: step_rescan_def framer_ops spends_def same_limits_def)
  qed
qed (use assms Rescan_loop_spends [of c] in \<open>auto simp: step_rescan_def\<close>)

lemma step_compact_spends:
  assumes "state (ps_workspace c) = COMPACT_INVALID" "result_of (step_compact c) = Some c'"
  shows "\<exists>n. spends c c' n \<and> (step_compact c = Next c' \<longrightarrow> rank (state (ps_workspace c')) < 4)"
proof -
  let ?w = "ps_workspace c"
  let ?rem = "compact_size ?w - compact_moved ?w"
    and ?chunk = "min (compact_size ?w - compact_moved ?w) (max_work ?w - rs_work_units_used (ps_result c))"
  show ?thesis
  proof (cases "?rem = 0 \<or> ?chunk = 0")
    case True
    with assms show ?thesis
      by (intro exI [of _ 0])
        (auto simp: step_compact_def finish_compact_def framer_ops spends_def same_limits_def split: if_splits)
  next
    case False
    have le: "?chunk \<le> max_work ?w - rs_work_units_used (ps_result c)" by simp
    then obtain d where Some: "charge ?chunk c = Some d" by (auto simp: charge_Some)
    note d = Some [unfolded charge_Some]
    let ?w' = "?w\<lparr>buffer := memmove (buffer ?w) (compact_moved ?w) (compact_start ?w + compact_moved ?w) ?chunk,
        compact_moved := compact_moved ?w + ?chunk\<rparr>"
    let ?d = "d\<lparr>ps_workspace := ?w'\<rparr>"
    have step: "step_compact c = (if compact_moved ?w' \<noteq> compact_size ?w' then budget_stop ?d else finish_compact ?d)"
    proof -
      have nz: "?rem \<noteq> 0" "?chunk \<noteq> 0" using False by simp_all
      show ?thesis
        by (simp only: step_compact_def Let_def nz Some option.case if_True if_False not_False_eq_True)
    qed
    have "spends c ?d ?chunk" using le by (simp add: d spends_def same_limits_def)
    moreover have "spends ?d c' 0"
      using assms(2) unfolding step
      by (auto simp: finish_compact_def framer_ops spends_def same_limits_def split: if_splits)
    ultimately have "spends c c' ?chunk" using spends_trans by fastforce
    moreover have "step_compact c = Next c' \<longrightarrow> rank (state (ps_workspace c')) < 4"
      unfolding step by (auto simp: finish_compact_def framer_ops)
    ultimately show ?thesis by blast
  qed
qed

lemma step_read_length_spends:
  assumes "state (ps_workspace c) = READ_LENGTH" "result_of (step_read_length input c) = Some c'"
  shows "\<exists>n. spends c c' n \<and> (step_read_length input c = Next c' \<longrightarrow>
    0 < n \<or> rank (state (ps_workspace c')) < 3)"
proof -
  let ?w = "ps_workspace c" and ?f = "framing (ps_workspace c)"
  let ?h = "size_add (fp_length_field_offset ?f) (fp_length_field_width ?f)"
  show ?thesis
  proof (cases "buffered_size ?w < ?h")
    case short: True
    show ?thesis
    proof (cases "ps_input_index c = length input \<or> charge 2 c = None")
      case True
      with short assms(2) show ?thesis
        by (intro exI [of _ 0]) (auto simp: step_read_length_def framer_ops spends_def same_limits_def)
    next
      case False
      then obtain d where Some: "charge 2 c = Some d" by auto
      note d = Some [unfolded charge_Some]
      from short False assms(2) Some d show ?thesis
        by (intro exI [of _ 2])
          (auto simp: step_read_length_def framer_ops spends_def same_limits_def split: if_splits)
    qed
  next
    case long: False
    show ?thesis
    proof (cases "charge (fp_length_field_width ?f) c")
      case None
      with long assms(2) show ?thesis
        by (intro exI [of _ 0]) (auto simp: step_read_length_def framer_ops spends_def same_limits_def)
    next
      case (Some d)
      note d = Some [unfolded charge_Some]
      let ?decl = "Read_declared ?f (buffer ?w) [0..<fp_length_field_width ?f] 0"
      have c': "c' = accept_length ?decl d" and st: "step_read_length input c = Next c'"
        using long assms(2) Some by (simp_all add: step_read_length_def Let_def)
      have "spends c d (fp_length_field_width ?f)" using d by (auto simp: spends_def same_limits_def)
      moreover have "spends d c' 0" by (auto simp: c' accept_length_def framer_ops spends_def same_limits_def)
      ultimately have "spends c c' (fp_length_field_width ?f)" using spends_trans by fastforce
      moreover have "rank (state (ps_workspace c')) < 3" by (simp add: c' accept_length_def framer_ops)
      ultimately show ?thesis by blast
    qed
  qed
qed

lemma step_collect_spends:
  assumes "rank (state (ps_workspace c)) = 2" "result_of (step_collect input c) = Some c'"
  shows "\<exists>n. spends c c' n \<and> (step_collect input c = Next c' \<longrightarrow>
    0 < n \<or> rank (state (ps_workspace c')) < 2)"
proof (cases "buffered_size (ps_workspace c) = target_size (ps_workspace c) \<or>
    ps_input_index c = length input \<or> charge 2 c = None")
  case True
  with assms(2) show ?thesis
    by (intro exI [of _ 0])
      (auto simp: step_collect_def framer_ops spends_def same_limits_def split: if_splits)
next
  case False
  then obtain d where Some: "charge 2 c = Some d" by auto
  note d = Some [unfolded charge_Some]
  from False assms(2) Some d show ?thesis
    by (intro exI [of _ 2])
      (auto simp: step_collect_def framer_ops spends_def same_limits_def split: if_splits)
qed

lemma step_search_spends:
  assumes "result_of (step_search input c) = Some c'"
  shows "\<exists>n. spends c c' n \<and> (step_search input c = Next c' \<longrightarrow> 0 < n)"
proof (cases "ps_input_index c = length input")
  case False
  let ?w = "ps_workspace c" and ?sync = "fp_sync_bytes (framing (ps_workspace c))"
  let ?byte = "input ! ps_input_index c"
  show ?thesis
  proof (cases "Fallback_units ?sync (fp_sync_prefix_table (framing ?w)) ?byte (sync_match ?w) 1")
    case None
    then show ?thesis using assms False by (simp add: step_search_def Let_def)
  next
    case (Some p)
    then obtain k u where f: "Fallback_units ?sync (fp_sync_prefix_table (framing ?w)) ?byte
        (sync_match ?w) 1 = Some (k, u)" by (cases p) auto
    show ?thesis
    proof (cases "charge (u + 1) c")
      case None
      then show ?thesis using assms False f
        by (auto simp: step_search_def framer_ops spends_def same_limits_def intro!: exI [of _ 0])
    next
      case (Some d)
      note d = Some [unfolded charge_Some]
      from assms False f Some d show ?thesis
        by (intro exI [of _ "u + 1"])
          (auto simp: step_search_def framer_ops spends_def same_limits_def split: if_splits)
    qed
  qed
qed (use assms in \<open>auto simp: step_search_def intro!: exI [of _ 0]\<close>)

text \<open>A turn in any state: either it hands a frame to the sink, or it only spends work.\<close>

lemma Push_step_cases:
  assumes "result_of (Push_step sink input c) = Some c'"
  shows "state (ps_workspace c) = DELIVER_PENDING \<and> same_limits c c' \<and>
           rs_work_units_used (ps_result c') = rs_work_units_used (ps_result c) \<and>
           (rs_frames_delivered (ps_result c) < max_frames (ps_workspace c) \<and>
              rs_frames_delivered (ps_result c') = rs_frames_delivered (ps_result c) + 1 \<or>
            rs_frames_delivered (ps_result c') = rs_frames_delivered (ps_result c) \<and>
              Push_step sink input c = Return c') \<or>
         (\<exists>n. spends c c' n \<and> (Push_step sink input c = Next c' \<longrightarrow>
            0 < n \<or> rank (state (ps_workspace c')) < rank (state (ps_workspace c))))"
proof (cases "state (ps_workspace c)")
  case DELIVER_PENDING
  then show ?thesis using assms
    by (auto simp: Push_step_def step_deliver_def budget_stop_def same_limits_def ResetCandidate_def
        Let_def split: prod.splits if_splits)
next
  case COLLECT_ASCII
  then have "Push_step sink input c = step_ascii input c" by (simp add: Push_step_def)
  with step_ascii_spends [of c input c'] assms COLLECT_ASCII show ?thesis by auto
next
  case DISCARD_UNTIL_CRLF
  then have "Push_step sink input c = step_discard input c" by (simp add: Push_step_def)
  with step_discard_spends [of input c c'] assms DISCARD_UNTIL_CRLF show ?thesis by auto
next
  case COPY_SYNC
  then have "Push_step sink input c = step_copy c" by (simp add: Push_step_def)
  with step_copy_spends [of c c'] assms COPY_SYNC show ?thesis by auto
next
  case RESCAN_INVALID
  then have "Push_step sink input c = step_rescan c" by (simp add: Push_step_def)
  with step_rescan_spends [of c c'] assms RESCAN_INVALID show ?thesis by auto
next
  case COMPACT_INVALID
  then have "Push_step sink input c = step_compact c" by (simp add: Push_step_def)
  with step_compact_spends [of c c'] assms COMPACT_INVALID show ?thesis by auto
next
  case READ_LENGTH
  then have "Push_step sink input c = step_read_length input c" by (simp add: Push_step_def)
  with step_read_length_spends [of c input c'] assms READ_LENGTH show ?thesis by auto
next
  case COLLECT_FIXED
  then have "Push_step sink input c = step_collect input c" by (simp add: Push_step_def)
  with step_collect_spends [of c input c'] assms COLLECT_FIXED show ?thesis by auto
next
  case COLLECT_DECLARED
  then have "Push_step sink input c = step_collect input c" by (simp add: Push_step_def)
  with step_collect_spends [of c input c'] assms COLLECT_DECLARED show ?thesis by auto
next
  case SEARCH_SYNC
  then have "Push_step sink input c = step_search input c" by (simp add: Push_step_def)
  with step_search_spends [of input c c'] assms SEARCH_SYNC show ?thesis by auto
qed

lemma Push_step_order:
  assumes "Push_step sink input c = Next c'"
  shows "(c', c) \<in> push_order"
proof -
  have "result_of (Push_step sink input c) = Some c'" by (simp add: assms)
  then consider (deliver) "same_limits c c'"
      "rs_frames_delivered (ps_result c) < max_frames (ps_workspace c)"
      "rs_frames_delivered (ps_result c') = rs_frames_delivered (ps_result c) + 1"
    | (work) n where "spends c c' n"
      "0 < n \<or> rank (state (ps_workspace c')) < rank (state (ps_workspace c))"
    using Push_step_cases [of sink input c c'] assms by auto
  then show ?thesis
  proof cases
    case deliver
    then have "max_frames (ps_workspace c') - rs_frames_delivered (ps_result c')
        < max_frames (ps_workspace c) - rs_frames_delivered (ps_result c)"
      using limits_eqD(1) [of "ps_workspace c'" "ps_workspace c"] by (simp add: same_limits_def)
    then show ?thesis by (simp add: push_order_def)
  next
    case work
    then show ?thesis by (rule spends_order)
  qed
qed

lemma wf_push_order: "wf push_order"
  by (simp add: push_order_def)

function Push_loop :: "'u sink \<Rightarrow> u8 list \<Rightarrow> 'u push \<Rightarrow> 'u push Iter" where
  "Push_loop sink input c =
     (case Push_step sink input c of Next c \<Rightarrow> Push_loop sink input c | other \<Rightarrow> other)"
  by pat_completeness auto
termination
proof (relation "inv_image push_order (\<lambda>(sink, input, c). c)")
  show "wf (inv_image push_order (\<lambda>(sink, input, c). c))" by (rule wf_inv_image [OF wf_push_order])
qed (simp add: Push_step_order)

declare Push_loop.simps [simp del]

section \<open>The entry points\<close>

text \<open>\<open>PushStreamChunk\<close> returns the workspace, the result, the user data and the frames it handed to
  the sink; \<open>None\<close> stands for a call that does not return.\<close>

definition after_loop :: "'u push \<Rightarrow> 'u push" where
  "after_loop c =
     c\<lparr>ps_result := (ps_result c)\<lparr>rs_stop_reason :=
         (if HasInternalWork (ps_workspace c) then SR_WORK_BUDGET_REACHED
          else if HasHalfFrame (ps_workspace c) then SR_NEED_MORE else SR_INPUT_EXHAUSTED)\<rparr>\<rparr>"

definition start_push :: "StreamFramingWorkspace \<Rightarrow> 'u \<Rightarrow> 'u push" where
  "start_push w user =
     \<lparr>ps_workspace = w\<lparr>in_use := True\<rparr>, ps_result = initial_result, ps_input_index = 0,
      ps_user = user, ps_frames = []\<rparr>"

definition release :: "'u push \<Rightarrow> StreamFramingWorkspace \<times> SubmitResult \<times> 'u \<times> u8 list list" where
  "release c = ((ps_workspace c)\<lparr>in_use := False\<rparr>, ps_result c, ps_user c, ps_frames c)"

definition Push_refusal ::
    "PlanBundle \<Rightarrow> StreamFramingWorkspace \<Rightarrow> nat \<Rightarrow> ByteView \<Rightarrow> 'u sink option \<Rightarrow> nat option \<Rightarrow>
       SubmitApiStatus option" where
  "Push_refusal plan w pipeline_index input sink callback =
     (if (bv_address input = 0 \<and> bv_bytes input \<noteq> []) \<or> sink = None then Some SA_INVALID_ARGUMENT
      else if (pb_schema_version plan \<noteq> ''0.9'' \<and> pb_schema_version plan \<noteq> ''0.11'') \<or>
              pipeline_index \<ge> length (pb_pipelines plan) then Some SA_INVALID_PLAN
      else if sw_plan w \<noteq> pb_address plan \<or> sw_pipeline_index w \<noteq> pipeline_index then
        Some SA_WORKSPACE_PLAN_MISMATCH
      else if callback = Some (sw_address w) then Some SA_REENTRANT_CALL
      else if in_use w then Some SA_WORKSPACE_BUSY
      else if length (bv_bytes input) > max_submit w then Some SA_LIMIT_EXCEEDED
      else None)"

definition PushStreamChunk ::
    "PlanBundle \<Rightarrow> StreamFramingWorkspace \<Rightarrow> nat \<Rightarrow> ByteView \<Rightarrow> 'u sink option \<Rightarrow> nat option \<Rightarrow> 'u \<Rightarrow>
       (StreamFramingWorkspace \<times> SubmitResult \<times> 'u \<times> u8 list list) option" where
  "PushStreamChunk plan w pipeline_index input sink callback user =
     (case Push_refusal plan w pipeline_index input sink callback of
        Some status \<Rightarrow> Some (w, initial_result\<lparr>rs_api_status := status\<rparr>, user, [])
      | None \<Rightarrow>
          (case Push_loop (the sink) (bv_bytes input) (start_push w user) of
             Break c \<Rightarrow> Some (release (after_loop c))
           | Return c \<Rightarrow> Some (release c)
           | Next c \<Rightarrow> None
           | Hang \<Rightarrow> None))"

definition ResetStreamFramingWorkspace ::
    "PlanBundle \<Rightarrow> StreamFramingWorkspace \<Rightarrow> nat \<Rightarrow> nat option \<Rightarrow> StreamFramingWorkspace \<times> SubmitApiStatus" where
  "ResetStreamFramingWorkspace plan w pipeline_index callback =
     (if sw_plan w \<noteq> pb_address plan \<or> sw_pipeline_index w \<noteq> pipeline_index then
        (w, SA_WORKSPACE_PLAN_MISMATCH)
      else if callback = Some (sw_address w) then (w, SA_REENTRANT_CALL)
      else if in_use w then (w, SA_WORKSPACE_BUSY)
      else (ResetCandidate w, SA_OK))"

record WorkspaceCreateResult =
  cr_api_status :: SubmitApiStatus
  cr_workspace :: "StreamFramingWorkspace option"
  cr_accounted_workspace_bytes :: nat
  cr_effective_session_limit_bytes :: nat

definition NewStreamFramingWorkspace ::
    "nat \<Rightarrow> PlanBundle \<Rightarrow> nat \<Rightarrow> FramingPlan \<Rightarrow> nat \<Rightarrow> nat \<Rightarrow> nat \<Rightarrow> nat \<Rightarrow> nat \<Rightarrow> StreamFramingWorkspace" where
  "NewStreamFramingWorkspace address plan pipeline_index f frame_capacity submit_limit
       frame_limit work_limit session_limit =
     ResetCandidate
       \<lparr>sw_address = address, sw_plan = pb_address plan, framing = f,
        sw_pipeline_index = pipeline_index, buffer = replicate frame_capacity 0,
        buffered_size = 0, target_size = 0, sync_match = 0, copy_sync_index = 0, rescan_index = 0,
        rescan_match = 0, compact_start = 0, compact_size = 0, compact_moved = 0,
        max_submit = submit_limit, max_frames = frame_limit,
        max_work = work_limit, max_session = session_limit,
        total_discarded_bytes = 0, total_malformed_candidates = 0, previous_was_cr = False,
        state = COLLECT_FIXED, in_use = False\<rparr>"

definition frame_capacity_of :: "FramingPlan \<Rightarrow> nat" where
  "frame_capacity_of f =
     (if fp_strategy f = FS_SYNC_LENGTH_FIELD \<or> fp_strategy f = FS_ASCII_CRLF
      then fp_maximum_frame_length f else fp_frame_length_bytes f)"

text \<open>The size of the workspace object, the address of the new object and whether its allocation
  succeeds are given by the platform: the arguments \<open>sizeof_workspace\<close>, \<open>address\<close> and \<open>allocated\<close>.\<close>

definition CreateStreamFramingWorkspace ::
    "nat \<Rightarrow> nat \<Rightarrow> bool \<Rightarrow> PlanBundle \<Rightarrow> nat \<Rightarrow> FramingLimitOverrides \<Rightarrow> WorkspaceCreateResult" where
  "CreateStreamFramingWorkspace sizeof_workspace address allocated plan pipeline_index overrides =
     (let result = \<lparr>cr_api_status = SA_INVALID_PLAN, cr_workspace = None,
                    cr_accounted_workspace_bytes = 0, cr_effective_session_limit_bytes = 0\<rparr>
      in if (pb_schema_version plan \<noteq> ''0.9'' \<and> pb_schema_version plan \<noteq> ''0.11'') \<or>
            pipeline_index \<ge> length (pb_pipelines plan) then result
         else let profile_index = pl_framing_profile_index (pb_pipelines plan ! pipeline_index)
         in if profile_index \<ge> length (pb_framing_profiles plan) then result
         else let f = pb_framing_profiles plan ! profile_index
         in if fp_input_kind f \<noteq> IK_STREAM_CHUNK then result
         else let profile = GetResourceProfileLimits (pb_resource_profile plan);
                  (submit, valid) = SelectLimit (ov_max_submit_bytes overrides)
                     (max_submit_bytes profile) kMaxStreamSubmitBytesHardLimit True;
                  (frames, valid) = SelectLimit (ov_max_frames_per_submit overrides)
                     (max_frames_per_submit profile) kMaxStreamFramesPerSubmitHardLimit valid;
                  (work, valid) = SelectLimit (ov_max_work_units overrides)
                     (max_framer_work_units profile) kMaxStreamWorkUnitsHardLimit valid;
                  (sync, valid) = SelectLimit (ov_max_sync_bytes overrides)
                     (max_sync_bytes profile) kMaxStreamSyncBytesHardLimit valid;
                  (session, valid) = SelectLimit (ov_max_session_memory_bytes overrides)
                     (max_session_memory_bytes profile) kMaxStreamSessionMemoryBytesHardLimit valid;
                  capacity = frame_capacity_of f
         in if \<not> valid \<or> capacity = 0 \<or> capacity > kMaxStreamFrameBytesHardLimit \<or>
               capacity > SIZE_MAX \<or> length (fp_sync_bytes f) > sync \<or>
               length (fp_sync_prefix_table f) \<noteq> length (fp_sync_bytes f) then result
         else if capacity > SIZE_MAX - sizeof_workspace then result
         else let accounted = sizeof_workspace + capacity;
                  result = result\<lparr>cr_accounted_workspace_bytes := accounted,
                                  cr_effective_session_limit_bytes := session\<rparr>;
                  minimum_progress_budget = max 4 (1 + 2 * length (fp_sync_bytes f))
         in if accounted > session \<or> work < minimum_progress_budget then
              result\<lparr>cr_api_status := SA_LIMIT_EXCEEDED\<rparr>
         else if \<not> allocated then result\<lparr>cr_api_status := SA_INTERNAL_ERROR\<rparr>
         else result\<lparr>cr_workspace := Some (NewStreamFramingWorkspace address plan pipeline_index f
                                        capacity submit frames work session),
                     cr_api_status := SA_OK\<rparr>)"

end
