(* ===== verification/Framing_Admission.thy ===== *)
theory Framing_Admission
  imports Stream_Framer
begin

text \<open>
  The part of the plan builder that admits a framing profile,
  \<^verbatim>\<open>src/src/protocol_plan/plan_builder.cpp\<close>, and what it guarantees to the stream framer.
  \<open>framing_ok\<close> is the contract the framer relies on; \<open>AdmitFraming_ok\<close> says that every profile the
  builder accepts satisfies it.
\<close>

datatype PlanBuildError =
  INVALID_METADATA | RESOURCE_LIMIT_EXCEEDED | RESOURCE_REQUIREMENTS_MISMATCH
| INVALID_FRAMING_PLAN | INVALID_PIPELINE_PLAN | INVALID_MESSAGE_PLAN | INVALID_MATCHER_PLAN
| INVALID_FIELD_PLAN | FRAME_NOT_FULLY_DEFINED | AMBIGUOUS_MATCHER | PLAN_MEMORY_LIMIT_EXCEEDED
| PLAN_MEMORY_ESTIMATE_MISMATCH | ALLOCATION_FAILED | PBE_INTERNAL_ERROR

definition no_length_field :: "FramingPlan \<Rightarrow> bool" where
  "no_length_field f \<longleftrightarrow> fp_length_field_offset f = 0 \<and> fp_length_field_width f = 0 \<and>
     fp_length_field_byte_order f = BO_NOT_APPLICABLE"

definition CompleteRecordFraming :: "FramingPlan \<Rightarrow> bool" where
  "CompleteRecordFraming f \<longleftrightarrow>
     \<not> (fp_strategy f \<noteq> FS_COMPLETE_RECORD \<or> fp_frame_length_bytes f \<noteq> 0 \<or> fp_sync_bytes f \<noteq> [] \<or>
        \<not> no_length_field f \<or> fp_minimum_frame_length f \<noteq> 0 \<or> fp_maximum_frame_length f \<noteq> 0)"

definition FixedLengthFraming :: "string \<Rightarrow> FramingPlan \<Rightarrow> bool" where
  "FixedLengthFraming schema_version f \<longleftrightarrow>
     schema_version = ''0.9'' \<and>
     \<not> (fp_frame_length_bytes f = 0 \<or> fp_sync_bytes f \<noteq> [] \<or> \<not> no_length_field f \<or>
        fp_minimum_frame_length f \<noteq> 0 \<or> fp_maximum_frame_length f \<noteq> 0)"

definition SyncFixedLengthFraming :: "string \<Rightarrow> FramingPlan \<Rightarrow> bool" where
  "SyncFixedLengthFraming schema_version f \<longleftrightarrow>
     schema_version = ''0.9'' \<and>
     \<not> (fp_frame_length_bytes f = 0 \<or> fp_sync_bytes f = [] \<or>
        length (fp_sync_bytes f) > fp_frame_length_bytes f \<or> \<not> no_length_field f \<or>
        fp_minimum_frame_length f \<noteq> 0 \<or> fp_maximum_frame_length f \<noteq> 0)"

definition SyncLengthFieldFraming :: "string \<Rightarrow> FramingPlan \<Rightarrow> bool" where
  "SyncLengthFieldFraming schema_version f \<longleftrightarrow>
     (let width = fp_length_field_width f; offset = fp_length_field_offset f;
          width_valid = (width = 1 \<or> width = 2 \<or> width = 4);
          representable = (if width = 1 then 0xFF else if width = 2 then 0xFFFF else 0xFFFFFFFF)
      in schema_version = ''0.9'' \<and>
         \<not> (fp_frame_length_bytes f \<noteq> 0 \<or> fp_sync_bytes f = [] \<or> \<not> width_valid \<or>
            fp_minimum_frame_length f = 0 \<or>
            fp_minimum_frame_length f > fp_maximum_frame_length f \<or>
            offset > SIZE_MAX - width \<or> offset + width > fp_minimum_frame_length f \<or>
            offset < length (fp_sync_bytes f) \<or>
            (width = 1 \<and> fp_length_field_byte_order f \<noteq> BO_NOT_APPLICABLE) \<or>
            (width \<noteq> 1 \<and> fp_length_field_byte_order f \<noteq> BO_BIG \<and>
             fp_length_field_byte_order f \<noteq> BO_LITTLE)) \<and>
         \<not> fp_maximum_frame_length f > representable)"

definition AsciiCrlfFraming :: "string \<Rightarrow> FramingPlan \<Rightarrow> bool" where
  "AsciiCrlfFraming schema_version f \<longleftrightarrow>
     \<not> (schema_version \<noteq> ''0.11'' \<or> fp_sync_bytes f \<noteq> [0x0D, 0x0A] \<or> fp_frame_length_bytes f \<noteq> 0 \<or>
        \<not> no_length_field f \<or> fp_minimum_frame_length f \<noteq> 0 \<or> fp_maximum_frame_length f < 2)"

text \<open>The check of one profile.  \<open>Inr None\<close>: a complete-record profile; \<open>Inr (Some n)\<close>: a stream profile
  whose largest frame has \<open>n\<close> bytes.  The outer option is that of the prefix table check.\<close>

definition AdmitFraming ::
    "string \<Rightarrow> ResourceProfileLimits \<Rightarrow> FramingPlan \<Rightarrow> (PlanBuildError + nat option) option" where
  "AdmitFraming schema_version limit f =
     (case CheckPrefixTable (fp_sync_bytes f) (fp_sync_prefix_table f) of
        None \<Rightarrow> None
      | Some False \<Rightarrow> Some (Inl INVALID_FRAMING_PLAN)
      | Some True \<Rightarrow> Some (
          if fp_input_kind f = IK_COMPLETE_RECORD then
            if CompleteRecordFraming f then Inr None else Inl INVALID_FRAMING_PLAN
          else if (schema_version \<noteq> ''0.9'' \<and> schema_version \<noteq> ''0.11'') \<or>
                  length (fp_sync_bytes f) > max_sync_bytes limit \<or>
                  length (fp_sync_bytes f) > kMaxStreamSyncBytesHardLimit then Inl INVALID_FRAMING_PLAN
          else let admitted =
                 (case fp_strategy f of
                    FS_FIXED_LENGTH \<Rightarrow>
                      if FixedLengthFraming schema_version f then Some (fp_frame_length_bytes f) else None
                  | FS_SYNC_FIXED_LENGTH \<Rightarrow>
                      if SyncFixedLengthFraming schema_version f then Some (fp_frame_length_bytes f) else None
                  | FS_SYNC_LENGTH_FIELD \<Rightarrow>
                      if SyncLengthFieldFraming schema_version f then Some (fp_maximum_frame_length f) else None
                  | FS_ASCII_CRLF \<Rightarrow>
                      if AsciiCrlfFraming schema_version f then Some (fp_maximum_frame_length f) else None
                  | FS_COMPLETE_RECORD \<Rightarrow> None)
               in case admitted of
                    None \<Rightarrow> Inl INVALID_FRAMING_PLAN
                  | Some max_frame \<Rightarrow>
                      if max_frame > max_frame_bytes limit \<or> max_frame > kMaxStreamFrameBytesHardLimit \<or>
                         max_frame > SIZE_MAX then Inl RESOURCE_LIMIT_EXCEEDED
                      else Inr (Some max_frame)))"

section \<open>What the framer relies on\<close>

definition header_end :: "FramingPlan \<Rightarrow> nat" where
  "header_end f = fp_length_field_offset f + fp_length_field_width f"

definition framing_ok :: "FramingPlan \<Rightarrow> bool" where
  "framing_ok f \<longleftrightarrow>
     fp_sync_prefix_table f = PrefixTable (fp_sync_bytes f) \<and>
     0 < frame_capacity_of f \<and> frame_capacity_of f \<le> kMaxStreamFrameBytesHardLimit \<and>
     (case fp_strategy f of
        FS_COMPLETE_RECORD \<Rightarrow> False
      | FS_FIXED_LENGTH \<Rightarrow> True
      | FS_SYNC_FIXED_LENGTH \<Rightarrow>
          fp_sync_bytes f \<noteq> [] \<and> length (fp_sync_bytes f) \<le> fp_frame_length_bytes f
      | FS_SYNC_LENGTH_FIELD \<Rightarrow>
          fp_sync_bytes f \<noteq> [] \<and> fp_length_field_width f \<in> {1, 2, 4} \<and>
          length (fp_sync_bytes f) \<le> fp_length_field_offset f \<and>
          header_end f \<le> fp_minimum_frame_length f \<and>
          fp_minimum_frame_length f \<le> fp_maximum_frame_length f
      | FS_ASCII_CRLF \<Rightarrow> 2 \<le> fp_maximum_frame_length f)"

lemma AdmitFraming_ok:
  assumes "AdmitFraming schema limit f = Some (Inr (Some n))"
  shows "framing_ok f \<and> n = frame_capacity_of f"
proof -
  from assms have table: "CheckPrefixTable (fp_sync_bytes f) (fp_sync_prefix_table f) = Some True"
    by (auto simp: AdmitFraming_def split: option.splits bool.splits)
  then have "fp_sync_prefix_table f = PrefixTable (fp_sync_bytes f)" by (simp add: kmp.accepted_iff)
  with assms table show ?thesis
    by (auto simp: AdmitFraming_def framing_ok_def frame_capacity_of_def header_end_def Let_def
        FixedLengthFraming_def SyncFixedLengthFraming_def SyncLengthFieldFraming_def AsciiCrlfFraming_def
        split: if_splits option.splits FramingStrategy.splits)
qed

lemma AdmitFraming_total: "AdmitFraming schema limit f \<noteq> None"
  by (simp add: AdmitFraming_def CheckPrefixTable_border split: bool.splits)

lemma header_size_add:
  assumes "framing_ok f" "fp_strategy f = FS_SYNC_LENGTH_FIELD"
  shows "size_add (fp_length_field_offset f) (fp_length_field_width f) = header_end f"
proof -
  have "header_end f \<le> kMaxStreamFrameBytesHardLimit"
    using assms by (auto simp: framing_ok_def frame_capacity_of_def)
  then show ?thesis
    by (simp add: header_end_def kMaxStreamFrameBytesHardLimit_def SIZE_MAX_def)
qed

end
