(* ===== verification/Framer_Invariants.thy ===== *)
theory Framer_Invariants
  imports Framing_Admission
begin

text \<open>
  The invariant of the stream framer.  \<open>state_ok\<close> says for each state what the buffer and the
  progress counters hold; \<open>frame_shape\<close> says what a delivered frame looks like for each framing strategy;
  \<open>traced\<close> says that the bytes the workspace held and the bytes it has consumed since are, in order,
  the delivered frames, the discarded bytes and the bytes it holds now.  Each turn of the loop keeps
  the invariant, so a submission on an admitted framing profile never reports an internal error and never
  hangs.
\<close>

section \<open>Frames and held bytes\<close>

abbreviation bytes_of :: "StreamFramingWorkspace \<Rightarrow> u8 list" where
  "bytes_of w \<equiv> take (buffered_size w) (buffer w)"

abbreviation sync_of :: "StreamFramingWorkspace \<Rightarrow> u8 list" where
  "sync_of w \<equiv> fp_sync_bytes (framing w)"

definition declared_length :: "FramingPlan \<Rightarrow> u8 list \<Rightarrow> nat" where
  "declared_length f bytes = unat (Read_declared f bytes [0..<fp_length_field_width f] 0)"

definition crlf_free :: "u8 list \<Rightarrow> bool" where
  "crlf_free bytes \<longleftrightarrow> (\<forall>i. Suc i < length bytes \<longrightarrow> \<not> (bytes ! i = 0x0D \<and> bytes ! Suc i = 0x0A))"

definition frame_shape :: "FramingPlan \<Rightarrow> u8 list \<Rightarrow> bool" where
  "frame_shape f bytes \<longleftrightarrow>
     (case fp_strategy f of
        FS_COMPLETE_RECORD \<Rightarrow> False
      | FS_FIXED_LENGTH \<Rightarrow> length bytes = fp_frame_length_bytes f
      | FS_SYNC_FIXED_LENGTH \<Rightarrow>
          length bytes = fp_frame_length_bytes f \<and> prefix (fp_sync_bytes f) bytes
      | FS_SYNC_LENGTH_FIELD \<Rightarrow>
          prefix (fp_sync_bytes f) bytes \<and> fp_minimum_frame_length f \<le> length bytes \<and>
          length bytes \<le> fp_maximum_frame_length f \<and> declared_length f bytes = length bytes
      | FS_ASCII_CRLF \<Rightarrow>
          length bytes \<le> fp_maximum_frame_length f \<and> crlf_free (butlast bytes) \<and>
          suffix [0x0D, 0x0A] bytes)"

fun state_ok :: "StreamFramingWorkspace \<Rightarrow> State \<Rightarrow> bool" where
  "state_ok w COLLECT_FIXED \<longleftrightarrow> fp_strategy (framing w) = FS_FIXED_LENGTH \<and>
     target_size w = fp_frame_length_bytes (framing w) \<and> buffered_size w \<le> target_size w"
| "state_ok w SEARCH_SYNC \<longleftrightarrow>
     (fp_strategy (framing w) = FS_SYNC_FIXED_LENGTH \<or> fp_strategy (framing w) = FS_SYNC_LENGTH_FIELD) \<and>
     sync_match w < length (sync_of w)"
| "state_ok w COPY_SYNC \<longleftrightarrow>
     (fp_strategy (framing w) = FS_SYNC_FIXED_LENGTH \<or> fp_strategy (framing w) = FS_SYNC_LENGTH_FIELD) \<and>
     copy_sync_index w \<le> length (sync_of w) \<and> buffered_size w = copy_sync_index w \<and>
     take (copy_sync_index w) (buffer w) = take (copy_sync_index w) (sync_of w)"
| "state_ok w READ_LENGTH \<longleftrightarrow> fp_strategy (framing w) = FS_SYNC_LENGTH_FIELD \<and>
     buffered_size w \<le> header_end (framing w) \<and> prefix (sync_of w) (bytes_of w)"
| "state_ok w COLLECT_DECLARED \<longleftrightarrow> prefix (sync_of w) (bytes_of w) \<and>
     buffered_size w \<le> target_size w \<and> target_size w \<le> length (buffer w) \<and>
     (fp_strategy (framing w) = FS_SYNC_FIXED_LENGTH \<and>
        target_size w = fp_frame_length_bytes (framing w) \<or>
      fp_strategy (framing w) = FS_SYNC_LENGTH_FIELD \<and>
        header_end (framing w) \<le> buffered_size w \<and>
        fp_minimum_frame_length (framing w) \<le> target_size w \<and>
        declared_length (framing w) (bytes_of w) = target_size w)"
| "state_ok w DELIVER_PENDING \<longleftrightarrow> frame_shape (framing w) (bytes_of w) \<and>
     buffered_size w \<le> length (buffer w)"
| "state_ok w RESCAN_INVALID \<longleftrightarrow> fp_strategy (framing w) = FS_SYNC_LENGTH_FIELD \<and>
     buffered_size w = header_end (framing w) \<and> 1 \<le> rescan_index w \<and>
     rescan_index w \<le> buffered_size w \<and>
     search_state (sync_of w) (drop 1 (take (rescan_index w) (buffer w))) (rescan_match w)"
| "state_ok w COMPACT_INVALID \<longleftrightarrow> fp_strategy (framing w) = FS_SYNC_LENGTH_FIELD \<and>
     buffered_size w = header_end (framing w) \<and> 1 \<le> compact_start w \<and>
     compact_start w + compact_size w = buffered_size w \<and> compact_moved w \<le> compact_size w \<and>
     prefix (sync_of w)
       (take (compact_moved w) (buffer w) @ drop (compact_start w + compact_moved w) (bytes_of w))"
| "state_ok w COLLECT_ASCII \<longleftrightarrow> fp_strategy (framing w) = FS_ASCII_CRLF \<and>
     buffered_size w < length (buffer w) \<and> crlf_free (bytes_of w)"
| "state_ok w DISCARD_UNTIL_CRLF \<longleftrightarrow> fp_strategy (framing w) = FS_ASCII_CRLF \<and> buffered_size w = 0"

definition workspace_ok :: "StreamFramingWorkspace \<Rightarrow> bool" where
  "workspace_ok w \<longleftrightarrow> framing_ok (framing w) \<and>
     length (buffer w) = frame_capacity_of (framing w) \<and> state_ok w (state w)"

text \<open>The bytes of the stream that the workspace holds.  During compaction the bytes before the new
  candidate are already overwritten, but not yet counted as discarded.\<close>

fun holds_in :: "StreamFramingWorkspace \<Rightarrow> State \<Rightarrow> u8 list \<Rightarrow> bool" where
  "holds_in w SEARCH_SYNC p \<longleftrightarrow> p = take (sync_match w) (sync_of w)"
| "holds_in w COPY_SYNC p \<longleftrightarrow> p = sync_of w"
| "holds_in w DISCARD_UNTIL_CRLF p \<longleftrightarrow> p = []"
| "holds_in w COMPACT_INVALID p \<longleftrightarrow> (\<exists>old. length old = compact_start w \<and>
     p = old @ take (compact_moved w) (buffer w) @ drop (compact_start w + compact_moved w) (bytes_of w))"
| "holds_in w other p \<longleftrightarrow> p = bytes_of w"

definition holds :: "StreamFramingWorkspace \<Rightarrow> u8 list \<Rightarrow> bool" where
  "holds w p \<longleftrightarrow> holds_in w (state w) p"

datatype segment = Frame "u8 list" | Skipped "u8 list"

fun segment_bytes :: "segment \<Rightarrow> u8 list" where
  "segment_bytes (Frame f) = f"
| "segment_bytes (Skipped b) = b"

definition frames_of :: "segment list \<Rightarrow> u8 list list" where
  "frames_of segs = concat (map (\<lambda>s. case s of Frame f \<Rightarrow> [f] | Skipped b \<Rightarrow> []) segs)"

definition skipped_count :: "segment list \<Rightarrow> nat" where
  "skipped_count segs = sum_list (map (\<lambda>s. case s of Frame f \<Rightarrow> 0 | Skipped b \<Rightarrow> length b) segs)"

definition stream_bytes :: "segment list \<Rightarrow> u8 list" where
  "stream_bytes segs = concat (map segment_bytes segs)"

lemma segs_simps [simp]:
  "frames_of [] = []" "frames_of (s # segs) = (case s of Frame f \<Rightarrow> [f] | Skipped b \<Rightarrow> []) @ frames_of segs"
  "frames_of (xs @ ys) = frames_of xs @ frames_of ys"
  "skipped_count [] = 0" "skipped_count (s # segs) = (case s of Frame f \<Rightarrow> 0 | Skipped b \<Rightarrow> length b) + skipped_count segs"
  "skipped_count (xs @ ys) = skipped_count xs + skipped_count ys"
  "stream_bytes [] = []" "stream_bytes (s # segs) = segment_bytes s @ stream_bytes segs"
  "stream_bytes (xs @ ys) = stream_bytes xs @ stream_bytes ys"
  by (simp_all add: frames_of_def skipped_count_def stream_bytes_def)

definition traced :: "u8 list \<Rightarrow> u8 list \<Rightarrow> 'u push \<Rightarrow> bool" where
  "traced p0 input c \<longleftrightarrow> (\<exists>segs p. holds (ps_workspace c) p \<and>
     p0 @ take (ps_input_index c) input = stream_bytes segs @ p \<and>
     ps_frames c = frames_of segs \<and> rs_bytes_discarded (ps_result c) = skipped_count segs)"

definition push_ok :: "u8 list \<Rightarrow> u8 list \<Rightarrow> 'u push \<Rightarrow> bool" where
  "push_ok p0 input c \<longleftrightarrow> workspace_ok (ps_workspace c) \<and> traced p0 input c \<and>
     ps_input_index c = rs_bytes_consumed (ps_result c) \<and> ps_input_index c \<le> length input \<and>
     rs_api_status (ps_result c) = SA_OK \<and>
     rs_work_units_used (ps_result c) \<le> max_work (ps_workspace c) \<and>
     rs_frames_delivered (ps_result c) = length (ps_frames c) \<and>
     length (ps_frames c) \<le> max_frames (ps_workspace c) \<and>
     (\<forall>f \<in> set (ps_frames c). frame_shape (framing (ps_workspace c)) f)"

text \<open>How a turn extends the trace: it consumes \<open>bs\<close> and adds the segments \<open>new\<close>.\<close>

lemma traced_step:
  assumes "traced p0 input c"
    and "take (ps_input_index c') input = take (ps_input_index c) input @ bs"
    and "\<And>p. holds (ps_workspace c) p \<Longrightarrow> \<exists>p'. holds (ps_workspace c') p' \<and> p @ bs = stream_bytes new @ p'"
    and "ps_frames c' = ps_frames c @ frames_of new"
    and "rs_bytes_discarded (ps_result c') = rs_bytes_discarded (ps_result c) + skipped_count new"
  shows "traced p0 input c'"
proof -
  from assms(1) obtain segs p where t: "holds (ps_workspace c) p"
    "p0 @ take (ps_input_index c) input = stream_bytes segs @ p"
    "ps_frames c = frames_of segs" "rs_bytes_discarded (ps_result c) = skipped_count segs"
    by (auto simp: traced_def)
  from assms(3) [OF t(1)] obtain p' where p': "holds (ps_workspace c') p'" "p @ bs = stream_bytes new @ p'"
    by blast
  have "p0 @ take (ps_input_index c') input = (p0 @ take (ps_input_index c) input) @ bs"
    by (simp add: assms(2))
  also have "\<dots> = stream_bytes (segs @ new) @ p'" using p'(2) by (simp add: t(2))
  finally have "p0 @ take (ps_input_index c') input = stream_bytes (segs @ new) @ p'" .
  then show ?thesis
    unfolding traced_def using p'(1) assms(4,5) t(3,4) by (intro exI [of _ "segs @ new"] exI [of _ p']) simp
qed

lemma take_next: "i < length xs \<Longrightarrow> take (i + 1) xs = take i xs @ [xs ! i]"
  by (simp add: take_Suc_conv_app_nth)

section \<open>Preservation, state by state\<close>

definition keeps :: "('u push \<Rightarrow> bool) \<Rightarrow> 'u push Iter \<Rightarrow> bool" where
  "keeps P it = (case it of Next c \<Rightarrow> P c | Break c \<Rightarrow> P c | Return c \<Rightarrow> P c | Hang \<Rightarrow> False)"

lemma keeps_simps [simp]:
  "keeps P (Next c) = P c" "keeps P (Break c) = P c" "keeps P (Return c) = P c" "keeps P Hang = False"
  by (simp_all add: keeps_def)

lemma traced_cong:
  assumes "ps_workspace d = ps_workspace c" "ps_input_index d = ps_input_index c" "ps_frames d = ps_frames c"
    "rs_bytes_discarded (ps_result d) = rs_bytes_discarded (ps_result c)"
  shows "traced p0 input d = traced p0 input c"
  by (simp add: traced_def assms)

lemma push_ok_charge:
  assumes "push_ok p0 input c" "charge a c = Some d"
  shows "push_ok p0 input d \<and> ps_workspace d = ps_workspace c \<and> ps_input_index d = ps_input_index c \<and>
    ps_frames d = ps_frames c \<and> rs_bytes_discarded (ps_result d) = rs_bytes_discarded (ps_result c)"
proof -
  have d: "ps_workspace d = ps_workspace c" "ps_input_index d = ps_input_index c" "ps_frames d = ps_frames c"
    "rs_bytes_discarded (ps_result d) = rs_bytes_discarded (ps_result c)"
    "rs_bytes_consumed (ps_result d) = rs_bytes_consumed (ps_result c)"
    "rs_api_status (ps_result d) = rs_api_status (ps_result c)"
    "rs_frames_delivered (ps_result d) = rs_frames_delivered (ps_result c)"
    "rs_work_units_used (ps_result d) \<le> max_work (ps_workspace c)"
    using assms by (auto simp: charge_Some push_ok_def)
  from assms(1) show ?thesis
    unfolding push_ok_def traced_cong [OF d(1-4)] using d by simp
qed

lemma keeps_budget_stop:
  assumes "push_ok p0 input c"
  shows "keeps (push_ok p0 input) (budget_stop c)"
proof -
  let ?d = "c\<lparr>ps_result := (ps_result c)\<lparr>rs_stop_reason := SR_WORK_BUDGET_REACHED\<rparr>\<rparr>"
  have "traced p0 input ?d = traced p0 input c" by (rule traced_cong) simp_all
  then show ?thesis using assms by (simp add: budget_stop_def push_ok_def)
qed

lemma charge_keeps:
  assumes "push_ok p0 input c"
    and "\<And>d. push_ok p0 input d \<Longrightarrow> ps_workspace d = ps_workspace c \<Longrightarrow> ps_input_index d = ps_input_index c \<Longrightarrow>
           keeps (push_ok p0 input) (F d)"
  shows "keeps (push_ok p0 input) (case charge a c of None \<Rightarrow> budget_stop c | Some d \<Rightarrow> F d)"
  using assms push_ok_charge [OF assms(1)] keeps_budget_stop [OF assms(1)] by (cases "charge a c") auto

text \<open>A turn that rewrites the workspace, consumes \<open>bs\<close> and adds segments of discarded bytes.\<close>

lemma push_ok_update:
  assumes ok: "push_ok p0 input c"
    and w: "workspace_ok (ps_workspace c')" "limits (ps_workspace c') = limits (ps_workspace c)"
    and idx: "take (ps_input_index c') input = take (ps_input_index c) input @ bs"
      "ps_input_index c' = rs_bytes_consumed (ps_result c')" "ps_input_index c' \<le> length input"
    and h: "\<And>p. holds (ps_workspace c) p \<Longrightarrow> \<exists>p'. holds (ps_workspace c') p' \<and> p @ bs = stream_bytes new @ p'"
    and fr: "frames_of new = []" "ps_frames c' = ps_frames c"
      "rs_bytes_discarded (ps_result c') = rs_bytes_discarded (ps_result c) + skipped_count new"
      "rs_api_status (ps_result c') = rs_api_status (ps_result c)"
      "rs_work_units_used (ps_result c') = rs_work_units_used (ps_result c)"
      "rs_frames_delivered (ps_result c') = rs_frames_delivered (ps_result c)"
  shows "push_ok p0 input c'"
proof -
  have "traced p0 input c'"
    by (rule traced_step [where new = new, OF _ idx(1) h])
      (use ok fr in \<open>simp_all add: push_ok_def\<close>)
  then show ?thesis
    using ok w(1) idx(2,3) fr limits_eqD(1,2,4) [OF w(2)] by (simp add: push_ok_def)
qed

lemma store_bytes:
  "buffered_size w < length (buffer w) \<Longrightarrow>
     take (Suc (buffered_size w)) (buffer (store_byte b w)) = bytes_of w @ [b]"
  by (simp add: store_byte_def take_Suc_conv_app_nth)

lemma store_sel [simp]:
  "buffered_size (store_byte b w) = buffered_size w + 1" "length (buffer (store_byte b w)) = length (buffer w)"
  "framing (store_byte b w) = framing w" "state (store_byte b w) = state w"
  "target_size (store_byte b w) = target_size w" "limits (store_byte b w) = limits w"
  "copy_sync_index (store_byte b w) = copy_sync_index w"
  "previous_was_cr (store_byte b w) = previous_was_cr w" "sync_match (store_byte b w) = sync_match w"
  by (simp_all add: store_byte_def)

lemma prefix_snoc_bytes: "prefix xs ys \<Longrightarrow> prefix xs (ys @ [b])"
  by (auto simp: prefix_def)

lemma Read_declared_cong:
  assumes "\<forall>i \<in> set is. i < fp_length_field_width f"
    and "take (header_end f) xs = take (header_end f) ys" "header_end f \<le> length xs" "header_end f \<le> length ys"
  shows "Read_declared f xs is acc = Read_declared f ys is acc"
  using assms(1)
proof (induction "is" arbitrary: acc)
  case (Cons i "is")
  let ?e = "fp_length_field_offset f +
    (if fp_length_field_byte_order f = BO_LITTLE then fp_length_field_width f - 1 - i else i)"
  have "?e < header_end f" using Cons.prems by (auto simp: header_end_def)
  then have "xs ! ?e = ys ! ?e" using assms(2-4) by (metis nth_take)
  with Cons show ?case by (simp add: Let_def)
qed simp

lemma declared_snoc:
  assumes "header_end f \<le> length xs" shows "declared_length f (xs @ ys) = declared_length f xs"
  unfolding declared_length_def by (subst Read_declared_cong [of _ f "xs @ ys" xs]) (use assms in auto)

subsection \<open>Collecting\<close>

lemma step_collect_keeps:
  assumes ok: "push_ok p0 input c" and st: "state (ps_workspace c) = COLLECT_FIXED \<or> state (ps_workspace c) = COLLECT_DECLARED"
  shows "keeps (push_ok p0 input) (step_collect input c)"
proof -
  let ?w = "ps_workspace c"
  have wok: "workspace_ok ?w" using ok by (simp add: push_ok_def)
  show ?thesis
  proof (cases "buffered_size ?w = target_size ?w")
    case True
    let ?c = "upd_workspace (\<lambda>w. w\<lparr>state := DELIVER_PENDING\<rparr>) c"
    have "frame_shape (framing ?w) (bytes_of ?w) \<and> buffered_size ?w \<le> length (buffer ?w)"
      using wok st True
      by (auto simp: workspace_ok_def frame_shape_def framing_ok_def frame_capacity_of_def min_def)
    then have "workspace_ok (ps_workspace ?c)"
      using wok by (auto simp: workspace_ok_def upd_workspace_def)
    then have "push_ok p0 input ?c"
      by (intro push_ok_update [OF ok, where new = "[]" and bs = "[]"])
        (use ok st in \<open>auto simp: upd_workspace_def holds_def push_ok_def\<close>)
    then show ?thesis using True by (simp add: step_collect_def)
  next
    case False
    then have lt: "buffered_size ?w < target_size ?w" "target_size ?w \<le> length (buffer ?w)"
      using wok st by (auto simp: workspace_ok_def frame_capacity_of_def framing_ok_def)
    show ?thesis
    proof (cases "ps_input_index c = length input")
      case True
      then show ?thesis using False ok by (simp add: step_collect_def)
    next
      case more: False
      have "keeps (push_ok p0 input)
          (case charge 2 c of None \<Rightarrow> budget_stop c
           | Some c \<Rightarrow> if buffered_size ?w \<ge> length (buffer ?w) then internal_error c
               else Next (consume (upd_workspace (store_byte (input ! ps_input_index c)) c)))"
      proof (rule charge_keeps [OF ok])
        fix d :: "'a push"
        assume d: "push_ok p0 input d" "ps_workspace d = ?w" "ps_input_index d = ps_input_index c"
        let ?b = "input ! ps_input_index d"
        let ?e = "consume (upd_workspace (store_byte ?b) d)"
        have i: "ps_input_index d < length input" using d more by (simp add: push_ok_def)
        have b: "take (Suc (buffered_size ?w)) (buffer (store_byte ?b ?w)) = bytes_of ?w @ [?b]" by (rule store_bytes) (use lt in simp)
        have len: "length (bytes_of ?w) = buffered_size ?w" using lt by simp
        have "state_ok (store_byte ?b ?w) (state ?w)"
          using wok st lt by (auto simp: workspace_ok_def b prefix_snoc_bytes declared_snoc len)
        then have "workspace_ok (ps_workspace ?e)"
          using wok by (simp add: workspace_ok_def consume_def upd_workspace_def d)
        then have "push_ok p0 input ?e"
          by (intro push_ok_update [OF d(1), where new = "[]" and bs = "[?b]"])
            (use d i st b in \<open>auto simp: consume_def upd_workspace_def holds_def push_ok_def take_Suc_conv_app_nth\<close>)
        then show "keeps (push_ok p0 input) (if buffered_size ?w \<ge> length (buffer ?w) then internal_error d
            else Next (consume (upd_workspace (store_byte (input ! ps_input_index d)) d)))"
          using lt by simp
      qed
      then show ?thesis using False more by (simp add: step_collect_def Let_def)
    qed
  qed
qed

subsection \<open>ASCII records\<close>

lemma crlf_free_snoc:
  assumes "crlf_free bs" shows "crlf_free (bs @ [b]) \<longleftrightarrow> \<not> suffix [0x0D, 0x0A] (bs @ [b])"
proof -
  have "suffix [0x0D, 0x0A] (bs @ [b]) \<longleftrightarrow> bs \<noteq> [] \<and> last bs = 0x0D \<and> b = 0x0A"
    by (cases bs rule: rev_cases) (auto simp: suffix_def)
  moreover have "crlf_free (bs @ [b]) \<longleftrightarrow> \<not> (bs \<noteq> [] \<and> last bs = 0x0D \<and> b = 0x0A)"
  proof
    assume c: "crlf_free (bs @ [b])"
    show "\<not> (bs \<noteq> [] \<and> last bs = 0x0D \<and> b = 0x0A)"
    proof
      assume h: "bs \<noteq> [] \<and> last bs = 0x0D \<and> b = 0x0A"
      then have "(bs @ [b]) ! (length bs - 1) = 0x0D" "(bs @ [b]) ! Suc (length bs - 1) = 0x0A"
        by (auto simp: nth_append last_conv_nth)
      moreover have "Suc (length bs - 1) < length (bs @ [b])" using h by (cases bs) auto
      ultimately show False using c by (auto simp: crlf_free_def)
    qed
  next
    assume h: "\<not> (bs \<noteq> [] \<and> last bs = 0x0D \<and> b = 0x0A)"
    show "crlf_free (bs @ [b])"
      unfolding crlf_free_def
    proof (intro allI impI)
      fix i assume i: "Suc i < length (bs @ [b])"
      show "\<not> ((bs @ [b]) ! i = 0x0D \<and> (bs @ [b]) ! Suc i = 0x0A)"
      proof (cases "Suc i < length bs")
        case True
        then show ?thesis using assms by (auto simp: crlf_free_def nth_append)
      next
        case False
        then have l: "Suc i = length bs" using i by simp
        then have "last bs = bs ! i" by (cases bs rule: rev_cases) auto
        moreover have "bs \<noteq> []" using l by auto
        ultimately show ?thesis using h l by (auto simp: nth_append)
      qed
    qed
  qed
  ultimately show ?thesis by simp
qed

lemma terminated_iff:
  assumes "bs = cs @ [b]"
  shows "2 \<le> length bs \<and> bs ! (length bs - 2) = 0x0D \<and> b = 0x0A \<longleftrightarrow> suffix [0x0D, 0x0A] bs"
proof (cases cs rule: rev_cases)
  case Nil
  then show ?thesis by (auto simp: assms suffix_def)
next
  case (snoc ds d)
  then show ?thesis by (auto simp: assms suffix_def nth_append)
qed

lemma step_ascii_keeps:
  assumes ok: "push_ok p0 input c" and st: "state (ps_workspace c) = COLLECT_ASCII"
  shows "keeps (push_ok p0 input) (step_ascii input c)"
proof (cases "ps_input_index c = length input")
  case True
  then show ?thesis using ok by (simp add: step_ascii_def)
next
  case more: False
  show ?thesis
    unfolding step_ascii_def if_not_P [OF more]
  proof (rule charge_keeps [OF ok])
    fix d :: "'a push"
    assume d: "push_ok p0 input d" "ps_workspace d = ps_workspace c" "ps_input_index d = ps_input_index c"
    let ?w = "ps_workspace d" and ?b = "input ! ps_input_index d"
    let ?v = "store_byte ?b ?w" and ?e = "consume (upd_workspace (store_byte ?b) d)"
    have wok: "workspace_ok ?w" and st': "state ?w = COLLECT_ASCII"
      using d st by (simp_all add: push_ok_def)
    have i: "ps_input_index d < length input" using d more by (simp add: push_ok_def)
    have lt: "buffered_size ?w < length (buffer ?w)" and free: "crlf_free (bytes_of ?w)"
      and strat: "fp_strategy (framing ?w) = FS_ASCII_CRLF"
      using wok st' by (auto simp: workspace_ok_def)
    have b: "take (Suc (buffered_size ?w)) (buffer ?v) = bytes_of ?w @ [?b]" by (rule store_bytes [OF lt])
    have len: "length (bytes_of ?w @ [?b]) = Suc (buffered_size ?w)" using lt by simp
    have "(take (Suc (buffered_size ?w)) (buffer ?v)) ! (Suc (buffered_size ?w) - 2)
        = buffer ?v ! (Suc (buffered_size ?w) - 2)" by simp
    then have nth: "(bytes_of ?w @ [?b]) ! (length (bytes_of ?w @ [?b]) - 2) = buffer ?v ! (buffered_size ?v - 2)"
      unfolding b len by simp
    have ended: "2 \<le> buffered_size ?v \<and> buffer ?v ! (buffered_size ?v - 2) = 0x0D \<and> ?b = 0x0A
        \<longleftrightarrow> suffix [0x0D, 0x0A] (bytes_of ?w @ [?b])"
    proof -
      have "buffered_size ?v = length (bytes_of ?w @ [?b])" unfolding len by simp
      then show ?thesis
        unfolding terminated_iff [OF refl, of "bytes_of ?w" ?b, symmetric] nth by simp
    qed
    have wse: "ps_workspace ?e = ?v" by (simp add: consume_def upd_workspace_def)
    have le: "\<not> length (buffer ?w) \<le> buffered_size ?w" using lt by simp
    show "keeps (push_ok p0 input) (if buffered_size (ps_workspace d) \<ge> length (buffer (ps_workspace d)) then internal_error d
          else let byte = input ! ps_input_index d;
                   c = consume (upd_workspace (store_byte byte) d);
                   w = ps_workspace c;
                   terminated = (buffered_size w \<ge> 2 \<and> buffer w ! (buffered_size w - 2) = 0x0D \<and>
                                 byte = 0x0A)
               in if terminated then Next (upd_workspace (\<lambda>w. w\<lparr>state := DELIVER_PENDING\<rparr>) c)
                  else if buffered_size w = length (buffer w) then
                    let c = record_malformed FI_RECORD_TOO_LONG c;
                        c = upd_workspace (\<lambda>w. w\<lparr>previous_was_cr := (byte = 0x0D)\<rparr>) c;
                        c = record_discard (buffered_size w) c
                    in Next (upd_workspace (\<lambda>w. w\<lparr>buffered_size := 0, state := DISCARD_UNTIL_CRLF\<rparr>) c)
                  else Next c)" (is "keeps _ ?step")
    proof (cases "suffix [0x0D, 0x0A] (bytes_of ?w @ [?b])")
      case True
      let ?n = "upd_workspace (\<lambda>w. w\<lparr>state := DELIVER_PENDING\<rparr>) ?e"
      have "frame_shape (framing ?w) (bytes_of ?w @ [?b])"
        using wok lt True free strat by (simp add: frame_shape_def workspace_ok_def frame_capacity_of_def)
      then have "push_ok p0 input ?n"
        by (intro push_ok_update [OF d(1), where new = "[]" and bs = "[?b]"])
          (use d(1) wok i st' lt b in \<open>auto simp: workspace_ok_def consume_def upd_workspace_def holds_def
            push_ok_def take_Suc_conv_app_nth\<close>)
      moreover have "?step = Next ?n"
        by (simp only: Let_def wse le ended True if_True if_False)
      ultimately show ?thesis by simp
    next
      case False
      show ?thesis
      proof (cases "buffered_size ?v = length (buffer ?v)")
        case full: True
        let ?n = "upd_workspace (\<lambda>w. w\<lparr>buffered_size := 0, state := DISCARD_UNTIL_CRLF\<rparr>)
          (record_discard (buffered_size ?v) (upd_workspace (\<lambda>w. w\<lparr>previous_was_cr := (?b = 0x0D)\<rparr>)
            (record_malformed FI_RECORD_TOO_LONG ?e)))"
        have "push_ok p0 input ?n"
          by (intro push_ok_update [OF d(1), where new = "[Skipped (bytes_of ?w @ [?b])]" and bs = "[?b]"])
            (use d(1) wok i st' lt in \<open>auto simp: workspace_ok_def consume_def upd_workspace_def holds_def
              record_discard_def record_malformed_def push_ok_def take_Suc_conv_app_nth\<close>)
        moreover have "?step = Next ?n"
        proof -
          have "(buffered_size ?v = length (buffer ?v)) = True" using full by simp
          then show ?thesis by (simp only: Let_def wse le ended False if_True if_False)
        qed
        ultimately show ?thesis by simp
      next
        case room: False
        have "crlf_free (bytes_of ?w @ [?b])" using crlf_free_snoc [OF free] False by simp
        then have "push_ok p0 input ?e"
          by (intro push_ok_update [OF d(1), where new = "[]" and bs = "[?b]"])
            (use d(1) wok i st' lt b room in \<open>auto simp: workspace_ok_def consume_def upd_workspace_def holds_def
              push_ok_def take_Suc_conv_app_nth\<close>)
        moreover have "?step = Next ?e"
          by (simp only: Let_def wse le ended False room if_True if_False)
        ultimately show ?thesis by simp
      qed
    qed
  qed
qed

lemma step_discard_keeps:
  assumes ok: "push_ok p0 input c" and st: "state (ps_workspace c) = DISCARD_UNTIL_CRLF"
  shows "keeps (push_ok p0 input) (step_discard input c)"
proof (cases "ps_input_index c = length input")
  case True
  then show ?thesis using ok by (simp add: step_discard_def)
next
  case more: False
  show ?thesis
    unfolding step_discard_def if_not_P [OF more]
  proof (rule charge_keeps [OF ok])
    fix d :: "'a push"
    assume d: "push_ok p0 input d" "ps_workspace d = ps_workspace c" "ps_input_index d = ps_input_index c"
    let ?w = "ps_workspace d" and ?b = "input ! ps_input_index d"
    have wok: "workspace_ok ?w" and st': "state ?w = DISCARD_UNTIL_CRLF"
      using d st by (simp_all add: push_ok_def)
    have i: "ps_input_index d < length input" using d more by (simp add: push_ok_def)
    have pos: "0 < length (buffer ?w)" using wok by (simp add: workspace_ok_def framing_ok_def)
    let ?e = "upd_workspace (\<lambda>w. w\<lparr>previous_was_cr := (?b = 0x0D)\<rparr>) (record_discard 1 (consume d))"
    let ?n = "if previous_was_cr ?w \<and> ?b = 0x0A
      then upd_workspace (\<lambda>w. w\<lparr>previous_was_cr := False, state := COLLECT_ASCII\<rparr>) ?e else ?e"
    have "push_ok p0 input ?n"
      by (intro push_ok_update [OF d(1), where new = "[Skipped [?b]]" and bs = "[?b]"])
        (use d(1) wok i st' pos in \<open>auto simp: workspace_ok_def consume_def upd_workspace_def holds_def
          record_discard_def push_ok_def take_Suc_conv_app_nth crlf_free_def\<close>)
    moreover have "previous_was_cr (ps_workspace (record_discard 1 (consume d))) = previous_was_cr ?w"
      by (simp add: consume_def record_discard_def)
    ultimately show "keeps (push_ok p0 input)
        (let byte = input ! ps_input_index d;
              c = record_discard 1 (consume d);
              terminated = (previous_was_cr (ps_workspace c) \<and> byte = 0x0A);
              c = upd_workspace (\<lambda>w. w\<lparr>previous_was_cr := (byte = 0x0D)\<rparr>) c
          in Next (if terminated then
                     upd_workspace (\<lambda>w. w\<lparr>previous_was_cr := False, state := COLLECT_ASCII\<rparr>) c
                   else c))"
      by (simp only: Let_def keeps_simps)
  qed
qed

end
