(* ===== verification/Framer_Sync.thy ===== *)
theory Framer_Sync
  imports Framer_Invariants
begin

text \<open>
  The states of the framer that deliver a frame, look for the synchronisation bytes, read the length
  field and recover from an invalid length: each turn keeps the invariant \<open>push_ok\<close>.
\<close>

subsection \<open>Delivery and synchronisation\<close>

lemma reset_ok:
  assumes "workspace_ok w"
  shows "workspace_ok (ResetCandidate w)" "holds (ResetCandidate w) []" "limits (ResetCandidate w) = limits w"
proof -
  show "workspace_ok (ResetCandidate w)"
    using assms
    by (auto simp: workspace_ok_def ResetCandidate_def Let_def framing_ok_def crlf_free_def
        split: FramingStrategy.splits)
  show "holds (ResetCandidate w) []" by (simp add: ResetCandidate_def Let_def holds_def)
  show "limits (ResetCandidate w) = limits w" by (simp add: ResetCandidate_def Let_def)
qed

lemma step_deliver_keeps:
  assumes ok: "push_ok p0 input c" and st: "state (ps_workspace c) = DELIVER_PENDING"
  shows "keeps (push_ok p0 input) (step_deliver sink c)"
proof (cases "rs_frames_delivered (ps_result c) \<ge> max_frames (ps_workspace c)")
  case True
  then show ?thesis using keeps_budget_stop [OF ok] by (simp add: step_deliver_def Let_def)
next
  case False
  let ?w = "ps_workspace c"
  have wok: "workspace_ok ?w" using ok by (simp add: push_ok_def)
  note reset = reset_ok [OF wok]
  obtain a u where s: "sink (ps_user c) (bytes_of ?w) = (a, u)" by (cases "sink (ps_user c) (bytes_of ?w)")
  let ?d = "c\<lparr>ps_user := u, ps_frames := ps_frames c @ [bytes_of ?w],
      ps_result := (ps_result c)\<lparr>rs_frames_delivered := rs_frames_delivered (ps_result c) + 1\<rparr>,
      ps_workspace := ResetCandidate ?w\<rparr>"
  let ?e = "?d\<lparr>ps_result := (ps_result ?d)\<lparr>rs_stop_reason := SR_SINK_STOP\<rparr>\<rparr>"
  have t: "traced p0 input ?d"
    by (rule traced_step [where new = "[Frame (bytes_of ?w)]" and bs = "[]" and c = c])
      (use ok st reset(2) in \<open>auto simp: push_ok_def holds_def\<close>)
  have "frame_shape (framing ?w) (bytes_of ?w)" using wok st by (simp add: workspace_ok_def)
  then have d: "push_ok p0 input ?d"
    using ok t False reset(1) limits_eqD(1,2,4) [OF reset(3)] by (simp add: push_ok_def)
  have te: "traced p0 input ?e"
    using t by (subst traced_cong [of ?e ?d]) simp_all
  have rest: "workspace_ok (ps_workspace ?e)" "ps_input_index ?e = rs_bytes_consumed (ps_result ?e)"
    "ps_input_index ?e \<le> length input" "rs_api_status (ps_result ?e) = SA_OK"
    "rs_work_units_used (ps_result ?e) \<le> max_work (ps_workspace ?e)"
    "rs_frames_delivered (ps_result ?e) = length (ps_frames ?e)"
    "length (ps_frames ?e) \<le> max_frames (ps_workspace ?e)"
    "\<forall>f \<in> set (ps_frames ?e). frame_shape (framing (ps_workspace ?e)) f"
    using d by (simp_all add: push_ok_def)
  have "push_ok p0 input ?e" unfolding push_ok_def by (intro conjI te rest)
  with d s False show ?thesis by (simp add: step_deliver_def Let_def)
qed

lemma Copy_loop_keeps:
  assumes "push_ok p0 input c" "state (ps_workspace c) = COPY_SYNC"
  shows "case Copy_loop c of
      Next d \<Rightarrow> push_ok p0 input d \<and> state (ps_workspace d) = COPY_SYNC \<and>
        copy_sync_index (ps_workspace d) = length (sync_of (ps_workspace d))
    | Return d \<Rightarrow> push_ok p0 input d | Break d \<Rightarrow> False | Hang \<Rightarrow> False"
  using assms
proof (induction c rule: Copy_loop.induct)
  case (1 c)
  let ?w = "ps_workspace c"
  have wok: "workspace_ok ?w" using "1.prems"(1) by (simp add: push_ok_def)
  show ?case
  proof (cases "copy_sync_index ?w < length (sync_of ?w)")
    case False
    have "copy_sync_index ?w \<le> length (sync_of ?w)" using wok "1.prems"(2) by (simp add: workspace_ok_def)
    with False have "copy_sync_index ?w = length (sync_of ?w)" by simp
    moreover have "Copy_loop c = Next c" using False by (subst Copy_loop.simps) (simp add: Let_def)
    ultimately show ?thesis using "1.prems" by simp
  next
    case True
    have cap: "length (sync_of ?w) \<le> length (buffer ?w)"
      using wok "1.prems"(2)
      by (auto simp: workspace_ok_def framing_ok_def frame_capacity_of_def header_end_def)
    then have lt: "buffered_size ?w < length (buffer ?w)"
      using True wok "1.prems"(2) by (auto simp: workspace_ok_def)
    show ?thesis
    proof (cases "charge 1 c")
      case None
      then have "Copy_loop c = budget_stop c" using True by (subst Copy_loop.simps) (simp add: Let_def)
      then show ?thesis using keeps_budget_stop [OF "1.prems"(1)] by (simp add: budget_stop_def)
    next
      case (Some d)
      note d = push_ok_charge [OF "1.prems"(1) Some]
      let ?b = "sync_of ?w ! copy_sync_index ?w"
      let ?v = "(store_byte ?b ?w)\<lparr>copy_sync_index := copy_sync_index ?w + 1\<rparr>"
      let ?e = "d\<lparr>ps_workspace := ?v\<rparr>"
      have b: "take (Suc (buffered_size ?w)) (buffer (store_byte ?b ?w)) = bytes_of ?w @ [?b]"
        by (rule store_bytes [OF lt])
      have sok: "state_ok ?w COPY_SYNC" using wok "1.prems"(2) by (simp add: workspace_ok_def)
      have copied: "take (Suc (copy_sync_index ?w)) (buffer ?v) = take (Suc (copy_sync_index ?w)) (sync_of ?w)"
      proof -
        have "take (copy_sync_index ?w) (buffer ?w) = take (copy_sync_index ?w) (sync_of ?w)"
          "buffered_size ?w = copy_sync_index ?w"
          using sok by simp_all
        then show ?thesis using b True by (simp add: take_Suc_conv_app_nth)
      qed
      have "state_ok ?v COPY_SYNC" using sok copied True by simp
      then have v: "workspace_ok ?v" using wok "1.prems"(2) by (simp add: workspace_ok_def)
      have dok: "push_ok p0 input d" and dw: "ps_workspace d = ?w" using d by simp_all
      have e: "push_ok p0 input ?e"
        by (intro push_ok_update [OF dok, where new = "[]" and bs = "[]"])
          (use v dok dw "1.prems"(2) in \<open>simp_all add: push_ok_def holds_def\<close>)
      have "Copy_loop c = Copy_loop ?e"
        using True Some lt by (subst Copy_loop.simps) (simp add: Let_def)
      moreover have "case Copy_loop ?e of
          Next d \<Rightarrow> push_ok p0 input d \<and> state (ps_workspace d) = COPY_SYNC \<and>
            copy_sync_index (ps_workspace d) = length (sync_of (ps_workspace d))
        | Return d \<Rightarrow> push_ok p0 input d | Break d \<Rightarrow> False | Hang \<Rightarrow> False"
        by (rule "1.IH" [OF refl True Some _ e]) (use lt "1.prems"(2) in simp_all)
      ultimately show ?thesis by simp
    qed
  qed
qed

lemma step_copy_keeps:
  assumes ok: "push_ok p0 input c" and st: "state (ps_workspace c) = COPY_SYNC"
  shows "keeps (push_ok p0 input) (step_copy c)"
proof (cases "Copy_loop c")
  case (Next d)
  have d: "push_ok p0 input d" "state (ps_workspace d) = COPY_SYNC"
    "copy_sync_index (ps_workspace d) = length (sync_of (ps_workspace d))"
    using Copy_loop_keeps [OF assms] Next by simp_all
  let ?w = "ps_workspace d"
  have wok: "workspace_ok ?w" using d(1) by (simp add: push_ok_def)
  have bytes: "bytes_of ?w = sync_of ?w" "buffered_size ?w = length (sync_of ?w)"
    using wok d(2,3) by (auto simp: workspace_ok_def)
  show ?thesis
  proof (cases "fp_strategy (framing ?w) = FS_SYNC_FIXED_LENGTH")
    case True
    let ?n = "d\<lparr>ps_workspace := ?w\<lparr>copy_sync_index := 0, target_size := fp_frame_length_bytes (framing ?w),
        state := (if buffered_size ?w = fp_frame_length_bytes (framing ?w) then DELIVER_PENDING
                  else COLLECT_DECLARED)\<rparr>\<rparr>"
    have "workspace_ok (ps_workspace ?n)"
      using wok True bytes
      by (auto simp: workspace_ok_def framing_ok_def frame_capacity_of_def frame_shape_def)
    then have "push_ok p0 input ?n"
      by (intro push_ok_update [OF d(1), where new = "[]" and bs = "[]"])
        (use d bytes in \<open>auto simp: push_ok_def holds_def\<close>)
    then show ?thesis using Next True by (simp add: step_copy_def upd_workspace_def Let_def)
  next
    case False
    let ?n = "d\<lparr>ps_workspace := ?w\<lparr>copy_sync_index := 0, state := READ_LENGTH\<rparr>\<rparr>"
    have "workspace_ok (ps_workspace ?n)"
      using wok False bytes d(2)
      by (auto simp: workspace_ok_def framing_ok_def header_end_def)
    then have "push_ok p0 input ?n"
      by (intro push_ok_update [OF d(1), where new = "[]" and bs = "[]"])
        (use d bytes in \<open>auto simp: push_ok_def holds_def\<close>)
    then show ?thesis using Next False by (simp add: step_copy_def upd_workspace_def Let_def)
  qed
qed (use Copy_loop_keeps [OF assms] in \<open>simp_all add: step_copy_def\<close>)

subsection \<open>Searching for the synchronisation bytes\<close>

lemma search_state_self: "m < length pat \<Longrightarrow> search_state pat (take m pat) m"
  using matches_le [of pat "take m pat"] by (auto simp: search_state_def matches_def)

lemma matches_split:
  assumes "matches pat s k" shows "s = take (length s - k) s @ take k pat"
proof -
  have "k \<le> length pat" "k \<le> length s" using matches_le [OF assms] by simp_all
  moreover obtain z where "s = z @ take k pat" using assms by (auto simp: matches_def suffix_def)
  ultimately show ?thesis by simp
qed

lemma matches_all:
  assumes "matches pat s (length pat)" "length s \<le> length pat" shows "s = pat"
  using matches_split [OF assms(1)] matches_le [OF assms(1)] assms(2) by simp

lemma step_search_keeps:
  assumes ok: "push_ok p0 input c" and st: "state (ps_workspace c) = SEARCH_SYNC"
  shows "keeps (push_ok p0 input) (step_search input c)"
proof (cases "ps_input_index c = length input")
  case True
  then show ?thesis using ok by (simp add: step_search_def)
next
  case more: False
  let ?w = "ps_workspace c" and ?b = "input ! ps_input_index c"
  let ?m = "sync_match ?w" and ?s = "take (sync_match ?w) (sync_of ?w)"
  have wok: "workspace_ok ?w" using ok by (simp add: push_ok_def)
  then have m: "?m < length (sync_of ?w)" and table: "fp_sync_prefix_table (framing ?w) = PrefixTable (sync_of ?w)"
    and strat: "fp_strategy (framing ?w) = FS_SYNC_FIXED_LENGTH \<or> fp_strategy (framing ?w) = FS_SYNC_LENGTH_FIELD"
    and cap: "length (buffer ?w) = frame_capacity_of (framing ?w)" "framing_ok (framing ?w)"
    using st by (auto simp: workspace_ok_def framing_ok_def)
  obtain k n where f: "Fallback_units (sync_of ?w) (PrefixTable (sync_of ?w)) ?b ?m 1 = Some (k, 1 + 2 * n)"
    and best: "best (sync_of ?w) (?s @ [?b]) (Advance (sync_of ?w) ?b k)"
    using kmp.step [OF search_state_self [OF m], of ?b 1] by blast
  let ?n = "Advance (sync_of ?w) ?b k"
  have mat: "matches (sync_of ?w) (?s @ [?b]) ?n" using best by (simp add: best_def)
  have len: "length (?s @ [?b]) = ?m + 1" using m by simp
  have i: "ps_input_index c < length input" using ok more by (simp add: push_ok_def)
  show ?thesis
  proof (cases "charge (1 + 2 * n + 1) c")
    case None
    then have "step_search input c = budget_stop c" using more f by (simp add: step_search_def table Let_def)
    then show ?thesis using keeps_budget_stop [OF ok] by simp
  next
    case (Some d)
    note d = push_ok_charge [OF ok Some]
    then have dok: "push_ok p0 input d" and dw: "ps_workspace d = ?w" and di: "ps_input_index d = ps_input_index c"
      by simp_all
    let ?e = "consume (upd_workspace (\<lambda>w. w\<lparr>sync_match := ?n\<rparr>) d)"
    show ?thesis
    proof (cases "?n = length (sync_of ?w)")
      case True
      let ?g = "upd_workspace (\<lambda>w. w\<lparr>sync_match := 0, buffered_size := 0, copy_sync_index := 0, state := COPY_SYNC\<rparr>) ?e"
      have full: "?s @ [?b] = sync_of ?w" using mat True len m by (intro matches_all) simp_all
      have gw: "workspace_ok (ps_workspace ?g)"
        using strat cap by (simp add: workspace_ok_def upd_workspace_def consume_def dw)
      have "push_ok p0 input ?g"
        by (intro push_ok_update [OF dok, where new = "[]" and bs = "[?b]"])
          (use gw dok dw di i st full in \<open>auto simp: holds_def consume_def upd_workspace_def push_ok_def
            take_Suc_conv_app_nth\<close>)
      moreover have "step_search input c = Next ?g"
        using more f Some True by (simp add: step_search_def table Let_def)
      ultimately show ?thesis by simp
    next
      case False
      let ?g = "record_discard (?m + 1 - ?n) ?e"
      have lt: "?n < length (sync_of ?w)" using matches_le [OF mat] False by simp
      have le: "?n \<le> ?m + 1" using matches_le [OF mat] len by simp
      have gw: "workspace_ok (ps_workspace ?g)"
        using strat cap lt st by (simp add: workspace_ok_def upd_workspace_def consume_def record_discard_def dw)
      have parts: "?s @ [?b] = take (?m + 1 - ?n) (?s @ [?b]) @ take ?n (sync_of ?w)"
        using matches_split [OF mat] by (simp only: len)
      have trace: "\<exists>p'. holds (ps_workspace ?g) p' \<and>
          p @ [?b] = stream_bytes [Skipped (take (?m + 1 - ?n) (?s @ [?b]))] @ p'" if "holds (ps_workspace d) p" for p
      proof (intro exI conjI)
        show "holds (ps_workspace ?g) (take ?n (sync_of ?w))"
          using st by (simp add: holds_def dw consume_def upd_workspace_def record_discard_def)
        have "p = ?s" using that st by (simp add: holds_def dw)
        then show "p @ [?b] = stream_bytes [Skipped (take (?m + 1 - ?n) (?s @ [?b]))] @ take ?n (sync_of ?w)"
          using parts by (simp only: segs_simps segment_bytes.simps append_Nil2)
      qed
      have size: "skipped_count [Skipped (take (?m + 1 - ?n) (?s @ [?b]))] = ?m + 1 - ?n"
        by (simp del: take_append add: min_def) (use m in linarith)
      have "push_ok p0 input ?g"
      proof (rule push_ok_update [OF dok gw _ _ _ _ trace])
        show "rs_bytes_discarded (ps_result ?g) = rs_bytes_discarded (ps_result d) +
            skipped_count [Skipped (take (?m + 1 - ?n) (?s @ [?b]))]"
          unfolding size by (simp add: record_discard_def consume_def upd_workspace_def)
      qed (use dok i di in \<open>simp_all add: consume_def upd_workspace_def push_ok_def record_discard_def
            take_Suc_conv_app_nth\<close>)
      moreover have "step_search input c = Next ?g"
        using more f Some False by (simp add: step_search_def table Let_def)
      ultimately show ?thesis by simp
    qed
  qed
qed

end
