(* ===== verification/Framer_Recovery.thy ===== *)
theory Framer_Recovery
  imports Framer_Sync
begin

text \<open>
  The states of the framer that read the length field, recover from an invalid length and compact the
  buffer, and the whole loop: every turn keeps the invariant \<open>push_ok\<close>, so a submission on an admitted
  framing profile returns, with neither an internal error nor a cut-short loop.
\<close>

lemma workspace_okD: "workspace_ok w \<Longrightarrow> state_ok w (state w)"
  by (simp add: workspace_ok_def)

subsection \<open>Reading the length field\<close>

lemma accept_length_keeps:
  assumes ok: "push_ok p0 input d" and st: "state (ps_workspace d) = READ_LENGTH"
    and full: "buffered_size (ps_workspace d) = header_end (framing (ps_workspace d))"
    and declared: "unat declared = declared_length (framing (ps_workspace d)) (bytes_of (ps_workspace d))"
  shows "push_ok p0 input (accept_length declared d)"
proof -
  let ?w = "ps_workspace d" and ?f = "framing (ps_workspace d)"
  have wok: "workspace_ok ?w" using ok by (simp add: push_ok_def)
  then have strat: "fp_strategy ?f = FS_SYNC_LENGTH_FIELD" and sync: "prefix (sync_of ?w) (bytes_of ?w)"
    and fok: "framing_ok ?f" and cap: "length (buffer ?w) = fp_maximum_frame_length ?f"
    using st by (auto simp: workspace_ok_def frame_capacity_of_def)
  have ne: "sync_of ?w \<noteq> []" and hmin: "header_end ?f \<le> fp_minimum_frame_length ?f"
    and mm: "fp_minimum_frame_length ?f \<le> fp_maximum_frame_length ?f"
    using fok strat by (auto simp: framing_ok_def)
  have hpos: "1 \<le> header_end ?f" using fok strat by (auto simp: framing_ok_def header_end_def)
  show ?thesis
  proof (cases "unat declared < fp_minimum_frame_length ?f \<or> unat declared > fp_maximum_frame_length ?f \<or>
      unat declared > length (buffer ?w)")
    case True
    let ?e = "upd_workspace (\<lambda>w. w\<lparr>rescan_index := 1, rescan_match := 0, state := RESCAN_INVALID\<rparr>)
        (record_malformed FI_MALFORMED_LENGTH d)"
    have eq: "accept_length declared d = ?e" using True by (simp add: accept_length_def Let_def)
    have start: "search_state (sync_of ?w) (drop 1 (take 1 (buffer ?w))) 0"
      using search_state_start [OF ne] by simp
    have "workspace_ok (ps_workspace ?e)"
      using wok strat full hpos start
      by (simp add: workspace_ok_def upd_workspace_def record_malformed_def)
    then show ?thesis
      unfolding eq
      by (intro push_ok_update [OF ok, where new = "[]" and bs = "[]"])
        (use ok st in \<open>auto simp: upd_workspace_def record_malformed_def holds_def push_ok_def\<close>)
  next
    case False
    let ?st = "if buffered_size ?w = unat declared then DELIVER_PENDING else COLLECT_DECLARED"
    let ?e = "upd_workspace (\<lambda>w. w\<lparr>target_size := unat declared, state := ?st\<rparr>) d"
    have eq: "accept_length declared d = ?e" using False by (simp add: accept_length_def Let_def upd_workspace_def)
    have len: "length (bytes_of ?w) = buffered_size ?w" using full hmin mm cap by simp
    have "workspace_ok (ps_workspace ?e)"
      using wok strat sync full hmin mm cap False declared len
      by (simp add: workspace_ok_def upd_workspace_def frame_shape_def)
    then show ?thesis
      unfolding eq
      by (intro push_ok_update [OF ok, where new = "[]" and bs = "[]"])
        (use ok st in \<open>auto simp: upd_workspace_def holds_def push_ok_def\<close>)
  qed
qed

lemma step_read_length_keeps:
  assumes ok: "push_ok p0 input c" and st: "state (ps_workspace c) = READ_LENGTH"
  shows "keeps (push_ok p0 input) (step_read_length input c)"
proof -
  let ?w = "ps_workspace c" and ?f = "framing (ps_workspace c)"
  have wok: "workspace_ok ?w" using ok by (simp add: push_ok_def)
  then have strat: "fp_strategy ?f = FS_SYNC_LENGTH_FIELD" and sync: "prefix (sync_of ?w) (bytes_of ?w)"
    and fok: "framing_ok ?f" and cap: "length (buffer ?w) = fp_maximum_frame_length ?f"
    and le: "buffered_size ?w \<le> header_end ?f"
    using st by (auto simp: workspace_ok_def frame_capacity_of_def)
  have room: "header_end ?f \<le> length (buffer ?w)"
    using fok strat cap by (auto simp: framing_ok_def)
  note he = header_size_add [OF fok strat]
  show ?thesis
  proof (cases "buffered_size ?w < header_end ?f")
    case lt: True
    show ?thesis
    proof (cases "ps_input_index c = length input")
      case True
      then show ?thesis using ok lt by (simp add: step_read_length_def he Let_def)
    next
      case more: False
      have "keeps (push_ok p0 input) (case charge 2 c of None \<Rightarrow> budget_stop c
          | Some c \<Rightarrow> if buffered_size ?w \<ge> length (buffer ?w) then internal_error c
              else Next (consume (upd_workspace (store_byte (input ! ps_input_index c)) c)))"
      proof (rule charge_keeps [OF ok])
        fix d :: "'a push"
        assume d: "push_ok p0 input d" "ps_workspace d = ?w" "ps_input_index d = ps_input_index c"
        let ?b = "input ! ps_input_index d"
        let ?e = "consume (upd_workspace (store_byte ?b) d)"
        have i: "ps_input_index d < length input" using d more by (simp add: push_ok_def)
        have b: "take (Suc (buffered_size ?w)) (buffer (store_byte ?b ?w)) = bytes_of ?w @ [?b]"
          by (rule store_bytes) (use lt room in simp)
        have "workspace_ok (ps_workspace ?e)"
          using wok strat st lt b prefix_snoc_bytes [OF sync, of ?b]
          by (simp add: workspace_ok_def consume_def upd_workspace_def d)
        then have "push_ok p0 input ?e"
          by (intro push_ok_update [OF d(1), where new = "[]" and bs = "[?b]"])
            (use d i st b in \<open>auto simp: consume_def upd_workspace_def holds_def push_ok_def take_Suc_conv_app_nth\<close>)
        then show "keeps (push_ok p0 input) (if buffered_size ?w \<ge> length (buffer ?w) then internal_error d
            else Next (consume (upd_workspace (store_byte (input ! ps_input_index d)) d)))"
          using lt room by simp
      qed
      then show ?thesis using lt more by (simp add: step_read_length_def he Let_def)
    qed
  next
    case False
    then have full: "buffered_size ?w = header_end ?f" using le by simp
    let ?dl = "Read_declared ?f (buffer ?w) [0..<fp_length_field_width ?f] 0"
    have "?dl = Read_declared ?f (bytes_of ?w) [0..<fp_length_field_width ?f] 0"
      by (rule Read_declared_cong) (use full room in auto)
    then have dl: "unat ?dl = declared_length ?f (bytes_of ?w)" by (simp add: declared_length_def)
    have "keeps (push_ok p0 input) (case charge (fp_length_field_width ?f) c of None \<Rightarrow> budget_stop c
        | Some c \<Rightarrow> Next (accept_length ?dl c))"
    proof (rule charge_keeps [OF ok])
      fix d :: "'a push"
      assume d: "push_ok p0 input d" "ps_workspace d = ?w" "ps_input_index d = ps_input_index c"
      show "keeps (push_ok p0 input) (Next (accept_length ?dl d))"
        using accept_length_keeps [OF d(1), of ?dl] d(2) st full dl by simp
    qed
    then show ?thesis using False by (simp add: step_read_length_def he Let_def)
  qed
qed

subsection \<open>Rescanning an invalid candidate\<close>

lemma matches_drop: "matches pat (drop n s) k \<Longrightarrow> matches pat s k"
  by (auto simp: matches_def intro: suffix_order.trans suffix_drop)

lemma matches_full: "matches pat s (length pat) \<Longrightarrow> s = take (length s - length pat) s @ pat"
  using matches_split [of pat s "length pat"] by simp

lemma take_parts: "n \<le> k \<Longrightarrow> take k xs = take n xs @ drop n (take k xs)"
  using append_take_drop_id [of n "take k xs"] by (simp add: min_def)

lemma drop1_snoc: "1 \<le> i \<Longrightarrow> i < length xs \<Longrightarrow> drop 1 (take (Suc i) xs) = drop 1 (take i xs) @ [xs ! i]"
  by (simp add: take_Suc_conv_app_nth)

definition rescanned :: "u8 list \<Rightarrow> u8 list \<Rightarrow> 'u push Iter \<Rightarrow> bool" where
  "rescanned p0 input it = (case it of
      Next d \<Rightarrow> push_ok p0 input d \<and>
        (state (ps_workspace d) = COMPACT_INVALID \<or>
         state (ps_workspace d) = RESCAN_INVALID \<and>
           rescan_index (ps_workspace d) = buffered_size (ps_workspace d))
    | Return d \<Rightarrow> push_ok p0 input d
    | Break d \<Rightarrow> False
    | Hang \<Rightarrow> False)"

lemma rescan_found:
  assumes wok: "workspace_ok w" and st: "state w = RESCAN_INVALID"
    and more: "rescan_index w < buffered_size w" and room: "buffered_size w \<le> length (buffer w)"
    and found: "matches (sync_of w) (drop 1 (take (Suc (rescan_index w)) (buffer w))) (length (sync_of w))"
  defines "start \<equiv> rescan_index w + 1 - length (sync_of w)"
  shows "1 \<le> start" "start \<le> buffered_size w" "prefix (sync_of w) (drop start (bytes_of w))"
proof -
  let ?s = "take (Suc (rescan_index w)) (buffer w)"
  have len: "length ?s = Suc (rescan_index w)" using more room by simp
  have le: "length (sync_of w) \<le> rescan_index w" using matches_le [OF found] len by simp
  then show "1 \<le> start" "start \<le> buffered_size w" using more by (simp_all add: start_def)
  have "?s = take (length ?s - length (sync_of w)) ?s @ sync_of w"
    by (rule matches_full [OF matches_drop [OF found]])
  then have s: "?s = take start ?s @ sync_of w" by (simp only: len start_def One_nat_def add_Suc_right add_0_right)
  have "length (take start ?s) = start" using len by (simp add: start_def)
  then have "drop start ?s = sync_of w" using s by (metis append_eq_conv_conj)
  moreover have "bytes_of w = ?s @ drop (Suc (rescan_index w)) (bytes_of w)"
    using more append_take_drop_id [of "Suc (rescan_index w)" "bytes_of w"] by (simp add: min_def)
  then have "drop start (bytes_of w) = drop start ?s @ drop (Suc (rescan_index w)) (bytes_of w)"
    using len by (subst \<open>bytes_of w = _\<close>, subst drop_append) (simp add: start_def)
  ultimately show "prefix (sync_of w) (drop start (bytes_of w))" by simp
qed

lemma Rescan_loop_keeps:
  assumes "push_ok p0 input c" "state (ps_workspace c) = RESCAN_INVALID"
  shows "rescanned p0 input (Rescan_loop c)"
  using assms
proof (induction c rule: Rescan_loop.induct)
  case (1 c)
  let ?w = "ps_workspace c"
  have wok: "workspace_ok ?w" using "1.prems"(1) by (simp add: push_ok_def)
  then have sok: "state_ok ?w RESCAN_INVALID" using "1.prems"(2) by (simp add: workspace_ok_def)
  have table: "fp_sync_prefix_table (framing ?w) = PrefixTable (sync_of ?w)"
    and room: "buffered_size ?w \<le> length (buffer ?w)"
    using wok sok by (auto simp: workspace_ok_def framing_ok_def frame_capacity_of_def)
  show ?case
  proof (cases "rescan_index ?w < buffered_size ?w")
    case False
    then have "Rescan_loop c = Next c" by (subst Rescan_loop.simps) (simp add: Let_def)
    then show ?thesis using "1.prems" False sok by (simp add: rescanned_def)
  next
    case True
    let ?b = "buffer ?w ! rescan_index ?w" and ?s = "drop 1 (take (rescan_index ?w) (buffer ?w))"
    have ss: "search_state (sync_of ?w) ?s (rescan_match ?w)" using sok by simp
    obtain k n where f: "Fallback_units (sync_of ?w) (PrefixTable (sync_of ?w)) ?b (rescan_match ?w) 1
        = Some (k, 1 + 2 * n)"
      and best: "best (sync_of ?w) (?s @ [?b]) (Advance (sync_of ?w) ?b k)"
      using kmp.step [OF ss, of ?b 1] by blast
    let ?n = "Advance (sync_of ?w) ?b k"
    have snoc: "drop 1 (take (Suc (rescan_index ?w)) (buffer ?w)) = ?s @ [?b]"
      by (rule drop1_snoc) (use sok True room in simp_all)
    show ?thesis
    proof (cases "charge (1 + 2 * n + 1) c")
      case None
      then have "Rescan_loop c = budget_stop c"
        using True f by (subst Rescan_loop.simps) (simp add: Let_def table)
      then show ?thesis using keeps_budget_stop [OF "1.prems"(1)]
        by (simp add: budget_stop_def rescanned_def)
    next
      case (Some d)
      have dok: "push_ok p0 input d" and dw: "ps_workspace d = ?w"
        using push_ok_charge [OF "1.prems"(1) Some] by simp_all
      let ?v = "?w\<lparr>rescan_match := ?n, rescan_index := rescan_index ?w + 1\<rparr>"
      show ?thesis
      proof (cases "?n = length (sync_of ?w)")
        case found: True
        let ?start = "rescan_index ?w + 1 - length (sync_of ?w)"
        let ?g = "d\<lparr>ps_workspace := ?v\<lparr>compact_start := ?start, compact_size := buffered_size ?w - ?start,
            compact_moved := 0, state := COMPACT_INVALID\<rparr>\<rparr>"
        have "matches (sync_of ?w) (drop 1 (take (Suc (rescan_index ?w)) (buffer ?w))) (length (sync_of ?w))"
          using best found snoc by (simp add: best_def)
        note start = rescan_found [OF wok "1.prems"(2) True room this]
        have gw: "workspace_ok (ps_workspace ?g)"
          using wok sok start by (simp add: workspace_ok_def)
        have "holds (ps_workspace d) p \<Longrightarrow>
            \<exists>p'. holds (ps_workspace ?g) p' \<and> p @ [] = stream_bytes [] @ p'" for p
          using start(2) room "1.prems"(2) take_parts [OF start(2), of "buffer ?w"]
          by (auto simp: holds_def dw intro!: exI [of _ "take ?start (buffer ?w)"])
        then have g: "push_ok p0 input ?g"
          by (intro push_ok_update [OF dok gw, where new = "[]" and bs = "[]"])
            (use dok in \<open>simp_all add: push_ok_def dw\<close>)
        have "Rescan_loop c = Next ?g"
          using True f Some found by (subst Rescan_loop.simps) (simp add: Let_def table)
        then show ?thesis using g by (simp add: rescanned_def)
      next
        case False
        let ?e = "d\<lparr>ps_workspace := ?v\<rparr>"
        have lt: "?n < length (sync_of ?w)" using best False matches_le [of "sync_of ?w" "?s @ [?b]" ?n]
          by (simp add: best_def)
        have "search_state (sync_of ?w) (drop 1 (take (Suc (rescan_index ?w)) (buffer ?w))) ?n"
          unfolding snoc by (rule search_state_best [OF best lt])
        then have v: "workspace_ok ?v" using wok sok True "1.prems"(2) by (simp add: workspace_ok_def)
        have e: "push_ok p0 input ?e"
          by (intro push_ok_update [OF dok, where new = "[]" and bs = "[]"])
            (use v dok dw "1.prems"(2) in \<open>simp_all add: push_ok_def holds_def\<close>)
        have eq: "Rescan_loop c = Rescan_loop ?e"
          using True f Some False by (subst Rescan_loop.simps) (simp add: Let_def table)
        have "rescanned p0 input (Rescan_loop ?e)"
          by (rule "1.IH" [OF refl refl True refl f [folded table] refl _ refl _ e])
            (use Some False "1.prems"(2) in simp_all)
        then show ?thesis by (simp only: eq)
      qed
    qed
  qed
qed

lemma step_rescan_keeps:
  assumes ok: "push_ok p0 input c" and st: "state (ps_workspace c) = RESCAN_INVALID"
  shows "keeps (push_ok p0 input) (step_rescan c)"
proof (cases "Rescan_loop c")
  case (Next d)
  let ?w = "ps_workspace d"
  have d: "push_ok p0 input d"
    "state ?w = COMPACT_INVALID \<or> state ?w = RESCAN_INVALID \<and> rescan_index ?w = buffered_size ?w"
    using Rescan_loop_keeps [OF assms] Next by (simp_all add: rescanned_def)
  show ?thesis
  proof (cases "state ?w = COMPACT_INVALID")
    case True
    then show ?thesis using d Next by (simp add: step_rescan_def)
  next
    case False
    then have st': "state ?w = RESCAN_INVALID" and all: "rescan_index ?w = buffered_size ?w" using d by auto
    have wok: "workspace_ok ?w" using d(1) by (simp add: push_ok_def)
    then have sok: "state_ok ?w RESCAN_INVALID" using st' by (simp add: workspace_ok_def)
    have room: "buffered_size ?w \<le> length (buffer ?w)"
      using wok sok by (auto simp: workspace_ok_def framing_ok_def frame_capacity_of_def)
    let ?m = "rescan_match ?w"
    let ?g = "upd_workspace (\<lambda>w. w\<lparr>buffered_size := 0, sync_match := ?m,
                           rescan_index := 0, rescan_match := 0, state := SEARCH_SYNC\<rparr>)
                         (record_discard (buffered_size ?w - ?m) d)"
    have "search_state (sync_of ?w) (drop 1 (take (rescan_index ?w) (buffer ?w))) ?m" using sok by simp
    then have ss: "search_state (sync_of ?w) (drop 1 (bytes_of ?w)) ?m" by (simp only: all)
    then have mlt: "?m < length (sync_of ?w)" and mat: "matches (sync_of ?w) (bytes_of ?w) ?m"
      by (auto simp: search_state_def dest: matches_drop)
    have len: "length (bytes_of ?w) = buffered_size ?w" using room by simp
    have parts: "bytes_of ?w = take (buffered_size ?w - ?m) (bytes_of ?w) @ take ?m (sync_of ?w)"
      using matches_split [OF mat] by (simp only: len)
    have gw: "workspace_ok (ps_workspace ?g)"
      using wok sok mlt by (simp add: workspace_ok_def upd_workspace_def record_discard_def)
    let ?skip = "take (buffered_size ?w - ?m) (bytes_of ?w)"
    have trace: "\<exists>p'. holds (ps_workspace ?g) p' \<and> p @ [] = stream_bytes [Skipped ?skip] @ p'"
      if "holds (ps_workspace d) p" for p
    proof (intro exI conjI)
      show "holds (ps_workspace ?g) (take ?m (sync_of ?w))"
        by (simp add: holds_def upd_workspace_def record_discard_def)
      have "p = bytes_of ?w" using that st' by (simp add: holds_def)
      then show "p @ [] = stream_bytes [Skipped ?skip] @ take ?m (sync_of ?w)"
        using parts by (simp only: segs_simps segment_bytes.simps append_Nil2)
    qed
    have size: "skipped_count [Skipped ?skip] = buffered_size ?w - ?m"
      using room by (simp add: min_def; linarith)
    have "push_ok p0 input ?g"
    proof (rule push_ok_update [OF d(1) gw _ _ _ _ trace])
      show "rs_bytes_discarded (ps_result ?g) = rs_bytes_discarded (ps_result d) + skipped_count [Skipped ?skip]"
        unfolding size by (simp add: record_discard_def upd_workspace_def)
    qed (use d in \<open>simp_all add: upd_workspace_def push_ok_def record_discard_def\<close>)
    then show ?thesis using Next False by (simp add: step_rescan_def Let_def)
  qed
qed (use Rescan_loop_keeps [OF assms] in \<open>simp_all add: step_rescan_def rescanned_def\<close>)

subsection \<open>Compacting the buffer\<close>

lemma memmove_take:
  assumes "s + m + n \<le> length xs"
  shows "take (m + n) (memmove xs m (s + m) n) = take m xs @ take n (drop (s + m) xs)"
    and "drop (s + m + n) (memmove xs m (s + m) n) = drop (s + m + n) xs"
    and "length (memmove xs m (s + m) n) = length xs"
proof -
  show "take (m + n) (memmove xs m (s + m) n) = take m xs @ take n (drop (s + m) xs)"
    using assms by (auto simp: memmove_def min_def)
  show "drop (s + m + n) (memmove xs m (s + m) n) = drop (s + m + n) xs"
    using assms by (simp add: memmove_def add.assoc)
  show "length (memmove xs m (s + m) n) = length xs"
    using assms by (simp add: memmove_def)
qed


lemma memmove_content:
  assumes "s + m + n \<le> k" "k \<le> length xs"
  defines "ys \<equiv> memmove xs m (s + m) n"
  shows "take (m + n) ys @ drop (s + (m + n)) (take k ys) = take m xs @ drop (s + m) (take k xs)"
proof -
  have "drop (s + (m + n)) (take k ys) = take (k - (s + m + n)) (drop (s + m + n) ys)"
    by (simp add: drop_take add.assoc)
  also have "\<dots> = take (k - (s + m + n)) (drop (s + m + n) xs)"
    unfolding ys_def using assms by (subst memmove_take(2)) simp_all
  finally have d: "drop (s + (m + n)) (take k ys) = take (k - (s + m + n)) (drop (s + m + n) xs)" .
  have "drop (s + m) (take k xs) = take (n + (k - (s + m + n))) (drop (s + m) xs)"
    using assms by (simp add: drop_take)
  also have "\<dots> = take n (drop (s + m) xs) @ take (k - (s + m + n)) (drop n (drop (s + m) xs))"
    by (rule take_add)
  finally have "drop (s + m) (take k xs) = take n (drop (s + m) xs) @ take (k - (s + m + n)) (drop (s + m + n) xs)"
    by (simp add: add.commute add.left_commute)
  moreover have "take (m + n) ys = take m xs @ take n (drop (s + m) xs)"
    unfolding ys_def using assms by (intro memmove_take(1)) simp
  ultimately show ?thesis by (simp add: d)
qed

lemma traced_skip:
  assumes "traced p0 input c" "ps_input_index c' = ps_input_index c" "ps_frames c' = ps_frames c"
    and "\<And>p. holds (ps_workspace c) p \<Longrightarrow> \<exists>q p'. p = q @ p' \<and> length q = n \<and> holds (ps_workspace c') p'"
    and "rs_bytes_discarded (ps_result c') = rs_bytes_discarded (ps_result c) + n"
  shows "traced p0 input c'"
proof -
  from assms(1) obtain segs p where t: "holds (ps_workspace c) p"
    "p0 @ take (ps_input_index c) input = stream_bytes segs @ p"
    "ps_frames c = frames_of segs" "rs_bytes_discarded (ps_result c) = skipped_count segs"
    by (auto simp: traced_def)
  from assms(4) [OF t(1)] obtain q p' where "p = q @ p'" "length q = n" "holds (ps_workspace c') p'" by blast
  then show ?thesis
    unfolding traced_def using t assms(2,3,5)
    by (intro exI [of _ "segs @ [Skipped q]"] exI [of _ p']) simp
qed

lemma finish_compact_keeps:
  assumes ok: "push_ok p0 input c" and st: "state (ps_workspace c) = COMPACT_INVALID"
    and all: "compact_moved (ps_workspace c) = compact_size (ps_workspace c)"
  shows "keeps (push_ok p0 input) (finish_compact c)"
proof -
  let ?w = "ps_workspace c"
  let ?g = "upd_workspace (\<lambda>w. w\<lparr>buffered_size := compact_size w, compact_start := 0,
                 compact_size := 0, compact_moved := 0, rescan_index := 0, rescan_match := 0,
                 state := READ_LENGTH\<rparr>) (record_discard (compact_start ?w) c)"
  have wok: "workspace_ok ?w" using ok by (simp add: push_ok_def)
  have sok: "state_ok ?w COMPACT_INVALID" using workspace_okD [OF wok] by (simp only: st)
  then have sum: "compact_start ?w + compact_size ?w = buffered_size ?w"
    and moved: "prefix (sync_of ?w) (take (compact_moved ?w) (buffer ?w) @
        drop (compact_start ?w + compact_moved ?w) (bytes_of ?w))"
    and rest: "fp_strategy (framing ?w) = FS_SYNC_LENGTH_FIELD" "buffered_size ?w = header_end (framing ?w)"
    unfolding state_ok.simps by blast+
  have pre: "prefix (sync_of ?w) (take (compact_size ?w) (buffer ?w))"
    using moved unfolding all sum by simp
  have none: "drop (compact_start ?w + compact_size ?w) (bytes_of ?w) = []" by (simp add: sum)
  have gw: "workspace_ok (ps_workspace ?g)"
    using wok pre rest sum by (simp add: workspace_ok_def upd_workspace_def record_discard_def)
  have "traced p0 input ?g"
  proof (rule traced_skip)
    show "traced p0 input c" using ok by (simp add: push_ok_def)
    show "\<exists>q p'. p = q @ p' \<and> length q = compact_start ?w \<and> holds (ps_workspace ?g) p'"
      if "holds (ps_workspace c) p" for p
      using that st by (auto simp: holds_def all none upd_workspace_def record_discard_def)
  qed (simp_all add: upd_workspace_def record_discard_def)
  then have "push_ok p0 input ?g"
    using ok gw by (simp add: push_ok_def upd_workspace_def record_discard_def)
  then show ?thesis by (simp add: finish_compact_def Let_def)
qed

lemma step_compact_keeps:
  assumes ok: "push_ok p0 input c" and st: "state (ps_workspace c) = COMPACT_INVALID"
  shows "keeps (push_ok p0 input) (step_compact c)"
proof -
  let ?w = "ps_workspace c"
  let ?left = "compact_size ?w - compact_moved ?w"
  let ?chunk = "min ?left (max_work ?w - rs_work_units_used (ps_result c))"
  have wok: "workspace_ok ?w" using ok by (simp add: push_ok_def)
  have sok: "state_ok ?w COMPACT_INVALID" using workspace_okD [OF wok] by (simp only: st)
  have room: "buffered_size ?w \<le> length (buffer ?w)"
    using wok sok by (auto simp: workspace_ok_def framing_ok_def frame_capacity_of_def)
  show ?thesis
  proof (cases "?left = 0")
    case True
    then have "compact_moved ?w = compact_size ?w" using sok by simp
    then show ?thesis using finish_compact_keeps [OF ok st] by (simp add: step_compact_def Let_def)
  next
    case False
    have "keeps (push_ok p0 input) (case charge ?chunk c of None \<Rightarrow> budget_stop c
       | Some c \<Rightarrow>
           let w = ?w\<lparr>buffer := memmove (buffer ?w) (compact_moved ?w) (compact_start ?w + compact_moved ?w) ?chunk,
                      compact_moved := compact_moved ?w + ?chunk\<rparr>;
               c = c\<lparr>ps_workspace := w\<rparr>
           in if compact_moved w \<noteq> compact_size w then budget_stop c else finish_compact c)"
    proof (rule charge_keeps [OF ok])
      fix d :: "'a push"
      assume d: "push_ok p0 input d" "ps_workspace d = ?w" "ps_input_index d = ps_input_index c"
      let ?v = "?w\<lparr>buffer := memmove (buffer ?w) (compact_moved ?w) (compact_start ?w + compact_moved ?w) ?chunk,
                      compact_moved := compact_moved ?w + ?chunk\<rparr>"
      let ?e = "d\<lparr>ps_workspace := ?v\<rparr>"
      have fits: "compact_start ?w + compact_moved ?w + ?chunk \<le> buffered_size ?w" using sok by auto
      have len: "length (buffer ?v) = length (buffer ?w)"
        using fits room memmove_take(3) [of "compact_start ?w" "compact_moved ?w" ?chunk "buffer ?w"] by simp
      have content: "take (compact_moved ?v) (buffer ?v) @ drop (compact_start ?v + compact_moved ?v) (bytes_of ?v)
          = take (compact_moved ?w) (buffer ?w) @ drop (compact_start ?w + compact_moved ?w) (bytes_of ?w)"
        using memmove_content [OF fits room] by simp
      have pre: "prefix (sync_of ?w) (take (compact_moved ?w) (buffer ?w) @
          drop (compact_start ?w + compact_moved ?w) (bytes_of ?w))"
        using sok unfolding state_ok.simps by blast
      have "prefix (sync_of ?v) (take (compact_moved ?v) (buffer ?v) @
          drop (compact_start ?v + compact_moved ?v) (bytes_of ?v))"
        unfolding content using pre by simp
      moreover have "compact_moved ?v \<le> compact_size ?v" using sok by auto
      ultimately have vok: "state_ok ?v COMPACT_INVALID"
        unfolding state_ok.simps using sok by simp
      have vst: "state ?v = COMPACT_INVALID" by (simp add: st)
      have vcap: "length (buffer ?v) = frame_capacity_of (framing ?v)" and vf: "framing_ok (framing ?v)"
        using wok len by (simp_all add: workspace_ok_def)
      have v: "workspace_ok ?v" unfolding workspace_ok_def vst by (intro conjI vok vcap vf)
      have same: "holds ?v p \<longleftrightarrow> holds ?w p" for p
        unfolding holds_def by (simp only: st content holds_in.simps) (simp add: st content [simplified])
      have e: "push_ok p0 input ?e"
        by (intro push_ok_update [OF d(1), where new = "[]" and bs = "[]"])
          (use v d same in \<open>simp_all add: push_ok_def\<close>)
      show "keeps (push_ok p0 input)
         (let w = ?v; c = d\<lparr>ps_workspace := w\<rparr>
          in if compact_moved w \<noteq> compact_size w then budget_stop c else finish_compact c)"
        using keeps_budget_stop [OF e] finish_compact_keeps [OF e] st by (simp add: Let_def)
    qed
    then show ?thesis
      using False keeps_budget_stop [OF ok] by (simp add: step_compact_def Let_def)
  qed
qed

end
