(* ===== verification/Framer_Push.thy ===== *)
theory Framer_Push
  imports Framer_Recovery
begin

text \<open>
  Whole submissions.  \<open>PushStreamChunk\<close> on a workspace that satisfies the invariant: it returns, keeps
  the invariant, stays within the budgets, and the stream it consumed is the frames it delivered, the
  bytes it discarded and the bytes it still holds, in order.
\<close>

section \<open>The loop\<close>

lemma Push_step_keeps:
  assumes "push_ok p0 input c" shows "keeps (push_ok p0 input) (Push_step sink input c)"
proof (cases "state (ps_workspace c)")
qed (use assms step_deliver_keeps [of p0 input c sink] step_ascii_keeps [of p0 input c]
    step_discard_keeps [of p0 input c] step_copy_keeps [of p0 input c] step_rescan_keeps [of p0 input c]
    step_compact_keeps [of p0 input c] step_read_length_keeps [of p0 input c]
    step_collect_keeps [of p0 input c] step_search_keeps [of p0 input c]
    in \<open>simp_all add: Push_step_def\<close>)

text \<open>The turns that end the loop.\<close>

definition stopped :: "u8 list \<Rightarrow> 'u push Iter \<Rightarrow> bool" where
  "stopped input it = (case it of
      Break d \<Rightarrow> ps_input_index d = length input \<and> \<not> HasInternalWork (ps_workspace d)
    | Return d \<Rightarrow> rs_api_status (ps_result d) = SA_OK \<longrightarrow>
        rs_stop_reason (ps_result d) \<in> {SR_WORK_BUDGET_REACHED, SR_SINK_STOP}
    | Next d \<Rightarrow> True
    | Hang \<Rightarrow> True)"

lemma stopped_simps [simp]:
  "stopped input (Next d)" "stopped input Hang" "stopped input (budget_stop c)" "stopped input (internal_error c)"
  by (simp_all add: stopped_def budget_stop_def internal_error_def)

lemma stopped_finish [simp]: "stopped input (finish_compact c)"
  by (simp add: finish_compact_def Let_def)

lemma stopped_charge:
  "(\<And>d. charge a c = Some d \<Longrightarrow> stopped input (F d)) \<Longrightarrow>
     stopped input (case charge a c of None \<Rightarrow> budget_stop c | Some d \<Rightarrow> F d)"
  by (cases "charge a c") simp_all

lemma stopped_Copy_loop: "stopped input (Copy_loop c)"
proof (induction c rule: Copy_loop.induct)
  case (1 c)
  then show ?case
    by (subst Copy_loop.simps) (auto simp: Let_def split: option.splits)
qed

lemma stopped_Rescan_loop: "stopped input (Rescan_loop c)"
proof (induction c rule: Rescan_loop.induct)
  case (1 c)
  then show ?case
    by (subst Rescan_loop.simps) (auto simp: Let_def split: option.splits)
qed

lemma Push_step_stopped:
  assumes "push_ok p0 input c" shows "stopped input (Push_step sink input c)"
proof -
  let ?w = "ps_workspace c"
  have wok: "workspace_ok ?w" using assms by (simp add: push_ok_def)
  have half: "\<not> HasInternalWork ?w" if "state ?w = READ_LENGTH" "buffered_size ?w < header_end (framing ?w)"
    using wok that header_size_add [of "framing ?w"] by (simp add: workspace_ok_def HasInternalWork_def)
  have he: "size_add (fp_length_field_offset (framing ?w)) (fp_length_field_width (framing ?w))
      = header_end (framing ?w)" if "state ?w = READ_LENGTH"
    using wok that header_size_add [of "framing ?w"] by (simp add: workspace_ok_def)
  show ?thesis
  proof (cases "state ?w")
    case DELIVER_PENDING
    then show ?thesis
      by (auto simp: Push_step_def step_deliver_def Let_def stopped_def budget_stop_def split: prod.splits)
  next
    case COPY_SYNC
    then show ?thesis using stopped_Copy_loop [of input c]
      by (auto simp: Push_step_def step_copy_def Let_def split: Iter.splits)
  next
    case RESCAN_INVALID
    then show ?thesis using stopped_Rescan_loop [of input c]
      by (auto simp: Push_step_def step_rescan_def Let_def split: Iter.splits)
  next
    case COMPACT_INVALID
    then show ?thesis
      by (auto simp: Push_step_def step_compact_def Let_def intro!: stopped_charge)
  next
    case READ_LENGTH
    then show ?thesis using half he
      by (auto simp: Push_step_def step_read_length_def Let_def stopped_def [of input "Break c"] intro!: stopped_charge)
  qed (auto simp: Push_step_def step_ascii_def step_discard_def step_collect_def step_search_def Let_def
      stopped_def [of input "Break c"] HasInternalWork_def intro!: stopped_charge split: option.splits)
qed

lemma Push_loop_result:
  assumes "push_ok p0 input c"
  shows "keeps (push_ok p0 input) (Push_loop sink input c)"
    and "stopped input (Push_loop sink input c)"
    and "Push_loop sink input c \<noteq> Next d"
  using assms
proof (induction sink input c rule: Push_loop.induct)
  case (1 sink input c)
  {
    case 1
    show ?case
      using "1.IH"(1) Push_step_keeps [OF 1, of sink]
      by (subst Push_loop.simps) (auto split: Iter.splits)
  next
    case 2
    show ?case
      using "1.IH"(2) Push_step_keeps [OF 2, of sink] Push_step_stopped [OF 2, of sink]
      by (subst Push_loop.simps) (auto split: Iter.splits)
  next
    case 3
    show ?case
      using "1.IH"(3) Push_step_keeps [OF 3, of sink]
      by (subst Push_loop.simps) (auto split: Iter.splits)
  }
qed

lemma Push_loop_limits:
  "result_of (Push_loop sink input c) = Some d \<Longrightarrow> limits (ps_workspace d) = limits (ps_workspace c)"
proof (induction sink input c rule: Push_loop.induct)
  case (1 sink input c)
  show ?case
  proof (cases "Push_step sink input c")
    case (Next e)
    have "limits (ps_workspace e) = limits (ps_workspace c)"
      using Push_step_cases [of sink input c e] Next by (auto simp: same_limits_def spends_def)
    moreover have "result_of (Push_loop sink input e) = Some d"
      using "1.prems" Next by (simp add: Push_loop.simps [of sink input c])
    ultimately show ?thesis using "1.IH" [OF Next] by simp
  qed (use "1.prems" Push_step_cases [of sink input c d] in
      \<open>auto simp: Push_loop.simps [of sink input c] same_limits_def spends_def\<close>)
qed

section \<open>A submission\<close>

lemma in_use_irrelevant:
  "workspace_ok (w\<lparr>in_use := b\<rparr>) = workspace_ok w" "holds (w\<lparr>in_use := b\<rparr>) p = holds w p"
proof -
  have "state_ok (w\<lparr>in_use := b\<rparr>) s = state_ok w s" for s by (cases s) simp_all
  then show "workspace_ok (w\<lparr>in_use := b\<rparr>) = workspace_ok w" by (simp add: workspace_ok_def)
  have "holds_in (w\<lparr>in_use := b\<rparr>) s p = holds_in w s p" for s by (cases s) simp_all
  then show "holds (w\<lparr>in_use := b\<rparr>) p = holds w p" by (simp add: holds_def)
qed

lemma start_push_ok:
  assumes "workspace_ok w" "holds w p0" shows "push_ok p0 input (start_push w user)"
proof -
  have "traced p0 input (start_push w user)"
    unfolding traced_def using assms(2)
    by (intro exI [of _ "[]"] exI [of _ p0]) (simp add: start_push_def initial_result_def in_use_irrelevant)
  then show ?thesis
    using assms(1) by (simp add: push_ok_def start_push_def initial_result_def in_use_irrelevant)
qed

text \<open>What a submission that was not refused ends with.\<close>

definition stop_fits :: "u8 list \<Rightarrow> StreamFramingWorkspace \<Rightarrow> SubmitResult \<Rightarrow> bool" where
  "stop_fits input w r \<longleftrightarrow>
     (rs_stop_reason r = SR_INPUT_EXHAUSTED \<longrightarrow> rs_bytes_consumed r = length input \<and> \<not> HasHalfFrame w \<and> \<not> HasInternalWork w) \<and>
     (rs_stop_reason r = SR_NEED_MORE \<longrightarrow> rs_bytes_consumed r = length input \<and> HasHalfFrame w \<and> \<not> HasInternalWork w)"

text \<open>The stop reason is set after the loop; the rest of the state is that of the loop.\<close>

definition same_trace :: "'u push \<Rightarrow> 'u push \<Rightarrow> bool" where
  "same_trace d c \<longleftrightarrow> ps_workspace d = ps_workspace c \<and> ps_frames d = ps_frames c \<and>
     ps_input_index d = ps_input_index c \<and> rs_bytes_discarded (ps_result d) = rs_bytes_discarded (ps_result c)"

lemma PushStreamChunk_ok:
  assumes "workspace_ok w" "holds w p0"
    and "Push_refusal plan w pipeline_index input (Some sink) callback = None"
  shows "\<exists>c. PushStreamChunk plan w pipeline_index input (Some sink) callback user = Some (release c) \<and>
    push_ok p0 (bv_bytes input) c \<and> stop_fits (bv_bytes input) (ps_workspace c) (ps_result c) \<and>
    limits (ps_workspace c) = limits (w\<lparr>in_use := True\<rparr>) \<and>
    (\<exists>d. result_of (Push_loop sink (bv_bytes input) (start_push w user)) = Some d \<and> same_trace d c)"
proof -
  let ?s = "start_push w user" and ?in = "bv_bytes input"
  note start = start_push_ok [OF assms(1,2), of ?in user]
  note res = Push_loop_result [OF start, of sink]
  have lim: "limits (ps_workspace c) = limits (w\<lparr>in_use := True\<rparr>)"
    if "result_of (Push_loop sink ?in ?s) = Some c" for c
    using Push_loop_limits [OF that] by (simp add: start_push_def)
  show ?thesis
  proof (cases "Push_loop sink ?in ?s")
    case (Break c)
    let ?d = "after_loop c"
    have ok: "push_ok p0 ?in c" and st: "ps_input_index c = length ?in" "\<not> HasInternalWork (ps_workspace c)"
      using res(1,2) Break by (simp_all add: stopped_def)
    have "traced p0 ?in ?d = traced p0 ?in c" by (rule traced_cong) (simp_all add: after_loop_def)
    then have "push_ok p0 ?in ?d" using ok by (simp add: push_ok_def after_loop_def)
    moreover have "stop_fits ?in (ps_workspace ?d) (ps_result ?d)"
      using ok st by (auto simp: stop_fits_def after_loop_def push_ok_def)
    moreover have "limits (ps_workspace ?d) = limits (w\<lparr>in_use := True\<rparr>)"
      using lim [of c] Break by (simp add: after_loop_def)
    moreover have "same_trace c ?d" by (simp add: same_trace_def after_loop_def)
    ultimately show ?thesis using Break assms(3) by (auto simp: PushStreamChunk_def)
  next
    case (Return c)
    have ok: "push_ok p0 ?in c" using res(1) Return by simp
    moreover have "stop_fits ?in (ps_workspace c) (ps_result c)"
      using res(2) ok Return by (auto simp: stopped_def stop_fits_def push_ok_def)
    moreover have "limits (ps_workspace c) = limits (w\<lparr>in_use := True\<rparr>)" using lim [of c] Return by simp
    moreover have "same_trace c c" by (simp add: same_trace_def)
    ultimately show ?thesis using Return assms(3) by (auto simp: PushStreamChunk_def)
  qed (use res(1,3) in \<open>auto simp: keeps_def\<close>)
qed

lemma holds_ex:
  assumes "workspace_ok w" shows "\<exists>p. holds w p"
  by (cases "state w") (auto simp: holds_def intro: exI [of _ "replicate (compact_start w) 0"])

end
