(* ===== verification/Framer_Strategies.thy ===== *)
theory Framer_Strategies
  imports Framer_Push
begin

text \<open>
  Abstract specifications of two framing strategies, and that the framer implements them.  A
  fixed-length profile cuts the stream into blocks and never discards a byte.  An ASCII profile
  delivers, of the CR LF terminated records of the stream (\<open>crlf_records\<close>), those that are not
  longer than the profile allows.
\<close>

section \<open>Fixed-length framing\<close>

lemma fixed_step:
  assumes ok: "push_ok p0 input c" and strat: "fp_strategy (framing (ps_workspace c)) = FS_FIXED_LENGTH"
    and res: "result_of (Push_step sink input c) = Some d"
  shows "rs_bytes_discarded (ps_result d) = rs_bytes_discarded (ps_result c)"
proof -
  have "workspace_ok (ps_workspace c)" using ok by (simp add: push_ok_def)
  then have "state (ps_workspace c) = COLLECT_FIXED \<or> state (ps_workspace c) = DELIVER_PENDING"
    using strat by (cases "state (ps_workspace c)") (auto simp: workspace_ok_def)
  then show ?thesis
  proof
    assume "state (ps_workspace c) = DELIVER_PENDING"
    then show ?thesis using res
      by (auto simp: Push_step_def step_deliver_def budget_stop_def Let_def split: prod.splits if_splits)
  next
    assume "state (ps_workspace c) = COLLECT_FIXED"
    then have res: "result_of (step_collect input c) = Some d" using res by (simp add: Push_step_def)
    show ?thesis
    proof (cases "charge 2 c")
      case None
      then show ?thesis using res by (auto simp: step_collect_def framer_ops split: if_splits)
    next
      case (Some e)
      note e = Some [unfolded charge_Some]
      from res Some e show ?thesis by (auto simp: step_collect_def framer_ops split: if_splits)
    qed
  qed
qed

lemma fixed_loop:
  assumes "push_ok p0 input c" "fp_strategy (framing (ps_workspace c)) = FS_FIXED_LENGTH"
    and "result_of (Push_loop sink input c) = Some d"
  shows "rs_bytes_discarded (ps_result d) = rs_bytes_discarded (ps_result c)"
  using assms
proof (induction sink input c rule: Push_loop.induct)
  case (1 sink input c)
  show ?case
  proof (cases "Push_step sink input c")
    case (Next e)
    have e: "push_ok p0 input e" using Push_step_keeps [OF "1.prems"(1), of sink] Next by simp
    have "limits (ps_workspace e) = limits (ps_workspace c)"
      using Push_step_cases [of sink input c e] Next by (auto simp: same_limits_def spends_def)
    then have f: "framing (ps_workspace e) = framing (ps_workspace c)" by (rule limits_eqD(4))
    have "result_of (Push_loop sink input e) = Some d"
      using "1.prems"(3) Next by (simp add: Push_loop.simps [of sink input c])
    then show ?thesis
      using "1.IH" [OF Next e] fixed_step [OF "1.prems"(1,2), of sink e] Next "1.prems"(2) f by simp
  qed (use "1.prems" fixed_step [OF "1.prems"(1,2), of sink d] in
      \<open>auto simp: Push_loop.simps [of sink input c]\<close>)
qed

section \<open>ASCII records\<close>

text \<open>The records of a byte stream: \<open>t\<close> is the unfinished record it starts in.\<close>

fun crlf_records :: "u8 list \<Rightarrow> u8 list \<Rightarrow> u8 list list \<times> u8 list" where
  "crlf_records t [] = ([], t)"
| "crlf_records t (b # bs) =
     (if suffix [0x0D, 0x0A] (t @ [b]) then
        let (records, rest) = crlf_records [] bs in ((t @ [b]) # records, rest)
      else crlf_records (t @ [b]) bs)"

lemma crlf_records_append:
  "crlf_records t (xs @ ys) =
     (let (ls, u) = crlf_records t xs; (ms, v) = crlf_records u ys in (ls @ ms, v))"
  by (induction t xs rule: crlf_records.induct) (simp_all add: Let_def split: prod.splits)

lemma crlf_records_snoc:
  "crlf_records t xs = (ls, u) \<Longrightarrow> crlf_records t (xs @ [b]) =
     (if suffix [0x0D, 0x0A] (u @ [b]) then (ls @ [u @ [b]], []) else (ls, u @ [b]))"
  by (simp add: crlf_records_append)

fun ascii_view :: "StreamFramingWorkspace \<Rightarrow> State \<Rightarrow> u8 list \<Rightarrow> bool" where
  "ascii_view w COLLECT_ASCII t \<longleftrightarrow> t = bytes_of w"
| "ascii_view w DELIVER_PENDING t \<longleftrightarrow> t = []"
| "ascii_view w DISCARD_UNTIL_CRLF t \<longleftrightarrow> fp_maximum_frame_length (framing w) \<le> length t \<and>
     (previous_was_cr w \<longleftrightarrow> last t = 0x0D)"
| "ascii_view w other t \<longleftrightarrow> False"

definition pending :: "StreamFramingWorkspace \<Rightarrow> u8 list list" where
  "pending w = (if state w = DELIVER_PENDING then [bytes_of w] else [])"

definition short_records :: "FramingPlan \<Rightarrow> u8 list list \<Rightarrow> u8 list list" where
  "short_records f records = [r \<leftarrow> records. length r \<le> fp_maximum_frame_length f]"

definition ascii_ok :: "u8 list \<Rightarrow> u8 list list \<Rightarrow> u8 list \<Rightarrow> 'u push \<Rightarrow> bool" where
  "ascii_ok t0 pend0 input c \<longleftrightarrow>
     (\<exists>ls t. crlf_records t0 (take (ps_input_index c) input) = (ls, t) \<and>
        ascii_view (ps_workspace c) (state (ps_workspace c)) t \<and>
        ps_frames c @ pending (ps_workspace c) = pend0 @ short_records (framing (ps_workspace c)) ls)"

lemma ascii_ok_cong:
  assumes "ps_workspace d = ps_workspace c" "ps_input_index d = ps_input_index c" "ps_frames d = ps_frames c"
  shows "ascii_ok t0 pend0 input d = ascii_ok t0 pend0 input c"
  by (simp add: ascii_ok_def assms)

text \<open>A turn that consumes one byte \<open>b\<close>.\<close>

lemma ascii_ok_byte:
  assumes ok: "ascii_ok t0 pend0 input c" and i: "ps_input_index c < length input"
    and next': "ps_input_index e = Suc (ps_input_index c)" and fr: "ps_frames e = ps_frames c"
    and f: "framing (ps_workspace e) = framing (ps_workspace c)"
    and none: "pending (ps_workspace c) = []"
    and ends: "\<And>t. ascii_view (ps_workspace c) (state (ps_workspace c)) t \<Longrightarrow>
        suffix [0x0D, 0x0A] (t @ [input ! ps_input_index c]) \<Longrightarrow>
        ascii_view (ps_workspace e) (state (ps_workspace e)) [] \<and>
        pending (ps_workspace e) = short_records (framing (ps_workspace c)) [t @ [input ! ps_input_index c]]"
    and more: "\<And>t. ascii_view (ps_workspace c) (state (ps_workspace c)) t \<Longrightarrow>
        \<not> suffix [0x0D, 0x0A] (t @ [input ! ps_input_index c]) \<Longrightarrow>
        ascii_view (ps_workspace e) (state (ps_workspace e)) (t @ [input ! ps_input_index c]) \<and>
        pending (ps_workspace e) = []"
  shows "ascii_ok t0 pend0 input e"
proof -
  let ?b = "input ! ps_input_index c"
  obtain ls t where h: "crlf_records t0 (take (ps_input_index c) input) = (ls, t)"
    "ascii_view (ps_workspace c) (state (ps_workspace c)) t"
    "ps_frames c @ pending (ps_workspace c) = pend0 @ short_records (framing (ps_workspace c)) ls"
    using ok by (auto simp: ascii_ok_def)
  have rec: "crlf_records t0 (take (ps_input_index e) input) =
      (if suffix [0x0D, 0x0A] (t @ [?b]) then (ls @ [t @ [?b]], []) else (ls, t @ [?b]))"
    using crlf_records_snoc [OF h(1), of ?b] i by (simp add: next' take_Suc_conv_app_nth)
  show ?thesis
  proof (cases "suffix [0x0D, 0x0A] (t @ [?b])")
    case True
    with rec have "crlf_records t0 (take (ps_input_index e) input) = (ls @ [t @ [?b]], [])"
      by (simp only: if_True)
    then show ?thesis
      using ends [OF h(2) True] h(3) fr f none by (simp add: ascii_ok_def short_records_def)
  next
    case False
    with rec have "crlf_records t0 (take (ps_input_index e) input) = (ls, t @ [?b])"
      by (simp only: if_False)
    then show ?thesis
      using more [OF h(2) False] h(3) fr f none by (simp add: ascii_ok_def)
  qed
qed

lemma ascii_deliver:
  assumes ok: "ascii_ok t0 pend0 input c" and st: "state (ps_workspace c) = DELIVER_PENDING"
    and strat: "fp_strategy (framing (ps_workspace c)) = FS_ASCII_CRLF"
    and res: "result_of (step_deliver sink c) = Some d"
  shows "ascii_ok t0 pend0 input d"
proof (cases "rs_frames_delivered (ps_result c) \<ge> max_frames (ps_workspace c)")
  case True
  then have "d = c\<lparr>ps_result := (ps_result c)\<lparr>rs_stop_reason := SR_WORK_BUDGET_REACHED\<rparr>\<rparr>"
    using res by (simp add: step_deliver_def budget_stop_def Let_def)
  then show ?thesis using ok by (simp add: ascii_ok_def)
next
  case False
  let ?w = "ps_workspace c"
  have d: "ps_workspace d = ResetCandidate ?w" "ps_frames d = ps_frames c @ [bytes_of ?w]"
    "ps_input_index d = ps_input_index c"
    using res False by (auto simp: step_deliver_def Let_def split: prod.splits if_splits)
  have "state (ResetCandidate ?w) = COLLECT_ASCII" "buffered_size (ResetCandidate ?w) = 0"
    "framing (ResetCandidate ?w) = framing ?w"
    using strat by (simp_all add: ResetCandidate_def Let_def)
  then show ?thesis using ok st by (simp add: ascii_ok_def d pending_def)
qed

lemma ascii_discard:
  assumes ok: "ascii_ok t0 pend0 input c" and push: "push_ok p0 input c"
    and st: "state (ps_workspace c) = DISCARD_UNTIL_CRLF"
    and res: "result_of (step_discard input c) = Some d"
  shows "ascii_ok t0 pend0 input d"
proof (cases "ps_input_index c = length input \<or> charge 2 c = None")
  case True
  then have "ps_workspace d = ps_workspace c" "ps_input_index d = ps_input_index c" "ps_frames d = ps_frames c"
    using res by (auto simp: step_discard_def budget_stop_def split: if_splits)
  then show ?thesis using ok by (simp add: ascii_ok_cong [of d c])
next
  case False
  then obtain e where e: "charge 2 c = Some e" and i: "ps_input_index c < length input"
    using push by (auto simp: push_ok_def)
  note e' = e [unfolded charge_Some]
  let ?b = "input ! ps_input_index c" and ?w = "ps_workspace c"
  have cap: "2 \<le> fp_maximum_frame_length (framing ?w)" and empty: "buffered_size ?w = 0"
    using push st by (auto simp: push_ok_def workspace_ok_def framing_ok_def)
  have d: "ps_input_index d = Suc (ps_input_index c)" "ps_frames d = ps_frames c"
    "framing (ps_workspace d) = framing ?w" "buffered_size (ps_workspace d) = buffered_size ?w"
    "state (ps_workspace d) = (if previous_was_cr ?w \<and> ?b = 0x0A then COLLECT_ASCII else DISCARD_UNTIL_CRLF)"
    "\<not> (previous_was_cr ?w \<and> ?b = 0x0A) \<Longrightarrow> previous_was_cr (ps_workspace d) = (?b = 0x0D)"
    using res False e e' st
    by (auto simp: step_discard_def consume_def upd_workspace_def record_discard_def Let_def split: if_splits)
  have ended: "suffix [0x0D, 0x0A] (t @ [?b]) \<longleftrightarrow> previous_was_cr ?w \<and> ?b = 0x0A"
    if "ascii_view ?w DISCARD_UNTIL_CRLF t" for t
    using that cap by (cases t rule: rev_cases) (auto simp: suffix_def)
  show ?thesis
  proof (rule ascii_ok_byte [OF ok i d(1,2,3)])
    show "pending ?w = []" by (simp add: pending_def st)
  next
    fix t assume t: "ascii_view ?w (state ?w) t" "suffix [0x0D, 0x0A] (t @ [?b])"
    then have "previous_was_cr ?w \<and> ?b = 0x0A" using ended [of t] st by simp
    then show "ascii_view (ps_workspace d) (state (ps_workspace d)) [] \<and>
        pending (ps_workspace d) = short_records (framing ?w) [t @ [?b]]"
      using d t(1) st empty by (simp add: pending_def short_records_def)
  next
    fix t assume t: "ascii_view ?w (state ?w) t" "\<not> suffix [0x0D, 0x0A] (t @ [?b])"
    have "ascii_view ?w DISCARD_UNTIL_CRLF t" using t(1) by (simp only: st)
    then have no: "\<not> (previous_was_cr ?w \<and> ?b = 0x0A)" using ended [of t] t(2) by blast
    have s: "state (ps_workspace d) = DISCARD_UNTIL_CRLF" using d(5) no by simp
    show "ascii_view (ps_workspace d) (state (ps_workspace d)) (t @ [?b]) \<and> pending (ps_workspace d) = []"
      using d(3) d(6) [OF no] t(1) st by (simp add: s pending_def)
  qed
qed

lemma ascii_collect:
  assumes ok: "ascii_ok t0 pend0 input c" and push: "push_ok p0 input c"
    and st: "state (ps_workspace c) = COLLECT_ASCII"
    and res: "result_of (step_ascii input c) = Some d"
  shows "ascii_ok t0 pend0 input d"
proof (cases "ps_input_index c = length input \<or> charge 2 c = None")
  case True
  then have "ps_workspace d = ps_workspace c" "ps_input_index d = ps_input_index c" "ps_frames d = ps_frames c"
    using res by (auto simp: step_ascii_def budget_stop_def split: if_splits)
  then show ?thesis using ok by (simp add: ascii_ok_cong [of d c])
next
  case False
  then obtain e where e: "charge 2 c = Some e" and i: "ps_input_index c < length input"
    using push by (auto simp: push_ok_def)
  have e': "ps_workspace e = ps_workspace c" "ps_input_index e = ps_input_index c" "ps_frames e = ps_frames c"
    using e by (auto simp: charge_Some)
  let ?b = "input ! ps_input_index c" and ?w = "ps_workspace c"
  let ?v = "store_byte ?b ?w"
  have cap: "length (buffer ?w) = fp_maximum_frame_length (framing ?w)" and lt: "buffered_size ?w < length (buffer ?w)"
    using push st by (auto simp: push_ok_def workspace_ok_def frame_capacity_of_def)
  have b: "take (Suc (buffered_size ?w)) (buffer ?v) = bytes_of ?w @ [?b]" by (rule store_bytes [OF lt])
  have len: "length (bytes_of ?w @ [?b]) = Suc (buffered_size ?w)" using lt by simp
  have nth: "buffer ?v ! (Suc (buffered_size ?w) - 2) = (bytes_of ?w @ [?b]) ! (Suc (buffered_size ?w) - 2)"
    using b by (metis One_nat_def Suc_1 diff_Suc_Suc less_Suc_eq_le diff_le_self nth_take)
  have ended: "2 \<le> Suc (buffered_size ?w) \<and> buffer ?v ! (Suc (buffered_size ?w) - 2) = 0x0D \<and> ?b = 0x0A
      \<longleftrightarrow> suffix [0x0D, 0x0A] (bytes_of ?w @ [?b])"
    unfolding nth using terminated_iff [OF refl, of "bytes_of ?w" ?b] by (simp only: len)
  have d: "ps_input_index d = Suc (ps_input_index c)" "ps_frames d = ps_frames c" "framing (ps_workspace d) = framing ?w"
    "suffix [0x0D, 0x0A] (bytes_of ?w @ [?b]) \<Longrightarrow>
       state (ps_workspace d) = DELIVER_PENDING \<and> bytes_of (ps_workspace d) = bytes_of ?w @ [?b]"
    "\<not> suffix [0x0D, 0x0A] (bytes_of ?w @ [?b]) \<Longrightarrow> Suc (buffered_size ?w) = length (buffer ?w) \<Longrightarrow>
       state (ps_workspace d) = DISCARD_UNTIL_CRLF \<and> previous_was_cr (ps_workspace d) = (?b = 0x0D)"
    "\<not> suffix [0x0D, 0x0A] (bytes_of ?w @ [?b]) \<Longrightarrow> Suc (buffered_size ?w) \<noteq> length (buffer ?w) \<Longrightarrow>
       state (ps_workspace d) = COLLECT_ASCII \<and> bytes_of (ps_workspace d) = bytes_of ?w @ [?b]"
    using res False e e' st lt b ended
    by (auto simp: step_ascii_def consume_def upd_workspace_def record_discard_def record_malformed_def Let_def
        simp del: suffix_snoc split: if_splits)
  show ?thesis
  proof (rule ascii_ok_byte [OF ok i d(1,2,3)])
    show "pending ?w = []" by (simp add: pending_def st)
  next
    fix t assume t: "ascii_view ?w (state ?w) t" "suffix [0x0D, 0x0A] (t @ [?b])"
    then have "t = bytes_of ?w" using st by simp
    then show "ascii_view (ps_workspace d) (state (ps_workspace d)) [] \<and>
        pending (ps_workspace d) = short_records (framing ?w) [t @ [?b]]"
      using d(4) t(2) cap lt by (simp add: pending_def short_records_def)
  next
    fix t assume t: "ascii_view ?w (state ?w) t" "\<not> suffix [0x0D, 0x0A] (t @ [?b])"
    then have teq: "t = bytes_of ?w" using st by simp
    show "ascii_view (ps_workspace d) (state (ps_workspace d)) (t @ [?b]) \<and> pending (ps_workspace d) = []"
    proof (cases "Suc (buffered_size ?w) = length (buffer ?w)")
      case True
      then show ?thesis using d(3,5) t(2) teq cap by (simp add: pending_def)
    next
      case False
      then show ?thesis using d(6) t(2) teq by (simp add: pending_def)
    qed
  qed
qed

lemma ascii_loop:
  assumes "push_ok p0 input c" "fp_strategy (framing (ps_workspace c)) = FS_ASCII_CRLF"
    and "ascii_ok t0 pend0 input c" "result_of (Push_loop sink input c) = Some d"
  shows "ascii_ok t0 pend0 input d"
  using assms
proof (induction sink input c rule: Push_loop.induct)
  case (1 sink input c)
  let ?w = "ps_workspace c"
  have step: "ascii_ok t0 pend0 input e" if "result_of (Push_step sink input c) = Some e" for e
  proof -
    obtain t where "ascii_view ?w (state ?w) t" using "1.prems"(3) by (auto simp: ascii_ok_def)
    then consider "state ?w = COLLECT_ASCII" | "state ?w = DELIVER_PENDING" | "state ?w = DISCARD_UNTIL_CRLF"
      by (cases "state ?w") simp_all
    then show ?thesis
    proof cases
      case 1
      then show ?thesis
        using ascii_collect [OF "1.prems"(3,1) 1, of e] that by (simp add: Push_step_def)
    next
      case 2
      then show ?thesis
        using ascii_deliver [OF "1.prems"(3) 2 "1.prems"(2), of sink e] that by (simp add: Push_step_def)
    next
      case 3
      then show ?thesis
        using ascii_discard [OF "1.prems"(3,1) 3, of e] that by (simp add: Push_step_def)
    qed
  qed
  show ?case
  proof (cases "Push_step sink input c")
    case (Next e)
    have e: "push_ok p0 input e" using Push_step_keeps [OF "1.prems"(1), of sink] Next by simp
    have "limits (ps_workspace e) = limits ?w"
      using Push_step_cases [of sink input c e] Next by (auto simp: same_limits_def spends_def)
    then have f: "framing (ps_workspace e) = framing ?w" by (rule limits_eqD(4))
    have "result_of (Push_loop sink input e) = Some d"
      using "1.prems"(4) Next by (simp add: Push_loop.simps [of sink input c])
    then show ?thesis
      using "1.IH" [OF Next e] step [of e] Next "1.prems"(2) f by simp
  qed (use "1.prems"(4) step [of d] in \<open>auto simp: Push_loop.simps [of sink input c]\<close>)
qed

end
