(* ===== verification/Framer_Session.thy ===== *)
theory Framer_Session
  imports Framer_Strategies
begin

text \<open>
  Sessions of the stream framer: a workspace is created on a profile the plan builder admits and then
  receives submissions, one after the other, and resets.  \<open>framer_session\<close> relates the plan and the
  pipeline to the workspace, the user data, the bytes consumed since the start or the last reset, the
  frames delivered and the number of bytes discarded.  The properties of the framer are stated of every
  session.
\<close>

abbreviation profile_of :: "PlanBundle \<Rightarrow> nat \<Rightarrow> FramingPlan" where
  "profile_of plan pipeline \<equiv> pb_framing_profiles plan ! pl_framing_profile_index (pb_pipelines plan ! pipeline)"

inductive framer_session ::
    "PlanBundle \<Rightarrow> nat \<Rightarrow> StreamFramingWorkspace \<Rightarrow> 'u \<Rightarrow> u8 list \<Rightarrow> u8 list list \<Rightarrow> nat \<Rightarrow> bool"
  for plan pipeline where
  Created: "CreateStreamFramingWorkspace sizeof_workspace address allocated plan pipeline overrides = created \<Longrightarrow>
     cr_workspace created = Some w \<Longrightarrow> framer_session plan pipeline w user [] [] 0"
| Submitted: "framer_session plan pipeline w user stream frames discarded \<Longrightarrow>
     PushStreamChunk plan w pipeline input (Some sink) callback user = Some (w', r, user', delivered) \<Longrightarrow>
     framer_session plan pipeline w' user' (stream @ take (rs_bytes_consumed r) (bv_bytes input))
       (frames @ delivered) (discarded + rs_bytes_discarded r)"
| Restarted: "framer_session plan pipeline w user stream frames discarded \<Longrightarrow>
     ResetStreamFramingWorkspace plan w pipeline callback = (w', SA_OK) \<Longrightarrow>
     framer_session plan pipeline w' user [] [] 0"

section \<open>Creation, submission and reset\<close>

lemma create_ok:
  assumes "cr_workspace (CreateStreamFramingWorkspace sizeof_workspace address allocated plan pipeline overrides) = Some w"
    and "framing_ok (profile_of plan pipeline)"
  shows "workspace_ok w" "holds w []" "framing w = profile_of plan pipeline" "sw_plan w = pb_address plan"
    "sw_pipeline_index w = pipeline" "\<not> in_use w" "state w \<noteq> DELIVER_PENDING"
    "fp_strategy (framing w) = FS_ASCII_CRLF \<longrightarrow> ascii_view w (state w) []"
proof -
  let ?f = "profile_of plan pipeline"
  from assms(1) obtain submit frames work session where
    w: "w = NewStreamFramingWorkspace address plan pipeline ?f (frame_capacity_of ?f) submit frames work session"
    by (auto simp: CreateStreamFramingWorkspace_def Let_def split: prod.splits if_splits)
  show "workspace_ok w"
    using assms(2) by (auto simp: w NewStreamFramingWorkspace_def ResetCandidate_def Let_def workspace_ok_def
        framing_ok_def crlf_free_def split: FramingStrategy.splits)
  show "holds w []" "framing w = ?f" "sw_plan w = pb_address plan" "sw_pipeline_index w = pipeline"
    "\<not> in_use w" "state w \<noteq> DELIVER_PENDING"
    by (simp_all add: w NewStreamFramingWorkspace_def ResetCandidate_def Let_def holds_def)
  show "fp_strategy (framing w) = FS_ASCII_CRLF \<longrightarrow> ascii_view w (state w) []"
    by (simp add: w NewStreamFramingWorkspace_def ResetCandidate_def Let_def)
qed

lemma reset_session:
  assumes "ResetStreamFramingWorkspace plan w pipeline callback = (w', SA_OK)" "workspace_ok w"
  shows "workspace_ok w'" "holds w' []" "limits w' = limits w" "state w' \<noteq> DELIVER_PENDING"
    "fp_strategy (framing w') = FS_ASCII_CRLF \<longrightarrow> ascii_view w' (state w') []"
proof -
  have w': "w' = ResetCandidate w"
    using assms(1) by (simp add: ResetStreamFramingWorkspace_def split: if_splits)
  show "workspace_ok w'" "holds w' []" "limits w' = limits w"
    using reset_ok [OF assms(2)] by (simp_all add: w')
  show "state w' \<noteq> DELIVER_PENDING" "fp_strategy (framing w') = FS_ASCII_CRLF \<longrightarrow> ascii_view w' (state w') []"
    by (simp_all add: w' ResetCandidate_def Let_def)
qed

lemma refused_result:
  "Push_refusal plan w pipeline input sink callback = Some status \<Longrightarrow> status \<noteq> SA_OK \<and> status \<noteq> SA_INTERNAL_ERROR"
  by (auto simp: Push_refusal_def split: if_splits)

text \<open>One submission, seen from outside.\<close>

lemma submission:
  assumes w: "workspace_ok w" "holds w p0"
    and push: "PushStreamChunk plan w pipeline input (Some sink) callback user = Some (w', r, user', delivered)"
  obtains (refused) status where "Push_refusal plan w pipeline input (Some sink) callback = Some status"
      "w' = w" "r = initial_result\<lparr>rs_api_status := status\<rparr>" "user' = user" "delivered = []"
    | (accepted) c d where "Push_refusal plan w pipeline input (Some sink) callback = None"
      "w' = (ps_workspace c)\<lparr>in_use := False\<rparr>" "r = ps_result c" "delivered = ps_frames c"
      "push_ok p0 (bv_bytes input) c" "stop_fits (bv_bytes input) (ps_workspace c) (ps_result c)"
      "limits (ps_workspace c) = limits (w\<lparr>in_use := True\<rparr>)"
      "result_of (Push_loop sink (bv_bytes input) (start_push w user)) = Some d" "same_trace d c"
proof (cases "Push_refusal plan w pipeline input (Some sink) callback")
  case (Some status)
  with push have "w' = w" "r = initial_result\<lparr>rs_api_status := status\<rparr>" "user' = user" "delivered = []"
    by (simp_all add: PushStreamChunk_def)
  then show thesis by (rule refused [OF Some])
next
  case None
  from PushStreamChunk_ok [OF w None, of user] obtain c d where
    c: "PushStreamChunk plan w pipeline input (Some sink) callback user = Some (release c)"
    and rest: "push_ok p0 (bv_bytes input) c" "stop_fits (bv_bytes input) (ps_workspace c) (ps_result c)"
      "limits (ps_workspace c) = limits (w\<lparr>in_use := True\<rparr>)"
      "result_of (Push_loop sink (bv_bytes input) (start_push w user)) = Some d" "same_trace d c"
    by blast
  from c push have "w' = (ps_workspace c)\<lparr>in_use := False\<rparr>" "r = ps_result c" "delivered = ps_frames c"
    by (simp_all add: release_def)
  then show thesis by (rule accepted [OF None _ _ _ rest])
qed

section \<open>What every session keeps\<close>

definition session_ok ::
    "PlanBundle \<Rightarrow> nat \<Rightarrow> StreamFramingWorkspace \<Rightarrow> u8 list \<Rightarrow> u8 list list \<Rightarrow> nat \<Rightarrow> bool" where
  "session_ok plan pipeline w stream frames discarded \<longleftrightarrow>
     workspace_ok w \<and> framing w = profile_of plan pipeline \<and> sw_plan w = pb_address plan \<and>
     sw_pipeline_index w = pipeline \<and> \<not> in_use w \<and>
     (\<forall>f \<in> set frames. frame_shape (framing w) f) \<and>
     (\<exists>segs p. holds w p \<and> stream = stream_bytes segs @ p \<and> frames = frames_of segs \<and>
        discarded = skipped_count segs) \<and>
     (fp_strategy (framing w) = FS_FIXED_LENGTH \<longrightarrow> discarded = 0) \<and>
     (fp_strategy (framing w) = FS_ASCII_CRLF \<longrightarrow>
        (\<exists>ls t. crlf_records [] stream = (ls, t) \<and> ascii_view w (state w) t \<and>
           frames @ pending w = short_records (framing w) ls))"

lemma ascii_in_use [simp]:
  "ascii_view (w\<lparr>in_use := b\<rparr>) s t = ascii_view w s t" "pending (w\<lparr>in_use := b\<rparr>) = pending w"
  by (cases s; simp) (simp add: pending_def)

lemma session_start:
  assumes "workspace_ok w" "holds w []" "framing w = profile_of plan pipeline" "sw_plan w = pb_address plan"
    "sw_pipeline_index w = pipeline" "\<not> in_use w" "state w \<noteq> DELIVER_PENDING"
    "fp_strategy (framing w) = FS_ASCII_CRLF \<longrightarrow> ascii_view w (state w) []"
  shows "session_ok plan pipeline w [] [] 0"
proof -
  have "\<exists>segs p. holds w p \<and> [] = stream_bytes segs @ p \<and> [] = frames_of segs \<and> 0 = skipped_count segs"
    using assms(2) by (intro exI [of _ "[]"]) simp
  then show ?thesis
    using assms by (simp add: session_ok_def pending_def short_records_def)
qed

lemma session_submit:
  assumes ok: "session_ok plan pipeline w stream frames discarded"
    and push: "PushStreamChunk plan w pipeline input (Some sink) callback user = Some (w', r, user', delivered)"
  shows "session_ok plan pipeline w' (stream @ take (rs_bytes_consumed r) (bv_bytes input))
     (frames @ delivered) (discarded + rs_bytes_discarded r)"
proof -
  from ok obtain segs p where h: "holds w p" "stream = stream_bytes segs @ p" "frames = frames_of segs"
      "discarded = skipped_count segs" and wok: "workspace_ok w"
    by (auto simp: session_ok_def)
  from wok h(1) push show ?thesis
  proof (cases rule: submission)
    case (refused status)
    then show ?thesis using ok by (simp add: initial_result_def)
  next
    case (accepted c d)
    let ?in = "bv_bytes input"
    have lim: "limits w' = limits w"
      using accepted(2,7) ok by (simp add: limits_def session_ok_def)
    have c: "workspace_ok (ps_workspace c)" "traced p ?in c" "ps_input_index c = rs_bytes_consumed (ps_result c)"
      "\<forall>f \<in> set (ps_frames c). frame_shape (framing (ps_workspace c)) f"
      using accepted(5) by (simp_all add: push_ok_def)
    from c(2) obtain segs' p' where t: "holds (ps_workspace c) p'"
        "p @ take (ps_input_index c) ?in = stream_bytes segs' @ p'"
        "ps_frames c = frames_of segs'" "rs_bytes_discarded (ps_result c) = skipped_count segs'"
      by (auto simp: traced_def)
    have segs: "\<exists>segs p. holds w' p \<and> stream @ take (rs_bytes_consumed r) ?in = stream_bytes segs @ p \<and>
        frames @ delivered = frames_of segs \<and> discarded + rs_bytes_discarded r = skipped_count segs"
      using t h c(3) accepted(2-4)
      by (intro exI [of _ "segs @ segs'"] exI [of _ p']) (simp add: in_use_irrelevant)
    have loop: "push_ok p ?in (start_push w user)" by (rule start_push_ok [OF wok h(1)])
    have fr: "framing (ps_workspace (start_push w user)) = framing w" by (simp add: start_push_def)
    have fixed: "discarded + rs_bytes_discarded r = 0" if s: "fp_strategy (framing w) = FS_FIXED_LENGTH"
    proof -
      have "rs_bytes_discarded (ps_result d) = 0"
        using fixed_loop [OF loop _ accepted(8)] s fr by (simp add: start_push_def initial_result_def)
      then show ?thesis using ok s accepted(3,9) by (simp add: session_ok_def same_trace_def)
    qed
    have ascii: "\<exists>ls t. crlf_records [] (stream @ take (rs_bytes_consumed r) ?in) = (ls, t) \<and>
        ascii_view w' (state w') t \<and> (frames @ delivered) @ pending w' = short_records (framing w') ls"
      if s: "fp_strategy (framing w) = FS_ASCII_CRLF"
    proof -
      from ok s obtain ls t where l: "crlf_records [] stream = (ls, t)" "ascii_view w (state w) t"
          "frames @ pending w = short_records (framing w) ls"
        by (auto simp: session_ok_def)
      have "ascii_ok t (pending w) ?in (start_push w user)"
        using l(2) by (simp add: ascii_ok_def start_push_def short_records_def)
      then have "ascii_ok t (pending w) ?in d"
        using ascii_loop [OF loop _ _ accepted(8)] s fr by simp
      then have "ascii_ok t (pending w) ?in c"
        using accepted(9) by (simp add: ascii_ok_cong [of c d] same_trace_def)
      then obtain ms v where m: "crlf_records t (take (ps_input_index c) ?in) = (ms, v)"
          "ascii_view (ps_workspace c) (state (ps_workspace c)) v"
          "ps_frames c @ pending (ps_workspace c) = pending w @ short_records (framing (ps_workspace c)) ms"
        by (auto simp: ascii_ok_def)
      have f: "framing (ps_workspace c) = framing w" "framing w' = framing w"
        using limits_eqD(4) [OF accepted(7)] limits_eqD(4) [OF lim] by simp_all
      have "(frames @ delivered) @ pending w' = frames @ pending w @ short_records (framing w) ms"
        using m(3) accepted(2,4) f by simp
      also have "\<dots> = short_records (framing w) (ls @ ms)"
        using l(3) by (simp add: short_records_def append_assoc [symmetric] del: append_assoc)
      finally show ?thesis
        using l(1) m(1,2) accepted(2,3) c(3) f
        by (intro exI [of _ "ls @ ms"] exI [of _ v]) (simp add: crlf_records_append)
    qed
    show ?thesis
      using ok c(1,4) lim segs fixed ascii accepted(2,4) limits_eqD(4,5,6,8) [OF lim]
      by (auto simp: session_ok_def in_use_irrelevant)
  qed
qed

lemma session_inv:
  assumes "framer_session plan pipeline w user stream frames discarded" "framing_ok (profile_of plan pipeline)"
  shows "session_ok plan pipeline w stream frames discarded"
  using assms
proof (induction rule: framer_session.induct)
  case (Created sizeof_workspace address allocated overrides created w user)
  have "cr_workspace (CreateStreamFramingWorkspace sizeof_workspace address allocated plan pipeline overrides) = Some w"
    using Created by simp
  note c = create_ok [OF this Created.prems]
  show ?case by (rule session_start [OF c])
next
  case (Submitted w user stream frames discarded input sink callback w' r user' delivered)
  show ?case by (rule session_submit [OF Submitted.IH [OF Submitted.prems] Submitted.hyps(2)])
next
  case (Restarted w user stream frames discarded callback w')
  have ok: "session_ok plan pipeline w stream frames discarded" using Restarted by simp
  then have "workspace_ok w" by (simp add: session_ok_def)
  note r = reset_session [OF Restarted.hyps(2) this]
  show ?case
    using r ok limits_eqD(4,5,6,8) [OF r(3)] by (intro session_start) (simp_all add: session_ok_def)
qed

section \<open>Example plans\<close>

text \<open>One pipeline of text lines of at most eight bytes; the witnesses run it.\<close>

definition line_framing :: FramingPlan where
  "line_framing = \<lparr>fp_id = ''lines'', fp_input_kind = IK_STREAM_CHUNK, fp_strategy = FS_ASCII_CRLF,
     fp_frame_length_bytes = 0, fp_sync_bytes = [0x0D, 0x0A], fp_sync_prefix_table = [0, 0],
     fp_length_field_offset = 0, fp_length_field_width = 0, fp_length_field_byte_order = BO_NOT_APPLICABLE,
     fp_minimum_frame_length = 0, fp_maximum_frame_length = 4\<rparr>"

definition block_framing :: FramingPlan where
  "block_framing = \<lparr>fp_id = ''blocks'', fp_input_kind = IK_STREAM_CHUNK, fp_strategy = FS_FIXED_LENGTH,
     fp_frame_length_bytes = 3, fp_sync_bytes = [], fp_sync_prefix_table = [],
     fp_length_field_offset = 0, fp_length_field_width = 0, fp_length_field_byte_order = BO_NOT_APPLICABLE,
     fp_minimum_frame_length = 0, fp_maximum_frame_length = 0\<rparr>"

definition example_plan :: "string \<Rightarrow> FramingPlan \<Rightarrow> PlanBundle" where
  "example_plan schema f = \<lparr>pb_address = 1, pb_schema_version = schema, pb_protocol_id = ''demo'',
     pb_protocol_version = ''1'', pb_resource_profile = DESKTOP,
     pb_resource_requirements = \<lparr>rq_max_frame_bytes = 4, rq_framing_profile_count = 1, rq_pipeline_count = 1,
       rq_message_count = 0, rq_total_field_count = 0, rq_total_matcher_count = 0, rq_total_enum_entry_count = 0,
       rq_total_bit_container_count = 0, rq_total_integrity_rule_count = 0, rq_total_computed_length_count = 0,
       rq_total_conversion_count = 0, rq_max_stream_frame_bytes = 4, rq_max_sync_bytes = 2,
       rq_max_framing_buffer_bytes = 4, rq_total_text_segment_count = 0\<rparr>,
     pb_framing_profiles = [f],
     pb_pipelines = [\<lparr>pl_id = ''p'', pl_direction_id = ''rx'', pl_framing_profile_index = 0, pl_message_indices = []\<rparr>],
     pb_messages = [], pb_conversions = [],
     pb_layout = \<lparr>rl_max_fields_per_message = 0, rl_max_input_fields_per_message = 0,
       rl_encode_value_index_count = 0, rl_encode_presence_word_count = 0, rl_bit_container_value_count = 0,
       rl_conversion_value_count = 0, rl_estimated_workspace_bytes = 0\<rparr>,
     pb_message_execution_plans = [], pb_pipeline_execution_plans = []\<rparr>"

definition no_overrides :: FramingLimitOverrides where
  "no_overrides = \<lparr>ov_max_submit_bytes = 0, ov_max_frames_per_submit = 0, ov_max_work_units = 0,
     ov_max_sync_bytes = 0, ov_max_session_memory_bytes = 0\<rparr>"

definition keep_going :: "unit sink" where
  "keep_going user frame = (SINK_CONTINUE, ())"

definition line_workspace :: StreamFramingWorkspace where
  "line_workspace = the (cr_workspace (CreateStreamFramingWorkspace 256 16 True (example_plan ''0.11'' line_framing) 0 no_overrides))"

definition block_workspace :: StreamFramingWorkspace where
  "block_workspace = the (cr_workspace (CreateStreamFramingWorkspace 256 16 True (example_plan ''0.9'' block_framing) 0 no_overrides))"

lemmas example_defs = line_workspace_def block_workspace_def line_framing_def block_framing_def
  example_plan_def no_overrides_def CreateStreamFramingWorkspace_def SelectLimit_def
  kDesktopResourceProfileLimits_def kMaxStreamSubmitBytesHardLimit_def kMaxStreamFramesPerSubmitHardLimit_def
  kMaxStreamWorkUnitsHardLimit_def kMaxStreamSyncBytesHardLimit_def kMaxStreamSessionMemoryBytesHardLimit_def
  kMaxStreamFrameBytesHardLimit_def SIZE_MAX_def frame_capacity_of_def Let_def

lemma line_created:
  "CreateStreamFramingWorkspace 256 16 True (example_plan ''0.11'' line_framing) 0 no_overrides =
     \<lparr>cr_api_status = SA_OK, cr_workspace = Some line_workspace, cr_accounted_workspace_bytes = 260,
      cr_effective_session_limit_bytes = 524288\<rparr>"
  by (simp add: example_defs)

lemma block_created:
  "CreateStreamFramingWorkspace 256 16 True (example_plan ''0.9'' block_framing) 0 no_overrides =
     \<lparr>cr_api_status = SA_OK, cr_workspace = Some block_workspace, cr_accounted_workspace_bytes = 259,
      cr_effective_session_limit_bytes = 524288\<rparr>"
  by (simp add: example_defs)

lemma Fallback_zero [simp]: "Fallback pat table byte 0 = Some 0"
  by (subst Fallback.simps) simp

lemma line_table: "CheckPrefixTable [0x0D, 0x0A] [0, 0] = Some True"
  by (simp add: CheckPrefixTable_def upt_rec Advance_def)

lemma line_admitted:
  "AdmitFraming ''0.11'' (GetResourceProfileLimits DESKTOP) line_framing = Some (Inr (Some 4))"
  by (simp add: AdmitFraming_def line_table line_framing_def AsciiCrlfFraming_def no_length_field_def
      kDesktopResourceProfileLimits_def kMaxStreamSyncBytesHardLimit_def kMaxStreamFrameBytesHardLimit_def
      SIZE_MAX_def)

lemma block_admitted:
  "AdmitFraming ''0.9'' (GetResourceProfileLimits DESKTOP) block_framing = Some (Inr (Some 3))"
  by (simp add: AdmitFraming_def CheckPrefixTable_def block_framing_def FixedLengthFraming_def no_length_field_def
      kDesktopResourceProfileLimits_def kMaxStreamSyncBytesHardLimit_def kMaxStreamFrameBytesHardLimit_def
      SIZE_MAX_def)

lemma example_profile [simp]: "profile_of (example_plan schema f) 0 = f"
  by (simp add: example_plan_def)

lemma line_session: "framer_session (example_plan ''0.11'' line_framing) 0 line_workspace () [] [] 0"
  by (rule Created [OF line_created]) simp

lemma block_session: "framer_session (example_plan ''0.9'' block_framing) 0 block_workspace () [] [] 0"
  by (rule Created [OF block_created]) simp

lemma example_schema [simp]: "pb_schema_version (example_plan schema f) = schema"
  by (simp add: example_plan_def)

definition bytes_view :: "u8 list \<Rightarrow> ByteView" where
  "bytes_view bytes = \<lparr>bv_address = 4096, bv_bytes = bytes\<rparr>"

lemma replicate_small: "replicate 3 x = [x, x, x]" "replicate 4 x = [x, x, x, x]"
  by (simp_all add: numeral_eq_Suc)

lemma line_push:
  "\<exists>w'. PushStreamChunk (example_plan ''0.11'' line_framing) line_workspace 0
      (bytes_view [0x41, 0x0D, 0x0A, 0x42]) (Some keep_going) None () =
    Some (w', \<lparr>rs_api_status = SA_OK, rs_stop_reason = SR_NEED_MORE, rs_bytes_consumed = 4,
       rs_frames_delivered = 1, rs_bytes_discarded = 0, rs_malformed_candidates = 0,
       rs_last_framing_issue = FI_NONE, rs_work_units_used = 8\<rparr>, (), [[0x41, 0x0D, 0x0A]])"
  by (simp add: PushStreamChunk_def Push_refusal_def Push_loop.simps Push_step_def step_ascii_def step_deliver_def
      framer_ops charge_def bytes_view_def keep_going_def start_push_def initial_result_def example_defs
      NewStreamFramingWorkspace_def ResetCandidate_def release_def after_loop_def HasInternalWork_def
      HasHalfFrame_def replicate_small)

lemma block_push:
  "\<exists>w'. PushStreamChunk (example_plan ''0.9'' block_framing) block_workspace 0
      (bytes_view [1, 2, 3, 4]) (Some keep_going) None () =
    Some (w', \<lparr>rs_api_status = SA_OK, rs_stop_reason = SR_NEED_MORE, rs_bytes_consumed = 4,
       rs_frames_delivered = 1, rs_bytes_discarded = 0, rs_malformed_candidates = 0,
       rs_last_framing_issue = FI_NONE, rs_work_units_used = 8\<rparr>, (), [[1, 2, 3]])"
  by (simp add: PushStreamChunk_def Push_refusal_def Push_loop.simps Push_step_def step_collect_def step_deliver_def
      framer_ops charge_def bytes_view_def keep_going_def start_push_def initial_result_def example_defs
      NewStreamFramingWorkspace_def ResetCandidate_def release_def after_loop_def HasInternalWork_def
      HasHalfFrame_def replicate_small)

lemma line_session_push:
  "\<exists>w'. framer_session (example_plan ''0.11'' line_framing) 0 w' () [0x41, 0x0D, 0x0A, 0x42] [[0x41, 0x0D, 0x0A]] 0"
  using line_push framer_session.Submitted [OF line_session] by (fastforce simp: bytes_view_def)

lemma block_session_push:
  "\<exists>w'. framer_session (example_plan ''0.9'' block_framing) 0 w' () [1, 2, 3, 4] [[1, 2, 3]] 0"
  using block_push framer_session.Submitted [OF block_session] by (fastforce simp: bytes_view_def)

end
