(* ===== verification/Framer_Properties.thy ===== *)
theory Framer_Properties
  imports Framer_Session
begin

text \<open>
  The properties of the stream framer, of every session on a framing profile that the plan builder admits.
\<close>

lemma line_accepted:
  "AdmitFraming (pb_schema_version (example_plan ''0.11'' line_framing)) (GetResourceProfileLimits DESKTOP)
     (profile_of (example_plan ''0.11'' line_framing) 0) = Some (Inr (Some 4))"
  by (simp only: example_schema example_profile line_admitted)

lemma block_accepted:
  "AdmitFraming (pb_schema_version (example_plan ''0.9'' block_framing)) (GetResourceProfileLimits DESKTOP)
     (profile_of (example_plan ''0.9'' block_framing) 0) = Some (Inr (Some 3))"
  by (simp only: example_schema example_profile block_admitted)

lemma line_not_refused:
  "Push_refusal (example_plan ''0.11'' line_framing) line_workspace 0 (bytes_view [0x41, 0x0D, 0x0A, 0x42])
     (Some keep_going) None = None"
  by (simp add: Push_refusal_def bytes_view_def example_defs NewStreamFramingWorkspace_def ResetCandidate_def)

lemma admitted_session:
  assumes "framer_session plan pipeline w user stream frames discarded"
    and "AdmitFraming (pb_schema_version plan) limit (profile_of plan pipeline) = Some (Inr (Some capacity))"
  shows "session_ok plan pipeline w stream frames discarded"
  by (rule session_inv [OF assms(1)]) (use AdmitFraming_ok [OF assms(2)] in simp)

text \<open>C7. On a profile the plan builder admits, a submission that is not refused returns, never reports an
  internal error, keeps the workspace invariant and the bindings, consumes at most the chunk, and stays within the frame
  and work limits; the result counts the frames it delivered.\<close>

theorem submission_safe:
  assumes "framer_session plan pipeline w user stream frames discarded"
    and "AdmitFraming (pb_schema_version plan) limit (profile_of plan pipeline) = Some (Inr (Some capacity))"
    and "Push_refusal plan w pipeline input (Some sink) callback = None"
  shows "\<exists>w' r user' delivered.
     PushStreamChunk plan w pipeline input (Some sink) callback user = Some (w', r, user', delivered) \<and>
     rs_api_status r = SA_OK \<and> workspace_ok w' \<and> limits w' = limits w \<and>
     rs_bytes_consumed r \<le> length (bv_bytes input) \<and>
     rs_work_units_used r \<le> max_work w \<and>
     rs_frames_delivered r = length delivered \<and> length delivered \<le> max_frames w"
proof -
  have s: "session_ok plan pipeline w stream frames discarded" by (rule admitted_session [OF assms(1,2)])
  then obtain p where w: "workspace_ok w" "holds w p" by (auto simp: session_ok_def)
  from PushStreamChunk_ok [OF w assms(3), of user] obtain c where
    c: "PushStreamChunk plan w pipeline input (Some sink) callback user = Some (release c)"
      "push_ok p (bv_bytes input) c" "limits (ps_workspace c) = limits (w\<lparr>in_use := True\<rparr>)" by blast
  have "limits ((ps_workspace c)\<lparr>in_use := False\<rparr>) = limits w"
    using c(3) s by (simp add: limits_def session_ok_def)
  then show ?thesis
    using c(1,2) limits_eqD(1,2) [OF c(3)] by (auto simp: release_def push_ok_def in_use_irrelevant)
qed

theorem submission_safe_witness:
  "\<exists>w' r user' delivered.
     PushStreamChunk (example_plan ''0.11'' line_framing) line_workspace 0 (bytes_view [0x41, 0x0D, 0x0A, 0x42])
       (Some keep_going) None () = Some (w', r, user', delivered) \<and>
     rs_api_status r = SA_OK \<and> workspace_ok w' \<and> limits w' = limits line_workspace \<and>
     rs_bytes_consumed r \<le> length (bv_bytes (bytes_view [0x41, 0x0D, 0x0A, 0x42])) \<and>
     rs_work_units_used r \<le> max_work line_workspace \<and>
     rs_frames_delivered r = length delivered \<and> length delivered \<le> max_frames line_workspace"
  by (rule submission_safe [OF line_session line_accepted line_not_refused])


text \<open>C4. In every session the bytes consumed so far are, in order, the delivered frames, the discarded bytes
  and the bytes the workspace holds: no byte is lost, duplicated or reordered, and the discard counters add up to
  the bytes that went into no frame.\<close>

theorem session_stream_partition:
  assumes "framer_session plan pipeline w user stream frames discarded"
    and "AdmitFraming (pb_schema_version plan) limit (profile_of plan pipeline) = Some (Inr (Some capacity))"
  shows "\<exists>segs p. holds w p \<and> stream = stream_bytes segs @ p \<and> frames = frames_of segs \<and>
     discarded = skipped_count segs"
  using admitted_session [OF assms] by (simp add: session_ok_def)

theorem session_stream_partition_witness:
  "\<exists>w segs p. holds w p \<and> [0x41, 0x0D, 0x0A, 0x42] = stream_bytes segs @ p \<and>
     [[0x41, 0x0D, 0x0A]] = frames_of segs \<and> 0 = skipped_count segs"
proof -
  obtain w where "framer_session (example_plan ''0.11'' line_framing) 0 w () [0x41, 0x0D, 0x0A, 0x42]
      [[0x41, 0x0D, 0x0A]] 0" using line_session_push by blast
  from session_stream_partition [OF this line_accepted] show ?thesis by blast
qed

text \<open>C11. Every frame a session delivers has the shape its framing strategy demands: the fixed length, the
  synchronisation bytes at the front, a length field that states the length of the frame within the
  configured bounds, or a single CR LF at the end of a record that is not too long.\<close>

theorem session_frames_well_formed:
  assumes "framer_session plan pipeline w user stream frames discarded"
    and "AdmitFraming (pb_schema_version plan) limit (profile_of plan pipeline) = Some (Inr (Some capacity))"
    and "frame \<in> set frames"
  shows "frame_shape (profile_of plan pipeline) frame \<and> length frame \<le> capacity"
proof -
  have s: "session_ok plan pipeline w stream frames discarded" by (rule admitted_session [OF assms(1,2)])
  then have "\<forall>f \<in> set frames. frame_shape (profile_of plan pipeline) f" unfolding session_ok_def by metis
  then have shape: "frame_shape (profile_of plan pipeline) frame" using assms(3) by blast
  have "framing_ok (profile_of plan pipeline) \<and> capacity = frame_capacity_of (profile_of plan pipeline)"
    by (rule AdmitFraming_ok [OF assms(2)])
  with shape show ?thesis
    by (auto simp: frame_shape_def frame_capacity_of_def split: FramingStrategy.splits)
qed

theorem session_frames_well_formed_witness:
  "frame_shape line_framing [0x41, 0x0D, 0x0A] \<and> length [0x41, 0x0D, 0x0A :: u8] \<le> 4"
proof -
  obtain w where "framer_session (example_plan ''0.11'' line_framing) 0 w () [0x41, 0x0D, 0x0A, 0x42]
      [[0x41, 0x0D, 0x0A]] 0" using line_session_push by blast
  from session_frames_well_formed [OF this line_accepted list.set_intros(1)] show ?thesis
    by (simp only: example_profile)
qed

text \<open>C10. ASCII framing delivers exactly the records of the stream: cut the consumed bytes after every CR LF;
  the frames delivered, with the one that still waits for the sink, are the records that do not exceed the
  maximum length, in order.\<close>

theorem ascii_session_records:
  assumes "framer_session plan pipeline w user stream frames discarded"
    and "AdmitFraming (pb_schema_version plan) limit (profile_of plan pipeline) = Some (Inr (Some capacity))"
    and "fp_strategy (profile_of plan pipeline) = FS_ASCII_CRLF"
  shows "frames @ pending w = short_records (profile_of plan pipeline) (fst (crlf_records [] stream))"
  using admitted_session [OF assms(1,2)] assms(3) by (auto simp: session_ok_def)

theorem ascii_session_records_witness:
  "\<exists>w. [[0x41, 0x0D, 0x0A]] @ pending w =
     short_records line_framing (fst (crlf_records [] [0x41, 0x0D, 0x0A, 0x42]))"
proof -
  have "fp_strategy (profile_of (example_plan ''0.11'' line_framing) 0) = FS_ASCII_CRLF"
    by (simp only: example_profile) (simp add: line_framing_def)
  moreover obtain w where "framer_session (example_plan ''0.11'' line_framing) 0 w ()
      [0x41, 0x0D, 0x0A, 0x42] [[0x41, 0x0D, 0x0A]] 0" using line_session_push by blast
  ultimately show ?thesis
    using ascii_session_records [of "example_plan ''0.11'' line_framing" 0 w "()", OF _ line_accepted]
    by (auto simp only: example_profile)
qed

text \<open>C37. Fixed-length framing cuts the stream into blocks of the configured length: it discards nothing, and
  what follows the delivered blocks is in the buffer.\<close>

theorem fixed_session_blocks:
  assumes "framer_session plan pipeline w user stream frames discarded"
    and "AdmitFraming (pb_schema_version plan) limit (profile_of plan pipeline) = Some (Inr (Some capacity))"
    and "fp_strategy (profile_of plan pipeline) = FS_FIXED_LENGTH"
  shows "discarded = 0 \<and> stream = concat frames @ bytes_of w \<and> buffered_size w \<le> capacity \<and>
     (\<forall>frame \<in> set frames. length frame = capacity)"
proof -
  have s: "session_ok plan pipeline w stream frames discarded" by (rule admitted_session [OF assms(1,2)])
  have cap: "capacity = fp_frame_length_bytes (profile_of plan pipeline)"
    using AdmitFraming_ok [OF assms(2)] assms(3) by (simp add: frame_capacity_of_def)
  from s obtain segs p where h: "holds w p" "stream = stream_bytes segs @ p" "frames = frames_of segs"
      "discarded = skipped_count segs"
    and w: "workspace_ok w" "framing w = profile_of plan pipeline" and d: "discarded = 0"
    using assms(3) by (auto simp: session_ok_def)
  have "state w = COLLECT_FIXED \<or> state w = DELIVER_PENDING"
    using w assms(3) by (cases "state w") (auto simp: workspace_ok_def)
  then have p: "p = bytes_of w" "buffered_size w \<le> capacity"
    using h(1) w assms(3) cap
    by (auto simp: holds_def workspace_ok_def frame_shape_def frame_capacity_of_def)
  have "stream_bytes segs = concat (frames_of segs)" if "skipped_count segs = 0"
    using that by (induction segs) (auto split: segment.splits)
  then have "stream = concat frames @ bytes_of w" using h d p(1) by simp
  moreover have "\<forall>frame \<in> set frames. frame_shape (profile_of plan pipeline) frame"
    using s unfolding session_ok_def by metis
  then have "\<forall>frame \<in> set frames. length frame = capacity"
    using assms(3) cap by (simp add: frame_shape_def)
  ultimately show ?thesis using d p(2) by blast
qed

theorem fixed_session_blocks_witness:
  "\<exists>w. [1, 2, 3, 4] = concat [[1, 2, 3]] @ bytes_of w \<and> buffered_size w \<le> 3"
proof -
  have "fp_strategy (profile_of (example_plan ''0.9'' block_framing) 0) = FS_FIXED_LENGTH"
    by (simp only: example_profile) (simp add: block_framing_def)
  moreover obtain w where "framer_session (example_plan ''0.9'' block_framing) 0 w () [1, 2, 3, 4] [[1, 2, 3]] 0"
    using block_session_push by blast
  ultimately show ?thesis
    using fixed_session_blocks [of "example_plan ''0.9'' block_framing" 0 w "()", OF _ block_accepted] by blast
qed

lemma SelectLimit_valid: "SelectLimit r d h v = (s, True) \<Longrightarrow> v \<and> 0 < s \<and> s \<le> h"
  by (auto simp: SelectLimit_def Let_def split: if_splits)

lemma create_limits:
  assumes "cr_workspace (CreateStreamFramingWorkspace sizeof_workspace address allocated plan pipeline overrides) = Some w"
  shows "0 < max_submit w \<and> max_submit w \<le> kMaxStreamSubmitBytesHardLimit \<and>
     0 < max_frames w \<and> max_frames w \<le> kMaxStreamFramesPerSubmitHardLimit \<and>
     max 4 (1 + 2 * length (sync_of w)) \<le> max_work w \<and> max_work w \<le> kMaxStreamWorkUnitsHardLimit \<and>
     AccountedWorkspaceBytes sizeof_workspace w \<le> max_session w \<and>
     max_session w \<le> kMaxStreamSessionMemoryBytesHardLimit"
proof -
  let ?f = "profile_of plan pipeline"
  let ?limits = "GetResourceProfileLimits (pb_resource_profile plan)"
  from assms obtain submit v1 frames v2 work v3 sync v4 session where
    sel: "SelectLimit (ov_max_submit_bytes overrides) (max_submit_bytes ?limits) kMaxStreamSubmitBytesHardLimit True = (submit, v1)"
      "SelectLimit (ov_max_frames_per_submit overrides) (max_frames_per_submit ?limits) kMaxStreamFramesPerSubmitHardLimit v1 = (frames, v2)"
      "SelectLimit (ov_max_work_units overrides) (max_framer_work_units ?limits) kMaxStreamWorkUnitsHardLimit v2 = (work, v3)"
      "SelectLimit (ov_max_sync_bytes overrides) (max_sync_bytes ?limits) kMaxStreamSyncBytesHardLimit v3 = (sync, v4)"
      "SelectLimit (ov_max_session_memory_bytes overrides) (max_session_memory_bytes ?limits) kMaxStreamSessionMemoryBytesHardLimit v4 = (session, True)"
    and w: "w = NewStreamFramingWorkspace address plan pipeline ?f (frame_capacity_of ?f) submit frames work session"
    and budget: "sizeof_workspace + frame_capacity_of ?f \<le> session" "max 4 (1 + 2 * length (fp_sync_bytes ?f)) \<le> work"
    by (auto simp: CreateStreamFramingWorkspace_def Let_def split: prod.splits if_splits)
  note s5 = SelectLimit_valid [OF sel(5)]
  note s4 = SelectLimit_valid [OF sel(4) [unfolded conjunct1 [OF s5, THEN eqTrueI]]]
  note s3 = SelectLimit_valid [OF sel(3) [unfolded conjunct1 [OF s4, THEN eqTrueI]]]
  note s2 = SelectLimit_valid [OF sel(2) [unfolded conjunct1 [OF s3, THEN eqTrueI]]]
  note s1 = SelectLimit_valid [OF sel(1) [unfolded conjunct1 [OF s2, THEN eqTrueI]]]
  have "max_submit w = submit" "max_frames w = frames" "max_work w = work" "max_session w = session"
    "sync_of w = fp_sync_bytes ?f" "length (buffer w) = frame_capacity_of ?f"
    by (simp_all add: w NewStreamFramingWorkspace_def ResetCandidate_def Let_def)
  then show ?thesis
    using s1 s2 s3 s5 budget by (simp add: AccountedWorkspaceBytes_def)
qed

text \<open>C38. A workspace that the creation returns on an admitted profile satisfies the invariant, is empty, has a
  buffer for the largest frame, and has limits within the hard limits that let every turn of the loop be
  paid for.\<close>

theorem create_workspace_sound:
  assumes "cr_workspace (CreateStreamFramingWorkspace sizeof_workspace address allocated plan pipeline overrides) = Some w"
    and "AdmitFraming (pb_schema_version plan) limit (profile_of plan pipeline) = Some (Inr (Some capacity))"
  shows "workspace_ok w \<and> holds w [] \<and> length (buffer w) = capacity \<and>
     0 < max_submit w \<and> max_submit w \<le> kMaxStreamSubmitBytesHardLimit \<and>
     0 < max_frames w \<and> max_frames w \<le> kMaxStreamFramesPerSubmitHardLimit \<and>
     max 4 (1 + 2 * length (sync_of w)) \<le> max_work w \<and> max_work w \<le> kMaxStreamWorkUnitsHardLimit \<and>
     AccountedWorkspaceBytes sizeof_workspace w \<le> max_session w \<and>
     max_session w \<le> kMaxStreamSessionMemoryBytesHardLimit"
proof -
  have f: "framing_ok (profile_of plan pipeline)" "capacity = frame_capacity_of (profile_of plan pipeline)"
    using AdmitFraming_ok [OF assms(2)] by simp_all
  note c = create_ok [OF assms(1) f(1)]
  have "length (buffer w) = capacity" using c(1,3) f(2) by (simp add: workspace_ok_def)
  moreover have "0 < max_submit w \<and> max_submit w \<le> kMaxStreamSubmitBytesHardLimit \<and>
     0 < max_frames w \<and> max_frames w \<le> kMaxStreamFramesPerSubmitHardLimit \<and>
     max 4 (1 + 2 * length (sync_of w)) \<le> max_work w \<and> max_work w \<le> kMaxStreamWorkUnitsHardLimit \<and>
     AccountedWorkspaceBytes sizeof_workspace w \<le> max_session w \<and>
     max_session w \<le> kMaxStreamSessionMemoryBytesHardLimit"
    using create_limits [OF assms(1)] .
  ultimately show ?thesis using c(1,2) by blast
qed

theorem create_workspace_sound_witness:
  "workspace_ok line_workspace \<and> holds line_workspace [] \<and> length (buffer line_workspace) = 4 \<and>
   max 4 (1 + 2 * length (sync_of line_workspace)) \<le> max_work line_workspace"
proof -
  have "cr_workspace (CreateStreamFramingWorkspace 256 16 True (example_plan ''0.11'' line_framing) 0 no_overrides)
      = Some line_workspace" by (simp add: line_created)
  from create_workspace_sound [OF this line_accepted] show ?thesis by blast
qed

text \<open>The stop reason of a submission tells the caller what to do: input exhausted and need-more are
  reported only when the whole chunk is consumed and no internal work is left, and they say whether the workspace holds
  part of a frame; in every other case the reason is the work budget or the sink.\<close>

lemma submission_stop_reason:
  assumes "framer_session plan pipeline w user stream frames discarded"
    and "AdmitFraming (pb_schema_version plan) limit (profile_of plan pipeline) = Some (Inr (Some capacity))"
    and "PushStreamChunk plan w pipeline input (Some sink) callback user = Some (w', r, user', delivered)"
    and "rs_api_status r = SA_OK"
  shows "rs_stop_reason r \<in> {SR_WORK_BUDGET_REACHED, SR_SINK_STOP} \<or>
     rs_bytes_consumed r = length (bv_bytes input) \<and> \<not> HasInternalWork w' \<and>
     rs_stop_reason r = (if HasHalfFrame w' then SR_NEED_MORE else SR_INPUT_EXHAUSTED)"
proof -
  from admitted_session [OF assms(1,2)] obtain p where w: "workspace_ok w" "holds w p"
    by (auto simp: session_ok_def)
  from w assms(3) show ?thesis
  proof (cases rule: submission)
    case (refused status)
    then have "status = SA_OK" using assms(4) by simp
    then show ?thesis using refused_result [OF refused(1)] by simp
  next
    case (accepted c d)
    then show ?thesis
      by (cases "rs_stop_reason (ps_result c)")
        (auto simp: stop_fits_def HasInternalWork_def HasHalfFrame_def)
  qed
qed

lemma submission_stop_reason_witness:
  "\<exists>w'. \<not> HasInternalWork w' \<and> SR_NEED_MORE = (if HasHalfFrame w' then SR_NEED_MORE else SR_INPUT_EXHAUSTED)"
proof -
  let ?r = "\<lparr>rs_api_status = SA_OK, rs_stop_reason = SR_NEED_MORE, rs_bytes_consumed = 4,
       rs_frames_delivered = 1, rs_bytes_discarded = 0, rs_malformed_candidates = 0,
       rs_last_framing_issue = FI_NONE, rs_work_units_used = 8\<rparr>"
  obtain w' where
    p: "PushStreamChunk (example_plan ''0.11'' line_framing) line_workspace 0
      (bytes_view [0x41, 0x0D, 0x0A, 0x42]) (Some keep_going) None () = Some (w', ?r, (), [[0x41, 0x0D, 0x0A]])"
    using line_push by blast
  have ok: "rs_api_status ?r = SA_OK" by simp
  from submission_stop_reason [OF line_session line_accepted p ok] show ?thesis
    by (intro exI [of _ w']) simp
qed

lemma session_bindings:
  "framer_session plan pipeline w user stream frames discarded \<Longrightarrow>
     pipeline < length (pb_pipelines plan) \<and>
     (pb_schema_version plan = ''0.9'' \<or> pb_schema_version plan = ''0.11'')"
  by (induction rule: framer_session.induct)
    (auto simp: CreateStreamFramingWorkspace_def Let_def split: if_splits)

text \<open>In a session a submission is refused only for a null chunk that is not empty, for a chunk over the limit,
  or when it is made from inside the callback of this workspace; a refused submission changes nothing.\<close>

lemma refused_submission:
  assumes "framer_session plan pipeline w user stream frames discarded"
    and "AdmitFraming (pb_schema_version plan) limit (profile_of plan pipeline) = Some (Inr (Some capacity))"
    and "PushStreamChunk plan w pipeline input (Some sink) callback user = Some (w', r, user', delivered)"
    and "rs_api_status r \<noteq> SA_OK"
  shows "w' = w \<and> user' = user \<and> delivered = [] \<and> r = initial_result\<lparr>rs_api_status := rs_api_status r\<rparr> \<and>
     (rs_api_status r = SA_INVALID_ARGUMENT \<and> bv_address input = 0 \<and> bv_bytes input \<noteq> [] \<or>
      rs_api_status r = SA_REENTRANT_CALL \<and> callback = Some (sw_address w) \<or>
      rs_api_status r = SA_LIMIT_EXCEEDED \<and> max_submit w < length (bv_bytes input))"
proof -
  from admitted_session [OF assms(1,2)] obtain p where w: "workspace_ok w" "holds w p"
    and bound: "sw_plan w = pb_address plan" "sw_pipeline_index w = pipeline" "\<not> in_use w"
    by (auto simp: session_ok_def)
  from w assms(3) show ?thesis
  proof (cases rule: submission)
    case (refused status)
    then show ?thesis
      using bound session_bindings [OF assms(1)] by (auto simp: Push_refusal_def split: if_splits)
  next
    case (accepted c d)
    then show ?thesis using assms(4) by (simp add: push_ok_def)
  qed
qed

lemma refused_submission_witness:
  "\<exists>w' r user' delivered.
     PushStreamChunk (example_plan ''0.11'' line_framing) line_workspace 0 (bytes_view [0x41]) (Some keep_going)
       (Some 16) () = Some (w', r, user', delivered) \<and> w' = line_workspace \<and>
     rs_api_status r = SA_REENTRANT_CALL \<and> Some 16 = Some (sw_address line_workspace)"
proof -
  let ?r = "initial_result\<lparr>rs_api_status := SA_REENTRANT_CALL\<rparr>"
  have p: "PushStreamChunk (example_plan ''0.11'' line_framing) line_workspace 0 (bytes_view [0x41])
      (Some keep_going) (Some 16) () = Some (line_workspace, ?r, (), [])"
    by (simp add: PushStreamChunk_def Push_refusal_def bytes_view_def example_defs NewStreamFramingWorkspace_def
        ResetCandidate_def)
  have "rs_api_status ?r \<noteq> SA_OK" by simp
  from refused_submission [OF line_session line_accepted p this] p show ?thesis by (auto simp: bytes_view_def)
qed

end
