(* ===== verification/Wire_Int.thy ===== *)
theory Wire_Int
  imports Decimal_Codec
begin

text \<open>
  Integers on the wire, \<^verbatim>\<open>src/src/protocol_core/complete_record_codec.cpp\<close>: range checks,
  sign extension, bit fields, and loading and storing an integer of one to eight bytes in either byte
  order.  A pointer into a buffer is the list of the bytes from there on; the callers pass pointers
  into a buffer they have checked, so the null tests of the two routines have no image here.
\<close>

section \<open>Definitions\<close>

definition FitsUnsignedWidth :: "u64 \<Rightarrow> nat \<Rightarrow> bool" where
  "FitsUnsignedWidth v byte_width =
     (if byte_width = 0 \<or> byte_width > 8 then False
      else if byte_width = 8 then True
      else v < push_bit (byte_width * 8) 1)"

definition FitsUnsignedBits :: "u64 \<Rightarrow> nat \<Rightarrow> bool" where
  "FitsUnsignedBits v bit_width \<longleftrightarrow>
     bit_width = 64 \<or> (bit_width \<noteq> 0 \<and> bit_width < 64 \<and> v < push_bit bit_width 1)"

definition FitsSignedWidth :: "i64 \<Rightarrow> nat \<Rightarrow> bool" where
  "FitsSignedWidth v byte_width =
     (if byte_width = 0 \<or> byte_width > 8 then False
      else if byte_width = 8 then True
      else let magnitude_bits = byte_width * 8 - 1;
               minimum = - (push_bit magnitude_bits 1 :: i64);
               maximum = (push_bit magnitude_bits 1 - 1 :: i64)
           in sint minimum \<le> sint v \<and> sint v \<le> sint maximum)"

definition InterpretSigned :: "u64 \<Rightarrow> nat \<Rightarrow> i64 option" where
  "InterpretSigned raw byte_width =
     (if byte_width = 0 \<or> byte_width > 8 then None
      else let bits = byte_width * 8; sign = push_bit (bits - 1) (1 :: u64)
           in if raw AND sign = 0 then Some raw
              else let m = (if bits = 64 then - 1 else push_bit bits 1 - 1);
                       magnitude = (NOT raw AND m) + 1
                   in if magnitude = push_bit 63 1 then Some (push_bit 63 1) else Some (- magnitude))"

definition ExtractBitfield :: "u64 \<Rightarrow> FieldExecutionPlan \<Rightarrow> u64" where
  "ExtractBitfield container field = drop_bit (fe_bit_shift field) (container AND fe_bit_mask field)"

definition InsertBitfield :: "u64 \<Rightarrow> u64 \<Rightarrow> FieldExecutionPlan \<Rightarrow> u64" where
  "InsertBitfield container raw field =
     (container AND NOT (fe_bit_mask field)) OR (push_bit (fe_bit_shift field) raw AND fe_bit_mask field)"

definition IsIntegerByteOrderValid :: "ByteOrder \<Rightarrow> nat \<Rightarrow> bool" where
  "IsIntegerByteOrderValid order byte_width =
     (if byte_width = 1 then order = BO_NOT_APPLICABLE \<or> order = BO_BIG \<or> order = BO_LITTLE
      else order = BO_BIG \<or> order = BO_LITTLE)"

definition LoadUnsigned :: "u8 list \<Rightarrow> nat \<Rightarrow> ByteOrder \<Rightarrow> u64 option" where
  "LoadUnsigned data byte_width order =
     (if byte_width = 0 \<or> byte_width > 8 \<or> \<not> IsIntegerByteOrderValid order byte_width then None
      else if byte_width = 1 \<or> order = BO_BIG then
        Some (fold (\<lambda>index v. push_bit 8 v OR ucast (data ! index)) [0..<byte_width] 0)
      else Some (fold (\<lambda>index v. v OR push_bit (index * 8) (ucast (data ! index))) [0..<byte_width] 0))"

definition StoreUnsigned :: "u64 \<Rightarrow> u8 list \<Rightarrow> nat \<Rightarrow> nat \<Rightarrow> ByteOrder \<Rightarrow> u8 list option" where
  "StoreUnsigned v data offset byte_width order =
     (if \<not> IsIntegerByteOrderValid order byte_width \<or> \<not> FitsUnsignedWidth v byte_width then None
      else Some (fold (\<lambda>index out.
             let source_index = (if order = BO_BIG then byte_width - 1 - index else index)
             in out[offset + index := ucast (drop_bit (source_index * 8) v AND 0xFF)])
           [0..<byte_width] data))"

section \<open>Ranges\<close>

lemma FitsUnsignedWidth_iff: "FitsUnsignedWidth v w \<longleftrightarrow> 0 < w \<and> w \<le> 8 \<and> unat v < 2 ^ (8 * w)"
proof (cases "w = 0 \<or> 8 \<le> w")
  case True
  have "unat v < 2 ^ 64" using unat_u64_lt [of v] by simp
  with True show ?thesis by (auto simp: FitsUnsignedWidth_def)
next
  case False
  then have "unat (push_bit (w * 8) 1 :: u64) = 2 ^ (w * 8)" by (intro unat_push_1) simp
  with False show ?thesis by (auto simp: FitsUnsignedWidth_def word_less_nat_alt mult.commute)
qed

lemma FitsUnsignedBits_iff: "FitsUnsignedBits v w \<longleftrightarrow> 0 < w \<and> w \<le> 64 \<and> unat v < 2 ^ w"
proof (cases "w = 0 \<or> 64 \<le> w")
  case True
  have "unat v < 2 ^ 64" using unat_u64_lt [of v] by simp
  with True show ?thesis by (auto simp: FitsUnsignedBits_def)
next
  case False
  then have "unat (push_bit w 1 :: u64) = 2 ^ w" by (intro unat_push_1) simp
  with False show ?thesis by (auto simp: FitsUnsignedBits_def word_less_nat_alt)
qed

lemma unat_lt_bits:
  assumes "unat (v :: u64) < 2 ^ k" "bit v n" shows "n < k"
proof -
  have "take_bit k (unat v) = unat v" by (rule take_bit_nat_eq_self [OF assms(1)])
  moreover have "bit (unat v) n" using assms(2) by (simp add: bit_unsigned_iff)
  ultimately have "bit (take_bit k (unat v)) n" by simp
  then show ?thesis by (simp add: bit_take_bit_iff)
qed

lemma bit_byte_le: "bit (b :: u8) n \<Longrightarrow> n < 8"
  using bit_imp_le_length [of b n] by simp

section \<open>Loading and storing\<close>

lemma bit_push_byte:
  "bit (push_bit 8 v OR ucast (b :: u8) :: u64) n \<longleftrightarrow> n < 64 \<and> (if n < 8 then bit b n else bit v (n - 8))"
  using bit_byte_le [of b n] by (auto simp: bit_or_iff bit_push_bit_iff bit_ucast_iff)

lemma bit_load_big:
  "w \<le> 8 \<Longrightarrow> bit (fold (\<lambda>index v. push_bit 8 v OR ucast (data ! index)) [0..<w] (0 :: u64)) n \<longleftrightarrow>
     n < 8 * w \<and> bit (data ! (w - 1 - n div 8) :: u8) (n mod 8)"
proof (induction w arbitrary: n)
  case (Suc w)
  let ?v = "fold (\<lambda>index v. push_bit 8 v OR ucast (data ! index)) [0..<w] (0 :: u64)"
  have s: "bit (fold (\<lambda>index v. push_bit 8 v OR ucast (data ! index)) [0..<Suc w] (0 :: u64)) n \<longleftrightarrow>
      n < 64 \<and> (if n < 8 then bit (data ! w) n else bit ?v (n - 8))"
    by (simp add: bit_push_byte)
  show ?case
  proof (cases "n < 8")
    case True
    then show ?thesis unfolding s using Suc.prems by simp
  next
    case False
    then have "n div 8 = Suc ((n - 8) div 8)" "(n - 8) mod 8 = n mod 8"
      by (auto simp: le_div_geq le_mod_geq)
    moreover have "bit ?v (n - 8) \<longleftrightarrow> n - 8 < 8 * w \<and> bit (data ! (w - 1 - (n - 8) div 8)) ((n - 8) mod 8)"
      using Suc.prems by (intro Suc.IH) simp
    moreover have "n - 8 < 8 * w \<longleftrightarrow> n < 8 * Suc w" using False by auto
    ultimately show ?thesis unfolding s using False Suc.prems by auto
  qed
qed simp

lemma bit_byte_at:
  assumes "w < 8"
  shows "bit (push_bit (w * 8) (ucast (b :: u8)) :: u64) n \<longleftrightarrow> 8 * w \<le> n \<and> n < 8 * Suc w \<and> bit b (n mod 8)"
proof (cases "8 * w \<le> n \<and> n < 8 * Suc w")
  case True
  then have "n = 8 * w + n mod 8"
    by (metis add.commute div_nat_eqI mult.commute mult_div_mod_eq mult_Suc_right)
  then have "n - w * 8 = n mod 8" by (metis add_diff_cancel_left' mult.commute)
  moreover have "n mod 8 < 64" by (rule less_trans [of _ 8]) simp_all
  ultimately show ?thesis using True assms
    by (simp add: bit_push_bit_iff bit_ucast_iff mult.commute)
next
  case False
  have "\<not> bit b (n - w * 8)" if "8 * w \<le> n" using that False bit_byte_le [of b "n - w * 8"] by auto
  with False show ?thesis by (auto simp: bit_push_bit_iff bit_ucast_iff mult.commute)
qed

lemma bit_load_little:
  "w \<le> 8 \<Longrightarrow> bit (fold (\<lambda>index v. v OR push_bit (index * 8) (ucast (data ! index))) [0..<w] (0 :: u64)) n \<longleftrightarrow>
     n < 8 * w \<and> bit (data ! (n div 8) :: u8) (n mod 8)"
proof (induction w arbitrary: n)
  case (Suc w)
  let ?v = "fold (\<lambda>index v. v OR push_bit (index * 8) (ucast (data ! index))) [0..<w] (0 :: u64)"
  have s: "bit (fold (\<lambda>index v. v OR push_bit (index * 8) (ucast (data ! index))) [0..<Suc w] (0 :: u64)) n \<longleftrightarrow>
      bit ?v n \<or> 8 * w \<le> n \<and> n < 8 * Suc w \<and> bit (data ! w) (n mod 8)"
    using Suc.prems by (simp add: bit_or_iff bit_byte_at)
  have "n div 8 = w" if "8 * w \<le> n" "n < 8 * Suc w"
    using that by (intro div_nat_eqI) simp_all
  with Suc show ?case unfolding s by (cases "n < 8 * w") auto
qed simp

lemma LoadUnsigned_bits:
  assumes "LoadUnsigned data w order = Some v"
  shows "bit v n \<longleftrightarrow> n < 8 * w \<and>
     bit (data ! (if order = BO_BIG then w - 1 - n div 8 else n div 8)) (n mod 8)"
  using assms bit_load_big [of w data n] bit_load_little [of w data n]
  by (auto simp: LoadUnsigned_def IsIntegerByteOrderValid_def split: if_splits)

lemma store_fold:
  "length (fold (\<lambda>index out. out[offset + index := b index]) [0..<w] data) = length data"
  "j < length data \<Longrightarrow> fold (\<lambda>index out. out[offset + index := b index]) [0..<w] data ! j =
     (if offset \<le> j \<and> j < offset + w then b (j - offset) else data ! j)"
proof -
  show l: "length (fold (\<lambda>index out. out[offset + index := b index]) [0..<w] data) = length data" for w
    by (induction w) simp_all
  show "j < length data \<Longrightarrow> fold (\<lambda>index out. out[offset + index := b index]) [0..<w] data ! j =
     (if offset \<le> j \<and> j < offset + w then b (j - offset) else data ! j)"
  proof (induction w)
    case (Suc w)
    then show ?case using l [of w] by (cases "j = offset + w") (auto simp: nth_list_update)
  qed auto
qed

definition stored_byte :: "u64 \<Rightarrow> nat \<Rightarrow> ByteOrder \<Rightarrow> nat \<Rightarrow> u8" where
  "stored_byte v w order index =
     ucast (drop_bit ((if order = BO_BIG then w - 1 - index else index) * 8) v AND 0xFF)"

lemma StoreUnsigned_Some:
  "StoreUnsigned v data offset w order = Some out \<longleftrightarrow>
     IsIntegerByteOrderValid order w \<and> FitsUnsignedWidth v w \<and>
     out = fold (\<lambda>index out. out[offset + index := stored_byte v w order index]) [0..<w] data"
  by (auto simp: StoreUnsigned_def stored_byte_def Let_def)

lemma StoreUnsigned_length:
  "StoreUnsigned v data offset w order = Some out \<Longrightarrow> length out = length data"
  by (auto simp: StoreUnsigned_Some store_fold(1))

lemma StoreUnsigned_nth:
  assumes "StoreUnsigned v data offset w order = Some out" "j < length data"
  shows "out ! j = (if offset \<le> j \<and> j < offset + w then stored_byte v w order (j - offset) else data ! j)"
  using assms by (auto simp: StoreUnsigned_Some store_fold(2))

lemma bit_low_byte: "bit (0xFF :: u64) k \<longleftrightarrow> k < 8"
proof -
  have eq: "(0xFF :: u64) = mask 8" by (simp add: mask_eq_exp_minus_1)
  show ?thesis unfolding eq bit_mask_iff by (auto simp: possible_bit_word)
qed

lemma stored_byte_bit:
  "k < 8 \<Longrightarrow> bit (stored_byte v w order index) k \<longleftrightarrow>
     bit v ((if order = BO_BIG then w - 1 - index else index) * 8 + k)"
  unfolding stored_byte_def bit_ucast_iff bit_and_iff bit_drop_bit_eq bit_low_byte comp_def
  by (simp add: add.commute)

lemma big_index: "n < 8 * w \<Longrightarrow> (w - 1 - (w - 1 - n div 8)) * 8 + n mod 8 = (n :: nat)"
proof -
  assume "n < 8 * w"
  then have "n div 8 < w" by (simp add: less_mult_imp_div_less mult.commute)
  then have "w - 1 - (w - 1 - n div 8) = n div 8" by simp
  then show ?thesis by simp
qed

text \<open>What was stored is loaded again, from a buffer with room for it.\<close>

lemma load_store:
  assumes "StoreUnsigned v data offset w order = Some out" "offset + w \<le> length data"
  shows "LoadUnsigned (drop offset out) w order = Some v"
proof -
  have valid: "IsIntegerByteOrderValid order w" and fits: "0 < w" "w \<le> 8" "unat v < 2 ^ (8 * w)"
    using assms(1) by (simp_all add: StoreUnsigned_Some FitsUnsignedWidth_iff)
  then have "LoadUnsigned (drop offset out) w order \<noteq> None" by (simp add: LoadUnsigned_def)
  then obtain u where u: "LoadUnsigned (drop offset out) w order = Some u" by auto
  have byte: "drop offset out ! i = stored_byte v w order i" if "i < w" for i
    using StoreUnsigned_nth [OF assms(1), of "offset + i"] StoreUnsigned_length [OF assms(1)] assms(2) that by simp
  have "bit u n = bit v n" for n
  proof (cases "n < 8 * w")
    case True
    then have d: "n div 8 < w" by (simp add: less_mult_imp_div_less mult.commute)
    then have i: "(if order = BO_BIG then w - 1 - n div 8 else n div 8) < w" by auto
    show ?thesis
      using LoadUnsigned_bits [OF u, of n] byte [OF i] True big_index [OF True]
      by (simp add: stored_byte_bit split: if_splits)
  next
    case False
    then show ?thesis using LoadUnsigned_bits [OF u, of n] unat_lt_bits [OF fits(3)] by auto
  qed
  then have "u = v" by (intro bit_eqI) simp
  with u show ?thesis by simp
qed

lemma LoadUnsigned_fits: "LoadUnsigned data w order = Some v \<Longrightarrow> FitsUnsignedWidth v w"
proof -
  assume l: "LoadUnsigned data w order = Some v"
  then have w: "0 < w" "w \<le> 8" by (auto simp: LoadUnsigned_def split: if_splits)
  have "take_bit (8 * w) v = v"
    using LoadUnsigned_bits [OF l] by (intro bit_eqI) (auto simp: bit_take_bit_iff)
  then have "unat v = take_bit (8 * w) (unat v)" by (metis unsigned_take_bit_eq)
  also have "\<dots> < 2 ^ (8 * w)" by (rule take_bit_nat_less_exp)
  finally show ?thesis using w by (simp add: FitsUnsignedWidth_iff)
qed

text \<open>Storing what was loaded writes the bytes that were there.\<close>

lemma store_load:
  assumes "LoadUnsigned (drop offset data) w order = Some v" "offset + w \<le> length data"
  shows "StoreUnsigned v data offset w order = Some data"
proof -
  have valid: "IsIntegerByteOrderValid order w" and w: "0 < w" "w \<le> 8"
    using assms(1) by (auto simp: LoadUnsigned_def split: if_splits)
  then obtain out where out: "StoreUnsigned v data offset w order = Some out"
    using LoadUnsigned_fits [OF assms(1)] by (auto simp: StoreUnsigned_def)
  have "out ! j = data ! j" if j: "j < length data" for j
  proof (cases "offset \<le> j \<and> j < offset + w")
    case True
    let ?i = "j - offset"
    let ?src = "if order = BO_BIG then w - 1 - ?i else ?i"
    have i: "?i < w" "?src < w" using True by auto
    have "bit (stored_byte v w order ?i) k = bit (data ! j) k" for k
    proof (cases "k < 8")
      case k: True
      have n: "(?src * 8 + k) div 8 = ?src" "(?src * 8 + k) mod 8 = k" using k by simp_all
      have "?src * 8 + k < 8 * w" using k i by auto
      moreover have "(if order = BO_BIG then w - 1 - ?src else ?src) = ?i" using i by auto
      ultimately have "bit v (?src * 8 + k) = bit (drop offset data ! ?i) k"
        using LoadUnsigned_bits [OF assms(1), of "?src * 8 + k"] by (simp only: n) simp
      also have "drop offset data ! ?i = data ! j" using True assms(2) by simp
      finally show ?thesis using k by (simp only: stored_byte_bit)
    next
      case False
      then show ?thesis using bit_byte_le [of _ k] by blast
    qed
    then have "stored_byte v w order ?i = data ! j" by (intro bit_eqI) simp
    then show ?thesis using StoreUnsigned_nth [OF out j] True by simp
  next
    case False
    then show ?thesis using StoreUnsigned_nth [OF out j] by (simp only: if_False)
  qed
  then have "out = data" using StoreUnsigned_length [OF out] by (intro nth_equalityI) simp_all
  with out show ?thesis by simp
qed

section \<open>Signed integers\<close>

lemma uint_minus_u64: "uint (- x :: u64) = (- uint x) mod 18446744073709551616"
  by (simp add: uint_word_ariths)

lemma InterpretSigned_value:
  assumes "FitsUnsignedWidth raw w"
  shows "\<exists>v. InterpretSigned raw w = Some v \<and> sint v = raw_integer VT_INT64 w raw"
proof -
  let ?n = "8 * w"
  have w: "1 \<le> w" "w \<le> 8" "unat raw < 2 ^ ?n" using assms by (simp_all add: FitsUnsignedWidth_iff)
  note half = sign_bit_clear_iff [OF w(1,3)]
  have full: "(2::int) ^ ?n = 2 * 2 ^ (?n - 1)" by (rule power_width_half [OF w(1)])
  have top: "(2::int) ^ ?n \<le> 2 ^ 64" using w(2) by (intro power_increasing) auto
  have u: "uint raw < 2 ^ ?n" using w(3) by (simp add: uint_pow2)
  have pos: "(0::int) \<le> uint raw" by simp
  show ?thesis
  proof (cases "unat raw < 2 ^ (?n - 1)")
    case True
    then have "uint raw < 2 ^ (?n - 1)" by (simp add: uint_pow2)
    then have small: "uint raw < 9223372036854775808" using full top by simp
    have "sint raw = uint raw"
    proof (rule sint64_unique)
      show "uint raw = uint raw mod 18446744073709551616" by (simp add: uint_lt64)
      show "- 9223372036854775808 \<le> uint raw" using pos by linarith
    qed (rule small)
    moreover have "InterpretSigned raw w = Some raw"
      using w half True by (simp add: InterpretSigned_def Let_def mult.commute)
    ultimately show ?thesis using True by (simp add: raw_integer_def)
  next
    case False
    then have big: "2 ^ (?n - 1) \<le> uint raw" using uint_pow2(1) [of raw "?n - 1"] by linarith
    then have nz: "unat raw \<noteq> 0" using False zero_less_power [of "2::nat" "?n - 1"] by linarith
    let ?m = "(NOT raw AND (if ?n = 64 then - 1 else push_bit ?n 1 - 1)) + 1"
    have "unat ?m = 2 ^ ?n - unat raw" by (rule unat_twos_magnitude [OF w(2,3) nz])
    then have "int (unat ?m) = 2 ^ ?n - int (unat raw)"
      using w(3) by (simp only: of_nat_diff [OF less_imp_le]) simp
    then have m: "uint ?m = 2 ^ ?n - uint raw" by (simp only: of_nat_unat)
    have "sint (- ?m) = uint raw - 2 ^ ?n"
    proof (rule sint64_unique)
      have "uint (- ?m) = (- uint ?m) mod 18446744073709551616" by (rule uint_minus_u64)
      then show "uint (- ?m) = (uint raw - 2 ^ ?n) mod 18446744073709551616" by (simp only: m) simp
      show "- 9223372036854775808 \<le> uint raw - 2 ^ ?n" using big full top by simp
      show "uint raw - 2 ^ ?n < 9223372036854775808" using u by simp
    qed
    moreover have "InterpretSigned raw w = Some (- ?m)"
      using w half False by (auto simp: InterpretSigned_def Let_def mult.commute push_bit_eq_mult)
    ultimately show ?thesis using False by (simp add: raw_integer_def)
  qed
qed

lemma FitsSignedWidth_iff: "FitsSignedWidth v w \<longleftrightarrow> 1 \<le> w \<and> w \<le> 8 \<and> raw_fits VT_INT64 w (sint v)"
proof (cases "w = 0 \<or> 8 \<le> w")
  case True
  then show ?thesis using sint64_range [of v] by (auto simp: FitsSignedWidth_def raw_fits_def)
next
  case False
  let ?m = "8 * w - 1"
  have m: "?m < 63" using False by auto
  have top: "(2::int) ^ ?m \<le> 2 ^ 62" using m by (intro power_increasing) auto
  have one: "(1::int) \<le> 2 ^ ?m" by simp
  have "unat (push_bit ?m 1 :: u64) = 2 ^ ?m" using m by (intro unat_push_1) simp
  then have "int (unat (push_bit ?m 1 :: u64)) = int (2 ^ ?m)" by (simp only:)
  then have p: "uint (push_bit ?m 1 :: u64) = 2 ^ ?m" by (simp only: of_nat_unat of_nat_power of_nat_numeral)
  have lo: "sint (- push_bit ?m 1 :: i64) = - (2 ^ ?m)"
  proof (rule sint64_unique)
    have "uint (- push_bit ?m 1 :: i64) = (- uint (push_bit ?m 1 :: u64)) mod 18446744073709551616"
      by (simp add: uint_word_ariths)
    then show "uint (- push_bit ?m 1 :: i64) = - (2 ^ ?m) mod 18446744073709551616" by (simp only: p)
    show "- 9223372036854775808 \<le> - ((2::int) ^ ?m)" using top by simp
    show "- ((2::int) ^ ?m) < 9223372036854775808" using one by linarith
  qed
  have hi: "sint (push_bit ?m 1 - 1 :: i64) = 2 ^ ?m - 1"
  proof (rule sint64_unique)
    have "uint (push_bit ?m 1 - 1 :: i64) = (uint (push_bit ?m 1 :: u64) - 1) mod 18446744073709551616"
      by (simp add: uint_word_ariths)
    then show "uint (push_bit ?m 1 - 1 :: i64) = (2 ^ ?m - 1) mod 18446744073709551616" by (simp only: p)
    show "- 9223372036854775808 \<le> (2::int) ^ ?m - 1" using one by linarith
    show "(2::int) ^ ?m - 1 < 9223372036854775808" using top by simp
  qed
  show ?thesis
    using False lo hi by (auto simp: FitsSignedWidth_def raw_fits_def Let_def mult.commute)
qed

text \<open>The raw value the encoder writes for a signed value is read back as that value.\<close>

definition signed_raw :: "i64 \<Rightarrow> nat \<Rightarrow> u64" where
  "signed_raw v byte_width = (if byte_width < 8 then v AND (push_bit (byte_width * 8) 1 - 1) else v)"

lemma signed_raw_bits:
  assumes "1 \<le> w" "w \<le> 8" shows "uint (signed_raw v w) = sint v mod 2 ^ (8 * w)"
proof -
  have "signed_raw v w = take_bit (8 * w) v"
  proof (cases "w < 8")
    case True
    have "push_bit (8 * w) 1 - 1 = (mask (8 * w) :: u64)" by (simp add: mask_eq_exp_minus_1)
    then show ?thesis using True by (simp only: signed_raw_def mult.commute [of w 8] take_bit_eq_mask if_True)
  next
    case False
    then have "w = 8" using assms(2) by simp
    then show ?thesis by (simp add: signed_raw_def take_bit_word_eq_self)
  qed
  moreover have "uint (take_bit (8 * w) v) = take_bit (8 * w) (uint v)" by (rule unsigned_take_bit_eq)
  moreover have "take_bit (8 * w) (uint v) = sint v mod 2 ^ (8 * w)"
  proof -
    have "(2::int) ^ (8 * w) dvd 18446744073709551616"
      using le_imp_power_dvd [of "8 * w" 64 "2::int"] assms(2) by simp
    then show ?thesis by (simp add: take_bit_eq_mod uint_i64 mod_mod_cancel)
  qed
  ultimately show ?thesis by simp
qed

lemma signed_roundtrip:
  assumes "FitsSignedWidth v w"
  shows "FitsUnsignedWidth (signed_raw v w) w" "InterpretSigned (signed_raw v w) w = Some v"
proof -
  have w: "1 \<le> w" "w \<le> 8" "raw_fits VT_INT64 w (sint v)" using assms by (simp_all add: FitsSignedWidth_iff)
  note raw = signed_raw_bits [OF w(1,2), of v]
  have "uint (signed_raw v w) < 2 ^ (8 * w)" by (simp only: raw) (rule pos_mod_bound, simp)
  then show fits: "FitsUnsignedWidth (signed_raw v w) w"
    using w by (simp add: FitsUnsignedWidth_iff uint_pow2)
  have "int (unat (signed_raw v w)) = sint v mod 2 ^ (8 * w)" using raw by simp
  then have "raw_integer VT_INT64 w (signed_raw v w) = sint v" by (rule raw_integer_mod [OF w(3,1)])
  with InterpretSigned_value [OF fits] obtain u where u: "InterpretSigned (signed_raw v w) w = Some u" "sint u = sint v"
    by auto
  from u(2) have "u = v" by (rule signed_word_eqI)
  with u(1) show "InterpretSigned (signed_raw v w) w = Some v" by simp
qed

section \<open>Bit fields\<close>

text \<open>The mask of a bit field of \<open>n\<close> bits from bit \<open>s\<close> on.\<close>

definition bitfield_ok :: "FieldExecutionPlan \<Rightarrow> bool" where
  "bitfield_ok f \<longleftrightarrow> 0 < fe_bit_width f \<and> fe_bit_shift f + fe_bit_width f \<le> 64 \<and>
     fe_bit_mask f = push_bit (fe_bit_shift f) (mask (fe_bit_width f))"

lemma Extract_Insert_same:
  assumes "bitfield_ok f" "FitsUnsignedBits raw (fe_bit_width f)"
  shows "ExtractBitfield (InsertBitfield c raw f) f = raw"
proof (rule bit_eqI)
  fix n
  assume n: "possible_bit TYPE(u64) n"
  have w: "fe_bit_shift f + fe_bit_width f \<le> 64" "fe_bit_mask f = push_bit (fe_bit_shift f) (mask (fe_bit_width f))"
    using assms(1) by (simp_all add: bitfield_ok_def)
  have "unat raw < 2 ^ fe_bit_width f" using assms(2) by (simp add: FitsUnsignedBits_iff)
  then have "bit raw n \<Longrightarrow> n < fe_bit_width f" by (rule unat_lt_bits)
  then show "bit (ExtractBitfield (InsertBitfield c raw f) f) n = bit raw n"
    using w n by (auto simp: ExtractBitfield_def InsertBitfield_def bit_simps)
qed

lemma Extract_Insert_other:
  assumes "fe_bit_mask f AND fe_bit_mask g = 0"
  shows "ExtractBitfield (InsertBitfield c raw g) f = ExtractBitfield c f"
proof -
  have d: "\<not> (bit (fe_bit_mask f) n \<and> bit (fe_bit_mask g) n)" for n
    using arg_cong [OF assms, of "\<lambda>x. bit x n"] by (simp add: bit_and_iff)
  have "InsertBitfield c raw g AND fe_bit_mask f = c AND fe_bit_mask f"
    by (rule bit_eqI) (use d in \<open>auto simp: InsertBitfield_def bit_and_iff bit_or_iff bit_not_iff\<close>)
  then show ?thesis by (simp add: ExtractBitfield_def)
qed

section \<open>The interface of the wire integers\<close>

text \<open>What the record codec relies on: loading reads only the bytes of the field, storing writes only them.\<close>

locale wire_integers =
  fixes load :: "u8 list \<Rightarrow> nat \<Rightarrow> ByteOrder \<Rightarrow> u64 option"
    and store :: "u64 \<Rightarrow> u8 list \<Rightarrow> nat \<Rightarrow> nat \<Rightarrow> ByteOrder \<Rightarrow> u8 list option"
  assumes stored: "store v data offset w order = Some out \<Longrightarrow> offset + w \<le> length data \<Longrightarrow>
      load (drop offset out) w order = Some v"
    and same_length: "store v data offset w order = Some out \<Longrightarrow> length out = length data"
    and outside: "store v data offset w order = Some out \<Longrightarrow> j < length data \<Longrightarrow>
      j < offset \<or> offset + w \<le> j \<Longrightarrow> out ! j = data ! j"
    and local: "take w xs = take w ys \<Longrightarrow> w \<le> length xs \<Longrightarrow> w \<le> length ys \<Longrightarrow> load xs w order = load ys w order"
begin

lemma unchanged_slice:
  assumes "store v data offset w order = Some out" "a + n \<le> length data"
    and "a + n \<le> offset \<or> offset + w \<le> a"
  shows "take n (drop a out) = take n (drop a data)"
proof (rule nth_equalityI)
  show "length (take n (drop a out)) = length (take n (drop a data))"
    using assms(2) same_length [OF assms(1)] by simp
  fix i assume "i < length (take n (drop a out))"
  then have i: "i < n" by simp
  then have "out ! (a + i) = data ! (a + i)"
    by (intro outside [OF assms(1)]) (use assms(2,3) in auto)
  then show "take n (drop a out) ! i = take n (drop a data) ! i"
    using i assms(2) same_length [OF assms(1)] by simp
qed

lemma load_elsewhere:
  assumes "store v data offset w order = Some out" "a + n \<le> length data"
    and "a + n \<le> offset \<or> offset + w \<le> a"
  shows "load (drop a out) n order' = load (drop a data) n order'"
  by (rule local [OF unchanged_slice [OF assms]]) (use assms(2) same_length [OF assms(1)] in auto)

end

lemma LoadUnsigned_local:
  assumes "take w xs = take w ys" "w \<le> length xs" "w \<le> length ys"
  shows "LoadUnsigned xs w order = LoadUnsigned ys w order"
proof -
  have "xs ! i = ys ! i" if "i < w" for i using assms(1) that by (metis nth_take)
  then have "fold (\<lambda>index v. push_bit 8 v OR ucast (xs ! index)) [0..<w] (0 :: u64) =
      fold (\<lambda>index v. push_bit 8 v OR ucast (ys ! index)) [0..<w] 0"
    "fold (\<lambda>index v. v OR push_bit (index * 8) (ucast (xs ! index))) [0..<w] (0 :: u64) =
      fold (\<lambda>index v. v OR push_bit (index * 8) (ucast (ys ! index))) [0..<w] 0"
    by (auto intro!: fold_cong)
  then show ?thesis by (simp add: LoadUnsigned_def)
qed

interpretation wire: wire_integers LoadUnsigned StoreUnsigned
proof
  show "LoadUnsigned (drop offset out) w order = Some v"
    if "StoreUnsigned v data offset w order = Some out" "offset + w \<le> length data" for v data offset w order out
    using that by (rule load_store)
  show "length out = length data" if "StoreUnsigned v data offset w order = Some out" for v data offset w order out
    using that by (rule StoreUnsigned_length)
  show "out ! j = data ! j"
    if "StoreUnsigned v data offset w order = Some out" "j < length data" "j < offset \<or> offset + w \<le> j"
    for v data offset w order out j
    using StoreUnsigned_nth [OF that(1,2)] that(3) by auto
  show "LoadUnsigned xs w order = LoadUnsigned ys w order"
    if "take w xs = take w ys" "w \<le> length xs" "w \<le> length ys" for w xs ys order
    using that by (rule LoadUnsigned_local)
qed

section \<open>Properties\<close>

text \<open>C28. Storing an unsigned value at a field and loading the field gives the value back, and the store leaves
  every byte outside the field and the length of the buffer as they were.\<close>

theorem wire_store_then_load:
  assumes "StoreUnsigned v data offset w order = Some out" "offset + w \<le> length data"
  shows "LoadUnsigned (drop offset out) w order = Some v \<and> length out = length data \<and>
     take offset out = take offset data \<and> drop (offset + w) out = drop (offset + w) data"
proof -
  have l: "length out = length data" by (rule wire.same_length [OF assms(1)])
  have "take offset (drop 0 out) = take offset (drop 0 data)"
    by (rule wire.unchanged_slice [OF assms(1)]) (use assms(2) in auto)
  moreover have "take (length data - (offset + w)) (drop (offset + w) out) =
      take (length data - (offset + w)) (drop (offset + w) data)"
    by (rule wire.unchanged_slice [OF assms(1)]) (use assms(2) in auto)
  ultimately show ?thesis using wire.stored [OF assms] l by simp
qed

theorem wire_store_then_load_witness:
  "LoadUnsigned (drop 1 [7, 0x12, 0x34, 9]) 2 BO_BIG = Some 0x1234"
proof -
  have "StoreUnsigned 0x1234 [7, 0, 0, 9] 1 2 BO_BIG = Some [7, 0x12, 0x34, 9]"
    by (simp add: StoreUnsigned_def IsIntegerByteOrderValid_def FitsUnsignedWidth_def upt_rec
        push_bit_eq_mult drop_bit_eq_div)
  from wire_store_then_load [OF this] show ?thesis by simp
qed

text \<open>Loading and storing are inverse: a field holds a value exactly if storing the value there
  does not change the buffer.\<close>

lemma wire_load_iff_store:
  assumes "offset + w \<le> length data"
  shows "LoadUnsigned (drop offset data) w order = Some v \<longleftrightarrow> StoreUnsigned v data offset w order = Some data"
  using store_load [OF _ assms] load_store [OF _ assms] by blast

lemma wire_load_iff_store_witness:
  "LoadUnsigned (drop 0 [0x34, 0x12 :: u8]) 2 BO_LITTLE = Some 0x1234 \<longleftrightarrow>
     StoreUnsigned 0x1234 [0x34, 0x12] 0 2 BO_LITTLE = Some [0x34, 0x12]"
  by (rule wire_load_iff_store) simp

text \<open>A signed value that fits a field of \<open>w\<close> bytes survives the wire: the raw bits the encoder takes from it fit the
  field, and the decoder's sign extension gives the value back.\<close>

lemma signed_wire_roundtrip:
  assumes "FitsSignedWidth v w"
  shows "FitsUnsignedWidth (signed_raw v w) w \<and> InterpretSigned (signed_raw v w) w = Some v"
  using signed_roundtrip [OF assms] by blast

lemma signed_wire_roundtrip_witness: "InterpretSigned (signed_raw (- 2) 2) 2 = Some (- 2)"
proof -
  have "FitsSignedWidth (- 2) 2"
    by (simp add: FitsSignedWidth_iff raw_fits_def)
  from signed_wire_roundtrip [OF this] show ?thesis by blast
qed

text \<open>C40. Bit fields of a container are independent: inserting a value that fits reads back as the value, and does not
  change any field whose mask is disjoint.\<close>

theorem bitfields_independent:
  assumes "bitfield_ok f" "FitsUnsignedBits raw (fe_bit_width f)" "fe_bit_mask g AND fe_bit_mask f = 0"
  shows "ExtractBitfield (InsertBitfield c raw f) f = raw \<and>
     ExtractBitfield (InsertBitfield c raw f) g = ExtractBitfield c g"
  using Extract_Insert_same [OF assms(1,2)] Extract_Insert_other [OF assms(3)] by blast

definition example_bitfield :: "nat \<Rightarrow> nat \<Rightarrow> FieldExecutionPlan" where
  "example_bitfield shift width = \<lparr>fe_offset = 0, fe_width = 0, fe_input_ordinal = 0, fe_value_type = VT_UINT64,
     fe_byte_order = BO_NOT_APPLICABLE, fe_encode_source = ES_INPUT, fe_has_constant = False,
     fe_constant_value = 0, fe_unknown_enum_policy = UE_REJECT, fe_enum_values_begin = 0,
     fe_enum_values_count = 0, fe_enum_lookup_begin = 0, fe_enum_lookup_count = 0,
     fe_bit_container_index = 0, fe_bit_mask = push_bit shift (mask width), fe_bit_shift = shift,
     fe_bit_width = width, fe_signed_constant_value = 0, fe_conversion_index = kInvalidIndex,
     fe_conversion_slot = kInvalidIndex, fe_text_min_length = 0, fe_text_max_length = 0,
     fe_allowed_ascii_low = 0, fe_allowed_ascii_high = 0, fe_text_encode_input = False\<rparr>"

theorem bitfields_independent_witness:
  "ExtractBitfield (InsertBitfield 0xFF 2 (example_bitfield 4 2)) (example_bitfield 4 2) = 2 \<and>
   ExtractBitfield (InsertBitfield 0xFF 2 (example_bitfield 4 2)) (example_bitfield 0 4) =
     ExtractBitfield 0xFF (example_bitfield 0 4)"
proof (rule bitfields_independent)
  show "bitfield_ok (example_bitfield 4 2)" by (simp add: bitfield_ok_def example_bitfield_def)
  show "FitsUnsignedBits 2 (fe_bit_width (example_bitfield 4 2))"
    by (simp add: FitsUnsignedBits_iff example_bitfield_def)
  show "fe_bit_mask (example_bitfield 0 4) AND fe_bit_mask (example_bitfield 4 2) = 0"
    by (rule bit_eqI) (simp add: example_bitfield_def bit_simps)
qed

end
