(* ===== verification/Integrity.thy ===== *)
theory Integrity
  imports Wire_Int
begin

text \<open>
  Lengths and checksums of a record, \<^verbatim>\<open>src/src/protocol_core/complete_record_codec.cpp\<close>:
  the length of a bounded payload, the range and the storage of the checksum, the validity of the
  descriptors, SUM8 and CRC, the computed length field.  The second part shows what the checksums
  detect.
\<close>

section \<open>Definitions\<close>

subsection \<open>Payload length and integrity range\<close>

definition ResolvePayloadLength :: "MessageExecutionPlan \<Rightarrow> nat \<Rightarrow> nat option" where
  "ResolvePayloadLength m frame_size =
     (case me_bounded_payload m of
        None \<Rightarrow> if frame_size = me_frame_size m then Some 0 else None
      | Some b \<Rightarrow>
          if bp_header_length b > frame_size \<or> bp_trailer_length b > frame_size - bp_header_length b then None
          else let payload_length = frame_size - bp_header_length b - bp_trailer_length b
               in if payload_length \<ge> bp_min_payload_length b \<and> payload_length \<le> bp_max_payload_length b \<and>
                     frame_size \<ge> bp_min_frame_length b \<and> frame_size \<le> bp_max_frame_length b
                  then Some payload_length else None)"

record ResolvedIntegrity =
  ri_range_offset :: nat
  ri_range_length :: nat
  ri_storage_offset :: nat
  ri_storage_width :: nat

definition resolved_fits :: "nat \<Rightarrow> ResolvedIntegrity \<Rightarrow> bool" where
  "resolved_fits frame_size r \<longleftrightarrow>
     ri_range_offset r \<le> frame_size \<and> ri_range_length r \<le> frame_size - ri_range_offset r \<and>
     ri_storage_offset r \<le> frame_size \<and> ri_storage_width r \<le> frame_size - ri_storage_offset r \<and>
     \<not> (ri_storage_offset r < ri_range_offset r + ri_range_length r \<and>
        ri_range_offset r < ri_storage_offset r + ri_storage_width r)"

definition ResolveIntegrity :: "MessageExecutionPlan \<Rightarrow> nat \<Rightarrow> ResolvedIntegrity option" where
  "ResolveIntegrity m frame_size =
     (case me_integrity m of
        None \<Rightarrow> Some \<lparr>ri_range_offset = 0, ri_range_length = 0, ri_storage_offset = 0, ri_storage_width = 0\<rparr>
      | Some i \<Rightarrow>
          let r = \<lparr>ri_range_offset = ip_range_offset i, ri_range_length = ip_range_length i,
                   ri_storage_offset = ip_storage_offset i,
                   ri_storage_width = (if ip_algorithm i = IA_CRC then ip_crc_width i div 8 else 1)\<rparr>;
              resolved =
                (case me_bounded_payload m of
                   Some b \<Rightarrow>
                     (case ResolvePayloadLength m frame_size of
                        None \<Rightarrow> None
                      | Some payload_length \<Rightarrow>
                          if \<not> ip_storage_at_payload_end i then None
                          else let payload_end = bp_header_length b + payload_length;
                                   r = r\<lparr>ri_storage_offset := payload_end\<rparr>
                               in if ip_range_ends_at_payload i then
                                    if ri_range_offset r > payload_end then None
                                    else Some (r\<lparr>ri_range_length := payload_end - ri_range_offset r\<rparr>)
                                  else Some r)
                 | None \<Rightarrow> if ip_range_ends_at_payload i \<or> ip_storage_at_payload_end i then None else Some r)
          in case resolved of
               None \<Rightarrow> None
             | Some r \<Rightarrow> if resolved_fits frame_size r then Some r else None)"

definition IntegrityDescriptorValid :: "MessageExecutionPlan \<Rightarrow> bool" where
  "IntegrityDescriptorValid m =
     (case me_integrity m of
        None \<Rightarrow> True
      | Some i \<Rightarrow>
          let storage_width = (if ip_algorithm i = IA_CRC then ip_crc_width i div 8 else 1);
              width_mask = (if ip_crc_width i = 16 then 0xFFFF else 0xFFFFFFFF :: u32);
              algorithm_valid =
                (if ip_algorithm i = IA_CRC then
                   (ip_crc_width i = 16 \<or> ip_crc_width i = 32) \<and>
                   ip_crc_polynomial i \<noteq> 0 \<and> ip_crc_polynomial i AND 1 \<noteq> 0 \<and>
                   ip_crc_polynomial i AND NOT width_mask = 0 \<and>
                   ip_crc_initial_value i AND NOT width_mask = 0 \<and>
                   ip_crc_xor_output i AND NOT width_mask = 0 \<and>
                   (ip_storage_byte_order i = BO_BIG \<or> ip_storage_byte_order i = BO_LITTLE)
                 else ip_algorithm i = IA_SUM8)
          in algorithm_valid \<and>
             (case ResolveIntegrity m (me_frame_size m) of
                None \<Rightarrow> False
              | Some r \<Rightarrow> (me_bounded_payload m \<noteq> None \<or> ri_range_length r \<noteq> 0) \<and>
                          ri_storage_width r = storage_width))"

subsection \<open>The computed length field\<close>

definition ComputedLengthDescriptorValid :: "MessageExecutionPlan \<Rightarrow> bool" where
  "ComputedLengthDescriptorValid m =
     (case me_computed_length m of
        None \<Rightarrow> (\<forall>field \<in> set (me_fields m). fe_encode_source field \<noteq> ES_COMPUTED)
      | Some c \<Rightarrow>
          if cl_field_index c \<ge> length (me_fields m) then False
          else let field = me_fields m ! cl_field_index c;
                   width_valid = (cl_storage_width c = 1 \<or> cl_storage_width c = 2 \<or> cl_storage_width c = 4);
                   order_valid = (if cl_storage_width c = 1 then cl_byte_order c = BO_NOT_APPLICABLE
                                  else cl_byte_order c = BO_BIG \<or> cl_byte_order c = BO_LITTLE);
                   frame_scope = (cl_scope c = CL_FRAME);
                   region_scope = (cl_scope c = CL_REGION);
                   payload_scope = (cl_scope c = CL_PAYLOAD);
                   storage_limit = (case me_bounded_payload m of Some b \<Rightarrow> bp_header_length b
                                                               | None \<Rightarrow> me_frame_size m);
                   expected = (case me_bounded_payload m of
                                 Some b \<Rightarrow> if payload_scope then bp_max_payload_length b
                                           else if frame_scope then me_frame_size m else cl_range_length c
                               | None \<Rightarrow> if frame_scope then me_frame_size m else cl_range_length c)
               in width_valid \<and> order_valid \<and> cl_storage_offset c \<le> storage_limit \<and>
                  cl_storage_width c \<le> storage_limit - cl_storage_offset c \<and>
                  (frame_scope \<or> region_scope \<or> payload_scope) \<and>
                  (\<not> frame_scope \<or> (cl_range_offset c = 0 \<and> cl_range_length c = 0)) \<and>
                  (\<not> region_scope \<or>
                   (cl_range_length c \<noteq> 0 \<and> cl_range_offset c \<le> me_frame_size m \<and>
                    cl_range_length c \<le> me_frame_size m - cl_range_offset c)) \<and>
                  (\<not> payload_scope \<or>
                   (me_bounded_payload m \<noteq> None \<and> cl_range_offset c = 0 \<and> cl_range_length c = 0)) \<and>
                  unat (cl_expected_value c) = expected \<and>
                  FitsUnsignedWidth (word_of_nat expected) (cl_storage_width c) \<and>
                  fe_value_type field = VT_UINT64 \<and> fe_encode_source field = ES_COMPUTED \<and>
                  fe_offset field = cl_storage_offset c \<and> fe_width field = cl_storage_width c \<and>
                  fe_byte_order field = cl_byte_order c \<and> \<not> fe_has_constant field \<and>
                  fe_bit_container_index field = kInvalidIndex)"

text \<open>The length the field states for a frame of \<open>frame_size\<close> bytes; \<open>None\<close> when the payload length does not
  resolve.\<close>

definition expected_length :: "MessageExecutionPlan \<Rightarrow> ComputedLengthPlan \<Rightarrow> nat \<Rightarrow> nat option" where
  "expected_length m c frame_size =
     (case me_bounded_payload m of
        None \<Rightarrow> Some (unat (cl_expected_value c))
      | Some b \<Rightarrow>
          (case ResolvePayloadLength m frame_size of
             None \<Rightarrow> None
           | Some payload_length \<Rightarrow>
               Some (if cl_scope c = CL_FRAME then frame_size
                     else if cl_scope c = CL_PAYLOAD then payload_length
                     else unat (cl_expected_value c))))"

definition ComputedLengthMatches :: "MessageExecutionPlan \<Rightarrow> u8 list \<Rightarrow> nat \<Rightarrow> bool" where
  "ComputedLengthMatches m data frame_size =
     (case me_computed_length m of
        None \<Rightarrow> True
      | Some c \<Rightarrow>
          (case expected_length m c frame_size of
             None \<Rightarrow> False
           | Some expected \<Rightarrow>
               (case LoadUnsigned (drop (cl_storage_offset c) data) (cl_storage_width c) (cl_byte_order c) of
                  None \<Rightarrow> False
                | Some actual \<Rightarrow> unat actual = expected)))"

subsection \<open>Checksums\<close>

definition Sum8 :: "u8 list \<Rightarrow> nat \<Rightarrow> nat \<Rightarrow> u8" where
  "Sum8 data offset count = fold (\<lambda>index sum. sum + data ! (offset + index)) [0..<count] 0"

fun ReverseLowBits_loop :: "nat \<Rightarrow> u32 \<Rightarrow> u32 \<Rightarrow> u32" where
  "ReverseLowBits_loop 0 reversed v = reversed"
| "ReverseLowBits_loop (Suc n) reversed v =
     ReverseLowBits_loop n (push_bit 1 reversed OR (v AND 1)) (drop_bit 1 v)"

definition ReverseLowBits :: "u32 \<Rightarrow> nat \<Rightarrow> u32" where
  "ReverseLowBits v width = ReverseLowBits_loop width 0 v"

definition Crc_mask :: "IntegrityPlan \<Rightarrow> u32" where
  "Crc_mask i = (if ip_crc_width i = 16 then 0xFFFF else 0xFFFFFFFF)"

definition Crc_shift :: "IntegrityPlan \<Rightarrow> u32 \<Rightarrow> u32" where
  "Crc_shift i v =
     (let high = (v AND push_bit (ip_crc_width i - 1) 1 \<noteq> 0);
          v = push_bit 1 v AND Crc_mask i
      in if high then v XOR ip_crc_polynomial i else v)"

definition Crc_byte :: "IntegrityPlan \<Rightarrow> u8 \<Rightarrow> u32 \<Rightarrow> u32" where
  "Crc_byte i byte v =
     (let input = ucast byte;
          input = (if ip_crc_reflect_input i then ReverseLowBits input 8 else input);
          v = v XOR push_bit (ip_crc_width i - 8) input
      in (Crc_shift i ^^ 8) v)"

definition Crc :: "IntegrityPlan \<Rightarrow> u8 list \<Rightarrow> nat \<Rightarrow> nat \<Rightarrow> u32" where
  "Crc i data range_offset range_length =
     (let v = fold (\<lambda>index v. Crc_byte i (data ! (range_offset + index)) v) [0..<range_length]
                   (ip_crc_initial_value i);
          v = (if ip_crc_reflect_output i then ReverseLowBits v (ip_crc_width i) else v)
      in (v XOR ip_crc_xor_output i) AND Crc_mask i)"

definition IntegrityMatches :: "MessageExecutionPlan \<Rightarrow> u8 list \<Rightarrow> nat \<Rightarrow> bool" where
  "IntegrityMatches m data frame_size =
     (if \<not> IntegrityDescriptorValid m then False
      else case me_integrity m of
        None \<Rightarrow> True
      | Some i \<Rightarrow>
          (case ResolveIntegrity m frame_size of
             None \<Rightarrow> False
           | Some r \<Rightarrow>
               if ip_algorithm i = IA_SUM8 then
                 Sum8 data (ri_range_offset r) (ri_range_length r) = data ! ri_storage_offset r
               else (case LoadUnsigned (drop (ri_storage_offset r) data) (ri_storage_width r)
                            (ip_storage_byte_order i) of
                       None \<Rightarrow> False
                     | Some stored \<Rightarrow>
                         ucast (Crc i data (ri_range_offset r) (ri_range_length r)) = stored)))"

subsection \<open>Writing the computed length and the checksum\<close>

definition WriteComputedLength :: "MessageExecutionPlan \<Rightarrow> u8 list \<Rightarrow> nat \<Rightarrow> u8 list option" where
  "WriteComputedLength m out frame_size =
     (case me_computed_length m of
        None \<Rightarrow> Some out
      | Some c \<Rightarrow>
          let computed_value =
                (case me_bounded_payload m of
                   None \<Rightarrow> unat (cl_expected_value c)
                 | Some b \<Rightarrow> if cl_scope c = CL_FRAME then frame_size
                             else if cl_scope c = CL_PAYLOAD then
                               frame_size - bp_header_length b - bp_trailer_length b
                             else unat (cl_expected_value c))
          in StoreUnsigned (word_of_nat computed_value) out (cl_storage_offset c)
               (cl_storage_width c) (cl_byte_order c))"

definition WriteIntegrity :: "MessageExecutionPlan \<Rightarrow> u8 list \<Rightarrow> nat \<Rightarrow> u8 list option" where
  "WriteIntegrity m out frame_size =
     (case me_integrity m of
        None \<Rightarrow> Some out
      | Some i \<Rightarrow>
          (case ResolveIntegrity m frame_size of
             None \<Rightarrow> None
           | Some r \<Rightarrow>
               if ip_algorithm i = IA_SUM8 then
                 Some (out[ri_storage_offset r := Sum8 out (ri_range_offset r) (ri_range_length r)])
               else StoreUnsigned (ucast (Crc i out (ri_range_offset r) (ri_range_length r))) out
                      (ri_storage_offset r) (ri_storage_width r) (ip_storage_byte_order i)))"

section \<open>Checksums as folds over the bytes of the range\<close>

lemma fold_range:
  "off + n \<le> length data \<Longrightarrow>
     fold (\<lambda>index. f (data ! (off + index))) [0..<n] a = fold f (take n (drop off data)) a"
proof (induction n)
  case (Suc n)
  have "take (Suc n) (drop off data) = take n (drop off data) @ [data ! (off + n)]"
    using Suc.prems by (simp add: take_Suc_conv_app_nth)
  then show ?case using Suc by simp
qed simp

lemma Sum8_bytes:
  "off + n \<le> length data \<Longrightarrow> Sum8 data off n = sum_list (take n (drop off data))"
proof -
  assume len: "off + n \<le> length data"
  have s: "fold (\<lambda>b sum. sum + b) xs a = a + sum_list xs" for xs and a :: u8
    by (induction xs arbitrary: a) (simp_all add: add.assoc)
  show ?thesis
    using fold_range [OF len, of "\<lambda>b sum. sum + b" 0] by (simp add: Sum8_def s)
qed

lemma bit_double: "bit ((v :: u32) * 2) n \<longleftrightarrow> n < 32 \<and> 0 < n \<and> bit v (n - 1)"
proof -
  have "bit (push_bit 1 v) n \<longleftrightarrow> n < 32 \<and> 0 < n \<and> bit v (n - 1)"
    unfolding bit_push_bit_iff by auto
  then show ?thesis by simp
qed

lemma bit_ReverseLowBits_loop:
  "bit (ReverseLowBits_loop n reversed v) k \<longleftrightarrow>
     k < 32 \<and> (if k < n then bit v (n - 1 - k) else bit reversed (k - n))"
proof (induction n reversed v arbitrary: k rule: ReverseLowBits_loop.induct)
  case (1 reversed v)
  then show ?case using bit_imp_le_length [of reversed k] by auto
next
  case (2 n reversed v)
  have lsb: "bit (push_bit 1 reversed OR (v AND 1)) j \<longleftrightarrow> j < 32 \<and> (if j = 0 then bit v 0 else bit reversed (j - 1))" for j
    by (cases j) (auto simp: bit_or_iff bit_and_iff bit_double bit_1_iff)
  show ?case
    unfolding ReverseLowBits_loop.simps 2 [of k] lsb
    by (cases "k < n"; cases "k = n") (auto simp: bit_drop_bit_eq Suc_diff_Suc)
qed

lemma bit_ReverseLowBits: "bit (ReverseLowBits v w) k \<longleftrightarrow> k < 32 \<and> k < w \<and> bit v (w - 1 - k)"
  by (simp add: ReverseLowBits_def bit_ReverseLowBits_loop)

lemma ReverseLowBits_inj:
  assumes "w \<le> 32" "take_bit w a = a" "take_bit w b = b" "ReverseLowBits a w = ReverseLowBits b w"
  shows "a = b"
proof (rule bit_eqI)
  fix k
  have r: "j < w \<Longrightarrow> bit a (w - 1 - j) = bit b (w - 1 - j)" for j
    using arg_cong [OF assms(4), of "\<lambda>x. bit x j"] assms(1) by (simp add: bit_ReverseLowBits)
  show "bit a k = bit b k"
  proof (cases "k < w")
    case True
    then show ?thesis using r [of "w - 1 - k"] by simp
  next
    case False
    then show ?thesis using assms(2,3) by (metis bit_take_bit_iff)
  qed
qed

section \<open>The CRC register\<close>

definition crc_ok :: "IntegrityPlan \<Rightarrow> bool" where
  "crc_ok i \<longleftrightarrow> (ip_crc_width i = 16 \<or> ip_crc_width i = 32) \<and> bit (ip_crc_polynomial i) 0 \<and>
     take_bit (ip_crc_width i) (ip_crc_polynomial i) = ip_crc_polynomial i \<and>
     take_bit (ip_crc_width i) (ip_crc_initial_value i) = ip_crc_initial_value i \<and>
     take_bit (ip_crc_width i) (ip_crc_xor_output i) = ip_crc_xor_output i"

definition reg_ok :: "IntegrityPlan \<Rightarrow> u32 \<Rightarrow> bool" where
  "reg_ok i v \<longleftrightarrow> take_bit (ip_crc_width i) v = v"

lemma Crc_mask_eq: "crc_ok i \<Longrightarrow> v AND Crc_mask i = take_bit (ip_crc_width i) v"
proof -
  assume "crc_ok i"
  moreover have "(0xFFFF :: u32) = mask 16" "(0xFFFFFFFF :: u32) = mask 32"
    by (simp_all add: mask_eq_exp_minus_1)
  ultimately have "Crc_mask i = mask (ip_crc_width i)" by (auto simp: crc_ok_def Crc_mask_def)
  then show ?thesis by (simp add: take_bit_eq_mask)
qed

lemma bit_Crc_shift:
  assumes "crc_ok i"
  shows "bit (Crc_shift i v) n \<longleftrightarrow>
     (n < ip_crc_width i \<and> 0 < n \<and> bit v (n - 1)) \<noteq> (bit v (ip_crc_width i - 1) \<and> bit (ip_crc_polynomial i) n)"
proof -
  have w: "ip_crc_width i \<le> 32" using assms by (auto simp: crc_ok_def)
  have top: "v AND push_bit (ip_crc_width i - 1) 1 \<noteq> 0 \<longleftrightarrow> bit v (ip_crc_width i - 1)"
    by (simp add: and_exp_eq_0_iff_not_bit)
  have sh: "bit (push_bit 1 v AND Crc_mask i) n \<longleftrightarrow> n < ip_crc_width i \<and> 0 < n \<and> bit v (n - 1)"
    unfolding Crc_mask_eq [OF assms] using w by (auto simp: bit_take_bit_iff bit_double)
  show ?thesis
    unfolding Crc_shift_def Let_def top using sh by (auto simp: bit_xor_iff)
qed

lemma take_bit_bits: "take_bit w (v :: u32) = v \<longleftrightarrow> (\<forall>n. bit v n \<longrightarrow> n < w)"
proof
  show "\<forall>n. bit v n \<longrightarrow> n < w" if "take_bit w v = v" using that by (metis bit_take_bit_iff)
  show "take_bit w v = v" if "\<forall>n. bit v n \<longrightarrow> n < w" using that by (intro bit_eqI) (auto simp: bit_take_bit_iff)
qed

lemma Crc_shift_ok: "crc_ok i \<Longrightarrow> reg_ok i (Crc_shift i v)"
  by (auto simp: reg_ok_def take_bit_bits bit_Crc_shift crc_ok_def)

lemma Crc_shift_inj:
  assumes "crc_ok i" "reg_ok i a" "reg_ok i b" "Crc_shift i a = Crc_shift i b"
  shows "a = b"
proof (rule bit_eqI)
  fix k
  let ?w = "ip_crc_width i"
  have w: "0 < ?w" and odd: "bit (ip_crc_polynomial i) 0" using assms(1) by (auto simp: crc_ok_def)
  have e: "bit (Crc_shift i a) n = bit (Crc_shift i b) n" for n by (simp only: assms(4))
  have top: "bit a (?w - 1) = bit b (?w - 1)" using e [of 0] odd by (simp add: bit_Crc_shift [OF assms(1)])
  show "bit a k = bit b k"
  proof (cases "Suc k < ?w")
    case True
    then show ?thesis using e [of "Suc k"] top by (auto simp: bit_Crc_shift [OF assms(1)])
  next
    case False
    have "bit a k \<Longrightarrow> k < ?w" "bit b k \<Longrightarrow> k < ?w" using assms(2,3) by (simp_all add: reg_ok_def take_bit_bits)
    moreover have "k < ?w \<Longrightarrow> k = ?w - 1" using False w by simp
    ultimately show ?thesis using top by blast
  qed
qed

lemma Crc_shift_pow_ok: "crc_ok i \<Longrightarrow> reg_ok i v \<Longrightarrow> reg_ok i ((Crc_shift i ^^ n) v)"
  by (cases n) (simp_all add: Crc_shift_ok)

lemma Crc_shift_pow_inj:
  "crc_ok i \<Longrightarrow> reg_ok i a \<Longrightarrow> reg_ok i b \<Longrightarrow> (Crc_shift i ^^ n) a = (Crc_shift i ^^ n) b \<Longrightarrow> a = b"
proof (induction n)
  case (Suc n)
  have "Crc_shift i ((Crc_shift i ^^ n) a) = Crc_shift i ((Crc_shift i ^^ n) b)" using Suc.prems(4) by simp
  then have "(Crc_shift i ^^ n) a = (Crc_shift i ^^ n) b"
    by (rule Crc_shift_inj [OF Suc.prems(1) Crc_shift_pow_ok Crc_shift_pow_ok, OF Suc.prems(1,2) Suc.prems(1,3)])
  then show ?case using Suc by blast
qed simp

definition crc_input :: "IntegrityPlan \<Rightarrow> u8 \<Rightarrow> u32" where
  "crc_input i byte = push_bit (ip_crc_width i - 8)
     (if ip_crc_reflect_input i then ReverseLowBits (ucast byte) 8 else ucast byte)"

lemma Crc_byte_input: "Crc_byte i byte v = (Crc_shift i ^^ 8) (v XOR crc_input i byte)"
  by (simp add: Crc_byte_def crc_input_def Let_def)

lemma byte_bits: "bit (ucast (b :: u8) :: u32) n \<longleftrightarrow> n < 8 \<and> bit b n"
  using bit_imp_le_length [of b n] by (auto simp: bit_ucast_iff)

lemma bit_crc_input:
  assumes "crc_ok i"
  shows "bit (crc_input i b) n \<longleftrightarrow> ip_crc_width i - 8 \<le> n \<and> n < ip_crc_width i \<and>
    (if ip_crc_reflect_input i then bit b (7 - (n - (ip_crc_width i - 8))) else bit b (n - (ip_crc_width i - 8)))"
  using assms by (auto simp: crc_input_def crc_ok_def bit_push_bit_iff bit_ReverseLowBits byte_bits)

lemma crc_input_ok: "crc_ok i \<Longrightarrow> reg_ok i (crc_input i b)"
  by (auto simp: reg_ok_def take_bit_bits bit_crc_input)

lemma crc_input_inj:
  assumes ok: "crc_ok i" and e: "crc_input i a = crc_input i b"
  shows "a = b"
proof (rule bit_eqI)
  fix k assume "possible_bit TYPE(u8) k"
  then have "k \<le> 7" by (simp add: possible_bit_def)
  then obtain j where k: "7 = k + j" using le_Suc_ex by metis
  have kj: "7 - j = k" "k < 8" "j < 8" using k by simp_all
  obtain d where w: "ip_crc_width i = d + 8"
    using ok le_Suc_ex [of 8 "ip_crc_width i"] by (auto simp: crc_ok_def add.commute)
  have "bit (crc_input i a) n = bit (crc_input i b) n" for n by (simp only: e)
  note this = this [of "d + k"] this [of "d + j"]
  then show "bit a k = bit b k"
    using kj w by (cases "ip_crc_reflect_input i") (simp_all add: bit_crc_input [OF ok])
qed

lemma reg_ok_xor: "reg_ok i a \<Longrightarrow> reg_ok i b \<Longrightarrow> reg_ok i (a XOR b)"
  unfolding reg_ok_def take_bit_bits bit_xor_iff by blast

lemma Crc_byte_ok: "crc_ok i \<Longrightarrow> reg_ok i v \<Longrightarrow> reg_ok i (Crc_byte i b v)"
  unfolding Crc_byte_input by (intro Crc_shift_pow_ok reg_ok_xor crc_input_ok)

lemma xor_left_cancel: "a XOR b = a XOR c \<longleftrightarrow> b = (c :: u32)"
  by (metis xor.assoc xor_self_eq xor.left_neutral)

lemma Crc_byte_inj_reg:
  "crc_ok i \<Longrightarrow> reg_ok i u \<Longrightarrow> reg_ok i v \<Longrightarrow> Crc_byte i b u = Crc_byte i b v \<Longrightarrow> u = v"
  unfolding Crc_byte_input
  by (metis Crc_shift_pow_inj reg_ok_xor crc_input_ok xor_left_cancel xor.commute)

lemma Crc_byte_inj_byte:
  "crc_ok i \<Longrightarrow> reg_ok i v \<Longrightarrow> Crc_byte i a v = Crc_byte i b v \<Longrightarrow> a = b"
  unfolding Crc_byte_input
  by (metis Crc_shift_pow_inj reg_ok_xor crc_input_ok xor_left_cancel crc_input_inj)

lemma fold_Crc_ok: "crc_ok i \<Longrightarrow> reg_ok i v \<Longrightarrow> reg_ok i (fold (Crc_byte i) bytes v)"
  by (induction bytes arbitrary: v) (simp_all add: Crc_byte_ok)

lemma fold_Crc_inj:
  "crc_ok i \<Longrightarrow> reg_ok i u \<Longrightarrow> reg_ok i v \<Longrightarrow> fold (Crc_byte i) bytes u = fold (Crc_byte i) bytes v \<Longrightarrow> u = v"
proof (induction bytes arbitrary: u v)
  case (Cons b bytes)
  then have "Crc_byte i b u = Crc_byte i b v" by (simp add: Crc_byte_ok)
  then show ?case using Cons.prems(1-3) by (rule Crc_byte_inj_reg [rotated -1])
qed simp

lemma fold_Crc_one_byte:
  assumes "crc_ok i" "reg_ok i v" "k < length bytes" "b \<noteq> bytes ! k"
  shows "fold (Crc_byte i) (bytes[k := b]) v \<noteq> fold (Crc_byte i) bytes v"
proof
  let ?s = "fold (Crc_byte i) (take k bytes) v"
  assume e: "fold (Crc_byte i) (bytes[k := b]) v = fold (Crc_byte i) bytes v"
  have old: "fold (Crc_byte i) bytes v = fold (Crc_byte i) (drop (Suc k) bytes) (Crc_byte i (bytes ! k) ?s)"
    by (subst id_take_nth_drop [OF assms(3)]) simp
  have new: "fold (Crc_byte i) (bytes[k := b]) v = fold (Crc_byte i) (drop (Suc k) bytes) (Crc_byte i b ?s)"
    unfolding upd_conv_take_nth_drop [OF assms(3)] by simp
  have "fold (Crc_byte i) (drop (Suc k) bytes) (Crc_byte i b ?s) =
      fold (Crc_byte i) (drop (Suc k) bytes) (Crc_byte i (bytes ! k) ?s)"
    using e unfolding old new .
  then have "Crc_byte i b ?s = Crc_byte i (bytes ! k) ?s"
    by (rule fold_Crc_inj [OF assms(1), rotated -1]) (intro Crc_byte_ok fold_Crc_ok assms(1,2))+
  then show False using assms Crc_byte_inj_byte fold_Crc_ok by blast
qed

section \<open>Valid descriptors\<close>

lemma resolved_in_bounds: "ResolveIntegrity m n = Some r \<Longrightarrow> me_integrity m \<noteq> None \<Longrightarrow> resolved_fits n r"
  by (auto simp: ResolveIntegrity_def Let_def split: option.splits if_splits)

lemma resolved_width:
  "ResolveIntegrity m n = Some r \<Longrightarrow> me_integrity m = Some i \<Longrightarrow>
     ri_storage_width r = (if ip_algorithm i = IA_CRC then ip_crc_width i div 8 else 1)"
  by (auto simp: ResolveIntegrity_def Let_def split: option.splits if_splits)

lemma within_mask:
  assumes "w = 16 \<or> w = 32" "(v :: u32) AND NOT (if w = 16 then 0xFFFF else 0xFFFFFFFF) = 0"
  shows "take_bit w v = v"
proof (rule bit_eqI)
  fix n
  have m: "(if w = 16 then 0xFFFF else 0xFFFFFFFF :: u32) = mask w"
    using assms(1) by (auto simp: mask_eq_exp_minus_1)
  have "\<not> bit (v AND NOT (mask w)) n" using assms(2) unfolding m by simp
  then show "bit (take_bit w v) n = bit v n"
    using bit_imp_le_length [of v n] by (auto simp: bit_take_bit_iff bit_and_iff bit_not_iff bit_mask_iff)
qed

lemma valid_crc_ok:
  assumes "IntegrityDescriptorValid m" "me_integrity m = Some i" "ip_algorithm i \<noteq> IA_SUM8"
  shows "crc_ok i" and "ip_algorithm i = IA_CRC"
    and "ip_storage_byte_order i = BO_BIG \<or> ip_storage_byte_order i = BO_LITTLE"
proof -
  show crc: "ip_algorithm i = IA_CRC" using assms(3) by (cases "ip_algorithm i") simp_all
  have w: "ip_crc_width i = 16 \<or> ip_crc_width i = 32" and odd: "ip_crc_polynomial i AND 1 \<noteq> 0"
    using assms(1) crc by (simp_all add: IntegrityDescriptorValid_def assms(2) Let_def)
  have m: "ip_crc_polynomial i AND NOT (if ip_crc_width i = 16 then 0xFFFF else 0xFFFFFFFF) = 0"
    "ip_crc_initial_value i AND NOT (if ip_crc_width i = 16 then 0xFFFF else 0xFFFFFFFF) = 0"
    "ip_crc_xor_output i AND NOT (if ip_crc_width i = 16 then 0xFFFF else 0xFFFFFFFF) = 0"
    using assms(1) crc by (simp_all only: IntegrityDescriptorValid_def assms(2) Let_def option.case if_True simp_thms)
  show "ip_storage_byte_order i = BO_BIG \<or> ip_storage_byte_order i = BO_LITTLE"
    using assms(1) crc by (simp only: IntegrityDescriptorValid_def assms(2) Let_def option.case if_True simp_thms)
  have "bit (ip_crc_polynomial i) 0" using odd by (simp add: and_one_eq odd_iff_mod_2_eq_one bit_0 split: if_splits)
  then show "crc_ok i" using w m [THEN within_mask [OF w]] by (simp add: crc_ok_def)
qed

section \<open>The stored checksum\<close>

text \<open>The value the checksum field should hold, as the integer that is stored.\<close>

definition checksum :: "IntegrityPlan \<Rightarrow> u8 list \<Rightarrow> ResolvedIntegrity \<Rightarrow> u64" where
  "checksum i data r =
     (if ip_algorithm i = IA_SUM8 then ucast (Sum8 data (ri_range_offset r) (ri_range_length r))
      else ucast (Crc i data (ri_range_offset r) (ri_range_length r)))"

lemma Crc_bytes:
  assumes "off + n \<le> length data"
  shows "Crc i data off n =
    ((if ip_crc_reflect_output i then ReverseLowBits (fold (Crc_byte i) (take n (drop off data)) (ip_crc_initial_value i)) (ip_crc_width i)
      else fold (Crc_byte i) (take n (drop off data)) (ip_crc_initial_value i)) XOR ip_crc_xor_output i) AND Crc_mask i"
  unfolding Crc_def Let_def fold_range [OF assms] by (rule refl)

lemma Crc_reg_ok: "crc_ok i \<Longrightarrow> reg_ok i (Crc i data off n)"
  by (simp add: Crc_def Let_def reg_ok_def Crc_mask_eq)

lemma ReverseLowBits_ok: "reg_ok i (ReverseLowBits v (ip_crc_width i))"
  by (auto simp: reg_ok_def take_bit_bits bit_ReverseLowBits)

lemma Crc_output_inj:
  assumes ok: "crc_ok i" and u: "reg_ok i u" and v: "reg_ok i v"
    and e: "((if ip_crc_reflect_output i then ReverseLowBits u (ip_crc_width i) else u) XOR ip_crc_xor_output i) AND Crc_mask i =
       ((if ip_crc_reflect_output i then ReverseLowBits v (ip_crc_width i) else v) XOR ip_crc_xor_output i) AND Crc_mask i"
  shows "u = v"
proof -
  have x: "reg_ok i (ip_crc_xor_output i)" and w: "ip_crc_width i \<le> 32" using ok by (auto simp: crc_ok_def reg_ok_def)
  have c: "a = b" if "reg_ok i a" "reg_ok i b" "(a XOR ip_crc_xor_output i) AND Crc_mask i = (b XOR ip_crc_xor_output i) AND Crc_mask i" for a b
    using that(3) reg_ok_xor [OF that(1) x] reg_ok_xor [OF that(2) x] unfolding Crc_mask_eq [OF ok] reg_ok_def
    by (metis xor_left_cancel xor.commute)
  show ?thesis
  proof (cases "ip_crc_reflect_output i")
    case True
    then have "ReverseLowBits u (ip_crc_width i) = ReverseLowBits v (ip_crc_width i)"
      using c [OF ReverseLowBits_ok ReverseLowBits_ok] e by simp
    then show ?thesis using ReverseLowBits_inj [OF w] u v by (simp add: reg_ok_def)
  next
    case False
    then show ?thesis using c [OF u v] e by simp
  qed
qed

lemma Sum8_one_byte:
  "k < length bytes \<Longrightarrow> b \<noteq> bytes ! k \<Longrightarrow> sum_list (bytes[k := b]) \<noteq> sum_list (bytes :: u8 list)"
proof -
  assume k: "k < length bytes" and b: "b \<noteq> bytes ! k"
  have "sum_list (bytes[k := b]) = sum_list (take k bytes) + (b + sum_list (drop (Suc k) bytes))"
    unfolding upd_conv_take_nth_drop [OF k] by simp
  moreover have "sum_list bytes = sum_list (take k bytes) + (bytes ! k + sum_list (drop (Suc k) bytes))"
    by (subst id_take_nth_drop [OF k]) simp
  ultimately show ?thesis using b by simp
qed

lemma slice_update_inside:
  "off \<le> k \<Longrightarrow> k < off + n \<Longrightarrow> off + n \<le> length xs \<Longrightarrow>
     take n (drop off (xs[k := b])) = (take n (drop off xs))[k - off := b]"
  by (intro nth_equalityI) (auto simp: nth_list_update)

lemma slice_update_outside:
  "\<not> (off \<le> k \<and> k < off + n) \<Longrightarrow> take n (drop off (xs[k := b])) = take n (drop off xs)"
  by (intro nth_equalityI) (auto simp: nth_list_update)

lemma unat_u64_of_u8 [simp]: "unat (ucast (b :: u8) :: u64) = unat b"
proof -
  have "unat b < 256" using unsigned_less [of b] by simp
  then have "unat b < 18446744073709551616" by (rule less_trans) simp
  then show ?thesis by (simp add: unsigned_ucast_eq take_bit_eq_mod)
qed

lemma ucast_u8_inj: "(ucast (x :: u8) :: u64) = ucast y \<Longrightarrow> x = y"
  by (metis unat_u64_of_u8 word_unat_eq_iff)

lemma ucast_u32_inj: "(ucast (x :: u32) :: u64) = ucast y \<Longrightarrow> x = y"
  by (metis unat_u64_of_u32 word_unat_eq_iff)

lemma checksum_local:
  assumes "ri_range_offset r + ri_range_length r \<le> length d" "length d' = length d"
    "take (ri_range_length r) (drop (ri_range_offset r) d') = take (ri_range_length r) (drop (ri_range_offset r) d)"
  shows "checksum i d' r = checksum i d r"
  using assms by (simp add: checksum_def Sum8_bytes Crc_bytes)

lemma checksum_one_byte:
  assumes valid: "ip_algorithm i \<noteq> IA_SUM8 \<Longrightarrow> crc_ok i"
    and range: "ri_range_offset r \<le> k" "k < ri_range_offset r + ri_range_length r"
      "ri_range_offset r + ri_range_length r \<le> length d"
    and b: "b \<noteq> d ! k"
  shows "checksum i (d[k := b]) r \<noteq> checksum i d r"
proof -
  let ?s = "take (ri_range_length r) (drop (ri_range_offset r) d)" and ?k = "k - ri_range_offset r"
  have k: "?k < length ?s" and new: "b \<noteq> ?s ! ?k" using range b by auto
  note upd = slice_update_inside [OF range, of b]
  show ?thesis
  proof (cases "ip_algorithm i = IA_SUM8")
    case True
    show ?thesis
      using Sum8_one_byte [OF k new] range(3) upd by (auto simp: checksum_def True Sum8_bytes dest: ucast_u8_inj)
  next
    case False
    note ok = valid [OF this]
    have r0: "reg_ok i (ip_crc_initial_value i)" using ok by (simp add: crc_ok_def reg_ok_def)
    have "Crc i (d[k := b]) (ri_range_offset r) (ri_range_length r) \<noteq> Crc i d (ri_range_offset r) (ri_range_length r)"
      using Crc_output_inj [OF ok fold_Crc_ok fold_Crc_ok, OF ok r0 ok r0] fold_Crc_one_byte [OF ok r0 k new] range(3)
      by (metis Crc_bytes length_list_update upd)
    then show ?thesis by (auto simp: checksum_def False dest: ucast_u32_inj)
  qed
qed

lemma IntegrityMatches_iff:
  assumes "me_integrity m = Some i"
  shows "IntegrityMatches m d n \<longleftrightarrow> IntegrityDescriptorValid m \<and>
    (\<exists>r. ResolveIntegrity m n = Some r \<and>
       (if ip_algorithm i = IA_SUM8 then checksum i d r = ucast (d ! ri_storage_offset r)
        else LoadUnsigned (drop (ri_storage_offset r) d) (ri_storage_width r) (ip_storage_byte_order i) =
             Some (checksum i d r)))"
  by (auto simp: IntegrityMatches_def assms checksum_def dest: ucast_u8_inj split: option.splits)

lemma load_same_bytes:
  assumes "LoadUnsigned (drop off d) w order = Some v" "LoadUnsigned (drop off d') w order = Some v"
    and "off + w \<le> length d" "length d' = length d" "off \<le> k" "k < off + w"
  shows "d ! k = d' ! k"
  using StoreUnsigned_nth [OF store_load [OF assms(1,3)], of k]
    StoreUnsigned_nth [OF store_load [OF assms(2)], of k] assms(3-6) by simp

lemma load_outside:
  assumes "\<not> (off \<le> k \<and> k < off + w)" "off + w \<le> length d"
  shows "LoadUnsigned (drop off (d[k := b])) w order = LoadUnsigned (drop off d) w order"
  by (rule LoadUnsigned_local) (use assms slice_update_outside [OF assms(1)] in simp_all)

text \<open>Writing the checksum puts it where the range does not reach, so it is the checksum of the result.\<close>

lemma WriteIntegrity_matches:
  assumes valid: "IntegrityDescriptorValid m" and n: "n \<le> length d" and w: "WriteIntegrity m d n = Some d'"
  shows "IntegrityMatches m d' n"
proof (cases "me_integrity m")
  case None
  then show ?thesis using valid by (simp add: IntegrityMatches_def)
next
  case (Some i)
  then obtain r where r: "ResolveIntegrity m n = Some r" using w by (auto simp: WriteIntegrity_def split: option.splits)
  have fits: "resolved_fits n r" using resolved_in_bounds [OF r] Some by simp
  then have range: "ri_range_offset r + ri_range_length r \<le> length d"
    and storage: "ri_storage_offset r + ri_storage_width r \<le> length d"
    and apart: "\<And>k. \<lbrakk>ri_range_offset r \<le> k; k < ri_range_offset r + ri_range_length r;
        ri_storage_offset r \<le> k; k < ri_storage_offset r + ri_storage_width r\<rbrakk> \<Longrightarrow> False"
    using n by (auto simp: resolved_fits_def)
  have same: "checksum i d' r = checksum i d r"
    if "length d' = length d" "\<And>j. j < length d \<Longrightarrow>
      \<not> (ri_storage_offset r \<le> j \<and> j < ri_storage_offset r + ri_storage_width r) \<Longrightarrow> d' ! j = d ! j"
  proof (rule checksum_local [OF range that(1)], rule nth_equalityI)
    fix j assume "j < length (take (ri_range_length r) (drop (ri_range_offset r) d'))"
    then have j: "j < ri_range_length r" "ri_range_offset r + j < length d" using range that(1) by auto
    then have "d' ! (ri_range_offset r + j) = d ! (ri_range_offset r + j)"
      by (intro that(2)) (use apart [of "ri_range_offset r + j"] in auto)
    then show "take (ri_range_length r) (drop (ri_range_offset r) d') ! j =
        take (ri_range_length r) (drop (ri_range_offset r) d) ! j"
      using j that(1) by simp
  qed (use range that(1) in simp)
  show ?thesis
  proof (cases "ip_algorithm i = IA_SUM8")
    case True
    then have w1: "ri_storage_width r = 1" using resolved_width [OF r Some] by simp
    have d': "d' = d[ri_storage_offset r := Sum8 d (ri_range_offset r) (ri_range_length r)]"
      using w r True Some by (simp add: WriteIntegrity_def)
    then have "checksum i d' r = checksum i d r" by (intro same) (auto simp: w1 nth_list_update)
    then show ?thesis using valid r True storage w1
      by (simp add: IntegrityMatches_iff [OF Some] d' checksum_def)
  next
    case False
    have st: "StoreUnsigned (checksum i d r) d (ri_storage_offset r) (ri_storage_width r) (ip_storage_byte_order i) = Some d'"
      using w r False Some by (simp add: WriteIntegrity_def checksum_def)
    have "checksum i d' r = checksum i d r"
      using StoreUnsigned_length [OF st] StoreUnsigned_nth [OF st] by (intro same) auto
    then show ?thesis using valid r False load_store [OF st storage] by (simp add: IntegrityMatches_iff [OF Some])
  qed
qed

lemma checksum_fits:
  assumes "crc_ok i" "ip_algorithm i = IA_CRC"
  shows "FitsUnsignedWidth (checksum i d r) (ip_crc_width i div 8)"
proof -
  have w: "ip_crc_width i = 16 \<or> ip_crc_width i = 32" using assms(1) by (simp add: crc_ok_def)
  let ?c = "Crc i d (ri_range_offset r) (ri_range_length r)"
  have "take_bit (ip_crc_width i) ?c = ?c" using Crc_reg_ok [OF assms(1)] by (simp add: reg_ok_def)
  then have "take_bit (ip_crc_width i) (unat ?c) = unat ?c" by (metis unsigned_take_bit_eq)
  then have "unat ?c < 2 ^ ip_crc_width i" by (metis take_bit_nat_less_exp)
  then show ?thesis using w assms(2) by (auto simp: FitsUnsignedWidth_iff checksum_def)
qed

lemma WriteIntegrity_total:
  assumes valid: "IntegrityDescriptorValid m" and r: "ResolveIntegrity m n = Some r"
  shows "\<exists>d'. WriteIntegrity m d n = Some d'"
proof (cases "me_integrity m")
  case (Some i)
  show ?thesis
  proof (cases "ip_algorithm i = IA_SUM8")
    case False
    note ok = valid_crc_ok [OF valid Some False]
    have "IsIntegerByteOrderValid (ip_storage_byte_order i) (ip_crc_width i div 8)"
      using ok(3) by (auto simp: IsIntegerByteOrderValid_def)
    then show ?thesis
      using checksum_fits [OF ok(1,2), of d r] resolved_width [OF r Some] ok(2) r False Some
      by (simp add: WriteIntegrity_def StoreUnsigned_def checksum_def)
  qed (simp add: WriteIntegrity_def Some r)
qed (simp add: WriteIntegrity_def)

lemma IntegrityMatches_written:
  assumes m: "IntegrityMatches m d n" and n: "n \<le> length d"
  shows "WriteIntegrity m d n = Some d"
proof (cases "me_integrity m")
  case (Some i)
  then obtain r where r: "ResolveIntegrity m n = Some r" and c:
      "if ip_algorithm i = IA_SUM8 then checksum i d r = ucast (d ! ri_storage_offset r)
       else LoadUnsigned (drop (ri_storage_offset r) d) (ri_storage_width r) (ip_storage_byte_order i) = Some (checksum i d r)"
    using m IntegrityMatches_iff [OF Some] by blast
  have storage: "ri_storage_offset r + ri_storage_width r \<le> length d"
    using resolved_in_bounds [OF r] Some n by (auto simp: resolved_fits_def)
  show ?thesis
  proof (cases "ip_algorithm i = IA_SUM8")
    case True
    then have "Sum8 d (ri_range_offset r) (ri_range_length r) = d ! ri_storage_offset r"
      using c by (intro ucast_u8_inj) (simp add: checksum_def)
    then show ?thesis by (simp add: WriteIntegrity_def r Some True)
  next
    case False
    then show ?thesis using c store_load [OF _ storage] r Some by (simp add: WriteIntegrity_def checksum_def)
  qed
qed (simp add: WriteIntegrity_def)

section \<open>The CRC one bit at a time\<close>

text \<open>The textbook register: the message bit is added to the register's top bit, which decides whether the
  polynomial is subtracted after the shift.\<close>

definition crc_bit :: "IntegrityPlan \<Rightarrow> bool \<Rightarrow> u32 \<Rightarrow> u32" where
  "crc_bit i b v =
     (let feedback = (bit v (ip_crc_width i - 1) \<noteq> b); shifted = take_bit (ip_crc_width i) (push_bit 1 v)
      in if feedback then shifted XOR ip_crc_polynomial i else shifted)"

text \<open>The bits of a byte in the order they enter the register.\<close>

definition wire_bits :: "IntegrityPlan \<Rightarrow> u8 \<Rightarrow> bool list" where
  "wire_bits i b = map (bit b) (if ip_crc_reflect_input i then [0..<8] else rev [0..<8])"

definition crc_bits :: "IntegrityPlan \<Rightarrow> u8 list \<Rightarrow> u32" where
  "crc_bits i bytes =
     (let v = fold (crc_bit i) (concat (map (wire_bits i) bytes)) (ip_crc_initial_value i)
      in (if ip_crc_reflect_output i then ReverseLowBits v (ip_crc_width i) else v) XOR ip_crc_xor_output i)"

lemma crc_bit_shift:
  assumes ok: "crc_ok i" and top: "\<And>n. bit u n \<Longrightarrow> n < ip_crc_width i"
    and b: "bit u (ip_crc_width i - 1) = b"
  shows "Crc_shift i (v XOR u) = crc_bit i b v XOR take_bit (ip_crc_width i) (push_bit 1 u)"
proof (rule bit_eqI)
  fix n
  have "ip_crc_width i \<le> 32" "0 < ip_crc_width i" using ok by (auto simp: crc_ok_def)
  then show "bit (Crc_shift i (v XOR u)) n = bit (crc_bit i b v XOR take_bit (ip_crc_width i) (push_bit 1 u)) n"
    using b by (auto simp: bit_Crc_shift [OF ok] crc_bit_def Let_def bit_xor_iff bit_take_bit_iff bit_double)
qed

lemma crc_shifts:
  assumes ok: "crc_ok i" and u: "\<And>n. bit u n \<Longrightarrow> ip_crc_width i - k \<le> n \<and> n < ip_crc_width i" and k: "k \<le> ip_crc_width i"
  shows "(Crc_shift i ^^ k) (v XOR u) = fold (crc_bit i) (map (\<lambda>j. bit u (ip_crc_width i - 1 - j)) [0..<k]) v"
  using u k
proof (induction k arbitrary: u v)
  case 0
  have "bit u n = bit 0 n" for n using 0(1) [of n] by auto
  then have "u = 0" by (rule bit_eqI)
  then show ?case by simp
next
  case (Suc k)
  let ?w = "ip_crc_width i"
  define u' where "u' = take_bit (ip_crc_width i) (push_bit 1 u)"
  have w: "?w \<le> 32" "0 < ?w" using ok by (auto simp: crc_ok_def)
  have bu: "bit u' n \<longleftrightarrow> n < ?w \<and> 0 < n \<and> bit u (n - 1)" for n
    using w by (auto simp: u'_def bit_take_bit_iff bit_double)
  have "?w - k \<le> n \<and> n < ?w" if "bit u' n" for n using Suc.prems(1) [of "n - 1"] that bu by fastforce
  then have later: "(Crc_shift i ^^ k) (crc_bit i (bit u (?w - 1)) v XOR u') =
      fold (crc_bit i) (map (\<lambda>j. bit u' (?w - 1 - j)) [0..<k]) (crc_bit i (bit u (?w - 1)) v)"
    using Suc.prems(2) by (intro Suc.IH) auto
  have bits: "map (\<lambda>j. bit u' (?w - 1 - j)) [0..<k] = map (\<lambda>j. bit u (?w - 1 - Suc j)) [0..<k]"
    using Suc.prems(2) by (auto simp: bu)
  have first: "Crc_shift i (v XOR u) = crc_bit i (bit u (?w - 1)) v XOR u'"
    unfolding u'_def using Suc.prems(1) by (intro crc_bit_shift [OF ok]) auto
  have "map (\<lambda>j. bit u (?w - 1 - j)) [0..<Suc k] = bit u (?w - 1) # map (\<lambda>j. bit u' (?w - 1 - j)) [0..<k]"
    unfolding bits by (simp add: map_upt_Suc del: upt_Suc)
  then show ?case by (simp only: funpow_Suc_right comp_apply first later list.case fold_simps)
qed

lemma Crc_byte_bits:
  assumes ok: "crc_ok i"
  shows "Crc_byte i b v = fold (crc_bit i) (wire_bits i b) v"
proof -
  have w: "8 \<le> ip_crc_width i" using ok by (auto simp: crc_ok_def)
  obtain d where d: "ip_crc_width i = d + 8" using le_Suc_ex [OF w] by (auto simp: add.commute)
  have "bit (crc_input i b) n \<Longrightarrow> ip_crc_width i - 8 \<le> n \<and> n < ip_crc_width i" for n
    by (simp add: bit_crc_input [OF ok])
  then have "Crc_byte i b v = fold (crc_bit i) (map (\<lambda>j. bit (crc_input i b) (ip_crc_width i - 1 - j)) [0..<8]) v"
    unfolding Crc_byte_input by (intro crc_shifts [OF ok]) (use w in auto)
  also have "map (\<lambda>j. bit (crc_input i b) (ip_crc_width i - 1 - j)) [0..<8] = wire_bits i b"
    by (simp add: bit_crc_input [OF ok] wire_bits_def d upt_rec numeral_eq_Suc)
  finally show ?thesis .
qed

lemma fold_Crc_bits:
  "crc_ok i \<Longrightarrow> fold (Crc_byte i) bytes v = fold (crc_bit i) (concat (map (wire_bits i) bytes)) v"
  by (induction bytes arbitrary: v) (simp_all add: Crc_byte_bits)

section \<open>The computed length\<close>

lemma resolve_cases:
  assumes "ResolvePayloadLength m n = Some p"
  obtains "me_bounded_payload m = None" "n = me_frame_size m"
  | b where "me_bounded_payload m = Some b" "p = n - bp_header_length b - bp_trailer_length b"
      "bp_header_length b + bp_trailer_length b \<le> n" "p \<le> bp_max_payload_length b"
  using assms by (auto simp: ResolvePayloadLength_def Let_def split: option.splits if_splits)

lemma expected_value:
  assumes "ResolvePayloadLength m n = Some p" "expected_length m c n = Some e"
  shows "e = (case me_bounded_payload m of
       None \<Rightarrow> unat (cl_expected_value c)
     | Some b \<Rightarrow> if cl_scope c = CL_FRAME then n
                 else if cl_scope c = CL_PAYLOAD then n - bp_header_length b - bp_trailer_length b
                 else unat (cl_expected_value c))"
proof (cases "me_bounded_payload m")
  case (Some b)
  then have "p = n - bp_header_length b - bp_trailer_length b"
    using assms(1) by (elim resolve_cases) simp_all
  then show ?thesis using assms Some by (auto simp: expected_length_def split: if_splits)
qed (use assms in \<open>simp add: expected_length_def\<close>)

lemma computed_length_storage:
  assumes "ComputedLengthDescriptorValid m" "me_computed_length m = Some c" "ResolvePayloadLength m n = Some p"
  shows "cl_storage_offset c + cl_storage_width c \<le> n"
    and "IsIntegerByteOrderValid (cl_byte_order c) (cl_storage_width c)"
    and "cl_storage_width c = 1 \<or> cl_storage_width c = 2 \<or> cl_storage_width c = 4"
proof -
  have *: "cl_storage_offset c + cl_storage_width c \<le>
       (case me_bounded_payload m of Some b \<Rightarrow> bp_header_length b | None \<Rightarrow> me_frame_size m)"
    using assms(1) by (auto simp: ComputedLengthDescriptorValid_def assms(2) Let_def split: if_splits option.splits)
  show "cl_storage_offset c + cl_storage_width c \<le> n"
    using assms(3) * by (auto elim!: resolve_cases)
  show "cl_storage_width c = 1 \<or> cl_storage_width c = 2 \<or> cl_storage_width c = 4"
    using assms(1) by (auto simp: ComputedLengthDescriptorValid_def assms(2) Let_def split: if_splits)
  show "IsIntegerByteOrderValid (cl_byte_order c) (cl_storage_width c)"
    using assms(1) by (auto simp: ComputedLengthDescriptorValid_def IsIntegerByteOrderValid_def assms(2) Let_def split: if_splits)
qed

lemma computed_length_fits:
  assumes "ComputedLengthDescriptorValid m" "me_computed_length m = Some c" "ResolvePayloadLength m n = Some p"
    and "n \<le> me_frame_size m" "expected_length m c n = Some e"
  shows "FitsUnsignedWidth (word_of_nat e) (cl_storage_width c)"
proof -
  define top where "top = (case me_bounded_payload m of
       Some b \<Rightarrow> if cl_scope c = CL_PAYLOAD then bp_max_payload_length b
                 else if cl_scope c = CL_FRAME then me_frame_size m else cl_range_length c
     | None \<Rightarrow> if cl_scope c = CL_FRAME then me_frame_size m else cl_range_length c)"
  have v: "unat (cl_expected_value c) = top" and f: "FitsUnsignedWidth (word_of_nat top) (cl_storage_width c)"
    using assms(1) by (simp_all add: ComputedLengthDescriptorValid_def assms(2) Let_def top_def split: if_splits)
  have "e \<le> top"
  proof (cases "me_bounded_payload m")
    case None
    then show ?thesis using assms(5) v by (simp add: expected_length_def)
  next
    case (Some b)
    then have "p \<le> bp_max_payload_length b" using assms(3) by (auto elim!: resolve_cases)
    then show ?thesis
      using assms(3,4,5) v by (auto simp: expected_length_def Some top_def split: if_splits)
  qed
  moreover have "top < 2 ^ 64" using v unat_u64_lt [of "cl_expected_value c"] by simp
  ultimately show ?thesis using f by (simp add: FitsUnsignedWidth_iff unat_of_nat)
qed

section \<open>An example\<close>

text \<open>A record with a start byte, its own length, up to four payload bytes and their CRC (the one known as MODBUS).\<close>

definition example_crc :: IntegrityPlan where
  "example_crc = \<lparr>ip_algorithm = IA_CRC, ip_range_offset = 2, ip_range_length = 0, ip_storage_offset = 0,
     ip_range_ends_at_payload = True, ip_storage_at_payload_end = True, ip_crc_width = 16,
     ip_crc_polynomial = 0x8005, ip_crc_initial_value = 0xFFFF, ip_crc_xor_output = 0,
     ip_crc_reflect_input = True, ip_crc_reflect_output = True, ip_storage_byte_order = BO_LITTLE\<rparr>"

definition example_length_field :: FieldExecutionPlan where
  "example_length_field = \<lparr>fe_offset = 1, fe_width = 1, fe_input_ordinal = kInvalidIndex, fe_value_type = VT_UINT64,
     fe_byte_order = BO_NOT_APPLICABLE, fe_encode_source = ES_COMPUTED, fe_has_constant = False,
     fe_constant_value = 0, fe_unknown_enum_policy = UE_REJECT, fe_enum_values_begin = 0,
     fe_enum_values_count = 0, fe_enum_lookup_begin = 0, fe_enum_lookup_count = 0,
     fe_bit_container_index = kInvalidIndex, fe_bit_mask = 0, fe_bit_shift = 0, fe_bit_width = 0,
     fe_signed_constant_value = 0, fe_conversion_index = kInvalidIndex, fe_conversion_slot = kInvalidIndex,
     fe_text_min_length = 0, fe_text_max_length = 0, fe_allowed_ascii_low = 0, fe_allowed_ascii_high = 0,
     fe_text_encode_input = False\<rparr>"

definition example_payload_field :: FieldExecutionPlan where
  "example_payload_field = example_length_field
     \<lparr>fe_offset := 2, fe_width := 4, fe_input_ordinal := 0, fe_value_type := VT_BYTES, fe_encode_source := ES_INPUT\<rparr>"

definition example_message :: MessageExecutionPlan where
  "example_message = \<lparr>me_frame_size = 8, me_required_input_count = 1, me_integrity = Some example_crc,
     me_bounded_payload = Some \<lparr>bp_payload_field_index = 1, bp_header_length = 2, bp_min_payload_length = 0,
       bp_max_payload_length = 4, bp_trailer_length = 2, bp_min_frame_length = 4, bp_max_frame_length = 8\<rparr>,
     me_computed_length = Some \<lparr>cl_field_index = 0, cl_storage_offset = 1, cl_storage_width = 1,
       cl_byte_order = BO_NOT_APPLICABLE, cl_scope = CL_FRAME, cl_range_offset = 0, cl_range_length = 0,
       cl_expected_value = 8\<rparr>,
     me_fixed_bytes = [\<lparr>fb_offset = 0, fb_value = 0xAA\<rparr>], me_bit_containers = [],
     me_fields = [example_length_field, example_payload_field], me_enum_raw_values = [],
     me_enum_lookup_entries = [], me_text_decode = None, me_text_encode = None, me_text_decode_field_count = 0\<rparr>"

definition example_record :: "u8 list" where
  "example_record = [0xAA, 5, 9, 0x7F, 0x46]"

lemmas example_defs = example_message_def example_crc_def example_length_field_def example_payload_field_def
  example_record_def

lemma example_checksum: "Crc example_crc example_record 2 1 = 0x467F"
  by code_simp

lemma example_valid:
  "IntegrityDescriptorValid example_message" "ComputedLengthDescriptorValid example_message"
  "ResolvePayloadLength example_message 5 = Some 1"
  by (simp_all add: example_defs IntegrityDescriptorValid_def ResolveIntegrity_def ResolvePayloadLength_def
      resolved_fits_def ComputedLengthDescriptorValid_def FitsUnsignedWidth_def)

lemma example_resolved:
  "me_integrity example_message = Some example_crc"
  "ResolveIntegrity example_message 5 =
     Some \<lparr>ri_range_offset = 2, ri_range_length = 1, ri_storage_offset = 3, ri_storage_width = 2\<rparr>"
  by (simp_all add: example_defs ResolveIntegrity_def ResolvePayloadLength_def resolved_fits_def)

lemma example_stored: "LoadUnsigned (drop 3 example_record) 2 BO_LITTLE = Some 0x467F"
  by (simp add: example_record_def LoadUnsigned_def IsIntegerByteOrderValid_def upt_rec)

lemma example_matches: "IntegrityMatches example_message example_record 5"
proof -
  have "ip_algorithm example_crc = IA_CRC" "ip_storage_byte_order example_crc = BO_LITTLE"
    by (simp_all add: example_crc_def)
  then show ?thesis
    by (simp add: IntegrityMatches_def example_valid example_resolved example_stored example_checksum [unfolded One_nat_def])
qed

section \<open>Properties\<close>

text \<open>C20. Both checksums detect any change to a single byte: if a record passes the integrity test and one
  byte of the covered range or of the stored checksum is replaced by a different one, the record no longer
  passes.\<close>

theorem integrity_detects_byte_error:
  assumes ok: "IntegrityMatches m data n" and n: "n \<le> length data"
    and i: "me_integrity m = Some i" and r: "ResolveIntegrity m n = Some r"
    and k: "ri_range_offset r \<le> k \<and> k < ri_range_offset r + ri_range_length r \<or>
            ri_storage_offset r \<le> k \<and> k < ri_storage_offset r + ri_storage_width r"
    and b: "b \<noteq> data ! k"
  shows "\<not> IntegrityMatches m (data[k := b]) n"
proof
  assume "IntegrityMatches m (data[k := b]) n"
  then have new: "if ip_algorithm i = IA_SUM8 then checksum i (data[k := b]) r = ucast ((data[k := b]) ! ri_storage_offset r)
      else LoadUnsigned (drop (ri_storage_offset r) (data[k := b])) (ri_storage_width r) (ip_storage_byte_order i) =
        Some (checksum i (data[k := b]) r)"
    using r by (simp add: IntegrityMatches_iff [OF i])
  have valid: "IntegrityDescriptorValid m" and
    old: "if ip_algorithm i = IA_SUM8 then checksum i data r = ucast (data ! ri_storage_offset r)
      else LoadUnsigned (drop (ri_storage_offset r) data) (ri_storage_width r) (ip_storage_byte_order i) =
        Some (checksum i data r)"
    using ok r by (simp_all add: IntegrityMatches_iff [OF i])
  have range: "ri_range_offset r + ri_range_length r \<le> length data"
    and storage: "ri_storage_offset r + ri_storage_width r \<le> length data"
    and apart: "\<not> (ri_storage_offset r < ri_range_offset r + ri_range_length r \<and>
        ri_range_offset r < ri_storage_offset r + ri_storage_width r)"
    using resolved_in_bounds [OF r] i n by (auto simp: resolved_fits_def)
  have one: "ri_storage_width r = 1" if "ip_algorithm i = IA_SUM8" using resolved_width [OF r i] that by simp
  show False
  proof (cases "ri_range_offset r \<le> k \<and> k < ri_range_offset r + ri_range_length r")
    case True
    then have out: "\<not> (ri_storage_offset r \<le> k \<and> k < ri_storage_offset r + ri_storage_width r)" using apart by auto
    have "checksum i (data[k := b]) r \<noteq> checksum i data r"
      using True range b valid_crc_ok(1) [OF valid i] by (intro checksum_one_byte) auto
    then show False
      using new old load_outside [OF out storage, of b] out one by (auto split: if_splits)
  next
    case False
    then have inside: "ri_storage_offset r \<le> k" "k < ri_storage_offset r + ri_storage_width r" using k by auto
    have same: "checksum i (data[k := b]) r = checksum i data r"
      using range slice_update_outside [OF False] by (intro checksum_local) auto
    show False
    proof (cases "ip_algorithm i = IA_SUM8")
      case True
      then have "k = ri_storage_offset r" "k < length data" using inside one storage by auto
      then have "(ucast b :: u64) = ucast (data ! k)" using new old same True by simp
      then show False using ucast_u8_inj b by blast
    next
      case False
      then have "data ! k = (data[k := b]) ! k"
        using new old same inside storage by (intro load_same_bytes) auto
      then show False using b inside storage by simp
    qed
  qed
qed

theorem integrity_detects_byte_error_witness: "\<not> IntegrityMatches example_message (example_record[2 := 0xFF]) 5"
  by (rule integrity_detects_byte_error [OF example_matches _ example_resolved])
    (simp_all add: example_record_def)

text \<open>C21. The encoder's checksum is the decoder's: for a valid descriptor and a frame length that resolves,
  writing the checksum succeeds and gives a record that passes the integrity test, and a record passes exactly
  when writing the checksum would leave it as it is.\<close>

theorem integrity_write_iff_match:
  assumes "IntegrityDescriptorValid m" "ResolveIntegrity m n = Some r" "n \<le> length data"
  shows "(\<exists>out. WriteIntegrity m data n = Some out \<and> IntegrityMatches m out n) \<and>
         (IntegrityMatches m data n \<longleftrightarrow> WriteIntegrity m data n = Some data)"
  using WriteIntegrity_total [OF assms(1,2)] WriteIntegrity_matches [OF assms(1,3)] IntegrityMatches_written [OF _ assms(3)]
  by blast

theorem integrity_write_iff_match_witness: "WriteIntegrity example_message example_record 5 = Some example_record"
  using integrity_write_iff_match [OF example_valid(1) example_resolved(2), of example_record] example_matches
  by (simp add: example_record_def)

text \<open>C23. The byte-wise CRC loop computes the textbook CRC of the range, which feeds the message into the register one
  bit at a time, in the bit order the descriptor asks for.\<close>

theorem crc_is_bit_serial:
  assumes "IntegrityDescriptorValid m" "me_integrity m = Some i" "ip_algorithm i = IA_CRC" "off + n \<le> length data"
  shows "Crc i data off n = crc_bits i (take n (drop off data))"
proof -
  have ok: "crc_ok i" using valid_crc_ok(1) [OF assms(1,2)] assms(3) by simp
  have "reg_ok i (fold (Crc_byte i) (take n (drop off data)) (ip_crc_initial_value i))"
    using ok by (intro fold_Crc_ok) (auto simp: crc_ok_def reg_ok_def)
  moreover have "reg_ok i (ip_crc_xor_output i)" using ok by (simp add: crc_ok_def reg_ok_def)
  ultimately show ?thesis
    using reg_ok_xor ReverseLowBits_ok
    by (auto simp: Crc_bytes [OF assms(4)] crc_bits_def Let_def Crc_mask_eq [OF ok] fold_Crc_bits [OF ok] reg_ok_def)
qed

theorem crc_is_bit_serial_witness: "crc_bits example_crc [9] = 0x467F"
  using crc_is_bit_serial [OF example_valid(1) example_resolved(1), of 2 1 example_record] example_checksum
  by (simp add: example_crc_def example_record_def)

text \<open>The encoder's computed length is the decoder's: for a valid descriptor and a frame of a length that resolves
  and does not exceed the message's, writing the length field succeeds and the written field passes the length
  test.\<close>

lemma computed_length_write_matches:
  assumes valid: "ComputedLengthDescriptorValid m" and p: "ResolvePayloadLength m n = Some p"
    and n: "n \<le> me_frame_size m" "n \<le> length out" "n < 2 ^ 64"
  shows "\<exists>out'. WriteComputedLength m out n = Some out' \<and> ComputedLengthMatches m out' n"
proof (cases "me_computed_length m")
  case None
  then show ?thesis by (simp add: WriteComputedLength_def ComputedLengthMatches_def)
next
  case (Some c)
  note storage = computed_length_storage [OF valid Some p]
  obtain e where e: "expected_length m c n = Some e"
    using p by (cases "me_bounded_payload m") (auto simp: expected_length_def)
  note fits = computed_length_fits [OF valid Some p n(1) e]
  have w: "WriteComputedLength m out n =
      StoreUnsigned (word_of_nat e) out (cl_storage_offset c) (cl_storage_width c) (cl_byte_order c)"
    by (simp add: WriteComputedLength_def Some expected_value [OF p e] Let_def)
  obtain out' where out': "StoreUnsigned (word_of_nat e) out (cl_storage_offset c) (cl_storage_width c) (cl_byte_order c) = Some out'"
    using storage(2) fits by (simp add: StoreUnsigned_def)
  have "e < 2 ^ 64"
    using n(3) unat_u64_lt [of "cl_expected_value c"]
    by (auto simp: expected_value [OF p e] split: option.split)
  moreover have "LoadUnsigned (drop (cl_storage_offset c) out') (cl_storage_width c) (cl_byte_order c) = Some (word_of_nat e)"
    using storage(1) n(2) by (intro load_store [OF out']) simp
  ultimately have "ComputedLengthMatches m out' n"
    by (simp add: ComputedLengthMatches_def Some e unat_of_nat)
  then show ?thesis using w out' by simp
qed

lemma computed_length_write_matches_witness:
  "\<exists>out. WriteComputedLength example_message (example_record[1 := 0]) 5 = Some out \<and>
     ComputedLengthMatches example_message out 5"
  by (rule computed_length_write_matches [OF example_valid(2,3)]) (simp_all add: example_defs)

end
