(* ===== verification/Record_Match.thy ===== *)
theory Record_Match
  imports Integrity Prefix_Match
begin

text \<open>
  Which message a record is, \<^verbatim>\<open>src/src/protocol_core/complete_record_codec.cpp\<close>: the search
  in the candidate groups, the fixed bytes of a binary message, the walk through the segments of a text
  message, the outcome for a pipeline, and the search in the table of enumeration values.  A record is the list
  of its bytes.  The walk uses the prefix table of a literal; as a loop over a bad table need not end, its
  result is an option whose \<open>None\<close> is no return.
\<close>

section \<open>Definitions\<close>

subsection \<open>Binary messages\<close>

function FindCandidateGroup_loop :: "CandidateGroupExecutionPlan list \<Rightarrow> nat \<Rightarrow> nat \<Rightarrow> nat \<Rightarrow> nat" where
  "FindCandidateGroup_loop groups frame_size lower upper =
     (if lower < upper then
        let middle = lower + (upper - lower) div 2
        in if cg_frame_size (groups ! middle) < frame_size
           then FindCandidateGroup_loop groups frame_size (middle + 1) upper
           else FindCandidateGroup_loop groups frame_size lower middle
      else lower)"
  by pat_completeness auto
termination
  by (relation "measure (\<lambda>(groups, frame_size, lower, upper). upper - lower)") auto

declare FindCandidateGroup_loop.simps [simp del]

definition FindCandidateGroup ::
    "PipelineExecutionPlan \<Rightarrow> nat \<Rightarrow> CandidateGroupExecutionPlan option" where
  "FindCandidateGroup pipeline frame_size =
     (let groups = pe_candidate_groups pipeline;
          lower = FindCandidateGroup_loop groups frame_size 0 (length groups)
      in if lower = length groups \<or> cg_frame_size (groups ! lower) \<noteq> frame_size then None
         else Some (groups ! lower))"

definition MessageMatches :: "MessageExecutionPlan \<Rightarrow> u8 list \<Rightarrow> bool" where
  "MessageMatches m input \<longleftrightarrow>
     (case me_bounded_payload m of
        Some b \<Rightarrow> bp_min_frame_length b \<le> length input \<and> length input \<le> bp_max_frame_length b
      | None \<Rightarrow> length input = me_frame_size m) \<and>
     (\<forall>fixed_byte \<in> set (me_fixed_bytes m). input ! fb_offset fixed_byte = fb_value fixed_byte)"

function FindEnumEntry_loop :: "EnumLookupExecutionPlan list \<Rightarrow> u64 \<Rightarrow> nat \<Rightarrow> nat \<Rightarrow> nat" where
  "FindEnumEntry_loop entries raw_value lower upper =
     (if lower < upper then
        let middle = lower + (upper - lower) div 2
        in if el_raw_value (entries ! middle) < raw_value
           then FindEnumEntry_loop entries raw_value (middle + 1) upper
           else FindEnumEntry_loop entries raw_value lower middle
      else lower)"
  by pat_completeness auto
termination
  by (relation "measure (\<lambda>(entries, raw_value, lower, upper). upper - lower)") auto

declare FindEnumEntry_loop.simps [simp del]

definition FindEnumEntry :: "MessageExecutionPlan \<Rightarrow> FieldExecutionPlan \<Rightarrow> u64 \<Rightarrow> nat option" where
  "FindEnumEntry m field raw_value =
     (let upper = fe_enum_lookup_begin field + fe_enum_lookup_count field;
          lower = FindEnumEntry_loop (me_enum_lookup_entries m) raw_value (fe_enum_lookup_begin field) upper
      in if lower = upper \<or> el_raw_value (me_enum_lookup_entries m ! lower) \<noteq> raw_value then None
         else Some (el_entry_index (me_enum_lookup_entries m ! lower)))"

subsection \<open>Text messages\<close>

datatype TextWalkStatus = TW_MATCH | TW_NO_MATCH | TW_INVALID_CHARACTER | TW_INVALID_PLAN

definition IsAllowedAscii :: "FieldExecutionPlan \<Rightarrow> u8 \<Rightarrow> bool" where
  "IsAllowedAscii field character =
     (if character > 0x7F then False
      else let word = (if character < 64 then fe_allowed_ascii_low field else fe_allowed_ascii_high field)
           in word AND push_bit (unat character mod 64) 1 \<noteq> 0)"

text \<open>The search loop shared by \<^verbatim>\<open>FindTextLiteral\<close> and \<^verbatim>\<open>FindFirstAcrossBoundary\<close>, over the
  bytes that are left, the first of which is at \<open>index\<close>.  \<open>Some None\<close> stands for the invalid index.\<close>

fun FindLiteral_loop :: "u8 list \<Rightarrow> nat list \<Rightarrow> u8 list \<Rightarrow> nat \<Rightarrow> nat \<Rightarrow> nat option option" where
  "FindLiteral_loop pat table [] index match = Some None"
| "FindLiteral_loop pat table (byte # bytes) index match =
     (case Fallback pat table byte match of
        None \<Rightarrow> None
      | Some match \<Rightarrow>
          let match = Advance pat byte match
          in if match = length pat then Some (Some (index + 1 - match))
             else FindLiteral_loop pat table bytes (index + 1) match)"

definition FindTextLiteral :: "u8 list \<Rightarrow> nat \<Rightarrow> nat \<Rightarrow> TextSegmentPlan \<Rightarrow> nat option option" where
  "FindTextLiteral input start maximum_field_length literal =
     (let n = length (tsp_literal literal); left = length input - start
      in if n = 0 \<or> length (tsp_prefix_table literal) \<noteq> n \<or> start > length input then Some None
         else let scan_end = (if maximum_field_length \<le> left \<and> n \<le> left - maximum_field_length
                              then start + maximum_field_length + n else length input)
              in FindLiteral_loop (tsp_literal literal) (tsp_prefix_table literal)
                   (drop start (take scan_end input)) start 0)"

definition FindFirstAcrossBoundary :: "u8 list \<Rightarrow> TextSegmentPlan \<Rightarrow> nat option option" where
  "FindFirstAcrossBoundary v literal =
     FindLiteral_loop (tsp_literal literal) (tsp_prefix_table literal) (v @ tsp_literal literal) 0 0"

text \<open>The length of a field segment, given the segments after it.\<close>

datatype FieldExtent = FX_Length nat | FX_Stop TextWalkStatus

definition FieldLength ::
    "FieldExecutionPlan \<Rightarrow> TextSegmentPlan list \<Rightarrow> u8 list \<Rightarrow> nat \<Rightarrow> FieldExtent option" where
  "FieldLength field following input cursor =
     (if fe_text_min_length field = fe_text_max_length field then
        (if fe_text_min_length field > length input - cursor then Some (FX_Stop TW_NO_MATCH)
         else Some (FX_Length (fe_text_min_length field)))
      else case following of
        [] \<Rightarrow> Some (FX_Length (length input - cursor))
      | terminator # _ \<Rightarrow>
          if tsp_kind terminator \<noteq> TS_LITERAL then Some (FX_Stop TW_INVALID_PLAN)
          else (case FindTextLiteral input cursor (fe_text_max_length field) terminator of
                  None \<Rightarrow> None
                | Some None \<Rightarrow> Some (FX_Stop TW_NO_MATCH)
                | Some (Some found) \<Rightarrow> Some (FX_Length (found - cursor))))"

fun Walk_loop ::
    "MessageExecutionPlan \<Rightarrow> u8 list \<Rightarrow> bool \<Rightarrow> (nat \<Rightarrow> nat \<Rightarrow> nat \<Rightarrow> 's \<Rightarrow> bool \<times> 's) \<Rightarrow>
     TextSegmentPlan list \<Rightarrow> nat \<Rightarrow> 's \<Rightarrow> (TextWalkStatus \<times> 's) option" where
  "Walk_loop m input validate visitor [] cursor s =
     Some (if cursor = length input then TW_MATCH else TW_NO_MATCH, s)"
| "Walk_loop m input validate visitor (segment # following) cursor s =
     (if tsp_kind segment = TS_LITERAL then
        let n = length (tsp_literal segment)
        in if n = 0 \<or> n > length input - cursor then Some (TW_NO_MATCH, s)
           else if take n (drop cursor input) \<noteq> tsp_literal segment then Some (TW_NO_MATCH, s)
           else Walk_loop m input validate visitor following (cursor + n) s
      else if tsp_field_index segment \<ge> length (me_fields m) then Some (TW_INVALID_PLAN, s)
      else
        let field = me_fields m ! tsp_field_index segment
        in case FieldLength field following input cursor of
             None \<Rightarrow> None
           | Some (FX_Stop status) \<Rightarrow> Some (status, s)
           | Some (FX_Length n) \<Rightarrow>
               if n < fe_text_min_length field \<or> n > fe_text_max_length field then Some (TW_NO_MATCH, s)
               else if validate \<and> \<not> list_all (IsAllowedAscii field) (take n (drop cursor input)) then
                 Some (TW_INVALID_CHARACTER, s)
               else (case visitor (tsp_field_index segment) cursor n s of
                       (accepted, s) \<Rightarrow>
                         if \<not> accepted then Some (TW_INVALID_PLAN, s)
                         else Walk_loop m input validate visitor following (cursor + n) s))"

definition WalkTextAction ::
    "TextActionPlan \<Rightarrow> MessageExecutionPlan \<Rightarrow> u8 list \<Rightarrow> bool \<Rightarrow>
     (nat \<Rightarrow> nat \<Rightarrow> nat \<Rightarrow> 's \<Rightarrow> bool \<times> 's) \<Rightarrow> 's \<Rightarrow> (TextWalkStatus \<times> 's) option" where
  "WalkTextAction action m input validate visitor s =
     (if length input < tap_min_record_length action \<or> length input > tap_max_record_length action \<or>
         tap_segments action = [] then Some (TW_NO_MATCH, s)
      else Walk_loop m input validate visitor (tap_segments action) 0 s)"

definition accept_all :: "nat \<Rightarrow> nat \<Rightarrow> nat \<Rightarrow> unit \<Rightarrow> bool \<times> unit" where
  "accept_all field_index offset n s = (True, s)"

definition TextMessageMatches :: "MessageExecutionPlan \<Rightarrow> u8 list \<Rightarrow> bool option" where
  "TextMessageMatches m input =
     (case me_text_decode m of
        None \<Rightarrow> Some False
      | Some action \<Rightarrow>
          map_option (\<lambda>(status, s). status = TW_MATCH) (WalkTextAction action m input False accept_all ()))"

subsection \<open>The match of a pipeline\<close>

record MatchOutcome =
  mo_message_index :: nat
  mo_match_count :: nat

definition count_match :: "nat \<Rightarrow> MatchOutcome \<Rightarrow> MatchOutcome" where
  "count_match message_index outcome =
     (let outcome = outcome\<lparr>mo_match_count := mo_match_count outcome + 1\<rparr>
      in if mo_match_count outcome = 1 then outcome\<lparr>mo_message_index := message_index\<rparr> else outcome)"

definition examine :: "(nat \<Rightarrow> bool) \<Rightarrow> nat list \<Rightarrow> MatchOutcome \<Rightarrow> MatchOutcome" where
  "examine matched candidates outcome =
     fold (\<lambda>message_index outcome. if matched message_index then count_match message_index outcome else outcome)
       candidates outcome"

fun examine_text :: "MessageExecutionPlan list \<Rightarrow> u8 list \<Rightarrow> nat list \<Rightarrow> MatchOutcome \<Rightarrow> MatchOutcome option" where
  "examine_text messages input [] outcome = Some outcome"
| "examine_text messages input (message_index # candidates) outcome =
     (case TextMessageMatches (messages ! message_index) input of
        None \<Rightarrow> None
      | Some matched \<Rightarrow>
          examine_text messages input candidates (if matched then count_match message_index outcome else outcome))"

definition FindPipelineMatch ::
    "PipelineExecutionPlan \<Rightarrow> MessageExecutionPlan list \<Rightarrow> u8 list \<Rightarrow> MatchOutcome option" where
  "FindPipelineMatch pipeline messages input =
     (let matched = (\<lambda>message_index. MessageMatches (messages ! message_index) input);
          outcome = \<lparr>mo_message_index = kInvalidIndex, mo_match_count = 0\<rparr>;
          outcome = (case FindCandidateGroup pipeline (length input) of
                       None \<Rightarrow> outcome
                     | Some candidates \<Rightarrow> examine matched (cg_message_indices candidates) outcome);
          outcome = examine matched (pe_variable_message_indices pipeline) outcome
      in examine_text messages input (pe_text_message_indices pipeline) outcome)"

definition MessageIsAllowed :: "PipelineExecutionPlan \<Rightarrow> nat \<Rightarrow> bool" where
  "MessageIsAllowed pipeline message_index \<longleftrightarrow>
     pe_allowed_message_words pipeline ! (message_index div 64) AND push_bit (message_index mod 64) 1 \<noteq> 0"

section \<open>Binary search\<close>

text \<open>Both tables are searched for the first entry that is not below the target.\<close>

locale lower_bound =
  fixes search :: "nat \<Rightarrow> nat \<Rightarrow> nat" and below :: "nat \<Rightarrow> bool"
  assumes search_eq: "search lower upper =
    (if lower < upper then
       let middle = lower + (upper - lower) div 2
       in if below middle then search (middle + 1) upper else search lower middle
     else lower)"
begin

lemma search_bound:
  assumes "lower \<le> upper" "\<And>i j. lower \<le> i \<Longrightarrow> i \<le> j \<Longrightarrow> j < upper \<Longrightarrow> below j \<Longrightarrow> below i"
  shows "lower \<le> search lower upper \<and> search lower upper \<le> upper \<and>
    (\<forall>i. lower \<le> i \<and> i < search lower upper \<longrightarrow> below i) \<and>
    (\<forall>i. search lower upper \<le> i \<and> i < upper \<longrightarrow> \<not> below i)"
  using assms
proof (induction "upper - lower" arbitrary: lower upper rule: less_induct)
  case less
  show ?case
  proof (cases "lower < upper")
    case False
    then have "search lower upper = lower" by (subst search_eq) simp
    then show ?thesis using less.prems(1) False by auto
  next
    case True
    define middle where "middle = lower + (upper - lower) div 2"
    have mid: "lower \<le> middle" "middle < upper" using True by (auto simp: middle_def)
    show ?thesis
    proof (cases "below middle")
      case True
      then have s: "search lower upper = search (middle + 1) upper"
        using mid by (subst search_eq) (simp add: middle_def Let_def)
      have ih: "middle + 1 \<le> search (middle + 1) upper \<and> search (middle + 1) upper \<le> upper \<and>
          (\<forall>i. middle + 1 \<le> i \<and> i < search (middle + 1) upper \<longrightarrow> below i) \<and>
          (\<forall>i. search (middle + 1) upper \<le> i \<and> i < upper \<longrightarrow> \<not> below i)"
        using mid less.prems(2) by (intro less.hyps) auto
      have "below i" if "lower \<le> i" "i < middle + 1" for i
        using less.prems(2) [of i middle] that mid(2) True by simp
      then show ?thesis unfolding s using ih mid by (metis le_trans less_imp_le not_less add_lessD1)
    next
      case False
      then have s: "search lower upper = search lower middle"
        using mid by (subst search_eq) (simp add: middle_def Let_def)
      have ih: "lower \<le> search lower middle \<and> search lower middle \<le> middle \<and>
          (\<forall>i. lower \<le> i \<and> i < search lower middle \<longrightarrow> below i) \<and>
          (\<forall>i. search lower middle \<le> i \<and> i < middle \<longrightarrow> \<not> below i)"
        using mid less.prems(2) by (intro less.hyps) auto
      have "\<not> below i" if "middle \<le> i" "i < upper" for i
        using less.prems(2) [OF mid(1) that] False by blast
      then show ?thesis unfolding s using ih mid by (meson le_trans less_imp_le not_less)
    qed
  qed
qed

text \<open>Over entries sorted by strictly rising keys it finds the entry with a given key, if there is one.\<close>

lemma search_finds:
  assumes le: "lower \<le> upper"
    and key: "\<And>i. lower \<le> i \<Longrightarrow> i < upper \<Longrightarrow> below i \<longleftrightarrow> key i < target"
    and sorted: "\<And>i j. lower \<le> i \<Longrightarrow> i < j \<Longrightarrow> j < upper \<Longrightarrow> key i < (key j :: 'k :: linorder)"
  shows "lower \<le> i \<and> i < upper \<and> key i = target \<longleftrightarrow>
    i = search lower upper \<and> search lower upper \<noteq> upper \<and> key (search lower upper) = target"
proof -
  have "below i" if "lower \<le> i" "i \<le> j" "j < upper" "below j" for i j
    using that key [of i] key [of j] sorted [of i j] by (cases "i = j") auto
  then have b: "lower \<le> search lower upper" "search lower upper \<le> upper"
      "\<And>i. lower \<le> i \<Longrightarrow> i < search lower upper \<Longrightarrow> below i"
      "\<And>i. search lower upper \<le> i \<Longrightarrow> i < upper \<Longrightarrow> \<not> below i"
    using search_bound [OF le] by blast+
  show ?thesis
  proof (intro iffI)
    assume i: "lower \<le> i \<and> i < upper \<and> key i = target"
    then have "\<not> below i" using key [of i] by simp
    then have "search lower upper \<le> i" using b(3) [of i] i by (meson not_less)
    moreover have "\<not> search lower upper < i"
      using b(4) [of "search lower upper"] key [of "search lower upper"] sorted [of "search lower upper" i] b(1) i by auto
    ultimately show "i = search lower upper \<and> search lower upper \<noteq> upper \<and> key (search lower upper) = target"
      using i by auto
  qed (use b(1,2) in auto)
qed

end

interpretation group_search: lower_bound "FindCandidateGroup_loop groups frame_size"
    "\<lambda>i. cg_frame_size (groups ! i) < frame_size" for groups frame_size
  by unfold_locales (rule FindCandidateGroup_loop.simps)

interpretation enum_search: lower_bound "FindEnumEntry_loop entries raw_value"
    "\<lambda>i. el_raw_value (entries ! i) < raw_value" for entries raw_value
  by unfold_locales (rule FindEnumEntry_loop.simps)

definition groups_sorted :: "PipelineExecutionPlan \<Rightarrow> bool" where
  "groups_sorted pipeline \<longleftrightarrow> sorted_wrt (<) (map cg_frame_size (pe_candidate_groups pipeline))"

lemma FindCandidateGroup_iff:
  assumes "groups_sorted pipeline"
  shows "FindCandidateGroup pipeline n = Some g \<longleftrightarrow>
    g \<in> set (pe_candidate_groups pipeline) \<and> cg_frame_size g = n"
proof -
  let ?gs = "pe_candidate_groups pipeline"
  define r where "r = FindCandidateGroup_loop ?gs n 0 (length ?gs)"
  have s: "\<And>i j. i < j \<Longrightarrow> j < length ?gs \<Longrightarrow> cg_frame_size (?gs ! i) < cg_frame_size (?gs ! j)"
    using assms by (auto simp: groups_sorted_def sorted_wrt_iff_nth_less)
  have f: "0 \<le> i \<and> i < length ?gs \<and> cg_frame_size (?gs ! i) = n \<longleftrightarrow>
      i = r \<and> r \<noteq> length ?gs \<and> cg_frame_size (?gs ! r) = n" for i
    unfolding r_def by (rule group_search.search_finds [where key = "\<lambda>i. cg_frame_size (?gs ! i)"]) (use s in simp_all)
  have "g \<in> set ?gs \<and> cg_frame_size g = n \<longleftrightarrow> (\<exists>i. 0 \<le> i \<and> i < length ?gs \<and> cg_frame_size (?gs ! i) = n \<and> ?gs ! i = g)"
    by (auto simp: in_set_conv_nth)
  also have "\<dots> \<longleftrightarrow> r \<noteq> length ?gs \<and> cg_frame_size (?gs ! r) = n \<and> ?gs ! r = g"
    using f by metis
  finally show ?thesis by (auto simp: FindCandidateGroup_def Let_def r_def [symmetric])
qed

definition lookup_sorted :: "MessageExecutionPlan \<Rightarrow> FieldExecutionPlan \<Rightarrow> bool" where
  "lookup_sorted m field \<longleftrightarrow>
     fe_enum_lookup_begin field + fe_enum_lookup_count field \<le> length (me_enum_lookup_entries m) \<and>
     (\<forall>j < fe_enum_lookup_count field. \<forall>i < j.
        el_raw_value (me_enum_lookup_entries m ! (fe_enum_lookup_begin field + i)) <
        el_raw_value (me_enum_lookup_entries m ! (fe_enum_lookup_begin field + j)))"

lemma FindEnumEntry_iff:
  assumes sorted: "lookup_sorted m field"
  shows "FindEnumEntry m field raw = Some e \<longleftrightarrow>
    (\<exists>i. fe_enum_lookup_begin field \<le> i \<and> i < fe_enum_lookup_begin field + fe_enum_lookup_count field \<and>
       el_raw_value (me_enum_lookup_entries m ! i) = raw \<and> el_entry_index (me_enum_lookup_entries m ! i) = e)"
proof -
  let ?es = "me_enum_lookup_entries m" and ?b = "fe_enum_lookup_begin field"
  let ?u = "?b + fe_enum_lookup_count field"
  define r where "r = FindEnumEntry_loop ?es raw ?b ?u"
  have f: "?b \<le> i \<and> i < ?u \<and> el_raw_value (?es ! i) = raw \<longleftrightarrow>
      i = r \<and> r \<noteq> ?u \<and> el_raw_value (?es ! r) = raw" for i
    unfolding r_def
  proof (rule enum_search.search_finds [where key = "\<lambda>i. el_raw_value (?es ! i)"])
    fix i j assume ij: "?b \<le> i" "i < j" "j < ?u"
    then have "i - ?b < j - ?b" "j - ?b < fe_enum_lookup_count field" by simp_all
    then have "el_raw_value (?es ! (?b + (i - ?b))) < el_raw_value (?es ! (?b + (j - ?b)))"
      using sorted unfolding lookup_sorted_def by blast
    then show "el_raw_value (?es ! i) < el_raw_value (?es ! j)" using ij by simp
  qed simp_all
  have "(\<exists>i. ?b \<le> i \<and> i < ?u \<and> el_raw_value (?es ! i) = raw \<and> el_entry_index (?es ! i) = e) \<longleftrightarrow>
      r \<noteq> ?u \<and> el_raw_value (?es ! r) = raw \<and> el_entry_index (?es ! r) = e"
    using f by metis
  then show ?thesis by (simp add: FindEnumEntry_def Let_def r_def [symmetric])
qed

section \<open>Searching a literal\<close>

definition occurs_at :: "u8 list \<Rightarrow> u8 list \<Rightarrow> nat \<Rightarrow> bool" where
  "occurs_at pat text k \<longleftrightarrow> k + length pat \<le> length text \<and> take (length pat) (drop k text) = pat"

definition first_at :: "u8 list \<Rightarrow> u8 list \<Rightarrow> nat \<Rightarrow> bool" where
  "first_at pat text k \<longleftrightarrow> occurs_at pat text k \<and> (\<forall>j < k. \<not> occurs_at pat text j)"

lemma first_at_unique: "first_at pat text i \<Longrightarrow> first_at pat text j \<Longrightarrow> i = j"
  unfolding first_at_def by (metis nat_neq_iff)

lemma occurs_at_take:
  "occurs_at pat (take n text) k \<longleftrightarrow> occurs_at pat text k \<and> k + length pat \<le> n"
  by (auto simp: occurs_at_def drop_take take_take min_def)

lemma occurs_at_append: "k + length pat \<le> length text \<Longrightarrow> occurs_at pat (text @ rest) k \<longleftrightarrow> occurs_at pat text k"
  using occurs_at_take [of pat "length text" "text @ rest" k] by simp

lemma suffix_occurs:
  assumes "u \<le> length text"
  shows "suffix pat (take u text) \<longleftrightarrow> length pat \<le> u \<and> occurs_at pat text (u - length pat)"
proof
  assume s: "suffix pat (take u text)"
  then have le: "length pat \<le> u" using suffix_length_le [OF s] assms by simp
  from s obtain xs where t: "take u text = xs @ pat" by (auto simp: suffix_def)
  have "length xs = u - length pat" using arg_cong [OF t, of length] assms by simp
  then have "drop (u - length pat) (take u text) = pat" by (simp add: t)
  then show "length pat \<le> u \<and> occurs_at pat text (u - length pat)"
    using le assms by (simp add: occurs_at_def drop_take)
next
  assume "length pat \<le> u \<and> occurs_at pat text (u - length pat)"
  then have "take u text = take (u - length pat) text @ pat"
    using take_add [of "u - length pat" "length pat" "text"] by (simp add: occurs_at_def)
  then show "suffix pat (take u text)" by (simp add: suffix_def)
qed

text \<open>The loop with the text read so far: it stops where the pattern ends for the first time.\<close>

definition found :: "u8 list \<Rightarrow> u8 list \<Rightarrow> u8 list \<Rightarrow> nat \<Rightarrow> nat option \<Rightarrow> bool" where
  "found pat s bytes index r \<longleftrightarrow>
     (case r of
        None \<Rightarrow> \<forall>u. 0 < u \<and> u \<le> length bytes \<longrightarrow> \<not> suffix pat (s @ take u bytes)
      | Some i \<Rightarrow> \<exists>u. 0 < u \<and> u \<le> length bytes \<and> i + length pat = index + u \<and> suffix pat (s @ take u bytes) \<and>
                 (\<forall>v. 0 < v \<and> v < u \<longrightarrow> \<not> suffix pat (s @ take v bytes)))"

lemma take_Suc_prefix: "0 < u \<Longrightarrow> take u (byte # bytes) = byte # take (u - 1) bytes"
  by (cases u) simp_all

lemma FindLiteral_loop_found:
  "search_state pat s m \<Longrightarrow> length s \<le> index \<Longrightarrow>
     \<exists>r. FindLiteral_loop pat (PrefixTable pat) bytes index m = Some r \<and> found pat s bytes index r"
proof (induction bytes arbitrary: s m index)
  case Nil
  then show ?case by (simp add: found_def)
next
  case (Cons byte bytes)
  from kmp.step_plain [OF Cons.prems(1), of byte] obtain k
    where k: "Fallback pat (PrefixTable pat) byte m = Some k" and b: "best pat (s @ [byte]) (Advance pat byte k)" by blast
  let ?m = "Advance pat byte k"
  have le: "?m \<le> length pat" and here: "suffix pat (s @ [byte]) \<longleftrightarrow> ?m = length pat"
    using b by (auto simp: best_def matches_def)
  show ?case
  proof (cases "?m = length pat")
    case True
    have pl: "length pat \<le> index + 1" using suffix_length_le [of pat "s @ [byte]"] here True Cons.prems(2) by simp
    have "found pat s (byte # bytes) index (Some (index + 1 - length pat))"
      unfolding found_def option.case using here True pl by (intro exI [of _ 1]) auto
    then show ?thesis using k True by simp
  next
    case False
    then have "search_state pat (s @ [byte]) ?m" using search_state_best [OF b] le by simp
    from Cons.IH [OF this, of "index + 1"] Cons.prems(2) obtain r
      where r: "FindLiteral_loop pat (PrefixTable pat) bytes (index + 1) ?m = Some r"
        and f: "found pat (s @ [byte]) bytes (index + 1) r" by auto
    have no: "\<not> suffix pat (s @ [byte])" using here False by simp
    have "found pat s (byte # bytes) index r"
    proof (cases r)
      case None
      have "\<not> suffix pat (s @ take u (byte # bytes))" if "0 < u" "u \<le> Suc (length bytes)" for u
      proof (cases "u = 1")
        case True
        then show ?thesis using no by simp
      next
        case False
        then have "0 < u - 1 \<and> u - 1 \<le> length bytes" using that by linarith
        then show ?thesis using f that(1) by (simp add: None found_def take_Suc_prefix)
      qed
      then show ?thesis by (simp add: None found_def)
    next
      case (Some i)
      then obtain u where u: "0 < u" "u \<le> length bytes" "i + length pat = index + 1 + u"
          "suffix pat (s @ byte # take u bytes)" "\<And>v. 0 < v \<Longrightarrow> v < u \<Longrightarrow> \<not> suffix pat (s @ byte # take v bytes)"
        using f by (auto simp: found_def)
      have "\<not> suffix pat (s @ take v (byte # bytes))" if "0 < v" "v < Suc u" for v
        using no u(5) [of "v - 1"] that by (cases "v = 1") (simp_all add: take_Suc_prefix)
      then show ?thesis
        unfolding Some found_def option.case using u(1-4) by (intro exI [of _ "Suc u"]) simp
    qed
    then show ?thesis using k r False by simp
  qed
qed

lemma FindLiteral_loop_first:
  assumes "pat \<noteq> []"
  shows "\<exists>r. FindLiteral_loop pat (PrefixTable pat) text index 0 = Some r \<and>
    (case r of None \<Rightarrow> \<forall>k. \<not> occurs_at pat text k | Some i \<Rightarrow> \<exists>k. i = index + k \<and> first_at pat text k)"
proof -
  have n: "0 < length pat" using assms by simp
  from FindLiteral_loop_found [OF search_state_start [OF assms], of index "text"] obtain r
    where r: "FindLiteral_loop pat (PrefixTable pat) text index 0 = Some r" "found pat [] text index r" by auto
  have ends: "suffix pat (take (k + length pat) text)" "0 < k + length pat" "k + length pat \<le> length text"
    if "occurs_at pat text k" for k
    using that n suffix_occurs [of "k + length pat" "text" pat] by (auto simp: occurs_at_def)
  have "case r of None \<Rightarrow> \<forall>k. \<not> occurs_at pat text k | Some i \<Rightarrow> \<exists>k. i = index + k \<and> first_at pat text k"
  proof (cases r)
    case None
    then show ?thesis using r(2) ends by (fastforce simp: found_def)
  next
    case (Some i)
    then obtain u where u: "u \<le> length text" "i + length pat = index + u" "suffix pat (take u text)"
        "\<And>v. 0 < v \<Longrightarrow> v < u \<Longrightarrow> \<not> suffix pat (take v text)"
      using r(2) by (auto simp: found_def)
    then have occ: "length pat \<le> u" "occurs_at pat text (u - length pat)" using suffix_occurs by blast+
    have "\<not> occurs_at pat text j" if "j < u - length pat" for j
      using ends [of j] u(4) [of "j + length pat"] that by auto
    then show ?thesis using occ u(2) unfolding Some option.case first_at_def
      by (intro exI [of _ "u - length pat"]) auto
  qed
  then show ?thesis using r(1) by blast
qed

definition literal_ok :: "TextSegmentPlan \<Rightarrow> bool" where
  "literal_ok seg \<longleftrightarrow> tsp_literal seg \<noteq> [] \<and> tsp_prefix_table seg = PrefixTable (tsp_literal seg)"

lemma FindTextLiteral_first:
  assumes "literal_ok seg" "start \<le> length input"
  shows "\<exists>r. FindTextLiteral input start limit seg = Some r \<and>
    (\<forall>i. r = Some i \<longleftrightarrow> (\<exists>k \<le> limit. i = start + k \<and> first_at (tsp_literal seg) (drop start input) k))"
proof -
  let ?pat = "tsp_literal seg"
  define window where "window = take (limit + length ?pat) (drop start input)"
  have pat: "?pat \<noteq> []" "tsp_prefix_table seg = PrefixTable ?pat" using assms(1) by (simp_all add: literal_ok_def)
  from FindLiteral_loop_first [OF pat(1), of window start] obtain r
    where r: "FindLiteral_loop ?pat (PrefixTable ?pat) window start 0 = Some r"
      and f: "case r of None \<Rightarrow> \<forall>k. \<not> occurs_at ?pat window k | Some i \<Rightarrow> \<exists>k. i = start + k \<and> first_at ?pat window k" by blast
  have w: "first_at ?pat window k \<longleftrightarrow> first_at ?pat (drop start input) k \<and> k \<le> limit" for k
    by (auto simp: first_at_def window_def occurs_at_take)
  have "drop start (take (if limit \<le> length input - start \<and> length ?pat \<le> length input - start - limit
      then start + limit + length ?pat else length input) input) = window"
    by (auto simp: window_def drop_take add.assoc)
  then have "FindTextLiteral input start limit seg = Some r"
    using r pat assms(2) kmp.table_length [of ?pat] by (simp add: FindTextLiteral_def Let_def)
  moreover have "r = Some i \<longleftrightarrow> (\<exists>k \<le> limit. i = start + k \<and> first_at ?pat (drop start input) k)" for i
  proof (cases r)
    case None
    then have "\<not> first_at ?pat window k" for k using f by (simp add: first_at_def)
    then show ?thesis using None w by auto
  next
    case (Some i')
    then obtain k where "i' = start + k" "first_at ?pat window k" using f by auto
    then show ?thesis using Some w first_at_unique by (metis option.inject)
  qed
  ultimately show ?thesis by blast
qed

lemma FindTextLiteral_iff:
  assumes "literal_ok seg" "start \<le> length input"
  shows "FindTextLiteral input start limit seg = Some (Some i) \<longleftrightarrow>
    (\<exists>k \<le> limit. i = start + k \<and> first_at (tsp_literal seg) (drop start input) k)"
  using FindTextLiteral_first [OF assms, of limit] by (metis option.inject)

lemma FindFirstAcrossBoundary_first:
  assumes "literal_ok seg"
  shows "\<exists>k. FindFirstAcrossBoundary v seg = Some (Some k) \<and> first_at (tsp_literal seg) (v @ tsp_literal seg) k"
proof -
  let ?pat = "tsp_literal seg"
  have "occurs_at ?pat (v @ ?pat) (length v)" by (simp add: occurs_at_def)
  then show ?thesis
    using FindLiteral_loop_first [of ?pat "v @ ?pat" 0] assms
    by (auto simp: FindFirstAcrossBoundary_def literal_ok_def split: option.splits)
qed

section \<open>Text records as sequences of pieces\<close>

text \<open>What the segments of an action mean: the record is the concatenation of one piece for each segment.  The
  piece of a literal is the literal.  The piece of a field has an admissible length, and one of variable
  length ends where the following literal occurs for the first time.\<close>

definition field_piece :: "FieldExecutionPlan \<Rightarrow> TextSegmentPlan list \<Rightarrow> u8 list \<Rightarrow> bool" where
  "field_piece field following p \<longleftrightarrow>
     fe_text_min_length field \<le> length p \<and> length p \<le> fe_text_max_length field \<and>
     (fe_text_min_length field \<noteq> fe_text_max_length field \<longrightarrow>
        (case following of [] \<Rightarrow> True
         | t # _ \<Rightarrow> first_at (tsp_literal t) (p @ tsp_literal t) (length p)))"

fun text_pieces :: "MessageExecutionPlan \<Rightarrow> TextSegmentPlan list \<Rightarrow> u8 list list \<Rightarrow> bool" where
  "text_pieces m [] ps \<longleftrightarrow> ps = []"
| "text_pieces m (segment # following) [] \<longleftrightarrow> False"
| "text_pieces m (segment # following) (p # ps) \<longleftrightarrow>
     (if tsp_kind segment = TS_LITERAL then p = tsp_literal segment
      else field_piece (me_fields m ! tsp_field_index segment) following p) \<and>
     text_pieces m following ps"

fun pieces_allowed :: "MessageExecutionPlan \<Rightarrow> TextSegmentPlan list \<Rightarrow> u8 list list \<Rightarrow> bool" where
  "pieces_allowed m (segment # following) (p # ps) \<longleftrightarrow>
     (tsp_kind segment = TS_LITERAL \<or>
      list_all (IsAllowedAscii (me_fields m ! tsp_field_index segment)) p) \<and>
     pieces_allowed m following ps"
| "pieces_allowed m _ _ \<longleftrightarrow> True"

text \<open>The visits of a walk: field index, offset and length.\<close>

fun visits :: "nat \<Rightarrow> TextSegmentPlan list \<Rightarrow> u8 list list \<Rightarrow> (nat \<times> nat \<times> nat) list" where
  "visits cursor (segment # following) (p # ps) =
     (if tsp_kind segment = TS_LITERAL then [] else [(tsp_field_index segment, cursor, length p)]) @
     visits (cursor + length p) following ps"
| "visits cursor _ _ = []"

fun run_visits :: "(nat \<Rightarrow> nat \<Rightarrow> nat \<Rightarrow> 's \<Rightarrow> bool \<times> 's) \<Rightarrow> (nat \<times> nat \<times> nat) list \<Rightarrow> 's \<Rightarrow> bool \<times> 's" where
  "run_visits visitor [] s = (True, s)"
| "run_visits visitor ((i, c, n) # vs) s =
     (case visitor i c n s of (accepted, s) \<Rightarrow> if accepted then run_visits visitor vs s else (False, s))"

text \<open>The segments the plan builder lets through.\<close>

fun segments_ok :: "MessageExecutionPlan \<Rightarrow> TextSegmentPlan list \<Rightarrow> bool" where
  "segments_ok m [] \<longleftrightarrow> True"
| "segments_ok m (segment # following) \<longleftrightarrow>
     (if tsp_kind segment = TS_LITERAL then literal_ok segment
      else tsp_field_index segment < length (me_fields m) \<and>
           (fe_text_min_length (me_fields m ! tsp_field_index segment) =
              fe_text_max_length (me_fields m ! tsp_field_index segment) \<or>
            (case following of [] \<Rightarrow> True | t # _ \<Rightarrow> tsp_kind t = TS_LITERAL))) \<and>
     segments_ok m following"

lemma first_at_append: "first_at pat (p @ pat @ others) (length p) \<longleftrightarrow> first_at pat (p @ pat) (length p)"
proof -
  have "p @ pat = take (length p + length pat) (p @ pat @ others)" by simp
  then have "occurs_at pat (p @ pat) k \<longleftrightarrow> occurs_at pat (p @ pat @ others) k \<and> k \<le> length p" for k
    by (simp only: occurs_at_take) linarith
  then show ?thesis by (auto simp: first_at_def)
qed

lemma FieldLength_piece:
  assumes rest: "drop cursor input = p @ tail" "cursor \<le> length input" and p: "field_piece field following p"
    and v: "fe_text_min_length field \<noteq> fe_text_max_length field \<Longrightarrow>
      (case following of [] \<Rightarrow> tail = []
       | t # _ \<Rightarrow> tsp_kind t = TS_LITERAL \<and> literal_ok t \<and> (\<exists>others. tail = tsp_literal t @ others))"
  shows "FieldLength field following input cursor = Some (FX_Length (length p))"
proof -
  have len: "length input - cursor = length p + length tail" using arg_cong [OF rest(1), of length] by simp
  show ?thesis
  proof (cases "fe_text_min_length field = fe_text_max_length field")
    case True
    then show ?thesis using p len by (simp add: FieldLength_def field_piece_def)
  next
    case False
    show ?thesis
    proof (cases following)
      case Nil
      then show ?thesis using v [OF False] len by (simp add: FieldLength_def False)
    next
      case (Cons t ts)
      then obtain others where t: "tsp_kind t = TS_LITERAL" "literal_ok t" "tail = tsp_literal t @ others"
        using v [OF False] by auto
      have "first_at (tsp_literal t) (drop cursor input) (length p)"
        using p False by (simp add: rest(1) t(3) field_piece_def Cons first_at_append)
      moreover have "length p \<le> fe_text_max_length field" using p by (simp add: field_piece_def)
      ultimately have "FindTextLiteral input cursor (fe_text_max_length field) t = Some (Some (cursor + length p))"
        using FindTextLiteral_iff [OF t(2) rest(2)] by blast
      then show ?thesis using t(1) False by (simp add: FieldLength_def Cons)
    qed
  qed
qed

lemma FieldLength_total:
  assumes "cursor \<le> length input" "\<And>t ts. following = t # ts \<Longrightarrow> tsp_kind t = TS_LITERAL \<Longrightarrow> literal_ok t"
  shows "\<exists>x. FieldLength field following input cursor = Some x"
proof (cases following)
  case (Cons t ts)
  show ?thesis
  proof (cases "tsp_kind t = TS_LITERAL")
    case True
    then show ?thesis
      using FindTextLiteral_first [OF assms(2) [OF Cons True] assms(1), of "fe_text_max_length field"] Cons
      by (auto simp: FieldLength_def split: option.splits)
  qed (simp add: FieldLength_def Cons)
qed (simp add: FieldLength_def)

lemma FieldLength_found:
  assumes l: "FieldLength field following input cursor = Some (FX_Length n)" and c: "cursor \<le> length input"
    and n: "fe_text_min_length field \<le> n" "n \<le> fe_text_max_length field"
    and lit: "\<And>t ts. following = t # ts \<Longrightarrow> tsp_kind t = TS_LITERAL \<Longrightarrow> literal_ok t"
  shows "cursor + n \<le> length input \<and>
    (fe_text_min_length field \<noteq> fe_text_max_length field \<longrightarrow>
      (case following of [] \<Rightarrow> cursor + n = length input
       | t # _ \<Rightarrow> first_at (tsp_literal t) (drop cursor input) n))"
proof (cases "fe_text_min_length field = fe_text_max_length field")
  case True
  then show ?thesis using l c by (auto simp: FieldLength_def split: if_splits)
next
  case False
  show ?thesis
  proof (cases following)
    case Nil
    then show ?thesis using l c False by (auto simp: FieldLength_def)
  next
    case (Cons t ts)
    then have t: "tsp_kind t = TS_LITERAL" using l False by (auto simp: FieldLength_def split: if_splits)
    obtain i where i: "FindTextLiteral input cursor (fe_text_max_length field) t = Some (Some i)" "n = i - cursor"
      using l False t by (auto simp: FieldLength_def Cons split: option.splits)
    then have "first_at (tsp_literal t) (drop cursor input) n"
      using FindTextLiteral_iff [OF lit [OF Cons t] c] by fastforce
    then show ?thesis using c by (auto simp: Cons first_at_def occurs_at_def)
  qed
qed

lemma FieldLength_stop: "FieldLength field following input cursor \<noteq> Some (FX_Stop TW_MATCH)"
  by (auto simp: FieldLength_def split: list.splits option.splits)

lemma segments_ok_next: "segments_ok m following \<Longrightarrow> following = t # ts \<Longrightarrow> tsp_kind t = TS_LITERAL \<Longrightarrow> literal_ok t"
  by auto

lemma drop_append_cursor: "drop cursor input = p @ tail \<Longrightarrow> drop (cursor + length p) input = tail"
  by (metis add.commute append_eq_conv_conj drop_drop)

lemma drop_length_le:
  assumes "drop cursor input = p @ tail" "cursor \<le> length input"
  shows "cursor + length p \<le> length input"
proof -
  have "length input - cursor = length p + length tail" using assms(1) by (metis length_append length_drop)
  then show ?thesis using assms(2) by linarith
qed

lemma Walk_loop_total:
  "segments_ok m segs \<Longrightarrow> cursor \<le> length input \<Longrightarrow> \<exists>r. Walk_loop m input v visitor segs cursor s = Some r"
proof (induction segs arbitrary: cursor s)
  case (Cons seg segs)
  have ok: "segments_ok m segs" using Cons.prems(1) by simp
  show ?case
  proof (cases "tsp_kind seg = TS_LITERAL")
    case True
    then show ?thesis
      using Cons.IH [OF ok, of "cursor + length (tsp_literal seg)"] Cons.prems(2)
      by (cases "cursor + length (tsp_literal seg) \<le> length input") (auto simp: Let_def)
  next
    case False
    let ?field = "me_fields m ! tsp_field_index seg"
    obtain x where x: "FieldLength ?field segs input cursor = Some x"
      using FieldLength_total [OF Cons.prems(2)] segments_ok_next [OF ok] by blast
    show ?thesis
    proof (cases x)
      case (FX_Length n)
      show ?thesis
      proof (cases "n < fe_text_min_length ?field \<or> n > fe_text_max_length ?field")
        case False
        then have "cursor + n \<le> length input"
          using FieldLength_found [OF x [unfolded FX_Length] Cons.prems(2)] segments_ok_next [OF ok] by fastforce
        from Cons.IH [OF ok this] show ?thesis
          using x FX_Length False \<open>tsp_kind seg \<noteq> TS_LITERAL\<close> by (auto simp: Let_def split: prod.split)
      qed (use x FX_Length False in \<open>auto simp: Let_def\<close>)
    qed (use x False in \<open>auto simp: Let_def\<close>)
  qed
qed simp

lemma Walk_literal:
  assumes "tsp_kind seg = TS_LITERAL" "literal_ok seg"
  shows "Walk_loop m input v visitor (seg # segs) cursor s = Some (TW_MATCH, s') \<longleftrightarrow>
    (\<exists>tail. drop cursor input = tsp_literal seg @ tail) \<and>
    Walk_loop m input v visitor segs (cursor + length (tsp_literal seg)) s = Some (TW_MATCH, s')"
proof -
  let ?lit = "tsp_literal seg"
  have "?lit \<noteq> []" using assms(2) by (simp add: literal_ok_def)
  moreover have "(\<exists>tail. drop cursor input = ?lit @ tail) \<longleftrightarrow>
      length ?lit \<le> length input - cursor \<and> take (length ?lit) (drop cursor input) = ?lit"
    by (metis append_eq_conv_conj append_take_drop_id length_append length_drop le_add1)
  ultimately show ?thesis using assms(1) by (auto simp: Let_def)
qed

lemma field_piece_next:
  assumes ok: "segments_ok m (seg # segs)" "tsp_kind seg \<noteq> TS_LITERAL" and ps: "text_pieces m segs ps"
    and v: "fe_text_min_length (me_fields m ! tsp_field_index seg) \<noteq> fe_text_max_length (me_fields m ! tsp_field_index seg)"
  shows "case segs of [] \<Rightarrow> concat ps = []
       | t # _ \<Rightarrow> tsp_kind t = TS_LITERAL \<and> literal_ok t \<and> (\<exists>others. concat ps = tsp_literal t @ others)"
proof (cases segs)
  case (Cons t ts)
  then have "tsp_kind t = TS_LITERAL" "literal_ok t" using ok v by auto
  moreover from this obtain p qs where "ps = p # qs" "p = tsp_literal t"
    using ps Cons by (cases ps) auto
  ultimately show ?thesis using Cons by auto
qed (use ps in simp)

lemma Walk_loop_iff:
  "segments_ok m segs \<Longrightarrow> cursor \<le> length input \<Longrightarrow>
   Walk_loop m input v visitor segs cursor s = Some (TW_MATCH, s') \<longleftrightarrow>
   (\<exists>ps. text_pieces m segs ps \<and> drop cursor input = concat ps \<and> (v \<longrightarrow> pieces_allowed m segs ps) \<and>
         run_visits visitor (visits cursor segs ps) s = (True, s'))"
proof (induction segs arbitrary: cursor s)
  case Nil
  then show ?case by auto
next
  case (Cons seg segs)
  have ok: "segments_ok m segs" using Cons.prems(1) by simp
  let ?right = "\<lambda>cursor segs s ps. text_pieces m segs ps \<and> drop cursor input = concat ps \<and>
     (v \<longrightarrow> pieces_allowed m segs ps) \<and> run_visits visitor (visits cursor segs ps) s = (True, s')"
  have split: "(\<exists>ps. ?right cursor (seg # segs) s ps) \<longleftrightarrow> (\<exists>p ps. ?right cursor (seg # segs) s (p # ps))"
    by (metis neq_Nil_conv text_pieces.simps(2))
  show ?case
  proof (cases "tsp_kind seg = TS_LITERAL")
    case True
    then have lit: "literal_ok seg" using Cons.prems(1) by simp
    let ?c = "cursor + length (tsp_literal seg)"
    have ih: "Walk_loop m input v visitor segs ?c s = Some (TW_MATCH, s') \<longleftrightarrow> (\<exists>ps. ?right ?c segs s ps)"
      if "drop cursor input = tsp_literal seg @ tail" for tail
      using drop_length_le [OF that Cons.prems(2)] by (intro Cons.IH [OF ok])
    show ?thesis
    proof
      assume "Walk_loop m input v visitor (seg # segs) cursor s = Some (TW_MATCH, s')"
      then obtain tail where tail: "drop cursor input = tsp_literal seg @ tail"
          and w: "Walk_loop m input v visitor segs ?c s = Some (TW_MATCH, s')"
        unfolding Walk_literal [OF True lit] by blast
      then obtain ps where ps: "?right ?c segs s ps" using ih by blast
      then have "concat ps = tail" using drop_append_cursor [OF tail] by simp
      then have "?right cursor (seg # segs) s (tsp_literal seg # ps)" using True ps tail by simp
      then show "\<exists>ps. ?right cursor (seg # segs) s ps" by blast
    next
      assume "\<exists>ps. ?right cursor (seg # segs) s ps"
      then obtain p ps where r: "?right cursor (seg # segs) s (p # ps)" using split by blast
      then have tail: "drop cursor input = tsp_literal seg @ concat ps" using True by simp
      have "?right ?c segs s ps" using r True drop_append_cursor [OF tail] by auto
      then show "Walk_loop m input v visitor (seg # segs) cursor s = Some (TW_MATCH, s')"
        unfolding Walk_literal [OF True lit] using ih [OF tail] tail by blast
    qed
  next
    case False
    let ?field = "me_fields m ! tsp_field_index seg"
    have idx: "tsp_field_index seg < length (me_fields m)" using Cons.prems(1) False by simp
    show ?thesis
    proof
      assume w: "Walk_loop m input v visitor (seg # segs) cursor s = Some (TW_MATCH, s')"
      then obtain n s1 where n: "FieldLength ?field segs input cursor = Some (FX_Length n)"
          "fe_text_min_length ?field \<le> n" "n \<le> fe_text_max_length ?field"
          "v \<Longrightarrow> list_all (IsAllowedAscii ?field) (take n (drop cursor input))"
          "visitor (tsp_field_index seg) cursor n s = (True, s1)"
          "Walk_loop m input v visitor segs (cursor + n) s1 = Some (TW_MATCH, s')"
        using False idx
        by (auto simp: Let_def not_less FieldLength_stop split: option.splits FieldExtent.splits if_splits prod.splits)
      have f: "cursor + n \<le> length input"
        "fe_text_min_length ?field \<noteq> fe_text_max_length ?field \<Longrightarrow>
          (case segs of [] \<Rightarrow> cursor + n = length input | t # _ \<Rightarrow> first_at (tsp_literal t) (drop cursor input) n)"
        using FieldLength_found [OF n(1) Cons.prems(2) n(2,3)] segments_ok_next [OF ok] by blast+
      from Cons.IH [OF ok f(1)] n(6) obtain ps where ps: "?right (cursor + n) segs s1 ps" by blast
      define p where "p = take n (drop cursor input)"
      have len: "length p = n" using f(1) by (simp add: p_def)
      have cut: "drop cursor input = p @ concat ps" using ps unfolding p_def by (metis append_take_drop_id add.commute drop_drop)
      have "field_piece ?field segs p"
        unfolding field_piece_def len
      proof (intro conjI impI n(2,3))
        assume var: "fe_text_min_length ?field \<noteq> fe_text_max_length ?field"
        show "case segs of [] \<Rightarrow> True | t # _ \<Rightarrow> first_at (tsp_literal t) (p @ tsp_literal t) n"
        proof (cases segs)
          case (Cons t ts)
          then obtain others where "concat ps = tsp_literal t @ others"
            using field_piece_next [OF \<open>segments_ok m (seg # segs)\<close> False _ var] ps by auto
          then have "drop cursor input = p @ tsp_literal t @ others" using cut by simp
          moreover have "first_at (tsp_literal t) (drop cursor input) (length p)" using f(2) [OF var] Cons len by simp
          ultimately have "first_at (tsp_literal t) (p @ tsp_literal t) (length p)" by (simp only: first_at_append)
          then show ?thesis using Cons len by simp
        qed simp
      qed
      then have "text_pieces m (seg # segs) (p # ps)" using ps False by simp
      moreover have "v \<longrightarrow> pieces_allowed m (seg # segs) (p # ps)" using n(4) ps by (simp add: p_def)
      moreover have "run_visits visitor (visits cursor (seg # segs) (p # ps)) s = (True, s')"
        using ps n(5) False len by simp
      moreover have "drop cursor input = concat (p # ps)" using cut by simp
      ultimately show "\<exists>ps. ?right cursor (seg # segs) s ps" by blast
    next
      assume "\<exists>ps. ?right cursor (seg # segs) s ps"
      then obtain p ps where r: "?right cursor (seg # segs) s (p # ps)" using split by blast
      then have p: "field_piece ?field segs p" "text_pieces m segs ps" "drop cursor input = p @ concat ps"
        using False by simp_all
      have l: "FieldLength ?field segs input cursor = Some (FX_Length (length p))"
        using field_piece_next [OF Cons.prems(1) False p(2)]
        by (intro FieldLength_piece [OF p(3) Cons.prems(2) p(1)]) auto
      obtain s1 where s1: "visitor (tsp_field_index seg) cursor (length p) s = (True, s1)"
          "run_visits visitor (visits (cursor + length p) segs ps) s1 = (True, s')"
        using r False by (auto split: prod.splits if_splits)
      have "?right (cursor + length p) segs s1 ps"
        using r s1 False drop_append_cursor [OF p(3)] by auto
      then have "Walk_loop m input v visitor segs (cursor + length p) s1 = Some (TW_MATCH, s')"
        using Cons.IH [OF ok drop_length_le [OF p(3) Cons.prems(2)]] by blast
      then show "Walk_loop m input v visitor (seg # segs) cursor s = Some (TW_MATCH, s')"
        using False idx l s1(1) p r by (auto simp: Let_def field_piece_def)
    qed
  qed
qed

lemma text_pieces_unique:
  "segments_ok m segs \<Longrightarrow> text_pieces m segs ps \<Longrightarrow> text_pieces m segs qs \<Longrightarrow> concat ps = concat qs \<Longrightarrow> ps = qs"
proof (induction segs arbitrary: ps qs)
  case (Cons seg segs)
  obtain p ps' where p: "ps = p # ps'" using Cons.prems(2) by (cases ps) auto
  obtain q qs' where q: "qs = q # qs'" using Cons.prems(3) by (cases qs) auto
  have rest: "text_pieces m segs ps'" "text_pieces m segs qs'" "segments_ok m segs"
    using Cons.prems(1-3) p q by simp_all
  have "p = q"
  proof (cases "tsp_kind seg = TS_LITERAL")
    case True
    then show ?thesis using Cons.prems(2,3) p q by simp
  next
    case False
    let ?field = "me_fields m ! tsp_field_index seg"
    have pieces: "field_piece ?field segs p" "field_piece ?field segs q"
      using Cons.prems(2,3) p q False by simp_all
    have "length p = length q"
    proof (cases "fe_text_min_length ?field = fe_text_max_length ?field")
      case True
      then show ?thesis using pieces by (simp add: field_piece_def)
    next
      case var: False
      note next_p = field_piece_next [OF Cons.prems(1) False rest(1) var]
        and next_q = field_piece_next [OF Cons.prems(1) False rest(2) var]
      show ?thesis
      proof (cases segs)
        case Nil
        then have "concat ps' = []" "concat qs' = []" using next_p next_q by (simp_all only: list.case)
        then show ?thesis using Cons.prems(4) p q by (simp only: concat.simps append_Nil2)
      next
        case (Cons t ts)
        then obtain xs ys where tails: "concat ps' = tsp_literal t @ xs" "concat qs' = tsp_literal t @ ys"
          using next_p next_q by auto
        have "first_at (tsp_literal t) (p @ tsp_literal t) (length p)" "first_at (tsp_literal t) (q @ tsp_literal t) (length q)"
          using pieces var Cons by (simp_all add: field_piece_def)
        then have "first_at (tsp_literal t) (concat ps) (length p)" "first_at (tsp_literal t) (concat qs) (length q)"
          by (simp_all add: p q tails first_at_append)
        then show ?thesis using \<open>concat ps = concat qs\<close> first_at_unique by metis
      qed
    qed
    then show ?thesis using Cons.prems(4) p q by simp
  qed
  then show ?case using Cons.IH [OF rest(3,1,2)] Cons.prems(4) p q by simp
qed simp

definition action_ok :: "MessageExecutionPlan \<Rightarrow> TextActionPlan \<Rightarrow> bool" where
  "action_ok m action \<longleftrightarrow> tap_segments action \<noteq> [] \<and> segments_ok m (tap_segments action)"

lemma WalkTextAction_iff:
  assumes "action_ok m action"
  shows "WalkTextAction action m input v visitor s = Some (TW_MATCH, s') \<longleftrightarrow>
    tap_min_record_length action \<le> length input \<and> length input \<le> tap_max_record_length action \<and>
    (\<exists>ps. text_pieces m (tap_segments action) ps \<and> input = concat ps \<and>
       (v \<longrightarrow> pieces_allowed m (tap_segments action) ps) \<and>
       run_visits visitor (visits 0 (tap_segments action) ps) s = (True, s'))"
  using assms Walk_loop_iff [of m "tap_segments action" 0 input v visitor s s']
  by (auto simp: WalkTextAction_def action_ok_def not_less)

lemma WalkTextAction_total: "action_ok m action \<Longrightarrow> \<exists>r. WalkTextAction action m input v visitor s = Some r"
  using Walk_loop_total [of m "tap_segments action" 0 input] by (auto simp: WalkTextAction_def action_ok_def)

lemma run_accept_all: "run_visits accept_all vs () = (True, ())"
  by (induction vs) (auto simp: accept_all_def)

definition text_record :: "MessageExecutionPlan \<Rightarrow> TextActionPlan \<Rightarrow> u8 list \<Rightarrow> u8 list list \<Rightarrow> bool" where
  "text_record m action input ps \<longleftrightarrow>
     tap_min_record_length action \<le> length input \<and> length input \<le> tap_max_record_length action \<and>
     text_pieces m (tap_segments action) ps \<and> input = concat ps"

lemma text_record_unique: "action_ok m action \<Longrightarrow> text_record m action input ps \<Longrightarrow> text_record m action input qs \<Longrightarrow> ps = qs"
  unfolding text_record_def action_ok_def using text_pieces_unique by metis

lemma TextMessageMatches_iff:
  assumes "me_text_decode m = Some action" "action_ok m action"
  shows "TextMessageMatches m input = Some (\<exists>ps. text_record m action input ps)"
proof -
  obtain status s where w: "WalkTextAction action m input False accept_all () = Some (status, s)"
    using WalkTextAction_total [OF assms(2), of input False accept_all "()"] by auto
  have "status = TW_MATCH \<longleftrightarrow> (\<exists>ps. text_record m action input ps)"
    using WalkTextAction_iff [OF assms(2), of input False accept_all "()" "()"] w run_accept_all
    by (auto simp: text_record_def)
  then show ?thesis by (simp add: TextMessageMatches_def assms(1) w)
qed

section \<open>The match of a pipeline\<close>

definition binary_candidates :: "PipelineExecutionPlan \<Rightarrow> nat \<Rightarrow> nat list" where
  "binary_candidates pipeline n =
     concat (map cg_message_indices (filter (\<lambda>g. cg_frame_size g = n) (pe_candidate_groups pipeline))) @
     pe_variable_message_indices pipeline"

definition matching :: "PipelineExecutionPlan \<Rightarrow> MessageExecutionPlan list \<Rightarrow> u8 list \<Rightarrow> nat list" where
  "matching pipeline messages input =
     filter (\<lambda>i. MessageMatches (messages ! i) input) (binary_candidates pipeline (length input)) @
     filter (\<lambda>i. TextMessageMatches (messages ! i) input = Some True) (pe_text_message_indices pipeline)"

text \<open>What an outcome says about the messages that were found.\<close>

definition outcome_of :: "nat list \<Rightarrow> MatchOutcome" where
  "outcome_of found_messages =
     \<lparr>mo_message_index = (case found_messages of [] \<Rightarrow> kInvalidIndex | i # _ \<Rightarrow> i), mo_match_count = length found_messages\<rparr>"

definition text_messages_ok :: "MessageExecutionPlan list \<Rightarrow> nat list \<Rightarrow> bool" where
  "text_messages_ok messages indices \<longleftrightarrow>
     (\<forall>i \<in> set indices. \<forall>action. me_text_decode (messages ! i) = Some action \<longrightarrow> action_ok (messages ! i) action)"

lemma count_match_outcome: "count_match i (outcome_of is) = outcome_of (is @ [i])"
  by (cases "is") (simp_all add: count_match_def outcome_of_def)

lemma examine_outcome: "examine matched candidates (outcome_of is) = outcome_of (is @ filter matched candidates)"
  by (induction candidates arbitrary: "is") (simp_all add: examine_def count_match_outcome)

lemma examine_text_outcome:
  "text_messages_ok messages candidates \<Longrightarrow>
   examine_text messages input candidates (outcome_of is) =
     Some (outcome_of (is @ filter (\<lambda>i. TextMessageMatches (messages ! i) input = Some True) candidates))"
proof (induction candidates arbitrary: "is")
  case (Cons i candidates)
  have ih: "examine_text messages input candidates (outcome_of js) =
     Some (outcome_of (js @ filter (\<lambda>i. TextMessageMatches (messages ! i) input = Some True) candidates))" for js
    using Cons.prems by (intro Cons.IH) (simp add: text_messages_ok_def)
  have "TextMessageMatches (messages ! i) input \<noteq> None"
  proof (cases "me_text_decode (messages ! i)")
    case (Some action)
    then show ?thesis using Cons.prems TextMessageMatches_iff [OF Some] by (simp add: text_messages_ok_def)
  qed (simp add: TextMessageMatches_def)
  then obtain b where "TextMessageMatches (messages ! i) input = Some b" by blast
  then show ?case using ih by (auto simp: count_match_outcome)
qed simp

lemma filter_one: "x \<in> set xs \<Longrightarrow> P x \<Longrightarrow> (\<And>y. y \<in> set xs \<Longrightarrow> P y \<Longrightarrow> y = x) \<Longrightarrow> distinct xs \<Longrightarrow> filter P xs = [x]"
proof (induction xs)
  case (Cons y ys)
  show ?case
  proof (cases "P y")
    case True
    then have "y = x" using Cons.prems(3) by simp
    then have "filter P ys = []" using Cons.prems(3,4) by (auto simp: filter_empty_conv)
    then show ?thesis using True \<open>y = x\<close> by simp
  next
    case False
    then have "x \<in> set ys" using Cons.prems(1,2) by auto
    then have "filter P ys = [x]" using Cons.prems by (intro Cons.IH) simp_all
    then show ?thesis using False by simp
  qed
qed simp

lemma FindPipelineMatch_outcome:
  assumes "groups_sorted pipeline" "text_messages_ok messages (pe_text_message_indices pipeline)"
  shows "FindPipelineMatch pipeline messages input = Some (outcome_of (matching pipeline messages input))"
proof -
  let ?gs = "pe_candidate_groups pipeline" and ?n = "length input"
  let ?matched = "\<lambda>i. MessageMatches (messages ! i) input"
  have dist: "distinct ?gs"
    using assms(1) by (simp add: groups_sorted_def strict_sorted_iff distinct_map)
  have start: "\<lparr>mo_message_index = kInvalidIndex, mo_match_count = 0\<rparr> = outcome_of []"
    by (simp add: outcome_of_def)
  have group: "(case FindCandidateGroup pipeline ?n of None \<Rightarrow> outcome_of []
      | Some candidates \<Rightarrow> examine ?matched (cg_message_indices candidates) (outcome_of [])) =
    outcome_of (filter ?matched (concat (map cg_message_indices (filter (\<lambda>g. cg_frame_size g = ?n) ?gs))))"
  proof (cases "FindCandidateGroup pipeline ?n")
    case None
    then have "filter (\<lambda>g. cg_frame_size g = ?n) ?gs = []"
      using FindCandidateGroup_iff [OF assms(1), of ?n] by (auto simp: filter_empty_conv)
    then show ?thesis by (simp only: None option.case list.map concat.simps filter.simps)
  next
    case (Some g)
    then have "g \<in> set ?gs" "cg_frame_size g = ?n"
        "\<And>h. h \<in> set ?gs \<Longrightarrow> cg_frame_size h = ?n \<Longrightarrow> h = g"
      using FindCandidateGroup_iff [OF assms(1), of ?n] by (metis, metis, metis option.inject)
    then have "filter (\<lambda>g. cg_frame_size g = ?n) ?gs = [g]" using dist by (intro filter_one)
    then show ?thesis by (simp add: Some examine_outcome)
  qed
  show ?thesis
    unfolding FindPipelineMatch_def Let_def start group
    by (simp add: examine_outcome examine_text_outcome [OF assms(2)] matching_def binary_candidates_def)
qed

section \<open>Examples\<close>

text \<open>A text message \<open>#...;\<close> with a field of one to three characters.\<close>

definition example_literal :: "u8 \<Rightarrow> TextSegmentPlan" where
  "example_literal b = \<lparr>tsp_kind = TS_LITERAL, tsp_literal = [b], tsp_prefix_table = [0], tsp_field_index = 0\<rparr>"

definition example_action :: TextActionPlan where
  "example_action = \<lparr>tap_segments = [example_literal 0x23,
       \<lparr>tsp_kind = TS_FIELD, tsp_literal = [], tsp_prefix_table = [], tsp_field_index = 0\<rparr>, example_literal 0x3B],
     tap_min_record_length = 3, tap_max_record_length = 5\<rparr>"

definition example_text_field :: FieldExecutionPlan where
  "example_text_field = example_length_field
     \<lparr>fe_input_ordinal := 0, fe_value_type := VT_BYTES, fe_encode_source := ES_INPUT, fe_text_min_length := 1, fe_text_max_length := 3,
      fe_allowed_ascii_low := 0x03FF000000000000, fe_text_encode_input := True\<rparr>"

definition example_text_message :: MessageExecutionPlan where
  "example_text_message = \<lparr>me_frame_size = 5, me_required_input_count = 1, me_integrity = None,
     me_bounded_payload = None, me_computed_length = None, me_fixed_bytes = [], me_bit_containers = [],
     me_fields = [example_text_field], me_enum_raw_values = [], me_enum_lookup_entries = [],
     me_text_decode = Some example_action, me_text_encode = Some example_action, me_text_decode_field_count = 1\<rparr>"

definition example_pipeline :: PipelineExecutionPlan where
  "example_pipeline = \<lparr>pe_framing_profile_index = 0, pe_allowed_message_words = [1], pe_candidate_groups = [],
     pe_variable_message_indices = [0], pe_text_message_indices = []\<rparr>"

lemma example_literal_ok: "literal_ok (example_literal b)"
  by (simp add: literal_ok_def example_literal_def PrefixTable_def BuildPrefixTable_def)

lemma example_action_ok: "action_ok example_text_message example_action"
  by (simp add: action_ok_def example_action_def example_literal_ok example_text_message_def)
    (simp add: example_literal_def)

lemma example_text_record:
  "text_record example_text_message example_action [0x23, 0x31, 0x32, 0x3B] [[0x23], [0x31, 0x32], [0x3B]]"
proof -
  have "first_at [0x3B] ([0x31, 0x32] @ [0x3B]) (length [0x31, 0x32 :: u8])"
    by (auto simp: first_at_def occurs_at_def less_Suc_eq)
  then show ?thesis
    by (simp add: text_record_def example_action_def example_literal_def example_text_message_def
        field_piece_def example_text_field_def)
qed

section \<open>Properties\<close>

text \<open>C25. The outcome for a pipeline reports all its candidates that match the record, over candidate groups
  sorted by frame size: their number and the first of them.  So the decoder accepts a record only if exactly one
  candidate of the pipeline matches it.\<close>

theorem pipeline_match_exact:
  assumes "groups_sorted pipeline" "text_messages_ok messages (pe_text_message_indices pipeline)"
  shows "FindPipelineMatch pipeline messages input = Some (outcome_of (matching pipeline messages input))"
  by (rule FindPipelineMatch_outcome [OF assms])

theorem pipeline_match_exact_witness:
  "FindPipelineMatch example_pipeline [example_message] example_record =
     Some \<lparr>mo_message_index = 0, mo_match_count = 1\<rparr>"
  using pipeline_match_exact [of example_pipeline "[example_message]" example_record]
  by (simp add: example_pipeline_def groups_sorted_def text_messages_ok_def matching_def binary_candidates_def
      example_defs MessageMatches_def outcome_of_def)

text \<open>C27. The walk through the segments of a text message, with its prefix-table searches, always returns, and it
  accepts a record exactly when the record is the concatenation of one admissible piece for each segment; there
  is then only one way to cut it.\<close>

theorem text_match_exact:
  assumes "me_text_decode m = Some action" "action_ok m action"
  shows "TextMessageMatches m input = Some (\<exists>ps. text_record m action input ps) \<and>
    (TextMessageMatches m input = Some True \<longrightarrow> (\<exists>!ps. text_record m action input ps))"
  using TextMessageMatches_iff [OF assms] text_record_unique [OF assms(2)] by auto

theorem text_match_exact_witness:
  "TextMessageMatches example_text_message [0x23, 0x31, 0x32, 0x3B] = Some True"
  using text_match_exact [OF _ example_action_ok, of "[0x23, 0x31, 0x32, 0x3B]"] example_text_record
  by (auto simp: example_text_message_def)

end
