(* ===== verification/Codec_Types.thy ===== *)
theory Codec_Types
  imports Record_Match
begin

text \<open>
  The data of the record codec, \<^verbatim>\<open>src/src/protocol_core/complete_record_codec.h\<close>, and the
  small functions of \<^verbatim>\<open>complete_record_codec.cpp\<close> on them: address ranges and their overlap, the
  presence words, the conversion of a decimal status, schema versions, the structural match and the workspace.

  A pointer that the code compares is an address, a natural number, 0 for null.  A view or buffer is an address
  and the bytes from there on; its size or capacity is their number.  Counters and fault injection exist only in
  an instrumented build and are left out.
\<close>

section \<open>Statuses and values\<close>

datatype CodecStatus =
  CS_OK | CS_INVALID_ARGUMENT | CS_INVALID_PLAN | CS_WORKSPACE_PLAN_MISMATCH | CS_WORKSPACE_BUSY
| CS_UNKNOWN_MESSAGE | CS_AMBIGUOUS_MESSAGE | CS_OUTPUT_SLOTS_TOO_SMALL | CS_INTEGRITY_FAILED
| CS_MESSAGE_NOT_ALLOWED | CS_FIELD_REFERENCE_MISMATCH | CS_DUPLICATE_FIELD | CS_MISSING_FIELD
| CS_TYPE_MISMATCH | CS_VALUE_NOT_REPRESENTABLE | CS_BYTES_LENGTH_MISMATCH | CS_UNKNOWN_ENUM_VALUE
| CS_ENUM_REFERENCE_MISMATCH | CS_CONSTANT_FIELD_OVERRIDE | CS_INPUT_OUTPUT_OVERLAP | CS_BUFFER_TOO_SMALL
| CS_FINAL_REVIEW_FAILED | CS_INTERNAL_ERROR | CS_ASCII_CHARACTER_NOT_ALLOWED | CS_ASCII_TERMINATOR_CONFLICT
| CS_OPERATION_NOT_SUPPORTED | CS_COMPUTED_FIELD_OVERRIDE | CS_LENGTH_MISMATCH

datatype LogicalValueKind = LK_UINT64 | LK_INT64 | LK_BYTES | LK_ENUM | LK_BOOL | LK_DECIMAL64

datatype ConversionError =
  CE_NONE | CE_DECIMAL_SCALE_OUT_OF_RANGE | CE_RAW_NOT_INTEGRAL | CE_RAW_OUT_OF_RANGE | CE_LOGICAL_OUT_OF_RANGE

datatype RawIntegerKind = RK_UINT64 | RK_INT64

record CodecByteView =
  cv_address :: nat
  cv_bytes :: "u8 list"

record FieldRef =
  fr_plan_scope :: nat
  fr_message_index :: nat
  fr_field_index :: nat

record RawIntegerValue =
  rv_field :: FieldRef
  rv_kind :: RawIntegerKind
  rv_uint64_value :: u64
  rv_int64_value :: i64

record EnumValueRef =
  er_plan_scope :: nat
  er_message_index :: nat
  er_field_index :: nat
  er_entry_index :: nat

record DecodedEnumValue =
  de_known :: bool
  de_raw_value :: u64
  de_reference :: EnumValueRef

record DecodedFieldSlot =
  ds_field :: FieldRef
  ds_value_kind :: LogicalValueKind
  ds_uint64_value :: u64
  ds_int64_value :: i64
  ds_bool_value :: bool
  ds_bytes_value :: CodecByteView
  ds_enum_value :: DecodedEnumValue
  ds_decimal64_value :: Decimal64

record EncodeFieldValue =
  ev_field :: FieldRef
  ev_value_kind :: LogicalValueKind
  ev_uint64_value :: u64
  ev_int64_value :: i64
  ev_bool_value :: bool
  ev_bytes_value :: CodecByteView
  ev_enum_value :: EnumValueRef
  ev_decimal64_value :: Decimal64

record DecodeResult =
  dr_status :: CodecStatus
  dr_message_index :: nat
  dr_field_count :: nat
  dr_required_field_count :: nat
  dr_failed_field_index :: nat
  dr_tainted :: bool
  dr_conversion_error :: ConversionError

record StructuralMatchResult =
  sm_status :: CodecStatus
  sm_message_index :: nat

record EncodeResult =
  en_status :: CodecStatus
  en_bytes_written :: nat
  en_required_size :: nat
  en_failed_value_index :: nat
  en_failed_field_index :: nat
  en_conversion_error :: ConversionError

text \<open>The members as their declarations initialise them.\<close>

definition no_field_ref :: FieldRef where
  "no_field_ref = \<lparr>fr_plan_scope = 0, fr_message_index = kInvalidIndex, fr_field_index = kInvalidIndex\<rparr>"

definition no_enum_ref :: EnumValueRef where
  "no_enum_ref = \<lparr>er_plan_scope = 0, er_message_index = kInvalidIndex, er_field_index = kInvalidIndex,
     er_entry_index = kInvalidIndex\<rparr>"

definition no_slot :: DecodedFieldSlot where
  "no_slot = \<lparr>ds_field = no_field_ref, ds_value_kind = LK_UINT64, ds_uint64_value = 0, ds_int64_value = 0,
     ds_bool_value = False, ds_bytes_value = \<lparr>cv_address = 0, cv_bytes = []\<rparr>,
     ds_enum_value = \<lparr>de_known = False, de_raw_value = 0, de_reference = no_enum_ref\<rparr>,
     ds_decimal64_value = \<lparr>coefficient = 0, scale = 0\<rparr>\<rparr>"

definition no_decode_result :: DecodeResult where
  "no_decode_result = \<lparr>dr_status = CS_INVALID_ARGUMENT, dr_message_index = kInvalidIndex, dr_field_count = 0,
     dr_required_field_count = 0, dr_failed_field_index = kInvalidIndex, dr_tainted = False,
     dr_conversion_error = CE_NONE\<rparr>"

definition no_encode_result :: EncodeResult where
  "no_encode_result = \<lparr>en_status = CS_INVALID_ARGUMENT, en_bytes_written = 0, en_required_size = 0,
     en_failed_value_index = kInvalidIndex, en_failed_field_index = kInvalidIndex, en_conversion_error = CE_NONE\<rparr>"

section \<open>Address ranges\<close>

record AddressRange =
  ar_begin :: nat
  ar_end :: nat

definition GetAddressRange :: "nat \<Rightarrow> nat \<Rightarrow> AddressRange option" where
  "GetAddressRange data n =
     (if n = 0 then Some \<lparr>ar_begin = 0, ar_end = 0\<rparr>
      else if data = 0 then None
      else if n > SIZE_MAX - data then None
      else Some \<lparr>ar_begin = data, ar_end = data + n\<rparr>)"

definition GetArrayAddressRange :: "nat \<Rightarrow> nat \<Rightarrow> nat \<Rightarrow> AddressRange option" where
  "GetArrayAddressRange data count element_size =
     (if element_size \<noteq> 0 \<and> count > SIZE_MAX div element_size then None
      else GetAddressRange data (count * element_size))"

definition RangesOverlap :: "AddressRange \<Rightarrow> AddressRange \<Rightarrow> bool" where
  "RangesOverlap left right =
     (if ar_begin left = ar_end left \<or> ar_begin right = ar_end right then False
      else ar_begin left < ar_end right \<and> ar_begin right < ar_end left)"

section \<open>Presence words\<close>

definition kPresenceWordBits :: nat where
  "kPresenceWordBits = 64"

definition PresenceWordCount :: "nat \<Rightarrow> nat" where
  "PresenceWordCount bit_count =
     bit_count div kPresenceWordBits + (if bit_count mod kPresenceWordBits = 0 then 0 else 1)"

definition IsPresent :: "u64 list \<Rightarrow> nat \<Rightarrow> bool" where
  "IsPresent words ordinal \<longleftrightarrow>
     words ! (ordinal div kPresenceWordBits) AND push_bit (ordinal mod kPresenceWordBits) 1 \<noteq> 0"

definition MarkPresent :: "u64 list \<Rightarrow> nat \<Rightarrow> u64 list" where
  "MarkPresent words ordinal =
     words[ordinal div kPresenceWordBits :=
       words ! (ordinal div kPresenceWordBits) OR push_bit (ordinal mod kPresenceWordBits) 1]"

section \<open>Schema versions\<close>

definition SupportsCompleteRecordSchema :: "string \<Rightarrow> bool" where
  "SupportsCompleteRecordSchema version \<longleftrightarrow>
     version = ''0.1'' \<or> version = ''0.2'' \<or> version = ''0.3'' \<or> version = ''0.4'' \<or> version = ''0.5'' \<or>
     version = ''0.6'' \<or> version = ''0.7'' \<or> version = ''0.8'' \<or> version = ''0.9'' \<or> version = ''0.10'' \<or>
     version = ''0.11''"

text \<open>The versions with conversions, which validate encoder input in field order, and the text versions.\<close>

definition conversion_schema :: "string \<Rightarrow> bool" where
  "conversion_schema version \<longleftrightarrow>
     version = ''0.5'' \<or> version = ''0.6'' \<or> version = ''0.7'' \<or> version = ''0.8'' \<or> version = ''0.9''"

definition text_schema :: "string \<Rightarrow> bool" where
  "text_schema version \<longleftrightarrow> version = ''0.10'' \<or> version = ''0.11''"

section \<open>Kinds and conversions\<close>

fun GetLogicalValueKind :: "ValueType \<Rightarrow> LogicalValueKind" where
  "GetLogicalValueKind VT_UINT64 = LK_UINT64"
| "GetLogicalValueKind VT_INT64 = LK_INT64"
| "GetLogicalValueKind VT_BYTES = LK_BYTES"
| "GetLogicalValueKind VT_ENUM = LK_ENUM"
| "GetLogicalValueKind VT_BOOL = LK_BOOL"

definition ValueKindMatches :: "LogicalValueKind \<Rightarrow> ValueType \<Rightarrow> bool" where
  "ValueKindMatches value_kind value_type \<longleftrightarrow> value_kind = GetLogicalValueKind value_type"

definition HasConversion :: "FieldExecutionPlan \<Rightarrow> bool" where
  "HasConversion field \<longleftrightarrow> fe_conversion_index field \<noteq> kInvalidIndex"

fun ToConversionError :: "DecimalArithmeticStatus \<Rightarrow> ConversionError" where
  "ToConversionError DECIMAL_SCALE_OUT_OF_RANGE = CE_DECIMAL_SCALE_OUT_OF_RANGE"
| "ToConversionError RAW_NOT_INTEGRAL = CE_RAW_NOT_INTEGRAL"
| "ToConversionError RAW_OUT_OF_RANGE = CE_RAW_OUT_OF_RANGE"
| "ToConversionError LOGICAL_OUT_OF_RANGE = CE_LOGICAL_OUT_OF_RANGE"
| "ToConversionError INTERNAL_ERROR = CE_NONE"

fun ToCodecStatus :: "DecimalArithmeticStatus \<Rightarrow> CodecStatus" where
  "ToCodecStatus DECIMAL_SCALE_OUT_OF_RANGE = CS_INVALID_ARGUMENT"
| "ToCodecStatus INTERNAL_ERROR = CS_INTERNAL_ERROR"
| "ToCodecStatus RAW_NOT_INTEGRAL = CS_VALUE_NOT_REPRESENTABLE"
| "ToCodecStatus RAW_OUT_OF_RANGE = CS_VALUE_NOT_REPRESENTABLE"
| "ToCodecStatus LOGICAL_OUT_OF_RANGE = CS_VALUE_NOT_REPRESENTABLE"

definition ConversionPlanValid :: "PlanBundle \<Rightarrow> FieldExecutionPlan \<Rightarrow> bool" where
  "ConversionPlanValid plan field =
     (if \<not> HasConversion field then True
      else conversion_schema (pb_schema_version plan) \<and>
           fe_conversion_index field < length (pb_conversions plan) \<and>
           fe_conversion_slot field \<noteq> kInvalidIndex \<and> fe_bit_container_index field = kInvalidIndex \<and>
           fe_encode_source field = ES_INPUT \<and>
           raw_value_type (pb_conversions plan ! fe_conversion_index field) = fe_value_type field)"

definition ConvertEncode ::
    "LinearConversionDescriptor \<Rightarrow> Decimal64 \<Rightarrow> nat \<Rightarrow> DecimalArithmeticStatus + u64" where
  "ConvertEncode conversion logical width = EncodeDecimal conversion logical width"

definition ConvertDecode ::
    "LinearConversionDescriptor \<Rightarrow> u64 \<Rightarrow> nat \<Rightarrow> DecimalArithmeticStatus + Decimal64" where
  "ConvertDecode conversion raw width = DecodeDecimal conversion raw width"

section \<open>The structural match\<close>

definition MatchCompleteRecordStructure ::
    "PlanBundle \<Rightarrow> nat \<Rightarrow> CodecByteView \<Rightarrow> StructuralMatchResult option" where
  "MatchCompleteRecordStructure plan pipeline_index input =
     (let result = \<lparr>sm_status = CS_INVALID_ARGUMENT, sm_message_index = kInvalidIndex\<rparr>
      in if \<not> SupportsCompleteRecordSchema (pb_schema_version plan) then
           Some (result\<lparr>sm_status := CS_INVALID_PLAN\<rparr>)
         else if cv_address input = 0 \<and> cv_bytes input \<noteq> [] then Some result
         else if pipeline_index \<ge> length (pb_pipeline_execution_plans plan) then Some result
         else (case FindPipelineMatch (pb_pipeline_execution_plans plan ! pipeline_index)
                      (pb_message_execution_plans plan) (cv_bytes input) of
                 None \<Rightarrow> None
               | Some outcome \<Rightarrow>
                   if mo_match_count outcome = 0 then Some (result\<lparr>sm_status := CS_UNKNOWN_MESSAGE\<rparr>)
                   else if mo_match_count outcome \<noteq> 1 then Some (result\<lparr>sm_status := CS_AMBIGUOUS_MESSAGE\<rparr>)
                   else Some (result\<lparr>sm_status := CS_OK, sm_message_index := mo_message_index outcome\<rparr>)))"

section \<open>The workspace\<close>

record ExecutionWorkspace =
  ew_plan_scope :: nat
  ew_max_values_per_call :: nat
  ew_encode_value_indices :: "nat list"
  ew_encode_present_words :: "u64 list"
  ew_bit_container_values :: "u64 list"
  ew_decode_decimal_coefficients :: "i64 list"
  ew_decode_decimal_scales :: "i32 list"
  ew_raw_integer_bits :: "u64 list"
  ew_raw_integer_kinds :: "ValueType list"
  ew_raw_integer_field_indices :: "nat list"
  ew_encode_conversion_raw_values :: "u64 list"
  ew_raw_integer_count :: nat
  ew_raw_integer_message_index :: nat
  ew_in_use :: bool

definition NewExecutionWorkspace :: "PlanBundle \<Rightarrow> ExecutionWorkspace" where
  "NewExecutionWorkspace plan =
     (let layout = pb_layout plan; conversions = rl_conversion_value_count layout
      in \<lparr>ew_plan_scope = pb_address plan,
          ew_max_values_per_call = rl_max_fields_per_message layout,
          ew_encode_value_indices = replicate (rl_encode_value_index_count layout) kInvalidIndex,
          ew_encode_present_words = replicate (rl_encode_presence_word_count layout) 0,
          ew_bit_container_values = replicate (rl_bit_container_value_count layout) 0,
          ew_decode_decimal_coefficients = replicate conversions 0,
          ew_decode_decimal_scales = replicate conversions 0,
          ew_raw_integer_bits = replicate conversions 0,
          ew_raw_integer_kinds = replicate conversions VT_UINT64,
          ew_raw_integer_field_indices = replicate conversions kInvalidIndex,
          ew_encode_conversion_raw_values = replicate conversions 0,
          ew_raw_integer_count = 0, ew_raw_integer_message_index = kInvalidIndex, ew_in_use = False\<rparr>)"

definition LastRawIntegerCount :: "ExecutionWorkspace \<Rightarrow> nat" where
  "LastRawIntegerCount workspace = ew_raw_integer_count workspace"

text \<open>The plan the workspace points to is an argument.\<close>

definition GetLastRawInteger :: "PlanBundle \<Rightarrow> ExecutionWorkspace \<Rightarrow> nat \<Rightarrow> RawIntegerValue option" where
  "GetLastRawInteger plan workspace index =
     (if index \<ge> ew_raw_integer_count workspace then None
      else
        let field_index = ew_raw_integer_field_indices workspace ! index;
            kind = ew_raw_integer_kinds workspace ! index;
            bits = ew_raw_integer_bits workspace ! index;
            output = \<lparr>rv_field = \<lparr>fr_plan_scope = ew_plan_scope workspace,
                        fr_message_index = ew_raw_integer_message_index workspace, fr_field_index = field_index\<rparr>,
                      rv_kind = (if kind = VT_INT64 then RK_INT64 else RK_UINT64),
                      rv_uint64_value = 0, rv_int64_value = 0\<rparr>
        in if kind \<noteq> VT_UINT64 \<and> kind \<noteq> VT_INT64 then None
           else if rv_kind output = RK_UINT64 then Some (output\<lparr>rv_uint64_value := bits\<rparr>)
           else
             let width = fe_width (me_fields (pb_message_execution_plans plan ! ew_raw_integer_message_index workspace)
                                     ! field_index)
             in Some (output\<lparr>rv_int64_value :=
                  (case InterpretSigned bits width of None \<Rightarrow> 0 | Some v \<Rightarrow> v)\<rparr>))"

end
