(* ===== verification/Codec_Decode.thy ===== *)
theory Codec_Decode
  imports Codec_Types
begin

text \<open>
  \<^verbatim>\<open>DecodeCompleteRecord\<close> of \<^verbatim>\<open>src/src/protocol_core/complete_record_codec.cpp\<close>, in
  the order of the code: the match, the admission of the output slots, the text branch, the length and integrity
  tests, the bit containers, the check of every field before any slot is written, the slots, the publication.
  The slots are a list whose length is the capacity; the size of a slot in memory is a parameter.  The result is
  an option whose \<open>None\<close> means that a literal search does not return.
\<close>

section \<open>Definitions\<close>

text \<open>Capacity and aliasing of the output slots, the same for text and binary messages.\<close>

definition AdmitSlots :: "nat \<Rightarrow> CodecByteView \<Rightarrow> nat \<Rightarrow> nat \<Rightarrow> nat \<Rightarrow> CodecStatus option" where
  "AdmitSlots slot_size input slots_address capacity required =
     (if required > capacity then Some CS_OUTPUT_SLOTS_TOO_SMALL
      else case GetAddressRange (cv_address input) (length (cv_bytes input)) of
        None \<Rightarrow> Some CS_INVALID_ARGUMENT
      | Some input_range \<Rightarrow>
          (case GetArrayAddressRange slots_address required slot_size of
             None \<Rightarrow> Some CS_INVALID_ARGUMENT
           | Some slot_range \<Rightarrow>
               if RangesOverlap input_range slot_range then Some CS_INPUT_OUTPUT_OVERLAP else None))"

subsection \<open>Text messages\<close>

definition text_slot :: "nat \<Rightarrow> nat \<Rightarrow> CodecByteView \<Rightarrow> nat \<Rightarrow> nat \<Rightarrow> nat \<Rightarrow> DecodedFieldSlot" where
  "text_slot plan_address message_index input field_index offset n =
     no_slot\<lparr>ds_field := \<lparr>fr_plan_scope = plan_address, fr_message_index = message_index, fr_field_index = field_index\<rparr>,
             ds_value_kind := LK_BYTES,
             ds_bytes_value := \<lparr>cv_address = cv_address input + offset, cv_bytes = take n (drop offset (cv_bytes input))\<rparr>\<rparr>"

text \<open>The visitor that fills the slots; its state is the number of slots filled and the slots.\<close>

definition materialise_text ::
    "nat \<Rightarrow> nat \<Rightarrow> nat \<Rightarrow> CodecByteView \<Rightarrow> nat \<Rightarrow> nat \<Rightarrow> nat \<Rightarrow> nat \<times> DecodedFieldSlot list \<Rightarrow>
     bool \<times> (nat \<times> DecodedFieldSlot list)" where
  "materialise_text plan_address message_index field_count input field_index offset n s =
     (case s of (output_index, slots) \<Rightarrow>
        if output_index \<ge> field_count then (False, s)
        else (True, (output_index + 1,
               slots[output_index := text_slot plan_address message_index input field_index offset n])))"

definition DecodeText ::
    "PlanBundle \<Rightarrow> nat \<Rightarrow> MessageExecutionPlan \<Rightarrow> TextActionPlan \<Rightarrow> nat \<Rightarrow> CodecByteView \<Rightarrow> nat \<Rightarrow>
     DecodedFieldSlot list \<Rightarrow> DecodeResult \<Rightarrow> (DecodeResult \<times> DecodedFieldSlot list) option" where
  "DecodeText plan message_index m action slot_size input slots_address slots result =
     (let field_count = me_text_decode_field_count m;
          result = result\<lparr>dr_required_field_count := field_count\<rparr>
      in case AdmitSlots slot_size input slots_address (length slots) field_count of
           Some status \<Rightarrow> Some (result\<lparr>dr_status := status\<rparr>, slots)
         | None \<Rightarrow>
             (case WalkTextAction action m (cv_bytes input) True accept_all () of
                None \<Rightarrow> None
              | Some (validation, _) \<Rightarrow>
                  if validation \<noteq> TW_MATCH then
                    Some (result\<lparr>dr_status :=
                            (if validation = TW_INVALID_CHARACTER then CS_ASCII_CHARACTER_NOT_ALLOWED
                             else if validation = TW_INVALID_PLAN then CS_INVALID_PLAN else CS_UNKNOWN_MESSAGE)\<rparr>, slots)
                  else
                    (case WalkTextAction action m (cv_bytes input) False
                            (materialise_text (pb_address plan) message_index field_count input) (0, slots) of
                       None \<Rightarrow> None
                     | Some (materialized, (output_index, slots)) \<Rightarrow>
                         if materialized \<noteq> TW_MATCH \<or> output_index \<noteq> field_count then
                           Some (result\<lparr>dr_status := CS_INVALID_PLAN\<rparr>, slots)
                         else Some (result\<lparr>dr_status := CS_OK, dr_field_count := output_index,
                                           dr_failed_field_index := kInvalidIndex\<rparr>, slots))))"

subsection \<open>Binary messages\<close>

text \<open>Loading the containers stops at the first that does not load; the values before it stay in the workspace.\<close>

fun LoadContainers :: "u8 list \<Rightarrow> BitContainerExecutionPlan list \<Rightarrow> nat \<Rightarrow> u64 list \<Rightarrow> bool \<times> u64 list" where
  "LoadContainers data [] index values = (True, values)"
| "LoadContainers data (c # containers) index values =
     (case LoadUnsigned (drop (bce_offset c) data) (bce_width c) (bce_byte_order c) of
        None \<Rightarrow> (False, values)
      | Some v \<Rightarrow> LoadContainers data containers (index + 1) (values[index := v]))"

text \<open>The raw value of a field, from its container or from its own bytes.\<close>

definition FieldRawValue :: "u8 list \<Rightarrow> u64 list \<Rightarrow> FieldExecutionPlan \<Rightarrow> u64 option" where
  "FieldRawValue data container_values field =
     (if fe_bit_container_index field \<noteq> kInvalidIndex
      then Some (ExtractBitfield (container_values ! fe_bit_container_index field) field)
      else LoadUnsigned (drop (fe_offset field) data) (fe_width field) (fe_byte_order field))"

text \<open>A failure of a field: status and conversion error.\<close>

type_synonym field_failure = "CodecStatus \<times> ConversionError"

definition invalid_plan :: field_failure where
  "invalid_plan = (CS_INVALID_PLAN, CE_NONE)"

text \<open>The check of a field with a conversion records the decimal and the raw integer in the workspace.\<close>

definition PrecheckConversion ::
    "PlanBundle \<Rightarrow> u8 list \<Rightarrow> nat \<Rightarrow> FieldExecutionPlan \<Rightarrow> ExecutionWorkspace \<Rightarrow> nat \<Rightarrow>
     field_failure + ExecutionWorkspace" where
  "PrecheckConversion plan data field_index field ws converted =
     (let slot = fe_conversion_slot field
      in if slot \<ge> length (ew_decode_decimal_coefficients ws) \<or> converted \<ge> length (ew_raw_integer_bits ws) then
           Inl invalid_plan
         else case LoadUnsigned (drop (fe_offset field) data) (fe_width field) (fe_byte_order field) of
           None \<Rightarrow> Inl invalid_plan
         | Some raw_value \<Rightarrow>
             (case ConvertDecode (pb_conversions plan ! fe_conversion_index field) raw_value (fe_width field) of
                Inl status \<Rightarrow> Inl (ToCodecStatus status, ToConversionError status)
              | Inr logical \<Rightarrow>
                  Inr (ws\<lparr>ew_decode_decimal_coefficients :=
                            (ew_decode_decimal_coefficients ws)[slot := coefficient logical],
                          ew_decode_decimal_scales := (ew_decode_decimal_scales ws)[slot := scale logical],
                          ew_raw_integer_bits := (ew_raw_integer_bits ws)[converted := raw_value],
                          ew_raw_integer_kinds := (ew_raw_integer_kinds ws)[converted := fe_value_type field],
                          ew_raw_integer_field_indices :=
                            (ew_raw_integer_field_indices ws)[converted := field_index]\<rparr>)))"

text \<open>The check of an enumeration: whether the record is tainted by a value that is kept though unknown.\<close>

definition PrecheckEnum ::
    "MessageExecutionPlan \<Rightarrow> u8 list \<Rightarrow> FieldExecutionPlan \<Rightarrow> u64 list \<Rightarrow> field_failure + bool" where
  "PrecheckEnum m data field container_values =
     (case FieldRawValue data container_values field of
        None \<Rightarrow> Inl invalid_plan
      | Some raw_value \<Rightarrow>
          (case FindEnumEntry m field raw_value of
             Some _ \<Rightarrow> Inr False
           | None \<Rightarrow> if fe_unknown_enum_policy field = UE_REJECT then Inl (CS_UNKNOWN_ENUM_VALUE, CE_NONE)
                     else Inr True))"

fun PrecheckFields ::
    "PlanBundle \<Rightarrow> MessageExecutionPlan \<Rightarrow> u8 list \<Rightarrow> FieldExecutionPlan list \<Rightarrow> nat \<Rightarrow> ExecutionWorkspace \<Rightarrow>
     nat \<Rightarrow> bool \<Rightarrow> ExecutionWorkspace \<times> (field_failure \<times> nat + nat \<times> bool)" where
  "PrecheckFields plan m data [] field_index ws converted tainted = (ws, Inr (converted, tainted))"
| "PrecheckFields plan m data (field # rest) field_index ws converted tainted =
     (if conversion_schema (pb_schema_version plan) \<and> \<not> ConversionPlanValid plan field then
        (ws, Inl (invalid_plan, field_index))
      else if conversion_schema (pb_schema_version plan) \<and> HasConversion field then
        (case PrecheckConversion plan data field_index field ws converted of
           Inl failure \<Rightarrow> (ws, Inl (failure, field_index))
         | Inr ws \<Rightarrow> PrecheckFields plan m data rest (field_index + 1) ws (converted + 1) tainted)
      else if fe_value_type field \<noteq> VT_ENUM then
        PrecheckFields plan m data rest (field_index + 1) ws converted tainted
      else
        (case PrecheckEnum m data field (ew_bit_container_values ws) of
           Inl failure \<Rightarrow> (ws, Inl (failure, field_index))
         | Inr unknown \<Rightarrow>
             PrecheckFields plan m data rest (field_index + 1) ws converted (tainted \<or> unknown)))"

definition BytesSlot :: "MessageExecutionPlan \<Rightarrow> CodecByteView \<Rightarrow> FieldExecutionPlan \<Rightarrow> nat \<Rightarrow> CodecByteView option" where
  "BytesSlot m input field field_index =
     (let byte_count =
            (case me_bounded_payload m of
               None \<Rightarrow> Some (fe_width field)
             | Some b \<Rightarrow> if field_index = bp_payload_field_index b
                         then ResolvePayloadLength m (length (cv_bytes input)) else Some (fe_width field))
      in map_option (\<lambda>n. \<lparr>cv_address = cv_address input + fe_offset field,
                         cv_bytes = take n (drop (fe_offset field) (cv_bytes input))\<rparr>) byte_count)"

definition MaterialiseField ::
    "PlanBundle \<Rightarrow> nat \<Rightarrow> MessageExecutionPlan \<Rightarrow> CodecByteView \<Rightarrow> ExecutionWorkspace \<Rightarrow> FieldExecutionPlan \<Rightarrow> nat \<Rightarrow>
     DecodedFieldSlot option" where
  "MaterialiseField plan message_index m input ws field field_index =
     (let ref = \<lparr>fr_plan_scope = pb_address plan, fr_message_index = message_index, fr_field_index = field_index\<rparr>;
          slot = no_slot\<lparr>ds_field := ref, ds_value_kind := GetLogicalValueKind (fe_value_type field)\<rparr>
      in if HasConversion field then
           Some (slot\<lparr>ds_value_kind := LK_DECIMAL64,
             ds_decimal64_value := \<lparr>coefficient = ew_decode_decimal_coefficients ws ! fe_conversion_slot field,
                                    scale = ew_decode_decimal_scales ws ! fe_conversion_slot field\<rparr>\<rparr>)
         else if fe_value_type field = VT_BYTES then
           map_option (\<lambda>v. slot\<lparr>ds_bytes_value := v\<rparr>) (BytesSlot m input field field_index)
         else case FieldRawValue (cv_bytes input) (ew_bit_container_values ws) field of
           None \<Rightarrow> None
         | Some raw_value \<Rightarrow>
             (case fe_value_type field of
                VT_UINT64 \<Rightarrow> Some (slot\<lparr>ds_uint64_value := raw_value\<rparr>)
              | VT_INT64 \<Rightarrow> map_option (\<lambda>v. slot\<lparr>ds_int64_value := v\<rparr>) (InterpretSigned raw_value (fe_width field))
              | VT_BOOL \<Rightarrow> Some (slot\<lparr>ds_bool_value := (raw_value \<noteq> 0)\<rparr>)
              | _ \<Rightarrow>
                  Some (slot\<lparr>ds_enum_value :=
                    (case FindEnumEntry m field raw_value of
                       None \<Rightarrow> \<lparr>de_known = False, de_raw_value = raw_value, de_reference = no_enum_ref\<rparr>
                     | Some entry_index \<Rightarrow>
                         \<lparr>de_known = True, de_raw_value = raw_value,
                          de_reference = \<lparr>er_plan_scope = pb_address plan, er_message_index = message_index,
                                          er_field_index = field_index, er_entry_index = entry_index\<rparr>\<rparr>)\<rparr>)))"

text \<open>Writing the slots: the index of the field that fails, if one does.\<close>

fun MaterialiseFields ::
    "PlanBundle \<Rightarrow> nat \<Rightarrow> MessageExecutionPlan \<Rightarrow> CodecByteView \<Rightarrow> ExecutionWorkspace \<Rightarrow> FieldExecutionPlan list \<Rightarrow>
     nat \<Rightarrow> DecodedFieldSlot list \<Rightarrow> nat option \<times> DecodedFieldSlot list" where
  "MaterialiseFields plan message_index m input ws [] field_index slots = (None, slots)"
| "MaterialiseFields plan message_index m input ws (field # rest) field_index slots =
     (case MaterialiseField plan message_index m input ws field field_index of
        None \<Rightarrow> (Some field_index, slots)
      | Some slot \<Rightarrow>
          MaterialiseFields plan message_index m input ws rest (field_index + 1) (slots[field_index := slot]))"

text \<open>The tests on the record before its fields: \<open>None\<close> when it passes, else the status and the field at fault.\<close>

definition DecodeChecks :: "MessageExecutionPlan \<Rightarrow> u8 list \<Rightarrow> (CodecStatus \<times> nat) option" where
  "DecodeChecks m data =
     (if \<not> ComputedLengthDescriptorValid m then Some (CS_INVALID_PLAN, kInvalidIndex)
      else if \<not> ComputedLengthMatches m data (length data) then
        Some (CS_LENGTH_MISMATCH, (case me_computed_length m of None \<Rightarrow> kInvalidIndex | Some c \<Rightarrow> cl_field_index c))
      else if \<not> IntegrityDescriptorValid m then Some (CS_INVALID_PLAN, kInvalidIndex)
      else if \<not> IntegrityMatches m data (length data) then Some (CS_INTEGRITY_FAILED, kInvalidIndex)
      else None)"

definition DecodeBinary ::
    "PlanBundle \<Rightarrow> nat \<Rightarrow> MessageExecutionPlan \<Rightarrow> nat \<Rightarrow> CodecByteView \<Rightarrow> nat \<Rightarrow> DecodedFieldSlot list \<Rightarrow>
     DecodeResult \<Rightarrow> ExecutionWorkspace \<Rightarrow> DecodeResult \<times> ExecutionWorkspace \<times> DecodedFieldSlot list" where
  "DecodeBinary plan message_index m slot_size input slots_address slots result ws =
     (let required = length (me_fields m);
          result = result\<lparr>dr_required_field_count := required\<rparr>
      in case AdmitSlots slot_size input slots_address (length slots) required of
           Some status \<Rightarrow> (result\<lparr>dr_status := status\<rparr>, ws, slots)
         | None \<Rightarrow>
             (case DecodeChecks m (cv_bytes input) of
                Some (status, failed) \<Rightarrow> (result\<lparr>dr_status := status, dr_failed_field_index := failed\<rparr>, ws, slots)
              | None \<Rightarrow>
                  if length (me_bit_containers m) > length (ew_bit_container_values ws) then
                    (result\<lparr>dr_status := CS_INVALID_PLAN\<rparr>, ws, slots)
                  else
                    (case LoadContainers (cv_bytes input) (me_bit_containers m) 0 (ew_bit_container_values ws) of
                       (loaded, values) \<Rightarrow>
                         let ws = ws\<lparr>ew_bit_container_values := values\<rparr>
                         in if \<not> loaded then (result\<lparr>dr_status := CS_INVALID_PLAN\<rparr>, ws, slots)
                            else
                              (case PrecheckFields plan m (cv_bytes input) (me_fields m) 0 ws 0 False of
                                 (ws, Inl ((status, error), failed)) \<Rightarrow>
                                   (result\<lparr>dr_status := status, dr_conversion_error := error,
                                           dr_failed_field_index := failed\<rparr>, ws, slots)
                               | (ws, Inr (converted, tainted)) \<Rightarrow>
                                   (case MaterialiseFields plan message_index m input ws (me_fields m) 0 slots of
                                      (Some failed, slots) \<Rightarrow>
                                        (result\<lparr>dr_status := CS_INVALID_PLAN, dr_failed_field_index := failed\<rparr>, ws, slots)
                                    | (None, slots) \<Rightarrow>
                                        (result\<lparr>dr_status := CS_OK, dr_field_count := required,
                                                dr_failed_field_index := kInvalidIndex, dr_tainted := tainted\<rparr>,
                                         ws\<lparr>ew_raw_integer_count := converted,
                                            ew_raw_integer_message_index := message_index\<rparr>, slots))))))"

subsection \<open>The call\<close>

text \<open>The body of the call, run while the workspace is occupied.\<close>

definition DecodeLeased ::
    "PlanBundle \<Rightarrow> nat \<Rightarrow> ExecutionWorkspace \<Rightarrow> nat \<Rightarrow> CodecByteView \<Rightarrow> nat \<Rightarrow> DecodedFieldSlot list \<Rightarrow>
     (DecodeResult \<times> ExecutionWorkspace \<times> DecodedFieldSlot list) option" where
  "DecodeLeased plan slot_size ws pipeline_index input slots_address slots =
     (let result = no_decode_result;
          ws = ws\<lparr>ew_raw_integer_count := 0, ew_raw_integer_message_index := kInvalidIndex\<rparr>;
          version = pb_schema_version plan;
          messages = pb_message_execution_plans plan
      in if ew_plan_scope ws \<noteq> pb_address plan then
           Some (result\<lparr>dr_status := CS_WORKSPACE_PLAN_MISMATCH\<rparr>, ws, slots)
         else if \<not> SupportsCompleteRecordSchema version then Some (result\<lparr>dr_status := CS_INVALID_PLAN\<rparr>, ws, slots)
         else if cv_address input = 0 \<and> cv_bytes input \<noteq> [] \<or> slots_address = 0 \<and> slots \<noteq> [] then
           Some (result, ws, slots)
         else if pipeline_index \<ge> length (pb_pipeline_execution_plans plan) then Some (result, ws, slots)
         else
           let pipeline = pb_pipeline_execution_plans plan ! pipeline_index
           in if text_schema version \<and> pe_text_message_indices pipeline = [] then
                Some (result\<lparr>dr_status := CS_OPERATION_NOT_SUPPORTED\<rparr>, ws, slots)
              else (case FindPipelineMatch pipeline messages (cv_bytes input) of
                      None \<Rightarrow> None
                    | Some outcome \<Rightarrow>
                        if mo_match_count outcome = 0 then Some (result\<lparr>dr_status := CS_UNKNOWN_MESSAGE\<rparr>, ws, slots)
                        else if mo_match_count outcome \<noteq> 1 then
                          Some (result\<lparr>dr_status := CS_AMBIGUOUS_MESSAGE\<rparr>, ws, slots)
                        else
                          let message_index = mo_message_index outcome;
                              result = result\<lparr>dr_message_index := message_index\<rparr>;
                              m = messages ! message_index
                          in (case me_text_decode m of
                                Some action \<Rightarrow>
                                  map_option (\<lambda>(result, slots). (result, ws, slots))
                                    (DecodeText plan message_index m action slot_size input slots_address slots result)
                              | None \<Rightarrow>
                                  Some (DecodeBinary plan message_index m slot_size input slots_address slots result ws))))"

definition DecodeCompleteRecord ::
    "PlanBundle \<Rightarrow> nat \<Rightarrow> ExecutionWorkspace \<Rightarrow> nat \<Rightarrow> CodecByteView \<Rightarrow> nat \<Rightarrow> DecodedFieldSlot list \<Rightarrow>
     (DecodeResult \<times> ExecutionWorkspace \<times> DecodedFieldSlot list) option" where
  "DecodeCompleteRecord plan slot_size ws pipeline_index input slots_address slots =
     (if ew_in_use ws then Some (no_decode_result\<lparr>dr_status := CS_WORKSPACE_BUSY\<rparr>, ws, slots)
      else map_option (\<lambda>(result, ws, slots). (result, ws\<lparr>ew_in_use := False\<rparr>, slots))
             (DecodeLeased plan slot_size (ws\<lparr>ew_in_use := True\<rparr>) pipeline_index input slots_address slots))"

end
