(* ===== verification/Codec_Encode.thy ===== *)
theory Codec_Encode
  imports Codec_Types
begin

text \<open>
  \<^verbatim>\<open>EncodeCompleteRecord\<close> of \<^verbatim>\<open>src/src/protocol_core/complete_record_codec.cpp\<close>, in
  the order of the code: the values are checked and assigned to input ordinals, the size is resolved, the output
  is admitted, fixed bytes, fields, containers, length and checksum are written, and the result is reviewed.  The
  output buffer is a list whose length is the capacity; it is returned as it is left, also by a call that
  fails after it began to write.  The size of an \<^verbatim>\<open>EncodeFieldValue\<close> is a parameter.
\<close>

section \<open>Preparing the inputs\<close>

definition BytesValueCheck :: "MessageExecutionPlan \<Rightarrow> nat \<Rightarrow> FieldExecutionPlan \<Rightarrow> CodecByteView \<Rightarrow> CodecStatus option" where
  "BytesValueCheck m field_index field bytes =
     (let size_wrong =
            (case me_bounded_payload m of
               Some b \<Rightarrow> if field_index = bp_payload_field_index b
                         then length (cv_bytes bytes) < bp_min_payload_length b \<or>
                              length (cv_bytes bytes) > bp_max_payload_length b
                         else length (cv_bytes bytes) \<noteq> fe_width field
             | None \<Rightarrow> length (cv_bytes bytes) \<noteq> fe_width field)
      in if size_wrong then Some CS_BYTES_LENGTH_MISMATCH
         else if GetAddressRange (cv_address bytes) (length (cv_bytes bytes)) = None then Some CS_INVALID_ARGUMENT
         else None)"

text \<open>The check of a value whose kind is that of its field; \<open>None\<close> when it is fine.\<close>

definition ValueCheck ::
    "PlanBundle \<Rightarrow> MessageExecutionPlan \<Rightarrow> nat \<Rightarrow> nat \<Rightarrow> FieldExecutionPlan \<Rightarrow> EncodeFieldValue \<Rightarrow>
     CodecStatus option" where
  "ValueCheck plan m message_index field_index field v =
     (case fe_value_type field of
        VT_UINT64 \<Rightarrow>
          if \<not> (if fe_bit_container_index field \<noteq> kInvalidIndex
                 then FitsUnsignedBits (ev_uint64_value v) (fe_bit_width field)
                 else FitsUnsignedWidth (ev_uint64_value v) (fe_width field))
          then Some CS_VALUE_NOT_REPRESENTABLE else None
      | VT_INT64 \<Rightarrow> if \<not> FitsSignedWidth (ev_int64_value v) (fe_width field)
                    then Some CS_VALUE_NOT_REPRESENTABLE else None
      | VT_BYTES \<Rightarrow> BytesValueCheck m field_index field (ev_bytes_value v)
      | VT_BOOL \<Rightarrow> None
      | VT_ENUM \<Rightarrow>
          if er_plan_scope (ev_enum_value v) \<noteq> pb_address plan \<or>
             er_message_index (ev_enum_value v) \<noteq> message_index \<or>
             er_field_index (ev_enum_value v) \<noteq> field_index \<or>
             er_entry_index (ev_enum_value v) \<ge> fe_enum_values_count field
          then Some CS_ENUM_REFERENCE_MISMATCH else None)"

definition TextValueCheck :: "FieldExecutionPlan \<Rightarrow> CodecByteView \<Rightarrow> CodecStatus option" where
  "TextValueCheck field bytes =
     (if length (cv_bytes bytes) < fe_text_min_length field \<or> length (cv_bytes bytes) > fe_text_max_length field then
        Some CS_BYTES_LENGTH_MISMATCH
      else if GetAddressRange (cv_address bytes) (length (cv_bytes bytes)) = None then Some CS_INVALID_ARGUMENT
      else if \<not> list_all (IsAllowedAscii field) (cv_bytes bytes) then Some CS_ASCII_CHARACTER_NOT_ALLOWED
      else None)"

text \<open>The check made when a value is visited, unless the schema defers it.\<close>

definition ImmediateValueCheck ::
    "PlanBundle \<Rightarrow> MessageExecutionPlan \<Rightarrow> nat \<Rightarrow> nat \<Rightarrow> FieldExecutionPlan \<Rightarrow> EncodeFieldValue \<Rightarrow>
     CodecStatus option" where
  "ImmediateValueCheck plan m message_index field_index field v =
     (if conversion_schema (pb_schema_version plan) then None
      else if \<not> ValueKindMatches (ev_value_kind v) (fe_value_type field) then Some CS_TYPE_MISMATCH
      else if fe_value_type field = VT_BYTES \<and> text_schema (pb_schema_version plan) then
        TextValueCheck field (ev_bytes_value v)
      else ValueCheck plan m message_index field_index field v)"

text \<open>The reference test of one value and the tests on its field.\<close>

definition AdmitValue ::
    "PlanBundle \<Rightarrow> MessageExecutionPlan \<Rightarrow> nat \<Rightarrow> nat \<Rightarrow> u64 list \<Rightarrow> EncodeFieldValue \<Rightarrow> CodecStatus option" where
  "AdmitValue plan m message_index field_index present v =
     (let field = me_fields m ! field_index
      in if text_schema (pb_schema_version plan) \<and> \<not> fe_text_encode_input field then
           Some CS_FIELD_REFERENCE_MISMATCH
         else if fe_encode_source field \<noteq> ES_INPUT then
           Some (if fe_encode_source field = ES_COMPUTED then CS_COMPUTED_FIELD_OVERRIDE else CS_CONSTANT_FIELD_OVERRIDE)
         else if fe_input_ordinal field \<ge> me_required_input_count m then Some CS_INVALID_PLAN
         else if IsPresent present (fe_input_ordinal field) then Some CS_DUPLICATE_FIELD
         else ImmediateValueCheck plan m message_index field_index field v)"

text \<open>The loop over the values.  A failure is the status and the two failed indices as the code leaves them: the
  field index of the value before, when the reference of a value is refused.\<close>

fun PrepareValues ::
    "PlanBundle \<Rightarrow> MessageExecutionPlan \<Rightarrow> nat \<Rightarrow> EncodeFieldValue list \<Rightarrow> nat \<Rightarrow> nat \<Rightarrow> nat list \<Rightarrow> u64 list \<Rightarrow>
     (CodecStatus \<times> nat \<times> nat) option \<times> nat list \<times> u64 list" where
  "PrepareValues plan m message_index [] value_index failed_field indices present = (None, indices, present)"
| "PrepareValues plan m message_index (v # values) value_index failed_field indices present =
     (if fr_plan_scope (ev_field v) \<noteq> pb_address plan \<or> fr_message_index (ev_field v) \<noteq> message_index \<or>
         fr_field_index (ev_field v) \<ge> length (me_fields m)
      then (Some (CS_FIELD_REFERENCE_MISMATCH, value_index, failed_field), indices, present)
      else
        let field_index = fr_field_index (ev_field v); ordinal = fe_input_ordinal (me_fields m ! field_index)
        in case AdmitValue plan m message_index field_index present v of
             Some status \<Rightarrow> (Some (status, value_index, field_index), indices, present)
           | None \<Rightarrow>
               PrepareValues plan m message_index values (value_index + 1) field_index
                 (indices[ordinal := value_index]) (MarkPresent present ordinal))"

text \<open>The first field that still needs a value.\<close>

definition field_missing :: "PlanBundle \<Rightarrow> u64 list \<Rightarrow> FieldExecutionPlan \<Rightarrow> bool" where
  "field_missing plan present field \<longleftrightarrow>
     fe_encode_source field = ES_INPUT \<and>
     (\<not> text_schema (pb_schema_version plan) \<or> fe_text_encode_input field) \<and>
     \<not> IsPresent present (fe_input_ordinal field)"

fun RequiredFields :: "PlanBundle \<Rightarrow> u64 list \<Rightarrow> FieldExecutionPlan list \<Rightarrow> nat \<Rightarrow> nat option" where
  "RequiredFields plan present [] field_index = None"
| "RequiredFields plan present (field # rest) field_index =
     (if field_missing plan present field then Some field_index
      else RequiredFields plan present rest (field_index + 1))"

text \<open>The deferred check of one value: the raw values of the conversions, updated when the field has one.\<close>

definition DeferredValueCheck ::
    "PlanBundle \<Rightarrow> MessageExecutionPlan \<Rightarrow> nat \<Rightarrow> nat \<Rightarrow> FieldExecutionPlan \<Rightarrow> EncodeFieldValue \<Rightarrow> u64 list \<Rightarrow>
     CodecStatus \<times> ConversionError + u64 list" where
  "DeferredValueCheck plan m message_index field_index field v raw_values =
     (if \<not> ConversionPlanValid plan field then Inl (CS_INVALID_PLAN, CE_NONE)
      else if HasConversion field then
        (if fe_conversion_slot field \<ge> length raw_values then Inl (CS_INVALID_PLAN, CE_NONE)
         else if ev_value_kind v \<noteq> LK_DECIMAL64 then Inl (CS_TYPE_MISMATCH, CE_NONE)
         else case ConvertEncode (pb_conversions plan ! fe_conversion_index field) (ev_decimal64_value v) (fe_width field) of
           Inl status \<Rightarrow> Inl (ToCodecStatus status, ToConversionError status)
         | Inr raw_value \<Rightarrow> Inr (raw_values[fe_conversion_slot field := raw_value]))
      else if \<not> ValueKindMatches (ev_value_kind v) (fe_value_type field) then Inl (CS_TYPE_MISMATCH, CE_NONE)
      else case ValueCheck plan m message_index field_index field v of
        Some status \<Rightarrow> Inl (status, CE_NONE)
      | None \<Rightarrow> Inr raw_values)"

fun DeferredChecks ::
    "PlanBundle \<Rightarrow> MessageExecutionPlan \<Rightarrow> nat \<Rightarrow> EncodeFieldValue list \<Rightarrow> nat list \<Rightarrow> FieldExecutionPlan list \<Rightarrow> nat \<Rightarrow>
     u64 list \<Rightarrow> (CodecStatus \<times> ConversionError \<times> nat \<times> nat) option \<times> u64 list" where
  "DeferredChecks plan m message_index values indices [] field_index raw_values = (None, raw_values)"
| "DeferredChecks plan m message_index values indices (field # rest) field_index raw_values =
     (if fe_encode_source field \<noteq> ES_INPUT then
        DeferredChecks plan m message_index values indices rest (field_index + 1) raw_values
      else
        let value_index = indices ! fe_input_ordinal field
        in case DeferredValueCheck plan m message_index field_index field (values ! value_index) raw_values of
             Inl (status, error) \<Rightarrow> (Some (status, error, value_index, field_index), raw_values)
           | Inr raw_values \<Rightarrow>
               DeferredChecks plan m message_index values indices rest (field_index + 1) raw_values)"

definition PrepareEncodeInputs ::
    "PlanBundle \<Rightarrow> MessageExecutionPlan \<Rightarrow> nat \<Rightarrow> EncodeFieldValue list \<Rightarrow> ExecutionWorkspace \<Rightarrow> EncodeResult \<Rightarrow>
     CodecStatus \<times> ExecutionWorkspace \<times> EncodeResult" where
  "PrepareEncodeInputs plan m message_index values ws result =
     (let word_count = PresenceWordCount (me_required_input_count m)
      in if me_required_input_count m > length (ew_encode_value_indices ws) \<or>
            word_count > length (ew_encode_present_words ws) then (CS_INVALID_PLAN, ws, result)
         else
           let present = replicate word_count 0 @ drop word_count (ew_encode_present_words ws)
           in case PrepareValues plan m message_index values 0 kInvalidIndex (ew_encode_value_indices ws) present of
                (Some (status, failed_value, failed_field), indices, present) \<Rightarrow>
                  (status, ws\<lparr>ew_encode_value_indices := indices, ew_encode_present_words := present\<rparr>,
                   result\<lparr>en_failed_value_index := failed_value, en_failed_field_index := failed_field\<rparr>)
              | (None, indices, present) \<Rightarrow>
                  let ws = ws\<lparr>ew_encode_value_indices := indices, ew_encode_present_words := present\<rparr>
                  in case RequiredFields plan present (me_fields m) 0 of
                       Some field_index \<Rightarrow>
                         (CS_MISSING_FIELD, ws,
                          result\<lparr>en_failed_value_index := kInvalidIndex, en_failed_field_index := field_index\<rparr>)
                     | None \<Rightarrow>
                         let cleared = result\<lparr>en_failed_field_index := kInvalidIndex, en_failed_value_index := kInvalidIndex\<rparr>
                         in if \<not> conversion_schema (pb_schema_version plan) then (CS_OK, ws, cleared)
                            else (case DeferredChecks plan m message_index values indices (me_fields m) 0
                                         (ew_encode_conversion_raw_values ws) of
                                    (Some (status, error, failed_value, failed_field), raw_values) \<Rightarrow>
                                      (status, ws\<lparr>ew_encode_conversion_raw_values := raw_values\<rparr>,
                                       result\<lparr>en_failed_value_index := failed_value, en_failed_field_index := failed_field,
                                              en_conversion_error := error\<rparr>)
                                  | (None, raw_values) \<Rightarrow>
                                      (CS_OK, ws\<lparr>ew_encode_conversion_raw_values := raw_values\<rparr>, cleared)))"

section \<open>Admitting the output\<close>

text \<open>The values whose bytes must not overlap the output; a failure is the status and the index of the value.\<close>

fun AdmitAliases ::
    "(EncodeFieldValue \<Rightarrow> bool) \<Rightarrow> AddressRange \<Rightarrow> EncodeFieldValue list \<Rightarrow> nat \<Rightarrow> (CodecStatus \<times> nat) option" where
  "AdmitAliases relevant output_range [] value_index = None"
| "AdmitAliases relevant output_range (v # values) value_index =
     (if \<not> relevant v then AdmitAliases relevant output_range values (value_index + 1)
      else case GetAddressRange (cv_address (ev_bytes_value v)) (length (cv_bytes (ev_bytes_value v))) of
        None \<Rightarrow> Some (CS_INVALID_ARGUMENT, value_index)
      | Some input_range \<Rightarrow>
          if RangesOverlap input_range output_range then Some (CS_INPUT_OUTPUT_OVERLAP, value_index)
          else AdmitAliases relevant output_range values (value_index + 1))"

text \<open>The tests on the output buffer; a failure has a value index when an alias is at fault.\<close>

definition AdmitOutput ::
    "(EncodeFieldValue \<Rightarrow> bool) \<Rightarrow> AddressRange \<Rightarrow> EncodeFieldValue list \<Rightarrow> nat \<Rightarrow> nat \<Rightarrow> nat \<Rightarrow>
     (CodecStatus \<times> nat option) option" where
  "AdmitOutput relevant descriptor_range values out_address capacity actual_size =
     (if out_address = 0 then Some (CS_INVALID_ARGUMENT, None)
      else if capacity < actual_size then Some (CS_BUFFER_TOO_SMALL, None)
      else case GetAddressRange out_address actual_size of
        None \<Rightarrow> Some (CS_INVALID_ARGUMENT, None)
      | Some output_range \<Rightarrow>
          if RangesOverlap descriptor_range output_range then Some (CS_INPUT_OUTPUT_OVERLAP, None)
          else map_option (\<lambda>(status, value_index). (status, Some value_index))
                 (AdmitAliases relevant output_range values 0))"

text \<open>Copying bytes into the buffer.\<close>

definition put_bytes :: "u8 list \<Rightarrow> nat \<Rightarrow> u8 list \<Rightarrow> u8 list" where
  "put_bytes out offset bytes = fold (\<lambda>index out. out[offset + index := bytes ! index]) [0..<length bytes] out"

section \<open>Text messages\<close>

definition input_bytes :: "EncodeFieldValue list \<Rightarrow> nat list \<Rightarrow> FieldExecutionPlan \<Rightarrow> u8 list" where
  "input_bytes values indices field = cv_bytes (ev_bytes_value (values ! (indices ! fe_input_ordinal field)))"

text \<open>The length of the record; a failure is the status and the field at fault, the invalid index if none is.\<close>

fun TextSize ::
    "MessageExecutionPlan \<Rightarrow> EncodeFieldValue list \<Rightarrow> nat list \<Rightarrow> TextSegmentPlan list \<Rightarrow> nat \<Rightarrow>
     (CodecStatus \<times> nat + nat) option" where
  "TextSize m values indices [] actual = Some (Inr actual)"
| "TextSize m values indices (segment # following) actual =
     (if tsp_kind segment = TS_LITERAL then
        if length (tsp_literal segment) > SIZE_MAX - actual then Some (Inl (CS_INVALID_PLAN, kInvalidIndex))
        else TextSize m values indices following (actual + length (tsp_literal segment))
      else if tsp_field_index segment \<ge> length (me_fields m) then Some (Inl (CS_INVALID_PLAN, kInvalidIndex))
      else
        let field = me_fields m ! tsp_field_index segment
        in if \<not> fe_text_encode_input field \<or> fe_input_ordinal field \<ge> length indices then
             Some (Inl (CS_INVALID_PLAN, kInvalidIndex))
           else
             let bytes = input_bytes values indices field
             in if length bytes > SIZE_MAX - actual then Some (Inl (CS_INVALID_PLAN, kInvalidIndex))
                else if fe_text_min_length field \<noteq> fe_text_max_length field \<and> following \<noteq> [] then
                  (if tsp_kind (hd following) \<noteq> TS_LITERAL then
                     Some (Inl (CS_ASCII_TERMINATOR_CONFLICT, tsp_field_index segment))
                   else case FindFirstAcrossBoundary bytes (hd following) of
                     None \<Rightarrow> None
                   | Some position \<Rightarrow>
                       if position \<noteq> Some (length bytes) then
                         Some (Inl (CS_ASCII_TERMINATOR_CONFLICT, tsp_field_index segment))
                       else TextSize m values indices following (actual + length bytes))
                else TextSize m values indices following (actual + length bytes))"

fun WriteText ::
    "MessageExecutionPlan \<Rightarrow> EncodeFieldValue list \<Rightarrow> nat list \<Rightarrow> TextSegmentPlan list \<Rightarrow> nat \<Rightarrow> u8 list \<Rightarrow> u8 list" where
  "WriteText m values indices [] cursor out = out"
| "WriteText m values indices (segment # following) cursor out =
     (let bytes = (if tsp_kind segment = TS_LITERAL then tsp_literal segment
                   else input_bytes values indices (me_fields m ! tsp_field_index segment))
      in WriteText m values indices following (cursor + length bytes) (put_bytes out cursor bytes))"

text \<open>The visitor of the final review: the bytes of a field are those of its value.\<close>

definition review_text ::
    "MessageExecutionPlan \<Rightarrow> EncodeFieldValue list \<Rightarrow> nat list \<Rightarrow> u8 list \<Rightarrow> nat \<Rightarrow> nat \<Rightarrow> nat \<Rightarrow> unit \<Rightarrow> bool \<times> unit" where
  "review_text m values indices encoded field_index offset n s =
     (let field = me_fields m ! field_index
      in if \<not> fe_text_encode_input field \<or> fe_input_ordinal field \<ge> length indices then (False, s)
         else if length (input_bytes values indices field) \<noteq> n then (False, s)
         else (take n (drop offset encoded) = input_bytes values indices field, s))"

definition EncodeText ::
    "MessageExecutionPlan \<Rightarrow> TextActionPlan \<Rightarrow> AddressRange \<Rightarrow> EncodeFieldValue list \<Rightarrow> nat list \<Rightarrow> nat \<Rightarrow> u8 list \<Rightarrow>
     EncodeResult \<Rightarrow> (EncodeResult \<times> u8 list) option" where
  "EncodeText m action descriptor_range values indices out_address out result =
     (case TextSize m values indices (tap_segments action) 0 of
        None \<Rightarrow> None
      | Some (Inl (status, failed_field)) \<Rightarrow>
          Some (result\<lparr>en_status := status, en_required_size := 0,
                       en_failed_field_index := (if failed_field = kInvalidIndex then en_failed_field_index result
                                                 else failed_field)\<rparr>, out)
      | Some (Inr actual_size) \<Rightarrow>
          if actual_size < tap_min_record_length action \<or> actual_size > tap_max_record_length action \<or>
             actual_size > me_frame_size m then
            Some (result\<lparr>en_status := CS_FINAL_REVIEW_FAILED, en_required_size := 0\<rparr>, out)
          else
            let result = result\<lparr>en_required_size := actual_size\<rparr>
            in case AdmitOutput (\<lambda>v. True) descriptor_range values out_address (length out) actual_size of
                 Some (status, None) \<Rightarrow> Some (result\<lparr>en_status := status\<rparr>, out)
               | Some (status, Some value_index) \<Rightarrow>
                   Some (result\<lparr>en_status := status, en_failed_value_index := value_index\<rparr>, out)
               | None \<Rightarrow>
                   let out = WriteText m values indices (tap_segments action) 0 out;
                       encoded = take actual_size out
                   in (case WalkTextAction action m encoded True (review_text m values indices encoded) () of
                         None \<Rightarrow> None
                       | Some (reviewed, _) \<Rightarrow>
                           if reviewed \<noteq> TW_MATCH then Some (result\<lparr>en_status := CS_FINAL_REVIEW_FAILED\<rparr>, out)
                           else Some (result\<lparr>en_status := CS_OK, en_bytes_written := actual_size,
                                             en_failed_value_index := kInvalidIndex,
                                             en_failed_field_index := kInvalidIndex\<rparr>, out)))"

section \<open>Binary messages\<close>

definition GetEncodeRawValue ::
    "MessageExecutionPlan \<Rightarrow> FieldExecutionPlan \<Rightarrow> EncodeFieldValue list \<Rightarrow> nat list \<Rightarrow> u64 list \<Rightarrow> u64" where
  "GetEncodeRawValue m field values indices conversion_raw_values =
     (let v = values ! (indices ! fe_input_ordinal field)
      in if HasConversion field then conversion_raw_values ! fe_conversion_slot field
         else if fe_value_type field = VT_INT64 then
           signed_raw (if fe_encode_source field = ES_CONSTANT then fe_signed_constant_value field
                       else ev_int64_value v) (fe_width field)
         else if fe_encode_source field = ES_CONSTANT then fe_constant_value field
         else if fe_value_type field = VT_ENUM then
           me_enum_raw_values m ! (fe_enum_values_begin field + er_entry_index (ev_enum_value v))
         else if fe_value_type field = VT_BOOL then (if ev_bool_value v then 1 else 0)
         else ev_uint64_value v)"

definition WriteFixedBytes :: "MessageExecutionPlan \<Rightarrow> u8 list \<Rightarrow> u8 list" where
  "WriteFixedBytes m out = fold (\<lambda>fixed_byte out. out[fb_offset fixed_byte := fb_value fixed_byte]) (me_fixed_bytes m) out"

text \<open>One field after the other, into its container or the buffer; the flag tells whether all were stored.\<close>

fun WriteFieldValues ::
    "MessageExecutionPlan \<Rightarrow> EncodeFieldValue list \<Rightarrow> nat list \<Rightarrow> u64 list \<Rightarrow> FieldExecutionPlan list \<Rightarrow>
     u64 list \<Rightarrow> u8 list \<Rightarrow> bool \<times> u64 list \<times> u8 list" where
  "WriteFieldValues m values indices conversion_raw_values [] containers out = (True, containers, out)"
| "WriteFieldValues m values indices conversion_raw_values (field # rest) containers out =
     (if fe_encode_source field = ES_COMPUTED then
        WriteFieldValues m values indices conversion_raw_values rest containers out
      else if fe_value_type field = VT_BYTES then
        WriteFieldValues m values indices conversion_raw_values rest containers
          (put_bytes out (fe_offset field) (input_bytes values indices field))
      else
        let raw_value = GetEncodeRawValue m field values indices conversion_raw_values
        in if fe_bit_container_index field \<noteq> kInvalidIndex then
             WriteFieldValues m values indices conversion_raw_values rest
               (containers[fe_bit_container_index field :=
                  InsertBitfield (containers ! fe_bit_container_index field) raw_value field]) out
           else case StoreUnsigned raw_value out (fe_offset field) (fe_width field) (fe_byte_order field) of
             None \<Rightarrow> (False, containers, out)
           | Some out \<Rightarrow> WriteFieldValues m values indices conversion_raw_values rest containers out)"

fun WriteContainers :: "BitContainerExecutionPlan list \<Rightarrow> nat \<Rightarrow> u64 list \<Rightarrow> u8 list \<Rightarrow> bool \<times> u8 list" where
  "WriteContainers [] index containers out = (True, out)"
| "WriteContainers (c # rest) index containers out =
     (case StoreUnsigned (containers ! index) out (bce_offset c) (bce_width c) (bce_byte_order c) of
        None \<Rightarrow> (False, out)
      | Some out \<Rightarrow> WriteContainers rest (index + 1) containers out)"

definition WriteFields ::
    "MessageExecutionPlan \<Rightarrow> EncodeFieldValue list \<Rightarrow> nat list \<Rightarrow> u64 list \<Rightarrow> u64 list \<Rightarrow> u8 list \<Rightarrow>
     bool \<times> u64 list \<times> u8 list" where
  "WriteFields m values indices conversion_raw_values containers out =
     (if length (me_bit_containers m) > length containers then (False, containers, out)
      else
        let containers = map bce_base_value (me_bit_containers m) @ drop (length (me_bit_containers m)) containers
        in case WriteFieldValues m values indices conversion_raw_values (me_fields m) containers out of
             (False, containers, out) \<Rightarrow> (False, containers, out)
           | (True, containers, out) \<Rightarrow>
               (case WriteContainers (me_bit_containers m) 0 containers out of
                  (stored, out) \<Rightarrow> (stored, containers, out)))"

section \<open>The review of the fields\<close>

datatype FieldVerificationStatus = FV_MATCH | FV_MISMATCH nat | FV_INTERNAL_ERROR nat

text \<open>The value a computed field must hold; the invalid index when the payload length does not resolve.\<close>

definition computed_expected :: "MessageExecutionPlan \<Rightarrow> ComputedLengthPlan \<Rightarrow> nat \<Rightarrow> nat" where
  "computed_expected m c frame_size =
     (case me_bounded_payload m of
        None \<Rightarrow> unat (cl_expected_value c)
      | Some b \<Rightarrow>
          (case ResolvePayloadLength m frame_size of
             None \<Rightarrow> kInvalidIndex
           | Some payload_length \<Rightarrow>
               if cl_scope c = CL_FRAME then frame_size
               else if cl_scope c = CL_PAYLOAD then payload_length
               else unat (cl_expected_value c)))"

definition VerifyComputed :: "MessageExecutionPlan \<Rightarrow> FieldExecutionPlan \<Rightarrow> nat \<Rightarrow> u8 list \<Rightarrow> nat \<Rightarrow> bool" where
  "VerifyComputed m field field_index output frame_size =
     (case me_computed_length m of
        None \<Rightarrow> False
      | Some c \<Rightarrow>
          cl_field_index c = field_index \<and>
          (case LoadUnsigned (drop (fe_offset field) output) (fe_width field) (fe_byte_order field) of
             None \<Rightarrow> False
           | Some actual \<Rightarrow> unat actual = computed_expected m c frame_size))"

text \<open>The raw value read back, from the container as it stands in the buffer or from the field's bytes.\<close>

definition WrittenRawValue :: "MessageExecutionPlan \<Rightarrow> FieldExecutionPlan \<Rightarrow> u8 list \<Rightarrow> u64 option" where
  "WrittenRawValue m field output =
     (if fe_bit_container_index field \<noteq> kInvalidIndex then
        let c = me_bit_containers m ! fe_bit_container_index field
        in map_option (\<lambda>v. ExtractBitfield v field)
             (LoadUnsigned (drop (bce_offset c) output) (bce_width c) (bce_byte_order c))
      else LoadUnsigned (drop (fe_offset field) output) (fe_width field) (fe_byte_order field))"

definition VerifyField ::
    "PlanBundle \<Rightarrow> MessageExecutionPlan \<Rightarrow> EncodeFieldValue list \<Rightarrow> nat list \<Rightarrow> u64 list \<Rightarrow> u8 list \<Rightarrow> nat \<Rightarrow>
     FieldExecutionPlan \<Rightarrow> nat \<Rightarrow> FieldVerificationStatus" where
  "VerifyField plan m values indices conversion_raw_values output frame_size field field_index =
     (let v = values ! (indices ! fe_input_ordinal field)
      in if fe_encode_source field = ES_COMPUTED then
           (if VerifyComputed m field field_index output frame_size then FV_MATCH else FV_MISMATCH field_index)
         else if fe_value_type field = VT_BYTES then
           (let bytes = input_bytes values indices field
            in if take (length bytes) (drop (fe_offset field) output) = bytes then FV_MATCH
               else FV_MISMATCH field_index)
         else case WrittenRawValue m field output of
           None \<Rightarrow> FV_MISMATCH field_index
         | Some actual \<Rightarrow>
             if HasConversion field then
               (case ConvertDecode (pb_conversions plan ! fe_conversion_index field) actual (fe_width field) of
                  Inl status \<Rightarrow> if status = INTERNAL_ERROR then FV_INTERNAL_ERROR field_index
                                else FV_MISMATCH field_index
                | Inr logical \<Rightarrow> if DecimalEqual logical (ev_decimal64_value v) then FV_MATCH
                                 else FV_MISMATCH field_index)
             else if fe_value_type field = VT_INT64 then
               (if InterpretSigned actual (fe_width field) =
                     Some (if fe_encode_source field = ES_CONSTANT then fe_signed_constant_value field
                           else ev_int64_value v)
                then FV_MATCH else FV_MISMATCH field_index)
             else if actual = GetEncodeRawValue m field values indices conversion_raw_values then FV_MATCH
             else FV_MISMATCH field_index)"

fun VerifyFields ::
    "PlanBundle \<Rightarrow> MessageExecutionPlan \<Rightarrow> EncodeFieldValue list \<Rightarrow> nat list \<Rightarrow> u64 list \<Rightarrow> u8 list \<Rightarrow> nat \<Rightarrow>
     FieldExecutionPlan list \<Rightarrow> nat \<Rightarrow> FieldVerificationStatus" where
  "VerifyFields plan m values indices conversion_raw_values output frame_size [] field_index = FV_MATCH"
| "VerifyFields plan m values indices conversion_raw_values output frame_size (field # rest) field_index =
     (case VerifyField plan m values indices conversion_raw_values output frame_size field field_index of
        FV_MATCH \<Rightarrow>
          VerifyFields plan m values indices conversion_raw_values output frame_size rest (field_index + 1)
      | failure \<Rightarrow> failure)"

section \<open>The call\<close>

text \<open>The frame size: that of the message, or header, payload and trailer.\<close>

definition ResolveEncodeSize ::
    "MessageExecutionPlan \<Rightarrow> EncodeFieldValue list \<Rightarrow> nat list \<Rightarrow> nat option" where
  "ResolveEncodeSize m values indices =
     (case me_bounded_payload m of
        None \<Rightarrow> Some (me_frame_size m)
      | Some b \<Rightarrow>
          if bp_payload_field_index b \<ge> length (me_fields m) then None
          else
            let field = me_fields m ! bp_payload_field_index b
            in if fe_input_ordinal field \<ge> length indices then None
               else
                 let n = bp_header_length b + length (input_bytes values indices field) + bp_trailer_length b
                 in if n < bp_min_frame_length b \<or> n > bp_max_frame_length b then None else Some n)"

text \<open>Everything after the admission of the output: writing and review.\<close>

definition WriteAndReview ::
    "PlanBundle \<Rightarrow> PipelineExecutionPlan \<Rightarrow> nat \<Rightarrow> MessageExecutionPlan \<Rightarrow> EncodeFieldValue list \<Rightarrow> nat \<Rightarrow>
     ExecutionWorkspace \<Rightarrow> u8 list \<Rightarrow> EncodeResult \<Rightarrow> (EncodeResult \<times> ExecutionWorkspace \<times> u8 list) option" where
  "WriteAndReview plan pipeline message_index m values actual_size ws out result =
     (let indices = ew_encode_value_indices ws; raw_values = ew_encode_conversion_raw_values ws;
          failed = result\<lparr>en_status := CS_FINAL_REVIEW_FAILED\<rparr>
      in case WriteFields m values indices raw_values (ew_bit_container_values ws) (WriteFixedBytes m out) of
           (written, containers, out) \<Rightarrow>
             let ws = ws\<lparr>ew_bit_container_values := containers\<rparr>;
                 length_field = (case me_computed_length m of None \<Rightarrow> en_failed_field_index result
                                                            | Some c \<Rightarrow> cl_field_index c);
                 length_failed = failed\<lparr>en_failed_field_index := length_field\<rparr>
             in if \<not> written then Some (failed, ws, out)
                else case WriteComputedLength m out actual_size of
                  None \<Rightarrow> Some (length_failed, ws, out)
                | Some out \<Rightarrow>
                    if \<not> IntegrityDescriptorValid m then Some (failed, ws, out)
                    else (case WriteIntegrity m out actual_size of
                      None \<Rightarrow> Some (failed, ws, out)
                    | Some out \<Rightarrow>
                        if me_integrity m \<noteq> None \<and> \<not> IntegrityMatches m out actual_size then Some (failed, ws, out)
                        else if \<not> ComputedLengthMatches m out actual_size then Some (length_failed, ws, out)
                        else
                          (case FindPipelineMatch pipeline (pb_message_execution_plans plan) (take actual_size out) of
                             None \<Rightarrow> None
                           | Some outcome \<Rightarrow>
                               if mo_match_count outcome \<noteq> 1 \<or> mo_message_index outcome \<noteq> message_index then
                                 Some (failed, ws, out)
                               else
                                 Some (case VerifyFields plan m values indices raw_values out actual_size (me_fields m) 0 of
                                    FV_INTERNAL_ERROR i \<Rightarrow>
                                      (result\<lparr>en_status := CS_INTERNAL_ERROR, en_failed_field_index := i\<rparr>, ws, out)
                                  | FV_MISMATCH i \<Rightarrow> (failed\<lparr>en_failed_field_index := i\<rparr>, ws, out)
                                  | FV_MATCH \<Rightarrow>
                                      (result\<lparr>en_status := CS_OK, en_bytes_written := actual_size,
                                              en_failed_value_index := kInvalidIndex,
                                              en_failed_field_index := kInvalidIndex\<rparr>, ws, out)))))"

definition EncodeBinary ::
    "PlanBundle \<Rightarrow> PipelineExecutionPlan \<Rightarrow> nat \<Rightarrow> MessageExecutionPlan \<Rightarrow> AddressRange \<Rightarrow> EncodeFieldValue list \<Rightarrow>
     ExecutionWorkspace \<Rightarrow> nat \<Rightarrow> u8 list \<Rightarrow> EncodeResult \<Rightarrow> (EncodeResult \<times> ExecutionWorkspace \<times> u8 list) option" where
  "EncodeBinary plan pipeline message_index m descriptor_range values ws out_address out result =
     (case ResolveEncodeSize m values (ew_encode_value_indices ws) of
        None \<Rightarrow> Some (result\<lparr>en_status := CS_FINAL_REVIEW_FAILED, en_required_size := 0\<rparr>, ws, out)
      | Some actual_size \<Rightarrow>
          let result = result\<lparr>en_required_size := actual_size\<rparr>
          in case AdmitOutput (\<lambda>v. ev_value_kind v = LK_BYTES) descriptor_range values out_address (length out)
                    actual_size of
               Some (status, None) \<Rightarrow> Some (result\<lparr>en_status := status\<rparr>, ws, out)
             | Some (status, Some value_index) \<Rightarrow>
                 Some (result\<lparr>en_status := status, en_failed_value_index := value_index,
                              en_failed_field_index := fr_field_index (ev_field (values ! value_index))\<rparr>, ws, out)
             | None \<Rightarrow>
                 if \<not> ComputedLengthDescriptorValid m then
                   Some (result\<lparr>en_status := CS_FINAL_REVIEW_FAILED\<rparr>, ws, out)
                 else WriteAndReview plan pipeline message_index m values actual_size ws out result)"

definition EncodeLeased ::
    "PlanBundle \<Rightarrow> nat \<Rightarrow> ExecutionWorkspace \<Rightarrow> nat \<Rightarrow> nat \<Rightarrow> nat \<Rightarrow> EncodeFieldValue list \<Rightarrow> nat \<Rightarrow> u8 list \<Rightarrow>
     (EncodeResult \<times> ExecutionWorkspace \<times> u8 list) option" where
  "EncodeLeased plan value_size ws pipeline_index message_index values_address values out_address out =
     (let result = no_encode_result;
          ws = ws\<lparr>ew_raw_integer_count := 0, ew_raw_integer_message_index := kInvalidIndex\<rparr>;
          version = pb_schema_version plan
      in if ew_plan_scope ws \<noteq> pb_address plan then
           Some (result\<lparr>en_status := CS_WORKSPACE_PLAN_MISMATCH\<rparr>, ws, out)
         else if \<not> SupportsCompleteRecordSchema version then Some (result\<lparr>en_status := CS_INVALID_PLAN\<rparr>, ws, out)
         else if values_address = 0 \<and> values \<noteq> [] then Some (result, ws, out)
         else (case GetArrayAddressRange values_address (length values) value_size of
           None \<Rightarrow> Some (result, ws, out)
         | Some descriptor_range \<Rightarrow>
             if length values > ew_max_values_per_call ws then Some (result, ws, out)
             else if pipeline_index \<ge> length (pb_pipeline_execution_plans plan) then Some (result, ws, out)
             else
               let pipeline = pb_pipeline_execution_plans plan ! pipeline_index;
                   messages = pb_message_execution_plans plan
               in if message_index \<ge> length messages \<or> \<not> MessageIsAllowed pipeline message_index then
                    Some (result\<lparr>en_status := CS_MESSAGE_NOT_ALLOWED\<rparr>, ws, out)
                  else
                    let m = messages ! message_index; result = result\<lparr>en_required_size := me_frame_size m\<rparr>
                    in if text_schema version \<and> me_text_encode m = None then
                         Some (result\<lparr>en_status := CS_OPERATION_NOT_SUPPORTED, en_required_size := 0\<rparr>, ws, out)
                       else (case PrepareEncodeInputs plan m message_index values ws result of
                         (status, ws, result) \<Rightarrow>
                           if status \<noteq> CS_OK then Some (result\<lparr>en_status := status, en_required_size := 0\<rparr>, ws, out)
                           else (case me_text_encode m of
                             Some action \<Rightarrow>
                               map_option (\<lambda>(result, out). (result, ws, out))
                                 (EncodeText m action descriptor_range values (ew_encode_value_indices ws) out_address out result)
                           | None \<Rightarrow>
                               EncodeBinary plan pipeline message_index m descriptor_range values ws out_address out result))))"

definition EncodeCompleteRecord ::
    "PlanBundle \<Rightarrow> nat \<Rightarrow> ExecutionWorkspace \<Rightarrow> nat \<Rightarrow> nat \<Rightarrow> nat \<Rightarrow> EncodeFieldValue list \<Rightarrow> nat \<Rightarrow> u8 list \<Rightarrow>
     (EncodeResult \<times> ExecutionWorkspace \<times> u8 list) option" where
  "EncodeCompleteRecord plan value_size ws pipeline_index message_index values_address values out_address out =
     (if ew_in_use ws then Some (no_encode_result\<lparr>en_status := CS_WORKSPACE_BUSY\<rparr>, ws, out)
      else map_option (\<lambda>(result, ws, out). (result, ws\<lparr>ew_in_use := False\<rparr>, out))
             (EncodeLeased plan value_size (ws\<lparr>ew_in_use := True\<rparr>) pipeline_index message_index
                values_address values out_address out))"

end
