(* ===== verification/Codec_Session.thy ===== *)
theory Codec_Session
  imports Codec_Decode Codec_Encode
begin

text \<open>
  The life of an execution workspace: it is created for a plan and then used by decoder and encoder calls in any
  order.  The sizes fixed at its creation and the plan it is bound to never change, a call that returns releases it,
  and a call that fails delivers nothing.
\<close>

section \<open>What no call changes\<close>

definition shape where
  "shape ws = (ew_plan_scope ws, ew_max_values_per_call ws, length (ew_encode_value_indices ws),
     length (ew_encode_present_words ws), length (ew_bit_container_values ws),
     length (ew_decode_decimal_coefficients ws), length (ew_decode_decimal_scales ws),
     length (ew_raw_integer_bits ws), length (ew_raw_integer_kinds ws), length (ew_raw_integer_field_indices ws),
     length (ew_encode_conversion_raw_values ws), ew_in_use ws)"

definition layout_shape where
  "layout_shape plan = (let layout = pb_layout plan; n = rl_conversion_value_count layout
     in (pb_address plan, rl_max_fields_per_message layout, rl_encode_value_index_count layout,
         rl_encode_presence_word_count layout, rl_bit_container_value_count layout, n, n, n, n, n, n, False))"

definition workspace_ok :: "PlanBundle \<Rightarrow> ExecutionWorkspace \<Rightarrow> bool" where
  "workspace_ok plan ws \<longleftrightarrow> shape ws = layout_shape plan \<and>
     ew_raw_integer_count ws \<le> length (ew_raw_integer_bits ws)"

lemma LoadContainers_length: "length (snd (LoadContainers data cs index values)) = length values"
  by (induction data cs index "values" rule: LoadContainers.induct) (auto split: option.splits)

lemma PrecheckConversion_shape:
  "PrecheckConversion plan data i field ws converted = Inr ws' \<Longrightarrow>
     shape ws' = shape ws \<and> converted < length (ew_raw_integer_bits ws)"
  by (auto simp: PrecheckConversion_def Let_def shape_def split: if_splits option.splits sum.splits)

lemma shape_bits: "shape ws' = shape ws \<Longrightarrow> length (ew_raw_integer_bits ws') = length (ew_raw_integer_bits ws)"
  by (simp add: shape_def)

lemma PrecheckFields_shape:
  "PrecheckFields plan m data fs i ws converted tainted = (ws', r) \<Longrightarrow>
     shape ws' = shape ws \<and>
     (\<forall>converted' t. r = Inr (converted', t) \<longrightarrow> converted \<le> length (ew_raw_integer_bits ws) \<longrightarrow>
        converted' \<le> length (ew_raw_integer_bits ws))"
proof (induction plan m data fs i ws converted tainted rule: PrecheckFields.induct)
  case (2 plan m data field rest i ws converted tainted)
  show ?case
  proof (cases "conversion_schema (pb_schema_version plan) \<and> ConversionPlanValid plan field \<and> HasConversion field")
    case True
    show ?thesis
    proof (cases "PrecheckConversion plan data i field ws converted")
      case (Inr ws1)
      note s = PrecheckConversion_shape [OF Inr]
      have "shape ws' = shape ws1 \<and> (\<forall>converted' t. r = Inr (converted', t) \<longrightarrow>
          converted + 1 \<le> length (ew_raw_integer_bits ws1) \<longrightarrow> converted' \<le> length (ew_raw_integer_bits ws1))"
        using 2 True Inr by simp
      then show ?thesis using s shape_bits [of ws1 ws] by simp
    qed (use 2 True in auto)
  next
    case False
    then show ?thesis
      using 2 by (auto split: if_splits sum.splits)
  qed
qed auto

lemma shape_containers:
  "length vs = length (ew_bit_container_values ws) \<Longrightarrow> shape (ws\<lparr>ew_bit_container_values := vs\<rparr>) = shape ws"
  by (simp add: shape_def)

lemma shape_count [simp]:
  "shape (ws\<lparr>ew_raw_integer_count := n, ew_raw_integer_message_index := i\<rparr>) = shape ws"
  by (simp add: shape_def)

definition counted :: "ExecutionWorkspace \<Rightarrow> bool" where
  "counted ws \<longleftrightarrow> ew_raw_integer_count ws \<le> length (ew_raw_integer_bits ws)"

lemma PrecheckFields_count:
  "PrecheckFields plan m data fs i ws converted tainted = (ws', r) \<Longrightarrow> ew_raw_integer_count ws' = ew_raw_integer_count ws"
  by (induction plan m data fs i ws converted tainted rule: PrecheckFields.induct)
    (auto simp: PrecheckConversion_def Let_def split: if_splits sum.splits option.splits)

lemma DecodeBinary_shape:
  assumes "DecodeBinary plan message_index m slot_size input slots_address slots result ws = (r, ws', slots')" "counted ws"
  shows "shape ws' = shape ws \<and> counted ws'"
proof -
  obtain loaded vs where l: "LoadContainers (cv_bytes input) (me_bit_containers m) 0 (ew_bit_container_values ws) = (loaded, vs)"
    by fastforce
  have vs: "length vs = length (ew_bit_container_values ws)"
    using LoadContainers_length [of "cv_bytes input" "me_bit_containers m" 0 "ew_bit_container_values ws"] l by simp
  let ?ws1 = "ws\<lparr>ew_bit_container_values := vs\<rparr>"
  have s1: "shape ?ws1 = shape ws" using vs by (rule shape_containers)
  have c1: "counted ?ws1" using assms(2) by (simp add: counted_def)
  obtain ws2 o2 where p: "PrecheckFields plan m (cv_bytes input) (me_fields m) 0 ?ws1 0 False = (ws2, o2)" by fastforce
  note p2 = PrecheckFields_shape [OF p] PrecheckFields_count [OF p]
  have s2: "shape ws2 = shape ws" using p2 s1 by simp
  have c2: "counted ws2" using p2(2) shape_bits [OF s2] assms(2) by (simp add: counted_def)
  have c3: "o2 = Inr (converted, t) \<Longrightarrow> counted (ws2\<lparr>ew_raw_integer_count := converted, ew_raw_integer_message_index := j\<rparr>)"
    for converted t j using p2(1) shape_bits [OF s2] by (simp add: counted_def)
  show ?thesis
    using assms s1 c1 s2 c2 c3
    by (auto simp: DecodeBinary_def Let_def l p split: option.splits sum.splits prod.splits if_splits)
qed

lemma DecodeLeased_shape:
  assumes "DecodeLeased plan slot_size ws pipeline_index input slots_address slots = Some (r, ws', slots')"
  shows "shape ws' = shape ws \<and> counted ws'"
proof -
  let ?ws = "ws\<lparr>ew_raw_integer_count := 0, ew_raw_integer_message_index := kInvalidIndex\<rparr>"
  have c: "counted ?ws" by (simp add: counted_def)
  have b: "shape ws2 = shape ws \<and> counted ws2"
    if "DecodeBinary plan i m slot_size input slots_address sl result ?ws = (r2, ws2, slots2)" for i m sl result r2 ws2 slots2
    using DecodeBinary_shape [OF that c] by simp
  show ?thesis
    using assms c
    by (auto simp: DecodeLeased_def Let_def split: option.splits if_splits dest!: b)
qed

lemma PrepareValues_length:
  "PrepareValues plan m message_index vs value_index failed indices present = (r, indices', present') \<Longrightarrow>
     length indices' = length indices \<and> length present' = length present"
  by (induction plan m message_index vs value_index failed indices present rule: PrepareValues.induct)
    (auto simp: Let_def MarkPresent_def split: if_splits option.splits)

lemma DeferredValueCheck_length:
  "DeferredValueCheck plan m message_index i field v raws = Inr raws' \<Longrightarrow> length raws' = length raws"
  by (auto simp: DeferredValueCheck_def split: if_splits option.splits sum.splits)

lemma DeferredChecks_length:
  "DeferredChecks plan m message_index vs indices fs i raws = (r, raws') \<Longrightarrow> length raws' = length raws"
  by (induction plan m message_index vs indices fs i raws rule: DeferredChecks.induct)
    (auto simp: Let_def split: if_splits sum.splits dest: DeferredValueCheck_length)

lemma PrepareEncodeInputs_shape:
  assumes "PrepareEncodeInputs plan m message_index vs ws result = (status, ws', result')" "counted ws"
  shows "shape ws' = shape ws \<and> counted ws'"
proof -
  let ?present = "replicate (PresenceWordCount (me_required_input_count m)) 0 @
      drop (PresenceWordCount (me_required_input_count m)) (ew_encode_present_words ws)"
  obtain r indices present where v: "PrepareValues plan m message_index vs 0 kInvalidIndex
      (ew_encode_value_indices ws) ?present = (r, indices, present)" by (metis surj_pair)
  obtain d raws where d: "DeferredChecks plan m message_index vs indices (me_fields m) 0
      (ew_encode_conversion_raw_values ws) = (d, raws)" by fastforce
  show ?thesis
    using assms PrepareValues_length [OF v] DeferredChecks_length [OF d]
    by (auto simp: PrepareEncodeInputs_def Let_def v d shape_def counted_def split: if_splits option.splits)
qed

lemma WriteFieldValues_length:
  "WriteFieldValues m vs indices raws fs containers out = (b, containers', out') \<Longrightarrow> length containers' = length containers"
  by (induction m vs indices raws fs containers out rule: WriteFieldValues.induct)
    (auto simp: Let_def split: if_splits option.splits)

lemma WriteFields_length:
  "WriteFields m vs indices raws containers out = (b, containers', out') \<Longrightarrow> length containers' = length containers"
  by (auto simp: WriteFields_def Let_def split: if_splits bool.splits prod.splits dest!: WriteFieldValues_length)

lemma WriteAndReview_shape:
  assumes "WriteAndReview plan pipeline message_index m vs n ws out result = Some (r, ws', out')"
  shows "shape ws' = shape ws \<and> (counted ws \<longrightarrow> counted ws')"
proof -
  obtain b containers out1 where w: "WriteFields m vs (ew_encode_value_indices ws) (ew_encode_conversion_raw_values ws)
      (ew_bit_container_values ws) (WriteFixedBytes m out) = (b, containers, out1)" by (metis surj_pair)
  have "ws' = ws\<lparr>ew_bit_container_values := containers\<rparr>"
    using assms by (auto simp: WriteAndReview_def Let_def w split: if_splits option.splits FieldVerificationStatus.splits)
  then show ?thesis using shape_containers [OF WriteFields_length [OF w]] by (simp add: counted_def)
qed

lemma EncodeLeased_shape:
  assumes "EncodeLeased plan value_size ws pipeline_index message_index va vs oa out = Some (r, ws', out')"
  shows "shape ws' = shape ws \<and> counted ws'"
proof -
  let ?ws = "ws\<lparr>ew_raw_integer_count := 0, ew_raw_integer_message_index := kInvalidIndex\<rparr>"
  have c: "counted ?ws" by (simp add: counted_def)
  have p: "shape ws2 = shape ws \<and> counted ws2"
    if "PrepareEncodeInputs plan m message_index vs ?ws result = (status, ws2, result2)" for m result status ws2 result2
    using PrepareEncodeInputs_shape [OF that c] by simp
  have b: "shape ws3 = shape ws2 \<and> (counted ws2 \<longrightarrow> counted ws3)"
    if "EncodeBinary plan pipeline message_index m dr vs ws2 oa out result = Some (r2, ws3, out2)"
    for pipeline m dr ws2 result r2 ws3 out2
    using that
    by (auto simp: EncodeBinary_def Let_def split: option.splits if_splits prod.splits dest!: WriteAndReview_shape)
  show ?thesis
    using assms c
    by (auto simp: EncodeLeased_def Let_def split: option.splits if_splits prod.splits dest!: p b)
qed

section \<open>Sessions\<close>

inductive codec_session :: "PlanBundle \<Rightarrow> ExecutionWorkspace \<Rightarrow> bool" for plan where
  create: "codec_session plan (NewExecutionWorkspace plan)"
| decode: "codec_session plan ws \<Longrightarrow>
    DecodeCompleteRecord plan' slot_size ws pipeline_index input slots_address slots = Some (r, ws', slots') \<Longrightarrow>
    codec_session plan ws'"
| encode: "codec_session plan ws \<Longrightarrow>
    EncodeCompleteRecord plan' value_size ws pipeline_index message_index va vs oa out = Some (e, ws', out') \<Longrightarrow>
    codec_session plan ws'"

lemma shape_use: "shape (ws\<lparr>ew_in_use := u\<rparr>) = shape ws2 \<Longrightarrow> shape (ws2\<lparr>ew_in_use := u'\<rparr>) = shape (ws\<lparr>ew_in_use := u'\<rparr>)"
  by (simp add: shape_def)

lemma call_keeps:
  assumes "workspace_ok plan ws" "shape ws' = shape (ws\<lparr>ew_in_use := True\<rparr>)" "counted ws'"
  shows "workspace_ok plan (ws'\<lparr>ew_in_use := False\<rparr>)"
proof -
  have "shape (ws'\<lparr>ew_in_use := False\<rparr>) = shape (ws\<lparr>ew_in_use := False\<rparr>)"
    using assms(2) by (intro shape_use) simp
  moreover have "shape (ws\<lparr>ew_in_use := False\<rparr>) = shape ws"
    using assms(1) by (simp add: workspace_ok_def layout_shape_def shape_def Let_def)
  ultimately show ?thesis using assms(1,3) by (simp add: workspace_ok_def counted_def)
qed

lemma session_workspace: "codec_session plan ws \<Longrightarrow> workspace_ok plan ws"
proof (induction rule: codec_session.induct)
  case create
  show ?case by (simp add: workspace_ok_def shape_def layout_shape_def NewExecutionWorkspace_def Let_def)
next
  case (decode ws plan' slot_size pipeline_index input slots_address slots r ws' slots')
  then have "\<not> ew_in_use ws" by (simp add: workspace_ok_def shape_def layout_shape_def Let_def)
  then obtain ws1 where "DecodeLeased plan' slot_size (ws\<lparr>ew_in_use := True\<rparr>) pipeline_index input slots_address slots =
      Some (r, ws1, slots')" "ws' = ws1\<lparr>ew_in_use := False\<rparr>"
    using decode.hyps(2) by (auto simp: DecodeCompleteRecord_def)
  then show ?case using call_keeps [OF decode.IH] DecodeLeased_shape by blast
next
  case (encode ws plan' value_size pipeline_index message_index va vs oa out e ws' out')
  then have "\<not> ew_in_use ws" by (simp add: workspace_ok_def shape_def layout_shape_def Let_def)
  then obtain ws1 where "EncodeLeased plan' value_size (ws\<lparr>ew_in_use := True\<rparr>) pipeline_index message_index va vs oa out =
      Some (e, ws1, out')" "ws' = ws1\<lparr>ew_in_use := False\<rparr>"
    using encode.hyps(2) by (auto simp: EncodeCompleteRecord_def)
  then show ?case using call_keeps [OF encode.IH] EncodeLeased_shape by blast
qed

section \<open>Failed calls\<close>

lemma MaterialiseFields_length:
  "MaterialiseFields plan message_index m input ws fs i slots = (failed, slots') \<Longrightarrow> length slots' = length slots"
  by (induction plan message_index m input ws fs i slots rule: MaterialiseFields.induct) (auto split: option.splits)

lemma DecodeBinary_failure:
  assumes "DecodeBinary plan message_index m slot_size input slots_address slots result ws = (r, ws', slots')"
    and "dr_status r \<noteq> CS_OK"
  shows "dr_field_count r = dr_field_count result \<and> ew_raw_integer_count ws' = ew_raw_integer_count ws \<and>
    length slots' = length slots \<and> (slots' \<noteq> slots \<longrightarrow> dr_status r = CS_INVALID_PLAN)"
proof -
  have p: "ew_raw_integer_count ws2 = ew_raw_integer_count ws"
    if "PrecheckFields plan m (cv_bytes input) (me_fields m) 0 (ws\<lparr>ew_bit_container_values := vs\<rparr>) 0 False = (ws2, o2)"
    for vs ws2 o2 using PrecheckFields_count [OF that] by simp
  show ?thesis
    using assms
    by (auto simp: DecodeBinary_def Let_def split: option.splits sum.splits prod.splits if_splits
        dest: p MaterialiseFields_length)
qed

lemma Walk_loop_slots:
  "Walk_loop m input v (materialise_text a i n view) segs cursor s = Some (status, s') \<Longrightarrow>
     length (snd s') = length (snd s)"
proof (induction segs arbitrary: cursor s)
  case (Cons seg segs)
  have "length (snd (snd (materialise_text a i n view f c l t))) = length (snd t)" for f c l t
    by (simp add: materialise_text_def split: prod.split)
  note this [simp]
  show ?case
    using Cons by (auto simp: Let_def split: if_splits option.splits FieldExtent.splits prod.splits)
      (metis \<open>\<And>t l f c. length (snd (snd (materialise_text a i n view f c l t))) = length (snd t)\<close> snd_conv)+
qed simp

lemma DecodeText_failure:
  assumes "DecodeText plan message_index m action slot_size input slots_address slots result = Some (r, slots')"
    and "dr_status r \<noteq> CS_OK"
  shows "dr_field_count r = dr_field_count result \<and> length slots' = length slots \<and>
    (slots' \<noteq> slots \<longrightarrow> dr_status r = CS_INVALID_PLAN)"
proof -
  have w: "length (snd s') = length slots"
    if "WalkTextAction action m (cv_bytes input) False
      (materialise_text (pb_address plan) message_index (me_text_decode_field_count m) input) (0, slots) = Some (st, s')" for st s'
    using that by (auto simp: WalkTextAction_def split: if_splits dest: Walk_loop_slots)
  show ?thesis
    using assms by (auto simp: DecodeText_def Let_def split: option.splits prod.splits if_splits dest!: w)
qed

lemma decode_failure:
  assumes "DecodeCompleteRecord plan slot_size ws pipeline_index input slots_address slots = Some (r, ws', slots')"
    and "dr_status r \<noteq> CS_OK"
  shows "dr_field_count r = 0 \<and> length slots' = length slots \<and>
    (slots' \<noteq> slots \<longrightarrow> dr_status r = CS_INVALID_PLAN) \<and> (\<not> ew_in_use ws \<longrightarrow> LastRawIntegerCount ws' = 0)"
  using assms
  by (auto simp: DecodeCompleteRecord_def DecodeLeased_def Let_def no_decode_result_def LastRawIntegerCount_def
      split: if_splits option.splits dest!: DecodeBinary_failure DecodeText_failure)

lemma WriteAndReview_failure:
  assumes "WriteAndReview plan pipeline message_index m vs n ws out result = Some (r, ws', out')" "en_status r \<noteq> CS_OK"
  shows "en_bytes_written r = en_bytes_written result \<and>
    (en_status r = CS_FINAL_REVIEW_FAILED \<or> en_status r = CS_INTERNAL_ERROR)"
  using assms
  by (auto simp: WriteAndReview_def Let_def split: if_splits option.splits FieldVerificationStatus.splits prod.splits)

lemma EncodeBinary_failure:
  assumes "EncodeBinary plan pipeline message_index m dr vs ws oa out result = Some (r, ws', out')" "en_status r \<noteq> CS_OK"
  shows "en_bytes_written r = en_bytes_written result \<and>
    (out' \<noteq> out \<longrightarrow> en_status r = CS_FINAL_REVIEW_FAILED \<or> en_status r = CS_INTERNAL_ERROR)"
  using assms
  by (auto simp: EncodeBinary_def Let_def split: option.splits if_splits prod.splits dest!: WriteAndReview_failure)

lemma EncodeText_failure:
  assumes "EncodeText m action dr vs indices oa out result = Some (r, out')" "en_status r \<noteq> CS_OK"
  shows "en_bytes_written r = en_bytes_written result \<and> (out' \<noteq> out \<longrightarrow> en_status r = CS_FINAL_REVIEW_FAILED)"
  using assms
  by (auto simp: EncodeText_def Let_def split: option.splits if_splits prod.splits sum.splits)

lemma PrepareEncodeInputs_written:
  "PrepareEncodeInputs plan m message_index vs ws result = (status, ws', result') \<Longrightarrow>
     en_bytes_written result' = en_bytes_written result"
  by (auto simp: PrepareEncodeInputs_def Let_def split: if_splits option.splits prod.splits)

lemma encode_failure:
  assumes "EncodeCompleteRecord plan value_size ws pipeline_index message_index va vs oa out = Some (r, ws', out')"
    and "en_status r \<noteq> CS_OK"
  shows "en_bytes_written r = 0 \<and>
    (out' \<noteq> out \<longrightarrow> en_status r = CS_FINAL_REVIEW_FAILED \<or> en_status r = CS_INTERNAL_ERROR)"
proof (cases "ew_in_use ws")
  case True
  then show ?thesis using assms by (auto simp: EncodeCompleteRecord_def no_encode_result_def)
next
  case False
  have p: "en_bytes_written result' = 0" if "PrepareEncodeInputs plan m message_index vs ws2 result = (status, ws3, result')"
    "en_bytes_written result = 0" for m ws2 result status ws3 result'
    using PrepareEncodeInputs_written [OF that(1)] that(2) by simp
  show ?thesis
    using assms False
    by (auto simp: EncodeCompleteRecord_def EncodeLeased_def Let_def no_encode_result_def
        split: if_splits option.splits prod.splits dest!: EncodeBinary_failure EncodeText_failure
        PrepareEncodeInputs_written)
qed

section \<open>An example\<close>

text \<open>A plan with the bounded message of \<^theory_text>\<open>Integrity\<close> as its only message; \<open>Plan_Example\<close> builds it.\<close>

definition example_field :: FieldPlan where
  "example_field = \<lparr>fl_id = ''length'', fl_value_type = VT_UINT64, fl_wire_codec = WC_UNSIGNED_INTEGER, fl_byte_offset = 1,
     fl_byte_width = 1, fl_byte_order = BO_NOT_APPLICABLE, fl_encode_source = ES_COMPUTED, fl_constant_value = None,
     fl_unknown_enum_policy = UE_REJECT, fl_enum_entries = [], fl_bit_container_index = kInvalidIndex, fl_bit_offset = 0,
     fl_bit_width = 0, fl_signed_constant_value = None, fl_conversion_index = kInvalidIndex, fl_text_min_length = 0,
     fl_text_max_length = 0, fl_allowed_ascii_low = 0, fl_allowed_ascii_high = 0\<rparr>"

definition example_message_plan :: MessagePlan where
  "example_message_plan = \<lparr>ms_id = ''sample'', ms_direction_id = ''up'', ms_frame_length_bytes = 8,
     ms_matchers = [\<lparr>mp_kind = MK_FIXED_BYTES, mp_length_bytes = 0, mp_byte_offset = 0, mp_bytes = [0xAA]\<rparr>],
     ms_bit_containers = [], ms_integrity = Some example_crc,
     ms_bounded_payload = me_bounded_payload example_message, ms_computed_length = me_computed_length example_message,
     ms_fields = [example_field, example_field\<lparr>fl_id := ''payload'', fl_value_type := VT_BYTES, fl_wire_codec := WC_BYTES,
       fl_byte_offset := 2, fl_byte_width := 4, fl_encode_source := ES_INPUT\<rparr>],
     ms_ascii_text = None\<rparr>"

definition example_framing :: FramingPlan where
  "example_framing = \<lparr>fp_id = ''records'', fp_input_kind = IK_COMPLETE_RECORD, fp_strategy = FS_COMPLETE_RECORD,
     fp_frame_length_bytes = 0, fp_sync_bytes = [], fp_sync_prefix_table = [], fp_length_field_offset = 0,
     fp_length_field_width = 0, fp_length_field_byte_order = BO_NOT_APPLICABLE, fp_minimum_frame_length = 0,
     fp_maximum_frame_length = 0\<rparr>"

definition example_pipeline_plan :: PipelinePlan where
  "example_pipeline_plan = \<lparr>pl_id = ''line'', pl_direction_id = ''up'', pl_framing_profile_index = 0, pl_message_indices = [0]\<rparr>"

definition example_plan :: PlanBundle where
  "example_plan = \<lparr>pb_address = 1000, pb_schema_version = ''0.8'', pb_protocol_id = ''example'',
     pb_protocol_version = ''1'', pb_resource_profile = DESKTOP,
     pb_resource_requirements = \<lparr>rq_max_frame_bytes = 8, rq_framing_profile_count = 1, rq_pipeline_count = 1,
       rq_message_count = 1, rq_total_field_count = 2, rq_total_matcher_count = 1, rq_total_enum_entry_count = 0,
       rq_total_bit_container_count = 0, rq_total_integrity_rule_count = 1, rq_total_computed_length_count = 1,
       rq_total_conversion_count = 0, rq_max_stream_frame_bytes = 0, rq_max_sync_bytes = 0,
       rq_max_framing_buffer_bytes = 0, rq_total_text_segment_count = 0\<rparr>,
     pb_framing_profiles = [example_framing], pb_pipelines = [example_pipeline_plan],
     pb_messages = [example_message_plan], pb_conversions = [],
     pb_layout = \<lparr>rl_max_fields_per_message = 2, rl_max_input_fields_per_message = 1,
       rl_encode_value_index_count = 1, rl_encode_presence_word_count = 1, rl_bit_container_value_count = 0,
       rl_conversion_value_count = 0, rl_estimated_workspace_bytes = 16\<rparr>,
     pb_message_execution_plans = [example_message], pb_pipeline_execution_plans = [example_pipeline]\<rparr>"

definition example_workspace :: ExecutionWorkspace where
  "example_workspace = NewExecutionWorkspace example_plan"

definition example_view :: "u8 list \<Rightarrow> CodecByteView" where
  "example_view bytes = \<lparr>cv_address = 5000, cv_bytes = bytes\<rparr>"

lemma example_unknown:
  "DecodeCompleteRecord example_plan 64 example_workspace 0 (example_view [0xAA]) 9000 [no_slot, no_slot] =
     Some (no_decode_result\<lparr>dr_status := CS_UNKNOWN_MESSAGE\<rparr>, example_workspace, [no_slot, no_slot])"
  by (simp add: DecodeCompleteRecord_def DecodeLeased_def example_workspace_def NewExecutionWorkspace_def
      example_plan_def example_view_def SupportsCompleteRecordSchema_def text_schema_def Let_def
      FindPipelineMatch_def FindCandidateGroup_def FindCandidateGroup_loop.simps examine_def example_pipeline_def
      MessageMatches_def example_message_def)

lemma example_refused:
  "EncodeCompleteRecord example_plan 96 example_workspace 0 0 0 [] 9000 [0, 0, 0, 0, 0, 0, 0, 0] =
     Some (no_encode_result\<lparr>en_status := CS_MISSING_FIELD, en_failed_field_index := 1\<rparr>, example_workspace,
       [0, 0, 0, 0, 0, 0, 0, 0])"
  by (simp add: EncodeCompleteRecord_def EncodeLeased_def example_workspace_def NewExecutionWorkspace_def
      example_plan_def SupportsCompleteRecordSchema_def text_schema_def Let_def GetArrayAddressRange_def
      GetAddressRange_def MessageIsAllowed_def example_pipeline_def PrepareEncodeInputs_def PresenceWordCount_def
      kPresenceWordBits_def example_message_def example_length_field_def example_payload_field_def
      field_missing_def IsPresent_def no_encode_result_def)

section \<open>Properties\<close>

text \<open>C22. In every session of decoder and encoder calls, whatever their arguments and results and also for calls with
  a foreign plan, the workspace stays bound to its plan, keeps the sizes the plan's layout gave it, is released
  after each call, and never counts more raw integers than it has room for.\<close>

theorem codec_session_workspace:
  assumes "codec_session plan ws"
  shows "\<not> ew_in_use ws \<and> ew_plan_scope ws = pb_address plan \<and>
    length (ew_encode_value_indices ws) = rl_encode_value_index_count (pb_layout plan) \<and>
    length (ew_encode_present_words ws) = rl_encode_presence_word_count (pb_layout plan) \<and>
    length (ew_bit_container_values ws) = rl_bit_container_value_count (pb_layout plan) \<and>
    length (ew_encode_conversion_raw_values ws) = rl_conversion_value_count (pb_layout plan) \<and>
    length (ew_decode_decimal_coefficients ws) = rl_conversion_value_count (pb_layout plan) \<and>
    LastRawIntegerCount ws \<le> rl_conversion_value_count (pb_layout plan)"
  using session_workspace [OF assms]
  by (simp add: workspace_ok_def shape_def layout_shape_def Let_def LastRawIntegerCount_def)

theorem codec_session_workspace_witness:
  "\<not> ew_in_use example_workspace \<and> LastRawIntegerCount example_workspace \<le> 0"
  using codec_session_workspace [OF codec_session.decode [OF codec_session.create, OF example_unknown
      [unfolded example_workspace_def]]]
  by (simp add: example_workspace_def example_plan_def)

text \<open>C31. A decoder call that does not succeed delivers nothing: it publishes no fields and no raw integers, and it
  leaves the slots alone unless the plan turns out to be invalid while they are filled.\<close>

theorem decode_failure_delivers_nothing:
  assumes "DecodeCompleteRecord plan slot_size ws pipeline_index input slots_address slots = Some (r, ws', slots')"
    and "dr_status r \<noteq> CS_OK"
  shows "dr_field_count r = 0 \<and> length slots' = length slots \<and>
    (slots' \<noteq> slots \<longrightarrow> dr_status r = CS_INVALID_PLAN) \<and> (\<not> ew_in_use ws \<longrightarrow> LastRawIntegerCount ws' = 0)"
  by (rule decode_failure [OF assms])

theorem decode_failure_delivers_nothing_witness:
  "dr_field_count (no_decode_result\<lparr>dr_status := CS_UNKNOWN_MESSAGE\<rparr>) = 0"
  using decode_failure_delivers_nothing [OF example_unknown] by simp

text \<open>C32. An encoder call that does not succeed reports no bytes written, and the buffer differs from what it was only if
  the call failed in the final review: every refusal before that leaves the caller's buffer untouched.\<close>

theorem encode_failure_delivers_nothing:
  assumes "EncodeCompleteRecord plan value_size ws pipeline_index message_index va vs oa out = Some (r, ws', out')"
    and "en_status r \<noteq> CS_OK"
  shows "en_bytes_written r = 0 \<and>
    (out' \<noteq> out \<longrightarrow> en_status r = CS_FINAL_REVIEW_FAILED \<or> en_status r = CS_INTERNAL_ERROR)"
  by (rule encode_failure [OF assms])

theorem encode_failure_delivers_nothing_witness:
  "en_bytes_written (no_encode_result\<lparr>en_status := CS_MISSING_FIELD, en_failed_field_index := 1\<rparr>) = 0"
  using encode_failure_delivers_nothing [OF example_refused] by simp

end
