(* ===== verification/Host_Endpoint.thy ===== *)
theory Host_Endpoint
  imports Codec_Session Framer_Session
begin

text \<open>
  The host session, \<^verbatim>\<open>src/src/host_endpoint/host_endpoint.h\<close> and
  \<^verbatim>\<open>host_endpoint.cpp\<close>: a table of bindings, each from an endpoint name and a direction to a
  pipeline, with one or more channels, and the calls that drive the record codec and the stream framer for a channel.

  The caller's functions are parameters that transform a user state; they return, or throw, which is the third
  outcome.  Sizes, addresses and the success of allocations come from the platform, a record.  A null pointer
  is the address 0 or, for a function, \<open>None\<close>.  A call that does not return is \<open>None\<close>.  The identity of a session,
  compared through a weak pointer by the code, is a number.
\<close>

section \<open>Data\<close>

datatype HostAction = HA_DECODE | HA_ENCODE

datatype HostStatus =
  HS_OK | HS_INVALID_ARGUMENT | HS_INVALID_BINDING | HS_UNSUPPORTED | HS_LIMIT_EXCEEDED | HS_ALLOCATION_FAILED
| HS_BUSY | HS_WRONG_INPUT_KIND | HS_CODEC_FAILED | HS_FRAMING_FAILED | HS_CALLBACK_FAILED | HS_RESET_REQUIRED

record BindingSpec =
  bs_endpoint :: string
  bs_action :: HostAction
  bs_pipeline :: string
  bs_streams :: nat
  bs_framing_limits :: FramingLimitOverrides

record HostLimits =
  hl_max_bindings :: nat
  hl_max_channels :: nat
  hl_max_identity_bytes :: nat
  hl_max_accounted_bytes :: nat

record Handle =
  hd_scope :: "nat option"
  hd_channel :: nat

record NamedValue =
  nv_field_id :: string
  nv_value :: EncodeFieldValue

record HostOutput =
  ho_action :: HostAction
  ho_generation :: u64
  ho_plan :: nat
  ho_message_index :: nat
  ho_fields :: "DecodedFieldSlot list"
  ho_field_count :: nat
  ho_bytes :: CodecByteView

record Candidate =
  ca_generation :: u64
  ca_plan :: nat
  ca_frame :: CodecByteView
  ca_decoded :: DecodeResult
  ca_fields :: "DecodedFieldSlot list"
  ca_field_count :: nat
  ca_raw_workspace :: "ExecutionWorkspace option"

record HostResult =
  ht_status :: HostStatus
  ht_generation :: u64
  ht_codec_attempted :: bool
  ht_codec_status :: CodecStatus
  ht_successful_outputs :: nat
  ht_decode_successes :: nat
  ht_observed_candidates :: nat
  ht_decode_failures :: nat
  ht_framing_attempted :: bool
  ht_framing :: SubmitResult

record HostObservation =
  hb_status :: HostStatus
  hb_generation :: u64
  hb_reset_required :: bool
  hb_stream :: bool
  hb_framing :: StreamFramingObservation

text \<open>How a function of the caller ends: it asks to continue or to stop, or it throws.\<close>

datatype CallbackOutcome = CB_CONTINUE | CB_STOP | CB_THROW

type_synonym 'u host_sink = "HostOutput \<Rightarrow> 'u \<Rightarrow> CallbackOutcome \<times> 'u"
type_synonym 'u host_observer = "Candidate \<Rightarrow> 'u \<Rightarrow> CallbackOutcome \<times> 'u"

record HostChannel =
  hc_binding :: nat
  hc_generation :: u64
  hc_faulted :: bool
  hc_core :: ExecutionWorkspace
  hc_framer :: "StreamFramingWorkspace option"
  hc_fields :: "DecodedFieldSlot list"
  hc_values :: "EncodeFieldValue list"
  hc_bytes :: "u8 list"
  hc_fields_address :: nat
  hc_values_address :: nat
  hc_bytes_address :: nat
  hc_buffer_address :: nat

record HostBinding =
  hi_endpoint :: string
  hi_action :: HostAction
  hi_pipeline :: nat
  hi_first :: nat
  hi_count :: nat

record HostSession =
  hs_plan :: PlanBundle
  hs_identity :: nat
  hs_bindings :: "HostBinding list"
  hs_channels :: "HostChannel list"
  hs_accounted :: nat
  hs_busy :: bool

text \<open>The blocks of memory a session allocates, and what the platform says of them.\<close>

datatype HostBlock =
  BL_SESSION | BL_BINDINGS | BL_CHANNELS | BL_NAME nat | BL_FIELDS nat | BL_FRAMER nat | BL_BUFFER nat
| BL_BYTES nat | BL_VALUES nat | BL_CORE nat | BL_HANDLE

record HostPlatform =
  pf_allocated :: "HostBlock \<Rightarrow> bool"
  pf_address :: "HostBlock \<Rightarrow> nat"
  pf_identity :: nat
  pf_sizeof_session :: nat
  pf_sizeof_binding :: nat
  pf_sizeof_channel :: nat
  pf_sizeof_workspace :: nat
  pf_sizeof_slot :: nat
  pf_sizeof_value :: nat
  pf_sizeof_framer :: nat

text \<open>The members as their declarations initialise them.\<close>

definition no_host_result :: HostResult where
  "no_host_result = \<lparr>ht_status = HS_INVALID_ARGUMENT, ht_generation = 0, ht_codec_attempted = False,
     ht_codec_status = CS_INVALID_ARGUMENT, ht_successful_outputs = 0, ht_decode_successes = 0,
     ht_observed_candidates = 0, ht_decode_failures = 0, ht_framing_attempted = False, ht_framing = initial_result\<rparr>"

definition no_host_observation :: HostObservation where
  "no_host_observation = \<lparr>hb_status = HS_INVALID_BINDING, hb_generation = 0, hb_reset_required = False,
     hb_stream = False,
     hb_framing = \<lparr>ob_phase = PH_COLLECTING, ob_buffered_bytes = 0, ob_has_internal_work = False,
       ob_effective_max_submit_bytes = 0, ob_effective_max_work_units = 0\<rparr>\<rparr>"

definition no_handle :: Handle where
  "no_handle = \<lparr>hd_scope = None, hd_channel = kInvalidIndex\<rparr>"

definition no_output :: HostOutput where
  "no_output = \<lparr>ho_action = HA_DECODE, ho_generation = 0, ho_plan = 0, ho_message_index = kInvalidIndex, ho_fields = [],
     ho_field_count = 0, ho_bytes = \<lparr>cv_address = 0, cv_bytes = []\<rparr>\<rparr>"

definition no_value :: EncodeFieldValue where
  "no_value = \<lparr>ev_field = no_field_ref, ev_value_kind = LK_UINT64, ev_uint64_value = 0, ev_int64_value = 0,
     ev_bool_value = False, ev_bytes_value = \<lparr>cv_address = 0, cv_bytes = []\<rparr>, ev_enum_value = no_enum_ref,
     ev_decimal64_value = \<lparr>coefficient = 0, scale = 0\<rparr>\<rparr>"

section \<open>Helpers\<close>

definition RawIntegerCount :: "Candidate \<Rightarrow> nat" where
  "RawIntegerCount c = (case ca_raw_workspace c of None \<Rightarrow> 0 | Some ws \<Rightarrow> LastRawIntegerCount ws)"

definition GetRawInteger :: "PlanBundle \<Rightarrow> Candidate \<Rightarrow> nat \<Rightarrow> RawIntegerValue option" where
  "GetRawInteger plan c index =
     (case ca_raw_workspace c of None \<Rightarrow> None | Some ws \<Rightarrow> GetLastRawInteger plan ws index)"

definition Supports :: "PlanBundle \<Rightarrow> nat \<Rightarrow> HostAction \<Rightarrow> bool" where
  "Supports plan message action =
     (if pb_schema_version plan \<noteq> ''0.10'' \<and> pb_schema_version plan \<noteq> ''0.11'' then True
      else let m = pb_message_execution_plans plan ! message
           in if action = HA_DECODE then me_text_decode m \<noteq> None else me_text_encode m \<noteq> None)"

definition Charge :: "nat \<Rightarrow> nat \<Rightarrow> nat \<Rightarrow> nat \<Rightarrow> nat option" where
  "Charge used count width limit =
     (if used > limit \<or> (width \<noteq> 0 \<and> count > (limit - used) div width) then None else Some (used + count * width))"

text \<open>The loops that look a name up go to the end: the last index that has it.\<close>

definition last_index :: "('a \<Rightarrow> bool) \<Rightarrow> 'a list \<Rightarrow> nat option" where
  "last_index P xs = fold (\<lambda>i found. if P (xs ! i) then Some i else found) [0..<length xs] None"

section \<open>Delivering results\<close>

definition Deliver ::
    "PlanBundle \<Rightarrow> 'u host_sink \<Rightarrow> HostOutput \<Rightarrow> HostChannel \<times> HostResult \<times> 'u \<Rightarrow>
     bool \<times> HostChannel \<times> HostResult \<times> 'u" where
  "Deliver plan sink output s =
     (case s of (channel, result, user) \<Rightarrow>
        (case sink (output\<lparr>ho_plan := pb_address plan, ho_generation := hc_generation channel\<rparr>) user of
           (CB_THROW, user) \<Rightarrow>
             (False, channel\<lparr>hc_faulted := True\<rparr>, result\<lparr>ht_status := HS_CALLBACK_FAILED\<rparr>, user)
         | (outcome, user) \<Rightarrow>
             (outcome = CB_CONTINUE, channel,
              result\<lparr>ht_successful_outputs := ht_successful_outputs result + 1\<rparr>, user)))"

text \<open>The observer, when there is one: whether to go on, or \<open>None\<close> when it throws.\<close>

definition ObserveCandidate ::
    "PlanBundle \<Rightarrow> 'u host_observer option \<Rightarrow> CodecByteView \<Rightarrow> DecodeResult \<Rightarrow> HostChannel \<times> HostResult \<times> 'u \<Rightarrow>
     bool option \<times> HostChannel \<times> HostResult \<times> 'u" where
  "ObserveCandidate plan observer bytes decoded s =
     (case s of (channel, result, user) \<Rightarrow>
        (case observer of
           None \<Rightarrow> (Some True, s)
         | Some observe \<Rightarrow>
             let ok = (dr_status decoded = CS_OK);
                 candidate = \<lparr>ca_generation = hc_generation channel, ca_plan = pb_address plan, ca_frame = bytes,
                   ca_decoded = decoded, ca_fields = (if ok then hc_fields channel else []),
                   ca_field_count = (if ok then dr_field_count decoded else 0),
                   ca_raw_workspace = (if ok then Some (hc_core channel) else None)\<rparr>
             in case observe candidate user of
                  (CB_THROW, user) \<Rightarrow>
                    (None, channel\<lparr>hc_faulted := True\<rparr>, result\<lparr>ht_status := HS_CALLBACK_FAILED\<rparr>, user)
                | (outcome, user) \<Rightarrow>
                    (Some (outcome = CB_CONTINUE), channel,
                     result\<lparr>ht_observed_candidates := ht_observed_candidates result + 1\<rparr>, user)))"

text \<open>One candidate: decoded once, observed whatever came of it, and delivered if it decoded.\<close>

definition DecodeCandidate ::
    "PlanBundle \<Rightarrow> nat \<Rightarrow> nat \<Rightarrow> 'u host_sink \<Rightarrow> 'u host_observer option \<Rightarrow> CodecByteView \<Rightarrow>
     HostChannel \<times> HostResult \<times> 'u \<Rightarrow> (bool \<times> HostChannel \<times> HostResult \<times> 'u) option" where
  "DecodeCandidate plan sizeof_slot pipeline sink observer bytes s =
     (case s of (channel, result, user) \<Rightarrow>
        (case DecodeCompleteRecord plan sizeof_slot (hc_core channel) pipeline bytes
                (hc_fields_address channel) (hc_fields channel) of
           None \<Rightarrow> None
         | Some (decoded, ws, slots) \<Rightarrow>
             let channel = channel\<lparr>hc_core := ws, hc_fields := slots\<rparr>;
                 result = result\<lparr>ht_codec_attempted := True, ht_codec_status := dr_status decoded\<rparr>;
                 ok = (dr_status decoded = CS_OK);
                 result = (if ok then result\<lparr>ht_decode_successes := ht_decode_successes result + 1\<rparr>
                           else result\<lparr>ht_decode_failures := ht_decode_failures result + 1, ht_status := HS_CODEC_FAILED\<rparr>)
             in case ObserveCandidate plan observer bytes decoded (channel, result, user) of
                  (None, s) \<Rightarrow> Some (False, s)
                | (Some observing, s) \<Rightarrow>
                    if \<not> ok then Some (observing, s)
                    else case Deliver plan sink
                            (no_output\<lparr>ho_message_index := dr_message_index decoded, ho_fields := slots,
                                       ho_field_count := dr_field_count decoded\<rparr>) s of
                           (delivering, s) \<Rightarrow> Some (delivering \<and> observing, s)))"

section \<open>The calls of a session\<close>

definition Resolve :: "HostSession \<Rightarrow> Handle \<Rightarrow> nat option" where
  "Resolve session handle =
     (if hd_scope handle = Some (hs_identity session) \<and> hd_channel handle < length (hs_channels session)
      then Some (hd_channel handle) else None)"

definition binding_of :: "HostSession \<Rightarrow> HostChannel \<Rightarrow> HostBinding" where
  "binding_of session channel = hs_bindings session ! hc_binding channel"

definition put_channel :: "HostSession \<Rightarrow> nat \<Rightarrow> HostChannel \<Rightarrow> HostSession" where
  "put_channel session index channel = session\<lparr>hs_channels := (hs_channels session)[index := channel]\<rparr>"

fun Find_loop :: "HostBinding list \<Rightarrow> string \<Rightarrow> HostAction \<Rightarrow> nat \<Rightarrow> nat option" where
  "Find_loop [] endpoint action stream = None"
| "Find_loop (binding # bindings) endpoint action stream =
     (if hi_endpoint binding = endpoint \<and> hi_action binding = action \<and> stream < hi_count binding
      then Some (hi_first binding + stream) else Find_loop bindings endpoint action stream)"

definition Find :: "HostSession \<Rightarrow> string \<Rightarrow> HostAction \<Rightarrow> nat \<Rightarrow> Handle" where
  "Find session endpoint action stream =
     (if hs_busy session then no_handle
      else case Find_loop (hs_bindings session) endpoint action stream of
        None \<Rightarrow> no_handle
      | Some channel \<Rightarrow> \<lparr>hd_scope = Some (hs_identity session), hd_channel = channel\<rparr>)"

definition ObserveChannel :: "HostSession \<Rightarrow> Handle \<Rightarrow> HostObservation" where
  "ObserveChannel session handle =
     (if hs_busy session then no_host_observation\<lparr>hb_status := HS_BUSY\<rparr>
      else case Resolve session handle of
        None \<Rightarrow> no_host_observation
      | Some index \<Rightarrow>
          let channel = hs_channels session ! index;
              result = no_host_observation\<lparr>hb_status := HS_OK, hb_generation := hc_generation channel,
                hb_reset_required := hc_faulted channel, hb_stream := (hc_framer channel \<noteq> None)\<rparr>
          in case hc_framer channel of None \<Rightarrow> result | Some w \<Rightarrow> result\<lparr>hb_framing := Observe w\<rparr>)"

text \<open>The framer's record of the callback that runs on the thread is the argument \<open>callback\<close>.\<close>

definition Reset :: "HostSession \<Rightarrow> Handle \<Rightarrow> nat option \<Rightarrow> HostStatus \<times> HostSession" where
  "Reset session handle callback =
     (if hs_busy session then (HS_BUSY, session)
      else case Resolve session handle of
        None \<Rightarrow> (HS_INVALID_BINDING, session)
      | Some index \<Rightarrow>
          let channel = hs_channels session ! index; binding = binding_of session channel
          in if hi_action binding \<noteq> HA_DECODE then (HS_INVALID_BINDING, session)
             else if hc_generation channel = - 1 then (HS_LIMIT_EXCEEDED, session)
             else
               let restarted = channel\<lparr>hc_generation := hc_generation channel + 1, hc_faulted := False\<rparr>
               in case hc_framer channel of
                    None \<Rightarrow> (HS_OK, put_channel session index restarted)
                  | Some w \<Rightarrow>
                      (case ResetStreamFramingWorkspace (hs_plan session) w (hi_pipeline binding) callback of
                         (w, status) \<Rightarrow>
                           if status \<noteq> SA_OK then
                             (HS_FRAMING_FAILED, put_channel session index (channel\<lparr>hc_framer := Some w\<rparr>))
                           else (HS_OK, put_channel session index (restarted\<lparr>hc_framer := Some w\<rparr>))))"

text \<open>The tests that \<open>Decode\<close> and \<open>Push\<close> share: the status that refuses the call.\<close>

definition DecodeRefusal :: "HostSession \<Rightarrow> HostChannel \<Rightarrow> bool \<Rightarrow> bool \<Rightarrow> HostStatus option" where
  "DecodeRefusal session channel stream bad_argument =
     (if hi_action (binding_of session channel) \<noteq> HA_DECODE then Some HS_INVALID_BINDING
      else if (hc_framer channel \<noteq> None) \<noteq> stream then Some HS_WRONG_INPUT_KIND
      else if hc_faulted channel then Some HS_RESET_REQUIRED
      else if bad_argument then Some HS_INVALID_ARGUMENT
      else None)"

definition Decode ::
    "nat \<Rightarrow> HostSession \<Rightarrow> Handle \<Rightarrow> CodecByteView \<Rightarrow> 'u host_sink option \<Rightarrow> 'u host_observer option \<Rightarrow> 'u \<Rightarrow>
     (HostResult \<times> HostSession \<times> 'u) option" where
  "Decode sizeof_slot session handle bytes sink observer user =
     (if hs_busy session then Some (no_host_result\<lparr>ht_status := HS_BUSY\<rparr>, session, user)
      else case Resolve session handle of
        None \<Rightarrow> Some (no_host_result\<lparr>ht_status := HS_INVALID_BINDING\<rparr>, session, user)
      | Some index \<Rightarrow>
          let channel = hs_channels session ! index;
              result = no_host_result\<lparr>ht_generation := hc_generation channel\<rparr>
          in case DecodeRefusal session channel False
                    (sink = None \<or> cv_address bytes = 0 \<and> cv_bytes bytes \<noteq> []) of
               Some status \<Rightarrow> Some (result\<lparr>ht_status := status\<rparr>, session, user)
             | None \<Rightarrow>
                 map_option (\<lambda>(continue, channel, result, user). (result, put_channel session index channel, user))
                   (DecodeCandidate (hs_plan session) sizeof_slot (hi_pipeline (binding_of session channel)) (the sink)
                      observer bytes (channel, result\<lparr>ht_status := HS_OK\<rparr>, user)))"

text \<open>The sink the framer calls decodes each frame; it stops for good once a decoding does not return.\<close>

definition frame_sink ::
    "PlanBundle \<Rightarrow> nat \<Rightarrow> nat \<Rightarrow> 'u host_sink \<Rightarrow> 'u host_observer option \<Rightarrow> nat \<Rightarrow>
     (HostChannel \<times> HostResult \<times> 'u) option sink" where
  "frame_sink plan sizeof_slot pipeline sink observer buffer_address s frame =
     (case s of
        None \<Rightarrow> (SINK_STOP, None)
      | Some s \<Rightarrow>
          (case DecodeCandidate plan sizeof_slot pipeline sink observer
                  \<lparr>cv_address = buffer_address, cv_bytes = frame\<rparr> s of
             None \<Rightarrow> (SINK_STOP, None)
           | Some (continue, s) \<Rightarrow> (if continue then SINK_CONTINUE else SINK_STOP, Some s)))"

definition Push ::
    "nat \<Rightarrow> HostSession \<Rightarrow> Handle \<Rightarrow> CodecByteView \<Rightarrow> 'u host_sink option \<Rightarrow> 'u host_observer option \<Rightarrow> nat option \<Rightarrow>
     'u \<Rightarrow> (HostResult \<times> HostSession \<times> 'u) option" where
  "Push sizeof_slot session handle bytes sink observer callback user =
     (if hs_busy session then Some (no_host_result\<lparr>ht_status := HS_BUSY\<rparr>, session, user)
      else case Resolve session handle of
        None \<Rightarrow> Some (no_host_result\<lparr>ht_status := HS_INVALID_BINDING\<rparr>, session, user)
      | Some index \<Rightarrow>
          let channel = hs_channels session ! index;
              result = no_host_result\<lparr>ht_generation := hc_generation channel\<rparr>;
              pipeline = hi_pipeline (binding_of session channel);
              w = the (hc_framer channel)
          in case DecodeRefusal session channel True
                    (sink = None \<or> cv_address bytes = 0 \<and> cv_bytes bytes \<noteq> [] \<or>
                     cv_bytes bytes = [] \<and> \<not> ob_has_internal_work (Observe w)) of
               Some status \<Rightarrow> Some (result\<lparr>ht_status := status\<rparr>, session, user)
             | None \<Rightarrow>
                 (case PushStreamChunk (hs_plan session) w pipeline \<lparr>bv_address = cv_address bytes, bv_bytes = cv_bytes bytes\<rparr>
                         (Some (frame_sink (hs_plan session) sizeof_slot pipeline (the sink) observer (hc_buffer_address channel)))
                         callback
                         (Some (channel, result\<lparr>ht_status := HS_OK, ht_framing_attempted := True\<rparr>, user)) of
                    None \<Rightarrow> None
                  | Some (w, submitted, s, frames) \<Rightarrow>
                      map_option (\<lambda>(channel, result, user).
                          let channel = channel\<lparr>hc_framer := Some w\<rparr>; result = result\<lparr>ht_framing := submitted\<rparr>
                          in if rs_api_status submitted \<noteq> SA_OK
                             then (result\<lparr>ht_status := HS_FRAMING_FAILED\<rparr>,
                                   put_channel session index (channel\<lparr>hc_faulted := True\<rparr>), user)
                             else (result, put_channel session index channel, user)) s))"

text \<open>Resolving the named values: the values of the channel as they are left, and whether all were resolved.\<close>

fun ResolveValues ::
    "PlanBundle \<Rightarrow> nat \<Rightarrow> NamedValue list \<Rightarrow> nat \<Rightarrow> EncodeFieldValue list \<Rightarrow> bool \<times> EncodeFieldValue list" where
  "ResolveValues plan message [] v out = (True, out)"
| "ResolveValues plan message (named # rest) v out =
     (let reference = ev_field (nv_value named)
      in if fr_plan_scope reference \<noteq> 0 \<or> fr_message_index reference \<noteq> kInvalidIndex \<or>
            fr_field_index reference \<noteq> kInvalidIndex then (False, out)
         else case last_index (\<lambda>field. fl_id field = nv_field_id named) (ms_fields (pb_messages plan ! message)) of
           None \<Rightarrow> (False, out)
         | Some field \<Rightarrow>
             ResolveValues plan message rest (v + 1)
               (out[v := (nv_value named)\<lparr>ev_field :=
                  \<lparr>fr_plan_scope = pb_address plan, fr_message_index = message, fr_field_index = field\<rparr>\<rparr>]))"

definition EncodeMessage ::
    "nat \<Rightarrow> HostSession \<Rightarrow> nat \<Rightarrow> HostChannel \<Rightarrow> nat \<Rightarrow> nat \<Rightarrow> 'u host_sink \<Rightarrow> HostResult \<Rightarrow> 'u \<Rightarrow>
     (HostResult \<times> HostSession \<times> 'u) option" where
  "EncodeMessage sizeof_value session index channel message count sink result user =
     (case EncodeCompleteRecord (hs_plan session) sizeof_value (hc_core channel) (hi_pipeline (binding_of session channel))
             message (hc_values_address channel) (take count (hc_values channel)) (hc_bytes_address channel) (hc_bytes channel) of
        None \<Rightarrow> None
      | Some (encoded, ws, bytes) \<Rightarrow>
          let channel = channel\<lparr>hc_core := ws, hc_bytes := bytes\<rparr>; ok = (en_status encoded = CS_OK);
              result = result\<lparr>ht_codec_attempted := True, ht_codec_status := en_status encoded,
                              ht_status := (if ok then HS_OK else HS_CODEC_FAILED)\<rparr>
          in if \<not> ok then Some (result, put_channel session index channel, user)
             else case Deliver (hs_plan session) sink
                    (no_output\<lparr>ho_action := HA_ENCODE, ho_message_index := message,
                       ho_bytes := \<lparr>cv_address = hc_bytes_address channel, cv_bytes = take (en_bytes_written encoded) bytes\<rparr>\<rparr>)
                    (channel, result, user) of
                  (continue, channel, result, user) \<Rightarrow> Some (result, put_channel session index channel, user))"

definition Encode ::
    "nat \<Rightarrow> HostSession \<Rightarrow> Handle \<Rightarrow> string \<Rightarrow> nat \<Rightarrow> NamedValue list \<Rightarrow> 'u host_sink option \<Rightarrow> 'u \<Rightarrow>
     (HostResult \<times> HostSession \<times> 'u) option" where
  "Encode sizeof_value session handle message_id values_address named sink user =
     (if hs_busy session then Some (no_host_result\<lparr>ht_status := HS_BUSY\<rparr>, session, user)
      else case Resolve session handle of
        None \<Rightarrow> Some (no_host_result\<lparr>ht_status := HS_INVALID_BINDING\<rparr>, session, user)
      | Some index \<Rightarrow>
          let channel = hs_channels session ! index; binding = binding_of session channel; plan = hs_plan session;
              result = no_host_result\<lparr>ht_status := HS_INVALID_BINDING, ht_generation := hc_generation channel\<rparr>;
              candidates = pl_message_indices (pb_pipelines plan ! hi_pipeline binding)
          in if hi_action binding \<noteq> HA_ENCODE then Some (result, session, user)
             else if hc_faulted channel then Some (result\<lparr>ht_status := HS_RESET_REQUIRED\<rparr>, session, user)
             else case last_index (\<lambda>candidate. ms_id (pb_messages plan ! candidate) = message_id) candidates of
               None \<Rightarrow> Some (result, session, user)
             | Some i \<Rightarrow>
                 let message = candidates ! i
                 in if \<not> Supports plan message HA_ENCODE then Some (result\<lparr>ht_status := HS_UNSUPPORTED\<rparr>, session, user)
                    else if sink = None \<or> named \<noteq> [] \<and> values_address = 0 \<or> length named > length (hc_values channel) then
                      Some (result\<lparr>ht_status := HS_INVALID_ARGUMENT\<rparr>, session, user)
                    else (case ResolveValues plan message named 0 (hc_values channel) of
                      (resolved, out) \<Rightarrow>
                        let channel = channel\<lparr>hc_values := out\<rparr>
                        in if \<not> resolved then Some (result, put_channel session index channel, user)
                           else EncodeMessage sizeof_value session index channel message (length named) (the sink) result user))"

section \<open>Creation\<close>

text \<open>The number of channels of the first bindings, while it stays within the limit.\<close>

fun TotalStreams :: "BindingSpec list \<Rightarrow> nat \<Rightarrow> nat \<Rightarrow> nat option" where
  "TotalStreams [] max_channels streams = Some streams"
| "TotalStreams (spec # specs) max_channels streams =
     (if bs_streams spec = 0 \<or> streams > max_channels \<or> bs_streams spec > max_channels - streams then None
      else TotalStreams specs max_channels (streams + bs_streams spec))"

text \<open>The tests on one binding: the pipeline it names, or the status of the refusal.\<close>

definition CheckBinding :: "PlanBundle \<Rightarrow> HostLimits \<Rightarrow> HostBinding list \<Rightarrow> BindingSpec \<Rightarrow> HostStatus + nat" where
  "CheckBinding plan allowed bindings spec =
     (if bs_endpoint spec = [] \<or> bs_pipeline spec = [] \<or> (bs_action spec = HA_ENCODE \<and> bs_streams spec \<noteq> 1) then
        Inl HS_INVALID_BINDING
      else if length (bs_endpoint spec) > hl_max_identity_bytes allowed \<or>
              length (bs_pipeline spec) > hl_max_identity_bytes allowed then Inl HS_LIMIT_EXCEEDED
      else if \<exists>existing \<in> set bindings. hi_endpoint existing = bs_endpoint spec \<and> hi_action existing = bs_action spec then
        Inl HS_INVALID_BINDING
      else case last_index (\<lambda>p. pl_id p = bs_pipeline spec) (pb_pipelines plan) of
        None \<Rightarrow> Inl HS_INVALID_BINDING
      | Some pipeline \<Rightarrow>
          if \<exists>message \<in> set (pl_message_indices (pb_pipelines plan ! pipeline)). Supports plan message (bs_action spec)
          then Inr pipeline else Inl HS_UNSUPPORTED)"

text \<open>The framer of a decoding channel whose pipeline takes a stream; the accounted bytes go along.\<close>

definition MakeFramer ::
    "HostPlatform \<Rightarrow> PlanBundle \<Rightarrow> HostLimits \<Rightarrow> BindingSpec \<Rightarrow> nat \<Rightarrow> nat \<Rightarrow> nat \<Rightarrow>
     HostStatus + nat \<times> StreamFramingWorkspace option" where
  "MakeFramer platform plan allowed spec pipeline index accounted =
     (let profile = pb_framing_profiles plan ! pl_framing_profile_index (pb_pipelines plan ! pipeline);
          overrides = bs_framing_limits spec; requested = ov_max_session_memory_bytes overrides;
          remaining = hl_max_accounted_bytes allowed - accounted
      in if fp_input_kind profile \<noteq> IK_STREAM_CHUNK then Inr (accounted, None)
         else if remaining = 0 then Inl HS_LIMIT_EXCEEDED
         else if requested > kMaxStreamSessionMemoryBytesHardLimit then Inl HS_LIMIT_EXCEEDED
         else
           let engine_limit = (if requested = 0
                 then min (max_session_memory_bytes (GetResourceProfileLimits (pb_resource_profile plan)))
                          kMaxStreamSessionMemoryBytesHardLimit
                 else requested);
               created = CreateStreamFramingWorkspace (pf_sizeof_framer platform) (pf_address platform (BL_FRAMER index))
                 (pf_allocated platform (BL_FRAMER index)) plan pipeline
                 (overrides\<lparr>ov_max_session_memory_bytes := min engine_limit remaining\<rparr>)
           in case cr_workspace created of
                Some w \<Rightarrow>
                  if cr_api_status created \<noteq> SA_OK then Inl HS_UNSUPPORTED
                  else (case Charge accounted 1 (cr_accounted_workspace_bytes created) (hl_max_accounted_bytes allowed) of
                    None \<Rightarrow> Inl HS_LIMIT_EXCEEDED
                  | Some accounted \<Rightarrow> Inr (accounted, Some w))
              | None \<Rightarrow> Inl (if cr_api_status created = SA_LIMIT_EXCEEDED then HS_LIMIT_EXCEEDED else HS_UNSUPPORTED))"

text \<open>One channel of binding \<open>i\<close>.  The channel is empty but for the blocks its direction needs.\<close>

definition MakeChannel ::
    "HostPlatform \<Rightarrow> PlanBundle \<Rightarrow> HostLimits \<Rightarrow> BindingSpec \<Rightarrow> nat \<Rightarrow> nat \<Rightarrow> nat \<Rightarrow> nat \<Rightarrow>
     HostStatus + nat \<times> HostChannel" where
  "MakeChannel platform plan allowed spec i pipeline index accounted =
     (let layout = pb_layout plan; limit = hl_max_accounted_bytes allowed;
          max_fields = rl_max_fields_per_message layout; max_bytes = rq_max_frame_bytes (pb_resource_requirements plan);
          channel = \<lparr>hc_binding = i, hc_generation = 0, hc_faulted = False, hc_core = NewExecutionWorkspace plan,
            hc_framer = None, hc_fields = [], hc_values = [], hc_bytes = [], hc_fields_address = 0,
            hc_values_address = 0, hc_bytes_address = 0, hc_buffer_address = 0\<rparr>
      in case Charge accounted 1 (pf_sizeof_workspace platform) limit of
           None \<Rightarrow> Inl HS_LIMIT_EXCEEDED
         | Some accounted \<Rightarrow>
         (case Charge accounted 1 (rl_estimated_workspace_bytes layout) limit of
           None \<Rightarrow> Inl HS_LIMIT_EXCEEDED
         | Some accounted \<Rightarrow>
         (case (if bs_action spec = HA_DECODE then
                  (case Charge accounted max_fields (pf_sizeof_slot platform) limit of
                     None \<Rightarrow> Inl HS_LIMIT_EXCEEDED
                   | Some accounted \<Rightarrow>
                       if \<not> pf_allocated platform (BL_FIELDS index) then Inl HS_ALLOCATION_FAILED
                       else (case MakeFramer platform plan allowed spec pipeline index accounted of
                         Inl status \<Rightarrow> Inl status
                       | Inr (accounted, framer) \<Rightarrow>
                           Inr (accounted, channel\<lparr>hc_fields := replicate max_fields no_slot,
                             hc_fields_address := pf_address platform (BL_FIELDS index), hc_framer := framer,
                             hc_buffer_address := pf_address platform (BL_BUFFER index)\<rparr>)))
                else if max_bytes > limit then Inl HS_LIMIT_EXCEEDED
                else (case Charge accounted max_bytes 1 limit of
                     None \<Rightarrow> Inl HS_LIMIT_EXCEEDED
                   | Some accounted \<Rightarrow>
                     (case Charge accounted max_fields (pf_sizeof_value platform) limit of
                        None \<Rightarrow> Inl HS_LIMIT_EXCEEDED
                      | Some accounted \<Rightarrow>
                          if \<not> pf_allocated platform (BL_BYTES index) \<or> \<not> pf_allocated platform (BL_VALUES index)
                          then Inl HS_ALLOCATION_FAILED
                          else Inr (accounted, channel\<lparr>hc_bytes := replicate max_bytes 0,
                            hc_bytes_address := pf_address platform (BL_BYTES index),
                            hc_values := replicate max_fields no_value,
                            hc_values_address := pf_address platform (BL_VALUES index)\<rparr>)))) of
            Inl status \<Rightarrow> Inl status
          | Inr (accounted, channel) \<Rightarrow>
              if \<not> pf_allocated platform (BL_CORE index) then Inl HS_ALLOCATION_FAILED
              else Inr (accounted, channel))))"

fun MakeChannels ::
    "HostPlatform \<Rightarrow> PlanBundle \<Rightarrow> HostLimits \<Rightarrow> BindingSpec \<Rightarrow> nat \<Rightarrow> nat \<Rightarrow> nat \<Rightarrow> nat \<Rightarrow> HostChannel list \<Rightarrow>
     HostStatus + nat \<times> HostChannel list" where
  "MakeChannels platform plan allowed spec i pipeline 0 accounted channels = Inr (accounted, channels)"
| "MakeChannels platform plan allowed spec i pipeline (Suc n) accounted channels =
     (case MakeChannel platform plan allowed spec i pipeline (length channels) accounted of
        Inl status \<Rightarrow> Inl status
      | Inr (accounted, channel) \<Rightarrow>
          MakeChannels platform plan allowed spec i pipeline n accounted (channels @ [channel]))"

fun MakeBindings ::
    "HostPlatform \<Rightarrow> PlanBundle \<Rightarrow> HostLimits \<Rightarrow> BindingSpec list \<Rightarrow> nat \<Rightarrow> HostBinding list \<Rightarrow> HostChannel list \<Rightarrow>
     HostStatus + nat \<times> HostBinding list \<times> HostChannel list" where
  "MakeBindings platform plan allowed [] accounted bindings channels = Inr (accounted, bindings, channels)"
| "MakeBindings platform plan allowed (spec # specs) accounted bindings channels =
     (case CheckBinding plan allowed bindings spec of
        Inl status \<Rightarrow> Inl status
      | Inr pipeline \<Rightarrow>
          (case Charge accounted (length (bs_endpoint spec) + 1) 1 (hl_max_accounted_bytes allowed) of
             None \<Rightarrow> Inl HS_LIMIT_EXCEEDED
           | Some accounted \<Rightarrow>
               if \<not> pf_allocated platform (BL_NAME (length bindings)) then Inl HS_ALLOCATION_FAILED
               else
                 let binding = \<lparr>hi_endpoint = bs_endpoint spec, hi_action = bs_action spec, hi_pipeline = pipeline,
                       hi_first = length channels, hi_count = bs_streams spec\<rparr>
                 in case MakeChannels platform plan allowed spec (length bindings) pipeline (bs_streams spec) accounted channels of
                      Inl status \<Rightarrow> Inl status
                    | Inr (accounted, channels) \<Rightarrow>
                        MakeBindings platform plan allowed specs accounted (bindings @ [binding]) channels))"

text \<open>The session is published only when everything has been prepared.\<close>

definition CreateSession ::
    "HostPlatform \<Rightarrow> PlanBundle option \<Rightarrow> BindingSpec list option \<Rightarrow> HostLimits \<Rightarrow> HostStatus \<times> HostSession option" where
  "CreateSession platform owner specs allowed =
     (case (owner, specs) of
        (Some plan, Some (spec # more_specs)) \<Rightarrow>
          let specs = spec # more_specs; limit = hl_max_accounted_bytes allowed;
              version = pb_schema_version plan
          in if version \<noteq> ''0.9'' \<and> version \<noteq> ''0.10'' \<and> version \<noteq> ''0.11'' then (HS_UNSUPPORTED, None)
             else if length specs > hl_max_bindings allowed \<or> hl_max_bindings allowed > 64 \<or> hl_max_channels allowed > 64 \<or>
                     hl_max_identity_bytes allowed > 256 \<or> limit > 64 * 1024 * 1024 then (HS_LIMIT_EXCEEDED, None)
             else if \<not> pf_allocated platform BL_SESSION then (HS_ALLOCATION_FAILED, None)
             else (case TotalStreams specs (hl_max_channels allowed) 0 of
               None \<Rightarrow> (HS_LIMIT_EXCEEDED, None)
             | Some streams \<Rightarrow>
             (case Charge (pf_sizeof_session platform) (length specs) (pf_sizeof_binding platform) limit of
               None \<Rightarrow> (HS_LIMIT_EXCEEDED, None)
             | Some accounted \<Rightarrow>
             (case Charge accounted streams (pf_sizeof_channel platform) limit of
               None \<Rightarrow> (HS_LIMIT_EXCEEDED, None)
             | Some accounted \<Rightarrow>
                 if \<not> pf_allocated platform BL_BINDINGS \<or> \<not> pf_allocated platform BL_CHANNELS then
                   (HS_ALLOCATION_FAILED, None)
                 else (case MakeBindings platform plan allowed specs accounted [] [] of
                   Inl status \<Rightarrow> (status, None)
                 | Inr (accounted, bindings, channels) \<Rightarrow>
                     if \<not> pf_allocated platform BL_HANDLE then (HS_ALLOCATION_FAILED, None)
                     else (HS_OK, Some \<lparr>hs_plan = plan, hs_identity = pf_identity platform, hs_bindings = bindings,
                                        hs_channels = channels, hs_accounted = accounted, hs_busy = False\<rparr>)))))
      | _ \<Rightarrow> (HS_INVALID_ARGUMENT, None))"

end
