(* ===== verification/Host_Session.thy ===== *)
theory Host_Session
  imports Host_Endpoint
begin

text \<open>
  What a host session guarantees: its tables as the creation leaves them, the channels kept apart from each other,
  every channel's workspace a session of the record codec and every stream a session of the framer, each
  frame decoded once and in order, and faults that stay until they are cleared.
\<close>

section \<open>The sink of a submission sees every frame\<close>

text \<open>The user data of a submission is the fold of the sink over the frames it delivered.\<close>

definition sunk :: "'u sink \<Rightarrow> 'u \<Rightarrow> 'u push \<Rightarrow> bool" where
  "sunk sink user c \<longleftrightarrow> ps_user c = fold (\<lambda>frame u. snd (sink u frame)) (ps_frames c) user"

definition quiet :: "'u push \<Rightarrow> 'u push \<Rightarrow> bool" where
  "quiet c d \<longleftrightarrow> ps_user d = ps_user c \<and> ps_frames d = ps_frames c"

lemma quiet_sunk: "quiet c d \<Longrightarrow> sunk sink user c \<Longrightarrow> sunk sink user d"
  by (simp add: quiet_def sunk_def)

lemma quiet_charge: "charge a c = Some d \<Longrightarrow> quiet c d"
  by (auto simp: charge_def quiet_def split: if_splits)

lemma Copy_loop_quiet: "result_of (Copy_loop c) = Some d \<Longrightarrow> quiet c d"
proof (induction c rule: Copy_loop.induct)
  case (1 c)
  show ?case
  proof (cases "copy_sync_index (ps_workspace c) < length (fp_sync_bytes (framing (ps_workspace c)))")
    case False
    then show ?thesis using 1(2) by (subst (asm) Copy_loop.simps) (simp add: Let_def quiet_def)
  next
    case True
    show ?thesis
    proof (cases "charge 1 c")
      case None
      then show ?thesis using 1(2) True
        by (subst (asm) Copy_loop.simps) (auto simp: Let_def quiet_def budget_stop_def)
    next
      case (Some e)
      show ?thesis
        using 1(2) 1(1) [OF refl True Some] True Some quiet_charge [OF Some]
        by (subst (asm) Copy_loop.simps) (auto simp: Let_def quiet_def internal_error_def split: if_splits)
    qed
  qed
qed

lemma Rescan_loop_quiet: "result_of (Rescan_loop c) = Some d \<Longrightarrow> quiet c d"
proof (induction c rule: Rescan_loop.induct)
  case (1 c)
  let ?w = "ps_workspace c" let ?sync = "fp_sync_bytes (framing ?w)"
  let ?byte = "buffer ?w ! rescan_index ?w"
  show ?case
  proof (cases "rescan_index ?w < buffered_size ?w")
    case False
    then show ?thesis using 1(2) by (subst (asm) Rescan_loop.simps) (simp add: Let_def quiet_def)
  next
    case True
    show ?thesis
    proof (cases "Fallback_units ?sync (fp_sync_prefix_table (framing ?w)) ?byte (rescan_match ?w) 1")
      case None
      then show ?thesis using 1(2) True by (subst (asm) Rescan_loop.simps) (simp add: Let_def)
    next
      case (Some p)
      obtain next_match units where p: "p = (next_match, units)" by (cases p)
      show ?thesis
      proof (cases "charge (units + 1) c")
        case None
        then show ?thesis using 1(2) True Some p
          by (subst (asm) Rescan_loop.simps) (auto simp: Let_def quiet_def budget_stop_def)
      next
        case charged: (Some e)
        show ?thesis
          using 1(2) 1(1) [OF refl refl True refl Some p [symmetric] charged refl] True Some p charged quiet_charge [OF charged]
          by (subst (asm) Rescan_loop.simps) (auto simp: Let_def quiet_def split: if_splits)
      qed
    qed
  qed
qed

lemma step_sunk:
  assumes "result_of (Push_step sink input c) = Some d" "sunk sink user c"
  shows "sunk sink user d"
proof (cases "state (ps_workspace c) = DELIVER_PENDING")
  case True
  then show ?thesis using assms
    by (auto simp: Push_step_def step_deliver_def sunk_def budget_stop_def Let_def split: if_splits prod.splits)
next
  case False
  note defs = budget_stop_def internal_error_def record_discard_def record_malformed_def consume_def upd_workspace_def
    charge_def quiet_def Let_def
  have ascii: "result_of (step_ascii input c) = Some d \<Longrightarrow> quiet c d"
    by (auto simp: step_ascii_def defs split: if_splits option.splits)
  have discard: "result_of (step_discard input c) = Some d \<Longrightarrow> quiet c d"
    by (auto simp: step_discard_def defs split: if_splits option.splits)
  have collect: "result_of (step_collect input c) = Some d \<Longrightarrow> quiet c d"
    by (auto simp: step_collect_def defs split: if_splits option.splits)
  have len: "result_of (step_read_length input c) = Some d \<Longrightarrow> quiet c d"
    by (auto simp: step_read_length_def accept_length_def defs split: if_splits option.splits)
  have search: "result_of (step_search input c) = Some d \<Longrightarrow> quiet c d"
    by (auto simp: step_search_def defs split: if_splits option.splits prod.splits)
  have compact: "result_of (step_compact c) = Some d \<Longrightarrow> quiet c d"
    by (auto simp: step_compact_def finish_compact_def defs split: if_splits option.splits)
  have copy: "result_of (step_copy c) = Some d \<Longrightarrow> quiet c d"
    using Copy_loop_quiet [of c]
    by (cases "Copy_loop c") (auto simp: step_copy_def defs split: if_splits)
  have rescan: "result_of (step_rescan c) = Some d \<Longrightarrow> quiet c d"
    using Rescan_loop_quiet [of c]
    by (cases "Rescan_loop c") (auto simp: step_rescan_def defs split: if_splits)
  have "quiet c d"
    using assms(1) False ascii discard collect len search compact copy rescan
    by (auto simp: Push_step_def split: State.splits)
  then show ?thesis using assms(2) by (rule quiet_sunk)
qed

lemma Push_loop_sunk:
  "result_of (Push_loop sink input c) = Some d \<Longrightarrow> sunk sink user c \<Longrightarrow> sunk sink user d"
proof (induction sink input c rule: Push_loop.induct)
  case (1 sink input c)
  show ?case
  proof (cases "Push_step sink input c")
    case (Next e)
    then have "sunk sink user e" using step_sunk [of sink input c e user] 1(3) by simp
    then show ?thesis using 1(1) [OF Next] 1(2) Next by (subst (asm) Push_loop.simps) simp
  qed (use 1(2,3) step_sunk [of sink input c d user] in \<open>simp_all add: Push_loop.simps [of sink input c]\<close>)
qed

lemma PushStreamChunk_fold:
  assumes "PushStreamChunk plan w pipeline input (Some sink) callback user = Some (w', r, user', frames)"
  shows "user' = fold (\<lambda>frame u. snd (sink u frame)) frames user"
proof -
  have start: "sunk sink user (start_push w user)" by (simp add: sunk_def start_push_def)
  have "sunk sink user d" if "result_of (Push_loop sink (bv_bytes input) (start_push w user)) = Some d" for d
    by (rule Push_loop_sunk [OF that start])
  then show ?thesis
    using assms
    by (auto simp: PushStreamChunk_def release_def after_loop_def sunk_def split: option.splits Iter.splits)
qed

section \<open>What the creation prepares\<close>

lemma Charge_Some:
  assumes "Charge used count width limit = Some n"
  shows "n = used + count * width \<and> n \<le> limit"
proof -
  have n: "n = used + count * width" "used \<le> limit" "width = 0 \<or> count \<le> (limit - used) div width"
    using assms by (auto simp: Charge_def split: if_splits)
  have "count * width \<le> limit - used"
  proof (cases "width = 0")
    case False
    then have "count * width \<le> (limit - used) div width * width" using n(3) by (intro mult_le_mono1) simp
    also have "\<dots> \<le> limit - used" by (rule div_times_less_eq_dividend)
    finally show ?thesis .
  qed simp
  then show ?thesis using n by simp
qed

text \<open>A channel as it is made for a binding of a plan.\<close>

definition fresh_channel :: "PlanBundle \<Rightarrow> HostAction \<Rightarrow> nat \<Rightarrow> nat \<Rightarrow> HostChannel \<Rightarrow> bool" where
  "fresh_channel plan action pipeline i c \<longleftrightarrow>
     hc_binding c = i \<and> hc_generation c = 0 \<and> \<not> hc_faulted c \<and> hc_core c = NewExecutionWorkspace plan \<and>
     (case hc_framer c of None \<Rightarrow> True
      | Some w \<Rightarrow> action = HA_DECODE \<and> (\<exists>sizeof address allocated overrides.
          cr_workspace (CreateStreamFramingWorkspace sizeof address allocated plan pipeline overrides) = Some w)) \<and>
     (action = HA_DECODE \<longrightarrow> length (hc_fields c) = rl_max_fields_per_message (pb_layout plan)) \<and>
     (action = HA_ENCODE \<longrightarrow> length (hc_bytes c) = rq_max_frame_bytes (pb_resource_requirements plan) \<and>
        length (hc_values c) = rl_max_fields_per_message (pb_layout plan))"

lemma MakeFramer_fresh:
  assumes "MakeFramer platform plan allowed spec pipeline index accounted = Inr (n, framer)"
    and "accounted \<le> hl_max_accounted_bytes allowed"
  shows "n \<le> hl_max_accounted_bytes allowed" and "\<And>w. framer = Some w \<Longrightarrow> \<exists>sizeof address allocated overrides.
      cr_workspace (CreateStreamFramingWorkspace sizeof address allocated plan pipeline overrides) = Some w"
  using assms by (auto simp: MakeFramer_def Let_def split: if_splits option.splits dest!: Charge_Some)

lemma MakeChannel_fresh:
  assumes "MakeChannel platform plan allowed spec i pipeline index accounted = Inr (n, c)"
  shows "n \<le> hl_max_accounted_bytes allowed \<and> fresh_channel plan (bs_action spec) pipeline i c"
proof (cases "bs_action spec")
  case HA_DECODE
  then obtain a framer where a: "a \<le> hl_max_accounted_bytes allowed"
      "MakeFramer platform plan allowed spec pipeline index a = Inr (n, framer)"
    and c: "hc_binding c = i" "hc_generation c = 0" "\<not> hc_faulted c" "hc_core c = NewExecutionWorkspace plan"
      "hc_framer c = framer" "length (hc_fields c) = rl_max_fields_per_message (pb_layout plan)"
    using assms by (auto simp: MakeChannel_def Let_def split: if_splits option.splits sum.splits dest!: Charge_Some)
  show ?thesis
    using c HA_DECODE MakeFramer_fresh [OF a(2,1)] by (auto simp: fresh_channel_def split: option.splits)
next
  case HA_ENCODE
  then show ?thesis
    using assms by (auto simp: MakeChannel_def fresh_channel_def Let_def split: if_splits option.splits dest!: Charge_Some)
qed

lemma MakeChannels_fresh:
  "MakeChannels platform plan allowed spec i pipeline k accounted channels = Inr (n, channels') \<Longrightarrow>
   accounted \<le> hl_max_accounted_bytes allowed \<Longrightarrow>
   n \<le> hl_max_accounted_bytes allowed \<and>
   (\<exists>made. channels' = channels @ made \<and> length made = k \<and>
      (\<forall>c \<in> set made. fresh_channel plan (bs_action spec) pipeline i c))"
proof (induction k arbitrary: accounted channels)
  case (Suc k)
  obtain a c where c: "MakeChannel platform plan allowed spec i pipeline (length channels) accounted = Inr (a, c)"
      "MakeChannels platform plan allowed spec i pipeline k a (channels @ [c]) = Inr (n, channels')"
    using Suc.prems(1) by (auto split: sum.splits)
  note fresh = MakeChannel_fresh [OF c(1)]
  obtain made where "channels' = (channels @ [c]) @ made" "length made = k"
      "\<forall>c \<in> set made. fresh_channel plan (bs_action spec) pipeline i c" and n: "n \<le> hl_max_accounted_bytes allowed"
    using Suc.IH [OF c(2)] fresh by blast
  then show ?case using fresh by (intro conjI n exI [of _ "c # made"]) auto
qed simp

text \<open>The tables: every binding owns a block of channels of its own, and no two bindings have the same key.\<close>

definition key :: "HostBinding \<Rightarrow> string \<times> HostAction" where
  "key b = (hi_endpoint b, hi_action b)"

definition tables_ok :: "PlanBundle \<Rightarrow> HostBinding list \<Rightarrow> nat list \<Rightarrow> bool" where
  "tables_ok plan bindings owners \<longleftrightarrow> distinct (map key bindings) \<and>
     (\<forall>b \<in> set bindings. hi_pipeline b < length (pb_pipelines plan)) \<and>
     owners = concat (map (\<lambda>i. replicate (hi_count (bindings ! i)) i) [0..<length bindings]) \<and>
     (\<forall>i < length bindings. hi_first (bindings ! i) = length (concat (map (\<lambda>j. replicate (hi_count (bindings ! j)) j) [0..<i])))"

definition fresh_channels :: "PlanBundle \<Rightarrow> HostBinding list \<Rightarrow> HostChannel list \<Rightarrow> bool" where
  "fresh_channels plan bindings channels \<longleftrightarrow> (\<forall>c \<in> set channels. \<exists>b. b = bindings ! hc_binding c \<and>
     fresh_channel plan (hi_action b) (hi_pipeline b) (hc_binding c) c)"

lemma last_index_Some: "last_index P xs = Some i \<Longrightarrow> i < length xs \<and> P (xs ! i)"
proof -
  have "fold (\<lambda>i found. if P (xs ! i) then Some i else found) [0..<n] None = Some i \<Longrightarrow> i < n \<and> P (xs ! i)" for n
    by (induction n) (auto split: if_splits)
  then show "last_index P xs = Some i \<Longrightarrow> ?thesis" by (simp add: last_index_def)
qed

lemma CheckBinding_Inr:
  assumes "CheckBinding plan allowed bindings spec = Inr pipeline"
  shows "pipeline < length (pb_pipelines plan)" "(bs_endpoint spec, bs_action spec) \<notin> key ` set bindings"
  using assms by (auto simp: CheckBinding_def key_def split: if_splits option.splits dest!: last_index_Some)

lemma tables_extend:
  assumes "tables_ok plan bindings owners" "hi_first b = length owners" "key b \<notin> key ` set bindings"
    and "hi_pipeline b < length (pb_pipelines plan)"
  shows "tables_ok plan (bindings @ [b]) (owners @ replicate (hi_count b) (length bindings))"
proof -
  have same: "concat (map (\<lambda>j. replicate (hi_count ((bindings @ [b]) ! j)) j) [0..<i]) =
      concat (map (\<lambda>j. replicate (hi_count (bindings ! j)) j) [0..<i])" if "i \<le> length bindings" for i
    using that by (intro arg_cong [of _ _ concat] map_cong) (auto simp: nth_append)
  show ?thesis
    using assms same [of "length bindings"] same
    by (auto simp: tables_ok_def nth_append less_Suc_eq simp del: length_concat)
qed

lemma MakeBindings_ok:
  "MakeBindings platform plan allowed specs accounted bindings channels = Inr (n, bindings', channels') \<Longrightarrow>
   tables_ok plan bindings (map hc_binding channels) \<Longrightarrow> fresh_channels plan bindings channels \<Longrightarrow>
   \<forall>c \<in> set channels. hc_binding c < length bindings \<Longrightarrow>
   accounted \<le> hl_max_accounted_bytes allowed \<Longrightarrow>
   n \<le> hl_max_accounted_bytes allowed \<and> tables_ok plan bindings' (map hc_binding channels') \<and>
   fresh_channels plan bindings' channels' \<and> (\<forall>c \<in> set channels'. hc_binding c < length bindings') \<and>
   map key bindings' = map key bindings @ map (\<lambda>spec. (bs_endpoint spec, bs_action spec)) specs"
proof (induction specs arbitrary: accounted bindings channels)
  case (Cons spec specs)
  obtain pipeline a a' channels1 where
      p: "CheckBinding plan allowed bindings spec = Inr pipeline"
    and a: "Charge accounted (length (bs_endpoint spec) + 1) 1 (hl_max_accounted_bytes allowed) = Some a"
    and c: "MakeChannels platform plan allowed spec (length bindings) pipeline (bs_streams spec) a channels = Inr (a', channels1)"
    and rest: "MakeBindings platform plan allowed specs a'
        (bindings @ [\<lparr>hi_endpoint = bs_endpoint spec, hi_action = bs_action spec, hi_pipeline = pipeline,
           hi_first = length channels, hi_count = bs_streams spec\<rparr>]) channels1 = Inr (n, bindings', channels')"
    using Cons.prems(1) by (auto simp: Let_def split: sum.splits option.splits if_splits)
  let ?b = "\<lparr>hi_endpoint = bs_endpoint spec, hi_action = bs_action spec, hi_pipeline = pipeline,
           hi_first = length channels, hi_count = bs_streams spec\<rparr>"
  have "a \<le> hl_max_accounted_bytes allowed" using Charge_Some [OF a] by simp
  from MakeChannels_fresh [OF c this] obtain made where a': "a' \<le> hl_max_accounted_bytes allowed"
    and made: "channels1 = channels @ made" "length made = bs_streams spec"
      "\<forall>c \<in> set made. fresh_channel plan (bs_action spec) pipeline (length bindings) c" by blast
  have owner: "map hc_binding made = replicate (bs_streams spec) (length bindings)"
    using made(2,3) by (intro nth_equalityI) (auto simp: fresh_channel_def)
  have "tables_ok plan (bindings @ [?b]) (map hc_binding channels1)"
    using tables_extend [OF Cons.prems(2), of ?b] CheckBinding_Inr [OF p] made(1) owner by (simp add: key_def)
  moreover have "fresh_channels plan (bindings @ [?b]) channels1"
  proof -
    have "hc_binding c = length bindings" if "c \<in> set made" for c using made(3) that by (auto simp: fresh_channel_def)
    then show ?thesis using Cons.prems(3,4) made(1,3) by (auto simp: fresh_channels_def nth_append)
  qed
  moreover have "\<forall>c \<in> set channels1. hc_binding c < length (bindings @ [?b])"
    using Cons.prems(4) made by (auto simp: fresh_channel_def less_Suc_eq)
  ultimately show ?case using Cons.IH [OF rest _ _ _ a'] by (simp add: key_def)
qed simp

lemma tables_block:
  assumes "tables_ok plan bindings owners" "i < length bindings" "k < hi_count (bindings ! i)"
  shows "hi_first (bindings ! i) + k < length owners" "owners ! (hi_first (bindings ! i) + k) = i"
proof -
  let ?f = "\<lambda>i. replicate (hi_count (bindings ! i)) i"
  have "[0..<length bindings] = [0..<i] @ i # [Suc i..<length bindings]"
    using assms(2) upt_add_eq_append [of 0 i "length bindings - i"] by (simp add: upt_conv_Cons)
  then have "owners = concat (map ?f [0..<i]) @ ?f i @ concat (map ?f [Suc i..<length bindings])"
    using assms(1) by (simp add: tables_ok_def)
  moreover have "hi_first (bindings ! i) = length (concat (map ?f [0..<i]))" using assms(1,2) by (simp add: tables_ok_def)
  ultimately show "hi_first (bindings ! i) + k < length owners" "owners ! (hi_first (bindings ! i) + k) = i"
    using assms(3) by (simp_all add: nth_append del: length_concat)
qed

text \<open>The tables of a session that is at rest.\<close>

definition session_tables :: "HostSession \<Rightarrow> bool" where
  "session_tables s \<longleftrightarrow> tables_ok (hs_plan s) (hs_bindings s) (map hc_binding (hs_channels s)) \<and>
     (\<forall>c \<in> set (hs_channels s). hc_binding c < length (hs_bindings s))"

lemma create_session:
  assumes "CreateSession platform owner specs allowed = (HS_OK, Some s)"
  shows "owner = Some (hs_plan s) \<and> hs_identity s = pf_identity platform \<and> \<not> hs_busy s \<and> session_tables s \<and>
    fresh_channels (hs_plan s) (hs_bindings s) (hs_channels s) \<and> hs_accounted s \<le> hl_max_accounted_bytes allowed \<and>
    (\<exists>listed. specs = Some listed \<and> map key (hs_bindings s) = map (\<lambda>spec. (bs_endpoint spec, bs_action spec)) listed)"
proof -
  obtain plan spec more streams a a' bindings channels accounted where o: "owner = Some plan" "specs = Some (spec # more)"
    and a: "Charge a' streams (pf_sizeof_channel platform) (hl_max_accounted_bytes allowed) = Some a"
    and m: "MakeBindings platform plan allowed (spec # more) a [] [] = Inr (accounted, bindings, channels)"
    and s: "s = \<lparr>hs_plan = plan, hs_identity = pf_identity platform, hs_bindings = bindings,
                hs_channels = channels, hs_accounted = accounted, hs_busy = False\<rparr>"
    using assms by (auto simp: CreateSession_def Let_def simp del: MakeBindings.simps
        split: option.splits list.splits if_splits sum.splits prod.splits)
  have "tables_ok plan [] (map hc_binding [])" by (simp add: tables_ok_def)
  moreover have "fresh_channels plan [] []" by (simp add: fresh_channels_def)
  ultimately show ?thesis
    using MakeBindings_ok [OF m] Charge_Some [OF a] by (simp add: s o session_tables_def del: MakeBindings.simps)
qed

section \<open>Handles\<close>

lemma Find_loop_Some:
  assumes "Find_loop bindings endpoint action stream = Some channel"
  shows "\<exists>i < length bindings. key (bindings ! i) = (endpoint, action) \<and> stream < hi_count (bindings ! i) \<and>
    channel = hi_first (bindings ! i) + stream"
proof -
  have "\<exists>b \<in> set bindings. key b = (endpoint, action) \<and> stream < hi_count b \<and> channel = hi_first b + stream"
    using assms by (induction bindings) (auto simp: key_def split: if_splits)
  then show ?thesis by (metis in_set_conv_nth)
qed

lemma find_handle:
  assumes "session_tables s" "Find s endpoint action stream \<noteq> no_handle"
  shows "\<exists>i j. Resolve s (Find s endpoint action stream) = Some j \<and> hc_binding (hs_channels s ! j) = i \<and>
    i < length (hs_bindings s) \<and> key (hs_bindings s ! i) = (endpoint, action) \<and> j = hi_first (hs_bindings s ! i) + stream"
proof -
  obtain j where j: "Find_loop (hs_bindings s) endpoint action stream = Some j"
      "Find s endpoint action stream = \<lparr>hd_scope = Some (hs_identity s), hd_channel = j\<rparr>"
    using assms(2) by (auto simp: Find_def split: if_splits option.splits)
  obtain i where i: "i < length (hs_bindings s)" "key (hs_bindings s ! i) = (endpoint, action)"
      "stream < hi_count (hs_bindings s ! i)" "j = hi_first (hs_bindings s ! i) + stream"
    using Find_loop_Some [OF j(1)] by blast
  have "tables_ok (hs_plan s) (hs_bindings s) (map hc_binding (hs_channels s))" using assms(1) by (simp add: session_tables_def)
  note block = tables_block [OF this i(1,3)]
  show ?thesis using block i j(2) by (auto simp: Resolve_def)
qed

lemma handles_distinct:
  assumes s: "session_tables s"
    and j: "Resolve s (Find s e1 a1 k1) = Some j" "Resolve s (Find s e2 a2 k2) = Some j"
  shows "(e1, a1, k1) = (e2, a2, k2)"
proof -
  have n: "Find s e1 a1 k1 \<noteq> no_handle" "Find s e2 a2 k2 \<noteq> no_handle"
    using j by (auto simp: Resolve_def no_handle_def)
  show ?thesis using find_handle [OF s n(1)] find_handle [OF s n(2)] j by auto
qed

section \<open>One candidate\<close>

lemma ObserveCandidate_facts:
  assumes "ObserveCandidate plan observer bytes d (c, r, user) = (seen, c', r', user')"
  shows "seen \<noteq> None \<and> c' = c \<and> (\<exists>n. r' = r\<lparr>ht_observed_candidates := n\<rparr>) \<or>
    seen = None \<and> c' = c\<lparr>hc_faulted := True\<rparr> \<and> r' = r\<lparr>ht_status := HS_CALLBACK_FAILED\<rparr>"
proof (cases observer)
  case None
  then have "seen = Some True" "c' = c" "r' = r\<lparr>ht_observed_candidates := ht_observed_candidates r\<rparr>"
    using assms by (simp_all add: ObserveCandidate_def)
  then show ?thesis by blast
next
  case (Some observe)
  then show ?thesis
    using assms by (auto simp: ObserveCandidate_def Let_def split: prod.splits CallbackOutcome.splits)
qed

lemma Deliver_facts:
  assumes "Deliver plan sink output (c, r, user) = (go, c', r', user')"
  shows "c' = c \<and> r' = r\<lparr>ht_successful_outputs := ht_successful_outputs r + 1\<rparr> \<or>
    \<not> go \<and> c' = c\<lparr>hc_faulted := True\<rparr> \<and> r' = r\<lparr>ht_status := HS_CALLBACK_FAILED\<rparr>"
  using assms by (auto simp: Deliver_def split: prod.splits CallbackOutcome.splits)

lemma DecodeCandidate_facts:
  assumes "DecodeCandidate plan sz pipeline sink observer bytes (c, r, user) = Some (go, c', r', user')"
  shows "\<exists>d. DecodeCompleteRecord plan sz (hc_core c) pipeline bytes (hc_fields_address c) (hc_fields c) =
      Some (d, hc_core c', hc_fields c') \<and> ht_codec_status r' = dr_status d \<and> ht_codec_attempted r' \<and>
    ht_decode_successes r' = ht_decode_successes r + (if dr_status d = CS_OK then 1 else 0) \<and>
    ht_decode_failures r' = ht_decode_failures r + (if dr_status d = CS_OK then 0 else 1) \<and>
    (ht_successful_outputs r' = ht_successful_outputs r \<or>
      dr_status d = CS_OK \<and> ht_successful_outputs r' = ht_successful_outputs r + 1) \<and>
    c' = c\<lparr>hc_core := hc_core c', hc_fields := hc_fields c', hc_faulted := hc_faulted c'\<rparr> \<and>
    (hc_faulted c \<longrightarrow> hc_faulted c') \<and> (hc_faulted c' \<and> \<not> hc_faulted c \<longrightarrow> \<not> go \<and> ht_status r' = HS_CALLBACK_FAILED) \<and>
    ht_framing_attempted r' = ht_framing_attempted r"
proof -
  obtain d slots ws where d: "DecodeCompleteRecord plan sz (hc_core c) pipeline bytes (hc_fields_address c) (hc_fields c) =
      Some (d, ws, slots)" using assms by (auto simp: DecodeCandidate_def split: option.splits)
  define c0 where "c0 = c\<lparr>hc_core := ws, hc_fields := slots\<rparr>"
  define r0 where "r0 = (let r = r\<lparr>ht_codec_attempted := True, ht_codec_status := dr_status d\<rparr>
      in if dr_status d = CS_OK then r\<lparr>ht_decode_successes := ht_decode_successes r + 1\<rparr>
         else r\<lparr>ht_decode_failures := ht_decode_failures r + 1, ht_status := HS_CODEC_FAILED\<rparr>)"
  obtain seen c1 r1 u1 where o: "ObserveCandidate plan observer bytes d (c0, r0, user) = (seen, c1, r1, u1)" by (metis surj_pair)
  define delivered where "delivered = no_output\<lparr>ho_message_index := dr_message_index d, ho_fields := slots, ho_field_count := dr_field_count d\<rparr>"
  obtain go2 c2 r2 u2 where v: "Deliver plan sink delivered (c1, r1, u1) = (go2, c2, r2, u2)" by (metis surj_pair)
  have "(go, c', r', user') = (case seen of None \<Rightarrow> (False, c1, r1, u1)
      | Some observing \<Rightarrow> if dr_status d = CS_OK then (go2 \<and> observing, c2, r2, u2) else (observing, c1, r1, u1))"
    using assms d o v
    by (auto simp: DecodeCandidate_def Let_def c0_def r0_def delivered_def split: option.splits if_splits)
  then show ?thesis
    using ObserveCandidate_facts [OF o] Deliver_facts [OF v]
    by (intro exI [of _ d]) (auto simp: d c0_def r0_def Let_def split: option.splits if_splits)
qed

section \<open>Decoding the frames of a submission\<close>

fun decode_frames ::
    "PlanBundle \<Rightarrow> nat \<Rightarrow> nat \<Rightarrow> 'u host_sink \<Rightarrow> 'u host_observer option \<Rightarrow> nat \<Rightarrow> u8 list list \<Rightarrow>
     HostChannel \<times> HostResult \<times> 'u \<Rightarrow> (HostChannel \<times> HostResult \<times> 'u) option" where
  "decode_frames plan sz pipeline sink observer address [] s = Some s"
| "decode_frames plan sz pipeline sink observer address (frame # frames) s =
     (case DecodeCandidate plan sz pipeline sink observer \<lparr>cv_address = address, cv_bytes = frame\<rparr> s of
        None \<Rightarrow> None
      | Some (_, s) \<Rightarrow> decode_frames plan sz pipeline sink observer address frames s)"

lemma fold_frame_sink:
  "fold (\<lambda>frame u. snd (frame_sink plan sz pipeline sink observer address u frame)) frames (Some s) =
     decode_frames plan sz pipeline sink observer address frames s"
proof (induction frames arbitrary: s)
  case (Cons frame frames)
  have none: "fold (\<lambda>frame u. snd (frame_sink plan sz pipeline sink observer address u frame)) fs None = None" for fs
    by (induction fs) (simp_all add: frame_sink_def)
  have "snd (frame_sink plan sz pipeline sink observer address (Some s) frame) =
      map_option snd (DecodeCandidate plan sz pipeline sink observer \<lparr>cv_address = address, cv_bytes = frame\<rparr> s)"
    by (simp add: frame_sink_def split: option.split)
  then show ?case
    by (cases "DecodeCandidate plan sz pipeline sink observer \<lparr>cv_address = address, cv_bytes = frame\<rparr> s")
      (auto simp: none Cons.IH)
qed simp

text \<open>What only the decoder and the callbacks change of a channel.\<close>

definition decoded_channel :: "HostChannel \<Rightarrow> HostChannel \<Rightarrow> bool" where
  "decoded_channel c c' \<longleftrightarrow> (\<exists>ws slots fault. c' = c\<lparr>hc_core := ws, hc_fields := slots, hc_faulted := fault\<rparr> \<and> (hc_faulted c \<longrightarrow> fault))"

lemma decoded_channel_trans: "decoded_channel a b \<Longrightarrow> decoded_channel b c \<Longrightarrow> decoded_channel a c"
  by (fastforce simp: decoded_channel_def)

lemma candidate_channel:
  assumes "DecodeCandidate plan sz pipeline sink observer bytes (c, r, user) = Some (go, c', r', user')"
  shows "decoded_channel c c'" "codec_session plan (hc_core c) \<Longrightarrow> codec_session plan (hc_core c')"
    "ht_decode_successes r' + ht_decode_failures r' = ht_decode_successes r + ht_decode_failures r + 1"
    "ht_framing_attempted r' = ht_framing_attempted r"
proof -
  obtain d where d: "DecodeCompleteRecord plan sz (hc_core c) pipeline bytes (hc_fields_address c) (hc_fields c) =
      Some (d, hc_core c', hc_fields c')"
    and f: "c' = c\<lparr>hc_core := hc_core c', hc_fields := hc_fields c', hc_faulted := hc_faulted c'\<rparr>" "hc_faulted c \<longrightarrow> hc_faulted c'"
    and n: "ht_decode_successes r' = ht_decode_successes r + (if dr_status d = CS_OK then 1 else 0)"
      "ht_decode_failures r' = ht_decode_failures r + (if dr_status d = CS_OK then 0 else 1)"
      "ht_framing_attempted r' = ht_framing_attempted r"
    using DecodeCandidate_facts [OF assms] by blast
  show "decoded_channel c c'" unfolding decoded_channel_def using f by blast
  show "codec_session plan (hc_core c')" if "codec_session plan (hc_core c)" using that d by (rule codec_session.decode)
  show "ht_decode_successes r' + ht_decode_failures r' = ht_decode_successes r + ht_decode_failures r + 1"
    "ht_framing_attempted r' = ht_framing_attempted r" using n by simp_all
qed

lemma decode_frames_facts:
  "decode_frames plan sz pipeline sink observer address frames (c, r, user) = Some (c', r', user') \<Longrightarrow>
   decoded_channel c c' \<and> (codec_session plan (hc_core c) \<longrightarrow> codec_session plan (hc_core c')) \<and>
   ht_decode_successes r' + ht_decode_failures r' = ht_decode_successes r + ht_decode_failures r + length frames \<and>
   ht_framing_attempted r' = ht_framing_attempted r"
proof (induction frames arbitrary: c r user)
  case Nil
  then show ?case by (auto simp: decoded_channel_def intro!: exI [of _ "hc_core c"] exI [of _ "hc_fields c"] exI [of _ "hc_faulted c"])
next
  case (Cons frame frames)
  obtain go c1 r1 u1 where one: "DecodeCandidate plan sz pipeline sink observer \<lparr>cv_address = address, cv_bytes = frame\<rparr> (c, r, user) =
      Some (go, c1, r1, u1)" "decode_frames plan sz pipeline sink observer address frames (c1, r1, u1) = Some (c', r', user')"
    using Cons.prems by (auto split: option.splits)
  show ?case using candidate_channel [OF one(1)] Cons.IH [OF one(2)] decoded_channel_trans by auto
qed

section \<open>The effect of a call\<close>

lemma Resolve_bound: "Resolve s h = Some i \<Longrightarrow> i < length (hs_channels s)"
  by (auto simp: Resolve_def split: if_splits)

lemma Decode_effect:
  assumes "Decode sz s h bytes sink observer user = Some (r, s', user')"
  obtains (refused) "s' = s" "user' = user" "\<not> ht_codec_attempted r" "ht_status r \<noteq> HS_OK"
  | (decoded) i c go where "Resolve s h = Some i" "s' = put_channel s i c" "sink \<noteq> None" "\<not> hc_faulted (hs_channels s ! i)"
      "DecodeCandidate (hs_plan s) sz (hi_pipeline (binding_of s (hs_channels s ! i))) (the sink) observer bytes
         (hs_channels s ! i, no_host_result\<lparr>ht_generation := hc_generation (hs_channels s ! i), ht_status := HS_OK\<rparr>, user) =
       Some (go, c, r, user')"
proof (cases "\<exists>i. Resolve s h = Some i \<and> \<not> hs_busy s \<and> DecodeRefusal s (hs_channels s ! i) False
    (sink = None \<or> cv_address bytes = 0 \<and> cv_bytes bytes \<noteq> []) = None")
  case False
  have not_ok: "DecodeRefusal s c stream bad \<noteq> Some HS_OK" for c stream bad by (simp add: DecodeRefusal_def)
  have "s' = s \<and> user' = user \<and> \<not> ht_codec_attempted r \<and> ht_status r \<noteq> HS_OK"
    using assms False not_ok by (auto simp: Decode_def no_host_result_def Let_def split: if_splits option.splits)
  then show thesis using refused by blast
next
  case True
  then obtain i where i: "Resolve s h = Some i" "\<not> hs_busy s" "DecodeRefusal s (hs_channels s ! i) False
      (sink = None \<or> cv_address bytes = 0 \<and> cv_bytes bytes \<noteq> []) = None" by blast
  then have n: "sink \<noteq> None" "\<not> hc_faulted (hs_channels s ! i)" by (auto simp: DecodeRefusal_def split: if_splits)
  have "Decode sz s h bytes sink observer user =
      map_option (\<lambda>(continue, channel, result, user). (result, put_channel s i channel, user))
        (DecodeCandidate (hs_plan s) sz (hi_pipeline (binding_of s (hs_channels s ! i))) (the sink) observer bytes
          (hs_channels s ! i, no_host_result\<lparr>ht_generation := hc_generation (hs_channels s ! i), ht_status := HS_OK\<rparr>, user))"
    using i by (simp add: Decode_def Let_def)
  with assms obtain go c where d: "DecodeCandidate (hs_plan s) sz (hi_pipeline (binding_of s (hs_channels s ! i))) (the sink)
      observer bytes (hs_channels s ! i, no_host_result\<lparr>ht_generation := hc_generation (hs_channels s ! i), ht_status := HS_OK\<rparr>, user) =
      Some (go, c, r, user')" and "s' = put_channel s i c"
    by (auto simp: map_option_eq_Some split_paired_Ex)
  then show thesis by (intro decoded [OF i(1) _ n])
qed

lemma Push_effect:
  assumes "Push sz s h bytes sink observer callback user = Some (r, s', user')"
  obtains (refused) "s' = s" "user' = user" "\<not> ht_framing_attempted r" "ht_framing r = initial_result" "ht_status r \<noteq> HS_OK"
  | (submitted) i w w' submitted frames c r0 c' where "Resolve s h = Some i" "sink \<noteq> None"
      "hc_framer (hs_channels s ! i) = Some w" "\<not> hc_faulted (hs_channels s ! i)"
      "PushStreamChunk (hs_plan s) w (hi_pipeline (binding_of s (hs_channels s ! i)))
         \<lparr>bv_address = cv_address bytes, bv_bytes = cv_bytes bytes\<rparr>
         (Some (frame_sink (hs_plan s) sz (hi_pipeline (binding_of s (hs_channels s ! i))) (the sink) observer
                 (hc_buffer_address (hs_channels s ! i)))) callback
         (Some (hs_channels s ! i, no_host_result\<lparr>ht_generation := hc_generation (hs_channels s ! i),
                  ht_status := HS_OK, ht_framing_attempted := True\<rparr>, user)) = Some (w', submitted, Some (c, r0, user'), frames)"
      "decode_frames (hs_plan s) sz (hi_pipeline (binding_of s (hs_channels s ! i))) (the sink) observer
         (hc_buffer_address (hs_channels s ! i)) frames
         (hs_channels s ! i, no_host_result\<lparr>ht_generation := hc_generation (hs_channels s ! i),
            ht_status := HS_OK, ht_framing_attempted := True\<rparr>, user) = Some (c, r0, user')"
      "c' = c\<lparr>hc_framer := Some w', hc_faulted := hc_faulted c \<or> rs_api_status submitted \<noteq> SA_OK\<rparr>"
      "s' = put_channel s i c'" "ht_framing r = submitted"
      "r = r0\<lparr>ht_framing := submitted, ht_status := ht_status r\<rparr>"
proof -
  let ?start = "\<lambda>i. (hs_channels s ! i, no_host_result\<lparr>ht_generation := hc_generation (hs_channels s ! i),
            ht_status := HS_OK, ht_framing_attempted := True\<rparr>, user)"
  show thesis
  proof (cases "\<exists>i. Resolve s h = Some i \<and> \<not> hs_busy s \<and> DecodeRefusal s (hs_channels s ! i) True
      (sink = None \<or> cv_address bytes = 0 \<and> cv_bytes bytes \<noteq> [] \<or>
       cv_bytes bytes = [] \<and> \<not> ob_has_internal_work (Observe (the (hc_framer (hs_channels s ! i))))) = None")
    case False
    have not_ok: "DecodeRefusal s c stream bad \<noteq> Some HS_OK" for c stream bad by (simp add: DecodeRefusal_def)
    have "s' = s \<and> user' = user \<and> \<not> ht_framing_attempted r \<and> ht_framing r = initial_result \<and> ht_status r \<noteq> HS_OK"
      using assms False not_ok by (auto simp: Push_def no_host_result_def Let_def split: if_splits option.splits)
    then show thesis using refused by blast
  next
    case True
    then obtain i where i: "Resolve s h = Some i" "\<not> hs_busy s" and admitted: "DecodeRefusal s (hs_channels s ! i) True
      (sink = None \<or> cv_address bytes = 0 \<and> cv_bytes bytes \<noteq> [] \<or>
       cv_bytes bytes = [] \<and> \<not> ob_has_internal_work (Observe (the (hc_framer (hs_channels s ! i))))) = None" by blast
    then obtain w where w: "hc_framer (hs_channels s ! i) = Some w" "\<not> hc_faulted (hs_channels s ! i)" "sink \<noteq> None"
      by (auto simp: DecodeRefusal_def split: if_splits)
    let ?pipeline = "hi_pipeline (binding_of s (hs_channels s ! i))"
    let ?sink = "frame_sink (hs_plan s) sz ?pipeline (the sink) observer (hc_buffer_address (hs_channels s ! i))"
    obtain w' submitted t frames where p: "PushStreamChunk (hs_plan s) w ?pipeline
        \<lparr>bv_address = cv_address bytes, bv_bytes = cv_bytes bytes\<rparr> (Some ?sink) callback (Some (?start i)) =
        Some (w', submitted, t, frames)" and t: "t \<noteq> None"
      using assms i admitted w(1) by (auto simp: Push_def Let_def split: option.splits)
    obtain c r0 u where t': "t = Some (c, r0, u)" using t by (metis not_None_eq surj_pair)
    have fr: "decode_frames (hs_plan s) sz ?pipeline (the sink) observer (hc_buffer_address (hs_channels s ! i)) frames (?start i) =
        Some (c, r0, u)" using PushStreamChunk_fold [OF p] by (simp add: fold_frame_sink t')
    have call: "Push sz s h bytes sink observer callback user =
        Some (let channel = c\<lparr>hc_framer := Some w'\<rparr>; result = r0\<lparr>ht_framing := submitted\<rparr>
          in if rs_api_status submitted \<noteq> SA_OK
             then (result\<lparr>ht_status := HS_FRAMING_FAILED\<rparr>, put_channel s i (channel\<lparr>hc_faulted := True\<rparr>), u)
             else (result, put_channel s i channel, u))"
      using i admitted w(1) p by (simp add: Push_def Let_def t')
    have u: "u = user'" and rest: "s' = put_channel s i (c\<lparr>hc_framer := Some w', hc_faulted := hc_faulted c \<or> rs_api_status submitted \<noteq> SA_OK\<rparr>)"
        "ht_framing r = submitted" "r = r0\<lparr>ht_framing := submitted, ht_status := ht_status r\<rparr>"
      using assms call by (auto simp: Let_def split: if_splits)
    show thesis
      using p fr rest unfolding t' u by (intro submitted [OF i(1) w(3,1,2) _ _ refl]) simp_all
  qed
qed

end
