(* ===== verification/Host_Properties.thy ===== *)
theory Host_Properties
  imports Host_Session
begin

text \<open>
  Host sessions as a whole: every call changes the channel of its handle only, and whatever sequence of calls the host
  makes, the channels stay sessions of the codec and of the framer.
\<close>

section \<open>Encoding and resetting\<close>

lemma Encode_effect:
  assumes "Encode sz s h message_id va named sink user = Some (r, s', user')"
  obtains (refused) "s' = s" "user' = user"
  | (encoding) i c where "Resolve s h = Some i" "s' = put_channel s i c" "\<not> hc_faulted (hs_channels s ! i)"
      "hi_action (binding_of s (hs_channels s ! i)) = HA_ENCODE" "hc_binding c = hc_binding (hs_channels s ! i)"
      "hc_framer c = hc_framer (hs_channels s ! i)"
      "codec_session (hs_plan s) (hc_core (hs_channels s ! i)) \<longrightarrow> codec_session (hs_plan s) (hc_core c)"
proof (cases "Resolve s h")
  case None
  then show thesis using assms refused by (auto simp: Encode_def split: if_splits)
next
  case (Some i)
  let ?c = "hs_channels s ! i"
  show thesis
  proof (cases "hs_busy s \<or> hi_action (binding_of s ?c) \<noteq> HA_ENCODE \<or> hc_faulted ?c")
    case True
    then have "s' = s \<and> user' = user" using assms Some by (auto simp: Encode_def Let_def split: if_splits)
    then show thesis using refused by blast
  next
    case False
    have message: "\<exists>c. s' = put_channel s i c \<and> hc_binding c = hc_binding ?c \<and> hc_framer c = hc_framer ?c \<and>
        (codec_session (hs_plan s) (hc_core ?c) \<longrightarrow> codec_session (hs_plan s) (hc_core c))"
      if m: "EncodeMessage sz s i (?c\<lparr>hc_values := out\<rparr>) m n k r0 user = Some (r, s', user')" for out m n k r0
    proof -
      obtain e ws bytes where e: "EncodeCompleteRecord (hs_plan s) sz (hc_core ?c) (hi_pipeline (binding_of s (?c\<lparr>hc_values := out\<rparr>)))
          m (hc_values_address ?c) (take n out) (hc_bytes_address ?c) (hc_bytes ?c) = Some (e, ws, bytes)"
        using m by (auto simp: EncodeMessage_def split: option.splits)
      have core: "codec_session (hs_plan s) (hc_core ?c) \<longrightarrow> codec_session (hs_plan s) ws"
        using codec_session.encode [OF _ e] by blast
      let ?c1 = "?c\<lparr>hc_values := out, hc_core := ws, hc_bytes := bytes\<rparr>"
      show ?thesis
      proof (cases "en_status e = CS_OK")
        case False
        then have "s' = put_channel s i ?c1" using m e by (simp add: EncodeMessage_def Let_def)
        then show ?thesis using core by (intro exI [of _ ?c1]) simp
      next
        case True
        obtain go c2 r2 u2 where d: "Deliver (hs_plan s) k (no_output\<lparr>ho_action := HA_ENCODE, ho_message_index := m,
             ho_bytes := \<lparr>cv_address = hc_bytes_address ?c, cv_bytes = take (en_bytes_written e) bytes\<rparr>\<rparr>)
            (?c1, r0\<lparr>ht_codec_attempted := True, ht_codec_status := CS_OK, ht_status := HS_OK\<rparr>, user) = (go, c2, r2, u2)"
          by (metis surj_pair)
        then have "s' = put_channel s i c2" using m e True by (simp add: EncodeMessage_def Let_def)
        moreover have "c2 = ?c1 \<or> c2 = ?c1\<lparr>hc_faulted := True\<rparr>" using Deliver_facts [OF d] by blast
        ultimately show ?thesis using core by (intro exI [of _ c2]) auto
      qed
    qed
    have unresolved: "\<exists>c. put_channel s i (?c\<lparr>hc_values := out\<rparr>) = put_channel s i c \<and> hc_binding c = hc_binding ?c \<and>
        hc_framer c = hc_framer ?c \<and> (codec_session (hs_plan s) (hc_core ?c) \<longrightarrow> codec_session (hs_plan s) (hc_core c))" for out
      by (intro exI [of _ "?c\<lparr>hc_values := out\<rparr>"]) simp
    have "s' = s \<and> user' = user \<or> (\<exists>c. s' = put_channel s i c \<and> hc_binding c = hc_binding ?c \<and> hc_framer c = hc_framer ?c \<and>
        (codec_session (hs_plan s) (hc_core ?c) \<longrightarrow> codec_session (hs_plan s) (hc_core c)))"
      using assms Some False message unresolved
      by (auto simp: Encode_def Let_def split: if_splits option.splits prod.splits)
    then show thesis using encoding [OF Some] refused False by blast
  qed
qed

lemma Reset_effect:
  assumes "Reset s h callback = (status, s')"
  obtains (unchanged) "s' = s" "status \<noteq> HS_OK"
  | (restarted) i c framer where "status = HS_OK" "Resolve s h = Some i" "s' = put_channel s i c"
      "c = (hs_channels s ! i)\<lparr>hc_generation := hc_generation (hs_channels s ! i) + 1, hc_faulted := False, hc_framer := framer\<rparr>"
      "hi_action (binding_of s (hs_channels s ! i)) = HA_DECODE"
      "case hc_framer (hs_channels s ! i) of None \<Rightarrow> framer = None
       | Some w \<Rightarrow> \<exists>w'. framer = Some w' \<and>
           ResetStreamFramingWorkspace (hs_plan s) w (hi_pipeline (binding_of s (hs_channels s ! i))) callback = (w', SA_OK)"
proof (cases "\<exists>i. Resolve s h = Some i \<and> \<not> hs_busy s \<and> hi_action (binding_of s (hs_channels s ! i)) = HA_DECODE \<and>
    hc_generation (hs_channels s ! i) \<noteq> - 1")
  case False
  then have "s' = s \<and> status \<noteq> HS_OK" using assms by (auto simp: Reset_def Let_def split: if_splits option.splits)
  then show thesis using unchanged by blast
next
  case True
  then obtain i where i: "Resolve s h = Some i" "\<not> hs_busy s" "hi_action (binding_of s (hs_channels s ! i)) = HA_DECODE"
    "hc_generation (hs_channels s ! i) \<noteq> - 1" by blast
  let ?c = "hs_channels s ! i" and ?pipeline = "hi_pipeline (binding_of s (hs_channels s ! i))"
  show thesis
  proof (cases "hc_framer ?c")
    case None
    then have ok: "status = HS_OK" and put: "s' = put_channel s i (?c\<lparr>hc_generation := hc_generation ?c + 1, hc_faulted := False\<rparr>)"
      using assms i by (simp_all add: Reset_def Let_def)
    have same: "?c\<lparr>hc_generation := hc_generation ?c + 1, hc_faulted := False\<rparr> =
        ?c\<lparr>hc_generation := hc_generation ?c + 1, hc_faulted := False, hc_framer := None\<rparr>" using None by simp
    have "s' = put_channel s i (?c\<lparr>hc_generation := hc_generation ?c + 1, hc_faulted := False, hc_framer := None\<rparr>)"
      by (subst same [symmetric]) (rule put)
    with ok show thesis using None by (intro restarted [OF _ i(1) _ _ i(3), of _ None]) simp_all
  next
    case (Some w)
    obtain w' st where w': "ResetStreamFramingWorkspace (hs_plan s) w ?pipeline callback = (w', st)" by fastforce
    show thesis
    proof (cases "st = SA_OK")
      case True
      then have "status = HS_OK"
        "s' = put_channel s i (?c\<lparr>hc_generation := hc_generation ?c + 1, hc_faulted := False, hc_framer := Some w'\<rparr>)"
        using assms i Some w' by (simp_all add: Reset_def Let_def)
      then show thesis using Some w' True by (intro restarted [OF _ i(1) _ _ i(3), of _ "Some w'"]) simp_all
    next
      case False
      then have "w' = w" using w' by (auto simp: ResetStreamFramingWorkspace_def split: if_splits)
      moreover have "status = HS_FRAMING_FAILED" "s' = put_channel s i (?c\<lparr>hc_framer := Some w'\<rparr>)"
        using assms i Some w' False by (simp_all add: Reset_def Let_def)
      moreover have "?c\<lparr>hc_framer := Some w\<rparr> = ?c" using Some by (cases ?c) simp
      ultimately have "s' = s" "status \<noteq> HS_OK" by (simp_all add: put_channel_def)
      then show thesis by (rule unchanged)
    qed
  qed
qed

section \<open>Sessions\<close>

text \<open>What a call means for the stream of its channel.\<close>

datatype HostEvent = EV_NONE | EV_CONSUMED "u8 list" | EV_RESET

inductive host_call :: "HostSession \<Rightarrow> Handle \<Rightarrow> HostEvent \<Rightarrow> 'u \<Rightarrow> HostSession \<Rightarrow> bool" where
  decode: "Decode sz s h bytes sink observer user = Some (r, s', user') \<Longrightarrow> host_call s h EV_NONE user' s'"
| push: "Push sz s h bytes sink observer callback user = Some (r, s', user') \<Longrightarrow>
    host_call s h (EV_CONSUMED (take (rs_bytes_consumed (ht_framing r)) (cv_bytes bytes))) user' s'"
| encode: "Encode sz s h message_id va named sink user = Some (r, s', user') \<Longrightarrow> host_call s h EV_NONE user' s'"
| reset: "Reset s h callback = (status, s') \<Longrightarrow> host_call s h (if status = HS_OK then EV_RESET else EV_NONE) user' s'"

definition follow :: "HostSession \<Rightarrow> Handle \<Rightarrow> HostEvent \<Rightarrow> (nat \<Rightarrow> u8 list) \<Rightarrow> nat \<Rightarrow> u8 list" where
  "follow s h event streams =
     (case (Resolve s h, event) of
        (Some i, EV_CONSUMED bytes) \<Rightarrow> streams(i := streams i @ bytes)
      | (Some i, EV_RESET) \<Rightarrow> streams(i := [])
      | _ \<Rightarrow> streams)"

text \<open>A session, and for each channel the bytes its framer consumed since its creation or last reset.  The user data
  is what the last call left; between calls the host may change it.\<close>

inductive host_session :: "HostPlatform \<Rightarrow> PlanBundle \<Rightarrow> HostSession \<Rightarrow> (nat \<Rightarrow> u8 list) \<Rightarrow> 'u \<Rightarrow> bool" for platform plan where
  created: "CreateSession platform (Some plan) specs allowed = (HS_OK, Some s) \<Longrightarrow> host_session platform plan s (\<lambda>i. []) user"
| called: "host_session platform plan s streams user \<Longrightarrow> host_call s h event user' s' \<Longrightarrow>
    host_session platform plan s' (follow s h event streams) user'"

definition channel_ok :: "PlanBundle \<Rightarrow> HostBinding \<Rightarrow> HostChannel \<Rightarrow> u8 list \<Rightarrow> bool" where
  "channel_ok plan b c stream \<longleftrightarrow> codec_session plan (hc_core c) \<and>
     (case hc_framer c of None \<Rightarrow> True
      | Some w \<Rightarrow> hi_action b = HA_DECODE \<and> (\<exists>frames discarded. session_ok plan (hi_pipeline b) w stream frames discarded))"

definition host_ok :: "PlanBundle \<Rightarrow> HostSession \<Rightarrow> (nat \<Rightarrow> u8 list) \<Rightarrow> bool" where
  "host_ok plan s streams \<longleftrightarrow> hs_plan s = plan \<and> \<not> hs_busy s \<and> session_tables s \<and>
     (\<forall>i < length (hs_channels s). channel_ok plan (binding_of s (hs_channels s ! i)) (hs_channels s ! i) (streams i))"

definition admitted :: "PlanBundle \<Rightarrow> bool" where
  "admitted plan \<longleftrightarrow> (\<forall>f \<in> set (pb_framing_profiles plan). fp_input_kind f = IK_STREAM_CHUNK \<longrightarrow>
     (\<exists>limit capacity. AdmitFraming (pb_schema_version plan) limit f = Some (Inr (Some capacity))))"

lemma fresh_channel_ok:
  assumes "admitted plan" "fresh_channel plan (hi_action b) (hi_pipeline b) i c"
  shows "channel_ok plan b c []"
proof (cases "hc_framer c")
  case None
  then show ?thesis using assms(2) by (simp add: channel_ok_def fresh_channel_def codec_session.create)
next
  case (Some w)
  let ?pipeline = "hi_pipeline b"
  obtain sizeof address allocated overrides where
    created: "cr_workspace (CreateStreamFramingWorkspace sizeof address allocated plan ?pipeline overrides) = Some w"
    using assms(2) Some by (auto simp: fresh_channel_def)
  have index: "pl_framing_profile_index (pb_pipelines plan ! ?pipeline) < length (pb_framing_profiles plan)"
  proof (rule ccontr)
    assume "\<not> ?thesis"
    then have "cr_workspace (CreateStreamFramingWorkspace sizeof address allocated plan ?pipeline overrides) = None"
      by (simp add: CreateStreamFramingWorkspace_def Let_def)
    then show False using created by simp
  qed
  moreover have "fp_input_kind (profile_of plan ?pipeline) = IK_STREAM_CHUNK"
  proof (rule ccontr)
    assume "\<not> ?thesis"
    then have "cr_workspace (CreateStreamFramingWorkspace sizeof address allocated plan ?pipeline overrides) = None"
      using index by (simp add: CreateStreamFramingWorkspace_def Let_def)
    then show False using created by simp
  qed
  ultimately have "profile_of plan ?pipeline \<in> set (pb_framing_profiles plan)" "fp_input_kind (profile_of plan ?pipeline) = IK_STREAM_CHUNK"
    by simp_all
  then obtain limit capacity where "AdmitFraming (pb_schema_version plan) limit (profile_of plan ?pipeline) = Some (Inr (Some capacity))"
    using assms(1) by (auto simp: admitted_def)
  then have "framing_ok (profile_of plan ?pipeline)" using AdmitFraming_ok by blast
  note c = create_ok [OF created this]
  have "session_ok plan ?pipeline w [] [] 0" by (rule session_start) (rule c)+
  then show ?thesis
    using assms(2) Some by (auto simp: channel_ok_def fresh_channel_def codec_session.create)
qed

lemma created_ok:
  assumes "CreateSession platform (Some plan) specs allowed = (HS_OK, Some s)" "admitted plan"
  shows "host_ok plan s (\<lambda>i. [])"
proof -
  note c = create_session [OF assms(1)]
  have "channel_ok plan (binding_of s c) c []" if "c \<in> set (hs_channels s)" for c
    using c that assms(2) by (intro fresh_channel_ok) (auto simp: fresh_channels_def binding_of_def)
  then show ?thesis using c by (simp add: host_ok_def)
qed

text \<open>A call that puts a channel of the same owner back keeps the session in order.\<close>

lemma put_channel_ok:
  assumes "host_ok plan s streams" "i < length (hs_channels s)" "hc_binding c = hc_binding (hs_channels s ! i)"
    and "channel_ok plan (binding_of s (hs_channels s ! i)) c (streams' i)" "\<And>j. j \<noteq> i \<Longrightarrow> streams' j = streams j"
  shows "host_ok plan (put_channel s i c) streams'"
proof -
  have owners: "map hc_binding ((hs_channels s)[i := c]) = map hc_binding (hs_channels s)"
    using assms(2,3) by (simp add: map_update) (metis length_map list_update_id nth_map)
  have "hc_binding ` set ((hs_channels s)[i := c]) = hc_binding ` set (hs_channels s)"
    using arg_cong [OF owners, of set] by (simp only: set_map)
  moreover have "\<forall>n \<in> hc_binding ` set (hs_channels s). n < length (hs_bindings s)"
    using assms(1) by (auto simp: host_ok_def session_tables_def)
  ultimately have "\<forall>n \<in> hc_binding ` set ((hs_channels s)[i := c]). n < length (hs_bindings s)" by (simp only:)
  then have "\<forall>d \<in> set ((hs_channels s)[i := c]). hc_binding d < length (hs_bindings s)" by blast
  then have "session_tables (put_channel s i c)"
    unfolding session_tables_def put_channel_def using owners assms(1) by (auto simp: host_ok_def session_tables_def simp del: map_update)
  then show ?thesis
    using assms by (auto simp: host_ok_def put_channel_def binding_of_def nth_list_update)
qed

lemma follow_simps [simp]:
  "follow s h EV_NONE streams = streams" "follow s h (EV_CONSUMED []) streams = streams"
  "Resolve s h = Some i \<Longrightarrow> follow s h (EV_CONSUMED bytes) streams = streams(i := streams i @ bytes)"
  "Resolve s h = Some i \<Longrightarrow> follow s h EV_RESET streams = streams(i := [])"
  by (simp_all add: follow_def split: option.split)

text \<open>The channel a call works on is a session of the codec and, when it is a stream, of the framer.\<close>

lemma host_ok_channel:
  assumes "host_ok plan s streams" "Resolve s h = Some i"
  shows "i < length (hs_channels s)" "hs_plan s = plan"
    "channel_ok plan (binding_of s (hs_channels s ! i)) (hs_channels s ! i) (streams i)"
  using assms Resolve_bound [OF assms(2)] by (simp_all add: host_ok_def)

lemma decode_keeps_ok:
  assumes ok: "host_ok plan s streams" and "Decode sz s h bytes sink observer user = Some (r, s', user')"
  shows "host_ok plan s' streams"
  using assms(2)
proof (cases rule: Decode_effect)
  case refused
  then show ?thesis using ok by simp
next
  case (decoded i c go)
  note i = host_ok_channel [OF ok decoded(1)]
  have c: "decoded_channel (hs_channels s ! i) c" using candidate_channel(1) [OF decoded(5)] .
  then have same: "hc_binding c = hc_binding (hs_channels s ! i)" "hc_framer c = hc_framer (hs_channels s ! i)"
    by (auto simp: decoded_channel_def)
  have "codec_session plan (hc_core c)"
    using candidate_channel(2) [OF decoded(5)] i(2,3) by (simp add: channel_ok_def)
  then have "channel_ok plan (binding_of s (hs_channels s ! i)) c (streams i)"
    using i(3) same(2) by (simp add: channel_ok_def)
  then show ?thesis unfolding decoded(2) by (rule put_channel_ok [OF ok i(1) same(1)]) simp
qed

lemma push_keeps_ok:
  assumes ok: "host_ok plan s streams" and "Push sz s h bytes sink observer callback user = Some (r, s', user')"
  shows "host_ok plan s' (follow s h (EV_CONSUMED (take (rs_bytes_consumed (ht_framing r)) (cv_bytes bytes))) streams)"
  using assms(2)
proof (cases rule: Push_effect)
  case refused
  then show ?thesis using ok by (simp add: initial_result_def)
next
  case (submitted i w w' result frames c r0 c')
  note i = host_ok_channel [OF ok submitted(1)]
  let ?b = "binding_of s (hs_channels s ! i)" and ?new = "take (rs_bytes_consumed result) (cv_bytes bytes)"
  have c: "decoded_channel (hs_channels s ! i) c" "codec_session (hs_plan s) (hc_core (hs_channels s ! i)) \<longrightarrow> codec_session (hs_plan s) (hc_core c)"
    using decode_frames_facts [OF submitted(6)] by simp_all
  then have same: "hc_binding c' = hc_binding (hs_channels s ! i)" "hc_core c' = hc_core c" "hc_framer c' = Some w'"
    by (auto simp: submitted(7) decoded_channel_def)
  obtain frames0 n where "hi_action ?b = HA_DECODE" "session_ok plan (hi_pipeline ?b) w (streams i) frames0 n"
    using i(3) submitted(3) by (auto simp: channel_ok_def)
  moreover from this(2) have "session_ok plan (hi_pipeline ?b) w' (streams i @ ?new) (frames0 @ frames) (n + rs_bytes_discarded result)"
    using session_submit [OF _ submitted(5)] i(2) by simp
  ultimately have "channel_ok plan ?b c' (streams i @ ?new)"
    using i(2,3) c(2) same by (auto simp: channel_ok_def)
  then show ?thesis
    unfolding submitted(8,9) using submitted(1) by (intro put_channel_ok [OF ok i(1) same(1)]) simp_all
qed

lemma encode_keeps_ok:
  assumes ok: "host_ok plan s streams" and "Encode sz s h message_id va named sink user = Some (r, s', user')"
  shows "host_ok plan s' streams"
  using assms(2)
proof (cases rule: Encode_effect)
  case refused
  then show ?thesis using ok by simp
next
  case (encoding i c)
  note i = host_ok_channel [OF ok encoding(1)]
  have "channel_ok plan (binding_of s (hs_channels s ! i)) c (streams i)"
    using i encoding(6,7) by (simp add: channel_ok_def)
  then show ?thesis unfolding encoding(2) by (rule put_channel_ok [OF ok i(1) encoding(5)]) simp
qed

lemma reset_keeps_ok:
  assumes ok: "host_ok plan s streams" and "Reset s h callback = (status, s')"
  shows "host_ok plan s' (follow s h (if status = HS_OK then EV_RESET else EV_NONE) streams)"
  using assms(2)
proof (cases rule: Reset_effect)
  case unchanged
  then show ?thesis using ok by simp
next
  case (restarted i c framer)
  note i = host_ok_channel [OF ok restarted(2)]
  let ?d = "hs_channels s ! i" and ?b = "binding_of s (hs_channels s ! i)"
  have "channel_ok plan ?b c []"
  proof (cases "hc_framer ?d")
    case None
    then show ?thesis using i(3) restarted(4,6) by (simp add: channel_ok_def)
  next
    case (Some w)
    then obtain w' where w': "framer = Some w'" "ResetStreamFramingWorkspace plan w (hi_pipeline ?b) callback = (w', SA_OK)"
      using restarted(6) i(2) by auto
    obtain frames n where s: "session_ok plan (hi_pipeline ?b) w (streams i) frames n"
      using i(3) Some by (auto simp: channel_ok_def)
    then have "workspace_ok w" by (simp add: session_ok_def)
    note r = reset_session [OF w'(2) this]
    have "session_ok plan (hi_pipeline ?b) w' [] [] 0"
      using r s limits_eqD(4,5,6,8) [OF r(3)] by (intro session_start) (simp_all add: session_ok_def)
    then show ?thesis using i(3) restarted(4,5) w'(1) by (auto simp: channel_ok_def)
  qed
  moreover have "hc_binding c = hc_binding ?d" by (simp add: restarted(4))
  ultimately show ?thesis
    unfolding restarted(3) using restarted(1,2) by (intro put_channel_ok [OF ok i(1)]) simp_all
qed

lemma host_call_ok: "host_call s h event user' s' \<Longrightarrow> host_ok plan s streams \<Longrightarrow> host_ok plan s' (follow s h event streams)"
  by (cases rule: host_call.cases) (auto intro: decode_keeps_ok push_keeps_ok encode_keeps_ok reset_keeps_ok)

lemma host_session_ok: "host_session platform plan s streams user \<Longrightarrow> admitted plan \<Longrightarrow> host_ok plan s streams"
  by (induction rule: host_session.induct) (blast intro: created_ok host_call_ok)+

end
