(* ===== verification/Codec_Returns.thy ===== *)
theory Codec_Returns
  imports Codec_Session
begin

text \<open>
  The codec returns.  The searches and walks of the codec are modelled by functions whose \<open>None\<close> is no return; on a
  plan whose text actions and candidate tables are in order every call of the codec has a result, whatever the record,
  the values and the buffers are.
\<close>

text \<open>A branching computation returns when all its branches do.\<close>

named_theorems returns

lemma option_returns [returns]:
  "(x = None \<Longrightarrow> a \<noteq> None) \<Longrightarrow> (\<And>y. x = Some y \<Longrightarrow> f y \<noteq> None) \<Longrightarrow> (case x of None \<Rightarrow> a | Some y \<Rightarrow> f y) \<noteq> None"
  by (cases x) simp_all

lemma pair_returns [returns]: "(\<And>a b. x = (a, b) \<Longrightarrow> f a b \<noteq> None) \<Longrightarrow> (case x of (a, b) \<Rightarrow> f a b) \<noteq> None"
  by (cases x) simp

lemma if_returns [returns]: "(c \<Longrightarrow> a \<noteq> None) \<Longrightarrow> (\<not> c \<Longrightarrow> b \<noteq> None) \<Longrightarrow> (if c then a else b) \<noteq> None"
  by simp

lemma map_returns [returns]: "x \<noteq> None \<Longrightarrow> map_option f x \<noteq> None"
  by simp

text \<open>What the plan builder establishes of the tables the searches run over.\<close>

definition pipeline_runs :: "PlanBundle \<Rightarrow> PipelineExecutionPlan \<Rightarrow> bool" where
  "pipeline_runs plan pipeline \<longleftrightarrow> groups_sorted pipeline \<and>
     (\<forall>g \<in> set (pe_candidate_groups pipeline). \<forall>i \<in> set (cg_message_indices g). i < length (pb_message_execution_plans plan)) \<and>
     (\<forall>i \<in> set (pe_variable_message_indices pipeline). i < length (pb_message_execution_plans plan)) \<and>
     (\<forall>i \<in> set (pe_text_message_indices pipeline). i < length (pb_message_execution_plans plan))"

definition plan_runs :: "PlanBundle \<Rightarrow> bool" where
  "plan_runs plan \<longleftrightarrow> (\<forall>pipeline \<in> set (pb_pipeline_execution_plans plan). pipeline_runs plan pipeline) \<and>
     (\<forall>m \<in> set (pb_message_execution_plans plan). \<forall>action.
        me_text_decode m = Some action \<or> me_text_encode m = Some action \<longrightarrow> action_ok m action)"

lemma plan_runs_action:
  assumes "plan_runs plan" "i < length (pb_message_execution_plans plan)"
    and "me_text_decode (pb_message_execution_plans plan ! i) = Some action \<or> me_text_encode (pb_message_execution_plans plan ! i) = Some action"
  shows "action_ok (pb_message_execution_plans plan ! i) action"
  using assms by (auto simp: plan_runs_def)

lemma plan_runs_match:
  assumes "plan_runs plan" "pipeline \<in> set (pb_pipeline_execution_plans plan)"
  shows "FindPipelineMatch pipeline (pb_message_execution_plans plan) input =
      Some (outcome_of (matching pipeline (pb_message_execution_plans plan) input))"
    and "\<forall>i \<in> set (matching pipeline (pb_message_execution_plans plan) input). i < length (pb_message_execution_plans plan)"
proof -
  have p: "pipeline_runs plan pipeline" using assms by (simp add: plan_runs_def)
  then have "text_messages_ok (pb_message_execution_plans plan) (pe_text_message_indices pipeline)"
    using plan_runs_action [OF assms(1)] by (auto simp: text_messages_ok_def pipeline_runs_def)
  then show "FindPipelineMatch pipeline (pb_message_execution_plans plan) input =
      Some (outcome_of (matching pipeline (pb_message_execution_plans plan) input))"
    using p by (intro FindPipelineMatch_outcome) (simp_all add: pipeline_runs_def)
  show "\<forall>i \<in> set (matching pipeline (pb_message_execution_plans plan) input). i < length (pb_message_execution_plans plan)"
    using p by (auto simp: pipeline_runs_def matching_def binary_candidates_def)
qed

section \<open>Decoding\<close>

lemma DecodeText_returns:
  assumes "action_ok m action"
  shows "DecodeText plan i m action slot_size input sa slots result \<noteq> None"
proof -
  obtain st1 where w1: "WalkTextAction action m (cv_bytes input) True accept_all () = Some st1"
    using WalkTextAction_total [OF assms, where visitor = accept_all and s = "()"] by blast
  obtain st2 where w2: "WalkTextAction action m (cv_bytes input) False
      (materialise_text (pb_address plan) i (me_text_decode_field_count m) input) (0, slots) = Some st2"
    using WalkTextAction_total [OF assms, where s = "(0, slots)"] by blast
  show ?thesis by (simp add: DecodeText_def Let_def w1 w2 split: option.split prod.split)
qed

lemma decode_returns:
  assumes "plan_runs plan"
  shows "DecodeCompleteRecord plan slot_size ws pipeline_index input sa slots \<noteq> None"
proof -
  have "DecodeLeased plan slot_size ws1 pipeline_index input sa slots \<noteq> None" for ws1
  proof (cases "pipeline_index < length (pb_pipeline_execution_plans plan)")
    case True
    let ?p = "pb_pipeline_execution_plans plan ! pipeline_index" and ?ms = "pb_message_execution_plans plan"
    note run = plan_runs_match [OF assms nth_mem [OF True], of "cv_bytes input"]
    have decoded: "DecodeText plan (mo_message_index outcome) (?ms ! mo_message_index outcome) action slot_size input sa slots result \<noteq> None"
      if one: "FindPipelineMatch ?p ?ms (cv_bytes input) = Some outcome" "\<not> mo_match_count outcome \<noteq> 1"
        "me_text_decode (?ms ! mo_message_index outcome) = Some action" for outcome action result
    proof -
      obtain i where "matching ?p ?ms (cv_bytes input) = [i]" "mo_message_index outcome = i"
        using one run(1) by (auto simp: outcome_of_def length_Suc_conv)
      then have "mo_message_index outcome < length ?ms" using run(2) by simp
      then show ?thesis using plan_runs_action [OF assms] one by (intro DecodeText_returns) blast
    qed
    show ?thesis
      unfolding DecodeLeased_def Let_def by (intro returns decoded option.distinct(2)) (simp_all add: run(1))
  qed (simp add: DecodeLeased_def Let_def)
  note leased = this
  show ?thesis unfolding DecodeCompleteRecord_def by (intro returns leased option.distinct(2))
qed

section \<open>Encoding\<close>

lemma TextSize_returns:
  "segments_ok m segs \<Longrightarrow> TextSize m vs indices segs actual \<noteq> None"
proof (induction segs arbitrary: actual)
  case (Cons segment following)
  have IH: "TextSize m vs indices following n \<noteq> None" for n using Cons.IH Cons.prems by simp
  show ?case
  proof (cases "following \<noteq> [] \<and> tsp_kind (hd following) = TS_LITERAL")
    case True
    then have "literal_ok (hd following)" using Cons.prems by (cases following) (simp_all split: if_splits)
    then have "\<forall>v. \<exists>k. FindFirstAcrossBoundary v (hd following) = Some (Some k)"
      using FindFirstAcrossBoundary_first by blast
    then obtain k where "\<And>v. FindFirstAcrossBoundary v (hd following) = Some (Some (k v))" by metis
    then show ?thesis using IH by (simp add: Let_def)
  next
    case False
    then show ?thesis using IH by (auto simp: Let_def)
  qed
qed simp

lemma EncodeText_returns:
  assumes "action_ok m action"
  shows "EncodeText m action descriptor_range vs indices out_address out result \<noteq> None"
proof -
  obtain size where size: "TextSize m vs indices (tap_segments action) 0 = Some size"
    using TextSize_returns assms unfolding action_ok_def by blast
  have walk: "\<exists>r. WalkTextAction action m bytes True (review_text m vs indices bytes) () = Some r" for bytes
    by (rule WalkTextAction_total [OF assms])
  show ?thesis
  proof (cases size)
    case (Inl failure)
    then show ?thesis by (cases failure) (simp add: EncodeText_def size)
  next
    case (Inr n)
    let ?bytes = "take n (WriteText m vs indices (tap_segments action) 0 out)"
    obtain r where r: "WalkTextAction action m ?bytes True (review_text m vs indices ?bytes) () = Some r" using walk by blast
    show ?thesis
      using r by (cases r) (auto simp: EncodeText_def size Inr Let_def split: option.splits prod.splits)
  qed
qed

lemma WriteAndReview_returns:
  assumes "\<And>bytes. FindPipelineMatch pipeline (pb_message_execution_plans plan) bytes \<noteq> None"
  shows "WriteAndReview plan pipeline message_index m vs n ws out result \<noteq> None"
  unfolding WriteAndReview_def Let_def by (intro returns option.distinct(2) notI) (use assms in auto)

lemma EncodeBinary_returns:
  assumes "\<And>bytes. FindPipelineMatch pipeline (pb_message_execution_plans plan) bytes \<noteq> None"
  shows "EncodeBinary plan pipeline message_index m descriptor_range vs ws out_address out result \<noteq> None"
  unfolding EncodeBinary_def Let_def by (intro returns WriteAndReview_returns [OF assms] option.distinct(2))

lemma encode_returns:
  assumes "plan_runs plan"
  shows "EncodeCompleteRecord plan value_size ws pipeline_index message_index va vs out_address out \<noteq> None"
proof -
  have "EncodeLeased plan value_size ws1 pipeline_index message_index va vs out_address out \<noteq> None" for ws1
  proof (cases "pipeline_index < length (pb_pipeline_execution_plans plan) \<and> message_index < length (pb_message_execution_plans plan)")
    case True
    let ?p = "pb_pipeline_execution_plans plan ! pipeline_index" and ?m = "pb_message_execution_plans plan ! message_index"
    have match: "FindPipelineMatch ?p (pb_message_execution_plans plan) bytes \<noteq> None" for bytes
      using plan_runs_match(1) [OF assms nth_mem] True by simp
    have encoded: "EncodeText ?m action r vs indices out_address out result \<noteq> None" if "me_text_encode ?m = Some action"
      for action r indices result
      using plan_runs_action [OF assms] True that by (intro EncodeText_returns) simp
    show ?thesis
      unfolding EncodeLeased_def Let_def
      by (intro returns EncodeBinary_returns [OF match] encoded option.distinct(2))
  qed (auto simp: EncodeLeased_def Let_def split: option.split)
  note leased = this
  show ?thesis unfolding EncodeCompleteRecord_def by (intro returns leased option.distinct(2))
qed

end
