(* ===== verification/Host_Claims.thy ===== *)
theory Host_Claims
  imports Host_Properties Codec_Returns
begin

text \<open>
  What the host sessions promise, and a session of one fixed-length stream that the witnesses run.
\<close>

section \<open>Handles of a new session\<close>

lemma MakeBindings_counts:
  "MakeBindings platform plan allowed specs accounted bindings channels = Inr (n, bindings', channels') \<Longrightarrow>
   map hi_count bindings' = map hi_count bindings @ map bs_streams specs"
  by (induction specs arbitrary: accounted bindings channels)
    (auto simp: Let_def split: sum.splits option.splits if_splits)

lemma created_counts:
  assumes "CreateSession platform (Some plan) (Some specs) allowed = (HS_OK, Some s)"
  shows "map hi_count (hs_bindings s) = map bs_streams specs"
proof -
  obtain a n where "MakeBindings platform plan allowed specs a [] [] = Inr (n, hs_bindings s, hs_channels s)"
    using assms by (auto simp: CreateSession_def Let_def simp del: MakeBindings.simps
        split: option.splits list.splits if_splits sum.splits prod.splits)
  then show ?thesis using MakeBindings_counts by fastforce
qed

lemma Find_loop_finds:
  "i < length bindings \<Longrightarrow> key (bindings ! i) = (endpoint, action) \<Longrightarrow> stream < hi_count (bindings ! i) \<Longrightarrow>
   Find_loop bindings endpoint action stream \<noteq> None"
  by (induction bindings arbitrary: i) (auto simp: key_def nth_Cons split: nat.splits)

text \<open>Every stream of every binding has a handle, and the handle leads to a fresh channel of that binding.\<close>

lemma created_handle:
  assumes created: "CreateSession platform (Some plan) (Some specs) allowed = (HS_OK, Some s)"
    and spec: "spec \<in> set specs" "k < bs_streams spec"
  shows "\<exists>j. Resolve s (Find s (bs_endpoint spec) (bs_action spec) k) = Some j \<and>
    key (binding_of s (hs_channels s ! j)) = (bs_endpoint spec, bs_action spec) \<and>
    hc_generation (hs_channels s ! j) = 0 \<and> \<not> hc_faulted (hs_channels s ! j)"
proof -
  note c = create_session [OF created]
  have keys: "map key (hs_bindings s) = map (\<lambda>spec. (bs_endpoint spec, bs_action spec)) specs" using c by simp
  obtain i where i: "i < length specs" "specs ! i = spec" using spec(1) by (metis in_set_conv_nth)
  then have b: "i < length (hs_bindings s)" using keys by (metis length_map)
  have "key (hs_bindings s ! i) = (bs_endpoint spec, bs_action spec)" "hi_count (hs_bindings s ! i) = bs_streams spec"
    using keys created_counts [OF created] i b by (metis nth_map)+
  then have "Find_loop (hs_bindings s) (bs_endpoint spec) (bs_action spec) k \<noteq> None"
    using Find_loop_finds [OF b] spec(2) by simp
  then have "Find s (bs_endpoint spec) (bs_action spec) k \<noteq> no_handle"
    using c by (auto simp: Find_def no_handle_def)
  from find_handle [OF _ this] c obtain j where j: "Resolve s (Find s (bs_endpoint spec) (bs_action spec) k) = Some j"
      "key (binding_of s (hs_channels s ! j)) = (bs_endpoint spec, bs_action spec)"
    by (auto simp: binding_of_def)
  have "hs_channels s ! j \<in> set (hs_channels s)" using Resolve_bound [OF j(1)] by simp
  moreover have "fresh_channels (hs_plan s) (hs_bindings s) (hs_channels s)" using c by blast
  ultimately have "hc_generation (hs_channels s ! j) = 0 \<and> \<not> hc_faulted (hs_channels s ! j)"
    unfolding fresh_channels_def fresh_channel_def by blast
  then show ?thesis using j by blast
qed

section \<open>Effects of a call\<close>

lemma decoded_binding: "decoded_channel c c' \<Longrightarrow> hc_binding c' = hc_binding c"
  by (auto simp: decoded_channel_def)

lemma host_call_put:
  assumes "host_call s h event user' s'"
  shows "s' = s \<or> (\<exists>i c. Resolve s h = Some i \<and> s' = put_channel s i c \<and> hc_binding c = hc_binding (hs_channels s ! i))"
  using assms
proof (cases rule: host_call.cases)
  case (decode sz bytes sink observer user r)
  from this(2) show ?thesis
    by (cases rule: Decode_effect) (blast dest: candidate_channel(1) decoded_binding)+
next
  case (push sz bytes sink observer callback user r)
  from this(2) show ?thesis
  proof (cases rule: Push_effect)
    case (submitted i w w' result frames c r0 c')
    have "hc_binding c' = hc_binding (hs_channels s ! i)"
      using decode_frames_facts [OF submitted(6)] submitted(7) by (simp add: decoded_binding)
    then show ?thesis using submitted(1,8) by blast
  qed simp
next
  case (encode sz message_id va named sink user r)
  from this(2) show ?thesis by (cases rule: Encode_effect) auto
next
  case (reset callback status)
  from this(2) show ?thesis by (cases rule: Reset_effect) auto
qed

text \<open>A faulted channel refuses everything but a reset.\<close>

lemma faulted_call:
  assumes "host_call s h event user' s'" "Resolve s h = Some i" "hc_faulted (hs_channels s ! i)"
  shows "s' = s \<or> (event = EV_RESET \<and> hi_action (binding_of s (hs_channels s ! i)) = HA_DECODE \<and>
    (\<exists>framer. s' = put_channel s i ((hs_channels s ! i)\<lparr>hc_generation := hc_generation (hs_channels s ! i) + 1,
       hc_faulted := False, hc_framer := framer\<rparr>)))"
  using assms(1)
proof (cases rule: host_call.cases)
  case (decode sz bytes sink observer user r)
  from this(2) show ?thesis by (cases rule: Decode_effect) (use assms in auto)
next
  case (push sz bytes sink observer callback user r)
  from this(2) show ?thesis by (cases rule: Push_effect) (use assms in auto)
next
  case (encode sz message_id va named sink user r)
  from this(2) show ?thesis by (cases rule: Encode_effect) (use assms in auto)
next
  case (reset callback status)
  from this(2) show ?thesis by (cases rule: Reset_effect) (use reset(1) assms in auto)
qed

section \<open>Calls return\<close>

lemma candidate_returns:
  assumes "plan_runs plan"
  shows "DecodeCandidate plan sz pipeline sink observer bytes s \<noteq> None"
  unfolding DecodeCandidate_def Let_def by (intro returns option.distinct(2)) (erule notE [OF decode_returns [OF assms]])

lemma decode_frames_returns:
  assumes "plan_runs plan"
  shows "decode_frames plan sz pipeline sink observer address frames s \<noteq> None"
proof (induction frames arbitrary: s)
  case (Cons frame frames)
  show ?case unfolding decode_frames.simps by (intro returns Cons.IH) (erule notE [OF candidate_returns [OF assms]])
qed simp

lemma framer_returns:
  assumes "session_ok plan pipeline w stream frames discarded"
  shows "PushStreamChunk plan w pipeline input (Some sink) callback user \<noteq> None"
proof (cases "Push_refusal plan w pipeline input (Some sink) callback")
  case None
  obtain p where "workspace_ok w" "holds w p" using assms by (auto simp: session_ok_def)
  from PushStreamChunk_ok [OF this None] show ?thesis by blast
qed (simp add: PushStreamChunk_def)

text \<open>A submission of a session that reports its frames counts them.\<close>

lemma framer_counts:
  assumes "session_ok plan pipeline w stream frames discarded"
    and "PushStreamChunk plan w pipeline input (Some sink) callback user = Some (w', r, user', delivered)"
  shows "rs_frames_delivered r = length delivered"
proof -
  obtain p where "workspace_ok w" "holds w p" using assms(1) by (auto simp: session_ok_def)
  from this assms(2) show ?thesis by (cases rule: submission) (simp_all add: initial_result_def push_ok_def)
qed

lemma Decode_returns:
  assumes "plan_runs (hs_plan s)"
  shows "Decode sz s h bytes sink observer user \<noteq> None"
  unfolding Decode_def Let_def by (intro returns candidate_returns [OF assms] option.distinct(2))

lemma Encode_returns:
  assumes "plan_runs (hs_plan s)"
  shows "Encode sz s h message_id va named sink user \<noteq> None"
  unfolding Encode_def EncodeMessage_def Let_def by (intro returns option.distinct(2)) (erule notE [OF encode_returns [OF assms]])

lemma Push_returns:
  assumes "plan_runs plan" and ok: "host_ok plan s streams"
  shows "Push sz s h bytes sink observer callback user \<noteq> None"
proof (cases "\<exists>i w. Resolve s h = Some i \<and> hc_framer (hs_channels s ! i) = Some w")
  case True
  then obtain i w where i: "Resolve s h = Some i" "hc_framer (hs_channels s ! i) = Some w" by blast
  let ?c = "hs_channels s ! i" let ?b = "binding_of s ?c"
  let ?start = "(?c, no_host_result\<lparr>ht_generation := hc_generation ?c, ht_status := HS_OK, ht_framing_attempted := True\<rparr>, user)"
  let ?sink = "frame_sink (hs_plan s) sz (hi_pipeline ?b) (the sink) observer (hc_buffer_address ?c)"
  obtain frames n where "session_ok plan (hi_pipeline ?b) w (streams i) frames n"
    using host_ok_channel [OF ok i(1)] i(2) by (auto simp: channel_ok_def)
  from framer_returns [OF this, where sink = ?sink and user = "Some ?start"] obtain z where z:
    "PushStreamChunk (hs_plan s) w (hi_pipeline ?b) \<lparr>bv_address = cv_address bytes, bv_bytes = cv_bytes bytes\<rparr>
      (Some ?sink) callback (Some ?start) = Some z"
    unfolding host_ok_channel(2) [OF ok i(1)] by blast
  obtain w' r u delivered where "z = (w', r, u, delivered)" by (rule prod_cases4)
  note p = z [unfolded this]
  have "u = decode_frames (hs_plan s) sz (hi_pipeline ?b) (the sink) observer (hc_buffer_address ?c) delivered ?start"
    using PushStreamChunk_fold [OF p] by (simp add: fold_frame_sink)
  then have u: "u \<noteq> None" using decode_frames_returns assms(1) host_ok_channel(2) [OF ok i(1)] by metis
  show ?thesis
    by (simp only: Push_def Let_def i option.case option.sel p prod.case) (intro returns u option.distinct(2))
next
  case False
  show ?thesis
  proof (cases "Resolve s h")
    case (Some i)
    then have "hc_framer (hs_channels s ! i) = None" using False by auto
    then have "DecodeRefusal s (hs_channels s ! i) True bad = Some
        (if hi_action (binding_of s (hs_channels s ! i)) \<noteq> HA_DECODE then HS_INVALID_BINDING else HS_WRONG_INPUT_KIND)" for bad
      by (simp add: DecodeRefusal_def)
    then show ?thesis using Some by (simp add: Push_def Let_def)
  qed (simp add: Push_def)
qed

section \<open>A session of two streams\<close>

definition host_message :: MessagePlan where
  "host_message = \<lparr>ms_id = ''m'', ms_direction_id = ''rx'', ms_frame_length_bytes = 8, ms_matchers = [],
     ms_bit_containers = [], ms_integrity = None, ms_bounded_payload = None, ms_computed_length = None, ms_fields = [],
     ms_ascii_text = None\<rparr>"

definition host_plan :: PlanBundle where
  "host_plan = Codec_Session.example_plan\<lparr>pb_schema_version := ''0.9'', pb_framing_profiles := [block_framing],
     pb_pipelines := [\<lparr>pl_id = ''p'', pl_direction_id = ''rx'', pl_framing_profile_index = 0, pl_message_indices = [0]\<rparr>],
     pb_messages := [host_message]\<rparr>"

definition host_platform :: HostPlatform where
  "host_platform = \<lparr>pf_allocated = (\<lambda>b. True),
     pf_address = (\<lambda>b. case b of BL_FIELDS i \<Rightarrow> 9000 + 1000 * i | BL_BUFFER i \<Rightarrow> 5000 + 100 * i | BL_FRAMER i \<Rightarrow> 16 + 64 * i | _ \<Rightarrow> 20000),
     pf_identity = 77, pf_sizeof_session = 100, pf_sizeof_binding = 64, pf_sizeof_channel = 200, pf_sizeof_workspace = 120,
     pf_sizeof_slot = 64, pf_sizeof_value = 96, pf_sizeof_framer = 256\<rparr>"

definition host_spec :: BindingSpec where
  "host_spec = \<lparr>bs_endpoint = ''e'', bs_action = HA_DECODE, bs_pipeline = ''p'', bs_streams = 2, bs_framing_limits = no_overrides\<rparr>"

definition host_limits :: HostLimits where
  "host_limits = \<lparr>hl_max_bindings = 4, hl_max_channels = 4, hl_max_identity_bytes = 16, hl_max_accounted_bytes = 65536\<rparr>"

definition two_streams :: HostSession where
  "two_streams = the (snd (CreateSession host_platform (Some host_plan) (Some [host_spec]) host_limits))"

lemmas host_defs = host_plan_def Codec_Session.example_plan_def host_platform_def host_spec_def host_limits_def example_defs

lemma host_plan_framing: "profile_of host_plan 0 = block_framing" "pb_framing_profiles host_plan = [block_framing]"
  "pb_schema_version host_plan = ''0.9''"
  by (simp_all add: host_plan_def)

lemma two_streams_created:
  "CreateSession host_platform (Some host_plan) (Some [host_spec]) host_limits = (HS_OK, Some two_streams)"
  by (simp add: two_streams_def CreateSession_def CheckBinding_def last_index_def Supports_def Charge_def MakeChannel_def
      MakeFramer_def numeral_2_eq_2 host_defs)

lemma host_admitted: "admitted host_plan"
  using block_admitted by (auto simp: admitted_def host_plan_framing)

lemma host_runs: "plan_runs host_plan"
  by (simp add: plan_runs_def pipeline_runs_def host_plan_def Codec_Session.example_plan_def example_pipeline_def groups_sorted_def
      example_message_def)

lemma two_streams_session: "host_session host_platform host_plan two_streams (\<lambda>i. []) ()"
  by (rule host_session.created [OF two_streams_created])

definition host_keep :: "unit host_sink" where
  "host_keep output user = (CB_CONTINUE, ())"

definition stream_handle :: "nat \<Rightarrow> Handle" where
  "stream_handle k = Find two_streams ''e'' HA_DECODE k"

lemma host_plan_facts [simp]:
  "pb_address host_plan = 1000" "pb_resource_profile host_plan = DESKTOP" "rl_max_fields_per_message (pb_layout host_plan) = 2"
  "rl_estimated_workspace_bytes (pb_layout host_plan) = 16" "pb_schema_version host_plan = ''0.9''"
  "pb_pipelines host_plan = [\<lparr>pl_id = ''p'', pl_direction_id = ''rx'', pl_framing_profile_index = 0, pl_message_indices = [0]\<rparr>]"
  "pb_framing_profiles host_plan = [block_framing]"
  "rq_max_framing_buffer_bytes (pb_resource_requirements host_plan) = 0"
  by (simp_all add: host_plan_def Codec_Session.example_plan_def)

definition host_framer :: "nat \<Rightarrow> nat \<Rightarrow> StreamFramingWorkspace" where
  "host_framer k memory = NewStreamFramingWorkspace (16 + 64 * k) host_plan 0 block_framing 3 1048576 1024 4194304 memory"

definition host_channel :: "nat \<Rightarrow> nat \<Rightarrow> HostChannel" where
  "host_channel k memory = \<lparr>hc_binding = 0, hc_generation = 0, hc_faulted = False, hc_core = NewExecutionWorkspace host_plan,
     hc_framer = Some (host_framer k memory), hc_fields = [no_slot, no_slot], hc_values = [], hc_bytes = [],
     hc_fields_address = 9000 + 1000 * k, hc_values_address = 0, hc_bytes_address = 0, hc_buffer_address = 5000 + 100 * k\<rparr>"

lemmas framer_eval = host_framer_def line_framing_def block_framing_def no_overrides_def CreateStreamFramingWorkspace_def SelectLimit_def
  kDesktopResourceProfileLimits_def kMaxStreamSubmitBytesHardLimit_def kMaxStreamFramesPerSubmitHardLimit_def
  kMaxStreamWorkUnitsHardLimit_def kMaxStreamSyncBytesHardLimit_def kMaxStreamSessionMemoryBytesHardLimit_def
  kMaxStreamFrameBytesHardLimit_def SIZE_MAX_def frame_capacity_of_def Let_def

lemma two_streams_eq: "\<exists>n. two_streams = \<lparr>hs_plan = host_plan, hs_identity = 77,
     hs_bindings = [\<lparr>hi_endpoint = ''e'', hi_action = HA_DECODE, hi_pipeline = 0, hi_first = 0, hi_count = 2\<rparr>],
     hs_channels = [host_channel 0 64706, host_channel 1 64183], hs_accounted = n, hs_busy = False\<rparr>"
  by (simp add: two_streams_def CreateSession_def CheckBinding_def last_index_def Supports_def Charge_def MakeChannel_def
      MakeFramer_def numeral_2_eq_2 host_platform_def host_spec_def host_limits_def host_channel_def framer_eval)

lemma host_framer_push:
  assumes "sink user [1, 2, 3] = (SINK_CONTINUE, user')"
  shows "\<exists>w' r. PushStreamChunk host_plan (host_framer k memory) 0 \<lparr>bv_address = 4096, bv_bytes = [1, 2, 3, 4]\<rparr> (Some sink) None user =
    Some (w', r, user', [[1, 2, 3]]) \<and> rs_api_status r = SA_OK \<and> rs_bytes_consumed r = 4"
  using assms
  by (simp add: PushStreamChunk_def Push_refusal_def Push_loop.simps Push_step_def step_collect_def step_deliver_def
      framer_ops charge_def start_push_def initial_result_def framer_eval
      NewStreamFramingWorkspace_def ResetCandidate_def release_def after_loop_def HasInternalWork_def
      HasHalfFrame_def replicate_small)

lemma host_unknown:
  "DecodeCompleteRecord host_plan 64 (NewExecutionWorkspace host_plan) 0 \<lparr>cv_address = 5000, cv_bytes = [1, 2, 3]\<rparr> 9000 [no_slot, no_slot] =
     Some (no_decode_result\<lparr>dr_status := CS_UNKNOWN_MESSAGE\<rparr>, NewExecutionWorkspace host_plan, [no_slot, no_slot])"
  by (simp add: DecodeCompleteRecord_def DecodeLeased_def NewExecutionWorkspace_def
      host_plan_def Codec_Session.example_plan_def SupportsCompleteRecordSchema_def text_schema_def Let_def
      FindPipelineMatch_def FindCandidateGroup_def FindCandidateGroup_loop.simps examine_def example_pipeline_def
      MessageMatches_def example_message_def)

lemma two_streams_push:
  "\<exists>r s'. Push 64 two_streams (stream_handle 0) \<lparr>cv_address = 4096, cv_bytes = [1, 2, 3, 4]\<rparr> (Some host_keep) None None () =
     Some (r, s', ()) \<and> rs_bytes_consumed (ht_framing r) = 4 \<and> ht_decode_failures r = 1 \<and> ht_framing_attempted r \<and>
     Resolve two_streams (stream_handle 0) = Some 0 \<and> length (hs_channels s') = 2 \<and>
     hi_pipeline (binding_of s' (hs_channels s' ! 0)) = 0 \<and> hc_framer (hs_channels s' ! 0) \<noteq> None"
proof -
  let ?c = "host_channel 0 64706"
  let ?start = "(?c, no_host_result\<lparr>ht_generation := 0, ht_status := HS_OK, ht_framing_attempted := True\<rparr>, ())"
  let ?sink = "frame_sink host_plan 64 0 host_keep None 5000"
  obtain r1 where one: "?sink (Some ?start) [1, 2, 3] = (SINK_CONTINUE, Some (?c, r1, ()))" "ht_decode_failures r1 = 1" "ht_framing_attempted r1"
    by (simp add: frame_sink_def DecodeCandidate_def host_channel_def host_unknown ObserveCandidate_def no_decode_result_def no_host_result_def)
  obtain w' r where p: "PushStreamChunk host_plan (host_framer 0 64706) 0 \<lparr>bv_address = 4096, bv_bytes = [1, 2, 3, 4]\<rparr> (Some ?sink) None
      (Some ?start) = Some (w', r, Some (?c, r1, ()), [[1, 2, 3]])" "rs_api_status r = SA_OK" "rs_bytes_consumed r = 4"
    using host_framer_push [of ?sink, OF one(1)] by blast
  obtain n where t: "two_streams = \<lparr>hs_plan = host_plan, hs_identity = 77,
     hs_bindings = [\<lparr>hi_endpoint = ''e'', hi_action = HA_DECODE, hi_pipeline = 0, hi_first = 0, hi_count = 2\<rparr>],
     hs_channels = [host_channel 0 64706, host_channel 1 64183], hs_accounted = n, hs_busy = False\<rparr>" using two_streams_eq by blast
  have c: "hc_binding ?c = 0" "hc_generation ?c = 0" "\<not> hc_faulted ?c" "hc_framer ?c = Some (host_framer 0 64706)" "hc_buffer_address ?c = 5000"
    by (simp_all add: host_channel_def)
  show ?thesis
    using p one(2,3) by (simp add: t stream_handle_def Find_def Resolve_def Push_def DecodeRefusal_def binding_of_def put_channel_def c Let_def)
qed

section \<open>Properties\<close>

text \<open>C26. A session that was created publishes the plan of the call and lists the bindings of the call, no two for the same
  endpoint and direction; the bytes it accounts for stay within the limit; every stream of every binding has a handle
  that leads to a channel of that binding in its initial state, and two handles found for different streams lead to
  different channels.\<close>

theorem host_create_sound:
  assumes "CreateSession platform (Some plan) (Some specs) allowed = (HS_OK, Some s)"
  shows "hs_plan s = plan \<and> \<not> hs_busy s \<and> hs_accounted s \<le> hl_max_accounted_bytes allowed \<and>
    distinct (map (\<lambda>spec. (bs_endpoint spec, bs_action spec)) specs) \<and>
    map key (hs_bindings s) = map (\<lambda>spec. (bs_endpoint spec, bs_action spec)) specs \<and>
    (\<forall>spec \<in> set specs. \<forall>k < bs_streams spec. \<exists>j.
       Resolve s (Find s (bs_endpoint spec) (bs_action spec) k) = Some j \<and>
       key (binding_of s (hs_channels s ! j)) = (bs_endpoint spec, bs_action spec) \<and>
       hc_generation (hs_channels s ! j) = 0 \<and> \<not> hc_faulted (hs_channels s ! j)) \<and>
    (\<forall>e1 a1 k1 e2 a2 k2 j. Resolve s (Find s e1 a1 k1) = Some j \<and> Resolve s (Find s e2 a2 k2) = Some j \<longrightarrow>
       (e1, a1, k1) = (e2, a2, k2))"
proof -
  note c = create_session [OF assms]
  then have tables: "session_tables s" by blast
  then have "distinct (map key (hs_bindings s))" by (simp add: session_tables_def tables_ok_def)
  moreover have "\<forall>e1 a1 k1 e2 a2 k2 j. Resolve s (Find s e1 a1 k1) = Some j \<and> Resolve s (Find s e2 a2 k2) = Some j \<longrightarrow>
       (e1, a1, k1) = (e2, a2, k2)" using handles_distinct [OF tables] by blast
  ultimately show ?thesis using c created_handle [OF assms] by simp
qed

theorem host_create_sound_witness:
  "hs_plan two_streams = host_plan \<and> hs_accounted two_streams \<le> 65536 \<and>
   (\<exists>j. Resolve two_streams (stream_handle 0) = Some j \<and> \<not> hc_faulted (hs_channels two_streams ! j)) \<and>
   (\<exists>j. Resolve two_streams (stream_handle 1) = Some j \<and> \<not> hc_faulted (hs_channels two_streams ! j))"
proof -
  note created = host_create_sound [OF two_streams_created]
  then have "\<forall>k < 2. \<exists>j. Resolve two_streams (stream_handle k) = Some j \<and> \<not> hc_faulted (hs_channels two_streams ! j)"
    by (auto simp: host_spec_def stream_handle_def)
  then show ?thesis using created by (simp add: host_limits_def)
qed

text \<open>C17. Whatever calls the host makes, the session is not busy between them, every channel's codec workspace is one
  that the codec's own calls produce, and the framer of every stream is in a state of the framer that has consumed
  exactly the bytes its channel reported as consumed since its creation or last reset.\<close>

theorem host_session_channels:
  assumes "host_session platform plan s streams user" "admitted plan" "i < length (hs_channels s)"
  shows "hs_plan s = plan \<and> \<not> hs_busy s \<and> codec_session plan (hc_core (hs_channels s ! i)) \<and>
    (\<forall>w. hc_framer (hs_channels s ! i) = Some w \<longrightarrow>
       hi_action (binding_of s (hs_channels s ! i)) = HA_DECODE \<and>
       (\<exists>frames discarded. session_ok plan (hi_pipeline (binding_of s (hs_channels s ! i))) w (streams i) frames discarded))"
  using host_session_ok [OF assms(1,2)] assms(3) by (auto simp: host_ok_def channel_ok_def)

theorem host_session_channels_witness:
  "\<exists>(s :: HostSession) streams w. streams 0 = [1, 2, 3, 4] \<and> hc_framer (hs_channels s ! 0) = Some w \<and>
     (\<exists>frames discarded. session_ok host_plan 0 w (streams (0 :: nat)) frames discarded)"
proof -
  obtain r s' w where p: "Push 64 two_streams (stream_handle 0) \<lparr>cv_address = 4096, cv_bytes = [1, 2, 3, 4]\<rparr> (Some host_keep) None None () =
     Some (r, s', ())" "rs_bytes_consumed (ht_framing r) = 4"
    and w: "Resolve two_streams (stream_handle 0) = Some 0" "hc_framer (hs_channels s' ! 0) = Some w" "length (hs_channels s') = 2"
      "hi_pipeline (binding_of s' (hs_channels s' ! 0)) = 0"
    using two_streams_push by blast
  note session = host_session.called [OF two_streams_session host_call.push [OF p(1)]]
  define streams where "streams = follow two_streams (stream_handle 0) (EV_CONSUMED (take (rs_bytes_consumed (ht_framing r))
      (cv_bytes \<lparr>cv_address = 4096, cv_bytes = [1, 2, 3, 4]\<rparr>))) (\<lambda>i. [])"
  have at: "host_session host_platform host_plan s' streams ()" unfolding streams_def by (rule session)
  have four: "streams 0 = [1, 2, 3, 4]"
    unfolding streams_def follow_simps(3) [OF w(1)] p(2) by simp
  have "0 < length (hs_channels s')" by (simp add: w(3))
  note channel = host_session_channels [OF at host_admitted this]
  have "\<exists>frames discarded. session_ok host_plan (hi_pipeline (binding_of s' (hs_channels s' ! 0))) w (streams 0) frames discarded"
    using conjunct2 [OF conjunct2 [OF conjunct2 [OF channel]], rule_format, OF w(2)] by (rule conjunct2)
  then have "\<exists>frames discarded. session_ok host_plan 0 w (streams 0) frames discarded" by (simp only: w(4))
  with w(2) four show ?thesis by (intro exI [of _ s'] exI [of _ streams] exI [of _ w] conjI)
qed

text \<open>C24. A call changes nothing but the channel of its handle: the plan, the identity, the binding table and the
  accounted bytes stay, no channel changes its owner, and every channel the handle does not lead to is left as it is.\<close>

theorem host_channels_isolated:
  assumes "host_call s h event user' s'"
  shows "hs_plan s' = hs_plan s \<and> hs_identity s' = hs_identity s \<and> hs_bindings s' = hs_bindings s \<and>
    hs_accounted s' = hs_accounted s \<and> hs_busy s' = hs_busy s \<and>
    map hc_binding (hs_channels s') = map hc_binding (hs_channels s) \<and>
    (\<forall>j. Resolve s h \<noteq> Some j \<longrightarrow> hs_channels s' ! j = hs_channels s ! j)"
  using host_call_put [OF assms]
proof (elim disjE exE conjE)
  fix i c
  assume i: "Resolve s h = Some i" and s': "s' = put_channel s i c" and c: "hc_binding c = hc_binding (hs_channels s ! i)"
  have "map hc_binding ((hs_channels s)[i := c]) = map hc_binding (hs_channels s)"
    using Resolve_bound [OF i] c by (simp add: map_update) (metis length_map list_update_id nth_map)
  then show ?thesis using i by (auto simp: s' put_channel_def simp del: map_update)
qed simp

theorem host_channels_isolated_witness:
  "\<exists>r s'. Push 64 two_streams (stream_handle 0) \<lparr>cv_address = 4096, cv_bytes = [1, 2, 3, 4]\<rparr> (Some host_keep) None None () = Some (r, s', ()) \<and>
     ht_decode_failures r = 1 \<and> hs_channels s' ! 1 = hs_channels two_streams ! 1 \<and> hs_accounted s' = hs_accounted two_streams"
proof -
  obtain r s' where p: "Push 64 two_streams (stream_handle 0) \<lparr>cv_address = 4096, cv_bytes = [1, 2, 3, 4]\<rparr> (Some host_keep) None None () =
     Some (r, s', ())" "ht_decode_failures r = 1" "Resolve two_streams (stream_handle 0) = Some 0" using two_streams_push by blast
  then show ?thesis using host_channels_isolated [OF host_call.push [OF p(1)]] by auto
qed

text \<open>C13. A submission to a stream that the framer took decodes exactly the frames the framer cut off, each once and in
  order, with the channel's own codec workspace: as many decodings succeed or fail as the framer reports frames, and the
  framer has moved on by these frames over the bytes reported as consumed.\<close>

theorem push_decodes_every_frame:
  assumes session: "host_session platform plan s streams user0" "admitted plan"
    and push: "Push sz s h bytes sink observer callback user = Some (r, s', user')" and taken: "ht_framing_attempted r"
  shows "\<exists>i w w' frames c r0. Resolve s h = Some i \<and> hc_framer (hs_channels s ! i) = Some w \<and>
    hc_framer (hs_channels s' ! i) = Some w' \<and> length frames = rs_frames_delivered (ht_framing r) \<and>
    ht_decode_successes r + ht_decode_failures r = length frames \<and>
    decode_frames plan sz (hi_pipeline (binding_of s (hs_channels s ! i))) (the sink) observer (hc_buffer_address (hs_channels s ! i)) frames
       (hs_channels s ! i, no_host_result\<lparr>ht_generation := hc_generation (hs_channels s ! i), ht_status := HS_OK,
          ht_framing_attempted := True\<rparr>, user) = Some (c, r0, user') \<and>
    hc_core (hs_channels s' ! i) = hc_core c \<and>
    (\<forall>old n. session_ok plan (hi_pipeline (binding_of s (hs_channels s ! i))) w (streams i) old n \<longrightarrow>
       session_ok plan (hi_pipeline (binding_of s (hs_channels s ! i))) w'
         (streams i @ take (rs_bytes_consumed (ht_framing r)) (cv_bytes bytes)) (old @ frames) (n + rs_bytes_discarded (ht_framing r)))"
  using push
proof (cases rule: Push_effect)
  case refused
  then show ?thesis using taken by blast
next
  case (submitted i w w' result frames c r0 c')
  have ok: "host_ok plan s streams" by (rule host_session_ok [OF session])
  note i = host_ok_channel [OF ok submitted(1)]
  obtain old n where "session_ok plan (hi_pipeline (binding_of s (hs_channels s ! i))) w (streams i) old n"
    using i(3) submitted(3) by (auto simp: channel_ok_def)
  then have "length frames = rs_frames_delivered result"
    using framer_counts submitted(5) i(2) by metis
  moreover have "ht_decode_successes r0 + ht_decode_failures r0 = length frames"
    using decode_frames_facts [OF submitted(6)] by (simp add: no_host_result_def)
  then have "ht_decode_successes r + ht_decode_failures r = length frames" by (subst submitted(10), subst (2) submitted(10)) simp
  moreover have "hs_channels s' ! i = c'" using i(1) by (simp add: submitted(8) put_channel_def)
  ultimately show ?thesis
    using submitted(1,3,6,7,9) i(2) session_submit [OF _ submitted(5)]
    by (intro exI [of _ i] exI [of _ w] exI [of _ w'] exI [of _ frames] exI [of _ c] exI [of _ r0]) simp
qed

theorem push_decodes_every_frame_witness:
  "\<exists>r s'. Push 64 two_streams (stream_handle 0) \<lparr>cv_address = 4096, cv_bytes = [1, 2, 3, 4]\<rparr> (Some host_keep) None None () = Some (r, s', ()) \<and>
     ht_decode_failures r = 1 \<and> ht_decode_successes r + ht_decode_failures r = rs_frames_delivered (ht_framing r)"
proof -
  obtain r s' where p: "Push 64 two_streams (stream_handle 0) \<lparr>cv_address = 4096, cv_bytes = [1, 2, 3, 4]\<rparr> (Some host_keep) None None () =
     Some (r, s', ())" "ht_decode_failures r = 1" "ht_framing_attempted r" using two_streams_push by blast
  then show ?thesis using push_decodes_every_frame [OF two_streams_session host_admitted p(1,3)] by auto
qed

text \<open>C33. A channel whose callback failed stays as it is: decoding, submitting and encoding on it are refused with the
  session unchanged, and only a reset of a decoding channel clears the fault, which starts a new generation and keeps
  the codec workspace.\<close>

theorem host_faults_stick:
  assumes "host_call s h event user' s'" "Resolve s h = Some i" "hc_faulted (hs_channels s ! i)"
  shows "s' = s \<or> (event = EV_RESET \<and> hi_action (binding_of s (hs_channels s ! i)) = HA_DECODE \<and>
    \<not> hc_faulted (hs_channels s' ! i) \<and> hc_generation (hs_channels s' ! i) = hc_generation (hs_channels s ! i) + 1 \<and>
    hc_core (hs_channels s' ! i) = hc_core (hs_channels s ! i))"
  using faulted_call [OF assms] Resolve_bound [OF assms(2)] by (auto simp: put_channel_def)

definition faulted_streams :: HostSession where
  "faulted_streams = put_channel two_streams 0 ((hs_channels two_streams ! 0)\<lparr>hc_faulted := True\<rparr>)"

theorem host_faults_stick_witness:
  "\<exists>status s'. Reset faulted_streams (stream_handle 0) None = (status, s') \<and> status = HS_OK \<and> s' \<noteq> faulted_streams \<and>
     \<not> hc_faulted (hs_channels s' ! 0)"
proof -
  obtain n where t: "two_streams = \<lparr>hs_plan = host_plan, hs_identity = 77,
     hs_bindings = [\<lparr>hi_endpoint = ''e'', hi_action = HA_DECODE, hi_pipeline = 0, hi_first = 0, hi_count = 2\<rparr>],
     hs_channels = [host_channel 0 64706, host_channel 1 64183], hs_accounted = n, hs_busy = False\<rparr>" using two_streams_eq by blast
  have r: "Resolve faulted_streams (stream_handle 0) = Some 0" "hc_faulted (hs_channels faulted_streams ! 0)"
    by (simp_all add: faulted_streams_def t put_channel_def stream_handle_def Find_def Resolve_def)
  obtain s' where s': "Reset faulted_streams (stream_handle 0) None = (HS_OK, s')" "hc_generation (hs_channels s' ! 0) = 1"
      "hc_generation (hs_channels faulted_streams ! 0) = 0"
    by (simp add: Reset_def faulted_streams_def t put_channel_def binding_of_def host_channel_def ResetStreamFramingWorkspace_def
        stream_handle_def Find_def Resolve_def host_framer_def NewStreamFramingWorkspace_def ResetCandidate_def block_framing_def Let_def)
  then have "s' \<noteq> faulted_streams" by auto
  then show ?thesis using host_faults_stick [OF host_call.reset [OF s'(1)] r] s'(1) by auto
qed

text \<open>C12. Every call returns: over a plan whose search tables are in order, decoding, submitting and encoding on any handle
  of a session end with a result, whatever the bytes, the values and the callbacks are.\<close>

theorem host_calls_return:
  assumes "host_session platform plan s streams user0" "admitted plan" "plan_runs plan"
  shows "Decode sz s h bytes sink observer user \<noteq> None \<and> Push sz s h bytes sink observer callback user \<noteq> None \<and>
    Encode sz s h message_id va named sink user \<noteq> None"
proof -
  have ok: "host_ok plan s streams" by (rule host_session_ok [OF assms(1,2)])
  then have runs: "plan_runs (hs_plan s)" using assms(3) by (simp add: host_ok_def)
  show ?thesis by (intro conjI Decode_returns [OF runs] Encode_returns [OF runs] Push_returns [OF assms(3) ok])
qed

theorem host_calls_return_witness:
  "\<exists>result. Push 64 two_streams (stream_handle 1) \<lparr>cv_address = 4096, cv_bytes = [1, 2, 3, 4, 5]\<rparr> (Some host_keep) None None () = Some result"
  using host_calls_return [OF two_streams_session host_admitted host_runs, where sink = "Some host_keep" and user = "()"] by blast

end
