(* ===== verification/Plan_Memory.thy ===== *)
theory Plan_Memory
  imports Plan_Types
begin

text \<open>
  The memory of a frozen plan, \<^verbatim>\<open>src/src/protocol_plan/plan_memory.h\<close> and \<^verbatim>\<open>plan_memory.cpp\<close>: a layout that
  charges one aligned piece after another to a category, and the arena that hands out the pieces of one
  storage block.  Sizes and alignments of types are parameters (\<open>Abi\<close>); a piece is its offset.
\<close>

datatype PlanMemoryCategory =
  PC_OBJECT | PC_STRING | PC_MATCHER | PC_METADATA_CONTAINER | PC_EXECUTION_DESCRIPTOR | PC_INDEX | PC_EXTENSION

record PlanMemoryReport =
  mr_object_bytes :: nat
  mr_string_bytes :: nat
  mr_matcher_bytes :: nat
  mr_metadata_container_bytes :: nat
  mr_execution_descriptor_bytes :: nat
  mr_index_bytes :: nat
  mr_extension_bytes :: nat
  mr_alignment_bytes :: nat
  mr_allocation_count :: nat
  mr_upstream_allocation_count :: nat
  mr_accounted_total_bytes :: nat

definition no_memory :: PlanMemoryReport where
  "no_memory = \<lparr>mr_object_bytes = 0, mr_string_bytes = 0, mr_matcher_bytes = 0, mr_metadata_container_bytes = 0,
     mr_execution_descriptor_bytes = 0, mr_index_bytes = 0, mr_extension_bytes = 0, mr_alignment_bytes = 0,
     mr_allocation_count = 0, mr_upstream_allocation_count = 0, mr_accounted_total_bytes = 0\<rparr>"

text \<open>The size and the alignment of a type, and those of the types a plan is made of.\<close>

record TypeLayout =
  ty_size :: nat
  ty_align :: nat

record Abi =
  abi_max_align :: nat
  abi_size_t :: TypeLayout
  abi_uint64 :: TypeLayout
  abi_PlanBundle :: TypeLayout
  abi_FrozenFramingPlan :: TypeLayout
  abi_FrozenPipelinePlan :: TypeLayout
  abi_FrozenMessagePlan :: TypeLayout
  abi_FrozenMatcherPlan :: TypeLayout
  abi_FrozenBitContainerPlan :: TypeLayout
  abi_FrozenFieldPlan :: TypeLayout
  abi_FrozenEnumEntryPlan :: TypeLayout
  abi_LinearConversionDescriptor :: TypeLayout
  abi_MessageExecutionPlan :: TypeLayout
  abi_FixedByteExecutionPlan :: TypeLayout
  abi_BitContainerExecutionPlan :: TypeLayout
  abi_FieldExecutionPlan :: TypeLayout
  abi_EnumLookupExecutionPlan :: TypeLayout
  abi_TextSegmentExecutionPlan :: TypeLayout
  abi_PipelineExecutionPlan :: TypeLayout
  abi_CandidateGroupExecutionPlan :: TypeLayout

definition byte_layout :: TypeLayout where
  "byte_layout = \<lparr>ty_size = 1, ty_align = 1\<rparr>"

definition IsPowerOfTwo :: "nat \<Rightarrow> bool" where
  "IsPowerOfTwo v \<longleftrightarrow> v \<noteq> 0 \<and> v AND (v - 1) = 0"

definition AddChecked :: "nat \<Rightarrow> nat \<Rightarrow> nat option" where
  "AddChecked v subtotal = (if v > SIZE_MAX - subtotal then None else Some (subtotal + v))"

definition CategoryBytes :: "PlanMemoryReport \<Rightarrow> PlanMemoryCategory \<Rightarrow> nat" where
  "CategoryBytes r category =
     (case category of
        PC_OBJECT \<Rightarrow> mr_object_bytes r | PC_STRING \<Rightarrow> mr_string_bytes r | PC_MATCHER \<Rightarrow> mr_matcher_bytes r
      | PC_METADATA_CONTAINER \<Rightarrow> mr_metadata_container_bytes r
      | PC_EXECUTION_DESCRIPTOR \<Rightarrow> mr_execution_descriptor_bytes r
      | PC_INDEX \<Rightarrow> mr_index_bytes r | PC_EXTENSION \<Rightarrow> mr_extension_bytes r)"

definition SetCategoryBytes :: "PlanMemoryReport \<Rightarrow> PlanMemoryCategory \<Rightarrow> nat \<Rightarrow> PlanMemoryReport" where
  "SetCategoryBytes r category bytes =
     (case category of
        PC_OBJECT \<Rightarrow> r\<lparr>mr_object_bytes := bytes\<rparr> | PC_STRING \<Rightarrow> r\<lparr>mr_string_bytes := bytes\<rparr>
      | PC_MATCHER \<Rightarrow> r\<lparr>mr_matcher_bytes := bytes\<rparr>
      | PC_METADATA_CONTAINER \<Rightarrow> r\<lparr>mr_metadata_container_bytes := bytes\<rparr>
      | PC_EXECUTION_DESCRIPTOR \<Rightarrow> r\<lparr>mr_execution_descriptor_bytes := bytes\<rparr>
      | PC_INDEX \<Rightarrow> r\<lparr>mr_index_bytes := bytes\<rparr> | PC_EXTENSION \<Rightarrow> r\<lparr>mr_extension_bytes := bytes\<rparr>)"

section \<open>The layout\<close>

record PlanMemoryLayout =
  ml_limit_bytes :: nat
  ml_report :: PlanMemoryReport

definition new_layout :: "nat \<Rightarrow> PlanMemoryLayout" where
  "new_layout limit = \<lparr>ml_limit_bytes = limit, ml_report = no_memory\<rparr>"

definition padding_for :: "nat \<Rightarrow> nat \<Rightarrow> nat" where
  "padding_for offset alignment =
     (let rest = offset AND (alignment - 1) in if rest = 0 then 0 else alignment - rest)"

text \<open>The result is the layout with the new piece and the offset of the piece.\<close>

definition AddAllocation ::
    "nat \<Rightarrow> nat \<Rightarrow> nat \<Rightarrow> PlanMemoryCategory \<Rightarrow> PlanMemoryLayout \<Rightarrow> (PlanMemoryLayout \<times> nat) option" where
  "AddAllocation max_align payload_bytes alignment category l =
     (let r = ml_report l; offset = mr_accounted_total_bytes r
      in if payload_bytes = 0 then Some (l, offset)
         else if \<not> IsPowerOfTwo alignment \<or> alignment > max_align then None
         else
           let padding = padding_for offset alignment
           in case Option.bind (AddChecked padding offset) (AddChecked payload_bytes) of
                None \<Rightarrow> None
              | Some next_total \<Rightarrow>
                  if next_total > ml_limit_bytes l then None
                  else (case (AddChecked payload_bytes (CategoryBytes r category),
                              AddChecked padding (mr_alignment_bytes r), AddChecked 1 (mr_allocation_count r)) of
                          (Some bytes, Some alignment_bytes, Some allocation_count) \<Rightarrow>
                            Some (l\<lparr>ml_report := (SetCategoryBytes r category bytes)
                                    \<lparr>mr_alignment_bytes := alignment_bytes, mr_allocation_count := allocation_count,
                                     mr_accounted_total_bytes := next_total, mr_upstream_allocation_count := 1\<rparr>\<rparr>,
                                  offset + padding)
                        | _ \<Rightarrow> None))"

definition AddArray ::
    "nat \<Rightarrow> TypeLayout \<Rightarrow> nat \<Rightarrow> PlanMemoryCategory \<Rightarrow> PlanMemoryLayout \<Rightarrow> PlanMemoryLayout option" where
  "AddArray max_align ty count category l =
     (if count \<noteq> 0 \<and> ty_size ty > SIZE_MAX div count then None
      else map_option fst (AddAllocation max_align (ty_size ty * count) (ty_align ty) category l))"

section \<open>The arena\<close>

text \<open>\<open>pa_storage\<close>: there is a storage block.  The upstream block counts as allocation 1.\<close>

record PlanArena =
  pa_storage :: bool
  pa_capacity_bytes :: nat
  pa_fail_at_allocation :: nat
  pa_allocation_ordinal :: nat
  pa_layout :: PlanMemoryLayout

definition new_arena :: "bool \<Rightarrow> nat \<Rightarrow> nat \<Rightarrow> PlanArena" where
  "new_arena storage capacity_bytes fail_at_allocation =
     \<lparr>pa_storage = storage, pa_capacity_bytes = capacity_bytes, pa_fail_at_allocation = fail_at_allocation,
      pa_allocation_ordinal = 1, pa_layout = new_layout capacity_bytes\<rparr>"

text \<open>The result is the arena and the offset of the piece; a refusal is final, since the builder gives up on it.\<close>

definition arena_allocate ::
    "nat \<Rightarrow> nat \<Rightarrow> nat \<Rightarrow> PlanMemoryCategory \<Rightarrow> PlanArena \<Rightarrow> (PlanArena \<times> nat) option" where
  "arena_allocate max_align payload_bytes alignment category a =
     (if payload_bytes = 0 then None
      else
        let ordinal = pa_allocation_ordinal a + 1
        in if pa_fail_at_allocation a \<noteq> 0 \<and> ordinal = pa_fail_at_allocation a then None
           else if \<not> pa_storage a then None
           else (case AddAllocation max_align payload_bytes alignment category (pa_layout a) of
                   None \<Rightarrow> None
                 | Some (layout, offset) \<Rightarrow>
                     if offset > pa_capacity_bytes a \<or> payload_bytes > pa_capacity_bytes a - offset then None
                     else Some (a\<lparr>pa_allocation_ordinal := ordinal, pa_layout := layout\<rparr>, offset)))"

definition AllocateArray ::
    "nat \<Rightarrow> TypeLayout \<Rightarrow> nat \<Rightarrow> PlanMemoryCategory \<Rightarrow> PlanArena \<Rightarrow> (PlanArena \<times> nat) option" where
  "AllocateArray max_align ty count category a =
     (if count \<noteq> 0 \<and> ty_size ty > SIZE_MAX div count then None
      else arena_allocate max_align (ty_size ty * count) (ty_align ty) category a)"

text \<open>\<^verbatim>\<open>PlanStorageBlock::Allocate\<close>: \<open>available\<close> says whether the platform has the memory.\<close>

definition AllocateStorage :: "bool \<Rightarrow> nat \<Rightarrow> bool \<Rightarrow> bool" where
  "AllocateStorage available bytes inject_upstream_failure =
     (if bytes = 0 \<or> inject_upstream_failure then False else available)"

definition PlanMemoryReportsEqual :: "PlanMemoryReport \<Rightarrow> PlanMemoryReport \<Rightarrow> bool" where
  "PlanMemoryReportsEqual left right \<longleftrightarrow>
     mr_object_bytes left = mr_object_bytes right \<and> mr_string_bytes left = mr_string_bytes right \<and>
     mr_matcher_bytes left = mr_matcher_bytes right \<and>
     mr_metadata_container_bytes left = mr_metadata_container_bytes right \<and>
     mr_execution_descriptor_bytes left = mr_execution_descriptor_bytes right \<and>
     mr_index_bytes left = mr_index_bytes right \<and> mr_extension_bytes left = mr_extension_bytes right \<and>
     mr_alignment_bytes left = mr_alignment_bytes right \<and>
     mr_allocation_count left = mr_allocation_count right \<and>
     mr_upstream_allocation_count left = mr_upstream_allocation_count right \<and>
     mr_accounted_total_bytes left = mr_accounted_total_bytes right"

lemma reports_equal: "PlanMemoryReportsEqual left right \<longleftrightarrow> left = (right :: PlanMemoryReport)"
  by (auto simp: PlanMemoryReportsEqual_def intro: PlanMemoryReport.equality)

end
