(* ===== verification/Plan_Draft.thy ===== *)
theory Plan_Draft
  imports Framing_Admission Decimal_Plan Record_Match Plan_Memory
begin

text \<open>
  The material the plan builder receives and the helpers it checks it with:
  \<^verbatim>\<open>src/src/protocol_plan/plan_draft_internal.h\<close>, the diagnostics of \<^verbatim>\<open>plan_builder.h\<close> and the
  functions in front of \<^verbatim>\<open>FreezeImpl\<close> in \<^verbatim>\<open>plan_builder.cpp\<close>.  The prepared records of the source
  have the members of the frozen ones, so the records of \<open>Plan_Types\<close> stand for both.  A check that may
  fail is a sum whose left side is the diagnostic of the refusal.  The ordered maps of the source are
  lists sorted by key, and its unordered sets of identifiers are the lists of what was put into them.
\<close>

record PlanDraftData =
  dd_schema_version :: string
  dd_protocol_id :: string
  dd_protocol_version :: string
  dd_resource_profile :: ResourceProfile
  dd_resource_requirements :: ResourceRequirements
  dd_framing_profiles :: "FramingPlan list"
  dd_pipelines :: "PipelinePlan list"
  dd_messages :: "MessagePlan list"
  dd_conversions :: "LinearConversionDescriptor list"
  dd_approved_plan_memory :: PlanMemoryReport
  dd_plan_memory_limit_bytes :: nat
  dd_test_fail_at_allocation :: nat

record PlanBuildDiagnostic =
  pd_code :: PlanBuildError
  pd_framing_index :: nat
  pd_pipeline_index :: nat
  pd_message_index :: nat
  pd_matcher_index :: nat
  pd_field_index :: nat
  pd_required_bytes :: nat
  pd_limit_bytes :: nat
  pd_resource_profile :: ResourceProfile

definition Reject :: "PlanBuildError \<Rightarrow> PlanBuildDiagnostic" where
  "Reject code = \<lparr>pd_code = code, pd_framing_index = kInvalidIndex, pd_pipeline_index = kInvalidIndex,
     pd_message_index = kInvalidIndex, pd_matcher_index = kInvalidIndex, pd_field_index = kInvalidIndex,
     pd_required_bytes = 0, pd_limit_bytes = 0, pd_resource_profile = DESKTOP\<rparr>"

definition RejectMessage :: "PlanBuildError \<Rightarrow> nat \<Rightarrow> PlanBuildDiagnostic" where
  "RejectMessage code message_index = (Reject code)\<lparr>pd_message_index := message_index\<rparr>"

definition RejectField :: "PlanBuildError \<Rightarrow> nat \<Rightarrow> nat \<Rightarrow> PlanBuildDiagnostic" where
  "RejectField code message_index field_index = (RejectMessage code message_index)\<lparr>pd_field_index := field_index\<rparr>"

definition RejectMatcher :: "PlanBuildError \<Rightarrow> nat \<Rightarrow> nat \<Rightarrow> PlanBuildDiagnostic" where
  "RejectMatcher code message_index matcher_index = (RejectMessage code message_index)\<lparr>pd_matcher_index := matcher_index\<rparr>"

definition RejectPipeline :: "PlanBuildError \<Rightarrow> nat \<Rightarrow> PlanBuildDiagnostic" where
  "RejectPipeline code pipeline_index = (Reject code)\<lparr>pd_pipeline_index := pipeline_index\<rparr>"

definition RejectMemory :: "PlanBuildError \<Rightarrow> nat \<Rightarrow> nat \<Rightarrow> ResourceProfile \<Rightarrow> PlanBuildDiagnostic" where
  "RejectMemory code required_bytes limit_bytes profile =
     (Reject code)\<lparr>pd_required_bytes := required_bytes, pd_limit_bytes := limit_bytes, pd_resource_profile := profile\<rparr>"

section \<open>Loops that stop at the first refusal\<close>

text \<open>The loop over a list with the index of the element, a state, and a body that may refuse.\<close>

fun each :: "(nat \<Rightarrow> 'x \<Rightarrow> 's \<Rightarrow> 'e + 's) \<Rightarrow> nat \<Rightarrow> 'x list \<Rightarrow> 's \<Rightarrow> 'e + 's" where
  "each body i [] s = Inr s"
| "each body i (x # xs) s = (case body i x s of Inl e \<Rightarrow> Inl e | Inr s \<Rightarrow> each body (i + 1) xs s)"

definition followed_by :: "'e + 'a \<Rightarrow> ('a \<Rightarrow> 'e + 'b) \<Rightarrow> 'e + 'b" where
  "followed_by r f = (case r of Inl e \<Rightarrow> Inl e | Inr x \<Rightarrow> f x)"

definition unless :: "bool \<Rightarrow> 'e \<Rightarrow> 'e + 'a \<Rightarrow> 'e + 'a" where
  "unless refused e r = (if refused then Inl e else r)"

lemma followed_by_Inr: "followed_by r f = Inr y \<longleftrightarrow> (\<exists>x. r = Inr x \<and> f x = Inr y)"
  by (simp add: followed_by_def split: sum.split)

lemma unless_Inr: "unless refused e r = Inr y \<longleftrightarrow> \<not> refused \<and> r = Inr y"
  by (simp add: unless_def)

lemmas accepted = followed_by_Inr unless_Inr

text \<open>What holds at the start and is kept by every turn that does not refuse holds at the end.\<close>

lemma each_invariant:
  assumes "each body i xs s = Inr s'" and "P 0 s"
    and "\<And>j t t'. j < length xs \<Longrightarrow> body (i + j) (xs ! j) t = Inr t' \<Longrightarrow> P j t \<Longrightarrow> P (Suc j) t'"
  shows "P (length xs) s'"
  using assms
proof (induction xs arbitrary: i s P)
  case (Cons x xs)
  obtain t where t: "body i x s = Inr t" "each body (i + 1) xs t = Inr s'"
    using Cons.prems(1) by (auto split: sum.splits)
  have "(\<lambda>j. P (Suc j)) (length xs) s'"
  proof (rule Cons.IH [OF t(2)])
    show "P (Suc 0) t" using Cons.prems(3) [of 0 s t] t(1) Cons.prems(2) by simp
    show "P (Suc (Suc j)) u'" if "j < length xs" "body (i + 1 + j) (xs ! j) u = Inr u'" "P (Suc j) u" for j u u'
      using Cons.prems(3) [of "Suc j" u u'] that by simp
  qed
  then show ?case by simp
qed simp

text \<open>A loop that does not refuse ran its body on every element.\<close>

lemma each_turn:
  assumes "each body i xs s = Inr s'" "j < length xs"
  shows "\<exists>t t'. body (i + j) (xs ! j) t = Inr t'"
  using assms
proof (induction xs arbitrary: i j s)
  case (Cons x xs)
  obtain t where t: "body i x s = Inr t" "each body (i + 1) xs t = Inr s'"
    using Cons.prems(1) by (auto split: sum.splits)
  show ?case
  proof (cases j)
    case 0
    then show ?thesis using t(1) by auto
  next
    case (Suc k)
    then show ?thesis using Cons.IH [OF t(2), of k] Cons.prems(2) by simp
  qed
qed simp

section \<open>Helpers\<close>

definition kBitsPerAllowedMessageWord :: nat where
  "kBitsPerAllowedMessageWord = 64"

definition kMaxStableIdCharacters :: nat where
  "kMaxStableIdCharacters = 128"

record ByteInterval =
  bi_begin :: nat
  bi_end :: nat
  bi_source_index :: nat

definition AddSizeChecked :: "nat \<Rightarrow> nat \<Rightarrow> nat option" where
  "AddSizeChecked v subtotal = (if v > SIZE_MAX - subtotal then None else Some (subtotal + v))"

definition MultiplySizeChecked :: "nat \<Rightarrow> nat \<Rightarrow> nat option" where
  "MultiplySizeChecked left right = (if left \<noteq> 0 \<and> right > SIZE_MAX div left then None else Some (left * right))"

definition IsStableId :: "string \<Rightarrow> bool" where
  "IsStableId v \<longleftrightarrow>
     \<not> (v = [] \<or> length v > kMaxStableIdCharacters \<or>
        (of_char (hd v) :: nat) < of_char (CHR ''a'') \<or> (of_char (hd v) :: nat) > of_char (CHR ''z'')) \<and>
     list_all (\<lambda>c. (of_char (CHR ''a'') \<le> (of_char c :: nat) \<and> (of_char c :: nat) \<le> of_char (CHR ''z'')) \<or>
        (of_char (CHR ''0'') \<le> (of_char c :: nat) \<and> (of_char c :: nat) \<le> of_char (CHR ''9'')) \<or> c = CHR ''_'') v"

text \<open>\<open>ToSize\<close> takes a 64-bit value to a size; on a platform with 64-bit sizes it only refuses what is no size.\<close>

definition ToSize :: "nat \<Rightarrow> nat option" where
  "ToSize v = (if v > SIZE_MAX then None else Some v)"

definition IsRangeWithin :: "nat \<Rightarrow> nat \<Rightarrow> nat \<Rightarrow> bool" where
  "IsRangeWithin offset width capacity \<longleftrightarrow> width \<noteq> 0 \<and> offset \<le> capacity \<and> width \<le> capacity - offset"

lemma IsRangeWithin_iff: "IsRangeWithin offset width capacity \<longleftrightarrow> 0 < width \<and> offset + width \<le> capacity"
  by (auto simp: IsRangeWithin_def)

definition IsBitContainerByteOrderValid :: "ByteOrder \<Rightarrow> nat \<Rightarrow> bool" where
  "IsBitContainerByteOrderValid order width \<longleftrightarrow>
     (if width = 1 then order = BO_NOT_APPLICABLE else order = BO_BIG \<or> order = BO_LITTLE)"

definition WidthMask :: "nat \<Rightarrow> u64" where
  "WidthMask width = (if width = 8 then - 1 else push_bit (width * 8) 1 - 1)"

definition EncodeUnsignedByte :: "u64 \<Rightarrow> nat \<Rightarrow> ByteOrder \<Rightarrow> nat \<Rightarrow> u8" where
  "EncodeUnsignedByte v width order byte_index =
     (let encoded_index = (if order = BO_BIG then width - 1 - byte_index else byte_index)
      in ucast (drop_bit (encoded_index * 8) v AND 0xFF))"

text \<open>The tables of a message are sorted with \<^verbatim>\<open>std::sort\<close> by begin and end.  Intervals that agree in both may end
  up in any order, which only shows in the source index of a refusal.\<close>

definition sort_intervals :: "ByteInterval list \<Rightarrow> ByteInterval list" where
  "sort_intervals = sort_key bi_begin \<circ> sort_key bi_end"

fun covered_end :: "ByteInterval list \<Rightarrow> nat \<Rightarrow> nat option" where
  "covered_end [] covered = Some covered"
| "covered_end (interval # intervals) covered =
     (if bi_begin interval > covered then None else covered_end intervals (max covered (bi_end interval)))"

definition CoversWholeFrame :: "ByteInterval list \<Rightarrow> nat \<Rightarrow> bool" where
  "CoversWholeFrame intervals frame_size \<longleftrightarrow> intervals \<noteq> [] \<and> covered_end (sort_intervals intervals) 0 = Some frame_size"

definition min_length :: "MessageExecutionPlan \<Rightarrow> nat" where
  "min_length m = (case me_bounded_payload m of None \<Rightarrow> me_frame_size m | Some b \<Rightarrow> bp_min_frame_length b)"

definition max_length :: "MessageExecutionPlan \<Rightarrow> nat" where
  "max_length m = (case me_bounded_payload m of None \<Rightarrow> me_frame_size m | Some b \<Rightarrow> bp_max_frame_length b)"

fun merge_fixed :: "FixedByteExecutionPlan list \<Rightarrow> FixedByteExecutionPlan list \<Rightarrow> bool" where
  "merge_fixed (l # ls) (r # rs) =
     (if fb_offset l < fb_offset r then merge_fixed ls (r # rs)
      else if fb_offset r < fb_offset l then merge_fixed (l # ls) rs
      else if fb_value l \<noteq> fb_value r then False else merge_fixed ls rs)"
| "merge_fixed _ _ = True"

definition FixedMatchersCanIntersect :: "MessageExecutionPlan \<Rightarrow> MessageExecutionPlan \<Rightarrow> bool" where
  "FixedMatchersCanIntersect left right =
     (if max_length left < min_length right \<or> max_length right < min_length left then False
      else merge_fixed (me_fixed_bytes left) (me_fixed_bytes right))"

section \<open>Ordered maps\<close>

fun map_put :: "nat \<Rightarrow> 'v \<Rightarrow> (nat \<times> 'v) list \<Rightarrow> (nat \<times> 'v) list" where
  "map_put k v [] = [(k, v)]"
| "map_put k v ((k', v') # m) =
     (if k < k' then (k, v) # (k', v') # m else if k = k' then (k, v) # m else (k', v') # map_put k v m)"

lemma map_of_put [simp]: "map_of (map_put k v m) = (map_of m)(k \<mapsto> v)"
  by (induction m rule: map_put.induct) (auto simp: fun_eq_iff)

lemma keys_put [simp]: "fst ` set (map_put k v m) = insert k (fst ` set m)"
  by (induction m rule: map_put.induct) auto

lemma sorted_put [simp]: "sorted_wrt (<) (map fst m) \<Longrightarrow> sorted_wrt (<) (map fst (map_put k v m))"
proof (induction m rule: map_put.induct)
  case (2 k v k' v' m)
  have keys: "fst ` set (map_put k v m) = insert k (fst ` set m)" by simp
  show ?case using 2 keys by (auto simp del: keys_put)
qed simp

end
