(* ===== verification/Plan_Text.thy ===== *)
theory Plan_Text
  imports Plan_Draft
begin

text \<open>
  The plan builder's checks of text messages, \<^verbatim>\<open>FreezeImpl\<close> of
  \<^verbatim>\<open>src/src/protocol_plan/plan_builder.cpp\<close>: the segments of the two actions of a message, its fields,
  and the proof that a record of an action ends at its first CR LF, which a CR LF framed pipeline demands.
\<close>

section \<open>The proof of a CR LF boundary\<close>

definition FieldAllowsAscii :: "FieldPlan \<Rightarrow> u8 \<Rightarrow> bool" where
  "FieldAllowsAscii field character =
     (let mask = push_bit (unat character mod 64) 1;
          word = (if character < 64 then fl_allowed_ascii_low field else fl_allowed_ascii_high field)
      in word AND mask \<noteq> 0)"

text \<open>The states are a set of two: bit 0 for "the last byte is no CR", bit 1 for "the last byte is a CR".  The loop
  over the characters stops with a refusal at a line feed that may follow a CR.\<close>

definition crlf_turn :: "u8 \<Rightarrow> FieldPlan \<Rightarrow> u8 \<Rightarrow> u8 option \<Rightarrow> u8 option" where
  "crlf_turn states field byte result =
     (case result of
        None \<Rightarrow> None
      | Some out \<Rightarrow>
          if \<not> FieldAllowsAscii field byte then Some out
          else
            let out = (if states AND 1 \<noteq> 0 then out OR (if byte = 0x0D then 2 else 1) else out)
            in if states AND 2 \<noteq> 0
               then if byte = 0x0A then None else Some (out OR (if byte = 0x0D then 2 else 1))
               else Some out)"

definition AdvanceCrLfStates :: "u8 \<Rightarrow> FieldPlan \<Rightarrow> u8 option" where
  "AdvanceCrLfStates states field =
     (case fold (\<lambda>v. crlf_turn states field (of_nat v)) [0..<128] (Some 0) of
        None \<Rightarrow> None
      | Some out \<Rightarrow> if out \<noteq> 0 then Some out else None)"

definition AdvanceCrLfByte :: "u8 \<Rightarrow> u8 \<Rightarrow> u8 option" where
  "AdvanceCrLfByte states byte =
     (if states AND 2 \<noteq> 0 \<and> byte = 0x0A then None else Some (if byte = 0x0D then 2 else 1))"

fun literal_states :: "u8 list \<Rightarrow> u8 \<Rightarrow> u8 option" where
  "literal_states [] states = Some states"
| "literal_states (byte # bytes) states =
     (case AdvanceCrLfByte states byte of None \<Rightarrow> None | Some states \<Rightarrow> literal_states bytes states)"

text \<open>The loop over the length of a field: \<open>count\<close> characters have been read and \<open>left\<close> may still follow.\<close>

fun field_states :: "FieldPlan \<Rightarrow> u8 \<Rightarrow> u8 \<Rightarrow> nat \<Rightarrow> nat \<Rightarrow> u8 option" where
  "field_states field exact accepted count 0 =
     Some (if count \<ge> fl_text_min_length field then accepted OR exact else accepted)"
| "field_states field exact accepted count (Suc left) =
     (let accepted = (if count \<ge> fl_text_min_length field then accepted OR exact else accepted)
      in case AdvanceCrLfStates exact field of
           None \<Rightarrow> None
         | Some next_states \<Rightarrow>
             if next_states = exact then Some (accepted OR next_states)
             else field_states field next_states accepted (count + 1) left)"

fun boundary_segments :: "FieldPlan list \<Rightarrow> TextSegmentPlan list \<Rightarrow> u8 \<Rightarrow> bool" where
  "boundary_segments fs [] states = True"
| "boundary_segments fs (segment # following) states =
     (if tsp_kind segment = TS_LITERAL then
        (case literal_states
                (if following = [] then take (length (tsp_literal segment) - 2) (tsp_literal segment) else tsp_literal segment)
                states of
           None \<Rightarrow> False
         | Some states \<Rightarrow> boundary_segments fs following states)
      else if tsp_field_index segment \<ge> length fs then False
      else
        let field = fs ! tsp_field_index segment
        in case field_states field states 0 0 (fl_text_max_length field) of
             None \<Rightarrow> False
           | Some accepted \<Rightarrow> if accepted = 0 then False else boundary_segments fs following accepted)"

definition ProveAsciiCrLfBoundary :: "TextActionPlan \<Rightarrow> FieldPlan list \<Rightarrow> bool" where
  "ProveAsciiCrLfBoundary action fs =
     (if tap_segments action = [] then False
      else
        let final_segment = last (tap_segments action); literal = tsp_literal final_segment
        in if tsp_kind final_segment \<noteq> TS_LITERAL \<or> length literal < 2 \<or>
              literal ! (length literal - 2) \<noteq> 0x0D \<or> last literal \<noteq> 0x0A then False
           else boundary_segments fs (tap_segments action) 1)"

section \<open>Text messages\<close>

text \<open>What the walk over the segments of an action keeps: the fields referred to, how many a decoding delivers, and
  the length of the shortest and the longest record.\<close>

record ActionCheck =
  ac_references :: "bool list"
  ac_decode_field_count :: nat
  ac_minimum :: nat
  ac_maximum :: nat

definition CheckLiteral :: "TextSegmentPlan \<Rightarrow> ActionCheck \<Rightarrow> ActionCheck option" where
  "CheckLiteral segment c =
     (if tsp_literal segment = [] \<or> length (tsp_prefix_table segment) \<noteq> length (tsp_literal segment) then None
      else case (AddSizeChecked (length (tsp_literal segment)) (ac_minimum c),
                 AddSizeChecked (length (tsp_literal segment)) (ac_maximum c)) of
        (Some minimum, Some maximum) \<Rightarrow>
          if \<not> list_all (\<lambda>byte. byte \<le> 0x7F) (tsp_literal segment) \<or>
             CheckPrefixTable (tsp_literal segment) (tsp_prefix_table segment) \<noteq> Some True then None
          else Some (c\<lparr>ac_minimum := minimum, ac_maximum := maximum\<rparr>)
      | _ \<Rightarrow> None)"

definition CheckFieldSegment ::
    "FieldPlan list \<Rightarrow> bool \<Rightarrow> TextSegmentPlan \<Rightarrow> TextSegmentPlan list \<Rightarrow> ActionCheck \<Rightarrow> ActionCheck option" where
  "CheckFieldSegment fs decode segment following c =
     (let index = tsp_field_index segment
      in if tsp_kind segment \<noteq> TS_FIELD \<or> index \<ge> length fs \<or> ac_references c ! index then None
         else
           let field = fs ! index; c = c\<lparr>ac_references := (ac_references c)[index := True]\<rparr>
           in case (ToSize (fl_text_min_length field), ToSize (fl_text_max_length field)) of
                (Some field_min, Some field_max) \<Rightarrow>
                  if field_min > field_max then None
                  else (case (AddSizeChecked field_min (ac_minimum c), AddSizeChecked field_max (ac_maximum c)) of
                    (Some minimum, Some maximum) \<Rightarrow>
                      if field_min \<noteq> field_max \<and> following \<noteq> [] \<and> tsp_kind (hd following) \<noteq> TS_LITERAL then None
                      else Some (c\<lparr>ac_minimum := minimum, ac_maximum := maximum,
                                   ac_decode_field_count := ac_decode_field_count c + (if decode then 1 else 0)\<rparr>)
                  | _ \<Rightarrow> None)
              | _ \<Rightarrow> None)"

fun CheckSegments :: "FieldPlan list \<Rightarrow> bool \<Rightarrow> TextSegmentPlan list \<Rightarrow> ActionCheck \<Rightarrow> ActionCheck option" where
  "CheckSegments fs decode [] c = Some c"
| "CheckSegments fs decode (segment # following) c =
     (case (if tsp_kind segment = TS_LITERAL then CheckLiteral segment c
            else CheckFieldSegment fs decode segment following c) of
        None \<Rightarrow> None
      | Some c \<Rightarrow> CheckSegments fs decode following c)"

text \<open>The check of one action: the fields it refers to and the number of fields it delivers, or a refusal.\<close>

definition ValidateAction ::
    "FieldPlan list \<Rightarrow> nat \<Rightarrow> bool \<Rightarrow> TextActionPlan option \<Rightarrow> (bool list \<times> nat) option" where
  "ValidateAction fs frame_size decode action =
     (case action of
        None \<Rightarrow> Some (replicate (length fs) False, 0)
      | Some action \<Rightarrow>
          if tap_segments action = [] then None
          else (case CheckSegments fs decode (tap_segments action)
                       \<lparr>ac_references = replicate (length fs) False, ac_decode_field_count = 0, ac_minimum = 0, ac_maximum = 0\<rparr> of
            None \<Rightarrow> None
          | Some c \<Rightarrow>
              if ac_minimum c = tap_min_record_length action \<and> ac_maximum c = tap_max_record_length action \<and>
                 ac_maximum c \<le> frame_size then Some (ac_references c, ac_decode_field_count c)
              else None))"

definition no_field_execution :: FieldExecutionPlan where
  "no_field_execution = \<lparr>fe_offset = 0, fe_width = 0, fe_input_ordinal = 0, fe_value_type = VT_UINT64,
     fe_byte_order = BO_NOT_APPLICABLE, fe_encode_source = ES_INPUT, fe_has_constant = False, fe_constant_value = 0,
     fe_unknown_enum_policy = UE_REJECT, fe_enum_values_begin = 0, fe_enum_values_count = 0,
     fe_enum_lookup_begin = 0, fe_enum_lookup_count = 0, fe_bit_container_index = SIZE_MAX, fe_bit_mask = 0,
     fe_bit_shift = 0, fe_bit_width = 0, fe_signed_constant_value = 0, fe_conversion_index = SIZE_MAX,
     fe_conversion_slot = SIZE_MAX, fe_text_min_length = 0, fe_text_max_length = 0,
     fe_allowed_ascii_low = 0, fe_allowed_ascii_high = 0, fe_text_encode_input = False\<rparr>"

definition no_message_execution :: MessageExecutionPlan where
  "no_message_execution = \<lparr>me_frame_size = 0, me_required_input_count = 0, me_integrity = None, me_bounded_payload = None,
     me_computed_length = None, me_fixed_bytes = [], me_bit_containers = [], me_fields = [], me_enum_raw_values = [],
     me_enum_lookup_entries = [], me_text_decode = None, me_text_encode = None, me_text_decode_field_count = 0\<rparr>"

text \<open>The loop over the fields: the identifiers seen, the next input ordinal and the descriptors made so far.\<close>

definition PrepareTextField ::
    "nat \<Rightarrow> bool list \<Rightarrow> bool list \<Rightarrow> nat \<Rightarrow> FieldPlan \<Rightarrow> string list \<times> nat \<times> FieldExecutionPlan list \<Rightarrow>
     PlanBuildDiagnostic + string list \<times> nat \<times> FieldExecutionPlan list" where
  "PrepareTextField message_index decode_fields encode_fields field_index field s =
     (case s of (ids, input_ordinal, prepared) \<Rightarrow>
        if \<not> IsStableId (fl_id field) \<or> fl_id field \<in> set ids \<or> fl_value_type field \<noteq> VT_BYTES \<or>
           fl_wire_codec field \<noteq> WC_ASCII_TEXT \<or> (\<not> decode_fields ! field_index \<and> \<not> encode_fields ! field_index)
        then Inl (RejectField INVALID_FIELD_PLAN message_index field_index)
        else if \<not> list_all (\<lambda>character. FieldAllowsAscii field (of_nat character)) [0x20..<0x7F]
        then Inl (RejectField INVALID_FIELD_PLAN message_index field_index)
        else Inr (fl_id field # ids,
          if encode_fields ! field_index then input_ordinal + 1 else input_ordinal,
          prepared @ [no_field_execution
            \<lparr>fe_value_type := VT_BYTES, fe_encode_source := ES_INPUT,
             fe_input_ordinal := (if encode_fields ! field_index then input_ordinal else kInvalidIndex),
             fe_text_min_length := fl_text_min_length field, fe_text_max_length := fl_text_max_length field,
             fe_allowed_ascii_low := fl_allowed_ascii_low field, fe_allowed_ascii_high := fl_allowed_ascii_high field,
             fe_text_encode_input := encode_fields ! field_index\<rparr>]))"

definition PrepareTextMessage ::
    "string \<Rightarrow> nat \<Rightarrow> MessagePlan \<Rightarrow> AsciiTextPlan \<Rightarrow> nat \<Rightarrow> PlanBuildDiagnostic + MessageExecutionPlan" where
  "PrepareTextMessage schema_version message_index message ascii frame_size =
     unless ((schema_version \<noteq> ''0.10'' \<and> schema_version \<noteq> ''0.11'') \<or> ms_matchers message \<noteq> [] \<or>
             ms_bit_containers message \<noteq> [] \<or> ms_integrity message \<noteq> None \<or> ms_bounded_payload message \<noteq> None \<or>
             ms_computed_length message \<noteq> None) (RejectMessage INVALID_MESSAGE_PLAN message_index)
       (case (ValidateAction (ms_fields message) frame_size True (at_decode ascii),
              ValidateAction (ms_fields message) frame_size False (at_encode ascii)) of
          (Some (decode_fields, decode_count), Some (encode_fields, encode_count)) \<Rightarrow>
            followed_by (each (PrepareTextField message_index decode_fields encode_fields) 0 (ms_fields message) ([], 0, []))
              (\<lambda>(ids, input_ordinal, prepared).
                 Inr (no_message_execution\<lparr>me_frame_size := frame_size, me_fields := prepared,
                        me_required_input_count := input_ordinal, me_text_decode := at_decode ascii,
                        me_text_encode := at_encode ascii, me_text_decode_field_count := decode_count\<rparr>))
        | _ \<Rightarrow> Inl (RejectMessage INVALID_MESSAGE_PLAN message_index))"

end
