(* ===== verification/Plan_Message.thy ===== *)
theory Plan_Message
  imports Plan_Text Codec_Types
begin

text \<open>
  The plan builder's checks of binary messages and the descriptors it prepares from them,
  \<^verbatim>\<open>FreezeImpl\<close> of \<^verbatim>\<open>src/src/protocol_plan/plan_builder.cpp\<close>: bounded payload, checksum, computed
  length, bit containers, fields, fixed bytes and coverage of the frame, in this order.
\<close>

section \<open>Bounded payload, checksum and computed length\<close>

text \<open>The length of the trailer a checksum occupies; there is none for an unknown checksum.\<close>

definition expected_trailer :: "MessagePlan \<Rightarrow> nat option" where
  "expected_trailer message =
     (case ms_integrity message of
        None \<Rightarrow> Some 0
      | Some integrity \<Rightarrow>
          if ip_algorithm integrity = IA_SUM8 then Some 1
          else if ip_algorithm integrity = IA_CRC \<and> (ip_crc_width integrity = 16 \<or> ip_crc_width integrity = 32)
          then Some (ip_crc_width integrity div 8) else None)"

definition sum_checked :: "nat list \<Rightarrow> nat option" where
  "sum_checked ns = fold (\<lambda>n subtotal. case subtotal of None \<Rightarrow> None | Some s \<Rightarrow> AddSizeChecked n s) ns (Some 0)"

definition BoundedPayloadValid :: "string \<Rightarrow> ResourceProfileLimits \<Rightarrow> MessagePlan \<Rightarrow> nat \<Rightarrow> BoundedPayloadPlan \<Rightarrow> bool" where
  "BoundedPayloadValid schema_version limit message frame_size b =
     (case expected_trailer message of
        None \<Rightarrow> False
      | Some trailer \<Rightarrow>
          \<not> ((schema_version \<noteq> ''0.8'' \<and> schema_version \<noteq> ''0.9'') \<or> ms_computed_length message = None \<or>
             bp_payload_field_index b \<ge> length (ms_fields message) \<or>
             ToSize (bp_header_length b) = None \<or> bp_header_length b = 0 \<or>
             ToSize (bp_min_payload_length b) = None \<or> ToSize (bp_max_payload_length b) = None \<or>
             bp_min_payload_length b > bp_max_payload_length b \<or> ToSize (bp_trailer_length b) = None \<or>
             bp_trailer_length b \<noteq> trailer \<or> ToSize (bp_min_frame_length b) = None \<or>
             ToSize (bp_max_frame_length b) = None \<or>
             sum_checked [bp_header_length b, bp_min_payload_length b, bp_trailer_length b] \<noteq> Some (bp_min_frame_length b) \<or>
             sum_checked [bp_header_length b, bp_max_payload_length b, bp_trailer_length b] \<noteq> Some (bp_max_frame_length b) \<or>
             frame_size \<noteq> bp_max_frame_length b \<or> bp_max_frame_length b > max_frame_bytes limit))"

definition CrcValid :: "string \<Rightarrow> IntegrityPlan \<Rightarrow> bool" where
  "CrcValid schema_version i \<longleftrightarrow>
     (let crc_width_mask = (if ip_crc_width i = 16 then 0xFFFF else 0xFFFFFFFF)
      in ip_algorithm i = IA_CRC \<and> schema_version \<in> set [''0.6'', ''0.7'', ''0.8'', ''0.9''] \<and>
         (ip_crc_width i = 16 \<or> ip_crc_width i = 32) \<and> ip_crc_polynomial i \<noteq> 0 \<and> ip_crc_polynomial i AND 1 \<noteq> 0 \<and>
         ip_crc_polynomial i AND NOT crc_width_mask = 0 \<and> ip_crc_initial_value i AND NOT crc_width_mask = 0 \<and>
         ip_crc_xor_output i AND NOT crc_width_mask = 0 \<and>
         (ip_storage_byte_order i = BO_BIG \<or> ip_storage_byte_order i = BO_LITTLE))"

definition integrity_width :: "IntegrityPlan \<Rightarrow> nat" where
  "integrity_width i = (if ip_algorithm i = IA_CRC then ip_crc_width i div 8 else 1)"

definition IntegrityRangeValid :: "MessagePlan \<Rightarrow> nat \<Rightarrow> IntegrityPlan \<Rightarrow> bool" where
  "IntegrityRangeValid message frame_size i =
     (let range_offset = ip_range_offset i; range_length = ip_range_length i;
          storage_offset = ip_storage_offset i; storage_width = integrity_width i
      in \<not> (case ms_bounded_payload message of
              Some b \<Rightarrow>
                \<not> ip_storage_at_payload_end i \<or>
                (if ip_range_ends_at_payload i then range_offset > bp_header_length b
                 else range_length = 0 \<or> range_offset > bp_header_length b + bp_min_payload_length b \<or>
                      range_length > bp_header_length b + bp_min_payload_length b - range_offset)
            | None \<Rightarrow>
                ip_range_ends_at_payload i \<or> ip_storage_at_payload_end i \<or> range_length = 0 \<or>
                \<not> IsRangeWithin range_offset range_length frame_size \<or>
                \<not> IsRangeWithin storage_offset storage_width frame_size \<or>
                (storage_offset < range_offset + range_length \<and> range_offset < storage_offset + storage_width)))"

definition IntegrityValid :: "string \<Rightarrow> MessagePlan \<Rightarrow> nat \<Rightarrow> IntegrityPlan \<Rightarrow> bool" where
  "IntegrityValid schema_version message frame_size i \<longleftrightarrow>
     \<not> (schema_version \<notin> set [''0.3'', ''0.4'', ''0.5'', ''0.6'', ''0.7'', ''0.8'', ''0.9''] \<or>
        (ip_algorithm i \<noteq> IA_SUM8 \<and> \<not> CrcValid schema_version i) \<or>
        (ip_algorithm i = IA_SUM8 \<and> schema_version \<in> set [''0.6'', ''0.7'', ''0.8'', ''0.9''] \<and>
         (ip_crc_width i \<noteq> 0 \<or> ip_storage_byte_order i \<noteq> BO_NOT_APPLICABLE)) \<or>
        ToSize (ip_range_offset i) = None \<or> ToSize (ip_range_length i) = None \<or> ToSize (ip_storage_offset i) = None) \<and>
     IntegrityRangeValid message frame_size i"

definition length_schema :: "string \<Rightarrow> bool" where
  "length_schema version \<longleftrightarrow> version \<in> set [''0.7'', ''0.8'', ''0.9'']"

definition ComputedLengthValid :: "string \<Rightarrow> MessagePlan \<Rightarrow> nat \<Rightarrow> ComputedLengthPlan \<Rightarrow> bool" where
  "ComputedLengthValid schema_version message frame_size c =
     (let width = cl_storage_width c; bounded = ms_bounded_payload message;
          expected = (case (cl_scope c, bounded) of
             (CL_PAYLOAD, Some b) \<Rightarrow> bp_max_payload_length b
           | (CL_FRAME, _) \<Rightarrow> frame_size | _ \<Rightarrow> cl_range_length c)
      in \<not> (ToSize (cl_storage_offset c) = None \<or> ToSize width = None \<or> ToSize (cl_range_offset c) = None \<or>
            ToSize (cl_range_length c) = None) \<and>
         \<not> (\<not> length_schema schema_version \<or> cl_field_index c \<ge> length (ms_fields message) \<or>
            (width \<noteq> 1 \<and> width \<noteq> 2 \<and> width \<noteq> 4) \<or>
            (if width = 1 then cl_byte_order c \<noteq> BO_NOT_APPLICABLE
             else cl_byte_order c \<noteq> BO_BIG \<and> cl_byte_order c \<noteq> BO_LITTLE) \<or>
            \<not> IsRangeWithin (cl_storage_offset c) width
                (case bounded of Some b \<Rightarrow> bp_header_length b | None \<Rightarrow> frame_size) \<or>
            (cl_scope c = CL_FRAME \<and> (cl_range_offset c \<noteq> 0 \<or> cl_range_length c \<noteq> 0)) \<or>
            (bounded \<noteq> None \<and> cl_scope c = CL_REGION) \<or>
            (cl_scope c = CL_REGION \<and>
             (cl_range_length c = 0 \<or> \<not> IsRangeWithin (cl_range_offset c) (cl_range_length c) frame_size)) \<or>
            (cl_scope c = CL_PAYLOAD \<and> (bounded = None \<or> cl_range_offset c \<noteq> 0 \<or> cl_range_length c \<noteq> 0)) \<or>
            cl_expected_value c \<noteq> of_nat expected \<or> \<not> FitsUnsignedWidth (of_nat expected) width))"

definition ComputedFieldValid :: "MessagePlan \<Rightarrow> ComputedLengthPlan \<Rightarrow> bool" where
  "ComputedFieldValid message c =
     (let field = ms_fields message ! cl_field_index c
      in \<not> (fl_value_type field \<noteq> VT_UINT64 \<or> fl_wire_codec field \<noteq> WC_UNSIGNED_INTEGER \<or>
            fl_encode_source field \<noteq> ES_COMPUTED \<or> fl_constant_value field \<noteq> None \<or>
            fl_signed_constant_value field \<noteq> None \<or> fl_enum_entries field \<noteq> [] \<or>
            fl_byte_offset field \<noteq> cl_storage_offset c \<or> fl_byte_width field \<noteq> cl_storage_width c \<or>
            fl_byte_order field \<noteq> cl_byte_order c))"

section \<open>Bit containers\<close>

definition PrepareContainer ::
    "nat \<Rightarrow> nat \<Rightarrow> BoundedPayloadPlan option \<Rightarrow> nat \<Rightarrow> BitContainerPlan \<Rightarrow>
     string list \<times> ByteInterval list \<times> BitContainerExecutionPlan list \<Rightarrow>
     PlanBuildDiagnostic + string list \<times> ByteInterval list \<times> BitContainerExecutionPlan list" where
  "PrepareContainer message_index frame_size bounded container_index container s =
     (case s of (ids, intervals, prepared) \<Rightarrow>
        let offset = bc_byte_offset container; width = bc_byte_width container
        in if \<not> IsStableId (bc_id container) \<or> bc_id container \<in> set ids \<or> ToSize offset = None \<or> ToSize width = None \<or>
              (width \<noteq> 1 \<and> width \<noteq> 2 \<and> width \<noteq> 4 \<and> width \<noteq> 8) \<or> \<not> IsRangeWithin offset width frame_size \<or>
              \<not> IsBitContainerByteOrderValid (bc_byte_order container) width \<or>
              \<not> FitsUnsignedWidth (bc_base_value container) width then
             Inl (RejectMessage INVALID_FIELD_PLAN message_index)
           else if (case bounded of None \<Rightarrow> False | Some b \<Rightarrow> \<not> IsRangeWithin offset width (bp_header_length b)) then
             Inl (RejectMessage INVALID_FIELD_PLAN message_index)
           else Inr (bc_id container # ids,
             intervals @ [\<lparr>bi_begin = offset, bi_end = offset + width, bi_source_index = container_index\<rparr>],
             prepared @ [\<lparr>bce_offset = offset, bce_width = width, bce_byte_order = bc_byte_order container,
                          bce_base_value = bc_base_value container\<rparr>]))"

section \<open>Fields\<close>

record FieldsState =
  st_ids :: "string list"
  st_intervals :: "ByteInterval list"
  st_fields :: "FieldExecutionPlan list"
  st_enum_raw_values :: "u64 list"
  st_enum_lookup_entries :: "EnumLookupExecutionPlan list"
  st_member_masks :: "u64 list"
  st_determined_masks :: "u64 list"
  st_determined_values :: "u64 list"
  st_member_counts :: "nat list"
  st_input_ordinal :: nat
  st_conversion_slot :: nat
  st_reference_counts :: "nat list"

definition is_bitfield :: "FieldPlan \<Rightarrow> bool" where
  "is_bitfield field \<longleftrightarrow> fl_wire_codec field = WC_BITFIELD"

text \<open>The bytes a field stands in: its own, or those of its container.\<close>

definition field_offset :: "MessagePlan \<Rightarrow> FieldPlan \<Rightarrow> nat" where
  "field_offset message field =
     (if is_bitfield field then bc_byte_offset (ms_bit_containers message ! fl_bit_container_index field)
      else fl_byte_offset field)"

definition field_width :: "MessagePlan \<Rightarrow> FieldPlan \<Rightarrow> nat" where
  "field_width message field =
     (if is_bitfield field then bc_byte_width (ms_bit_containers message ! fl_bit_container_index field)
      else fl_byte_width field)"

definition FieldPlaced :: "MessagePlan \<Rightarrow> nat \<Rightarrow> string list \<Rightarrow> FieldPlan \<Rightarrow> bool" where
  "FieldPlaced message frame_size ids field \<longleftrightarrow>
     \<not> (\<not> IsStableId (fl_id field) \<or> fl_id field \<in> set ids \<or>
        (\<not> is_bitfield field \<and>
         (ToSize (fl_byte_offset field) = None \<or> ToSize (fl_byte_width field) = None \<or>
          \<not> IsRangeWithin (fl_byte_offset field) (fl_byte_width field) frame_size)) \<or>
        (is_bitfield field \<and> fl_bit_container_index field \<ge> length (ms_bit_containers message)))"

definition PayloadPlaced :: "MessagePlan \<Rightarrow> nat \<Rightarrow> FieldPlan \<Rightarrow> bool" where
  "PayloadPlaced message field_index field =
     (case ms_bounded_payload message of
        None \<Rightarrow> True
      | Some b \<Rightarrow>
          \<not> (if field_index = bp_payload_field_index b then
               fl_value_type field \<noteq> VT_BYTES \<or> fl_wire_codec field \<noteq> WC_BYTES \<or>
               fl_byte_offset field \<noteq> bp_header_length b \<or> fl_byte_width field \<noteq> bp_max_payload_length b
             else \<not> is_bitfield field \<and>
               ((fl_wire_codec field = WC_BYTES \<and> fl_byte_width field = 0) \<or>
                \<not> IsRangeWithin (fl_byte_offset field) (fl_byte_width field) (bp_header_length b))))"

definition Uint64Valid :: "string \<Rightarrow> MessagePlan \<Rightarrow> nat \<Rightarrow> FieldPlan \<Rightarrow> nat \<Rightarrow> bool" where
  "Uint64Valid schema_version message field_index field width \<longleftrightarrow>
     fl_value_type field = VT_UINT64 \<and> fl_wire_codec field = WC_UNSIGNED_INTEGER \<and> width \<le> 8 \<and>
     IsIntegerByteOrderValid (fl_byte_order field) width \<and> fl_enum_entries field = [] \<and>
     fl_signed_constant_value field = None \<and>
     ((fl_encode_source field = ES_INPUT \<and> fl_constant_value field = None) \<or>
      (fl_encode_source field = ES_CONSTANT \<and>
       (case fl_constant_value field of None \<Rightarrow> False | Some v \<Rightarrow> FitsUnsignedWidth v width)) \<or>
      (length_schema schema_version \<and> fl_encode_source field = ES_COMPUTED \<and> fl_constant_value field = None \<and>
       (case ms_computed_length message of
          None \<Rightarrow> False
        | Some c \<Rightarrow> cl_field_index c = field_index \<and> cl_storage_offset c = fl_byte_offset field \<and>
                    cl_storage_width c = fl_byte_width field \<and> cl_byte_order c = fl_byte_order field)))"

definition Int64Valid :: "string \<Rightarrow> FieldPlan \<Rightarrow> nat \<Rightarrow> bool" where
  "Int64Valid schema_version field width \<longleftrightarrow>
     schema_version \<in> set [''0.4'', ''0.5'', ''0.6'', ''0.7'', ''0.8'', ''0.9''] \<and>
     fl_value_type field = VT_INT64 \<and> fl_wire_codec field = WC_UNSIGNED_INTEGER \<and> width \<le> 8 \<and>
     IsIntegerByteOrderValid (fl_byte_order field) width \<and> fl_enum_entries field = [] \<and> fl_constant_value field = None \<and>
     ((fl_encode_source field = ES_INPUT \<and> fl_signed_constant_value field = None) \<or>
      (fl_encode_source field = ES_CONSTANT \<and>
       (case fl_signed_constant_value field of None \<Rightarrow> False | Some v \<Rightarrow> FitsSignedWidth v width)))"

definition BytesValid :: "FieldPlan \<Rightarrow> bool" where
  "BytesValid field \<longleftrightarrow>
     fl_value_type field = VT_BYTES \<and> fl_wire_codec field = WC_BYTES \<and> fl_byte_order field = BO_NOT_APPLICABLE \<and>
     fl_encode_source field = ES_INPUT \<and> fl_constant_value field = None \<and> fl_signed_constant_value field = None \<and>
     fl_enum_entries field = []"

definition EnumShapeValid :: "FieldPlan \<Rightarrow> nat \<Rightarrow> bool" where
  "EnumShapeValid field width \<longleftrightarrow>
     fl_value_type field = VT_ENUM \<and> fl_wire_codec field = WC_UNSIGNED_INTEGER \<and> width \<le> 8 \<and>
     IsIntegerByteOrderValid (fl_byte_order field) width \<and> fl_encode_source field = ES_INPUT \<and>
     fl_constant_value field = None \<and> fl_signed_constant_value field = None \<and> fl_enum_entries field \<noteq> [] \<and>
     (fl_unknown_enum_policy field = UE_REJECT \<or> fl_unknown_enum_policy field = UE_PRESERVE)"

definition BitEncodeValid :: "FieldPlan \<Rightarrow> nat \<Rightarrow> bool" where
  "BitEncodeValid field width \<longleftrightarrow>
     (let container_bits = width * 8
      in is_bitfield field \<and> fl_bit_width field \<noteq> 0 \<and> fl_bit_width field \<le> 64 \<and> fl_bit_offset field \<le> container_bits \<and>
         fl_bit_width field \<le> container_bits - fl_bit_offset field \<and>
         (fl_value_type field = VT_UINT64 \<or> fl_value_type field = VT_BOOL \<or> fl_value_type field = VT_ENUM) \<and>
         (fl_value_type field \<noteq> VT_BOOL \<or> fl_bit_width field = 1) \<and> fl_signed_constant_value field = None \<and>
         ((fl_encode_source field = ES_INPUT \<and> fl_constant_value field = None) \<or>
          (fl_value_type field = VT_UINT64 \<and> fl_encode_source field = ES_CONSTANT \<and>
           (case fl_constant_value field of None \<Rightarrow> False | Some v \<Rightarrow> FitsUnsignedBits v (fl_bit_width field)))))"

definition FieldShapeValid :: "string \<Rightarrow> MessagePlan \<Rightarrow> nat \<Rightarrow> FieldPlan \<Rightarrow> nat \<Rightarrow> bool" where
  "FieldShapeValid schema_version message field_index field width \<longleftrightarrow>
     \<not> ((\<not> is_bitfield field \<and> \<not> Uint64Valid schema_version message field_index field width \<and>
         \<not> Int64Valid schema_version field width \<and> \<not> BytesValid field \<and> \<not> EnumShapeValid field width) \<or>
        (is_bitfield field \<and>
         (\<not> BitEncodeValid field width \<or> (fl_value_type field = VT_ENUM \<and> fl_enum_entries field = []))))"

definition ConversionValid :: "string \<Rightarrow> LinearConversionDescriptor list \<Rightarrow> FieldPlan \<Rightarrow> bool" where
  "ConversionValid schema_version conversions field =
     (let has_conversion = (fl_conversion_index field \<noteq> kInvalidIndex)
      in \<not> ((\<not> conversion_schema schema_version \<and> has_conversion) \<or>
            (has_conversion \<and>
             (fl_conversion_index field \<ge> length conversions \<or> is_bitfield field \<or> fl_encode_source field \<noteq> ES_INPUT \<or>
              (fl_value_type field \<noteq> VT_UINT64 \<and> fl_value_type field \<noteq> VT_INT64) \<or>
              raw_value_type (conversions ! fl_conversion_index field) \<noteq> fl_value_type field))))"

text \<open>The place of the bits of a field in its container.\<close>

definition bit_shift_of :: "BitContainerPlan \<Rightarrow> FieldPlan \<Rightarrow> nat" where
  "bit_shift_of container field =
     (if bc_bit_numbering container = BN_LSB0 then fl_bit_offset field
      else bc_byte_width container * 8 - fl_bit_offset field - fl_bit_width field)"

definition bit_mask_of :: "BitContainerPlan \<Rightarrow> FieldPlan \<Rightarrow> u64" where
  "bit_mask_of container field =
     (let low_mask = (if fl_bit_width field = 64 then - 1 else push_bit (fl_bit_width field) 1 - 1)
      in push_bit (bit_shift_of container field) low_mask)"

text \<open>Entering the bits of a field: they may not be taken already, and a constant determines them.\<close>

definition PlaceBits ::
    "MessagePlan \<Rightarrow> FieldPlan \<Rightarrow> FieldExecutionPlan \<Rightarrow> FieldsState \<Rightarrow> (FieldExecutionPlan \<times> FieldsState) option" where
  "PlaceBits message field execution s =
     (if \<not> is_bitfield field then Some (execution, s)
      else
        let k = fl_bit_container_index field; container = ms_bit_containers message ! k;
            shift = bit_shift_of container field; mask = bit_mask_of container field;
            execution = execution\<lparr>fe_bit_shift := shift mod 256, fe_bit_mask := mask\<rparr>
        in if st_member_masks s ! k AND mask \<noteq> 0 then None
           else
             let s = s\<lparr>st_member_masks := (st_member_masks s)[k := st_member_masks s ! k OR mask],
                       st_member_counts := (st_member_counts s)[k := st_member_counts s ! k + 1]\<rparr>
             in Some (execution,
                  if fl_encode_source field = ES_INPUT then
                    s\<lparr>st_determined_masks := (st_determined_masks s)[k := st_determined_masks s ! k AND NOT mask]\<rparr>
                  else
                    s\<lparr>st_determined_values := (st_determined_values s)
                        [k := (st_determined_values s ! k AND NOT mask) OR
                              (push_bit shift (the (fl_constant_value field)) AND mask)]\<rparr>))"

text \<open>The loop over the entries of an enumeration: the identifiers and the values seen and the tables.\<close>

definition PrepareEntry ::
    "FieldPlan \<Rightarrow> nat \<Rightarrow> nat \<Rightarrow> EnumEntryPlan \<Rightarrow>
     string list \<times> u64 list \<times> EnumLookupExecutionPlan list \<Rightarrow>
     unit + string list \<times> u64 list \<times> EnumLookupExecutionPlan list" where
  "PrepareEntry field width entry_index entry s =
     (case s of (ids, raw_values, lookup) \<Rightarrow>
        if \<not> IsStableId (ee_id entry) \<or> ee_id entry \<in> set ids \<or> ee_raw_value entry \<in> set raw_values \<or>
           \<not> (if is_bitfield field then FitsUnsignedBits (ee_raw_value entry) (fl_bit_width field)
              else FitsUnsignedWidth (ee_raw_value entry) width) then Inl ()
        else Inr (ee_id entry # ids, raw_values @ [ee_raw_value entry],
          lookup @ [\<lparr>el_raw_value = ee_raw_value entry, el_entry_index = entry_index\<rparr>]))"

definition PrepareEnum ::
    "FieldPlan \<Rightarrow> nat \<Rightarrow> FieldExecutionPlan \<Rightarrow> FieldsState \<Rightarrow> (FieldExecutionPlan \<times> FieldsState) option" where
  "PrepareEnum field width execution s =
     (if fl_value_type field \<noteq> VT_ENUM then Some (execution, s)
      else case each (PrepareEntry field width) 0 (fl_enum_entries field) ([], [], []) of
        Inl _ \<Rightarrow> None
      | Inr (ids, raw_values, lookup) \<Rightarrow>
          let n = length (fl_enum_entries field)
          in Some (execution\<lparr>fe_enum_values_count := n, fe_enum_lookup_count := n\<rparr>,
               s\<lparr>st_enum_raw_values := st_enum_raw_values s @ raw_values,
                 st_enum_lookup_entries := st_enum_lookup_entries s @ sort_key el_raw_value lookup\<rparr>))"

text \<open>The descriptor of a field, before its bits and its enumeration are entered.\<close>

definition field_execution :: "MessagePlan \<Rightarrow> FieldPlan \<Rightarrow> FieldsState \<Rightarrow> FieldExecutionPlan" where
  "field_execution message field s = no_field_execution
     \<lparr>fe_offset := field_offset message field, fe_width := field_width message field,
      fe_input_ordinal := (if fl_encode_source field = ES_INPUT then st_input_ordinal s else SIZE_MAX),
      fe_value_type := fl_value_type field, fe_byte_order := fl_byte_order field,
      fe_encode_source := fl_encode_source field,
      fe_has_constant := fl_constant_value field \<noteq> None \<or> fl_signed_constant_value field \<noteq> None,
      fe_constant_value := (case fl_constant_value field of None \<Rightarrow> 0 | Some v \<Rightarrow> v),
      fe_signed_constant_value := (case fl_signed_constant_value field of None \<Rightarrow> 0 | Some v \<Rightarrow> v),
      fe_conversion_index := fl_conversion_index field,
      fe_conversion_slot := (if fl_conversion_index field \<noteq> kInvalidIndex then st_conversion_slot s else SIZE_MAX),
      fe_unknown_enum_policy := (if fl_value_type field = VT_ENUM then fl_unknown_enum_policy field else UE_REJECT),
      fe_enum_values_begin := length (st_enum_raw_values s),
      fe_enum_lookup_begin := length (st_enum_lookup_entries s),
      fe_bit_container_index := fl_bit_container_index field,
      fe_bit_width := fl_bit_width field mod 256\<rparr>"

definition PrepareField ::
    "string \<Rightarrow> LinearConversionDescriptor list \<Rightarrow> nat \<Rightarrow> MessagePlan \<Rightarrow> nat \<Rightarrow> nat \<Rightarrow> FieldPlan \<Rightarrow> FieldsState \<Rightarrow>
     PlanBuildDiagnostic + FieldsState" where
  "PrepareField schema_version conversions message_index message frame_size field_index field s =
     unless (\<not> FieldPlaced message frame_size (st_ids s) field \<or> \<not> PayloadPlaced message field_index field \<or>
             \<not> FieldShapeValid schema_version message field_index field (field_width message field) \<or>
             \<not> ConversionValid schema_version conversions field)
       (RejectField INVALID_FIELD_PLAN message_index field_index)
       (let has_conversion = (fl_conversion_index field \<noteq> kInvalidIndex);
            offset = field_offset message field; width = field_width message field;
            execution = field_execution message field s;
            s = s\<lparr>st_ids := fl_id field # st_ids s,
                  st_intervals := (if is_bitfield field then st_intervals s else st_intervals s @
                    [\<lparr>bi_begin = offset, bi_end = offset + width, bi_source_index = field_index\<rparr>]),
                  st_reference_counts := (if has_conversion then (st_reference_counts s)
                      [fl_conversion_index field := st_reference_counts s ! fl_conversion_index field + 1]
                    else st_reference_counts s),
                  st_conversion_slot := (if has_conversion then st_conversion_slot s + 1 else st_conversion_slot s),
                  st_input_ordinal := (if fl_encode_source field = ES_INPUT then st_input_ordinal s + 1
                                       else st_input_ordinal s)\<rparr>
        in case PlaceBits message field execution s of
             None \<Rightarrow> Inl (RejectField INVALID_FIELD_PLAN message_index field_index)
           | Some (execution, s) \<Rightarrow>
               (case PrepareEnum field width execution s of
                  None \<Rightarrow> Inl (RejectField INVALID_FIELD_PLAN message_index field_index)
                | Some (execution, s) \<Rightarrow> Inr (s\<lparr>st_fields := st_fields s @ [execution]\<rparr>)))"

text \<open>The intervals, sorted, may not overlap; the refusal names the second of the first pair that does.\<close>

fun first_overlap :: "ByteInterval list \<Rightarrow> nat option" where
  "first_overlap (earlier # later # intervals) =
     (if bi_begin later < bi_end earlier then Some (bi_source_index later) else first_overlap (later # intervals))"
| "first_overlap _ = None"

section \<open>Fixed bytes and coverage\<close>

fun EnterBytes :: "nat \<Rightarrow> u8 list \<Rightarrow> (nat \<times> u8) list \<Rightarrow> (nat \<times> u8) list option" where
  "EnterBytes offset [] fixed = Some fixed"
| "EnterBytes offset (byte # bytes) fixed =
     (case map_of fixed offset of
        Some known \<Rightarrow> if known \<noteq> byte then None else EnterBytes (offset + 1) bytes fixed
      | None \<Rightarrow> EnterBytes (offset + 1) bytes (map_put offset byte fixed))"

definition PrepareMatcher ::
    "nat \<Rightarrow> nat \<Rightarrow> BoundedPayloadPlan option \<Rightarrow> nat \<Rightarrow> MatcherPlan \<Rightarrow> (nat \<times> u8) list \<Rightarrow>
     PlanBuildDiagnostic + (nat \<times> u8) list" where
  "PrepareMatcher message_index frame_size bounded matcher_index matcher fixed =
     (let refuse = Inl (RejectMatcher INVALID_MATCHER_PLAN message_index matcher_index)
      in if mp_kind matcher = MK_FRAME_LENGTH_EQUALS then
           if bounded \<noteq> None then refuse
           else if ToSize (mp_length_bytes matcher) = None \<or> mp_length_bytes matcher \<noteq> frame_size then refuse
           else Inr fixed
         else if ToSize (mp_byte_offset matcher) = None \<or>
                 \<not> IsRangeWithin (mp_byte_offset matcher) (length (mp_bytes matcher))
                     (case bounded of Some b \<Rightarrow> bp_header_length b | None \<Rightarrow> frame_size) then refuse
         else (case EnterBytes (mp_byte_offset matcher) (mp_bytes matcher) fixed of
                 None \<Rightarrow> refuse
               | Some fixed \<Rightarrow> Inr fixed))"

text \<open>Some fixed byte lies in a range of bytes.\<close>

definition fixed_within :: "(nat \<times> u8) list \<Rightarrow> nat \<Rightarrow> nat \<Rightarrow> bool" where
  "fixed_within fixed offset width \<longleftrightarrow> list_ex (\<lambda>i. map_of fixed (offset + i) \<noteq> None) [0..<width]"

definition coverage :: "ByteInterval list \<Rightarrow> (nat \<times> u8) list \<Rightarrow> IntegrityPlan option \<Rightarrow> ByteInterval list" where
  "coverage intervals fixed integrity =
     intervals @ map (\<lambda>(offset, v). \<lparr>bi_begin = offset, bi_end = offset + 1, bi_source_index = kInvalidIndex\<rparr>) fixed @
     (case integrity of
        Some i \<Rightarrow> if ip_storage_at_payload_end i then []
                  else [\<lparr>bi_begin = ip_storage_offset i, bi_end = ip_storage_offset i + integrity_width i,
                         bi_source_index = kInvalidIndex\<rparr>]
      | None \<Rightarrow> [])"

text \<open>The bytes of a container that its members determine agree with the fixed bytes.\<close>

definition ContainerAgrees :: "(nat \<times> u8) list \<Rightarrow> BitContainerPlan \<Rightarrow> u64 \<Rightarrow> u64 \<Rightarrow> bool" where
  "ContainerAgrees fixed container determined_mask determined_value \<longleftrightarrow>
     list_all (\<lambda>byte_index.
        case map_of fixed (bc_byte_offset container + byte_index) of
          None \<Rightarrow> True
        | Some matcher_byte \<Rightarrow>
            let width = bc_byte_width container;
                logical_byte = (if bc_byte_order container = BO_BIG then width - 1 - byte_index else byte_index);
                mask = ucast (drop_bit (logical_byte * 8) determined_mask) :: u8;
                v = ucast (drop_bit (logical_byte * 8) determined_value) :: u8
            in (matcher_byte XOR v) AND mask = 0) [0..<bc_byte_width container]"

definition ConstantAgrees :: "(nat \<times> u8) list \<Rightarrow> FieldPlan \<Rightarrow> bool" where
  "ConstantAgrees fixed field \<longleftrightarrow>
     (if is_bitfield field \<or> (fl_value_type field \<noteq> VT_UINT64 \<and> fl_value_type field \<noteq> VT_INT64) \<or>
         fl_encode_source field \<noteq> ES_CONSTANT \<or>
         (fl_constant_value field = None \<and> fl_signed_constant_value field = None) then True
      else
        let encoded = (if fl_value_type field = VT_INT64 then the (fl_signed_constant_value field)
                       else the (fl_constant_value field))
        in list_all (\<lambda>byte_index.
             case map_of fixed (fl_byte_offset field + byte_index) of
               None \<Rightarrow> True
             | Some matcher_byte \<Rightarrow>
                 matcher_byte = EncodeUnsignedByte encoded (fl_byte_width field) (fl_byte_order field) byte_index)
             [0..<fl_byte_width field])"

section \<open>The whole message\<close>

text \<open>The checks of the parts of a message that stand for themselves.\<close>

definition CheckParts :: "string \<Rightarrow> ResourceProfileLimits \<Rightarrow> nat \<Rightarrow> MessagePlan \<Rightarrow> nat \<Rightarrow> PlanBuildDiagnostic + unit" where
  "CheckParts schema_version limit message_index message frame_size =
     unless (case ms_bounded_payload message of None \<Rightarrow> False
             | Some b \<Rightarrow> \<not> BoundedPayloadValid schema_version limit message frame_size b)
       (RejectMessage INVALID_MESSAGE_PLAN message_index)
     (unless (case ms_integrity message of None \<Rightarrow> False | Some i \<Rightarrow> \<not> IntegrityValid schema_version message frame_size i)
       (RejectMessage INVALID_MESSAGE_PLAN message_index)
     (case ms_computed_length message of
        None \<Rightarrow> Inr ()
      | Some c \<Rightarrow>
          unless (\<not> ComputedLengthValid schema_version message frame_size c)
            (RejectMessage INVALID_MESSAGE_PLAN message_index)
          (unless (\<not> ComputedFieldValid message c)
            (RejectField INVALID_FIELD_PLAN message_index (cl_field_index c)) (Inr ()))))"

text \<open>What the fields start from: the containers have entered their intervals and determine every bit of theirs.\<close>

definition fields_start :: "MessagePlan \<Rightarrow> ByteInterval list \<Rightarrow> nat list \<Rightarrow> FieldsState" where
  "fields_start message intervals reference_counts =
     (let containers = ms_bit_containers message; n = length containers
      in \<lparr>st_ids = [], st_intervals = intervals, st_fields = [], st_enum_raw_values = [], st_enum_lookup_entries = [],
          st_member_masks = replicate n 0, st_determined_masks = map (\<lambda>c. WidthMask (bc_byte_width c)) containers,
          st_determined_values = map bc_base_value containers, st_member_counts = replicate n 0,
          st_input_ordinal = 0, st_conversion_slot = 0, st_reference_counts = reference_counts\<rparr>)"

definition integrity_overlaps :: "IntegrityPlan option \<Rightarrow> ByteInterval list \<Rightarrow> bool" where
  "integrity_overlaps integrity intervals =
     (case integrity of
        None \<Rightarrow> False
      | Some i \<Rightarrow> \<not> ip_storage_at_payload_end i \<and>
          list_ex (\<lambda>interval. ip_storage_offset i < bi_end interval \<and>
                             bi_begin interval < ip_storage_offset i + integrity_width i) intervals)"

text \<open>Containers and fields, up to the intervals they occupy, sorted.\<close>

definition PrepareFields ::
    "string \<Rightarrow> LinearConversionDescriptor list \<Rightarrow> nat \<Rightarrow> MessagePlan \<Rightarrow> nat \<Rightarrow> nat list \<Rightarrow>
     PlanBuildDiagnostic + BitContainerExecutionPlan list \<times> FieldsState" where
  "PrepareFields schema_version conversions message_index message frame_size reference_counts =
     followed_by (each (PrepareContainer message_index frame_size (ms_bounded_payload message)) 0
                    (ms_bit_containers message) ([], [], []))
       (\<lambda>(container_ids, intervals, containers).
          followed_by (each (PrepareField schema_version conversions message_index message frame_size) 0
                         (ms_fields message) (fields_start message intervals reference_counts))
            (\<lambda>s. unless (0 \<in> set (st_member_counts s)) (RejectMessage INVALID_FIELD_PLAN message_index)
               (let sorted = sort_intervals (st_intervals s)
                in case first_overlap sorted of
                     Some source_index \<Rightarrow> Inl (RejectField INVALID_FIELD_PLAN message_index source_index)
                   | None \<Rightarrow>
                       unless (integrity_overlaps (ms_integrity message) sorted)
                         (RejectMessage INVALID_MESSAGE_PLAN message_index)
                         (Inr (containers, s\<lparr>st_intervals := sorted\<rparr>)))))"

definition CheckCoverage :: "MessagePlan \<Rightarrow> nat \<Rightarrow> ByteInterval list \<Rightarrow> (nat \<times> u8) list \<Rightarrow> bool" where
  "CheckCoverage message frame_size intervals fixed =
     (let covering = coverage intervals fixed (ms_integrity message)
      in case ms_bounded_payload message of
           None \<Rightarrow> CoversWholeFrame covering frame_size
         | Some b \<Rightarrow> CoversWholeFrame (filter (\<lambda>interval. \<not> bi_begin interval \<ge> bp_header_length b) covering)
                       (bp_header_length b))"

text \<open>The fixed bytes the matchers demand, and what they have to agree with.\<close>

definition PrepareFixed ::
    "nat \<Rightarrow> MessagePlan \<Rightarrow> nat \<Rightarrow> FieldsState \<Rightarrow> PlanBuildDiagnostic + (nat \<times> u8) list" where
  "PrepareFixed message_index message frame_size s =
     followed_by (each (PrepareMatcher message_index frame_size (ms_bounded_payload message)) 0 (ms_matchers message) [])
       (\<lambda>fixed.
          unless (ms_bounded_payload message \<noteq> None \<and> fixed = []) (RejectMessage INVALID_MATCHER_PLAN message_index)
          (unless (case ms_computed_length message of None \<Rightarrow> False
                   | Some c \<Rightarrow> fixed_within fixed (cl_storage_offset c) (cl_storage_width c))
             (RejectMessage INVALID_MESSAGE_PLAN message_index)
          (unless (case ms_integrity message of None \<Rightarrow> False
                   | Some i \<Rightarrow> \<not> ip_storage_at_payload_end i \<and> fixed_within fixed (ip_storage_offset i) (integrity_width i))
             (RejectMessage INVALID_MESSAGE_PLAN message_index)
          (unless (\<not> CheckCoverage message frame_size (st_intervals s) fixed)
             (RejectMessage FRAME_NOT_FULLY_DEFINED message_index)
          (unless (list_ex (\<lambda>(container, mask, v). \<not> ContainerAgrees fixed container mask v)
                     (zip (ms_bit_containers message) (zip (st_determined_masks s) (st_determined_values s))))
             (RejectMessage INVALID_MATCHER_PLAN message_index)
          (unless (list_ex (\<lambda>field. \<not> ConstantAgrees fixed field) (ms_fields message))
             (RejectMessage INVALID_MATCHER_PLAN message_index) (Inr fixed)))))))"

text \<open>The result carries what the builder keeps over all messages: the conversion slots and the reference counts.\<close>

definition PrepareBinaryMessage ::
    "string \<Rightarrow> ResourceProfileLimits \<Rightarrow> LinearConversionDescriptor list \<Rightarrow> nat \<Rightarrow> MessagePlan \<Rightarrow> nat \<Rightarrow> nat list \<Rightarrow>
     PlanBuildDiagnostic + MessageExecutionPlan \<times> nat \<times> nat list" where
  "PrepareBinaryMessage schema_version limit conversions message_index message frame_size reference_counts =
     followed_by (CheckParts schema_version limit message_index message frame_size)
       (\<lambda>_. followed_by (PrepareFields schema_version conversions message_index message frame_size reference_counts)
         (\<lambda>(containers, s). followed_by (PrepareFixed message_index message frame_size s)
           (\<lambda>fixed. Inr (no_message_execution
              \<lparr>me_frame_size := frame_size, me_required_input_count := st_input_ordinal s,
               me_integrity := ms_integrity message, me_bounded_payload := ms_bounded_payload message,
               me_computed_length := ms_computed_length message,
               me_fixed_bytes := map (\<lambda>(offset, v). \<lparr>fb_offset = offset, fb_value = v\<rparr>) fixed,
               me_bit_containers := containers, me_fields := st_fields s,
               me_enum_raw_values := st_enum_raw_values s, me_enum_lookup_entries := st_enum_lookup_entries s\<rparr>,
              st_conversion_slot s, st_reference_counts s))))"

end
