(* ===== verification/Plan_Pipeline.thy ===== *)
theory Plan_Pipeline
  imports Plan_Message
begin

text \<open>
  The plan builder's checks of pipelines and the descriptors it prepares from them, \<^verbatim>\<open>FreezeImpl\<close> of
  \<^verbatim>\<open>src/src/protocol_plan/plan_builder.cpp\<close>: whether a message can be cut from the stream of the
  pipeline, whether two messages could match the same record, and the lists the record matcher reads.
\<close>

record PipelineState =
  ps_seen :: "nat list"
  ps_ascii_decode_candidates :: nat
  ps_allowed_message_words :: "u64 list"
  ps_candidate_groups :: "(nat \<times> nat list) list"
  ps_variable_message_indices :: "nat list"
  ps_text_message_indices :: "nat list"

text \<open>A message of a stream pipeline has to fit the framing; the outcome is the new count of decodable texts.\<close>

definition AsciiStreamMessage ::
    "FramingPlan \<Rightarrow> MessagePlan \<Rightarrow> MessageExecutionPlan \<Rightarrow> nat \<Rightarrow> nat option" where
  "AsciiStreamMessage framing_plan message plan candidates =
     (case me_text_decode plan of
        None \<Rightarrow> Some candidates
      | Some decode \<Rightarrow>
          if ms_ascii_text message = None \<or> at_decode (the (ms_ascii_text message)) = None \<or>
             tap_max_record_length decode > fp_maximum_frame_length framing_plan \<or>
             \<not> ProveAsciiCrLfBoundary (the (at_decode (the (ms_ascii_text message)))) (ms_fields message)
          then None else Some (candidates + 1))"

definition fixed_value_at :: "FixedByteExecutionPlan list \<Rightarrow> nat \<Rightarrow> u8 option" where
  "fixed_value_at fixed offset = map_option fb_value (List.find (\<lambda>b. fb_offset b = offset) fixed)"

definition BinaryStreamMessage :: "FramingPlan \<Rightarrow> MessagePlan \<Rightarrow> MessageExecutionPlan \<Rightarrow> bool" where
  "BinaryStreamMessage framing_plan message plan \<longleftrightarrow>
     (let minimum = min_length plan; maximum = max_length plan
      in \<not> ((fp_strategy framing_plan = FS_FIXED_LENGTH \<or> fp_strategy framing_plan = FS_SYNC_FIXED_LENGTH) \<and>
            (minimum \<noteq> fp_frame_length_bytes framing_plan \<or> maximum \<noteq> fp_frame_length_bytes framing_plan)) \<and>
         \<not> (fp_strategy framing_plan \<noteq> FS_FIXED_LENGTH \<and>
            list_ex (\<lambda>offset. fixed_value_at (me_fixed_bytes plan) offset \<noteq> Some (fp_sync_bytes framing_plan ! offset))
              [0..<length (fp_sync_bytes framing_plan)]) \<and>
         \<not> (fp_strategy framing_plan = FS_SYNC_LENGTH_FIELD \<and>
            (minimum < fp_minimum_frame_length framing_plan \<or> maximum > fp_maximum_frame_length framing_plan \<or>
             (case ms_computed_length message of
                None \<Rightarrow> True
              | Some c \<Rightarrow>
                  cl_scope c \<noteq> CL_FRAME \<or> cl_storage_offset c \<noteq> fp_length_field_offset framing_plan \<or>
                  cl_storage_width c \<noteq> fp_length_field_width framing_plan \<or>
                  cl_byte_order c \<noteq> fp_length_field_byte_order framing_plan))))"

definition StreamMessage ::
    "FramingPlan \<Rightarrow> MessagePlan \<Rightarrow> MessageExecutionPlan \<Rightarrow> nat \<Rightarrow> nat option" where
  "StreamMessage framing_plan message plan candidates =
     (if fp_input_kind framing_plan \<noteq> IK_STREAM_CHUNK then Some candidates
      else if fp_strategy framing_plan = FS_ASCII_CRLF then AsciiStreamMessage framing_plan message plan candidates
      else if BinaryStreamMessage framing_plan message plan then Some candidates else None)"

text \<open>The turn for one message index.\<close>

definition ambiguous :: "MessageExecutionPlan list \<Rightarrow> nat \<Rightarrow> nat \<Rightarrow> bool" where
  "ambiguous plans message_index earlier_index \<longleftrightarrow>
     earlier_index \<noteq> message_index \<and> me_text_decode (plans ! earlier_index) = None \<and>
     me_text_decode (plans ! message_index) = None \<and>
     FixedMatchersCanIntersect (plans ! earlier_index) (plans ! message_index)"

definition SortCandidate :: "MessageExecutionPlan list \<Rightarrow> nat \<Rightarrow> PipelineState \<Rightarrow> PipelineState" where
  "SortCandidate plans message_index s =
     (let plan = plans ! message_index; word_index = message_index div kBitsPerAllowedMessageWord;
          s = s\<lparr>ps_allowed_message_words := (ps_allowed_message_words s)
                 [word_index := ps_allowed_message_words s ! word_index OR
                                push_bit (message_index mod kBitsPerAllowedMessageWord) 1]\<rparr>
      in if me_text_decode plan \<noteq> None then
           s\<lparr>ps_text_message_indices := ps_text_message_indices s @ [message_index]\<rparr>
         else if me_text_encode plan \<noteq> None then s
         else if me_bounded_payload plan \<noteq> None then
           s\<lparr>ps_variable_message_indices := ps_variable_message_indices s @ [message_index]\<rparr>
         else
           let size = me_frame_size plan;
               group_indices = (case map_of (ps_candidate_groups s) size of None \<Rightarrow> [] | Some g \<Rightarrow> g)
           in s\<lparr>ps_candidate_groups := map_put size (group_indices @ [message_index]) (ps_candidate_groups s)\<rparr>)"

definition PipelineMessage ::
    "MessagePlan list \<Rightarrow> MessageExecutionPlan list \<Rightarrow> FramingPlan \<Rightarrow> nat \<Rightarrow> PipelinePlan \<Rightarrow> nat \<Rightarrow> nat \<Rightarrow> PipelineState \<Rightarrow>
     PlanBuildDiagnostic + PipelineState" where
  "PipelineMessage messages plans framing_plan pipeline_index pipeline position message_index s =
     (let refuse = (\<lambda>code. Inl ((RejectPipeline code pipeline_index)\<lparr>pd_message_index := message_index\<rparr>))
      in if message_index \<ge> length messages \<or> message_index \<in> set (ps_seen s) \<or>
            ms_direction_id (messages ! message_index) \<noteq> pl_direction_id pipeline then refuse INVALID_PIPELINE_PLAN
         else (case StreamMessage framing_plan (messages ! message_index) (plans ! message_index)
                      (ps_ascii_decode_candidates s) of
                 None \<Rightarrow> refuse INVALID_PIPELINE_PLAN
               | Some candidates \<Rightarrow>
                   let seen = message_index # ps_seen s
                   in if list_ex (ambiguous plans message_index) seen then refuse AMBIGUOUS_MATCHER
                      else Inr (SortCandidate plans message_index
                                  (s\<lparr>ps_seen := seen, ps_ascii_decode_candidates := candidates\<rparr>))))"

definition allowed_word_count :: "nat \<Rightarrow> nat" where
  "allowed_word_count message_count =
     message_count div kBitsPerAllowedMessageWord + (if message_count mod kBitsPerAllowedMessageWord = 0 then 0 else 1)"

definition PreparePipeline ::
    "MessagePlan list \<Rightarrow> MessageExecutionPlan list \<Rightarrow> FramingPlan list \<Rightarrow> nat \<Rightarrow> PipelinePlan \<Rightarrow>
     string list \<times> PipelineExecutionPlan list \<Rightarrow> PlanBuildDiagnostic + string list \<times> PipelineExecutionPlan list" where
  "PreparePipeline messages plans framings pipeline_index pipeline done =
     (case done of (ids, prepared) \<Rightarrow>
        unless (\<not> IsStableId (pl_id pipeline) \<or> \<not> IsStableId (pl_direction_id pipeline) \<or> pl_id pipeline \<in> set ids \<or>
                pl_message_indices pipeline = [] \<or> pl_framing_profile_index pipeline \<ge> length framings)
          (RejectPipeline INVALID_PIPELINE_PLAN pipeline_index)
          (let framing_plan = framings ! pl_framing_profile_index pipeline
           in followed_by (each (PipelineMessage messages plans framing_plan pipeline_index pipeline) 0
                             (pl_message_indices pipeline)
                             \<lparr>ps_seen = [], ps_ascii_decode_candidates = 0,
                              ps_allowed_message_words = replicate (allowed_word_count (length messages)) 0,
                              ps_candidate_groups = [], ps_variable_message_indices = [], ps_text_message_indices = []\<rparr>)
                (\<lambda>s. unless (fp_strategy framing_plan = FS_ASCII_CRLF \<and> ps_ascii_decode_candidates s = 0)
                   (RejectPipeline INVALID_PIPELINE_PLAN pipeline_index)
                   (Inr (pl_id pipeline # ids,
                      prepared @ [\<lparr>pe_framing_profile_index = pl_framing_profile_index pipeline,
                        pe_allowed_message_words = ps_allowed_message_words s,
                        pe_candidate_groups = map (\<lambda>(size, indices). \<lparr>cg_frame_size = size, cg_message_indices = indices\<rparr>)
                                                (ps_candidate_groups s),
                        pe_variable_message_indices = ps_variable_message_indices s,
                        pe_text_message_indices = ps_text_message_indices s\<rparr>])))))"

end
