(* ===== verification/Plan_Builder.thy ===== *)
theory Plan_Builder
  imports Plan_Pipeline
begin

text \<open>
  The plan builder, \<^verbatim>\<open>FreezeImpl\<close> of \<^verbatim>\<open>src/src/protocol_plan/plan_builder.cpp\<close>, up to the
  descriptors it prepares: metadata, conversions, resource counts, framing profiles, messages, the layout of
  the session workspace and pipelines.  \<open>PrepareDraft\<close> is the composition; \<open>Plan_Freezing\<close> freezes its result.
\<close>

section \<open>Metadata and conversions\<close>

definition schema_versions :: "string list" where
  "schema_versions = [''0.1'', ''0.2'', ''0.3'', ''0.4'', ''0.5'', ''0.6'', ''0.7'', ''0.8'', ''0.9'', ''0.10'', ''0.11'']"

definition MetadataValid :: "PlanDraftData \<Rightarrow> bool" where
  "MetadataValid draft \<longleftrightarrow>
     \<not> (dd_schema_version draft \<notin> set schema_versions \<or> \<not> IsStableId (dd_protocol_id draft) \<or>
        dd_protocol_version draft = [] \<or> dd_framing_profiles draft = [] \<or> dd_pipelines draft = [] \<or>
        dd_messages draft = [])"

definition DraftConversionValid :: "string \<Rightarrow> LinearConversionDescriptor \<Rightarrow> bool" where
  "DraftConversionValid schema_version c \<longleftrightarrow>
     schema_version \<in> set (drop 4 schema_versions) \<and>
     (raw_value_type c = VT_UINT64 \<or> raw_value_type c = VT_INT64) \<and>
     (case DeriveLinearConversion (raw_value_type c) (scale_numerator c) (scale_denominator c)
             (bias_numerator c) (bias_denominator c) of
        Inl _ \<Rightarrow> False
      | Inr recomputed \<Rightarrow> LinearConversionEqual c recomputed)"

section \<open>Resource counts\<close>

definition no_requirements :: ResourceRequirements where
  "no_requirements = \<lparr>rq_max_frame_bytes = 0, rq_framing_profile_count = 0, rq_pipeline_count = 0, rq_message_count = 0,
     rq_total_field_count = 0, rq_total_matcher_count = 0, rq_total_enum_entry_count = 0,
     rq_total_bit_container_count = 0, rq_total_integrity_rule_count = 0, rq_total_computed_length_count = 0,
     rq_total_conversion_count = 0, rq_max_stream_frame_bytes = 0, rq_max_sync_bytes = 0,
     rq_max_framing_buffer_bytes = 0, rq_total_text_segment_count = 0\<rparr>"

definition segments_of :: "TextActionPlan option \<Rightarrow> nat" where
  "segments_of action = (case action of None \<Rightarrow> 0 | Some a \<Rightarrow> length (tap_segments a))"

definition CountText :: "ResourceProfileLimits \<Rightarrow> MessagePlan \<Rightarrow> ResourceRequirements \<Rightarrow> ResourceRequirements option" where
  "CountText limit message r =
     (case ms_ascii_text message of
        None \<Rightarrow> Some r
      | Some ascii \<Rightarrow>
          let per_action_limit = 2 * max_fields_per_message limit + 1;
              total_limit = 4 * max_total_fields limit + 2 * max_messages limit
          in if segments_of (at_decode ascii) > per_action_limit \<or> segments_of (at_encode ascii) > per_action_limit then None
             else (case Option.bind (AddSizeChecked (segments_of (at_decode ascii)) (rq_total_text_segment_count r))
                          (AddSizeChecked (segments_of (at_encode ascii))) of
                     None \<Rightarrow> None
                   | Some count \<Rightarrow> if count > total_limit then None else Some (r\<lparr>rq_total_text_segment_count := count\<rparr>)))"

definition CountParts :: "ResourceProfileLimits \<Rightarrow> MessagePlan \<Rightarrow> ResourceRequirements \<Rightarrow> ResourceRequirements option" where
  "CountParts limit m r =
     (if ms_frame_length_bytes m > max_frame_bytes limit \<or>
         length (ms_fields m) > max_fields_per_message limit \<or>
         length (ms_bit_containers m) > max_fields_per_message limit \<or>
         length (ms_matchers m) > max_matchers_per_message limit then None
      else (case (AddSizeChecked (length (ms_fields m)) (rq_total_field_count r),
                  AddSizeChecked (length (ms_matchers m)) (rq_total_matcher_count r),
                  AddSizeChecked (length (ms_bit_containers m)) (rq_total_bit_container_count r),
                  AddSizeChecked (if ms_integrity m \<noteq> None then 1 else 0) (rq_total_integrity_rule_count r),
                  AddSizeChecked (if ms_computed_length m \<noteq> None then 1 else 0) (rq_total_computed_length_count r)) of
              (Some field_count, Some matcher_count, Some container_count, Some integrity_count, Some length_count) \<Rightarrow>
                if field_count > max_total_fields limit \<or> container_count > max_total_fields limit \<or>
                   integrity_count > max_messages limit \<or> length_count > max_messages limit \<or>
                   matcher_count > max_total_matchers limit then None
                else Some (r\<lparr>rq_total_field_count := field_count, rq_total_matcher_count := matcher_count,
                            rq_total_bit_container_count := container_count,
                            rq_total_integrity_rule_count := integrity_count,
                            rq_total_computed_length_count := length_count,
                            rq_max_frame_bytes := max (rq_max_frame_bytes r) (ms_frame_length_bytes m)\<rparr>)
            | _ \<Rightarrow> None))"

definition CountEnumEntries ::
    "ResourceProfileLimits \<Rightarrow> nat \<Rightarrow> nat \<Rightarrow> FieldPlan \<Rightarrow> ResourceRequirements \<Rightarrow> PlanBuildDiagnostic + ResourceRequirements" where
  "CountEnumEntries limit message_index field_index field r =
     (let entry_count = length (fl_enum_entries field);
          refuse = Inl (RejectField RESOURCE_LIMIT_EXCEEDED message_index field_index)
      in if entry_count > max_enum_entries_per_field limit then refuse
         else (case AddSizeChecked entry_count (rq_total_enum_entry_count r) of
                 None \<Rightarrow> refuse
               | Some count \<Rightarrow>
                   if count > max_total_enum_entries limit then refuse
                   else Inr (r\<lparr>rq_total_enum_entry_count := count\<rparr>)))"

definition CountMessage ::
    "ResourceProfileLimits \<Rightarrow> nat \<Rightarrow> MessagePlan \<Rightarrow> ResourceRequirements \<Rightarrow> PlanBuildDiagnostic + ResourceRequirements" where
  "CountMessage limit message_index message r =
     (case Option.bind (CountText limit message r) (CountParts limit message) of
        None \<Rightarrow> Inl (RejectMessage RESOURCE_LIMIT_EXCEEDED message_index)
      | Some r \<Rightarrow> each (CountEnumEntries limit message_index) 0 (ms_fields message) r)"

section \<open>Framing profiles\<close>

text \<open>The check of the prefix table always returns, so \<open>None\<close> does not occur.\<close>

definition PrepareFraming ::
    "string \<Rightarrow> ResourceProfileLimits \<Rightarrow> nat \<Rightarrow> FramingPlan \<Rightarrow> string list \<times> ResourceRequirements \<Rightarrow>
     PlanBuildDiagnostic + string list \<times> ResourceRequirements" where
  "PrepareFraming schema_version limit framing_index f done =
     (case done of (ids, r) \<Rightarrow>
        let refuse = (\<lambda>code. Inl ((Reject code)\<lparr>pd_framing_index := framing_index\<rparr>))
        in if \<not> IsStableId (fp_id f) \<or> fp_id f \<in> set ids then refuse INVALID_FRAMING_PLAN
           else (case AdmitFraming schema_version limit f of
                   None \<Rightarrow> refuse PBE_INTERNAL_ERROR
                 | Some (Inl code) \<Rightarrow> refuse code
                 | Some (Inr None) \<Rightarrow> Inr (fp_id f # ids, r)
                 | Some (Inr (Some max_frame)) \<Rightarrow>
                     let largest = max (rq_max_stream_frame_bytes r) max_frame
                     in Inr (fp_id f # ids,
                          r\<lparr>rq_max_stream_frame_bytes := largest,
                            rq_max_sync_bytes := max (rq_max_sync_bytes r) (length (fp_sync_bytes f)),
                            rq_max_framing_buffer_bytes := largest\<rparr>)))"

definition RequirementsEqual :: "ResourceRequirements \<Rightarrow> ResourceRequirements \<Rightarrow> bool" where
  "RequirementsEqual left right \<longleftrightarrow>
     rq_max_frame_bytes left = rq_max_frame_bytes right \<and>
     rq_framing_profile_count left = rq_framing_profile_count right \<and>
     rq_pipeline_count left = rq_pipeline_count right \<and> rq_message_count left = rq_message_count right \<and>
     rq_total_field_count left = rq_total_field_count right \<and>
     rq_total_matcher_count left = rq_total_matcher_count right \<and>
     rq_total_enum_entry_count left = rq_total_enum_entry_count right \<and>
     rq_total_bit_container_count left = rq_total_bit_container_count right \<and>
     rq_total_integrity_rule_count left = rq_total_integrity_rule_count right \<and>
     rq_total_computed_length_count left = rq_total_computed_length_count right \<and>
     rq_total_conversion_count left = rq_total_conversion_count right \<and>
     rq_max_stream_frame_bytes left = rq_max_stream_frame_bytes right \<and>
     rq_max_sync_bytes left = rq_max_sync_bytes right \<and>
     rq_max_framing_buffer_bytes left = rq_max_framing_buffer_bytes right \<and>
     rq_total_text_segment_count left = rq_total_text_segment_count right"

lemma RequirementsEqual_iff: "RequirementsEqual left right \<longleftrightarrow> left = (right :: ResourceRequirements)"
  by (auto simp: RequirementsEqual_def intro: ResourceRequirements.equality)

section \<open>Messages\<close>

record MessagesState =
  mg_ids :: "string list"
  mg_reference_counts :: "nat list"
  mg_plans :: "MessageExecutionPlan list"
  mg_max_fields :: nat
  mg_max_inputs :: nat
  mg_conversion_slots :: nat

definition PrepareMessage ::
    "string \<Rightarrow> ResourceProfileLimits \<Rightarrow> LinearConversionDescriptor list \<Rightarrow> nat \<Rightarrow> MessagePlan \<Rightarrow> MessagesState \<Rightarrow>
     PlanBuildDiagnostic + MessagesState" where
  "PrepareMessage schema_version limit conversions message_index message s =
     (let frame_size = ms_frame_length_bytes message; text_message = (ms_ascii_text message \<noteq> None)
      in unless (\<not> IsStableId (ms_id message) \<or> \<not> IsStableId (ms_direction_id message) \<or> ms_id message \<in> set (mg_ids s) \<or>
                 ToSize (ms_frame_length_bytes message) = None \<or> frame_size = 0 \<or>
                 (\<not> text_message \<and> (ms_matchers message = [] \<or> ms_fields message = [])))
           (RejectMessage INVALID_MESSAGE_PLAN message_index)
           (followed_by
             (case ms_ascii_text message of
                Some ascii \<Rightarrow>
                  followed_by (PrepareTextMessage schema_version message_index message ascii frame_size)
                    (\<lambda>plan. Inr (plan, 0, mg_reference_counts s))
              | None \<Rightarrow> PrepareBinaryMessage schema_version limit conversions message_index message frame_size
                          (mg_reference_counts s))
             (\<lambda>(plan, slots, reference_counts).
                Inr (s\<lparr>mg_ids := ms_id message # mg_ids s, mg_reference_counts := reference_counts,
                       mg_plans := mg_plans s @ [plan],
                       mg_max_fields := max (mg_max_fields s) (length (ms_fields message)),
                       mg_max_inputs := max (mg_max_inputs s) (me_required_input_count plan),
                       mg_conversion_slots := max (mg_conversion_slots s) slots\<rparr>))))"

section \<open>The layout of the session workspace\<close>

text \<open>The bytes of a conversion slot: \<open>value_type_bytes\<close> is the size of the enumeration \<^verbatim>\<open>ValueType\<close>.\<close>

definition kConversionWorkspaceBytesPerSlot :: "nat \<Rightarrow> nat" where
  "kConversionWorkspaceBytesPerSlot value_type_bytes = 8 + 4 + 8 + value_type_bytes + 8 + 8"

definition PrepareLayout :: "nat \<Rightarrow> ResourceProfileLimits \<Rightarrow> MessagePlan list \<Rightarrow> MessagesState \<Rightarrow> ExecutionResourceLayout option" where
  "PrepareLayout value_type_bytes limit messages s =
     (let inputs = mg_max_inputs s;
          words = inputs div kBitsPerAllowedMessageWord + (if inputs mod kBitsPerAllowedMessageWord = 0 then 0 else 1);
          containers = fold (\<lambda>m. max (length (ms_bit_containers m))) messages 0
      in case (MultiplySizeChecked inputs 8, MultiplySizeChecked words 8, MultiplySizeChecked containers 8,
               MultiplySizeChecked (mg_conversion_slots s) (kConversionWorkspaceBytesPerSlot value_type_bytes)) of
           (Some value_index_bytes, Some presence_word_bytes, Some bit_container_bytes, Some conversion_bytes) \<Rightarrow>
             (case Option.bind (AddSizeChecked presence_word_bytes value_index_bytes)
                     (\<lambda>n. Option.bind (AddSizeChecked bit_container_bytes n) (AddSizeChecked conversion_bytes)) of
                None \<Rightarrow> None
              | Some workspace_bytes \<Rightarrow>
                  if workspace_bytes > max_session_memory_bytes limit then None
                  else Some \<lparr>rl_max_fields_per_message = mg_max_fields s, rl_max_input_fields_per_message = inputs,
                             rl_encode_value_index_count = inputs, rl_encode_presence_word_count = words,
                             rl_bit_container_value_count = containers,
                             rl_conversion_value_count = mg_conversion_slots s,
                             rl_estimated_workspace_bytes = workspace_bytes\<rparr>)
         | _ \<Rightarrow> None)"

section \<open>The whole draft\<close>

record PreparedPlan =
  pr_requirements :: ResourceRequirements
  pr_layout :: ExecutionResourceLayout
  pr_messages :: "MessageExecutionPlan list"
  pr_pipelines :: "PipelineExecutionPlan list"

definition start_requirements :: "PlanDraftData \<Rightarrow> ResourceRequirements" where
  "start_requirements draft = no_requirements
     \<lparr>rq_framing_profile_count := length (dd_framing_profiles draft), rq_pipeline_count := length (dd_pipelines draft),
      rq_message_count := length (dd_messages draft), rq_total_conversion_count := length (dd_conversions draft)\<rparr>"

text \<open>The material is counted and compared with the requirements handed over with the draft.\<close>

definition CheckResources :: "PlanDraftData \<Rightarrow> PlanBuildDiagnostic + ResourceRequirements" where
  "CheckResources draft =
     (let limit = GetResourceProfileLimits (dd_resource_profile draft)
      in unless (\<not> MetadataValid draft) (Reject INVALID_METADATA)
        (unless (length (dd_conversions draft) > max_total_fields limit) (Reject RESOURCE_LIMIT_EXCEEDED)
        (unless (\<not> list_all (DraftConversionValid (dd_schema_version draft)) (dd_conversions draft))
           (Reject INVALID_FIELD_PLAN)
        (unless (length (dd_framing_profiles draft) > max_framing_profiles limit \<or>
                 length (dd_pipelines draft) > max_pipelines limit \<or> length (dd_messages draft) > max_messages limit)
           (Reject RESOURCE_LIMIT_EXCEEDED)
        (followed_by (each (CountMessage limit) 0 (dd_messages draft) (start_requirements draft))
          (\<lambda>r. followed_by (each (PrepareFraming (dd_schema_version draft) limit) 0 (dd_framing_profiles draft) ([], r))
            (\<lambda>(ids, r). unless (\<not> RequirementsEqual (dd_resource_requirements draft) r)
               (Reject RESOURCE_REQUIREMENTS_MISMATCH) (Inr r))))))))"

definition PrepareMessages :: "PlanDraftData \<Rightarrow> PlanBuildDiagnostic + MessagesState" where
  "PrepareMessages draft =
     followed_by (each (PrepareMessage (dd_schema_version draft) (GetResourceProfileLimits (dd_resource_profile draft))
                          (dd_conversions draft)) 0 (dd_messages draft)
                    \<lparr>mg_ids = [], mg_reference_counts = replicate (length (dd_conversions draft)) 0, mg_plans = [],
                     mg_max_fields = 0, mg_max_inputs = 0, mg_conversion_slots = 0\<rparr>)
       (\<lambda>s. unless (list_ex (\<lambda>count. count \<noteq> 1) (mg_reference_counts s)) (Reject INVALID_FIELD_PLAN) (Inr s))"

definition PrepareDraft :: "nat \<Rightarrow> PlanDraftData \<Rightarrow> PlanBuildDiagnostic + PreparedPlan" where
  "PrepareDraft value_type_bytes draft =
     followed_by (CheckResources draft) (\<lambda>requirements.
     followed_by (PrepareMessages draft) (\<lambda>s.
       case PrepareLayout value_type_bytes (GetResourceProfileLimits (dd_resource_profile draft)) (dd_messages draft) s of
         None \<Rightarrow> Inl (Reject RESOURCE_LIMIT_EXCEEDED)
       | Some layout \<Rightarrow>
           followed_by (each (PreparePipeline (dd_messages draft) (mg_plans s) (dd_framing_profiles draft)) 0
                          (dd_pipelines draft) ([], []))
             (\<lambda>(ids, pipelines). Inr \<lparr>pr_requirements = requirements, pr_layout = layout, pr_messages = mg_plans s,
                                      pr_pipelines = pipelines\<rparr>)))"

end
