(* ===== verification/Plan_Freezing.thy ===== *)
theory Plan_Freezing
  imports Plan_Builder
begin

text \<open>
  The second half of the plan builder of \<^verbatim>\<open>src/src/protocol_plan/plan_builder.cpp\<close>: the memory a
  prepared plan will take, \<open>EstimatePreparedPlanMemory\<close>, and its freezing into one storage block piece by
  piece, with \<open>FreezeImpl\<close> and \<open>Freeze\<close> as their composition.  A frozen array is the list of the
  elements copied into it, so freezing returns what it was given and the arena that paid for it.
\<close>

section \<open>The estimate\<close>

type_synonym layout_step = "PlanMemoryLayout \<Rightarrow> PlanMemoryLayout option"

fun steps :: "('s \<Rightarrow> 's option) list \<Rightarrow> 's \<Rightarrow> 's option" where
  "steps [] s = Some s"
| "steps (f # fs) s = Option.bind (f s) (steps fs)"

definition AddStringLayout :: "Abi \<Rightarrow> string \<Rightarrow> layout_step" where
  "AddStringLayout abi v l =
     (if v = [] then Some l else AddArray (abi_max_align abi) byte_layout (length v) PC_STRING l)"

definition add_array :: "Abi \<Rightarrow> TypeLayout \<Rightarrow> 'x list \<Rightarrow> PlanMemoryCategory \<Rightarrow> layout_step" where
  "add_array abi ty xs category = AddArray (abi_max_align abi) ty (length xs) category"

definition EstimateFraming :: "Abi \<Rightarrow> FramingPlan \<Rightarrow> layout_step" where
  "EstimateFraming abi f = steps
     [AddStringLayout abi (fp_id f),
      add_array abi byte_layout (fp_sync_bytes f) PC_EXTENSION,
      add_array abi (abi_size_t abi) (fp_sync_bytes f) PC_EXTENSION]"

definition EstimatePipeline :: "Abi \<Rightarrow> PipelinePlan \<Rightarrow> layout_step" where
  "EstimatePipeline abi p = steps
     [AddStringLayout abi (pl_id p), AddStringLayout abi (pl_direction_id p),
      add_array abi (abi_size_t abi) (pl_message_indices p) PC_METADATA_CONTAINER]"

definition EstimateField :: "Abi \<Rightarrow> FieldPlan \<Rightarrow> layout_step" where
  "EstimateField abi f = steps
     ([AddStringLayout abi (fl_id f),
       add_array abi (abi_FrozenEnumEntryPlan abi) (fl_enum_entries f) PC_METADATA_CONTAINER] @
      map (\<lambda>e. AddStringLayout abi (ee_id e)) (fl_enum_entries f))"

definition EstimateMessage :: "Abi \<Rightarrow> MessagePlan \<Rightarrow> layout_step" where
  "EstimateMessage abi m = steps
     ([AddStringLayout abi (ms_id m), AddStringLayout abi (ms_direction_id m),
       add_array abi (abi_FrozenMatcherPlan abi) (ms_matchers m) PC_METADATA_CONTAINER] @
      map (\<lambda>x. add_array abi byte_layout (mp_bytes x) PC_MATCHER) (ms_matchers m) @
      [add_array abi (abi_FrozenBitContainerPlan abi) (ms_bit_containers m) PC_METADATA_CONTAINER] @
      map (\<lambda>c. AddStringLayout abi (bc_id c)) (ms_bit_containers m) @
      [add_array abi (abi_FrozenFieldPlan abi) (ms_fields m) PC_METADATA_CONTAINER] @
      map (EstimateField abi) (ms_fields m))"

definition EstimateTextAction :: "Abi \<Rightarrow> TextActionPlan option \<Rightarrow> layout_step" where
  "EstimateTextAction abi action =
     (case action of
        None \<Rightarrow> Some
      | Some a \<Rightarrow> steps
          (add_array abi (abi_TextSegmentExecutionPlan abi) (tap_segments a) PC_EXECUTION_DESCRIPTOR #
           concat (map (\<lambda>s. [add_array abi byte_layout (tsp_literal s) PC_MATCHER,
                             add_array abi (abi_size_t abi) (tsp_prefix_table s) PC_MATCHER]) (tap_segments a))))"

definition EstimateMessageExecution :: "Abi \<Rightarrow> MessageExecutionPlan \<Rightarrow> layout_step" where
  "EstimateMessageExecution abi m = steps
     [add_array abi (abi_FixedByteExecutionPlan abi) (me_fixed_bytes m) PC_MATCHER,
      add_array abi (abi_BitContainerExecutionPlan abi) (me_bit_containers m) PC_EXECUTION_DESCRIPTOR,
      add_array abi (abi_FieldExecutionPlan abi) (me_fields m) PC_EXECUTION_DESCRIPTOR,
      add_array abi (abi_uint64 abi) (me_enum_raw_values m) PC_INDEX,
      add_array abi (abi_EnumLookupExecutionPlan abi) (me_enum_lookup_entries m) PC_INDEX,
      EstimateTextAction abi (me_text_decode m), EstimateTextAction abi (me_text_encode m)]"

definition EstimatePipelineExecution :: "Abi \<Rightarrow> PipelineExecutionPlan \<Rightarrow> layout_step" where
  "EstimatePipelineExecution abi p = steps
     ([add_array abi (abi_uint64 abi) (pe_allowed_message_words p) PC_INDEX,
       add_array abi (abi_CandidateGroupExecutionPlan abi) (pe_candidate_groups p) PC_EXECUTION_DESCRIPTOR,
       add_array abi (abi_size_t abi) (pe_variable_message_indices p) PC_INDEX,
       add_array abi (abi_size_t abi) (pe_text_message_indices p) PC_INDEX] @
      map (\<lambda>g. add_array abi (abi_size_t abi) (cg_message_indices g) PC_INDEX) (pe_candidate_groups p))"

definition EstimatePreparedPlanMemory ::
    "Abi \<Rightarrow> PlanDraftData \<Rightarrow> MessageExecutionPlan list \<Rightarrow> PipelineExecutionPlan list \<Rightarrow> nat \<Rightarrow> PlanMemoryReport option" where
  "EstimatePreparedPlanMemory abi draft messages pipelines limit_bytes =
     map_option ml_report (steps
       ([AddArray (abi_max_align abi) (abi_PlanBundle abi) 1 PC_OBJECT,
         AddStringLayout abi (dd_schema_version draft), AddStringLayout abi (dd_protocol_id draft),
         AddStringLayout abi (dd_protocol_version draft),
         add_array abi (abi_FrozenFramingPlan abi) (dd_framing_profiles draft) PC_METADATA_CONTAINER] @
        map (EstimateFraming abi) (dd_framing_profiles draft) @
        [add_array abi (abi_FrozenPipelinePlan abi) (dd_pipelines draft) PC_METADATA_CONTAINER] @
        map (EstimatePipeline abi) (dd_pipelines draft) @
        [add_array abi (abi_FrozenMessagePlan abi) (dd_messages draft) PC_METADATA_CONTAINER] @
        map (EstimateMessage abi) (dd_messages draft) @
        [add_array abi (abi_LinearConversionDescriptor abi) (dd_conversions draft) PC_EXTENSION,
         add_array abi (abi_MessageExecutionPlan abi) messages PC_EXECUTION_DESCRIPTOR] @
        map (EstimateMessageExecution abi) messages @
        [add_array abi (abi_PipelineExecutionPlan abi) pipelines PC_EXECUTION_DESCRIPTOR] @
        map (EstimatePipelineExecution abi) pipelines) (new_layout limit_bytes))"

section \<open>Freezing\<close>

type_synonym 'a freezing = "PlanArena \<Rightarrow> (PlanArena \<times> 'a) option"

definition and_then :: "'a freezing \<Rightarrow> ('a \<Rightarrow> 'b freezing) \<Rightarrow> 'b freezing" where
  "and_then f g a = (case f a of None \<Rightarrow> None | Some (a, x) \<Rightarrow> g x a)"

definition finished :: "'a \<Rightarrow> 'a freezing" where
  "finished x a = Some (a, x)"

definition FreezeString :: "Abi \<Rightarrow> string \<Rightarrow> string freezing" where
  "FreezeString abi source =
     (if source = [] then finished []
      else and_then (AllocateArray (abi_max_align abi) byte_layout (length source) PC_STRING) (\<lambda>_. finished source))"

fun construct :: "('x \<Rightarrow> 'y freezing) \<Rightarrow> 'x list \<Rightarrow> 'y list freezing" where
  "construct factory [] = finished []"
| "construct factory (x # xs) =
     and_then (factory x) (\<lambda>y. and_then (construct factory xs) (\<lambda>ys. finished (y # ys)))"

definition FreezeObjectArray ::
    "Abi \<Rightarrow> TypeLayout \<Rightarrow> PlanMemoryCategory \<Rightarrow> ('x \<Rightarrow> 'y freezing) \<Rightarrow> 'x list \<Rightarrow> 'y list freezing" where
  "FreezeObjectArray abi ty category factory xs =
     (if xs = [] then finished []
      else and_then (AllocateArray (abi_max_align abi) ty (length xs) category) (\<lambda>_. construct factory xs))"

definition FreezePodArray :: "Abi \<Rightarrow> TypeLayout \<Rightarrow> PlanMemoryCategory \<Rightarrow> 'x list \<Rightarrow> 'x list freezing" where
  "FreezePodArray abi ty category source = FreezeObjectArray abi ty category finished source"

definition FreezeTextSegment :: "Abi \<Rightarrow> TextSegmentPlan \<Rightarrow> TextSegmentPlan freezing" where
  "FreezeTextSegment abi input =
     and_then (FreezePodArray abi byte_layout PC_MATCHER (tsp_literal input)) (\<lambda>literal.
     and_then (FreezePodArray abi (abi_size_t abi) PC_MATCHER (tsp_prefix_table input)) (\<lambda>prefix_table.
       finished \<lparr>tsp_kind = tsp_kind input, tsp_literal = literal, tsp_prefix_table = prefix_table,
                 tsp_field_index = tsp_field_index input\<rparr>))"

definition FreezeTextAction :: "Abi \<Rightarrow> TextActionPlan option \<Rightarrow> TextActionPlan option freezing" where
  "FreezeTextAction abi source =
     (case source of
        None \<Rightarrow> finished None
      | Some action \<Rightarrow>
          (case (ToSize (tap_min_record_length action), ToSize (tap_max_record_length action)) of
             (Some minimum, Some maximum) \<Rightarrow>
               and_then (FreezeObjectArray abi (abi_TextSegmentExecutionPlan abi) PC_EXECUTION_DESCRIPTOR
                           (FreezeTextSegment abi) (tap_segments action)) (\<lambda>segments.
                 finished (Some \<lparr>tap_segments = segments, tap_min_record_length = minimum,
                                 tap_max_record_length = maximum\<rparr>))
           | _ \<Rightarrow> (\<lambda>a. None)))"

definition FreezeFraming :: "Abi \<Rightarrow> FramingPlan \<Rightarrow> FramingPlan freezing" where
  "FreezeFraming abi source =
     and_then (FreezeString abi (fp_id source)) (\<lambda>id_string.
     and_then (FreezePodArray abi byte_layout PC_EXTENSION (fp_sync_bytes source)) (\<lambda>sync_bytes.
     and_then (FreezePodArray abi (abi_size_t abi) PC_EXTENSION (fp_sync_prefix_table source)) (\<lambda>sync_prefix_table.
       finished (source\<lparr>fp_id := id_string, fp_sync_bytes := sync_bytes,
                        fp_sync_prefix_table := sync_prefix_table\<rparr>))))"

definition FreezePipeline :: "Abi \<Rightarrow> PipelinePlan \<Rightarrow> PipelinePlan freezing" where
  "FreezePipeline abi source =
     and_then (FreezeString abi (pl_id source)) (\<lambda>id_string.
     and_then (FreezeString abi (pl_direction_id source)) (\<lambda>direction_id.
     and_then (FreezePodArray abi (abi_size_t abi) PC_METADATA_CONTAINER (pl_message_indices source)) (\<lambda>indices.
       finished (source\<lparr>pl_id := id_string, pl_direction_id := direction_id, pl_message_indices := indices\<rparr>))))"

definition FreezeMatcher :: "Abi \<Rightarrow> MatcherPlan \<Rightarrow> MatcherPlan freezing" where
  "FreezeMatcher abi source =
     and_then (FreezePodArray abi byte_layout PC_MATCHER (mp_bytes source)) (\<lambda>bytes.
       finished (source\<lparr>mp_bytes := bytes\<rparr>))"

definition FreezeContainer :: "Abi \<Rightarrow> BitContainerPlan \<Rightarrow> BitContainerPlan freezing" where
  "FreezeContainer abi source =
     and_then (FreezeString abi (bc_id source)) (\<lambda>id_string. finished (source\<lparr>bc_id := id_string\<rparr>))"

definition FreezeEntry :: "Abi \<Rightarrow> EnumEntryPlan \<Rightarrow> EnumEntryPlan freezing" where
  "FreezeEntry abi source =
     and_then (FreezeString abi (ee_id source)) (\<lambda>id_string. finished (source\<lparr>ee_id := id_string\<rparr>))"

definition FreezeField :: "Abi \<Rightarrow> FieldPlan \<Rightarrow> FieldPlan freezing" where
  "FreezeField abi source =
     and_then (FreezeString abi (fl_id source)) (\<lambda>id_string.
     and_then (FreezeObjectArray abi (abi_FrozenEnumEntryPlan abi) PC_METADATA_CONTAINER (FreezeEntry abi)
                 (fl_enum_entries source)) (\<lambda>entries.
       finished (source\<lparr>fl_id := id_string, fl_enum_entries := entries\<rparr>)))"

definition FreezeMessage :: "Abi \<Rightarrow> MessagePlan \<Rightarrow> MessagePlan freezing" where
  "FreezeMessage abi source =
     and_then (FreezeString abi (ms_id source)) (\<lambda>id_string.
     and_then (FreezeString abi (ms_direction_id source)) (\<lambda>direction_id.
     and_then (FreezeObjectArray abi (abi_FrozenMatcherPlan abi) PC_METADATA_CONTAINER (FreezeMatcher abi)
                 (ms_matchers source)) (\<lambda>matchers.
     and_then (FreezeObjectArray abi (abi_FrozenBitContainerPlan abi) PC_METADATA_CONTAINER (FreezeContainer abi)
                 (ms_bit_containers source)) (\<lambda>containers.
     and_then (FreezeObjectArray abi (abi_FrozenFieldPlan abi) PC_METADATA_CONTAINER (FreezeField abi)
                 (ms_fields source)) (\<lambda>frozen_fields.
       finished (source\<lparr>ms_id := id_string, ms_direction_id := direction_id, ms_matchers := matchers,
                        ms_bit_containers := containers, ms_fields := frozen_fields\<rparr>))))))"

definition FreezeMessageExecution :: "Abi \<Rightarrow> MessageExecutionPlan \<Rightarrow> MessageExecutionPlan freezing" where
  "FreezeMessageExecution abi source =
     and_then (FreezePodArray abi (abi_FixedByteExecutionPlan abi) PC_MATCHER (me_fixed_bytes source)) (\<lambda>fixed.
     and_then (FreezePodArray abi (abi_BitContainerExecutionPlan abi) PC_EXECUTION_DESCRIPTOR
                 (me_bit_containers source)) (\<lambda>containers.
     and_then (FreezePodArray abi (abi_FieldExecutionPlan abi) PC_EXECUTION_DESCRIPTOR (me_fields source)) (\<lambda>frozen_fields.
     and_then (FreezePodArray abi (abi_uint64 abi) PC_INDEX (me_enum_raw_values source)) (\<lambda>raw_values.
     and_then (FreezePodArray abi (abi_EnumLookupExecutionPlan abi) PC_INDEX (me_enum_lookup_entries source)) (\<lambda>lookup.
     and_then (FreezeTextAction abi (me_text_decode source)) (\<lambda>text_decode.
     and_then (FreezeTextAction abi (me_text_encode source)) (\<lambda>text_encode.
       finished (source\<lparr>me_fixed_bytes := fixed, me_bit_containers := containers, me_fields := frozen_fields,
                        me_enum_raw_values := raw_values, me_enum_lookup_entries := lookup,
                        me_text_decode := text_decode, me_text_encode := text_encode\<rparr>))))))))"

definition FreezeGroup :: "Abi \<Rightarrow> CandidateGroupExecutionPlan \<Rightarrow> CandidateGroupExecutionPlan freezing" where
  "FreezeGroup abi source =
     and_then (FreezePodArray abi (abi_size_t abi) PC_INDEX (cg_message_indices source)) (\<lambda>indices.
       finished (source\<lparr>cg_message_indices := indices\<rparr>))"

definition FreezePipelineExecution :: "Abi \<Rightarrow> PipelineExecutionPlan \<Rightarrow> PipelineExecutionPlan freezing" where
  "FreezePipelineExecution abi source =
     and_then (FreezePodArray abi (abi_uint64 abi) PC_INDEX (pe_allowed_message_words source)) (\<lambda>words.
     and_then (FreezePodArray abi (abi_size_t abi) PC_INDEX (pe_variable_message_indices source)) (\<lambda>variable.
     and_then (FreezePodArray abi (abi_size_t abi) PC_INDEX (pe_text_message_indices source)) (\<lambda>texts.
     and_then (FreezeObjectArray abi (abi_CandidateGroupExecutionPlan abi) PC_EXECUTION_DESCRIPTOR (FreezeGroup abi)
                 (pe_candidate_groups source)) (\<lambda>groups.
       finished (source\<lparr>pe_allowed_message_words := words, pe_variable_message_indices := variable,
                        pe_text_message_indices := texts, pe_candidate_groups := groups\<rparr>)))))"

text \<open>The contents of the plan in the order the builder takes their pieces; the plan itself lies in front.\<close>

definition FreezeContents :: "Abi \<Rightarrow> nat \<Rightarrow> PlanDraftData \<Rightarrow> PreparedPlan \<Rightarrow> PlanBundle freezing" where
  "FreezeContents abi plan_address draft prepared =
     and_then (FreezeString abi (dd_schema_version draft)) (\<lambda>schema_version.
     and_then (FreezeString abi (dd_protocol_id draft)) (\<lambda>protocol_id.
     and_then (FreezeString abi (dd_protocol_version draft)) (\<lambda>protocol_version.
     and_then (FreezeObjectArray abi (abi_FrozenFramingPlan abi) PC_METADATA_CONTAINER (FreezeFraming abi)
                 (dd_framing_profiles draft)) (\<lambda>framings.
     and_then (FreezeObjectArray abi (abi_FrozenPipelinePlan abi) PC_METADATA_CONTAINER (FreezePipeline abi)
                 (dd_pipelines draft)) (\<lambda>pipelines.
     and_then (FreezeObjectArray abi (abi_FrozenMessagePlan abi) PC_METADATA_CONTAINER (FreezeMessage abi)
                 (dd_messages draft)) (\<lambda>messages.
     and_then (FreezePodArray abi (abi_LinearConversionDescriptor abi) PC_EXTENSION (dd_conversions draft)) (\<lambda>conversions.
     and_then (FreezeObjectArray abi (abi_MessageExecutionPlan abi) PC_EXECUTION_DESCRIPTOR (FreezeMessageExecution abi)
                 (pr_messages prepared)) (\<lambda>message_execution.
     and_then (FreezeObjectArray abi (abi_PipelineExecutionPlan abi) PC_EXECUTION_DESCRIPTOR (FreezePipelineExecution abi)
                 (pr_pipelines prepared)) (\<lambda>pipeline_execution.
       finished \<lparr>pb_address = plan_address, pb_schema_version = schema_version, pb_protocol_id = protocol_id,
                 pb_protocol_version = protocol_version, pb_resource_profile = dd_resource_profile draft,
                 pb_resource_requirements = pr_requirements prepared, pb_framing_profiles = framings,
                 pb_pipelines = pipelines, pb_messages = messages, pb_conversions = conversions,
                 pb_layout = pr_layout prepared, pb_message_execution_plans = message_execution,
                 pb_pipeline_execution_plans = pipeline_execution\<rparr>)))))))))"

text \<open>\<open>address\<close> is where the storage block lies.\<close>

definition FreezePlan :: "Abi \<Rightarrow> nat \<Rightarrow> PlanDraftData \<Rightarrow> PreparedPlan \<Rightarrow> PlanBundle freezing" where
  "FreezePlan abi address draft prepared =
     and_then (AllocateArray (abi_max_align abi) (abi_PlanBundle abi) 1 PC_OBJECT)
       (\<lambda>offset. FreezeContents abi (address + offset) draft prepared)"

section \<open>The builder\<close>

text \<open>What the platform decides: the layout of types, the size of \<^verbatim>\<open>ValueType\<close>, whether the block can be had and
  where it lies.\<close>

record BuildPlatform =
  bp_abi :: Abi
  bp_value_type_bytes :: nat
  bp_memory_available :: bool
  bp_address :: nat

definition effective_plan_memory_limit :: "PlanDraftData \<Rightarrow> nat" where
  "effective_plan_memory_limit draft =
     (if dd_plan_memory_limit_bytes draft = 0
      then min (max_plan_memory_bytes (GetResourceProfileLimits (dd_resource_profile draft))) kV01MaxPlanMemoryHardLimit
      else min (dd_plan_memory_limit_bytes draft) kV01MaxPlanMemoryHardLimit)"

definition FreezePrepared :: "BuildPlatform \<Rightarrow> PlanDraftData \<Rightarrow> PreparedPlan \<Rightarrow> PlanBuildDiagnostic + PlanBundle \<times> PlanMemoryReport" where
  "FreezePrepared platform draft prepared =
     (let limit = effective_plan_memory_limit draft; profile = dd_resource_profile draft
      in case EstimatePreparedPlanMemory (bp_abi platform) draft (pr_messages prepared) (pr_pipelines prepared) SIZE_MAX of
           None \<Rightarrow> Inl (RejectMemory PLAN_MEMORY_LIMIT_EXCEEDED SIZE_MAX limit profile)
         | Some exact_estimate \<Rightarrow>
             unless (mr_accounted_total_bytes exact_estimate > limit)
               (RejectMemory PLAN_MEMORY_LIMIT_EXCEEDED (mr_accounted_total_bytes exact_estimate) limit profile)
             (unless (\<not> PlanMemoryReportsEqual (dd_approved_plan_memory draft) exact_estimate)
               (RejectMemory PLAN_MEMORY_ESTIMATE_MISMATCH (mr_accounted_total_bytes exact_estimate)
                  (mr_accounted_total_bytes (dd_approved_plan_memory draft)) profile)
             (if \<not> AllocateStorage (bp_memory_available platform) (mr_accounted_total_bytes exact_estimate)
                     (dd_test_fail_at_allocation draft = 1) then Inl (Reject ALLOCATION_FAILED)
              else (case FreezePlan (bp_abi platform) (bp_address platform) draft prepared
                           (new_arena True (mr_accounted_total_bytes exact_estimate) (dd_test_fail_at_allocation draft)) of
                      None \<Rightarrow> Inl (Reject ALLOCATION_FAILED)
                    | Some (arena, plan) \<Rightarrow>
                        let final_report = ml_report (pa_layout arena)
                        in unless (\<not> PlanMemoryReportsEqual exact_estimate final_report \<or>
                                   mr_accounted_total_bytes final_report \<noteq> mr_accounted_total_bytes exact_estimate)
                             (RejectMemory PLAN_MEMORY_ESTIMATE_MISMATCH (mr_accounted_total_bytes final_report)
                                (mr_accounted_total_bytes exact_estimate) profile)
                             (Inr (plan, final_report))))))"

definition FreezeImpl :: "BuildPlatform \<Rightarrow> PlanDraftData \<Rightarrow> PlanBuildDiagnostic + PlanBundle \<times> PlanMemoryReport" where
  "FreezeImpl platform draft =
     followed_by (PrepareDraft (bp_value_type_bytes platform) draft) (FreezePrepared platform draft)"

text \<open>An empty draft is refused.  The exceptions the builder maps to diagnostics are those of the heap, which is not
  modelled apart from the storage block.\<close>

definition Freeze :: "BuildPlatform \<Rightarrow> PlanDraftData option \<Rightarrow> PlanBuildDiagnostic + PlanBundle \<times> PlanMemoryReport" where
  "Freeze platform draft = (case draft of None \<Rightarrow> Inl (Reject PBE_INTERNAL_ERROR) | Some d \<Rightarrow> FreezeImpl platform d)"

end
