(* ===== verification/Compiler_IR.thy ===== *)
theory Compiler_IR
  imports Plan_Freezing
begin

text \<open>
  The configuration compiler's own representation of a configuration and its diagnostics:
  \<^verbatim>\<open>src/src/config_compiler/schema_ir.h\<close>, \<^verbatim>\<open>config_compiler.h\<close> and the first helpers of
  \<^verbatim>\<open>config_compiler.cpp\<close>.  The records have the members of the source, for a build with all schema macros;
  an origin is the JSON pointer it holds.  A capability that a stage hands to the next one is the record it owns;
  the reuse of one that was moved from, which C++ checks at run time, cannot be expressed.  The text of a
  diagnostic is left out; its byte offset is set by the checks of the document only.
\<close>

section \<open>Diagnostics\<close>

datatype CompileStage =
  INPUT_PROFILE | JSON_SYNTAX | JSON_RESOURCE | STRUCTURAL | DOMAIN_VALIDATION | RESOURCE_BUDGET | PLAN_BUILD | INTERNAL

datatype CompileError =
  CE_NONE | EMPTY_INPUT | INPUT_LIMIT_EXCEEDED | UTF8_BOM_NOT_ALLOWED | INVALID_UTF8 | INVALID_UNICODE_ESCAPE
| NESTING_DEPTH_LIMIT_EXCEEDED | JSON_SYNTAX_ERROR | JSON_ALLOCATION_FAILED | JSON_PARSER_MEMORY_LIMIT_EXCEEDED
| JSON_NODE_LIMIT_EXCEEDED | OBJECT_MEMBER_LIMIT_EXCEEDED | ARRAY_ELEMENT_LIMIT_EXCEEDED | STRING_LIMIT_EXCEEDED
| DECODED_STRING_BUDGET_EXCEEDED | NUMBER_TOKEN_LIMIT_EXCEEDED | DUPLICATE_KEY | ROOT_MUST_BE_OBJECT
| MISSING_PROPERTY | UNKNOWN_PROPERTY | TYPE_MISMATCH | INVALID_STRING_LENGTH | INVALID_ID | INVALID_ENUM_VALUE
| INTEGER_NOT_EXACT | INTEGER_OUT_OF_RANGE | INVALID_HEX_BYTES | EMPTY_ARRAY | CE_UNSUPPORTED_FEATURE | DUPLICATE_ID
| DUPLICATE_REFERENCE | UNKNOWN_REFERENCE | DIRECTION_MISMATCH | FIELD_OUT_OF_BOUNDS | FIELD_OVERLAP
| FRAME_NOT_FULLY_DEFINED | VALUE_NOT_REPRESENTABLE | MATCHER_OUT_OF_BOUNDS | MATCHER_CONFLICT
| INTEGRITY_RANGE_OUT_OF_BOUNDS | INTEGRITY_STORAGE_OUT_OF_BOUNDS | INTEGRITY_SELF_INCLUDED
| INTEGRITY_STORAGE_CONFLICT | CE_AMBIGUOUS_MATCHER | CE_RESOURCE_LIMIT_EXCEEDED | COMPILER_ALLOCATION_FAILED
| INTERNAL_CONTRACT_VIOLATION | ASCII_LITERAL_INVALID | ASCII_CONTROL_BYTE_INVALID | ASCII_FIELD_LENGTH_INVALID
| ASCII_FIELD_REFERENCE_INVALID | ASCII_FIELD_BOUNDARY_AMBIGUOUS | ASCII_TEMPLATE_EMPTY
| ASCII_STREAM_TERMINATOR_INVALID | ASCII_STREAM_BOUNDARY_UNPROVEN | ASCII_STREAM_PROFILE_MISMATCH

datatype ResourceKind = RK_NONE | PLAN_ACCOUNTED_MEMORY | UI_DESCRIPTION_ACCOUNTED_MEMORY

record CompileDiagnostic =
  cd_stage :: CompileStage
  cd_code :: CompileError
  cd_json_pointer :: string
  cd_byte_offset :: "nat option"
  cd_resource_kind :: ResourceKind
  cd_required_bytes :: nat
  cd_limit_bytes :: nat
  cd_resource_profile :: ResourceProfile

definition SetDiagnostic :: "CompileStage \<Rightarrow> CompileError \<Rightarrow> string \<Rightarrow> CompileDiagnostic" where
  "SetDiagnostic stage code pointer = \<lparr>cd_stage = stage, cd_code = code, cd_json_pointer = pointer, cd_byte_offset = None,
     cd_resource_kind = RK_NONE, cd_required_bytes = 0, cd_limit_bytes = 0, cd_resource_profile = DESKTOP\<rparr>"

definition SetPlanMemoryDiagnostic :: "nat \<Rightarrow> nat \<Rightarrow> ResourceProfile \<Rightarrow> CompileDiagnostic" where
  "SetPlanMemoryDiagnostic required_bytes limit_bytes profile =
     (SetDiagnostic RESOURCE_BUDGET CE_RESOURCE_LIMIT_EXCEEDED '''')
       \<lparr>cd_resource_kind := PLAN_ACCOUNTED_MEMORY, cd_required_bytes := required_bytes,
        cd_limit_bytes := limit_bytes, cd_resource_profile := profile\<rparr>"

section \<open>JSON pointers\<close>

fun AppendJsonPointerToken :: "string \<Rightarrow> string" where
  "AppendJsonPointerToken [] = []"
| "AppendJsonPointerToken (c # cs) =
     (if c = CHR ''~'' then ''~0'' else if c = CHR ''/'' then ''~1'' else [c]) @ AppendJsonPointerToken cs"

definition ChildPointer :: "string \<Rightarrow> string \<Rightarrow> string" where
  "ChildPointer parent token = parent @ ''/'' @ AppendJsonPointerToken token"

fun decimal_string :: "nat \<Rightarrow> string" where
  "decimal_string n = (if n < 10 then [] else decimal_string (n div 10)) @ [char_of (48 + n mod 10)]"

declare decimal_string.simps [simp del]

definition IndexPointer :: "string \<Rightarrow> nat \<Rightarrow> string" where
  "IndexPointer parent index = ChildPointer parent (decimal_string index)"

section \<open>The representation\<close>

type_synonym ConfigOrigin = string

record FramingProfileIr =
  fi_id :: string
  fi_display_name :: string
  fi_description :: string
  fi_source_ref :: string
  fi_input_kind :: InputKind
  fi_strategy :: FramingStrategy
  fi_frame_length_bytes :: nat
  fi_sync_bytes :: "u8 list"
  fi_length_field_offset :: nat
  fi_length_field_width :: nat
  fi_length_field_byte_order :: ByteOrder
  fi_minimum_frame_length :: nat
  fi_maximum_frame_length :: nat
  fi_origin :: ConfigOrigin

record PipelineIr =
  pi_id :: string
  pi_display_name :: string
  pi_description :: string
  pi_source_ref :: string
  pi_direction_id :: string
  pi_input_framing_profile_id :: string
  pi_message_ids :: "string list"
  pi_origin :: ConfigOrigin

record MatcherClauseIr =
  mc_kind :: MatcherKind
  mc_length_bytes :: nat
  mc_byte_offset :: nat
  mc_bytes :: "u8 list"
  mc_origin :: ConfigOrigin

record WireIr =
  wi_codec :: WireCodec
  wi_byte_offset :: nat
  wi_byte_width :: nat
  wi_byte_order :: ByteOrder
  wi_container_id :: string
  wi_bit_offset :: nat
  wi_bit_width :: nat
  wi_bit_container_index :: nat
  wi_origin :: ConfigOrigin
  wi_text_min_length :: nat
  wi_text_max_length :: nat
  wi_allowed_ascii_low :: u64
  wi_allowed_ascii_high :: u64

record TextSegmentIr =
  ti_kind :: TextSegmentKind
  ti_literal :: "u8 list"
  ti_field_id :: string
  ti_field_index :: nat
  ti_origin :: ConfigOrigin

record TextActionIr =
  ta_segments :: "TextSegmentIr list"
  ta_min_record_length :: nat
  ta_max_record_length :: nat

record AsciiTextLayoutIr =
  al_decode :: "TextActionIr option"
  al_encode :: "TextActionIr option"
  al_origin :: ConfigOrigin

record BitContainerIr =
  ci_id :: string
  ci_byte_offset :: nat
  ci_byte_width :: nat
  ci_byte_order :: ByteOrder
  ci_bit_numbering :: BitNumbering
  ci_base_value :: u64
  ci_origin :: ConfigOrigin

record IntegrityIr =
  ii_algorithm :: IntegrityAlgorithm
  ii_range_offset :: nat
  ii_range_length :: nat
  ii_storage_offset :: nat
  ii_range_ends_at_payload :: bool
  ii_storage_at_payload_end :: bool
  ii_crc_width :: nat
  ii_crc_polynomial :: u32
  ii_crc_initial_value :: u32
  ii_crc_xor_output :: u32
  ii_crc_reflect_input :: bool
  ii_crc_reflect_output :: bool
  ii_storage_byte_order :: ByteOrder
  ii_origin :: ConfigOrigin
  ii_range_origin :: ConfigOrigin
  ii_storage_origin :: ConfigOrigin

record BoundedPayloadIr =
  by_payload_field_id :: string
  by_payload_field_index :: nat
  by_header_length :: nat
  by_min_payload_length :: nat
  by_max_payload_length :: nat
  by_trailer_length :: nat
  by_min_frame_length :: nat
  by_max_frame_length :: nat
  by_origin :: ConfigOrigin

record EncodeIr =
  eo_source :: EncodeSource
  eo_constant_value :: "u64 option"
  eo_origin :: ConfigOrigin
  eo_signed_constant_value :: "i64 option"

record ComputedLengthIr =
  li_scope :: ComputedLengthScope
  li_range_offset :: nat
  li_range_length :: nat
  li_origin :: ConfigOrigin
  li_range_origin :: ConfigOrigin

record EnumEntryIr =
  ei_id :: string
  ei_display_name :: string
  ei_raw_value :: u64
  ei_origin :: ConfigOrigin

record RationalIr =
  ra_numerator :: i64
  ra_denominator :: u64
  ra_origin :: ConfigOrigin

record LinearConversionIr =
  lc_scale :: RationalIr
  lc_bias :: RationalIr
  lc_derived :: LinearConversionDescriptor
  lc_origin :: ConfigOrigin

record FieldIr =
  fd_id :: string
  fd_display_name :: string
  fd_description :: string
  fd_source_ref :: string
  fd_value_type :: ValueType
  fd_wire :: WireIr
  fd_encode :: EncodeIr
  fd_computed_length :: "ComputedLengthIr option"
  fd_unknown_enum_policy :: UnknownEnumPolicy
  fd_enum_entries :: "EnumEntryIr list"
  fd_conversion :: "LinearConversionIr option"
  fd_origin :: ConfigOrigin

record MessageIr =
  mi_id :: string
  mi_display_name :: string
  mi_description :: string
  mi_source_ref :: string
  mi_direction_id :: string
  mi_frame_length_bytes :: nat
  mi_bounded_payload :: "BoundedPayloadIr option"
  mi_matcher_clauses :: "MatcherClauseIr list"
  mi_bit_containers :: "BitContainerIr list"
  mi_integrity :: "IntegrityIr option"
  mi_fields :: "FieldIr list"
  mi_ascii_text :: "AsciiTextLayoutIr option"
  mi_origin :: ConfigOrigin

record SchemaIr =
  sc_schema_version :: string
  sc_protocol_id :: string
  sc_protocol_version :: string
  sc_display_name :: string
  sc_description :: string
  sc_source_ref :: string
  sc_resource_profile :: ResourceProfile
  sc_framing_profiles :: "FramingProfileIr list"
  sc_pipelines :: "PipelineIr list"
  sc_messages :: "MessageIr list"

record ResolvedPipelineIr =
  rp_framing_profile_index :: nat
  rp_message_indices :: "nat list"

record ValidatedSchemaIr =
  va_schema :: SchemaIr
  va_resolved_pipelines :: "ResolvedPipelineIr list"
  va_requirements :: ResourceRequirements

record BudgetedSchemaIr =
  bu_validated :: ValidatedSchemaIr
  bu_plan_memory :: PlanMemoryReport
  bu_plan_memory_limit_bytes :: nat

end
