(* ===== verification/Compiler_Text.thy ===== *)
theory Compiler_Text
  imports Compiler_IR
begin

text \<open>
  The configuration compiler's checks of text messages, \<^verbatim>\<open>ValidateTextAction\<close>,
  \<^verbatim>\<open>ValidateAsciiMessage\<close> and the proof of a CR LF boundary in
  \<^verbatim>\<open>src/src/config_compiler/config_compiler.cpp\<close>.  A function of the compiler that has the name of one of the
  plan builder carries the suffix \<open>_ir\<close>.
\<close>

definition domain_error :: "CompileError \<Rightarrow> string \<Rightarrow> CompileDiagnostic + 'a" where
  "domain_error code pointer = Inl (SetDiagnostic DOMAIN_VALIDATION code pointer)"

text \<open>The unordered map from identifiers to indices keeps the first of two equal identifiers.\<close>

definition emplace :: "'k \<Rightarrow> 'v \<Rightarrow> ('k \<times> 'v) list \<Rightarrow> ('k \<times> 'v) list option" where
  "emplace k v m = (if map_of m k \<noteq> None then None else Some (m @ [(k, v)]))"

section \<open>Text actions\<close>

record TextActionState =
  tx_segments :: "TextSegmentIr list"
  tx_local_references :: "bool list"
  tx_referenced :: "bool list"
  tx_minimum :: nat
  tx_maximum :: nat

definition AddUint64Checked :: "nat \<Rightarrow> nat \<Rightarrow> nat option" where
  "AddUint64Checked v subtotal = (if v > 2 ^ 64 - 1 - subtotal then None else Some (subtotal + v))"

definition ValidateTextLiteral :: "TextSegmentIr \<Rightarrow> TextActionState \<Rightarrow> CompileDiagnostic + TextActionState" where
  "ValidateTextLiteral segment s =
     (if ti_literal segment = [] then domain_error ASCII_LITERAL_INVALID (ti_origin segment)
      else case (AddUint64Checked (length (ti_literal segment)) (tx_minimum s),
                 AddUint64Checked (length (ti_literal segment)) (tx_maximum s)) of
        (Some minimum, Some maximum) \<Rightarrow>
          Inr (s\<lparr>tx_segments := tx_segments s @ [segment], tx_minimum := minimum, tx_maximum := maximum\<rparr>)
      | _ \<Rightarrow> domain_error ASCII_LITERAL_INVALID (ti_origin segment))"

definition ValidateTextSegment ::
    "(string \<times> nat) list \<Rightarrow> FieldIr list \<Rightarrow> TextSegmentIr list \<Rightarrow> nat \<Rightarrow> TextSegmentIr \<Rightarrow> TextActionState \<Rightarrow>
     CompileDiagnostic + TextActionState" where
  "ValidateTextSegment ids fs segments index segment s =
     (if ti_kind segment = TS_LITERAL then ValidateTextLiteral segment s
      else case map_of ids (ti_field_id segment) of
        None \<Rightarrow> domain_error UNKNOWN_REFERENCE (ChildPointer (ti_origin segment) ''field_id'')
      | Some k \<Rightarrow>
          if tx_local_references s ! k then domain_error DUPLICATE_REFERENCE (ChildPointer (ti_origin segment) ''field_id'')
          else
            let wire = fd_wire (fs ! k)
            in case (AddUint64Checked (wi_text_min_length wire) (tx_minimum s),
                     AddUint64Checked (wi_text_max_length wire) (tx_maximum s)) of
                 (Some minimum, Some maximum) \<Rightarrow>
                   if wi_text_min_length wire \<noteq> wi_text_max_length wire \<and> index + 1 < length segments \<and>
                      ti_kind (segments ! (index + 1)) \<noteq> TS_LITERAL then
                     domain_error ASCII_FIELD_BOUNDARY_AMBIGUOUS (ti_origin segment)
                   else Inr \<lparr>tx_segments = tx_segments s @ [segment\<lparr>ti_field_index := k\<rparr>],
                          tx_local_references = (tx_local_references s)[k := True],
                          tx_referenced = (tx_referenced s)[k := True], tx_minimum = minimum, tx_maximum = maximum\<rparr>
               | _ \<Rightarrow> domain_error ASCII_FIELD_LENGTH_INVALID (wi_origin wire))"

text \<open>The result is the action with its references resolved, the fields referred to and the requirements.\<close>

definition ValidateTextAction ::
    "(string \<times> nat) list \<Rightarrow> FieldIr list \<Rightarrow> TextActionIr \<Rightarrow> bool list \<Rightarrow> ResourceRequirements \<Rightarrow>
     CompileDiagnostic + TextActionIr \<times> bool list \<times> ResourceRequirements" where
  "ValidateTextAction ids fs action referenced requirements =
     followed_by (each (ValidateTextSegment ids fs (ta_segments action)) 0 (ta_segments action)
         \<lparr>tx_segments = [], tx_local_references = replicate (length fs) False, tx_referenced = referenced,
          tx_minimum = 0, tx_maximum = 0\<rparr>) (\<lambda>s.
       case AddSizeChecked (length (ta_segments action)) (rq_total_text_segment_count requirements) of
         None \<Rightarrow> domain_error CE_RESOURCE_LIMIT_EXCEEDED (ti_origin (hd (ta_segments action)))
       | Some count \<Rightarrow>
           Inr (\<lparr>ta_segments = tx_segments s, ta_min_record_length = tx_minimum s, ta_max_record_length = tx_maximum s\<rparr>,
                tx_referenced s, requirements\<lparr>rq_total_text_segment_count := count\<rparr>))"

definition ValidateOptionalAction ::
    "(string \<times> nat) list \<Rightarrow> FieldIr list \<Rightarrow> TextActionIr option \<Rightarrow> ResourceRequirements \<Rightarrow>
     CompileDiagnostic + TextActionIr option \<times> bool list \<times> ResourceRequirements" where
  "ValidateOptionalAction ids fs action requirements =
     (let referenced = replicate (length fs) False
      in case action of
           None \<Rightarrow> Inr (None, referenced, requirements)
         | Some a \<Rightarrow> followed_by (ValidateTextAction ids fs a referenced requirements) (\<lambda>(a, referenced, requirements).
             Inr (Some a, referenced, requirements)))"

section \<open>Text messages\<close>

definition ValidateTextField :: "nat \<Rightarrow> FieldIr \<Rightarrow> (string \<times> nat) list \<Rightarrow> CompileDiagnostic + (string \<times> nat) list" where
  "ValidateTextField index field ids =
     (case emplace (fd_id field) index ids of
        None \<Rightarrow> domain_error DUPLICATE_ID (ChildPointer (fd_origin field) ''id'')
      | Some ids \<Rightarrow>
          if fd_value_type field \<noteq> VT_BYTES \<or> wi_codec (fd_wire field) \<noteq> WC_ASCII_TEXT then
            domain_error ASCII_FIELD_REFERENCE_INVALID (fd_origin field)
          else if wi_text_min_length (fd_wire field) > wi_text_max_length (fd_wire field) then
            domain_error ASCII_FIELD_LENGTH_INVALID (ChildPointer (wi_origin (fd_wire field)) ''min_byte_length'')
          else Inr ids)"

text \<open>A field takes part in an action, and it has an encoding exactly if it takes part in the encoding action.\<close>

definition ValidateReference :: "bool list \<Rightarrow> bool list \<Rightarrow> nat \<Rightarrow> FieldIr \<Rightarrow> unit \<Rightarrow> CompileDiagnostic + unit" where
  "ValidateReference decoded encoded index field u =
     (let encode_declared = (eo_origin (fd_encode field) \<noteq> [])
      in if \<not> decoded ! index \<and> \<not> encoded ! index then domain_error ASCII_FIELD_REFERENCE_INVALID (fd_origin field)
         else if encoded ! index \<noteq> encode_declared then domain_error ASCII_FIELD_REFERENCE_INVALID (fd_origin field)
         else Inr ())"

definition longest :: "TextActionIr option \<Rightarrow> nat" where
  "longest action = (case action of None \<Rightarrow> 0 | Some a \<Rightarrow> ta_max_record_length a)"

definition ValidateAsciiMessage ::
    "MessageIr \<Rightarrow> ResourceRequirements \<Rightarrow> CompileDiagnostic + MessageIr \<times> ResourceRequirements" where
  "ValidateAsciiMessage message requirements =
     (case mi_ascii_text message of
        None \<Rightarrow> domain_error INTERNAL_CONTRACT_VIOLATION (mi_origin message)
      | Some layout \<Rightarrow>
          if mi_matcher_clauses message \<noteq> [] \<or> mi_bit_containers message \<noteq> [] \<or> mi_integrity message \<noteq> None \<or>
             mi_bounded_payload message \<noteq> None then domain_error INTERNAL_CONTRACT_VIOLATION (mi_origin message)
          else
            followed_by (each ValidateTextField 0 (mi_fields message) []) (\<lambda>ids.
            followed_by (ValidateOptionalAction ids (mi_fields message) (al_decode layout) requirements)
              (\<lambda>(decode, decoded, requirements).
            followed_by (ValidateOptionalAction ids (mi_fields message) (al_encode layout) requirements)
              (\<lambda>(encode, encoded, requirements).
            followed_by (each (ValidateReference decoded encoded) 0 (mi_fields message) ()) (\<lambda>_.
              let frame_length_bytes = max (longest decode) (longest encode)
              in if frame_length_bytes = 0 then domain_error ASCII_FIELD_LENGTH_INVALID (al_origin layout)
                 else
                   case AddSizeChecked (length (mi_fields message)) (rq_total_field_count requirements) of
                     None \<Rightarrow> domain_error CE_RESOURCE_LIMIT_EXCEEDED (mi_origin message)
                   | Some field_count \<Rightarrow>
                       Inr (message\<lparr>mi_ascii_text := Some (layout\<lparr>al_decode := decode, al_encode := encode\<rparr>),
                              mi_frame_length_bytes := frame_length_bytes\<rparr>,
                            requirements\<lparr>rq_max_frame_bytes := max (rq_max_frame_bytes requirements) frame_length_bytes,
                              rq_total_field_count := field_count\<rparr>))))))"

section \<open>The proof of a CR LF boundary\<close>

definition FieldAllowsAscii_ir :: "FieldIr \<Rightarrow> u8 \<Rightarrow> bool" where
  "FieldAllowsAscii_ir field character =
     (let mask = push_bit (unat character mod 64) 1;
          word = (if character < 64 then wi_allowed_ascii_low (fd_wire field) else wi_allowed_ascii_high (fd_wire field))
      in word AND mask \<noteq> 0)"

definition crlf_turn_ir :: "u8 \<Rightarrow> FieldIr \<Rightarrow> u8 \<Rightarrow> u8 option \<Rightarrow> u8 option" where
  "crlf_turn_ir states field byte result =
     (case result of
        None \<Rightarrow> None
      | Some out \<Rightarrow>
          if \<not> FieldAllowsAscii_ir field byte then Some out
          else
            let out = (if states AND 1 \<noteq> 0 then out OR (if byte = 0x0D then 2 else 1) else out)
            in if states AND 2 \<noteq> 0
               then if byte = 0x0A then None else Some (out OR (if byte = 0x0D then 2 else 1))
               else Some out)"

definition AdvanceCrLfStates_ir :: "u8 \<Rightarrow> FieldIr \<Rightarrow> u8 option" where
  "AdvanceCrLfStates_ir states field =
     (case fold (\<lambda>v. crlf_turn_ir states field (of_nat v)) [0..<128] (Some 0) of
        None \<Rightarrow> None
      | Some out \<Rightarrow> if out \<noteq> 0 then Some out else None)"

definition AdvanceCrLfByte_ir :: "u8 \<Rightarrow> u8 \<Rightarrow> u8 option" where
  "AdvanceCrLfByte_ir states byte =
     (if states AND 2 \<noteq> 0 \<and> byte = 0x0A then None else Some (if byte = 0x0D then 2 else 1))"

fun literal_states_ir :: "u8 list \<Rightarrow> u8 \<Rightarrow> u8 option" where
  "literal_states_ir [] states = Some states"
| "literal_states_ir (byte # bytes) states =
     (case AdvanceCrLfByte_ir states byte of None \<Rightarrow> None | Some states \<Rightarrow> literal_states_ir bytes states)"

text \<open>The loop over the length of a field: \<open>count\<close> characters have been read and \<open>left\<close> may still follow.\<close>

fun field_states_ir :: "FieldIr \<Rightarrow> u8 \<Rightarrow> u8 \<Rightarrow> nat \<Rightarrow> nat \<Rightarrow> u8 option" where
  "field_states_ir field exact accepted count 0 =
     Some (if count \<ge> wi_text_min_length (fd_wire field) then accepted OR exact else accepted)"
| "field_states_ir field exact accepted count (Suc left) =
     (let accepted = (if count \<ge> wi_text_min_length (fd_wire field) then accepted OR exact else accepted)
      in case AdvanceCrLfStates_ir exact field of
           None \<Rightarrow> None
         | Some next_states \<Rightarrow>
             if next_states = exact then
               Some (if wi_text_max_length (fd_wire field) \<ge> wi_text_min_length (fd_wire field)
                     then accepted OR next_states else accepted)
             else field_states_ir field next_states accepted (count + 1) left)"

fun boundary_segments_ir :: "FieldIr list \<Rightarrow> TextSegmentIr list \<Rightarrow> u8 \<Rightarrow> bool" where
  "boundary_segments_ir fs [] states = True"
| "boundary_segments_ir fs (segment # following) states =
     (if ti_kind segment = TS_LITERAL then
        (case literal_states_ir
                (if following = [] then take (length (ti_literal segment) - 2) (ti_literal segment) else ti_literal segment)
                states of
           None \<Rightarrow> False
         | Some states \<Rightarrow> boundary_segments_ir fs following states)
      else if ti_field_index segment \<ge> length fs then False
      else
        let field = fs ! ti_field_index segment
        in case field_states_ir field states 0 0 (wi_text_max_length (fd_wire field)) of
             None \<Rightarrow> False
           | Some accepted \<Rightarrow> if accepted = 0 then False else boundary_segments_ir fs following accepted)"

definition ProveAsciiCrLfBoundary_ir :: "TextActionIr \<Rightarrow> FieldIr list \<Rightarrow> bool" where
  "ProveAsciiCrLfBoundary_ir action fs =
     (if ta_segments action = [] then False
      else
        let final_segment = last (ta_segments action); literal = ti_literal final_segment
        in if ti_kind final_segment \<noteq> TS_LITERAL \<or> length literal < 2 \<or>
              literal ! (length literal - 2) \<noteq> 0x0D \<or> last literal \<noteq> 0x0A then False
           else boundary_segments_ir fs (ta_segments action) 1)"

end
