(* ===== verification/Compiler_Message.thy ===== *)
theory Compiler_Message
  imports Compiler_Text
begin

text \<open>
  The configuration compiler's checks of binary messages, \<^verbatim>\<open>ValidateMessageDomain\<close> of
  \<^verbatim>\<open>src/src/config_compiler/config_compiler.cpp\<close>, in the order of the source: the lengths of a bounded payload,
  bit containers, fields, overlaps, the checksum, fixed matchers, constants against matchers, and coverage.
  The unsigned 64-bit offsets and lengths are natural numbers, with the tests for overflow of the source.
\<close>

section \<open>Widths\<close>

definition FitsUnsignedWidth_ir :: "u64 \<Rightarrow> nat \<Rightarrow> bool" where
  "FitsUnsignedWidth_ir v byte_width = (if byte_width \<ge> 8 then True else v < push_bit (byte_width * 8) 1)"

definition FitsUnsignedBits_ir :: "u64 \<Rightarrow> nat \<Rightarrow> bool" where
  "FitsUnsignedBits_ir v bit_width \<longleftrightarrow>
     bit_width = 64 \<or> (bit_width \<noteq> 0 \<and> bit_width < 64 \<and> v < push_bit bit_width 1)"

definition FitsSignedWidth_ir :: "i64 \<Rightarrow> nat \<Rightarrow> bool" where
  "FitsSignedWidth_ir v byte_width =
     (if byte_width = 0 \<or> byte_width > 8 then False
      else if byte_width = 8 then True
      else
        let magnitude_bits = byte_width * 8 - 1;
            minimum = - sint (push_bit magnitude_bits 1 :: i64);
            maximum = sint (push_bit magnitude_bits 1 - 1 :: i64)
        in sint v \<ge> minimum \<and> sint v \<le> maximum)"

definition EncodeUnsignedConstantByte :: "u64 \<Rightarrow> nat \<Rightarrow> ByteOrder \<Rightarrow> nat \<Rightarrow> u8" where
  "EncodeUnsignedConstantByte v byte_width byte_order byte_index =
     (let encoded_index = (if byte_order = BO_BIG then byte_width - 1 - byte_index else byte_index)
      in ucast (drop_bit (encoded_index * 8) v AND 0xFF))"

definition BitWidthMask :: "nat \<Rightarrow> u64" where
  "BitWidthMask byte_width = (if byte_width = 8 then - 1 else push_bit (byte_width * 8) 1 - 1)"

section \<open>Bounded payload\<close>

definition trailer_of :: "IntegrityIr option \<Rightarrow> nat" where
  "trailer_of integrity =
     (case integrity of None \<Rightarrow> 0 | Some i \<Rightarrow> if ii_algorithm i = IA_SUM8 then 1 else ii_crc_width i div 8)"

text \<open>The payload field takes its width from the layout.  The state is the fields, the index of the last match and
  the number of matches.\<close>

definition ResolvePayloadField ::
    "BoundedPayloadIr \<Rightarrow> nat \<Rightarrow> FieldIr \<Rightarrow> FieldIr list \<times> nat \<times> nat \<Rightarrow> CompileDiagnostic + FieldIr list \<times> nat \<times> nat" where
  "ResolvePayloadField layout index field s =
     (case s of (fs, payload_field_index, payload_matches) \<Rightarrow>
        if fd_id field \<noteq> by_payload_field_id layout then Inr (fs @ [field], payload_field_index, payload_matches)
        else if fd_value_type field \<noteq> VT_BYTES \<or> wi_codec (fd_wire field) \<noteq> WC_BYTES \<or>
                wi_byte_offset (fd_wire field) \<noteq> by_header_length layout \<or> wi_byte_width (fd_wire field) \<noteq> 0 \<or>
                eo_source (fd_encode field) \<noteq> ES_INPUT \<or> fd_conversion field \<noteq> None then
          domain_error CE_UNSUPPORTED_FEATURE (wi_origin (fd_wire field))
        else Inr (fs @ [field\<lparr>fd_wire := (fd_wire field)\<lparr>wi_byte_width := by_max_payload_length layout\<rparr>\<rparr>],
                  index, payload_matches + 1))"

definition ResolveBoundedPayload :: "MessageIr \<Rightarrow> CompileDiagnostic + MessageIr" where
  "ResolveBoundedPayload message =
     (case mi_bounded_payload message of
        None \<Rightarrow> Inr message
      | Some layout \<Rightarrow>
          let header = by_header_length layout; minimum = by_min_payload_length layout;
              maximum = by_max_payload_length layout; trailer = trailer_of (mi_integrity message);
              limit = 2 ^ 64 - 1
          in if minimum > maximum then
               domain_error VALUE_NOT_REPRESENTABLE (ChildPointer (by_origin layout) ''min_payload_bytes'')
             else if minimum > limit - header \<or> maximum > limit - header \<or> trailer > limit - header - minimum \<or>
                     trailer > limit - header - maximum then
               domain_error FIELD_OUT_OF_BOUNDS (by_origin layout)
             else
               followed_by (each (ResolvePayloadField layout) 0 (mi_fields message) ([], by_payload_field_index layout, 0))
                 (\<lambda>(fs, payload_field_index, payload_matches).
               if payload_matches \<noteq> 1 then
                 domain_error UNKNOWN_REFERENCE (ChildPointer (by_origin layout) ''payload_field_id'')
               else Inr (message
                 \<lparr>mi_bounded_payload := Some (layout\<lparr>by_payload_field_index := payload_field_index,
                    by_trailer_length := trailer, by_min_frame_length := header + minimum + trailer,
                    by_max_frame_length := header + maximum + trailer\<rparr>),
                  mi_frame_length_bytes := header + maximum + trailer, mi_fields := fs\<rparr>)))"

definition CountMessageParts :: "MessageIr \<Rightarrow> ResourceRequirements \<Rightarrow> CompileDiagnostic + ResourceRequirements" where
  "CountMessageParts message r =
     (case (AddSizeChecked (length (mi_fields message)) (rq_total_field_count r),
            AddSizeChecked (length (mi_matcher_clauses message)) (rq_total_matcher_count r),
            AddSizeChecked (length (mi_bit_containers message)) (rq_total_bit_container_count r),
            (if mi_integrity message \<noteq> None then AddSizeChecked 1 (rq_total_integrity_rule_count r)
             else Some (rq_total_integrity_rule_count r)),
            (if list_ex (\<lambda>field. fd_computed_length field \<noteq> None) (mi_fields message)
             then AddSizeChecked 1 (rq_total_computed_length_count r)
             else Some (rq_total_computed_length_count r))) of
        (Some field_count, Some matcher_count, Some container_count, Some integrity_count, Some length_count) \<Rightarrow>
          Inr (r\<lparr>rq_total_field_count := field_count, rq_total_matcher_count := matcher_count,
                 rq_total_bit_container_count := container_count, rq_total_integrity_rule_count := integrity_count,
                 rq_total_computed_length_count := length_count,
                 rq_max_frame_bytes := max (rq_max_frame_bytes r) (mi_frame_length_bytes message)\<rparr>)
      | _ \<Rightarrow> domain_error INTERNAL_CONTRACT_VIOLATION (mi_origin message))"

section \<open>Bit containers and fields\<close>

record FieldSpan =
  sp_begin :: nat
  sp_end :: nat
  sp_field :: "ConfigOrigin option"

definition ValidateContainer ::
    "MessageIr \<Rightarrow> nat \<Rightarrow> BitContainerIr \<Rightarrow> (string \<times> nat) list \<times> FieldSpan list \<Rightarrow>
     CompileDiagnostic + (string \<times> nat) list \<times> FieldSpan list" where
  "ValidateContainer message index container s =
     (case s of (container_ids, spans) \<Rightarrow>
        let offset = ci_byte_offset container; width = ci_byte_width container
        in case emplace (ci_id container) index container_ids of
             None \<Rightarrow> domain_error DUPLICATE_ID (ChildPointer (ci_origin container) ''id'')
           | Some container_ids \<Rightarrow>
               if width > 2 ^ 64 - 1 - offset \<or> offset + width > mi_frame_length_bytes message then
                 domain_error FIELD_OUT_OF_BOUNDS (ci_origin container)
               else if (case mi_bounded_payload message of
                          None \<Rightarrow> False
                        | Some b \<Rightarrow> offset > by_header_length b \<or> width > by_header_length b - offset) then
                 domain_error FIELD_OUT_OF_BOUNDS (ci_origin container)
               else if \<not> FitsUnsignedWidth_ir (ci_base_value container) width then
                 domain_error VALUE_NOT_REPRESENTABLE (ChildPointer (ci_origin container) ''base_value'')
               else Inr (container_ids, spans @ [\<lparr>sp_begin = offset, sp_end = offset + width, sp_field = None\<rparr>]))"

record FieldLoop =
  fo_fields :: "FieldIr list"
  fo_ids :: "string list"
  fo_spans :: "FieldSpan list"
  fo_member_masks :: "u64 list"
  fo_member_counts :: "nat list"
  fo_computed_length_count :: nat
  fo_requirements :: ResourceRequirements

definition ir_bit_shift :: "BitContainerIr \<Rightarrow> WireIr \<Rightarrow> nat" where
  "ir_bit_shift container wire =
     (if ci_bit_numbering container = BN_LSB0 then wi_bit_offset wire
      else ci_byte_width container * 8 - wi_bit_offset wire - wi_bit_width wire)"

definition ir_low_mask :: "WireIr \<Rightarrow> u64" where
  "ir_low_mask wire = (if wi_bit_width wire = 64 then - 1 else push_bit (wi_bit_width wire) 1 - 1)"

text \<open>Where a field of 64 bits is entered its mask is not shifted.\<close>

definition member_mask :: "BitContainerIr \<Rightarrow> WireIr \<Rightarrow> u64" where
  "member_mask container wire =
     (if wi_bit_width wire = 64 then - 1 else push_bit (ir_bit_shift container wire) (push_bit (wi_bit_width wire) 1 - 1))"

definition PlaceField ::
    "MessageIr \<Rightarrow> (string \<times> nat) list \<Rightarrow> FieldIr \<Rightarrow> FieldLoop \<Rightarrow> CompileDiagnostic + FieldIr \<times> FieldLoop" where
  "PlaceField message container_ids field s =
     (let wire = fd_wire field
      in if wi_codec wire = WC_BITFIELD then
           case map_of container_ids (wi_container_id wire) of
             None \<Rightarrow> domain_error UNKNOWN_REFERENCE (ChildPointer (wi_origin wire) ''container_id'')
           | Some k \<Rightarrow>
               let container = mi_bit_containers message ! k; container_bits = ci_byte_width container * 8;
                   mask = member_mask container wire
               in if wi_bit_width wire > container_bits \<or> wi_bit_offset wire > container_bits - wi_bit_width wire then
                    domain_error FIELD_OUT_OF_BOUNDS (wi_origin wire)
                  else if fd_value_type field = VT_BOOL \<and> wi_bit_width wire \<noteq> 1 then
                    domain_error VALUE_NOT_REPRESENTABLE (ChildPointer (wi_origin wire) ''bit_width'')
                  else if fo_member_masks s ! k AND mask \<noteq> 0 then domain_error FIELD_OVERLAP (fd_origin field)
                  else Inr (field\<lparr>fd_wire := wire\<lparr>wi_bit_container_index := k\<rparr>\<rparr>,
                    s\<lparr>fo_member_masks := (fo_member_masks s)[k := fo_member_masks s ! k OR mask],
                      fo_member_counts := (fo_member_counts s)[k := fo_member_counts s ! k + 1]\<rparr>)
         else if wi_byte_width wire > 2 ^ 64 - 1 - wi_byte_offset wire \<or>
                 wi_byte_offset wire + wi_byte_width wire > mi_frame_length_bytes message then
           domain_error FIELD_OUT_OF_BOUNDS (wi_origin wire)
         else Inr (field, s))"

definition CheckHeaderField :: "MessageIr \<Rightarrow> nat \<Rightarrow> FieldIr \<Rightarrow> CompileDiagnostic + unit" where
  "CheckHeaderField message index field =
     (let wire = fd_wire field
      in case mi_bounded_payload message of
           None \<Rightarrow> Inr ()
         | Some b \<Rightarrow>
             if index = by_payload_field_index b then Inr ()
             else if wi_codec wire = WC_BYTES \<and> wi_byte_width wire = 0 then
               domain_error CE_UNSUPPORTED_FEATURE (wi_origin wire)
             else if wi_codec wire \<noteq> WC_BITFIELD \<and> wi_byte_offset wire + wi_byte_width wire > by_header_length b then
               domain_error FIELD_OUT_OF_BOUNDS (wi_origin wire)
             else Inr ())"

definition CheckComputedLength :: "MessageIr \<Rightarrow> FieldIr \<Rightarrow> nat \<Rightarrow> CompileDiagnostic + nat" where
  "CheckComputedLength message field computed_length_count =
     (let wire = fd_wire field; encode = fd_encode field; frame = mi_frame_length_bytes message
      in case fd_computed_length field of
           None \<Rightarrow>
             if eo_source encode = ES_COMPUTED then domain_error INTERNAL_CONTRACT_VIOLATION (eo_origin encode)
             else Inr computed_length_count
         | Some computed \<Rightarrow>
             if computed_length_count + 1 > 1 then domain_error CE_UNSUPPORTED_FEATURE (li_origin computed)
             else if fd_value_type field \<noteq> VT_UINT64 \<or> wi_codec wire \<noteq> WC_UNSIGNED_INTEGER \<or>
                     eo_source encode \<noteq> ES_COMPUTED \<or> eo_constant_value encode \<noteq> None \<or>
                     eo_signed_constant_value encode \<noteq> None \<or> fd_conversion field \<noteq> None \<or> fd_enum_entries field \<noteq> [] \<or>
                     (wi_byte_width wire \<noteq> 1 \<and> wi_byte_width wire \<noteq> 2 \<and> wi_byte_width wire \<noteq> 4) \<or>
                     (wi_byte_width wire = 1 \<and> wi_byte_order wire \<noteq> BO_NOT_APPLICABLE) \<or>
                     (wi_byte_width wire \<noteq> 1 \<and> wi_byte_order wire \<noteq> BO_BIG \<and> wi_byte_order wire \<noteq> BO_LITTLE) then
               domain_error CE_UNSUPPORTED_FEATURE (li_origin computed)
             else
               followed_by
                 (if li_scope computed = CL_REGION then
                    if mi_bounded_payload message \<noteq> None then domain_error CE_UNSUPPORTED_FEATURE (li_origin computed)
                    else if li_range_length computed = 0 then
                      domain_error FIELD_OUT_OF_BOUNDS (ChildPointer (li_range_origin computed) ''byte_length'')
                    else if li_range_offset computed > frame \<or> li_range_length computed > frame - li_range_offset computed then
                      domain_error FIELD_OUT_OF_BOUNDS (li_range_origin computed)
                    else Inr (li_range_length computed)
                  else if li_scope computed = CL_PAYLOAD then
                    (case mi_bounded_payload message of
                       None \<Rightarrow> domain_error CE_UNSUPPORTED_FEATURE (li_origin computed)
                     | Some b \<Rightarrow> Inr (by_max_payload_length b))
                  else Inr frame)
                 (\<lambda>expected.
               if (case mi_bounded_payload message of
                     None \<Rightarrow> False | Some b \<Rightarrow> wi_byte_offset wire + wi_byte_width wire > by_header_length b) then
                 domain_error FIELD_OUT_OF_BOUNDS (wi_origin wire)
               else if \<not> FitsUnsignedWidth_ir (of_nat expected) (wi_byte_width wire) then
                 domain_error VALUE_NOT_REPRESENTABLE (li_origin computed)
               else Inr (computed_length_count + 1)))"

definition CheckConstants :: "FieldIr \<Rightarrow> CompileDiagnostic + unit" where
  "CheckConstants field =
     (let wire = fd_wire field; encode = fd_encode field; value_pointer = ChildPointer (eo_origin encode) ''value''
      in if (case eo_constant_value encode of
               None \<Rightarrow> False
             | Some v \<Rightarrow> \<not> (if wi_codec wire = WC_BITFIELD then FitsUnsignedBits_ir v (wi_bit_width wire)
                            else FitsUnsignedWidth_ir v (wi_byte_width wire))) then
           domain_error VALUE_NOT_REPRESENTABLE value_pointer
         else if (case eo_signed_constant_value encode of
                    None \<Rightarrow> False | Some v \<Rightarrow> \<not> FitsSignedWidth_ir v (wi_byte_width wire)) then
           domain_error VALUE_NOT_REPRESENTABLE value_pointer
         else Inr ())"

definition DeriveConversion ::
    "FieldIr \<Rightarrow> ResourceRequirements \<Rightarrow> CompileDiagnostic + FieldIr \<times> ResourceRequirements" where
  "DeriveConversion field r =
     (case fd_conversion field of
        None \<Rightarrow> Inr (field, r)
      | Some c \<Rightarrow>
          (case AddSizeChecked 1 (rq_total_conversion_count r) of
             None \<Rightarrow> domain_error INTERNAL_CONTRACT_VIOLATION (lc_origin c)
           | Some count \<Rightarrow>
               if (fd_value_type field \<noteq> VT_UINT64 \<and> fd_value_type field \<noteq> VT_INT64) \<or>
                  wi_codec (fd_wire field) \<noteq> WC_UNSIGNED_INTEGER \<or> eo_source (fd_encode field) \<noteq> ES_INPUT then
                 domain_error CE_UNSUPPORTED_FEATURE
                   (if eo_source (fd_encode field) \<noteq> ES_INPUT then ChildPointer (eo_origin (fd_encode field)) ''source''
                    else lc_origin c)
               else
                 (case DeriveLinearConversion (fd_value_type field) (ra_numerator (lc_scale c)) (ra_denominator (lc_scale c))
                         (ra_numerator (lc_bias c)) (ra_denominator (lc_bias c)) of
                    Inl e \<Rightarrow>
                      domain_error (if e = ARITHMETIC_OVERFLOW then INTERNAL_CONTRACT_VIOLATION else VALUE_NOT_REPRESENTABLE)
                        (case e of
                           ZERO_SCALE \<Rightarrow> ChildPointer (ra_origin (lc_scale c)) ''numerator''
                         | NON_TERMINATING_SCALE \<Rightarrow> ChildPointer (ra_origin (lc_scale c)) ''denominator''
                         | NON_TERMINATING_BIAS \<Rightarrow> ChildPointer (ra_origin (lc_bias c)) ''denominator''
                         | _ \<Rightarrow> lc_origin c)
                  | Inr derived \<Rightarrow>
                      Inr (field\<lparr>fd_conversion := Some (c\<lparr>lc_derived := derived\<rparr>)\<rparr>,
                           r\<lparr>rq_total_conversion_count := count\<rparr>))))"

definition CheckEnumEntry ::
    "WireIr \<Rightarrow> nat \<Rightarrow> EnumEntryIr \<Rightarrow> string list \<times> u64 list \<Rightarrow> CompileDiagnostic + string list \<times> u64 list" where
  "CheckEnumEntry wire index entry s =
     (case s of (enum_ids, enum_values) \<Rightarrow>
        if ei_id entry \<in> set enum_ids \<or> ei_raw_value entry \<in> set enum_values then
          domain_error DUPLICATE_ID (ei_origin entry)
        else if \<not> (if wi_codec wire = WC_BITFIELD then FitsUnsignedBits_ir (ei_raw_value entry) (wi_bit_width wire)
                   else FitsUnsignedWidth_ir (ei_raw_value entry) (wi_byte_width wire)) then
          domain_error VALUE_NOT_REPRESENTABLE (ChildPointer (ei_origin entry) ''raw_value'')
        else Inr (ei_id entry # enum_ids, ei_raw_value entry # enum_values))"

definition CheckEnum :: "FieldIr \<Rightarrow> ResourceRequirements \<Rightarrow> CompileDiagnostic + ResourceRequirements" where
  "CheckEnum field r =
     (if fd_value_type field \<noteq> VT_ENUM then Inr r
      else case AddSizeChecked (length (fd_enum_entries field)) (rq_total_enum_entry_count r) of
        None \<Rightarrow> domain_error INTERNAL_CONTRACT_VIOLATION (fd_origin field)
      | Some count \<Rightarrow>
          followed_by (each (CheckEnumEntry (fd_wire field)) 0 (fd_enum_entries field) ([], [])) (\<lambda>_.
            Inr (r\<lparr>rq_total_enum_entry_count := count\<rparr>)))"

definition ValidateField ::
    "MessageIr \<Rightarrow> (string \<times> nat) list \<Rightarrow> nat \<Rightarrow> FieldIr \<Rightarrow> FieldLoop \<Rightarrow> CompileDiagnostic + FieldLoop" where
  "ValidateField message container_ids index field s =
     (if fd_id field \<in> set (fo_ids s) then domain_error DUPLICATE_ID (ChildPointer (fd_origin field) ''id'')
      else
        followed_by (PlaceField message container_ids field s) (\<lambda>(field, s).
        followed_by (CheckHeaderField message index field) (\<lambda>_.
        followed_by (CheckComputedLength message field (fo_computed_length_count s)) (\<lambda>computed_length_count.
        followed_by (CheckConstants field) (\<lambda>_.
        followed_by (DeriveConversion field (fo_requirements s)) (\<lambda>(field, r).
        followed_by (CheckEnum field r) (\<lambda>r.
          let wire = fd_wire field
          in Inr (s\<lparr>fo_fields := fo_fields s @ [field], fo_ids := fd_id field # fo_ids s,
               fo_spans := (if wi_codec wire \<noteq> WC_BITFIELD
                 then fo_spans s @ [\<lparr>sp_begin = wi_byte_offset wire, sp_end = wi_byte_offset wire + wi_byte_width wire,
                                     sp_field = Some (fd_origin field)\<rparr>]
                 else fo_spans s),
               fo_computed_length_count := computed_length_count, fo_requirements := r\<rparr>))))))))"

end
