(* ===== verification/Compiler_Domain.thy ===== *)
theory Compiler_Domain
  imports Compiler_Message
begin

text \<open>
  The rest of \<^verbatim>\<open>ValidateMessageDomain\<close> and the domain validator of
  \<^verbatim>\<open>src/src/config_compiler/config_compiler.cpp\<close>: what holds of a message as a whole, the framing profiles,
  and the references and candidates of the pipelines.
\<close>

section \<open>Overlaps and the checksum\<close>

text \<open>Spans that agree in both ends may be sorted either way, which only shows in the pointer of a refusal.\<close>

definition sort_spans :: "FieldSpan list \<Rightarrow> FieldSpan list" where
  "sort_spans = sort_key sp_begin \<circ> sort_key sp_end"

fun first_overlap_ir :: "FieldSpan list \<Rightarrow> FieldSpan option" where
  "first_overlap_ir (a # b # spans) = (if sp_begin b < sp_end a then Some b else first_overlap_ir (b # spans))"
| "first_overlap_ir _ = None"

fun first_unused :: "nat list \<Rightarrow> BitContainerIr list \<Rightarrow> BitContainerIr option" where
  "first_unused (n # ns) (c # cs) = (if n = 0 then Some c else first_unused ns cs)"
| "first_unused _ _ = None"

definition ir_storage_width :: "IntegrityIr \<Rightarrow> nat" where
  "ir_storage_width i = (if ii_algorithm i = IA_CRC then ii_crc_width i div 8 else 1)"

definition CrcParametersValid :: "IntegrityIr \<Rightarrow> bool" where
  "CrcParametersValid i \<longleftrightarrow>
     (let width_mask = (if ii_crc_width i = 16 then 0xFFFF else 0xFFFFFFFF)
      in \<not> ((ii_crc_width i \<noteq> 16 \<and> ii_crc_width i \<noteq> 32) \<or> ii_crc_polynomial i = 0 \<or> ii_crc_polynomial i AND 1 = 0 \<or>
            ii_crc_polynomial i AND NOT width_mask \<noteq> 0 \<or> ii_crc_initial_value i AND NOT width_mask \<noteq> 0 \<or>
            ii_crc_xor_output i AND NOT width_mask \<noteq> 0 \<or>
            (ii_storage_byte_order i \<noteq> BO_BIG \<and> ii_storage_byte_order i \<noteq> BO_LITTLE)))"

definition CheckBoundedIntegrity :: "BoundedPayloadIr \<Rightarrow> IntegrityIr \<Rightarrow> CompileDiagnostic + unit" where
  "CheckBoundedIntegrity layout i =
     (if \<not> ii_storage_at_payload_end i then domain_error INTEGRITY_STORAGE_OUT_OF_BOUNDS (ii_storage_origin i)
      else if ii_range_ends_at_payload i then
        (if ii_range_offset i > by_header_length layout then
           domain_error INTEGRITY_RANGE_OUT_OF_BOUNDS (ChildPointer (ii_range_origin i) ''byte_offset'')
         else Inr ())
      else if ii_range_length i = 0 \<or> ii_range_offset i > by_min_frame_length layout - by_trailer_length layout \<or>
              ii_range_length i > by_min_frame_length layout - by_trailer_length layout - ii_range_offset i then
        domain_error INTEGRITY_RANGE_OUT_OF_BOUNDS (ii_range_origin i)
      else Inr ())"

definition CheckFixedIntegrity :: "nat \<Rightarrow> FieldSpan list \<Rightarrow> IntegrityIr \<Rightarrow> CompileDiagnostic + unit" where
  "CheckFixedIntegrity frame spans i =
     (let storage_width = ir_storage_width i; range_end = ii_range_offset i + ii_range_length i;
          storage_end = ii_storage_offset i + storage_width;
          storage_pointer = ChildPointer (ii_storage_origin i) ''byte_offset''
      in if ii_range_length i = 0 then
           domain_error INTEGRITY_RANGE_OUT_OF_BOUNDS (ChildPointer (ii_range_origin i) ''byte_length'')
         else if ii_range_offset i > frame \<or> ii_range_length i > frame - ii_range_offset i then
           domain_error INTEGRITY_RANGE_OUT_OF_BOUNDS (ii_range_origin i)
         else if ii_storage_offset i > frame \<or> storage_width > frame - ii_storage_offset i then
           domain_error INTEGRITY_STORAGE_OUT_OF_BOUNDS storage_pointer
         else if ii_storage_offset i < range_end \<and> ii_range_offset i < storage_end then
           domain_error INTEGRITY_SELF_INCLUDED storage_pointer
         else if list_ex (\<lambda>span. ii_storage_offset i < sp_end span \<and> sp_begin span < storage_end) spans then
           domain_error INTEGRITY_STORAGE_CONFLICT storage_pointer
         else Inr ())"

definition CheckIntegrity :: "MessageIr \<Rightarrow> FieldSpan list \<Rightarrow> CompileDiagnostic + unit" where
  "CheckIntegrity message spans =
     (case mi_integrity message of
        None \<Rightarrow> Inr ()
      | Some i \<Rightarrow>
          if ii_algorithm i = IA_CRC \<and> \<not> CrcParametersValid i then domain_error INVALID_ENUM_VALUE (ii_origin i)
          else case mi_bounded_payload message of
            Some layout \<Rightarrow> CheckBoundedIntegrity layout i
          | None \<Rightarrow> CheckFixedIntegrity (mi_frame_length_bytes message) spans i)"

section \<open>Fixed matchers\<close>

type_synonym FixedMap = "(nat \<times> u8) list"

definition EnterFixedByte ::
    "MatcherClauseIr \<Rightarrow> nat \<Rightarrow> u8 \<Rightarrow> FixedMap \<Rightarrow> CompileDiagnostic + FixedMap" where
  "EnterFixedByte matcher byte_index byte fixed =
     (case map_of fixed (mc_byte_offset matcher + byte_index) of
        None \<Rightarrow> Inr (fixed @ [(mc_byte_offset matcher + byte_index, byte)])
      | Some present \<Rightarrow> if present \<noteq> byte then domain_error MATCHER_CONFLICT (mc_origin matcher) else Inr fixed)"

definition CheckMatcher :: "MessageIr \<Rightarrow> nat \<Rightarrow> MatcherClauseIr \<Rightarrow> FixedMap \<Rightarrow> CompileDiagnostic + FixedMap" where
  "CheckMatcher message index matcher fixed =
     (if mc_kind matcher = MK_FRAME_LENGTH_EQUALS then
        if mi_bounded_payload message \<noteq> None then domain_error MATCHER_CONFLICT (mc_origin matcher)
        else if mc_length_bytes matcher \<noteq> mi_frame_length_bytes message then
          domain_error MATCHER_CONFLICT (ChildPointer (mc_origin matcher) ''length_bytes'')
        else Inr fixed
      else if length (mc_bytes matcher) > 2 ^ 64 - 1 - mc_byte_offset matcher \<or>
              mc_byte_offset matcher + length (mc_bytes matcher) >
                (case mi_bounded_payload message of Some b \<Rightarrow> by_header_length b | None \<Rightarrow> mi_frame_length_bytes message) then
        domain_error MATCHER_OUT_OF_BOUNDS (mc_origin matcher)
      else each (EnterFixedByte matcher) 0 (mc_bytes matcher) fixed)"

definition CheckComputedStorage :: "FixedMap \<Rightarrow> nat \<Rightarrow> FieldIr \<Rightarrow> unit \<Rightarrow> CompileDiagnostic + unit" where
  "CheckComputedStorage fixed index field u =
     (let wire = fd_wire field
      in if fd_computed_length field \<noteq> None \<and>
            list_ex (\<lambda>k. map_of fixed (wi_byte_offset wire + k) \<noteq> None) [0..<wi_byte_width wire] then
           domain_error MATCHER_CONFLICT (wi_origin wire)
         else Inr ())"

definition CheckIntegrityStorage :: "MessageIr \<Rightarrow> FixedMap \<Rightarrow> CompileDiagnostic + unit" where
  "CheckIntegrityStorage message fixed =
     (case mi_integrity message of
        None \<Rightarrow> Inr ()
      | Some i \<Rightarrow>
          if mi_bounded_payload message = None \<and>
             list_ex (\<lambda>k. map_of fixed (ii_storage_offset i + k) \<noteq> None) [0..<ir_storage_width i] then
            domain_error INTEGRITY_STORAGE_CONFLICT (ChildPointer (ii_storage_origin i) ''byte_offset'')
          else Inr ())"

definition CheckConstantBytes :: "FixedMap \<Rightarrow> nat \<Rightarrow> FieldIr \<Rightarrow> unit \<Rightarrow> CompileDiagnostic + unit" where
  "CheckConstantBytes fixed index field u =
     (let wire = fd_wire field; encode = fd_encode field
      in if wi_codec wire = WC_BITFIELD \<or> (fd_value_type field \<noteq> VT_UINT64 \<and> fd_value_type field \<noteq> VT_INT64) \<or>
            (eo_constant_value encode = None \<and> eo_signed_constant_value encode = None) then Inr ()
         else
           let encoded = (if fd_value_type field = VT_INT64 then the (eo_signed_constant_value encode)
                          else the (eo_constant_value encode))
           in if list_ex (\<lambda>k. case map_of fixed (wi_byte_offset wire + k) of
                    None \<Rightarrow> False
                  | Some byte \<Rightarrow> byte \<noteq> EncodeUnsignedConstantByte encoded (wi_byte_width wire) (wi_byte_order wire) k)
                [0..<wi_byte_width wire] then
                domain_error MATCHER_CONFLICT (ChildPointer (eo_origin encode) ''value'')
              else Inr ())"

section \<open>Bits the encoder determines\<close>

record DeterminedBits =
  db_masks :: "u64 list"
  db_values :: "u64 list"
  db_constant_masks :: "u64 list"

definition initial_bits :: "BitContainerIr list \<Rightarrow> DeterminedBits" where
  "initial_bits containers = \<lparr>db_masks = map (\<lambda>c. BitWidthMask (ci_byte_width c)) containers,
     db_values = map ci_base_value containers, db_constant_masks = replicate (length containers) 0\<rparr>"

definition enter_bits :: "BitContainerIr list \<Rightarrow> FieldIr \<Rightarrow> DeterminedBits \<Rightarrow> DeterminedBits" where
  "enter_bits containers field d =
     (let wire = fd_wire field; k = wi_bit_container_index wire; shift = ir_bit_shift (containers ! k) wire;
          mask = push_bit shift (ir_low_mask wire)
      in if wi_codec wire \<noteq> WC_BITFIELD then d
         else if eo_source (fd_encode field) = ES_INPUT then
           d\<lparr>db_masks := (db_masks d)[k := db_masks d ! k AND NOT mask]\<rparr>
         else
           d\<lparr>db_values := (db_values d)[k := (db_values d ! k AND NOT mask) OR
                (push_bit shift (the (eo_constant_value (fd_encode field))) AND mask)],
             db_constant_masks := (db_constant_masks d)[k := db_constant_masks d ! k OR mask]\<rparr>)"

definition mismatch_pointer :: "MessageIr \<Rightarrow> DeterminedBits \<Rightarrow> nat \<Rightarrow> u64 \<Rightarrow> string" where
  "mismatch_pointer message d k mismatch_mask =
     (let container = mi_bit_containers message ! k;
          culprit = find (\<lambda>field. wi_codec (fd_wire field) = WC_BITFIELD \<and> wi_bit_container_index (fd_wire field) = k \<and>
            eo_constant_value (fd_encode field) \<noteq> None \<and>
            push_bit (ir_bit_shift container (fd_wire field)) (ir_low_mask (fd_wire field)) AND mismatch_mask \<noteq> 0)
            (mi_fields message)
      in case (if db_constant_masks d ! k AND mismatch_mask \<noteq> 0 then culprit else None) of
           Some field \<Rightarrow> ChildPointer (eo_origin (fd_encode field)) ''value''
         | None \<Rightarrow> ChildPointer (ci_origin container) ''base_value'')"

definition CheckContainerByte ::
    "MessageIr \<Rightarrow> FixedMap \<Rightarrow> DeterminedBits \<Rightarrow> nat \<Rightarrow> nat \<Rightarrow> nat \<Rightarrow> unit \<Rightarrow> CompileDiagnostic + unit" where
  "CheckContainerByte message fixed d k index byte_index u =
     (let container = mi_bit_containers message ! k
      in case map_of fixed (ci_byte_offset container + byte_index) of
           None \<Rightarrow> Inr ()
         | Some byte \<Rightarrow>
             let logical_byte = (if ci_byte_order container = BO_BIG then ci_byte_width container - 1 - byte_index else byte_index);
                 shift = logical_byte * 8;
                 mask = (ucast (drop_bit shift (db_masks d ! k)) :: u8);
                 determined = (ucast (drop_bit shift (db_values d ! k)) :: u8);
                 mismatch = (byte XOR determined) AND mask
             in if mismatch = 0 then Inr ()
                else domain_error MATCHER_CONFLICT (mismatch_pointer message d k (push_bit shift (ucast mismatch))))"

definition CheckContainerBytes ::
    "MessageIr \<Rightarrow> FixedMap \<Rightarrow> DeterminedBits \<Rightarrow> nat \<Rightarrow> BitContainerIr \<Rightarrow> unit \<Rightarrow> CompileDiagnostic + unit" where
  "CheckContainerBytes message fixed d k container u =
     each (CheckContainerByte message fixed d k) 0 [0..<ci_byte_width container] ()"

section \<open>Coverage\<close>

definition coverage_spans :: "MessageIr \<Rightarrow> FieldSpan list \<Rightarrow> FixedMap \<Rightarrow> ByteInterval list" where
  "coverage_spans message spans fixed =
     (let required = (case mi_bounded_payload message of Some b \<Rightarrow> by_header_length b | None \<Rightarrow> mi_frame_length_bytes message);
          interval = (\<lambda>b e. \<lparr>bi_begin = b, bi_end = e, bi_source_index = 0\<rparr>)
      in map (\<lambda>span. interval (sp_begin span) (sp_end span)) (filter (\<lambda>span. sp_begin span < required) spans) @
         map (\<lambda>(offset, byte). interval offset (offset + 1)) fixed @
         (case mi_integrity message of
            Some i \<Rightarrow> if mi_bounded_payload message = None
                      then [interval (ii_storage_offset i) (ii_storage_offset i + ir_storage_width i)] else []
          | None \<Rightarrow> []))"

definition CheckFrameCovered :: "MessageIr \<Rightarrow> FieldSpan list \<Rightarrow> FixedMap \<Rightarrow> CompileDiagnostic + unit" where
  "CheckFrameCovered message spans fixed =
     (let required = (case mi_bounded_payload message of Some b \<Rightarrow> by_header_length b | None \<Rightarrow> mi_frame_length_bytes message)
      in if covered_end (sort_intervals (coverage_spans message spans fixed)) 0 \<noteq> Some required then
           domain_error FRAME_NOT_FULLY_DEFINED (mi_origin message)
         else Inr ())"

section \<open>A message\<close>

text \<open>The checks after the loop over the fields, on the message with its references resolved.\<close>

definition CheckMessageLayout ::
    "MessageIr \<Rightarrow> FieldSpan list \<Rightarrow> nat list \<Rightarrow> nat \<Rightarrow> CompileDiagnostic + unit" where
  "CheckMessageLayout message spans member_counts computed_length_count =
     (if (case mi_bounded_payload message of None \<Rightarrow> False | Some b \<Rightarrow> computed_length_count \<noteq> 1) then
        domain_error CE_UNSUPPORTED_FEATURE (by_origin (the (mi_bounded_payload message)))
      else case first_unused member_counts (mi_bit_containers message) of
        Some container \<Rightarrow> domain_error EMPTY_ARRAY (ci_origin container)
      | None \<Rightarrow>
          (case first_overlap_ir (sort_spans spans) of
             Some overlap \<Rightarrow> domain_error FIELD_OVERLAP (case sp_field overlap of Some pointer \<Rightarrow> pointer | None \<Rightarrow> mi_origin message)
           | None \<Rightarrow>
               followed_by (CheckIntegrity message (sort_spans spans)) (\<lambda>_.
               followed_by (each (CheckMatcher message) 0 (mi_matcher_clauses message) []) (\<lambda>fixed.
               if mi_bounded_payload message \<noteq> None \<and> fixed = [] then domain_error MATCHER_CONFLICT (mi_origin message)
               else
               followed_by (each (CheckComputedStorage fixed) 0 (mi_fields message) ()) (\<lambda>_.
               followed_by (CheckIntegrityStorage message fixed) (\<lambda>_.
               followed_by (each (CheckConstantBytes fixed) 0 (mi_fields message) ()) (\<lambda>_.
               followed_by (let d = fold (enter_bits (mi_bit_containers message)) (mi_fields message)
                                      (initial_bits (mi_bit_containers message))
                            in each (CheckContainerBytes message fixed d) 0 (mi_bit_containers message) ()) (\<lambda>_.
               CheckFrameCovered message (sort_spans spans) fixed))))))))"

definition ValidateMessageDomain ::
    "MessageIr \<Rightarrow> ResourceRequirements \<Rightarrow> CompileDiagnostic + MessageIr \<times> ResourceRequirements" where
  "ValidateMessageDomain message requirements =
     (if mi_ascii_text message \<noteq> None then ValidateAsciiMessage message requirements
      else
        followed_by (ResolveBoundedPayload message) (\<lambda>message.
        followed_by (CountMessageParts message requirements) (\<lambda>requirements.
        followed_by (each (ValidateContainer message) 0 (mi_bit_containers message) ([], [])) (\<lambda>(container_ids, spans).
        let n = length (mi_bit_containers message)
        in followed_by (each (ValidateField message container_ids) 0 (mi_fields message)
             \<lparr>fo_fields = [], fo_ids = [], fo_spans = spans, fo_member_masks = replicate n 0,
              fo_member_counts = replicate n 0, fo_computed_length_count = 0, fo_requirements = requirements\<rparr>) (\<lambda>s.
        let message = message\<lparr>mi_fields := fo_fields s\<rparr>
        in followed_by (CheckMessageLayout message (fo_spans s) (fo_member_counts s) (fo_computed_length_count s)) (\<lambda>_.
             Inr (message, fo_requirements s)))))))"

section \<open>Framing profiles\<close>

text \<open>A profile for complete records that has a strategy for streams is refused with the diagnostic the caller
  started with.\<close>

definition ValidateStreamFramingLocal :: "FramingProfileIr \<Rightarrow> CompileDiagnostic + unit" where
  "ValidateStreamFramingLocal f =
     (let pointer = fi_origin f; width = fi_length_field_width f; order = fi_length_field_byte_order f;
          offset = fi_length_field_offset f
      in if fi_input_kind f = IK_COMPLETE_RECORD then
           (if fi_strategy f = FS_COMPLETE_RECORD then Inr () else Inl (SetDiagnostic INTERNAL INTERNAL_CONTRACT_VIOLATION ''''))
         else case fi_strategy f of
           FS_FIXED_LENGTH \<Rightarrow>
             if fi_frame_length_bytes f = 0 then
               domain_error INTEGER_OUT_OF_RANGE (ChildPointer pointer ''frame_length_bytes'')
             else Inr ()
         | FS_SYNC_FIXED_LENGTH \<Rightarrow>
             if fi_frame_length_bytes f = 0 \<or> fi_sync_bytes f = [] \<or> length (fi_sync_bytes f) > fi_frame_length_bytes f then
               domain_error FIELD_OUT_OF_BOUNDS pointer
             else Inr ()
         | FS_ASCII_CRLF \<Rightarrow>
             if fi_sync_bytes f \<noteq> [0x0D, 0x0A] \<or> fi_frame_length_bytes f \<noteq> 0 \<or> offset \<noteq> 0 \<or> width \<noteq> 0 \<or>
                order \<noteq> BO_NOT_APPLICABLE \<or> fi_minimum_frame_length f \<noteq> 0 \<or> fi_maximum_frame_length f < 2 then
               domain_error ASCII_STREAM_PROFILE_MISMATCH pointer
             else Inr ()
         | strategy \<Rightarrow>
             if strategy \<noteq> FS_SYNC_LENGTH_FIELD \<or> fi_sync_bytes f = [] \<or> (width \<noteq> 1 \<and> width \<noteq> 2 \<and> width \<noteq> 4) \<or>
                (width = 1 \<and> order \<noteq> BO_NOT_APPLICABLE) \<or> (width \<noteq> 1 \<and> order \<noteq> BO_BIG \<and> order \<noteq> BO_LITTLE) \<or>
                fi_minimum_frame_length f = 0 \<or> fi_minimum_frame_length f > fi_maximum_frame_length f \<or>
                offset > 2 ^ 64 - 1 - width \<or> offset + width > fi_minimum_frame_length f then
               domain_error FIELD_OUT_OF_BOUNDS pointer
             else if offset < length (fi_sync_bytes f) \<and> offset + width > 0 then
               domain_error FIELD_OVERLAP (ChildPointer pointer ''length_field'')
             else if fi_maximum_frame_length f > (if width = 1 then 0xFF else if width = 2 then 0xFFFF else 0xFFFFFFFF) then
               domain_error VALUE_NOT_REPRESENTABLE (ChildPointer pointer ''maximum_frame_length'')
             else Inr ())"

definition ValidateFraming :: "nat \<Rightarrow> FramingProfileIr \<Rightarrow> ResourceRequirements \<Rightarrow> CompileDiagnostic + ResourceRequirements" where
  "ValidateFraming index f r =
     followed_by (ValidateStreamFramingLocal f) (\<lambda>_.
       if fi_input_kind f = IK_STREAM_CHUNK then
         let frame_limit = (if fi_strategy f = FS_SYNC_LENGTH_FIELD \<or> fi_strategy f = FS_ASCII_CRLF
                            then fi_maximum_frame_length f else fi_frame_length_bytes f)
         in if frame_limit > SIZE_MAX then domain_error INTEGER_OUT_OF_RANGE (fi_origin f)
            else Inr (r\<lparr>rq_max_stream_frame_bytes := max (rq_max_stream_frame_bytes r) frame_limit,
                        rq_max_sync_bytes := max (rq_max_sync_bytes r) (length (fi_sync_bytes f))\<rparr>)
       else Inr r)"

section \<open>Pipelines\<close>

definition MessageFrameBounds :: "MessageIr \<Rightarrow> nat \<times> nat" where
  "MessageFrameBounds message =
     (case mi_bounded_payload message of
        Some b \<Rightarrow> (by_min_frame_length b, by_max_frame_length b)
      | None \<Rightarrow> (mi_frame_length_bytes message, mi_frame_length_bytes message))"

text \<open>The first fixed matcher that reaches an offset decides about the byte there.\<close>

definition MessageHasSyncMatcher :: "MessageIr \<Rightarrow> u8 list \<Rightarrow> bool" where
  "MessageHasSyncMatcher message sync \<longleftrightarrow>
     list_all (\<lambda>offset.
       case find (\<lambda>matcher. \<not> (mc_kind matcher \<noteq> MK_FIXED_BYTES \<or> offset < mc_byte_offset matcher \<or>
                   offset - mc_byte_offset matcher \<ge> length (mc_bytes matcher))) (mi_matcher_clauses message) of
         None \<Rightarrow> False
       | Some matcher \<Rightarrow> mc_bytes matcher ! (offset - mc_byte_offset matcher) = sync ! offset) [0..<length sync]"

definition MessageHasLengthField :: "MessageIr \<Rightarrow> FramingProfileIr \<Rightarrow> bool" where
  "MessageHasLengthField message f \<longleftrightarrow>
     list_ex (\<lambda>field. fd_value_type field = VT_UINT64 \<and>
       (case fd_computed_length field of None \<Rightarrow> False | Some computed \<Rightarrow> li_scope computed = CL_FRAME) \<and>
       wi_codec (fd_wire field) = WC_UNSIGNED_INTEGER \<and> wi_byte_offset (fd_wire field) = fi_length_field_offset f \<and>
       wi_byte_width (fd_wire field) = fi_length_field_width f \<and>
       wi_byte_order (fd_wire field) = fi_length_field_byte_order f) (mi_fields message)"

definition fixed_bytes_of :: "MessageIr \<Rightarrow> (nat \<times> u8) list" where
  "fixed_bytes_of message =
     concat (map (\<lambda>matcher. if mc_kind matcher \<noteq> MK_FIXED_BYTES then []
                            else enumerate (mc_byte_offset matcher) (mc_bytes matcher)) (mi_matcher_clauses message))"

definition FixedMatchersCanIntersect_ir :: "MessageIr \<Rightarrow> MessageIr \<Rightarrow> bool" where
  "FixedMatchersCanIntersect_ir left right =
     (if mi_ascii_text left \<noteq> None \<or> mi_ascii_text right \<noteq> None then False
      else
        let minimum = (\<lambda>m. case mi_bounded_payload m of Some b \<Rightarrow> by_min_frame_length b | None \<Rightarrow> mi_frame_length_bytes m)
        in if mi_frame_length_bytes left < minimum right \<or> mi_frame_length_bytes right < minimum left then False
           else list_all (\<lambda>(offset, byte). case map_of (fixed_bytes_of left) offset of
                  None \<Rightarrow> True | Some left_byte \<Rightarrow> left_byte = byte) (fixed_bytes_of right))"

definition ResolveReference ::
    "SchemaIr \<Rightarrow> (string \<times> nat) list \<Rightarrow> PipelineIr \<Rightarrow> nat \<Rightarrow> string \<Rightarrow> string list \<times> nat list \<Rightarrow>
     CompileDiagnostic + string list \<times> nat list" where
  "ResolveReference schema message_index pipeline reference_index message_id s =
     (case s of (seen_message_ids, resolved) \<Rightarrow>
        let pointer = IndexPointer (ChildPointer (pi_origin pipeline) ''message_ids'') reference_index;
            messages = sc_messages schema
        in if message_id \<in> set seen_message_ids then domain_error DUPLICATE_REFERENCE pointer
           else case map_of message_index message_id of
             None \<Rightarrow> domain_error UNKNOWN_REFERENCE pointer
           | Some k \<Rightarrow>
               if mi_direction_id (messages ! k) \<noteq> pi_direction_id pipeline then domain_error DIRECTION_MISMATCH pointer
               else if list_ex (\<lambda>earlier. FixedMatchersCanIntersect_ir (messages ! earlier) (messages ! k)) resolved then
                 domain_error CE_AMBIGUOUS_MATCHER pointer
               else Inr (message_id # seen_message_ids, resolved @ [k]))"

definition CheckStreamMessage ::
    "SchemaIr \<Rightarrow> PipelineIr \<Rightarrow> FramingProfileIr \<Rightarrow> nat \<Rightarrow> nat \<Rightarrow> nat \<Rightarrow> CompileDiagnostic + nat" where
  "CheckStreamMessage schema pipeline f index k ascii_decode_candidates =
     (let message = sc_messages schema ! k; bounds = MessageFrameBounds message;
          pointer = ChildPointer (pi_origin pipeline) ''message_ids''
      in if fi_strategy f = FS_ASCII_CRLF then
           (case mi_ascii_text message of
              None \<Rightarrow> Inr ascii_decode_candidates
            | Some layout \<Rightarrow>
                (case al_decode layout of
                   None \<Rightarrow> Inr ascii_decode_candidates
                 | Some decode \<Rightarrow>
                     if ta_max_record_length decode > fi_maximum_frame_length f then
                       domain_error ASCII_STREAM_PROFILE_MISMATCH pointer
                     else if \<not> ProveAsciiCrLfBoundary_ir decode (mi_fields message) then
                       domain_error ASCII_STREAM_BOUNDARY_UNPROVEN (al_origin layout)
                     else Inr (ascii_decode_candidates + 1)))
         else if (fi_strategy f = FS_FIXED_LENGTH \<or> fi_strategy f = FS_SYNC_FIXED_LENGTH) \<and>
                 (fst bounds \<noteq> fi_frame_length_bytes f \<or> snd bounds \<noteq> fi_frame_length_bytes f) then
           domain_error FIELD_OUT_OF_BOUNDS pointer
         else if fi_strategy f \<noteq> FS_FIXED_LENGTH \<and> \<not> MessageHasSyncMatcher message (fi_sync_bytes f) then
           domain_error MATCHER_CONFLICT pointer
         else if fi_strategy f = FS_SYNC_LENGTH_FIELD \<and>
                 (fst bounds < fi_minimum_frame_length f \<or> snd bounds > fi_maximum_frame_length f \<or>
                  \<not> MessageHasLengthField message f) then
           domain_error FIELD_OUT_OF_BOUNDS pointer
         else Inr ascii_decode_candidates)"

definition ValidatePipeline ::
    "SchemaIr \<Rightarrow> (string \<times> nat) list \<Rightarrow> (string \<times> nat) list \<Rightarrow> nat \<Rightarrow> PipelineIr \<Rightarrow> ResolvedPipelineIr list \<Rightarrow>
     CompileDiagnostic + ResolvedPipelineIr list" where
  "ValidatePipeline schema framing_index message_index index pipeline done_pipelines =
     (case map_of framing_index (pi_input_framing_profile_id pipeline) of
        None \<Rightarrow> domain_error UNKNOWN_REFERENCE (ChildPointer (pi_origin pipeline) ''input_framing_profile_id'')
      | Some profile_index \<Rightarrow>
          followed_by (each (ResolveReference schema message_index pipeline) 0 (pi_message_ids pipeline) ([], []))
            (\<lambda>(seen_message_ids, resolved).
          let f = sc_framing_profiles schema ! profile_index;
              finished = Inr (done_pipelines @ [\<lparr>rp_framing_profile_index = profile_index, rp_message_indices = resolved\<rparr>])
          in if fi_input_kind f = IK_STREAM_CHUNK then
               followed_by (each (CheckStreamMessage schema pipeline f) 0 resolved 0) (\<lambda>ascii_decode_candidates.
                 if fi_strategy f = FS_ASCII_CRLF \<and> ascii_decode_candidates = 0 then
                   domain_error ASCII_STREAM_PROFILE_MISMATCH (ChildPointer (pi_origin pipeline) ''message_ids'')
                 else finished)
             else finished))"

section \<open>The validator\<close>

definition BuildUniqueIdIndex :: "('i \<Rightarrow> string) \<Rightarrow> ('i \<Rightarrow> string) \<Rightarrow> 'i list \<Rightarrow> CompileDiagnostic + (string \<times> nat) list" where
  "BuildUniqueIdIndex id_of origin_of items =
     each (\<lambda>item_index item index.
       case emplace (id_of item) item_index index of
         None \<Rightarrow> domain_error DUPLICATE_ID (ChildPointer (origin_of item) ''id'')
       | Some index \<Rightarrow> Inr index) 0 items []"

definition ValidateMessages ::
    "SchemaIr \<Rightarrow> ResourceRequirements \<Rightarrow> CompileDiagnostic + MessageIr list \<times> ResourceRequirements" where
  "ValidateMessages schema requirements =
     each (\<lambda>index message (done_messages, requirements).
       followed_by (ValidateMessageDomain message requirements) (\<lambda>(message, requirements).
         Inr (done_messages @ [message], requirements))) 0 (sc_messages schema) ([], requirements)"

definition Validate :: "SchemaIr \<Rightarrow> CompileDiagnostic + ValidatedSchemaIr" where
  "Validate schema =
     followed_by (BuildUniqueIdIndex fi_id fi_origin (sc_framing_profiles schema)) (\<lambda>framing_index.
     followed_by (BuildUniqueIdIndex pi_id pi_origin (sc_pipelines schema)) (\<lambda>pipeline_index.
     followed_by (BuildUniqueIdIndex mi_id mi_origin (sc_messages schema)) (\<lambda>message_index.
     let requirements = no_requirements\<lparr>rq_framing_profile_count := length (sc_framing_profiles schema),
           rq_pipeline_count := length (sc_pipelines schema), rq_message_count := length (sc_messages schema)\<rparr>
     in followed_by (each ValidateFraming 0 (sc_framing_profiles schema) requirements) (\<lambda>requirements.
        followed_by (ValidateMessages schema
            (requirements\<lparr>rq_max_framing_buffer_bytes := rq_max_stream_frame_bytes requirements\<rparr>))
          (\<lambda>(messages, requirements).
        let schema = schema\<lparr>sc_messages := messages\<rparr>
        in followed_by (each (ValidatePipeline schema framing_index message_index) 0 (sc_pipelines schema) [])
             (\<lambda>resolved_pipelines.
             Inr \<lparr>va_schema = schema, va_resolved_pipelines = resolved_pipelines, va_requirements = requirements\<rparr>))))))"

end
