(* ===== verification/Compiler_Budget.thy ===== *)
theory Compiler_Budget
  imports Compiler_Domain
begin

text \<open>
  The budget of a validated configuration and its assembly into a plan draft, the resource budget validator, the
  draft assembler and the last step of \<^verbatim>\<open>src/src/config_compiler/config_compiler.cpp\<close>.  The sizes and
  alignments of the engine's types are those of the platform, as in \<open>Plan_Freezing\<close>.
\<close>

section \<open>The estimate\<close>

definition AddStringLayout_ir :: "Abi \<Rightarrow> string \<Rightarrow> layout_step" where
  "AddStringLayout_ir abi v l =
     (if v = [] then Some l else AddArray (abi_max_align abi) byte_layout (length v) PC_STRING l)"

definition EstimateFraming_ir :: "Abi \<Rightarrow> FramingProfileIr \<Rightarrow> layout_step" where
  "EstimateFraming_ir abi f = steps
     [AddStringLayout_ir abi (fi_id f),
      add_array abi byte_layout (fi_sync_bytes f) PC_EXTENSION,
      add_array abi (abi_size_t abi) (fi_sync_bytes f) PC_EXTENSION]"

definition EstimatePipeline_ir :: "Abi \<Rightarrow> PipelineIr \<times> ResolvedPipelineIr \<Rightarrow> layout_step" where
  "EstimatePipeline_ir abi p = steps
     [AddStringLayout_ir abi (pi_id (fst p)), AddStringLayout_ir abi (pi_direction_id (fst p)),
      add_array abi (abi_size_t abi) (rp_message_indices (snd p)) PC_METADATA_CONTAINER]"

definition EstimateField_ir :: "Abi \<Rightarrow> FieldIr \<Rightarrow> layout_step" where
  "EstimateField_ir abi f = steps
     ([AddStringLayout_ir abi (fd_id f),
       add_array abi (abi_FrozenEnumEntryPlan abi) (fd_enum_entries f) PC_METADATA_CONTAINER] @
      map (\<lambda>e. AddStringLayout_ir abi (ei_id e)) (fd_enum_entries f))"

definition EstimateMessage_ir :: "Abi \<Rightarrow> MessageIr \<Rightarrow> layout_step" where
  "EstimateMessage_ir abi m = steps
     ([AddStringLayout_ir abi (mi_id m), AddStringLayout_ir abi (mi_direction_id m),
       add_array abi (abi_FrozenMatcherPlan abi) (mi_matcher_clauses m) PC_METADATA_CONTAINER] @
      map (\<lambda>x. add_array abi byte_layout (mc_bytes x) PC_MATCHER) (mi_matcher_clauses m) @
      [add_array abi (abi_FrozenBitContainerPlan abi) (mi_bit_containers m) PC_METADATA_CONTAINER] @
      map (\<lambda>c. AddStringLayout_ir abi (ci_id c)) (mi_bit_containers m) @
      [add_array abi (abi_FrozenFieldPlan abi) (mi_fields m) PC_METADATA_CONTAINER] @
      map (EstimateField_ir abi) (mi_fields m))"

definition conversion_count :: "SchemaIr \<Rightarrow> nat option" where
  "conversion_count schema =
     fold (\<lambda>field subtotal. if fd_conversion field = None then subtotal else Option.bind subtotal (AddSizeChecked 1))
       (concat (map mi_fields (sc_messages schema))) (Some 0)"

text \<open>The offsets the fixed matchers of a message fix, each once.\<close>

definition fixed_byte_offsets :: "MessageIr \<Rightarrow> nat list" where
  "fixed_byte_offsets m =
     remdups (concat (map (\<lambda>matcher. if mc_kind matcher \<noteq> MK_FIXED_BYTES then []
       else map (\<lambda>byte_index. mc_byte_offset matcher + byte_index) [0..<length (mc_bytes matcher)]) (mi_matcher_clauses m)))"

definition EstimateTextAction_ir :: "Abi \<Rightarrow> TextActionIr option \<Rightarrow> layout_step" where
  "EstimateTextAction_ir abi action =
     (case action of
        None \<Rightarrow> Some
      | Some a \<Rightarrow> steps
          (add_array abi (abi_TextSegmentExecutionPlan abi) (ta_segments a) PC_EXECUTION_DESCRIPTOR #
           concat (map (\<lambda>s. [add_array abi byte_layout (ti_literal s) PC_MATCHER,
                             add_array abi (abi_size_t abi) (ti_literal s) PC_MATCHER]) (ta_segments a))))"

definition EstimateMessageExecution_ir :: "Abi \<Rightarrow> MessageIr \<Rightarrow> layout_step" where
  "EstimateMessageExecution_ir abi m =
     (let enum_entry_count = sum_list (map (\<lambda>field. length (fd_enum_entries field)) (mi_fields m))
      in steps
        ([add_array abi (abi_FixedByteExecutionPlan abi) (fixed_byte_offsets m) PC_MATCHER,
          add_array abi (abi_BitContainerExecutionPlan abi) (mi_bit_containers m) PC_EXECUTION_DESCRIPTOR,
          add_array abi (abi_FieldExecutionPlan abi) (mi_fields m) PC_EXECUTION_DESCRIPTOR,
          AddArray (abi_max_align abi) (abi_uint64 abi) enum_entry_count PC_INDEX,
          AddArray (abi_max_align abi) (abi_EnumLookupExecutionPlan abi) enum_entry_count PC_INDEX] @
         (case mi_ascii_text m of
            None \<Rightarrow> []
          | Some layout \<Rightarrow> [EstimateTextAction_ir abi (al_decode layout), EstimateTextAction_ir abi (al_encode layout)])))"

text \<open>What the loop over the messages of a pipeline counts: the candidates of each fixed length, those of variable
  length and the text messages that can be decoded.\<close>

definition count_candidate :: "MessageIr list \<Rightarrow> nat \<Rightarrow> (nat \<times> nat) list \<times> nat \<times> nat \<Rightarrow> (nat \<times> nat) list \<times> nat \<times> nat" where
  "count_candidate messages k s =
     (case s of (candidate_groups, variable_count, text_count) \<Rightarrow>
        let m = messages ! k; n = mi_frame_length_bytes m
        in case mi_ascii_text m of
             Some layout \<Rightarrow> (candidate_groups, variable_count, if al_decode layout \<noteq> None then text_count + 1 else text_count)
           | None \<Rightarrow>
               if mi_bounded_payload m \<noteq> None then (candidate_groups, variable_count + 1, text_count)
               else (map_put n (case map_of candidate_groups n of None \<Rightarrow> 1 | Some count \<Rightarrow> count + 1) candidate_groups,
                     variable_count, text_count))"

definition EstimatePipelineExecution_ir :: "Abi \<Rightarrow> MessageIr list \<Rightarrow> ResolvedPipelineIr \<Rightarrow> layout_step" where
  "EstimatePipelineExecution_ir abi messages p =
     (let count = AddArray (abi_max_align abi);
          allowed_word_count = length messages div 64 + (if length messages mod 64 = 0 then 0 else 1)
      in case fold (count_candidate messages) (rp_message_indices p) ([], 0, 0) of
           (candidate_groups, variable_count, text_count) \<Rightarrow> steps
             ([count (abi_uint64 abi) allowed_word_count PC_INDEX,
               count (abi_CandidateGroupExecutionPlan abi) (length candidate_groups) PC_EXECUTION_DESCRIPTOR,
               count (abi_size_t abi) variable_count PC_INDEX,
               count (abi_size_t abi) text_count PC_INDEX] @
              map (\<lambda>(frame_length, message_count). count (abi_size_t abi) message_count PC_INDEX) candidate_groups))"

definition EstimateSchemaPlanMemory ::
    "Abi \<Rightarrow> SchemaIr \<Rightarrow> ResolvedPipelineIr list \<Rightarrow> nat \<Rightarrow> PlanMemoryReport option" where
  "EstimateSchemaPlanMemory abi schema resolved_pipelines limit_bytes =
     map_option ml_report (steps
       ([AddArray (abi_max_align abi) (abi_PlanBundle abi) 1 PC_OBJECT,
         AddStringLayout_ir abi (sc_schema_version schema), AddStringLayout_ir abi (sc_protocol_id schema),
         AddStringLayout_ir abi (sc_protocol_version schema),
         add_array abi (abi_FrozenFramingPlan abi) (sc_framing_profiles schema) PC_METADATA_CONTAINER] @
        map (EstimateFraming_ir abi) (sc_framing_profiles schema) @
        [add_array abi (abi_FrozenPipelinePlan abi) (sc_pipelines schema) PC_METADATA_CONTAINER] @
        map (EstimatePipeline_ir abi) (zip (sc_pipelines schema) resolved_pipelines) @
        [add_array abi (abi_FrozenMessagePlan abi) (sc_messages schema) PC_METADATA_CONTAINER] @
        map (EstimateMessage_ir abi) (sc_messages schema) @
        [\<lambda>l. case conversion_count schema of
               None \<Rightarrow> None
             | Some count \<Rightarrow> AddArray (abi_max_align abi) (abi_LinearConversionDescriptor abi) count PC_EXTENSION l,
         add_array abi (abi_MessageExecutionPlan abi) (sc_messages schema) PC_EXECUTION_DESCRIPTOR] @
        map (EstimateMessageExecution_ir abi) (sc_messages schema) @
        [add_array abi (abi_PipelineExecutionPlan abi) (sc_pipelines schema) PC_EXECUTION_DESCRIPTOR] @
        map (EstimatePipelineExecution_ir abi (sc_messages schema)) resolved_pipelines) (new_layout limit_bytes))"

section \<open>The budget\<close>

definition CheckResourceCount :: "nat \<Rightarrow> nat \<Rightarrow> string \<Rightarrow> CompileDiagnostic + unit" where
  "CheckResourceCount v limit pointer =
     (if v \<le> limit then Inr () else Inl (SetDiagnostic RESOURCE_BUDGET CE_RESOURCE_LIMIT_EXCEEDED pointer))"

definition CheckStreamBudget :: "ResourceProfileLimits \<Rightarrow> ResourceRequirements \<Rightarrow> CompileDiagnostic + unit" where
  "CheckStreamBudget budget r =
     (let refuse = (\<lambda>pointer. Inl (SetDiagnostic RESOURCE_BUDGET CE_RESOURCE_LIMIT_EXCEEDED pointer))
      in if rq_max_frame_bytes r > max_frame_bytes budget then refuse ''/messages''
         else if rq_max_stream_frame_bytes r > max_frame_bytes budget \<or>
                 rq_max_stream_frame_bytes r > kMaxStreamFrameBytesHardLimit then refuse ''/framing_profiles''
         else if rq_max_sync_bytes r > max_sync_bytes budget \<or> rq_max_sync_bytes r > kMaxStreamSyncBytesHardLimit then
           refuse ''/framing_profiles''
         else if rq_max_framing_buffer_bytes r > max_session_memory_bytes budget \<or>
                 rq_max_framing_buffer_bytes r > kMaxStreamSessionMemoryBytesHardLimit then refuse ''/framing_profiles''
         else Inr ())"

fun all_counts :: "(nat \<times> nat \<times> string) list \<Rightarrow> CompileDiagnostic + unit" where
  "all_counts [] = Inr ()"
| "all_counts ((v, limit, pointer) # counts) = followed_by (CheckResourceCount v limit pointer) (\<lambda>_. all_counts counts)"

definition total_counts :: "ResourceProfileLimits \<Rightarrow> ResourceRequirements \<Rightarrow> (nat \<times> nat \<times> string) list" where
  "total_counts budget r =
     [(rq_framing_profile_count r, max_framing_profiles budget, ''/framing_profiles''),
      (rq_pipeline_count r, max_pipelines budget, ''/pipelines''),
      (rq_message_count r, max_messages budget, ''/messages''),
      (rq_total_field_count r, max_total_fields budget, ''/messages''),
      (rq_total_matcher_count r, max_total_matchers budget, ''/messages''),
      (rq_total_enum_entry_count r, max_total_enum_entries budget, ''/messages''),
      (rq_total_bit_container_count r, max_total_fields budget, ''/messages''),
      (rq_total_integrity_rule_count r, max_messages budget, ''/messages''),
      (rq_total_text_segment_count r, 4 * max_total_fields budget + 2 * max_messages budget, ''/messages''),
      (rq_total_computed_length_count r, max_messages budget, ''/messages''),
      (rq_total_conversion_count r, max_total_fields budget, ''/messages'')]"

definition message_counts :: "ResourceProfileLimits \<Rightarrow> MessageIr \<Rightarrow> (nat \<times> nat \<times> string) list" where
  "message_counts budget m =
     (let per_action_limit = 2 * max_fields_per_message budget + 1;
          action_count = (\<lambda>action name layout. case action of
            None \<Rightarrow> [] | Some a \<Rightarrow> [(length (ta_segments a), per_action_limit, ChildPointer (al_origin layout) name)])
      in [(length (mi_fields m), max_fields_per_message budget, ChildPointer (mi_origin m) ''fields''),
          (length (mi_matcher_clauses m), max_matchers_per_message budget, ChildPointer (mi_origin m) ''matcher''),
          (length (mi_bit_containers m), max_fields_per_message budget, ChildPointer (mi_origin m) ''bit_containers'')] @
         map (\<lambda>field. (length (fd_enum_entries field), max_enum_entries_per_field budget,
                       ChildPointer (fd_origin field) ''enum_entries'')) (mi_fields m) @
         (case mi_ascii_text m of
            None \<Rightarrow> []
          | Some layout \<Rightarrow> action_count (al_decode layout) ''decode'' layout @ action_count (al_encode layout) ''encode'' layout))"

text \<open>The budget takes the limit of a test in place of that of the profile, never over the hard limit.\<close>

definition ValidateBudget :: "Abi \<Rightarrow> nat option \<Rightarrow> ValidatedSchemaIr \<Rightarrow> CompileDiagnostic + BudgetedSchemaIr" where
  "ValidateBudget abi test_plan_memory_limit_bytes validated =
     (let schema = va_schema validated; r = va_requirements validated; profile = sc_resource_profile schema;
          budget = GetResourceProfileLimits profile
      in followed_by (CheckStreamBudget budget r) (\<lambda>_.
         followed_by (all_counts (total_counts budget r)) (\<lambda>_.
         followed_by (all_counts (concat (map (message_counts budget) (sc_messages schema)))) (\<lambda>_.
           let plan_memory_limit = min (case test_plan_memory_limit_bytes of Some n \<Rightarrow> n | None \<Rightarrow> max_plan_memory_bytes budget)
                 kV01MaxPlanMemoryHardLimit
           in case EstimateSchemaPlanMemory abi schema (va_resolved_pipelines validated) SIZE_MAX of
                None \<Rightarrow> Inl (SetPlanMemoryDiagnostic SIZE_MAX plan_memory_limit profile)
              | Some plan_memory \<Rightarrow>
                  if mr_accounted_total_bytes plan_memory > plan_memory_limit then
                    Inl (SetPlanMemoryDiagnostic (mr_accounted_total_bytes plan_memory) plan_memory_limit profile)
                  else Inr \<lparr>bu_validated = validated, bu_plan_memory = plan_memory,
                            bu_plan_memory_limit_bytes = plan_memory_limit\<rparr>))))"

section \<open>Assembly\<close>

text \<open>The construction of the table always ends, by \<open>BuildPrefixTable_border\<close>.\<close>

definition prefix_table_of :: "u8 list \<Rightarrow> nat list" where
  "prefix_table_of pat = (case BuildPrefixTable pat of Some t \<Rightarrow> t | None \<Rightarrow> [])"

definition AssembleFraming :: "FramingProfileIr \<Rightarrow> FramingPlan" where
  "AssembleFraming f = \<lparr>fp_id = fi_id f, fp_input_kind = fi_input_kind f, fp_strategy = fi_strategy f,
     fp_frame_length_bytes = fi_frame_length_bytes f, fp_sync_bytes = fi_sync_bytes f,
     fp_sync_prefix_table = prefix_table_of (fi_sync_bytes f),
     fp_length_field_offset = fi_length_field_offset f, fp_length_field_width = fi_length_field_width f,
     fp_length_field_byte_order = fi_length_field_byte_order f,
     fp_minimum_frame_length = fi_minimum_frame_length f, fp_maximum_frame_length = fi_maximum_frame_length f\<rparr>"

definition AssemblePipeline :: "PipelineIr \<times> ResolvedPipelineIr \<Rightarrow> PipelinePlan" where
  "AssemblePipeline p = \<lparr>pl_id = pi_id (fst p), pl_direction_id = pi_direction_id (fst p),
     pl_framing_profile_index = rp_framing_profile_index (snd p), pl_message_indices = rp_message_indices (snd p)\<rparr>"

definition AssembleSegment :: "TextSegmentIr \<Rightarrow> TextSegmentPlan" where
  "AssembleSegment s = \<lparr>tsp_kind = ti_kind s, tsp_literal = ti_literal s,
     tsp_prefix_table = prefix_table_of (ti_literal s), tsp_field_index = ti_field_index s\<rparr>"

definition AssembleAction :: "TextActionIr \<Rightarrow> TextActionPlan" where
  "AssembleAction a = \<lparr>tap_segments = map AssembleSegment (ta_segments a),
     tap_min_record_length = ta_min_record_length a, tap_max_record_length = ta_max_record_length a\<rparr>"

definition AssembleText :: "AsciiTextLayoutIr \<Rightarrow> AsciiTextPlan" where
  "AssembleText layout = \<lparr>at_decode = map_option AssembleAction (al_decode layout),
     at_encode = map_option AssembleAction (al_encode layout)\<rparr>"

definition AssembleMatcher :: "MatcherClauseIr \<Rightarrow> MatcherPlan" where
  "AssembleMatcher c = \<lparr>mp_kind = mc_kind c, mp_length_bytes = mc_length_bytes c, mp_byte_offset = mc_byte_offset c,
     mp_bytes = mc_bytes c\<rparr>"

definition AssembleContainer :: "BitContainerIr \<Rightarrow> BitContainerPlan" where
  "AssembleContainer c = \<lparr>bc_id = ci_id c, bc_byte_offset = ci_byte_offset c, bc_byte_width = ci_byte_width c,
     bc_byte_order = ci_byte_order c, bc_bit_numbering = ci_bit_numbering c, bc_base_value = ci_base_value c\<rparr>"

definition AssembleIntegrity :: "IntegrityIr \<Rightarrow> IntegrityPlan" where
  "AssembleIntegrity i = \<lparr>ip_algorithm = ii_algorithm i, ip_range_offset = ii_range_offset i,
     ip_range_length = ii_range_length i, ip_storage_offset = ii_storage_offset i,
     ip_range_ends_at_payload = ii_range_ends_at_payload i, ip_storage_at_payload_end = ii_storage_at_payload_end i,
     ip_crc_width = ii_crc_width i, ip_crc_polynomial = ii_crc_polynomial i,
     ip_crc_initial_value = ii_crc_initial_value i, ip_crc_xor_output = ii_crc_xor_output i,
     ip_crc_reflect_input = ii_crc_reflect_input i, ip_crc_reflect_output = ii_crc_reflect_output i,
     ip_storage_byte_order = ii_storage_byte_order i\<rparr>"

definition AssembleBoundedPayload :: "BoundedPayloadIr \<Rightarrow> BoundedPayloadPlan" where
  "AssembleBoundedPayload b = \<lparr>bp_payload_field_index = by_payload_field_index b,
     bp_header_length = by_header_length b, bp_min_payload_length = by_min_payload_length b,
     bp_max_payload_length = by_max_payload_length b, bp_trailer_length = by_trailer_length b,
     bp_min_frame_length = by_min_frame_length b, bp_max_frame_length = by_max_frame_length b\<rparr>"

text \<open>The first field with a computed length gives the descriptor.\<close>

definition AssembleComputedLength :: "MessageIr \<Rightarrow> ComputedLengthPlan option" where
  "AssembleComputedLength m =
     map_option (\<lambda>(field_index, field).
       let wire = fd_wire field; computed = the (fd_computed_length field)
       in \<lparr>cl_field_index = field_index, cl_storage_offset = wi_byte_offset wire, cl_storage_width = wi_byte_width wire,
           cl_byte_order = wi_byte_order wire, cl_scope = li_scope computed, cl_range_offset = li_range_offset computed,
           cl_range_length = li_range_length computed,
           cl_expected_value = of_nat (case li_scope computed of
              CL_FRAME \<Rightarrow> mi_frame_length_bytes m
            | CL_PAYLOAD \<Rightarrow> by_max_payload_length (the (mi_bounded_payload m))
            | CL_REGION \<Rightarrow> li_range_length computed)\<rparr>)
       (find (\<lambda>(field_index, field). fd_computed_length field \<noteq> None) (enumerate 0 (mi_fields m)))"

text \<open>The conversions of all fields go into one table, in the order of the fields.\<close>

definition AssembleField :: "FieldIr \<Rightarrow> LinearConversionDescriptor list \<Rightarrow> FieldPlan \<times> LinearConversionDescriptor list" where
  "AssembleField f conversions =
     (\<lparr>fl_id = fd_id f, fl_value_type = fd_value_type f, fl_wire_codec = wi_codec (fd_wire f),
       fl_byte_offset = wi_byte_offset (fd_wire f), fl_byte_width = wi_byte_width (fd_wire f),
       fl_byte_order = wi_byte_order (fd_wire f), fl_encode_source = eo_source (fd_encode f),
       fl_constant_value = eo_constant_value (fd_encode f), fl_unknown_enum_policy = fd_unknown_enum_policy f,
       fl_enum_entries = map (\<lambda>e. \<lparr>ee_id = ei_id e, ee_raw_value = ei_raw_value e\<rparr>) (fd_enum_entries f),
       fl_bit_container_index = wi_bit_container_index (fd_wire f), fl_bit_offset = wi_bit_offset (fd_wire f),
       fl_bit_width = wi_bit_width (fd_wire f), fl_signed_constant_value = eo_signed_constant_value (fd_encode f),
       fl_conversion_index = (if fd_conversion f = None then kInvalidIndex else length conversions),
       fl_text_min_length = wi_text_min_length (fd_wire f), fl_text_max_length = wi_text_max_length (fd_wire f),
       fl_allowed_ascii_low = wi_allowed_ascii_low (fd_wire f), fl_allowed_ascii_high = wi_allowed_ascii_high (fd_wire f)\<rparr>,
      case fd_conversion f of None \<Rightarrow> conversions | Some c \<Rightarrow> conversions @ [lc_derived c])"

fun AssembleFields :: "FieldIr list \<Rightarrow> LinearConversionDescriptor list \<Rightarrow> FieldPlan list \<times> LinearConversionDescriptor list" where
  "AssembleFields [] conversions = ([], conversions)"
| "AssembleFields (f # fs) conversions =
     (case AssembleField f conversions of (plan, conversions) \<Rightarrow>
        case AssembleFields fs conversions of (plans, conversions) \<Rightarrow> (plan # plans, conversions))"

definition AssembleMessage ::
    "MessageIr \<Rightarrow> LinearConversionDescriptor list \<Rightarrow> MessagePlan \<times> LinearConversionDescriptor list" where
  "AssembleMessage m conversions =
     (case AssembleFields (mi_fields m) conversions of (fs, conversions) \<Rightarrow>
       (\<lparr>ms_id = mi_id m, ms_direction_id = mi_direction_id m, ms_frame_length_bytes = mi_frame_length_bytes m,
         ms_matchers = map AssembleMatcher (mi_matcher_clauses m),
         ms_bit_containers = map AssembleContainer (mi_bit_containers m),
         ms_integrity = map_option AssembleIntegrity (mi_integrity m),
         ms_bounded_payload = map_option AssembleBoundedPayload (mi_bounded_payload m),
         ms_computed_length = AssembleComputedLength m, ms_fields = fs,
         ms_ascii_text = map_option AssembleText (mi_ascii_text m)\<rparr>, conversions))"

fun AssembleMessages ::
    "MessageIr list \<Rightarrow> LinearConversionDescriptor list \<Rightarrow> MessagePlan list \<times> LinearConversionDescriptor list" where
  "AssembleMessages [] conversions = ([], conversions)"
| "AssembleMessages (m # ms) conversions =
     (case AssembleMessage m conversions of (plan, conversions) \<Rightarrow>
        case AssembleMessages ms conversions of (plans, conversions) \<Rightarrow> (plan # plans, conversions))"

definition Assemble :: "BudgetedSchemaIr \<Rightarrow> PlanDraftData" where
  "Assemble budgeted =
     (let validated = bu_validated budgeted; schema = va_schema validated
      in case AssembleMessages (sc_messages schema) [] of (messages, conversions) \<Rightarrow>
        \<lparr>dd_schema_version = sc_schema_version schema, dd_protocol_id = sc_protocol_id schema,
         dd_protocol_version = sc_protocol_version schema, dd_resource_profile = sc_resource_profile schema,
         dd_resource_requirements = va_requirements validated,
         dd_framing_profiles = map AssembleFraming (sc_framing_profiles schema),
         dd_pipelines = map AssemblePipeline (zip (sc_pipelines schema) (va_resolved_pipelines validated)),
         dd_messages = messages, dd_conversions = conversions, dd_approved_plan_memory = bu_plan_memory budgeted,
         dd_plan_memory_limit_bytes = bu_plan_memory_limit_bytes budgeted, dd_test_fail_at_allocation = 0\<rparr>)"

section \<open>The last step and the compiler\<close>

text \<open>How a diagnostic of the builder is reported by the compiler.\<close>

definition build_diagnostic :: "PlanBuildDiagnostic \<Rightarrow> CompileDiagnostic" where
  "build_diagnostic d =
     (if pd_code d = ALLOCATION_FAILED then SetDiagnostic INTERNAL COMPILER_ALLOCATION_FAILED ''''
      else if pd_code d = PLAN_MEMORY_LIMIT_EXCEEDED then
        SetPlanMemoryDiagnostic (pd_required_bytes d) (pd_limit_bytes d) (pd_resource_profile d)
      else SetDiagnostic PLAN_BUILD INTERNAL_CONTRACT_VIOLATION '''')"

definition FreezeBudgetedPlanDraft ::
    "BuildPlatform \<Rightarrow> PlanDraftData \<Rightarrow> CompileDiagnostic + PlanBundle \<times> PlanMemoryReport" where
  "FreezeBudgetedPlanDraft platform draft =
     (case Freeze platform (Some draft) of Inr frozen \<Rightarrow> Inr frozen | Inl d \<Rightarrow> Inl (build_diagnostic d))"

text \<open>The stages of the compiler after the reading of the document.\<close>

definition CompileSchemaToPlan ::
    "BuildPlatform \<Rightarrow> nat option \<Rightarrow> SchemaIr \<Rightarrow> CompileDiagnostic + PlanBundle \<times> PlanMemoryReport" where
  "CompileSchemaToPlan platform plan_memory_limit schema =
     followed_by (Validate schema) (\<lambda>validated.
     followed_by (ValidateBudget (bp_abi platform) plan_memory_limit validated) (\<lambda>budgeted.
       FreezeBudgetedPlanDraft platform (Assemble budgeted)))"

end
