(* ===== verification/Plan_Memory_Exact.thy ===== *)
theory Plan_Memory_Exact
  imports Plan_Freezing
begin

text \<open>
  The estimate of the plan builder is exact: what the arena reports when the plan is frozen is what
  \<open>EstimatePreparedPlanMemory\<close> computed, although the two walk over the candidate groups of a pipeline in
  different orders.  Both walks are lists of requests, and \<open>charge1\<close> is the effect of a request on a report.
\<close>

type_synonym request = "TypeLayout \<times> nat \<times> PlanMemoryCategory"

fun charge1 :: "request \<Rightarrow> PlanMemoryReport \<Rightarrow> PlanMemoryReport" where
  "charge1 (ty, count, category) r =
     (let bytes = ty_size ty * count; padding = padding_for (mr_accounted_total_bytes r) (ty_align ty)
      in if bytes = 0 then r
         else (SetCategoryBytes r category (CategoryBytes r category + bytes))
           \<lparr>mr_alignment_bytes := mr_alignment_bytes r + padding, mr_allocation_count := mr_allocation_count r + 1,
            mr_accounted_total_bytes := mr_accounted_total_bytes r + padding + bytes, mr_upstream_allocation_count := 1\<rparr>)"

abbreviation spent :: "PlanMemoryReport \<Rightarrow> nat" where
  "spent \<equiv> mr_accounted_total_bytes"

definition report_ok :: "PlanMemoryReport \<Rightarrow> bool" where
  "report_ok r \<longleftrightarrow> (\<forall>category. CategoryBytes r category \<le> spent r) \<and> mr_alignment_bytes r \<le> spent r \<and>
     mr_allocation_count r \<le> spent r"

definition sound_type :: "nat \<Rightarrow> TypeLayout \<Rightarrow> bool" where
  "sound_type max_align ty \<longleftrightarrow> 0 < ty_size ty \<and> IsPowerOfTwo (ty_align ty) \<and> ty_align ty \<le> max_align"

lemma category_set [simp]:
  "CategoryBytes (SetCategoryBytes r c n) c' = (if c = c' then n else CategoryBytes r c')"
  "spent (SetCategoryBytes r c n) = spent r"
  "mr_alignment_bytes (SetCategoryBytes r c n) = mr_alignment_bytes r"
  "mr_allocation_count (SetCategoryBytes r c n) = mr_allocation_count r"
  by (cases c; cases c'; simp add: CategoryBytes_def SetCategoryBytes_def)+

lemma category_update [simp]:
  "CategoryBytes (r\<lparr>mr_alignment_bytes := a\<rparr>) c = CategoryBytes r c"
  "CategoryBytes (r\<lparr>mr_allocation_count := a\<rparr>) c = CategoryBytes r c"
  "CategoryBytes (r\<lparr>mr_accounted_total_bytes := a\<rparr>) c = CategoryBytes r c"
  "CategoryBytes (r\<lparr>mr_upstream_allocation_count := a\<rparr>) c = CategoryBytes r c"
  by (cases c; simp add: CategoryBytes_def)+

lemma spent_charge: "spent r \<le> spent (charge1 q r)"
  by (cases q) (simp add: Let_def)

lemma spent_charges: "spent r \<le> spent (fold charge1 qs r)"
  by (induction qs arbitrary: r) (auto intro: order_trans [OF spent_charge])

lemma report_ok_charge:
  assumes "report_ok r"
  shows "report_ok (charge1 q r)"
proof (cases q)
  case (fields ty n category)
  then show ?thesis
    using assms by (cases "ty_size ty * n") (auto simp: report_ok_def Let_def intro: trans_le_add1 le_SucI)
qed

lemma report_ok_none [simp]: "report_ok no_memory"
  by (auto simp: report_ok_def no_memory_def CategoryBytes_def split: PlanMemoryCategory.splits)

section \<open>A request\<close>

text \<open>The state a layout is in: what it charged is within its limit.\<close>

definition layout_ok :: "PlanMemoryLayout \<Rightarrow> bool" where
  "layout_ok l \<longleftrightarrow> report_ok (ml_report l) \<and> spent (ml_report l) \<le> ml_limit_bytes l \<and> ml_limit_bytes l \<le> SIZE_MAX"

lemma layout_ok_new [simp]: "limit \<le> SIZE_MAX \<Longrightarrow> layout_ok (new_layout limit)"
  by (simp add: layout_ok_def new_layout_def) (simp add: no_memory_def)

lemma add_checked: "AddChecked v n = (if n + v \<le> SIZE_MAX then Some (n + v) else None)" if "n \<le> SIZE_MAX"
  using that by (auto simp: AddChecked_def)

lemma AddAllocation_charge:
  assumes "layout_ok l" "sound_type max_align ty" "bytes = ty_size ty * count"
  shows "AddAllocation max_align bytes (ty_align ty) category l =
    (let r = charge1 (ty, count, category) (ml_report l)
     in if spent r \<le> ml_limit_bytes l
        then Some (l\<lparr>ml_report := r\<rparr>,
                   spent (ml_report l) + (if bytes = 0 then 0 else padding_for (spent (ml_report l)) (ty_align ty)))
        else None)"
proof -
  let ?r = "ml_report l"
  let ?p = "padding_for (spent ?r) (ty_align ty)"
  have bounds: "CategoryBytes ?r category \<le> spent ?r" "mr_alignment_bytes ?r \<le> spent ?r"
    "mr_allocation_count ?r \<le> spent ?r" "spent ?r \<le> ml_limit_bytes l" "ml_limit_bytes l \<le> SIZE_MAX"
    using assms(1) by (auto simp: layout_ok_def report_ok_def)
  show ?thesis
  proof (cases "bytes = 0")
    case True
    then show ?thesis using assms(3) bounds by (simp add: AddAllocation_def)
  next
    case False
    have aligned: "IsPowerOfTwo (ty_align ty)" "\<not> ty_align ty > max_align"
      using assms(2) by (auto simp: sound_type_def)
    show ?thesis
    proof (cases "spent ?r + ?p + bytes \<le> ml_limit_bytes l")
      case True
      then have "AddChecked ?p (spent ?r) = Some (spent ?r + ?p)"
        "AddChecked bytes (spent ?r + ?p) = Some (spent ?r + ?p + bytes)"
        "AddChecked bytes (CategoryBytes ?r category) = Some (CategoryBytes ?r category + bytes)"
        "AddChecked ?p (mr_alignment_bytes ?r) = Some (mr_alignment_bytes ?r + ?p)"
        "AddChecked 1 (mr_allocation_count ?r) = Some (mr_allocation_count ?r + 1)"
        using bounds False by (auto simp: add_checked)
      with True False aligned show ?thesis
        using assms(3) by (simp add: AddAllocation_def Let_def)
    next
      case over: False
      then have "Option.bind (AddChecked ?p (spent ?r)) (AddChecked bytes) = None \<or>
          (\<exists>n > ml_limit_bytes l. Option.bind (AddChecked ?p (spent ?r)) (AddChecked bytes) = Some n)"
        using bounds by (auto simp: AddChecked_def)
      with over False aligned show ?thesis
        using assms(3) by (auto simp: AddAllocation_def Let_def)
    qed
  qed
qed

lemma array_size:
  assumes "ty_size ty * count \<le> SIZE_MAX"
  shows "\<not> (count \<noteq> 0 \<and> ty_size ty > SIZE_MAX div count)"
  using assms by (auto simp: div_less_iff_less_mult)

lemma no_bytes: "sound_type max_align ty \<Longrightarrow> ty_size ty * n = 0 \<longleftrightarrow> n = 0"
  by (auto simp: sound_type_def)

lemma AddArray_charge:
  assumes "layout_ok l" "sound_type max_align ty"
  shows "AddArray max_align ty n category l =
    (let r = charge1 (ty, n, category) (ml_report l)
     in if spent r \<le> ml_limit_bytes l then Some (l\<lparr>ml_report := r\<rparr>) else None)"
proof (cases "ty_size ty * n \<le> SIZE_MAX")
  case True
  then show ?thesis
    using array_size [OF True] AddAllocation_charge [OF assms refl, of n category]
    by (auto simp: AddArray_def Let_def simp del: charge1.simps)
next
  case False
  then have "n \<noteq> 0 \<and> ty_size ty > SIZE_MAX div n" by (cases "n = 0") (simp_all add: div_less_iff_less_mult)
  moreover have "\<not> spent (charge1 (ty, n, category) (ml_report l)) \<le> ml_limit_bytes l"
    using False assms(1) by (cases "ty_size ty * n") (auto simp: layout_ok_def Let_def)
  ultimately show ?thesis by (simp add: AddArray_def del: charge1.simps)
qed

section \<open>Lists of requests\<close>

definition charge :: "nat \<Rightarrow> request list \<Rightarrow> PlanMemoryLayout \<Rightarrow> PlanMemoryLayout option" where
  "charge max_align requests = steps (map (\<lambda>(ty, n, category). AddArray max_align ty n category) requests)"

definition sound_requests :: "nat \<Rightarrow> request list \<Rightarrow> bool" where
  "sound_requests max_align requests \<longleftrightarrow> (\<forall>(ty, n, category) \<in> set requests. sound_type max_align ty)"

lemma sound_requests_simps [simp]:
  "sound_requests m []"
  "sound_requests m ((ty, n, category) # qs) \<longleftrightarrow> sound_type m ty \<and> sound_requests m qs"
  "sound_requests m (qs @ qs') \<longleftrightarrow> sound_requests m qs \<and> sound_requests m qs'"
  "sound_requests m (concat qss) \<longleftrightarrow> (\<forall>qs \<in> set qss. sound_requests m qs)"
  by (auto simp: sound_requests_def)

lemma steps_append: "steps (fs @ gs) s = Option.bind (steps fs s) (steps gs)"
  by (induction fs arbitrary: s) (simp_all split: bind_split)

lemma charge_charges:
  assumes "layout_ok l" "sound_requests max_align qs"
  shows "charge max_align qs l =
    (let r = fold charge1 qs (ml_report l)
     in if spent r \<le> ml_limit_bytes l then Some (l\<lparr>ml_report := r\<rparr>) else None)"
  using assms
proof (induction qs arbitrary: l)
  case Nil
  then show ?case by (simp add: charge_def layout_ok_def)
next
  case (Cons q qs)
  obtain ty n category where q: "q = (ty, n, category)" by (cases q)
  let ?r = "charge1 q (ml_report l)"
  have sound: "sound_type max_align ty" "sound_requests max_align qs" using Cons.prems(2) by (simp_all add: q)
  show ?case
  proof (cases "spent ?r \<le> ml_limit_bytes l")
    case True
    have ok: "layout_ok (l\<lparr>ml_report := ?r\<rparr>)"
      using Cons.prems(1) True by (simp add: layout_ok_def report_ok_charge)
    show ?thesis
      using AddArray_charge [OF Cons.prems(1) sound(1)] Cons.IH [OF ok sound(2)] True
      by (simp add: charge_def q Let_def)
  next
    case False
    then have "\<not> spent (fold charge1 qs ?r) \<le> ml_limit_bytes l"
      using spent_charges [of ?r qs] by simp
    then show ?thesis
      using AddArray_charge [OF Cons.prems(1) sound(1)] False by (simp add: charge_def q Let_def)
  qed
qed

text \<open>The arena pays for the requests that are not empty.\<close>

fun serve :: "nat \<Rightarrow> request list \<Rightarrow> PlanArena \<Rightarrow> PlanArena option" where
  "serve max_align [] a = Some a"
| "serve max_align ((ty, n, category) # qs) a =
     (if n = 0 then serve max_align qs a
      else case AllocateArray max_align ty n category a of
             None \<Rightarrow> None
           | Some (a, offset) \<Rightarrow> serve max_align qs a)"

definition arena_ok :: "PlanArena \<Rightarrow> bool" where
  "arena_ok a \<longleftrightarrow> pa_storage a \<and> pa_fail_at_allocation a = 0 \<and> layout_ok (pa_layout a) \<and>
     ml_limit_bytes (pa_layout a) = pa_capacity_bytes a"

lemma AllocateArray_charge:
  assumes "arena_ok a" "sound_type max_align ty" "n \<noteq> 0"
    and fits: "spent (charge1 (ty, n, category) (ml_report (pa_layout a))) \<le> pa_capacity_bytes a"
  shows "AllocateArray max_align ty n category a =
    Some (a\<lparr>pa_allocation_ordinal := pa_allocation_ordinal a + 1,
             pa_layout := (pa_layout a)\<lparr>ml_report := charge1 (ty, n, category) (ml_report (pa_layout a))\<rparr>\<rparr>,
          spent (ml_report (pa_layout a)) + padding_for (spent (ml_report (pa_layout a))) (ty_align ty))"
proof -
  let ?r = "ml_report (pa_layout a)"
  have l: "layout_ok (pa_layout a)" "ml_limit_bytes (pa_layout a) = pa_capacity_bytes a" "pa_capacity_bytes a \<le> SIZE_MAX"
    using assms(1) by (auto simp: arena_ok_def layout_ok_def)
  have positive: "0 < ty_size ty * n" using no_bytes [OF assms(2), of n] assms(3) by simp
  have sum: "spent ?r + padding_for (spent ?r) (ty_align ty) + ty_size ty * n \<le> pa_capacity_bytes a"
    using fits positive by (simp add: Let_def)
  have guard: "\<not> (n \<noteq> 0 \<and> ty_size ty > SIZE_MAX div n)"
    using array_size [of ty n] sum l(3) by linarith
  have piece: "AddAllocation max_align (ty_size ty * n) (ty_align ty) category (pa_layout a) =
      Some ((pa_layout a)\<lparr>ml_report := charge1 (ty, n, category) ?r\<rparr>,
            spent ?r + padding_for (spent ?r) (ty_align ty))"
    using AddAllocation_charge [OF l(1) assms(2) refl, of n category] fits l(2) positive by (simp add: Let_def)
  show ?thesis
    using assms(1) guard positive sum
    by (simp add: AllocateArray_def arena_allocate_def arena_ok_def piece Let_def)
qed

lemma serve_charges:
  assumes "arena_ok a" "sound_requests max_align qs"
    and "spent (fold charge1 qs (ml_report (pa_layout a))) \<le> pa_capacity_bytes a"
  shows "\<exists>b. serve max_align qs a = Some b \<and> ml_report (pa_layout b) = fold charge1 qs (ml_report (pa_layout a))"
  using assms
proof (induction qs arbitrary: a)
  case (Cons q qs)
  obtain ty n category where q: "q = (ty, n, category)" by (cases q)
  have sound: "sound_type max_align ty" "sound_requests max_align qs" using Cons.prems(2) by (simp_all add: q)
  show ?case
  proof (cases "n = 0")
    case True
    then show ?thesis using Cons.IH [OF Cons.prems(1) sound(2)] Cons.prems(3) by (simp add: q)
  next
    case False
    let ?r = "charge1 q (ml_report (pa_layout a))"
    have fits: "spent ?r \<le> pa_capacity_bytes a"
      using spent_charges [of ?r qs] Cons.prems(3) by simp
    let ?b = "a\<lparr>pa_allocation_ordinal := pa_allocation_ordinal a + 1, pa_layout := (pa_layout a)\<lparr>ml_report := ?r\<rparr>\<rparr>"
    have ok: "arena_ok ?b"
      using Cons.prems(1) fits by (auto simp: arena_ok_def layout_ok_def report_ok_charge)
    have turn: "serve max_align (q # qs) a = serve max_align qs ?b"
      using AllocateArray_charge [OF Cons.prems(1) sound(1) False] fits False by (simp add: q)
    show ?thesis
      using Cons.IH [OF ok sound(2)] Cons.prems(3) by (auto simp: turn)
  qed
qed simp

section \<open>The two walks as requests\<close>

abbreviation string_request :: "string \<Rightarrow> request" where
  "string_request v \<equiv> (byte_layout, length v, PC_STRING)"

definition framing_requests :: "Abi \<Rightarrow> FramingPlan \<Rightarrow> request list" where
  "framing_requests abi f =
     [string_request (fp_id f), (byte_layout, length (fp_sync_bytes f), PC_EXTENSION),
      (abi_size_t abi, length (fp_sync_bytes f), PC_EXTENSION)]"

definition pipeline_requests :: "Abi \<Rightarrow> PipelinePlan \<Rightarrow> request list" where
  "pipeline_requests abi p =
     [string_request (pl_id p), string_request (pl_direction_id p),
      (abi_size_t abi, length (pl_message_indices p), PC_METADATA_CONTAINER)]"

definition field_requests :: "Abi \<Rightarrow> FieldPlan \<Rightarrow> request list" where
  "field_requests abi f =
     [string_request (fl_id f), (abi_FrozenEnumEntryPlan abi, length (fl_enum_entries f), PC_METADATA_CONTAINER)] @
     map (\<lambda>e. string_request (ee_id e)) (fl_enum_entries f)"

definition message_requests :: "Abi \<Rightarrow> MessagePlan \<Rightarrow> request list" where
  "message_requests abi m =
     [string_request (ms_id m), string_request (ms_direction_id m),
      (abi_FrozenMatcherPlan abi, length (ms_matchers m), PC_METADATA_CONTAINER)] @
     map (\<lambda>x. (byte_layout, length (mp_bytes x), PC_MATCHER)) (ms_matchers m) @
     [(abi_FrozenBitContainerPlan abi, length (ms_bit_containers m), PC_METADATA_CONTAINER)] @
     map (\<lambda>c. string_request (bc_id c)) (ms_bit_containers m) @
     [(abi_FrozenFieldPlan abi, length (ms_fields m), PC_METADATA_CONTAINER)] @
     concat (map (field_requests abi) (ms_fields m))"

definition text_requests :: "Abi \<Rightarrow> TextActionPlan option \<Rightarrow> request list" where
  "text_requests abi action =
     (case action of
        None \<Rightarrow> []
      | Some a \<Rightarrow> (abi_TextSegmentExecutionPlan abi, length (tap_segments a), PC_EXECUTION_DESCRIPTOR) #
          concat (map (\<lambda>s. [(byte_layout, length (tsp_literal s), PC_MATCHER),
                            (abi_size_t abi, length (tsp_prefix_table s), PC_MATCHER)]) (tap_segments a)))"

definition execution_requests :: "Abi \<Rightarrow> MessageExecutionPlan \<Rightarrow> request list" where
  "execution_requests abi m =
     [(abi_FixedByteExecutionPlan abi, length (me_fixed_bytes m), PC_MATCHER),
      (abi_BitContainerExecutionPlan abi, length (me_bit_containers m), PC_EXECUTION_DESCRIPTOR),
      (abi_FieldExecutionPlan abi, length (me_fields m), PC_EXECUTION_DESCRIPTOR),
      (abi_uint64 abi, length (me_enum_raw_values m), PC_INDEX),
      (abi_EnumLookupExecutionPlan abi, length (me_enum_lookup_entries m), PC_INDEX)] @
     text_requests abi (me_text_decode m) @ text_requests abi (me_text_encode m)"

text \<open>The estimate asks for the candidate groups before the lists of variable and text messages, the freezing after.\<close>

definition estimated_pipeline :: "Abi \<Rightarrow> PipelineExecutionPlan \<Rightarrow> request list" where
  "estimated_pipeline abi p =
     [(abi_uint64 abi, length (pe_allowed_message_words p), PC_INDEX),
      (abi_CandidateGroupExecutionPlan abi, length (pe_candidate_groups p), PC_EXECUTION_DESCRIPTOR),
      (abi_size_t abi, length (pe_variable_message_indices p), PC_INDEX),
      (abi_size_t abi, length (pe_text_message_indices p), PC_INDEX)] @
     map (\<lambda>g. (abi_size_t abi, length (cg_message_indices g), PC_INDEX)) (pe_candidate_groups p)"

definition frozen_pipeline :: "Abi \<Rightarrow> PipelineExecutionPlan \<Rightarrow> request list" where
  "frozen_pipeline abi p =
     [(abi_uint64 abi, length (pe_allowed_message_words p), PC_INDEX),
      (abi_size_t abi, length (pe_variable_message_indices p), PC_INDEX),
      (abi_size_t abi, length (pe_text_message_indices p), PC_INDEX),
      (abi_CandidateGroupExecutionPlan abi, length (pe_candidate_groups p), PC_EXECUTION_DESCRIPTOR)] @
     map (\<lambda>g. (abi_size_t abi, length (cg_message_indices g), PC_INDEX)) (pe_candidate_groups p)"

definition plan_requests ::
    "Abi \<Rightarrow> (PipelineExecutionPlan \<Rightarrow> request list) \<Rightarrow> PlanDraftData \<Rightarrow> MessageExecutionPlan list \<Rightarrow>
     PipelineExecutionPlan list \<Rightarrow> request list" where
  "plan_requests abi of_pipeline draft messages pipelines =
     [(abi_PlanBundle abi, 1, PC_OBJECT), string_request (dd_schema_version draft),
      string_request (dd_protocol_id draft), string_request (dd_protocol_version draft),
      (abi_FrozenFramingPlan abi, length (dd_framing_profiles draft), PC_METADATA_CONTAINER)] @
     concat (map (framing_requests abi) (dd_framing_profiles draft)) @
     [(abi_FrozenPipelinePlan abi, length (dd_pipelines draft), PC_METADATA_CONTAINER)] @
     concat (map (pipeline_requests abi) (dd_pipelines draft)) @
     [(abi_FrozenMessagePlan abi, length (dd_messages draft), PC_METADATA_CONTAINER)] @
     concat (map (message_requests abi) (dd_messages draft)) @
     [(abi_LinearConversionDescriptor abi, length (dd_conversions draft), PC_EXTENSION),
      (abi_MessageExecutionPlan abi, length messages, PC_EXECUTION_DESCRIPTOR)] @
     concat (map (execution_requests abi) messages) @
     [(abi_PipelineExecutionPlan abi, length pipelines, PC_EXECUTION_DESCRIPTOR)] @
     concat (map of_pipeline pipelines)"

subsection \<open>The estimate charges its requests\<close>

lemma charge_Nil [simp]: "charge m [] = Some"
  by (simp add: charge_def fun_eq_iff)

lemma charge_append: "charge m (qs @ qs') l = Option.bind (charge m qs l) (charge m qs')"
  by (simp add: charge_def steps_append)

lemma charge_Cons: "charge m (q # qs) l = Option.bind (charge m [q] l) (charge m qs)"
  using charge_append [of m "[q]" qs l] by simp

text \<open>A walk \<open>steps\<close> over charging steps charges the concatenation of their requests.\<close>

named_theorems charges

lemma charges_Nil [charges]: "steps [] = charge m []"
  by (simp add: fun_eq_iff)

lemma charges_Cons [charges]: "step = charge m [q] \<Longrightarrow> steps fs = charge m qs \<Longrightarrow> steps (step # fs) = charge m (q # qs)"
  by (rule ext) (simp add: charge_Cons [of m q qs])

lemma charges_walk [charges]:
  "step = charge m qs \<Longrightarrow> steps fs = charge m qs' \<Longrightarrow> steps (step # fs) = charge m (qs @ qs')"
  by (rule ext) (simp add: charge_append)

lemma charges_append [charges]:
  "steps fs = charge m qs \<Longrightarrow> steps gs = charge m qs' \<Longrightarrow> steps (fs @ gs) = charge m (qs @ qs')"
  by (rule ext) (simp add: charge_append steps_append)

lemma charges_map [charges]:
  assumes "\<And>x. x \<in> set xs \<Longrightarrow> step x = charge m [q x]"
  shows "steps (map step xs) = charge m (map q xs)"
  using assms by (induction xs) (auto intro: charges)

lemma charges_concat [charges]:
  assumes "\<And>x. x \<in> set xs \<Longrightarrow> step x = charge m (requests x)"
  shows "steps (map step xs) = charge m (concat (map requests xs))"
  using assms by (induction xs) (auto intro: charges)

lemma charges_array [charges]:
  "AddArray m ty n category = charge m [(ty, n, category)]"
  "add_array abi ty xs category = charge (abi_max_align abi) [(ty, length xs, category)]"
  by (simp_all add: charge_def add_array_def fun_eq_iff split: bind_split)

lemma charges_string [charges]: "AddStringLayout abi v = charge (abi_max_align abi) [string_request v]"
  by (simp add: AddStringLayout_def fun_eq_iff charge_def AddArray_def AddAllocation_def Let_def split: bind_split)

lemma EstimateFraming_charges [charges]:
  "EstimateFraming abi f = charge (abi_max_align abi) (framing_requests abi f)"
  unfolding EstimateFraming_def framing_requests_def by (intro charges)

lemma EstimatePipeline_charges [charges]:
  "EstimatePipeline abi p = charge (abi_max_align abi) (pipeline_requests abi p)"
  unfolding EstimatePipeline_def pipeline_requests_def by (intro charges)

lemma EstimateField_charges [charges]:
  "EstimateField abi f = charge (abi_max_align abi) (field_requests abi f)"
  unfolding EstimateField_def field_requests_def by (intro charges)

lemma EstimateMessage_charges [charges]:
  "EstimateMessage abi m = charge (abi_max_align abi) (message_requests abi m)"
  unfolding EstimateMessage_def message_requests_def by (intro charges)

lemma EstimateTextAction_charges [charges]:
  "EstimateTextAction abi action = charge (abi_max_align abi) (text_requests abi action)"
proof (cases action)
  case (Some a)
  have "steps (concat (map (\<lambda>s. [add_array abi byte_layout (tsp_literal s) PC_MATCHER,
            add_array abi (abi_size_t abi) (tsp_prefix_table s) PC_MATCHER]) ss)) =
      charge (abi_max_align abi) (concat (map (\<lambda>s. [(byte_layout, length (tsp_literal s), PC_MATCHER),
            (abi_size_t abi, length (tsp_prefix_table s), PC_MATCHER)]) ss))" for ss
  proof (induction ss)
    case (Cons s ss)
    show ?case unfolding list.map concat.simps by (intro charges Cons.IH)
  qed (simp add: charges)
  then show ?thesis by (auto simp: EstimateTextAction_def text_requests_def Some intro: charges)
qed (simp add: EstimateTextAction_def text_requests_def)

lemma EstimateMessageExecution_charges [charges]:
  "EstimateMessageExecution abi m = charge (abi_max_align abi) (execution_requests abi m)"
proof -
  have "steps [EstimateTextAction abi (me_text_decode m), EstimateTextAction abi (me_text_encode m)] =
      charge (abi_max_align abi) (text_requests abi (me_text_decode m) @ text_requests abi (me_text_encode m) @ [])"
    by (intro charges_walk EstimateTextAction_charges charges_Nil)
  then show ?thesis
    unfolding EstimateMessageExecution_def execution_requests_def append_Cons append_Nil append_Nil2
    by (intro charges_Cons charges_array)
qed

lemma EstimatePipelineExecution_charges [charges]:
  "EstimatePipelineExecution abi p = charge (abi_max_align abi) (estimated_pipeline abi p)"
  unfolding EstimatePipelineExecution_def estimated_pipeline_def by (intro charges)

lemma Estimate_charges:
  "EstimatePreparedPlanMemory abi draft messages pipelines limit =
     map_option ml_report (charge (abi_max_align abi)
       (plan_requests abi (estimated_pipeline abi) draft messages pipelines) (new_layout limit))"
proof -
  have walk: "map_option ml_report (steps fs (new_layout limit)) = map_option ml_report (charge m qs (new_layout limit))"
    if "steps fs = charge m qs" for fs m qs
    using that by simp
  show ?thesis unfolding EstimatePreparedPlanMemory_def plan_requests_def by (rule walk) (intro charges)
qed

subsection \<open>The freezing pays for its requests and returns what it was given\<close>

definition pays :: "nat \<Rightarrow> request list \<Rightarrow> 'a \<Rightarrow> 'a freezing \<Rightarrow> bool" where
  "pays m qs x f \<longleftrightarrow> (\<forall>a. f a = map_option (\<lambda>b. (b, x)) (serve m qs a))"

named_theorems payments

lemma serve_append: "serve m (qs @ qs') a = Option.bind (serve m qs a) (serve m qs')"
  by (induction m qs a rule: serve.induct) (auto split: option.split)

lemma pays_finished [payments]: "pays m [] x (finished x)"
  by (simp add: pays_def finished_def)

lemma pays_and_then: "pays m qs x f \<Longrightarrow> pays m qs' y (g x) \<Longrightarrow> pays m (qs @ qs') y (and_then f g)"
  by (auto simp: pays_def and_then_def serve_append split: option.split bind_split)

lemma pays_allocate:
  assumes "n \<noteq> 0" "pays m qs x f"
  shows "pays m ((ty, n, category) # qs) x (and_then (AllocateArray m ty n category) (\<lambda>_. f))"
  using assms by (auto simp: pays_def and_then_def split: option.split)

lemma pays_nothing: "pays m qs x f \<Longrightarrow> pays m ((ty, 0, category) # qs) x f"
  by (simp add: pays_def)

lemma pays_string [payments]: "pays (abi_max_align abi) [string_request v] v (FreezeString abi v)"
  by (cases v) (auto simp: FreezeString_def intro: pays_nothing pays_allocate pays_finished)

lemma pays_construct:
  assumes "\<And>x. x \<in> set xs \<Longrightarrow> pays m (requests x) x (factory x)"
  shows "pays m (concat (map requests xs)) xs (construct factory xs)"
  using assms
proof (induction xs)
  case (Cons x xs)
  have "pays m (requests x @ concat (map requests xs) @ []) (x # xs) (construct factory (x # xs))"
    unfolding construct.simps
    by (rule pays_and_then [OF Cons.prems pays_and_then [OF Cons.IH [OF Cons.prems] pays_finished]]) simp_all
  then show ?case by simp
qed (simp add: payments)

lemma pays_array:
  assumes "\<And>x. x \<in> set xs \<Longrightarrow> pays (abi_max_align abi) (requests x) x (factory x)"
  shows "pays (abi_max_align abi) ((ty, length xs, category) # concat (map requests xs)) xs
           (FreezeObjectArray abi ty category factory xs)"
  using pays_construct [of xs "abi_max_align abi" requests factory, OF assms]
  by (cases xs) (auto simp: FreezeObjectArray_def intro: pays_nothing pays_allocate payments)

lemma pays_array_map:
  assumes "\<And>x. x \<in> set xs \<Longrightarrow> pays (abi_max_align abi) [q x] x (factory x)"
  shows "pays (abi_max_align abi) ((ty, length xs, category) # map q xs) xs (FreezeObjectArray abi ty category factory xs)"
  using pays_array [of xs abi "\<lambda>x. [q x]" factory ty category, OF assms] by (simp add: concat_map_singleton)

lemma pays_pod [payments]:
  "pays (abi_max_align abi) [(ty, length xs, category)] xs (FreezePodArray abi ty category xs)"
proof -
  have "concat (map (\<lambda>x. []) xs) = ([] :: request list)" by simp
  with pays_array [of xs abi "\<lambda>x. []" finished ty category] show ?thesis by (simp add: FreezePodArray_def payments)
qed

text \<open>The steps of a freezing whose last step returns \<open>x\<close> itself.\<close>

lemma pays_last: "x = y \<Longrightarrow> pays m [] y (finished x)"
  by (simp add: payments)

lemma pays_one: "pays m [q] x f \<Longrightarrow> pays m qs y (g x) \<Longrightarrow> pays m (q # qs) y (and_then f g)"
  using pays_and_then [of m "[q]"] by simp

lemma pays_framing:
  assumes "length (fp_sync_prefix_table f) = length (fp_sync_bytes f)"
  shows "pays (abi_max_align abi) (framing_requests abi f) f (FreezeFraming abi f)"
proof -
  have q: "framing_requests abi f =
      [string_request (fp_id f), (byte_layout, length (fp_sync_bytes f), PC_EXTENSION),
       (abi_size_t abi, length (fp_sync_prefix_table f), PC_EXTENSION)]"
    by (simp add: framing_requests_def assms)
  show ?thesis unfolding FreezeFraming_def q by ((rule pays_one, rule payments)+, rule pays_last) simp
qed

lemma pays_pipeline: "pays (abi_max_align abi) (pipeline_requests abi p) p (FreezePipeline abi p)"
  unfolding FreezePipeline_def pipeline_requests_def by ((rule pays_one, rule payments)+, rule pays_last) simp

lemma pays_entry: "pays (abi_max_align abi) [string_request (ee_id e)] e (FreezeEntry abi e)"
  unfolding FreezeEntry_def by ((rule pays_one, rule payments)+, rule pays_last) simp

lemma pays_matcher: "pays (abi_max_align abi) [(byte_layout, length (mp_bytes x), PC_MATCHER)] x (FreezeMatcher abi x)"
  unfolding FreezeMatcher_def by ((rule pays_one, rule payments)+, rule pays_last) simp

lemma pays_container: "pays (abi_max_align abi) [string_request (bc_id c)] c (FreezeContainer abi c)"
  unfolding FreezeContainer_def by ((rule pays_one, rule payments)+, rule pays_last) simp

lemma pays_group: "pays (abi_max_align abi) [(abi_size_t abi, length (cg_message_indices g), PC_INDEX)] g (FreezeGroup abi g)"
  unfolding FreezeGroup_def by ((rule pays_one, rule payments)+, rule pays_last) simp

lemma pays_field: "pays (abi_max_align abi) (field_requests abi f) f (FreezeField abi f)"
proof -
  have q: "field_requests abi f = string_request (fl_id f) #
      ((abi_FrozenEnumEntryPlan abi, length (fl_enum_entries f), PC_METADATA_CONTAINER) #
       map (\<lambda>e. string_request (ee_id e)) (fl_enum_entries f)) @ []"
    by (simp add: field_requests_def)
  show ?thesis unfolding FreezeField_def q
    by (rule pays_one, rule payments, rule pays_and_then, rule pays_array_map, rule pays_entry, rule pays_last) simp
qed

lemma pays_message: "pays (abi_max_align abi) (message_requests abi m) m (FreezeMessage abi m)"
proof -
  have q: "message_requests abi m = string_request (ms_id m) # string_request (ms_direction_id m) #
      ((abi_FrozenMatcherPlan abi, length (ms_matchers m), PC_METADATA_CONTAINER) #
       map (\<lambda>x. (byte_layout, length (mp_bytes x), PC_MATCHER)) (ms_matchers m)) @
      ((abi_FrozenBitContainerPlan abi, length (ms_bit_containers m), PC_METADATA_CONTAINER) #
       map (\<lambda>c. string_request (bc_id c)) (ms_bit_containers m)) @
      ((abi_FrozenFieldPlan abi, length (ms_fields m), PC_METADATA_CONTAINER) #
       concat (map (field_requests abi) (ms_fields m))) @ []"
    by (simp add: message_requests_def)
  show ?thesis unfolding FreezeMessage_def q
    by (rule pays_one, rule payments, rule pays_one, rule payments,
        rule pays_and_then, rule pays_array_map, rule pays_matcher,
        rule pays_and_then, rule pays_array_map, rule pays_container,
        rule pays_and_then, rule pays_array, rule pays_field, rule pays_last) simp
qed

lemma pays_segment:
  "pays (abi_max_align abi) [(byte_layout, length (tsp_literal s), PC_MATCHER),
     (abi_size_t abi, length (tsp_prefix_table s), PC_MATCHER)] s (FreezeTextSegment abi s)"
  unfolding FreezeTextSegment_def by ((rule pays_one, rule payments)+, rule pays_last) simp

text \<open>The lengths of an action are sizes.\<close>

definition action_sizes :: "TextActionPlan option \<Rightarrow> bool" where
  "action_sizes action = (case action of None \<Rightarrow> True
     | Some a \<Rightarrow> tap_min_record_length a \<le> SIZE_MAX \<and> tap_max_record_length a \<le> SIZE_MAX)"

lemma pays_text:
  assumes "action_sizes action"
  shows "pays (abi_max_align abi) (text_requests abi action) action (FreezeTextAction abi action)"
proof (cases action)
  case None
  then show ?thesis by (simp add: FreezeTextAction_def text_requests_def payments)
next
  case (Some a)
  have sizes: "ToSize (tap_min_record_length a) = Some (tap_min_record_length a)"
    "ToSize (tap_max_record_length a) = Some (tap_max_record_length a)"
    using assms by (simp_all add: action_sizes_def ToSize_def Some)
  have q: "text_requests abi action = ((abi_TextSegmentExecutionPlan abi, length (tap_segments a), PC_EXECUTION_DESCRIPTOR) #
      concat (map (\<lambda>s. [(byte_layout, length (tsp_literal s), PC_MATCHER),
        (abi_size_t abi, length (tsp_prefix_table s), PC_MATCHER)]) (tap_segments a))) @ []"
    by (simp add: text_requests_def Some)
  have f: "FreezeTextAction abi action =
      and_then (FreezeObjectArray abi (abi_TextSegmentExecutionPlan abi) PC_EXECUTION_DESCRIPTOR
        (FreezeTextSegment abi) (tap_segments a)) (\<lambda>segments. finished (Some
          \<lparr>tap_segments = segments, tap_min_record_length = tap_min_record_length a,
           tap_max_record_length = tap_max_record_length a\<rparr>))"
    by (simp add: FreezeTextAction_def Some sizes)
  show ?thesis unfolding q f
    by (rule pays_and_then, rule pays_array, rule pays_segment, rule pays_last) (simp add: Some)
qed

lemma pays_execution:
  assumes "action_sizes (me_text_decode m)" "action_sizes (me_text_encode m)"
  shows "pays (abi_max_align abi) (execution_requests abi m) m (FreezeMessageExecution abi m)"
proof -
  have q: "execution_requests abi m =
     (abi_FixedByteExecutionPlan abi, length (me_fixed_bytes m), PC_MATCHER) #
     (abi_BitContainerExecutionPlan abi, length (me_bit_containers m), PC_EXECUTION_DESCRIPTOR) #
     (abi_FieldExecutionPlan abi, length (me_fields m), PC_EXECUTION_DESCRIPTOR) #
     (abi_uint64 abi, length (me_enum_raw_values m), PC_INDEX) #
     (abi_EnumLookupExecutionPlan abi, length (me_enum_lookup_entries m), PC_INDEX) #
     text_requests abi (me_text_decode m) @ text_requests abi (me_text_encode m) @ []"
    by (simp add: execution_requests_def)
  show ?thesis unfolding FreezeMessageExecution_def q
    by ((rule pays_one, rule payments)+, rule pays_and_then, rule pays_text [OF assms(1)],
        rule pays_and_then, rule pays_text [OF assms(2)], rule pays_last) simp
qed

lemma pays_pipeline_execution: "pays (abi_max_align abi) (frozen_pipeline abi p) p (FreezePipelineExecution abi p)"
proof -
  have q: "frozen_pipeline abi p =
     (abi_uint64 abi, length (pe_allowed_message_words p), PC_INDEX) #
     (abi_size_t abi, length (pe_variable_message_indices p), PC_INDEX) #
     (abi_size_t abi, length (pe_text_message_indices p), PC_INDEX) #
     ((abi_CandidateGroupExecutionPlan abi, length (pe_candidate_groups p), PC_EXECUTION_DESCRIPTOR) #
      map (\<lambda>g. (abi_size_t abi, length (cg_message_indices g), PC_INDEX)) (pe_candidate_groups p)) @ []"
    by (simp add: frozen_pipeline_def)
  show ?thesis unfolding FreezePipelineExecution_def q
    by (rule pays_one, rule payments, rule pays_one, rule payments, rule pays_one, rule payments,
        rule pays_and_then, rule pays_array_map, rule pays_group, rule pays_last) simp
qed

section \<open>The order of the requests does not matter to the report\<close>

lemma power_of_two: "IsPowerOfTwo n \<Longrightarrow> \<exists>k. n = 2 ^ k"
proof (induction n rule: less_induct)
  case (less n)
  have n: "n \<noteq> 0" "n AND (n - 1) = 0" using less.prems by (simp_all add: IsPowerOfTwo_def)
  have low: "n div 2 AND (n - 1) div 2 = 0"
    using n(2) and_rec [of n "n - 1"] by simp
  show ?case
  proof (cases "even n")
    case True
    then obtain m where m: "n = 2 * m" by blast
    have "(n - 1) div 2 = m - 1" using m n(1) by linarith
    then have "IsPowerOfTwo m" using low m n(1) by (simp add: IsPowerOfTwo_def)
    then obtain k where "m = 2 ^ k" using less.IH [of m] m n(1) by auto
    then show ?thesis using m by (intro exI [of _ "Suc k"]) simp
  next
    case False
    then have "n div 2 = 0" using low by (metis and.idem odd_two_times_div_two_nat nonzero_mult_div_cancel_left zero_neq_numeral)
    then have "n = 1" using n(1) by linarith
    then show ?thesis by (intro exI [of _ 0]) simp
  qed
qed

lemma padded: "IsPowerOfTwo a \<Longrightarrow> a dvd n + padding_for n a \<and> (a dvd n \<longrightarrow> padding_for n a = 0)"
proof -
  assume "IsPowerOfTwo a"
  then obtain k where a: "a = 2 ^ k" using power_of_two by blast
  have rest: "n AND (a - Suc 0) = n mod a"
    using take_bit_eq_mask [of k n] mask_eq_exp_minus_1 [where n = k and 'a = nat] by (simp add: a take_bit_eq_mod)
  show ?thesis
  proof (cases "a dvd n")
    case True
    then show ?thesis by (simp add: padding_for_def rest)
  next
    case False
    have "n mod a < a" by (simp add: a)
    then have "n + (a - n mod a) = (n div a + 1) * a"
      using div_mult_mod_eq [of n a] unfolding distrib_right mult_1 by linarith
    with False show ?thesis by (simp add: padding_for_def rest mod_eq_0_iff_dvd del: mult_Suc)
  qed
qed

lemma set_categories:
  "SetCategoryBytes (r\<lparr>mr_alignment_bytes := a, mr_allocation_count := n, mr_accounted_total_bytes := t,
     mr_upstream_allocation_count := u\<rparr>) c b =
   (SetCategoryBytes r c b)\<lparr>mr_alignment_bytes := a, mr_allocation_count := n, mr_accounted_total_bytes := t,
     mr_upstream_allocation_count := u\<rparr>"
  "c \<noteq> c' \<Longrightarrow> SetCategoryBytes (SetCategoryBytes r c b) c' b' = SetCategoryBytes (SetCategoryBytes r c' b') c b"
  "SetCategoryBytes (SetCategoryBytes r c b) c b' = SetCategoryBytes r c b'"
  by (cases c; simp add: SetCategoryBytes_def) (cases c; cases c'; simp add: SetCategoryBytes_def)+

lemma charge1_commute:
  assumes "IsPowerOfTwo a" "ty_align ty = a" "ty_align ty' = a" "a dvd ty_size ty" "a dvd ty_size ty'"
  shows "charge1 (ty', n', c') (charge1 (ty, n, c) r) = charge1 (ty, n, c) (charge1 (ty', n', c') r)"
proof (cases "ty_size ty * n = 0 \<or> ty_size ty' * n' = 0")
  case False
  let ?t = "spent r + padding_for (spent r) a"
  have "a dvd ?t" using padded [OF assms(1)] by blast
  then have "a dvd ?t + ty_size ty * n" "a dvd ?t + ty_size ty' * n'"
    using assms(4,5) by (auto intro: dvd_add dvd_mult2)
  then have "padding_for (?t + ty_size ty * n) a = 0" "padding_for (?t + ty_size ty' * n') a = 0"
    using padded [OF assms(1)] by blast+
  with False assms(2,3) show ?thesis
    by (cases "c = c'") (simp_all add: Let_def set_categories add.commute add.left_commute)
next
  case True
  have idle: "charge1 (t, j, d) r' = r'" if "ty_size t * j = 0" for t j d r'
    using that by simp
  show ?thesis using True idle [of ty n] idle [of ty' n'] by (elim disjE) (simp_all del: charge1.simps)
qed

text \<open>What a platform gives: sizes are multiples of alignments, and descriptors of a candidate group are aligned like
  sizes.\<close>

definition abi_types :: "Abi \<Rightarrow> TypeLayout list" where
  "abi_types abi =
     [abi_size_t abi, abi_uint64 abi, abi_PlanBundle abi, abi_FrozenFramingPlan abi, abi_FrozenPipelinePlan abi,
      abi_FrozenMessagePlan abi, abi_FrozenMatcherPlan abi, abi_FrozenBitContainerPlan abi, abi_FrozenFieldPlan abi,
      abi_FrozenEnumEntryPlan abi, abi_LinearConversionDescriptor abi, abi_MessageExecutionPlan abi,
      abi_FixedByteExecutionPlan abi, abi_BitContainerExecutionPlan abi, abi_FieldExecutionPlan abi,
      abi_EnumLookupExecutionPlan abi, abi_TextSegmentExecutionPlan abi, abi_PipelineExecutionPlan abi,
      abi_CandidateGroupExecutionPlan abi]"

definition abi_ok :: "Abi \<Rightarrow> bool" where
  "abi_ok abi \<longleftrightarrow> 1 \<le> abi_max_align abi \<and>
     list_all (\<lambda>ty. sound_type (abi_max_align abi) ty \<and> ty_align ty dvd ty_size ty) (abi_types abi) \<and>
     ty_align (abi_CandidateGroupExecutionPlan abi) = ty_align (abi_size_t abi)"

lemma abi_sound: "abi_ok abi \<Longrightarrow> ty \<in> set (abi_types abi) \<Longrightarrow> sound_type (abi_max_align abi) ty"
  by (auto simp: abi_ok_def list_all_iff)

lemma byte_sound: "abi_ok abi \<Longrightarrow> sound_type (abi_max_align abi) byte_layout"
  by (simp add: abi_ok_def sound_type_def byte_layout_def IsPowerOfTwo_def)

lemma pipeline_orders:
  assumes "abi_ok abi"
  shows "fold charge1 (estimated_pipeline abi p) r = fold charge1 (frozen_pipeline abi p) r"
proof -
  let ?g = "abi_CandidateGroupExecutionPlan abi" and ?s = "abi_size_t abi"
  have ok: "IsPowerOfTwo (ty_align ?s)" "ty_align ?g = ty_align ?s" "ty_align ?s dvd ty_size ?g" "ty_align ?s dvd ty_size ?s"
    using assms by (auto simp: abi_ok_def abi_types_def sound_type_def)
  show ?thesis
    unfolding estimated_pipeline_def frozen_pipeline_def
    using charge1_commute [OF ok(1) ok(2) refl ok(3,4)]
    by (simp del: charge1.simps)
qed

lemma plan_orders:
  assumes "abi_ok abi"
  shows "fold charge1 (plan_requests abi (estimated_pipeline abi) draft messages pipelines) r =
    fold charge1 (plan_requests abi (frozen_pipeline abi) draft messages pipelines) r"
proof -
  have "fold charge1 (concat (map (estimated_pipeline abi) ps)) r = fold charge1 (concat (map (frozen_pipeline abi) ps)) r" for ps r
    by (induction ps arbitrary: r) (simp_all add: pipeline_orders [OF assms])
  then show ?thesis by (simp add: plan_requests_def del: charge1.simps)
qed

lemma plan_requests_sound:
  assumes "abi_ok abi"
  shows "sound_requests (abi_max_align abi) (plan_requests abi (estimated_pipeline abi) draft messages pipelines)"
    and "sound_requests (abi_max_align abi) (plan_requests abi (frozen_pipeline abi) draft messages pipelines)"
proof -
  have "sound_type (abi_max_align abi) ty" if "ty \<in> set (byte_layout # abi_types abi)" for ty
    using that abi_sound [OF assms] byte_sound [OF assms] by auto
  then have sound: "list_all (sound_type (abi_max_align abi)) (byte_layout # abi_types abi)"
    by (simp add: list_all_iff)
  show "sound_requests (abi_max_align abi) (plan_requests abi (estimated_pipeline abi) draft messages pipelines)"
    "sound_requests (abi_max_align abi) (plan_requests abi (frozen_pipeline abi) draft messages pipelines)"
    using sound
    by (auto simp: sound_requests_def plan_requests_def framing_requests_def pipeline_requests_def message_requests_def
        field_requests_def execution_requests_def text_requests_def estimated_pipeline_def frozen_pipeline_def abi_types_def
        split: option.splits)
qed
section \<open>The freezing of an accepted draft\<close>

text \<open>What freezing needs of a prepared draft.\<close>

definition freezable :: "PlanDraftData \<Rightarrow> PreparedPlan \<Rightarrow> bool" where
  "freezable draft prepared \<longleftrightarrow>
     (\<forall>f \<in> set (dd_framing_profiles draft). length (fp_sync_prefix_table f) = length (fp_sync_bytes f)) \<and>
     (\<forall>m \<in> set (pr_messages prepared). action_sizes (me_text_decode m) \<and> action_sizes (me_text_encode m))"

definition bundle_of :: "nat \<Rightarrow> PlanDraftData \<Rightarrow> PreparedPlan \<Rightarrow> PlanBundle" where
  "bundle_of address draft prepared =
     \<lparr>pb_address = address, pb_schema_version = dd_schema_version draft, pb_protocol_id = dd_protocol_id draft,
      pb_protocol_version = dd_protocol_version draft, pb_resource_profile = dd_resource_profile draft,
      pb_resource_requirements = pr_requirements prepared, pb_framing_profiles = dd_framing_profiles draft,
      pb_pipelines = dd_pipelines draft, pb_messages = dd_messages draft, pb_conversions = dd_conversions draft,
      pb_layout = pr_layout prepared, pb_message_execution_plans = pr_messages prepared,
      pb_pipeline_execution_plans = pr_pipelines prepared\<rparr>"

lemma FreezePlan_pays:
  assumes "freezable draft prepared"
  shows "FreezePlan abi address draft prepared a =
    (case AllocateArray (abi_max_align abi) (abi_PlanBundle abi) 1 PC_OBJECT a of
       None \<Rightarrow> None
     | Some (b, offset) \<Rightarrow> map_option (\<lambda>c. (c, bundle_of (address + offset) draft prepared))
         (serve (abi_max_align abi)
            (tl (plan_requests abi (frozen_pipeline abi) draft (pr_messages prepared) (pr_pipelines prepared))) b))"
proof -
  have framings: "pays (abi_max_align abi) (framing_requests abi f) f (FreezeFraming abi f)"
    if "f \<in> set (dd_framing_profiles draft)" for f
    using assms that by (auto simp: freezable_def intro: pays_framing)
  have executions: "pays (abi_max_align abi) (execution_requests abi m) m (FreezeMessageExecution abi m)"
    if "m \<in> set (pr_messages prepared)" for m
    using assms that by (auto simp: freezable_def intro: pays_execution)
  have q: "tl (plan_requests abi (frozen_pipeline abi) draft (pr_messages prepared) (pr_pipelines prepared)) =
      string_request (dd_schema_version draft) # string_request (dd_protocol_id draft) #
      string_request (dd_protocol_version draft) #
      ((abi_FrozenFramingPlan abi, length (dd_framing_profiles draft), PC_METADATA_CONTAINER) #
       concat (map (framing_requests abi) (dd_framing_profiles draft))) @
      ((abi_FrozenPipelinePlan abi, length (dd_pipelines draft), PC_METADATA_CONTAINER) #
       concat (map (pipeline_requests abi) (dd_pipelines draft))) @
      ((abi_FrozenMessagePlan abi, length (dd_messages draft), PC_METADATA_CONTAINER) #
       concat (map (message_requests abi) (dd_messages draft))) @
      (abi_LinearConversionDescriptor abi, length (dd_conversions draft), PC_EXTENSION) #
      ((abi_MessageExecutionPlan abi, length (pr_messages prepared), PC_EXECUTION_DESCRIPTOR) #
       concat (map (execution_requests abi) (pr_messages prepared))) @
      ((abi_PipelineExecutionPlan abi, length (pr_pipelines prepared), PC_EXECUTION_DESCRIPTOR) #
       concat (map (frozen_pipeline abi) (pr_pipelines prepared))) @ []"
    by (simp add: plan_requests_def)
  have "pays (abi_max_align abi)
      (tl (plan_requests abi (frozen_pipeline abi) draft (pr_messages prepared) (pr_pipelines prepared)))
      (bundle_of plan_address draft prepared) (FreezeContents abi plan_address draft prepared)" for plan_address
    unfolding q FreezeContents_def
    by ((rule pays_one, rule payments)+,
        rule pays_and_then, rule pays_array, erule framings,
        rule pays_and_then, rule pays_array, rule pays_pipeline,
        rule pays_and_then, rule pays_array, rule pays_message,
        rule pays_one, rule payments,
        rule pays_and_then, rule pays_array, erule executions,
        rule pays_and_then, rule pays_array, rule pays_pipeline_execution,
        rule pays_last) (simp add: bundle_of_def)
  then show ?thesis by (auto simp: FreezePlan_def and_then_def pays_def split: option.split)
qed

lemma new_arena_ok: "capacity \<le> SIZE_MAX \<Longrightarrow> arena_ok (new_arena True capacity 0)"
  by (simp add: arena_ok_def new_arena_def) (simp add: new_layout_def)

text \<open>The estimate with no limit is the report of the arena whose capacity it is.\<close>

lemma FreezePlan_exact:
  assumes abi: "abi_ok abi" and prepared: "freezable draft prepared"
    and estimate: "EstimatePreparedPlanMemory abi draft (pr_messages prepared) (pr_pipelines prepared) SIZE_MAX = Some e"
  shows "\<exists>a. FreezePlan abi address draft prepared (new_arena True (spent e) 0) = Some (a, bundle_of address draft prepared) \<and>
    ml_report (pa_layout a) = e \<and> 0 < spent e"
proof -
  let ?m = "abi_max_align abi"
  let ?q = "(abi_PlanBundle abi, 1, PC_OBJECT)"
  let ?qs = "plan_requests abi (frozen_pipeline abi) draft (pr_messages prepared) (pr_pipelines prepared)"
  let ?a = "new_arena True (spent e) 0"
  have qs: "?qs = ?q # tl ?qs" by (simp add: plan_requests_def)
  have sound: "sound_type ?m (abi_PlanBundle abi)" "sound_requests ?m (tl ?qs)"
    using plan_requests_sound(2) [OF abi, of draft "pr_messages prepared" "pr_pipelines prepared"] qs
    by (metis sound_requests_simps(2))+
  have e: "e = fold charge1 ?qs no_memory" "spent e \<le> SIZE_MAX"
    using estimate
      charge_charges [OF layout_ok_new [OF order_refl] plan_requests_sound(1) [OF abi, of draft "pr_messages prepared" "pr_pipelines prepared"]]
    by (auto simp: Estimate_charges Let_def plan_orders [OF abi] new_layout_def split: if_splits)
  have start: "ml_report (pa_layout ?a) = no_memory" "pa_capacity_bytes ?a = spent e"
    by (simp_all add: new_arena_def new_layout_def)
  have e': "e = fold charge1 (tl ?qs) (charge1 ?q no_memory)" using e(1) qs by (metis fold_simps(2))
  have fits: "spent (charge1 ?q no_memory) \<le> spent e"
    unfolding e' by (rule spent_charges)
  have positive: "0 < spent (charge1 ?q no_memory)"
    using sound(1) by (auto simp: sound_type_def Let_def)
  obtain b where b: "AllocateArray ?m (abi_PlanBundle abi) 1 PC_OBJECT ?a = Some (b, 0)"
    "arena_ok b" "ml_report (pa_layout b) = charge1 ?q no_memory" "pa_capacity_bytes b = spent e"
  proof
    let ?b = "?a\<lparr>pa_allocation_ordinal := pa_allocation_ordinal ?a + 1,
      pa_layout := (pa_layout ?a)\<lparr>ml_report := charge1 ?q no_memory\<rparr>\<rparr>"
    have "spent no_memory = 0" "padding_for 0 n = 0" for n
      by (simp_all add: no_memory_def padding_for_def)
    then show "AllocateArray ?m (abi_PlanBundle abi) 1 PC_OBJECT ?a = Some (?b, 0)"
      using AllocateArray_charge [OF new_arena_ok [OF e(2)] sound(1), of 1 PC_OBJECT] fits start
      by (simp del: charge1.simps)
    show "arena_ok ?b"
      using new_arena_ok [OF e(2)] fits start
      by (auto simp: arena_ok_def layout_ok_def report_ok_charge simp del: charge1.simps)
  qed (simp_all add: start)
  obtain c where c: "serve ?m (tl ?qs) b = Some c" "ml_report (pa_layout c) = e"
    using serve_charges [OF b(2) sound(2)] b(3,4) e' by auto
  show ?thesis
    using c b(1) positive fits by (simp add: FreezePlan_pays [OF prepared])
qed

lemma FreezePrepared_exact:
  assumes "abi_ok (bp_abi platform)" "freezable draft prepared" "bp_memory_available platform"
    and "dd_test_fail_at_allocation draft = 0"
  shows "FreezePrepared platform draft prepared =
    (case EstimatePreparedPlanMemory (bp_abi platform) draft (pr_messages prepared) (pr_pipelines prepared) SIZE_MAX of
       None \<Rightarrow> Inl (RejectMemory PLAN_MEMORY_LIMIT_EXCEEDED SIZE_MAX (effective_plan_memory_limit draft) (dd_resource_profile draft))
     | Some e \<Rightarrow>
         if spent e > effective_plan_memory_limit draft
         then Inl (RejectMemory PLAN_MEMORY_LIMIT_EXCEEDED (spent e) (effective_plan_memory_limit draft) (dd_resource_profile draft))
         else if dd_approved_plan_memory draft \<noteq> e
         then Inl (RejectMemory PLAN_MEMORY_ESTIMATE_MISMATCH (spent e) (spent (dd_approved_plan_memory draft)) (dd_resource_profile draft))
         else Inr (bundle_of (bp_address platform) draft prepared, e))"
proof (cases "EstimatePreparedPlanMemory (bp_abi platform) draft (pr_messages prepared) (pr_pipelines prepared) SIZE_MAX")
  case (Some e)
  obtain a where a: "FreezePlan (bp_abi platform) (bp_address platform) draft prepared (new_arena True (spent e) 0) =
      Some (a, bundle_of (bp_address platform) draft prepared)" "ml_report (pa_layout a) = e" "0 < spent e"
    using FreezePlan_exact [OF assms(1,2) Some] by blast
  show ?thesis
    using a assms(3,4) by (simp add: FreezePrepared_def Some Let_def unless_def reports_equal AllocateStorage_def)
qed (simp add: FreezePrepared_def)

end
