(* ===== verification/Plan_Accepted.thy ===== *)
theory Plan_Accepted
  imports Plan_Memory_Exact
begin

text \<open>
  What a draft the plan builder accepts looks like: the checks of \<open>PrepareDraft\<close> taken apart, loop by loop.
\<close>

text \<open>A loop whose body is a check per element, applied to every element.\<close>

lemma each_all:
  assumes "each body i xs s = Inr s'" "x \<in> set xs" "\<And>k t t'. body k x t = Inr t' \<Longrightarrow> P x"
  shows "P x"
proof -
  obtain j where "j < length xs" "xs ! j = x" using assms(2) by (auto simp: in_set_conv_nth)
  then show ?thesis using each_turn [OF assms(1)] assms(3) by metis
qed

section \<open>The draft\<close>

lemma CheckResources_accepted:
  assumes "CheckResources draft = Inr r"
  shows "MetadataValid draft" "\<forall>c \<in> set (dd_conversions draft). DraftConversionValid (dd_schema_version draft) c"
    and "length (dd_conversions draft) \<le> max_total_fields (GetResourceProfileLimits (dd_resource_profile draft))"
    and "\<exists>r0 ids. each (CountMessage (GetResourceProfileLimits (dd_resource_profile draft))) 0 (dd_messages draft)
        (start_requirements draft) = Inr r0 \<and>
      each (PrepareFraming (dd_schema_version draft) (GetResourceProfileLimits (dd_resource_profile draft))) 0
        (dd_framing_profiles draft) ([], r0) = Inr (ids, r)"
    and "dd_resource_requirements draft = r"
  using assms by (auto simp: CheckResources_def Let_def accepted list_all_iff RequirementsEqual_iff not_less)

lemma PrepareFraming_accepted:
  assumes "PrepareFraming version limit k f s = Inr s'"
  shows "AdmitFraming version limit f = Some (Inr None) \<or> (\<exists>n. AdmitFraming version limit f = Some (Inr (Some n)))"
  using assms by (auto simp: PrepareFraming_def Let_def split: prod.splits if_splits option.splits sum.splits)

lemma framings_admitted:
  assumes "CheckResources draft = Inr r" "f \<in> set (dd_framing_profiles draft)"
  shows "\<exists>out. AdmitFraming (dd_schema_version draft) (GetResourceProfileLimits (dd_resource_profile draft)) f = Some (Inr out)"
proof -
  obtain r0 ids where "each (PrepareFraming (dd_schema_version draft) (GetResourceProfileLimits (dd_resource_profile draft))) 0
      (dd_framing_profiles draft) ([], r0) = Inr (ids, r)"
    using CheckResources_accepted(4) [OF assms(1)] by blast
  then show ?thesis by (rule each_all [OF _ assms(2)]) (auto dest: PrepareFraming_accepted)
qed

lemma AdmitFraming_table:
  assumes "AdmitFraming version limit f = Some (Inr out)"
  shows "length (fp_sync_prefix_table f) = length (fp_sync_bytes f)"
  using assms by (auto simp: AdmitFraming_def CheckPrefixTable_def split: option.splits bool.splits if_splits)

lemma PrepareDraft_accepted:
  assumes "PrepareDraft v draft = Inr prepared"
  obtains s ids where "CheckResources draft = Inr (pr_requirements prepared)" "PrepareMessages draft = Inr s"
    "PrepareLayout v (GetResourceProfileLimits (dd_resource_profile draft)) (dd_messages draft) s = Some (pr_layout prepared)"
    "each (PreparePipeline (dd_messages draft) (mg_plans s) (dd_framing_profiles draft)) 0 (dd_pipelines draft) ([], []) =
       Inr (ids, pr_pipelines prepared)" "pr_messages prepared = mg_plans s"
  using assms by (auto simp: PrepareDraft_def accepted split: option.splits)

section \<open>Messages\<close>

text \<open>The loop over the messages appends one descriptor for each.\<close>

lemma PrepareMessage_accepted:
  assumes "PrepareMessage version limit conversions k message s = Inr s'"
  obtains plan slots counts where
    "mg_plans s' = mg_plans s @ [plan]" "mg_reference_counts s' = counts"
    "mg_max_fields s' = max (mg_max_fields s) (length (ms_fields message))"
    "mg_max_inputs s' = max (mg_max_inputs s) (me_required_input_count plan)"
    "mg_conversion_slots s' = max (mg_conversion_slots s) slots"
    "0 < ms_frame_length_bytes message" "ms_frame_length_bytes message \<le> SIZE_MAX"
    "case ms_ascii_text message of
       Some ascii \<Rightarrow> PrepareTextMessage version k message ascii (ms_frame_length_bytes message) = Inr plan \<and> slots = 0 \<and>
         counts = mg_reference_counts s
     | None \<Rightarrow> PrepareBinaryMessage version limit conversions k message (ms_frame_length_bytes message)
         (mg_reference_counts s) = Inr (plan, slots, counts)"
  using assms by (auto simp: PrepareMessage_def accepted Let_def ToSize_def split: option.splits if_splits)

text \<open>Every message has a descriptor that was prepared from it.\<close>

definition prepared_as ::
    "string \<Rightarrow> ResourceProfileLimits \<Rightarrow> LinearConversionDescriptor list \<Rightarrow> nat \<Rightarrow> MessagePlan \<Rightarrow> MessageExecutionPlan \<Rightarrow> nat \<Rightarrow> bool" where
  "prepared_as version limit conversions k message plan slots \<longleftrightarrow>
     0 < ms_frame_length_bytes message \<and> ms_frame_length_bytes message \<le> SIZE_MAX \<and>
     (case ms_ascii_text message of
        Some ascii \<Rightarrow> PrepareTextMessage version k message ascii (ms_frame_length_bytes message) = Inr plan \<and> slots = 0
      | None \<Rightarrow> (\<exists>counts counts'. PrepareBinaryMessage version limit conversions k message (ms_frame_length_bytes message)
          counts = Inr (plan, slots, counts')))"

definition counted_in :: "PlanDraftData \<Rightarrow> MessagesState \<Rightarrow> nat \<Rightarrow> bool" where
  "counted_in draft s k \<longleftrightarrow> (\<exists>slots \<le> mg_conversion_slots s.
     prepared_as (dd_schema_version draft) (GetResourceProfileLimits (dd_resource_profile draft)) (dd_conversions draft) k
       (dd_messages draft ! k) (mg_plans s ! k) slots \<and>
     me_required_input_count (mg_plans s ! k) \<le> mg_max_inputs s \<and>
     length (ms_fields (dd_messages draft ! k)) \<le> mg_max_fields s)"

lemma PrepareMessages_accepted:
  assumes "PrepareMessages draft = Inr s"
  shows "length (mg_plans s) = length (dd_messages draft)" "k < length (dd_messages draft) \<Longrightarrow> counted_in draft s k"
proof -
  let ?version = "dd_schema_version draft" and ?limit = "GetResourceProfileLimits (dd_resource_profile draft)"
    and ?conversions = "dd_conversions draft" and ?ms = "dd_messages draft"
  define P where "P j t \<longleftrightarrow> length (mg_plans t) = j \<and> (\<forall>k < j. counted_in draft t k)"
    for j and t :: MessagesState
  have "\<exists>start. mg_plans start = [] \<and> each (PrepareMessage ?version ?limit ?conversions) 0 ?ms start = Inr s"
    using assms by (intro exI [of _ "\<lparr>mg_ids = [], mg_reference_counts = replicate (length ?conversions) 0, mg_plans = [],
      mg_max_fields = 0, mg_max_inputs = 0, mg_conversion_slots = 0\<rparr>"]) (simp add: PrepareMessages_def accepted)
  then obtain start where "mg_plans start = []" "each (PrepareMessage ?version ?limit ?conversions) 0 ?ms start = Inr s"
    by blast
  then have "P (length ?ms) s"
  proof (intro each_invariant [where P = P and i = 0 and s = start])
    show "P 0 start" using \<open>mg_plans start = []\<close> by (simp add: P_def)
    show "P (Suc j) t'" if j: "j < length ?ms" "PrepareMessage ?version ?limit ?conversions (0 + j) (?ms ! j) t = Inr t'" "P j t"
      for j t t'
      using j(2)
    proof (cases rule: PrepareMessage_accepted)
      case (1 plan slots counts)
      have old: "counted_in draft t' i" if "i < j" for i
      proof -
        have "counted_in draft t i" using j(3) that by (simp add: P_def)
        then show ?thesis
          using 1 j(3) that
          by (auto simp: counted_in_def P_def nth_append intro: order_trans [OF _ max.cobounded1])
      qed
      have "prepared_as ?version ?limit ?conversions j (?ms ! j) plan slots"
        using 1 by (auto simp: prepared_as_def split: option.splits)
      then have "counted_in draft t' j"
        using 1 j(3) by (auto simp: counted_in_def P_def nth_append intro!: exI [of _ slots])
      then show ?thesis using old 1 j(3) by (auto simp: P_def less_Suc_eq)
    qed
  qed simp
  then show "length (mg_plans s) = length ?ms" "k < length ?ms \<Longrightarrow> counted_in draft s k" by (simp_all add: P_def)
qed

section \<open>Text actions\<close>

lemma AddSizeChecked_Some: "AddSizeChecked v n = Some k \<Longrightarrow> n \<le> SIZE_MAX \<Longrightarrow> k = n + v \<and> k \<le> SIZE_MAX"
  by (auto simp: AddSizeChecked_def split: if_splits)

definition within_sizes :: "ActionCheck \<Rightarrow> bool" where
  "within_sizes c \<longleftrightarrow> ac_minimum c \<le> SIZE_MAX \<and> ac_maximum c \<le> SIZE_MAX"

lemma CheckSegments_sizes: "CheckSegments fs decode segments c = Some c' \<Longrightarrow> within_sizes c \<Longrightarrow> within_sizes c'"
proof (induction segments arbitrary: c)
  case (Cons segment following)
  obtain c1 where c1: "(if tsp_kind segment = TS_LITERAL then CheckLiteral segment c
      else CheckFieldSegment fs decode segment following c) = Some c1" "CheckSegments fs decode following c1 = Some c'"
    using Cons.prems(1) by (auto split: option.splits)
  have "within_sizes c1"
    using c1(1) Cons.prems(2)
    by (auto simp: CheckLiteral_def CheckFieldSegment_def Let_def within_sizes_def dest!: AddSizeChecked_Some
        split: if_splits option.splits)
  then show ?case using Cons.IH [OF c1(2)] by blast
qed simp

lemma ValidateAction_sizes: "ValidateAction fs n decode action = Some out \<Longrightarrow> action_sizes action"
  using CheckSegments_sizes
  by (fastforce simp: ValidateAction_def action_sizes_def within_sizes_def split: option.splits if_splits)

lemma PrepareTextMessage_accepted:
  assumes "PrepareTextMessage version k message ascii n = Inr plan"
  obtains decode_fields decode_count encode_fields encode_count ids input_ordinal prepared where
    "ValidateAction (ms_fields message) n True (at_decode ascii) = Some (decode_fields, decode_count)"
    "ValidateAction (ms_fields message) n False (at_encode ascii) = Some (encode_fields, encode_count)"
    "each (PrepareTextField k decode_fields encode_fields) 0 (ms_fields message) ([], 0, []) = Inr (ids, input_ordinal, prepared)"
    "plan = no_message_execution\<lparr>me_frame_size := n, me_fields := prepared, me_required_input_count := input_ordinal,
       me_text_decode := at_decode ascii, me_text_encode := at_encode ascii, me_text_decode_field_count := decode_count\<rparr>"
    "version = ''0.10'' \<or> version = ''0.11''"
  using assms by (auto simp: PrepareTextMessage_def accepted split: option.splits prod.splits)

lemma PrepareBinaryMessage_text:
  assumes "PrepareBinaryMessage version limit conversions k message n counts = Inr (plan, slots, counts')"
  shows "me_text_decode plan = None" "me_text_encode plan = None"
  using assms by (auto simp: PrepareBinaryMessage_def accepted no_message_execution_def)

lemma prepared_sizes:
  assumes "prepared_as version limit conversions k message plan slots"
  shows "action_sizes (me_text_decode plan)" "action_sizes (me_text_encode plan)"
proof -
  have "action_sizes (me_text_decode plan) \<and> action_sizes (me_text_encode plan)"
  proof (cases "ms_ascii_text message")
    case None
    then show ?thesis
      using assms by (auto simp: prepared_as_def action_sizes_def PrepareBinaryMessage_text)
  next
    case (Some ascii)
    then have "PrepareTextMessage version k message ascii (ms_frame_length_bytes message) = Inr plan"
      using assms by (simp add: prepared_as_def)
    then show ?thesis by (rule PrepareTextMessage_accepted) (simp add: ValidateAction_sizes)
  qed
  then show "action_sizes (me_text_decode plan)" "action_sizes (me_text_encode plan)" by simp_all
qed

lemma accepted_message:
  assumes "PrepareMessages draft = Inr s" "m \<in> set (mg_plans s)"
  shows "\<exists>k slots. k < length (dd_messages draft) \<and> m = mg_plans s ! k \<and> slots \<le> mg_conversion_slots s \<and>
    prepared_as (dd_schema_version draft) (GetResourceProfileLimits (dd_resource_profile draft)) (dd_conversions draft) k
      (dd_messages draft ! k) m slots"
proof -
  obtain k where "k < length (dd_messages draft)" "m = mg_plans s ! k"
    using assms(2) PrepareMessages_accepted(1) [OF assms(1)] by (metis in_set_conv_nth)
  then show ?thesis
    using PrepareMessages_accepted(2) [OF assms(1), of k] unfolding counted_in_def by blast
qed

lemma accepted_freezable:
  assumes "PrepareDraft v draft = Inr prepared"
  shows "freezable draft prepared"
  using assms
proof (cases rule: PrepareDraft_accepted)
  case (1 s ids)
  have "action_sizes (me_text_decode m) \<and> action_sizes (me_text_encode m)" if "m \<in> set (pr_messages prepared)" for m
    using accepted_message [OF 1(2), of m] that 1(5) by (auto simp: prepared_sizes)
  moreover have "length (fp_sync_prefix_table f) = length (fp_sync_bytes f)" if "f \<in> set (dd_framing_profiles draft)" for f
    using framings_admitted [OF 1(1) that] by (auto simp: AdmitFraming_table)
  ultimately show ?thesis unfolding freezable_def by blast
qed

end
