(* ===== verification/Plan_Fields.thy ===== *)
theory Plan_Fields
  imports Plan_Accepted
begin

text \<open>
  The loop over the fields of a binary message, taken apart: what the accepted fields satisfy and what their
  descriptors hold.  \<open>described\<close> is the relation of a field to its descriptor in the tables of its message.
\<close>

section \<open>One field\<close>

lemma PlaceBits_accepted:
  assumes "PlaceBits message field e s = Some (e', s')"
  shows "\<exists>shift mask. e' = e\<lparr>fe_bit_shift := shift, fe_bit_mask := mask\<rparr>"
    and "st_ids s' = st_ids s" "st_intervals s' = st_intervals s" "st_fields s' = st_fields s"
    "st_enum_raw_values s' = st_enum_raw_values s" "st_enum_lookup_entries s' = st_enum_lookup_entries s"
    "st_input_ordinal s' = st_input_ordinal s" "st_conversion_slot s' = st_conversion_slot s"
proof -
  have "e' = e \<or> (\<exists>shift mask. e' = e\<lparr>fe_bit_shift := shift, fe_bit_mask := mask\<rparr>)"
    using assms by (auto simp: PlaceBits_def Let_def split: if_splits)
  moreover have "e = e\<lparr>fe_bit_shift := fe_bit_shift e, fe_bit_mask := fe_bit_mask e\<rparr>" by simp
  ultimately show "\<exists>shift mask. e' = e\<lparr>fe_bit_shift := shift, fe_bit_mask := mask\<rparr>" by metis
  show "st_ids s' = st_ids s" "st_intervals s' = st_intervals s" "st_fields s' = st_fields s"
    "st_enum_raw_values s' = st_enum_raw_values s" "st_enum_lookup_entries s' = st_enum_lookup_entries s"
    "st_input_ordinal s' = st_input_ordinal s" "st_conversion_slot s' = st_conversion_slot s"
    using assms by (auto simp: PlaceBits_def Let_def split: if_splits)
qed

text \<open>The tables of an enumeration.\<close>

definition entry_lookup :: "EnumEntryPlan list \<Rightarrow> EnumLookupExecutionPlan list" where
  "entry_lookup entries =
     map (\<lambda>e. \<lparr>el_raw_value = ee_raw_value (entries ! e), el_entry_index = e\<rparr>) [0..<length entries]"

lemma PrepareEntry_accepted:
  assumes "each (PrepareEntry field width) 0 entries ([], [], []) = Inr (ids, raw_values, lookup)"
  shows "raw_values = map ee_raw_value entries" "lookup = entry_lookup entries" "distinct (map ee_raw_value entries)"
proof -
  define P where "P j t \<longleftrightarrow> (case t of (ids, raws, lookup) \<Rightarrow> raws = map ee_raw_value (take j entries) \<and>
      lookup = map (\<lambda>e. \<lparr>el_raw_value = ee_raw_value (entries ! e), el_entry_index = e\<rparr>) [0..<j] \<and>
      distinct (map ee_raw_value (take j entries)))"
    for j and t :: "string list \<times> u64 list \<times> EnumLookupExecutionPlan list"
  have "P (length entries) (ids, raw_values, lookup)"
    by (rule each_invariant [OF assms])
      (auto simp: P_def PrepareEntry_def take_Suc_conv_app_nth split: prod.splits if_splits)
  then show "raw_values = map ee_raw_value entries" "lookup = entry_lookup entries" "distinct (map ee_raw_value entries)"
    by (auto simp: P_def entry_lookup_def)
qed

definition enum_entries :: "FieldPlan \<Rightarrow> EnumEntryPlan list" where
  "enum_entries field = (if fl_value_type field = VT_ENUM then fl_enum_entries field else [])"

lemma PrepareEnum_accepted:
  assumes "PrepareEnum field width e s = Some (e', s')"
  shows "e' = e\<lparr>fe_enum_values_count := fe_enum_values_count e', fe_enum_lookup_count := fe_enum_lookup_count e'\<rparr>"
    and "fl_value_type field = VT_ENUM \<Longrightarrow> fe_enum_values_count e' = length (fl_enum_entries field) \<and>
      fe_enum_lookup_count e' = length (fl_enum_entries field) \<and> distinct (map ee_raw_value (fl_enum_entries field))"
    and "s' = s\<lparr>st_enum_raw_values := st_enum_raw_values s @ map ee_raw_value (enum_entries field),
      st_enum_lookup_entries := st_enum_lookup_entries s @ sort_key el_raw_value (entry_lookup (enum_entries field))\<rparr>"
  using assms PrepareEntry_accepted [of field width "fl_enum_entries field"]
  by (auto simp: PrepareEnum_def enum_entries_def entry_lookup_def Let_def split: if_splits sum.splits)

text \<open>What a field that was accepted satisfies.\<close>

definition field_checked :: "string \<Rightarrow> LinearConversionDescriptor list \<Rightarrow> MessagePlan \<Rightarrow> nat \<Rightarrow> nat \<Rightarrow> FieldPlan \<Rightarrow> bool" where
  "field_checked version conversions message frame_size i field \<longleftrightarrow>
     (is_bitfield field \<longrightarrow> fl_bit_container_index field < length (ms_bit_containers message)) \<and>
     (\<not> is_bitfield field \<longrightarrow> IsRangeWithin (fl_byte_offset field) (fl_byte_width field) frame_size) \<and>
     PayloadPlaced message i field \<and> FieldShapeValid version message i field (field_width message field) \<and>
     ConversionValid version conversions field"

lemma PrepareField_accepted:
  assumes "PrepareField version conversions k message frame_size i field s = Inr s'"
  obtains e shift mask count where
    "field_checked version conversions message frame_size i field"
    "e = (field_execution message field s)\<lparr>fe_bit_shift := shift, fe_bit_mask := mask,
       fe_enum_values_count := count, fe_enum_lookup_count := count\<rparr>"
    "fl_value_type field = VT_ENUM \<Longrightarrow> count = length (fl_enum_entries field) \<and> distinct (map ee_raw_value (fl_enum_entries field))"
    "st_fields s' = st_fields s @ [e]"
    "st_intervals s' = (if is_bitfield field then st_intervals s else st_intervals s @
       [\<lparr>bi_begin = fl_byte_offset field, bi_end = fl_byte_offset field + fl_byte_width field, bi_source_index = i\<rparr>])"
    "st_input_ordinal s' = st_input_ordinal s + (if fl_encode_source field = ES_INPUT then 1 else 0)"
    "st_conversion_slot s' = st_conversion_slot s + (if fl_conversion_index field \<noteq> kInvalidIndex then 1 else 0)"
    "st_enum_raw_values s' = st_enum_raw_values s @ map ee_raw_value (enum_entries field)"
    "st_enum_lookup_entries s' = st_enum_lookup_entries s @ sort_key el_raw_value (entry_lookup (enum_entries field))"
proof -
  define e0 where "e0 = field_execution message field s"
  define s0 where "s0 = s\<lparr>st_ids := fl_id field # st_ids s,
      st_intervals := (if is_bitfield field then st_intervals s else st_intervals s @
        [\<lparr>bi_begin = field_offset message field, bi_end = field_offset message field + field_width message field,
          bi_source_index = i\<rparr>]),
      st_reference_counts := (if fl_conversion_index field \<noteq> kInvalidIndex then (st_reference_counts s)
          [fl_conversion_index field := st_reference_counts s ! fl_conversion_index field + 1] else st_reference_counts s),
      st_conversion_slot := (if fl_conversion_index field \<noteq> kInvalidIndex then st_conversion_slot s + 1 else st_conversion_slot s),
      st_input_ordinal := (if fl_encode_source field = ES_INPUT then st_input_ordinal s + 1 else st_input_ordinal s)\<rparr>"
  obtain e1 s1 e2 s2 where checks: "FieldPlaced message frame_size (st_ids s) field" "PayloadPlaced message i field"
      "FieldShapeValid version message i field (field_width message field)" "ConversionValid version conversions field"
    and bits: "PlaceBits message field e0 s0 = Some (e1, s1)"
    and enum: "PrepareEnum field (field_width message field) e1 s1 = Some (e2, s2)"
    and s': "s' = s2\<lparr>st_fields := st_fields s2 @ [e2]\<rparr>"
    using assms by (auto simp: PrepareField_def accepted Let_def e0_def s0_def split: option.splits)
  have checked: "field_checked version conversions message frame_size i field"
    using checks by (auto simp: field_checked_def FieldPlaced_def)
  obtain shift mask where e1: "e1 = e0\<lparr>fe_bit_shift := shift, fe_bit_mask := mask\<rparr>"
    using PlaceBits_accepted(1) [OF bits] by blast
  note s1 = PlaceBits_accepted(2-8) [OF bits] and e2 = PrepareEnum_accepted(1) [OF enum]
    and count = PrepareEnum_accepted(2) [OF enum] and s2 = PrepareEnum_accepted(3) [OF enum]
  have counts: "fe_enum_values_count e2 = fe_enum_lookup_count e2"
  proof (cases "fl_value_type field = VT_ENUM")
    case False
    then have "e2 = e1" using enum by (simp add: PrepareEnum_def)
    then show ?thesis by (simp add: e1 e0_def field_execution_def no_field_execution_def)
  qed (use count in simp)
  show thesis
  proof
    show "e2 = (field_execution message field s)\<lparr>fe_bit_shift := shift, fe_bit_mask := mask,
        fe_enum_values_count := fe_enum_lookup_count e2, fe_enum_lookup_count := fe_enum_lookup_count e2\<rparr>"
      using e2 counts unfolding e1 e0_def by metis
  qed (use checked count s' s2 s1 in \<open>auto simp: s0_def field_offset_def field_width_def\<close>)
qed

section \<open>The descriptor of a field\<close>

definition inputs_before :: "MessagePlan \<Rightarrow> nat \<Rightarrow> nat" where
  "inputs_before message j = length (filter (\<lambda>f. fl_encode_source f = ES_INPUT) (take j (ms_fields message)))"

definition conversions_before :: "MessagePlan \<Rightarrow> nat \<Rightarrow> nat" where
  "conversions_before message j = length (filter (\<lambda>f. fl_conversion_index f \<noteq> kInvalidIndex) (take j (ms_fields message)))"

lemma before_Suc:
  assumes "j < length (ms_fields message)"
  shows "inputs_before message (Suc j) =
      inputs_before message j + (if fl_encode_source (ms_fields message ! j) = ES_INPUT then 1 else 0)"
    and "conversions_before message (Suc j) =
      conversions_before message j + (if fl_conversion_index (ms_fields message ! j) \<noteq> kInvalidIndex then 1 else 0)"
  using assms by (simp_all add: inputs_before_def conversions_before_def take_Suc_conv_app_nth)

lemma before_mono:
  assumes "i \<le> j"
  shows "inputs_before message i \<le> inputs_before message j" "conversions_before message i \<le> conversions_before message j"
proof -
  obtain d where "j = i + d" using assms le_Suc_ex by blast
  then have "take j (ms_fields message) = take i (ms_fields message) @ take d (drop i (ms_fields message))"
    by (simp add: take_add)
  then show "inputs_before message i \<le> inputs_before message j" "conversions_before message i \<le> conversions_before message j"
    by (simp_all add: inputs_before_def conversions_before_def)
qed

text \<open>The part of the tables that holds the entries of a field.\<close>

definition enum_block :: "u64 list \<Rightarrow> EnumLookupExecutionPlan list \<Rightarrow> FieldPlan \<Rightarrow> FieldExecutionPlan \<Rightarrow> bool" where
  "enum_block raws lookup field e \<longleftrightarrow>
     (let n = length (fl_enum_entries field)
      in fe_enum_values_count e = n \<and> fe_enum_lookup_count e = n \<and> distinct (map ee_raw_value (fl_enum_entries field)) \<and>
         fe_enum_values_begin e + n \<le> length raws \<and> fe_enum_lookup_begin e + n \<le> length lookup \<and>
         take n (drop (fe_enum_values_begin e) raws) = map ee_raw_value (fl_enum_entries field) \<and>
         take n (drop (fe_enum_lookup_begin e) lookup) = sort_key el_raw_value (entry_lookup (fl_enum_entries field)))"

lemma enum_block_append: "enum_block raws lookup field e \<Longrightarrow> enum_block (raws @ raws') (lookup @ lookup') field e"
  by (simp add: enum_block_def Let_def)

definition described ::
    "MessagePlan \<Rightarrow> u64 list \<Rightarrow> EnumLookupExecutionPlan list \<Rightarrow> nat \<Rightarrow> FieldPlan \<Rightarrow> FieldExecutionPlan \<Rightarrow> bool" where
  "described message raws lookup i field e \<longleftrightarrow>
     fe_offset e = field_offset message field \<and> fe_width e = field_width message field \<and>
     fe_input_ordinal e = (if fl_encode_source field = ES_INPUT then inputs_before message i else SIZE_MAX) \<and>
     fe_value_type e = fl_value_type field \<and> fe_byte_order e = fl_byte_order field \<and>
     fe_encode_source e = fl_encode_source field \<and> fe_conversion_index e = fl_conversion_index field \<and>
     fe_conversion_slot e = (if fl_conversion_index field \<noteq> kInvalidIndex then conversions_before message i else SIZE_MAX) \<and>
     fe_bit_container_index e = fl_bit_container_index field \<and>
     (fl_value_type field = VT_ENUM \<longrightarrow> enum_block raws lookup field e)"

lemma described_append: "described message raws lookup i field e \<Longrightarrow> described message (raws @ raws') (lookup @ lookup') i field e"
  by (auto simp: described_def intro: enum_block_append)

text \<open>The state of the loop after \<open>j\<close> fields.\<close>

definition fields_done ::
    "string \<Rightarrow> LinearConversionDescriptor list \<Rightarrow> MessagePlan \<Rightarrow> nat \<Rightarrow> ByteInterval list \<Rightarrow> nat \<Rightarrow> FieldsState \<Rightarrow> bool" where
  "fields_done version conversions message frame_size intervals j s \<longleftrightarrow>
     length (st_fields s) = j \<and> st_input_ordinal s = inputs_before message j \<and>
     st_conversion_slot s = conversions_before message j \<and>
     st_intervals s = intervals @ concat (map (\<lambda>i. let field = ms_fields message ! i in
       if is_bitfield field then [] else
       [\<lparr>bi_begin = fl_byte_offset field, bi_end = fl_byte_offset field + fl_byte_width field, bi_source_index = i\<rparr>]) [0..<j]) \<and>
     (\<forall>i < j. field_checked version conversions message frame_size i (ms_fields message ! i) \<and>
        described message (st_enum_raw_values s) (st_enum_lookup_entries s) i (ms_fields message ! i) (st_fields s ! i))"

lemma fields_done_step:
  assumes j: "j < length (ms_fields message)"
    and step: "PrepareField version conversions k message frame_size j (ms_fields message ! j) s = Inr s'"
    and prior: "fields_done version conversions message frame_size intervals j s"
  shows "fields_done version conversions message frame_size intervals (Suc j) s'"
  using step
proof (cases rule: PrepareField_accepted)
  case (1 e shift mask count)
  let ?field = "ms_fields message ! j"
  have old: "field_checked version conversions message frame_size i (ms_fields message ! i) \<and>
      described message (st_enum_raw_values s') (st_enum_lookup_entries s') i (ms_fields message ! i) (st_fields s' ! i)"
    if "i < j" for i
    using prior that 1(4,8,9) by (auto simp: fields_done_def nth_append intro: described_append)
  have "described message (st_enum_raw_values s') (st_enum_lookup_entries s') j ?field e"
    using prior 1(2,3,8,9)
    by (auto simp: described_def fields_done_def field_execution_def no_field_execution_def enum_block_def Let_def
        enum_entries_def entry_lookup_def)
  then have new: "described message (st_enum_raw_values s') (st_enum_lookup_entries s') j ?field (st_fields s' ! j)"
    using prior 1(4) by (simp add: fields_done_def nth_append)
  show ?thesis
    using prior old new 1 before_Suc [OF j] by (auto simp: fields_done_def less_Suc_eq Let_def)
qed

lemma fields_loop:
  assumes "each (PrepareField version conversions k message frame_size) 0 (ms_fields message)
      (fields_start message intervals counts) = Inr s"
  shows "fields_done version conversions message frame_size intervals (length (ms_fields message)) s"
proof (rule each_invariant [OF assms])
  show "fields_done version conversions message frame_size intervals 0 (fields_start message intervals counts)"
    by (simp add: fields_done_def fields_start_def Let_def inputs_before_def conversions_before_def)
  show "fields_done version conversions message frame_size intervals (Suc j) t'"
    if "j < length (ms_fields message)"
      "PrepareField version conversions k message frame_size (0 + j) (ms_fields message ! j) t = Inr t'"
      "fields_done version conversions message frame_size intervals j t" for j t t'
    using fields_done_step [OF that(1) _ that(3)] that(2) by simp
qed

section \<open>The containers\<close>

definition container_execution :: "BitContainerPlan \<Rightarrow> BitContainerExecutionPlan" where
  "container_execution c = \<lparr>bce_offset = bc_byte_offset c, bce_width = bc_byte_width c,
     bce_byte_order = bc_byte_order c, bce_base_value = bc_base_value c\<rparr>"

definition container_checked :: "nat \<Rightarrow> BoundedPayloadPlan option \<Rightarrow> BitContainerPlan \<Rightarrow> bool" where
  "container_checked frame_size bounded c \<longleftrightarrow>
     bc_byte_width c \<in> {1, 2, 4, 8} \<and> IsRangeWithin (bc_byte_offset c) (bc_byte_width c) frame_size \<and>
     IsBitContainerByteOrderValid (bc_byte_order c) (bc_byte_width c) \<and>
     (\<forall>b. bounded = Some b \<longrightarrow> IsRangeWithin (bc_byte_offset c) (bc_byte_width c) (bp_header_length b))"

lemma containers_loop:
  assumes "each (PrepareContainer k frame_size bounded) 0 cs ([], [], []) = Inr (ids, intervals, prepared)"
  shows "prepared = map container_execution cs" "\<forall>c \<in> set cs. container_checked frame_size bounded c"
    and "intervals = map (\<lambda>i. \<lparr>bi_begin = bc_byte_offset (cs ! i), bi_end = bc_byte_offset (cs ! i) + bc_byte_width (cs ! i),
      bi_source_index = i\<rparr>) [0..<length cs]"
proof -
  define P where "P j t \<longleftrightarrow> (case t of (ids, intervals, prepared) \<Rightarrow> prepared = map container_execution (take j cs) \<and>
      (\<forall>c \<in> set (take j cs). container_checked frame_size bounded c) \<and>
      intervals = map (\<lambda>i. \<lparr>bi_begin = bc_byte_offset (cs ! i), bi_end = bc_byte_offset (cs ! i) + bc_byte_width (cs ! i),
        bi_source_index = i\<rparr>) [0..<j])"
    for j and t :: "string list \<times> ByteInterval list \<times> BitContainerExecutionPlan list"
  have "P (length cs) (ids, intervals, prepared)"
    by (rule each_invariant [OF assms])
      (auto simp: P_def PrepareContainer_def Let_def container_execution_def container_checked_def take_Suc_conv_app_nth
        split: prod.splits if_splits option.splits)
  then show "prepared = map container_execution cs" "\<forall>c \<in> set cs. container_checked frame_size bounded c"
    "intervals = map (\<lambda>i. \<lparr>bi_begin = bc_byte_offset (cs ! i), bi_end = bc_byte_offset (cs ! i) + bc_byte_width (cs ! i),
      bi_source_index = i\<rparr>) [0..<length cs]"
    by (simp_all add: P_def)
qed

section \<open>The message\<close>

lemma PrepareBinaryMessage_accepted:
  assumes "PrepareBinaryMessage version limit conversions k message n counts = Inr (plan, slots, counts')"
  obtains container_ids intervals s fixed where
    "CheckParts version limit k message n = Inr ()"
    "each (PrepareContainer k n (ms_bounded_payload message)) 0 (ms_bit_containers message) ([], [], []) =
       Inr (container_ids, intervals, me_bit_containers plan)"
    "each (PrepareField version conversions k message n) 0 (ms_fields message) (fields_start message intervals counts) = Inr s"
    "0 \<notin> set (st_member_counts s)" "first_overlap (sort_intervals (st_intervals s)) = None"
    "\<not> integrity_overlaps (ms_integrity message) (sort_intervals (st_intervals s))"
    "PrepareFixed k message n (s\<lparr>st_intervals := sort_intervals (st_intervals s)\<rparr>) = Inr fixed"
    "plan = no_message_execution
       \<lparr>me_frame_size := n, me_required_input_count := st_input_ordinal s,
        me_integrity := ms_integrity message, me_bounded_payload := ms_bounded_payload message,
        me_computed_length := ms_computed_length message,
        me_fixed_bytes := map (\<lambda>(offset, v). \<lparr>fb_offset = offset, fb_value = v\<rparr>) fixed,
        me_bit_containers := me_bit_containers plan, me_fields := st_fields s,
        me_enum_raw_values := st_enum_raw_values s, me_enum_lookup_entries := st_enum_lookup_entries s\<rparr>"
    "slots = st_conversion_slot s"
  using assms by (auto simp: PrepareBinaryMessage_def PrepareFields_def accepted Let_def split: option.splits)

end
