(* ===== verification/Plan_Candidates.thy ===== *)
theory Plan_Candidates
  imports Plan_Fields
begin

text \<open>
  The loop over the messages of a pipeline, taken apart: the lists the record matcher reads hold every message once,
  in the list its kind demands, and no two binary messages of a pipeline passed the test for a common record.
  \<open>FixedMatchersCanIntersect_iff\<close> is what that test decides.
\<close>

section \<open>The test for a common record\<close>

text \<open>Fixed bytes as the builder lays them out: offsets rise and lie in the shortest record.\<close>

definition fixed_ok :: "MessageExecutionPlan \<Rightarrow> bool" where
  "fixed_ok m \<longleftrightarrow> sorted_wrt (<) (map fb_offset (me_fixed_bytes m)) \<and>
     (\<forall>b \<in> set (me_fixed_bytes m). fb_offset b < min_length m) \<and> min_length m \<le> max_length m"

definition fixed_agree :: "FixedByteExecutionPlan list \<Rightarrow> FixedByteExecutionPlan list \<Rightarrow> bool" where
  "fixed_agree ls rs \<longleftrightarrow> (\<forall>l \<in> set ls. \<forall>r \<in> set rs. fb_offset l = fb_offset r \<longrightarrow> fb_value l = fb_value r)"

lemma fixed_agree_Cons:
  "fixed_agree (l # ls) rs \<longleftrightarrow> (\<forall>r \<in> set rs. fb_offset l = fb_offset r \<longrightarrow> fb_value l = fb_value r) \<and> fixed_agree ls rs"
  "fixed_agree ls (r # rs) \<longleftrightarrow> (\<forall>l \<in> set ls. fb_offset l = fb_offset r \<longrightarrow> fb_value l = fb_value r) \<and> fixed_agree ls rs"
  unfolding fixed_agree_def by (simp_all add: ball_conj_distrib)

lemma merge_fixed_iff:
  "sorted_wrt (<) (map fb_offset ls) \<Longrightarrow> sorted_wrt (<) (map fb_offset rs) \<Longrightarrow> merge_fixed ls rs \<longleftrightarrow> fixed_agree ls rs"
proof (induction ls rs rule: merge_fixed.induct)
  case (1 l ls r rs)
  have above: "\<forall>x \<in> set ls. fb_offset l < fb_offset x" "\<forall>x \<in> set rs. fb_offset r < fb_offset x" using "1.prems" by simp_all
  have sorted: "sorted_wrt (<) (map fb_offset ls)" "sorted_wrt (<) (map fb_offset rs)" using "1.prems" by simp_all
  consider "fb_offset l < fb_offset r" | "fb_offset r < fb_offset l" | "fb_offset l = fb_offset r" by linarith
  then show ?case
  proof cases
    case 1
    have "\<forall>x \<in> set (r # rs). fb_offset l \<noteq> fb_offset x" using 1 above(2) by fastforce
    then have "fixed_agree (l # ls) (r # rs) \<longleftrightarrow> fixed_agree ls (r # rs)" by (subst fixed_agree_Cons(1)) blast
    then show ?thesis using 1 "1.IH"(1) "1.prems" sorted by simp
  next
    case 2
    have "\<forall>x \<in> set (l # ls). fb_offset x \<noteq> fb_offset r" using 2 above(1) by fastforce
    then have "fixed_agree (l # ls) (r # rs) \<longleftrightarrow> fixed_agree (l # ls) rs" by (subst fixed_agree_Cons(2)) blast
    then show ?thesis using 2 "1.IH"(2) "1.prems" sorted by simp
  next
    case 3
    have "\<forall>x \<in> set rs. fb_offset l \<noteq> fb_offset x" "\<forall>x \<in> set ls. fb_offset x \<noteq> fb_offset r"
      using 3 above by fastforce+
    then have "fixed_agree (l # ls) (r # rs) \<longleftrightarrow> fb_value l = fb_value r \<and> fixed_agree ls rs"
      using 3 by (simp add: fixed_agree_Cons)
    then show ?thesis using 3 "1.IH"(3) sorted by (cases "fb_value l = fb_value r") simp_all
  qed
qed (simp_all add: fixed_agree_def)

lemma MessageMatches_iff:
  "MessageMatches m input \<longleftrightarrow> min_length m \<le> length input \<and> length input \<le> max_length m \<and>
     (\<forall>b \<in> set (me_fixed_bytes m). input ! fb_offset b = fb_value b)"
  by (auto simp: MessageMatches_def min_length_def max_length_def split: option.split)

lemma fixed_agree_append:
  "fixed_agree (ls @ ls') rs \<longleftrightarrow> fixed_agree ls rs \<and> fixed_agree ls' rs"
  "fixed_agree ls (rs @ rs') \<longleftrightarrow> fixed_agree ls rs \<and> fixed_agree ls rs'"
  unfolding fixed_agree_def by (simp_all add: ball_Un ball_conj_distrib)

lemma fixed_agree_sym: "fixed_agree ls rs \<Longrightarrow> fixed_agree rs ls"
  unfolding fixed_agree_def by metis

text \<open>The record all of whose bytes are zero but the fixed ones of two messages.\<close>

definition common_record :: "nat \<Rightarrow> FixedByteExecutionPlan list \<Rightarrow> u8 list" where
  "common_record n bs = fold (\<lambda>b frame. frame[fb_offset b := fb_value b]) bs (replicate n 0)"

lemma common_record_length [simp]: "length (common_record n bs) = n"
proof -
  have "length (fold (\<lambda>b frame. frame[fb_offset b := fb_value b]) bs (xs :: u8 list)) = length xs" for xs
    by (induction bs arbitrary: xs) simp_all
  then show ?thesis by (simp add: common_record_def)
qed

lemma fold_writes:
  "fb_offset b < length xs \<Longrightarrow> \<forall>c \<in> set cs. fb_offset c = fb_offset b \<longrightarrow> fb_value c = fb_value b \<Longrightarrow>
   b \<in> set cs \<or> xs ! fb_offset b = fb_value b \<Longrightarrow>
   fold (\<lambda>b frame. frame[fb_offset b := fb_value b]) cs (xs :: u8 list) ! fb_offset b = fb_value b"
proof (induction cs arbitrary: xs)
  case (Cons c cs)
  have "b \<in> set cs \<or> xs[fb_offset c := fb_value c] ! fb_offset b = fb_value b"
  proof (cases "fb_offset c = fb_offset b")
    case True
    moreover have "fb_value c = fb_value b" using True Cons.prems(2) by (metis list.set_intros(1))
    ultimately show ?thesis using Cons.prems(1) by (metis nth_list_update_eq)
  next
    case False
    then show ?thesis using Cons.prems(3) by (metis nth_list_update_neq set_ConsD)
  qed
  moreover have "fb_offset b < length (xs[fb_offset c := fb_value c])" using Cons.prems(1) by simp
  moreover have "\<forall>d \<in> set cs. fb_offset d = fb_offset b \<longrightarrow> fb_value d = fb_value b"
    using Cons.prems(2) by (meson list.set_intros(2))
  ultimately have "fold (\<lambda>b frame. frame[fb_offset b := fb_value b]) cs (xs[fb_offset c := fb_value c]) ! fb_offset b = fb_value b"
    using Cons.IH by blast
  then show ?case by (simp only: fold_simps)
qed simp

lemma common_record_at:
assumes "fixed_agree bs bs" "b \<in> set bs" "fb_offset b < n"
shows "common_record n bs ! fb_offset b = fb_value b"
unfolding common_record_def
proof (rule fold_writes)
show "\<forall>c \<in> set bs. fb_offset c = fb_offset b \<longrightarrow> fb_value c = fb_value b"
  using assms(1,2) unfolding fixed_agree_def by metis
qed (use assms in simp_all)

lemma fixed_agree_self: "sorted_wrt (<) (map fb_offset bs) \<Longrightarrow> fixed_agree bs bs"
  unfolding fixed_agree_def strict_sorted_iff distinct_map by (metis inj_onD)

lemma FixedMatchersCanIntersect_iff:
  assumes "fixed_ok l" "fixed_ok r"
  shows "FixedMatchersCanIntersect l r \<longleftrightarrow> (\<exists>input. MessageMatches l input \<and> MessageMatches r input)"
proof
  let ?ls = "me_fixed_bytes l" and ?rs = "me_fixed_bytes r"
  assume "FixedMatchersCanIntersect l r"
  then have range: "min_length r \<le> max_length l" "min_length l \<le> max_length r" and agree: "fixed_agree ?ls ?rs"
    using assms merge_fixed_iff [of ?ls ?rs] by (auto simp: FixedMatchersCanIntersect_def fixed_ok_def split: if_splits)
  let ?n = "max (min_length l) (min_length r)" and ?both = "common_record (max (min_length l) (min_length r)) (?ls @ ?rs)"
  have "fixed_agree (?ls @ ?rs) (?ls @ ?rs)"
    using agree fixed_agree_self [of ?ls] fixed_agree_self [of ?rs] assms
    by (simp add: fixed_agree_append fixed_agree_sym fixed_ok_def)
  then have "?both ! fb_offset b = fb_value b" if "b \<in> set ?ls \<union> set ?rs" for b
    using that assms by (intro common_record_at) (auto simp: fixed_ok_def less_max_iff_disj)
  then have "MessageMatches l ?both \<and> MessageMatches r ?both"
    using range assms by (auto simp: MessageMatches_iff fixed_ok_def)
  then show "\<exists>input. MessageMatches l input \<and> MessageMatches r input" by blast
next
  assume "\<exists>input. MessageMatches l input \<and> MessageMatches r input"
  then obtain input where "MessageMatches l input" "MessageMatches r input" by blast
  then have "\<not> (max_length l < min_length r \<or> max_length r < min_length l)" "fixed_agree (me_fixed_bytes l) (me_fixed_bytes r)"
    by (auto simp: MessageMatches_iff fixed_agree_def)
  then show "FixedMatchersCanIntersect l r"
    using merge_fixed_iff assms by (simp add: FixedMatchersCanIntersect_def fixed_ok_def)
qed

text \<open>The fixed bytes of a message that was prepared are laid out so.\<close>

lemma EnterBytes_keeps:
  assumes "EnterBytes offset bytes fixed = Some fixed'"
  shows "sorted_wrt (<) (map fst fixed) \<Longrightarrow> sorted_wrt (<) (map fst fixed')"
    and "\<forall>i \<in> fst ` set fixed'. i \<in> fst ` set fixed \<or> offset \<le> i \<and> i < offset + length bytes"
proof -
  have "(sorted_wrt (<) (map fst fixed) \<longrightarrow> sorted_wrt (<) (map fst fixed')) \<and>
    (\<forall>i \<in> fst ` set fixed'. i \<in> fst ` set fixed \<or> offset \<le> i \<and> i < offset + length bytes)"
    using assms
  proof (induction bytes arbitrary: offset fixed)
    case (Cons byte bytes)
    define next_fixed where "next_fixed = (if map_of fixed offset = None then map_put offset byte fixed else fixed)"
    have step: "EnterBytes (offset + 1) bytes next_fixed = Some fixed'"
      using Cons.prems by (auto simp: next_fixed_def split: option.splits if_splits)
    have keys: "fst ` set next_fixed \<subseteq> insert offset (fst ` set fixed)"
      and sorted: "sorted_wrt (<) (map fst fixed) \<Longrightarrow> sorted_wrt (<) (map fst next_fixed)"
      by (auto simp: next_fixed_def)
    have "i \<in> fst ` set fixed \<or> offset \<le> i \<and> i < offset + length (byte # bytes)" if "i \<in> fst ` set fixed'" for i
    proof -
      have "i \<in> fst ` set next_fixed \<or> offset + 1 \<le> i \<and> i < offset + 1 + length bytes"
        using Cons.IH [OF step] that by blast
      then show ?thesis using keys by auto
    qed
    then show ?case using Cons.IH [OF step] sorted by blast
  qed simp
  then show "sorted_wrt (<) (map fst fixed) \<Longrightarrow> sorted_wrt (<) (map fst fixed')"
    "\<forall>i \<in> fst ` set fixed'. i \<in> fst ` set fixed \<or> offset \<le> i \<and> i < offset + length bytes" by blast+
qed

lemma matchers_loop:
  assumes "each (PrepareMatcher k n bounded) 0 ms [] = Inr fixed"
  shows "sorted_wrt (<) (map fst fixed)"
    and "i \<in> fst ` set fixed \<Longrightarrow> i < (case bounded of Some b \<Rightarrow> bp_header_length b | None \<Rightarrow> n)"
proof -
  let ?limit = "case bounded of Some b \<Rightarrow> bp_header_length b | None \<Rightarrow> n"
  define P where "P j t \<longleftrightarrow> sorted_wrt (<) (map fst t) \<and> (\<forall>i \<in> fst ` set t. i < ?limit)" for j :: nat and t :: "(nat \<times> u8) list"
  have "P (length ms) fixed"
  proof (rule each_invariant [OF assms])
    show "P 0 []" by (simp add: P_def)
    show "P (Suc j) t'" if "PrepareMatcher k n bounded (0 + j) (ms ! j) t = Inr t'" "P j t" for j t t'
    proof (cases "mp_kind (ms ! j) = MK_FRAME_LENGTH_EQUALS")
      case True
      then show ?thesis using that by (auto simp: P_def PrepareMatcher_def Let_def split: if_splits)
    next
      case False
      then have enter: "EnterBytes (mp_byte_offset (ms ! j)) (mp_bytes (ms ! j)) t = Some t'"
        and range: "IsRangeWithin (mp_byte_offset (ms ! j)) (length (mp_bytes (ms ! j))) ?limit"
        using that(1) by (auto simp: PrepareMatcher_def Let_def split: if_splits option.splits)
      show ?thesis
        using EnterBytes_keeps [OF enter] range that(2) by (fastforce simp: P_def IsRangeWithin_iff)
    qed
  qed
  then show "sorted_wrt (<) (map fst fixed)" "i \<in> fst ` set fixed \<Longrightarrow> i < ?limit" by (auto simp: P_def)
qed

lemma sum_checked_Some:
  assumes "sum_checked [a, b, c] = Some n"
  shows "n = a + b + c"
  using assms by (auto simp: sum_checked_def AddSizeChecked_def split: if_splits option.splits)

lemma bounded_lengths:
  assumes "BoundedPayloadValid version limit message n b"
  shows "bp_min_frame_length b = bp_header_length b + bp_min_payload_length b + bp_trailer_length b"
    and "bp_max_frame_length b = bp_header_length b + bp_max_payload_length b + bp_trailer_length b"
    and "bp_min_payload_length b \<le> bp_max_payload_length b" "n = bp_max_frame_length b"
  using assms by (auto simp: BoundedPayloadValid_def dest: sum_checked_Some split: option.splits)

lemma binary_fixed_ok:
  assumes "PrepareBinaryMessage version limit conversions k message n counts = Inr (m, slots, counts')" "0 < n"
  shows "fixed_ok m"
  using assms(1)
proof (cases rule: PrepareBinaryMessage_accepted)
  case (1 container_ids intervals s fixed)
  have m: "me_fixed_bytes m = map (\<lambda>(offset, v). \<lparr>fb_offset = offset, fb_value = v\<rparr>) fixed" "me_frame_size m = n"
    "me_bounded_payload m = ms_bounded_payload message"
    by (subst 1(8), simp add: no_message_execution_def)+
  have loop: "each (PrepareMatcher k n (ms_bounded_payload message)) 0 (ms_matchers message) [] = Inr fixed"
    using 1(7) by (auto simp: PrepareFixed_def accepted)
  have offsets: "map fb_offset (me_fixed_bytes m) = map fst fixed"
    by (simp add: m(1) case_prod_beta comp_def)
  have below: "fb_offset b < (case ms_bounded_payload message of Some b \<Rightarrow> bp_header_length b | None \<Rightarrow> n)"
    if "b \<in> set (me_fixed_bytes m)" for b
    using that matchers_loop(2) [OF loop, of "fb_offset b"] by (force simp: m(1))
  show ?thesis
  proof (cases "ms_bounded_payload message")
    case None
    then show ?thesis
      using below matchers_loop(1) [OF loop] by (simp add: fixed_ok_def offsets min_length_def max_length_def m(2,3))
  next
    case (Some b)
    then have valid: "BoundedPayloadValid version limit message n b"
      using 1(1) by (simp add: CheckParts_def accepted)
    show ?thesis
      using below Some matchers_loop(1) [OF loop] bounded_lengths [OF valid]
      by (fastforce simp: fixed_ok_def offsets min_length_def max_length_def m(2,3))
  qed
qed

section \<open>The loop over the messages of a pipeline\<close>

definition fixed_kind :: "MessageExecutionPlan \<Rightarrow> bool" where
  "fixed_kind m \<longleftrightarrow> me_text_decode m = None \<and> me_text_encode m = None \<and> me_bounded_payload m = None"

definition variable_kind :: "MessageExecutionPlan \<Rightarrow> bool" where
  "variable_kind m \<longleftrightarrow> me_text_decode m = None \<and> me_text_encode m = None \<and> me_bounded_payload m \<noteq> None"

definition sized :: "MessageExecutionPlan list \<Rightarrow> nat \<Rightarrow> nat list \<Rightarrow> nat list" where
  "sized plans n indices = filter (\<lambda>i. fixed_kind (plans ! i) \<and> me_frame_size (plans ! i) = n) indices"

text \<open>The lists after the messages \<open>indices\<close> were sorted in.\<close>

definition sorted_in :: "MessageExecutionPlan list \<Rightarrow> nat list \<Rightarrow> PipelineState \<Rightarrow> bool" where
  "sorted_in plans indices s \<longleftrightarrow>
     sorted_wrt (<) (map fst (ps_candidate_groups s)) \<and>
     (\<forall>n. map_of (ps_candidate_groups s) n = (if sized plans n indices = [] then None else Some (sized plans n indices))) \<and>
     ps_variable_message_indices s = filter (\<lambda>i. variable_kind (plans ! i)) indices \<and>
     ps_text_message_indices s = filter (\<lambda>i. me_text_decode (plans ! i) \<noteq> None) indices"

lemma SortCandidate_sorted_in:
  assumes "sorted_in plans indices s"
  shows "sorted_in plans (indices @ [i]) (SortCandidate plans i s)"
proof -
  let ?m = "plans ! i"
  consider (texts) "me_text_decode ?m \<noteq> None" | (encoded) "me_text_decode ?m = None" "me_text_encode ?m \<noteq> None"
    | (variable) "variable_kind ?m" | (fixed) "fixed_kind ?m"
  proof (cases "me_text_decode ?m = None"; cases "me_text_encode ?m = None"; cases "me_bounded_payload ?m = None")
  qed (simp_all add: variable_kind_def fixed_kind_def)
  then show ?thesis
  proof cases
    case fixed
    let ?size = "me_frame_size ?m"
    have found: "(case map_of (ps_candidate_groups s) ?size of None \<Rightarrow> [] | Some g \<Rightarrow> g) = sized plans ?size indices"
      using assms by (simp add: sorted_in_def)
    then have "ps_candidate_groups (SortCandidate plans i s) =
        map_put ?size (sized plans ?size indices @ [i]) (ps_candidate_groups s)"
      "ps_variable_message_indices (SortCandidate plans i s) = ps_variable_message_indices s"
      "ps_text_message_indices (SortCandidate plans i s) = ps_text_message_indices s"
      using fixed by (simp_all add: SortCandidate_def fixed_kind_def Let_def)
    then show ?thesis
      using assms fixed by (simp add: sorted_in_def sized_def fixed_kind_def variable_kind_def)
  qed (use assms in \<open>auto simp: sorted_in_def SortCandidate_def sized_def Let_def fixed_kind_def variable_kind_def\<close>)
qed

text \<open>What the loop establishes of the messages.\<close>

definition streamed :: "FramingPlan \<Rightarrow> MessagePlan \<Rightarrow> MessageExecutionPlan \<Rightarrow> bool" where
  "streamed framing_plan message m \<longleftrightarrow>
     fp_input_kind framing_plan = IK_STREAM_CHUNK \<longrightarrow>
       (if fp_strategy framing_plan = FS_ASCII_CRLF
        then \<forall>decode. me_text_decode m = Some decode \<longrightarrow>
          tap_max_record_length decode \<le> fp_maximum_frame_length framing_plan \<and>
          (\<exists>ascii action. ms_ascii_text message = Some ascii \<and> at_decode ascii = Some action \<and>
             ProveAsciiCrLfBoundary action (ms_fields message))
        else BinaryStreamMessage framing_plan message m)"

definition pipeline_done ::
    "MessagePlan list \<Rightarrow> MessageExecutionPlan list \<Rightarrow> FramingPlan \<Rightarrow> PipelinePlan \<Rightarrow> nat \<Rightarrow> PipelineState \<Rightarrow> bool" where
  "pipeline_done messages plans framing_plan pipeline j s \<longleftrightarrow>
     (let indices = take j (pl_message_indices pipeline)
      in ps_seen s = rev indices \<and> distinct indices \<and> sorted_in plans indices s \<and>
         (\<forall>i \<in> set indices. i < length messages \<and> ms_direction_id (messages ! i) = pl_direction_id pipeline \<and>
            streamed framing_plan (messages ! i) (plans ! i)) \<and>
         (\<forall>y < j. \<forall>x < y. \<not> ambiguous plans (indices ! y) (indices ! x)))"

lemma PipelineMessage_accepted:
  assumes "PipelineMessage messages plans framing_plan k pipeline position i s = Inr s'"
  obtains c where "i < length messages" "i \<notin> set (ps_seen s)" "ms_direction_id (messages ! i) = pl_direction_id pipeline"
    "streamed framing_plan (messages ! i) (plans ! i)" "\<forall>earlier \<in> set (ps_seen s). \<not> ambiguous plans i earlier"
    "s' = SortCandidate plans i (s\<lparr>ps_seen := i # ps_seen s, ps_ascii_decode_candidates := c\<rparr>)"
proof -
  obtain c where c: "i < length messages" "i \<notin> set (ps_seen s)" "ms_direction_id (messages ! i) = pl_direction_id pipeline"
      "StreamMessage framing_plan (messages ! i) (plans ! i) (ps_ascii_decode_candidates s) = Some c"
      "\<not> list_ex (ambiguous plans i) (i # ps_seen s)"
      "s' = SortCandidate plans i (s\<lparr>ps_seen := i # ps_seen s, ps_ascii_decode_candidates := c\<rparr>)"
    using assms by (auto simp: PipelineMessage_def Let_def split: if_splits option.splits)
  have "streamed framing_plan (messages ! i) (plans ! i)"
    using c(4) by (auto simp: StreamMessage_def AsciiStreamMessage_def streamed_def split: if_splits option.splits)
  then show thesis using c by (intro that) (auto simp: list_ex_iff)
qed

lemma seen_sorted [simp]: "ps_seen (SortCandidate plans i s) = ps_seen s"
  by (auto simp: SortCandidate_def Let_def)

lemma sorted_in_seen [simp]:
  "sorted_in plans indices (s\<lparr>ps_seen := seen, ps_ascii_decode_candidates := c\<rparr>) = sorted_in plans indices s"
  by (simp add: sorted_in_def)

lemma pipeline_loop:
  assumes "each (PipelineMessage messages plans framing_plan k pipeline) 0 (pl_message_indices pipeline) start = Inr s"
    and start: "ps_seen start = []" "ps_candidate_groups start = []" "ps_variable_message_indices start = []"
      "ps_text_message_indices start = []"
  shows "pipeline_done messages plans framing_plan pipeline (length (pl_message_indices pipeline)) s"
proof (rule each_invariant [OF assms(1)])
  let ?indices = "pl_message_indices pipeline"
  show "pipeline_done messages plans framing_plan pipeline 0 start"
    using start by (simp add: pipeline_done_def sorted_in_def sized_def)
  show "pipeline_done messages plans framing_plan pipeline (Suc j) t'"
    if j: "j < length ?indices"
      and step: "PipelineMessage messages plans framing_plan k pipeline (0 + j) (?indices ! j) t = Inr t'"
      and prior: "pipeline_done messages plans framing_plan pipeline j t" for j t t'
    using step
  proof (cases rule: PipelineMessage_accepted)
    case (1 c)
    have take: "take (Suc j) ?indices = take j ?indices @ [?indices ! j]" using j by (simp add: take_Suc_conv_app_nth)
    have seen: "set (ps_seen t) = set (take j ?indices)" using prior by (simp add: pipeline_done_def Let_def)
    have unambiguous: "\<not> ambiguous plans (take (Suc j) ?indices ! y) (take (Suc j) ?indices ! x)" if "y < Suc j" "x < y" for x y
    proof (cases "y = j")
      case True
      have "take j ?indices ! x \<in> set (ps_seen t)" using True that(2) j seen by (metis length_take min.absorb4 nth_mem)
      then show ?thesis using 1(5) True that(2) j by simp
    next
      case False
      then have "y < j" using that by simp
      then show ?thesis using prior that(2) j by (simp add: pipeline_done_def Let_def)
    qed
    have sorted: "sorted_in plans (take (Suc j) ?indices) t'"
      unfolding take 1(6) using prior by (intro SortCandidate_sorted_in) (simp add: pipeline_done_def Let_def)
    show ?thesis
      unfolding pipeline_done_def Let_def
    proof (intro conjI)
      show "\<forall>y < Suc j. \<forall>x < y. \<not> ambiguous plans (take (Suc j) ?indices ! y) (take (Suc j) ?indices ! x)"
        using unambiguous by blast
    qed (use prior 1 seen sorted in \<open>simp_all add: take pipeline_done_def Let_def\<close>)
  qed
qed
section \<open>What an accepted pipeline gives\<close>

lemma PreparePipeline_accepted:
  assumes "PreparePipeline messages plans framings k pipeline (ids, done_pipelines) = Inr (ids', t)"
  obtains s execution where
    "t = done_pipelines @ [execution]" "pl_framing_profile_index pipeline < length framings"
    "pipeline_done messages plans (framings ! pl_framing_profile_index pipeline) pipeline
       (length (pl_message_indices pipeline)) s"
    "pe_framing_profile_index execution = pl_framing_profile_index pipeline"
    "pe_candidate_groups execution =
       map (\<lambda>(n, indices). \<lparr>cg_frame_size = n, cg_message_indices = indices\<rparr>) (ps_candidate_groups s)"
    "pe_variable_message_indices execution = ps_variable_message_indices s"
    "pe_text_message_indices execution = ps_text_message_indices s"
  using assms by (auto simp: PreparePipeline_def accepted Let_def dest!: pipeline_loop)

definition pipeline_prepared ::
    "MessagePlan list \<Rightarrow> MessageExecutionPlan list \<Rightarrow> FramingPlan list \<Rightarrow> PipelinePlan \<Rightarrow> PipelineExecutionPlan \<Rightarrow> bool" where
  "pipeline_prepared messages plans framings pipeline execution \<longleftrightarrow>
     pl_framing_profile_index pipeline < length framings \<and>
     (\<exists>s. pipeline_done messages plans (framings ! pl_framing_profile_index pipeline) pipeline
         (length (pl_message_indices pipeline)) s \<and>
       pe_candidate_groups execution =
         map (\<lambda>(n, indices). \<lparr>cg_frame_size = n, cg_message_indices = indices\<rparr>) (ps_candidate_groups s) \<and>
       pe_variable_message_indices execution = ps_variable_message_indices s \<and>
       pe_text_message_indices execution = ps_text_message_indices s)"

lemma pipelines_loop:
  assumes "each (PreparePipeline messages plans framings) 0 pipelines ([], []) = Inr (ids, executions)"
  shows "length executions = length pipelines"
    and "k < length pipelines \<Longrightarrow> pipeline_prepared messages plans framings (pipelines ! k) (executions ! k)"
proof -
  define P where "P j t \<longleftrightarrow> length (snd t) = j \<and>
      (\<forall>k < j. pipeline_prepared messages plans framings (pipelines ! k) (snd t ! k))"
    for j and t :: "string list \<times> PipelineExecutionPlan list"
  have "P (length pipelines) (ids, executions)"
  proof (rule each_invariant [OF assms])
    show "P 0 ([], [])" by (simp add: P_def)
    show "P (Suc j) t'" if "PreparePipeline messages plans framings (0 + j) (pipelines ! j) t = Inr t'" "P j t" for j t t'
    proof -
      obtain ids done_pipelines ids' executions' where t: "t = (ids, done_pipelines)" "t' = (ids', executions')"
        by (metis surj_pair)
      from that(1) [unfolded t] show ?thesis
      proof (cases rule: PreparePipeline_accepted)
        case (1 s execution)
        then have "pipeline_prepared messages plans framings (pipelines ! j) execution"
          unfolding pipeline_prepared_def by blast
        then show ?thesis using that(2) 1(1) by (auto simp: P_def t less_Suc_eq nth_append)
      qed
    qed
  qed
  then show "length executions = length pipelines"
    "k < length pipelines \<Longrightarrow> pipeline_prepared messages plans framings (pipelines ! k) (executions ! k)"
    by (simp_all add: P_def)
qed

text \<open>The candidates of a record of \<open>n\<close> bytes.\<close>

lemma prepared_groups:
  assumes "pipeline_prepared messages plans framings pipeline execution"
  shows "groups_sorted execution"
    and "binary_candidates execution n = sized plans n (pl_message_indices pipeline) @
      filter (\<lambda>i. variable_kind (plans ! i)) (pl_message_indices pipeline)"
    and "pe_text_message_indices execution = filter (\<lambda>i. me_text_decode (plans ! i) \<noteq> None) (pl_message_indices pipeline)"
    and "g \<in> set (pe_candidate_groups execution) \<Longrightarrow>
      cg_message_indices g = sized plans (cg_frame_size g) (pl_message_indices pipeline)"
proof -
  let ?indices = "pl_message_indices pipeline"
  obtain s where s: "sorted_in plans ?indices s"
      "pe_candidate_groups execution = map (\<lambda>(n, indices). \<lparr>cg_frame_size = n, cg_message_indices = indices\<rparr>) (ps_candidate_groups s)"
      "pe_variable_message_indices execution = ps_variable_message_indices s"
      "pe_text_message_indices execution = ps_text_message_indices s"
    using assms by (auto simp: pipeline_prepared_def pipeline_done_def Let_def)
  have keys: "sorted_wrt (<) (map fst (ps_candidate_groups s))" using s(1) by (simp add: sorted_in_def)
  then show "groups_sorted execution" by (simp add: groups_sorted_def s(2) case_prod_beta comp_def)
  have "distinct (map fst (ps_candidate_groups s))" using keys strict_sorted_iff by blast
  then have entry: "(n, g) \<in> set (ps_candidate_groups s) \<longleftrightarrow> map_of (ps_candidate_groups s) n = Some g" for n g
    by (simp add: map_of_eq_Some_iff)
  have value_at: "map_of (ps_candidate_groups s) n = (if sized plans n ?indices = [] then None else Some (sized plans n ?indices))" for n
    using s(1) by (simp add: sorted_in_def)
  have pick: "concat (map snd (filter (\<lambda>g. fst g = n) m)) = (case map_of m n of None \<Rightarrow> [] | Some g \<Rightarrow> g)"
    if "distinct (map fst m)" for m :: "(nat \<times> nat list) list"
    using that
  proof (induction m)
    case (Cons entry m)
    have "filter (\<lambda>g. fst g = n) m = []" if "fst entry = n"
      using Cons.prems that by (auto simp: filter_empty_conv rev_image_eqI)
    then show ?case using Cons by (cases entry) auto
  qed simp
  have "concat (map cg_message_indices (filter (\<lambda>g. cg_frame_size g = n) (pe_candidate_groups execution))) =
      concat (map snd (filter (\<lambda>g. fst g = n) (ps_candidate_groups s)))"
    by (simp add: s(2) filter_map comp_def case_prod_beta)
  also have "\<dots> = sized plans n ?indices"
    using pick [OF \<open>distinct (map fst (ps_candidate_groups s))\<close>] by (simp add: value_at)
  finally show "binary_candidates execution n = sized plans n ?indices @ filter (\<lambda>i. variable_kind (plans ! i)) ?indices"
    using s(1,3) by (simp add: binary_candidates_def sorted_in_def)
  show "pe_text_message_indices execution = filter (\<lambda>i. me_text_decode (plans ! i) \<noteq> None) ?indices"
    using s(1,4) by (simp add: sorted_in_def)
  show "cg_message_indices g = sized plans (cg_frame_size g) ?indices" if "g \<in> set (pe_candidate_groups execution)"
    using that entry value_at by (auto simp: s(2) split: if_splits)
qed

lemma prepared_indices:
  assumes "pipeline_prepared messages plans framings pipeline execution"
  shows "distinct (pl_message_indices pipeline)" "\<forall>i \<in> set (pl_message_indices pipeline). i < length messages"
    and "i \<in> set (pl_message_indices pipeline) \<Longrightarrow>
      streamed (framings ! pl_framing_profile_index pipeline) (messages ! i) (plans ! i)"
    and "y < length (pl_message_indices pipeline) \<Longrightarrow> x < y \<Longrightarrow>
      \<not> ambiguous plans (pl_message_indices pipeline ! y) (pl_message_indices pipeline ! x)"
  using assms by (auto simp: pipeline_prepared_def pipeline_done_def Let_def)

text \<open>No record matches two of the binary candidates.\<close>

lemma one_binary_match:
  assumes prepared: "pipeline_prepared messages plans framings pipeline execution"
    and ok: "\<And>i. i \<in> set (pl_message_indices pipeline) \<Longrightarrow> me_text_decode (plans ! i) = None \<Longrightarrow> fixed_ok (plans ! i)"
  shows "length (filter (\<lambda>i. MessageMatches (plans ! i) input) (binary_candidates execution n)) \<le> 1"
proof -
  let ?indices = "pl_message_indices pipeline"
  let ?hits = "filter (\<lambda>i. MessageMatches (plans ! i) input) (binary_candidates execution n)"
  have same: "i = j" if ij: "i \<in> set ?hits" "j \<in> set ?hits" for i j
  proof (rule ccontr)
    assume "i \<noteq> j"
    have i: "i \<in> set ?indices" "me_text_decode (plans ! i) = None" "MessageMatches (plans ! i) input"
      and j: "j \<in> set ?indices" "me_text_decode (plans ! j) = None" "MessageMatches (plans ! j) input"
      using ij by (auto simp: prepared_groups(2) [OF prepared] sized_def fixed_kind_def variable_kind_def)
    then have both: "FixedMatchersCanIntersect (plans ! i) (plans ! j)" "FixedMatchersCanIntersect (plans ! j) (plans ! i)"
      using FixedMatchersCanIntersect_iff ok by blast+
    obtain x y where xy: "x < length ?indices" "y < length ?indices" "?indices ! x = i" "?indices ! y = j"
      using i(1) j(1) by (auto simp: in_set_conv_nth)
    then have "x < y \<or> y < x" using \<open>i \<noteq> j\<close> by (metis linorder_neqE_nat)
    then show False
      using prepared_indices(4) [OF prepared, of x y] prepared_indices(4) [OF prepared, of y x] xy i j both \<open>i \<noteq> j\<close>
      by (auto simp: ambiguous_def)
  qed
  have "distinct (binary_candidates execution n)"
    using prepared_indices(1) [OF prepared]
    by (auto simp: prepared_groups(2) [OF prepared] sized_def fixed_kind_def variable_kind_def)
  then have "distinct ?hits" by (rule distinct_filter)
  then have "length ?hits = card (set ?hits)" by (rule distinct_card [symmetric])
  also have "\<dots> \<le> 1" using same by (intro card_le_Suc0_iff_eq [THEN iffD2, simplified One_nat_def [symmetric]]) auto
  finally show ?thesis .
qed

end
