(* ===== verification/Codec_Exact.thy ===== *)
theory Codec_Exact
  imports Codec_Session
begin

text \<open>
  What a binary record means, field by field, without the workspace and the order of the decoder's loops, and the proof
  that the decoder delivers exactly that: it succeeds when every field has a meaning, and the slots hold the meanings.
\<close>

section \<open>The meaning of a field\<close>

definition ref_slot :: "PlanBundle \<Rightarrow> nat \<Rightarrow> nat \<Rightarrow> LogicalValueKind \<Rightarrow> DecodedFieldSlot" where
  "ref_slot plan message_index field_index kind =
     no_slot\<lparr>ds_field := \<lparr>fr_plan_scope = pb_address plan, fr_message_index = message_index, fr_field_index = field_index\<rparr>,
             ds_value_kind := kind\<rparr>"

definition converted :: "PlanBundle \<Rightarrow> u8 list \<Rightarrow> FieldExecutionPlan \<Rightarrow> Decimal64 option" where
  "converted plan data field =
     (case LoadUnsigned (drop (fe_offset field) data) (fe_width field) (fe_byte_order field) of
        None \<Rightarrow> None
      | Some raw \<Rightarrow>
          (case ConvertDecode (pb_conversions plan ! fe_conversion_index field) raw (fe_width field) of
             Inl _ \<Rightarrow> None | Inr d \<Rightarrow> Some d))"

definition enum_meaning :: "PlanBundle \<Rightarrow> nat \<Rightarrow> nat \<Rightarrow> u64 \<Rightarrow> nat option \<Rightarrow> DecodedEnumValue" where
  "enum_meaning plan message_index field_index raw entry =
     \<lparr>de_known = (entry \<noteq> None), de_raw_value = raw,
      de_reference = (case entry of None \<Rightarrow> no_enum_ref
        | Some e \<Rightarrow> \<lparr>er_plan_scope = pb_address plan, er_message_index = message_index,
                     er_field_index = field_index, er_entry_index = e\<rparr>)\<rparr>"

definition field_meaning ::
    "PlanBundle \<Rightarrow> nat \<Rightarrow> MessageExecutionPlan \<Rightarrow> CodecByteView \<Rightarrow> nat \<Rightarrow> DecodedFieldSlot option" where
  "field_meaning plan message_index m input field_index =
     (let field = me_fields m ! field_index; data = cv_bytes input;
          slot = ref_slot plan message_index field_index (GetLogicalValueKind (fe_value_type field))
      in if HasConversion field then
           map_option (\<lambda>d. slot\<lparr>ds_value_kind := LK_DECIMAL64, ds_decimal64_value := d\<rparr>) (converted plan data field)
         else if fe_value_type field = VT_BYTES then
           map_option (\<lambda>v. slot\<lparr>ds_bytes_value := v\<rparr>) (BytesSlot m input field field_index)
         else case WrittenRawValue m field data of
           None \<Rightarrow> None
         | Some raw \<Rightarrow>
             (case fe_value_type field of
                VT_UINT64 \<Rightarrow> Some (slot\<lparr>ds_uint64_value := raw\<rparr>)
              | VT_INT64 \<Rightarrow> map_option (\<lambda>v. slot\<lparr>ds_int64_value := v\<rparr>) (InterpretSigned raw (fe_width field))
              | VT_BOOL \<Rightarrow> Some (slot\<lparr>ds_bool_value := (raw \<noteq> 0)\<rparr>)
              | _ \<Rightarrow>
                  if FindEnumEntry m field raw = None \<and> fe_unknown_enum_policy field = UE_REJECT then None
                  else Some (slot\<lparr>ds_enum_value :=
                               enum_meaning plan message_index field_index raw (FindEnumEntry m field raw)\<rparr>)))"

text \<open>A field whose value the record states but the plan does not know.\<close>

definition unknown_value :: "MessageExecutionPlan \<Rightarrow> u8 list \<Rightarrow> FieldExecutionPlan \<Rightarrow> bool" where
  "unknown_value m data field \<longleftrightarrow> \<not> HasConversion field \<and> fe_value_type field = VT_ENUM \<and>
     (\<exists>raw. WrittenRawValue m field data = Some raw \<and> FindEnumEntry m field raw = None)"

section \<open>Plans the decoder can run\<close>

definition container_ok :: "BitContainerExecutionPlan \<Rightarrow> bool" where
  "container_ok c \<longleftrightarrow> 0 < bce_width c \<and> bce_width c \<le> 8 \<and> IsIntegerByteOrderValid (bce_byte_order c) (bce_width c)"

definition decodable :: "PlanBundle \<Rightarrow> MessageExecutionPlan \<Rightarrow> bool" where
  "decodable plan m \<longleftrightarrow>
     (\<forall>field \<in> set (me_fields m).
        ConversionPlanValid plan field \<and>
        (HasConversion field \<longrightarrow> fe_conversion_slot field < rl_conversion_value_count (pb_layout plan)) \<and>
        (fe_bit_container_index field = kInvalidIndex \<or> fe_bit_container_index field < length (me_bit_containers m))) \<and>
     distinct (map fe_conversion_slot (filter HasConversion (me_fields m))) \<and>
     length (filter HasConversion (me_fields m)) \<le> rl_conversion_value_count (pb_layout plan) \<and>
     length (me_bit_containers m) \<le> rl_bit_container_value_count (pb_layout plan) \<and>
     list_all container_ok (me_bit_containers m)"

section \<open>Containers\<close>

lemma LoadUnsigned_defined:
  "LoadUnsigned data w order \<noteq> None \<longleftrightarrow> 0 < w \<and> w \<le> 8 \<and> IsIntegerByteOrderValid order w"
  by (auto simp: LoadUnsigned_def)

lemma container_loads: "container_ok c \<Longrightarrow> \<exists>v. LoadUnsigned data (bce_width c) (bce_byte_order c) = Some v"
  using LoadUnsigned_defined [of data "bce_width c" "bce_byte_order c"] by (auto simp: container_ok_def)

definition container_value :: "u8 list \<Rightarrow> BitContainerExecutionPlan \<Rightarrow> u64" where
  "container_value data c = the (LoadUnsigned (drop (bce_offset c) data) (bce_width c) (bce_byte_order c))"

lemma LoadContainers_all:
  "list_all container_ok cs \<Longrightarrow> i + length cs \<le> length vs \<Longrightarrow>
   LoadContainers data cs i vs = (True, take i vs @ map (container_value data) cs @ drop (i + length cs) vs)"
proof (induction cs arbitrary: i vs)
  case (Cons c cs)
  obtain v where v: "LoadUnsigned (drop (bce_offset c) data) (bce_width c) (bce_byte_order c) = Some v"
    using container_loads [of c "drop (bce_offset c) data"] Cons.prems(1) by auto
  have i: "i < length vs" using Cons.prems(2) by simp
  have "LoadContainers data cs (i + 1) (vs[i := v]) =
      (True, take (i + 1) (vs[i := v]) @ map (container_value data) cs @ drop (i + 1 + length cs) (vs[i := v]))"
    using Cons.prems by (intro Cons.IH) auto
  moreover have "take (i + 1) (vs[i := v]) = take i vs @ [v]" using i by (simp add: take_Suc_conv_app_nth)
  ultimately show ?case using v by (simp add: container_value_def)
qed simp

text \<open>A workspace whose containers hold the values of the record.\<close>

definition loaded :: "MessageExecutionPlan \<Rightarrow> u8 list \<Rightarrow> u64 list \<Rightarrow> bool" where
  "loaded m data vs \<longleftrightarrow> (\<forall>k < length (me_bit_containers m). vs ! k = container_value data (me_bit_containers m ! k))"

lemma FieldRawValue_written:
  assumes "loaded m data vs" "list_all container_ok (me_bit_containers m)"
    and "fe_bit_container_index field = kInvalidIndex \<or> fe_bit_container_index field < length (me_bit_containers m)"
  shows "FieldRawValue data vs field = WrittenRawValue m field data"
proof (cases "fe_bit_container_index field = kInvalidIndex")
  case False
  let ?c = "me_bit_containers m ! fe_bit_container_index field"
  have "container_ok ?c" using assms(2,3) False by (simp add: list_all_length)
  then obtain v where "LoadUnsigned (drop (bce_offset ?c) data) (bce_width ?c) (bce_byte_order ?c) = Some v"
    using container_loads by blast
  then show ?thesis using assms(1,3) False
    by (simp add: FieldRawValue_def WrittenRawValue_def loaded_def container_value_def Let_def)
qed (simp add: FieldRawValue_def WrittenRawValue_def)

section \<open>The check of the fields\<close>

definition accepted :: "PlanBundle \<Rightarrow> MessageExecutionPlan \<Rightarrow> u8 list \<Rightarrow> FieldExecutionPlan \<Rightarrow> bool" where
  "accepted plan m data field \<longleftrightarrow>
     (if HasConversion field then converted plan data field \<noteq> None
      else fe_value_type field = VT_ENUM \<longrightarrow>
        (\<exists>raw. WrittenRawValue m field data = Some raw \<and>
               (FindEnumEntry m field raw \<noteq> None \<or> fe_unknown_enum_policy field \<noteq> UE_REJECT)))"

text \<open>A field the loops of the decoder can handle, in a plan with room for \<open>n\<close> conversions.\<close>

definition field_ok :: "PlanBundle \<Rightarrow> MessageExecutionPlan \<Rightarrow> nat \<Rightarrow> FieldExecutionPlan \<Rightarrow> bool" where
  "field_ok plan m n field \<longleftrightarrow> ConversionPlanValid plan field \<and> (HasConversion field \<longrightarrow> fe_conversion_slot field < n) \<and>
     (fe_bit_container_index field = kInvalidIndex \<or> fe_bit_container_index field < length (me_bit_containers m))"

lemma HasConversion_schema: "ConversionPlanValid plan field \<Longrightarrow> HasConversion field \<Longrightarrow> conversion_schema (pb_schema_version plan)"
  by (simp add: ConversionPlanValid_def)

lemma ToCodecStatus_not_OK [simp]: "ToCodecStatus status \<noteq> CS_OK"
  by (cases status) simp_all

definition decimal_at :: "ExecutionWorkspace \<Rightarrow> nat \<Rightarrow> Decimal64" where
  "decimal_at ws s = \<lparr>coefficient = ew_decode_decimal_coefficients ws ! s, scale = ew_decode_decimal_scales ws ! s\<rparr>"

text \<open>Room in the workspace, and containers that hold the record's values.\<close>

definition ready :: "MessageExecutionPlan \<Rightarrow> u8 list \<Rightarrow> nat \<Rightarrow> ExecutionWorkspace \<Rightarrow> bool" where
  "ready m data n ws \<longleftrightarrow> loaded m data (ew_bit_container_values ws) \<and>
     length (ew_decode_decimal_coefficients ws) = n \<and> length (ew_decode_decimal_scales ws) = n \<and>
     length (ew_raw_integer_bits ws) = n"

lemma PrecheckConversion_step:
  assumes "field_ok plan m n field" "HasConversion field" "ready m data n ws" "c < n"
  shows "case converted plan data field of
      None \<Rightarrow> \<exists>st er. PrecheckConversion plan data i field ws c = Inl (st, er) \<and> st \<noteq> CS_OK
    | Some d \<Rightarrow> \<exists>ws'. PrecheckConversion plan data i field ws c = Inr ws' \<and> ready m data n ws' \<and>
        (\<forall>s. decimal_at ws' s = (if s = fe_conversion_slot field then d else decimal_at ws s))"
proof -
  have slot: "fe_conversion_slot field < n" using assms(1,2) by (simp add: field_ok_def)
  show ?thesis
    using assms(3,4) slot
    by (auto simp: PrecheckConversion_def converted_def invalid_plan_def Let_def ready_def decimal_at_def
        split: option.splits sum.splits)
qed

lemma PrecheckEnum_step:
  assumes "field_ok plan m n field" "\<not> HasConversion field" "fe_value_type field = VT_ENUM"
    and "loaded m data vs" "list_all container_ok (me_bit_containers m)"
  shows "(accepted plan m data field \<longrightarrow> PrecheckEnum m data field vs = Inr (unknown_value m data field)) \<and>
    (\<not> accepted plan m data field \<longrightarrow> (\<exists>st er. PrecheckEnum m data field vs = Inl (st, er) \<and> st \<noteq> CS_OK))"
proof -
  have "FieldRawValue data vs field = WrittenRawValue m field data"
    using assms by (intro FieldRawValue_written) (simp_all add: field_ok_def)
  then show ?thesis
    using assms(2,3)
    by (auto simp: PrecheckEnum_def accepted_def unknown_value_def invalid_plan_def split: option.splits)
qed

lemma PrecheckFields_accepts:
  assumes "list_all container_ok (me_bit_containers m)"
  shows "\<forall>field \<in> set fs. field_ok plan m n field \<Longrightarrow> ready m data n ws \<Longrightarrow>
    distinct (map fe_conversion_slot (filter HasConversion fs)) \<Longrightarrow> c + length (filter HasConversion fs) \<le> n \<Longrightarrow>
    \<forall>field \<in> set fs. accepted plan m data field \<Longrightarrow>
    \<exists>ws'. PrecheckFields plan m data fs i ws c t =
        (ws', Inr (c + length (filter HasConversion fs), t \<or> (\<exists>field \<in> set fs. unknown_value m data field))) \<and>
      ready m data n ws' \<and>
      (\<forall>field \<in> set fs. HasConversion field \<longrightarrow> converted plan data field = Some (decimal_at ws' (fe_conversion_slot field))) \<and>
      (\<forall>s. s \<notin> fe_conversion_slot ` set (filter HasConversion fs) \<longrightarrow> decimal_at ws' s = decimal_at ws s)"
proof (induction fs arbitrary: i ws c t)
  case (Cons field fs)
  have f: "field_ok plan m n field" "accepted plan m data field" and v: "ConversionPlanValid plan field"
    using Cons.prems(1,5) by (simp_all add: field_ok_def)
  show ?case
  proof (cases "HasConversion field")
    case True
    obtain d where d: "converted plan data field = Some d" using f(2) True by (auto simp: accepted_def)
    have "c < n" using Cons.prems(4) True by simp
    from PrecheckConversion_step [OF f(1) True Cons.prems(2) this, of i] d obtain ws1
      where w: "PrecheckConversion plan data i field ws c = Inr ws1" "ready m data n ws1"
        "\<forall>s. decimal_at ws1 s = (if s = fe_conversion_slot field then d else decimal_at ws s)" by auto
    have pre: "distinct (map fe_conversion_slot (filter HasConversion fs))"
      "c + 1 + length (filter HasConversion fs) \<le> n"
      and new: "fe_conversion_slot field \<notin> fe_conversion_slot ` set (filter HasConversion fs)"
      using Cons.prems(3,4) True by auto
    have fs: "\<forall>field \<in> set fs. field_ok plan m n field" "\<forall>field \<in> set fs. accepted plan m data field"
      using Cons.prems(1,5) by simp_all
    obtain ws' where ws': "PrecheckFields plan m data fs (i + 1) ws1 (c + 1) t =
          (ws', Inr (c + 1 + length (filter HasConversion fs), t \<or> (\<exists>field \<in> set fs. unknown_value m data field)))"
        "ready m data n ws'"
        "\<forall>field \<in> set fs. HasConversion field \<longrightarrow> converted plan data field = Some (decimal_at ws' (fe_conversion_slot field))"
        "\<forall>s. s \<notin> fe_conversion_slot ` set (filter HasConversion fs) \<longrightarrow> decimal_at ws' s = decimal_at ws1 s"
      using Cons.IH [OF fs(1) w(2) pre fs(2)] by blast
    have "\<not> unknown_value m data field" using True by (simp add: unknown_value_def)
    moreover have "converted plan data field = Some (decimal_at ws' (fe_conversion_slot field))"
      using ws'(4) new w(3) d by simp
    moreover have "decimal_at ws' s = decimal_at ws s"
      if "s \<notin> fe_conversion_slot ` set (filter HasConversion (field # fs))" for s
      using that ws'(4) w(3) True by auto
    moreover have "PrecheckFields plan m data (field # fs) i ws c t = PrecheckFields plan m data fs (i + 1) ws1 (c + 1) t"
      using True v HasConversion_schema [OF v True] w(1) by simp
    ultimately show ?thesis using ws'(1-3) True by auto
  next
    case False
    have pre: "distinct (map fe_conversion_slot (filter HasConversion fs))" "c + length (filter HasConversion fs) \<le> n"
      "\<forall>field \<in> set fs. field_ok plan m n field" "\<forall>field \<in> set fs. accepted plan m data field"
      using Cons.prems False by simp_all
    have step: "PrecheckFields plan m data (field # fs) i ws c t =
        PrecheckFields plan m data fs (i + 1) ws c (t \<or> unknown_value m data field)"
    proof (cases "fe_value_type field = VT_ENUM")
      case True
      then have "PrecheckEnum m data field (ew_bit_container_values ws) = Inr (unknown_value m data field)"
        using PrecheckEnum_step [OF f(1) False True _ assms] f(2) Cons.prems(2) by (simp add: ready_def)
      then show ?thesis using False v True by simp
    qed (use False v in \<open>simp add: unknown_value_def\<close>)
    then show ?thesis
      using Cons.IH [OF pre(3) Cons.prems(2) pre(1,2,4), of "i + 1" "t \<or> unknown_value m data field"] False by auto
  qed
qed simp

lemma PrecheckFields_rejects:
  assumes "list_all container_ok (me_bit_containers m)"
  shows "\<forall>field \<in> set fs. field_ok plan m n field \<Longrightarrow> ready m data n ws \<Longrightarrow>
    c + length (filter HasConversion fs) \<le> n \<Longrightarrow> \<exists>field \<in> set fs. \<not> accepted plan m data field \<Longrightarrow>
    \<exists>ws' st er k. PrecheckFields plan m data fs i ws c t = (ws', Inl ((st, er), k)) \<and> st \<noteq> CS_OK"
proof (induction fs arbitrary: i ws c t)
  case (Cons field fs)
  have f: "field_ok plan m n field" and v: "ConversionPlanValid plan field"
    using Cons.prems(1) by (simp_all add: field_ok_def)
  show ?case
  proof (cases "HasConversion field")
    case True
    have "c < n" using Cons.prems(3) True by simp
    note step = PrecheckConversion_step [OF f True Cons.prems(2) this, of i]
    show ?thesis
    proof (cases "converted plan data field")
      case None
      then show ?thesis using step True v HasConversion_schema [OF v True] by auto
    next
      case (Some d)
      then have "accepted plan m data field" using True by (simp add: accepted_def)
      then have rest: "\<exists>field \<in> set fs. \<not> accepted plan m data field" using Cons.prems(4) by simp
      from Some step obtain ws1 where w: "PrecheckConversion plan data i field ws c = Inr ws1" "ready m data n ws1" by auto
      from Cons.IH [OF _ w(2) _ rest, of "c + 1" "i + 1" t] Cons.prems(1,3) True
      show ?thesis using w(1) v HasConversion_schema [OF v True] by simp
    qed
  next
    case False
    show ?thesis
    proof (cases "fe_value_type field = VT_ENUM")
      case True
      note step = PrecheckEnum_step [OF f False True _ assms, of data "ew_bit_container_values ws"]
      show ?thesis
      proof (cases "accepted plan m data field")
        case acc: True
        then have rest: "\<exists>field \<in> set fs. \<not> accepted plan m data field" using Cons.prems(4) by simp
        from Cons.IH [OF _ Cons.prems(2) _ rest, of c "i + 1"] Cons.prems(1,3) False
        show ?thesis using step acc True v Cons.prems(2) by (simp add: ready_def)
      next
        case rej: False
        then show ?thesis using step True False v Cons.prems(2) by (auto simp: ready_def)
      qed
    next
      case other: False
      then have "accepted plan m data field" using False by (simp add: accepted_def)
      then have rest: "\<exists>field \<in> set fs. \<not> accepted plan m data field" using Cons.prems(4) by simp
      from Cons.IH [OF _ Cons.prems(2) _ rest, of c "i + 1" t] Cons.prems(1,3) False
      show ?thesis using other v by simp
    qed
  qed
qed simp

section \<open>Filling the slots\<close>

lemma MaterialiseField_meaning:
  assumes "i < length (me_fields m)" and field: "field = me_fields m ! i" and ok: "field_ok plan m n field"
    and l: "loaded m (cv_bytes input) (ew_bit_container_values ws)" "list_all container_ok (me_bit_containers m)"
    and d: "HasConversion field \<Longrightarrow> converted plan (cv_bytes input) field = Some (decimal_at ws (fe_conversion_slot field))"
    and acc: "accepted plan m (cv_bytes input) field"
  shows "MaterialiseField plan message_index m input ws field i = field_meaning plan message_index m input i"
proof -
  have raw: "FieldRawValue (cv_bytes input) (ew_bit_container_values ws) field = WrittenRawValue m field (cv_bytes input)"
    using l ok by (intro FieldRawValue_written) (simp_all add: field_ok_def)
  show ?thesis
  proof (cases "HasConversion field")
    case True
    then show ?thesis using d
      by (simp add: MaterialiseField_def field_meaning_def Let_def field [symmetric] ref_slot_def decimal_at_def)
  next
    case False
    show ?thesis
    proof (cases "fe_value_type field = VT_ENUM")
      case True
      then obtain raw where "WrittenRawValue m field (cv_bytes input) = Some raw"
          "FindEnumEntry m field raw \<noteq> None \<or> fe_unknown_enum_policy field \<noteq> UE_REJECT"
        using acc False by (auto simp: accepted_def)
      then show ?thesis
        using False True
        by (auto simp: MaterialiseField_def field_meaning_def Let_def field [symmetric] ref_slot_def raw
            enum_meaning_def split: option.splits)
    next
      case other: False
      then show ?thesis using False
        by (auto simp: MaterialiseField_def field_meaning_def Let_def field [symmetric] ref_slot_def raw
            split: option.splits ValueType.splits)
    qed
  qed
qed

lemma meaning_accepted:
  assumes "field_meaning plan message_index m input i \<noteq> None"
  shows "accepted plan m (cv_bytes input) (me_fields m ! i)"
  using assms by (auto simp: field_meaning_def accepted_def Let_def split: option.splits ValueType.splits if_splits)

lemma MaterialiseFields_all:
  "k + length fs \<le> length slots \<Longrightarrow>
   \<forall>j < length fs. MaterialiseField plan message_index m input ws (fs ! j) (k + j) = Some (g (k + j)) \<Longrightarrow>
   MaterialiseFields plan message_index m input ws fs k slots =
     (None, take k slots @ map g [k..<k + length fs] @ drop (k + length fs) slots)"
proof (induction fs arbitrary: k slots)
  case (Cons field fs)
  have first: "MaterialiseField plan message_index m input ws field k = Some (g k)" using Cons.prems(2) by auto
  have "MaterialiseField plan message_index m input ws (fs ! j) (k + 1 + j) = Some (g (k + 1 + j))" if "j < length fs" for j
    using Cons.prems(2) [rule_format, of "Suc j"] that by simp
  then have "MaterialiseFields plan message_index m input ws fs (k + 1) (slots[k := g k]) =
      (None, take (k + 1) (slots[k := g k]) @ map g [k + 1..<k + 1 + length fs] @ drop (k + 1 + length fs) (slots[k := g k]))"
    using Cons.prems(1) by (intro Cons.IH) auto
  moreover have "take (k + 1) (slots[k := g k]) = take k slots @ [g k]"
    using Cons.prems(1) by (simp add: take_Suc_conv_app_nth)
  moreover have "[k..<k + length (field # fs)] = k # [k + 1..<k + 1 + length fs]" using upt_conv_Cons [of k "k + length (field # fs)"] by simp
  ultimately show ?case using first by simp
qed simp

lemma MaterialiseFields_fails:
  "j < length fs \<Longrightarrow> MaterialiseField plan message_index m input ws (fs ! j) (k + j) = None \<Longrightarrow>
   \<exists>failed slots'. MaterialiseFields plan message_index m input ws fs k slots = (Some failed, slots')"
proof (induction fs arbitrary: j k slots)
  case (Cons field fs)
  show ?case
  proof (cases "MaterialiseField plan message_index m input ws field k")
    case (Some slot)
    then obtain j' where "j = Suc j'" using Cons.prems by (cases j) auto
    then show ?thesis using Cons.IH [of j' "k + 1"] Cons.prems Some by simp
  qed simp
qed simp

section \<open>The decoder on a binary record\<close>

lemma DecodeChecks_not_OK: "DecodeChecks m data = Some (status, failed) \<Longrightarrow> status \<noteq> CS_OK"
  by (auto simp: DecodeChecks_def split: if_splits)

lemma AdmitSlots_not_OK: "AdmitSlots slot_size input sa capacity required = Some status \<Longrightarrow> status \<noteq> CS_OK"
  by (auto simp: AdmitSlots_def split: if_splits option.splits)

lemma workspace_ok_sizes:
  assumes "workspace_ok plan ws"
  shows "length (ew_bit_container_values ws) = rl_bit_container_value_count (pb_layout plan)"
    and "length (ew_decode_decimal_coefficients ws) = rl_conversion_value_count (pb_layout plan)"
    and "length (ew_decode_decimal_scales ws) = rl_conversion_value_count (pb_layout plan)"
    and "length (ew_raw_integer_bits ws) = rl_conversion_value_count (pb_layout plan)"
    and "ew_plan_scope ws = pb_address plan" and "\<not> ew_in_use ws"
    and "length (ew_encode_conversion_raw_values ws) = rl_conversion_value_count (pb_layout plan)"
    and "length (ew_encode_value_indices ws) = rl_encode_value_index_count (pb_layout plan)"
  using assms by (auto simp: workspace_ok_def shape_def layout_shape_def Let_def)

definition sizes_ok :: "PlanBundle \<Rightarrow> ExecutionWorkspace \<Rightarrow> bool" where
  "sizes_ok plan ws \<longleftrightarrow> length (ew_bit_container_values ws) = rl_bit_container_value_count (pb_layout plan) \<and>
     length (ew_decode_decimal_coefficients ws) = rl_conversion_value_count (pb_layout plan) \<and>
     length (ew_decode_decimal_scales ws) = rl_conversion_value_count (pb_layout plan) \<and>
     length (ew_raw_integer_bits ws) = rl_conversion_value_count (pb_layout plan)"

lemma DecodeBinary_exact:
  assumes plan: "decodable plan m" and ws: "sizes_ok plan ws"
    and call: "DecodeBinary plan message_index m slot_size input sa slots result ws = (r, ws', slots')"
  shows "(dr_status r = CS_OK \<longleftrightarrow>
      AdmitSlots slot_size input sa (length slots) (length (me_fields m)) = None \<and>
      DecodeChecks m (cv_bytes input) = None \<and>
      (\<forall>i < length (me_fields m). field_meaning plan message_index m input i \<noteq> None)) \<and>
    (dr_status r = CS_OK \<longrightarrow>
      dr_field_count r = length (me_fields m) \<and> dr_message_index r = dr_message_index result \<and>
      dr_tainted r = (\<exists>field \<in> set (me_fields m). unknown_value m (cv_bytes input) field) \<and>
      (\<forall>i < length (me_fields m). Some (slots' ! i) = field_meaning plan message_index m input i) \<and>
      drop (length (me_fields m)) slots' = drop (length (me_fields m)) slots)"
proof (cases "AdmitSlots slot_size input sa (length slots) (length (me_fields m)) = None \<and> DecodeChecks m (cv_bytes input) = None")
  case False
  then have "dr_status r \<noteq> CS_OK"
    using call DecodeChecks_not_OK AdmitSlots_not_OK
    by (auto simp: DecodeBinary_def Let_def split: option.splits prod.splits)
  then show ?thesis using False by blast
next
  case True
  let ?n = "rl_conversion_value_count (pb_layout plan)" and ?data = "cv_bytes input" and ?fs = "me_fields m"
  let ?vs = "map (container_value ?data) (me_bit_containers m) @ drop (length (me_bit_containers m)) (ew_bit_container_values ws)"
  have room: "length ?fs \<le> length slots"
    using True by (auto simp: AdmitSlots_def split: if_splits)
  have cs: "list_all container_ok (me_bit_containers m)" "length (me_bit_containers m) \<le> length (ew_bit_container_values ws)"
    using plan ws by (simp_all add: decodable_def sizes_ok_def)
  have load: "LoadContainers ?data (me_bit_containers m) 0 (ew_bit_container_values ws) = (True, ?vs)"
    using LoadContainers_all [OF cs(1), of 0] cs(2) by simp
  let ?ws = "ws\<lparr>ew_bit_container_values := ?vs\<rparr>"
  have rdy: "ready m ?data ?n ?ws"
    using ws by (simp add: ready_def sizes_ok_def loaded_def nth_append)
  have oks: "\<forall>field \<in> set ?fs. field_ok plan m ?n field"
    and dist: "distinct (map fe_conversion_slot (filter HasConversion ?fs))"
    and count: "0 + length (filter HasConversion ?fs) \<le> ?n"
    using plan by (simp_all add: decodable_def field_ok_def)
  show ?thesis
  proof (cases "\<forall>field \<in> set ?fs. accepted plan m ?data field")
    case False
    then obtain ws2 st er k where p: "PrecheckFields plan m ?data ?fs 0 ?ws 0 False = (ws2, Inl ((st, er), k))" "st \<noteq> CS_OK"
      using PrecheckFields_rejects [OF cs(1) oks rdy count] by blast
    then have "dr_status r \<noteq> CS_OK"
      using call True cs(2) by (auto simp: DecodeBinary_def Let_def load)
    moreover have "\<exists>i < length ?fs. field_meaning plan message_index m input i = None"
      using False meaning_accepted by (metis in_set_conv_nth)
    ultimately show ?thesis by blast
  next
    case acc: True
    obtain ws2 where p: "PrecheckFields plan m ?data ?fs 0 ?ws 0 False =
          (ws2, Inr (0 + length (filter HasConversion ?fs), False \<or> (\<exists>field \<in> set ?fs. unknown_value m ?data field)))"
        "ready m ?data ?n ws2"
        "\<forall>field \<in> set ?fs. HasConversion field \<longrightarrow> converted plan ?data field = Some (decimal_at ws2 (fe_conversion_slot field))"
      using PrecheckFields_accepts [OF cs(1) oks rdy dist count acc] by blast
    have mat: "MaterialiseField plan message_index m input ws2 (?fs ! j) j = field_meaning plan message_index m input j"
      if "j < length ?fs" for j
      using p(2,3) oks acc that cs(1)
      by (intro MaterialiseField_meaning [where n = ?n]) (auto simp: ready_def)
    show ?thesis
    proof (cases "\<forall>i < length ?fs. field_meaning plan message_index m input i \<noteq> None")
      case False
      then obtain j where "j < length ?fs" "MaterialiseField plan message_index m input ws2 (?fs ! j) (0 + j) = None"
        using mat by auto
      then obtain failed slots2 where "MaterialiseFields plan message_index m input ws2 ?fs 0 slots = (Some failed, slots2)"
        using MaterialiseFields_fails by blast
      then have "dr_status r \<noteq> CS_OK"
        using call True cs(2) p(1) by (auto simp: DecodeBinary_def Let_def load)
      then show ?thesis using False by blast
    next
      case some: True
      define g where "g i = the (field_meaning plan message_index m input i)" for i
      have g: "field_meaning plan message_index m input i = Some (g i)" if "i < length ?fs" for i
        using some that by (simp add: g_def)
      have "MaterialiseFields plan message_index m input ws2 ?fs 0 slots =
          (None, take 0 slots @ map g [0..<0 + length ?fs] @ drop (0 + length ?fs) slots)"
        using room mat g by (intro MaterialiseFields_all) auto
      then have "r = result\<lparr>dr_required_field_count := length ?fs, dr_status := CS_OK, dr_field_count := length ?fs,
            dr_failed_field_index := kInvalidIndex, dr_tainted := (\<exists>field \<in> set ?fs. unknown_value m ?data field)\<rparr>"
          "slots' = map g [0..<length ?fs] @ drop (length ?fs) slots"
        using call True cs(2) p(1) by (auto simp: DecodeBinary_def Let_def load)
      then show ?thesis using True some g by (simp add: nth_append)
    qed
  qed
qed

section \<open>The call\<close>

text \<open>A pipeline of binary messages the decoder can run.\<close>

definition binary_pipeline :: "PlanBundle \<Rightarrow> PipelineExecutionPlan \<Rightarrow> bool" where
  "binary_pipeline plan pipeline \<longleftrightarrow> groups_sorted pipeline \<and> pe_text_message_indices pipeline = [] \<and>
     (\<forall>i \<in> set (pe_variable_message_indices pipeline) \<union>
        (\<Union>g \<in> set (pe_candidate_groups pipeline). set (cg_message_indices g)).
        me_text_decode (pb_message_execution_plans plan ! i) = None \<and>
        decodable plan (pb_message_execution_plans plan ! i))"

lemma matching_binary:
  assumes "binary_pipeline plan pipeline" "i \<in> set (matching pipeline (pb_message_execution_plans plan) input)"
  shows "me_text_decode (pb_message_execution_plans plan ! i) = None" "decodable plan (pb_message_execution_plans plan ! i)"
  using assms by (auto simp: binary_pipeline_def matching_def binary_candidates_def)

lemma DecodeLeased_binary:
  assumes "ew_plan_scope ws = pb_address plan"
    and "SupportsCompleteRecordSchema (pb_schema_version plan)" "\<not> text_schema (pb_schema_version plan)"
    and "pipeline_index < length (pb_pipeline_execution_plans plan)"
    and pipe: "binary_pipeline plan (pb_pipeline_execution_plans plan ! pipeline_index)"
    and "cv_address input \<noteq> 0" "sa \<noteq> 0"
    and ws1: "ws1 = ws\<lparr>ew_raw_integer_count := 0, ew_raw_integer_message_index := kInvalidIndex\<rparr>"
    and found: "found_messages = matching (pb_pipeline_execution_plans plan ! pipeline_index)
         (pb_message_execution_plans plan) (cv_bytes input)"
  shows "DecodeLeased plan slot_size ws pipeline_index input sa slots =
    (case found_messages of
       [] \<Rightarrow> Some (no_decode_result\<lparr>dr_status := CS_UNKNOWN_MESSAGE\<rparr>, ws1, slots)
     | [i] \<Rightarrow> Some (DecodeBinary plan i (pb_message_execution_plans plan ! i) slot_size input sa slots
                (no_decode_result\<lparr>dr_message_index := i\<rparr>) ws1)
     | _ \<Rightarrow> Some (no_decode_result\<lparr>dr_status := CS_AMBIGUOUS_MESSAGE\<rparr>, ws1, slots))"
proof -
  let ?pipeline = "pb_pipeline_execution_plans plan ! pipeline_index"
  have "FindPipelineMatch ?pipeline (pb_message_execution_plans plan) (cv_bytes input) = Some (outcome_of found_messages)"
    unfolding found using pipe by (intro FindPipelineMatch_outcome) (simp_all add: binary_pipeline_def text_messages_ok_def)
  moreover have "me_text_decode (pb_message_execution_plans plan ! i) = None" if "i \<in> set found_messages" for i
    using matching_binary(1) [OF pipe] that found by blast
  ultimately show ?thesis
    using assms(1-4,6,7)
    by (auto simp: DecodeLeased_def Let_def outcome_of_def ws1 split: list.split)
qed

lemma decode_call:
  assumes session: "codec_session plan ws"
    and version: "SupportsCompleteRecordSchema (pb_schema_version plan)" "\<not> text_schema (pb_schema_version plan)"
    and index: "pipeline_index < length (pb_pipeline_execution_plans plan)"
    and pipe: "binary_pipeline plan (pb_pipeline_execution_plans plan ! pipeline_index)"
    and args: "cv_address input \<noteq> 0" "sa \<noteq> 0"
  shows "\<exists>r ws' slots'. DecodeCompleteRecord plan slot_size ws pipeline_index input sa slots = Some (r, ws', slots') \<and>
    (dr_status r = CS_OK \<longleftrightarrow>
      (\<exists>i m. matching (pb_pipeline_execution_plans plan ! pipeline_index) (pb_message_execution_plans plan)
             (cv_bytes input) = [i] \<and> m = pb_message_execution_plans plan ! i \<and>
         AdmitSlots slot_size input sa (length slots) (length (me_fields m)) = None \<and>
         DecodeChecks m (cv_bytes input) = None \<and>
         (\<forall>j < length (me_fields m). field_meaning plan i m input j \<noteq> None))) \<and>
    (dr_status r = CS_OK \<longrightarrow>
      (\<exists>m. m = pb_message_execution_plans plan ! dr_message_index r \<and>
         matching (pb_pipeline_execution_plans plan ! pipeline_index) (pb_message_execution_plans plan)
           (cv_bytes input) = [dr_message_index r] \<and>
         dr_field_count r = length (me_fields m) \<and>
         (\<forall>j < length (me_fields m). Some (slots' ! j) = field_meaning plan (dr_message_index r) m input j) \<and>
         drop (length (me_fields m)) slots' = drop (length (me_fields m)) slots \<and>
         dr_tainted r = (\<exists>field \<in> set (me_fields m). unknown_value m (cv_bytes input) field)))"
proof -
  let ?messages = "pb_message_execution_plans plan" and ?pipeline = "pb_pipeline_execution_plans plan ! pipeline_index"
  define found where "found = matching ?pipeline ?messages (cv_bytes input)"
  define ws1 where "ws1 = ws\<lparr>ew_in_use := True, ew_raw_integer_count := 0, ew_raw_integer_message_index := kInvalidIndex\<rparr>"
  note sizes = workspace_ok_sizes [OF session_workspace [OF session]]
  have sz: "sizes_ok plan ws1" using sizes by (simp add: sizes_ok_def ws1_def)
  note leased = DecodeLeased_binary [of "ws\<lparr>ew_in_use := True\<rparr>", OF _ version index pipe args, of ws1 found]
  have call: "DecodeCompleteRecord plan slot_size ws pipeline_index input sa slots =
      map_option (\<lambda>(result, ws, slots). (result, ws\<lparr>ew_in_use := False\<rparr>, slots))
        (DecodeLeased plan slot_size (ws\<lparr>ew_in_use := True\<rparr>) pipeline_index input sa slots)"
    using sizes(6) by (simp add: DecodeCompleteRecord_def)
  consider "found = []" | i where "found = [i]" | i j js where "found = i # j # js" by (metis neq_Nil_conv)
  then show ?thesis
  proof cases
    case 2
    let ?m = "?messages ! i"
    obtain r ws2 slots' where b: "DecodeBinary plan i ?m slot_size input sa slots
        (no_decode_result\<lparr>dr_message_index := i\<rparr>) ws1 = (r, ws2, slots')" by (metis surj_pair)
    have "decodable plan ?m" using matching_binary(2) [OF pipe, of i "cv_bytes input"] 2 found_def by simp
    note exact = DecodeBinary_exact [OF this sz b]
    have "DecodeCompleteRecord plan slot_size ws pipeline_index input sa slots = Some (r, ws2\<lparr>ew_in_use := False\<rparr>, slots')"
      using call leased b 2 sizes(5) by (simp add: ws1_def found_def)
    then show ?thesis using exact 2 by (auto simp: found_def [symmetric] no_decode_result_def)
  qed (use call leased sizes(5) in \<open>simp_all add: ws1_def found_def [symmetric]\<close>)
qed

section \<open>Properties\<close>

text \<open>C14. The decoder is exact: over a session's workspace and a pipeline of binary messages, every call returns; it
  succeeds exactly when one candidate of the pipeline matches the record, the slots can take its fields, length and
  checksum are right and every field has a meaning; and then the slots hold those meanings, the other slots are
  untouched, and the record is marked as tainted exactly if it states an enumeration value the plan does not know.\<close>

theorem decode_record_exact:
  assumes session: "codec_session plan ws"
    and version: "SupportsCompleteRecordSchema (pb_schema_version plan)" "\<not> text_schema (pb_schema_version plan)"
    and index: "pipeline_index < length (pb_pipeline_execution_plans plan)"
    and pipe: "binary_pipeline plan (pb_pipeline_execution_plans plan ! pipeline_index)"
    and args: "cv_address input \<noteq> 0" "sa \<noteq> 0"
  shows "\<exists>r ws' slots'. DecodeCompleteRecord plan slot_size ws pipeline_index input sa slots = Some (r, ws', slots') \<and>
    (dr_status r = CS_OK \<longleftrightarrow>
      (\<exists>i m. matching (pb_pipeline_execution_plans plan ! pipeline_index) (pb_message_execution_plans plan)
             (cv_bytes input) = [i] \<and> m = pb_message_execution_plans plan ! i \<and>
         AdmitSlots slot_size input sa (length slots) (length (me_fields m)) = None \<and>
         DecodeChecks m (cv_bytes input) = None \<and>
         (\<forall>j < length (me_fields m). field_meaning plan i m input j \<noteq> None))) \<and>
    (dr_status r = CS_OK \<longrightarrow>
      (\<exists>m. m = pb_message_execution_plans plan ! dr_message_index r \<and>
         matching (pb_pipeline_execution_plans plan ! pipeline_index) (pb_message_execution_plans plan)
           (cv_bytes input) = [dr_message_index r] \<and>
         dr_field_count r = length (me_fields m) \<and>
         (\<forall>j < length (me_fields m). Some (slots' ! j) = field_meaning plan (dr_message_index r) m input j) \<and>
         drop (length (me_fields m)) slots' = drop (length (me_fields m)) slots \<and>
         dr_tainted r = (\<exists>field \<in> set (me_fields m). unknown_value m (cv_bytes input) field)))"
  by (rule decode_call [OF assms])

lemma example_binary_pipeline: "binary_pipeline example_plan example_pipeline"
  by (simp add: binary_pipeline_def example_pipeline_def groups_sorted_def example_plan_def decodable_def
      example_message_def example_length_field_def example_payload_field_def ConversionPlanValid_def HasConversion_def)

lemma example_matching: "matching example_pipeline [example_message] example_record = [0]"
  by (simp add: example_pipeline_def matching_def binary_candidates_def example_defs MessageMatches_def)

lemma example_checks: "DecodeChecks example_message example_record = None"
proof -
  have "length example_record = 5" by (simp add: example_record_def)
  moreover have "ComputedLengthMatches example_message example_record 5"
    by (simp add: example_defs ComputedLengthMatches_def expected_length_def ResolvePayloadLength_def LoadUnsigned_def
        IsIntegerByteOrderValid_def)
  ultimately show ?thesis using example_valid example_matches by (simp add: DecodeChecks_def)
qed

lemma example_meanings:
  "field_meaning example_plan 0 example_message (example_view example_record) 0 =
     Some ((ref_slot example_plan 0 0 LK_UINT64)\<lparr>ds_uint64_value := 5\<rparr>)"
  "field_meaning example_plan 0 example_message (example_view example_record) 1 =
     Some ((ref_slot example_plan 0 1 LK_BYTES)\<lparr>ds_bytes_value := \<lparr>cv_address = 5002, cv_bytes = [9]\<rparr>\<rparr>)"
  by (simp_all add: field_meaning_def example_defs HasConversion_def WrittenRawValue_def example_view_def
      LoadUnsigned_def IsIntegerByteOrderValid_def BytesSlot_def ResolvePayloadLength_def)

theorem decode_record_exact_witness:
  "\<exists>r ws' slots'. DecodeCompleteRecord example_plan 64 example_workspace 0 (example_view example_record) 9000
       [no_slot, no_slot] = Some (r, ws', slots') \<and>
     dr_status r = CS_OK \<and> ds_uint64_value (slots' ! 0) = 5 \<and> cv_bytes (ds_bytes_value (slots' ! 1)) = [9]"
proof -
  have plan: "pb_pipeline_execution_plans example_plan = [example_pipeline]"
    "pb_message_execution_plans example_plan = [example_message]" "pb_schema_version example_plan = ''0.8''"
    by (simp_all add: example_plan_def)
  have session: "codec_session example_plan example_workspace"
    unfolding example_workspace_def by (rule codec_session.create)
  have n: "length (me_fields example_message) = 2" by (simp add: example_message_def)
  have all: "\<forall>j < length (me_fields example_message). field_meaning example_plan 0 example_message (example_view example_record) j \<noteq> None"
    using example_meanings by (auto simp: n less_2_cases_iff)
  have admit: "AdmitSlots 64 (example_view example_record) 9000 (length [no_slot, no_slot]) (length (me_fields example_message)) = None"
    by (simp add: n AdmitSlots_def example_view_def example_record_def GetAddressRange_def GetArrayAddressRange_def
        RangesOverlap_def SIZE_MAX_def)
  have bytes: "cv_bytes (example_view example_record) = example_record" by (simp add: example_view_def)
  from decode_record_exact [OF session, of 0 "example_view example_record" 9000 64 "[no_slot, no_slot]"]
  obtain r ws' slots' where call: "DecodeCompleteRecord example_plan 64 example_workspace 0 (example_view example_record) 9000
       [no_slot, no_slot] = Some (r, ws', slots')"
    and ok: "dr_status r = CS_OK \<longleftrightarrow> (\<exists>i m. matching example_pipeline [example_message] example_record = [i] \<and>
        m = [example_message] ! i \<and>
        AdmitSlots 64 (example_view example_record) 9000 (length [no_slot, no_slot]) (length (me_fields m)) = None \<and>
        DecodeChecks m example_record = None \<and>
        (\<forall>j < length (me_fields m). field_meaning example_plan i m (example_view example_record) j \<noteq> None))"
    and slots: "dr_status r = CS_OK \<longrightarrow> (\<exists>m. m = [example_message] ! dr_message_index r \<and>
        matching example_pipeline [example_message] example_record = [dr_message_index r] \<and>
        (\<forall>j < length (me_fields m). Some (slots' ! j) = field_meaning example_plan (dr_message_index r) m (example_view example_record) j))"
    using example_binary_pipeline
    by (simp only: plan bytes nth_Cons_0) (auto simp: SupportsCompleteRecordSchema_def text_schema_def example_view_def)
  have status: "dr_status r = CS_OK"
    unfolding ok using example_matching example_checks all admit by (intro exI [of _ 0] exI [of _ example_message]) simp
  then have "dr_message_index r = 0" using slots example_matching by simp
  then have "Some (slots' ! j) = field_meaning example_plan 0 example_message (example_view example_record) j" if "j < 2" for j
    using slots status n that by simp
  from this [of 0] this [of 1] have "slots' ! 0 = (ref_slot example_plan 0 0 LK_UINT64)\<lparr>ds_uint64_value := 5\<rparr>"
      "slots' ! 1 = (ref_slot example_plan 0 1 LK_BYTES)\<lparr>ds_bytes_value := \<lparr>cv_address = 5002, cv_bytes = [9]\<rparr>\<rparr>"
    using example_meanings by simp_all
  then show ?thesis using call status by (simp add: ref_slot_def)
qed

end
