(* ===== verification/Codec_Roundtrip.thy ===== *)
theory Codec_Roundtrip
  imports Codec_Exact
begin

text \<open>
  What the encoder writes the decoder reads back.  The first part shows which value the encoder uses for a field, the
  second what its final review guarantees about the frame, the third puts the two codecs together.
\<close>

section \<open>Presence words\<close>

lemma IsPresent_bit: "IsPresent words o1 \<longleftrightarrow> bit (words ! (o1 div 64)) (o1 mod 64)"
  by (simp add: IsPresent_def kPresenceWordBits_def and_exp_eq_0_iff_not_bit)

lemma IsPresent_MarkPresent:
  assumes "o1 div 64 < length words"
  shows "IsPresent (MarkPresent words o1) o2 \<longleftrightarrow> o1 = o2 \<or> IsPresent words o2"
proof (cases "o1 div 64 = o2 div 64")
  case True
  have "bit (push_bit (o1 mod 64) 1 :: u64) (o2 mod 64) \<longleftrightarrow> o1 mod 64 = o2 mod 64"
    unfolding bit_push_bit_iff bit_1_iff by auto
  moreover have "o1 = o2 \<longleftrightarrow> o1 mod 64 = o2 mod 64" using True by (metis div_mult_mod_eq)
  ultimately show ?thesis
    using assms True by (auto simp: IsPresent_bit MarkPresent_def kPresenceWordBits_def bit_or_iff)
next
  case False
  then show ?thesis by (auto simp: IsPresent_bit MarkPresent_def kPresenceWordBits_def)
qed

lemma PresenceWordCount_covers: "o1 < n \<Longrightarrow> o1 div 64 < PresenceWordCount n"
proof -
  assume "o1 < n"
  then have "o1 div 64 \<le> n div 64" by (simp add: div_le_mono)
  moreover have "n mod 64 = 0 \<Longrightarrow> o1 div 64 < n div 64"
    using \<open>o1 < n\<close> by (metis add.right_neutral div_less_dividend div_mult_mod_eq less_mult_imp_div_less mult.commute)
  ultimately show ?thesis by (auto simp: PresenceWordCount_def kPresenceWordBits_def)
qed

section \<open>The values of the fields\<close>

abbreviation field_of :: "MessageExecutionPlan \<Rightarrow> EncodeFieldValue \<Rightarrow> FieldExecutionPlan" where
  "field_of m v \<equiv> me_fields m ! fr_field_index (ev_field v)"

text \<open>After \<open>k\<close> values: each of them is for an input field, sits at its ordinal and passed its check, and exactly their
  ordinals are present.\<close>

definition prepared ::
    "PlanBundle \<Rightarrow> MessageExecutionPlan \<Rightarrow> nat \<Rightarrow> EncodeFieldValue list \<Rightarrow> nat \<Rightarrow> nat list \<Rightarrow> u64 list \<Rightarrow> bool" where
  "prepared plan m message_index vs k indices present \<longleftrightarrow>
     (\<forall>j < k. fr_plan_scope (ev_field (vs ! j)) = pb_address plan \<and> fr_message_index (ev_field (vs ! j)) = message_index \<and>
        fr_field_index (ev_field (vs ! j)) < length (me_fields m) \<and>
        fe_encode_source (field_of m (vs ! j)) = ES_INPUT \<and>
        fe_input_ordinal (field_of m (vs ! j)) < me_required_input_count m \<and>
        indices ! fe_input_ordinal (field_of m (vs ! j)) = j \<and>
        ImmediateValueCheck plan m message_index (fr_field_index (ev_field (vs ! j))) (field_of m (vs ! j)) (vs ! j) = None) \<and>
     (\<forall>n < me_required_input_count m. IsPresent present n \<longleftrightarrow> (\<exists>j < k. fe_input_ordinal (field_of m (vs ! j)) = n))"

lemma prepared_step:
  assumes inv: "prepared plan m message_index vs k indices present"
    and f: "fr_plan_scope (ev_field (vs ! k)) = pb_address plan" "fr_message_index (ev_field (vs ! k)) = message_index"
      "fr_field_index (ev_field (vs ! k)) < length (me_fields m)"
    and a: "AdmitValue plan m message_index (fr_field_index (ev_field (vs ! k))) present (vs ! k) = None"
    and room: "me_required_input_count m \<le> length indices" "PresenceWordCount (me_required_input_count m) \<le> length present"
  shows "prepared plan m message_index vs (Suc k) (indices[fe_input_ordinal (field_of m (vs ! k)) := k])
      (MarkPresent present (fe_input_ordinal (field_of m (vs ! k))))"
proof -
  let ?n = "fe_input_ordinal (field_of m (vs ! k))"
  have k: "fe_encode_source (field_of m (vs ! k)) = ES_INPUT" "?n < me_required_input_count m"
      "\<not> IsPresent present ?n"
      "ImmediateValueCheck plan m message_index (fr_field_index (ev_field (vs ! k))) (field_of m (vs ! k)) (vs ! k) = None"
    using a by (auto simp: AdmitValue_def Let_def split: if_splits)
  have fresh: "fe_input_ordinal (field_of m (vs ! j)) \<noteq> ?n" if "j < k" for j
    using inv k(2,3) that by (auto simp: prepared_def)
  have "?n div 64 < length present" using PresenceWordCount_covers [OF k(2)] room(2) by simp
  note mark = IsPresent_MarkPresent [OF this]
  show ?thesis
    unfolding prepared_def
  proof (intro conjI allI impI)
    fix n assume n: "n < me_required_input_count m"
    show "IsPresent (MarkPresent present ?n) n \<longleftrightarrow> (\<exists>j < Suc k. fe_input_ordinal (field_of m (vs ! j)) = n)"
      unfolding mark using inv n by (auto simp: prepared_def less_Suc_eq)
  next
    fix j assume j: "j < Suc k"
    show "fr_plan_scope (ev_field (vs ! j)) = pb_address plan" "fr_message_index (ev_field (vs ! j)) = message_index"
      "fr_field_index (ev_field (vs ! j)) < length (me_fields m)"
      "fe_encode_source (field_of m (vs ! j)) = ES_INPUT"
      "fe_input_ordinal (field_of m (vs ! j)) < me_required_input_count m"
      "indices[?n := k] ! fe_input_ordinal (field_of m (vs ! j)) = j"
      "ImmediateValueCheck plan m message_index (fr_field_index (ev_field (vs ! j))) (field_of m (vs ! j)) (vs ! j) = None"
      using inv j f k fresh [of j] room(1) by (auto simp: prepared_def less_Suc_eq)
  qed
qed

lemma PrepareValues_prepared:
  "prepared plan m message_index vs k indices present \<Longrightarrow> rest = drop k vs \<Longrightarrow> k \<le> length vs \<Longrightarrow>
   me_required_input_count m \<le> length indices \<Longrightarrow> PresenceWordCount (me_required_input_count m) \<le> length present \<Longrightarrow>
   PrepareValues plan m message_index rest k failed indices present = (None, indices', present') \<Longrightarrow>
   prepared plan m message_index vs (length vs) indices' present'"
proof (induction rest arbitrary: k failed indices present)
  case Nil
  then have "k = length vs" by simp
  then show ?case using Nil by simp
next
  case (Cons v rest)
  have k: "k < length vs" using Cons.prems(2) by (metis drop_all list.distinct(1) not_less)
  then have v: "v = vs ! k" "rest = drop (Suc k) vs"
    using Cons.prems(2) by (simp_all add: Cons_nth_drop_Suc [symmetric])
  have f: "fr_plan_scope (ev_field v) = pb_address plan" "fr_message_index (ev_field v) = message_index"
      "fr_field_index (ev_field v) < length (me_fields m)"
    and a: "AdmitValue plan m message_index (fr_field_index (ev_field v)) present v = None"
    and next_call: "PrepareValues plan m message_index rest (Suc k) (fr_field_index (ev_field v))
      (indices[fe_input_ordinal (field_of m v) := k]) (MarkPresent present (fe_input_ordinal (field_of m v))) =
      (None, indices', present')"
    using Cons.prems(6) by (auto simp: Let_def split: if_splits option.splits)
  show ?case
    using prepared_step [OF Cons.prems(1) f [unfolded v] a [unfolded v(1)] Cons.prems(4,5)] next_call k v(2) Cons.prems(4,5)
    by (intro Cons.IH [of "Suc k"]) (simp_all add: v(1) MarkPresent_def)
qed

lemma RequiredFields_all:
  "RequiredFields plan present fs k = None \<Longrightarrow> field \<in> set fs \<Longrightarrow> \<not> field_missing plan present field"
  by (induction plan present fs k rule: RequiredFields.induct) (auto split: if_splits)

lemma DeferredChecks_all:
  "DeferredChecks plan m message_index vs indices fs k raws = (None, raws') \<Longrightarrow> j < length fs \<Longrightarrow>
   fe_encode_source (fs ! j) = ES_INPUT \<Longrightarrow>
   \<exists>raws1 raws2. DeferredValueCheck plan m message_index (k + j) (fs ! j) (vs ! (indices ! fe_input_ordinal (fs ! j))) raws1 = Inr raws2"
proof (induction fs arbitrary: k raws j)
  case (Cons field fs)
  show ?case
  proof (cases j)
    case 0
    then show ?thesis using Cons.prems by (auto simp: Let_def split: sum.splits prod.splits)
  next
    case (Suc i)
    then have "\<exists>raws1. DeferredChecks plan m message_index vs indices fs (k + 1) raws1 = (None, raws')"
      using Cons.prems(1) by (auto simp: Let_def split: if_splits sum.splits prod.splits)
    then show ?thesis using Cons.IH [of "k + 1" _ i] Cons.prems(2,3) Suc by auto
  qed
qed simp

section \<open>What a successful encoding guarantees\<close>

lemma fold_list_update_length: "length (fold (\<lambda>x out. out[f x := g x]) xs out) = length out"
  by (induction xs arbitrary: out) simp_all

lemma put_bytes_length: "length (put_bytes out offset bytes) = length out"
  by (simp add: put_bytes_def fold_list_update_length)

lemma WriteFieldValues_buffer:
  "WriteFieldValues m vs indices raws fs containers out = (b, containers', out') \<Longrightarrow> length out' = length out"
  by (induction m vs indices raws fs containers out rule: WriteFieldValues.induct)
    (auto simp: Let_def put_bytes_length StoreUnsigned_length split: if_splits option.splits)

lemma WriteContainers_buffer: "WriteContainers cs i containers out = (b, out') \<Longrightarrow> length out' = length out"
  by (induction cs i containers out rule: WriteContainers.induct)
    (auto simp: StoreUnsigned_length split: option.splits)

lemma WriteFields_buffer:
  "WriteFields m vs indices raws containers out = (b, containers', out') \<Longrightarrow> length out' = length out"
  by (auto simp: WriteFields_def Let_def split: if_splits bool.splits prod.splits
      dest!: WriteFieldValues_buffer WriteContainers_buffer)

lemma WriteIntegrity_buffer: "WriteIntegrity m out n = Some out' \<Longrightarrow> length out' = length out"
  by (auto simp: WriteIntegrity_def StoreUnsigned_length split: option.splits if_splits)

lemma WriteComputedLength_buffer: "WriteComputedLength m out n = Some out' \<Longrightarrow> length out' = length out"
  by (auto simp: WriteComputedLength_def Let_def StoreUnsigned_length split: option.splits)

text \<open>A frame of \<open>n\<close> bytes at the start of the buffer that passed the review.\<close>

definition reviewed ::
    "PlanBundle \<Rightarrow> PipelineExecutionPlan \<Rightarrow> nat \<Rightarrow> MessageExecutionPlan \<Rightarrow> EncodeFieldValue list \<Rightarrow> nat list \<Rightarrow>
     u64 list \<Rightarrow> nat \<Rightarrow> u8 list \<Rightarrow> bool" where
  "reviewed plan pipeline message_index m vs indices raws n out \<longleftrightarrow>
     IntegrityMatches m out n \<and> IntegrityDescriptorValid m \<and> ComputedLengthMatches m out n \<and>
     (\<exists>outcome. FindPipelineMatch pipeline (pb_message_execution_plans plan) (take n out) = Some outcome \<and>
        mo_match_count outcome = 1 \<and> mo_message_index outcome = message_index) \<and>
     VerifyFields plan m vs indices raws out n (me_fields m) 0 = FV_MATCH"

lemma WriteAndReview_success:
  assumes "WriteAndReview plan pipeline message_index m vs n ws out result = Some (r, ws', out')" "en_status r = CS_OK"
  shows "en_bytes_written r = n \<and> length out' = length out \<and>
    reviewed plan pipeline message_index m vs (ew_encode_value_indices ws) (ew_encode_conversion_raw_values ws) n out'"
proof -
  obtain b containers out1 where w: "WriteFields m vs (ew_encode_value_indices ws) (ew_encode_conversion_raw_values ws)
      (ew_bit_container_values ws) (WriteFixedBytes m out) = (b, containers, out1)" by (metis surj_pair)
  have l: "length out1 = length out"
    using WriteFields_buffer [OF w] by (simp add: WriteFixedBytes_def fold_list_update_length)
  have none: "IntegrityDescriptorValid m \<Longrightarrow> me_integrity m = None \<Longrightarrow> IntegrityMatches m d n" for d
    by (simp add: IntegrityMatches_def)
  obtain out2 out3 where s: "WriteComputedLength m out1 n = Some out2" "IntegrityDescriptorValid m"
      "WriteIntegrity m out2 n = Some out3" "me_integrity m \<noteq> None \<longrightarrow> IntegrityMatches m out3 n"
      "ComputedLengthMatches m out3 n" "out' = out3" "en_bytes_written r = n"
      "VerifyFields plan m vs (ew_encode_value_indices ws) (ew_encode_conversion_raw_values ws) out3 n (me_fields m) 0 = FV_MATCH"
      "\<exists>outcome. FindPipelineMatch pipeline (pb_message_execution_plans plan) (take n out3) = Some outcome \<and>
        mo_match_count outcome = 1 \<and> mo_message_index outcome = message_index"
    using assms
    by (auto simp: WriteAndReview_def Let_def w split: if_splits option.splits FieldVerificationStatus.splits)
  then show ?thesis
    using l none [of out3] WriteComputedLength_buffer [OF s(1)] WriteIntegrity_buffer [OF s(3)]
    by (cases "me_integrity m = None") (simp_all add: reviewed_def)
qed

lemma AdmitOutput_room: "AdmitOutput relevant dr vs oa capacity n = None \<Longrightarrow> n \<le> capacity"
  by (auto simp: AdmitOutput_def split: if_splits)

lemma AdmitAliases_not_OK: "AdmitAliases relevant target vs i \<noteq> Some (CS_OK, j)"
  by (induction relevant target vs i rule: AdmitAliases.induct) (auto split: option.splits)

lemma AdmitOutput_not_OK: "AdmitOutput relevant dr vs oa capacity n \<noteq> Some (CS_OK, x)"
  by (auto simp: AdmitOutput_def AdmitAliases_not_OK split: option.splits)

lemma EncodeBinary_success:
  assumes "EncodeBinary plan pipeline message_index m dr vs ws oa out result = Some (r, ws', out')"
    and "en_status r = CS_OK"
  shows "ResolveEncodeSize m vs (ew_encode_value_indices ws) = Some (en_bytes_written r) \<and>
    ComputedLengthDescriptorValid m \<and> en_bytes_written r \<le> length out' \<and> length out' = length out \<and>
    reviewed plan pipeline message_index m vs (ew_encode_value_indices ws) (ew_encode_conversion_raw_values ws)
      (en_bytes_written r) out'"
proof -
  obtain n where n: "ResolveEncodeSize m vs (ew_encode_value_indices ws) = Some n"
      "AdmitOutput (\<lambda>v. ev_value_kind v = LK_BYTES) dr vs oa (length out) n = None" "ComputedLengthDescriptorValid m"
      "WriteAndReview plan pipeline message_index m vs n ws out (result\<lparr>en_required_size := n\<rparr>) = Some (r, ws', out')"
    using assms by (auto simp: EncodeBinary_def Let_def AdmitOutput_not_OK split: option.splits prod.splits if_splits)
  then show ?thesis using WriteAndReview_success [OF n(4) assms(2)] AdmitOutput_room [OF n(2)] by simp
qed

lemma ValueCheck_not_OK: "ValueCheck plan m message_index i field v \<noteq> Some CS_OK"
  by (auto simp: ValueCheck_def BytesValueCheck_def Let_def split: ValueType.splits option.splits)

lemma AdmitValue_not_OK: "AdmitValue plan m message_index i present v \<noteq> Some CS_OK"
  by (auto simp: AdmitValue_def Let_def ImmediateValueCheck_def TextValueCheck_def ValueCheck_not_OK)

lemma PrepareValues_not_OK: "PrepareValues plan m message_index vs k failed indices present \<noteq> (Some (CS_OK, x), indices', present')"
  by (induction plan m message_index vs k failed indices present rule: PrepareValues.induct)
    (auto simp: Let_def AdmitValue_not_OK split: option.splits)

lemma DeferredChecks_not_OK: "DeferredChecks plan m message_index vs indices fs k raws \<noteq> (Some (CS_OK, x), raws')"
  by (induction plan m message_index vs indices fs k raws rule: DeferredChecks.induct)
    (auto simp: Let_def DeferredValueCheck_def ValueCheck_not_OK split: sum.splits option.splits if_splits)

definition inputs_ok ::
    "PlanBundle \<Rightarrow> MessageExecutionPlan \<Rightarrow> nat \<Rightarrow> EncodeFieldValue list \<Rightarrow> nat list \<Rightarrow> u64 list \<Rightarrow> bool" where
  "inputs_ok plan m message_index vs indices present \<longleftrightarrow>
     prepared plan m message_index vs (length vs) indices present \<and>
     me_required_input_count m \<le> length indices \<and>
     RequiredFields plan present (me_fields m) 0 = None \<and>
     (conversion_schema (pb_schema_version plan) \<longrightarrow>
        (\<exists>raws raws'. DeferredChecks plan m message_index vs indices (me_fields m) 0 raws = (None, raws')))"

lemma PrepareEncodeInputs_success:
  assumes "PrepareEncodeInputs plan m message_index vs ws result = (CS_OK, ws', result')"
  shows "\<exists>present. inputs_ok plan m message_index vs (ew_encode_value_indices ws') present"
proof -
  let ?words = "PresenceWordCount (me_required_input_count m)"
  let ?present = "replicate ?words 0 @ drop ?words (ew_encode_present_words ws)"
  obtain r indices present where v: "PrepareValues plan m message_index vs 0 kInvalidIndex
      (ew_encode_value_indices ws) ?present = (r, indices, present)" by (metis surj_pair)
  obtain d raws where d: "DeferredChecks plan m message_index vs indices (me_fields m) 0
      (ew_encode_conversion_raw_values ws) = (d, raws)" by fastforce
  have r: "r \<noteq> Some (CS_OK, x)" for x using PrepareValues_not_OK v by metis
  have dn: "d \<noteq> Some (CS_OK, x)" for x using DeferredChecks_not_OK d by metis
  have all: "r = None" "RequiredFields plan present (me_fields m) 0 = None" "ew_encode_value_indices ws' = indices"
      "conversion_schema (pb_schema_version plan) \<longrightarrow> d = None"
      "me_required_input_count m \<le> length (ew_encode_value_indices ws)" "?words \<le> length (ew_encode_present_words ws)"
    using assms r dn by (auto simp: PrepareEncodeInputs_def Let_def v d split: if_splits option.splits)
  have "\<not> IsPresent ?present n" if "n < me_required_input_count m" for n
    using PresenceWordCount_covers [OF that] by (simp add: IsPresent_bit nth_append)
  then have "prepared plan m message_index vs 0 (ew_encode_value_indices ws) ?present" by (simp add: prepared_def)
  then have "prepared plan m message_index vs (length vs) indices present"
    by (rule PrepareValues_prepared) (use v all in auto)
  moreover have "length indices = length (ew_encode_value_indices ws)" using PrepareValues_length [OF v] by simp
  ultimately show ?thesis using all d unfolding inputs_ok_def by auto
qed

lemma encode_success:
  assumes session: "codec_session plan ws" and binary: "me_text_encode (pb_message_execution_plans plan ! message_index) = None"
    and call: "EncodeCompleteRecord plan value_size ws pipeline_index message_index va vs oa out = Some (e, ws', out')"
    and ok: "en_status e = CS_OK"
  shows "\<exists>m indices present raws. m = pb_message_execution_plans plan ! message_index \<and>
    message_index < length (pb_message_execution_plans plan) \<and>
    inputs_ok plan m message_index vs indices present \<and>
    ResolveEncodeSize m vs indices = Some (en_bytes_written e) \<and>
    ComputedLengthDescriptorValid m \<and> en_bytes_written e \<le> length out' \<and> length out' = length out \<and>
    reviewed plan (pb_pipeline_execution_plans plan ! pipeline_index) message_index m vs indices raws
      (en_bytes_written e) out' \<and>
    pipeline_index < length (pb_pipeline_execution_plans plan) \<and>
    SupportsCompleteRecordSchema (pb_schema_version plan) \<and> \<not> text_schema (pb_schema_version plan)"
proof -
  let ?m = "pb_message_execution_plans plan ! message_index"
  have free: "\<not> ew_in_use ws"
    using session_workspace [OF session] by (simp add: workspace_ok_def shape_def layout_shape_def Let_def)
  then obtain ws2 result ws3 result3 dr ws4 where p: "PrepareEncodeInputs plan ?m message_index vs ws2 result = (CS_OK, ws3, result3)"
      "EncodeBinary plan (pb_pipeline_execution_plans plan ! pipeline_index) message_index ?m dr vs ws3 oa out result3 = Some (e, ws4, out')"
      "message_index < length (pb_message_execution_plans plan)" "pipeline_index < length (pb_pipeline_execution_plans plan)"
      "SupportsCompleteRecordSchema (pb_schema_version plan)" "\<not> text_schema (pb_schema_version plan)"
    using call ok binary
    by (auto simp: EncodeCompleteRecord_def EncodeLeased_def no_encode_result_def Let_def split: if_splits option.splits prod.splits)
  obtain present where "inputs_ok plan ?m message_index vs (ew_encode_value_indices ws3) present"
    using PrepareEncodeInputs_success [OF p(1)] by blast
  then show ?thesis using EncodeBinary_success [OF p(2) ok] p(3-6) by blast
qed

section \<open>Plans that can be read back\<close>

text \<open>The bytes every frame of the message has at its start.\<close>

definition fixed_part :: "MessageExecutionPlan \<Rightarrow> nat" where
  "fixed_part m = (case me_bounded_payload m of None \<Rightarrow> me_frame_size m | Some b \<Rightarrow> bp_header_length b)"

definition payload_field :: "MessageExecutionPlan \<Rightarrow> nat \<Rightarrow> bool" where
  "payload_field m i \<longleftrightarrow> (case me_bounded_payload m of None \<Rightarrow> False | Some b \<Rightarrow> i = bp_payload_field_index b)"

definition placed :: "MessageExecutionPlan \<Rightarrow> nat \<Rightarrow> bool" where
  "placed m i \<longleftrightarrow>
     (let field = me_fields m ! i; container = me_bit_containers m ! fe_bit_container_index field
      in if payload_field m i then fe_value_type field = VT_BYTES \<and> fe_offset field = fixed_part m
         else if fe_value_type field \<noteq> VT_BYTES \<and> fe_bit_container_index field \<noteq> kInvalidIndex
           then bce_offset container + bce_width container \<le> fixed_part m
         else fe_offset field + fe_width field \<le> fixed_part m)"

text \<open>The enumeration entries a field can be given, or holds, are known to the decoder.\<close>

definition enum_ok :: "MessageExecutionPlan \<Rightarrow> FieldExecutionPlan \<Rightarrow> bool" where
  "enum_ok m field \<longleftrightarrow> fe_value_type field = VT_ENUM \<longrightarrow>
     (if fe_encode_source field = ES_INPUT
      then \<forall>e < fe_enum_values_count field. FindEnumEntry m field (me_enum_raw_values m ! (fe_enum_values_begin field + e)) = Some e
      else FindEnumEntry m field (fe_constant_value field) \<noteq> None \<or> fe_unknown_enum_policy field \<noteq> UE_REJECT)"

text \<open>Every input field has an ordinal of its own.\<close>

definition ordinals_ok :: "MessageExecutionPlan \<Rightarrow> bool" where
  "ordinals_ok m \<longleftrightarrow>
     (\<forall>i < length (me_fields m). fe_encode_source (me_fields m ! i) = ES_INPUT \<longrightarrow>
        fe_input_ordinal (me_fields m ! i) < me_required_input_count m \<and>
        (\<forall>j < length (me_fields m). fe_encode_source (me_fields m ! j) = ES_INPUT \<longrightarrow>
           fe_input_ordinal (me_fields m ! j) = fe_input_ordinal (me_fields m ! i) \<longrightarrow> j = i))"

definition encodable :: "MessageExecutionPlan \<Rightarrow> bool" where
  "encodable m \<longleftrightarrow> ordinals_ok m \<and>
     (\<forall>i < length (me_fields m). placed m i \<and> enum_ok m (me_fields m ! i) \<and>
        (fe_value_type (me_fields m ! i) = VT_BYTES \<longrightarrow>
           fe_encode_source (me_fields m ! i) = ES_INPUT \<and> \<not> HasConversion (me_fields m ! i)))"

lemma VerifyFields_all:
  "VerifyFields plan m vs indices raws out n fs k = FV_MATCH \<Longrightarrow> j < length fs \<Longrightarrow>
   VerifyField plan m vs indices raws out n (fs ! j) (k + j) = FV_MATCH"
proof (induction fs arbitrary: k j)
  case (Cons field fs)
  then show ?case
    by (cases j) (auto split: FieldVerificationStatus.splits dest: Cons.IH [of "Suc k"])
qed simp

lemma resolved_size:
  assumes "ResolveEncodeSize m vs indices = Some n"
  shows "fixed_part m \<le> n"
    and "payload_field m i \<Longrightarrow> BytesValueCheck m i (me_fields m ! i) (ev_bytes_value (vs ! (indices ! fe_input_ordinal (me_fields m ! i)))) = None \<Longrightarrow>
      ResolvePayloadLength m n = Some (length (input_bytes vs indices (me_fields m ! i)))"
proof -
  show "fixed_part m \<le> n"
    using assms by (auto simp: ResolveEncodeSize_def fixed_part_def Let_def split: option.splits if_splits)
  let ?bytes = "input_bytes vs indices (me_fields m ! i)"
  assume p: "payload_field m i"
    and c: "BytesValueCheck m i (me_fields m ! i) (ev_bytes_value (vs ! (indices ! fe_input_ordinal (me_fields m ! i)))) = None"
  from p obtain b where b: "me_bounded_payload m = Some b" "i = bp_payload_field_index b"
    by (auto simp: payload_field_def split: option.splits)
  have "bp_min_payload_length b \<le> length ?bytes" "length ?bytes \<le> bp_max_payload_length b"
    using c b by (auto simp: BytesValueCheck_def input_bytes_def Let_def split: if_splits)
  moreover have "n = bp_header_length b + length ?bytes + bp_trailer_length b"
      "bp_min_frame_length b \<le> n" "n \<le> bp_max_frame_length b"
    using assms b by (simp_all add: ResolveEncodeSize_def Let_def split: if_splits)
  ultimately show "ResolvePayloadLength m n = Some (length ?bytes)" using b(1) by (simp add: ResolvePayloadLength_def)
qed

lemma load_frame:
  "off + w \<le> n \<Longrightarrow> n \<le> length out \<Longrightarrow> LoadUnsigned (drop off (take n out)) w order = LoadUnsigned (drop off out) w order"
  by (rule LoadUnsigned_local) (auto simp: drop_take min_def)

lemma WrittenRawValue_frame:
  assumes "placed m i" "\<not> payload_field m i" "fe_value_type (me_fields m ! i) \<noteq> VT_BYTES" "fixed_part m \<le> n" "n \<le> length out"
  shows "WrittenRawValue m (me_fields m ! i) (take n out) = WrittenRawValue m (me_fields m ! i) out"
  using assms by (auto simp: WrittenRawValue_def placed_def Let_def load_frame)

lemma DeferredValueCheck_kind:
  assumes "DeferredValueCheck plan m message_index i field v raws = Inr raws'"
  shows "if HasConversion field then ev_value_kind v = LK_DECIMAL64
    else ValueKindMatches (ev_value_kind v) (fe_value_type field) \<and> ValueCheck plan m message_index i field v = None"
  using assms by (auto simp: DeferredValueCheck_def split: if_splits option.splits)

text \<open>The value the encoder uses for an input field.\<close>

lemma required_value:
  assumes inputs: "inputs_ok plan m message_index vs indices present" and ordinals: "ordinals_ok m"
    and i: "i < length (me_fields m)" "fe_encode_source (me_fields m ! i) = ES_INPUT"
    and schema: "text_schema (pb_schema_version plan) \<longrightarrow> fe_text_encode_input (me_fields m ! i)"
  defines "v \<equiv> vs ! (indices ! fe_input_ordinal (me_fields m ! i))"
  shows "v \<in> set vs"
    and "ev_field v = \<lparr>fr_plan_scope = pb_address plan, fr_message_index = message_index, fr_field_index = i\<rparr>"
    and "\<And>u. u \<in> set vs \<Longrightarrow> fr_field_index (ev_field u) = i \<Longrightarrow> u = v"
    and "ImmediateValueCheck plan m message_index i (me_fields m ! i) v = None"
proof -
  let ?f = "me_fields m ! i"
  have prep: "prepared plan m message_index vs (length vs) indices present" using inputs by (simp add: inputs_ok_def)
  have ord: "fe_input_ordinal ?f < me_required_input_count m"
    and inj: "\<And>j. j < length (me_fields m) \<Longrightarrow> fe_encode_source (me_fields m ! j) = ES_INPUT \<Longrightarrow>
      fe_input_ordinal (me_fields m ! j) = fe_input_ordinal ?f \<Longrightarrow> j = i"
    using ordinals i by (auto simp: ordinals_ok_def)
  have "\<not> field_missing plan present ?f"
    using inputs i(1) by (intro RequiredFields_all [of plan present "me_fields m" 0]) (auto simp: inputs_ok_def)
  then have "IsPresent present (fe_input_ordinal ?f)" using i(2) schema by (auto simp: field_missing_def)
  then obtain j where j: "j < length vs" "fe_input_ordinal (field_of m (vs ! j)) = fe_input_ordinal ?f"
    using prep ord by (auto simp: prepared_def)
  have all: "indices ! fe_input_ordinal ?f = k" "fr_field_index (ev_field (vs ! k)) = i"
    if "k < length vs" "fe_input_ordinal (field_of m (vs ! k)) = fe_input_ordinal ?f" for k
    using prep inj [of "fr_field_index (ev_field (vs ! k))"] that by (auto simp: prepared_def)
  have v: "v = vs ! j" and f: "fr_field_index (ev_field v) = i" using all [OF j] by (simp_all add: v_def)
  show "v \<in> set vs" using v j by simp
  show "ev_field v = \<lparr>fr_plan_scope = pb_address plan, fr_message_index = message_index, fr_field_index = i\<rparr>"
    using prep j(1) f v by (cases "ev_field v") (auto simp: prepared_def)
  show "u = v" if "u \<in> set vs" "fr_field_index (ev_field u) = i" for u
    using that all(1) v all(1) [OF j] by (metis in_set_conv_nth)
  show "ImmediateValueCheck plan m message_index i ?f v = None" using prep j(1) f v by (auto simp: prepared_def)
qed

lemma input_value:
  assumes inputs: "inputs_ok plan m message_index vs indices present" "ordinals_ok m" "\<not> text_schema (pb_schema_version plan)"
    and valid: "ConversionPlanValid plan (me_fields m ! i)"
    and i: "i < length (me_fields m)" "fe_encode_source (me_fields m ! i) = ES_INPUT"
  defines "v \<equiv> vs ! (indices ! fe_input_ordinal (me_fields m ! i))"
  shows "if HasConversion (me_fields m ! i) then ev_value_kind v = LK_DECIMAL64
    else ValueKindMatches (ev_value_kind v) (fe_value_type (me_fields m ! i)) \<and>
      ValueCheck plan m message_index i (me_fields m ! i) v = None"
proof (cases "conversion_schema (pb_schema_version plan)")
  case True
  then obtain raws raws' where "DeferredChecks plan m message_index vs indices (me_fields m) 0 raws = (None, raws')"
    using inputs(1) by (auto simp: inputs_ok_def)
  from DeferredChecks_all [OF this i] show ?thesis
    using DeferredValueCheck_kind [of plan m message_index i "me_fields m ! i" v] by (auto simp: v_def)
next
  case False
  then have "\<not> HasConversion (me_fields m ! i)" using valid HasConversion_schema by blast
  then show ?thesis
    using required_value(4) [OF inputs(1,2) i] False inputs(3) by (auto simp: ImmediateValueCheck_def v_def split: if_splits)
qed

section \<open>Reading a field back\<close>

text \<open>A slot that says what a value said: the same field and kind and an equal value, a decimal up to its scale.\<close>

definition slot_agrees :: "EncodeFieldValue \<Rightarrow> DecodedFieldSlot \<Rightarrow> bool" where
  "slot_agrees v slot \<longleftrightarrow> ds_field slot = ev_field v \<and> ds_value_kind slot = ev_value_kind v \<and>
     (case ev_value_kind v of
        LK_UINT64 \<Rightarrow> ds_uint64_value slot = ev_uint64_value v
      | LK_INT64 \<Rightarrow> ds_int64_value slot = ev_int64_value v
      | LK_BYTES \<Rightarrow> cv_bytes (ds_bytes_value slot) = cv_bytes (ev_bytes_value v)
      | LK_ENUM \<Rightarrow> de_known (ds_enum_value slot) \<and> de_reference (ds_enum_value slot) = ev_enum_value v
      | LK_BOOL \<Rightarrow> ds_bool_value slot = ev_bool_value v
      | LK_DECIMAL64 \<Rightarrow> DecimalEqual (ds_decimal64_value slot) (ev_decimal64_value v))"

lemma computed_readback:
  assumes "fe_encode_source (me_fields m ! i) = ES_COMPUTED" "ComputedLengthDescriptorValid m"
    and "VerifyField plan m vs indices raws out n (me_fields m ! i) i = FV_MATCH"
  shows "fe_value_type (me_fields m ! i) = VT_UINT64 \<and> (\<exists>raw. WrittenRawValue m (me_fields m ! i) out = Some raw)"
  using assms
  by (auto simp: VerifyField_def VerifyComputed_def ComputedLengthDescriptorValid_def WrittenRawValue_def Let_def
      split: option.splits if_splits)

lemma ref_slot_simps [simp]:
  "ds_field (ref_slot plan mi i kind) = \<lparr>fr_plan_scope = pb_address plan, fr_message_index = mi, fr_field_index = i\<rparr>"
  "ds_value_kind (ref_slot plan mi i kind) = kind"
  by (simp_all add: ref_slot_def)

lemma bytes_readback:
  assumes "placed m i" "fe_value_type (me_fields m ! i) = VT_BYTES" "fe_encode_source (me_fields m ! i) = ES_INPUT"
    and size: "ResolveEncodeSize m vs indices = Some n" and n: "n \<le> length out"
    and check: "BytesValueCheck m i (me_fields m ! i) (ev_bytes_value (vs ! (indices ! fe_input_ordinal (me_fields m ! i)))) = None"
    and match: "VerifyField plan m vs indices raws out n (me_fields m ! i) i = FV_MATCH"
  shows "\<exists>address. BytesSlot m \<lparr>cv_address = a, cv_bytes = take n out\<rparr> (me_fields m ! i) i =
    Some \<lparr>cv_address = address, cv_bytes = input_bytes vs indices (me_fields m ! i)\<rparr>"
proof -
  let ?f = "me_fields m ! i" and ?bytes = "input_bytes vs indices (me_fields m ! i)"
  have eq: "take (length ?bytes) (drop (fe_offset ?f) out) = ?bytes"
    using match assms(2,3) by (auto simp: VerifyField_def Let_def split: if_splits)
  have here: "take (length ?bytes) (drop (fe_offset ?f) (take n out)) = ?bytes" if "fe_offset ?f + length ?bytes \<le> n"
  proof -
    have "length ?bytes \<le> n - fe_offset ?f" using that by linarith
    then show ?thesis using eq by (simp add: drop_take min_absorb1)
  qed
  show ?thesis
  proof (cases "payload_field m i")
    case True
    note r = resolved_size(2) [OF size True check]
    then have "fixed_part m + length ?bytes \<le> n" "fe_offset ?f = fixed_part m"
      using True assms(1)
      by (auto simp: placed_def payload_field_def fixed_part_def ResolvePayloadLength_def Let_def split: option.splits if_splits)
    then show ?thesis
      using True r here n by (auto simp: BytesSlot_def payload_field_def split: option.splits)
  next
    case False
    then have w: "length ?bytes = fe_width ?f"
      using check by (auto simp: BytesValueCheck_def payload_field_def input_bytes_def Let_def split: option.splits if_splits)
    then have "fe_offset ?f + length ?bytes \<le> n"
      using False assms(1,2) resolved_size(1) [OF size] by (simp add: placed_def Let_def)
    then show ?thesis using False here w by (auto simp: BytesSlot_def payload_field_def split: option.splits)
  qed
qed

text \<open>The raw value of a field that is neither computed nor a byte string.\<close>

lemma raw_readback:
  assumes "fe_encode_source f \<noteq> ES_COMPUTED" "fe_value_type f \<noteq> VT_BYTES"
    and "VerifyField plan m vs indices raws out n f i = FV_MATCH"
  shows "\<exists>raw. WrittenRawValue m f out = Some raw \<and>
    (if HasConversion f then \<exists>d. ConvertDecode (pb_conversions plan ! fe_conversion_index f) raw (fe_width f) = Inr d \<and>
         DecimalEqual d (ev_decimal64_value (vs ! (indices ! fe_input_ordinal f)))
     else if fe_value_type f = VT_INT64 then
       InterpretSigned raw (fe_width f) = Some (if fe_encode_source f = ES_CONSTANT then fe_signed_constant_value f
         else ev_int64_value (vs ! (indices ! fe_input_ordinal f)))
     else raw = GetEncodeRawValue m f vs indices raws)"
  using assms by (auto simp: VerifyField_def Let_def split: option.splits if_splits sum.splits)

lemma field_readback:
  assumes plan: "decodable plan m" "encodable m" "\<not> text_schema (pb_schema_version plan)" "ComputedLengthDescriptorValid m"
    and inputs: "inputs_ok plan m message_index vs indices present"
    and size: "ResolveEncodeSize m vs indices = Some n" "n \<le> length out"
    and verified: "VerifyFields plan m vs indices raws out n (me_fields m) 0 = FV_MATCH"
    and i: "i < length (me_fields m)"
  shows "\<exists>slot. field_meaning plan message_index m \<lparr>cv_address = a, cv_bytes = take n out\<rparr> i = Some slot \<and>
    (fe_encode_source (me_fields m ! i) = ES_INPUT \<longrightarrow>
       slot_agrees (vs ! (indices ! fe_input_ordinal (me_fields m ! i))) slot)"
proof -
  let ?f = "me_fields m ! i" and ?in = "\<lparr>cv_address = a, cv_bytes = take n out\<rparr>"
  define v where "v = vs ! (indices ! fe_input_ordinal ?f)"
  have f: "placed m i" "enum_ok m ?f" "fe_value_type ?f = VT_BYTES \<longrightarrow> fe_encode_source ?f = ES_INPUT \<and> \<not> HasConversion ?f"
    using plan(2) i by (auto simp: encodable_def)
  have valid: "ConversionPlanValid plan ?f" using plan(1) i by (simp add: decodable_def)
  have ordinals: "ordinals_ok m" using plan(2) by (simp add: encodable_def)
  have v_is: "fe_encode_source ?f = ES_INPUT \<Longrightarrow>
      ev_field v = \<lparr>fr_plan_scope = pb_address plan, fr_message_index = message_index, fr_field_index = i\<rparr>"
    "fe_encode_source ?f = ES_INPUT \<Longrightarrow> if HasConversion ?f then ev_value_kind v = LK_DECIMAL64
      else ValueKindMatches (ev_value_kind v) (fe_value_type ?f) \<and> ValueCheck plan m message_index i ?f v = None"
    using required_value(2) [OF inputs ordinals i] input_value [OF inputs ordinals plan(3) valid i] plan(3)
    by (simp_all add: v_def)
  have match: "VerifyField plan m vs indices raws out n ?f i = FV_MATCH"
    using VerifyFields_all [OF verified i] by simp
  have local: "WrittenRawValue m ?f (take n out) = WrittenRawValue m ?f out" if "fe_value_type ?f \<noteq> VT_BYTES"
    using WrittenRawValue_frame [OF f(1) _ that resolved_size(1) [OF size(1)] size(2)] f(1) that
    by (auto simp: placed_def Let_def split: if_splits)
  have conv: "fe_encode_source ?f = ES_INPUT" "fe_bit_container_index ?f = kInvalidIndex" if "HasConversion ?f"
    using valid that by (simp_all add: ConversionPlanValid_def)
  consider (bytes) "fe_value_type ?f = VT_BYTES" | (computed) "fe_encode_source ?f = ES_COMPUTED" "fe_value_type ?f \<noteq> VT_BYTES"
    | (raw) "fe_encode_source ?f \<noteq> ES_COMPUTED" "fe_value_type ?f \<noteq> VT_BYTES" by blast
  then show ?thesis
  proof cases
    case bytes
    then have s: "fe_encode_source ?f = ES_INPUT" "\<not> HasConversion ?f" using f(3) by simp_all
    then have c: "ValueCheck plan m message_index i ?f v = None" "ev_value_kind v = LK_BYTES"
      using v_is(2) bytes s by (simp_all add: ValueKindMatches_def)
    then have "BytesValueCheck m i ?f (ev_bytes_value v) = None" using bytes by (simp add: ValueCheck_def)
    then obtain address where "BytesSlot m ?in ?f i = Some \<lparr>cv_address = address, cv_bytes = input_bytes vs indices ?f\<rparr>"
      using bytes_readback [OF f(1) bytes s(1) size _ match] v_def by blast
    then show ?thesis
      using bytes s c(2) v_is(1) by (simp add: field_meaning_def slot_agrees_def input_bytes_def v_def)
  next
    case computed
    then show ?thesis
      using computed_readback [OF computed(1) plan(4) match] local conv(1)
      by (auto simp: field_meaning_def Let_def)
  next
    case raw
    obtain r where r: "WrittenRawValue m ?f out = Some r"
      and m: "if HasConversion ?f then \<exists>d. ConvertDecode (pb_conversions plan ! fe_conversion_index ?f) r (fe_width ?f) = Inr d \<and>
           DecimalEqual d (ev_decimal64_value v)
       else if fe_value_type ?f = VT_INT64 then
         InterpretSigned r (fe_width ?f) = Some (if fe_encode_source ?f = ES_CONSTANT then fe_signed_constant_value ?f else ev_int64_value v)
       else r = GetEncodeRawValue m ?f vs indices raws"
      using raw_readback [OF raw match] v_def by blast
    note local_r = local [OF raw(2), unfolded r]
    show ?thesis
    proof (cases "HasConversion ?f")
      case True
      have "LoadUnsigned (drop (fe_offset ?f) (take n out)) (fe_width ?f) (fe_byte_order ?f) = Some r"
        using local_r conv(2) [OF True] by (simp add: WrittenRawValue_def)
      then show ?thesis
        using True m v_is conv(1) v_def by (auto simp: field_meaning_def converted_def slot_agrees_def)
    next
      case False
      have source: "fe_encode_source ?f = ES_CONSTANT \<or> fe_encode_source ?f = ES_INPUT"
        using raw(1) by (cases "fe_encode_source ?f") simp_all
      show ?thesis
      proof (cases "fe_encode_source ?f = ES_INPUT")
        case True
        then show ?thesis
          using False m v_is f(2) raw(2) local_r
          by (cases "fe_value_type ?f")
            (auto simp: field_meaning_def slot_agrees_def ValueKindMatches_def GetEncodeRawValue_def ValueCheck_def
              enum_ok_def enum_meaning_def v_def [symmetric] Let_def split: if_splits)
      next
        case const: False
        then have "fe_encode_source ?f = ES_CONSTANT" using source by simp
        then show ?thesis
          using False m f(2) raw(2) local_r
          by (cases "fe_value_type ?f")
            (auto simp: field_meaning_def GetEncodeRawValue_def enum_ok_def Let_def)
      qed
    qed
  qed
qed

section \<open>The record alone\<close>

text \<open>The tests on length and checksum look at the frame only.\<close>

lemma ComputedLengthMatches_frame:
  assumes "ComputedLengthDescriptorValid m" "n \<le> length out" "ComputedLengthMatches m out n" "fixed_part m \<le> n"
  shows "ComputedLengthMatches m (take n out) n"
proof (cases "me_computed_length m")
  case (Some c)
  have "cl_storage_offset c + cl_storage_width c \<le> n"
    using assms(1,4) by (auto simp: ComputedLengthDescriptorValid_def Some Let_def fixed_part_def split: if_splits option.splits)
  then show ?thesis using assms(2,3) by (simp add: ComputedLengthMatches_def Some load_frame split: option.splits)
qed (simp add: ComputedLengthMatches_def)

lemma Crc_frame: "off + k \<le> n \<Longrightarrow> n \<le> length out \<Longrightarrow> Crc i (take n out) off k = Crc i out off k"
  by (simp add: Crc_bytes drop_take min_absorb1)

lemma Sum8_frame: "off + k \<le> n \<Longrightarrow> n \<le> length out \<Longrightarrow> Sum8 (take n out) off k = Sum8 out off k"
  by (simp add: Sum8_bytes drop_take min_absorb1)

lemma IntegrityMatches_frame:
  assumes "n \<le> length out" "IntegrityMatches m out n"
  shows "IntegrityMatches m (take n out) n"
proof (cases "me_integrity m")
  case (Some i)
  have valid: "IntegrityDescriptorValid m" using assms(2) by (simp add: IntegrityMatches_def split: if_splits)
  obtain r where r: "ResolveIntegrity m n = Some r"
    using assms(2) Some valid by (auto simp: IntegrityMatches_def split: option.splits)
  have "resolved_fits n r" using resolved_in_bounds [OF r] Some by simp
  moreover have "0 < ri_storage_width r"
    using resolved_width [OF r Some] valid_crc_ok [OF valid Some]
    by (auto simp: crc_ok_def split: if_splits)
  ultimately have "ri_range_offset r + ri_range_length r \<le> n" "ri_storage_offset r + ri_storage_width r \<le> n"
      "ri_storage_offset r < n"
    by (auto simp: resolved_fits_def)
  then show ?thesis
    using assms r Some valid
    by (auto simp: IntegrityMatches_def load_frame Crc_frame Sum8_frame split: option.splits if_splits)
qed (use assms in \<open>simp add: IntegrityMatches_def split: if_splits\<close>)

lemma DecodeChecks_frame:
  assumes "reviewed plan pipeline message_index m vs indices raws n out" "ComputedLengthDescriptorValid m"
    and "n \<le> length out" "fixed_part m \<le> n"
  shows "DecodeChecks m (take n out) = None"
  using assms ComputedLengthMatches_frame IntegrityMatches_frame
  by (simp add: DecodeChecks_def reviewed_def min_absorb2)

section \<open>The round trip\<close>

text \<open>What the encoder writes, the decoder reads back: after a successful call of the encoder for a binary message, in any
  two sessions of the plan, decoding exactly the bytes it reports as written succeeds, finds the message that was
  encoded, and the slot of every value given to the encoder holds that value (a decimal up to its representation).\<close>

lemma encode_then_decode:
  assumes sessions: "codec_session plan ws" "codec_session plan ws2"
    and pipe: "binary_pipeline plan (pb_pipeline_execution_plans plan ! pipeline_index)"
    and m: "m = pb_message_execution_plans plan ! message_index" "me_text_encode m = None" "encodable m"
    and encode: "EncodeCompleteRecord plan value_size ws pipeline_index message_index va vs oa out = Some (e, ws1, out')"
      "en_status e = CS_OK"
    and frame: "input = \<lparr>cv_address = a, cv_bytes = take (en_bytes_written e) out'\<rparr>" "a \<noteq> 0" "sa \<noteq> 0"
    and room: "AdmitSlots slot_size input sa (length slots) (length (me_fields m)) = None"
  shows "\<exists>r ws3 slots'. DecodeCompleteRecord plan slot_size ws2 pipeline_index input sa slots = Some (r, ws3, slots') \<and>
    dr_status r = CS_OK \<and> dr_message_index r = message_index \<and>
    (\<forall>v \<in> set vs. slot_agrees v (slots' ! fr_field_index (ev_field v)))"
proof -
  let ?n = "en_bytes_written e" and ?pipeline = "pb_pipeline_execution_plans plan ! pipeline_index"
    and ?messages = "pb_message_execution_plans plan"
  obtain indices present raws where enc: "inputs_ok plan m message_index vs indices present"
      "ResolveEncodeSize m vs indices = Some ?n" "ComputedLengthDescriptorValid m" "?n \<le> length out'"
      "reviewed plan ?pipeline message_index m vs indices raws ?n out'"
      "pipeline_index < length (pb_pipeline_execution_plans plan)" "SupportsCompleteRecordSchema (pb_schema_version plan)"
      "\<not> text_schema (pb_schema_version plan)"
    using encode_success [OF sessions(1) m(2) [unfolded m(1)] encode, folded m(1)] by auto
  have bytes: "cv_bytes input = take ?n out'" "cv_address input \<noteq> 0" using frame by simp_all
  have "FindPipelineMatch ?pipeline ?messages (cv_bytes input) = Some (outcome_of (matching ?pipeline ?messages (cv_bytes input)))"
    using pipe by (intro FindPipelineMatch_outcome) (simp_all add: binary_pipeline_def text_messages_ok_def)
  then have found: "matching ?pipeline ?messages (cv_bytes input) = [message_index]"
    using enc(5) bytes(1) by (cases "matching ?pipeline ?messages (cv_bytes input)") (auto simp: reviewed_def outcome_of_def)
  have dec: "decodable plan m" using matching_binary(2) [OF pipe, of message_index "cv_bytes input"] found m(1) by simp
  have verified: "VerifyFields plan m vs indices raws out' ?n (me_fields m) 0 = FV_MATCH"
    using enc(5) by (simp add: reviewed_def)
  note read = field_readback [OF dec m(3) enc(8,3,1,2,4) verified, of _ a, folded frame(1)]
  have all: "\<forall>j < length (me_fields m). field_meaning plan message_index m input j \<noteq> None" using read by blast
  have checks: "DecodeChecks m (cv_bytes input) = None"
    using DecodeChecks_frame [OF enc(5,3,4) resolved_size(1) [OF enc(2)]] bytes(1) by simp
  obtain r ws3 slots' where call: "DecodeCompleteRecord plan slot_size ws2 pipeline_index input sa slots = Some (r, ws3, slots')"
    and ok: "dr_status r = CS_OK" "matching ?pipeline ?messages (cv_bytes input) = [dr_message_index r]"
    and slots: "\<forall>j < length (me_fields (?messages ! dr_message_index r)).
      Some (slots' ! j) = field_meaning plan (dr_message_index r) (?messages ! dr_message_index r) input j"
    using decode_call [OF sessions(2) enc(7,8,6) pipe bytes(2) frame(3), of slot_size slots] found all checks room m(1) by auto
  have index: "dr_message_index r = message_index" using ok(2) found by simp
  have "slot_agrees v (slots' ! fr_field_index (ev_field v))" if v: "v \<in> set vs" for v
  proof -
    let ?i = "fr_field_index (ev_field v)"
    have i: "?i < length (me_fields m)" "fe_encode_source (me_fields m ! ?i) = ES_INPUT"
      using enc(1) v by (auto simp: inputs_ok_def prepared_def in_set_conv_nth)
    have "ordinals_ok m" using m(3) by (simp add: encodable_def)
    note u = required_value(3) [OF enc(1) this i _ v refl]
    show ?thesis using read [OF i(1)] slots i u enc(8) index m(1) by auto
  qed
  then show ?thesis using call ok(1) index by blast
qed

text \<open>One payload byte, encoded for the example plan and decoded again.\<close>

definition example_value :: EncodeFieldValue where
  "example_value = \<lparr>ev_field = \<lparr>fr_plan_scope = 1000, fr_message_index = 0, fr_field_index = 1\<rparr>, ev_value_kind = LK_BYTES,
     ev_uint64_value = 0, ev_int64_value = 0, ev_bool_value = False,
     ev_bytes_value = \<lparr>cv_address = 6000, cv_bytes = [9]\<rparr>, ev_enum_value = no_enum_ref,
     ev_decimal64_value = \<lparr>coefficient = 0, scale = 0\<rparr>\<rparr>"

definition example_output :: "u8 list" where
  "example_output = [0xAA, 5, 9, 0x7F, 0x46, 0, 0, 0]"

lemma example_take: "take 5 example_output = example_record"
  by (simp add: example_output_def example_record_def)

lemma example_crc_of: "Crc example_crc (0xAA # 5 # 9 # bytes) 2 1 = 0x467F"
proof -
  let ?d = "0xAA # 5 # 9 # bytes"
  have "2 + 1 \<le> length ?d" "2 + 1 \<le> length example_record"
      "take 1 (drop 2 ?d) = take 1 (drop 2 example_record)"
    by (simp_all add: example_record_def)
  then have "Crc example_crc ?d 2 1 = Crc example_crc example_record 2 1" by (simp only: Crc_bytes)
  then show ?thesis by (simp only: example_checksum)
qed

lemma example_prepared:
  "PrepareEncodeInputs example_plan example_message 0 [example_value] ws result =
     (CS_OK, ws\<lparr>ew_encode_value_indices := [0], ew_encode_present_words := [1], ew_encode_conversion_raw_values := []\<rparr>,
      result\<lparr>en_failed_field_index := kInvalidIndex, en_failed_value_index := kInvalidIndex\<rparr>)"
  if "ew_encode_value_indices ws = [kInvalidIndex]" "ew_encode_present_words ws = [0]" "ew_encode_conversion_raw_values ws = []"
  using that
  by (simp add: PrepareEncodeInputs_def PresenceWordCount_def kPresenceWordBits_def example_message_def
      example_value_def example_plan_def example_length_field_def example_payload_field_def AdmitValue_def
      text_schema_def conversion_schema_def IsPresent_def MarkPresent_def ImmediateValueCheck_def field_missing_def
      DeferredValueCheck_def ConversionPlanValid_def HasConversion_def ValueKindMatches_def ValueCheck_def
      BytesValueCheck_def GetAddressRange_def SIZE_MAX_def)

lemma example_written:
  "WriteAndReview example_plan example_pipeline 0 example_message [example_value] 5
     ws [0, 0, 0, 0, 0, 0, 0, 0] result =
   Some (result\<lparr>en_status := CS_OK, en_bytes_written := 5, en_failed_value_index := kInvalidIndex,
     en_failed_field_index := kInvalidIndex\<rparr>, ws, example_output)"
  if "ew_encode_value_indices ws = [0]"
proof -
  let ?out = "[0xAA, 5, 9, 0, 0, 0, 0, 0] :: u8 list"
  have fields: "WriteFields example_message [example_value] [0] raws containers (WriteFixedBytes example_message [0, 0, 0, 0, 0, 0, 0, 0]) =
      (True, containers, [0xAA, 0, 9, 0, 0, 0, 0, 0])" for raws containers
    by (simp add: WriteFields_def WriteFixedBytes_def example_message_def example_length_field_def
        example_payload_field_def put_bytes_def input_bytes_def example_value_def)
  have length_field: "WriteComputedLength example_message [0xAA, 0, 9, 0, 0, 0, 0, 0] 5 = Some ?out"
    by (simp add: WriteComputedLength_def example_message_def StoreUnsigned_def IsIntegerByteOrderValid_def FitsUnsignedWidth_def)
  have crc: "WriteIntegrity example_message ?out 5 = Some example_output"
    by (simp add: WriteIntegrity_def example_resolved example_crc_of [simplified] example_crc_def [THEN arg_cong [of _ _ ip_algorithm]]
        example_crc_def [THEN arg_cong [of _ _ ip_storage_byte_order]] StoreUnsigned_def
        IsIntegerByteOrderValid_def FitsUnsignedWidth_def upt_rec drop_bit_eq_div example_output_def)
  have matched: "IntegrityMatches example_message example_output 5"
    using WriteIntegrity_matches [OF example_valid(1) _ crc] by simp
  have len: "ComputedLengthMatches example_message example_output 5"
    by (simp add: ComputedLengthMatches_def example_message_def expected_length_def ResolvePayloadLength_def
        LoadUnsigned_def IsIntegerByteOrderValid_def example_output_def)
  have "FindPipelineMatch example_pipeline [example_message] example_record = Some (outcome_of [0])"
    using FindPipelineMatch_outcome [of example_pipeline "[example_message]" example_record] example_matching
      example_binary_pipeline by (simp add: binary_pipeline_def text_messages_ok_def)
  then have found: "FindPipelineMatch example_pipeline (pb_message_execution_plans example_plan) (take 5 example_output) =
      Some \<lparr>mo_message_index = 0, mo_match_count = 1\<rparr>"
    by (simp add: example_take outcome_of_def example_plan_def)
  have fields_match: "VerifyFields example_plan example_message [example_value] [0] raws example_output 5
      (me_fields example_message) 0 = FV_MATCH" for raws
    by (simp add: VerifyField_def VerifyComputed_def computed_expected_def example_message_def example_length_field_def
        example_payload_field_def ResolvePayloadLength_def LoadUnsigned_def IsIntegerByteOrderValid_def input_bytes_def
        example_value_def example_output_def)
  show ?thesis
    using that by (simp add: WriteAndReview_def fields length_field example_valid crc matched len found fields_match)
qed

lemma example_encoded:
  "\<exists>e ws1. EncodeCompleteRecord example_plan 96 example_workspace 0 0 7000 [example_value] 9000 [0, 0, 0, 0, 0, 0, 0, 0] =
     Some (e, ws1, example_output) \<and> en_status e = CS_OK \<and> en_bytes_written e = 5"
proof -
  let ?ws = "example_workspace\<lparr>ew_in_use := True, ew_raw_integer_count := 0, ew_raw_integer_message_index := kInvalidIndex\<rparr>"
  have ws: "ew_plan_scope ?ws = 1000" "ew_max_values_per_call ?ws = 2" "\<not> ew_in_use example_workspace"
    and prep: "ew_encode_value_indices ?ws = [kInvalidIndex]" "ew_encode_present_words ?ws = [0]"
      "ew_encode_conversion_raw_values ?ws = []"
    by (simp_all add: example_workspace_def NewExecutionWorkspace_def example_plan_def Let_def)
  have plan: "pb_address example_plan = 1000" "pb_pipeline_execution_plans example_plan = [example_pipeline]"
    "pb_message_execution_plans example_plan = [example_message]" "pb_schema_version example_plan = ''0.8''"
    by (simp_all add: example_plan_def)
  have m: "me_text_encode example_message = None" by (simp add: example_message_def)
  have allowed: "MessageIsAllowed example_pipeline 0" by (simp add: MessageIsAllowed_def example_pipeline_def)
  have size: "ResolveEncodeSize example_message [example_value] [0] = Some 5"
    by (simp add: ResolveEncodeSize_def example_message_def example_payload_field_def example_length_field_def
        input_bytes_def example_value_def)
  have admit: "AdmitOutput (\<lambda>v. ev_value_kind v = LK_BYTES) \<lparr>ar_begin = 7000, ar_end = 7096\<rparr> [example_value] 9000
      (length [0, 0, 0, 0, 0, 0, 0, 0 :: u8]) 5 = None"
    by (simp add: AdmitOutput_def GetAddressRange_def SIZE_MAX_def RangesOverlap_def example_value_def)
  have range: "GetArrayAddressRange 7000 1 96 = Some \<lparr>ar_begin = 7000, ar_end = 7096\<rparr>"
    by (simp add: GetArrayAddressRange_def GetAddressRange_def SIZE_MAX_def)
  show ?thesis
    by (simp add: example_written EncodeCompleteRecord_def EncodeLeased_def ws plan m allowed range [simplified] SupportsCompleteRecordSchema_def
        text_schema_def example_prepared [OF prep] EncodeBinary_def size admit [simplified] example_valid no_encode_result_def Let_def)
qed

lemma example_round_trip:
  "\<exists>r ws3 slots'. DecodeCompleteRecord example_plan 64 example_workspace 0 (example_view example_record) 9000
       [no_slot, no_slot] = Some (r, ws3, slots') \<and> dr_status r = CS_OK \<and> slot_agrees example_value (slots' ! 1)"
proof -
  have session: "codec_session example_plan example_workspace"
    unfolding example_workspace_def by (rule codec_session.create)
  have plan: "pb_pipeline_execution_plans example_plan ! 0 = example_pipeline"
    "example_message = pb_message_execution_plans example_plan ! 0" by (simp_all add: example_plan_def)
  have m: "me_text_encode example_message = None" "encodable example_message" "length (me_fields example_message) = 2"
    by (simp_all add: example_message_def example_length_field_def example_payload_field_def encodable_def ordinals_ok_def placed_def
        payload_field_def fixed_part_def enum_ok_def HasConversion_def less_Suc_eq_0_disj all_conj_distrib)
  have admit: "AdmitSlots 64 (example_view example_record) 9000 (length [no_slot, no_slot]) (length (me_fields example_message)) = None"
    by (simp add: m AdmitSlots_def example_view_def example_record_def GetAddressRange_def GetArrayAddressRange_def
        RangesOverlap_def SIZE_MAX_def)
  obtain e ws1 where e: "EncodeCompleteRecord example_plan 96 example_workspace 0 0 7000 [example_value] 9000
      [0, 0, 0, 0, 0, 0, 0, 0] = Some (e, ws1, example_output)" "en_status e = CS_OK" "en_bytes_written e = 5"
    using example_encoded by blast
  have "example_view example_record = \<lparr>cv_address = 5000, cv_bytes = take (en_bytes_written e) example_output\<rparr>"
    by (simp add: e(3) example_take example_view_def)
  from encode_then_decode [OF session session example_binary_pipeline [folded plan(1)] plan(2) m(1,2) e(1,2) this _ _ admit]
  show ?thesis by (auto simp: example_value_def)
qed

end
