(* ===== verification/Plan_Sound.thy ===== *)
theory Plan_Sound
  imports Plan_Candidates Codec_Roundtrip Codec_Returns Host_Properties
begin

text \<open>
  The plans the builder publishes are the plans the codec and the host endpoint can run: candidate groups are
  sorted, text actions are well formed, the fields of binary messages lie in their records, and framing profiles
  are admitted.
\<close>

section \<open>Binary messages\<close>

text \<open>The container index of a field that is no bit field is copied without a check, so it has to be unset.\<close>

definition containers_unset :: "MessagePlan \<Rightarrow> bool" where
  "containers_unset message \<longleftrightarrow>
     list_all (\<lambda>field. \<not> is_bitfield field \<longrightarrow> fl_bit_container_index field = kInvalidIndex) (ms_fields message)"

lemma HasConversion_described:
  "described message raws lookup i field e \<Longrightarrow> HasConversion e \<longleftrightarrow> fl_conversion_index field \<noteq> kInvalidIndex"
  by (simp add: described_def HasConversion_def)

lemma enum_found:
  assumes block: "enum_block (me_enum_raw_values m) (me_enum_lookup_entries m) field e"
    and k: "k < fe_enum_values_count e"
  shows "FindEnumEntry m e (me_enum_raw_values m ! (fe_enum_values_begin e + k)) = Some k"
proof -
  let ?entries = "fl_enum_entries field" and ?n = "length (fl_enum_entries field)"
  let ?sorted = "sort_key el_raw_value (entry_lookup ?entries)"
  let ?b = "fe_enum_lookup_begin e" and ?es = "me_enum_lookup_entries m"
  have n: "fe_enum_values_count e = ?n" "fe_enum_lookup_count e = ?n" "distinct (map ee_raw_value ?entries)"
    "fe_enum_values_begin e + ?n \<le> length (me_enum_raw_values m)" "?b + ?n \<le> length ?es"
    "take ?n (drop (fe_enum_values_begin e) (me_enum_raw_values m)) = map ee_raw_value ?entries"
    "take ?n (drop ?b ?es) = ?sorted"
    using block by (simp_all add: enum_block_def Let_def)
  have raws: "me_enum_raw_values m ! (fe_enum_values_begin e + k) = ee_raw_value (?entries ! k)"
  proof -
    have "me_enum_raw_values m ! (fe_enum_values_begin e + k) = take ?n (drop (fe_enum_values_begin e) (me_enum_raw_values m)) ! k"
      using k n(1,4) by simp
    then show ?thesis using k n(1) by (simp add: n(6))
  qed
  have at: "?es ! (?b + i) = ?sorted ! i" if "i < ?n" for i
  proof -
    have "?es ! (?b + i) = take ?n (drop ?b ?es) ! i" using that n(5) by simp
    then show ?thesis by (simp add: n(7))
  qed
  have len: "length ?sorted = ?n" by (simp add: entry_lookup_def)
  have "map el_raw_value (entry_lookup ?entries) = map ee_raw_value ?entries"
    by (rule nth_equalityI) (simp_all add: entry_lookup_def)
  then have "distinct (map el_raw_value (entry_lookup ?entries))" using n(3) by (simp only:)
  then have "distinct (map el_raw_value ?sorted)" by (simp add: distinct_map)
  then have strict: "sorted_wrt (<) (map el_raw_value ?sorted)"
    unfolding strict_sorted_iff by (intro conjI sorted_sort_key) assumption
  have "el_raw_value (?es ! (?b + i)) < el_raw_value (?es ! (?b + j))" if "i < j" "j < fe_enum_lookup_count e" for i j
  proof -
    have ij: "i < ?n" "j < ?n" "j < length (map el_raw_value ?sorted)" "i < length ?sorted" "j < length ?sorted"
      using that n(2) len by simp_all
    show ?thesis
      using sorted_wrt_nth_less [OF strict that(1) ij(3)]
      unfolding at [OF ij(1)] at [OF ij(2)] nth_map [OF ij(4)] nth_map [OF ij(5)] .
  qed
  then have sorted: "lookup_sorted m e"
    using n(2,5) by (simp add: lookup_sorted_def)
  have "\<lparr>el_raw_value = ee_raw_value (?entries ! k), el_entry_index = k\<rparr> \<in> set ?sorted"
    using k n(1) by (simp add: entry_lookup_def)
  then obtain i where "i < ?n" "?sorted ! i = \<lparr>el_raw_value = ee_raw_value (?entries ! k), el_entry_index = k\<rparr>"
    using len by (metis in_set_conv_nth)
  then show ?thesis
    unfolding FindEnumEntry_iff [OF sorted] raws using at [of i] n(2) by (intro exI [of _ "?b + i"]) simp
qed

text \<open>What a field that was accepted gives to the codec.\<close>

lemma field_shape:
  assumes "field_checked version conversions message n i field"
  shows "fl_value_type field = VT_ENUM \<Longrightarrow> fl_encode_source field = ES_INPUT"
    and "fl_value_type field = VT_BYTES \<Longrightarrow> fl_encode_source field = ES_INPUT \<and> \<not> is_bitfield field"
    and "fl_conversion_index field \<noteq> kInvalidIndex \<Longrightarrow> conversion_schema version \<and>
      fl_conversion_index field < length conversions \<and> \<not> is_bitfield field \<and> fl_encode_source field = ES_INPUT \<and>
      fl_value_type field \<noteq> VT_BYTES \<and> raw_value_type (conversions ! fl_conversion_index field) = fl_value_type field"
proof -
  have shape: "FieldShapeValid version message i field (field_width message field)"
    and conversion: "ConversionValid version conversions field"
    using assms by (simp_all add: field_checked_def)
  have kinds: "if is_bitfield field then BitEncodeValid field (field_width message field)
    else Uint64Valid version message i field (field_width message field) \<or> Int64Valid version field (field_width message field) \<or>
      BytesValid field \<or> EnumShapeValid field (field_width message field)"
    using shape by (auto simp: FieldShapeValid_def)
  show "fl_encode_source field = ES_INPUT" if "fl_value_type field = VT_ENUM"
    using kinds that
    by (cases "is_bitfield field") (auto simp: Uint64Valid_def Int64Valid_def BytesValid_def EnumShapeValid_def BitEncodeValid_def Let_def)
  show "fl_encode_source field = ES_INPUT \<and> \<not> is_bitfield field" if "fl_value_type field = VT_BYTES"
    using kinds that
    by (cases "is_bitfield field") (auto simp: Uint64Valid_def Int64Valid_def BytesValid_def EnumShapeValid_def BitEncodeValid_def Let_def)
  show "conversion_schema version \<and> fl_conversion_index field < length conversions \<and> \<not> is_bitfield field \<and>
      fl_encode_source field = ES_INPUT \<and> fl_value_type field \<noteq> VT_BYTES \<and>
      raw_value_type (conversions ! fl_conversion_index field) = fl_value_type field"
    if "fl_conversion_index field \<noteq> kInvalidIndex"
    using conversion that by (auto simp: ConversionValid_def Let_def)
qed

lemma slots_distinct:
  assumes "fields_done version conversions message n intervals (length (ms_fields message)) s"
  shows "distinct (map fe_conversion_slot (filter HasConversion (st_fields s)))"
    and "length (filter HasConversion (st_fields s)) = st_conversion_slot s"
proof -
  let ?fs = "ms_fields message" and ?es = "st_fields s"
  have d: "length ?es = length ?fs" "st_conversion_slot s = conversions_before message (length ?fs)"
    "described message (st_enum_raw_values s) (st_enum_lookup_entries s) i (?fs ! i) (?es ! i)" if "i < length ?fs" for i
    using assms that by (auto simp: fields_done_def)
  have "map fe_conversion_slot (filter HasConversion (take j ?es)) = [0..<conversions_before message j]"
    if "j \<le> length ?fs" for j
    using that
  proof (induction j)
    case (Suc j)
    then have j: "j < length ?fs" "j < length ?es" using assms by (auto simp: fields_done_def)
    show ?case
      using Suc j before_Suc(2) [OF j(1)] HasConversion_described [OF d(3) [OF j(1)]] d(3) [OF j(1)]
      by (simp add: take_Suc_conv_app_nth described_def)
  qed (simp add: conversions_before_def)
  from this [OF order_refl] have "map fe_conversion_slot (filter HasConversion ?es) = [0..<st_conversion_slot s]"
    using assms by (simp add: fields_done_def)
  then show "distinct (map fe_conversion_slot (filter HasConversion ?es))"
    "length (filter HasConversion ?es) = st_conversion_slot s"
    by (simp, metis length_map length_upt minus_nat.diff_0)
qed

lemma binary_facts:
  assumes "PrepareBinaryMessage version limit conversions k message n counts = Inr (plan, slots, counts')"
  obtains s intervals where
    "fields_done version conversions message n intervals (length (ms_fields message)) s"
    "me_fields plan = st_fields s" "me_enum_raw_values plan = st_enum_raw_values s"
    "me_enum_lookup_entries plan = st_enum_lookup_entries s" "slots = st_conversion_slot s"
    "me_required_input_count plan = st_input_ordinal s" "me_frame_size plan = n"
    "me_bounded_payload plan = ms_bounded_payload message" "me_bit_containers plan = map container_execution (ms_bit_containers message)"
    "\<forall>c \<in> set (ms_bit_containers message). container_checked n (ms_bounded_payload message) c"
  using assms
proof (cases rule: PrepareBinaryMessage_accepted)
  case (1 container_ids intervals s fixed)
  have plan: "me_fields plan = st_fields s" "me_enum_raw_values plan = st_enum_raw_values s"
    "me_enum_lookup_entries plan = st_enum_lookup_entries s" "me_required_input_count plan = st_input_ordinal s"
    "me_frame_size plan = n" "me_bounded_payload plan = ms_bounded_payload message"
    by (subst 1(8), simp add: no_message_execution_def)+
  show thesis
    by (rule that [OF fields_loop [OF 1(3)] plan(1-3) 1(9) plan(4-6) containers_loop(1,2) [OF 1(2)]])
qed

lemma container_checked_ok: "container_checked n bounded c \<Longrightarrow> container_ok (container_execution c)"
  by (auto simp: container_checked_def container_ok_def container_execution_def IsBitContainerByteOrderValid_def
      IsIntegerByteOrderValid_def split: if_splits)

lemma binary_decodable:
  assumes prepared: "PrepareBinaryMessage (pb_schema_version plan) limit (pb_conversions plan) k message n counts = Inr (m, slots, counts')"
    and unset: "containers_unset message"
    and room: "slots \<le> rl_conversion_value_count (pb_layout plan)" "rl_conversion_value_count (pb_layout plan) \<le> SIZE_MAX"
      "length (ms_bit_containers message) \<le> rl_bit_container_value_count (pb_layout plan)"
  shows "decodable plan m"
  using prepared
proof (cases rule: binary_facts)
  case (1 s intervals)
  let ?fs = "ms_fields message"
  have prior: "length (st_fields s) = length ?fs"
    "\<And>i. i < length ?fs \<Longrightarrow> field_checked (pb_schema_version plan) (pb_conversions plan) message n i (?fs ! i)"
    "\<And>i. i < length ?fs \<Longrightarrow> described message (st_enum_raw_values s) (st_enum_lookup_entries s) i (?fs ! i) (st_fields s ! i)"
    using 1(1) by (auto simp: fields_done_def)
  have each: "ConversionPlanValid plan e \<and> (HasConversion e \<longrightarrow> fe_conversion_slot e < rl_conversion_value_count (pb_layout plan)) \<and>
      (fe_bit_container_index e = kInvalidIndex \<or> fe_bit_container_index e < length (me_bit_containers m))"
    if e: "e \<in> set (st_fields s)" for e
  proof -
    obtain i where i: "i < length ?fs" "e = st_fields s ! i" using e prior(1) by (metis in_set_conv_nth)
    let ?f = "?fs ! i"
    note c = prior(2) [OF i(1)] and d = prior(3) [OF i(1), folded i(2)]
    have container: "if is_bitfield ?f then fl_bit_container_index ?f < length (me_bit_containers m)
        else fl_bit_container_index ?f = kInvalidIndex"
      using c unset i(1) 1(9) by (auto simp: field_checked_def containers_unset_def list_all_iff)
    have slot: "fe_conversion_slot e < slots" if "fl_conversion_index ?f \<noteq> kInvalidIndex"
    proof -
      have "conversions_before message (Suc i) \<le> conversions_before message (length ?fs)"
        using i(1) by (intro before_mono) simp
      then show ?thesis
        using d that before_Suc(2) [OF i(1)] 1(1,5) by (simp add: described_def fields_done_def)
    qed
    show ?thesis
    proof (cases "fl_conversion_index ?f = kInvalidIndex")
      case True
      then show ?thesis
        using container d HasConversion_described [OF d] by (auto simp: ConversionPlanValid_def described_def split: if_splits)
    next
      case False
      then show ?thesis
        using field_shape(3) [OF c False] container slot room d HasConversion_described [OF d]
        by (auto simp: ConversionPlanValid_def described_def kInvalidIndex_def)
    qed
  qed
  show ?thesis
    using each slots_distinct [OF 1(1)] room 1(2,5,9,10)
    by (auto simp: decodable_def list_all_iff intro: container_checked_ok)
qed

lemma binary_encodable:
  assumes prepared: "PrepareBinaryMessage version limit conversions k message n counts = Inr (m, slots, counts')"
    and unset: "containers_unset message"
  shows "encodable m"
  using prepared
proof (cases rule: binary_facts)
  case (1 s intervals)
  let ?fs = "ms_fields message"
  have prior: "length (st_fields s) = length ?fs" "st_input_ordinal s = inputs_before message (length ?fs)"
    "\<And>i. i < length ?fs \<Longrightarrow> field_checked version conversions message n i (?fs ! i)"
    "\<And>i. i < length ?fs \<Longrightarrow> described message (me_enum_raw_values m) (me_enum_lookup_entries m) i (?fs ! i) (st_fields s ! i)"
    using 1(1,3,4) by (auto simp: fields_done_def)
  have ordinal: "fe_input_ordinal (st_fields s ! i) = inputs_before message i" "inputs_before message i < inputs_before message j"
    if "i < length ?fs" "fe_encode_source (st_fields s ! i) = ES_INPUT" "i < j" for i j
  proof -
    have d: "described message (me_enum_raw_values m) (me_enum_lookup_entries m) i (?fs ! i) (st_fields s ! i)"
      by (rule prior(4) [OF that(1)])
    then show "fe_input_ordinal (st_fields s ! i) = inputs_before message i" using that(2) by (simp add: described_def)
    have "inputs_before message (Suc i) \<le> inputs_before message j" using that(3) by (intro before_mono) simp
    then show "inputs_before message i < inputs_before message j"
      using d that(2) before_Suc(1) [OF that(1)] by (simp add: described_def)
  qed
  have "ordinals_ok m"
    unfolding ordinals_ok_def 1(2,6) prior(1,2)
  proof (intro allI impI conjI)
    fix i assume i: "i < length ?fs" "fe_encode_source (st_fields s ! i) = ES_INPUT"
    show "fe_input_ordinal (st_fields s ! i) < inputs_before message (length ?fs)"
      using ordinal [OF i, of "length ?fs"] i(1) by simp
    fix j assume j: "j < length ?fs" "fe_encode_source (st_fields s ! j) = ES_INPUT"
      "fe_input_ordinal (st_fields s ! j) = fe_input_ordinal (st_fields s ! i)"
    then show "j = i"
      using ordinal [OF i, of j] ordinal [OF i, of "Suc i"] ordinal [OF j(1,2), of i] ordinal [OF j(1,2), of "Suc j"]
      by (cases i j rule: linorder_cases) auto
  qed
  moreover have "placed m i \<and> enum_ok m (me_fields m ! i) \<and>
      (fe_value_type (me_fields m ! i) = VT_BYTES \<longrightarrow> fe_encode_source (me_fields m ! i) = ES_INPUT \<and> \<not> HasConversion (me_fields m ! i))"
    if "i < length (me_fields m)" for i
  proof (intro conjI impI)
    have i: "i < length ?fs" "me_fields m ! i = st_fields s ! i" using that prior(1) 1(2) by simp_all
    let ?f = "?fs ! i" and ?e = "st_fields s ! i"
    note c = prior(3) [OF i(1)] and d = prior(4) [OF i(1)]
    have container: "container_checked n (ms_bounded_payload message) (ms_bit_containers message ! fl_bit_container_index ?f)"
        "me_bit_containers m ! fl_bit_container_index ?f = container_execution (ms_bit_containers message ! fl_bit_container_index ?f)"
      if "is_bitfield ?f"
      using c that 1(9,10) by (simp_all add: field_checked_def)
    show "placed m i"
    proof (cases "is_bitfield ?f")
      case True
      then have "fl_value_type ?f \<noteq> VT_BYTES" using field_shape(2) [OF c] by auto
      moreover from this have "\<not> payload_field m i"
        using c 1(8) by (auto simp: field_checked_def PayloadPlaced_def payload_field_def split: option.splits)
      ultimately show ?thesis
        using container [OF True] d True 1(7,8) unfolding placed_def 1(2)
        by (auto simp: Let_def described_def field_offset_def field_width_def fixed_part_def container_checked_def
            container_execution_def IsRangeWithin_iff split: option.splits)
    next
      case False
      then have "fl_bit_container_index ?f = kInvalidIndex"
        using unset i(1) by (simp add: containers_unset_def list_all_length)
      then show ?thesis
        using c d False 1(7,8) unfolding placed_def 1(2)
        by (auto simp: Let_def described_def field_offset_def field_width_def fixed_part_def field_checked_def
            payload_field_def PayloadPlaced_def IsRangeWithin_iff split: option.splits if_splits)
    qed
    show "enum_ok m (me_fields m ! i)"
      using field_shape(1) [OF c] d enum_found [of m ?f ?e] unfolding enum_ok_def i(2) described_def by auto
    assume "fe_value_type (me_fields m ! i) = VT_BYTES"
    then have bytes: "fl_value_type ?f = VT_BYTES" using d i(2) by (simp add: described_def)
    show "fe_encode_source (me_fields m ! i) = ES_INPUT" using field_shape(2) [OF c bytes] d i(2) by (simp add: described_def)
    show "\<not> HasConversion (me_fields m ! i)"
      using field_shape(3) [OF c] bytes HasConversion_described [OF d] i(2) by auto
  qed
  ultimately show ?thesis by (simp add: encodable_def)
qed

section \<open>Text messages\<close>

text \<open>The descriptors of the fields of a text message.\<close>

definition encoded_before :: "bool list \<Rightarrow> nat \<Rightarrow> nat" where
  "encoded_before encode_fields j = length (filter id (take j encode_fields))"

definition text_field_of :: "bool list \<Rightarrow> nat \<Rightarrow> FieldPlan \<Rightarrow> FieldExecutionPlan" where
  "text_field_of encode_fields i field = no_field_execution
     \<lparr>fe_value_type := VT_BYTES, fe_encode_source := ES_INPUT,
      fe_input_ordinal := (if encode_fields ! i then encoded_before encode_fields i else kInvalidIndex),
      fe_text_min_length := fl_text_min_length field, fe_text_max_length := fl_text_max_length field,
      fe_allowed_ascii_low := fl_allowed_ascii_low field, fe_allowed_ascii_high := fl_allowed_ascii_high field,
      fe_text_encode_input := encode_fields ! i\<rparr>"

lemma PrepareTextField_accepted:
  assumes "PrepareTextField k decode_fields encode_fields i field (ids, ordinal, done_fields) = Inr t"
  shows "\<exists>ids'. t = (ids', if encode_fields ! i then ordinal + 1 else ordinal, done_fields @ [no_field_execution
     \<lparr>fe_value_type := VT_BYTES, fe_encode_source := ES_INPUT,
      fe_input_ordinal := (if encode_fields ! i then ordinal else kInvalidIndex),
      fe_text_min_length := fl_text_min_length field, fe_text_max_length := fl_text_max_length field,
      fe_allowed_ascii_low := fl_allowed_ascii_low field, fe_allowed_ascii_high := fl_allowed_ascii_high field,
      fe_text_encode_input := encode_fields ! i\<rparr>])"
    and "decode_fields ! i \<or> encode_fields ! i"
  using assms by (auto simp: PrepareTextField_def simp del: upt_rec_numeral split: if_splits)

lemma text_fields_loop:
  assumes loop: "each (PrepareTextField k decode_fields encode_fields) 0 fs ([], 0, []) = Inr (ids, input_ordinal, descriptors)"
    and len: "length encode_fields = length fs"
  shows "descriptors = map (\<lambda>i. text_field_of encode_fields i (fs ! i)) [0..<length fs]"
    and "input_ordinal = encoded_before encode_fields (length fs)"
proof -
  define P where "P j t \<longleftrightarrow> (case t of (ids, input_ordinal, descriptors) \<Rightarrow> input_ordinal = encoded_before encode_fields j \<and>
      descriptors = map (\<lambda>i. text_field_of encode_fields i (fs ! i)) [0..<j])"
    for j and t :: "string list \<times> nat \<times> FieldExecutionPlan list"
  have "P (length fs) (ids, input_ordinal, descriptors)"
  proof (rule each_invariant [OF loop])
    show "P 0 ([], 0, [])" by (simp add: P_def encoded_before_def)
    show "P (Suc j) t'" if "j < length fs" "PrepareTextField k decode_fields encode_fields (0 + j) (fs ! j) t = Inr t'" "P j t"
      for j t t'
    proof -
      obtain ids ordinal done_fields where t: "t = (ids, ordinal, done_fields)" by (cases t)
      show ?thesis
        using PrepareTextField_accepted(1) [of k decode_fields encode_fields j "fs ! j" ids ordinal done_fields t'] that len
        by (auto simp: P_def t encoded_before_def take_Suc_conv_app_nth text_field_of_def)
    qed
  qed
  then show "descriptors = map (\<lambda>i. text_field_of encode_fields i (fs ! i)) [0..<length fs]"
    "input_ordinal = encoded_before encode_fields (length fs)"
    by (simp_all add: P_def)
qed

lemma CheckSegments_references:
  "CheckSegments fs decode segments c = Some c' \<Longrightarrow> length (ac_references c') = length (ac_references c)"
proof (induction segments arbitrary: c)
  case (Cons segment following)
  obtain c1 where c1: "(if tsp_kind segment = TS_LITERAL then CheckLiteral segment c
      else CheckFieldSegment fs decode segment following c) = Some c1" "CheckSegments fs decode following c1 = Some c'"
    using Cons.prems by (auto split: option.splits)
  have "length (ac_references c1) = length (ac_references c)"
    using c1(1) by (auto simp: CheckLiteral_def CheckFieldSegment_def Let_def split: if_splits option.splits)
  then show ?case using Cons.IH [OF c1(2)] by simp
qed simp

lemma ValidateAction_references: "ValidateAction fs n decode action = Some (references, count) \<Longrightarrow> length references = length fs"
  using CheckSegments_references
  by (fastforce simp: ValidateAction_def split: option.splits if_splits)

definition text_lengths_as :: "FieldPlan list \<Rightarrow> MessageExecutionPlan \<Rightarrow> bool" where
  "text_lengths_as fs m \<longleftrightarrow> length (me_fields m) = length fs \<and>
     (\<forall>i < length fs. fe_text_min_length (me_fields m ! i) = fl_text_min_length (fs ! i) \<and>
        fe_text_max_length (me_fields m ! i) = fl_text_max_length (fs ! i))"

lemma CheckSegments_ok:
  assumes "text_lengths_as fs m"
  shows "CheckSegments fs decode segments c = Some c' \<Longrightarrow> segments_ok m segments"
proof (induction segments arbitrary: c)
  case (Cons segment following)
  obtain c1 where c1: "(if tsp_kind segment = TS_LITERAL then CheckLiteral segment c
      else CheckFieldSegment fs decode segment following c) = Some c1" "CheckSegments fs decode following c1 = Some c'"
    using Cons.prems by (auto split: option.splits)
  have following: "segments_ok m following" by (rule Cons.IH [OF c1(2)])
  show ?case
  proof (cases "tsp_kind segment = TS_LITERAL")
    case True
    then have "literal_ok segment"
      using c1(1) by (auto simp: CheckLiteral_def literal_ok_def kmp.accepted_iff split: if_splits option.splits)
    then show ?thesis using True following by simp
  next
    case False
    let ?i = "tsp_field_index segment"
    have "?i < length fs" "fl_text_min_length (fs ! ?i) = fl_text_max_length (fs ! ?i) \<or> following = [] \<or>
        tsp_kind (hd following) = TS_LITERAL"
      using c1(1) False by (auto simp: CheckFieldSegment_def Let_def ToSize_def split: if_splits option.splits)
    then show ?thesis
      using False following assms by (auto simp: text_lengths_as_def split: list.split)
  qed
qed simp

lemma ValidateAction_ok:
  assumes "ValidateAction fs n decode (Some action) = Some out" "text_lengths_as fs m"
  shows "action_ok m action"
  using assms CheckSegments_ok [OF assms(2)] by (auto simp: ValidateAction_def action_ok_def split: if_splits option.splits)

lemma text_facts:
  assumes "PrepareTextMessage version k message ascii n = Inr m"
  obtains decode_fields decode_count encode_fields encode_count where
    "ValidateAction (ms_fields message) n True (at_decode ascii) = Some (decode_fields, decode_count)"
    "ValidateAction (ms_fields message) n False (at_encode ascii) = Some (encode_fields, encode_count)"
    "length encode_fields = length (ms_fields message)"
    "me_fields m = map (\<lambda>i. text_field_of encode_fields i (ms_fields message ! i)) [0..<length (ms_fields message)]"
    "me_required_input_count m = encoded_before encode_fields (length (ms_fields message))"
    "me_text_decode m = at_decode ascii" "me_text_encode m = at_encode ascii" "me_text_decode_field_count m = decode_count"
    "text_lengths_as (ms_fields message) m" "me_frame_size m = n" "me_fixed_bytes m = []" "me_bounded_payload m = None"
    "version = ''0.10'' \<or> version = ''0.11''"
  using assms
proof (cases rule: PrepareTextMessage_accepted)
  case (1 decode_fields decode_count encode_fields encode_count ids input_ordinal descriptors)
  note len = ValidateAction_references [OF 1(2)]
  have plan: "me_fields m = map (\<lambda>i. text_field_of encode_fields i (ms_fields message ! i)) [0..<length (ms_fields message)]"
    "me_required_input_count m = encoded_before encode_fields (length (ms_fields message))"
    "me_text_decode m = at_decode ascii" "me_text_encode m = at_encode ascii" "me_text_decode_field_count m = decode_count"
    "me_frame_size m = n" "me_fixed_bytes m = []" "me_bounded_payload m = None"
    using text_fields_loop [OF 1(3) len] 1(4) by (simp_all add: no_message_execution_def)
  have "text_lengths_as (ms_fields message) m" by (simp add: text_lengths_as_def plan(1) text_field_of_def)
  from that [OF 1(1,2) len plan(1-5) this plan(6-8) 1(5)] show thesis .
qed

lemma prepared_actions:
  assumes "prepared_as version limit conversions k message m slots"
    and "me_text_decode m = Some action \<or> me_text_encode m = Some action"
  shows "action_ok m action"
proof (cases "ms_ascii_text message")
  case None
  then show ?thesis using assms by (auto simp: prepared_as_def dest: PrepareBinaryMessage_text)
next
  case (Some ascii)
  then have "PrepareTextMessage version k message ascii (ms_frame_length_bytes message) = Inr m"
    using assms(1) by (simp add: prepared_as_def)
  then show ?thesis
  proof (cases rule: text_facts)
    case 1
    then show ?thesis
      using assms(2) ValidateAction_ok [OF _ 1(9)] by (metis)
  qed
qed

section \<open>The plan\<close>

text \<open>A plan that was published is the bundle of a prepared draft.\<close>

lemma Freeze_accepted:
  assumes "Freeze platform (Some draft) = Inr (plan, report)"
  shows "\<exists>descriptors address. PrepareDraft (bp_value_type_bytes platform) draft = Inr descriptors \<and>
    plan = bundle_of address draft descriptors"
proof -
  obtain d where d: "PrepareDraft (bp_value_type_bytes platform) draft = Inr d" "FreezePrepared platform draft d = Inr (plan, report)"
    using assms by (auto simp: Freeze_def FreezeImpl_def accepted)
  obtain arena arena' where "FreezePlan (bp_abi platform) (bp_address platform) draft d arena = Some (arena', plan)"
    using d(2) by (auto simp: FreezePrepared_def accepted Let_def split: option.splits if_splits)
  then have "\<exists>address. plan = bundle_of address draft d"
    by (auto simp: FreezePlan_pays [OF accepted_freezable [OF d(1)]] split: option.splits)
  then show ?thesis using d(1) by blast
qed

text \<open>The parts of a plan that was published.\<close>

lemma Freeze_parts:
  assumes "Freeze platform (Some draft) = Inr (plan, report)"
  obtains s r ids where
    "CheckResources draft = Inr r" "PrepareMessages draft = Inr s"
    "PrepareLayout (bp_value_type_bytes platform) (GetResourceProfileLimits (dd_resource_profile draft)) (dd_messages draft) s =
       Some (pb_layout plan)"
    "each (PreparePipeline (dd_messages draft) (mg_plans s) (dd_framing_profiles draft)) 0 (dd_pipelines draft) ([], []) =
       Inr (ids, pb_pipeline_execution_plans plan)"
    "pb_message_execution_plans plan = mg_plans s" "pb_schema_version plan = dd_schema_version draft"
    "pb_conversions plan = dd_conversions draft" "pb_framing_profiles plan = dd_framing_profiles draft"
    "pb_pipelines plan = dd_pipelines draft" "pb_messages plan = dd_messages draft"
proof -
  obtain d address where d: "PrepareDraft (bp_value_type_bytes platform) draft = Inr d" "plan = bundle_of address draft d"
    using Freeze_accepted [OF assms] by blast
  from d(1) show thesis
  proof (cases rule: PrepareDraft_accepted)
    case (1 s ids)
    then show thesis by (intro that [of "pr_requirements d" s ids]) (simp_all add: d(2) bundle_of_def)
  qed
qed

lemma layout_facts:
  assumes "PrepareLayout v limit messages s = Some layout"
  shows "rl_conversion_value_count layout = mg_conversion_slots s" "rl_conversion_value_count layout \<le> SIZE_MAX"
    and "m \<in> set messages \<Longrightarrow> length (ms_bit_containers m) \<le> rl_bit_container_value_count layout"
proof -
  have widest: "n \<le> fold (\<lambda>m. max (length (ms_bit_containers m))) ms n \<and>
      (\<forall>m \<in> set ms. length (ms_bit_containers m) \<le> fold (\<lambda>m. max (length (ms_bit_containers m))) ms n)" for ms n
  proof (induction ms arbitrary: n)
    case (Cons m ms)
    show ?case using Cons.IH [of "max (length (ms_bit_containers m)) n"] by auto
  qed simp
  have "MultiplySizeChecked (mg_conversion_slots s) (kConversionWorkspaceBytesPerSlot v) \<noteq> None"
    using assms by (auto simp: PrepareLayout_def Let_def split: option.splits)
  then have "mg_conversion_slots s \<le> SIZE_MAX"
  proof (cases "mg_conversion_slots s = 0")
    case False
    assume "MultiplySizeChecked (mg_conversion_slots s) (kConversionWorkspaceBytesPerSlot v) \<noteq> None"
    then have "1 \<le> SIZE_MAX div mg_conversion_slots s"
      using False by (auto simp: MultiplySizeChecked_def kConversionWorkspaceBytesPerSlot_def split: if_splits)
    then show ?thesis using False by (simp add: Suc_le_eq div_greater_zero_iff)
  qed simp
  moreover have "rl_conversion_value_count layout = mg_conversion_slots s"
    "rl_bit_container_value_count layout = fold (\<lambda>m. max (length (ms_bit_containers m))) messages 0"
    using assms by (auto simp: PrepareLayout_def Let_def split: option.splits if_splits)
  ultimately show "rl_conversion_value_count layout = mg_conversion_slots s" "rl_conversion_value_count layout \<le> SIZE_MAX"
    "m \<in> set messages \<Longrightarrow> length (ms_bit_containers m) \<le> rl_bit_container_value_count layout"
    using widest [of 0 messages] by auto
qed

lemma frozen_message:
  assumes "Freeze platform (Some draft) = Inr (plan, report)" "k < length (dd_messages draft)"
  obtains slots where "k < length (pb_message_execution_plans plan)" "slots \<le> rl_conversion_value_count (pb_layout plan)"
    "prepared_as (pb_schema_version plan) (GetResourceProfileLimits (dd_resource_profile draft)) (pb_conversions plan) k
       (dd_messages draft ! k) (pb_message_execution_plans plan ! k) slots"
  using assms(1)
proof (cases rule: Freeze_parts)
  case (1 s r ids)
  have "counted_in draft s k" by (rule PrepareMessages_accepted(2) [OF 1(2) assms(2)])
  then obtain slots where "slots \<le> mg_conversion_slots s" "prepared_as (dd_schema_version draft)
      (GetResourceProfileLimits (dd_resource_profile draft)) (dd_conversions draft) k (dd_messages draft ! k) (mg_plans s ! k) slots"
    unfolding counted_in_def by blast
  then show thesis
    using that [of slots] PrepareMessages_accepted(1) [OF 1(2)] layout_facts(1) [OF 1(3)] 1 assms(2) by simp
qed

lemma frozen_pipeline:
  assumes "Freeze platform (Some draft) = Inr (plan, report)" "k < length (dd_pipelines draft)"
  shows "k < length (pb_pipeline_execution_plans plan)"
    and "pipeline_prepared (dd_messages draft) (pb_message_execution_plans plan) (dd_framing_profiles draft)
      (dd_pipelines draft ! k) (pb_pipeline_execution_plans plan ! k)"
  using Freeze_parts [OF assms(1)] pipelines_loop assms(2) by metis+

lemma frozen_lengths:
  assumes "Freeze platform (Some draft) = Inr (plan, report)"
  shows "length (pb_message_execution_plans plan) = length (dd_messages draft)"
    and "length (pb_pipeline_execution_plans plan) = length (dd_pipelines draft)"
  using Freeze_parts [OF assms] pipelines_loop(1) PrepareMessages_accepted(1) by metis+

lemma frozen_runs:
  assumes "Freeze platform (Some draft) = Inr (plan, report)"
  shows "plan_runs plan"
proof -
  have "pipeline_runs plan pipeline" if pipeline: "pipeline \<in> set (pb_pipeline_execution_plans plan)" for pipeline
  proof -
    obtain k where k: "k < length (dd_pipelines draft)" "pipeline = pb_pipeline_execution_plans plan ! k"
      using pipeline frozen_lengths(2) [OF assms] by (metis in_set_conv_nth)
    have prepared: "pipeline_prepared (dd_messages draft) (pb_message_execution_plans plan) (dd_framing_profiles draft)
        (dd_pipelines draft ! k) pipeline"
      using frozen_pipeline(2) [OF assms k(1)] by (simp add: k(2))
    have "i < length (pb_message_execution_plans plan)" if "i \<in> set (pl_message_indices (dd_pipelines draft ! k))" for i
      using prepared_indices(2) [OF prepared] that frozen_lengths(1) [OF assms] by simp
    moreover have "pe_variable_message_indices pipeline =
        filter (\<lambda>i. variable_kind (pb_message_execution_plans plan ! i)) (pl_message_indices (dd_pipelines draft ! k))"
      using prepared by (auto simp: pipeline_prepared_def pipeline_done_def sorted_in_def Let_def)
    ultimately show ?thesis
      using prepared_groups(1,3,4) [OF prepared] by (auto simp: pipeline_runs_def sized_def)
  qed
  moreover have "action_ok m action"
    if m: "m \<in> set (pb_message_execution_plans plan)" "me_text_decode m = Some action \<or> me_text_encode m = Some action" for m action
  proof -
    obtain k where k: "k < length (dd_messages draft)" "m = pb_message_execution_plans plan ! k"
      using m(1) frozen_lengths(1) [OF assms] by (metis in_set_conv_nth)
    from assms k(1) show ?thesis
      by (rule frozen_message) (use m(2) k(2) prepared_actions in blast)
  qed
  ultimately show ?thesis by (auto simp: plan_runs_def)
qed

lemma frozen_admitted:
  assumes "Freeze platform (Some draft) = Inr (plan, report)"
  shows "admitted plan"
  using assms
proof (cases rule: Freeze_parts)
  case (1 s r ids)
  have "\<exists>limit capacity. AdmitFraming (dd_schema_version draft) limit f = Some (Inr (Some capacity))"
    if f: "f \<in> set (dd_framing_profiles draft)" "fp_input_kind f = IK_STREAM_CHUNK" for f
  proof -
    obtain out where out: "AdmitFraming (dd_schema_version draft) (GetResourceProfileLimits (dd_resource_profile draft)) f = Some (Inr out)"
      using framings_admitted [OF 1(1) f(1)] by blast
    then have "out \<noteq> None"
      using f(2) by (auto simp: AdmitFraming_def Let_def split: option.splits bool.splits if_splits)
    then show ?thesis using out by blast
  qed
  then show ?thesis by (auto simp: admitted_def 1)
qed

lemma frozen_binary:
  assumes freeze: "Freeze platform (Some draft) = Inr (plan, report)" and k: "k < length (dd_messages draft)"
    and binary: "ms_ascii_text (dd_messages draft ! k) = None" and unset: "containers_unset (dd_messages draft ! k)"
  shows "decodable plan (pb_message_execution_plans plan ! k)" "encodable (pb_message_execution_plans plan ! k)"
proof -
  obtain slots where slots: "slots \<le> rl_conversion_value_count (pb_layout plan)"
    "prepared_as (pb_schema_version plan) (GetResourceProfileLimits (dd_resource_profile draft)) (pb_conversions plan) k
       (dd_messages draft ! k) (pb_message_execution_plans plan ! k) slots"
    using freeze k by (rule frozen_message)
  then obtain n counts counts' where m: "PrepareBinaryMessage (pb_schema_version plan)
      (GetResourceProfileLimits (dd_resource_profile draft)) (pb_conversions plan) k (dd_messages draft ! k) n counts =
      Inr (pb_message_execution_plans plan ! k, slots, counts')"
    using binary by (auto simp: prepared_as_def)
  have room: "rl_conversion_value_count (pb_layout plan) \<le> SIZE_MAX"
    "length (ms_bit_containers (dd_messages draft ! k)) \<le> rl_bit_container_value_count (pb_layout plan)"
  proof -
    obtain v limit s where layout: "PrepareLayout v limit (dd_messages draft) s = Some (pb_layout plan)"
      using freeze by (rule Freeze_parts)
    show "rl_conversion_value_count (pb_layout plan) \<le> SIZE_MAX" using layout_facts(1,2) [OF layout] by simp
    show "length (ms_bit_containers (dd_messages draft ! k)) \<le> rl_bit_container_value_count (pb_layout plan)"
      using layout_facts(3) [OF layout nth_mem [OF k]] .
  qed
  show "decodable plan (pb_message_execution_plans plan ! k)" by (rule binary_decodable [OF m unset slots(1) room])
  show "encodable (pb_message_execution_plans plan ! k)" by (rule binary_encodable [OF m unset])
qed

end
