(* ===== verification/Plan_Published.thy ===== *)
theory Plan_Published
  imports Plan_Sound
begin

text \<open>
  Published plans: what Freeze amounts to once the descriptors are accepted, and what the codec may rely on in the
  plan it publishes (exact conversions, the shape of fixed matchers, binary pipelines, one match per record).
\<close>

section \<open>Published plans\<close>

text \<open>The builder as a reference: after the checks, the estimate decides alone.\<close>

lemma Freeze_exact:
  assumes "abi_ok (bp_abi platform)" "bp_memory_available platform" "dd_test_fail_at_allocation draft = 0"
  shows "Freeze platform (Some draft) =
    followed_by (PrepareDraft (bp_value_type_bytes platform) draft) (\<lambda>descriptors.
      case EstimatePreparedPlanMemory (bp_abi platform) draft (pr_messages descriptors) (pr_pipelines descriptors) SIZE_MAX of
        None \<Rightarrow> Inl (RejectMemory PLAN_MEMORY_LIMIT_EXCEEDED SIZE_MAX (effective_plan_memory_limit draft) (dd_resource_profile draft))
      | Some e \<Rightarrow>
          if spent e > effective_plan_memory_limit draft
          then Inl (RejectMemory PLAN_MEMORY_LIMIT_EXCEEDED (spent e) (effective_plan_memory_limit draft) (dd_resource_profile draft))
          else if dd_approved_plan_memory draft \<noteq> e
          then Inl (RejectMemory PLAN_MEMORY_ESTIMATE_MISMATCH (spent e) (spent (dd_approved_plan_memory draft)) (dd_resource_profile draft))
          else Inr (bundle_of (bp_address platform) draft descriptors, e))"
proof (cases "PrepareDraft (bp_value_type_bytes platform) draft")
  case (Inr descriptors)
  then show ?thesis
    using FreezePrepared_exact [OF assms(1) accepted_freezable [OF Inr] assms(2,3)]
    by (simp add: Freeze_def FreezeImpl_def followed_by_def)
qed (simp add: Freeze_def FreezeImpl_def followed_by_def)

lemma DeriveLinearConversion_ok:
  assumes "DeriveLinearConversion type sn sd bn bd = Inr c" "type = VT_UINT64 \<or> type = VT_INT64"
  shows "conversion_ok c"
proof -
  have "sn \<noteq> 0" "sd \<noteq> 0" "bd \<noteq> 0" "sd \<le> kMaximumAuthorDenominator" "bd \<le> kMaximumAuthorDenominator"
    using assms(1) by (auto simp: DeriveLinearConversion_def not_less split: if_splits)
  from Derive_exact [OF this assms(2), of bn] show ?thesis using assms(1) by simp
qed

lemma frozen_conversions:
  assumes "Freeze platform (Some draft) = Inr (plan, report)" "c \<in> set (pb_conversions plan)"
  shows "conversion_ok c"
  using assms(1)
proof (cases rule: Freeze_parts)
  case (1 s r ids)
  then have "DraftConversionValid (dd_schema_version draft) c"
    using assms(2) CheckResources_accepted(2) [OF 1(1)] by simp
  then show ?thesis
    by (auto simp: DraftConversionValid_def LinearConversionEqual_iff split: sum.splits intro: DeriveLinearConversion_ok)
qed

text \<open>Every message of a published plan has fixed bytes the pipeline checks can rely on.\<close>

lemma frozen_fixed_ok:
  assumes "Freeze platform (Some draft) = Inr (plan, report)" "k < length (dd_messages draft)"
  shows "fixed_ok (pb_message_execution_plans plan ! k)"
proof -
  obtain slots where prepared_message: "prepared_as (pb_schema_version plan) (GetResourceProfileLimits (dd_resource_profile draft))
      (pb_conversions plan) k (dd_messages draft ! k) (pb_message_execution_plans plan ! k) slots"
    using assms by (rule frozen_message)
  show ?thesis
  proof (cases "ms_ascii_text (dd_messages draft ! k)")
    case None
    then show ?thesis using prepared_message binary_fixed_ok by (auto simp: prepared_as_def)
  next
    case (Some ascii)
    then have "PrepareTextMessage (pb_schema_version plan) k (dd_messages draft ! k) ascii
        (ms_frame_length_bytes (dd_messages draft ! k)) = Inr (pb_message_execution_plans plan ! k)"
      using prepared_message by (simp add: prepared_as_def)
    then show ?thesis
      by (rule text_facts) (simp add: fixed_ok_def min_length_def max_length_def)
  qed
qed

text \<open>Without text the messages of a published plan are binary.\<close>

lemma frozen_no_text:
  assumes "Freeze platform (Some draft) = Inr (plan, report)" "k < length (dd_messages draft)"
    and "\<not> text_schema (pb_schema_version plan)"
  shows "ms_ascii_text (dd_messages draft ! k) = None" "me_text_decode (pb_message_execution_plans plan ! k) = None"
    "me_text_encode (pb_message_execution_plans plan ! k) = None"
proof -
  obtain slots where prepared_message: "prepared_as (pb_schema_version plan) (GetResourceProfileLimits (dd_resource_profile draft))
      (pb_conversions plan) k (dd_messages draft ! k) (pb_message_execution_plans plan ! k) slots"
    using assms(1,2) by (rule frozen_message)
  show "ms_ascii_text (dd_messages draft ! k) = None"
    using prepared_message assms(3)
    by (auto simp: prepared_as_def text_schema_def PrepareTextMessage_def accepted split: option.splits)
  then show "me_text_decode (pb_message_execution_plans plan ! k) = None" "me_text_encode (pb_message_execution_plans plan ! k) = None"
    using prepared_message by (auto simp: prepared_as_def dest: PrepareBinaryMessage_text)
qed

lemma frozen_pipeline_of:
  assumes "Freeze platform (Some draft) = Inr (plan, report)" "pipeline \<in> set (pb_pipeline_execution_plans plan)"
  obtains k where "k < length (dd_pipelines draft)" "pipeline = pb_pipeline_execution_plans plan ! k"
    "pipeline_prepared (dd_messages draft) (pb_message_execution_plans plan) (dd_framing_profiles draft)
       (dd_pipelines draft ! k) pipeline"
  using assms frozen_lengths(2) [OF assms(1)] frozen_pipeline(2) [OF assms(1)] by (metis in_set_conv_nth)

lemma frozen_binary_pipeline:
  assumes freeze: "Freeze platform (Some draft) = Inr (plan, report)" and pipeline: "pipeline \<in> set (pb_pipeline_execution_plans plan)"
    and version: "\<not> text_schema (pb_schema_version plan)" and unset: "list_all containers_unset (dd_messages draft)"
  shows "binary_pipeline plan pipeline"
  using freeze pipeline
proof (rule frozen_pipeline_of)
  fix k assume k: "pipeline_prepared (dd_messages draft) (pb_message_execution_plans plan) (dd_framing_profiles draft)
      (dd_pipelines draft ! k) pipeline"
  have message: "me_text_decode (pb_message_execution_plans plan ! i) = None \<and> decodable plan (pb_message_execution_plans plan ! i)"
    if "i \<in> set (pl_message_indices (dd_pipelines draft ! k))" for i
  proof -
    have i: "i < length (dd_messages draft)" using prepared_indices(2) [OF k] that by blast
    then show ?thesis
      using frozen_no_text(1,2) [OF freeze i version] frozen_binary(1) [OF freeze i] unset by (simp add: list_all_length)
  qed
  have "set (binary_candidates pipeline n) \<subseteq> set (pl_message_indices (dd_pipelines draft ! k))" for n
    by (auto simp: prepared_groups(2) [OF k] sized_def)
  then have "set (pe_variable_message_indices pipeline) \<subseteq> set (pl_message_indices (dd_pipelines draft ! k))"
    by (auto simp: binary_candidates_def)
  moreover have "set (cg_message_indices g) \<subseteq> set (pl_message_indices (dd_pipelines draft ! k))"
    if "g \<in> set (pe_candidate_groups pipeline)" for g
    using prepared_groups(4) [OF k that] by (auto simp: sized_def)
  ultimately show ?thesis
    using message prepared_groups(1,3) [OF k] by (auto simp: binary_pipeline_def filter_empty_conv)
qed

text \<open>No two binary candidates of a pipeline match a record.\<close>

lemma frozen_one_match:
  assumes freeze: "Freeze platform (Some draft) = Inr (plan, report)" and pipeline: "pipeline \<in> set (pb_pipeline_execution_plans plan)"
  shows "length (filter (\<lambda>i. MessageMatches (pb_message_execution_plans plan ! i) input) (binary_candidates pipeline n)) \<le> 1"
  using freeze pipeline
proof (rule frozen_pipeline_of)
  fix k assume k: "pipeline_prepared (dd_messages draft) (pb_message_execution_plans plan) (dd_framing_profiles draft)
      (dd_pipelines draft ! k) pipeline"
  show ?thesis
    using prepared_indices(2) [OF k] frozen_fixed_ok [OF freeze] by (intro one_binary_match [OF k]) blast
qed

end
