(* ===== verification/Compiler_Assembled.thy ===== *)
theory Compiler_Assembled
  imports Compiler_Budget Plan_Published
begin

text \<open>
  What the plan builder finds in a draft that the configuration compiler assembled: every part of the draft is the
  image of a part of the configuration, so the estimate of the compiler is the estimate of the builder.
\<close>

section \<open>The images of the lists\<close>

lemma AssembleFields_all:
  "AssembleFields fs conversions = (plans, conversions') \<Longrightarrow>
   list_all2 (\<lambda>f p. \<exists>before. p = fst (AssembleField f before)) fs plans \<and>
   conversions' = conversions @ map (lc_derived \<circ> the) (filter (\<lambda>c. c \<noteq> None) (map fd_conversion fs))"
proof (induction fs arbitrary: conversions plans conversions')
  case (Cons f fs)
  obtain p before where p: "AssembleField f conversions = (p, before)" by fastforce
  obtain ps after where ps: "AssembleFields fs before = (ps, after)" by fastforce
  have "before = conversions @ (case fd_conversion f of None \<Rightarrow> [] | Some c \<Rightarrow> [lc_derived c])"
    using p by (auto simp: AssembleField_def split: option.splits)
  moreover have "\<exists>before. p = fst (AssembleField f before)" using p by (intro exI [of _ conversions]) simp
  ultimately show ?case using Cons.prems p ps Cons.IH [OF ps] by (auto split: option.splits)
qed simp

lemma AssembleMessages_all:
  "AssembleMessages ms conversions = (plans, conversions') \<Longrightarrow>
   list_all2 (\<lambda>m p. \<exists>before. p = fst (AssembleMessage m before)) ms plans \<and>
   conversions' = conversions @ map (lc_derived \<circ> the) (filter (\<lambda>c. c \<noteq> None) (map fd_conversion (concat (map mi_fields ms))))"
proof (induction ms arbitrary: conversions plans conversions')
  case (Cons m ms)
  obtain p before where p: "AssembleMessage m conversions = (p, before)" by fastforce
  obtain ps after where ps: "AssembleMessages ms before = (ps, after)" by fastforce
  obtain fs where fs: "AssembleFields (mi_fields m) conversions = (fs, before)"
    using p by (auto simp: AssembleMessage_def split: prod.splits)
  have "\<exists>before. p = fst (AssembleMessage m before)" using p by (intro exI [of _ conversions]) simp
  then show ?case using Cons.prems p ps Cons.IH [OF ps] AssembleFields_all [OF fs] by auto
qed simp

definition assembled_field :: "FieldIr \<Rightarrow> FieldPlan \<Rightarrow> bool" where
  "assembled_field f p \<longleftrightarrow> (\<exists>before. p = fst (AssembleField f before))"

definition assembled_message :: "MessageIr \<Rightarrow> MessagePlan \<Rightarrow> bool" where
  "assembled_message m p \<longleftrightarrow> (\<exists>before. p = fst (AssembleMessage m before))"

lemma assembled_parts:
  assumes "assembled_message m p"
  shows "ms_id p = mi_id m" "ms_direction_id p = mi_direction_id m" "ms_frame_length_bytes p = mi_frame_length_bytes m"
    "ms_matchers p = map AssembleMatcher (mi_matcher_clauses m)"
    "ms_bit_containers p = map AssembleContainer (mi_bit_containers m)"
    "ms_integrity p = map_option AssembleIntegrity (mi_integrity m)"
    "ms_bounded_payload p = map_option AssembleBoundedPayload (mi_bounded_payload m)"
    "ms_computed_length p = AssembleComputedLength m" "ms_ascii_text p = map_option AssembleText (mi_ascii_text m)"
    "list_all2 assembled_field (mi_fields m) (ms_fields p)"
proof -
  obtain before where p: "p = fst (AssembleMessage m before)" using assms by (auto simp: assembled_message_def)
  obtain fs after where fs: "AssembleFields (mi_fields m) before = (fs, after)" by fastforce
  show "ms_id p = mi_id m" "ms_direction_id p = mi_direction_id m" "ms_frame_length_bytes p = mi_frame_length_bytes m"
    "ms_matchers p = map AssembleMatcher (mi_matcher_clauses m)"
    "ms_bit_containers p = map AssembleContainer (mi_bit_containers m)"
    "ms_integrity p = map_option AssembleIntegrity (mi_integrity m)"
    "ms_bounded_payload p = map_option AssembleBoundedPayload (mi_bounded_payload m)"
    "ms_computed_length p = AssembleComputedLength m" "ms_ascii_text p = map_option AssembleText (mi_ascii_text m)"
    by (simp_all add: p AssembleMessage_def fs)
  show "list_all2 assembled_field (mi_fields m) (ms_fields p)"
    using AssembleFields_all [OF fs] by (simp add: p AssembleMessage_def fs assembled_field_def [abs_def])
qed

lemma assembled_draft:
  "list_all2 assembled_message (sc_messages (va_schema (bu_validated b))) (dd_messages (Assemble b))"
  "dd_conversions (Assemble b) = map (lc_derived \<circ> the)
     (filter (\<lambda>c. c \<noteq> None) (map fd_conversion (concat (map mi_fields (sc_messages (va_schema (bu_validated b)))))))"
proof -
  obtain ms conversions where ms: "AssembleMessages (sc_messages (va_schema (bu_validated b))) [] = (ms, conversions)" by fastforce
  show "list_all2 assembled_message (sc_messages (va_schema (bu_validated b))) (dd_messages (Assemble b))"
    "dd_conversions (Assemble b) = map (lc_derived \<circ> the)
       (filter (\<lambda>c. c \<noteq> None) (map fd_conversion (concat (map mi_fields (sc_messages (va_schema (bu_validated b)))))))"
    using AssembleMessages_all [OF ms] by (simp_all add: Assemble_def ms Let_def assembled_message_def [abs_def])
qed

lemma assembled_rest [simp]:
  "dd_schema_version (Assemble b) = sc_schema_version (va_schema (bu_validated b))"
  "dd_protocol_id (Assemble b) = sc_protocol_id (va_schema (bu_validated b))"
  "dd_protocol_version (Assemble b) = sc_protocol_version (va_schema (bu_validated b))"
  "dd_resource_profile (Assemble b) = sc_resource_profile (va_schema (bu_validated b))"
  "dd_resource_requirements (Assemble b) = va_requirements (bu_validated b)"
  "dd_framing_profiles (Assemble b) = map AssembleFraming (sc_framing_profiles (va_schema (bu_validated b)))"
  "dd_pipelines (Assemble b) = map AssemblePipeline
     (zip (sc_pipelines (va_schema (bu_validated b))) (va_resolved_pipelines (bu_validated b)))"
  "dd_approved_plan_memory (Assemble b) = bu_plan_memory b"
  "dd_plan_memory_limit_bytes (Assemble b) = bu_plan_memory_limit_bytes b" "dd_test_fail_at_allocation (Assemble b) = 0"
  by (simp_all add: Assemble_def Let_def split: prod.splits)

section \<open>The estimate of the draft\<close>

lemma add_array_map [simp]: "add_array abi ty (map h xs) category = add_array abi ty xs category"
  by (simp add: add_array_def)

lemma AddStringLayout_same: "AddStringLayout_ir abi v = AddStringLayout abi v"
  by (simp add: AddStringLayout_ir_def AddStringLayout_def fun_eq_iff)

lemma EstimateFraming_same: "EstimateFraming abi (AssembleFraming f) = EstimateFraming_ir abi f"
  by (simp add: EstimateFraming_def EstimateFraming_ir_def AssembleFraming_def AddStringLayout_same)

lemma EstimatePipeline_same: "EstimatePipeline abi (AssemblePipeline p) = EstimatePipeline_ir abi p"
  by (simp add: EstimatePipeline_def EstimatePipeline_ir_def AssemblePipeline_def AddStringLayout_same)

lemma assembled_entries:
  "assembled_field f p \<Longrightarrow>
   fl_enum_entries p = map (\<lambda>e. \<lparr>ee_id = ei_id e, ee_raw_value = ei_raw_value e\<rparr>) (fd_enum_entries f) \<and> fl_id p = fd_id f \<and>
   fl_value_type p = fd_value_type f"
  by (auto simp: assembled_field_def AssembleField_def)

lemma EstimateField_same: "assembled_field f p \<Longrightarrow> EstimateField abi p = EstimateField_ir abi f"
  using assembled_entries [of f p]
  by (simp add: EstimateField_def EstimateField_ir_def AddStringLayout_same comp_def)

lemma map_all2: "list_all2 R xs ys \<Longrightarrow> (\<And>x y. R x y \<Longrightarrow> g y = h x) \<Longrightarrow> map g ys = map h xs"
  by (induction rule: list_all2_induct) auto

lemma add_array_all2: "list_all2 R xs ys \<Longrightarrow> add_array abi ty ys category = add_array abi ty xs category"
  using list_all2_lengthD [of R xs ys] by (simp add: add_array_def)

lemma EstimateMessage_same:
  assumes "assembled_message m p"
  shows "EstimateMessage abi p = EstimateMessage_ir abi m"
proof -
  note parts = assembled_parts [OF assms]
  have "map (EstimateField abi) (ms_fields p) = map (EstimateField_ir abi) (mi_fields m)"
    by (rule map_all2 [OF parts(10) EstimateField_same])
  then show ?thesis
    using add_array_all2 [OF parts(10)]
    by (simp add: EstimateMessage_def EstimateMessage_ir_def AddStringLayout_same parts(1,2,4,5) AssembleMatcher_def
        AssembleContainer_def comp_def)
qed

lemma conversion_count_Some:
  assumes "conversion_count schema = Some n"
  shows "n = length (filter (\<lambda>c. c \<noteq> None) (map fd_conversion (concat (map mi_fields (sc_messages schema)))))"
proof -
  have none: "fold (\<lambda>field subtotal. if fd_conversion field = None then subtotal else Option.bind subtotal (AddSizeChecked 1)) fs None = None"
    for fs by (induction fs) simp_all
  have "n = k + length (filter (\<lambda>c. c \<noteq> None) (map fd_conversion fs))"
    if "fold (\<lambda>field subtotal. if fd_conversion field = None then subtotal else Option.bind subtotal (AddSizeChecked 1)) fs
      (Some k) = Some n" for fs k
    using that
  proof (induction fs arbitrary: k)
    case (Cons f fs)
    show ?case
    proof (cases "fd_conversion f = None")
      case False
      then have "AddSizeChecked 1 k = Some (k + 1)"
        using Cons.prems none [of fs] by (simp add: AddSizeChecked_def split: if_splits)
      then show ?thesis using Cons.prems Cons.IH [of "k + 1"] False by simp
    qed (use Cons in simp)
  qed simp
  from this [of "concat (map mi_fields (sc_messages schema))" 0] show ?thesis using assms by (simp add: conversion_count_def)
qed

end
