(* ===== verification/Compiler_Exact.thy ===== *)
theory Compiler_Exact
  imports Compiler_Assembled
begin

text \<open>
  The estimate that the compiler approved is the estimate of the plan builder: the lists the builder prepares for
  an assembled draft have the lengths the compiler counted.
\<close>

section \<open>Messages\<close>

text \<open>The keys of the fixed bytes are the offsets the compiler counts.\<close>

lemma EnterBytes_offsets:
  "EnterBytes offset bytes fixed = Some fixed' \<Longrightarrow> fst ` set fixed' = fst ` set fixed \<union> {offset..<offset + length bytes}"
proof (induction bytes arbitrary: offset fixed)
  case (Cons byte bytes)
  have split: "{offset..<offset + length (byte # bytes)} = insert offset {offset + 1..<offset + 1 + length bytes}" by auto
  show ?case
  proof (cases "map_of fixed offset")
    case None
    then show ?thesis using Cons.prems Cons.IH [of "offset + 1" "map_put offset byte fixed"] unfolding split by (auto simp del: set_upt)
  next
    case (Some known)
    then have "offset \<in> fst ` set fixed" by (metis domI dom_map_of_conv_image_fst)
    then show ?thesis using Some Cons.prems Cons.IH [of "offset + 1" fixed] unfolding split by (auto split: if_splits)
  qed
qed simp

definition matcher_offsets :: "MatcherPlan \<Rightarrow> nat set" where
  "matcher_offsets matcher = (if mp_kind matcher = MK_FIXED_BYTES
     then {mp_byte_offset matcher..<mp_byte_offset matcher + length (mp_bytes matcher)} else {})"

lemma matchers_offsets:
  assumes "each (PrepareMatcher k n bounded) 0 ms [] = Inr fixed"
  shows "fst ` set fixed = (\<Union>matcher \<in> set ms. matcher_offsets matcher)"
proof -
  define P where "P j t \<longleftrightarrow> fst ` set t = (\<Union>matcher \<in> set (take j ms). matcher_offsets matcher)"
    for j :: nat and t :: "(nat \<times> u8) list"
  have "P (length ms) fixed"
  proof (rule each_invariant [OF assms])
    show "P 0 []" by (simp add: P_def)
    show "P (Suc j) t'" if "j < length ms" "PrepareMatcher k n bounded (0 + j) (ms ! j) t = Inr t'" "P j t" for j t t'
    proof (cases "mp_kind (ms ! j)")
      case MK_FRAME_LENGTH_EQUALS
      then show ?thesis
        using that by (auto simp: P_def PrepareMatcher_def Let_def matcher_offsets_def take_Suc_conv_app_nth split: if_splits)
    next
      case MK_FIXED_BYTES
      then have "EnterBytes (mp_byte_offset (ms ! j)) (mp_bytes (ms ! j)) t = Some t'"
        using that(2) by (auto simp: PrepareMatcher_def Let_def split: if_splits option.splits)
      then show ?thesis
        using MK_FIXED_BYTES that(1,3) by (auto simp: P_def EnterBytes_offsets matcher_offsets_def take_Suc_conv_app_nth)
    qed
  qed
  then show ?thesis by (simp add: P_def)
qed

lemma fixed_counted:
  assumes "each (PrepareMatcher k n bounded) 0 (map AssembleMatcher clauses) [] = Inr fixed" "mi_matcher_clauses m = clauses"
  shows "length fixed = length (fixed_byte_offsets m)"
proof -
  have one: "set (if mc_kind c \<noteq> MK_FIXED_BYTES then [] else map (\<lambda>i. mc_byte_offset c + i) [0..<length (mc_bytes c)]) =
      matcher_offsets (AssembleMatcher c)" for c
    by (cases "mc_kind c") (simp_all add: matcher_offsets_def AssembleMatcher_def add.commute)
  have offsets: "set (fixed_byte_offsets m) = (\<Union>matcher \<in> set (map AssembleMatcher clauses). matcher_offsets matcher)"
    unfolding fixed_byte_offsets_def assms(2) set_remdups set_concat set_map image_image one ..
  have "distinct (map fst fixed)" using matchers_loop(1) [OF assms(1)] strict_sorted_iff by blast
  then have "length fixed = card (fst ` set fixed)" by (metis distinct_card length_map list.set_map)
  also have "\<dots> = length (fixed_byte_offsets m)"
    unfolding matchers_offsets [OF assms(1)] offsets [symmetric]
    by (rule distinct_card) (simp add: fixed_byte_offsets_def)
  finally show ?thesis .
qed

text \<open>The tables of the enumerations.\<close>

lemma enum_tables:
  assumes "each (PrepareField version conversions k message n) 0 (ms_fields message) (fields_start message intervals counts) = Inr s"
  shows "length (st_enum_raw_values s) = sum_list (map (length \<circ> enum_entries) (ms_fields message))"
    "length (st_enum_lookup_entries s) = sum_list (map (length \<circ> enum_entries) (ms_fields message))"
proof -
  define P where "P j t \<longleftrightarrow> length (st_enum_raw_values t) = sum_list (map (length \<circ> enum_entries) (take j (ms_fields message))) \<and>
      length (st_enum_lookup_entries t) = sum_list (map (length \<circ> enum_entries) (take j (ms_fields message)))"
    for j :: nat and t :: FieldsState
  have "P (length (ms_fields message)) s"
  proof (rule each_invariant [OF assms])
    show "P 0 (fields_start message intervals counts)" by (simp add: P_def fields_start_def Let_def)
    show "P (Suc j) t'" if j: "j < length (ms_fields message)"
      and step: "PrepareField version conversions k message n (0 + j) (ms_fields message ! j) t = Inr t'" and prior: "P j t" for j t t'
      using step
    proof (cases rule: PrepareField_accepted)
      case (1 e shift mask count)
      then show ?thesis using prior j by (simp add: P_def take_Suc_conv_app_nth entry_lookup_def)
    qed
  qed
  then show "length (st_enum_raw_values s) = sum_list (map (length \<circ> enum_entries) (ms_fields message))"
    "length (st_enum_lookup_entries s) = sum_list (map (length \<circ> enum_entries) (ms_fields message))"
    by (simp_all add: P_def)
qed

text \<open>What the stage that reads the document guarantees: only enumerations have entries.\<close>

definition enum_only :: "MessageIr \<Rightarrow> bool" where
  "enum_only m \<longleftrightarrow> list_all (\<lambda>f. fd_value_type f \<noteq> VT_ENUM \<longrightarrow> fd_enum_entries f = []) (mi_fields m)"

lemma entries_counted:
  assumes "assembled_message m p" "enum_only m"
  shows "sum_list (map (length \<circ> enum_entries) (ms_fields p)) = sum_list (map (\<lambda>f. length (fd_enum_entries f)) (mi_fields m))"
proof -
  have "list_all2 assembled_field (mi_fields m) (ms_fields p)" by (rule assembled_parts(10) [OF assms(1)])
  moreover have "list_all (\<lambda>f. fd_value_type f \<noteq> VT_ENUM \<longrightarrow> fd_enum_entries f = []) (mi_fields m)"
    using assms(2) by (simp add: enum_only_def)
  ultimately have "map (length \<circ> enum_entries) (ms_fields p) = map (\<lambda>f. length (fd_enum_entries f)) (mi_fields m)"
    by (induction rule: list_all2_induct) (auto simp: enum_entries_def assembled_entries)
  then show ?thesis by simp
qed

lemma EstimateTextAction_same:
  "EstimateTextAction abi (map_option AssembleAction action) = EstimateTextAction_ir abi action"
proof -
  have table: "length (prefix_table_of pat) = length pat" for pat
    using BuildPrefixTable_border [of pat] by (auto simp: prefix_table_of_def border_table_def)
  then have "add_array abi ty (prefix_table_of pat) category = add_array abi ty pat category" for ty pat category
    by (simp add: add_array_def)
  then show ?thesis
    by (cases action) (simp_all add: EstimateTextAction_def EstimateTextAction_ir_def AssembleAction_def AssembleSegment_def comp_def)
qed

lemma steps_five: "steps [a, b, c, d, e, Some, Some] = steps [a, b, c, d, e]"
  using steps_append [of "[a, b, c, d, e]" "[Some, Some]"] by (simp add: fun_eq_iff split: Option.bind_split)

lemma EstimateMessageExecution_same:
  assumes m: "assembled_message m p" "enum_only m"
    and prepared: "prepared_as version limit conversions k p plan slots"
  shows "EstimateMessageExecution abi plan = EstimateMessageExecution_ir abi m"
proof (cases "mi_ascii_text m")
  case None
  note parts = assembled_parts [OF m(1)]
  obtain counts counts' where binary: "PrepareBinaryMessage version limit conversions k p (ms_frame_length_bytes p) counts =
      Inr (plan, slots, counts')"
    using prepared by (auto simp: prepared_as_def parts None)
  then show ?thesis
  proof (cases rule: PrepareBinaryMessage_accepted)
    case (1 container_ids intervals s fixed)
    have plan: "me_fixed_bytes plan = map (\<lambda>(offset, v). \<lparr>fb_offset = offset, fb_value = v\<rparr>) fixed"
      "me_fields plan = st_fields s" "me_enum_raw_values plan = st_enum_raw_values s"
      "me_enum_lookup_entries plan = st_enum_lookup_entries s" "me_text_decode plan = None" "me_text_encode plan = None"
      by (subst 1(8), simp add: no_message_execution_def)+
    have "each (PrepareMatcher k (ms_frame_length_bytes p) (ms_bounded_payload p)) 0 (map AssembleMatcher (mi_matcher_clauses m)) [] = Inr fixed"
      using 1(7) by (auto simp: PrepareFixed_def accepted parts(4))
    then have lengths: "length (me_fixed_bytes plan) = length (fixed_byte_offsets m)"
      "length (me_bit_containers plan) = length (mi_bit_containers m)" "length (me_fields plan) = length (mi_fields m)"
      using containers_loop(1) [OF 1(2)] fields_loop [OF 1(3)] list_all2_lengthD [OF parts(10)]
      by (simp_all add: plan fixed_counted fields_done_def parts(5))
    have "length (me_enum_raw_values plan) = sum_list (map (\<lambda>f. length (fd_enum_entries f)) (mi_fields m))"
      "length (me_enum_lookup_entries plan) = sum_list (map (\<lambda>f. length (fd_enum_entries f)) (mi_fields m))"
      using enum_tables [OF 1(3)] entries_counted [OF m] by (simp_all add: plan)
    then show ?thesis
      using lengths by (simp add: EstimateMessageExecution_def EstimateMessageExecution_ir_def None add_array_def
          plan EstimateTextAction_def [of _ None] steps_five Let_def)
  qed
next
  case (Some layout)
  note parts = assembled_parts [OF m(1)]
  have text_message: "PrepareTextMessage version k p (AssembleText layout) (ms_frame_length_bytes p) = Inr plan"
    using prepared by (simp add: prepared_as_def parts Some)
  have refused: "mi_matcher_clauses m = []" "mi_bit_containers m = []"
    using text_message by (auto simp: PrepareTextMessage_def accepted parts)
  have plan: "me_enum_raw_values plan = []" "me_enum_lookup_entries plan = []" "me_bit_containers plan = []"
    using text_message
    by (auto simp: PrepareTextMessage_def accepted no_message_execution_def split: option.splits)
  from text_message obtain decode_fields decode_count encode_fields encode_count r where
      fields: "each (PrepareTextField k decode_fields encode_fields) 0 (ms_fields p) ([], 0, []) = Inr r"
    by (auto simp: PrepareTextMessage_def accepted split: option.splits)
  have "fl_value_type (ms_fields p ! j) = VT_BYTES" if j: "j < length (ms_fields p)" for j
  proof -
    obtain t t' where "PrepareTextField k decode_fields encode_fields (0 + j) (ms_fields p ! j) t = Inr t'"
      using each_turn [OF fields j] by blast
    then show ?thesis unfolding PrepareTextField_def by (cases t) (simp del: upt_rec_numeral split: if_splits)
  qed
  then have "\<forall>f \<in> set (ms_fields p). enum_entries f = []" by (auto simp: in_set_conv_nth enum_entries_def)
  then have none: "sum_list (map (\<lambda>f. length (fd_enum_entries f)) (mi_fields m)) = 0"
    unfolding entries_counted [OF m, symmetric] by simp
  have "length (me_fields plan) = length (mi_fields m)"
    using text_message by (rule text_facts) (simp add: list_all2_lengthD [OF parts(10)])
  moreover have "me_fixed_bytes plan = [] \<and> me_text_decode plan = at_decode (AssembleText layout) \<and>
      me_text_encode plan = at_encode (AssembleText layout)"
    using text_message by (rule text_facts) simp
  ultimately show ?thesis
    using none by (simp add: EstimateMessageExecution_def EstimateMessageExecution_ir_def Some add_array_def plan refused
        fixed_byte_offsets_def AssembleText_def EstimateTextAction_same Let_def del: sum_list_eq_0_iff)
qed

section \<open>Pipelines\<close>

lemma sorted_map_unique:
  assumes "sorted_wrt (<) (map fst a)" "sorted_wrt (<) (map fst b)" "map_of a = map_of (b :: (nat \<times> 'v) list)"
  shows "a = b"
proof -
  have distinct: "distinct (map fst a)" "distinct (map fst b)" using assms(1,2) strict_sorted_iff by blast+
  have keys: "map fst a = map fst b"
    by (rule strict_sorted_equal [OF assms(2,1)]) (metis assms(3) dom_map_of_conv_image_fst list.set_map)
  moreover have "map snd a = map snd b"
  proof (rule nth_equalityI)
    show "length (map snd a) = length (map snd b)" using keys by (metis length_map)
    show "map snd a ! i = map snd b ! i" if "i < length (map snd a)" for i
    proof -
      have i: "i < length a" "i < length b" using that keys by (simp, metis length_map)
      then have "fst (a ! i) = fst (b ! i)" using keys by (metis nth_map)
      moreover have "map_of a (fst (a ! i)) = Some (snd (a ! i))" "map_of b (fst (b ! i)) = Some (snd (b ! i))"
        using i distinct by (simp_all add: map_of_eq_Some_iff)
      ultimately show ?thesis using assms(3) i by simp
    qed
  qed
  ultimately show ?thesis by (rule pair_list_eqI)
qed

text \<open>A message and its descriptor fall into the same kind of candidates.\<close>

definition same_kind :: "MessageIr \<Rightarrow> MessageExecutionPlan \<Rightarrow> bool" where
  "same_kind m plan \<longleftrightarrow>
     (case mi_ascii_text m of
        Some layout \<Rightarrow> (me_text_decode plan \<noteq> None \<longleftrightarrow> al_decode layout \<noteq> None) \<and>
          (me_text_decode plan \<noteq> None \<or> me_text_encode plan \<noteq> None)
      | None \<Rightarrow> me_text_decode plan = None \<and> me_text_encode plan = None \<and>
          (me_bounded_payload plan \<noteq> None \<longleftrightarrow> mi_bounded_payload m \<noteq> None) \<and> me_frame_size plan = mi_frame_length_bytes m)"

definition has_action :: "MessageIr \<Rightarrow> bool" where
  "has_action m \<longleftrightarrow> (\<forall>layout. mi_ascii_text m = Some layout \<longrightarrow> al_decode layout \<noteq> None \<or> al_encode layout \<noteq> None)"

lemma prepared_same_kind:
  assumes "assembled_message m p" "has_action m" "prepared_as version limit conversions k p plan slots"
  shows "same_kind m plan"
proof (cases "mi_ascii_text m")
  case None
  note parts = assembled_parts [OF assms(1)]
  obtain counts counts' where "PrepareBinaryMessage version limit conversions k p (ms_frame_length_bytes p) counts =
      Inr (plan, slots, counts')"
    using assms(3) by (auto simp: prepared_as_def parts None)
  then show ?thesis
  proof (cases rule: PrepareBinaryMessage_accepted)
    case (1 container_ids intervals s fixed)
    have "me_text_decode plan = None" "me_text_encode plan = None" "me_bounded_payload plan = ms_bounded_payload p"
      "me_frame_size plan = ms_frame_length_bytes p"
      by (subst 1(8), simp add: no_message_execution_def)+
    then show ?thesis by (simp add: same_kind_def None parts)
  qed
next
  case (Some layout)
  note parts = assembled_parts [OF assms(1)]
  have "PrepareTextMessage version k p (AssembleText layout) (ms_frame_length_bytes p) = Inr plan"
    using assms(3) by (simp add: prepared_as_def parts Some)
  then have "me_text_decode plan = at_decode (AssembleText layout) \<and> me_text_encode plan = at_encode (AssembleText layout)"
    by (rule text_facts) simp
  then show ?thesis using assms(2) Some by (auto simp: same_kind_def AssembleText_def has_action_def)
qed

text \<open>What the compiler counts over the messages of a pipeline is the length of what the builder collects.\<close>

lemma candidates_counted:
  assumes "\<forall>i \<in> set indices. same_kind (messages ! i) (plans ! i)"
  shows "\<exists>groups. fold (count_candidate messages) indices ([], 0, 0) =
      (groups, length (filter (\<lambda>i. variable_kind (plans ! i)) indices),
       length (filter (\<lambda>i. me_text_decode (plans ! i) \<noteq> None) indices)) \<and>
     sorted_wrt (<) (map fst groups) \<and>
     (\<forall>n. map_of groups n = (if sized plans n indices = [] then None else Some (length (sized plans n indices))))"
  using assms
proof (induction indices rule: rev_induct)
  case Nil
  then show ?case by (simp add: sized_def)
next
  case (snoc i indices)
  then obtain groups where prior: "fold (count_candidate messages) indices ([], 0, 0) =
      (groups, length (filter (\<lambda>i. variable_kind (plans ! i)) indices),
       length (filter (\<lambda>i. me_text_decode (plans ! i) \<noteq> None) indices))" "sorted_wrt (<) (map fst groups)"
     "\<forall>n. map_of groups n = (if sized plans n indices = [] then None else Some (length (sized plans n indices)))"
    by auto
  have kind: "same_kind (messages ! i) (plans ! i)" using snoc.prems by simp
  show ?case
  proof (cases "mi_ascii_text (messages ! i)")
    case (Some layout)
    then have "\<not> fixed_kind (plans ! i)" "\<not> variable_kind (plans ! i)" "me_text_decode (plans ! i) \<noteq> None \<longleftrightarrow> al_decode layout \<noteq> None"
      using kind by (auto simp: same_kind_def fixed_kind_def variable_kind_def)
    moreover have "count_candidate messages i (groups, v, t) =
        (groups, v, if al_decode layout \<noteq> None then t + 1 else t)" for v t
      by (simp add: count_candidate_def Some)
    ultimately show ?thesis using prior by (auto simp: sized_def)
  next
    case None
    then have texts: "me_text_decode (plans ! i) = None" "me_text_encode (plans ! i) = None"
        "me_frame_size (plans ! i) = mi_frame_length_bytes (messages ! i)"
        "me_bounded_payload (plans ! i) \<noteq> None \<longleftrightarrow> mi_bounded_payload (messages ! i) \<noteq> None"
      using kind by (simp_all add: same_kind_def)
    show ?thesis
    proof (cases "mi_bounded_payload (messages ! i)")
      case (Some b)
      then have "\<not> fixed_kind (plans ! i)" "variable_kind (plans ! i)" using texts by (auto simp: fixed_kind_def variable_kind_def)
      moreover have "count_candidate messages i (groups, v, t) = (groups, v + 1, t)" for v t
        by (simp add: count_candidate_def Some None)
      ultimately show ?thesis using prior texts by (simp add: sized_def)
    next
      case none: None
      then have fixed: "fixed_kind (plans ! i)" "\<not> variable_kind (plans ! i)" using texts by (auto simp: fixed_kind_def variable_kind_def)
      let ?n = "mi_frame_length_bytes (messages ! i)"
      have "sized plans n (indices @ [i]) = (if n = ?n then sized plans n indices @ [i] else sized plans n indices)" for n
        using fixed texts by (simp add: sized_def)
      moreover have "count_candidate messages i (groups, v, t) =
          (map_put ?n (case map_of groups ?n of None \<Rightarrow> 1 | Some count \<Rightarrow> count + 1) groups, v, t)" for v t
        by (simp add: count_candidate_def none None Let_def)
      ultimately show ?thesis using prior texts fixed by (simp add: if_distrib [of length])
    qed
  qed
qed

lemma words_counted:
  assumes "each (PipelineMessage messages plans framing_plan k pipeline) 0 indices start = Inr s"
  shows "length (ps_allowed_message_words s) = length (ps_allowed_message_words start)"
  by (rule each_invariant [OF assms, of "\<lambda>j t. length (ps_allowed_message_words t) = length (ps_allowed_message_words start)"])
    (auto simp: PipelineMessage_def SortCandidate_def Let_def split: if_splits option.splits)

lemma PreparePipeline_words:
  assumes "PreparePipeline messages plans framings k pipeline (ids, done_pipelines) = Inr (ids', t)"
  shows "length (pe_allowed_message_words (last t)) = allowed_word_count (length messages)"
  using assms by (auto simp: PreparePipeline_def accepted Let_def dest!: words_counted)

lemma pipelines_words:
  assumes "each (PreparePipeline messages plans framings) 0 pipelines ([], []) = Inr (ids, executions)"
  shows "\<forall>e \<in> set executions. length (pe_allowed_message_words e) = allowed_word_count (length messages)"
proof -
  define P where "P j t \<longleftrightarrow> (\<forall>e \<in> set (snd t). length (pe_allowed_message_words e) = allowed_word_count (length messages))"
    for j :: nat and t :: "string list \<times> PipelineExecutionPlan list"
  have "P (length pipelines) (ids, executions)"
  proof (rule each_invariant [OF assms])
    show "P 0 ([], [])" by (simp add: P_def)
    show "P (Suc j) t'" if step: "PreparePipeline messages plans framings (0 + j) (pipelines ! j) t = Inr t'" and "P j t" for j t t'
    proof -
      obtain ids done_pipelines ids' executions' where t: "t = (ids, done_pipelines)" "t' = (ids', executions')"
        by (metis surj_pair)
      note words = PreparePipeline_words [OF step [unfolded t]]
      from step [unfolded t] show ?thesis
      proof (cases rule: PreparePipeline_accepted)
        case (1 s execution)
        then show ?thesis using words that(2) by (auto simp: P_def t)
      qed
    qed
  qed
  then show ?thesis by (simp add: P_def)
qed

lemma EstimatePipelineExecution_same:
  assumes prepared: "pipeline_prepared messages plans framings pipeline execution"
    and words: "length (pe_allowed_message_words execution) = allowed_word_count (length ms)"
    and kinds: "\<forall>i \<in> set (pl_message_indices pipeline). same_kind (ms ! i) (plans ! i)"
    and indices: "rp_message_indices resolved = pl_message_indices pipeline"
  shows "EstimatePipelineExecution abi execution = EstimatePipelineExecution_ir abi ms resolved"
proof -
  let ?indices = "pl_message_indices pipeline"
  obtain s where s: "sorted_in plans ?indices s"
      "pe_candidate_groups execution = map (\<lambda>(n, indices). \<lparr>cg_frame_size = n, cg_message_indices = indices\<rparr>) (ps_candidate_groups s)"
      "pe_variable_message_indices execution = ps_variable_message_indices s"
      "pe_text_message_indices execution = ps_text_message_indices s"
    using prepared by (auto simp: pipeline_prepared_def pipeline_done_def Let_def)
  obtain groups where groups: "fold (count_candidate ms) ?indices ([], 0, 0) =
      (groups, length (filter (\<lambda>i. variable_kind (plans ! i)) ?indices),
       length (filter (\<lambda>i. me_text_decode (plans ! i) \<noteq> None) ?indices))" "sorted_wrt (<) (map fst groups)"
     "\<forall>n. map_of groups n = (if sized plans n ?indices = [] then None else Some (length (sized plans n ?indices)))"
    using candidates_counted [OF kinds] by blast
  have "map (\<lambda>(n, g). (n, length g)) (ps_candidate_groups s) = groups"
  proof (rule sorted_map_unique [OF _ groups(2)])
    show "sorted_wrt (<) (map fst (map (\<lambda>(n, g). (n, length g)) (ps_candidate_groups s)))"
      using s(1) by (simp add: sorted_in_def comp_def case_prod_beta)
    show "map_of (map (\<lambda>(n, g). (n, length g)) (ps_candidate_groups s)) = map_of groups"
      using s(1) groups(3) by (auto simp: fun_eq_iff map_of_map sorted_in_def)
  qed
  then have "map (\<lambda>(frame_length, message_count). AddArray (abi_max_align abi) (abi_size_t abi) message_count PC_INDEX) groups =
      map (\<lambda>g. add_array abi (abi_size_t abi) (cg_message_indices g) PC_INDEX) (pe_candidate_groups execution)"
    "length groups = length (pe_candidate_groups execution)"
    by (auto simp: s(2) add_array_def)
  then show ?thesis
    using groups(1) words s(1)
    by (simp add: EstimatePipelineExecution_def EstimatePipelineExecution_ir_def indices Let_def add_array_def s(3,4)
        sorted_in_def allowed_word_count_def kBitsPerAllowedMessageWord_def)
qed

end
