(* ===== verification/Plan_Boundary.thy ===== *)
theory Plan_Boundary
  imports Plan_Sound
begin

text \<open>
  The proof of a CR LF boundary, \<^verbatim>\<open>ProveAsciiCrLfBoundary\<close>, means what it says: a record of an action
  that passed it has its only CR LF at its end, so a CR LF framed stream of such records is cut into them.
\<close>

section \<open>The two states\<close>

text \<open>A set of states admits a text that ends, or does not end, with a CR.\<close>

definition ends_cr :: "u8 list \<Rightarrow> bool" where
  "ends_cr bytes \<longleftrightarrow> bytes \<noteq> [] \<and> last bytes = 0x0D"

definition admits :: "u8 \<Rightarrow> bool \<Rightarrow> bool" where
  "admits states cr \<longleftrightarrow> states AND (if cr then 2 else 1) \<noteq> 0"

lemma admits_simps [simp]:
  "admits 1 cr \<longleftrightarrow> \<not> cr" "admits 2 cr \<longleftrightarrow> cr" "admits (l OR r) cr \<longleftrightarrow> admits l cr \<or> admits r cr"
  "admits (if byte = 0x0D then 2 else 1) cr \<longleftrightarrow> cr = (byte = 0x0D)"
  by (auto simp: admits_def bit.conj_disj_distrib2 or_eq_0_iff)

text \<open>What the walk keeps of the text read so far.\<close>

definition clean :: "u8 \<Rightarrow> u8 list \<Rightarrow> bool" where
  "clean states bytes \<longleftrightarrow> crlf_free bytes \<and> admits states (ends_cr bytes)"

lemma ends_cr_snoc [simp]: "ends_cr (bytes @ [b]) \<longleftrightarrow> b = 0x0D"
  by (simp add: ends_cr_def)

lemma crlf_free_byte: "crlf_free bytes \<Longrightarrow> crlf_free (bytes @ [b]) \<longleftrightarrow> \<not> (ends_cr bytes \<and> b = 0x0A)"
proof -
  have "suffix [0x0D, 0x0A] (bytes @ [b]) \<longleftrightarrow> ends_cr bytes \<and> b = 0x0A"
    by (cases bytes rule: rev_cases) (auto simp: suffix_def ends_cr_def)
  then show "crlf_free bytes \<Longrightarrow> crlf_free (bytes @ [b]) \<longleftrightarrow> \<not> (ends_cr bytes \<and> b = 0x0A)" by (simp add: crlf_free_snoc)
qed

lemma clean_byte: "clean states bytes \<Longrightarrow> \<not> (admits states True \<and> b = 0x0A) \<Longrightarrow> admits result (b = 0x0D) \<Longrightarrow> clean result (bytes @ [b])"
  by (auto simp: clean_def crlf_free_byte)

lemma clean_more: "clean states bytes \<Longrightarrow> clean (other OR states) bytes"
  by (simp add: clean_def)

section \<open>Literals\<close>

lemma literal_clean:
  "literal_states bs states = Some states' \<Longrightarrow> clean states bytes \<Longrightarrow> clean states' (bytes @ bs)"
proof (induction bs arbitrary: states bytes)
  case (Cons b bs)
  obtain s where s: "AdvanceCrLfByte states b = Some s" "literal_states bs s = Some states'"
    using Cons.prems(1) by (auto split: option.splits)
  have "clean s (bytes @ [b])"
    using s(1) by (intro clean_byte [OF Cons.prems(2)]) (auto simp: AdvanceCrLfByte_def admits_def split: if_splits)
  from Cons.IH [OF s(2) this] show ?case by simp
qed simp

section \<open>Fields\<close>

lemma crlf_turns:
  assumes "fold (\<lambda>v. crlf_turn states field (of_nat v)) vs (Some start) = Some out"
  shows "(\<forall>cr. admits start cr \<longrightarrow> admits out cr) \<and>
    (\<forall>v \<in> set vs. FieldAllowsAscii field (of_nat v) \<longrightarrow>
       \<not> (admits states True \<and> of_nat v = (0x0A :: u8)) \<and>
       (states AND 1 \<noteq> 0 \<or> states AND 2 \<noteq> 0 \<longrightarrow> admits out (of_nat v = (0x0D :: u8))))"
  using assms
proof (induction vs arbitrary: start)
  case (Cons v vs)
  have stuck: "fold (\<lambda>v. crlf_turn states field (of_nat v)) xs None = None" for xs
    by (induction xs) (simp_all add: crlf_turn_def)
  obtain next_start where turn: "crlf_turn states field (of_nat v) (Some start) = Some next_start"
    "fold (\<lambda>v. crlf_turn states field (of_nat v)) vs (Some next_start) = Some out"
    using Cons.prems stuck by (cases "crlf_turn states field (of_nat v) (Some start)") auto
  have now: "(\<forall>cr. admits start cr \<longrightarrow> admits next_start cr) \<and>
      (FieldAllowsAscii field (of_nat v) \<longrightarrow> \<not> (admits states True \<and> of_nat v = (0x0A :: u8)) \<and>
         (states AND 1 \<noteq> 0 \<or> states AND 2 \<noteq> 0 \<longrightarrow> admits next_start (of_nat v = (0x0D :: u8))))"
    using turn(1) by (auto simp: crlf_turn_def Let_def admits_def [of states] split: if_splits)
  show ?case using Cons.IH [OF turn(2)] now by auto
qed simp

lemma states_clean:
  assumes "AdvanceCrLfStates states field = Some out" "clean states bytes" "FieldAllowsAscii field b" "b \<le> 0x7F"
  shows "clean out (bytes @ [b])"
proof -
  have b: "unat b \<in> set [0..<128]" "of_nat (unat b) = b"
    using assms(4) by (simp_all add: word_le_nat_alt)
  have "fold (\<lambda>v. crlf_turn states field (of_nat v)) [0..<128] (Some 0) = Some out"
    using assms(1) by (auto simp: AdvanceCrLfStates_def split: option.splits if_splits)
  note all = crlf_turns [OF this, THEN conjunct2, rule_format, OF b(1), unfolded b(2), OF assms(3)]
  have "states AND 1 \<noteq> 0 \<or> states AND 2 \<noteq> 0"
    using assms(2) by (auto simp: clean_def admits_def split: if_splits)
  then show ?thesis using all by (intro clean_byte [OF assms(2)]) simp_all
qed

text \<open>The states of a field that stay the same take any number of characters.\<close>

lemma fixpoint_clean:
  "AdvanceCrLfStates states field = Some states \<Longrightarrow> clean states bytes \<Longrightarrow>
   list_all (\<lambda>b. FieldAllowsAscii field b \<and> b \<le> 0x7F) bs \<Longrightarrow> clean states (bytes @ bs)"
proof (induction bs arbitrary: bytes)
  case (Cons b bs)
  have "clean states (bytes @ [b])" using states_clean [OF Cons.prems(1,2)] Cons.prems(3) by simp
  from Cons.IH [OF Cons.prems(1) this] Cons.prems(3) show ?case by simp
qed simp

lemma accepted_grows: "field_states field exact sofar count left = Some result \<Longrightarrow> clean sofar bytes \<Longrightarrow> clean result bytes"
  by (induction field exact sofar count left rule: field_states.induct)
    (auto simp: clean_def Let_def split: option.splits if_splits)

lemma field_clean:
  "field_states field exact sofar count left = Some result \<Longrightarrow> clean exact bytes \<Longrightarrow>
   list_all (\<lambda>b. FieldAllowsAscii field b \<and> b \<le> 0x7F) bs \<Longrightarrow> length bs \<le> left \<Longrightarrow>
   fl_text_min_length field \<le> count + length bs \<Longrightarrow> clean result (bytes @ bs)"
proof (induction field exact sofar count left arbitrary: bytes bs rule: field_states.induct)
  case (1 field exact sofar count)
  then show ?case by (auto intro: clean_more)
next
  case (2 field exact sofar count left)
  let ?sofar = "if count \<ge> fl_text_min_length field then sofar OR exact else sofar"
  obtain next_states where n: "AdvanceCrLfStates exact field = Some next_states"
    using "2.prems"(1) by (auto simp: Let_def split: option.splits)
  show ?case
  proof (cases "next_states = exact")
    case True
    then have "clean exact (bytes @ bs)" using n "2.prems"(2,3) by (intro fixpoint_clean) simp_all
    moreover have "result = ?sofar OR exact" using "2.prems"(1) n True by (simp add: Let_def)
    ultimately show ?thesis by (simp add: clean_more)
  next
    case False
    then have rest: "field_states field next_states ?sofar (count + 1) left = Some result"
      using "2.prems"(1) n by (simp add: Let_def)
    show ?thesis
    proof (cases bs)
      case Nil
      then have "clean ?sofar bytes" using "2.prems"(2,5) by (simp add: clean_more)
      then show ?thesis using accepted_grows [OF rest] Nil by simp
    next
      case (Cons b bs')
      have "clean next_states (bytes @ [b])" using states_clean [OF n "2.prems"(2)] "2.prems"(3) Cons by simp
      from "2.IH" [OF refl n False rest this, of bs'] show ?thesis using "2.prems"(3-5) Cons by simp
    qed
  qed
qed

section \<open>Records\<close>

text \<open>The descriptors of the fields stand for the fields.\<close>

definition text_classes_as :: "FieldPlan list \<Rightarrow> MessageExecutionPlan \<Rightarrow> bool" where
  "text_classes_as fs m \<longleftrightarrow> text_lengths_as fs m \<and>
     (\<forall>i < length fs. fe_allowed_ascii_low (me_fields m ! i) = fl_allowed_ascii_low (fs ! i) \<and>
        fe_allowed_ascii_high (me_fields m ! i) = fl_allowed_ascii_high (fs ! i))"

lemma allowed_field:
  assumes "text_classes_as fs m" "i < length fs" "list_all (IsAllowedAscii (me_fields m ! i)) bs"
  shows "list_all (\<lambda>b. FieldAllowsAscii (fs ! i) b \<and> b \<le> 0x7F) bs"
  using assms(3)
  by (rule list.pred_mono_strong)
    (use assms(1,2) in \<open>auto simp: IsAllowedAscii_def FieldAllowsAscii_def text_classes_as_def Let_def not_less split: if_splits\<close>)

text \<open>What precedes the terminator of a record whose segments passed.\<close>

lemma segments_clean:
  "boundary_segments fs segments states \<Longrightarrow> clean states bytes \<Longrightarrow> text_classes_as fs m \<Longrightarrow> segments \<noteq> [] \<Longrightarrow>
   tsp_kind (last segments) = TS_LITERAL \<Longrightarrow> 2 \<le> length (tsp_literal (last segments)) \<Longrightarrow>
   text_pieces m segments ps \<Longrightarrow> pieces_allowed m segments ps \<Longrightarrow>
   crlf_free (bytes @ take (length (concat ps) - 2) (concat ps))"
proof (induction fs segments states arbitrary: bytes ps rule: boundary_segments.induct)
  case (2 fs segment following states)
  obtain p qs where ps: "ps = p # qs" "text_pieces m following qs" "pieces_allowed m following qs"
    using "2.prems"(7,8) by (cases ps) auto
  show ?case
  proof (cases "following = []")
    case True
    then have p: "tsp_kind segment = TS_LITERAL" "p = tsp_literal segment" "qs = []"
      using "2.prems"(5,7) ps by auto
    obtain states' where s: "literal_states (take (length p - 2) p) states = Some states'"
      using "2.prems"(1) True p by (auto split: option.splits)
    show ?thesis using literal_clean [OF s "2.prems"(2)] by (simp add: ps(1) p(3) clean_def)
  next
    case False
    have tail: "length (concat qs) \<ge> 2"
    proof -
      obtain front final where f: "following = front @ [final]" using False by (cases following rule: rev_cases) auto
      have "text_pieces m (xs @ [final]) qs \<Longrightarrow> tsp_kind final = TS_LITERAL \<Longrightarrow> length (tsp_literal final) \<le> length (concat qs)" for xs qs
      proof (induction xs arbitrary: qs)
        case Nil
        then show ?case by (cases qs) auto
      next
        case (Cons x xs)
        then show ?case by (cases qs) (auto intro: trans_le_add2)
      qed
      then show ?thesis using "2.prems"(5,6) ps(2) f by fastforce
    qed
    have cut: "take (length (concat ps) - 2) (concat ps) = p @ take (length (concat qs) - 2) (concat qs)"
      using tail by (simp add: ps(1))
    have final: "tsp_kind (last following) = TS_LITERAL" "2 \<le> length (tsp_literal (last following))"
      using "2.prems"(5,6) False by simp_all
    show ?thesis
    proof (cases "tsp_kind segment = TS_LITERAL")
      case True
      then obtain states' where s: "literal_states p states = Some states'" "boundary_segments fs following states'"
        using "2.prems"(1,7) False ps(1) by (auto split: option.splits)
      from "2.IH"(1) [OF True _ s(2) literal_clean [OF s(1) "2.prems"(2)] "2.prems"(3) False final ps(2,3)]
      have "crlf_free ((bytes @ p) @ take (length (concat qs) - 2) (concat qs))"
        using True False s(1) "2.prems"(7) ps(1) by simp
      then show ?thesis unfolding cut by simp
    next
      case field: False
      let ?i = "tsp_field_index segment"
      let ?field = "fs ! ?i"
      obtain sofar where a: "?i < length fs" "field_states ?field states 0 0 (fl_text_max_length ?field) = Some sofar"
          "sofar \<noteq> 0" "boundary_segments fs following sofar"
        using "2.prems"(1) field by (auto simp: Let_def not_le split: option.splits if_splits)
      have piece: "fl_text_min_length ?field \<le> length p" "length p \<le> fl_text_max_length ?field"
        "list_all (IsAllowedAscii (me_fields m ! ?i)) p"
        using "2.prems"(3,7,8) field ps(1) a(1) by (auto simp: text_classes_as_def text_lengths_as_def field_piece_def)
      have "clean sofar (bytes @ p)"
        using field_clean [OF a(2) "2.prems"(2) allowed_field [OF "2.prems"(3) a(1) piece(3)]] piece(1,2) by simp
      from "2.IH"(2) [OF field _ refl a(2,3,4) this "2.prems"(3) False final ps(2,3)]
      show ?thesis using a(1) by (simp add: cut)
    qed
  qed
qed simp

text \<open>A record of an action that passed: its only CR LF is its end.\<close>

definition crlf_ended :: "u8 list \<Rightarrow> bool" where
  "crlf_ended bytes \<longleftrightarrow> (\<exists>front. bytes = front @ [0x0D, 0x0A] \<and> crlf_free front)"

lemma final_piece:
  "text_pieces m (segments @ [final]) ps \<Longrightarrow> tsp_kind final = TS_LITERAL \<Longrightarrow> suffix (tsp_literal final) (concat ps)"
proof (induction segments arbitrary: ps)
  case Nil
  then show ?case by (cases ps) auto
next
  case (Cons segment segments)
  then show ?case by (cases ps) (auto intro: suffix_appendI)
qed

lemma boundary_record:
  assumes passed: "ProveAsciiCrLfBoundary action fs" and fields_of: "text_classes_as fs m"
    and pieces: "text_pieces m (tap_segments action) ps" "pieces_allowed m (tap_segments action) ps"
  shows "crlf_ended (concat ps)"
proof -
  let ?final = "last (tap_segments action)" and ?r = "concat ps"
  have action: "tap_segments action \<noteq> []" "tsp_kind ?final = TS_LITERAL" "2 \<le> length (tsp_literal ?final)"
    "tsp_literal ?final ! (length (tsp_literal ?final) - 2) = 0x0D" "last (tsp_literal ?final) = 0x0A"
    "boundary_segments fs (tap_segments action) 1"
    using passed by (auto simp: ProveAsciiCrLfBoundary_def Let_def not_less split: if_splits)
  have "\<exists>x. tsp_literal ?final = x @ [0x0D, 0x0A]"
    using action(3,4,5) by (cases "tsp_literal ?final" rule: rev_cases; cases "butlast (tsp_literal ?final)" rule: rev_cases)
      (auto simp: nth_append)
  moreover have "suffix (tsp_literal ?final) ?r"
    using final_piece [of m "butlast (tap_segments action)" ?final ps] pieces(1) action(1,2) by simp
  ultimately obtain front where front: "?r = front @ [0x0D, 0x0A]" by (auto simp: suffix_def)
  have "crlf_free ([] @ take (length ?r - 2) ?r)"
    by (rule segments_clean [OF action(6) _ fields_of action(1-3) pieces]) (simp add: clean_def crlf_free_def ends_cr_def)
  then show ?thesis using front by (auto simp: crlf_ended_def)
qed

text \<open>A stream of such records is cut into them.\<close>

lemma crlf_records_free: "crlf_free (t @ bytes) \<Longrightarrow> crlf_records t bytes = ([], t @ bytes)"
proof (induction bytes arbitrary: t)
  case (Cons b bytes)
  have "crlf_free (t @ [b])" using Cons.prems by (auto simp: crlf_free_def nth_append split: if_splits)
  moreover have "crlf_free t" using Cons.prems by (auto simp: crlf_free_def nth_append split: if_splits)
  ultimately have "\<not> suffix [0x0D, 0x0A] (t @ [b])" by (simp add: crlf_free_snoc)
  then show ?case using Cons.IH [of "t @ [b]"] Cons.prems by (simp del: suffix_snoc)
qed simp

lemma crlf_records_ended:
  assumes "crlf_ended r"
  shows "crlf_records [] r = ([r], [])"
proof -
  obtain front where front: "r = front @ [0x0D, 0x0A]" "crlf_free front" using assms by (auto simp: crlf_ended_def)
  have "\<not> suffix [0x0D, 0x0A] (front @ [0x0D])" by (simp add: suffix_def)
  then show ?thesis
    using crlf_records_append [of "[]" front "[0x0D, 0x0A]"] crlf_records_free [of "[]" front] front by (simp add: suffix_def)
qed

lemma crlf_records_stream:
  "list_all crlf_ended records \<Longrightarrow> crlf_records [] (concat records) = (records, [])"
  by (induction records) (simp_all add: crlf_records_append crlf_records_ended)

section \<open>Published plans\<close>

text \<open>The records the text decoder accepts on a pipeline.\<close>

definition text_record_of :: "PlanBundle \<Rightarrow> PipelineExecutionPlan \<Rightarrow> u8 list \<Rightarrow> bool" where
  "text_record_of plan pipeline record_bytes \<longleftrightarrow>
     (\<exists>i \<in> set (pe_text_message_indices pipeline). \<exists>action ps.
        me_text_decode (pb_message_execution_plans plan ! i) = Some action \<and>
        text_record (pb_message_execution_plans plan ! i) action record_bytes ps \<and>
        pieces_allowed (pb_message_execution_plans plan ! i) (tap_segments action) ps)"

lemma text_facts_classes:
  assumes "PrepareTextMessage version k message ascii n = Inr m"
  shows "text_classes_as (ms_fields message) m"
  using assms by (rule text_facts) (simp add: text_classes_as_def text_field_of_def)

lemma crlf_profile:
  assumes "AdmitFraming version limit f = Some (Inr out)" "fp_strategy f = FS_ASCII_CRLF"
  shows "fp_input_kind f = IK_STREAM_CHUNK"
  using assms by (cases "fp_input_kind f") (auto simp: AdmitFraming_def CompleteRecordFraming_def split: option.splits bool.splits if_splits)

lemma frozen_profiles:
  assumes "Freeze platform (Some draft) = Inr (plan, report)" "f \<in> set (pb_framing_profiles plan)"
  obtains out where "AdmitFraming (pb_schema_version plan) (GetResourceProfileLimits (dd_resource_profile draft)) f = Some (Inr out)"
  using assms(1)
proof (cases rule: Freeze_parts)
  case (1 s r ids)
  then show thesis using that framings_admitted [OF 1(1), of f] assms(2) by auto
qed

text \<open>A pipeline with a CR LF profile cuts a stream with it.\<close>

lemma frozen_crlf:
  assumes freeze: "Freeze platform (Some draft) = Inr (plan, report)" and k: "k < length (pb_pipelines plan)"
    and crlf: "fp_strategy (profile_of plan k) = FS_ASCII_CRLF"
  shows "pipeline_prepared (dd_messages draft) (pb_message_execution_plans plan) (pb_framing_profiles plan)
      (pb_pipelines plan ! k) (pb_pipeline_execution_plans plan ! k)"
    and "fp_input_kind (profile_of plan k) = IK_STREAM_CHUNK" "framing_ok (profile_of plan k)"
proof -
  obtain s0 r0 ids where parts: "pb_pipelines plan = dd_pipelines draft" "pb_framing_profiles plan = dd_framing_profiles draft"
    using freeze by (rule Freeze_parts)
  show pipeline: "pipeline_prepared (dd_messages draft) (pb_message_execution_plans plan) (pb_framing_profiles plan)
      (pb_pipelines plan ! k) (pb_pipeline_execution_plans plan ! k)"
    using frozen_pipeline(2) [OF freeze] k by (simp add: parts)
  have "profile_of plan k \<in> set (pb_framing_profiles plan)" using pipeline by (simp add: pipeline_prepared_def)
  with freeze obtain out where out:
    "AdmitFraming (pb_schema_version plan) (GetResourceProfileLimits (dd_resource_profile draft)) (profile_of plan k) = Some (Inr out)"
    by (rule frozen_profiles)
  show stream: "fp_input_kind (profile_of plan k) = IK_STREAM_CHUNK" using out crlf by (rule crlf_profile)
  then have "out \<noteq> None" using out
    by (auto simp: AdmitFraming_def Let_def split: option.splits bool.splits if_splits)
  then show "framing_ok (profile_of plan k)" using AdmitFraming_ok out by blast
qed

lemma frozen_text_record:
  assumes freeze: "Freeze platform (Some draft) = Inr (plan, report)" and k: "k < length (pb_pipelines plan)"
    and crlf: "fp_strategy (profile_of plan k) = FS_ASCII_CRLF"
    and accepted_record: "text_record_of plan (pb_pipeline_execution_plans plan ! k) r"
  shows "crlf_ended r" "length r \<le> fp_maximum_frame_length (profile_of plan k)"
proof -
  let ?plans = "pb_message_execution_plans plan" and ?pipeline = "pb_pipelines plan ! k"
  note prepared_pipeline = frozen_crlf(1) [OF freeze k crlf] and stream = frozen_crlf(2) [OF freeze k crlf]
  obtain i action ps where i: "i \<in> set (pl_message_indices ?pipeline)" "me_text_decode (?plans ! i) = Some action"
      "text_record (?plans ! i) action r ps" "pieces_allowed (?plans ! i) (tap_segments action) ps"
    using accepted_record prepared_groups(3) [OF prepared_pipeline] by (auto simp: text_record_of_def)
  have message: "i < length (dd_messages draft)" using prepared_indices(2) [OF prepared_pipeline] i(1) by blast
  obtain ascii decode where cut: "tap_max_record_length action \<le> fp_maximum_frame_length (profile_of plan k)"
      "ms_ascii_text (dd_messages draft ! i) = Some ascii" "at_decode ascii = Some decode"
      "ProveAsciiCrLfBoundary decode (ms_fields (dd_messages draft ! i))"
    using prepared_indices(3) [OF prepared_pipeline i(1)] stream crlf i(2) by (auto simp: streamed_def)
  obtain slots where "prepared_as (pb_schema_version plan) (GetResourceProfileLimits (dd_resource_profile draft))
      (pb_conversions plan) i (dd_messages draft ! i) (?plans ! i) slots"
    using freeze message by (rule frozen_message)
  then have text_message: "PrepareTextMessage (pb_schema_version plan) i (dd_messages draft ! i) ascii
      (ms_frame_length_bytes (dd_messages draft ! i)) = Inr (?plans ! i)"
    using cut(2) by (simp add: prepared_as_def)
  then have "me_text_decode (?plans ! i) = at_decode ascii" by (rule text_facts)
  then have "decode = action" using i(2) cut(3) by simp
  then show "crlf_ended r"
    using boundary_record [OF cut(4) text_facts_classes [OF text_message]] i(3,4) by (simp add: text_record_def)
  show "length r \<le> fp_maximum_frame_length (profile_of plan k)" using cut(1) i(3) by (auto simp: text_record_def)
qed

lemma crlf_stream:
  assumes freeze: "Freeze platform (Some draft) = Inr (plan, report)" and k: "k < length (pb_pipelines plan)"
    and crlf: "fp_strategy (profile_of plan k) = FS_ASCII_CRLF"
    and records: "list_all (text_record_of plan (pb_pipeline_execution_plans plan ! k)) records"
    and session: "framer_session plan k w user (concat records) frames discarded"
  shows "frames @ pending w = records"
proof -
  have record_facts: "list_all (\<lambda>r. crlf_ended r \<and> length r \<le> fp_maximum_frame_length (profile_of plan k)) records"
    using records by (rule list.pred_mono_strong) (use frozen_text_record [OF freeze k crlf] in blast)
  have "session_ok plan k w (concat records) frames discarded" by (rule session_inv [OF session frozen_crlf(3) [OF freeze k crlf]])
  moreover have "crlf_records [] (concat records) = (records, [])"
    using record_facts by (intro crlf_records_stream) (auto simp: list_all_iff)
  moreover have "short_records (profile_of plan k) records = records"
    using record_facts by (simp add: short_records_def list_all_iff filter_id_conv)
  ultimately show ?thesis using crlf by (auto simp: session_ok_def)
qed

end
