(* ===== verification/Compiler_Sound.thy ===== *)
theory Compiler_Sound
  imports Compiler_Exact Plan_Boundary
begin

text \<open>
  What the domain validator keeps and establishes, and what the compiler's stages have in common with the plan
  builder: a draft whose descriptors the builder accepts is published with exactly the memory that was approved.
\<close>

section \<open>Messages under validation\<close>

text \<open>What the structural stage leaves to the validator: the index of a bit container is not set.\<close>

definition unresolved :: "MessageIr \<Rightarrow> bool" where
  "unresolved m \<longleftrightarrow> list_all (\<lambda>f. wi_bit_container_index (fd_wire f) = kInvalidIndex) (mi_fields m)"

text \<open>The validator resolves references of a field and keeps the rest.\<close>

definition resolved_from :: "FieldIr \<Rightarrow> FieldIr \<Rightarrow> bool" where
  "resolved_from f f' \<longleftrightarrow> fd_id f' = fd_id f \<and> fd_value_type f' = fd_value_type f \<and> fd_enum_entries f' = fd_enum_entries f \<and>
     wi_codec (fd_wire f') = wi_codec (fd_wire f) \<and>
     (wi_codec (fd_wire f) \<noteq> WC_BITFIELD \<longrightarrow> wi_bit_container_index (fd_wire f') = wi_bit_container_index (fd_wire f))"

lemma resolved_refl: "resolved_from f f"
  by (simp add: resolved_from_def)

lemma resolved_trans: "resolved_from f g \<Longrightarrow> resolved_from g h \<Longrightarrow> resolved_from f h"
  by (auto simp: resolved_from_def)

text \<open>A loop over a list that appends one element for each.\<close>

lemma each_all2:
  assumes "each body i xs s = Inr s'" "out s = []"
    and "\<And>j t t'. j < length xs \<Longrightarrow> body (i + j) (xs ! j) t = Inr t' \<Longrightarrow> \<exists>y. R (xs ! j) y \<and> out t' = out t @ [y]"
  shows "list_all2 R xs (out s')"
proof -
  have "list_all2 R (take (length xs) xs) (out s')"
  proof (rule each_invariant [OF assms(1), where P = "\<lambda>j t. list_all2 R (take j xs) (out t)"])
    show "list_all2 R (take 0 xs) (out s)" by (simp add: assms(2))
    show "list_all2 R (take (Suc j) xs) (out t')"
      if "j < length xs" "body (i + j) (xs ! j) t = Inr t'" "list_all2 R (take j xs) (out t)" for j t t'
      using assms(3) [OF that(1,2)] that by (auto simp: take_Suc_conv_app_nth list_all2_appendI)
  qed
  then show ?thesis by simp
qed

lemma PlaceField_resolved:
  assumes "PlaceField message ids f s = Inr (f', s')"
  shows "resolved_from f f'" "fo_fields s' = fo_fields s"
  using assms by (auto simp: PlaceField_def domain_error_def Let_def resolved_from_def split: if_splits option.splits)

lemma DeriveConversion_resolved:
  assumes "DeriveConversion f r = Inr (f', r')"
  shows "resolved_from f f'"
  using assms
  by (auto simp: DeriveConversion_def domain_error_def resolved_from_def split: if_splits option.splits sum.splits)

lemma ValidateField_resolved:
  assumes "ValidateField message ids k f s = Inr s'"
  shows "\<exists>f'. resolved_from f f' \<and> fo_fields s' = fo_fields s @ [f']"
proof -
  obtain f1 s1 f2 r where steps: "PlaceField message ids f s = Inr (f1, s1)" "DeriveConversion f1 (fo_requirements s1) = Inr (f2, r)"
    "fo_fields s' = fo_fields s1 @ [f2]"
    using assms by (auto simp: ValidateField_def domain_error_def accepted Let_def split: if_splits)
  then show ?thesis
    using PlaceField_resolved [OF steps(1)] DeriveConversion_resolved [OF steps(2)] resolved_trans by auto
qed

lemma ResolvePayloadField_resolved:
  assumes "ResolvePayloadField layout k f s = Inr s'"
  shows "\<exists>f'. resolved_from f f' \<and> fst s' = fst s @ [f']"
  using assms
  by (auto simp: ResolvePayloadField_def domain_error_def resolved_from_def split: if_splits prod.splits)

lemma ResolveBoundedPayload_resolved:
  assumes "ResolveBoundedPayload m = Inr m'"
  shows "list_all2 resolved_from (mi_fields m) (mi_fields m')" "mi_ascii_text m' = mi_ascii_text m"
proof -
  show "mi_ascii_text m' = mi_ascii_text m"
    using assms by (auto simp: ResolveBoundedPayload_def domain_error_def accepted Let_def split: option.splits if_splits)
  show "list_all2 resolved_from (mi_fields m) (mi_fields m')"
  proof (cases "mi_bounded_payload m")
    case None
    then show ?thesis using assms by (simp add: ResolveBoundedPayload_def list.rel_refl resolved_refl)
  next
    case (Some layout)
    then obtain r where r: "each (ResolvePayloadField layout) 0 (mi_fields m) ([], by_payload_field_index layout, 0) = Inr r"
      "mi_fields m' = fst r"
      using assms by (auto simp: ResolveBoundedPayload_def domain_error_def accepted Let_def split: if_splits)
    show ?thesis
      unfolding r(2) by (rule each_all2 [OF r(1)]) (simp_all add: ResolvePayloadField_resolved)
  qed
qed

lemma list_all2_trans_resolved:
  "list_all2 resolved_from xs ys \<Longrightarrow> list_all2 resolved_from ys zs \<Longrightarrow> list_all2 resolved_from xs zs"
  by (rule list_all2_trans [OF resolved_trans])

text \<open>The lengths of a text field are bounds.\<close>

definition text_bounded :: "FieldIr \<Rightarrow> bool" where
  "text_bounded f \<longleftrightarrow> wi_text_min_length (fd_wire f) \<le> wi_text_max_length (fd_wire f)"

lemma ValidateAsciiMessage_bounded:
  assumes "ValidateAsciiMessage m r = Inr (m', r')"
  shows "list_all text_bounded (mi_fields m')"
proof -
  obtain ids where "each ValidateTextField 0 (mi_fields m) [] = Inr ids" "mi_fields m' = mi_fields m"
    using assms by (auto simp: ValidateAsciiMessage_def domain_error_def accepted Let_def split: if_splits option.splits)
  moreover have "text_bounded f" if "ValidateTextField k f t = Inr t'" for k f t t'
    using that by (auto simp: ValidateTextField_def domain_error_def text_bounded_def split: if_splits option.splits)
  ultimately show ?thesis by (auto simp: list_all_iff intro: each_all)
qed

lemma ValidateMessageDomain_resolved:
  assumes "ValidateMessageDomain m r = Inr (m', r')"
  shows "list_all2 resolved_from (mi_fields m) (mi_fields m')" "has_action m'" "mi_ascii_text m = None \<longleftrightarrow> mi_ascii_text m' = None"
    "mi_ascii_text m' \<noteq> None \<Longrightarrow> list_all text_bounded (mi_fields m')"
proof -
  have "list_all2 resolved_from (mi_fields m) (mi_fields m') \<and> has_action m' \<and>
      (mi_ascii_text m = None \<longleftrightarrow> mi_ascii_text m' = None) \<and> (mi_ascii_text m' \<noteq> None \<longrightarrow> list_all text_bounded (mi_fields m'))"
  proof (cases "mi_ascii_text m")
    case None
    obtain m1 ids spans n s1 s where steps: "ResolveBoundedPayload m = Inr m1"
      "each (ValidateField m1 ids) 0 (mi_fields m1) s1 = Inr s" "fo_fields s1 = []" "m' = m1\<lparr>mi_fields := fo_fields s\<rparr>"
      using assms None by (fastforce simp: ValidateMessageDomain_def accepted Let_def)
    have "list_all2 resolved_from (mi_fields m1) (fo_fields s)"
      by (rule each_all2 [where out = fo_fields, OF steps(2,3)]) (rule ValidateField_resolved)
    then show ?thesis
      using list_all2_trans_resolved [OF ResolveBoundedPayload_resolved(1) [OF steps(1)]] None
        ResolveBoundedPayload_resolved(2) [OF steps(1)] by (simp add: steps(4) has_action_def)
  next
    case (Some layout)
    obtain d1 e1 r1 b1 b2 b3 ids where steps: "ValidateOptionalAction ids (mi_fields m) (al_decode layout) r = Inr (d1, b1, r1)"
      "ValidateOptionalAction ids (mi_fields m) (al_encode layout) r1 = Inr (e1, b2, b3)" "max (longest d1) (longest e1) \<noteq> 0"
      "mi_ascii_text m' = Some (layout\<lparr>al_decode := d1, al_encode := e1\<rparr>)" "mi_fields m' = mi_fields m"
      using assms Some
      by (auto simp: ValidateMessageDomain_def ValidateAsciiMessage_def domain_error_def accepted Let_def split: if_splits option.splits)
    then have "d1 \<noteq> None \<or> e1 \<noteq> None" by (auto simp: longest_def)
    moreover have "list_all text_bounded (mi_fields m')"
      using assms Some ValidateAsciiMessage_bounded by (simp add: ValidateMessageDomain_def)
    ultimately show ?thesis using steps(4,5) Some by (simp add: has_action_def list.rel_refl resolved_refl)
  qed
  then show "list_all2 resolved_from (mi_fields m) (mi_fields m')" "has_action m'"
    "mi_ascii_text m = None \<longleftrightarrow> mi_ascii_text m' = None"
    "mi_ascii_text m' \<noteq> None \<Longrightarrow> list_all text_bounded (mi_fields m')" by blast+
qed

section \<open>The validator\<close>

definition message_resolved :: "MessageIr \<Rightarrow> MessageIr \<Rightarrow> bool" where
  "message_resolved m m' \<longleftrightarrow> list_all2 resolved_from (mi_fields m) (mi_fields m') \<and> has_action m' \<and>
     (mi_ascii_text m = None \<longleftrightarrow> mi_ascii_text m' = None) \<and> (mi_ascii_text m' \<noteq> None \<longrightarrow> list_all text_bounded (mi_fields m'))"

lemma validated_messages:
  assumes "Validate schema = Inr v"
  shows "list_all2 message_resolved (sc_messages schema) (sc_messages (va_schema v))"
    and "length (va_resolved_pipelines v) = length (sc_pipelines (va_schema v))"
proof -
  obtain r messages r' framing_index message_index where steps: "ValidateMessages schema r = Inr (messages, r')"
    "each (ValidatePipeline (schema\<lparr>sc_messages := messages\<rparr>) framing_index message_index) 0 (sc_pipelines schema) [] =
       Inr (va_resolved_pipelines v)" "va_schema v = schema\<lparr>sc_messages := messages\<rparr>"
    using assms by (fastforce simp: Validate_def accepted Let_def)
  have "list_all2 message_resolved (sc_messages schema) (fst (messages, r'))"
  proof (rule each_all2 [OF steps(1) [unfolded ValidateMessages_def]])
    show "\<exists>y. message_resolved (sc_messages schema ! j) y \<and> fst t' = fst t @ [y]"
      if "(case t of (done_messages, requirements) \<Rightarrow>
          followed_by (ValidateMessageDomain (sc_messages schema ! j) requirements)
           (\<lambda>(message, requirements). Inr (done_messages @ [message], requirements))) = Inr t'" for j t t'
      using that ValidateMessageDomain_resolved by (fastforce simp: accepted message_resolved_def split: prod.splits)
  qed simp
  then show "list_all2 message_resolved (sc_messages schema) (sc_messages (va_schema v))" by (simp add: steps(3))
  have "list_all2 (\<lambda>p r. True) (sc_pipelines schema) (va_resolved_pipelines v)"
    by (rule each_all2 [OF steps(2), of "\<lambda>s. s"])
      (auto simp: ValidatePipeline_def domain_error_def accepted Let_def split: option.splits if_splits)
  then show "length (va_resolved_pipelines v) = length (sc_pipelines (va_schema v))"
    by (simp add: steps(3) list_all2_lengthD)
qed

lemma resolved_enum_only: "message_resolved m m' \<Longrightarrow> enum_only m \<Longrightarrow> enum_only m'"
proof -
  have "list_all2 resolved_from fs fs' \<Longrightarrow> list_all (\<lambda>f. fd_value_type f \<noteq> VT_ENUM \<longrightarrow> fd_enum_entries f = []) fs \<Longrightarrow>
      list_all (\<lambda>f. fd_value_type f \<noteq> VT_ENUM \<longrightarrow> fd_enum_entries f = []) fs'" for fs fs'
    by (induction rule: list_all2_induct) (auto simp: resolved_from_def)
  then show "message_resolved m m' \<Longrightarrow> enum_only m \<Longrightarrow> enum_only m'"
    unfolding message_resolved_def enum_only_def by blast
qed

text \<open>Of the fields of an assembled message only bit fields have a bit container.\<close>

lemma assembled_unset:
  assumes "message_resolved m m'" "unresolved m" "assembled_message m' p"
  shows "containers_unset p"
proof -
  have "list_all2 assembled_field fs' ps \<Longrightarrow> list_all2 resolved_from fs fs' \<Longrightarrow>
      list_all (\<lambda>f. wi_bit_container_index (fd_wire f) = kInvalidIndex) fs \<Longrightarrow>
      list_all (\<lambda>field. \<not> is_bitfield field \<longrightarrow> fl_bit_container_index field = kInvalidIndex) ps" for fs fs' ps
    by (induction arbitrary: fs rule: list_all2_induct)
      (auto simp: list_all2_Cons2 resolved_from_def assembled_field_def AssembleField_def is_bitfield_def)
  then show ?thesis
    using assms assembled_parts(10) [OF assms(3)] unfolding message_resolved_def unresolved_def containers_unset_def by blast
qed

section \<open>The approved memory\<close>

lemma ValidateBudget_accepted:
  assumes "ValidateBudget abi limit v = Inr b"
  shows "bu_validated b = v" "EstimateSchemaPlanMemory abi (va_schema v) (va_resolved_pipelines v) SIZE_MAX = Some (bu_plan_memory b)"
    "mr_accounted_total_bytes (bu_plan_memory b) \<le> bu_plan_memory_limit_bytes b"
    "bu_plan_memory_limit_bytes b \<le> kV01MaxPlanMemoryHardLimit"
  using assms by (auto simp: ValidateBudget_def accepted Let_def split: option.splits if_splits)

lemma estimate_conversions:
  assumes "EstimateSchemaPlanMemory abi schema resolved limit = Some e"
  obtains n where "conversion_count schema = Some n"
proof (cases "conversion_count schema")
  case None
  have stop: "(\<lambda>l. None) \<in> set fs \<Longrightarrow> steps fs l = None" for fs and l :: PlanMemoryLayout
    by (induction fs arbitrary: l) (auto split: Option.bind_split)
  have "EstimateSchemaPlanMemory abi schema resolved limit = None"
    unfolding EstimateSchemaPlanMemory_def by (subst stop) (simp_all add: None)
  then show thesis using assms by simp
qed (rule that)

lemma assembled_estimate:
  assumes valid: "Validate schema = Inr v" and structural: "list_all enum_only (sc_messages schema)"
    and budget: "ValidateBudget abi limit v = Inr b" and prepared: "PrepareDraft n (Assemble b) = Inr descriptors"
  shows "EstimatePreparedPlanMemory abi (Assemble b) (pr_messages descriptors) (pr_pipelines descriptors) SIZE_MAX =
    Some (bu_plan_memory b)"
  using prepared
proof (cases rule: PrepareDraft_accepted)
  case (1 s ids)
  let ?ms = "sc_messages (va_schema v)" and ?ps = "dd_messages (Assemble b)" and ?plans = "pr_messages descriptors"
    and ?resolved = "va_resolved_pipelines v" and ?pipelines = "dd_pipelines (Assemble b)"
  have b: "bu_validated b = v" by (rule ValidateBudget_accepted(1) [OF budget])
  have images: "list_all2 assembled_message ?ms ?ps" using assembled_draft(1) [of b] by (simp add: b)
  have len: "length ?ps = length ?ms" "length ?plans = length ?ms" "length ?resolved = length (sc_pipelines (va_schema v))"
    "length (pr_pipelines descriptors) = length ?resolved"
    using list_all2_lengthD [OF images] PrepareMessages_accepted(1) [OF 1(2)] validated_messages(2) [OF valid]
      pipelines_loop(1) [OF 1(4)] by (simp_all add: 1(5) b)
  have facts: "enum_only (?ms ! i)" "has_action (?ms ! i)" "assembled_message (?ms ! i) (?ps ! i)" if "i < length ?ms" for i
  proof -
    have i: "i < length (sc_messages schema)" using that list_all2_lengthD [OF validated_messages(1) [OF valid]] by simp
    have resolved: "message_resolved (sc_messages schema ! i) (?ms ! i)"
      by (rule list_all2_nthD [OF validated_messages(1) [OF valid] i])
    show "enum_only (?ms ! i)" by (rule resolved_enum_only [OF resolved]) (use structural i in \<open>simp add: list_all_length\<close>)
    show "has_action (?ms ! i)" using resolved by (simp add: message_resolved_def)
    show "assembled_message (?ms ! i) (?ps ! i)" by (rule list_all2_nthD [OF images that])
  qed
  have descriptor: "\<exists>slots. prepared_as (dd_schema_version (Assemble b)) (GetResourceProfileLimits (dd_resource_profile (Assemble b)))
      (dd_conversions (Assemble b)) i (?ps ! i) (?plans ! i) slots" if "i < length ?ms" for i
    using PrepareMessages_accepted(2) [OF 1(2), of i] that len(1) by (auto simp: counted_in_def 1(5))
  have executions: "map (EstimateMessageExecution abi) ?plans = map (EstimateMessageExecution_ir abi) ?ms"
    by (rule nth_equalityI) (use len facts descriptor EstimateMessageExecution_same in \<open>auto, metis\<close>)
  have kinds: "same_kind (?ms ! i) (?plans ! i)" if "i < length ?ms" for i
    using facts [OF that] descriptor [OF that] prepared_same_kind by metis
  have pipelines: "map (EstimatePipelineExecution abi) (pr_pipelines descriptors) =
      map (EstimatePipelineExecution_ir abi ?ms) ?resolved"
  proof (rule nth_equalityI)
    show "map (EstimatePipelineExecution abi) (pr_pipelines descriptors) ! k = map (EstimatePipelineExecution_ir abi ?ms) ?resolved ! k"
      if "k < length (map (EstimatePipelineExecution abi) (pr_pipelines descriptors))" for k
    proof -
      have k: "k < length (pr_pipelines descriptors)" "k < length ?pipelines" "k < length ?resolved"
        using that len by (simp_all add: b)
      have pipe_done: "pipeline_prepared ?ps ?plans (dd_framing_profiles (Assemble b)) (?pipelines ! k) (pr_pipelines descriptors ! k)"
        using pipelines_loop(2) [OF 1(4) k(2)] by (simp add: 1(5))
      have "EstimatePipelineExecution abi (pr_pipelines descriptors ! k) = EstimatePipelineExecution_ir abi ?ms (?resolved ! k)"
      proof (rule EstimatePipelineExecution_same [OF pipe_done])
        show "length (pe_allowed_message_words (pr_pipelines descriptors ! k)) = allowed_word_count (length ?ms)"
          using pipelines_words [OF 1(4)] k(1) len(1) by simp
        show "\<forall>i \<in> set (pl_message_indices (?pipelines ! k)). same_kind (?ms ! i) (?plans ! i)"
          using prepared_indices(2) [OF pipe_done] kinds len(1) by auto
        show "rp_message_indices (?resolved ! k) = pl_message_indices (?pipelines ! k)"
          using k len by (simp add: b AssemblePipeline_def)
      qed
      then show ?thesis using k by simp
    qed
  qed (simp add: len)
  have framings: "map (EstimateFraming abi) (dd_framing_profiles (Assemble b)) = map (EstimateFraming_ir abi) (sc_framing_profiles (va_schema v))"
    by (simp add: b EstimateFraming_same)
  have pipes: "map (EstimatePipeline abi) ?pipelines = map (EstimatePipeline_ir abi) (zip (sc_pipelines (va_schema v)) ?resolved)"
    by (simp add: b EstimatePipeline_same)
  have messages: "map (EstimateMessage abi) ?ps = map (EstimateMessage_ir abi) ?ms"
    by (rule map_all2 [OF images EstimateMessage_same])
  have estimate: "EstimateSchemaPlanMemory abi (va_schema v) ?resolved SIZE_MAX = Some (bu_plan_memory b)"
    by (rule ValidateBudget_accepted(2) [OF budget])
  obtain n where n: "conversion_count (va_schema v) = Some n" by (rule estimate_conversions [OF estimate])
  have conversions: "length (dd_conversions (Assemble b)) = n"
    using conversion_count_Some [OF n] by (simp add: assembled_draft(2) b)
  have "EstimatePreparedPlanMemory abi (Assemble b) ?plans (pr_pipelines descriptors) SIZE_MAX =
      EstimateSchemaPlanMemory abi (va_schema v) ?resolved SIZE_MAX"
    unfolding EstimatePreparedPlanMemory_def EstimateSchemaPlanMemory_def executions pipelines framings pipes messages
    by (simp add: n b AddStringLayout_same add_array_def conversions len)
  then show ?thesis using estimate by simp
qed

end
