(* ===== verification/Compiler_Boundary.thy ===== *)
theory Compiler_Boundary
  imports Compiler_Sound
begin

text \<open>
  The compiler and the builder decide alike whether the records of a text action can be cut at CR LF: the two
  functions \<^verbatim>\<open>ProveAsciiCrLfBoundary\<close>, of \<^verbatim>\<open>src/src/config_compiler/config_compiler.cpp\<close> and
  \<^verbatim>\<open>src/src/protocol_plan/plan_builder.cpp\<close>, agree on an action and its assembled plan.
\<close>

section \<open>The steps of the two proofs\<close>

lemma assembled_text:
  assumes "assembled_field f p"
  shows "fl_text_min_length p = wi_text_min_length (fd_wire f)" "fl_text_max_length p = wi_text_max_length (fd_wire f)"
    "fl_allowed_ascii_low p = wi_allowed_ascii_low (fd_wire f)" "fl_allowed_ascii_high p = wi_allowed_ascii_high (fd_wire f)"
  using assms by (auto simp: assembled_field_def AssembleField_def)

lemma AdvanceCrLfStates_same: "assembled_field f p \<Longrightarrow> AdvanceCrLfStates_ir states f = AdvanceCrLfStates states p"
proof -
  assume f: "assembled_field f p"
  then have "FieldAllowsAscii_ir f b = FieldAllowsAscii p b" for b
    by (simp add: FieldAllowsAscii_ir_def FieldAllowsAscii_def assembled_text [OF f])
  then have "crlf_turn_ir states f b out = crlf_turn states p b out" for b out
    by (cases out) (simp_all add: crlf_turn_ir_def crlf_turn_def)
  then have "(\<lambda>v. crlf_turn_ir states f (of_nat v)) = (\<lambda>v. crlf_turn states p (of_nat v))" by (intro ext)
  then show ?thesis by (simp only: AdvanceCrLfStates_ir_def AdvanceCrLfStates_def)
qed

lemma literal_states_same: "literal_states_ir bytes states = literal_states bytes states"
  by (induction bytes states rule: literal_states.induct)
    (simp_all add: AdvanceCrLfByte_ir_def AdvanceCrLfByte_def split: option.splits)

text \<open>The compiler's loop adds one test, which the bounds of a field make true.\<close>

lemma field_states_same:
  assumes "assembled_field f p" "wi_text_min_length (fd_wire f) \<le> wi_text_max_length (fd_wire f)"
  shows "field_states_ir f exact sofar count left = field_states p exact sofar count left"
  using assms
proof (induction left arbitrary: exact sofar count)
  case (Suc left)
  show ?case
    using assms(2) Suc
    by (cases "AdvanceCrLfStates exact p") (simp_all add: AdvanceCrLfStates_same [OF assms(1)] assembled_text [OF assms(1)] Let_def)
qed (simp add: assembled_text [OF assms(1)])

lemma AssembleSegment_parts [simp]:
  "tsp_kind (AssembleSegment s) = ti_kind s" "tsp_literal (AssembleSegment s) = ti_literal s"
  "tsp_field_index (AssembleSegment s) = ti_field_index s"
  by (simp_all add: AssembleSegment_def)

lemma boundary_segments_same:
  assumes "list_all2 assembled_field fs ps" "list_all text_bounded fs"
  shows "boundary_segments_ir fs segments states = boundary_segments ps (map AssembleSegment segments) states"
  using assms
proof (induction fs segments states rule: boundary_segments_ir.induct)
  case (2 fs s following states)
  have len: "length ps = length fs" using 2(3) by (simp add: list_all2_lengthD)
  have field: "field_states_ir (fs ! k) exact 0 0 n = field_states (ps ! k) exact 0 0 n"
    "fl_text_max_length (ps ! k) = wi_text_max_length (fd_wire (fs ! k))" if "k < length fs" for k exact n
    using that field_states_same [OF list_all2_nthD [OF 2(3) that]] 2(4) assembled_text(2) [OF list_all2_nthD [OF 2(3) that]]
    by (simp_all add: list_all_length text_bounded_def)
  show ?case
  proof (cases "ti_kind s = TS_LITERAL")
    case True
    then show ?thesis using 2(1) [OF True _ 2(3,4)] by (simp add: literal_states_same split: option.splits)
  next
    case False
    then show ?thesis
      using 2(2) [OF False _ refl _ _ 2(3,4)] field by (auto simp: len Let_def split: option.splits)
  qed
qed simp

lemma boundary_proofs_agree:
  assumes "list_all2 assembled_field fs ps" "list_all text_bounded fs"
  shows "ProveAsciiCrLfBoundary (AssembleAction a) ps = ProveAsciiCrLfBoundary_ir a fs"
  by (simp add: ProveAsciiCrLfBoundary_def ProveAsciiCrLfBoundary_ir_def AssembleAction_def Let_def last_map
      boundary_segments_same [OF assms])

end
