(* ===== verification/Plan_Example.thy ===== *)
theory Plan_Example
  imports Plan_Published Plan_Boundary
begin

text \<open>
  Two drafts the builder accepts, evaluated step by step: the one behind the example plan of the codec theories,
  and one with a text message on a CR LF framed stream.
\<close>

section \<open>A platform\<close>

definition example_abi :: Abi where
  "example_abi = (let t = (\<lambda>n. \<lparr>ty_size = n, ty_align = 8\<rparr>) in
    \<lparr>abi_max_align = 16, abi_size_t = t 8, abi_uint64 = t 8, abi_PlanBundle = t 400, abi_FrozenFramingPlan = t 104,
     abi_FrozenPipelinePlan = t 56, abi_FrozenMessagePlan = t 296, abi_FrozenMatcherPlan = t 40,
     abi_FrozenBitContainerPlan = t 48, abi_FrozenFieldPlan = t 168, abi_FrozenEnumEntryPlan = t 24,
     abi_LinearConversionDescriptor = t 120, abi_MessageExecutionPlan = t 392, abi_FixedByteExecutionPlan = t 16,
     abi_BitContainerExecutionPlan = t 32, abi_FieldExecutionPlan = t 192, abi_EnumLookupExecutionPlan = t 16,
     abi_TextSegmentExecutionPlan = t 48, abi_PipelineExecutionPlan = t 72, abi_CandidateGroupExecutionPlan = t 24\<rparr>)"

definition example_build :: BuildPlatform where
  "example_build = \<lparr>bp_abi = example_abi, bp_value_type_bytes = 4, bp_memory_available = True, bp_address = 1000\<rparr>"

lemma example_abi_ok: "abi_ok (bp_abi example_build)"
  by (simp add: abi_ok_def abi_types_def example_build_def example_abi_def sound_type_def IsPowerOfTwo_def)

section \<open>A binary message\<close>

definition example_memory :: PlanMemoryReport where
  "example_memory = \<lparr>mr_object_bytes = 400, mr_string_bytes = 45, mr_matcher_bytes = 17, mr_metadata_container_bytes = 840,
     mr_execution_descriptor_bytes = 848, mr_index_bytes = 16, mr_extension_bytes = 0, mr_alignment_bytes = 18,
     mr_allocation_count = 24, mr_upstream_allocation_count = 1, mr_accounted_total_bytes = 2184\<rparr>"

definition example_draft :: PlanDraftData where
  "example_draft = \<lparr>dd_schema_version = ''0.8'', dd_protocol_id = ''example'', dd_protocol_version = ''1'',
     dd_resource_profile = DESKTOP, dd_resource_requirements = pb_resource_requirements Codec_Session.example_plan,
     dd_framing_profiles = [example_framing], dd_pipelines = [example_pipeline_plan], dd_messages = [example_message_plan],
     dd_conversions = [], dd_approved_plan_memory = example_memory, dd_plan_memory_limit_bytes = 0,
     dd_test_fail_at_allocation = 0\<rparr>"

lemma example_ids:
  "IsStableId ''example''" "IsStableId ''records''" "IsStableId ''line''" "IsStableId ''up''" "IsStableId ''sample''"
  "IsStableId ''length''" "IsStableId ''payload''"
  by (simp_all add: IsStableId_def kMaxStableIdCharacters_def)

lemma example_draft_parts [simp]:
  "dd_schema_version example_draft = ''0.8''" "dd_protocol_id example_draft = ''example''"
  "dd_protocol_version example_draft = ''1''" "dd_resource_profile example_draft = DESKTOP"
  "dd_resource_requirements example_draft = pb_resource_requirements Codec_Session.example_plan"
  "dd_framing_profiles example_draft = [example_framing]" "dd_pipelines example_draft = [example_pipeline_plan]"
  "dd_messages example_draft = [example_message_plan]" "dd_conversions example_draft = []"
  "dd_approved_plan_memory example_draft = example_memory" "dd_plan_memory_limit_bytes example_draft = 0"
  "dd_test_fail_at_allocation example_draft = 0"
  by (simp_all add: example_draft_def)

lemma desktop_limits [simp]:
  "max_total_fields kDesktopResourceProfileLimits \<noteq> 0" "0 < max_framing_profiles kDesktopResourceProfileLimits"
  "0 < max_pipelines kDesktopResourceProfileLimits" "0 < max_messages kDesktopResourceProfileLimits"
  by (simp_all add: kDesktopResourceProfileLimits_def)

lemma example_framing_prepared: "PrepareFraming ''0.8'' limit k example_framing ([], r) = Inr ([''records''], r)"
  by (simp add: PrepareFraming_def example_framing_def example_ids AdmitFraming_def CheckPrefixTable_def
      CompleteRecordFraming_def no_length_field_def)

lemma example_counted:
  "CountMessage kDesktopResourceProfileLimits 0 example_message_plan (start_requirements example_draft) =
     Inr (pb_resource_requirements Codec_Session.example_plan)"
  by (simp add: CountMessage_def CountText_def CountParts_def CountEnumEntries_def AddSizeChecked_def SIZE_MAX_def
      example_message_plan_def example_field_def start_requirements_def no_requirements_def
      kDesktopResourceProfileLimits_def Codec_Session.example_plan_def example_message_def)

lemma example_resources: "CheckResources example_draft = Inr (pb_resource_requirements Codec_Session.example_plan)"
  by (simp add: CheckResources_def MetadataValid_def schema_versions_def example_ids example_counted unless_def followed_by_def
      example_framing_prepared RequirementsEqual_iff Let_def Suc_le_eq)

text \<open>The fields and the fixed byte of the message.\<close>

definition example_fields :: FieldsState where
  "example_fields = \<lparr>st_ids = [''payload'', ''length''],
     st_intervals = [\<lparr>bi_begin = 1, bi_end = 2, bi_source_index = 0\<rparr>, \<lparr>bi_begin = 2, bi_end = 6, bi_source_index = 1\<rparr>],
     st_fields = [example_length_field, example_payload_field], st_enum_raw_values = [], st_enum_lookup_entries = [],
     st_member_masks = [], st_determined_masks = [], st_determined_values = [], st_member_counts = [],
     st_input_ordinal = 1, st_conversion_slot = 0, st_reference_counts = []\<rparr>"

lemma example_parts: "CheckParts ''0.8'' kDesktopResourceProfileLimits 0 example_message_plan 8 = Inr ()"
  by (simp add: CheckParts_def unless_def BoundedPayloadValid_def expected_trailer_def sum_checked_def AddSizeChecked_def
      ToSize_def SIZE_MAX_def example_message_plan_def example_message_def example_field_def example_crc_def IntegrityValid_def
      CrcValid_def IntegrityRangeValid_def ComputedLengthValid_def ComputedFieldValid_def length_schema_def IsRangeWithin_def
      FitsUnsignedWidth_def kDesktopResourceProfileLimits_def)

lemma example_fields_prepared:
  "PrepareFields ''0.8'' [] 0 example_message_plan 8 [] = Inr ([], example_fields)"
  by (simp add: PrepareFields_def followed_by_def unless_def fields_start_def PrepareField_def FieldPlaced_def PayloadPlaced_def
      FieldShapeValid_def Uint64Valid_def Int64Valid_def BytesValid_def EnumShapeValid_def ConversionValid_def is_bitfield_def
      field_offset_def field_width_def field_execution_def no_field_execution_def PlaceBits_def PrepareEnum_def
      sort_intervals_def integrity_overlaps_def IsRangeWithin_def ToSize_def length_schema_def IsIntegerByteOrderValid_def
      example_message_plan_def example_message_def example_field_def example_ids example_fields_def example_length_field_def
      example_payload_field_def example_crc_def kInvalidIndex_def SIZE_MAX_def)

lemma example_fixed: "PrepareFixed 0 example_message_plan 8 example_fields = Inr [(0, 0xAA)]"
  by (simp add: PrepareFixed_def followed_by_def unless_def PrepareMatcher_def ToSize_def IsRangeWithin_def fixed_within_def
      CheckCoverage_def coverage_def CoversWholeFrame_def sort_intervals_def ConstantAgrees_def is_bitfield_def
      example_message_plan_def example_message_def example_field_def example_fields_def example_crc_def SIZE_MAX_def)

lemma example_prepared_message:
  "PrepareBinaryMessage ''0.8'' kDesktopResourceProfileLimits [] 0 example_message_plan 8 [] = Inr (example_message, 0, [])"
proof -
  have crc: "ms_integrity example_message_plan = me_integrity example_message"
    "ms_bounded_payload example_message_plan = me_bounded_payload example_message"
    "ms_computed_length example_message_plan = me_computed_length example_message"
    by (simp_all add: example_message_plan_def example_message_def)
  show ?thesis
    unfolding PrepareBinaryMessage_def example_parts example_fields_prepared example_fixed followed_by_def crc sum.case prod.case
    by (simp add: example_fields_def no_message_execution_def example_message_def example_fixed [unfolded example_fields_def])
qed

definition example_prepared_messages :: MessagesState where
  "example_prepared_messages = \<lparr>mg_ids = [''sample''], mg_reference_counts = [], mg_plans = [example_message],
     mg_max_fields = 2, mg_max_inputs = 1, mg_conversion_slots = 0\<rparr>"

lemma example_messages: "PrepareMessages example_draft = Inr example_prepared_messages"
proof -
  have m: "ms_id example_message_plan = ''sample''" "ms_direction_id example_message_plan = ''up''"
    "ms_frame_length_bytes example_message_plan = 8" "ms_matchers example_message_plan \<noteq> []" "ms_fields example_message_plan \<noteq> []"
    "ms_ascii_text example_message_plan = None" "length (ms_fields example_message_plan) = 2"
    "me_required_input_count example_message = 1"
    by (simp_all add: example_message_plan_def example_message_def)
  show ?thesis
    by (simp add: PrepareMessages_def PrepareMessage_def followed_by_def unless_def m example_ids example_prepared_message
        ToSize_def SIZE_MAX_def example_prepared_messages_def)
qed

lemma example_layout:
  "PrepareLayout 4 kDesktopResourceProfileLimits [example_message_plan] example_prepared_messages = Some (pb_layout Codec_Session.example_plan)"
  by (simp add: PrepareLayout_def kBitsPerAllowedMessageWord_def MultiplySizeChecked_def AddSizeChecked_def SIZE_MAX_def
      kConversionWorkspaceBytesPerSlot_def kDesktopResourceProfileLimits_def Codec_Session.example_plan_def example_message_plan_def example_prepared_messages_def)

lemma example_pipelines:
  "PreparePipeline [example_message_plan] [example_message] [example_framing] 0 example_pipeline_plan ([], []) =
     Inr ([''line''], [example_pipeline])"
  by (simp add: PreparePipeline_def unless_def followed_by_def PipelineMessage_def StreamMessage_def SortCandidate_def
      ambiguous_def allowed_word_count_def kBitsPerAllowedMessageWord_def example_pipeline_plan_def example_framing_def
      example_message_plan_def example_message_def example_pipeline_def example_ids Let_def)

definition example_descriptors :: PreparedPlan where
  "example_descriptors = \<lparr>pr_requirements = pb_resource_requirements Codec_Session.example_plan,
     pr_layout = pb_layout Codec_Session.example_plan, pr_messages = [example_message], pr_pipelines = [example_pipeline]\<rparr>"

lemma example_draft_prepared: "PrepareDraft 4 example_draft = Inr example_descriptors"
  by (simp add: PrepareDraft_def followed_by_def example_resources example_messages example_layout example_pipelines
      example_descriptors_def example_prepared_messages_def [THEN arg_cong [of _ _ mg_plans]])

lemmas estimating = EstimatePreparedPlanMemory_def AddStringLayout_def add_array_def EstimateFraming_def EstimatePipeline_def
  EstimateMessage_def EstimateField_def EstimateMessageExecution_def EstimatePipelineExecution_def EstimateTextAction_def
  example_abi_def byte_layout_def AddArray_def AddAllocation_def new_layout_def no_memory_def padding_for_def
  IsPowerOfTwo_def AddChecked_def SIZE_MAX_def CategoryBytes_def SetCategoryBytes_def

lemma example_estimate:
  "EstimatePreparedPlanMemory example_abi example_draft [example_message] [example_pipeline] SIZE_MAX = Some example_memory"
  by (simp add: estimating example_framing_def example_pipeline_plan_def example_message_plan_def example_field_def
      example_message_def example_pipeline_def Codec_Session.example_plan_def)
    (simp add: numeral_2_eq_2 [symmetric] example_memory_def)

lemma example_frozen: "Freeze example_build (Some example_draft) = Inr (Codec_Session.example_plan, example_memory)"
proof -
  have platform: "bp_memory_available example_build" "bp_value_type_bytes example_build = 4" "bp_abi example_build = example_abi"
    "bp_address example_build = 1000"
    by (simp_all add: example_build_def)
  have enough: "mr_accounted_total_bytes example_memory \<le> effective_plan_memory_limit example_draft"
    by (simp add: example_memory_def effective_plan_memory_limit_def kDesktopResourceProfileLimits_def kV01MaxPlanMemoryHardLimit_def)
  have "bundle_of 1000 example_draft example_descriptors = Codec_Session.example_plan"
    by (simp add: bundle_of_def example_descriptors_def Codec_Session.example_plan_def)
  then show ?thesis
    using enough Freeze_exact [OF example_abi_ok platform(1), of example_draft]
    by (simp add: platform followed_by_def example_draft_prepared example_descriptors_def example_estimate not_less)
qed

section \<open>A text message\<close>

text \<open>One or two printable characters and CR LF, on a CR LF framed stream of lines of at most four bytes.\<close>

definition crlf_field :: FieldPlan where
  "crlf_field = example_field\<lparr>fl_id := ''word'', fl_value_type := VT_BYTES, fl_wire_codec := WC_ASCII_TEXT, fl_byte_offset := 0,
     fl_byte_width := 0, fl_encode_source := ES_INPUT, fl_text_min_length := 1, fl_text_max_length := 2,
     fl_allowed_ascii_low := 0xFFFFFFFF00000000, fl_allowed_ascii_high := 0x7FFFFFFFFFFFFFFF\<rparr>"

definition crlf_action :: TextActionPlan where
  "crlf_action = \<lparr>tap_segments = [\<lparr>tsp_kind = TS_FIELD, tsp_literal = [], tsp_prefix_table = [], tsp_field_index = 0\<rparr>,
       \<lparr>tsp_kind = TS_LITERAL, tsp_literal = [0x0D, 0x0A], tsp_prefix_table = [0, 0], tsp_field_index = 0\<rparr>],
     tap_min_record_length = 3, tap_max_record_length = 4\<rparr>"

definition crlf_message :: MessagePlan where
  "crlf_message = \<lparr>ms_id = ''line'', ms_direction_id = ''up'', ms_frame_length_bytes = 4, ms_matchers = [],
     ms_bit_containers = [], ms_integrity = None, ms_bounded_payload = None, ms_computed_length = None, ms_fields = [crlf_field],
     ms_ascii_text = Some \<lparr>at_decode = Some crlf_action, at_encode = None\<rparr>\<rparr>"

definition crlf_requirements :: ResourceRequirements where
  "crlf_requirements = \<lparr>rq_max_frame_bytes = 4, rq_framing_profile_count = 1, rq_pipeline_count = 1, rq_message_count = 1,
     rq_total_field_count = 1, rq_total_matcher_count = 0, rq_total_enum_entry_count = 0, rq_total_bit_container_count = 0,
     rq_total_integrity_rule_count = 0, rq_total_computed_length_count = 0, rq_total_conversion_count = 0,
     rq_max_stream_frame_bytes = 4, rq_max_sync_bytes = 2, rq_max_framing_buffer_bytes = 4, rq_total_text_segment_count = 2\<rparr>"

definition crlf_memory :: PlanMemoryReport where
  "crlf_memory = \<lparr>mr_object_bytes = 400, mr_string_bytes = 33, mr_matcher_bytes = 18, mr_metadata_container_bytes = 632,
     mr_execution_descriptor_bytes = 752, mr_index_bytes = 16, mr_extension_bytes = 18, mr_alignment_bytes = 19,
     mr_allocation_count = 25, mr_upstream_allocation_count = 1, mr_accounted_total_bytes = 1888\<rparr>"

definition crlf_draft :: PlanDraftData where
  "crlf_draft = \<lparr>dd_schema_version = ''0.11'', dd_protocol_id = ''example'', dd_protocol_version = ''1'',
     dd_resource_profile = DESKTOP, dd_resource_requirements = crlf_requirements,
     dd_framing_profiles = [line_framing], dd_pipelines = [example_pipeline_plan], dd_messages = [crlf_message],
     dd_conversions = [], dd_approved_plan_memory = crlf_memory, dd_plan_memory_limit_bytes = 0,
     dd_test_fail_at_allocation = 0\<rparr>"

text \<open>The characters of the field are the printable ones.\<close>

lemma crlf_field_words: "fl_allowed_ascii_low crlf_field = push_bit 32 (mask 32)" "fl_allowed_ascii_high crlf_field = mask 63"
  by (simp_all add: crlf_field_def mask_eq_exp_minus_1 push_bit_eq_mult)

lemma class_bit: "(w :: u64) AND push_bit k 1 \<noteq> 0 \<longleftrightarrow> bit w k"
  by (simp only: bit_iff_and_push_bit_not_eq_0)

lemma crlf_field_allows:
  assumes "v < 128"
  shows "FieldAllowsAscii crlf_field (of_nat v) \<longleftrightarrow> 32 \<le> v \<and> v < 127"
proof -
  have v: "unat (of_nat v :: u8) = v" using assms by (simp add: unat_of_nat take_bit_eq_mod)
  have "(of_nat v :: u8) < 64 \<longleftrightarrow> v < 64" by (simp add: word_less_nat_alt v)
  moreover have "v mod 64 = (if v < 64 then v else v - 64)" using assms by (simp add: mod_if)
  ultimately show ?thesis
    using assms unfolding FieldAllowsAscii_def Let_def class_bit v
    by (auto simp: crlf_field_words bit_push_bit_iff bit_mask_iff)
qed

lemma crlf_field_turns:
  "set vs \<subseteq> {..<128} \<Longrightarrow> fold (\<lambda>v. crlf_turn 1 crlf_field (of_nat v)) vs (Some out) =
     Some (if \<exists>v \<in> set vs. 32 \<le> v \<and> v < 127 then out OR 1 else out)"
proof (induction vs arbitrary: out)
  case (Cons v vs)
  have "(of_nat v :: u8) \<noteq> 0x0D" if "32 \<le> v" "v < 127"
  proof
    assume "(of_nat v :: u8) = 0x0D"
    then have "unat (of_nat v :: u8) = 13" by simp
    then show False using that by (simp add: unat_of_nat take_bit_eq_mod)
  qed
  then have "crlf_turn 1 crlf_field (of_nat v) (Some out) = Some (if 32 \<le> v \<and> v < 127 then out OR 1 else out)"
    using crlf_field_allows [of v] Cons.prems by (auto simp: crlf_turn_def)
  then show ?case using Cons.IH Cons.prems by (auto simp: or.assoc)
qed simp

lemma crlf_field_states: "AdvanceCrLfStates 1 crlf_field = Some 1"
proof -
  have "\<exists>v \<in> set [0..<128]. 32 \<le> v \<and> v < (127 :: nat)" by (rule bexI [of _ 65]) simp_all
  then have "fold (\<lambda>v. crlf_turn 1 crlf_field (of_nat v)) [0..<128] (Some 0) = Some 1"
    using crlf_field_turns [of "[0..<128]" 0] by (simp add: lessThan_atLeast0 del: upt_rec_numeral)
  then show ?thesis by (simp add: AdvanceCrLfStates_def del: upt_rec_numeral)
qed

lemma crlf_field_printable: "list_all (\<lambda>character. FieldAllowsAscii crlf_field (of_nat character)) [0x20..<0x7F]"
  using crlf_field_allows by (auto simp: list_all_iff simp del: upt_rec_numeral)

lemma crlf_draft_parts [simp]:
  "dd_schema_version crlf_draft = ''0.11''" "dd_protocol_id crlf_draft = ''example''"
  "dd_protocol_version crlf_draft = ''1''" "dd_resource_profile crlf_draft = DESKTOP"
  "dd_resource_requirements crlf_draft = crlf_requirements"
  "dd_framing_profiles crlf_draft = [line_framing]" "dd_pipelines crlf_draft = [example_pipeline_plan]"
  "dd_messages crlf_draft = [crlf_message]" "dd_conversions crlf_draft = []"
  "dd_approved_plan_memory crlf_draft = crlf_memory" "dd_plan_memory_limit_bytes crlf_draft = 0"
  "dd_test_fail_at_allocation crlf_draft = 0"
  by (simp_all add: crlf_draft_def)

lemma crlf_ids: "IsStableId ''lines''" "IsStableId ''word''"
  by (simp_all add: IsStableId_def kMaxStableIdCharacters_def)

lemma crlf_framing_prepared:
  "PrepareFraming ''0.11'' kDesktopResourceProfileLimits k line_framing ([], r) = Inr ([''lines''],
     r\<lparr>rq_max_stream_frame_bytes := max (rq_max_stream_frame_bytes r) 4, rq_max_sync_bytes := max (rq_max_sync_bytes r) 2,
       rq_max_framing_buffer_bytes := max (rq_max_stream_frame_bytes r) 4\<rparr>)"
  using line_admitted
  by (simp add: PrepareFraming_def line_framing_def [THEN arg_cong [of _ _ fp_id]] crlf_ids
      line_framing_def [THEN arg_cong [of _ _ fp_sync_bytes]] Let_def numeral_2_eq_2)

lemma crlf_counted:
  "CountMessage kDesktopResourceProfileLimits 0 crlf_message (start_requirements crlf_draft) = Inr (crlf_requirements
     \<lparr>rq_max_stream_frame_bytes := 0, rq_max_sync_bytes := 0, rq_max_framing_buffer_bytes := 0\<rparr>)"
  by (simp add: CountMessage_def CountText_def CountParts_def CountEnumEntries_def AddSizeChecked_def SIZE_MAX_def
      crlf_message_def crlf_field_def crlf_action_def example_field_def start_requirements_def no_requirements_def
      segments_of_def kDesktopResourceProfileLimits_def crlf_requirements_def)

lemma crlf_resources: "CheckResources crlf_draft = Inr crlf_requirements"
  by (simp add: CheckResources_def MetadataValid_def schema_versions_def example_ids crlf_counted unless_def followed_by_def
      crlf_framing_prepared RequirementsEqual_iff Let_def Suc_le_eq crlf_requirements_def)

definition crlf_execution :: MessageExecutionPlan where
  "crlf_execution = no_message_execution
     \<lparr>me_frame_size := 4, me_fields := [text_field_of [False] 0 crlf_field], me_text_decode := Some crlf_action,
      me_text_decode_field_count := 1\<rparr>"

lemma crlf_validated:
  "ValidateAction [crlf_field] 4 True (Some crlf_action) = Some ([True], 1)"
  by (simp add: ValidateAction_def crlf_action_def CheckLiteral_def CheckFieldSegment_def ToSize_def AddSizeChecked_def
      SIZE_MAX_def line_table crlf_field_def)

lemma crlf_prepared_message:
  "PrepareTextMessage ''0.11'' 0 crlf_message \<lparr>at_decode = Some crlf_action, at_encode = None\<rparr> 4 = Inr crlf_execution"
proof -
  have m: "ms_fields crlf_message = [crlf_field]" "ms_matchers crlf_message = []" "ms_bit_containers crlf_message = []"
    "ms_integrity crlf_message = None" "ms_bounded_payload crlf_message = None" "ms_computed_length crlf_message = None"
    by (simp_all add: crlf_message_def)
  have f: "fl_id crlf_field = ''word''" "fl_value_type crlf_field = VT_BYTES" "fl_wire_codec crlf_field = WC_ASCII_TEXT"
    by (simp_all add: crlf_field_def)
  show ?thesis
    using crlf_field_printable
    by (simp add: PrepareTextMessage_def unless_def m crlf_validated ValidateAction_def [of _ _ _ None] followed_by_def
        PrepareTextField_def f crlf_ids crlf_execution_def text_field_of_def no_message_execution_def del: upt_rec_numeral)
qed

definition crlf_prepared_messages :: MessagesState where
  "crlf_prepared_messages = \<lparr>mg_ids = [''line''], mg_reference_counts = [], mg_plans = [crlf_execution],
     mg_max_fields = 1, mg_max_inputs = 0, mg_conversion_slots = 0\<rparr>"

lemma crlf_messages: "PrepareMessages crlf_draft = Inr crlf_prepared_messages"
proof -
  have m: "ms_id crlf_message = ''line''" "ms_direction_id crlf_message = ''up''" "ms_frame_length_bytes crlf_message = 4"
    "ms_ascii_text crlf_message = Some \<lparr>at_decode = Some crlf_action, at_encode = None\<rparr>" "length (ms_fields crlf_message) = 1"
    "me_required_input_count crlf_execution = 0"
    by (simp_all add: crlf_message_def crlf_execution_def no_message_execution_def)
  show ?thesis
    by (simp add: PrepareMessages_def PrepareMessage_def followed_by_def unless_def m example_ids crlf_prepared_message
        ToSize_def SIZE_MAX_def crlf_prepared_messages_def)
qed

definition crlf_layout :: ExecutionResourceLayout where
  "crlf_layout = \<lparr>rl_max_fields_per_message = 1, rl_max_input_fields_per_message = 0, rl_encode_value_index_count = 0,
     rl_encode_presence_word_count = 0, rl_bit_container_value_count = 0, rl_conversion_value_count = 0,
     rl_estimated_workspace_bytes = 0\<rparr>"

lemma crlf_layout_fits:
  "PrepareLayout 4 kDesktopResourceProfileLimits [crlf_message] crlf_prepared_messages = Some crlf_layout"
  by (simp add: PrepareLayout_def kBitsPerAllowedMessageWord_def MultiplySizeChecked_def AddSizeChecked_def SIZE_MAX_def
      kConversionWorkspaceBytesPerSlot_def crlf_layout_def crlf_message_def crlf_prepared_messages_def)

definition crlf_pipeline :: PipelineExecutionPlan where
  "crlf_pipeline = \<lparr>pe_framing_profile_index = 0, pe_allowed_message_words = [1], pe_candidate_groups = [],
     pe_variable_message_indices = [], pe_text_message_indices = [0]\<rparr>"

lemma crlf_proved: "ProveAsciiCrLfBoundary crlf_action [crlf_field]"
proof -
  have "fl_text_min_length crlf_field = 1" "fl_text_max_length crlf_field = Suc (Suc 0)" by (simp_all add: crlf_field_def)
  then show ?thesis by (simp add: ProveAsciiCrLfBoundary_def crlf_action_def Let_def crlf_field_states)
qed

lemma crlf_pipelines:
  "PreparePipeline [crlf_message] [crlf_execution] [line_framing] 0 example_pipeline_plan ([], []) = Inr ([''line''], [crlf_pipeline])"
proof -
  have m: "ms_direction_id crlf_message = ''up''" "ms_fields crlf_message = [crlf_field]"
    "ms_ascii_text crlf_message = Some \<lparr>at_decode = Some crlf_action, at_encode = None\<rparr>"
    "me_text_decode crlf_execution = Some crlf_action" "tap_max_record_length crlf_action = 4"
    by (simp_all add: crlf_message_def crlf_execution_def no_message_execution_def crlf_action_def)
  have f: "fp_input_kind line_framing = IK_STREAM_CHUNK" "fp_strategy line_framing = FS_ASCII_CRLF" "fp_maximum_frame_length line_framing = 4"
    by (simp_all add: line_framing_def)
  show ?thesis
    by (simp add: PreparePipeline_def unless_def followed_by_def PipelineMessage_def StreamMessage_def AsciiStreamMessage_def
        SortCandidate_def ambiguous_def allowed_word_count_def kBitsPerAllowedMessageWord_def example_pipeline_plan_def m f
        crlf_proved crlf_pipeline_def example_ids Let_def)
qed

definition crlf_descriptors :: PreparedPlan where
  "crlf_descriptors = \<lparr>pr_requirements = crlf_requirements, pr_layout = crlf_layout, pr_messages = [crlf_execution],
     pr_pipelines = [crlf_pipeline]\<rparr>"

lemma crlf_draft_prepared: "PrepareDraft 4 crlf_draft = Inr crlf_descriptors"
  by (simp add: PrepareDraft_def followed_by_def crlf_resources crlf_messages crlf_layout_fits crlf_pipelines
      crlf_descriptors_def crlf_prepared_messages_def [THEN arg_cong [of _ _ mg_plans]])

lemma crlf_estimate:
  "EstimatePreparedPlanMemory example_abi crlf_draft [crlf_execution] [crlf_pipeline] SIZE_MAX = Some crlf_memory"
  by (simp add: estimating line_framing_def example_pipeline_plan_def crlf_message_def crlf_field_def example_field_def
      crlf_execution_def no_message_execution_def text_field_of_def no_field_execution_def crlf_action_def crlf_pipeline_def)
    (simp add: numeral_2_eq_2 [symmetric] crlf_memory_def)

definition crlf_plan :: PlanBundle where
  "crlf_plan = bundle_of 1000 crlf_draft crlf_descriptors"

lemma crlf_frozen: "Freeze example_build (Some crlf_draft) = Inr (crlf_plan, crlf_memory)"
proof -
  have platform: "bp_memory_available example_build" "bp_value_type_bytes example_build = 4" "bp_abi example_build = example_abi"
    "bp_address example_build = 1000"
    by (simp_all add: example_build_def)
  have "mr_accounted_total_bytes crlf_memory \<le> effective_plan_memory_limit crlf_draft"
    by (simp add: crlf_memory_def effective_plan_memory_limit_def kDesktopResourceProfileLimits_def kV01MaxPlanMemoryHardLimit_def)
  then show ?thesis
    using Freeze_exact [OF example_abi_ok platform(1), of crlf_draft]
    by (simp add: platform followed_by_def crlf_draft_prepared crlf_descriptors_def crlf_estimate not_less crlf_plan_def)
qed

text \<open>Two lines sent in one chunk.\<close>

definition crlf_lines :: "u8 list list" where
  "crlf_lines = [[0x41, 0x0D, 0x0A], [0x42, 0x43, 0x0D, 0x0A]]"

definition crlf_workspace :: StreamFramingWorkspace where
  "crlf_workspace = the (cr_workspace (CreateStreamFramingWorkspace 256 16 True crlf_plan 0 no_overrides))"

lemma crlf_plan_parts [simp]:
  "pb_address crlf_plan = 1000" "pb_schema_version crlf_plan = ''0.11''" "pb_resource_profile crlf_plan = DESKTOP"
  "pb_framing_profiles crlf_plan = [line_framing]" "pb_pipelines crlf_plan = [example_pipeline_plan]"
  "pb_message_execution_plans crlf_plan = [crlf_execution]" "pb_pipeline_execution_plans crlf_plan = [crlf_pipeline]"
  by (simp_all add: crlf_plan_def bundle_of_def crlf_descriptors_def)

lemma crlf_created: "cr_workspace (CreateStreamFramingWorkspace 256 16 True crlf_plan 0 no_overrides) = Some crlf_workspace"
  by (simp add: crlf_workspace_def line_framing_def example_pipeline_plan_def no_overrides_def CreateStreamFramingWorkspace_def
      SelectLimit_def kDesktopResourceProfileLimits_def kMaxStreamSubmitBytesHardLimit_def kMaxStreamFramesPerSubmitHardLimit_def
      kMaxStreamWorkUnitsHardLimit_def kMaxStreamSyncBytesHardLimit_def kMaxStreamSessionMemoryBytesHardLimit_def
      kMaxStreamFrameBytesHardLimit_def SIZE_MAX_def frame_capacity_of_def Let_def)

lemma crlf_push:
  "\<exists>w' r. PushStreamChunk crlf_plan crlf_workspace 0 (bytes_view (concat crlf_lines)) (Some keep_going) None () =
    Some (w', r, (), crlf_lines) \<and> rs_bytes_consumed r = 7 \<and> rs_bytes_discarded r = 0"
  by (simp add: PushStreamChunk_def Push_refusal_def Push_loop.simps Push_step_def step_ascii_def step_deliver_def
      framer_ops Stream_Framer.charge_def bytes_view_def keep_going_def start_push_def initial_result_def crlf_workspace_def line_framing_def
      example_pipeline_plan_def no_overrides_def CreateStreamFramingWorkspace_def
      SelectLimit_def kDesktopResourceProfileLimits_def kMaxStreamSubmitBytesHardLimit_def kMaxStreamFramesPerSubmitHardLimit_def
      kMaxStreamWorkUnitsHardLimit_def kMaxStreamSyncBytesHardLimit_def kMaxStreamSessionMemoryBytesHardLimit_def
      kMaxStreamFrameBytesHardLimit_def SIZE_MAX_def frame_capacity_of_def Let_def crlf_lines_def
      NewStreamFramingWorkspace_def ResetCandidate_def release_def after_loop_def HasInternalWork_def
      HasHalfFrame_def replicate_small)

lemma crlf_session: "\<exists>w. framer_session crlf_plan 0 w () (concat crlf_lines) crlf_lines 0"
  using crlf_push framer_session.Submitted [OF framer_session.Created [OF refl crlf_created]]
  by (fastforce simp: bytes_view_def crlf_lines_def)

end
