(* ===== verification/Compiler_Example.thy ===== *)
theory Compiler_Example
  imports Compiler_Boundary Plan_Example
begin

text \<open>
  A configuration with a text message on a CR LF framed stream, taken through the stages of the compiler.  What the
  assembler makes of it is the draft of the second example of \<open>Plan_Example\<close>, with the budget's memory limit.
\<close>

section \<open>The configuration\<close>

definition crlf_field_ir :: FieldIr where
  "crlf_field_ir = \<lparr>fd_id = ''word'', fd_display_name = [], fd_description = [], fd_source_ref = [],
     fd_value_type = VT_BYTES,
     fd_wire = \<lparr>wi_codec = WC_ASCII_TEXT, wi_byte_offset = 0, wi_byte_width = 0, wi_byte_order = BO_NOT_APPLICABLE,
       wi_container_id = [], wi_bit_offset = 0, wi_bit_width = 0, wi_bit_container_index = kInvalidIndex,
       wi_origin = ''/messages/0/fields/0/wire'', wi_text_min_length = 1, wi_text_max_length = 2,
       wi_allowed_ascii_low = 0xFFFFFFFF00000000, wi_allowed_ascii_high = 0x7FFFFFFFFFFFFFFF\<rparr>,
     fd_encode = \<lparr>eo_source = ES_INPUT, eo_constant_value = None, eo_origin = [], eo_signed_constant_value = None\<rparr>,
     fd_computed_length = None, fd_unknown_enum_policy = UE_REJECT, fd_enum_entries = [], fd_conversion = None,
     fd_origin = ''/messages/0/fields/0''\<rparr>"

text \<open>The action before and after the validator has resolved it.\<close>

definition crlf_action_ir :: "nat \<Rightarrow> nat \<Rightarrow> nat \<Rightarrow> TextActionIr" where
  "crlf_action_ir k least most = \<lparr>ta_segments =
     [\<lparr>ti_kind = TS_FIELD, ti_literal = [], ti_field_id = ''word'', ti_field_index = k,
       ti_origin = ''/messages/0/layout/decode/segments/0''\<rparr>,
      \<lparr>ti_kind = TS_LITERAL, ti_literal = [0x0D, 0x0A], ti_field_id = [], ti_field_index = 0,
       ti_origin = ''/messages/0/layout/decode/segments/1''\<rparr>],
     ta_min_record_length = least, ta_max_record_length = most\<rparr>"

definition crlf_message_ir :: "TextActionIr \<Rightarrow> nat \<Rightarrow> MessageIr" where
  "crlf_message_ir action n = \<lparr>mi_id = ''line'', mi_display_name = [], mi_description = [], mi_source_ref = [],
     mi_direction_id = ''up'', mi_frame_length_bytes = n, mi_bounded_payload = None, mi_matcher_clauses = [],
     mi_bit_containers = [], mi_integrity = None, mi_fields = [crlf_field_ir],
     mi_ascii_text = Some \<lparr>al_decode = Some action, al_encode = None, al_origin = ''/messages/0/layout''\<rparr>,
     mi_origin = ''/messages/0''\<rparr>"

definition line_framing_ir :: FramingProfileIr where
  "line_framing_ir = \<lparr>fi_id = ''lines'', fi_display_name = [], fi_description = [], fi_source_ref = [],
     fi_input_kind = IK_STREAM_CHUNK, fi_strategy = FS_ASCII_CRLF, fi_frame_length_bytes = 0, fi_sync_bytes = [0x0D, 0x0A],
     fi_length_field_offset = 0, fi_length_field_width = 0, fi_length_field_byte_order = BO_NOT_APPLICABLE,
     fi_minimum_frame_length = 0, fi_maximum_frame_length = 4, fi_origin = ''/framing_profiles/0''\<rparr>"

definition line_pipeline_ir :: PipelineIr where
  "line_pipeline_ir = \<lparr>pi_id = ''line'', pi_display_name = [], pi_description = [], pi_source_ref = [],
     pi_direction_id = ''up'', pi_input_framing_profile_id = ''lines'', pi_message_ids = [''line''],
     pi_origin = ''/pipelines/0''\<rparr>"

definition crlf_schema :: "MessageIr \<Rightarrow> SchemaIr" where
  "crlf_schema message = \<lparr>sc_schema_version = ''0.11'', sc_protocol_id = ''example'', sc_protocol_version = ''1'',
     sc_display_name = [], sc_description = [], sc_source_ref = [], sc_resource_profile = DESKTOP,
     sc_framing_profiles = [line_framing_ir], sc_pipelines = [line_pipeline_ir], sc_messages = [message]\<rparr>"

abbreviation unresolved_schema :: SchemaIr where
  "unresolved_schema \<equiv> crlf_schema (crlf_message_ir (crlf_action_ir kInvalidIndex 0 0) 0)"

abbreviation resolved_message :: MessageIr where
  "resolved_message \<equiv> crlf_message_ir (crlf_action_ir 0 3 4) 4"

section \<open>Validation\<close>

lemma crlf_field_assembled: "assembled_field crlf_field_ir crlf_field"
  unfolding assembled_field_def
  by (rule exI [of _ "[]"]) (simp add: AssembleField_def crlf_field_ir_def crlf_field_def example_field_def)

lemma line_tables: "prefix_table_of [] = []" "prefix_table_of [0x0D, 0x0A] = [0, 0]"
  by (simp_all add: prefix_table_of_def BuildPrefixTable_def upt_rec Advance_def)

lemma crlf_action_assembled: "AssembleAction (crlf_action_ir 0 3 4) = crlf_action"
  by (simp add: AssembleAction_def AssembleSegment_def crlf_action_ir_def crlf_action_def line_tables)

lemma crlf_boundary_ir: "ProveAsciiCrLfBoundary_ir (crlf_action_ir 0 3 4) [crlf_field_ir]"
  using boundary_proofs_agree [of "[crlf_field_ir]" "[crlf_field]" "crlf_action_ir 0 3 4"] crlf_field_assembled crlf_proved
  by (simp add: text_bounded_def crlf_field_ir_def crlf_action_assembled)

lemma crlf_message_valid:
  "ValidateMessageDomain (crlf_message_ir (crlf_action_ir kInvalidIndex 0 0) 0) r =
   Inr (resolved_message, r\<lparr>rq_max_frame_bytes := max (rq_max_frame_bytes r) 4,
     rq_total_field_count := rq_total_field_count r + 1, rq_total_text_segment_count := rq_total_text_segment_count r + 2\<rparr>)"
  if "rq_total_field_count r < 1000" "rq_total_text_segment_count r < 1000"
proof -
  have "AddSizeChecked (Suc 0) (rq_total_field_count r) = Some (rq_total_field_count r + 1)"
    "AddSizeChecked (Suc (Suc 0)) (rq_total_text_segment_count r) = Some (rq_total_text_segment_count r + 2)"
    using that by (simp_all add: AddSizeChecked_def SIZE_MAX_def)
  then show ?thesis
    by (simp add: ValidateMessageDomain_def ValidateAsciiMessage_def crlf_message_ir_def crlf_field_ir_def followed_by_def
        ValidateTextField_def emplace_def ValidateOptionalAction_def ValidateTextAction_def crlf_action_ir_def
        ValidateTextSegment_def ValidateTextLiteral_def AddUint64Checked_def ValidateReference_def longest_def Let_def)
qed

definition crlf_validated_ir :: ValidatedSchemaIr where
  "crlf_validated_ir = \<lparr>va_schema = crlf_schema resolved_message,
     va_resolved_pipelines = [\<lparr>rp_framing_profile_index = 0, rp_message_indices = [0]\<rparr>],
     va_requirements = crlf_requirements\<rparr>"

lemma crlf_valid: "Validate unresolved_schema = Inr crlf_validated_ir"
proof -
  have framing_ok: "ValidateFraming 0 line_framing_ir r = Inr (r\<lparr>rq_max_stream_frame_bytes := max (rq_max_stream_frame_bytes r) 4,
      rq_max_sync_bytes := max (rq_max_sync_bytes r) 2\<rparr>)" for r
    by (simp add: ValidateFraming_def ValidateStreamFramingLocal_def line_framing_ir_def followed_by_def SIZE_MAX_def Let_def
        numeral_2_eq_2)
  have stream: "CheckStreamMessage (crlf_schema resolved_message) line_pipeline_ir line_framing_ir 0 0 0 = Inr 1"
    using crlf_boundary_ir
    by (simp add: CheckStreamMessage_def crlf_schema_def crlf_message_ir_def line_framing_ir_def crlf_action_ir_def Let_def
        MessageFrameBounds_def)
  have ids: "fi_id line_framing_ir = ''lines''" "pi_id line_pipeline_ir = ''line''" "mi_id (crlf_message_ir a n) = ''line''"
    "fi_input_kind line_framing_ir = IK_STREAM_CHUNK" "fi_strategy line_framing_ir = FS_ASCII_CRLF"
    "pi_message_ids line_pipeline_ir = [''line'']" "pi_input_framing_profile_id line_pipeline_ir = ''lines''"
    "mi_direction_id (crlf_message_ir a n) = ''up''" "pi_direction_id line_pipeline_ir = ''up''" for a n
    by (simp_all add: line_framing_ir_def line_pipeline_ir_def crlf_message_ir_def)
  have schema: "sc_framing_profiles (crlf_schema m) = [line_framing_ir]" "sc_pipelines (crlf_schema m) = [line_pipeline_ir]"
    "sc_messages (crlf_schema m) = [m]" "crlf_schema m\<lparr>sc_messages := [m']\<rparr> = crlf_schema m'" for m m'
    by (simp_all add: crlf_schema_def)
  have pipe: "ValidatePipeline (crlf_schema resolved_message) [(''lines'', 0)] [(''line'', 0)] 0 line_pipeline_ir [] =
      Inr [\<lparr>rp_framing_profile_index = 0, rp_message_indices = [0]\<rparr>]"
    using stream by (simp add: ValidatePipeline_def ResolveReference_def followed_by_def Let_def ids schema)
  show ?thesis
    by (simp add: Validate_def BuildUniqueIdIndex_def emplace_def followed_by_def ids schema framing_ok ValidateMessages_def
        crlf_message_valid pipe crlf_validated_ir_def crlf_requirements_def no_requirements_def Let_def numeral_2_eq_2)
qed

section \<open>The budget and the draft\<close>

definition crlf_limit :: nat where
  "crlf_limit = min (max_plan_memory_bytes kDesktopResourceProfileLimits) kV01MaxPlanMemoryHardLimit"

definition crlf_budgeted :: BudgetedSchemaIr where
  "crlf_budgeted = \<lparr>bu_validated = crlf_validated_ir, bu_plan_memory = crlf_memory, bu_plan_memory_limit_bytes = crlf_limit\<rparr>"

lemma crlf_assembled: "Assemble crlf_budgeted = crlf_draft\<lparr>dd_plan_memory_limit_bytes := crlf_limit\<rparr>"
  by (simp add: Assemble_def crlf_budgeted_def crlf_validated_ir_def crlf_schema_def AssembleMessage_def AssembleField_def
      crlf_message_ir_def crlf_field_ir_def crlf_draft_def AssembleFraming_def AssemblePipeline_def line_framing_ir_def
      line_framing_def line_pipeline_ir_def example_pipeline_plan_def line_tables AssembleText_def crlf_action_assembled
      AssembleComputedLength_def crlf_message_def crlf_field_def example_field_def Let_def)

lemma crlf_assembled_prepared: "PrepareDraft 4 (Assemble crlf_budgeted) = Inr crlf_descriptors"
proof -
  have "PrepareDraft 4 (d\<lparr>dd_plan_memory_limit_bytes := n\<rparr>) = PrepareDraft 4 d" for d n
  proof -
    let ?d = "d\<lparr>dd_plan_memory_limit_bytes := n\<rparr>"
    have checks: "CheckResources ?d = CheckResources d" "PrepareMessages ?d = PrepareMessages d"
      by (simp_all add: CheckResources_def MetadataValid_def PrepareMessages_def start_requirements_def)
    have parts: "dd_resource_profile ?d = dd_resource_profile d" "dd_messages ?d = dd_messages d"
      "dd_framing_profiles ?d = dd_framing_profiles d" "dd_pipelines ?d = dd_pipelines d"
      by simp_all
    show ?thesis unfolding PrepareDraft_def checks parts by (rule refl)
  qed
  then show ?thesis by (simp add: crlf_assembled crlf_draft_prepared)
qed

lemmas estimating_ir = EstimateSchemaPlanMemory_def AddStringLayout_ir_def EstimateFraming_ir_def EstimatePipeline_ir_def
  EstimateMessage_ir_def EstimateField_ir_def EstimateMessageExecution_ir_def EstimatePipelineExecution_ir_def
  EstimateTextAction_ir_def conversion_count_def fixed_byte_offsets_def count_candidate_def

lemma crlf_estimate_ir:
  "EstimateSchemaPlanMemory example_abi (crlf_schema resolved_message)
     [\<lparr>rp_framing_profile_index = 0, rp_message_indices = [0]\<rparr>] SIZE_MAX = Some crlf_memory"
  by (simp add: estimating_ir estimating crlf_schema_def line_framing_ir_def line_pipeline_ir_def crlf_message_ir_def
      crlf_field_ir_def crlf_action_ir_def Let_def)
    (simp add: numeral_2_eq_2 [symmetric] crlf_memory_def)

lemma crlf_budget: "ValidateBudget example_abi None crlf_validated_ir = Inr crlf_budgeted"
proof -
  have v: "va_schema crlf_validated_ir = crlf_schema resolved_message" "va_requirements crlf_validated_ir = crlf_requirements"
    "va_resolved_pipelines crlf_validated_ir = [\<lparr>rp_framing_profile_index = 0, rp_message_indices = [0]\<rparr>]"
    by (simp_all add: crlf_validated_ir_def)
  have schema: "sc_resource_profile (crlf_schema m) = DESKTOP" "sc_messages (crlf_schema m) = [m]" for m
    by (simp_all add: crlf_schema_def)
  have "CheckStreamBudget kDesktopResourceProfileLimits crlf_requirements = Inr ()"
    "all_counts (total_counts kDesktopResourceProfileLimits crlf_requirements) = Inr ()"
    by (simp_all add: CheckStreamBudget_def total_counts_def CheckResourceCount_def crlf_requirements_def followed_by_def
        kDesktopResourceProfileLimits_def kMaxStreamFrameBytesHardLimit_def kMaxStreamSyncBytesHardLimit_def
        kMaxStreamSessionMemoryBytesHardLimit_def)
  moreover have "all_counts (message_counts kDesktopResourceProfileLimits resolved_message) = Inr ()"
    by (simp add: message_counts_def CheckResourceCount_def followed_by_def kDesktopResourceProfileLimits_def
        crlf_message_ir_def crlf_field_ir_def crlf_action_ir_def Let_def)
  moreover have "mr_accounted_total_bytes crlf_memory \<le> crlf_limit"
    by (simp add: crlf_memory_def crlf_limit_def kDesktopResourceProfileLimits_def kV01MaxPlanMemoryHardLimit_def)
  ultimately show ?thesis
    by (simp add: ValidateBudget_def v schema crlf_estimate_ir followed_by_def crlf_limit_def [symmetric] crlf_budgeted_def Let_def)
qed

end
