(* ===== verification/Compiler_Encode_Only.thy ===== *)
theory Compiler_Encode_Only
  imports Compiler_Sound Plan_Example
begin

text \<open>
  A configuration that only encodes: two text messages without a decoding, each of one literal of six characters, in
  one pipeline of complete records, after the fixture \<^verbatim>\<open>synthetic_ascii_encode_only.pae.json\<close> of the tests.
  The validator accepts it and the budget approves it; the builder then takes the two messages for binary ones that
  a record could match both.
\<close>

section \<open>The configuration\<close>

definition reply_action_ir :: "u8 \<Rightarrow> nat \<Rightarrow> TextActionIr" where
  "reply_action_ir c n = \<lparr>ta_segments =
     [\<lparr>ti_kind = TS_LITERAL, ti_literal = [0x50, c, 0x4E, 0x47, 0x0D, 0x0A], ti_field_id = [], ti_field_index = 0,
       ti_origin = ''/messages/0/layout/encode/segments/0''\<rparr>],
     ta_min_record_length = n, ta_max_record_length = n\<rparr>"

definition reply_ir :: "string \<Rightarrow> u8 \<Rightarrow> nat \<Rightarrow> MessageIr" where
  "reply_ir name c n = \<lparr>mi_id = name, mi_display_name = ''Encode-only'', mi_description = [], mi_source_ref = [],
     mi_direction_id = ''up'', mi_frame_length_bytes = n, mi_bounded_payload = None, mi_matcher_clauses = [],
     mi_bit_containers = [], mi_integrity = None, mi_fields = [],
     mi_ascii_text = Some \<lparr>al_decode = None, al_encode = Some (reply_action_ir c n), al_origin = ''/messages/0/layout''\<rparr>,
     mi_origin = ''/messages/0''\<rparr>"

definition reply_framing_ir :: FramingProfileIr where
  "reply_framing_ir = \<lparr>fi_id = ''records'', fi_display_name = [], fi_description = [], fi_source_ref = [],
     fi_input_kind = IK_COMPLETE_RECORD, fi_strategy = FS_COMPLETE_RECORD, fi_frame_length_bytes = 0, fi_sync_bytes = [],
     fi_length_field_offset = 0, fi_length_field_width = 0, fi_length_field_byte_order = BO_NOT_APPLICABLE,
     fi_minimum_frame_length = 0, fi_maximum_frame_length = 0, fi_origin = ''/framing_profiles/0''\<rparr>"

definition reply_pipeline_ir :: PipelineIr where
  "reply_pipeline_ir = \<lparr>pi_id = ''line'', pi_display_name = [], pi_description = [], pi_source_ref = [],
     pi_direction_id = ''up'', pi_input_framing_profile_id = ''records'', pi_message_ids = [''pong'', ''ping''],
     pi_origin = ''/pipelines/0''\<rparr>"

definition reply_schema :: "nat \<Rightarrow> SchemaIr" where
  "reply_schema n = \<lparr>sc_schema_version = ''0.10'', sc_protocol_id = ''example'', sc_protocol_version = ''1'',
     sc_display_name = [], sc_description = [], sc_source_ref = [], sc_resource_profile = DESKTOP,
     sc_framing_profiles = [reply_framing_ir], sc_pipelines = [reply_pipeline_ir],
     sc_messages = [reply_ir ''pong'' 0x4F n, reply_ir ''ping'' 0x49 n]\<rparr>"

section \<open>Validation\<close>

definition reply_requirements :: ResourceRequirements where
  "reply_requirements = no_requirements\<lparr>rq_max_frame_bytes := 6, rq_framing_profile_count := 1, rq_pipeline_count := 1,
     rq_message_count := 2, rq_total_text_segment_count := 2\<rparr>"

definition reply_validated :: ValidatedSchemaIr where
  "reply_validated = \<lparr>va_schema = reply_schema 6,
     va_resolved_pipelines = [\<lparr>rp_framing_profile_index = 0, rp_message_indices = [0, 1]\<rparr>],
     va_requirements = reply_requirements\<rparr>"

lemma reply_message_valid:
  "ValidateMessageDomain (reply_ir name c 0) r = Inr (reply_ir name c 6, r\<lparr>rq_max_frame_bytes := max (rq_max_frame_bytes r) 6,
     rq_total_text_segment_count := rq_total_text_segment_count r + 1\<rparr>)"
  if "rq_total_text_segment_count r < 1000" "rq_total_field_count r = 0"
proof -
  have "AddSizeChecked (Suc 0) (rq_total_text_segment_count r) = Some (rq_total_text_segment_count r + 1)"
    using that by (simp add: AddSizeChecked_def SIZE_MAX_def)
  then show ?thesis
    using that(2)
    by (simp add: ValidateMessageDomain_def ValidateAsciiMessage_def reply_ir_def followed_by_def ValidateOptionalAction_def
        ValidateTextAction_def reply_action_ir_def ValidateTextSegment_def ValidateTextLiteral_def AddUint64Checked_def
        AddSizeChecked_def [of 0] longest_def Let_def)
qed

lemma reply_valid: "Validate (reply_schema 0) = Inr reply_validated"
proof -
  have framing_ok: "ValidateFraming 0 reply_framing_ir r = Inr r" for r
    by (simp add: ValidateFraming_def ValidateStreamFramingLocal_def reply_framing_ir_def followed_by_def)
  have ids: "fi_id reply_framing_ir = ''records''" "pi_id reply_pipeline_ir = ''line''" "mi_id (reply_ir name c n) = name"
    "fi_input_kind reply_framing_ir = IK_COMPLETE_RECORD" "mi_ascii_text (reply_ir name c n) \<noteq> None"
    "pi_message_ids reply_pipeline_ir = [''pong'', ''ping'']" "pi_input_framing_profile_id reply_pipeline_ir = ''records''"
    "mi_direction_id (reply_ir name c n) = ''up''" "pi_direction_id reply_pipeline_ir = ''up''" for name c n
    by (simp_all add: reply_framing_ir_def reply_pipeline_ir_def reply_ir_def)
  have schema: "sc_framing_profiles (reply_schema n) = [reply_framing_ir]" "sc_pipelines (reply_schema n) = [reply_pipeline_ir]"
    "sc_messages (reply_schema n) = [reply_ir ''pong'' 0x4F n, reply_ir ''ping'' 0x49 n]"
    "reply_schema k\<lparr>sc_messages := [reply_ir ''pong'' 0x4F n, reply_ir ''ping'' 0x49 n]\<rparr> = reply_schema n" for k n
    by (simp_all add: reply_schema_def)
  have pipe: "ValidatePipeline (reply_schema 6) [(''records'', 0)] [(''pong'', 0), (''ping'', 1)] 0 reply_pipeline_ir [] =
      Inr [\<lparr>rp_framing_profile_index = 0, rp_message_indices = [0, 1]\<rparr>]"
    using ids(5) by (simp add: ValidatePipeline_def ResolveReference_def FixedMatchersCanIntersect_ir_def followed_by_def Let_def
        ids(1-4,6-) schema)
  show ?thesis
    using pipe
    by (simp add: Validate_def BuildUniqueIdIndex_def emplace_def followed_by_def ids(1-4,6-) schema framing_ok ValidateMessages_def
        reply_message_valid reply_validated_def reply_requirements_def no_requirements_def Let_def)
qed

section \<open>The draft\<close>

definition reply_action :: "u8 \<Rightarrow> TextActionPlan" where
  "reply_action c = \<lparr>tap_segments =
     [\<lparr>tsp_kind = TS_LITERAL, tsp_literal = [0x50, c, 0x4E, 0x47, 0x0D, 0x0A], tsp_prefix_table = [0, 0, 0, 0, 0, 0],
       tsp_field_index = 0\<rparr>],
     tap_min_record_length = 6, tap_max_record_length = 6\<rparr>"

definition reply_message :: "string \<Rightarrow> u8 \<Rightarrow> MessagePlan" where
  "reply_message name c = \<lparr>ms_id = name, ms_direction_id = ''up'', ms_frame_length_bytes = 6, ms_matchers = [],
     ms_bit_containers = [], ms_integrity = None, ms_bounded_payload = None, ms_computed_length = None, ms_fields = [],
     ms_ascii_text = Some \<lparr>at_decode = None, at_encode = Some (reply_action c)\<rparr>\<rparr>"

definition reply_framing :: FramingPlan where
  "reply_framing = \<lparr>fp_id = ''records'', fp_input_kind = IK_COMPLETE_RECORD, fp_strategy = FS_COMPLETE_RECORD,
     fp_frame_length_bytes = 0, fp_sync_bytes = [], fp_sync_prefix_table = [], fp_length_field_offset = 0,
     fp_length_field_width = 0, fp_length_field_byte_order = BO_NOT_APPLICABLE, fp_minimum_frame_length = 0,
     fp_maximum_frame_length = 0\<rparr>"

definition reply_pipeline :: PipelinePlan where
  "reply_pipeline = \<lparr>pl_id = ''line'', pl_direction_id = ''up'', pl_framing_profile_index = 0, pl_message_indices = [0, 1]\<rparr>"

definition reply_draft :: "PlanMemoryReport \<Rightarrow> nat \<Rightarrow> PlanDraftData" where
  "reply_draft memory limit = \<lparr>dd_schema_version = ''0.10'', dd_protocol_id = ''example'', dd_protocol_version = ''1'',
     dd_resource_profile = DESKTOP, dd_resource_requirements = reply_requirements, dd_framing_profiles = [reply_framing],
     dd_pipelines = [reply_pipeline], dd_messages = [reply_message ''pong'' 0x4F, reply_message ''ping'' 0x49],
     dd_conversions = [], dd_approved_plan_memory = memory, dd_plan_memory_limit_bytes = limit,
     dd_test_fail_at_allocation = 0\<rparr>"

lemma reply_tables: "prefix_table_of [] = []" "prefix_table_of [0x50, 0x4F, 0x4E, 0x47, 0x0D, 0x0A] = [0, 0, 0, 0, 0, 0]"
  "prefix_table_of [0x50, 0x49, 0x4E, 0x47, 0x0D, 0x0A] = [0, 0, 0, 0, 0, 0]"
proof -
  have "replicate 6 (0 :: nat) = [0, 0, 0, 0, 0, 0]" by (simp add: numeral_eq_Suc)
  then show "prefix_table_of [] = []" "prefix_table_of [0x50, 0x4F, 0x4E, 0x47, 0x0D, 0x0A] = [0, 0, 0, 0, 0, 0]"
    "prefix_table_of [0x50, 0x49, 0x4E, 0x47, 0x0D, 0x0A] = [0, 0, 0, 0, 0, 0]"
    by (simp_all add: prefix_table_of_def BuildPrefixTable_def upt_rec Advance_def)
qed

lemma reply_assembled:
  "bu_validated b = reply_validated \<Longrightarrow> Assemble b = reply_draft (bu_plan_memory b) (bu_plan_memory_limit_bytes b)"
  by (simp add: Assemble_def reply_validated_def reply_schema_def AssembleMessage_def reply_ir_def reply_draft_def
      AssembleFraming_def AssemblePipeline_def reply_framing_ir_def reply_framing_def reply_pipeline_ir_def reply_pipeline_def
      reply_tables AssembleText_def AssembleAction_def AssembleSegment_def reply_action_ir_def reply_action_def
      AssembleComputedLength_def reply_message_def Let_def)

section \<open>The builder\<close>

definition reply_execution :: "u8 \<Rightarrow> MessageExecutionPlan" where
  "reply_execution c = no_message_execution\<lparr>me_frame_size := 6, me_text_encode := Some (reply_action c)\<rparr>"

lemma reply_ids: "IsStableId ''pong''" "IsStableId ''ping''"
  by (simp_all add: IsStableId_def kMaxStableIdCharacters_def)

lemma reply_draft_parts [simp]:
  "dd_schema_version (reply_draft memory limit) = ''0.10''" "dd_protocol_id (reply_draft memory limit) = ''example''"
  "dd_protocol_version (reply_draft memory limit) = ''1''" "dd_resource_profile (reply_draft memory limit) = DESKTOP"
  "dd_resource_requirements (reply_draft memory limit) = reply_requirements"
  "dd_framing_profiles (reply_draft memory limit) = [reply_framing]" "dd_pipelines (reply_draft memory limit) = [reply_pipeline]"
  "dd_messages (reply_draft memory limit) = [reply_message ''pong'' 0x4F, reply_message ''ping'' 0x49]"
  "dd_conversions (reply_draft memory limit) = []"
  by (simp_all add: reply_draft_def)

lemma reply_counted:
  "CountMessage kDesktopResourceProfileLimits k (reply_message name c) r =
     Inr (r\<lparr>rq_max_frame_bytes := max (rq_max_frame_bytes r) 6, rq_total_text_segment_count := rq_total_text_segment_count r + 1\<rparr>)"
  if "rq_total_field_count r = 0" "rq_total_matcher_count r = 0" "rq_total_bit_container_count r = 0"
     "rq_total_text_segment_count r < 2" "rq_total_integrity_rule_count r = 0" "rq_total_computed_length_count r = 0"
  using that
  by (simp add: CountMessage_def CountText_def CountParts_def CountEnumEntries_def AddSizeChecked_def SIZE_MAX_def
      reply_message_def reply_action_def segments_of_def kDesktopResourceProfileLimits_def)

lemma reply_resources: "CheckResources (reply_draft memory limit) = Inr reply_requirements"
proof -
  have two: "\<not> max_messages kDesktopResourceProfileLimits < Suc (Suc 0)" by (simp add: kDesktopResourceProfileLimits_def)
  have "PrepareFraming ''0.10'' kDesktopResourceProfileLimits k reply_framing ([], r) = Inr ([''records''], r)" for k r
    by (simp add: PrepareFraming_def reply_framing_def example_ids AdmitFraming_def CheckPrefixTable_def
        CompleteRecordFraming_def no_length_field_def)
  then show ?thesis
    by (simp add: CheckResources_def MetadataValid_def schema_versions_def example_ids reply_counted unless_def followed_by_def
        RequirementsEqual_iff Let_def Suc_le_eq start_requirements_def no_requirements_def reply_requirements_def two)
qed

lemma reply_messages:
  "PrepareMessages (reply_draft memory limit) = Inr \<lparr>mg_ids = [''ping'', ''pong''], mg_reference_counts = [],
     mg_plans = [reply_execution 0x4F, reply_execution 0x49], mg_max_fields = 0, mg_max_inputs = 0, mg_conversion_slots = 0\<rparr>"
proof -
  have m: "ms_id (reply_message name c) = name" "ms_direction_id (reply_message name c) = ''up''"
    "ms_frame_length_bytes (reply_message name c) = 6" "ms_fields (reply_message name c) = []"
    "ms_ascii_text (reply_message name c) = Some \<lparr>at_decode = None, at_encode = Some (reply_action c)\<rparr>"
    "me_required_input_count (reply_execution c) = 0" for name c
    by (simp_all add: reply_message_def reply_execution_def no_message_execution_def)
  have "CheckPrefixTable [0x50, c, 0x4E, 0x47, 0x0D, 0x0A] [0, 0, 0, 0, 0, 0] = Some True" if "c = 0x4F \<or> c = 0x49" for c
    using that by (auto simp: CheckPrefixTable_def upt_rec Advance_def numeral_2_eq_2 [symmetric])
  then have prepared: "PrepareTextMessage ''0.10'' k (reply_message name c) \<lparr>at_decode = None, at_encode = Some (reply_action c)\<rparr> 6 =
      Inr (reply_execution c)" if "c = 0x4F \<or> c = 0x49" for k name c
    using that by (auto simp: PrepareTextMessage_def unless_def reply_message_def ValidateAction_def reply_action_def
        CheckLiteral_def AddSizeChecked_def SIZE_MAX_def followed_by_def reply_execution_def no_message_execution_def)
  show ?thesis
    by (simp add: PrepareMessages_def PrepareMessage_def followed_by_def unless_def m example_ids reply_ids prepared
        ToSize_def SIZE_MAX_def)
qed

lemma reply_refused: "\<exists>d. PrepareDraft 4 (reply_draft memory limit) = Inl d \<and> pd_code d = AMBIGUOUS_MATCHER"
proof -
  have pipe: "PreparePipeline [reply_message ''pong'' 0x4F, reply_message ''ping'' 0x49]
      [reply_execution 0x4F, reply_execution 0x49] [reply_framing] 0 reply_pipeline ([], []) =
      Inl ((RejectPipeline AMBIGUOUS_MATCHER 0)\<lparr>pd_message_index := 1\<rparr>)"
    by (simp add: PreparePipeline_def unless_def followed_by_def PipelineMessage_def StreamMessage_def
        SortCandidate_def ambiguous_def allowed_word_count_def kBitsPerAllowedMessageWord_def reply_pipeline_def reply_framing_def
        reply_message_def reply_execution_def no_message_execution_def FixedMatchersCanIntersect_def
        min_length_def max_length_def example_ids Let_def)
  obtain l where layout: "PrepareLayout 4 kDesktopResourceProfileLimits [reply_message ''pong'' 0x4F, reply_message ''ping'' 0x49]
      \<lparr>mg_ids = [''ping'', ''pong''], mg_reference_counts = [], mg_plans = [reply_execution 0x4F, reply_execution 0x49],
       mg_max_fields = 0, mg_max_inputs = 0, mg_conversion_slots = 0\<rparr> = Some l"
    by (simp add: PrepareLayout_def kBitsPerAllowedMessageWord_def MultiplySizeChecked_def AddSizeChecked_def SIZE_MAX_def
        kConversionWorkspaceBytesPerSlot_def reply_message_def)
  show ?thesis
    by (simp add: PrepareDraft_def followed_by_def reply_resources reply_messages pipe layout RejectPipeline_def Reject_def)
qed

section \<open>The budget\<close>

lemmas estimating_reply = EstimateSchemaPlanMemory_def AddStringLayout_ir_def EstimateFraming_ir_def EstimatePipeline_ir_def
  EstimateMessage_ir_def EstimateField_ir_def EstimateMessageExecution_ir_def EstimatePipelineExecution_ir_def
  EstimateTextAction_ir_def conversion_count_def fixed_byte_offsets_def count_candidate_def estimating
  reply_schema_def reply_framing_ir_def reply_pipeline_ir_def reply_ir_def reply_action_ir_def

lemma reply_estimate:
  "\<exists>memory. EstimateSchemaPlanMemory example_abi (reply_schema 6)
     [\<lparr>rp_framing_profile_index = 0, rp_message_indices = [0, 1]\<rparr>] SIZE_MAX = Some memory \<and>
     mr_accounted_total_bytes memory \<le> 4096"
  by (simp add: estimating_reply Let_def) (simp add: numeral_2_eq_2 [symmetric])

lemma reply_budget: "\<exists>b. ValidateBudget example_abi None reply_validated = Inr b \<and> bu_validated b = reply_validated"
proof -
  obtain memory where memory: "EstimateSchemaPlanMemory example_abi (reply_schema 6)
      [\<lparr>rp_framing_profile_index = 0, rp_message_indices = [0, 1]\<rparr>] SIZE_MAX = Some memory"
      "mr_accounted_total_bytes memory \<le> 4096"
    using reply_estimate by blast
  have v: "va_schema reply_validated = reply_schema 6" "va_requirements reply_validated = reply_requirements"
    "va_resolved_pipelines reply_validated = [\<lparr>rp_framing_profile_index = 0, rp_message_indices = [0, 1]\<rparr>]"
    by (simp_all add: reply_validated_def)
  have schema: "sc_resource_profile (reply_schema 6) = DESKTOP"
    "sc_messages (reply_schema 6) = [reply_ir ''pong'' 0x4F 6, reply_ir ''ping'' 0x49 6]"
    by (simp_all add: reply_schema_def)
  have "CheckStreamBudget kDesktopResourceProfileLimits reply_requirements = Inr ()"
    "all_counts (total_counts kDesktopResourceProfileLimits reply_requirements) = Inr ()"
    by (simp_all add: CheckStreamBudget_def total_counts_def CheckResourceCount_def reply_requirements_def no_requirements_def
        followed_by_def kDesktopResourceProfileLimits_def)
  moreover have "all_counts (message_counts kDesktopResourceProfileLimits (reply_ir ''pong'' 0x4F 6) @
      message_counts kDesktopResourceProfileLimits (reply_ir ''ping'' 0x49 6)) = Inr ()"
    by (simp add: message_counts_def CheckResourceCount_def followed_by_def kDesktopResourceProfileLimits_def
        reply_ir_def reply_action_ir_def Let_def)
  moreover have "\<not> min (max_plan_memory_bytes kDesktopResourceProfileLimits) kV01MaxPlanMemoryHardLimit <
      mr_accounted_total_bytes memory"
    using memory(2) by (simp add: kDesktopResourceProfileLimits_def kV01MaxPlanMemoryHardLimit_def)
  ultimately show ?thesis
    by (simp add: ValidateBudget_def v schema memory(1) [unfolded One_nat_def] followed_by_def Let_def)
qed

lemma reply_not_compiled:
  "CompileSchemaToPlan example_build None (reply_schema 0) = Inl (SetDiagnostic PLAN_BUILD INTERNAL_CONTRACT_VIOLATION '''')"
proof -
  obtain b where b: "ValidateBudget example_abi None reply_validated = Inr b" "bu_validated b = reply_validated"
    using reply_budget by blast
  obtain d where d: "PrepareDraft 4 (Assemble b) = Inl d" "pd_code d = AMBIGUOUS_MATCHER"
    using reply_refused by (simp add: reply_assembled [OF b(2)]) blast
  show ?thesis
    by (simp add: CompileSchemaToPlan_def reply_valid followed_by_def b(1) FreezeBudgetedPlanDraft_def Freeze_def FreezeImpl_def
        d build_diagnostic_def example_build_def)
qed

end
