(* ===== verification/Plan_Properties.thy ===== *)
theory Plan_Properties
  imports Plan_Example
begin

text \<open>
  The properties of the plan builder: what the codec, the framer and the host endpoint may rely on in a plan that
  Freeze has published, and the round trip of the codec over such a plan.
\<close>

section \<open>What publishing guarantees\<close>

lemma example_unset: "list_all containers_unset (dd_messages example_draft)"
  by (simp add: containers_unset_def example_message_plan_def example_field_def)

lemma crlf_unset: "list_all containers_unset (dd_messages crlf_draft)"
  by (simp add: containers_unset_def crlf_message_def crlf_field_def example_field_def)

text \<open>C1. A published plan is well formed: the record matcher and the text codec run on each of its pipelines and
  messages, each framing profile of a stream is one the framer admits, each conversion descriptor is exact, and each
  binary message is laid out so that the decoder and the encoder run on it. The bit container index that the draft
  gives to a field that is no bit field is not looked at by the builder, and is taken to be the invalid index.\<close>

theorem freeze_sound:
  assumes "Freeze platform (Some draft) = Inr (plan, report)" "list_all containers_unset (dd_messages draft)"
  shows "plan_runs plan \<and> admitted plan \<and> (\<forall>c \<in> set (pb_conversions plan). conversion_ok c) \<and>
    (\<forall>k < length (pb_message_execution_plans plan). ms_ascii_text (dd_messages draft ! k) = None \<longrightarrow>
       decodable plan (pb_message_execution_plans plan ! k) \<and> encodable (pb_message_execution_plans plan ! k))"
  using frozen_runs [OF assms(1)] frozen_admitted [OF assms(1)] frozen_conversions [OF assms(1)]
    frozen_binary [OF assms(1)] frozen_lengths(1) [OF assms(1)] assms(2)
  by (simp add: list_all_length)

theorem freeze_sound_witness:
  "plan_runs Codec_Session.example_plan \<and> admitted Codec_Session.example_plan \<and> encodable example_message"
  using freeze_sound [OF example_frozen example_unset]
  by (simp add: Codec_Session.example_plan_def example_message_plan_def)

text \<open>C6. Binary messages cannot be confused: over a published plan the matcher of every pipeline returns on every
  record, at most one binary message matches it, and where the pipeline has no text message at most one message does.\<close>

theorem freeze_unambiguous:
  assumes "Freeze platform (Some draft) = Inr (plan, report)" "pipeline \<in> set (pb_pipeline_execution_plans plan)"
  shows "\<exists>outcome. FindPipelineMatch pipeline (pb_message_execution_plans plan) input = Some outcome \<and>
    length (filter (\<lambda>i. MessageMatches (pb_message_execution_plans plan ! i) input)
      (binary_candidates pipeline (length input))) \<le> 1 \<and>
    (pe_text_message_indices pipeline = [] \<longrightarrow> mo_match_count outcome \<le> 1)"
  using plan_runs_match(1) [OF frozen_runs [OF assms(1)] assms(2)] frozen_one_match [OF assms]
  by (simp add: outcome_of_def matching_def)

theorem freeze_unambiguous_witness:
  "\<exists>outcome. FindPipelineMatch example_pipeline [example_message] example_record = Some outcome \<and> mo_match_count outcome \<le> 1"
proof -
  have "pb_pipeline_execution_plans Codec_Session.example_plan = [example_pipeline]"
    "pb_message_execution_plans Codec_Session.example_plan = [example_message]" "pe_text_message_indices example_pipeline = []"
    by (simp_all add: Codec_Session.example_plan_def example_pipeline_def)
  with freeze_unambiguous [OF example_frozen, of example_pipeline example_record] show ?thesis by auto
qed

section \<open>Framing and records\<close>

text \<open>C9. The framer cuts a stream of text records where the records end: for a published pipeline with CR LF framing,
  when the bytes submitted over a session, in any chunks, are text records of the pipeline one after the other, the
  frames the framer has delivered and the record it still holds are exactly these records. No record is cut inside,
  joined with its neighbour, or refused for its length, because the builder proved that the CR LF of each record is its
  end and that no record is longer than the profile's frames.\<close>

theorem crlf_framing_cuts_records:
  assumes "Freeze platform (Some draft) = Inr (plan, report)" "k < length (pb_pipelines plan)"
    and "fp_strategy (profile_of plan k) = FS_ASCII_CRLF"
    and "list_all (text_record_of plan (pb_pipeline_execution_plans plan ! k)) records"
    and "framer_session plan k w user (concat records) frames discarded"
  shows "frames @ pending w = records"
  using assms by (rule crlf_stream)

text \<open>The two lines of the example are text records of its pipeline.\<close>

lemma crlf_allows:
  "IsAllowedAscii (text_field_of [False] 0 crlf_field) 0x41" "IsAllowedAscii (text_field_of [False] 0 crlf_field) 0x42"
  "IsAllowedAscii (text_field_of [False] 0 crlf_field) 0x43"
  by (simp_all add: IsAllowedAscii_def text_field_of_def crlf_field_def no_field_execution_def Let_def)

lemma crlf_lines_records: "list_all (text_record_of crlf_plan crlf_pipeline) crlf_lines"
proof -
  have m: "me_fields crlf_execution = [text_field_of [False] 0 crlf_field]" "me_text_decode crlf_execution = Some crlf_action"
    "pe_text_message_indices crlf_pipeline = [0]"
    by (simp_all add: crlf_execution_def no_message_execution_def crlf_pipeline_def)
  have lengths: "fe_text_min_length (text_field_of [False] 0 crlf_field) = 1" "fe_text_max_length (text_field_of [False] 0 crlf_field) = 2"
    by (simp_all add: text_field_of_def crlf_field_def no_field_execution_def)
  have ends: "first_at [0x0D, 0x0A] [0x41, 0x0D, 0x0A] 1" "first_at [0x0D, 0x0A] [0x42, 0x43, 0x0D, 0x0A] 2"
    by (auto simp: first_at_def occurs_at_def less_2_cases_iff)
  have "text_record_of crlf_plan crlf_pipeline [0x41, 0x0D, 0x0A]"
    using crlf_allows ends [simplified numeral_2_eq_2, simplified] by (auto simp: text_record_of_def m text_record_def crlf_action_def field_piece_def
        lengths intro!: exI [of _ "[[0x41], [0x0D, 0x0A]]"])
  moreover have "text_record_of crlf_plan crlf_pipeline [0x42, 0x43, 0x0D, 0x0A]"
    using crlf_allows ends [simplified numeral_2_eq_2, simplified] by (auto simp: text_record_of_def m text_record_def crlf_action_def field_piece_def
        lengths intro!: exI [of _ "[[0x42, 0x43], [0x0D, 0x0A]]"])
  ultimately show ?thesis by (simp add: crlf_lines_def)
qed

theorem crlf_framing_cuts_records_witness:
  "\<exists>w. framer_session crlf_plan 0 w () (concat crlf_lines) crlf_lines 0 \<and> crlf_lines @ pending w = crlf_lines"
proof -
  obtain w where session: "framer_session crlf_plan 0 w () (concat crlf_lines) crlf_lines 0" using crlf_session by blast
  have "fp_strategy (profile_of crlf_plan 0) = FS_ASCII_CRLF"
    by (simp add: example_pipeline_plan_def line_framing_def)
  from crlf_framing_cuts_records [OF crlf_frozen _ this _ session] show ?thesis using session crlf_lines_records by auto
qed

section \<open>The round trip\<close>

text \<open>C5. What the encoder writes, the decoder reads back: in any two sessions of a published plan, after a successful
  call of the encoder for a binary message, decoding exactly the bytes it reports as written succeeds, finds the message
  that was encoded, and the slot of every value given to the encoder holds that value (a decimal up to its
  representation).\<close>

theorem published_roundtrip:
  assumes "Freeze platform (Some draft) = Inr (plan, report)" "list_all containers_unset (dd_messages draft)"
    and "codec_session plan ws" "codec_session plan ws2"
    and "me_text_encode (pb_message_execution_plans plan ! message_index) = None"
    and "EncodeCompleteRecord plan value_size ws pipeline_index message_index va vs oa out = Some (e, ws1, out')"
    and "en_status e = CS_OK"
    and "input = \<lparr>cv_address = a, cv_bytes = take (en_bytes_written e) out'\<rparr>" "a \<noteq> 0" "sa \<noteq> 0"
    and "AdmitSlots slot_size input sa (length slots)
      (length (me_fields (pb_message_execution_plans plan ! message_index))) = None"
  shows "\<exists>r ws3 slots'. DecodeCompleteRecord plan slot_size ws2 pipeline_index input sa slots = Some (r, ws3, slots') \<and>
    dr_status r = CS_OK \<and> dr_message_index r = message_index \<and>
    (\<forall>v \<in> set vs. slot_agrees v (slots' ! fr_field_index (ev_field v)))"
proof -
  have in_range: "message_index < length (dd_messages draft)" "pipeline_index < length (pb_pipeline_execution_plans plan)"
      "\<not> text_schema (pb_schema_version plan)"
    using encode_success [OF assms(3,5,6,7)] frozen_lengths(1) [OF assms(1)] by auto
  then have pipe: "binary_pipeline plan (pb_pipeline_execution_plans plan ! pipeline_index)"
    using frozen_binary_pipeline [OF assms(1)] assms(2) by simp
  have "containers_unset (dd_messages draft ! message_index)" using assms(2) in_range(1) by (simp add: list_all_length)
  then have "encodable (pb_message_execution_plans plan ! message_index)"
    using frozen_binary(2) [OF assms(1) in_range(1)] frozen_no_text(1) [OF assms(1) in_range(1,3)] by simp
  from encode_then_decode [OF assms(3,4) pipe refl assms(5) this assms(6-11)] show ?thesis .
qed

theorem published_roundtrip_witness:
  "\<exists>r ws3 slots'. DecodeCompleteRecord Codec_Session.example_plan 64 example_workspace 0 (example_view example_record) 9000
       [no_slot, no_slot] = Some (r, ws3, slots') \<and> dr_status r = CS_OK \<and> slot_agrees example_value (slots' ! 1)"
proof -
  have session: "codec_session Codec_Session.example_plan example_workspace"
    unfolding example_workspace_def by (rule codec_session.create)
  have m: "pb_message_execution_plans Codec_Session.example_plan ! 0 = example_message" "me_text_encode example_message = None"
    "length (me_fields example_message) = 2"
    by (simp_all add: Codec_Session.example_plan_def example_message_def)
  have room: "AdmitSlots 64 (example_view example_record) 9000 (length [no_slot, no_slot])
      (length (me_fields (pb_message_execution_plans Codec_Session.example_plan ! 0))) = None"
    unfolding m by (simp add: AdmitSlots_def example_view_def example_record_def GetAddressRange_def GetArrayAddressRange_def
        RangesOverlap_def SIZE_MAX_def)
  obtain e ws1 where e: "EncodeCompleteRecord Codec_Session.example_plan 96 example_workspace 0 0 7000 [example_value] 9000
      [0, 0, 0, 0, 0, 0, 0, 0] = Some (e, ws1, example_output)" "en_status e = CS_OK" "en_bytes_written e = 5"
    using example_encoded by blast
  have "example_view example_record = \<lparr>cv_address = 5000, cv_bytes = take (en_bytes_written e) example_output\<rparr>"
    by (simp add: e(3) example_take example_view_def)
  from published_roundtrip [OF example_frozen example_unset session session _ e(1,2) this _ _ room] show ?thesis
    by (auto simp: m example_value_def)
qed

end
