(* ===== verification/Compiler_Properties.thy ===== *)
theory Compiler_Properties
  imports Compiler_Example Compiler_Encode_Only Plan_Properties
begin

text \<open>
  The properties of the compiler's stages after the reading of the document: what a compiled plan is, when
  compilation ends in a plan, and where the validator and the plan builder agree and disagree.
\<close>

section \<open>When compilation succeeds\<close>

lemma compile_accepted:
  assumes "CompileSchemaToPlan platform limit schema = Inr (plan, report)"
  obtains v b where "Validate schema = Inr v" "ValidateBudget (bp_abi platform) limit v = Inr b"
    "Freeze platform (Some (Assemble b)) = Inr (plan, report)"
proof -
  obtain v b where "Validate schema = Inr v" "ValidateBudget (bp_abi platform) limit v = Inr b"
    "FreezeBudgetedPlanDraft platform (Assemble b) = Inr (plan, report)"
    using assms by (auto simp: CompileSchemaToPlan_def accepted)
  then show thesis using that by (simp add: FreezeBudgetedPlanDraft_def split: sum.splits)
qed

lemma budget_within:
  assumes "ValidateBudget abi limit v = Inr b"
  shows "mr_accounted_total_bytes (bu_plan_memory b) \<le> effective_plan_memory_limit (Assemble b)"
  using ValidateBudget_accepted(3,4) [OF assms] by (simp add: effective_plan_memory_limit_def)

lemma Freeze_refused: "PrepareDraft (bp_value_type_bytes platform) draft = Inl d \<Longrightarrow> Freeze platform (Some draft) = Inl d"
  by (simp add: Freeze_def FreezeImpl_def followed_by_def)

text \<open>After the budget's approval the builder has only its descriptors to check.\<close>

lemma FreezeBudgeted_exact:
  assumes "abi_ok (bp_abi platform)" "bp_memory_available platform" "Validate schema = Inr v"
    and "list_all enum_only (sc_messages schema)" "ValidateBudget (bp_abi platform) limit v = Inr b"
  shows "FreezeBudgetedPlanDraft platform (Assemble b) =
      (case PrepareDraft (bp_value_type_bytes platform) (Assemble b) of
        Inl d \<Rightarrow> Inl (build_diagnostic d)
      | Inr descriptors \<Rightarrow> Inr (bundle_of (bp_address platform) (Assemble b) descriptors, bu_plan_memory b))"
proof (cases "PrepareDraft (bp_value_type_bytes platform) (Assemble b)")
  case (Inl d)
  then show ?thesis by (simp add: FreezeBudgetedPlanDraft_def Freeze_refused)
next
  case (Inr descriptors)
  then show ?thesis
    using Freeze_exact [OF assms(1,2), of "Assemble b"] assembled_estimate [OF assms(3-5) Inr]
      budget_within [OF assms(5)] by (simp add: FreezeBudgetedPlanDraft_def followed_by_def not_less)
qed

text \<open>C2. Memory is decided by the budget alone: over a sound binary interface and with memory available, a
  configuration with enumeration entries only in enumeration fields compiles exactly when it is valid, within the
  budget, and its assembled descriptors pass the builder's checks; the plan is then the assembled draft with these
  descriptors, and it takes exactly the memory that the budget approved. After the budget's approval no estimate,
  limit or report of the builder can differ from it, and the only errors left are those of the descriptors' checks.\<close>

theorem compile_reference:
  assumes "abi_ok (bp_abi platform)" "bp_memory_available platform" "list_all enum_only (sc_messages schema)"
  shows "CompileSchemaToPlan platform limit schema =
    followed_by (Validate schema) (\<lambda>v.
    followed_by (ValidateBudget (bp_abi platform) limit v) (\<lambda>b.
      case PrepareDraft (bp_value_type_bytes platform) (Assemble b) of
        Inl d \<Rightarrow> Inl (build_diagnostic d)
      | Inr descriptors \<Rightarrow> Inr (bundle_of (bp_address platform) (Assemble b) descriptors, bu_plan_memory b)))"
  using FreezeBudgeted_exact [OF assms(1,2) _ assms(3)]
  by (simp add: CompileSchemaToPlan_def followed_by_def split: sum.splits)

lemma crlf_structural: "list_all enum_only (sc_messages unresolved_schema)" "list_all unresolved (sc_messages unresolved_schema)"
  by (simp_all add: enum_only_def unresolved_def crlf_schema_def crlf_message_ir_def crlf_field_ir_def)

lemma example_platform: "bp_memory_available example_build" "bp_value_type_bytes example_build = 4"
  "bp_abi example_build = example_abi" "bp_address example_build = 1000"
  by (simp_all add: example_build_def)

lemma crlf_bundle: "bundle_of 1000 (Assemble crlf_budgeted) crlf_descriptors = crlf_plan"
  by (simp add: crlf_assembled crlf_plan_def bundle_of_def)

theorem compile_reference_witness: "CompileSchemaToPlan example_build None unresolved_schema = Inr (crlf_plan, crlf_memory)"
  using compile_reference [OF example_abi_ok example_platform(1) crlf_structural(1), of None]
  by (simp add: example_platform crlf_valid followed_by_def crlf_budget crlf_assembled_prepared crlf_bundle
      crlf_budgeted_def [THEN arg_cong [of _ _ bu_plan_memory]])

text \<open>The example, compiled step by step.\<close>

lemma crlf_compiled: "CompileSchemaToPlan example_build None unresolved_schema = Inr (crlf_plan, crlf_memory)"
  using FreezeBudgeted_exact [OF example_abi_ok example_platform(1) crlf_valid crlf_structural(1), of None crlf_budgeted]
  by (simp add: CompileSchemaToPlan_def example_platform crlf_valid followed_by_def crlf_budget crlf_assembled_prepared
      crlf_bundle crlf_budgeted_def [THEN arg_cong [of _ _ bu_plan_memory]])

section \<open>What a compiled plan is\<close>

lemma compiled_draft:
  assumes "Validate schema = Inr v" "bu_validated b = v"
  shows "k < length (sc_messages schema) \<Longrightarrow> mi_ascii_text (sc_messages schema ! k) = None \<Longrightarrow>
      ms_ascii_text (dd_messages (Assemble b) ! k) = None"
    and "k < length (sc_messages schema) \<Longrightarrow> unresolved (sc_messages schema ! k) \<Longrightarrow>
      containers_unset (dd_messages (Assemble b) ! k)"
    and "length (dd_messages (Assemble b)) = length (sc_messages schema)"
proof -
  note validated = validated_messages(1) [OF assms(1)] and images = assembled_draft(1) [of b, unfolded assms(2)]
  show "length (dd_messages (Assemble b)) = length (sc_messages schema)"
    using list_all2_lengthD [OF validated] list_all2_lengthD [OF images] by simp
  have steps: "message_resolved (sc_messages schema ! k) (sc_messages (va_schema v) ! k)"
    "assembled_message (sc_messages (va_schema v) ! k) (dd_messages (Assemble b) ! k)" if "k < length (sc_messages schema)"
    using that list_all2_nthD [OF validated] list_all2_nthD [OF images] list_all2_lengthD [OF validated] by simp_all
  show "ms_ascii_text (dd_messages (Assemble b) ! k) = None"
    if "k < length (sc_messages schema)" "mi_ascii_text (sc_messages schema ! k) = None"
    using steps(1) [OF that(1)] that(2) assembled_parts [OF steps(2) [OF that(1)]] by (simp add: message_resolved_def)
  show "containers_unset (dd_messages (Assemble b) ! k)" if "k < length (sc_messages schema)" "unresolved (sc_messages schema ! k)"
    by (rule assembled_unset [OF steps(1) [OF that(1)] that(2) steps(2) [OF that(1)]])
qed

text \<open>C3. A compiled plan is well formed: whatever configuration the compiler accepts, as the reader of the document
  leaves it (with the containers of its fields not yet resolved), the matcher and the text codec run on each pipeline
  and message of the plan, each stream profile is one the framer admits, each conversion descriptor is exact, and the
  decoder and the encoder run on each message that is not text.\<close>

theorem compile_sound:
  assumes "CompileSchemaToPlan platform limit schema = Inr (plan, report)" "list_all unresolved (sc_messages schema)"
  shows "plan_runs plan \<and> admitted plan \<and> (\<forall>c \<in> set (pb_conversions plan). conversion_ok c) \<and>
    length (pb_message_execution_plans plan) = length (sc_messages schema) \<and>
    (\<forall>k < length (sc_messages schema). mi_ascii_text (sc_messages schema ! k) = None \<longrightarrow>
       decodable plan (pb_message_execution_plans plan ! k) \<and> encodable (pb_message_execution_plans plan ! k))"
  using assms(1)
proof (cases rule: compile_accepted)
  case (1 v b)
  note unset = compiled_draft [OF 1(1) ValidateBudget_accepted(1) [OF 1(2)]]
  have binary: "ms_ascii_text (dd_messages (Assemble b) ! k) = None \<and> containers_unset (dd_messages (Assemble b) ! k)"
    if "k < length (sc_messages schema)" "mi_ascii_text (sc_messages schema ! k) = None" for k
    using unset(1) [of k] unset(2) [of k] that assms(2) by (simp add: list_all_length)
  show ?thesis
    using frozen_runs [OF 1(3)] frozen_admitted [OF 1(3)] frozen_conversions [OF 1(3)] frozen_lengths(1) [OF 1(3)]
      frozen_binary [OF 1(3)] binary by (simp add: unset(3))
qed

theorem compile_sound_witness: "plan_runs crlf_plan \<and> admitted crlf_plan"
proof -
  have "CompileSchemaToPlan example_build None unresolved_schema = Inr (crlf_plan, crlf_memory)" by (rule crlf_compiled)
  from compile_sound [OF this crlf_structural(2)] show ?thesis by simp
qed

section \<open>The validator and the builder\<close>

text \<open>C15. The compiler and the builder decide alike about CR LF boundaries: for each text action of a validated message,
  the builder's proof of the boundary on the assembled plan succeeds exactly when the compiler's proof on the
  configuration does, so no stream the validator has accepted is refused for its boundary later, and none it has
  refused would have been accepted.\<close>

theorem crlf_proofs_agree:
  assumes "Validate schema = Inr v" "bu_validated b = v" "k < length (sc_messages schema)"
    and "mi_ascii_text (sc_messages schema ! k) \<noteq> None"
  shows "ProveAsciiCrLfBoundary (AssembleAction action) (ms_fields (dd_messages (Assemble b) ! k)) \<longleftrightarrow>
    ProveAsciiCrLfBoundary_ir action (mi_fields (sc_messages (va_schema v) ! k))"
proof -
  note validated = validated_messages(1) [OF assms(1)]
  have "message_resolved (sc_messages schema ! k) (sc_messages (va_schema v) ! k)"
    by (rule list_all2_nthD [OF validated assms(3)])
  then have "list_all text_bounded (mi_fields (sc_messages (va_schema v) ! k))"
    using assms(4) by (auto simp: message_resolved_def)
  moreover have "assembled_message (sc_messages (va_schema v) ! k) (dd_messages (Assemble b) ! k)"
    using list_all2_nthD [OF assembled_draft(1) [of b, unfolded assms(2)]] assms(3) list_all2_lengthD [OF validated] by simp
  ultimately show ?thesis by (intro boundary_proofs_agree assembled_parts(10))
qed

theorem crlf_proofs_agree_witness:
  "ProveAsciiCrLfBoundary (AssembleAction (crlf_action_ir 0 3 4)) (ms_fields (dd_messages (Assemble crlf_budgeted) ! 0))"
proof -
  have "mi_ascii_text (sc_messages unresolved_schema ! 0) \<noteq> None" "0 < length (sc_messages unresolved_schema)"
    "mi_fields (sc_messages (va_schema crlf_validated_ir) ! 0) = [crlf_field_ir]"
    by (simp_all add: crlf_schema_def crlf_message_ir_def crlf_validated_ir_def)
  then show ?thesis
    using crlf_proofs_agree [OF crlf_valid, of crlf_budgeted 0 "crlf_action_ir 0 3 4"] crlf_boundary_ir
    by (simp add: crlf_budgeted_def)
qed

text \<open>C18. A configuration with two text messages that are only encoded, of the same length and in one pipeline, is
  valid, because for the validator no text message intersects another, and within the budget, but the builder compares
  the fixed bytes of the two, which have none, and refuses the pipeline as ambiguous; so the compiler reports a
  violation of its own contract for a configuration that it has found valid.\<close>

theorem encode_only_pair_refused:
  "Validate (reply_schema 0) = Inr reply_validated \<and>
   (\<exists>b. ValidateBudget (bp_abi example_build) None reply_validated = Inr b \<and> bu_validated b = reply_validated \<and>
     (\<exists>d. Freeze example_build (Some (Assemble b)) = Inl d \<and> pd_code d = AMBIGUOUS_MATCHER)) \<and>
   CompileSchemaToPlan example_build None (reply_schema 0) = Inl (SetDiagnostic PLAN_BUILD INTERNAL_CONTRACT_VIOLATION '''')"
proof -
  obtain b where b: "ValidateBudget example_abi None reply_validated = Inr b" "bu_validated b = reply_validated"
    using reply_budget by blast
  obtain d where "PrepareDraft 4 (Assemble b) = Inl d" "pd_code d = AMBIGUOUS_MATCHER"
    using reply_refused by (simp add: reply_assembled [OF b(2)]) blast
  then show ?thesis
    using b reply_valid reply_not_compiled Freeze_refused [of example_build "Assemble b" d] by (auto simp: example_platform)
qed

end
