(* ===== verification/Text_Roundtrip.thy ===== *)
theory Text_Roundtrip
  imports Codec_Roundtrip
begin

text \<open>
  Text messages: the encoder writes the concatenation of the segments, refuses exactly the values that could not be
  cut apart again and never fails its own review, and the decoder delivers the pieces.
\<close>

section \<open>Writing\<close>

lemma put_bytes_append:
  "offset + length bytes \<le> length out \<Longrightarrow>
   put_bytes out offset bytes = take offset out @ bytes @ drop (offset + length bytes) out"
proof -
  have "n \<le> length bytes \<Longrightarrow> offset + n \<le> length out \<Longrightarrow>
      fold (\<lambda>index out. out[offset + index := bytes ! index]) [0..<n] out =
      take offset out @ take n bytes @ drop (offset + n) out" for n
  proof (induction n)
    case (Suc n)
    then have "drop (offset + n) out = out ! (offset + n) # drop (Suc (offset + n)) out" by (simp add: Cons_nth_drop_Suc)
    then show ?case using Suc by (simp add: list_update_append take_Suc_conv_app_nth)
  qed simp
  from this [of "length bytes"] show "offset + length bytes \<le> length out \<Longrightarrow> ?thesis" by (simp add: put_bytes_def)
qed

definition segment_bytes :: "MessageExecutionPlan \<Rightarrow> EncodeFieldValue list \<Rightarrow> nat list \<Rightarrow> TextSegmentPlan \<Rightarrow> u8 list" where
  "segment_bytes m vs indices segment =
     (if tsp_kind segment = TS_LITERAL then tsp_literal segment
      else input_bytes vs indices (me_fields m ! tsp_field_index segment))"

lemma WriteText_append:
  "cursor + length (concat (map (segment_bytes m vs indices) segs)) \<le> length out \<Longrightarrow>
   WriteText m vs indices segs cursor out =
     take cursor out @ concat (map (segment_bytes m vs indices) segs) @
     drop (cursor + length (concat (map (segment_bytes m vs indices) segs))) out"
proof (induction segs arbitrary: cursor out)
  case (Cons seg segs)
  let ?b = "segment_bytes m vs indices seg"
  have "WriteText m vs indices (seg # segs) cursor out = WriteText m vs indices segs (cursor + length ?b) (put_bytes out cursor ?b)"
    by (simp add: segment_bytes_def Let_def)
  moreover have "WriteText m vs indices segs (cursor + length ?b) (put_bytes out cursor ?b) =
      take (cursor + length ?b) (put_bytes out cursor ?b) @ concat (map (segment_bytes m vs indices) segs) @
      drop (cursor + length ?b + length (concat (map (segment_bytes m vs indices) segs))) (put_bytes out cursor ?b)"
    using Cons.prems by (intro Cons.IH) (simp add: put_bytes_length)
  ultimately show ?case using Cons.prems by (simp add: put_bytes_append ac_simps)
qed simp

section \<open>The size of a record\<close>

text \<open>The inputs of a text action: every field segment has a value that passed its check.\<close>

definition text_inputs :: "MessageExecutionPlan \<Rightarrow> EncodeFieldValue list \<Rightarrow> nat list \<Rightarrow> TextSegmentPlan list \<Rightarrow> bool" where
  "text_inputs m vs indices segs \<longleftrightarrow>
     (\<forall>segment \<in> set segs. tsp_kind segment \<noteq> TS_LITERAL \<longrightarrow>
        (let field = me_fields m ! tsp_field_index segment
         in fe_text_encode_input field \<and> fe_input_ordinal field < length indices \<and>
            TextValueCheck field (ev_bytes_value (vs ! (indices ! fe_input_ordinal field))) = None))"

lemma FindFirstAcrossBoundary_at_end:
  assumes "literal_ok t"
  shows "\<exists>position. FindFirstAcrossBoundary bytes t = Some position \<and>
    (position = Some (length bytes) \<longleftrightarrow> first_at (tsp_literal t) (bytes @ tsp_literal t) (length bytes))"
  using FindFirstAcrossBoundary_first [OF assms, of bytes] first_at_unique by blast

lemma TextSize_iff:
  "segments_ok m segs \<Longrightarrow> text_inputs m vs indices segs \<Longrightarrow>
   actual + length (concat (map (segment_bytes m vs indices) segs)) \<le> SIZE_MAX \<Longrightarrow>
   if text_pieces m segs (map (segment_bytes m vs indices) segs)
   then TextSize m vs indices segs actual = Some (Inr (actual + length (concat (map (segment_bytes m vs indices) segs))))
   else \<exists>i. TextSize m vs indices segs actual = Some (Inl (CS_ASCII_TERMINATOR_CONFLICT, i))"
proof (induction segs arbitrary: actual)
  case (Cons seg segs)
  let ?b = "segment_bytes m vs indices"
  have ok: "segments_ok m segs" "text_inputs m vs indices segs" using Cons.prems(1,2) by (simp_all add: text_inputs_def)
  have room: "\<not> SIZE_MAX - actual < length (?b seg)"
    and room': "(actual + length (?b seg)) + length (concat (map ?b segs)) \<le> SIZE_MAX" using Cons.prems(3) by simp_all
  note ih = Cons.IH [OF ok room']
  show ?case
  proof (cases "tsp_kind seg = TS_LITERAL")
    case True
    then have "?b seg = tsp_literal seg" by (simp add: segment_bytes_def)
    then show ?thesis using True ih room by (auto simp: add.assoc split: if_splits)
  next
    case False
    let ?f = "me_fields m ! tsp_field_index seg"
    have b: "?b seg = input_bytes vs indices ?f" using False by (simp add: segment_bytes_def)
    have seg: "tsp_field_index seg < length (me_fields m)"
      "fe_text_min_length ?f = fe_text_max_length ?f \<or> (case segs of [] \<Rightarrow> True | t # _ \<Rightarrow> tsp_kind t = TS_LITERAL)"
      using Cons.prems(1) False by simp_all
    have arg: "fe_text_encode_input ?f" "fe_input_ordinal ?f < length indices"
      "fe_text_min_length ?f \<le> length (?b seg)" "length (?b seg) \<le> fe_text_max_length ?f"
      using Cons.prems(2) False by (auto simp: text_inputs_def TextValueCheck_def b input_bytes_def Let_def split: if_splits)
    show ?thesis
    proof (cases "fe_text_min_length ?f \<noteq> fe_text_max_length ?f \<and> segs \<noteq> []")
      case True
      then obtain t ts where t: "segs = t # ts" by (cases segs) auto
      have kind: "tsp_kind t = TS_LITERAL" "literal_ok t" using seg(2) True ok(1) t by auto
      obtain position where p: "FindFirstAcrossBoundary (?b seg) t = Some position"
        "position = Some (length (?b seg)) \<longleftrightarrow> first_at (tsp_literal t) (?b seg @ tsp_literal t) (length (?b seg))"
        using FindFirstAcrossBoundary_at_end [OF kind(2)] by blast
      have "field_piece ?f segs (?b seg) \<longleftrightarrow> position = Some (length (?b seg))"
        using p(2) arg True t by (simp add: field_piece_def)
      moreover have "TextSize m vs indices (seg # segs) actual =
          (if position \<noteq> Some (length (?b seg)) then Some (Inl (CS_ASCII_TERMINATOR_CONFLICT, tsp_field_index seg))
           else TextSize m vs indices segs (actual + length (?b seg)))"
        using False seg(1) arg True p(1) room kind t by (simp add: b [symmetric] not_less)
      ultimately show ?thesis using ih False by (auto simp: add.assoc split: if_splits)
    next
      case simple: False
      then have "field_piece ?f segs (?b seg)" using arg by (auto simp: field_piece_def)
      moreover have "TextSize m vs indices (seg # segs) actual = TextSize m vs indices segs (actual + length (?b seg))"
        using False seg(1) arg simple room by (auto simp: b [symmetric] not_less)
      ultimately show ?thesis using ih False by (auto simp: add.assoc split: if_splits)
    qed
  qed
qed simp

section \<open>The visits of a walk\<close>

text \<open>The field segments of a record with the bytes of each.\<close>

fun text_fields :: "TextSegmentPlan list \<Rightarrow> u8 list list \<Rightarrow> (nat \<times> u8 list) list" where
  "text_fields (segment # following) (p # ps) =
     (if tsp_kind segment = TS_LITERAL then [] else [(tsp_field_index segment, p)]) @ text_fields following ps"
| "text_fields _ _ = []"

lemma visits_fields:
  "input = before @ concat ps \<Longrightarrow> cursor = length before \<Longrightarrow>
   map (\<lambda>(i, c, n). (i, take n (drop c input))) (visits cursor segs ps) = text_fields segs ps \<and>
   (\<forall>(i, c, n) \<in> set (visits cursor segs ps). c + n \<le> length input)"
proof (induction segs ps arbitrary: before cursor rule: text_fields.induct)
  case (1 segment following p ps)
  have "input = (before @ p) @ concat ps" "cursor + length p = length (before @ p)" using "1.prems" by simp_all
  then show ?case using "1.IH" [of "before @ p" "cursor + length p"] "1.prems" by auto
qed simp_all

lemma run_review:
  "(run_visits (review_text m vs indices encoded) ws () = (True, ())) \<longleftrightarrow>
   (\<forall>(i, c, n) \<in> set ws. fe_text_encode_input (me_fields m ! i) \<and> fe_input_ordinal (me_fields m ! i) < length indices \<and>
      length (input_bytes vs indices (me_fields m ! i)) = n \<and>
      take n (drop c encoded) = input_bytes vs indices (me_fields m ! i))"
  by (induction ws) (auto simp: review_text_def Let_def split: if_splits)

lemma text_fields_values:
  "(i, p) \<in> set (text_fields segs (map f segs)) \<Longrightarrow>
     \<exists>segment \<in> set segs. tsp_kind segment \<noteq> TS_LITERAL \<and> i = tsp_field_index segment \<and> p = f segment"
  by (induction segs) (auto split: if_splits)

lemma inputs_allowed:
  "text_inputs m vs indices segs \<Longrightarrow> pieces_allowed m segs (map (segment_bytes m vs indices) segs)"
  by (induction segs)
    (auto simp: text_inputs_def segment_bytes_def TextValueCheck_def input_bytes_def Let_def split: if_splits)

lemma review_accepts:
  assumes "text_inputs m vs indices segs"
  defines "ps \<equiv> map (segment_bytes m vs indices) segs"
  shows "run_visits (review_text m vs indices (concat ps)) (visits 0 segs ps) () = (True, ())"
proof -
  have v: "map (\<lambda>(i, c, n). (i, take n (drop c (concat ps)))) (visits 0 segs ps) = text_fields segs ps"
    "\<forall>(i, c, n) \<in> set (visits 0 segs ps). c + n \<le> length (concat ps)"
    using visits_fields [of "concat ps" "[]" ps 0 segs] by simp_all
  have "fe_text_encode_input (me_fields m ! i) \<and> fe_input_ordinal (me_fields m ! i) < length indices \<and>
      length (input_bytes vs indices (me_fields m ! i)) = n \<and>
      take n (drop c (concat ps)) = input_bytes vs indices (me_fields m ! i)"
    if w: "(i, c, n) \<in> set (visits 0 segs ps)" for i c n
  proof -
    have "(i, take n (drop c (concat ps))) \<in> set (text_fields segs ps)"
      using w by (force simp: v(1) [symmetric])
    then obtain segment where s: "segment \<in> set segs" "tsp_kind segment \<noteq> TS_LITERAL" "i = tsp_field_index segment"
      "take n (drop c (concat ps)) = segment_bytes m vs indices segment"
      using text_fields_values unfolding ps_def by blast
    then have e: "take n (drop c (concat ps)) = input_bytes vs indices (me_fields m ! i)" by (simp add: segment_bytes_def)
    have "length (take n (drop c (concat ps))) = n" using v(2) w by (auto simp del: length_concat)
    then show ?thesis using e s(1-3) assms(1) by (auto simp: text_inputs_def Let_def)
  qed
  then show ?thesis unfolding run_review by blast
qed

section \<open>The encoder\<close>

lemma encode_text:
  assumes action: "action_ok m action" and inputs: "text_inputs m vs indices (tap_segments action)"
    and size: "length (concat (map (segment_bytes m vs indices) (tap_segments action))) \<le> SIZE_MAX"
  shows "\<exists>ps r out'. ps = map (segment_bytes m vs indices) (tap_segments action) \<and>
    EncodeText m action dr vs indices oa out result = Some (r, out') \<and>
    (en_status r = CS_OK \<longleftrightarrow> text_record m action (concat ps) ps \<and> length (concat ps) \<le> me_frame_size m \<and>
       AdmitOutput (\<lambda>v. True) dr vs oa (length out) (length (concat ps)) = None) \<and>
    (en_status r = CS_OK \<longrightarrow> en_bytes_written r = length (concat ps) \<and> out' = concat ps @ drop (length (concat ps)) out) \<and>
    (en_status r \<noteq> CS_OK \<longrightarrow> out' = out)"
proof -
  define ps where "ps = map (segment_bytes m vs indices) (tap_segments action)"
  let ?n = "length (concat ps)"
  have ok: "segments_ok m (tap_segments action)" using action by (simp add: action_ok_def)
  note sz = TextSize_iff [OF ok inputs, of 0, folded ps_def]
  show ?thesis
  proof (cases "text_pieces m (tap_segments action) ps")
    case False
    then obtain i where "TextSize m vs indices (tap_segments action) 0 = Some (Inl (CS_ASCII_TERMINATOR_CONFLICT, i))"
      using sz size by (auto simp: ps_def)
    then show ?thesis using False by (simp add: EncodeText_def text_record_def ps_def)
  next
    case True
    then have n: "TextSize m vs indices (tap_segments action) 0 = Some (Inr ?n)" using sz size by (simp add: ps_def)
    let ?fits = "tap_min_record_length action \<le> ?n \<and> ?n \<le> tap_max_record_length action"
    have rec: "text_record m action (concat ps) ps \<longleftrightarrow> ?fits" using True by (simp add: text_record_def)
    show ?thesis
    proof (cases "?fits \<and> ?n \<le> me_frame_size m \<and> AdmitOutput (\<lambda>v. True) dr vs oa (length out) ?n = None")
      case False
      have "\<exists>r. EncodeText m action dr vs indices oa out result = Some (r, out) \<and> en_status r \<noteq> CS_OK"
      proof (cases "?fits \<and> ?n \<le> me_frame_size m")
        case True
        with False obtain status i where "AdmitOutput (\<lambda>v. True) dr vs oa (length out) ?n = Some (status, i)"
          by (cases "AdmitOutput (\<lambda>v. True) dr vs oa (length out) ?n") auto
        then show ?thesis
          using n True AdmitOutput_not_OK [of "\<lambda>v. True" dr vs oa "length out" ?n i]
          by (cases i) (auto simp: EncodeText_def Let_def simp del: length_concat)
      next
        case False
        then show ?thesis using n by (auto simp: EncodeText_def simp del: length_concat)
      qed
      then show ?thesis using False rec ps_def by (metis (no_types))
    next
      case fits: True
      then have room: "?n \<le> length out" using AdmitOutput_room by blast
      have out: "WriteText m vs indices (tap_segments action) 0 out = concat ps @ drop ?n out"
        using WriteText_append [of 0 m vs indices "tap_segments action" out] room by (simp add: ps_def)
      have "pieces_allowed m (tap_segments action) ps" unfolding ps_def by (rule inputs_allowed [OF inputs])
      moreover have "run_visits (review_text m vs indices (concat ps)) (visits 0 (tap_segments action) ps) () = (True, ())"
        unfolding ps_def by (rule review_accepts [OF inputs])
      ultimately have "WalkTextAction action m (concat ps) True (review_text m vs indices (concat ps)) () = Some (TW_MATCH, ())"
        unfolding WalkTextAction_iff [OF action] using True fits by (auto simp del: length_concat intro!: exI [of _ ps])
      then have "EncodeText m action dr vs indices oa out result =
          Some (result\<lparr>en_required_size := ?n, en_status := CS_OK, en_bytes_written := ?n,
            en_failed_value_index := kInvalidIndex, en_failed_field_index := kInvalidIndex\<rparr>, concat ps @ drop ?n out)"
        using n fits by (simp add: EncodeText_def Let_def out)
      then show ?thesis using fits rec ps_def by auto
    qed
  qed
qed

section \<open>The decoder\<close>

lemma run_materialise:
  "k + length ws \<le> n \<Longrightarrow> n \<le> length slots \<Longrightarrow>
   run_visits (materialise_text a mi n view) ws (k, slots) =
     (True, (k + length ws, take k slots @ map (\<lambda>(i, c, l). text_slot a mi view i c l) ws @ drop (k + length ws) slots))"
proof (induction ws arbitrary: k slots)
  case (Cons w ws)
  obtain i c l where w: "w = (i, c, l)" by (metis surj_pair)
  have k: "k < length slots" using Cons.prems by simp
  let ?slots = "slots[k := text_slot a mi view i c l]"
  have "run_visits (materialise_text a mi n view) (w # ws) (k, slots) =
      run_visits (materialise_text a mi n view) ws (k + 1, ?slots)"
    using Cons.prems(1) by (simp add: w materialise_text_def)
  also have "\<dots> = (True, (k + 1 + length ws, take (k + 1) ?slots @ map (\<lambda>(i, c, l). text_slot a mi view i c l) ws @
      drop (k + 1 + length ws) ?slots))"
    using Cons.prems by (intro Cons.IH) simp_all
  also have "take (k + 1) ?slots = take k slots @ [text_slot a mi view i c l]" using k by (simp add: take_Suc_conv_app_nth)
  finally show ?case by (simp add: w)
qed simp

definition field_segments :: "TextActionPlan \<Rightarrow> nat list" where
  "field_segments action = map tsp_field_index (filter (\<lambda>s. tsp_kind s \<noteq> TS_LITERAL) (tap_segments action))"

lemma text_fields_indices: "text_pieces m segs ps \<Longrightarrow>
    map fst (text_fields segs ps) = map tsp_field_index (filter (\<lambda>s. tsp_kind s \<noteq> TS_LITERAL) segs)"
  by (induction m segs ps rule: text_pieces.induct) auto

lemma decode_text:
  assumes action: "action_ok m action" and rec: "text_record m action (cv_bytes input) ps"
    and count: "me_text_decode_field_count m = length (field_segments action)"
    and room: "AdmitSlots slot_size input sa (length slots) (me_text_decode_field_count m) = None"
    and allowed: "pieces_allowed m (tap_segments action) ps"
  shows "\<exists>r slots'. DecodeText plan mi m action slot_size input sa slots result = Some (r, slots') \<and>
    dr_status r = CS_OK \<and> dr_message_index r = dr_message_index result \<and> dr_field_count r = length (field_segments action) \<and>
    (\<forall>k < length (field_segments action).
       ds_field (slots' ! k) = \<lparr>fr_plan_scope = pb_address plan, fr_message_index = mi, fr_field_index = field_segments action ! k\<rparr> \<and>
       ds_value_kind (slots' ! k) = LK_BYTES \<and>
       cv_bytes (ds_bytes_value (slots' ! k)) = snd (text_fields (tap_segments action) ps ! k))"
proof -
  let ?segs = "tap_segments action" and ?n = "length (field_segments action)"
  let ?ws = "visits 0 ?segs ps"
  have pieces: "text_pieces m ?segs ps" "cv_bytes input = concat ps"
    and bounds: "tap_min_record_length action \<le> length (cv_bytes input)" "length (cv_bytes input) \<le> tap_max_record_length action"
    using rec unfolding text_record_def by blast+
  have v: "map (\<lambda>(i, c, n). (i, take n (drop c (cv_bytes input)))) ?ws = text_fields ?segs ps"
    using visits_fields [of "cv_bytes input" "[]" ps 0 ?segs] pieces(2) by simp
  have len: "length ?ws = ?n"
    using arg_cong [OF v, of length] arg_cong [OF text_fields_indices [OF pieces(1)], of length]
    by (simp add: field_segments_def)
  have slots: "?n \<le> length slots" using room count by (auto simp: AdmitSlots_def split: if_splits)
  have "WalkTextAction action m (cv_bytes input) True accept_all () = Some (TW_MATCH, ())"
    unfolding WalkTextAction_iff [OF action] using pieces bounds allowed run_accept_all by blast
  moreover define slots' where "slots' = map (\<lambda>(i, c, l). text_slot (pb_address plan) mi input i c l) ?ws @ drop ?n slots"
  have "run_visits (materialise_text (pb_address plan) mi ?n input) ?ws (0, slots) = (True, (?n, slots'))"
    using run_materialise [of 0 ?ws ?n slots] slots len by (simp add: slots'_def)
  then have "WalkTextAction action m (cv_bytes input) False (materialise_text (pb_address plan) mi ?n input) (0, slots) =
      Some (TW_MATCH, (?n, slots'))"
    unfolding WalkTextAction_iff [OF action] using pieces bounds by blast
  ultimately have "DecodeText plan mi m action slot_size input sa slots result =
      Some (result\<lparr>dr_required_field_count := ?n, dr_status := CS_OK, dr_field_count := ?n, dr_failed_field_index := kInvalidIndex\<rparr>, slots')"
    using room count by (simp add: DecodeText_def Let_def)
  moreover have "ds_field (slots' ! k) = \<lparr>fr_plan_scope = pb_address plan, fr_message_index = mi, fr_field_index = field_segments action ! k\<rparr> \<and>
      ds_value_kind (slots' ! k) = LK_BYTES \<and> cv_bytes (ds_bytes_value (slots' ! k)) = snd (text_fields ?segs ps ! k)"
    if k: "k < ?n" for k
  proof -
    obtain i c l where w: "?ws ! k = (i, c, l)" by (metis surj_pair)
    have f: "text_fields ?segs ps ! k = (i, take l (drop c (cv_bytes input)))"
      using arg_cong [OF v, of "\<lambda>xs. xs ! k"] k len w by simp
    have "field_segments action ! k = i"
      using arg_cong [OF text_fields_indices [OF pieces(1)], of "\<lambda>xs. xs ! k"] arg_cong [OF v, of length] k len f
      by (simp add: field_segments_def)
    then show ?thesis using k len w f by (simp add: slots'_def nth_append text_slot_def)
  qed
  ultimately show ?thesis by auto
qed

section \<open>The calls\<close>

text \<open>A text message that is written and read by the same action, each of whose fields is given to the encoder.\<close>

definition segment_limit :: "MessageExecutionPlan \<Rightarrow> TextSegmentPlan \<Rightarrow> nat" where
  "segment_limit m segment =
     (if tsp_kind segment = TS_LITERAL then length (tsp_literal segment)
      else fe_text_max_length (me_fields m ! tsp_field_index segment))"

definition text_plan_ok :: "MessageExecutionPlan \<Rightarrow> TextActionPlan \<Rightarrow> bool" where
  "text_plan_ok m action \<longleftrightarrow> me_text_encode m = Some action \<and> me_text_decode m = Some action \<and> action_ok m action \<and>
     ordinals_ok m \<and> me_text_decode_field_count m = length (field_segments action) \<and>
     sum_list (map (segment_limit m) (tap_segments action)) \<le> SIZE_MAX \<and>
     (\<forall>i \<in> set (field_segments action). fe_encode_source (me_fields m ! i) = ES_INPUT \<and>
        fe_value_type (me_fields m ! i) = VT_BYTES \<and> fe_text_encode_input (me_fields m ! i))"

lemma field_segments_within:
  assumes "action_ok m action" "i \<in> set (field_segments action)" shows "i < length (me_fields m)"
proof -
  have "segments_ok m segs \<Longrightarrow> i \<in> tsp_field_index ` {s \<in> set segs. tsp_kind s \<noteq> TS_LITERAL} \<Longrightarrow> i < length (me_fields m)" for segs
    by (induction segs) (auto split: if_splits)
  then show ?thesis using assms by (auto simp: action_ok_def field_segments_def)
qed

lemma text_inputs_size:
  "text_inputs m vs indices segs \<Longrightarrow>
     length (concat (map (segment_bytes m vs indices) segs)) \<le> sum_list (map (segment_limit m) segs)"
proof (induction segs)
  case (Cons seg segs)
  have "length (segment_bytes m vs indices seg) \<le> segment_limit m seg"
    using Cons.prems
    by (auto simp: text_inputs_def segment_bytes_def segment_limit_def TextValueCheck_def input_bytes_def Let_def split: if_splits)
  then show ?case using Cons by (simp add: text_inputs_def)
qed simp

lemma text_schema_no_conversions: "text_schema version \<Longrightarrow> \<not> conversion_schema version"
  by (auto simp: text_schema_def conversion_schema_def)

lemma text_inputs_of_plan:
  assumes inputs: "inputs_ok plan m message_index vs indices present" and plan: "text_plan_ok m action"
    and version: "text_schema (pb_schema_version plan)"
  shows "text_inputs m vs indices (tap_segments action)"
proof -
  have "let field = me_fields m ! i in fe_text_encode_input field \<and> fe_input_ordinal field < length indices \<and>
      TextValueCheck field (ev_bytes_value (vs ! (indices ! fe_input_ordinal field))) = None"
    if i: "i \<in> set (field_segments action)" for i
  proof -
    have f: "i < length (me_fields m)" "fe_encode_source (me_fields m ! i) = ES_INPUT"
      "fe_value_type (me_fields m ! i) = VT_BYTES" "fe_text_encode_input (me_fields m ! i)" and ord: "ordinals_ok m"
      using plan i field_segments_within [of m action i] by (auto simp: text_plan_ok_def)
    have "fe_input_ordinal (me_fields m ! i) < length indices" using ord f inputs by (fastforce simp: ordinals_ok_def inputs_ok_def)
    moreover have "ImmediateValueCheck plan m message_index i (me_fields m ! i) (vs ! (indices ! fe_input_ordinal (me_fields m ! i))) = None"
      using required_value(4) [OF inputs ord f(1,2)] f(4) by simp
    ultimately show ?thesis
      using f version text_schema_no_conversions [OF version] by (auto simp: ImmediateValueCheck_def split: if_splits)
  qed
  then show ?thesis by (auto simp: text_inputs_def field_segments_def)
qed

lemma encode_text_success:
  assumes session: "codec_session plan ws" and t: "me_text_encode (pb_message_execution_plans plan ! message_index) = Some action"
    and call: "EncodeCompleteRecord plan value_size ws pipeline_index message_index va vs oa out = Some (e, ws', out')"
    and ok: "en_status e = CS_OK"
  shows "\<exists>indices present dr result. inputs_ok plan (pb_message_execution_plans plan ! message_index) message_index vs indices present \<and>
    EncodeText (pb_message_execution_plans plan ! message_index) action dr vs indices oa out result = Some (e, out') \<and>
    pipeline_index < length (pb_pipeline_execution_plans plan) \<and> SupportsCompleteRecordSchema (pb_schema_version plan) \<and>
    message_index < length (pb_message_execution_plans plan) \<and>
    MessageIsAllowed (pb_pipeline_execution_plans plan ! pipeline_index) message_index"
proof -
  let ?m = "pb_message_execution_plans plan ! message_index"
  have free: "\<not> ew_in_use ws"
    using session_workspace [OF session] by (simp add: workspace_ok_def shape_def layout_shape_def Let_def)
  then obtain ws2 result ws3 result3 dr where p: "PrepareEncodeInputs plan ?m message_index vs ws2 result = (CS_OK, ws3, result3)"
      "EncodeText ?m action dr vs (ew_encode_value_indices ws3) oa out result3 = Some (e, out')"
      "pipeline_index < length (pb_pipeline_execution_plans plan)" "SupportsCompleteRecordSchema (pb_schema_version plan)"
      "message_index < length (pb_message_execution_plans plan)"
      "MessageIsAllowed (pb_pipeline_execution_plans plan ! pipeline_index) message_index"
    using call ok t
    by (auto simp: EncodeCompleteRecord_def EncodeLeased_def no_encode_result_def Let_def split: if_splits option.splits prod.splits)
  then show ?thesis using PrepareEncodeInputs_success [OF p(1)] by blast
qed

lemma DecodeLeased_text:
  assumes "ew_plan_scope ws = pb_address plan" "SupportsCompleteRecordSchema (pb_schema_version plan)"
    and "pipeline_index < length (pb_pipeline_execution_plans plan)" "cv_address input \<noteq> 0" "sa \<noteq> 0"
    and pipe: "groups_sorted (pb_pipeline_execution_plans plan ! pipeline_index)"
      "text_messages_ok (pb_message_execution_plans plan) (pe_text_message_indices (pb_pipeline_execution_plans plan ! pipeline_index))"
      "pe_text_message_indices (pb_pipeline_execution_plans plan ! pipeline_index) \<noteq> []"
    and found: "matching (pb_pipeline_execution_plans plan ! pipeline_index) (pb_message_execution_plans plan) (cv_bytes input) = [i]"
    and t: "me_text_decode (pb_message_execution_plans plan ! i) = Some action"
    and d: "DecodeText plan i (pb_message_execution_plans plan ! i) action slot_size input sa slots
        (no_decode_result\<lparr>dr_message_index := i\<rparr>) = Some (r, slots')"
  shows "\<exists>ws'. DecodeLeased plan slot_size ws pipeline_index input sa slots = Some (r, ws', slots')"
  using assms FindPipelineMatch_outcome [OF pipe(1,2), of "cv_bytes input"]
  by (simp add: DecodeLeased_def Let_def outcome_of_def)

lemma decode_ambiguous:
  assumes session: "codec_session plan ws" and "SupportsCompleteRecordSchema (pb_schema_version plan)"
    and "pipeline_index < length (pb_pipeline_execution_plans plan)" "cv_address input \<noteq> 0" "sa \<noteq> 0"
    and pipe: "groups_sorted (pb_pipeline_execution_plans plan ! pipeline_index)"
      "text_messages_ok (pb_message_execution_plans plan) (pe_text_message_indices (pb_pipeline_execution_plans plan ! pipeline_index))"
      "pe_text_message_indices (pb_pipeline_execution_plans plan ! pipeline_index) \<noteq> []"
    and found: "1 < length (matching (pb_pipeline_execution_plans plan ! pipeline_index) (pb_message_execution_plans plan) (cv_bytes input))"
  shows "\<exists>r ws'. DecodeCompleteRecord plan slot_size ws pipeline_index input sa slots = Some (r, ws', slots) \<and>
    dr_status r = CS_AMBIGUOUS_MESSAGE"
  using assms workspace_ok_sizes(5,6) [OF session_workspace [OF session]] FindPipelineMatch_outcome [OF pipe(1,2), of "cv_bytes input"]
  by (auto simp: DecodeCompleteRecord_def DecodeLeased_def Let_def outcome_of_def)

text \<open>What a successful call of the encoder has written: the concatenation of pieces that the decoder cuts again.\<close>

lemma encoded_pieces:
  assumes session: "codec_session plan ws" and version: "text_schema (pb_schema_version plan)"
    and m: "m = pb_message_execution_plans plan ! message_index" "text_plan_ok m action"
    and encode: "EncodeCompleteRecord plan value_size ws pipeline_index message_index va vs oa out = Some (e, ws1, out')"
      "en_status e = CS_OK"
  obtains indices present where "inputs_ok plan m message_index vs indices present"
    "text_inputs m vs indices (tap_segments action)"
    "text_record m action (take (en_bytes_written e) out') (map (segment_bytes m vs indices) (tap_segments action))"
proof -
  have plan: "me_text_encode m = Some action" "action_ok m action" "sum_list (map (segment_limit m) (tap_segments action)) \<le> SIZE_MAX"
    using m(2) by (simp_all add: text_plan_ok_def)
  obtain indices present dr result where enc: "inputs_ok plan m message_index vs indices present"
      "EncodeText m action dr vs indices oa out result = Some (e, out')"
    using encode_text_success [OF session plan(1) [unfolded m(1)] encode, folded m(1)] by blast
  note inputs = text_inputs_of_plan [OF enc(1) m(2) version]
  have "text_record m action (take (en_bytes_written e) out') (map (segment_bytes m vs indices) (tap_segments action))"
    using encode_text [OF plan(2) inputs le_trans [OF text_inputs_size [OF inputs] plan(3)], of dr oa out result] enc(2) encode(2)
    by auto
  with enc(1) inputs show thesis by (rule that)
qed

section \<open>Properties\<close>

text \<open>C16. The text encoder is exact: with a checked value for every field segment it returns, and it succeeds exactly when
  the concatenation of the segments is a record of the action that can be cut into these pieces again, fits the
  message and the output is admitted; then the buffer starts with exactly that record, and otherwise it is
  untouched: the review after the writing never refuses what was written.\<close>

theorem text_encode_exact:
  assumes "action_ok m action" "text_inputs m vs indices (tap_segments action)"
    and "length (concat (map (segment_bytes m vs indices) (tap_segments action))) \<le> SIZE_MAX"
  shows "\<exists>ps r out'. ps = map (segment_bytes m vs indices) (tap_segments action) \<and>
    EncodeText m action dr vs indices oa out result = Some (r, out') \<and>
    (en_status r = CS_OK \<longleftrightarrow> text_record m action (concat ps) ps \<and> length (concat ps) \<le> me_frame_size m \<and>
       AdmitOutput (\<lambda>v. True) dr vs oa (length out) (length (concat ps)) = None) \<and>
    (en_status r = CS_OK \<longrightarrow> en_bytes_written r = length (concat ps) \<and> out' = concat ps @ drop (length (concat ps)) out) \<and>
    (en_status r \<noteq> CS_OK \<longrightarrow> out' = out)"
  by (rule encode_text [OF assms])

definition example_text_value :: "u8 list \<Rightarrow> EncodeFieldValue" where
  "example_text_value bytes = \<lparr>ev_field = \<lparr>fr_plan_scope = 1000, fr_message_index = 0, fr_field_index = 0\<rparr>,
     ev_value_kind = LK_BYTES, ev_uint64_value = 0, ev_int64_value = 0, ev_bool_value = False,
     ev_bytes_value = \<lparr>cv_address = 6000, cv_bytes = bytes\<rparr>, ev_enum_value = no_enum_ref,
     ev_decimal64_value = \<lparr>coefficient = 0, scale = 0\<rparr>\<rparr>"

lemma example_text_inputs:
  "text_inputs example_text_message [example_text_value [0x31, 0x32]] [0] (tap_segments example_action)"
  by (simp add: text_inputs_def example_action_def example_literal_def example_text_message_def example_text_field_def
      example_length_field_def example_text_value_def TextValueCheck_def GetAddressRange_def SIZE_MAX_def IsAllowedAscii_def)

lemma example_text_pieces:
  "map (segment_bytes example_text_message [example_text_value [0x31, 0x32]] [0]) (tap_segments example_action) =
     [[0x23], [0x31, 0x32], [0x3B]]"
  by (simp add: segment_bytes_def example_action_def example_literal_def input_bytes_def example_text_message_def
      example_text_field_def example_length_field_def example_text_value_def)

theorem text_encode_exact_witness:
  "\<exists>r. EncodeText example_text_message example_action \<lparr>ar_begin = 7000, ar_end = 7096\<rparr>
      [example_text_value [0x31, 0x32]] [0] 9000 [0, 0, 0, 0, 0, 0] no_encode_result =
    Some (r, [0x23, 0x31, 0x32, 0x3B, 0, 0]) \<and> en_status r = CS_OK"
proof -
  have admit: "AdmitOutput (\<lambda>v. True) \<lparr>ar_begin = 7000, ar_end = 7096\<rparr> [example_text_value [0x31, 0x32]] 9000
      (length [0, 0, 0, 0, 0, 0 :: u8]) (length (concat [[0x23], [0x31, 0x32], [0x3B :: u8]])) = None"
    by (simp add: AdmitOutput_def GetAddressRange_def SIZE_MAX_def RangesOverlap_def example_text_value_def)
  have "length (concat [[0x23], [0x31, 0x32], [0x3B :: u8]]) \<le> SIZE_MAX" "me_frame_size example_text_message = 5"
    by (simp_all add: SIZE_MAX_def example_text_message_def)
  with text_encode_exact [OF example_action_ok example_text_inputs, of "\<lparr>ar_begin = 7000, ar_end = 7096\<rparr>" 9000
      "[0, 0, 0, 0, 0, 0]" no_encode_result] example_text_record admit
  show ?thesis unfolding example_text_pieces by auto
qed

section \<open>Reading back\<close>

text \<open>After a successful call of the encoder for a text message that is read and written by the same action, the decoder
  finds the message unless the record matches another message too, and fills one slot for each field segment.\<close>

lemma text_roundtrip:
  assumes sessions: "codec_session plan ws" "codec_session plan ws2" and version: "text_schema (pb_schema_version plan)"
    and pipeline: "pipeline = pb_pipeline_execution_plans plan ! pipeline_index" "groups_sorted pipeline"
      "text_messages_ok (pb_message_execution_plans plan) (pe_text_message_indices pipeline)" "pe_text_message_indices pipeline \<noteq> []"
    and m: "m = pb_message_execution_plans plan ! message_index" "text_plan_ok m action"
    and encode: "EncodeCompleteRecord plan value_size ws pipeline_index message_index va vs oa out = Some (e, ws1, out')"
      "en_status e = CS_OK"
    and frame: "input = \<lparr>cv_address = a, cv_bytes = take (en_bytes_written e) out'\<rparr>" "a \<noteq> 0" "sa \<noteq> 0"
    and found: "matching pipeline (pb_message_execution_plans plan) (cv_bytes input) = [message_index]"
    and room: "AdmitSlots slot_size input sa (length slots) (me_text_decode_field_count m) = None"
  shows "\<exists>r ws3 slots'. DecodeCompleteRecord plan slot_size ws2 pipeline_index input sa slots = Some (r, ws3, slots') \<and>
    dr_status r = CS_OK \<and> dr_message_index r = message_index \<and> dr_field_count r = length (field_segments action) \<and>
    (\<forall>k < length (field_segments action). \<exists>v \<in> set vs. fr_field_index (ev_field v) = field_segments action ! k \<and>
       slot_agrees v (slots' ! k) \<and> (\<forall>u \<in> set vs. fr_field_index (ev_field u) = field_segments action ! k \<longrightarrow> u = v))"
proof -
  let ?messages = "pb_message_execution_plans plan" and ?segs = "tap_segments action"
  have plan: "me_text_encode m = Some action" "me_text_decode m = Some action" "action_ok m action" "ordinals_ok m"
    "me_text_decode_field_count m = length (field_segments action)"
    "sum_list (map (segment_limit m) ?segs) \<le> SIZE_MAX"
    using m(2) by (simp_all add: text_plan_ok_def)
  have call_ok: "pipeline_index < length (pb_pipeline_execution_plans plan)" "SupportsCompleteRecordSchema (pb_schema_version plan)"
    using encode_text_success [OF sessions(1) plan(1) [unfolded m(1)] encode] by blast+
  obtain indices present where enc: "inputs_ok plan m message_index vs indices present"
      and inputs: "text_inputs m vs indices ?segs"
      and written: "text_record m action (take (en_bytes_written e) out') (map (segment_bytes m vs indices) ?segs)"
    using sessions(1) version m encode by (rule encoded_pieces)
  define ps where "ps = map (segment_bytes m vs indices) ?segs"
  have out: "text_record m action (concat ps) ps" "take (en_bytes_written e) out' = concat ps"
    using written unfolding ps_def by (auto simp: text_record_def simp del: length_concat length_take)
  have bytes: "cv_bytes input = concat ps" "cv_address input \<noteq> 0" using frame out(2) by simp_all
  have allowed: "pieces_allowed m ?segs ps" unfolding ps_def by (rule inputs_allowed [OF inputs])
  obtain r slots' where d: "DecodeText plan message_index m action slot_size input sa slots
        (no_decode_result\<lparr>dr_message_index := message_index\<rparr>) = Some (r, slots')"
      "dr_status r = CS_OK" "dr_message_index r = message_index" "dr_field_count r = length (field_segments action)"
      "\<And>k. k < length (field_segments action) \<Longrightarrow>
         ds_field (slots' ! k) = \<lparr>fr_plan_scope = pb_address plan, fr_message_index = message_index, fr_field_index = field_segments action ! k\<rparr> \<and>
         ds_value_kind (slots' ! k) = LK_BYTES \<and> cv_bytes (ds_bytes_value (slots' ! k)) = snd (text_fields ?segs ps ! k)"
    using decode_text [OF plan(3) out(1) [folded bytes(1)] plan(5) room allowed, where plan = plan and mi = message_index and
        result = "no_decode_result\<lparr>dr_message_index := message_index\<rparr>"] by auto
  note sizes = workspace_ok_sizes [OF session_workspace [OF sessions(2)]]
  obtain ws3 where "DecodeLeased plan slot_size (ws2\<lparr>ew_in_use := True\<rparr>) pipeline_index input sa slots = Some (r, ws3, slots')"
    using DecodeLeased_text [of "ws2\<lparr>ew_in_use := True\<rparr>" plan pipeline_index input sa message_index action slot_size slots r slots']
      sizes(5) call_ok bytes(2) frame(3) pipeline found plan(2) m(1) d(1) by auto
  then have call: "DecodeCompleteRecord plan slot_size ws2 pipeline_index input sa slots = Some (r, ws3\<lparr>ew_in_use := False\<rparr>, slots')"
    using sizes(6) by (simp add: DecodeCompleteRecord_def)
  have agree: "\<exists>v \<in> set vs. fr_field_index (ev_field v) = field_segments action ! k \<and> slot_agrees v (slots' ! k) \<and>
      (\<forall>u \<in> set vs. fr_field_index (ev_field u) = field_segments action ! k \<longrightarrow> u = v)"
    if k: "k < length (field_segments action)" for k
  proof -
    let ?i = "field_segments action ! k"
    define v where "v = vs ! (indices ! fe_input_ordinal (me_fields m ! ?i))"
    have f: "fe_encode_source (me_fields m ! ?i) = ES_INPUT" "fe_value_type (me_fields m ! ?i) = VT_BYTES"
      "fe_text_encode_input (me_fields m ! ?i)" using m(2) k by (simp_all add: text_plan_ok_def)
    have i: "?i < length (me_fields m)" using field_segments_within [OF plan(3)] k by simp
    have "text_schema (pb_schema_version plan) \<longrightarrow> fe_text_encode_input (me_fields m ! ?i)" using f(3) by blast
    note value_is = required_value [OF enc plan(4) i f(1) this, folded v_def]
    have kind: "ev_value_kind v = LK_BYTES"
      using value_is(4) f version text_schema_no_conversions [OF version]
      by (auto simp: ImmediateValueCheck_def ValueKindMatches_def split: if_splits)
    have "map fst (text_fields ?segs ps) = field_segments action"
      using text_fields_indices [of m ?segs ps] out(1) by (simp add: text_record_def field_segments_def)
    then have "text_fields ?segs ps ! k \<in> set (text_fields ?segs ps)" "fst (text_fields ?segs ps ! k) = ?i"
      using k by (metis length_map nth_mem, metis length_map nth_map)
    then have "(?i, snd (text_fields ?segs ps ! k)) \<in> set (text_fields ?segs ps)" by (metis prod.collapse)
    then have "snd (text_fields ?segs ps ! k) = input_bytes vs indices (me_fields m ! ?i)"
      unfolding ps_def by (auto simp: segment_bytes_def dest!: text_fields_values)
    then have "slot_agrees v (slots' ! k)"
      using d(5) [OF k] value_is(2) kind by (simp add: slot_agrees_def input_bytes_def v_def)
    moreover have "fr_field_index (ev_field v) = ?i" using value_is(2) by simp
    ultimately show ?thesis using value_is(1,3) by blast
  qed
  have all: "\<forall>k < length (field_segments action). \<exists>v \<in> set vs. fr_field_index (ev_field v) = field_segments action ! k \<and>
      slot_agrees v (slots' ! k) \<and> (\<forall>u \<in> set vs. fr_field_index (ev_field u) = field_segments action ! k \<longrightarrow> u = v)"
    by (intro allI impI agree)
  show ?thesis by (intro exI conjI) (rule call d(2-4) all)+
qed

end
