(* ===== verification/Plan_Text_Roundtrip.thy ===== *)
theory Plan_Text_Roundtrip
  imports Plan_Example Text_Roundtrip
begin

text \<open>
  The round trip of text messages over published plans.  The plan builder establishes what the round trip of
  \<open>Text_Roundtrip\<close> rests on: the words of a pipeline allow exactly its messages, its candidates are distinct, and a
  message with one layout for both directions takes every field of it as an input.
\<close>

section \<open>The allowed messages of a pipeline\<close>

lemma SortCandidate_words:
  "ps_allowed_message_words (SortCandidate plans i s) =
     (ps_allowed_message_words s)[i div 64 := ps_allowed_message_words s ! (i div 64) OR push_bit (i mod 64) 1]"
  by (simp add: SortCandidate_def Let_def kBitsPerAllowedMessageWord_def)

lemma allowed_word_within: "i < n \<Longrightarrow> i div 64 < allowed_word_count n"
  unfolding allowed_word_count_def kBitsPerAllowedMessageWord_def
  by (cases "n mod 64 = 0") (auto simp: less_mult_imp_div_less div_le_mono less_Suc_eq_le)

lemma same_position: "i div 64 = k div 64 \<Longrightarrow> i mod 64 = k mod 64 \<Longrightarrow> i = (k :: nat)"
  by (metis div_mult_mod_eq)

definition words_allow :: "nat \<Rightarrow> nat list \<Rightarrow> u64 list \<Rightarrow> bool" where
  "words_allow n indices words \<longleftrightarrow> length words = allowed_word_count n \<and>
     (\<forall>i < n. bit (words ! (i div 64)) (i mod 64) \<longleftrightarrow> i \<in> set indices)"

lemma words_allow_start: "words_allow n [] (replicate (allowed_word_count n) 0)"
  by (simp add: words_allow_def allowed_word_within)

lemma words_allow_turn:
  assumes "words_allow n indices words" "k < n"
  shows "words_allow n (indices @ [k]) (words[k div 64 := words ! (k div 64) OR push_bit (k mod 64) 1])"
proof -
  have "bit (words[k div 64 := words ! (k div 64) OR push_bit (k mod 64) 1] ! (i div 64)) (i mod 64) \<longleftrightarrow> i \<in> set (indices @ [k])"
    if i: "i < n" for i
  proof (cases "i div 64 = k div 64")
    case True
    have "i mod 64 = k mod 64 \<longleftrightarrow> i = k" using same_position [OF True] by auto
    moreover have "bit (push_bit (k mod 64) 1 :: u64) (i mod 64) \<longleftrightarrow> i mod 64 = k mod 64"
      by (auto simp: bit_simps)
    ultimately show ?thesis
      using assms i True allowed_word_within [OF assms(2)] by (auto simp: words_allow_def bit_or_iff)
  next
    case False
    then have "i \<noteq> k" by auto
    then show ?thesis using assms(1) i False by (auto simp: words_allow_def)
  qed
  then show ?thesis using assms(1) by (simp add: words_allow_def)
qed

lemma allowed_loop:
  assumes loop: "each (PipelineMessage messages plans framing_plan k pipeline) 0 (pl_message_indices pipeline) start = Inr s"
    and start: "ps_allowed_message_words start = replicate (allowed_word_count (length messages)) 0"
  shows "words_allow (length messages) (pl_message_indices pipeline) (ps_allowed_message_words s)"
proof -
  define P where "P j t \<longleftrightarrow> words_allow (length messages) (take j (pl_message_indices pipeline)) (ps_allowed_message_words t)"
    for j and t :: PipelineState
  have "P (length (pl_message_indices pipeline)) s"
  proof (rule each_invariant [OF loop])
    show "P 0 start" by (simp add: P_def start words_allow_start)
    show "P (Suc j) t'"
      if "j < length (pl_message_indices pipeline)"
        "PipelineMessage messages plans framing_plan k pipeline (0 + j) (pl_message_indices pipeline ! j) t = Inr t'" "P j t"
      for j t t'
      using that(2)
    proof (cases rule: PipelineMessage_accepted)
      case (1 c)
      then show ?thesis
        using that(1,3) words_allow_turn by (simp add: P_def SortCandidate_words take_Suc_conv_app_nth)
    qed
  qed
  then show ?thesis by (simp add: P_def)
qed

lemma pipelines_allow:
  assumes loop: "each (PreparePipeline messages plans framings) 0 pipelines ([], []) = Inr (ids, executions)"
    and k: "k < length pipelines" and i: "i < length messages"
  shows "MessageIsAllowed (executions ! k) i \<longleftrightarrow> i \<in> set (pl_message_indices (pipelines ! k))"
proof -
  define P where "P j t \<longleftrightarrow> length (snd t) = j \<and>
      (\<forall>k < j. words_allow (length messages) (pl_message_indices (pipelines ! k)) (pe_allowed_message_words (snd t ! k)))"
    for j and t :: "string list \<times> PipelineExecutionPlan list"
  have "P (length pipelines) (ids, executions)"
  proof (rule each_invariant [OF loop])
    show "P 0 ([], [])" by (simp add: P_def)
    show "P (Suc j) t'"
      if step: "PreparePipeline messages plans framings (0 + j) (pipelines ! j) t = Inr t'" and prior: "P j t" for j t t'
    proof -
      obtain execution where "snd t' = snd t @ [execution]"
        "words_allow (length messages) (pl_message_indices (pipelines ! j)) (pe_allowed_message_words execution)"
        using step by (cases t) (auto simp: PreparePipeline_def accepted Let_def dest!: allowed_loop)
      then show ?thesis using prior by (auto simp: P_def less_Suc_eq nth_append)
    qed
  qed
  then show ?thesis unfolding MessageIsAllowed_def class_bit using k i by (simp add: P_def words_allow_def)
qed

lemma frozen_allowed:
  assumes "Freeze platform (Some draft) = Inr (plan, report)" "k < length (pb_pipeline_execution_plans plan)"
    and "i < length (pb_message_execution_plans plan)"
  shows "MessageIsAllowed (pb_pipeline_execution_plans plan ! k) i \<longleftrightarrow> i \<in> set (pl_message_indices (dd_pipelines draft ! k))"
  using assms(1)
proof (cases rule: Freeze_parts)
  case (1 s r ids)
  then show ?thesis using pipelines_allow [OF 1(4)] assms(2,3) frozen_lengths [OF assms(1)] by simp
qed

text \<open>A record has no candidate twice.\<close>

lemma matching_distinct:
  assumes "pipeline_prepared messages plans framings pipeline execution"
  shows "distinct (matching execution plans input)"
  using prepared_indices(1) [OF assms]
  by (auto simp: matching_def prepared_groups(2,3) [OF assms] sized_def fixed_kind_def variable_kind_def)

section \<open>The fields of a text action\<close>

definition segment_fields :: "TextSegmentPlan list \<Rightarrow> nat list" where
  "segment_fields segments = map tsp_field_index (filter (\<lambda>s. tsp_kind s \<noteq> TS_LITERAL) segments)"

lemma CheckSegments_counts:
  assumes "text_lengths_as fs m"
  shows "CheckSegments fs decode segments c = Some c' \<Longrightarrow> length (ac_references c) = length fs \<Longrightarrow> ac_maximum c \<le> SIZE_MAX \<Longrightarrow>
    (\<forall>i < length fs. ac_references c' ! i \<longleftrightarrow> ac_references c ! i \<or> i \<in> set (segment_fields segments)) \<and>
    ac_decode_field_count c' = ac_decode_field_count c + (if decode then length (segment_fields segments) else 0) \<and>
    ac_maximum c' = ac_maximum c + sum_list (map (segment_limit m) segments) \<and> ac_maximum c' \<le> SIZE_MAX"
proof (induction segments arbitrary: c)
  case Nil
  then show ?case by (simp add: segment_fields_def)
next
  case (Cons segment following)
  obtain c1 where c1: "(if tsp_kind segment = TS_LITERAL then CheckLiteral segment c
      else CheckFieldSegment fs decode segment following c) = Some c1" "CheckSegments fs decode following c1 = Some c'"
    using Cons.prems(1) by (auto split: option.splits)
  have step: "(\<forall>i < length fs. ac_references c1 ! i \<longleftrightarrow> ac_references c ! i \<or> i \<in> set (segment_fields [segment])) \<and>
      ac_decode_field_count c1 = ac_decode_field_count c + (if decode then length (segment_fields [segment]) else 0) \<and>
      ac_maximum c1 = ac_maximum c + segment_limit m segment \<and> ac_maximum c1 \<le> SIZE_MAX \<and> length (ac_references c1) = length fs"
  proof (cases "tsp_kind segment = TS_LITERAL")
    case True
    then show ?thesis
      using c1(1) Cons.prems(2,3) by (auto simp: CheckLiteral_def AddSizeChecked_def segment_fields_def segment_limit_def
          not_less split: if_splits option.splits)
  next
    case False
    then show ?thesis
      using c1(1) Cons.prems(2,3) assms
      by (auto simp: CheckFieldSegment_def Let_def ToSize_def AddSizeChecked_def segment_fields_def segment_limit_def
          text_lengths_as_def nth_list_update not_less split: if_splits option.splits)
  qed
  have "segment_fields (segment # following) = segment_fields [segment] @ segment_fields following"
    by (simp add: segment_fields_def)
  then show ?case using step Cons.IH [OF c1(2)] by auto
qed

lemma ValidateAction_counts:
  assumes "ValidateAction fs n decode (Some action) = Some (references, count)" "text_lengths_as fs m"
  shows "\<forall>i < length fs. references ! i \<longleftrightarrow> i \<in> set (field_segments action)"
    and "decode \<Longrightarrow> count = length (field_segments action)"
    and "sum_list (map (segment_limit m) (tap_segments action)) \<le> SIZE_MAX"
proof -
  let ?start = "\<lparr>ac_references = replicate (length fs) False, ac_decode_field_count = 0, ac_minimum = 0, ac_maximum = 0\<rparr>"
  obtain c where c: "CheckSegments fs decode (tap_segments action) ?start = Some c" "references = ac_references c"
      "count = ac_decode_field_count c"
    using assms(1) by (auto simp: ValidateAction_def split: if_splits option.splits)
  from CheckSegments_counts [OF assms(2) c(1)]
  show "\<forall>i < length fs. references ! i \<longleftrightarrow> i \<in> set (field_segments action)"
    "decode \<Longrightarrow> count = length (field_segments action)"
    "sum_list (map (segment_limit m) (tap_segments action)) \<le> SIZE_MAX"
    by (simp_all add: c(2,3) field_segments_def segment_fields_def)
qed

lemma text_fields_used:
  assumes "each (PrepareTextField k decode_fields encode_fields) 0 fs ([], 0, []) = Inr t"
  shows "\<forall>i < length fs. decode_fields ! i \<or> encode_fields ! i"
proof -
  define P where "P j t \<longleftrightarrow> (\<forall>i < j. decode_fields ! i \<or> encode_fields ! i)"
    for j and t :: "string list \<times> nat \<times> FieldExecutionPlan list"
  have "P (length fs) t"
  proof (rule each_invariant [OF assms])
    show "P 0 ([], 0, [])" by (simp add: P_def)
    show "P (Suc j) t'" if "PrepareTextField k decode_fields encode_fields (0 + j) (fs ! j) t = Inr t'" "P j t" for j t t'
      using that PrepareTextField_accepted(2) [of k decode_fields encode_fields j] by (cases t) (auto simp: P_def less_Suc_eq)
  qed
  then show ?thesis by (simp add: P_def)
qed

lemma encoded_before_all:
  assumes "\<forall>i < n. encode_fields ! i" "length encode_fields = n" "k \<le> n"
  shows "encoded_before encode_fields k = k"
proof -
  have "filter id (take k encode_fields) = take k encode_fields"
    using assms by (intro filter_True) (auto simp: in_set_conv_nth)
  then show ?thesis using assms by (simp add: encoded_before_def)
qed

text \<open>A published message with one layout for both directions.\<close>

lemma prepared_text_plan_ok:
  assumes prepared: "PrepareTextMessage version k message ascii n = Inr m"
    and actions: "me_text_encode m = Some action" "me_text_decode m = Some action"
  shows "text_plan_ok m action \<and> text_schema version \<and> (\<forall>i < length (me_fields m). i \<in> set (field_segments action))"
  using prepared
proof (cases rule: text_facts)
  case (1 decode_fields decode_count encode_fields encode_count)
  let ?fs = "ms_fields message"
  have decode: "ValidateAction ?fs n True (Some action) = Some (decode_fields, decode_count)"
    and encode: "ValidateAction ?fs n False (Some action) = Some (encode_fields, encode_count)"
    using 1(1,2,6,7) actions by simp_all
  note counts = ValidateAction_counts [OF decode 1(9)] and refs = ValidateAction_counts(1) [OF encode 1(9)]
  have "\<forall>i < length ?fs. decode_fields ! i \<or> encode_fields ! i"
    using prepared
  proof (cases rule: PrepareTextMessage_accepted)
    case (1 df dc ef ec ids ordinal descriptors)
    then show ?thesis using text_fields_used [OF 1(3)] \<open>ValidateAction ?fs n True (at_decode ascii) = Some (decode_fields, decode_count)\<close>
        \<open>ValidateAction ?fs n False (at_encode ascii) = Some (encode_fields, encode_count)\<close> by simp
  qed
  then have all: "\<forall>i < length ?fs. encode_fields ! i" using counts(1) refs by blast
  have field: "me_fields m ! i = text_field_of encode_fields i (?fs ! i)" "fe_input_ordinal (me_fields m ! i) = i"
    if "i < length ?fs" for i
    using that all encoded_before_all [OF all 1(3), of i] by (simp_all add: 1(4) text_field_of_def)
  have "ordinals_ok m"
    unfolding ordinals_ok_def using field(2) encoded_before_all [OF all 1(3) order_refl] by (simp add: 1(4,5))
  moreover have "i < length ?fs" if "i \<in> set (field_segments action)" for i
    using field_segments_within [OF ValidateAction_ok [OF encode 1(9)] that] by (simp add: 1(4))
  ultimately have "text_plan_ok m action"
    using actions counts ValidateAction_ok [OF encode 1(9)] all field(1) 1(8)
    by (simp add: text_plan_ok_def text_field_of_def)
  then show ?thesis using 1(13) all refs by (simp add: text_schema_def 1(4))
qed

lemma frozen_text_message:
  assumes "Freeze platform (Some draft) = Inr (plan, report)" "k < length (dd_messages draft)"
    and "me_text_encode (pb_message_execution_plans plan ! k) \<noteq> None"
  obtains ascii where "PrepareTextMessage (pb_schema_version plan) k (dd_messages draft ! k) ascii
      (ms_frame_length_bytes (dd_messages draft ! k)) = Inr (pb_message_execution_plans plan ! k)"
proof -
  obtain slots where "prepared_as (pb_schema_version plan) (GetResourceProfileLimits (dd_resource_profile draft))
      (pb_conversions plan) k (dd_messages draft ! k) (pb_message_execution_plans plan ! k) slots"
    using assms(1,2) by (rule frozen_message)
  then show thesis using that assms(3) by (auto simp: prepared_as_def dest: PrepareBinaryMessage_text split: option.splits)
qed

section \<open>A text message in both directions\<close>

text \<open>The text message of the second example, now written with the layout it is read with.\<close>

definition duplex_text :: AsciiTextPlan where
  "duplex_text = \<lparr>at_decode = Some crlf_action, at_encode = Some crlf_action\<rparr>"

definition duplex_message :: MessagePlan where
  "duplex_message = crlf_message\<lparr>ms_ascii_text := Some duplex_text\<rparr>"

definition duplex_requirements :: ResourceRequirements where
  "duplex_requirements = crlf_requirements\<lparr>rq_total_text_segment_count := 4\<rparr>"

definition duplex_memory :: PlanMemoryReport where
  "duplex_memory = \<lparr>mr_object_bytes = 400, mr_string_bytes = 33, mr_matcher_bytes = 36, mr_metadata_container_bytes = 632,
     mr_execution_descriptor_bytes = 848, mr_index_bytes = 16, mr_extension_bytes = 18, mr_alignment_bytes = 25,
     mr_allocation_count = 28, mr_upstream_allocation_count = 1, mr_accounted_total_bytes = 2008\<rparr>"

definition duplex_draft :: PlanDraftData where
  "duplex_draft = crlf_draft\<lparr>dd_resource_requirements := duplex_requirements, dd_messages := [duplex_message],
     dd_approved_plan_memory := duplex_memory\<rparr>"

lemma duplex_draft_parts [simp]:
  "dd_schema_version duplex_draft = ''0.11''" "dd_protocol_id duplex_draft = ''example''"
  "dd_protocol_version duplex_draft = ''1''" "dd_resource_profile duplex_draft = DESKTOP"
  "dd_resource_requirements duplex_draft = duplex_requirements"
  "dd_framing_profiles duplex_draft = [line_framing]" "dd_pipelines duplex_draft = [example_pipeline_plan]"
  "dd_messages duplex_draft = [duplex_message]" "dd_conversions duplex_draft = []"
  "dd_approved_plan_memory duplex_draft = duplex_memory" "dd_plan_memory_limit_bytes duplex_draft = 0"
  "dd_test_fail_at_allocation duplex_draft = 0"
  by (simp_all add: duplex_draft_def)

lemma duplex_message_parts:
  "ms_id duplex_message = ''line''" "ms_direction_id duplex_message = ''up''" "ms_frame_length_bytes duplex_message = 4"
  "ms_fields duplex_message = [crlf_field]" "ms_matchers duplex_message = []" "ms_bit_containers duplex_message = []"
  "ms_integrity duplex_message = None" "ms_bounded_payload duplex_message = None" "ms_computed_length duplex_message = None"
  "ms_ascii_text duplex_message = Some duplex_text"
  by (simp_all add: duplex_message_def crlf_message_def)

lemma duplex_counted:
  "CountMessage kDesktopResourceProfileLimits 0 duplex_message (start_requirements duplex_draft) = Inr (duplex_requirements
     \<lparr>rq_max_stream_frame_bytes := 0, rq_max_sync_bytes := 0, rq_max_framing_buffer_bytes := 0\<rparr>)"
  by (simp add: CountMessage_def CountText_def CountParts_def CountEnumEntries_def AddSizeChecked_def SIZE_MAX_def
      duplex_message_parts duplex_text_def crlf_field_def crlf_action_def example_field_def start_requirements_def no_requirements_def
      segments_of_def kDesktopResourceProfileLimits_def duplex_requirements_def crlf_requirements_def)

lemma duplex_resources: "CheckResources duplex_draft = Inr duplex_requirements"
  by (simp add: CheckResources_def MetadataValid_def schema_versions_def example_ids duplex_counted unless_def followed_by_def
      crlf_framing_prepared RequirementsEqual_iff Let_def Suc_le_eq duplex_requirements_def crlf_requirements_def)

definition duplex_execution :: MessageExecutionPlan where
  "duplex_execution = no_message_execution
     \<lparr>me_frame_size := 4, me_fields := [text_field_of [True] 0 crlf_field], me_required_input_count := 1,
      me_text_decode := Some crlf_action, me_text_encode := Some crlf_action, me_text_decode_field_count := 1\<rparr>"

lemma duplex_validated: "ValidateAction [crlf_field] 4 False (Some crlf_action) = Some ([True], 0)"
  by (simp add: ValidateAction_def crlf_action_def CheckLiteral_def CheckFieldSegment_def ToSize_def AddSizeChecked_def
      SIZE_MAX_def line_table crlf_field_def)

lemma duplex_prepared_message: "PrepareTextMessage ''0.11'' 0 duplex_message duplex_text 4 = Inr duplex_execution"
proof -
  have f: "fl_id crlf_field = ''word''" "fl_value_type crlf_field = VT_BYTES" "fl_wire_codec crlf_field = WC_ASCII_TEXT"
    by (simp_all add: crlf_field_def)
  show ?thesis
    using crlf_field_printable
    by (simp add: PrepareTextMessage_def unless_def duplex_message_parts duplex_text_def crlf_validated duplex_validated followed_by_def
        PrepareTextField_def f crlf_ids duplex_execution_def text_field_of_def encoded_before_def no_message_execution_def
        del: upt_rec_numeral)
qed

definition duplex_prepared_messages :: MessagesState where
  "duplex_prepared_messages = \<lparr>mg_ids = [''line''], mg_reference_counts = [], mg_plans = [duplex_execution],
     mg_max_fields = 1, mg_max_inputs = 1, mg_conversion_slots = 0\<rparr>"

lemma duplex_messages: "PrepareMessages duplex_draft = Inr duplex_prepared_messages"
proof -
  have m: "me_required_input_count duplex_execution = 1" by (simp add: duplex_execution_def)
  show ?thesis
    by (simp add: PrepareMessages_def PrepareMessage_def followed_by_def unless_def m duplex_message_parts example_ids
        duplex_prepared_message ToSize_def SIZE_MAX_def duplex_prepared_messages_def)
qed

definition duplex_layout :: ExecutionResourceLayout where
  "duplex_layout = \<lparr>rl_max_fields_per_message = 1, rl_max_input_fields_per_message = 1, rl_encode_value_index_count = 1,
     rl_encode_presence_word_count = 1, rl_bit_container_value_count = 0, rl_conversion_value_count = 0,
     rl_estimated_workspace_bytes = 16\<rparr>"

lemma duplex_layout_fits:
  "PrepareLayout 4 kDesktopResourceProfileLimits [duplex_message] duplex_prepared_messages = Some duplex_layout"
  by (simp add: PrepareLayout_def kBitsPerAllowedMessageWord_def MultiplySizeChecked_def AddSizeChecked_def SIZE_MAX_def
      kConversionWorkspaceBytesPerSlot_def kDesktopResourceProfileLimits_def duplex_layout_def duplex_message_parts duplex_prepared_messages_def)

lemma duplex_pipelines:
  "PreparePipeline [duplex_message] [duplex_execution] [line_framing] 0 example_pipeline_plan ([], []) = Inr ([''line''], [crlf_pipeline])"
proof -
  have m: "me_text_decode duplex_execution = Some crlf_action" "tap_max_record_length crlf_action = 4" "at_decode duplex_text = Some crlf_action"
    by (simp_all add: duplex_execution_def no_message_execution_def crlf_action_def duplex_text_def)
  have f: "fp_input_kind line_framing = IK_STREAM_CHUNK" "fp_strategy line_framing = FS_ASCII_CRLF" "fp_maximum_frame_length line_framing = 4"
    by (simp_all add: line_framing_def)
  show ?thesis
    by (simp add: PreparePipeline_def unless_def followed_by_def PipelineMessage_def StreamMessage_def AsciiStreamMessage_def
        SortCandidate_def ambiguous_def allowed_word_count_def kBitsPerAllowedMessageWord_def example_pipeline_plan_def m f
        duplex_message_parts crlf_proved crlf_pipeline_def example_ids Let_def)
qed

definition duplex_descriptors :: PreparedPlan where
  "duplex_descriptors = \<lparr>pr_requirements = duplex_requirements, pr_layout = duplex_layout, pr_messages = [duplex_execution],
     pr_pipelines = [crlf_pipeline]\<rparr>"

lemma duplex_draft_prepared: "PrepareDraft 4 duplex_draft = Inr duplex_descriptors"
  by (simp add: PrepareDraft_def followed_by_def duplex_resources duplex_messages duplex_layout_fits duplex_pipelines
      duplex_descriptors_def duplex_prepared_messages_def [THEN arg_cong [of _ _ mg_plans]])

lemma duplex_estimate:
  "EstimatePreparedPlanMemory example_abi duplex_draft [duplex_execution] [crlf_pipeline] SIZE_MAX = Some duplex_memory"
  by (simp add: estimating line_framing_def example_pipeline_plan_def duplex_message_parts duplex_text_def crlf_field_def example_field_def
      duplex_execution_def no_message_execution_def text_field_of_def no_field_execution_def crlf_action_def crlf_pipeline_def)
    (simp add: numeral_2_eq_2 [symmetric] duplex_memory_def)

definition duplex_plan :: PlanBundle where
  "duplex_plan = bundle_of 1000 duplex_draft duplex_descriptors"

lemma duplex_frozen: "Freeze example_build (Some duplex_draft) = Inr (duplex_plan, duplex_memory)"
proof -
  have platform: "bp_memory_available example_build" "bp_value_type_bytes example_build = 4" "bp_abi example_build = example_abi"
    "bp_address example_build = 1000"
    by (simp_all add: example_build_def)
  have "mr_accounted_total_bytes duplex_memory \<le> effective_plan_memory_limit duplex_draft"
    by (simp add: duplex_memory_def effective_plan_memory_limit_def kDesktopResourceProfileLimits_def kV01MaxPlanMemoryHardLimit_def)
  then show ?thesis
    using Freeze_exact [OF example_abi_ok platform(1), of duplex_draft]
    by (simp add: platform followed_by_def duplex_draft_prepared duplex_descriptors_def duplex_estimate not_less duplex_plan_def)
qed

text \<open>The word A on a line: what the encoder writes, and what matches it.\<close>

lemma duplex_plan_parts [simp]:
  "pb_address duplex_plan = 1000" "pb_schema_version duplex_plan = ''0.11''" "pb_layout duplex_plan = duplex_layout"
  "pb_message_execution_plans duplex_plan = [duplex_execution]" "pb_pipeline_execution_plans duplex_plan = [crlf_pipeline]"
  by (simp_all add: duplex_plan_def bundle_of_def duplex_descriptors_def)

lemma duplex_execution_parts [simp]:
  "me_frame_size duplex_execution = 4" "me_fields duplex_execution = [text_field_of [True] 0 crlf_field]"
  "me_required_input_count duplex_execution = 1" "me_text_decode duplex_execution = Some crlf_action"
  "me_text_encode duplex_execution = Some crlf_action" "me_text_decode_field_count duplex_execution = 1"
  "me_bounded_payload duplex_execution = None"
  by (simp_all add: duplex_execution_def no_message_execution_def)

definition duplex_entry :: FieldExecutionPlan where
  "duplex_entry = text_field_of [True] 0 crlf_field"

lemma duplex_entry_parts:
  "fe_value_type duplex_entry = VT_BYTES" "fe_encode_source duplex_entry = ES_INPUT" "fe_input_ordinal duplex_entry = 0"
  "fe_text_min_length duplex_entry = 1" "fe_text_max_length duplex_entry = 2" "fe_text_encode_input duplex_entry"
  "fe_allowed_ascii_high duplex_entry = 0x7FFFFFFFFFFFFFFF"
  by (simp_all add: duplex_entry_def text_field_of_def encoded_before_def no_field_execution_def crlf_field_def)

lemma duplex_letter: "IsAllowedAscii duplex_entry 0x41"
  by (simp add: IsAllowedAscii_def duplex_entry_parts Let_def)

lemma duplex_action_ok: "action_ok duplex_execution crlf_action"
  using plan_runs_action [OF frozen_runs [OF duplex_frozen], of 0] by simp

lemma duplex_inputs: "text_inputs duplex_execution [example_text_value [0x41]] [0] (tap_segments crlf_action)"
  by (simp add: text_inputs_def crlf_action_def duplex_entry_def [symmetric] duplex_entry_parts duplex_letter example_text_value_def
      TextValueCheck_def GetAddressRange_def SIZE_MAX_def)

lemma duplex_pieces:
  "map (Text_Roundtrip.segment_bytes duplex_execution [example_text_value [0x41]] [0]) (tap_segments crlf_action) = [[0x41], [0x0D, 0x0A]]"
  by (simp add: Text_Roundtrip.segment_bytes_def crlf_action_def input_bytes_def duplex_entry_def [symmetric] duplex_entry_parts
      example_text_value_def)

lemma duplex_record: "text_record duplex_execution crlf_action [0x41, 0x0D, 0x0A] [[0x41], [0x0D, 0x0A]]"
proof -
  have "first_at [0x0D, 0x0A] [0x41, 0x0D, 0x0A :: u8] 1" by (auto simp: first_at_def occurs_at_def)
  then show ?thesis
    by (simp add: text_record_def crlf_action_def field_piece_def duplex_entry_def [symmetric] duplex_entry_parts)
qed

lemma duplex_matching: "matching crlf_pipeline [duplex_execution] [0x41, 0x0D, 0x0A] = [0]"
  using TextMessageMatches_iff [OF _ duplex_action_ok, of "[0x41, 0x0D, 0x0A]"] duplex_record
  by (auto simp: matching_def binary_candidates_def crlf_pipeline_def)

lemma duplex_encoded:
  "\<exists>e ws1. EncodeCompleteRecord duplex_plan 96 (NewExecutionWorkspace duplex_plan) 0 0 7000
       [example_text_value [0x41]] 9000 [0, 0, 0, 0] = Some (e, ws1, [0x41, 0x0D, 0x0A, 0]) \<and>
     en_status e = CS_OK \<and> en_bytes_written e = 3"
proof -
  let ?v = "[example_text_value [0x41]]" and ?dr = "\<lparr>ar_begin = 7000, ar_end = 7096\<rparr>"
  let ?ws = "(NewExecutionWorkspace duplex_plan)
    \<lparr>ew_in_use := True, ew_raw_integer_count := 0, ew_raw_integer_message_index := kInvalidIndex\<rparr>"
  have ws: "ew_plan_scope ?ws = 1000" "ew_max_values_per_call ?ws = 1" "\<not> ew_in_use (NewExecutionWorkspace duplex_plan)"
    "ew_encode_value_indices ?ws = [kInvalidIndex]" "ew_encode_present_words ?ws = [0]"
    by (simp_all add: NewExecutionWorkspace_def duplex_layout_def Let_def)
  have allowed: "MessageIsAllowed crlf_pipeline 0" by (simp add: MessageIsAllowed_def crlf_pipeline_def)
  have range: "GetArrayAddressRange 7000 1 96 = Some ?dr"
    by (simp add: GetArrayAddressRange_def GetAddressRange_def SIZE_MAX_def)
  have prep: "PrepareEncodeInputs duplex_plan duplex_execution 0 ?v ?ws result =
      (CS_OK, ?ws\<lparr>ew_encode_value_indices := [0], ew_encode_present_words := [1]\<rparr>,
       result\<lparr>en_failed_field_index := kInvalidIndex, en_failed_value_index := kInvalidIndex\<rparr>)" for result
    using ws(4,5)
    by (simp add: PrepareEncodeInputs_def PresenceWordCount_def kPresenceWordBits_def duplex_entry_def [symmetric] duplex_entry_parts
        duplex_letter example_text_value_def AdmitValue_def
        text_schema_def conversion_schema_def IsPresent_def MarkPresent_def ImmediateValueCheck_def field_missing_def
        ValueKindMatches_def TextValueCheck_def GetAddressRange_def SIZE_MAX_def)
  have admit: "AdmitOutput (\<lambda>v. True) ?dr ?v 9000 (length [0, 0, 0, 0 :: u8]) (length (concat [[0x41], [0x0D, 0x0A :: u8]])) = None"
    by (simp add: AdmitOutput_def GetAddressRange_def SIZE_MAX_def RangesOverlap_def example_text_value_def)
  have "length (concat [[0x41], [0x0D, 0x0A :: u8]]) \<le> SIZE_MAX" by (simp add: SIZE_MAX_def)
  then have enc: "\<exists>e. EncodeText duplex_execution crlf_action ?dr ?v [0] 9000 [0, 0, 0, 0] result =
      Some (e, [0x41, 0x0D, 0x0A, 0]) \<and> en_status e = CS_OK \<and> en_bytes_written e = 3" for result
    using encode_text [OF duplex_action_ok duplex_inputs, of ?dr 9000 "[0, 0, 0, 0]" result] duplex_record
      admit unfolding duplex_pieces by auto
  obtain e where e: "EncodeText duplex_execution crlf_action ?dr ?v [0] 9000 [0, 0, 0, 0]
        (no_encode_result\<lparr>en_required_size := 4, en_failed_field_index := kInvalidIndex, en_failed_value_index := kInvalidIndex\<rparr>) =
      Some (e, [0x41, 0x0D, 0x0A, 0])" "en_status e = CS_OK" "en_bytes_written e = 3"
    using enc by blast
  then show ?thesis
    by (simp add: EncodeCompleteRecord_def EncodeLeased_def ws allowed range [simplified]
        SupportsCompleteRecordSchema_def text_schema_def prep Let_def)
qed

section \<open>The round trip\<close>

text \<open>What a successful call of the encoder says of the plan and of the bytes written.\<close>

lemma frozen_text_call:
  assumes freeze: "Freeze platform (Some draft) = Inr (plan, report)" and session: "codec_session plan ws"
    and m: "m = pb_message_execution_plans plan ! message_index" "me_text_encode m = Some action" "me_text_decode m = Some action"
    and encode: "EncodeCompleteRecord plan value_size ws pipeline_index message_index va vs oa out = Some (e, ws1, out')"
      "en_status e = CS_OK"
  defines "pipeline \<equiv> pb_pipeline_execution_plans plan ! pipeline_index"
    and "hits \<equiv> matching (pb_pipeline_execution_plans plan ! pipeline_index) (pb_message_execution_plans plan)
      (take (en_bytes_written e) out')"
  shows "text_plan_ok m action" "text_schema (pb_schema_version plan)" "SupportsCompleteRecordSchema (pb_schema_version plan)"
    and "pipeline_index < length (pb_pipeline_execution_plans plan)" "groups_sorted pipeline"
      "text_messages_ok (pb_message_execution_plans plan) (pe_text_message_indices pipeline)" "pe_text_message_indices pipeline \<noteq> []"
    and "message_index \<in> set hits" "distinct hits" "\<forall>v \<in> set vs. fr_field_index (ev_field v) \<in> set (field_segments action)"
proof -
  let ?ms = "pb_message_execution_plans plan"
  have call: "message_index < length ?ms" "MessageIsAllowed pipeline message_index"
      "pipeline_index < length (pb_pipeline_execution_plans plan)" "SupportsCompleteRecordSchema (pb_schema_version plan)"
    using encode_text_success [OF session m(2) [unfolded m(1)] encode] by (auto simp: pipeline_def)
  then show "SupportsCompleteRecordSchema (pb_schema_version plan)" "pipeline_index < length (pb_pipeline_execution_plans plan)"
    by blast+
  have message: "message_index < length (dd_messages draft)" "pipeline_index < length (dd_pipelines draft)"
    using call(1,3) frozen_lengths [OF freeze] by simp_all
  note prepared_pipeline = frozen_pipeline(2) [OF freeze message(2), folded pipeline_def]
  obtain ascii where "PrepareTextMessage (pb_schema_version plan) message_index (dd_messages draft ! message_index) ascii
      (ms_frame_length_bytes (dd_messages draft ! message_index)) = Inr m"
    using frozen_text_message [OF freeze message(1)] m(1,2) by auto
  note plan_ok = prepared_text_plan_ok [OF this m(2,3)]
  then show ok: "text_plan_ok m action" and version: "text_schema (pb_schema_version plan)" by blast+
  have listed: "message_index \<in> set (pe_text_message_indices pipeline)"
    using frozen_allowed [OF freeze call(3,1), folded pipeline_def] call(2) m(1,3) by (simp add: prepared_groups(3) [OF prepared_pipeline])
  then show "pe_text_message_indices pipeline \<noteq> []" by auto
  have runs: "pipeline_runs plan pipeline" using frozen_runs [OF freeze] call(3) by (simp add: plan_runs_def pipeline_def)
  then show "groups_sorted pipeline" "text_messages_ok ?ms (pe_text_message_indices pipeline)"
    using plan_runs_action [OF frozen_runs [OF freeze]] by (auto simp: pipeline_runs_def text_messages_ok_def)
  obtain indices present where enc: "inputs_ok plan m message_index vs indices present"
    and written: "text_record m action (take (en_bytes_written e) out')
      (map (Text_Roundtrip.segment_bytes m vs indices) (tap_segments action))"
    using session version m(1) ok encode by (rule encoded_pieces)
  have "TextMessageMatches m (take (en_bytes_written e) out') = Some True"
    using TextMessageMatches_iff [OF m(3)] ok written by (auto simp: text_plan_ok_def)
  then show "message_index \<in> set hits" using listed m(1) by (simp add: hits_def matching_def pipeline_def)
  show "distinct hits" unfolding hits_def pipeline_def [symmetric] by (rule matching_distinct [OF prepared_pipeline])
  show "\<forall>v \<in> set vs. fr_field_index (ev_field v) \<in> set (field_segments action)"
    using enc plan_ok by (auto simp: inputs_ok_def prepared_def in_set_conv_nth [of _ vs])
qed

text \<open>C8. Text is read back: over a published plan, in any two sessions, after a successful call of the encoder for a text
  message whose layout is the same for both directions, the bytes written match the message in its pipeline. If no other
  message of the pipeline matches them, the decoder accepts them, finds the message, and fills one slot for each
  field segment of the layout, in order, with the value that was given for that field, and every value given is in
  a slot. If another message matches too, the decoder reports the ambiguity and leaves the slots alone.\<close>

theorem published_text_roundtrip:
  assumes "Freeze platform (Some draft) = Inr (plan, report)"
    and "codec_session plan ws" "codec_session plan ws2"
    and "m = pb_message_execution_plans plan ! message_index"
    and "me_text_encode m = Some action" "me_text_decode m = Some action"
    and "EncodeCompleteRecord plan value_size ws pipeline_index message_index va vs oa out = Some (e, ws1, out')"
    and "en_status e = CS_OK"
    and "input = \<lparr>cv_address = a, cv_bytes = take (en_bytes_written e) out'\<rparr>" "a \<noteq> 0" "sa \<noteq> 0"
    and "AdmitSlots slot_size input sa (length slots) (me_text_decode_field_count m) = None"
    and "hits = matching (pb_pipeline_execution_plans plan ! pipeline_index) (pb_message_execution_plans plan) (cv_bytes input)"
  shows "message_index \<in> set hits \<and>
    (\<exists>r ws3 slots'. DecodeCompleteRecord plan slot_size ws2 pipeline_index input sa slots = Some (r, ws3, slots') \<and>
       (if set hits = {message_index}
        then dr_status r = CS_OK \<and> dr_message_index r = message_index \<and> dr_field_count r = length (field_segments action) \<and>
          (\<forall>k < length (field_segments action). \<exists>v \<in> set vs. fr_field_index (ev_field v) = field_segments action ! k \<and>
             slot_agrees v (slots' ! k)) \<and>
          (\<forall>v \<in> set vs. \<exists>k < length (field_segments action). slot_agrees v (slots' ! k))
        else dr_status r = CS_AMBIGUOUS_MESSAGE \<and> slots' = slots))"
proof -
  note facts = frozen_text_call [OF assms(1,2,4-8)]
  have bytes: "cv_bytes input = take (en_bytes_written e) out'" "cv_address input \<noteq> 0" using assms(9,10) by simp_all
  have hit: "message_index \<in> set hits" and distinct: "distinct hits" unfolding assms(13) bytes(1) by (rule facts(8,9))+
  show ?thesis
  proof (cases "set hits = {message_index}")
    case True
    then have one: "hits = [message_index]" using distinct by (cases hits) (auto simp: subset_singleton_iff)
    obtain r ws3 slots' where decoded: "DecodeCompleteRecord plan slot_size ws2 pipeline_index input sa slots = Some (r, ws3, slots')"
        "dr_status r = CS_OK" "dr_message_index r = message_index" "dr_field_count r = length (field_segments action)"
        "\<And>k. k < length (field_segments action) \<Longrightarrow>
           \<exists>v \<in> set vs. fr_field_index (ev_field v) = field_segments action ! k \<and> slot_agrees v (slots' ! k) \<and>
             (\<forall>u \<in> set vs. fr_field_index (ev_field u) = field_segments action ! k \<longrightarrow> u = v)"
      using text_roundtrip [OF assms(2,3) facts(2) refl facts(5-7) assms(4) facts(1) assms(7-11) _ assms(12)] one assms(13) by auto
    have "\<forall>v \<in> set vs. \<exists>k < length (field_segments action). slot_agrees v (slots' ! k)"
      using decoded(5) facts(10) by (metis in_set_conv_nth)
    moreover have "\<forall>k < length (field_segments action). \<exists>v \<in> set vs. fr_field_index (ev_field v) = field_segments action ! k \<and>
        slot_agrees v (slots' ! k)"
      using decoded(5) by blast
    ultimately show ?thesis
      unfolding True using hit decoded(1-4)
      by (intro conjI exI [of _ r] exI [of _ ws3] exI [of _ slots']) (simp_all only: if_True simp_thms singleton_iff)
  next
    case False
    then have "length hits \<noteq> 1" "length hits \<noteq> 0" using hit by (auto simp: length_Suc_conv)
    then have "1 < length hits" by linarith
    from decode_ambiguous [OF assms(3) facts(3,4) bytes(2) assms(11) facts(5-7) this [unfolded assms(13)]] show ?thesis
      using hit False by simp
  qed
qed

theorem published_text_roundtrip_witness:
  "\<exists>r ws3 slots'. DecodeCompleteRecord duplex_plan 64 (NewExecutionWorkspace duplex_plan) 0
       (example_view [0x41, 0x0D, 0x0A]) 9000 [no_slot] = Some (r, ws3, slots') \<and>
     dr_status r = CS_OK \<and> dr_field_count r = 1 \<and> slot_agrees (example_text_value [0x41]) (slots' ! 0)"
proof -
  have session: "codec_session duplex_plan (NewExecutionWorkspace duplex_plan)" by (rule codec_session.create)
  have segs: "field_segments crlf_action = [0]" by (simp add: field_segments_def crlf_action_def)
  have m: "duplex_execution = pb_message_execution_plans duplex_plan ! 0" by simp
  have room: "AdmitSlots 64 (example_view [0x41, 0x0D, 0x0A]) 9000 (length [no_slot]) (me_text_decode_field_count duplex_execution) = None"
    by (simp add: AdmitSlots_def example_view_def GetAddressRange_def GetArrayAddressRange_def RangesOverlap_def SIZE_MAX_def)
  obtain e ws1 where e: "EncodeCompleteRecord duplex_plan 96 (NewExecutionWorkspace duplex_plan) 0 0 7000
       [example_text_value [0x41]] 9000 [0, 0, 0, 0] = Some (e, ws1, [0x41, 0x0D, 0x0A, 0])"
     "en_status e = CS_OK" "en_bytes_written e = 3"
    using duplex_encoded by blast
  have view: "example_view [0x41, 0x0D, 0x0A] = \<lparr>cv_address = 5000, cv_bytes = take (en_bytes_written e) [0x41, 0x0D, 0x0A, 0]\<rparr>"
    by (simp add: e(3) example_view_def)
  have hits: "matching (pb_pipeline_execution_plans duplex_plan ! 0) (pb_message_execution_plans duplex_plan)
      (cv_bytes (example_view [0x41, 0x0D, 0x0A])) = [0]"
    using duplex_matching by (simp add: example_view_def)
  from published_text_roundtrip [OF duplex_frozen session session m _ _ e(1,2) view _ _ room refl] show ?thesis
    unfolding hits by (auto simp: segs)
qed

end
