(* ===== verification/Compiler_Input.thy ===== *)
theory Compiler_Input
  imports Compiler_IR
begin

text \<open>
  The checks of the bytes of a document before it is parsed: the first part of
  \<^verbatim>\<open>src/src/config_compiler/config_compiler.cpp\<close>, from \<^verbatim>\<open>ValidateUtf8\<close> to
  \<^verbatim>\<open>RunStrictPrecheck\<close>, with the limits the compiler passes to them.  The input is the list of its
  bytes, and a character of the source is compared as the byte it is.
\<close>

section \<open>The limits of a document\<close>

definition max_input_bytes :: nat where "max_input_bytes = 4 * 1024 * 1024"
definition max_parser_memory_bytes :: nat where "max_parser_memory_bytes = 64 * 1024 * 1024"
definition max_depth :: nat where "max_depth = 64"
definition max_nodes :: nat where "max_nodes = 524288"
definition max_object_members :: nat where "max_object_members = 4096"
definition max_array_elements :: nat where "max_array_elements = 16384"
definition max_string_bytes :: nat where "max_string_bytes = 64 * 1024"
definition max_number_token_bytes :: nat where "max_number_token_bytes = 128"
definition max_total_decoded_string_bytes :: nat where "max_total_decoded_string_bytes = 2 * 1024 * 1024"

section \<open>UTF-8\<close>

definition IsContinuationByte :: "u8 \<Rightarrow> bool" where
  "IsContinuationByte byte \<longleftrightarrow> byte AND 0xC0 = 0x80"

text \<open>The bytes that may follow the first byte of a sequence: how many, the bits the first byte contributes, and the
  least code point the sequence may have.\<close>

definition utf8_lead :: "u8 \<Rightarrow> (nat \<times> u32 \<times> u32) option" where
  "utf8_lead byte =
     (if 0xC2 \<le> byte \<and> byte \<le> 0xDF then Some (2, ucast (byte AND 0x1F), 0x80)
      else if 0xE0 \<le> byte \<and> byte \<le> 0xEF then Some (3, ucast (byte AND 0x0F), 0x800)
      else if 0xF0 \<le> byte \<and> byte \<le> 0xF4 then Some (4, ucast (byte AND 0x07), 0x10000)
      else None)"

text \<open>The loop over the continuation bytes: the offset of one that is none, or the code point.\<close>

fun utf8_continue :: "u8 list \<Rightarrow> nat \<Rightarrow> u32 \<Rightarrow> nat + u32" where
  "utf8_continue [] position code_point = Inr code_point"
| "utf8_continue (byte # bytes) position code_point =
     (if \<not> IsContinuationByte byte then Inl position
      else utf8_continue bytes (position + 1) (push_bit 6 code_point OR ucast (byte AND 0x3F)))"

text \<open>\<open>None\<close> if the input is strict UTF-8, else the offset of the error.\<close>

function ValidateUtf8_from :: "u8 list \<Rightarrow> nat \<Rightarrow> nat option" where
  "ValidateUtf8_from bytes index =
     (case bytes of
        [] \<Rightarrow> None
      | byte # rest \<Rightarrow>
          if byte \<le> 0x7F then ValidateUtf8_from rest (index + 1)
          else case utf8_lead byte of
            None \<Rightarrow> Some index
          | Some (sequence_length, code_point, minimum) \<Rightarrow>
              if sequence_length > length bytes then Some index
              else case utf8_continue (take (sequence_length - 1) rest) (index + 1) code_point of
                Inl error_offset \<Rightarrow> Some error_offset
              | Inr code_point \<Rightarrow>
                  if code_point < minimum \<or> code_point > 0x10FFFF \<or> (0xD800 \<le> code_point \<and> code_point \<le> 0xDFFF)
                  then Some index
                  else ValidateUtf8_from (drop (sequence_length - 1) rest) (index + sequence_length))"
  by pat_completeness auto

termination
  by (relation "measure (\<lambda>(bytes, index). length bytes)") auto

declare ValidateUtf8_from.simps [simp del]

definition ValidateUtf8 :: "u8 list \<Rightarrow> nat option" where
  "ValidateUtf8 input = ValidateUtf8_from input 0"

definition CountUtf8ScalarValues :: "u8 list \<Rightarrow> nat" where
  "CountUtf8ScalarValues input = length (filter (\<lambda>character. \<not> IsContinuationByte character) input)"

section \<open>Escapes\<close>

text \<open>Characters of the input are compared as the bytes they are.\<close>

definition IsHexDigit :: "u8 \<Rightarrow> bool" where
  "IsHexDigit c \<longleftrightarrow> (0x30 \<le> c \<and> c \<le> 0x39) \<or> (0x61 \<le> c \<and> c \<le> 0x66) \<or> (0x41 \<le> c \<and> c \<le> 0x46)"

definition hex_nibble :: "u8 \<Rightarrow> 16 word" where
  "hex_nibble c =
     ucast (if 0x30 \<le> c \<and> c \<le> 0x39 then c - 0x30 else if 0x61 \<le> c \<and> c \<le> 0x66 then c - 0x61 + 10 else c - 0x41 + 10)"

definition ParseHexQuad :: "u8 list \<Rightarrow> nat \<Rightarrow> 16 word" where
  "ParseHexQuad input start = fold (\<lambda>c result. push_bit 4 result + hex_nibble c) (take 4 (drop start input)) 0"

definition hex_quad_at :: "u8 list \<Rightarrow> nat \<Rightarrow> bool" where
  "hex_quad_at input start \<longleftrightarrow>
     IsHexDigit (input ! start) \<and> IsHexDigit (input ! (start + 1)) \<and> IsHexDigit (input ! (start + 2)) \<and>
     IsHexDigit (input ! (start + 3))"

datatype EscapeStep = ES_Stop | ES_Next nat | ES_Refuse

text \<open>A backslash within a string: the index the loop goes on after, the end of the input, or a surrogate without its
  partner.\<close>

definition escape_step :: "u8 list \<Rightarrow> nat \<Rightarrow> EscapeStep" where
  "escape_step input index =
     (if index + 1 \<ge> length input then ES_Stop
      else if input ! (index + 1) \<noteq> 0x75 then ES_Next (index + 1)
      else if index + 5 \<ge> length input \<or> \<not> hex_quad_at input (index + 2) then ES_Next index
      else
        let high = ParseHexQuad input (index + 2)
        in if 0xD800 \<le> high \<and> high \<le> 0xDBFF then
             if index + 11 \<ge> length input \<or> input ! (index + 6) \<noteq> 0x5C \<or> input ! (index + 7) \<noteq> 0x75 \<or>
                \<not> hex_quad_at input (index + 8) then ES_Refuse
             else
               let low = ParseHexQuad input (index + 8)
               in if low < 0xDC00 \<or> low > 0xDFFF then ES_Refuse else ES_Next (index + 11)
           else if 0xDC00 \<le> high \<and> high \<le> 0xDFFF then ES_Refuse
           else ES_Next (index + 5))"

lemma escape_step_advances: "escape_step input index = ES_Next k \<Longrightarrow> index \<le> k"
  by (auto simp: escape_step_def Let_def split: if_splits)

text \<open>The scan over the input: within a string or not, and how many brackets are open.\<close>

function ScanDocument :: "u8 list \<Rightarrow> nat \<Rightarrow> bool \<Rightarrow> nat \<Rightarrow> (CompileError \<times> nat) option" where
  "ScanDocument input index in_string depth =
     (if index \<ge> length input then None
      else
        let c = input ! index
        in if \<not> in_string then
             if c = 0x22 then ScanDocument input (index + 1) True depth
             else if c = 0x7B \<or> c = 0x5B then
               if depth + 1 > max_depth then Some (NESTING_DEPTH_LIMIT_EXCEEDED, index)
               else ScanDocument input (index + 1) False (depth + 1)
             else if (c = 0x7D \<or> c = 0x5D) \<and> depth \<noteq> 0 then ScanDocument input (index + 1) False (depth - 1)
             else ScanDocument input (index + 1) False depth
           else if c = 0x22 then ScanDocument input (index + 1) False depth
           else if c \<noteq> 0x5C then ScanDocument input (index + 1) True depth
           else case escape_step input index of
             ES_Stop \<Rightarrow> None
           | ES_Next k \<Rightarrow> ScanDocument input (k + 1) True depth
           | ES_Refuse \<Rightarrow> Some (INVALID_UNICODE_ESCAPE, index))"
  by pat_completeness auto

termination
  by (relation "measure (\<lambda>(input, index, in_string, depth). length input - index)")
    (auto dest: escape_step_advances)

declare ScanDocument.simps [simp del]

definition input_error :: "CompileError \<Rightarrow> nat option \<Rightarrow> CompileDiagnostic + 'a" where
  "input_error code byte_offset = Inl ((SetDiagnostic INPUT_PROFILE code '''')\<lparr>cd_byte_offset := byte_offset\<rparr>)"

definition RunStrictPrecheck :: "u8 list \<Rightarrow> CompileDiagnostic + unit" where
  "RunStrictPrecheck input =
     (if input = [] then input_error EMPTY_INPUT None
      else if length input > max_input_bytes then input_error INPUT_LIMIT_EXCEEDED None
      else if take 3 input = [0xEF, 0xBB, 0xBF] then input_error UTF8_BOM_NOT_ALLOWED (Some 0)
      else case ValidateUtf8 input of
        Some utf8_error \<Rightarrow> input_error INVALID_UTF8 (Some utf8_error)
      | None \<Rightarrow>
          (case ScanDocument input 0 False 0 of
             Some (code, index) \<Rightarrow> input_error code (Some index)
           | None \<Rightarrow> Inr ()))"

end
