(* ===== verification/Compiler_Utf8.thy ===== *)
theory Compiler_Utf8
  imports Compiler_Input
begin

text \<open>
  What the check of UTF-8 means: an input passes exactly if it is the concatenation of the encodings of Unicode
  scalar values, so overlong forms, surrogates, values beyond U+10FFFF and truncated sequences are refused and
  nothing else is.
\<close>

section \<open>The encoding\<close>

definition scalar_value :: "nat \<Rightarrow> bool" where
  "scalar_value s \<longleftrightarrow> s \<le> 0x10FFFF \<and> \<not> (0xD800 \<le> s \<and> s \<le> 0xDFFF)"

definition continuation :: "nat \<Rightarrow> u8" where
  "continuation n = of_nat (0x80 + n mod 64)"

definition utf8_encode :: "nat \<Rightarrow> u8 list" where
  "utf8_encode s =
     (if s < 0x80 then [of_nat s]
      else if s < 0x800 then [of_nat (0xC0 + s div 64), continuation s]
      else if s < 0x10000 then [of_nat (0xE0 + s div 4096), continuation (s div 64), continuation s]
      else [of_nat (0xF0 + s div 262144), continuation (s div 4096), continuation (s div 64), continuation s])"

section \<open>Bytes\<close>

lemma unat_of_byte: "n < 256 \<Longrightarrow> unat (of_nat n :: u8) = n"
  by (simp add: unat_of_nat take_bit_eq_mod)

lemma byte_eq: "n < 256 \<Longrightarrow> of_nat n = (b :: u8) \<longleftrightarrow> n = unat b"
  using unat_of_byte [of n] by (auto intro: unsigned_word_eqI [where 'a = nat])

lemma low_bits: "unat (b AND mask k :: u8) = unat b mod 2 ^ k"
  by (simp add: take_bit_eq_mask [symmetric] unsigned_take_bit_eq) (simp add: take_bit_eq_mod)

lemma high_bits: "unat (b AND NOT (mask k) :: u8) = 2 ^ k * (unat b div 2 ^ k)"
proof -
  have "b = (b AND mask k) OR (b AND NOT (mask k))" by (rule bit_word_eqI) (auto simp: bit_simps)
  then have "unat b = unat (b AND mask k) OR unat (b AND NOT (mask k))" by (metis unsigned_or_eq)
  also have "\<dots> = unat (b AND mask k) + unat (b AND NOT (mask k))"
    by (rule disjunctive_add [symmetric]) (auto simp: bit_simps)
  finally have "unat b = unat (b AND mask k) + unat (b AND NOT (mask k))" .
  then show ?thesis by (simp add: low_bits minus_mod_eq_mult_div [symmetric])
qed

lemma continuation_iff: "IsContinuationByte b \<longleftrightarrow> 128 \<le> unat b \<and> unat b < 192"
proof -
  have "(0xC0 :: u8) = NOT (mask 6)" by (simp add: mask_eq_exp_minus_1)
  then have "unat (b AND 0xC0) = 64 * (unat b div 64)" using high_bits [of b 6] by simp
  then have "IsContinuationByte b \<longleftrightarrow> 64 * (unat b div 64) = 128"
    unfolding IsContinuationByte_def using byte_eq [of 128 "b AND 0xC0"] by auto
  then show ?thesis by auto
qed

lemma joined: "push_bit k w OR ucast (b AND mask k :: u8) = push_bit k w + (ucast (b AND mask k) :: u32)"
  by (rule disjunctive_add [symmetric]) (auto simp: bit_simps)

lemma unat_joined:
  assumes "unat (w :: u32) < 2 ^ 26" "128 \<le> unat (b :: u8)" "unat b < 192"
  shows "unat (push_bit 6 w OR ucast (b AND 0x3F)) = 64 * unat w + (unat b - 128)"
proof -
  have six: "(0x3F :: u8) = mask 6" by (simp add: mask_eq_exp_minus_1)
  have "unat (push_bit 6 w) = 64 * unat w"
    using assms(1) by (simp add: push_bit_eq_mult unat_word_ariths)
  moreover have "unat (ucast (b AND mask 6) :: u32) = unat b mod 64"
    using low_bits [of b 6] by (simp add: unsigned_ucast_eq take_bit_eq_mod)
  moreover have "unat b mod 64 = unat b - 128" using assms(2,3) by (simp add: mod_if)
  ultimately show ?thesis unfolding six joined using assms by (simp add: unat_word_ariths)
qed

section \<open>Sequences\<close>

text \<open>The continuation bytes of a value, most significant first.\<close>

definition trail_value :: "u8 list \<Rightarrow> nat \<Rightarrow> nat" where
  "trail_value bytes v = fold (\<lambda>b v. 64 * v + (unat b - 128)) bytes v"

lemma utf8_continue_Inr:
  "(unat w + 1) * 64 ^ length bytes \<le> 2 ^ 26 \<Longrightarrow>
   utf8_continue bytes k w = Inr v \<longleftrightarrow>
     list_all (\<lambda>b. 128 \<le> unat b \<and> unat b < 192) bytes \<and> unat v = trail_value bytes (unat w)"
proof (induction bytes arbitrary: k w)
  case Nil
  then show ?case by (auto simp: trail_value_def word_unat_eq_iff)
next
  case (Cons b bytes)
  show ?case
  proof (cases "128 \<le> unat b \<and> unat b < 192")
    case True
    let ?w = "push_bit 6 w OR ucast (b AND 0x3F)"
    have "(unat w + 1) * 1 \<le> (unat w + 1) * 64 ^ length (b # bytes)" by (rule mult_left_mono) simp_all
    then have "unat w + 1 \<le> 2 ^ 26" using Cons.prems by (metis le_trans mult_1_right)
    then have "unat w < 2 ^ 26" by simp
    then have w: "unat ?w = 64 * unat w + (unat b - 128)" using unat_joined [of w b] True by simp
    have "(unat ?w + 1) * 64 ^ length bytes \<le> (64 * (unat w + 1)) * 64 ^ length bytes"
      using True by (intro mult_right_mono) (auto simp: w)
    also have "\<dots> = (unat w + 1) * 64 ^ length (b # bytes)" by (simp add: algebra_simps)
    finally have "(unat ?w + 1) * 64 ^ length bytes \<le> 2 ^ 26" using Cons.prems by linarith
    from Cons.IH [OF this] show ?thesis using True by (simp add: continuation_iff trail_value_def w)
  next
    case False
    then show ?thesis by (auto simp: continuation_iff)
  qed
qed

text \<open>The first byte of a sequence: the length, the high bits and the least value.\<close>

definition lead_of :: "nat \<Rightarrow> (nat \<times> nat \<times> nat) option" where
  "lead_of b =
     (if 194 \<le> b \<and> b \<le> 223 then Some (2, b - 192, 0x80)
      else if 224 \<le> b \<and> b \<le> 239 then Some (3, b - 224, 0x800)
      else if 240 \<le> b \<and> b \<le> 244 then Some (4, b - 240, 0x10000)
      else None)"

lemma masked_byte: "m = mask k \<Longrightarrow> (ucast (b AND m :: u8) :: u32) = of_nat (unat b mod 2 ^ k)"
  by (erule ssubst) (simp add: word_unat_eq_iff [where 'a = 32] unsigned_ucast_eq unat_of_nat low_bits take_bit_eq_mod)

lemma mod_between: "a * m \<le> n \<Longrightarrow> n < a * m + m \<Longrightarrow> n mod m = n - a * (m :: nat)"
  by (auto dest: le_Suc_ex)

lemma utf8_lead_of:
  "utf8_lead b = map_option (\<lambda>(n, w, least). (n, of_nat w, of_nat least)) (lead_of (unat b))"
proof -
  have digits: "224 \<le> n \<Longrightarrow> n \<le> 239 \<Longrightarrow> n mod 16 = n - 224" "240 \<le> n \<Longrightarrow> n \<le> 244 \<Longrightarrow> n mod 8 = n - 240" for n :: nat
    using mod_between [of 14 16 n] mod_between [of 30 8 n] by simp_all
  have masks: "(0x1F :: u8) = mask 5" "(0x0F :: u8) = mask 4" "(0x07 :: u8) = mask 3" by (simp_all add: mask_eq_exp_minus_1)
  consider "194 \<le> unat b" "unat b \<le> 223" | "224 \<le> unat b" "unat b \<le> 239" | "240 \<le> unat b" "unat b \<le> 244" |
    "unat b < 194 \<or> 244 < unat b" by linarith
  then show ?thesis
  proof cases
    case 1
    then have "unat b mod 2 ^ 5 = unat b - 192" by (simp add: mod_if)
    then show ?thesis using 1 masked_byte [OF masks(1), of b] by (simp add: utf8_lead_def lead_of_def word_le_nat_alt)
  next
    case 2
    then have "unat b mod 2 ^ 4 = unat b - 224" by (simp add: digits)
    then show ?thesis using 2 masked_byte [OF masks(2), of b] by (simp add: utf8_lead_def lead_of_def word_le_nat_alt)
  next
    case 3
    then have "unat b mod 2 ^ 3 = unat b - 240" by (simp add: digits)
    then show ?thesis using 3 masked_byte [OF masks(3), of b] by (simp add: utf8_lead_def lead_of_def word_le_nat_alt)
  next
    case 4
    then show ?thesis by (auto simp: utf8_lead_def lead_of_def word_le_nat_alt)
  qed
qed

lemma utf8_continue_ends:
  "list_all (\<lambda>b. 128 \<le> unat b \<and> unat b < 192) bytes \<Longrightarrow> \<exists>v. utf8_continue bytes k w = Inr v"
  by (induction bytes arbitrary: k w) (simp_all add: continuation_iff)

text \<open>One sequence of more than one byte: its first byte, the bytes that follow, and the value.\<close>

definition sequence_of :: "u8 \<Rightarrow> u8 list \<Rightarrow> nat \<Rightarrow> bool" where
  "sequence_of b ts s \<longleftrightarrow>
     (\<exists>w least. lead_of (unat b) = Some (length ts + 1, w, least) \<and> list_all (\<lambda>t. 128 \<le> unat t \<and> unat t < 192) ts \<and>
        s = trail_value ts w \<and> least \<le> s \<and> scalar_value s)"

lemma lead_bounds: "lead_of b = Some (n, w, least) \<Longrightarrow> 2 \<le> n \<and> n \<le> 4 \<and> (w + 1) * 64 ^ (n - 1) \<le> 2 ^ 26 \<and> least \<le> 65536 \<and> w < 32"
  by (auto simp: lead_of_def split: if_splits)

lemma ValidateUtf8_sequence:
  assumes "\<not> b \<le> 0x7F"
  shows "ValidateUtf8_from (b # rest) i = None \<longleftrightarrow>
    (\<exists>ts s tail. rest = ts @ tail \<and> sequence_of b ts s \<and> ValidateUtf8_from tail (i + length ts + 1) = None)"
proof (cases "lead_of (unat b)")
  case None
  then show ?thesis using assms by (simp add: ValidateUtf8_from.simps [of "b # rest"] utf8_lead_of sequence_of_def)
next
  case (Some lead)
  obtain n w least where lead: "lead_of (unat b) = Some (n, w, least)" using Some by (cases lead) auto
  note bounds = lead_bounds [OF lead]
  let ?ts = "take (n - 1) rest"
  have w: "unat (of_nat w :: u32) = w" using bounds by (auto simp: unat_of_nat take_bit_eq_mod)
  show ?thesis
  proof (cases "n \<le> length rest + 1")
    case True
    then have len: "length ?ts = n - 1" by simp
    have value_iff: "utf8_continue ?ts (i + 1) (of_nat w) = Inr v \<longleftrightarrow>
        list_all (\<lambda>t. 128 \<le> unat t \<and> unat t < 192) ?ts \<and> unat v = trail_value ?ts w" for v
    proof -
      have "(unat (of_nat w :: u32) + 1) * 64 ^ length ?ts \<le> 2 ^ 26" unfolding w len using bounds by simp
      from utf8_continue_Inr [OF this, of "i + 1" v] show ?thesis unfolding w .
    qed
    have least: "unat (of_nat least :: u32) = least" using bounds by (simp add: unat_of_nat take_bit_eq_mod)
    have unfolded: "ValidateUtf8_from (b # rest) i =
        (case utf8_continue ?ts (i + 1) (of_nat w) of
           Inl error_offset \<Rightarrow> Some error_offset
         | Inr v \<Rightarrow> if unat v < least \<or> \<not> scalar_value (unat v) then Some i
             else ValidateUtf8_from (drop (n - 1) rest) (i + n))"
      using assms True by (auto simp: ValidateUtf8_from.simps [of "b # rest"] utf8_lead_of lead word_less_nat_alt
          word_le_nat_alt least scalar_value_def not_less split: sum.splits)
    have parts: "rest = ts @ tail \<and> length ts + 1 = n \<longleftrightarrow> ts = ?ts \<and> tail = drop (n - 1) rest" for ts tail
      using True bounds by auto
    have "(\<exists>ts s tail. rest = ts @ tail \<and> sequence_of b ts s \<and> ValidateUtf8_from tail (i + length ts + 1) = None) \<longleftrightarrow>
        (\<exists>s. sequence_of b ?ts s \<and> ValidateUtf8_from (drop (n - 1) rest) (i + n) = None)" (is "?l \<longleftrightarrow> ?r")
    proof
      assume ?l
      then obtain ts s tail where h: "rest = ts @ tail" "sequence_of b ts s" "ValidateUtf8_from tail (i + length ts + 1) = None"
        by blast
      then have n: "length ts + 1 = n" using lead by (auto simp: sequence_of_def)
      with h(1) parts [of ts tail] have "ts = ?ts" "tail = drop (n - 1) rest" by simp_all
      then show ?r using h(2,3) n by (metis add.assoc)
    next
      assume ?r
      then obtain s where "sequence_of b ?ts s" "ValidateUtf8_from (drop (n - 1) rest) (i + length ?ts + 1) = None"
        using len bounds by auto
      then show ?l by (metis append_take_drop_id)
    qed
    moreover have "(\<exists>s. sequence_of b ?ts s \<and> ValidateUtf8_from (drop (n - 1) rest) (i + n) = None) \<longleftrightarrow>
        ValidateUtf8_from (b # rest) i = None"
    proof (cases "utf8_continue ?ts (i + 1) (of_nat w)")
      case (Inl e)
      then have "\<not> list_all (\<lambda>t. 128 \<le> unat t \<and> unat t < 192) ?ts" using utf8_continue_ends [of ?ts "i + 1" "of_nat w"] by auto
      moreover have "ValidateUtf8_from (b # rest) i = Some e" by (simp only: unfolded Inl sum.case)
      ultimately show ?thesis by (simp add: sequence_of_def)
    next
      case (Inr v)
      then show ?thesis using value_iff [of v] lead len bounds by (auto simp: unfolded sequence_of_def)
    qed
    ultimately show ?thesis by simp
  next
    case False
    then show ?thesis
      using assms lead by (auto simp: ValidateUtf8_from.simps [of "b # rest"] utf8_lead_of sequence_of_def)
  qed
qed

section \<open>The encoding of a value is its sequence\<close>

lemma div_joined:
  "s = 64 * x + y \<Longrightarrow> y < 64 \<Longrightarrow> s div 64 = x"
  "s = 64 * x + y \<Longrightarrow> y < 64 \<Longrightarrow> s mod 64 = (y :: nat)"
  by simp_all

lemma joined_less: "x < k \<Longrightarrow> y < 64 \<Longrightarrow> 64 * x + y < 64 * (k :: nat)"
  by simp

lemma continuation_digit: "128 \<le> unat t \<Longrightarrow> unat t < 192 \<Longrightarrow> n mod 64 = unat t - 128 \<Longrightarrow> continuation n = t"
  by (simp add: continuation_def byte_eq)

lemma sequence_encode:
  assumes "sequence_of b ts s"
  shows "utf8_encode s = b # ts \<and> 128 \<le> s \<and> scalar_value s"
proof -
  obtain w least where lead: "lead_of (unat b) = Some (length ts + 1, w, least)"
    and ts: "list_all (\<lambda>t. 128 \<le> unat t \<and> unat t < 192) ts" and s: "s = trail_value ts w" "least \<le> s" "scalar_value s"
    using assms by (auto simp: sequence_of_def)
  have digit: "unat t - 128 < 64" if "t \<in> set ts" for t using ts that by (auto simp: list_all_iff)
  consider (two) "length ts = 1" "194 \<le> unat b" "unat b \<le> 223" "w = unat b - 192" "least = 0x80" |
    (three) "length ts = 2" "224 \<le> unat b" "unat b \<le> 239" "w = unat b - 224" "least = 0x800" |
    (four) "length ts = 3" "240 \<le> unat b" "unat b \<le> 244" "w = unat b - 240" "least = 0x10000"
    using lead by (auto simp: lead_of_def split: if_splits)
  then show ?thesis
  proof cases
    case two
    then obtain t where t: "ts = [t]" by (auto simp: length_Suc_conv)
    have "s = 64 * w + (unat t - 128)" by (simp add: s(1) t trail_value_def)
    then have "s div 64 = w" "s mod 64 = unat t - 128" "s < 0x800" using digit [of t] two t by simp_all
    then show ?thesis
      using two s ts by (simp add: utf8_encode_def t continuation_digit byte_eq)
  next
    case three
    then obtain t u where t: "ts = [t, u]" by (auto simp: numeral_2_eq_2 length_Suc_conv)
    let ?h = "64 * w + (unat t - 128)"
    have joined: "s = 64 * ?h + (unat u - 128)" by (simp add: s(1) t trail_value_def)
    have small: "unat t - 128 < 64" "unat u - 128 < 64" using digit [of t] digit [of u] t by simp_all
    have "w < 16" using three by linarith
    from joined_less [OF joined_less [OF this small(1)] small(2)] have "s < 0x10000" by (simp add: joined)
    note d = div_joined [OF joined small(2)] div_joined [OF refl small(1), of w] this
    have "s div 4096 = s div 64 div 64" by (simp flip: div_mult2_eq)
    then have "s div 4096 = w" by (simp only: d)
    then show ?thesis
      using three s ts d by (simp add: utf8_encode_def t continuation_digit byte_eq)
  next
    case four
    then obtain t u v where t: "ts = [t, u, v]" by (auto simp: numeral_3_eq_3 length_Suc_conv)
    let ?h = "64 * w + (unat t - 128)" and ?m = "64 * (64 * w + (unat t - 128)) + (unat u - 128)"
    have joined: "s = 64 * ?m + (unat v - 128)" by (simp add: s(1) t trail_value_def)
    have small: "unat t - 128 < 64" "unat u - 128 < 64" "unat v - 128 < 64"
      using digit [of t] digit [of u] digit [of v] t by simp_all
    note d = div_joined [OF joined small(3)] div_joined [OF refl small(2), of ?h] div_joined [OF refl small(1), of w]
    have "s div 4096 = s div 64 div 64" "s div 262144 = s div 64 div 64 div 64" by (simp_all flip: div_mult2_eq)
    then have "s div 4096 = ?h" "s div 262144 = w" by (simp_all only: d)
    then show ?thesis
      using four s ts d by (simp add: utf8_encode_def t continuation_digit byte_eq)
  qed
qed

lemma unat_continuation: "unat (continuation n) = 128 + n mod 64"
proof -
  have "n mod 64 < 64" by simp
  then have "128 + n mod 64 < 256" by linarith
  from unat_of_byte [OF this] show ?thesis by (simp only: continuation_def)
qed

lemma encode_sequence:
  assumes "scalar_value s" "128 \<le> s"
  obtains b ts where "utf8_encode s = b # ts" "sequence_of b ts s" "128 \<le> unat b"
proof -
  consider (two) "s < 0x800" | (three) "0x800 \<le> s" "s < 0x10000" | (four) "0x10000 \<le> s" "s \<le> 0x10FFFF"
    using assms unfolding scalar_value_def by linarith
  then show thesis
  proof cases
    case two
    define b :: u8 where "b = of_nat (0xC0 + s div 64)"
    have d: "2 \<le> s div 64" "s div 64 < 32" using two div_le_mono [OF assms(2), of 64] by (simp_all add: div_less_iff_less_mult)
    then have b: "unat b = 0xC0 + s div 64" unfolding b_def by (intro unat_of_byte) linarith
    have "sequence_of b [continuation s] s"
      using d assms by (simp add: sequence_of_def lead_of_def unat_continuation trail_value_def b)
    moreover have "utf8_encode s = [b, continuation s]" using assms two by (simp add: utf8_encode_def b_def)
    ultimately show thesis using that b by simp
  next
    case three
    define b :: u8 where "b = of_nat (0xE0 + s div 4096)"
    have d: "s div 4096 < 16" using three by (simp add: div_less_iff_less_mult)
    then have b: "unat b = 0xE0 + s div 4096" unfolding b_def by (intro unat_of_byte) linarith
    have "s div 4096 = s div 64 div 64" by (simp flip: div_mult2_eq)
    then have "64 * (64 * (s div 4096) + s div 64 mod 64) + s mod 64 = s" by simp
    then have "sequence_of b [continuation (s div 64), continuation s] s"
      using d assms three by (simp add: sequence_of_def lead_of_def unat_continuation trail_value_def b)
    moreover have "utf8_encode s = [b, continuation (s div 64), continuation s]"
      using assms three by (simp add: utf8_encode_def b_def)
    ultimately show thesis using that b by simp
  next
    case four
    define b :: u8 where "b = of_nat (0xF0 + s div 262144)"
    have d: "s div 262144 < 5" using four by (simp add: div_less_iff_less_mult)
    then have b: "unat b = 0xF0 + s div 262144" unfolding b_def by (intro unat_of_byte) linarith
    have "s div 4096 = s div 64 div 64" "s div 262144 = s div 64 div 64 div 64" by (simp_all flip: div_mult2_eq)
    then have "64 * (64 * (64 * (s div 262144) + s div 4096 mod 64) + s div 64 mod 64) + s mod 64 = s" by simp
    then have "sequence_of b [continuation (s div 4096), continuation (s div 64), continuation s] s"
      using d assms four by (simp add: sequence_of_def lead_of_def unat_continuation trail_value_def b)
    moreover have "utf8_encode s = [b, continuation (s div 4096), continuation (s div 64), continuation s]"
      using assms four by (simp add: utf8_encode_def b_def)
    ultimately show thesis using that b by simp
  qed
qed

section \<open>Inputs\<close>

lemma encode_ascii: "s < 128 \<Longrightarrow> utf8_encode s = [of_nat s] \<and> scalar_value s"
  by (simp add: utf8_encode_def scalar_value_def)

lemma ascii_byte: "b \<le> 0x7F \<longleftrightarrow> unat b < 128" for b :: u8
  by (simp add: word_le_nat_alt) linarith

lemma ValidateUtf8_ascii: "b \<le> 0x7F \<Longrightarrow> ValidateUtf8_from (b # rest) i = ValidateUtf8_from rest (i + 1)"
  by (simp add: ValidateUtf8_from.simps [of "b # rest"])

lemma accepted_encoding:
  "list_all scalar_value scalars \<Longrightarrow> ValidateUtf8_from (concat (map utf8_encode scalars)) i = None"
proof (induction scalars arbitrary: i)
  case Nil
  then show ?case by (simp add: ValidateUtf8_from.simps)
next
  case (Cons s scalars)
  let ?rest = "concat (map utf8_encode scalars)"
  have rest: "ValidateUtf8_from ?rest k = None" for k using Cons by simp
  show ?case
  proof (cases "s < 128")
    case True
    then have "of_nat s \<le> (0x7F :: u8)" by (simp add: ascii_byte unat_of_byte)
    then show ?thesis using encode_ascii [OF True] rest by (simp add: ValidateUtf8_ascii)
  next
    case False
    then obtain b ts where h: "utf8_encode s = b # ts" "sequence_of b ts s" "128 \<le> unat b"
      using encode_sequence [of s] Cons.prems by auto
    then have "\<not> b \<le> 0x7F" by (simp add: ascii_byte)
    from ValidateUtf8_sequence [OF this, of "ts @ ?rest" i] show ?thesis using h rest by auto
  qed
qed

lemma encoding_accepted:
  "ValidateUtf8_from input i = None \<Longrightarrow> \<exists>scalars. list_all scalar_value scalars \<and> input = concat (map utf8_encode scalars)"
proof (induction input arbitrary: i rule: length_induct)
  case (1 input)
  show ?case
  proof (cases input)
    case Nil
    then show ?thesis by (intro exI [of _ "[]"]) simp
  next
    case (Cons b rest)
    obtain s tail k where h: "input = utf8_encode s @ tail" "scalar_value s" "length tail < length input"
      "ValidateUtf8_from tail k = None"
    proof (cases "b \<le> 0x7F")
      case True
      then have "utf8_encode (unat b) = [b] \<and> scalar_value (unat b)" using encode_ascii [of "unat b"] by (simp add: ascii_byte)
      then show thesis using that [of "unat b" rest "i + 1"] 1(2) True by (simp add: Cons ValidateUtf8_ascii)
    next
      case False
      then obtain ts s tail where "rest = ts @ tail" "sequence_of b ts s" "ValidateUtf8_from tail (i + length ts + 1) = None"
        using ValidateUtf8_sequence [OF False, of rest i] 1(2) Cons by auto
      then show thesis using that [of s tail] sequence_encode [of b ts s] by (simp add: Cons)
    qed
    then obtain scalars where "list_all scalar_value scalars" "tail = concat (map utf8_encode scalars)" using 1(1) by blast
    then show ?thesis using h by (intro exI [of _ "s # scalars"]) simp
  qed
qed

text \<open>The count of the bytes that are not continuation bytes is the number of the scalar values.\<close>

lemma count_encoding:
  "list_all scalar_value scalars \<Longrightarrow> CountUtf8ScalarValues (concat (map utf8_encode scalars)) = length scalars"
proof (induction scalars)
  case Nil
  then show ?case by (simp add: CountUtf8ScalarValues_def)
next
  case (Cons s scalars)
  have "length (filter (\<lambda>c. \<not> IsContinuationByte c) (utf8_encode s)) = 1"
  proof (cases "s < 128")
    case True
    then show ?thesis using encode_ascii [OF True] by (simp add: continuation_iff unat_of_byte)
  next
    case False
    then obtain b ts where h: "utf8_encode s = b # ts" "sequence_of b ts s" "128 \<le> unat b"
      using encode_sequence [of s] Cons.prems by auto
    then have "192 \<le> unat b" "filter (\<lambda>c. \<not> IsContinuationByte c) ts = []"
      by (auto simp: sequence_of_def lead_of_def continuation_iff list_all_iff filter_empty_conv split: if_splits)
    then show ?thesis by (simp add: h(1) continuation_iff)
  qed
  then show ?case using Cons by (simp add: CountUtf8ScalarValues_def)
qed

text \<open>C19. The UTF-8 check accepts an input exactly if it is the concatenation of the encodings of Unicode scalar
  values, written as the standard writes them: no overlong form, no surrogate, nothing beyond U+10FFFF, no truncated
  sequence; and the number the compiler counts for such an input is the number of its scalar values.\<close>

theorem utf8_exact:
  "(ValidateUtf8 input = None) = (\<exists>scalars. list_all scalar_value scalars \<and> input = concat (map utf8_encode scalars) \<and>
     CountUtf8ScalarValues input = length scalars)"
  unfolding ValidateUtf8_def using accepted_encoding encoding_accepted [of input 0] count_encoding by metis

end
