(* ===== verification/Spec2Isabelle.thy ===== *)
theory Spec2Isabelle
  imports Decimal_Plan Framer_Properties Host_Claims Compiler_Properties Plan_Text_Roundtrip Compiler_Utf8
begin

text \<open>
  Verification of the protocol adapter engine, the C++ code under \<^verbatim>\<open>src/src\<close>.

  \<^bold>\<open>The program.\<close>  An author describes a protocol in a document: messages with their fields, checksums and text
  layouts, pipelines that say which messages a line carries, framing profiles that say how a byte stream is cut into
  records.  The configuration compiler (\<^verbatim>\<open>config_compiler\<close>) checks the bytes of the document, reads it into a
  representation (\<^verbatim>\<open>SchemaIr\<close>), validates it, compares what it needs with the budget the author set and assembles a
  draft.  The plan builder (\<^verbatim>\<open>protocol_plan\<close>) checks the draft again, without trusting the compiler, derives the
  descriptors that are needed at run time and freezes them into one block of memory, the plan.  At run time nothing is
  allocated: the stream framer (\<^verbatim>\<open>protocol_framing\<close>) cuts records from the chunks of a stream, the record codec
  (\<^verbatim>\<open>protocol_core\<close>) decides which message a record is, decodes its fields and encodes records, and the host endpoint
  (\<^verbatim>\<open>host_endpoint\<close>) keeps the table of channels and drives both for the application.

  \<^bold>\<open>The theories, from the bottom up.\<close>  Each opens with the files and functions it models.

  \<^item> \<open>PAE_Prelude\<close>: machine types, sizes with their wrap-around, lemmas on words and lists that components share.
    \<open>Plan_Types\<close>: \<^verbatim>\<open>protocol_plan/plan_types.h\<close> and \<^verbatim>\<open>plan_bundle.h\<close>, the enumerations, limits and records of a plan.

  \<^item> \<open>Wide_Arith\<close>, \<open>Decimal_Codec\<close> (\<^verbatim>\<open>protocol_core/decimal_conversion_internal.cpp\<close>): the 256-bit limbs and the exact
    decimal conversion of raw integers.  \<open>Decimal_Plan\<close> (the file of the same name in \<^verbatim>\<open>protocol_plan\<close>): the descriptor
    of a conversion from the fractions an author writes.  The lemmas say that both sides compute over the rationals
    exactly, invert each other, and refuse only what does not fit the types.

  \<^item> \<open>Prefix_Match\<close>: prefix tables of patterns.  The compiler builds them, the builder checks them, framer and codec
    match with them; the locale \<^verbatim>\<open>prefix_table\<close> is that contract, interpreted on the compiler's construction.

  \<^item> \<open>Stream_Framer\<close> (\<^verbatim>\<open>protocol_framing/stream_framer.cpp\<close>): the workspace of a stream and the state machine of
    \<^verbatim>\<open>PushStreamChunk\<close>, one definition for each state.  \<open>Framing_Admission\<close>: the profiles the builder admits.
    \<open>Framer_Invariants\<close>, \<open>Framer_Sync\<close>, \<open>Framer_Recovery\<close> and \<open>Framer_Push\<close> keep the invariant through every state, the
    loop and a whole submission; \<open>Framer_Session\<close> extends it to sequences of creation, submission and reset, an
    inductive relation; \<open>Framer_Strategies\<close> has the abstract meaning of fixed-length and of CR LF framing, and
    \<open>Framer_Properties\<close> states the results.

  \<^item> \<open>Wire_Int\<close>, \<open>Integrity\<close>, \<open>Record_Match\<close> (\<^verbatim>\<open>protocol_core/complete_record_codec.cpp\<close>): integers in either byte order
    and bit fields (locale \<^verbatim>\<open>wire_integers\<close>), payload lengths, SUM8 and CRC, and the match of a record against the
    candidates of a pipeline (locale \<^verbatim>\<open>lower_bound\<close> for its two binary searches, on candidate groups and on enumeration
    values).

  \<^item> \<open>Codec_Types\<close>, \<open>Codec_Decode\<close>, \<open>Codec_Encode\<close>: \<^verbatim>\<open>DecodeCompleteRecord\<close> and \<^verbatim>\<open>EncodeCompleteRecord\<close> in full, with the
    order of their checks.  \<open>Codec_Session\<close>: the life of a workspace.  \<open>Codec_Exact\<close>: what a record means, field by
    field, and that the decoder delivers it.  \<open>Codec_Returns\<close>: every call ends.  \<open>Codec_Roundtrip\<close> and \<open>Text_Roundtrip\<close>:
    what was encoded is decoded.

  \<^item> \<open>Host_Endpoint\<close> (\<^verbatim>\<open>host_endpoint/host_endpoint.cpp\<close>): creation, handles, decoding, submitting, encoding, reset.
    \<open>Host_Session\<close>, \<open>Host_Properties\<close>, \<open>Host_Claims\<close>: channels are isolated, stay sessions of codec and framer, decode
    each frame once and in order, and keep their faults.

  \<^item> \<open>Plan_Memory\<close> (\<^verbatim>\<open>plan_memory.cpp\<close>), \<open>Plan_Draft\<close>, \<open>Plan_Text\<close>, \<open>Plan_Message\<close>, \<open>Plan_Pipeline\<close>, \<open>Plan_Builder\<close>,
    \<open>Plan_Freezing\<close> (\<^verbatim>\<open>plan_builder.cpp\<close>): all of \<^verbatim>\<open>PlanBuilder::Freeze\<close>, split as the code is.  \<open>Plan_Memory_Exact\<close>: the
    memory estimated is the memory used.  \<open>Plan_Accepted\<close>, \<open>Plan_Fields\<close>, \<open>Plan_Candidates\<close>, \<open>Plan_Boundary\<close>,
    \<open>Plan_Sound\<close> and \<open>Plan_Published\<close> take an accepted draft apart and derive what codec, framer and host rely on;
    \<open>Plan_Example\<close> has concrete drafts and \<open>Plan_Properties\<close> the results.  \<open>Plan_Text_Roundtrip\<close> has the round trip of
    text messages over published plans.

  \<^item> \<open>Compiler_IR\<close> (\<^verbatim>\<open>schema_ir.h\<close>, \<^verbatim>\<open>config_compiler.h\<close>), \<open>Compiler_Input\<close>, \<open>Compiler_Text\<close>, \<open>Compiler_Message\<close>,
    \<open>Compiler_Domain\<close>, \<open>Compiler_Budget\<close> (\<^verbatim>\<open>config_compiler.cpp\<close>): the check of the input bytes, and the stages from
    \<^verbatim>\<open>SchemaIr\<close> to the plan: \<^verbatim>\<open>DomainValidator\<close>, \<^verbatim>\<open>ResourceBudgetValidator\<close>, \<^verbatim>\<open>PlanDraftAssembler\<close>,
    \<^verbatim>\<open>FreezeBudgetedPlanDraft\<close>.  \<open>Compiler_Utf8\<close>: the meaning of the UTF-8 check.  \<open>Compiler_Sound\<close>,
    \<open>Compiler_Assembled\<close>, \<open>Compiler_Exact\<close> and \<open>Compiler_Boundary\<close> relate compiler and builder: both estimate the same
    memory and prove the same record boundaries.  \<open>Compiler_Example\<close> and \<open>Compiler_Encode_Only\<close> are configurations
    taken through all stages, and \<open>Compiler_Properties\<close> states the results.

  \<^bold>\<open>How the parts meet.\<close>  The codec, the framer and the host are proved correct under conditions on the plan:
  \<^verbatim>\<open>framing_ok\<close>, \<^verbatim>\<open>conversion_ok\<close>, ordered candidate groups, text actions with their tables, fields within their
  records.  The theorem \<^verbatim>\<open>freeze_sound\<close> shows that every plan the builder publishes meets them, where one thing is assumed of the
  draft, that a field outside bit containers names none (\<^verbatim>\<open>containers_unset\<close>, which the builder does not look at), and
  \<^verbatim>\<open>compile_sound\<close> shows the same for every plan the compiler produces, whose drafts have this.  The round trips
  \<^verbatim>\<open>published_roundtrip\<close> and \<^verbatim>\<open>published_text_roundtrip\<close> are stated over published plans, the second for messages with
  one layout for both directions; a record that another text message matches too is reported as ambiguous.  \<^verbatim>\<open>compile_reference\<close> says
  when a configuration compiles, and \<^verbatim>\<open>encode_only_pair_refused\<close> shows a configuration that the validator accepts and the
  builder refuses, which the compiler reports as a contract violation of its own.

  \<^bold>\<open>Conventions.\<close>  A function that fails returns a sum with the status or diagnostic on the left, or an option; every
  early return of the code is a branch.  A value of a record or a checksum is a word of its C++ width; sizes, indices
  and counts are natural numbers below the 64-bit bound, with the overflow tests of the code and with a wrapping addition
  where the code has none.  Buffers are lists of bytes with an address where the code compares addresses.
  A call that does not return is \<^verbatim>\<open>None\<close>: this can only come from the inner loop of a prefix table search
  (\<^verbatim>\<open>Fallback\<close>, a partial function, since a table that does not point backwards loops), and for admitted plans it is
  proved not to occur.  No definition uses fuel: the loop of the framer is a total function with a lexicographic
  measure, and the remaining loops recurse on lists, on intervals that shrink or on positions that grow to a bound.
  The sizes and alignments of the engine's types (\<^verbatim>\<open>Abi\<close>) and the success of an allocation are parameters, as are the
  sink and the callbacks of the application.

  \<^bold>\<open>The configuration of the build.\<close>  All macros \<^verbatim>\<open>PAE_ENABLE_SCHEMA_V05\<close> to \<^verbatim>\<open>V11\<close> are defined, the macro
  \<^verbatim>\<open>PAE_ENABLE_OPERATION_COUNTERS\<close> is not, and \<^verbatim>\<open>std::size_t\<close> has 64 bits.

  \<^bold>\<open>Not modelled.\<close>  The walk over the parsed JSON document that fills \<^verbatim>\<open>SchemaIr\<close> (the parser, yyjson, is third-party
  code), the descriptive metadata kept beside a plan and the snapshot of a plan for inspection; so the theorems on the
  compiler speak of every \<^verbatim>\<open>SchemaIr\<close> and name as hypotheses the two shapes its reader produces (enumeration entries only
  on enumeration fields, references not yet resolved).  The frozen storage classes, whose content is the plan itself;
  the fault injection and operation counters of instrumented builds; the texts of diagnostics; exceptions of the
  global heap outside the builder's one allocation.  The installed facade (\<^verbatim>\<open>public_api\<close>), the YAML front end, the
  tools with their user interface, the experiments, the samples, the tests and the third-party code.
\<close>

end
